(* ===== verification/Prelude.thy ===== *)
theory Prelude
  imports Complex_Main "HOL-Library.AList"
begin

text \<open>
  What the components share: JavaScript objects used as dictionaries (\<open>Record<string, T>\<close>),
  truthiness, JSON values, numbers, the array searches \<open>findIndex\<close> and
  \<open>findLastIndex\<close>, and two interfaces as locales: a keyed dictionary, and a system of
  steps with an invariant.

  Numbers. A finite JavaScript number is a rational; arithmetic is modelled exactly (the
  rounding of IEEE doubles is not). A \<open>typeof value === "number"\<close> that is not finite
  (\<open>NaN\<close>, \<open>Infinity\<close>) is the JSON value \<open>JNonFinite\<close>.

  Strings. A string is a list of characters, so only code units below 256 are represented.

  Objects. \<open>{...o, [k]: v}\<close> writes in place when \<open>k\<close> is a key and appends
  otherwise; \<open>const {[k]: _, ...rest} = o\<close> and \<open>delete o[k]\<close> drop the key;
  \<open>Object.keys\<close> is insertion order. (JavaScript moves keys that are canonical array
  indices, such as ''7'', to the front; session, message and tab ids are never of that form.)
\<close>

section \<open>Numbers, truthiness and JSON values\<close>

type_synonym js_number = rat

datatype json =
    JNull
  | JBool bool
  | JNum js_number
  | JNonFinite
  | JStr string
  | JArr "json list"
  | JObj "(string \<times> json) list"

text \<open>\<open>Boolean(s)\<close> of a \<open>string | null | undefined\<close>: the empty string is falsy.\<close>

definition truthy :: "string option \<Rightarrow> bool" where
  "truthy s = (case s of None \<Rightarrow> False | Some t \<Rightarrow> t \<noteq> [])"

lemma truthy_simps [simp]:
  "\<not> truthy None" "truthy (Some t) \<longleftrightarrow> t \<noteq> []"
  by (simp_all add: truthy_def)

definition or_else :: "'a option \<Rightarrow> 'a \<Rightarrow> 'a" where
  \<comment> \<open>\<open>x ?? d\<close>\<close>
  "or_else x d = (case x of None \<Rightarrow> d | Some v \<Rightarrow> v)"

lemma or_else_simps [simp]: "or_else None d = d" "or_else (Some v) d = v"
  by (simp_all add: or_else_def)

definition or_option :: "'a option \<Rightarrow> 'a option \<Rightarrow> 'a option" where
  \<comment> \<open>\<open>x ?? y\<close> where \<open>y\<close> may be null itself\<close>
  "or_option x y = (case x of None \<Rightarrow> y | Some v \<Rightarrow> Some v)"

lemma or_option_simps [simp]: "or_option None y = y" "or_option (Some v) y = Some v"
  by (simp_all add: or_option_def)

section \<open>Objects as dictionaries\<close>

type_synonym 'v jsobj = "(string \<times> 'v) list"

definition obj_get :: "'v jsobj \<Rightarrow> string \<Rightarrow> 'v option" where
  "obj_get m k = map_of m k"

definition obj_set :: "string \<Rightarrow> 'v \<Rightarrow> 'v jsobj \<Rightarrow> 'v jsobj" where
  "obj_set k v m = AList.update k v m"

definition obj_del :: "string \<Rightarrow> 'v jsobj \<Rightarrow> 'v jsobj" where
  "obj_del k m = filter (\<lambda>p. fst p \<noteq> k) m"

definition obj_keys :: "'v jsobj \<Rightarrow> string list" where
  "obj_keys m = map fst m"

definition obj_wf :: "'v jsobj \<Rightarrow> bool" where
  "obj_wf m \<longleftrightarrow> distinct (map fst m)"

named_theorems obj_laws "laws of the object operations"

lemma obj_get_empty [simp]: "obj_get [] k = None"
  by (simp add: obj_get_def)

lemma obj_get_set [simp, obj_laws]:
  "obj_get (obj_set k v m) k' = (if k' = k then Some v else obj_get m k')"
  by (simp add: obj_get_def obj_set_def update_conv')

lemma obj_get_del [simp, obj_laws]:
  "obj_get (obj_del k m) k' = (if k' = k then None else obj_get m k')"
  by (induction m) (auto simp: obj_get_def obj_del_def)

lemma obj_wf_empty [simp, obj_laws]: "obj_wf []"
  by (simp add: obj_wf_def)

lemma obj_wf_set [simp, obj_laws]: "obj_wf m \<Longrightarrow> obj_wf (obj_set k v m)"
  by (simp add: obj_wf_def obj_set_def distinct_update)

lemma obj_wf_filter [simp]: "obj_wf m \<Longrightarrow> obj_wf (filter p m)"
  by (induction m) (auto simp: obj_wf_def)

lemma obj_wf_del [simp, obj_laws]: "obj_wf m \<Longrightarrow> obj_wf (obj_del k m)"
  by (simp add: obj_del_def)

lemma obj_keys_get: "k \<in> set (obj_keys m) \<longleftrightarrow> obj_get m k \<noteq> None"
  by (simp add: obj_keys_def obj_get_def map_of_eq_None_iff)

lemma obj_get_in: "obj_wf m \<Longrightarrow> obj_get m k = Some v \<longleftrightarrow> (k, v) \<in> set m"
  by (simp add: obj_wf_def obj_get_def)

lemma obj_get_filter:
  "obj_wf m \<Longrightarrow> obj_get (filter (\<lambda>p. P (fst p) (snd p)) m) k =
    (case obj_get m k of None \<Rightarrow> None | Some v \<Rightarrow> if P k v then Some v else None)"
  by (induction m)
    (auto simp: obj_get_def obj_wf_def map_of_eq_None_iff split: option.splits
      dest: map_of_SomeD intro: rev_image_eqI)

lemma obj_set_keys:
  "obj_keys (obj_set k v m) = (if k \<in> set (obj_keys m) then obj_keys m else obj_keys m @ [k])"
  by (simp add: obj_keys_def obj_set_def update_keys)

lemma obj_set_same: "obj_get m k = Some v \<Longrightarrow> obj_set k v m = m"
  by (induction m) (auto simp: obj_get_def obj_set_def split: if_splits)

lemma obj_set_nonempty [simp]: "obj_set k v m \<noteq> []"
  by (cases m) (auto simp: obj_set_def)

section \<open>The dictionary interface\<close>

text \<open>
  What the stores rely on when they keep one entry per session: reads after writes, and the
  well-formedness (one entry per key) that every write keeps. \<open>move\<close> is the pattern of
  renaming a key that the stores use when a draft session gets its backend id.
\<close>

locale js_dict =
  fixes get :: "'m \<Rightarrow> 'k \<Rightarrow> 'v option"
    and put :: "'k \<Rightarrow> 'v \<Rightarrow> 'm \<Rightarrow> 'm"
    and del :: "'k \<Rightarrow> 'm \<Rightarrow> 'm"
    and wf :: "'m \<Rightarrow> bool"
  assumes get_put: "get (put k v m) k' = (if k' = k then Some v else get m k')"
    and get_del: "get (del k m) k' = (if k' = k then None else get m k')"
    and wf_put: "wf m \<Longrightarrow> wf (put k v m)"
    and wf_del: "wf m \<Longrightarrow> wf (del k m)"
begin

lemma put_frame: "k' \<noteq> k \<Longrightarrow> get (put k v m) k' = get m k'"
  by (simp add: get_put)

lemma del_frame: "k' \<noteq> k \<Longrightarrow> get (del k m) k' = get m k'"
  by (simp add: get_del)

lemma rename_get:
  "a \<noteq> b \<Longrightarrow> get (put b v (del a m)) k =
     (if k = a then None else if k = b then Some v else get m k)"
  by (simp add: get_put get_del)

lemma rename_wf: "wf m \<Longrightarrow> wf (put b v (del a m))"
  by (simp add: wf_put wf_del)

end

interpretation obj: js_dict obj_get obj_set obj_del obj_wf
  by unfold_locales simp_all

text \<open>
  \<open>x ? {...rest, [b]: x} : rest\<close> after \<open>const {[a]: x, ...rest} = m\<close>: the entry of
  \<open>a\<close> moves to \<open>b\<close> when it is present and its value satisfies \<open>p\<close>.
\<close>

definition obj_move :: "('v \<Rightarrow> bool) \<Rightarrow> string \<Rightarrow> string \<Rightarrow> 'v jsobj \<Rightarrow> 'v jsobj" where
  "obj_move p a b m =
    (case obj_get m a of
       Some v \<Rightarrow> if p v then obj_set b v (obj_del a m) else obj_del a m
     | None \<Rightarrow> obj_del a m)"

lemma obj_get_move [simp]:
  "obj_get (obj_move p a b m) k =
    (if k = b \<and> (case obj_get m a of Some v \<Rightarrow> p v | None \<Rightarrow> False) then obj_get m a
     else if k = a then None else obj_get m k)"
  by (auto simp: obj_move_def split: option.splits)

lemma obj_wf_move [simp]: "obj_wf m \<Longrightarrow> obj_wf (obj_move p a b m)"
  by (auto simp: obj_move_def obj.rename_wf split: option.splits)

section \<open>Systems of steps with an invariant\<close>

text \<open>
  Several components are a state and a set of actions. The contract a component proves is
  that each action, when it is enabled, keeps the invariant; what it gets is that every
  sequence of enabled actions keeps it.
\<close>

locale step_system =
  fixes step :: "'e \<Rightarrow> 's \<Rightarrow> 's"
    and enabled :: "'e \<Rightarrow> 's \<Rightarrow> bool"
    and inv :: "'s \<Rightarrow> bool"
  assumes step_inv: "inv s \<Longrightarrow> enabled e s \<Longrightarrow> inv (step e s)"
begin

primrec run :: "'e list \<Rightarrow> 's \<Rightarrow> 's" where
  "run [] s = s"
| "run (e # es) s = run es (step e s)"

primrec run_enabled :: "'e list \<Rightarrow> 's \<Rightarrow> bool" where
  "run_enabled [] s \<longleftrightarrow> True"
| "run_enabled (e # es) s \<longleftrightarrow> enabled e s \<and> run_enabled es (step e s)"

lemma run_inv: "inv s \<Longrightarrow> run_enabled es s \<Longrightarrow> inv (run es s)"
  by (induction es arbitrary: s) (simp_all add: step_inv)

lemma run_append: "run (xs @ ys) s = run ys (run xs s)"
  by (induction xs arbitrary: s) simp_all

lemma run_fold: "run es s = fold step es s"
  by (induction es arbitrary: s) simp_all

lemma total_run_inv: "(\<And>e s. enabled e s) \<Longrightarrow> inv s \<Longrightarrow> inv (fold step es s)"
proof -
  assume en: "\<And>e s. enabled e s" and i: "inv s"
  have "run_enabled es s" for s
    by (induction es arbitrary: s) (simp_all add: en)
  with i have "inv (run es s)" by (blast intro: run_inv)
  then show ?thesis by (simp add: run_fold)
qed

end

section \<open>Array searches\<close>

fun find_index :: "('a \<Rightarrow> bool) \<Rightarrow> 'a list \<Rightarrow> nat option" where
  \<comment> \<open>\<open>Array.prototype.findIndex\<close>, \<open>None\<close> for \<open>-1\<close>\<close>
  "find_index p [] = None"
| "find_index p (x # xs) = (if p x then Some 0 else map_option Suc (find_index p xs))"

fun find_last_index :: "('a \<Rightarrow> bool) \<Rightarrow> 'a list \<Rightarrow> nat option" where
  \<comment> \<open>\<open>Array.prototype.findLastIndex\<close>, \<open>None\<close> for \<open>-1\<close>\<close>
  "find_last_index p [] = None"
| "find_last_index p (x # xs) =
    (case find_last_index p xs of
       Some i \<Rightarrow> Some (Suc i)
     | None \<Rightarrow> if p x then Some 0 else None)"

lemma find_index_None: "find_index p xs = None \<longleftrightarrow> (\<forall>x\<in>set xs. \<not> p x)"
  by (induction xs) auto

lemma find_index_Some:
  "find_index p xs = Some i \<longleftrightarrow> i < length xs \<and> p (xs ! i) \<and> (\<forall>j<i. \<not> p (xs ! j))"
proof (induction xs arbitrary: i)
  case Nil
  then show ?case by simp
next
  case (Cons x xs)
  then show ?case
    by (cases i) (auto simp: less_Suc_eq_0_disj)
qed

lemma find_last_index_None: "find_last_index p xs = None \<longleftrightarrow> (\<forall>x\<in>set xs. \<not> p x)"
  by (induction xs) (auto split: option.splits)

lemma find_last_index_Some:
  "find_last_index p xs = Some i \<longleftrightarrow>
    i < length xs \<and> p (xs ! i) \<and> (\<forall>j. i < j \<and> j < length xs \<longrightarrow> \<not> p (xs ! j))"
proof (induction xs arbitrary: i)
  case Nil
  then show ?case by simp
next
  case (Cons x xs)
  show ?case
  proof (cases "find_last_index p xs")
    case None
    then have no: "\<forall>y\<in>set xs. \<not> p y" by (simp add: find_last_index_None)
    show ?thesis
      using None no by (cases i) (auto simp: nth_Cons split: nat.splits)
  next
    case (Some k)
    then have k: "k < length xs" "p (xs ! k)" "\<forall>j. k < j \<and> j < length xs \<longrightarrow> \<not> p (xs ! j)"
      using Cons.IH by auto
    show ?thesis
    proof (cases i)
      case 0
      then show ?thesis using Some k by (auto intro!: exI[of _ "Suc k"])
    next
      case (Suc i')
      have "k = i' \<longleftrightarrow> i' < length xs \<and> p (xs ! i') \<and>
          (\<forall>j. i' < j \<and> j < length xs \<longrightarrow> \<not> p (xs ! j))"
        using Cons.IH [of i'] Some by simp
      then show ?thesis using Some Suc
        by (auto simp: nth_Cons less_Suc_eq_0_disj split: nat.splits)
    qed
  qed
qed

lemmas find_index_bound = find_index_Some [THEN iffD1, THEN conjunct1]
  and find_last_index_bound = find_last_index_Some [THEN iffD1, THEN conjunct1]

text \<open>\<open>slice(0, n)\<close> and \<open>slice(n)\<close> with \<open>0 \<le> n\<close> are \<open>take\<close> and \<open>drop\<close>.\<close>

fun dedup :: "'a list \<Rightarrow> 'a list" where
  \<comment> \<open>\<open>Array.from(new Set(xs))\<close>: the first occurrence of each element, in order\<close>
  "dedup [] = []"
| "dedup (x # xs) = x # filter (\<lambda>y. y \<noteq> x) (dedup xs)"

lemma set_dedup [simp]: "set (dedup xs) = set xs"
  by (induction xs) auto

lemma distinct_dedup [simp]: "distinct (dedup xs)"
  by (induction xs) auto

lemma dedup_id: "distinct xs \<Longrightarrow> dedup xs = xs"
  by (induction xs) (auto simp: filter_id_conv)

end
