(* ===== verification/JsStrings.thy ===== *)
theory JsStrings
  imports Prelude
begin

text \<open>
  The string methods of the language that the components use. A string is a list of HOL
  characters: its code units, which are below 256 here.
\<close>

section \<open>trim\<close>

definition is_js_space :: "char \<Rightarrow> bool" where
  \<comment> \<open>white space and line terminators below U+0100\<close>
  "is_js_space c \<longleftrightarrow> (let n = of_char c :: nat in (9 \<le> n \<and> n \<le> 13) \<or> n = 32 \<or> n = 160)"

definition js_trim :: "string \<Rightarrow> string" where
  "js_trim s = rev (dropWhile is_js_space (rev (dropWhile is_js_space s)))"

definition trimmed :: "string \<Rightarrow> bool" where
  "trimmed s \<longleftrightarrow> s = [] \<or> (\<not> is_js_space (hd s) \<and> \<not> is_js_space (last s))"

lemma dropWhile_hd: "dropWhile p s \<noteq> [] \<Longrightarrow> \<not> p (hd (dropWhile p s))"
  by (rule hd_dropWhile)

lemma trimmed_trim [simp]: "trimmed (js_trim s)"
proof -
  let ?a = "dropWhile is_js_space s"
  let ?b = "dropWhile is_js_space (rev ?a)"
  show ?thesis
  proof (cases "?b = []")
    case True
    then show ?thesis by (simp add: trimmed_def js_trim_def)
  next
    case False
    then have "\<not> is_js_space (hd ?b)" by (rule hd_dropWhile)
    moreover have "\<not> is_js_space (last ?b)"
    proof -
      have "rev ?a = takeWhile is_js_space (rev ?a) @ ?b" by simp
      with False have "last (rev ?a) = last ?b" by (metis last_append)
      moreover have "?a \<noteq> []" using False by (metis dropWhile.simps(1) rev.simps(1))
      ultimately show ?thesis using hd_dropWhile [of is_js_space s] by (simp add: last_rev)
    qed
    ultimately show ?thesis using False by (simp add: trimmed_def js_trim_def hd_rev last_rev)
  qed
qed

lemma trim_trimmed: "trimmed s \<Longrightarrow> js_trim s = s"
proof (cases "s = []")
  case False
  assume "trimmed s"
  with False have "\<not> is_js_space (hd s)" "\<not> is_js_space (hd (rev s))"
    by (simp_all add: trimmed_def hd_rev)
  with False show ?thesis
    using False by (simp add: js_trim_def dropWhile_eq_self_iff [THEN iffD2])
qed (simp add: js_trim_def)

lemma trim_idem [simp]: "js_trim (js_trim s) = js_trim s"
  by (rule trim_trimmed) simp

section \<open>split and join\<close>

fun js_split :: "char \<Rightarrow> string \<Rightarrow> string list" where
  \<comment> \<open>\<open>s.split(c)\<close> for a separator of one character\<close>
  "js_split c [] = [[]]"
| "js_split c (x # xs) =
    (if x = c then [] # js_split c xs
     else (case js_split c xs of [] \<Rightarrow> [[x]] | s # ss \<Rightarrow> (x # s) # ss))"

fun js_join :: "string \<Rightarrow> string list \<Rightarrow> string" where
  \<comment> \<open>\<open>ss.join(sep)\<close>\<close>
  "js_join sep [] = []"
| "js_join sep [s] = s"
| "js_join sep (s # t # ss) = s @ sep @ js_join sep (t # ss)"

lemma js_split_nonempty [simp]: "js_split c s \<noteq> []"
  by (cases s) (auto split: list.split)

lemma js_join_split [simp]: "js_join [c] (js_split c s) = s"
proof (induction s)
  case (Cons x xs)
  then show ?case by (cases "js_split c xs"; cases "tl (js_split c xs)") (auto split: list.split)
qed simp

lemma js_split_no_sep: "p \<in> set (js_split c s) \<Longrightarrow> c \<notin> set p"
proof (induction s arbitrary: p)
  case (Cons x xs)
  then show ?case by (cases "js_split c xs") (auto split: if_splits)
qed simp

lemma js_split_chars: "p \<in> set (js_split c s) \<Longrightarrow> set p \<subseteq> set s"
proof (induction s arbitrary: p)
  case (Cons x xs)
  then show ?case by (cases "js_split c xs") (fastforce split: if_splits)+
qed simp

lemma js_split_single: "c \<notin> set s \<Longrightarrow> js_split c s = [s]"
  by (induction s) auto

lemma js_split_append: "c \<notin> set s \<Longrightarrow> js_split c (s @ c # r) = s # js_split c r"
  by (induction s) auto

lemma js_split_join:
  "ss \<noteq> [] \<Longrightarrow> \<forall>s\<in>set ss. c \<notin> set s \<Longrightarrow> js_split c (js_join [c] ss) = ss"
  by (induction "[c]" ss rule: js_join.induct) (auto simp: js_split_single js_split_append)

section \<open>Case\<close>

definition lower_char :: "char \<Rightarrow> char" where
  \<comment> \<open>the letters A-Z and, above U+00BF, the accented capitals\<close>
  "lower_char c =
    (let n = of_char c :: nat in
     if (65 \<le> n \<and> n \<le> 90) \<or> (192 \<le> n \<and> n \<le> 222 \<and> n \<noteq> 215) then char_of (n + 32) else c)"

definition js_lower :: "string \<Rightarrow> string" where
  \<comment> \<open>\<open>s.toLowerCase()\<close>\<close>
  "js_lower = map lower_char"

definition is_letter :: "char \<Rightarrow> bool" where
  \<comment> \<open>\<open>[a-zA-Z]\<close>\<close>
  "is_letter c \<longleftrightarrow> (let n = of_char c :: nat in (65 \<le> n \<and> n \<le> 90) \<or> (97 \<le> n \<and> n \<le> 122))"

lemma lower_char_idem [simp]: "lower_char (lower_char c) = lower_char c"
  by (auto simp: lower_char_def Let_def)

lemma js_lower_idem [simp]: "js_lower (js_lower s) = js_lower s"
  by (simp add: js_lower_def)

lemma js_lower_simps [simp]:
  "js_lower [] = []" "js_lower (c # s) = lower_char c # js_lower s"
  "js_lower (s @ t) = js_lower s @ js_lower t" "js_lower s = [] \<longleftrightarrow> s = []"
  by (simp_all add: js_lower_def)

lemma js_lower_join: "js_lower (js_join sep ss) = js_join (js_lower sep) (map js_lower ss)"
  by (induction sep ss rule: js_join.induct) simp_all

section \<open>Line terminators\<close>

definition one_line :: "string \<Rightarrow> bool" where
  \<comment> \<open>what the pattern \<open>.*\<close> can match\<close>
  "one_line s \<longleftrightarrow> CHR 0x0A \<notin> set s \<and> CHR 0x0D \<notin> set s"

section \<open>Numbers as text\<close>

definition digit_char :: "nat \<Rightarrow> char" where
  "digit_char d = (if d < 10 then char_of (48 + d) else char_of (87 + d))"

function nat_string :: "nat \<Rightarrow> nat \<Rightarrow> string" where
  \<comment> \<open>\<open>n.toString(b)\<close>; the base is at least two\<close>
  "nat_string b n =
    (if b < 2 \<or> n < b then [digit_char n] else nat_string b (n div b) @ [digit_char (n mod b)])"
  by pat_completeness auto
termination by (relation "measure snd") (auto intro: div_less_dividend)

declare nat_string.simps [simp del]

definition digit_value :: "char \<Rightarrow> nat" where
  "digit_value c = (let n = of_char c in if n < 58 then n - 48 else n - 87)"

definition string_value :: "nat \<Rightarrow> string \<Rightarrow> nat" where
  "string_value b s = fold (\<lambda>c v. v * b + digit_value c) s 0"

lemma digit_value_char [simp]: "d < 36 \<Longrightarrow> digit_value (digit_char d) = d"
  by (simp add: digit_value_def digit_char_def Let_def)

lemma string_value_nat: "2 \<le> b \<Longrightarrow> b \<le> 36 \<Longrightarrow> string_value b (nat_string b n) = n"
proof (induction b n rule: nat_string.induct)
  case (1 b n)
  have "n mod b < b" using 1(2) by (intro mod_less_divisor) simp
  then have "digit_value (digit_char (n mod b)) = n mod b" using 1(3) by (intro digit_value_char) simp
  then show ?case using 1
    by (simp add: nat_string.simps [of b n]) (auto simp: string_value_def)
qed

lemma nat_string_inj: "2 \<le> b \<Longrightarrow> b \<le> 36 \<Longrightarrow> nat_string b m = nat_string b n \<longleftrightarrow> m = n"
  by (metis string_value_nat)

lemma digit_no_dash: "d < 36 \<Longrightarrow> digit_char d \<noteq> CHR ''-''"
proof
  assume d: "d < 36" and e: "digit_char d = CHR ''-''"
  have "of_char (digit_char d) = (45 :: nat)" by (simp add: e)
  then show False using d by (simp add: digit_char_def split: if_splits)
qed

lemma nat_string_no_dash: "2 \<le> b \<Longrightarrow> b \<le> 36 \<Longrightarrow> CHR ''-'' \<notin> set (nat_string b n)"
proof (induction b n rule: nat_string.induct)
  case (1 b n)
  have "n mod b < b" using 1(2) by (intro mod_less_divisor) simp
  then have m: "digit_char (n mod b) \<noteq> CHR ''-''" using 1(3) by (intro digit_no_dash) simp
  show ?case
  proof (cases "n < b")
    case True
    then show ?thesis using 1(3) digit_no_dash [of n] by (auto simp: nat_string.simps [of b n])
  next
    case False
    then show ?thesis using 1 m by (auto simp: nat_string.simps [of b n])
  qed
qed

end
