(* ===== verification/Messages.thy ===== *)
theory Messages
  imports JsStrings
begin

text \<open>
  The message data model (\<open>src/src/shared/types/messages.ts\<close>) and the runtime state of a
  chat session (\<open>src/src/shared/types/chat.ts\<close>), with the helpers of
  \<open>messageCompletion.ts\<close> and \<open>sessionActivity.ts\<close>.

  An optional TypeScript field is an option. A payload that the code passes through without
  looking inside (annotations, tool arguments, resources, schemas) is a JSON value. Fields are
  prefixed by their type, because HOL has its own \<open>id\<close>.
\<close>

section \<open>Content blocks\<close>

datatype voice_speech_status = Speaking | Spoken | Interrupted | NotSpoken | SpeechFailed

datatype speech_confidence = ConfidenceLow | ConfidenceMedium

datatype interruption_cause = UserSpeaking | VoiceStopped

record voice_speech_state =
  vs_status :: voice_speech_status
  vs_spokenThrough :: "js_number option"
  vs_confidence :: "speech_confidence option"
  vs_interruptionCause :: "interruption_cause option"

datatype tool_call_status = ToolPending | ToolInProgress | ToolCompleted | ToolFailed | ToolStopped

record tool_chain_summary =
  tcs_summary :: string
  tcs_count :: js_number

record tool_request_content =
  treq_id :: string
  treq_name :: string
  treq_toolName :: "string option"
  treq_extensionName :: "string option"
  treq_arguments :: json
  treq_status :: tool_call_status
  treq_toolKind :: "string option"
  treq_locations :: "json list option"
  treq_startedAt :: "js_number option"
  treq_annotations :: "json option"
  treq_chainSummary :: "tool_chain_summary option"
  treq_subagentAgentName :: "string option"
  treq_subagentTaskLabel :: "string option"
  treq_subagentTaskIsConfigured :: "bool option"

record tool_response_content =
  tres_id :: string
  tres_name :: string
  tres_result :: string
  tres_structuredContent :: "json option"
  tres_isError :: bool
  tres_annotations :: "json option"

record mcp_app_payload =
  mcp_sessionId :: string
  mcp_toolCallId :: string
  mcp_toolCallTitle :: string
  mcp_tool_name :: string
  mcp_tool_extensionName :: string
  mcp_tool_resourceUri :: string
  mcp_tool_meta :: "json option"
  mcp_resource_result :: "json option"
  mcp_resource_readError :: "string option"

datatype action_type = ToolConfirmation | Elicitation

record action_required_content =
  areq_id :: string
  areq_actionType :: action_type
  areq_message :: "string option"
  areq_toolName :: "string option"
  areq_arguments :: "json option"
  areq_schema :: "json option"
  areq_annotations :: "json option"

datatype notification_type = NotifCompaction | NotifInfo | NotifWarning | NotifError

datatype system_notification_action = EditProject string | OpenContextPanel

text \<open>
  The union \<open>MessageContent\<close>, one constructor per \<open>type\<close> discriminator. Text carries
  the ACP annotations and the local speech state; images are opaque.
\<close>

datatype message_content =
    TextContent string "voice_speech_state option" "json option"
  | ImageContent json
  | ToolRequest tool_request_content
  | ToolResponse tool_response_content
  | McpApp string mcp_app_payload
  | Thinking string "json option"
  | RedactedThinking "json option"
  | Reasoning string "json option"
  | ActionRequired action_required_content
  | SystemNotification notification_type string "system_notification_action option" "json option"

section \<open>Messages\<close>

datatype message_role = User | Assistant | System

datatype completion_status = InProgress | Completed | CompletionError | Stopped

datatype message_delivery = Steering | Steer

datatype message_origin = BerdctlCrossSession | VoiceConversation

datatype attachment_type = FileAttachment | UrlAttachment | DirectoryAttachment

record message_attachment =
  matt_type :: attachment_type
  matt_name :: string
  matt_path :: "string option"
  matt_url :: "string option"
  matt_mimeType :: "string option"

datatype chip_type = AgentChip | SkillChip | ExtensionChip | RecipeChip

datatype agent_role = ActiveAgent | MentionedAgent

record message_chip =
  chip_id :: "string option"
  chip_label :: string
  chip_agentRole :: "agent_role option"
  chip_kind :: chip_type

record message_metadata =
  userVisible :: "bool option"
  agentVisible :: "bool option"
  delivery :: "message_delivery option"
  steeringRequestId :: "string option"
  origin :: "message_origin option"
  berdSenderLabel :: "string option"
  berdEventType :: "string option"
  berdDeliveryId :: "string option"
  voiceUtteranceId :: "string option"
  voiceConversationLifecycleId :: "string option"
  voiceConversationRevision :: "js_number option"
  meta_attachments :: "message_attachment list option"
  meta_chips :: "message_chip list option"
  meta_personaId :: "string option"
  meta_personaName :: "string option"
  meta_providerId :: "string option"
  targetPersonaId :: "string option"
  targetPersonaName :: "string option"
  completionStatus :: "completion_status option"

definition empty_metadata :: message_metadata where
  \<comment> \<open>the object \<open>{}\<close>\<close>
  "empty_metadata = \<lparr>userVisible = None, agentVisible = None, delivery = None,
     steeringRequestId = None, origin = None, berdSenderLabel = None, berdEventType = None,
     berdDeliveryId = None, voiceUtteranceId = None, voiceConversationLifecycleId = None,
     voiceConversationRevision = None, meta_attachments = None, meta_chips = None,
     meta_personaId = None, meta_personaName = None, meta_providerId = None,
     targetPersonaId = None, targetPersonaName = None, completionStatus = None\<rparr>"

record message =
  msg_id :: string
  msg_role :: message_role
  msg_created :: js_number
  msg_content :: "message_content list"
  msg_metadata :: "message_metadata option"

definition meta_field :: "(message_metadata \<Rightarrow> 'a option) \<Rightarrow> message \<Rightarrow> 'a option" where
  \<comment> \<open>\<open>message.metadata?.field\<close>\<close>
  "meta_field f m = Option.bind (msg_metadata m) f"

fun isTextContent :: "message_content \<Rightarrow> bool" where
  "isTextContent (TextContent _ _ _) = True"
| "isTextContent _ = False"

fun content_text :: "message_content \<Rightarrow> string" where
  \<comment> \<open>\<open>c.text\<close> of a text block\<close>
  "content_text (TextContent t _ _) = t"
| "content_text _ = []"

definition getTextContent :: "message \<Rightarrow> string" where
  "getTextContent m =
     js_join [CHR 0x0A] (map content_text (filter isTextContent (msg_content m)))"

text \<open>\<open>crypto.randomUUID()\<close> and \<open>Date.now()\<close> are arguments.\<close>

definition createUserMessage ::
  "string \<Rightarrow> js_number \<Rightarrow> string \<Rightarrow> message_attachment list option \<Rightarrow>
   message_chip list option \<Rightarrow> message" where
  "createUserMessage uuid now text attachments chips =
    \<lparr>msg_id = uuid, msg_role = User, msg_created = now,
     msg_content = [TextContent text None None],
     msg_metadata = Some (empty_metadata\<lparr>
       userVisible := Some True,
       agentVisible := Some True,
       meta_attachments := attachments,
       meta_chips := (case chips of
          Some cs \<Rightarrow> if length cs > 0 then Some cs else None
        | None \<Rightarrow> None)\<rparr>)\<rparr>"

definition createSystemNotificationMessage ::
  "string \<Rightarrow> js_number \<Rightarrow> string \<Rightarrow> notification_type \<Rightarrow>
   system_notification_action option \<Rightarrow> message" where
  "createSystemNotificationMessage uuid now text notificationType action =
    \<lparr>msg_id = uuid, msg_role = System, msg_created = now,
     msg_content = [SystemNotification notificationType text action None],
     msg_metadata = Some (empty_metadata\<lparr>
       userVisible := Some True, agentVisible := Some False\<rparr>)\<rparr>"

text \<open>
  \<open>completeAssistantMessage\<close> (\<open>lib/messageCompletion.ts\<close>): the metadata exists
  when its \<open>completionStatus\<close> is set, so the spread never meets an absent object.
\<close>

definition completeAssistantMessage :: "message \<Rightarrow> message" where
  "completeAssistantMessage m =
    (if msg_role m \<noteq> Assistant \<or> meta_field completionStatus m \<noteq> Some InProgress then m
     else m\<lparr>msg_metadata :=
       map_option (\<lambda>md. md\<lparr>completionStatus := Some Completed\<rparr>) (msg_metadata m)\<rparr>)"

lemma completeAssistantMessage_id [simp]: "msg_id (completeAssistantMessage m) = msg_id m"
  by (simp add: completeAssistantMessage_def)

lemma completeAssistantMessage_content [simp]:
  "msg_content (completeAssistantMessage m) = msg_content m"
  by (simp add: completeAssistantMessage_def)

lemma completeAssistantMessage_done:
  "msg_role m = Assistant \<Longrightarrow>
   meta_field completionStatus (completeAssistantMessage m) \<noteq> Some InProgress"
  by (auto simp: completeAssistantMessage_def meta_field_def split: Option.bind_splits)

section \<open>Session runtime\<close>

datatype chat_state =
  ChatIdle | ChatThinking | ChatStreaming | ChatWaiting | ChatCompacting | ChatError

record token_state =
  inputTokens :: js_number
  outputTokens :: js_number
  totalTokens :: js_number
  accumulatedInput :: js_number
  accumulatedOutput :: js_number
  accumulatedTotal :: js_number
  contextLimit :: js_number
  accumulatedCost :: "js_number option"

definition INITIAL_TOKEN_STATE :: token_state where
  "INITIAL_TOKEN_STATE = \<lparr>inputTokens = 0, outputTokens = 0, totalTokens = 0,
     accumulatedInput = 0, accumulatedOutput = 0, accumulatedTotal = 0, contextLimit = 0,
     accumulatedCost = None\<rparr>"

text \<open>\<open>pendingInterventionBoundary\<close> is null or an object with one id: a string option.\<close>

record session_runtime =
  chatState :: chat_state
  tokenState :: token_state
  hasUsageSnapshot :: bool
  streamingMessageId :: "string option"
  activeRunId :: "string option"
  hasToolCallInRun :: bool
  isRunCancellationPending :: bool
  pendingInterventionBoundary :: "string option"
  pendingAssistantProviderId :: "string option"
  runtime_error :: "string option"
  hasUnread :: bool

definition INITIAL_SESSION_CHAT_RUNTIME :: session_runtime where
  "INITIAL_SESSION_CHAT_RUNTIME = \<lparr>chatState = ChatIdle, tokenState = INITIAL_TOKEN_STATE,
     hasUsageSnapshot = False, streamingMessageId = None, activeRunId = None,
     hasToolCallInRun = False, isRunCancellationPending = False,
     pendingInterventionBoundary = None, pendingAssistantProviderId = None,
     runtime_error = None, hasUnread = False\<rparr>"

definition isSessionRunning :: "chat_state \<Rightarrow> bool" where
  "isSessionRunning s \<longleftrightarrow>
     s = ChatThinking \<or> s = ChatStreaming \<or> s = ChatWaiting \<or> s = ChatCompacting"

definition sessionNeedsWindowHandoff :: "session_runtime \<Rightarrow> bool" where
  "sessionNeedsWindowHandoff r \<longleftrightarrow>
     isSessionRunning (chatState r) \<or> truthy (streamingMessageId r)"

lemma isSessionRunning_simps [simp]:
  "\<not> isSessionRunning ChatIdle" "\<not> isSessionRunning ChatError"
  "isSessionRunning ChatThinking" "isSessionRunning ChatStreaming"
  "isSessionRunning ChatWaiting" "isSessionRunning ChatCompacting"
  by (simp_all add: isSessionRunning_def)

lemma initial_runtime_fields [simp]:
  "hasUnread INITIAL_SESSION_CHAT_RUNTIME = False"
  "chatState INITIAL_SESSION_CHAT_RUNTIME = ChatIdle"
  "streamingMessageId INITIAL_SESSION_CHAT_RUNTIME = None"
  "activeRunId INITIAL_SESSION_CHAT_RUNTIME = None"
  "pendingInterventionBoundary INITIAL_SESSION_CHAT_RUNTIME = None"
  "hasToolCallInRun INITIAL_SESSION_CHAT_RUNTIME = False"
  "isRunCancellationPending INITIAL_SESSION_CHAT_RUNTIME = False"
  "tokenState INITIAL_SESSION_CHAT_RUNTIME = INITIAL_TOKEN_STATE"
  by (simp_all add: INITIAL_SESSION_CHAT_RUNTIME_def)

end
