(* ===== verification/ClientStorage.thy ===== *)
theory ClientStorage
  imports Prelude
begin

text \<open>
  What the renderer keeps outside its memory: \<open>window.localStorage\<close> and the native queue
  file, and the two small persistence modules on top of it, \<open>draftPersistence.ts\<close> and
  \<open>unreadPersistence.ts\<close> (\<open>src/src/features/chat/stores\<close>).

  A stored text is represented by the JSON value it parses to, or \<open>Malformed\<close> when
  \<open>JSON.parse\<close> throws on it. Every access may throw (\<open>lsAvailable\<close> is false), and a
  write may be refused by the quota (\<open>lsWritable\<close> is false); the modules swallow both.
\<close>

datatype stored_text = Malformed | Stored json

record client_env =
  hasWindow :: bool
  hasTauri :: bool
  lsAvailable :: bool
  lsWritable :: bool
  lsItems :: "stored_text jsobj"
  nativeWrites :: "json list"
  creationStates :: "string jsobj"

text \<open>
  \<open>nativeWrites\<close> is the sequence of arguments of the native command
  \<open>persist_message_queue_updates\<close>; \<open>creationStates\<close> is the \<open>creationState\<close> of
  the sessions of the session store, for those that have one.
\<close>

definition env_writable :: "client_env \<Rightarrow> bool" where
  "env_writable e \<longleftrightarrow> hasWindow e \<and> lsAvailable e \<and> lsWritable e"

definition json_field :: "json \<Rightarrow> string \<Rightarrow> json option" where
  \<comment> \<open>\<open>v.k\<close> of a value that is not null; only objects have named fields here\<close>
  "json_field v k = (case v of JObj fs \<Rightarrow> obj_get fs k | _ \<Rightarrow> None)"

lemma json_field_simps [simp]:
  "json_field (JObj fs) k = obj_get fs k" "json_field JNull k = None"
  "json_field (JStr s) k = None" "json_field (JArr xs) k = None"
  "json_field (JBool b) k = None" "json_field (JNum n) k = None" "json_field JNonFinite k = None"
  by (simp_all add: json_field_def)

definition ls_get :: "client_env \<Rightarrow> string \<Rightarrow> json option" where
  \<comment> \<open>\<open>getItem\<close> then \<open>JSON.parse\<close>; \<open>None\<close> when absent, malformed or unavailable\<close>
  "ls_get e k =
    (if hasWindow e \<and> lsAvailable e then
       (case obj_get (lsItems e) k of Some (Stored v) \<Rightarrow> Some v | _ \<Rightarrow> None)
     else None)"

definition ls_set :: "string \<Rightarrow> json \<Rightarrow> client_env \<Rightarrow> client_env" where
  "ls_set k v e =
    (if hasWindow e \<and> lsAvailable e \<and> lsWritable e
     then e\<lparr>lsItems := obj_set k (Stored v) (lsItems e)\<rparr> else e)"

definition ls_remove :: "string \<Rightarrow> client_env \<Rightarrow> client_env" where
  "ls_remove k e =
    (if hasWindow e \<and> lsAvailable e then e\<lparr>lsItems := obj_del k (lsItems e)\<rparr> else e)"

named_theorems env_simps "what a storage write leaves unchanged"

lemma ls_writes_frame [simp, env_simps]:
  "hasWindow (ls_set k v e) = hasWindow e" "hasWindow (ls_remove k e) = hasWindow e"
  "hasTauri (ls_set k v e) = hasTauri e" "hasTauri (ls_remove k e) = hasTauri e"
  "lsAvailable (ls_set k v e) = lsAvailable e" "lsAvailable (ls_remove k e) = lsAvailable e"
  "lsWritable (ls_set k v e) = lsWritable e" "lsWritable (ls_remove k e) = lsWritable e"
  "nativeWrites (ls_set k v e) = nativeWrites e" "nativeWrites (ls_remove k e) = nativeWrites e"
  "creationStates (ls_set k v e) = creationStates e"
  "creationStates (ls_remove k e) = creationStates e"
  by (simp_all add: ls_set_def ls_remove_def)

lemma env_writable_frame [simp]:
  "env_writable (ls_set k v e) = env_writable e" "env_writable (ls_remove k e) = env_writable e"
  by (simp_all add: env_writable_def)

lemma ls_get_set:
  "env_writable e \<Longrightarrow> ls_get (ls_set k v e) k' = (if k' = k then Some v else ls_get e k')"
  by (simp add: ls_get_def ls_set_def env_writable_def)

lemma ls_get_remove:
  "env_writable e \<Longrightarrow> ls_get (ls_remove k e) k' = (if k' = k then None else ls_get e k')"
  by (simp add: ls_get_def ls_remove_def env_writable_def)

lemma ls_frame_key:
  "k' \<noteq> k \<Longrightarrow> ls_get (ls_set k v e) k' = ls_get e k'"
  "k' \<noteq> k \<Longrightarrow> ls_get (ls_remove k e) k' = ls_get e k'"
  by (auto simp: ls_get_def ls_set_def ls_remove_def)

section \<open>Unread sessions\<close>

definition UNREAD_SESSIONS_STORAGE_KEY :: string where
  "UNREAD_SESSIONS_STORAGE_KEY = ''goose:unread-sessions''"

fun nonempty_strings :: "json list \<Rightarrow> string list" where
  \<comment> \<open>\<open>filter((id) => typeof id === "string" && id.length > 0)\<close>\<close>
  "nonempty_strings [] = []"
| "nonempty_strings (JStr s # vs) = (if s \<noteq> [] then s # nonempty_strings vs else nonempty_strings vs)"
| "nonempty_strings (_ # vs) = nonempty_strings vs"

definition loadCachedUnreadSessionIds :: "client_env \<Rightarrow> string list" where
  "loadCachedUnreadSessionIds e =
    (case ls_get e UNREAD_SESSIONS_STORAGE_KEY of
       Some (JArr vs) \<Rightarrow> nonempty_strings vs
     | _ \<Rightarrow> [])"

definition persistUnreadSessionIds :: "string list \<Rightarrow> client_env \<Rightarrow> client_env" where
  "persistUnreadSessionIds sessionIds e =
    (let uniqueSessionIds = filter (\<lambda>s. length s > 0) (dedup sessionIds) in
     if uniqueSessionIds = [] then ls_remove UNREAD_SESSIONS_STORAGE_KEY e
     else ls_set UNREAD_SESSIONS_STORAGE_KEY (JArr (map JStr uniqueSessionIds)) e)"

lemma nonempty_strings_map:
  "nonempty_strings (map JStr xs) = filter (\<lambda>s. s \<noteq> []) xs"
  by (induction xs) auto

lemma load_persist_unread:
  "env_writable e \<Longrightarrow>
   loadCachedUnreadSessionIds (persistUnreadSessionIds ids e) = filter (\<lambda>s. s \<noteq> []) (dedup ids)"
  by (auto simp: loadCachedUnreadSessionIds_def persistUnreadSessionIds_def Let_def
      ls_get_set ls_get_remove nonempty_strings_map)

section \<open>Drafts\<close>

definition DRAFTS_STORAGE_KEY :: string where
  "DRAFTS_STORAGE_KEY = ''goose:chat-drafts''"

fun string_entries :: "(string \<times> json) list \<Rightarrow> string jsobj" where
  \<comment> \<open>\<open>Object.entries(parsed).filter((entry) => typeof entry[1] === "string")\<close>\<close>
  "string_entries [] = []"
| "string_entries ((k, JStr s) # es) = (k, s) # string_entries es"
| "string_entries (_ # es) = string_entries es"

definition loadCachedDrafts :: "client_env \<Rightarrow> string jsobj" where
  "loadCachedDrafts e =
    (case ls_get e DRAFTS_STORAGE_KEY of
       Some (JObj fs) \<Rightarrow> string_entries fs
     | _ \<Rightarrow> [])"

definition persistDrafts :: "string jsobj \<Rightarrow> client_env \<Rightarrow> client_env" where
  "persistDrafts drafts e =
    (let nonEmpty = filter (\<lambda>p. length (snd p) > 0) drafts in
     if obj_keys nonEmpty = [] then ls_remove DRAFTS_STORAGE_KEY e
     else ls_set DRAFTS_STORAGE_KEY (JObj (map (\<lambda>p. (fst p, JStr (snd p))) nonEmpty)) e)"

lemma string_entries_map: "string_entries (map (\<lambda>p. (fst p, JStr (snd p))) ds) = ds"
  by (induction ds) auto

lemma load_persist_drafts:
  "env_writable e \<Longrightarrow>
   loadCachedDrafts (persistDrafts ds e) = filter (\<lambda>p. length (snd p) > 0) ds"
  by (auto simp: loadCachedDrafts_def persistDrafts_def Let_def ls_get_set ls_get_remove
      string_entries_map obj_keys_def split: if_splits)

section \<open>The modules do not disturb each other\<close>

lemma storage_keys_distinct [simp]:
  "DRAFTS_STORAGE_KEY \<noteq> UNREAD_SESSIONS_STORAGE_KEY"
  "UNREAD_SESSIONS_STORAGE_KEY \<noteq> DRAFTS_STORAGE_KEY"
  by (simp_all add: DRAFTS_STORAGE_KEY_def UNREAD_SESSIONS_STORAGE_KEY_def)

lemma load_unread_after_drafts [simp]:
  "loadCachedUnreadSessionIds (persistDrafts ds e) = loadCachedUnreadSessionIds e"
  by (simp add: loadCachedUnreadSessionIds_def persistDrafts_def Let_def ls_frame_key)

lemma load_drafts_after_unread [simp]:
  "loadCachedDrafts (persistUnreadSessionIds ids e) = loadCachedDrafts e"
  by (simp add: loadCachedDrafts_def persistUnreadSessionIds_def Let_def ls_frame_key)

lemma persist_frame [simp, env_simps]:
  "env_writable (persistDrafts ds e) = env_writable e"
  "env_writable (persistUnreadSessionIds ids e) = env_writable e"
  "nativeWrites (persistDrafts ds e) = nativeWrites e"
  "nativeWrites (persistUnreadSessionIds ids e) = nativeWrites e"
  "creationStates (persistDrafts ds e) = creationStates e"
  "creationStates (persistUnreadSessionIds ids e) = creationStates e"
  by (simp_all add: persistDrafts_def persistUnreadSessionIds_def Let_def)

end
