(* ===== verification/QueuePersistence.thy ===== *)
theory QueuePersistence
  imports ClientStorage
begin

text \<open>
  The message queue's data (\<open>lib/admittedSend.ts\<close>, the \<open>QueuedMessageRecord\<close> union of
  \<open>stores/chatStore.ts\<close>) and its persistence (\<open>stores/queuePersistence.ts\<close>).

  Queues in memory are typed records. What comes back from storage is a JSON value that the
  code only checks in part and then casts, so the loading side is modelled on JSON values, and
  \<open>record_json\<close> is what \<open>JSON.stringify\<close> writes for a typed record. Exceptions
  thrown while a payload is normalised are \<open>Inl\<close> messages.
\<close>

section \<open>Payloads and records\<close>

datatype persona_intent = InheritPersona | NoPersona | PersonaIntent string "string option"

datatype attachment_draft =
    ImageDraft string string "string option" string string string
      \<comment> \<open>id, name, path, mimeType, base64, previewUrl\<close>
  | FileDraft string string "string option" "string option"
      \<comment> \<open>id, name, path, mimeType\<close>
  | DirectoryDraft string string string
      \<comment> \<open>id, name, path\<close>

text \<open>\<open>sendOptions\<close> is opaque: its serialisable part, as JSON.\<close>

record queued_payload =
  qp_text :: string
  qp_persona :: persona_intent
  qp_attachments :: "attachment_draft list option"
  qp_sendOptions :: "json option"
  qp_showInComposer :: "bool option"

text \<open>
  The union \<open>QueuedMessageRecord\<close>: its two kinds share the id, the payload and the
  \<open>restored\<close> and \<open>editing\<close> marks. The deferred kind carries an opaque state. A mark
  is absent or \<open>true\<close>.
\<close>

datatype queued_kind =
    TransportReady (releasedFromDeferred: bool)
  | Deferred (deferred_state: json)

record queued_record =
  qr_kind :: queued_kind
  qr_recordId :: string
  qr_payload :: queued_payload
  qr_restored :: bool
  qr_editing :: bool

definition is_deferred :: "queued_record \<Rightarrow> bool" where
  "is_deferred r = (case qr_kind r of Deferred _ \<Rightarrow> True | TransportReady _ \<Rightarrow> False)"

definition isAdmittedQueuedMessagePayload :: "queued_payload \<Rightarrow> bool" where
  "isAdmittedQueuedMessagePayload p = True"

text \<open>
  \<open>personaIntentFromComposer\<close>: the id is undefined (\<open>None\<close>), null (\<open>Some None\<close>)
  or a string.
\<close>

definition personaIntentFromComposer ::
  "string option option \<Rightarrow> string option \<Rightarrow> persona_intent" where
  "personaIntentFromComposer personaId personaName =
    (case personaId of
       None \<Rightarrow> InheritPersona
     | Some None \<Rightarrow> NoPersona
     | Some (Some i) \<Rightarrow> PersonaIntent i (if truthy personaName then personaName else None))"

definition personaIntentToOverride ::
  "persona_intent \<Rightarrow> (string option \<times> string option) option" where
  \<comment> \<open>undefined, or the override's id (null or a string) and optional name\<close>
  "personaIntentToOverride p =
    (case p of
       InheritPersona \<Rightarrow> None
     | NoPersona \<Rightarrow> Some (None, None)
     | PersonaIntent i n \<Rightarrow> Some (Some i, if truthy n then n else None))"

definition createDeferredQueuedMessagePayload :: "queued_payload \<Rightarrow> queued_payload" where
  "createDeferredQueuedMessagePayload p = p"

definition admitComposerQueuedMessage ::
  "string \<Rightarrow> attachment_draft list option \<Rightarrow> json option \<Rightarrow> bool option \<Rightarrow>
   string option option \<Rightarrow> string option \<Rightarrow> queued_payload" where
  "admitComposerQueuedMessage text attachments sendOptions showInComposer personaId personaName =
    \<lparr>qp_text = text, qp_persona = personaIntentFromComposer personaId personaName,
     qp_attachments = attachments, qp_sendOptions = sendOptions,
     qp_showInComposer = showInComposer\<rparr>"

definition admitSystemInheritedQueuedMessage ::
  "string \<Rightarrow> attachment_draft list option \<Rightarrow> json option \<Rightarrow> bool option \<Rightarrow> queued_payload" where
  "admitSystemInheritedQueuedMessage text attachments sendOptions showInComposer =
    \<lparr>qp_text = text, qp_persona = InheritPersona, qp_attachments = attachments,
     qp_sendOptions = sendOptions, qp_showInComposer = showInComposer\<rparr>"

section \<open>What \<open>JSON.stringify\<close> writes for a record\<close>

definition opt_field :: "string \<Rightarrow> ('a \<Rightarrow> json) \<Rightarrow> 'a option \<Rightarrow> (string \<times> json) list" where
  \<comment> \<open>an undefined field is not written\<close>
  "opt_field k f x = (case x of None \<Rightarrow> [] | Some v \<Rightarrow> [(k, f v)])"

fun attachment_json :: "attachment_draft \<Rightarrow> json" where
  "attachment_json (ImageDraft i n p m b u) =
     JObj ([(''id'', JStr i), (''kind'', JStr ''image''), (''name'', JStr n)] @
       opt_field ''path'' JStr p @
       [(''mimeType'', JStr m), (''base64'', JStr b), (''previewUrl'', JStr u)])"
| "attachment_json (FileDraft i n p m) =
     JObj ([(''id'', JStr i), (''kind'', JStr ''file''), (''name'', JStr n)] @
       opt_field ''path'' JStr p @ opt_field ''mimeType'' JStr m)"
| "attachment_json (DirectoryDraft i n p) =
     JObj [(''id'', JStr i), (''kind'', JStr ''directory''), (''name'', JStr n), (''path'', JStr p)]"

fun persona_json :: "persona_intent \<Rightarrow> json" where
  "persona_json InheritPersona = JObj [(''kind'', JStr ''inherit'')]"
| "persona_json NoPersona = JObj [(''kind'', JStr ''none'')]"
| "persona_json (PersonaIntent i n) =
     JObj ([(''kind'', JStr ''persona''), (''id'', JStr i)] @ opt_field ''name'' JStr n)"

definition payload_json :: "queued_payload \<Rightarrow> json" where
  "payload_json p =
    JObj ([(''text'', JStr (qp_text p))] @
      opt_field ''attachments'' (\<lambda>as. JArr (map attachment_json as)) (qp_attachments p) @
      opt_field ''sendOptions'' id (qp_sendOptions p) @
      opt_field ''showInComposer'' JBool (qp_showInComposer p) @
      [(''persona'', persona_json (qp_persona p))])"

definition record_json :: "queued_record \<Rightarrow> json" where
  "record_json r =
    (case qr_kind r of
       TransportReady released \<Rightarrow>
         JObj ([(''kind'', JStr ''transport-ready''), (''recordId'', JStr (qr_recordId r)),
                (''payload'', payload_json (qr_payload r))] @
           opt_field ''releasedFromDeferred'' JBool (if released then Some True else None) @
           opt_field ''restored'' JBool (if qr_restored r then Some True else None) @
           opt_field ''editing'' JBool (if qr_editing r then Some True else None))
     | Deferred s \<Rightarrow>
         JObj ([(''kind'', JStr ''deferred''), (''recordId'', JStr (qr_recordId r)),
                (''payload'', payload_json (qr_payload r)), (''state'', s)] @
           opt_field ''restored'' JBool (if qr_restored r then Some True else None) @
           opt_field ''editing'' JBool (if qr_editing r then Some True else None)))"

section \<open>Loading\<close>

definition is_jobject :: "json option \<Rightarrow> bool" where
  \<comment> \<open>\<open>v && typeof v === "object"\<close>: objects and arrays, not null\<close>
  "is_jobject v = (case v of Some (JObj _) \<Rightarrow> True | Some (JArr _) \<Rightarrow> True | _ \<Rightarrow> False)"

definition field_of :: "json option \<Rightarrow> string \<Rightarrow> json option" where
  \<comment> \<open>\<open>v?.k\<close>\<close>
  "field_of v k = Option.bind v (\<lambda>j. json_field j k)"

text \<open>
  \<open>String(v)\<close>, as far as it can equal one of the status names: a string is itself, a
  singleton array is its element; the text of any other value is none of the names.
\<close>

fun status_name :: "json option \<Rightarrow> string option" where
  "status_name (Some (JStr s)) = Some s"
| "status_name (Some (JArr [x])) = status_name (Some x)"
| "status_name _ = None"

definition deferred_statuses :: "string list" where
  "deferred_statuses = [''choice'', ''naming'', ''creating'', ''held'', ''failed'']"

definition isQueuedRecord :: "json \<Rightarrow> bool" where
  "isQueuedRecord value =
    (if \<not> is_jobject (Some value) then False
     else
       let kind = json_field value ''kind''; recordId = json_field value ''recordId'';
           payload = json_field value ''payload'' in
       if (kind \<noteq> Some (JStr ''transport-ready'') \<and> kind \<noteq> Some (JStr ''deferred'')) \<or>
          \<not> (case recordId of Some (JStr s) \<Rightarrow> s \<noteq> [] | _ \<Rightarrow> False) then False
       else if \<not> is_jobject payload then False
       else if \<not> (case field_of payload ''text'' of Some (JStr _) \<Rightarrow> True | _ \<Rightarrow> False) then False
       else if kind = Some (JStr ''deferred'') then
         let state = json_field value ''state'' in
         if \<not> is_jobject state then False
         else field_of state ''type'' = Some (JStr ''workspace-first-send'') \<and>
              (case status_name (field_of state ''status'') of
                 Some s \<Rightarrow> s \<in> set deferred_statuses | None \<Rightarrow> False)
       else True)"

definition obj_fields :: "json \<Rightarrow> (string \<times> json) list" where
  \<comment> \<open>the fields that an object spread copies (an array's indices are not modelled)\<close>
  "obj_fields v = (case v of JObj fs \<Rightarrow> fs | _ \<Rightarrow> [])"

lemma obj_fields_JObj [simp]: "obj_fields (JObj fs) = fs"
  by (simp add: obj_fields_def)

fun obj_omit :: "string list \<Rightarrow> (string \<times> json) list \<Rightarrow> (string \<times> json) list" where
  "obj_omit [] fs = fs"
| "obj_omit (k # ks) fs = obj_omit ks (obj_del k fs)"

definition json_string :: "json option \<Rightarrow> string option" where
  "json_string v = (case v of Some (JStr s) \<Rightarrow> Some s | _ \<Rightarrow> None)"

definition restore_persona :: "json option \<Rightarrow> json option \<Rightarrow> json option \<Rightarrow> string + json" where
  \<comment> \<open>the persona of \<open>normalizeQueuedPayload\<close>: explicit, or from the legacy fields\<close>
  "restore_persona rawPersona legacyPersonaId legacyPersonaName =
    (case rawPersona of
       Some raw \<Rightarrow>
         if \<not> is_jobject (Some raw) then Inl ''Invalid persisted queue persona intent.''
         else
           let kind = json_field raw ''kind''; i = json_field raw ''id''; n = json_field raw ''name'' in
           if kind = Some (JStr ''inherit'') then Inr (persona_json InheritPersona)
           else if kind = Some (JStr ''none'') then Inr (persona_json NoPersona)
           else if kind = Some (JStr ''persona'') \<and>
                   (case json_string i of Some s \<Rightarrow> length s > 0 | None \<Rightarrow> False) \<and>
                   (n = None \<or> json_string n \<noteq> None)
           then Inr (persona_json (PersonaIntent (the (json_string i)) (json_string n)))
           else Inl ''Invalid persisted queue persona intent.''
     | None \<Rightarrow>
         (case legacyPersonaId of
            None \<Rightarrow> Inr (persona_json (personaIntentFromComposer None (json_string legacyPersonaName)))
          | Some JNull \<Rightarrow>
              Inr (persona_json (personaIntentFromComposer (Some None) (json_string legacyPersonaName)))
          | Some (JStr s) \<Rightarrow>
              Inr (persona_json (personaIntentFromComposer (Some (Some s)) (json_string legacyPersonaName)))
          | Some _ \<Rightarrow> Inl ''Invalid legacy queue persona intent.''))"

definition normalizeQueuedPayload :: "json \<Rightarrow> string + json" where
  "normalizeQueuedPayload payload =
    (if payload = JNull then Inl ''TypeError'' else
     let fs = obj_fields payload;
         rest = obj_omit [''providerId'', ''modelId'', ''executionTarget'', ''persona'',
                          ''personaId'', ''personaName''] fs in
     case restore_persona (obj_get fs ''persona'') (obj_get fs ''personaId'')
            (obj_get fs ''personaName'') of
       Inl err \<Rightarrow> Inl err
     | Inr persona \<Rightarrow> Inr (JObj (obj_set ''persona'' persona rest)))"

definition interrupted_error :: string where
  "interrupted_error = ''Workspace setup was interrupted. Review the plan and retry.''"

definition normalizeQueuedRecord :: "json \<Rightarrow> string + json" where
  "normalizeQueuedRecord r =
    (let persisted = obj_omit [''editing'', ''restored''] (obj_fields r) in
     case normalizeQueuedPayload (case obj_get persisted ''payload'' of Some p \<Rightarrow> p | None \<Rightarrow> JNull) of
       Inl err \<Rightarrow> Inl err
     | Inr normalizedPayload \<Rightarrow>
         let restoredPayload =
               (if json_field normalizedPayload ''showInComposer'' = Some (JBool False)
                then JObj (obj_set ''showInComposer'' (JBool True) (obj_fields normalizedPayload))
                else normalizedPayload) in
         if obj_get persisted ''kind'' \<noteq> Some (JStr ''deferred'') then
           Inr (JObj (obj_set ''restored'' (JBool True) (obj_set ''payload'' restoredPayload persisted)))
         else
           let state = obj_get persisted ''state'' in
           if field_of state ''type'' \<noteq> Some (JStr ''workspace-first-send'') then Inr (JObj persisted)
           else if field_of state ''status'' = Some (JStr ''creating'') then
             let state' = JObj (obj_set ''error'' (JStr interrupted_error)
                            (obj_set ''status'' (JStr ''held'')
                              (obj_fields (case state of Some s \<Rightarrow> s | None \<Rightarrow> JNull)))) in
             Inr (JObj (obj_set ''restored'' (JBool True) (obj_set ''state'' state'
                   (obj_set ''payload'' restoredPayload persisted))))
           else
             Inr (JObj (obj_set ''restored'' (JBool True)
                   (obj_set ''payload'' restoredPayload persisted))))"

definition normalized_records :: "json list \<Rightarrow> json list" where
  \<comment> \<open>\<open>value.filter(isQueuedRecord).flatMap(...)\<close>: a record that throws is dropped\<close>
  "normalized_records vs =
    concat (map (\<lambda>r. case normalizeQueuedRecord r of Inl _ \<Rightarrow> [] | Inr n \<Rightarrow> [n])
      (filter isQueuedRecord vs))"

fun parse_queue_entries :: "(string \<times> json) list \<Rightarrow> json list jsobj" where
  "parse_queue_entries [] = []"
| "parse_queue_entries ((sessionId, value) # es) =
    (case value of
       JArr vs \<Rightarrow>
         (let records = normalized_records vs in
          if length records > 0 then (sessionId, records) # parse_queue_entries es
          else parse_queue_entries es)
     | _ \<Rightarrow> parse_queue_entries es)"

definition parseMessageQueues :: "json \<Rightarrow> json list jsobj" where
  "parseMessageQueues parsed =
    (case parsed of JObj es \<Rightarrow> parse_queue_entries es | _ \<Rightarrow> [])"

definition QUEUES_STORAGE_KEY :: string where
  "QUEUES_STORAGE_KEY = ''goose:chat-message-queues:v1''"

definition loadCachedMessageQueues :: "client_env \<Rightarrow> json list jsobj" where
  "loadCachedMessageQueues e =
    (case ls_get e QUEUES_STORAGE_KEY of Some v \<Rightarrow> parseMessageQueues v | None \<Rightarrow> [])"

text \<open>
  \<open>loadPersistedMessageQueues\<close>: \<open>native\<close> is what the native command
  \<open>load_message_queues\<close> gives: \<open>None\<close> when it rejects, \<open>Some None\<close> for null or
  the empty text, \<open>Some (Some t)\<close> for a stored text. Result: the queues and the storage.
\<close>

definition loadPersistedMessageQueues ::
  "stored_text option option \<Rightarrow> client_env \<Rightarrow> json list jsobj \<times> client_env" where
  "loadPersistedMessageQueues native e =
    (if \<not> hasWindow e \<or> \<not> hasTauri e then (loadCachedMessageQueues e, e)
     else
       (case native of
          Some (Some (Stored v)) \<Rightarrow> (parseMessageQueues v, ls_set QUEUES_STORAGE_KEY v e)
        | _ \<Rightarrow> (loadCachedMessageQueues e, e)))"

section \<open>Saving\<close>

definition isSessionPersistable :: "client_env \<Rightarrow> string \<Rightarrow> bool" where
  "isSessionPersistable e sessionId \<longleftrightarrow> \<not> truthy (obj_get (creationStates e) sessionId)"

fun refresh_entries :: "(string \<times> json list option) list \<Rightarrow> json list jsobj \<Rightarrow> json list jsobj" where
  "refresh_entries [] cached = cached"
| "refresh_entries ((sessionId, records) # us) cached =
    refresh_entries us
      (case records of
         Some rs \<Rightarrow> if length rs > 0 then obj_set sessionId rs cached else obj_del sessionId cached
       | None \<Rightarrow> obj_del sessionId cached)"

definition refreshCachedMessageQueues ::
  "(string \<times> json list option) list \<Rightarrow> client_env \<Rightarrow> client_env" where
  "refreshCachedMessageQueues updates e =
    (let cached = refresh_entries updates (loadCachedMessageQueues e) in
     if obj_keys cached \<noteq> []
     then ls_set QUEUES_STORAGE_KEY (JObj (map (\<lambda>p. (fst p, JArr (snd p))) cached)) e
     else ls_remove QUEUES_STORAGE_KEY e)"

fun queue_updates ::
  "client_env \<Rightarrow> queued_record list jsobj \<Rightarrow> string list \<Rightarrow> (string \<times> json list option) list \<Rightarrow>
   (string \<times> json list option) list" where
  \<comment> \<open>\<open>Object.fromEntries\<close> of one entry per changed session\<close>
  "queue_updates e queues [] acc = acc"
| "queue_updates e queues (sessionId # ids) acc =
    queue_updates e queues ids
      (obj_set sessionId
        (case obj_get queues sessionId of
           Some q \<Rightarrow> if length q > 0 \<and> isSessionPersistable e sessionId
                     then Some (map record_json q) else None
         | None \<Rightarrow> None) acc)"

definition updates_json :: "(string \<times> json list option) list \<Rightarrow> json" where
  "updates_json us =
    JObj (map (\<lambda>p. (fst p, case snd p of Some rs \<Rightarrow> JArr rs | None \<Rightarrow> JNull)) us)"

definition persistMessageQueues ::
  "queued_record list jsobj \<Rightarrow> string list \<Rightarrow> client_env \<Rightarrow> client_env" where
  "persistMessageQueues queues changedSessionIds e =
    (if \<not> hasWindow e \<or> length changedSessionIds = 0 then e
     else
       let updates = queue_updates e queues changedSessionIds [];
           e' = (if hasTauri e then e\<lparr>nativeWrites := nativeWrites e @ [updates_json updates]\<rparr> else e)
       in refreshCachedMessageQueues updates e')"

end
