(* ===== verification/ChatStore.thy ===== *)
theory ChatStore
  imports Messages QueuePersistence
begin

text \<open>
  The chat store (\<open>src/src/features/chat/stores/chatStore.ts\<close>): the state of every open
  session and all its actions.

  An action that only calls \<open>set\<close> is a function on \<open>chat_store\<close>. An action that
  also writes storage or drops replay buffers is a function on \<open>chat_world\<close> (the store, the
  storage and the buffers of \<open>hooks/replayBuffer.ts\<close>); the function given to its
  \<open>set\<close> is the definition with the suffix \<open>_set\<close>. A function that may return its
  argument itself, which the code tests with \<open>!==\<close>, returns \<open>None\<close> in that case.
  \<open>crypto.randomUUID()\<close> and \<open>Date.now()\<close> are arguments.
\<close>

section \<open>State\<close>

record chat_skill_draft =
  skill_id :: string
  skill_name :: string
  skill_description :: "string option"
  skill_sourceLabel :: "string option"
  skill_instructions :: "string option"
  skill_fileLocation :: "string option"

record scroll_target_message =
  st_messageId :: string
  st_query :: "string option"

record chat_store =
  messagesBySession :: "message list jsobj"
  sessionStateById :: "session_runtime jsobj"
  queuedMessageBySession :: "queued_record list jsobj"
  hasHydratedMessageQueues :: bool
  draftsBySession :: "string jsobj"
  nonEmptyDraftSessionIds :: "string set"
  skillDraftsBySession :: "chat_skill_draft list jsobj"
  draftAttachmentsBySession :: "attachment_draft list jsobj"
  activeSessionId :: "string option"
  recentMessageSessionIds :: "string list"
  mountedTranscriptCountBySession :: "nat jsobj"
  isViewingActiveSession :: bool
  isConnected :: bool
  loadingSessionIds :: "string set"
  scrollTargetMessageBySession :: "scroll_target_message option jsobj"

record chat_world =
  store :: chat_store
  env :: client_env
  replayBuffers :: "message list jsobj"

definition MESSAGE_SESSION_CACHE_LIMIT :: nat where
  "MESSAGE_SESSION_CACHE_LIMIT = 10"

section \<open>Replay buffers (\<open>hooks/replayBuffer.ts\<close>)\<close>

definition ensureReplayBuffer :: "string \<Rightarrow> message list jsobj \<Rightarrow> message list \<times> message list jsobj" where
  "ensureReplayBuffer sessionId bufs =
    (case obj_get bufs sessionId of
       Some b \<Rightarrow> (b, bufs)
     | None \<Rightarrow> ([], obj_set sessionId [] bufs))"

definition getBufferedMessage :: "string \<Rightarrow> string \<Rightarrow> message list jsobj \<Rightarrow> message option" where
  "getBufferedMessage sessionId messageId bufs =
    Option.bind (obj_get bufs sessionId) (List.find (\<lambda>m. msg_id m = messageId))"

definition getReplayBuffer :: "string \<Rightarrow> message list jsobj \<Rightarrow> message list option" where
  "getReplayBuffer sessionId bufs = obj_get bufs sessionId"

definition getAndDeleteReplayBuffer ::
  "string \<Rightarrow> message list jsobj \<Rightarrow> message list option \<times> message list jsobj" where
  "getAndDeleteReplayBuffer sessionId bufs = (obj_get bufs sessionId, obj_del sessionId bufs)"

definition clearReplayBuffer :: "string \<Rightarrow> message list jsobj \<Rightarrow> message list jsobj" where
  "clearReplayBuffer sessionId bufs = obj_del sessionId bufs"

definition clear_buffers :: "string list \<Rightarrow> chat_world \<Rightarrow> chat_world" where
  \<comment> \<open>\<open>evictedSessionIds.forEach(clearReplayBuffer)\<close>\<close>
  "clear_buffers ids w = w\<lparr>replayBuffers := fold clearReplayBuffer ids (replayBuffers w)\<rparr>"

section \<open>Helpers\<close>

definition createInitialSessionRuntime :: session_runtime where
  "createInitialSessionRuntime = INITIAL_SESSION_CHAT_RUNTIME\<lparr>tokenState := INITIAL_TOKEN_STATE\<rparr>"

definition runtime_of :: "chat_store \<Rightarrow> string \<Rightarrow> session_runtime" where
  \<comment> \<open>\<open>state.sessionStateById[sessionId] ?? createInitialSessionRuntime()\<close>\<close>
  "runtime_of s sessionId =
    or_else (obj_get (sessionStateById s) sessionId) createInitialSessionRuntime"

definition isSessionRuntimeSettled :: "session_runtime \<Rightarrow> bool" where
  "isSessionRuntimeSettled r \<longleftrightarrow>
     chatState r = ChatIdle \<and> activeRunId r = None \<and> \<not> isRunCancellationPending r"

definition isSessionActivelyViewed :: "chat_store \<Rightarrow> string \<Rightarrow> bool" where
  "isSessionActivelyViewed s sessionId \<longleftrightarrow>
     activeSessionId s = Some sessionId \<and> isViewingActiveSession s"

definition canEvictSessionMessages :: "chat_store \<Rightarrow> string \<Rightarrow> bool" where
  "canEvictSessionMessages s sessionId =
    (if sessionId \<in> loadingSessionIds s then False
     else case obj_get (sessionStateById s) sessionId of
       None \<Rightarrow> True
     | Some r \<Rightarrow> isSessionRuntimeSettled r \<and> streamingMessageId r = None)"

definition updateRecentMessageSessionIds :: "string list \<Rightarrow> string \<Rightarrow> string list" where
  "updateRecentMessageSessionIds recent sessionId =
    take MESSAGE_SESSION_CACHE_LIMIT (sessionId # filter (\<lambda>i. i \<noteq> sessionId) recent)"

definition removeRecentMessageSessionId :: "string list \<Rightarrow> string \<Rightarrow> string list" where
  "removeRecentMessageSessionId recent sessionId = filter (\<lambda>i. i \<noteq> sessionId) recent"

definition replaceRecentMessageSessionId :: "string list \<Rightarrow> string \<Rightarrow> string \<Rightarrow> string list" where
  "replaceRecentMessageSessionId recent fromId toId =
    take MESSAGE_SESSION_CACHE_LIMIT (dedup (map (\<lambda>i. if i = fromId then toId else i) recent))"

text \<open>
  \<open>preserveLocalSpeechState\<close>: a replayed text block takes over the local speech state of
  the block at the same place of the same message, if the text is unchanged. The loop updates,
  for each current message, the last replayed message with its id (\<open>new Map\<close> keeps the last
  entry of a key).
\<close>

fun keep_speech :: "message_content \<Rightarrow> message_content option \<Rightarrow> message_content" where
  "keep_speech (TextContent t sp an) (Some (TextContent t' sp' an')) =
    (if t \<noteq> t' \<or> sp' = None then TextContent t sp an else TextContent t sp' an)"
| "keep_speech c _ = c"

fun keep_speech_all :: "message_content list \<Rightarrow> message_content list \<Rightarrow> message_content list" where
  "keep_speech_all [] _ = []"
| "keep_speech_all (c # cs) [] = keep_speech c None # keep_speech_all cs []"
| "keep_speech_all (c # cs) (d # ds) = keep_speech c (Some d) # keep_speech_all cs ds"

fun preserve_loop :: "message list \<Rightarrow> message list \<Rightarrow> message list" where
  "preserve_loop [] merged = merged"
| "preserve_loop (current # rest) merged =
    preserve_loop rest
      (case find_last_index (\<lambda>m. msg_id m = msg_id current) merged of
         None \<Rightarrow> merged
       | Some i \<Rightarrow> merged[i := (merged ! i)\<lparr>msg_content :=
           keep_speech_all (msg_content (merged ! i)) (msg_content current)\<rparr>])"

definition preserveLocalSpeechState :: "message list option \<Rightarrow> message list \<Rightarrow> message list" where
  "preserveLocalSpeechState currentMessages nextMessages =
    (case currentMessages of
       None \<Rightarrow> nextMessages
     | Some cur \<Rightarrow> if length cur = 0 then nextMessages else preserve_loop cur nextMessages)"

definition buildNonEmptyDraftSessionIds :: "string jsobj \<Rightarrow> string set" where
  "buildNonEmptyDraftSessionIds drafts = set (map fst (filter (\<lambda>p. length (snd p) > 0) drafts))"

text \<open>
  \<open>trimMessageSessionCache\<close>: walk the cached sessions in insertion order and drop the
  evictable ones until the limit is met.
\<close>

fun trim_loop ::
  "chat_store \<Rightarrow> string set \<Rightarrow> string list \<Rightarrow> nat \<Rightarrow> message list jsobj \<Rightarrow> string list \<Rightarrow>
   message list jsobj \<times> string list" where
  "trim_loop s prot [] n msgs evicted = (msgs, evicted)"
| "trim_loop s prot (k # ks) n msgs evicted =
    (if n \<le> MESSAGE_SESSION_CACHE_LIMIT then (msgs, evicted)
     else if k \<in> prot \<or> \<not> canEvictSessionMessages s k then trim_loop s prot ks n msgs evicted
     else trim_loop s prot ks (n - 1) (obj_del k msgs) (evicted @ [k]))"

definition protected_ids :: "chat_store \<Rightarrow> string list \<Rightarrow> string list \<Rightarrow> string set" where
  "protected_ids s recent additional =
    set recent \<union> set additional \<union>
    set (map fst (filter (\<lambda>p. snd p > 0) (mountedTranscriptCountBySession s)))"

definition trimMessageSessionCache ::
  "chat_store \<Rightarrow> string list \<Rightarrow> string list \<Rightarrow> message list jsobj \<times> string list" where
  "trimMessageSessionCache s recent additional =
    (let n = length (obj_keys (messagesBySession s)) in
     if n \<le> MESSAGE_SESSION_CACHE_LIMIT then (messagesBySession s, [])
     else trim_loop s (protected_ids s recent additional) (obj_keys (messagesBySession s)) n
            (messagesBySession s) [])"

definition shouldMarkSessionUnread :: "chat_store \<Rightarrow> string \<Rightarrow> message \<Rightarrow> bool" where
  "shouldMarkSessionUnread s sessionId m \<longleftrightarrow>
     msg_role m = Assistant \<and> meta_field userVisible m \<noteq> Some False \<and>
     \<not> isSessionActivelyViewed s sessionId"

definition buildInitialSessionStateById :: "string list \<Rightarrow> session_runtime jsobj" where
  "buildInitialSessionStateById unreadIds =
    fold (\<lambda>i m. obj_set i (createInitialSessionRuntime\<lparr>hasUnread := True\<rparr>) m) unreadIds []"

definition getUnreadSessionIds :: "session_runtime jsobj \<Rightarrow> string list" where
  "getUnreadSessionIds m = map fst (filter (\<lambda>p. hasUnread (snd p)) m)"

definition areSessionIdListsEqual :: "string list \<Rightarrow> string list \<Rightarrow> bool" where
  "areSessionIdListsEqual a b =
    (if length a \<noteq> length b then False else list_all (\<lambda>i. i \<in> set b) a)"

definition persistUnreadStateIfChanged :: "session_runtime jsobj \<Rightarrow> chat_world \<Rightarrow> chat_world" where
  "persistUnreadStateIfChanged previous w =
    (let previousUnreadIds = getUnreadSessionIds previous;
         nextUnreadIds = getUnreadSessionIds (sessionStateById (store w)) in
     if areSessionIdListsEqual previousUnreadIds nextUnreadIds then w
     else w\<lparr>env := persistUnreadSessionIds nextUnreadIds (env w)\<rparr>)"

definition truthy_field :: "string option \<Rightarrow> string option" where
  "truthy_field s = (if truthy s then s else None)"

definition createAssistantContinuationMessage ::
  "string \<Rightarrow> js_number \<Rightarrow> message option \<Rightarrow> message" where
  "createAssistantContinuationMessage uuid now previousMessage =
    (let prev = (\<lambda>f. Option.bind previousMessage (meta_field f)) in
     \<lparr>msg_id = uuid, msg_role = Assistant, msg_created = now, msg_content = [],
      msg_metadata = Some (empty_metadata\<lparr>
        userVisible := Some True, agentVisible := Some True,
        completionStatus := Some InProgress,
        meta_personaId := truthy_field (prev meta_personaId),
        meta_personaName := truthy_field (prev meta_personaName),
        meta_providerId := truthy_field (prev meta_providerId)\<rparr>)\<rparr>)"

definition append_content :: "message_content \<Rightarrow> message \<Rightarrow> message" where
  "append_content c m = m\<lparr>msg_content := msg_content m @ [c]\<rparr>"

definition replace_last_content :: "message_content \<Rightarrow> message_content list \<Rightarrow> message_content list" where
  "replace_last_content c cs = cs[length cs - 1 := c]"

definition appendTextToMessage :: "message \<Rightarrow> string \<Rightarrow> message option" where
  "appendTextToMessage m text =
    (if length text = 0 then None
     else if msg_content m = [] then Some (append_content (TextContent text None None) m)
     else Some (case last (msg_content m) of
       TextContent t sp an \<Rightarrow>
         m\<lparr>msg_content := replace_last_content (TextContent (t @ text) sp an) (msg_content m)\<rparr>
     | _ \<Rightarrow> append_content (TextContent text None None) m))"

definition starts_with :: "string \<Rightarrow> string \<Rightarrow> bool" where
  \<comment> \<open>\<open>s.startsWith(p)\<close>\<close>
  "starts_with p s \<longleftrightarrow> take (length p) s = p"

fun thinking_loop ::
  "string list \<Rightarrow> message_content list \<Rightarrow> bool \<Rightarrow> message_content list \<times> bool" where
  "thinking_loop [] content changed = (content, changed)"
| "thinking_loop (text # chunks) content changed =
    (case (if content = [] then None else Some (last content)) of
       Some (Thinking t an) \<Rightarrow>
         if text = t then thinking_loop chunks content changed
         else
           let nextText = (if starts_with t text then text else t @ text) in
           thinking_loop chunks (replace_last_content (Thinking nextText None) content) True
     | _ \<Rightarrow> thinking_loop chunks (content @ [Thinking text None]) True)"

definition appendThinkingChunksToMessage :: "message \<Rightarrow> string list \<Rightarrow> message option" where
  "appendThinkingChunksToMessage m chunks =
    (case thinking_loop chunks (msg_content m) False of
       (nextContent, changed) \<Rightarrow> if changed then Some (m\<lparr>msg_content := nextContent\<rparr>) else None)"

definition insertMessageAfter :: "message list \<Rightarrow> string \<Rightarrow> message \<Rightarrow> message list" where
  "insertMessageAfter messages afterMessageId m =
    (case find_index (\<lambda>x. msg_id x = afterMessageId) messages of
       None \<Rightarrow> messages @ [m]
     | Some i \<Rightarrow> take (i + 1) messages @ [m] @ drop (i + 1) messages)"

definition isDeliveredInterventionMessage :: "message \<Rightarrow> bool" where
  "isDeliveredInterventionMessage m \<longleftrightarrow> msg_role m = User \<and> meta_field delivery m = Some Steer"

definition findLatestInterventionMessageId :: "message list \<Rightarrow> string option" where
  "findLatestInterventionMessageId messages =
    map_option (\<lambda>i. msg_id (messages ! i)) (find_last_index isDeliveredInterventionMessage messages)"

definition findInterventionInsertionAnchorIndex :: "message list \<Rightarrow> nat \<Rightarrow> nat" where
  "findInterventionInsertionAnchorIndex messages interventionIndex =
    interventionIndex +
      length (takeWhile isDeliveredInterventionMessage (drop (interventionIndex + 1) messages))"

section \<open>Initial state\<close>

definition initialChatStore ::
  "string list \<Rightarrow> string jsobj \<Rightarrow> queued_record list jsobj \<Rightarrow> chat_store" where
  "initialChatStore unreadIds cachedDrafts cachedQueues =
    \<lparr>messagesBySession = [],
     sessionStateById = buildInitialSessionStateById unreadIds,
     queuedMessageBySession = cachedQueues,
     hasHydratedMessageQueues = False,
     draftsBySession = cachedDrafts,
     nonEmptyDraftSessionIds = buildNonEmptyDraftSessionIds cachedDrafts,
     skillDraftsBySession = [],
     draftAttachmentsBySession = [],
     activeSessionId = None,
     recentMessageSessionIds = [],
     mountedTranscriptCountBySession = [],
     isViewingActiveSession = False,
     isConnected = False,
     loadingSessionIds = {},
     scrollTargetMessageBySession = []\<rparr>"

definition put_runtime :: "string \<Rightarrow> session_runtime \<Rightarrow> chat_store \<Rightarrow> chat_store" where
  \<comment> \<open>\<open>sessionStateById: {...state.sessionStateById, [sessionId]: r}\<close>\<close>
  "put_runtime sessionId r s = s\<lparr>sessionStateById := obj_set sessionId r (sessionStateById s)\<rparr>"

definition put_messages :: "string \<Rightarrow> message list \<Rightarrow> chat_store \<Rightarrow> chat_store" where
  "put_messages sessionId ms s = s\<lparr>messagesBySession := obj_set sessionId ms (messagesBySession s)\<rparr>"

definition put_queue :: "string \<Rightarrow> queued_record list \<Rightarrow> chat_store \<Rightarrow> chat_store" where
  "put_queue sessionId q s =
    s\<lparr>queuedMessageBySession := obj_set sessionId q (queuedMessageBySession s)\<rparr>"

definition queue_of :: "chat_store \<Rightarrow> string \<Rightarrow> queued_record list" where
  \<comment> \<open>\<open>state.queuedMessageBySession[sessionId] ?? []\<close>\<close>
  "queue_of s sessionId = or_else (obj_get (queuedMessageBySession s) sessionId) []"

definition with_store :: "(chat_store \<Rightarrow> chat_store) \<Rightarrow> chat_world \<Rightarrow> chat_world" where
  "with_store f w = w\<lparr>store := f (store w)\<rparr>"

section \<open>Session management\<close>

definition setActiveSession_set :: "string \<Rightarrow> chat_store \<Rightarrow> chat_store \<times> string list" where
  "setActiveSession_set sessionId s =
    (let recent = updateRecentMessageSessionIds (recentMessageSessionIds s) sessionId;
         (msgs, evicted) = trimMessageSessionCache s recent [] in
     (s\<lparr>activeSessionId := Some sessionId,
        recentMessageSessionIds := recent,
        messagesBySession := msgs,
        sessionStateById :=
          (if obj_get (sessionStateById s) sessionId \<noteq> None then sessionStateById s
           else obj_set sessionId createInitialSessionRuntime (sessionStateById s))\<rparr>,
      evicted))"

definition setActiveSession :: "string \<Rightarrow> chat_world \<Rightarrow> chat_world" where
  "setActiveSession sessionId w =
    (let (s, evicted) = setActiveSession_set sessionId (store w) in
     clear_buffers evicted (w\<lparr>store := s\<rparr>))"

definition setActiveSessionViewing :: "bool \<Rightarrow> chat_store \<Rightarrow> chat_store" where
  "setActiveSessionViewing viewing s = s\<lparr>isViewingActiveSession := viewing\<rparr>"

definition retainMountedTranscript :: "string \<Rightarrow> chat_store \<Rightarrow> chat_store" where
  "retainMountedTranscript sessionId s =
    s\<lparr>mountedTranscriptCountBySession :=
      obj_set sessionId (or_else (obj_get (mountedTranscriptCountBySession s) sessionId) 0 + 1)
        (mountedTranscriptCountBySession s)\<rparr>"

definition releaseMountedTranscript_set :: "string \<Rightarrow> chat_store \<Rightarrow> chat_store \<times> string list" where
  "releaseMountedTranscript_set sessionId s =
    (let count = or_else (obj_get (mountedTranscriptCountBySession s) sessionId) 0 in
     if count \<le> 0 then (s, [])
     else
       let counts = (if count = 1 then obj_del sessionId (mountedTranscriptCountBySession s)
                     else obj_set sessionId (count - 1) (mountedTranscriptCountBySession s));
           nextState = s\<lparr>mountedTranscriptCountBySession := counts\<rparr>;
           (msgs, evicted) = trimMessageSessionCache nextState (recentMessageSessionIds s) [] in
       (s\<lparr>mountedTranscriptCountBySession := counts, messagesBySession := msgs\<rparr>, evicted))"

text \<open>The closure that \<open>retainMountedTranscript\<close> returns, with its \<open>released\<close> flag.\<close>

definition releaseMountedTranscript :: "string \<Rightarrow> bool \<Rightarrow> chat_world \<Rightarrow> bool \<times> chat_world" where
  "releaseMountedTranscript sessionId released w =
    (if released then (released, w)
     else
       let (s, evicted) = releaseMountedTranscript_set sessionId (store w) in
       (True, clear_buffers evicted (w\<lparr>store := s\<rparr>)))"

section \<open>Messages\<close>

definition recent_if_active :: "chat_store \<Rightarrow> string \<Rightarrow> string list" where
  "recent_if_active s sessionId =
    (if activeSessionId s = Some sessionId
     then updateRecentMessageSessionIds (recentMessageSessionIds s) sessionId
     else recentMessageSessionIds s)"

definition mark_unread_if :: "bool \<Rightarrow> string \<Rightarrow> chat_store \<Rightarrow> chat_store" where
  \<comment> \<open>the spread \<open>...(shouldMarkUnread ? { sessionStateById: ... } : {})\<close>\<close>
  "mark_unread_if b sessionId s =
    (if b then put_runtime sessionId ((runtime_of s sessionId)\<lparr>hasUnread := True\<rparr>) s else s)"

definition addMessage_set :: "string \<Rightarrow> message \<Rightarrow> chat_store \<Rightarrow> chat_store \<times> string list" where
  "addMessage_set sessionId m s =
    (let shouldMarkUnread = shouldMarkSessionUnread s sessionId m;
         recent = recent_if_active s sessionId;
         nextMessages = obj_set sessionId (or_else (obj_get (messagesBySession s) sessionId) [] @ [m])
                          (messagesBySession s);
         (msgs, evicted) =
           trimMessageSessionCache (s\<lparr>messagesBySession := nextMessages\<rparr>) recent [sessionId] in
     (mark_unread_if shouldMarkUnread sessionId
        (s\<lparr>messagesBySession := msgs, recentMessageSessionIds := recent\<rparr>),
      evicted))"

definition addMessage :: "string \<Rightarrow> message \<Rightarrow> chat_world \<Rightarrow> chat_world" where
  "addMessage sessionId m w =
    (let previous = sessionStateById (store w);
         (s, evicted) = addMessage_set sessionId m (store w) in
     persistUnreadStateIfChanged previous (clear_buffers evicted (w\<lparr>store := s\<rparr>)))"

definition update_by_id :: "string \<Rightarrow> (message \<Rightarrow> message option) \<Rightarrow> message list \<Rightarrow> message list" where
  "update_by_id messageId updater ms =
    map (\<lambda>m. if msg_id m \<noteq> messageId then m else or_else (updater m) m) ms"

text \<open>
  \<open>updateMessage\<close>: the flag is assigned at every message with the id, so the last one
  decides.
\<close>

definition updateMessage_set ::
  "string \<Rightarrow> string \<Rightarrow> (message \<Rightarrow> message option) \<Rightarrow> chat_store \<Rightarrow> chat_store" where
  "updateMessage_set sessionId messageId updater s =
    (case obj_get (messagesBySession s) sessionId of
       None \<Rightarrow> s
     | Some messages \<Rightarrow>
         let shouldMarkUnread =
               (case find_last_index (\<lambda>m. msg_id m = messageId) messages of
                  None \<Rightarrow> False
                | Some i \<Rightarrow>
                    (case updater (messages ! i) of
                       None \<Rightarrow> False
                     | Some updated \<Rightarrow> shouldMarkSessionUnread s sessionId updated)) in
         mark_unread_if shouldMarkUnread sessionId
           (put_messages sessionId (update_by_id messageId updater messages) s))"

definition updateMessage ::
  "string \<Rightarrow> string \<Rightarrow> (message \<Rightarrow> message option) \<Rightarrow> chat_world \<Rightarrow> chat_world" where
  "updateMessage sessionId messageId updater w =
    persistUnreadStateIfChanged (sessionStateById (store w))
      (with_store (updateMessage_set sessionId messageId updater) w)"

definition replaceMessageId :: "string \<Rightarrow> string \<Rightarrow> string \<Rightarrow> chat_store \<Rightarrow> chat_store" where
  "replaceMessageId sessionId messageId replacementId s =
    (case obj_get (messagesBySession s) sessionId of
       None \<Rightarrow> s
     | Some messages \<Rightarrow>
         if messageId = replacementId then s
         else
           let current = runtime_of s sessionId;
               nextBoundary = (if pendingInterventionBoundary current = Some messageId
                               then Some replacementId else pendingInterventionBoundary current);
               s' = put_messages sessionId
                      (map (\<lambda>m. if msg_id m = messageId then m\<lparr>msg_id := replacementId\<rparr> else m) messages) s in
           if nextBoundary \<noteq> pendingInterventionBoundary current
           then put_runtime sessionId (current\<lparr>pendingInterventionBoundary := nextBoundary\<rparr>) s'
           else s')"

definition removeMessage :: "string \<Rightarrow> string \<Rightarrow> chat_store \<Rightarrow> chat_store" where
  "removeMessage sessionId messageId s =
    (case obj_get (messagesBySession s) sessionId of
       None \<Rightarrow> s
     | Some messages \<Rightarrow> put_messages sessionId (filter (\<lambda>m. msg_id m \<noteq> messageId) messages) s)"

definition setMessages_set :: "string \<Rightarrow> message list \<Rightarrow> chat_store \<Rightarrow> chat_store \<times> string list" where
  "setMessages_set sessionId messages s =
    (let recent = recent_if_active s sessionId;
         nextMessages = obj_set sessionId
           (preserveLocalSpeechState (obj_get (messagesBySession s) sessionId) messages)
           (messagesBySession s);
         (msgs, evicted) =
           trimMessageSessionCache (s\<lparr>messagesBySession := nextMessages\<rparr>) recent [sessionId] in
     (s\<lparr>messagesBySession := msgs, recentMessageSessionIds := recent\<rparr>, evicted))"

definition setMessages :: "string \<Rightarrow> message list \<Rightarrow> chat_world \<Rightarrow> chat_world" where
  "setMessages sessionId messages w =
    (let (s, evicted) = setMessages_set sessionId messages (store w) in
     clear_buffers evicted (w\<lparr>store := s\<rparr>))"

definition clearMessages :: "string \<Rightarrow> chat_world \<Rightarrow> chat_world" where
  "clearMessages sessionId w =
    persistUnreadStateIfChanged (sessionStateById (store w))
      (with_store (\<lambda>s. put_runtime sessionId createInitialSessionRuntime
                         (put_messages sessionId [] s)) w)"

definition getActiveMessages :: "chat_store \<Rightarrow> message list" where
  "getActiveMessages s =
    (if \<not> truthy (activeSessionId s) then []
     else filter (\<lambda>m. meta_field userVisible m = Some True)
            (or_else (obj_get (messagesBySession s) (the (activeSessionId s))) []))"

definition getSessionRuntime :: "chat_store \<Rightarrow> string \<Rightarrow> session_runtime" where
  "getSessionRuntime s sessionId = runtime_of s sessionId"

end
