(* ===== verification/ChatStreaming.thy ===== *)
theory ChatStreaming
  imports ChatStore
begin

text \<open>
  The streaming, runtime-state and token actions of the chat store
  (\<open>src/src/features/chat/stores/chatStore.ts\<close>).
\<close>

section \<open>Run and stream tracking\<close>

definition setStreamingMessageId :: "string \<Rightarrow> string option \<Rightarrow> chat_store \<Rightarrow> chat_store" where
  "setStreamingMessageId sessionId i s =
    (let existing = obj_get (sessionStateById s) sessionId in
     if existing = None \<and> i = None then s
     else
       let current = runtime_of s sessionId;
           nextBoundary = (if i = None then None else pendingInterventionBoundary current) in
       if streamingMessageId current = i \<and> pendingInterventionBoundary current = nextBoundary then s
       else put_runtime sessionId
              (current\<lparr>streamingMessageId := i, pendingInterventionBoundary := nextBoundary\<rparr>) s)"

definition clearSettledStreamingMessage :: "string \<Rightarrow> chat_store \<Rightarrow> bool \<times> chat_store" where
  "clearSettledStreamingMessage sessionId s =
    (case obj_get (sessionStateById s) sessionId of
       None \<Rightarrow> (False, s)
     | Some runtime \<Rightarrow>
         if \<not> isSessionRuntimeSettled runtime \<or>
            (streamingMessageId runtime = None \<and> pendingInterventionBoundary runtime = None)
         then (False, s)
         else (True, put_runtime sessionId
                 (runtime\<lparr>streamingMessageId := None, pendingInterventionBoundary := None\<rparr>) s))"

definition settleActiveRun :: "string \<Rightarrow> chat_store \<Rightarrow> chat_store" where
  "settleActiveRun sessionId s =
    (case obj_get (sessionStateById s) sessionId of
       None \<Rightarrow> s
     | Some current \<Rightarrow>
         let shouldClearStreamTracking = \<not> isSessionRunning (chatState current) in
         if activeRunId current = None \<and> \<not> hasToolCallInRun current \<and>
            \<not> isRunCancellationPending current \<and>
            (\<not> shouldClearStreamTracking \<or>
              (streamingMessageId current = None \<and> pendingInterventionBoundary current = None))
         then s
         else
           let base = current\<lparr>activeRunId := None, isRunCancellationPending := False\<rparr> in
           put_runtime sessionId
             (if shouldClearStreamTracking
              then base\<lparr>streamingMessageId := None, hasToolCallInRun := False,
                        pendingInterventionBoundary := None\<rparr>
              else base) s)"

definition markToolCallInRun :: "string \<Rightarrow> chat_store \<Rightarrow> chat_store" where
  "markToolCallInRun sessionId s =
    (let current = runtime_of s sessionId in
     if hasToolCallInRun current then s
     else put_runtime sessionId (current\<lparr>hasToolCallInRun := True\<rparr>) s)"

definition setActiveRunId :: "string \<Rightarrow> string option \<Rightarrow> chat_store \<Rightarrow> chat_store" where
  "setActiveRunId sessionId runId s =
    (let current = runtime_of s sessionId;
         replacedRun = (activeRunId current \<noteq> None \<and> runId \<noteq> None \<and> activeRunId current \<noteq> runId);
         settled = (runId = None \<and> \<not> isSessionRunning (chatState current)) in
     put_runtime sessionId
       (current\<lparr>activeRunId := runId,
          hasToolCallInRun := (if replacedRun \<or> settled then False else hasToolCallInRun current)\<rparr>) s)"

definition setRunCancellationPending :: "string \<Rightarrow> bool \<Rightarrow> chat_store \<Rightarrow> chat_store" where
  "setRunCancellationPending sessionId pending s =
    put_runtime sessionId ((runtime_of s sessionId)\<lparr>isRunCancellationPending := pending\<rparr>) s"

definition setPendingInterventionBoundary :: "string \<Rightarrow> string option \<Rightarrow> chat_store \<Rightarrow> chat_store" where
  "setPendingInterventionBoundary sessionId boundary s =
    put_runtime sessionId ((runtime_of s sessionId)\<lparr>pendingInterventionBoundary := boundary\<rparr>) s"

definition setPendingAssistantProvider :: "string \<Rightarrow> string option \<Rightarrow> chat_store \<Rightarrow> chat_store" where
  "setPendingAssistantProvider sessionId providerId s =
    put_runtime sessionId ((runtime_of s sessionId)\<lparr>pendingAssistantProviderId := providerId\<rparr>) s"

section \<open>Appending to the streaming message\<close>

definition streaming_id :: "chat_store \<Rightarrow> string \<Rightarrow> string option" where
  \<comment> \<open>\<open>state.sessionStateById[sessionId]?.streamingMessageId ?? null\<close>\<close>
  "streaming_id s sessionId = Option.bind (obj_get (sessionStateById s) sessionId) streamingMessageId"

definition appendToStreamingMessage_set :: "string \<Rightarrow> message_content \<Rightarrow> chat_store \<Rightarrow> chat_store" where
  "appendToStreamingMessage_set sessionId content s =
    (if \<not> truthy (streaming_id s sessionId) then s
     else case obj_get (messagesBySession s) sessionId of
       None \<Rightarrow> s
     | Some messages \<Rightarrow>
         let sid = the (streaming_id s sessionId);
             shouldMarkUnread =
               (case find_last_index (\<lambda>m. msg_id m = sid) messages of
                  None \<Rightarrow> False
                | Some i \<Rightarrow> shouldMarkSessionUnread s sessionId (messages ! i)) in
         mark_unread_if shouldMarkUnread sessionId
           (put_messages sessionId
             (map (\<lambda>m. if msg_id m \<noteq> sid then m else append_content content m) messages) s))"

definition appendToStreamingMessage :: "string \<Rightarrow> message_content \<Rightarrow> chat_world \<Rightarrow> chat_world" where
  "appendToStreamingMessage sessionId content w =
    persistUnreadStateIfChanged (sessionStateById (store w))
      (with_store (appendToStreamingMessage_set sessionId content) w)"

text \<open>The second component is the flag \<open>didUnreadStateChange\<close>.\<close>

definition appendStreamingText_set ::
  "string \<Rightarrow> string \<Rightarrow> string \<Rightarrow> chat_store \<Rightarrow> chat_store \<times> bool" where
  "appendStreamingText_set sessionId messageId text s =
    (case obj_get (messagesBySession s) sessionId of
       None \<Rightarrow> (s, False)
     | Some messages \<Rightarrow>
         (case find_last_index (\<lambda>m. msg_id m = messageId) messages of
            None \<Rightarrow> (s, False)
          | Some messageIndex \<Rightarrow>
              let m = messages ! messageIndex;
                  updated = appendTextToMessage m text;
                  current = runtime_of s sessionId;
                  nextHasUnread = (hasUnread current \<or> shouldMarkSessionUnread s sessionId m);
                  shouldUpdateRuntime = (streamingMessageId current \<noteq> Some messageId \<or>
                                         hasUnread current \<noteq> nextHasUnread);
                  s1 = (case updated of
                          None \<Rightarrow> s
                        | Some u \<Rightarrow> put_messages sessionId (messages[messageIndex := u]) s);
                  s2 = (if shouldUpdateRuntime
                        then put_runtime sessionId
                          (current\<lparr>streamingMessageId := Some messageId, hasUnread := nextHasUnread\<rparr>) s1
                        else s1) in
              (s2, hasUnread current \<noteq> nextHasUnread)))"

definition appendStreamingText :: "string \<Rightarrow> string \<Rightarrow> string \<Rightarrow> chat_world \<Rightarrow> chat_world" where
  "appendStreamingText sessionId messageId text w =
    (let (s, didUnreadStateChange) = appendStreamingText_set sessionId messageId text (store w);
         w' = w\<lparr>store := s\<rparr> in
     if didUnreadStateChange then persistUnreadStateIfChanged (sessionStateById (store w)) w' else w')"

datatype streaming_update =
    TextUpdate (update_session: string) (update_message: string) (update_text: string)
  | ThinkingUpdate (update_session: string) (update_message: string) (update_chunks: "string list")

datatype streaming_mode = ActiveStream | SettledStream

definition apply_update :: "streaming_update \<Rightarrow> message \<Rightarrow> message option" where
  "apply_update u m =
    (case u of
       TextUpdate _ _ text \<Rightarrow> appendTextToMessage m text
     | ThinkingUpdate _ _ chunks \<Rightarrow> appendThinkingChunksToMessage m chunks)"

definition is_text_update :: "streaming_update \<Rightarrow> bool" where
  "is_text_update u = (case u of TextUpdate _ _ _ \<Rightarrow> True | ThinkingUpdate _ _ _ \<Rightarrow> False)"

text \<open>
  One round of the loop. \<open>s0\<close> is the state the \<open>set\<close> callback received (the viewing
  test reads it); \<open>s\<close> carries the two objects rebuilt so far.
\<close>

definition streaming_update_step ::
  "streaming_mode \<Rightarrow> chat_store \<Rightarrow> streaming_update \<Rightarrow> chat_store \<times> bool \<Rightarrow> chat_store \<times> bool" where
  "streaming_update_step mode s0 u acc =
    (let (s, didUnreadStateChange) = acc; sessionId = update_session u; isActiveStream = (mode = ActiveStream) in
     case obj_get (messagesBySession s) sessionId of
       None \<Rightarrow> acc
     | Some messages \<Rightarrow>
         (case find_last_index (\<lambda>m. msg_id m = update_message u) messages of
            None \<Rightarrow> acc
          | Some messageIndex \<Rightarrow>
              let updated = apply_update u (messages ! messageIndex);
                  current = runtime_of s sessionId;
                  shouldMarkUnread =
                    (case updated of
                       None \<Rightarrow> False
                     | Some m' \<Rightarrow> (is_text_update u \<or> mode = SettledStream) \<and>
                                 shouldMarkSessionUnread s0 sessionId m');
                  nextHasUnread = (hasUnread current \<or> shouldMarkUnread);
                  shouldUpdateRuntime =
                    ((isActiveStream \<and> streamingMessageId current \<noteq> Some (update_message u)) \<or>
                     hasUnread current \<noteq> nextHasUnread);
                  s1 = (case updated of
                          None \<Rightarrow> s
                        | Some m' \<Rightarrow> put_messages sessionId (messages[messageIndex := m']) s);
                  s2 = (if shouldUpdateRuntime
                        then put_runtime sessionId
                          (current\<lparr>streamingMessageId :=
                             (if isActiveStream then Some (update_message u) else streamingMessageId current),
                             hasUnread := nextHasUnread\<rparr>) s1
                        else s1) in
              (s2, didUnreadStateChange \<or> hasUnread current \<noteq> nextHasUnread)))"

definition appendStreamingMessageUpdates_set ::
  "streaming_update list \<Rightarrow> streaming_mode \<Rightarrow> chat_store \<Rightarrow> chat_store \<times> bool" where
  "appendStreamingMessageUpdates_set updates mode s =
    fold (streaming_update_step mode s) updates (s, False)"

definition appendStreamingMessageUpdates ::
  "streaming_update list \<Rightarrow> streaming_mode \<Rightarrow> chat_world \<Rightarrow> chat_world" where
  "appendStreamingMessageUpdates updates mode w =
    (if length updates = 0 then w
     else
       let (s, didUnreadStateChange) = appendStreamingMessageUpdates_set updates mode (store w);
           w' = w\<lparr>store := s\<rparr> in
       if didUnreadStateChange then persistUnreadStateIfChanged (sessionStateById (store w)) w'
       else w')"

definition updateStreamingText :: "string \<Rightarrow> string \<Rightarrow> chat_world \<Rightarrow> chat_world" where
  "updateStreamingText sessionId text w =
    (if \<not> truthy (streaming_id (store w) sessionId) then w
     else appendStreamingText sessionId (the (streaming_id (store w) sessionId)) text w)"

definition updateStreamingThinking :: "string \<Rightarrow> string \<Rightarrow> chat_store \<Rightarrow> chat_store" where
  "updateStreamingThinking sessionId text s =
    (if \<not> truthy (streaming_id s sessionId) then s
     else case obj_get (messagesBySession s) sessionId of
       None \<Rightarrow> s
     | Some messages \<Rightarrow>
         let sid = the (streaming_id s sessionId);
             changed = list_ex (\<lambda>m. msg_id m = sid \<and> appendThinkingChunksToMessage m [text] \<noteq> None)
                         messages in
         if \<not> changed then s
         else put_messages sessionId
                (update_by_id sid (\<lambda>m. appendThinkingChunksToMessage m [text]) messages) s)"

definition nth_opt :: "'a list \<Rightarrow> nat \<Rightarrow> 'a option" where
  \<comment> \<open>\<open>xs[i]\<close>, undefined out of range\<close>
  "nth_opt xs i = (if i < length xs then Some (xs ! i) else None)"

text \<open>
  The last part of \<open>startAssistantStreamAfterIntervention\<close>: complete the message that was
  streaming and insert a fresh assistant message after the anchor (or at the end).
\<close>

definition start_continuation ::
  "string \<Rightarrow> js_number \<Rightarrow> string \<Rightarrow> message list \<Rightarrow> string option \<Rightarrow> chat_store \<Rightarrow> chat_store" where
  "start_continuation uuid now sessionId messages insertionAnchorId s =
    (let current = runtime_of s sessionId;
         streamingMessage = List.find (\<lambda>m. Some (msg_id m) = streamingMessageId current) messages;
         continuation = createAssistantContinuationMessage uuid now streamingMessage;
         completedMessages =
           (case streamingMessage of
              None \<Rightarrow> messages
            | Some sm \<Rightarrow> map (\<lambda>m. if msg_id m = msg_id sm then completeAssistantMessage m else m) messages) in
     put_runtime sessionId
       (current\<lparr>streamingMessageId := Some (msg_id continuation), pendingInterventionBoundary := None\<rparr>)
       (put_messages sessionId
         (if truthy insertionAnchorId
          then insertMessageAfter completedMessages (the insertionAnchorId) continuation
          else completedMessages @ [continuation]) s))"

definition startAssistantStreamAfterIntervention ::
  "string \<Rightarrow> js_number \<Rightarrow> string \<Rightarrow> chat_store \<Rightarrow> chat_store" where
  "startAssistantStreamAfterIntervention uuid now sessionId s =
    (case obj_get (messagesBySession s) sessionId of
       None \<Rightarrow> s
     | Some messages \<Rightarrow>
         let current = runtime_of s sessionId;
             interventionMessageId =
               or_option (pendingInterventionBoundary current) (findLatestInterventionMessageId messages) in
         if \<not> truthy interventionMessageId then s
         else
           let interventionIndex =
                 find_index (\<lambda>m. msg_id m = the interventionMessageId) messages;
               anchor = map_option (findInterventionInsertionAnchorIndex messages) interventionIndex;
               insertionAnchorId =
                 Option.bind anchor (\<lambda>i. map_option msg_id (nth_opt messages i));
               existing = Option.bind anchor (\<lambda>i. nth_opt messages (i + 1)) in
           (case existing of
              Some e \<Rightarrow>
                if msg_role e = Assistant \<and> meta_field completionStatus e = Some InProgress
                then put_runtime sessionId
                  (current\<lparr>streamingMessageId := Some (msg_id e), pendingInterventionBoundary := None\<rparr>) s
                else start_continuation uuid now sessionId messages insertionAnchorId s
            | None \<Rightarrow> start_continuation uuid now sessionId messages insertionAnchorId s))"

section \<open>Chat state, errors, unread marks\<close>

definition setChatState :: "string \<Rightarrow> chat_state \<Rightarrow> chat_store \<Rightarrow> chat_store" where
  "setChatState sessionId cs s =
    (let current = runtime_of s sessionId;
         isIdle = (cs = ChatIdle);
         toolCall = (if \<not> isSessionRunning cs \<and> activeRunId current = None then False
                     else hasToolCallInRun current);
         streaming = (if isIdle then None else streamingMessageId current);
         boundary = (if isIdle then None else pendingInterventionBoundary current) in
     if chatState current = cs \<and> hasToolCallInRun current = toolCall \<and>
        streamingMessageId current = streaming \<and> pendingInterventionBoundary current = boundary
     then s
     else put_runtime sessionId
       (current\<lparr>chatState := cs, hasToolCallInRun := toolCall, streamingMessageId := streaming,
          pendingInterventionBoundary := boundary\<rparr>) s)"

definition setError :: "string \<Rightarrow> string option \<Rightarrow> chat_store \<Rightarrow> chat_store" where
  "setError sessionId err s =
    (let current = runtime_of s sessionId;
         clearParkedStream = (err = None \<and> chatState current = ChatError \<and>
                              activeRunId current = None \<and> \<not> isRunCancellationPending current);
         base = current\<lparr>runtime_error := err,
           chatState := (if truthy err then ChatError
                         else if chatState current = ChatError then ChatIdle
                         else chatState current)\<rparr> in
     put_runtime sessionId
       (if clearParkedStream
        then base\<lparr>streamingMessageId := None, pendingInterventionBoundary := None\<rparr>
        else base) s)"

definition setConnected :: "bool \<Rightarrow> chat_store \<Rightarrow> chat_store" where
  "setConnected b s = s\<lparr>isConnected := b\<rparr>"

definition markSessionRead :: "string \<Rightarrow> chat_world \<Rightarrow> chat_world" where
  "markSessionRead sessionId w =
    persistUnreadStateIfChanged (sessionStateById (store w))
      (with_store (\<lambda>s. let current = runtime_of s sessionId in
         if \<not> hasUnread current then s
         else put_runtime sessionId (current\<lparr>hasUnread := False\<rparr>) s) w)"

definition markSessionUnread :: "string \<Rightarrow> chat_world \<Rightarrow> chat_world" where
  "markSessionUnread sessionId w =
    persistUnreadStateIfChanged (sessionStateById (store w))
      (with_store (\<lambda>s. let current = runtime_of s sessionId in
         if hasUnread current then s
         else put_runtime sessionId (current\<lparr>hasUnread := True\<rparr>) s) w)"

section \<open>Tokens\<close>

text \<open>\<open>Partial<TokenState>\<close>; the cost may be absent, null or a number.\<close>

record partial_token_state =
  p_inputTokens :: "js_number option"
  p_outputTokens :: "js_number option"
  p_accumulatedInput :: "js_number option"
  p_accumulatedOutput :: "js_number option"
  p_accumulatedTotal :: "js_number option"
  p_contextLimit :: "js_number option"
  p_accumulatedCost :: "js_number option option"

definition next_token_state :: "partial_token_state \<Rightarrow> token_state \<Rightarrow> token_state" where
  "next_token_state partial current =
    (let inTok = or_else (p_inputTokens partial) (inputTokens current);
         outTok = or_else (p_outputTokens partial) (outputTokens current);
         accIn = or_else (p_accumulatedInput partial)
                   (accumulatedInput current + or_else (p_inputTokens partial) 0);
         accOut = or_else (p_accumulatedOutput partial)
                   (accumulatedOutput current + or_else (p_outputTokens partial) 0);
         accTotal = or_else (p_accumulatedTotal partial) (accIn + accOut);
         cost = (case p_accumulatedCost partial of Some c \<Rightarrow> c | None \<Rightarrow> accumulatedCost current) in
     \<lparr>inputTokens = inTok, outputTokens = outTok, totalTokens = inTok + outTok,
      accumulatedInput = accIn, accumulatedOutput = accOut, accumulatedTotal = accTotal,
      contextLimit = or_else (p_contextLimit partial) (contextLimit current),
      accumulatedCost = cost\<rparr>)"

definition updateTokenState :: "string \<Rightarrow> partial_token_state \<Rightarrow> chat_store \<Rightarrow> chat_store" where
  "updateTokenState sessionId partial s =
    (let current = (case obj_get (sessionStateById s) sessionId of
                      None \<Rightarrow> INITIAL_TOKEN_STATE | Some r \<Rightarrow> tokenState r) in
     put_runtime sessionId
       ((runtime_of s sessionId)\<lparr>tokenState := next_token_state partial current,
          hasUsageSnapshot := True\<rparr>) s)"

definition replaceTokenState :: "string \<Rightarrow> token_state \<Rightarrow> bool \<Rightarrow> chat_store \<Rightarrow> chat_store" where
  "replaceTokenState sessionId tokens usageSnapshot s =
    put_runtime sessionId
      ((runtime_of s sessionId)\<lparr>tokenState := tokens, hasUsageSnapshot := usageSnapshot\<rparr>) s"

definition resetTokenState :: "string \<Rightarrow> chat_store \<Rightarrow> chat_store" where
  "resetTokenState sessionId s =
    put_runtime sessionId
      ((runtime_of s sessionId)\<lparr>tokenState := INITIAL_TOKEN_STATE, hasUsageSnapshot := False\<rparr>) s"

end
