(* ===== verification/ChatQueue.thy ===== *)
theory ChatQueue
  imports ChatStore
begin

text \<open>
  The message queue, the drafts, and the session lifecycle (promotion of a draft session to its
  backend id, cleanup) of the chat store (\<open>src/src/features/chat/stores/chatStore.ts\<close>).
  An action that returns a value returns it with the new world.
\<close>

section \<open>Message queue\<close>

definition persist_queues :: "string list \<Rightarrow> chat_world \<Rightarrow> chat_world" where
  \<comment> \<open>\<open>persistMessageQueues(get().queuedMessageBySession, ids)\<close>\<close>
  "persist_queues ids w =
    w\<lparr>env := persistMessageQueues (queuedMessageBySession (store w)) ids (env w)\<rparr>"

definition deferred_record :: "string \<Rightarrow> queued_payload \<Rightarrow> json \<Rightarrow> queued_record" where
  "deferred_record uuid payload state =
    \<lparr>qr_kind = Deferred state, qr_recordId = uuid, qr_payload = payload,
     qr_restored = False, qr_editing = False\<rparr>"

definition ready_record :: "string \<Rightarrow> queued_payload \<Rightarrow> queued_record" where
  "ready_record uuid payload =
    \<lparr>qr_kind = TransportReady False, qr_recordId = uuid, qr_payload = payload,
     qr_restored = False, qr_editing = False\<rparr>"

definition enqueueDeferredMessage ::
  "string \<Rightarrow> string \<Rightarrow> queued_payload \<Rightarrow> json \<Rightarrow> chat_world \<Rightarrow> queued_record option \<times> chat_world" where
  "enqueueDeferredMessage uuid sessionId payload state w =
    (let queue = queue_of (store w) sessionId in
     if list_ex is_deferred queue then (None, w)
     else
       let record = deferred_record uuid payload state in
       (Some record,
        persist_queues [sessionId] (with_store (put_queue sessionId (queue @ [record])) w)))"

definition deferred_with_id :: "string \<Rightarrow> queued_record \<Rightarrow> bool" where
  "deferred_with_id recordId r \<longleftrightarrow> is_deferred r \<and> qr_recordId r = recordId"

definition ready_with_id :: "string \<Rightarrow> queued_record \<Rightarrow> bool" where
  "ready_with_id recordId r \<longleftrightarrow> \<not> is_deferred r \<and> qr_recordId r = recordId"

definition write_record ::
  "string \<Rightarrow> queued_record list \<Rightarrow> nat \<Rightarrow> queued_record \<Rightarrow> chat_world \<Rightarrow> chat_world" where
  \<comment> \<open>\<open>next[index] = record; set({... [sessionId]: next}); persist\<close>\<close>
  "write_record sessionId queue i r w =
    persist_queues [sessionId] (with_store (put_queue sessionId (queue[i := r])) w)"

definition updateDeferredMessage ::
  "string \<Rightarrow> string \<Rightarrow> json \<Rightarrow> chat_world \<Rightarrow> bool \<times> chat_world" where
  "updateDeferredMessage sessionId recordId state w =
    (let queue = queue_of (store w) sessionId in
     case find_index (deferred_with_id recordId) queue of
       None \<Rightarrow> (False, w)
     | Some i \<Rightarrow> (True, write_record sessionId queue i ((queue ! i)\<lparr>qr_kind := Deferred state\<rparr>) w))"

definition deferTransportReadyMessage ::
  "string \<Rightarrow> string \<Rightarrow> json \<Rightarrow> queued_payload option \<Rightarrow> chat_world \<Rightarrow> bool \<times> chat_world" where
  "deferTransportReadyMessage sessionId recordId state payload w =
    (let queue = queue_of (store w) sessionId in
     case find_index (ready_with_id recordId) queue of
       None \<Rightarrow> (False, w)
     | Some i \<Rightarrow>
         let record = queue ! i in
         (True, write_record sessionId queue i
           \<lparr>qr_kind = Deferred state, qr_recordId = recordId,
            qr_payload = or_else payload (qr_payload record),
            qr_restored = False, qr_editing = qr_editing record\<rparr> w))"

definition releaseDeferredMessage :: "string \<Rightarrow> string \<Rightarrow> chat_world \<Rightarrow> bool \<times> chat_world" where
  "releaseDeferredMessage sessionId recordId w =
    (let queue = queue_of (store w) sessionId in
     case find_index (deferred_with_id recordId) queue of
       None \<Rightarrow> (False, w)
     | Some i \<Rightarrow>
         let record = queue ! i in
         (True, write_record sessionId queue i
           \<lparr>qr_kind = TransportReady True, qr_recordId = recordId,
            qr_payload = qr_payload record,
            qr_restored = False, qr_editing = qr_editing record\<rparr> w))"

definition enqueueTransportReadyMessage ::
  "string \<Rightarrow> string \<Rightarrow> queued_payload \<Rightarrow> chat_world \<Rightarrow> bool \<times> chat_world" where
  "enqueueTransportReadyMessage uuid sessionId payload w =
    (True, persist_queues [sessionId]
       (with_store (\<lambda>s. put_queue sessionId (queue_of s sessionId @ [ready_record uuid payload]) s) w))"

definition deferred_status :: "queued_record \<Rightarrow> json option" where
  \<comment> \<open>\<open>record.kind === "deferred" ? record.state?.status : undefined\<close>\<close>
  "deferred_status r =
    (case qr_kind r of Deferred st \<Rightarrow> json_field st ''status'' | TransportReady _ \<Rightarrow> None)"

definition updated_record :: "string \<Rightarrow> queued_payload \<Rightarrow> queued_record \<Rightarrow> queued_record option" where
  \<comment> \<open>the record \<open>updateQueuedMessage\<close> writes; \<open>None\<close> is its \<open>return false\<close>\<close>
  "updated_record recordId payload r0 =
    (let r = r0\<lparr>qr_editing := False\<rparr> in
     if is_deferred r \<and>
        (deferred_status r = Some (JStr ''held'') \<or> deferred_status r = Some (JStr ''failed''))
     then
       (if \<not> isAdmittedQueuedMessagePayload payload then None
        else Some \<lparr>qr_kind = TransportReady True, qr_recordId = recordId, qr_payload = payload,
                   qr_restored = False, qr_editing = False\<rparr>)
     else if \<not> is_deferred r then
       (if \<not> isAdmittedQueuedMessagePayload payload then None
        else Some (r\<lparr>qr_payload := payload\<rparr>))
     else Some (r\<lparr>qr_payload := payload\<rparr>))"

definition updateQueuedMessage ::
  "string \<Rightarrow> string \<Rightarrow> queued_payload \<Rightarrow> chat_world \<Rightarrow> bool \<times> chat_world" where
  "updateQueuedMessage sessionId recordId payload w =
    (let queue = queue_of (store w) sessionId in
     case find_index (\<lambda>r. qr_recordId r = recordId) queue of
       None \<Rightarrow> (False, w)
     | Some i \<Rightarrow>
         (case updated_record recordId payload (queue ! i) of
            None \<Rightarrow> (False, w)
          | Some r \<Rightarrow> (True, write_record sessionId queue i r w)))"

definition setQueuedMessageEditing ::
  "string \<Rightarrow> string \<Rightarrow> bool \<Rightarrow> chat_world \<Rightarrow> bool \<times> chat_world" where
  "setQueuedMessageEditing sessionId recordId editing w =
    (let queue = queue_of (store w) sessionId in
     case find_index (\<lambda>r. qr_recordId r = recordId) queue of
       None \<Rightarrow> (False, w)
     | Some i \<Rightarrow> (True, write_record sessionId queue i ((queue ! i)\<lparr>qr_editing := editing\<rparr>) w))"

definition replaceQueuedMessages :: "queued_record list jsobj \<Rightarrow> chat_store \<Rightarrow> chat_store" where
  "replaceQueuedMessages queues s =
    s\<lparr>queuedMessageBySession := queues, hasHydratedMessageQueues := True\<rparr>"

fun reconcile_loop ::
  "queued_record list jsobj \<Rightarrow> string list \<Rightarrow> queued_record list jsobj \<Rightarrow> queued_record list jsobj" where
  "reconcile_loop queues [] cur = cur"
| "reconcile_loop queues (sessionId # ids) cur =
    reconcile_loop queues ids
      (case obj_get queues sessionId of
         Some queue \<Rightarrow> if length queue > 0 then obj_set sessionId queue cur else obj_del sessionId cur
       | None \<Rightarrow> obj_del sessionId cur)"

definition reconcileQueuedMessages ::
  "queued_record list jsobj \<Rightarrow> string list \<Rightarrow> chat_store \<Rightarrow> chat_store" where
  "reconcileQueuedMessages queues sessionIds s =
    s\<lparr>queuedMessageBySession := reconcile_loop queues sessionIds (queuedMessageBySession s)\<rparr>"

definition markQueuedMessagesReady :: "string \<Rightarrow> chat_store \<Rightarrow> chat_store" where
  "markQueuedMessagesReady sessionId s =
    (case obj_get (queuedMessageBySession s) sessionId of
       None \<Rightarrow> s
     | Some queue \<Rightarrow>
         if \<not> list_ex qr_restored queue then s
         else put_queue sessionId (map (\<lambda>r. r\<lparr>qr_restored := False\<rparr>) queue) s)"

definition dismissQueuedMessage_set :: "string \<Rightarrow> string option \<Rightarrow> chat_store \<Rightarrow> chat_store" where
  "dismissQueuedMessage_set sessionId expectedRecordId s =
    (let queue = queue_of s sessionId in
     if length queue = 0 then s
     else
       let next = (if truthy expectedRecordId
                   then filter (\<lambda>r. qr_recordId r \<noteq> the expectedRecordId) queue
                   else drop 1 queue) in
       if length next = length queue then s
       else if length next > 0 then put_queue sessionId next s
       else s\<lparr>queuedMessageBySession := obj_del sessionId (queuedMessageBySession s)\<rparr>)"

definition dismissQueuedMessage :: "string \<Rightarrow> string option \<Rightarrow> chat_world \<Rightarrow> chat_world" where
  "dismissQueuedMessage sessionId expectedRecordId w =
    persist_queues [sessionId] (with_store (dismissQueuedMessage_set sessionId expectedRecordId) w)"

definition moveQueuedMessage ::
  "string \<Rightarrow> string \<Rightarrow> string option \<Rightarrow> chat_world \<Rightarrow> bool \<times> chat_world" where
  "moveQueuedMessage sourceId destinationId recordId w =
    (let source = queue_of (store w) sourceId;
         moved = (if truthy recordId then filter (\<lambda>r. qr_recordId r = the recordId) source else source) in
     if length moved = 0 then (False, w)
     else
       let remaining = (if truthy recordId
                        then filter (\<lambda>r. qr_recordId r \<noteq> the recordId) source else []);
           destination = queue_of (store w) destinationId in
       (True, persist_queues [sourceId, destinationId]
         (with_store (\<lambda>s. s\<lparr>queuedMessageBySession :=
            obj_set destinationId (destination @ moved)
              (if length remaining > 0
               then obj_set sourceId remaining (queuedMessageBySession s)
               else obj_del sourceId (queuedMessageBySession s))\<rparr>) w)))"

section \<open>Drafts\<close>

definition setDraft_set :: "string \<Rightarrow> string \<Rightarrow> chat_store \<Rightarrow> chat_store" where
  "setDraft_set sessionId text s =
    (let previousDraft = or_else (obj_get (draftsBySession s) sessionId) [];
         hadDraft = length previousDraft > 0;
         hasDraft = length text > 0;
         s' = s\<lparr>draftsBySession := obj_set sessionId text (draftsBySession s)\<rparr> in
     if hadDraft = hasDraft then s'
     else s'\<lparr>nonEmptyDraftSessionIds :=
       (if hasDraft then insert sessionId (nonEmptyDraftSessionIds s)
        else nonEmptyDraftSessionIds s - {sessionId})\<rparr>)"

definition persist_drafts :: "chat_world \<Rightarrow> chat_world" where
  \<comment> \<open>\<open>persistDrafts(get().draftsBySession)\<close>\<close>
  "persist_drafts w = w\<lparr>env := persistDrafts (draftsBySession (store w)) (env w)\<rparr>"

definition setDraft :: "string \<Rightarrow> string \<Rightarrow> chat_world \<Rightarrow> chat_world" where
  "setDraft sessionId text w = persist_drafts (with_store (setDraft_set sessionId text) w)"

definition clearDraft_set :: "string \<Rightarrow> chat_store \<Rightarrow> chat_store" where
  "clearDraft_set sessionId s =
    (let s' = s\<lparr>draftsBySession := obj_del sessionId (draftsBySession s)\<rparr> in
     if sessionId \<notin> nonEmptyDraftSessionIds s then s'
     else s'\<lparr>nonEmptyDraftSessionIds := nonEmptyDraftSessionIds s - {sessionId}\<rparr>)"

definition clearDraft :: "string \<Rightarrow> chat_world \<Rightarrow> chat_world" where
  "clearDraft sessionId w = persist_drafts (with_store (clearDraft_set sessionId) w)"

definition setSkillDrafts :: "string \<Rightarrow> chat_skill_draft list \<Rightarrow> chat_store \<Rightarrow> chat_store" where
  "setSkillDrafts sessionId skills s =
    s\<lparr>skillDraftsBySession :=
      (if length skills = 0 then obj_del sessionId (skillDraftsBySession s)
       else obj_set sessionId skills (skillDraftsBySession s))\<rparr>"

definition clearSkillDrafts :: "string \<Rightarrow> chat_store \<Rightarrow> chat_store" where
  "clearSkillDrafts sessionId s =
    s\<lparr>skillDraftsBySession := obj_del sessionId (skillDraftsBySession s)\<rparr>"

definition setDraftAttachments :: "string \<Rightarrow> attachment_draft list \<Rightarrow> chat_store \<Rightarrow> chat_store" where
  "setDraftAttachments sessionId attachments s =
    s\<lparr>draftAttachmentsBySession :=
      (if length attachments = 0 then obj_del sessionId (draftAttachmentsBySession s)
       else obj_set sessionId attachments (draftAttachmentsBySession s))\<rparr>"

definition clearDraftAttachments :: "string \<Rightarrow> chat_store \<Rightarrow> chat_store" where
  "clearDraftAttachments sessionId s =
    s\<lparr>draftAttachmentsBySession := obj_del sessionId (draftAttachmentsBySession s)\<rparr>"

section \<open>Loading and scroll targets\<close>

definition setSessionLoading :: "string \<Rightarrow> bool \<Rightarrow> chat_store \<Rightarrow> chat_store" where
  "setSessionLoading sessionId loading s =
    s\<lparr>loadingSessionIds :=
      (if loading then insert sessionId (loadingSessionIds s) else loadingSessionIds s - {sessionId})\<rparr>"

definition setScrollTargetMessage :: "string \<Rightarrow> string \<Rightarrow> string option \<Rightarrow> chat_store \<Rightarrow> chat_store" where
  "setScrollTargetMessage sessionId messageId query s =
    s\<lparr>scrollTargetMessageBySession :=
      obj_set sessionId (Some \<lparr>st_messageId = messageId, st_query = query\<rparr>)
        (scrollTargetMessageBySession s)\<rparr>"

definition clearScrollTargetMessage :: "string \<Rightarrow> chat_store \<Rightarrow> chat_store" where
  "clearScrollTargetMessage sessionId s =
    (if or_else (obj_get (scrollTargetMessageBySession s) sessionId) None = None then s
     else s\<lparr>scrollTargetMessageBySession := obj_del sessionId (scrollTargetMessageBySession s)\<rparr>)"

section \<open>Promotion and cleanup\<close>

definition promoteSessionId_set :: "string \<Rightarrow> string \<Rightarrow> chat_store \<Rightarrow> chat_store" where
  "promoteSessionId_set draftId backendId s =
    (let remainingQueued = obj_del draftId (queuedMessageBySession s);
         destinationQueue = or_else (obj_get remainingQueued backendId) [];
         draft = obj_get (draftsBySession s) draftId;
         nonEmpty = nonEmptyDraftSessionIds s - {draftId};
         loading = loadingSessionIds s - {draftId} in
     s\<lparr>messagesBySession := obj_move (\<lambda>_. True) draftId backendId (messagesBySession s),
       sessionStateById := obj_move (\<lambda>_. True) draftId backendId (sessionStateById s),
       queuedMessageBySession :=
         (case obj_get (queuedMessageBySession s) draftId of
            Some q \<Rightarrow> if length q > 0 then obj_set backendId (destinationQueue @ q) remainingQueued
                      else remainingQueued
          | None \<Rightarrow> remainingQueued),
       draftsBySession := obj_move (\<lambda>_. True) draftId backendId (draftsBySession s),
       nonEmptyDraftSessionIds :=
         (if draftId \<in> nonEmptyDraftSessionIds s \<and> truthy draft then insert backendId nonEmpty
          else nonEmpty),
       skillDraftsBySession := obj_move (\<lambda>_. True) draftId backendId (skillDraftsBySession s),
       draftAttachmentsBySession := obj_move (\<lambda>_. True) draftId backendId (draftAttachmentsBySession s),
       scrollTargetMessageBySession :=
         obj_move (\<lambda>t. t \<noteq> None) draftId backendId (scrollTargetMessageBySession s),
       loadingSessionIds :=
         (if draftId \<in> loadingSessionIds s then insert backendId loading else loading),
       activeSessionId :=
         (if activeSessionId s = Some draftId then Some backendId else activeSessionId s),
       recentMessageSessionIds :=
         replaceRecentMessageSessionId (recentMessageSessionIds s) draftId backendId\<rparr>)"

definition promoteSessionId :: "string \<Rightarrow> string \<Rightarrow> chat_world \<Rightarrow> chat_world" where
  "promoteSessionId draftId backendId w =
    persistUnreadStateIfChanged (sessionStateById (store w))
      (persist_drafts
        (persist_queues [draftId, backendId]
          (with_store (promoteSessionId_set draftId backendId) w)))"

definition cleanupSession_set :: "string \<Rightarrow> chat_store \<Rightarrow> chat_store" where
  "cleanupSession_set sessionId s =
    s\<lparr>messagesBySession := obj_del sessionId (messagesBySession s),
      sessionStateById := obj_del sessionId (sessionStateById s),
      queuedMessageBySession := obj_del sessionId (queuedMessageBySession s),
      draftsBySession := obj_del sessionId (draftsBySession s),
      nonEmptyDraftSessionIds := nonEmptyDraftSessionIds s - {sessionId},
      skillDraftsBySession := obj_del sessionId (skillDraftsBySession s),
      draftAttachmentsBySession := obj_del sessionId (draftAttachmentsBySession s),
      scrollTargetMessageBySession := obj_del sessionId (scrollTargetMessageBySession s),
      mountedTranscriptCountBySession := obj_del sessionId (mountedTranscriptCountBySession s),
      activeSessionId := (if activeSessionId s = Some sessionId then None else activeSessionId s),
      recentMessageSessionIds := removeRecentMessageSessionId (recentMessageSessionIds s) sessionId,
      isViewingActiveSession :=
        (if activeSessionId s = Some sessionId then False else isViewingActiveSession s)\<rparr>"

definition cleanupSession :: "string \<Rightarrow> chat_world \<Rightarrow> chat_world" where
  "cleanupSession sessionId w =
    persistUnreadStateIfChanged (sessionStateById (store w))
      (persist_drafts
        (persist_queues [sessionId]
          (with_store (cleanupSession_set sessionId)
            (w\<lparr>replayBuffers := clearReplayBuffer sessionId (replayBuffers w)\<rparr>))))"

end
