(* ===== verification/ChatTrim.thy ===== *)
theory ChatTrim
  imports ChatStreaming ChatQueue
begin

text \<open>
  The message cache of the chat store: what \<open>trimMessageSessionCache\<close> evicts and keeps.
\<close>

section \<open>The eviction loop\<close>

definition evictable :: "chat_store \<Rightarrow> string set \<Rightarrow> string \<Rightarrow> bool" where
  "evictable s prot k \<longleftrightarrow> k \<notin> prot \<and> canEvictSessionMessages s k"

text \<open>The sessions the loop drops: the first evictable ones, as many as are over the limit.\<close>

definition evicted_prefix :: "chat_store \<Rightarrow> string set \<Rightarrow> string list \<Rightarrow> nat \<Rightarrow> string list" where
  "evicted_prefix s prot ks n = take (n - MESSAGE_SESSION_CACHE_LIMIT) (filter (evictable s prot) ks)"

lemma trim_loop_eq:
  "trim_loop s prot ks n msgs ev =
    (fold obj_del (evicted_prefix s prot ks n) msgs, ev @ evicted_prefix s prot ks n)"
proof (induction ks arbitrary: n msgs ev)
  case Nil
  then show ?case by (simp add: evicted_prefix_def)
next
  case (Cons k ks)
  show ?case
  proof (cases "n \<le> MESSAGE_SESSION_CACHE_LIMIT")
    case True
    then show ?thesis by (simp add: evicted_prefix_def)
  next
    case False
    then obtain d where "n = MESSAGE_SESSION_CACHE_LIMIT + Suc d"
      by (auto simp: not_le dest: less_imp_Suc_add)
    with False Cons.IH show ?thesis
      by (auto simp: evicted_prefix_def evictable_def)
  qed
qed

lemma fold_obj_del: "fold obj_del ks m = filter (\<lambda>p. fst p \<notin> set ks) m"
proof (induction ks arbitrary: m)
  case Nil
  then show ?case by simp
next
  case (Cons k ks)
  have "filter (\<lambda>p. fst p \<notin> set ks) (filter (\<lambda>p. fst p \<noteq> k) m) =
        filter (\<lambda>p. fst p \<notin> set (k # ks)) m"
    by (simp add: conj_commute)
  with Cons show ?case by (simp add: obj_del_def)
qed

definition trim_evicts :: "chat_store \<Rightarrow> string list \<Rightarrow> string list \<Rightarrow> string list" where
  "trim_evicts s recent additional =
    evicted_prefix s (protected_ids s recent additional) (obj_keys (messagesBySession s))
      (length (messagesBySession s))"

lemma trim_eq:
  "trimMessageSessionCache s recent additional =
    (filter (\<lambda>p. fst p \<notin> set (trim_evicts s recent additional)) (messagesBySession s),
     trim_evicts s recent additional)"
  by (auto simp: trimMessageSessionCache_def trim_loop_eq fold_obj_del trim_evicts_def
      evicted_prefix_def obj_keys_def Let_def)

lemma trim_evicts_sub:
  "k \<in> set (trim_evicts s recent additional) \<Longrightarrow>
    k \<in> set (obj_keys (messagesBySession s)) \<and>
    evictable s (protected_ids s recent additional) k"
  by (auto simp: trim_evicts_def evicted_prefix_def dest!: in_set_takeD)

lemma trim_wf [simp]:
  "obj_wf (messagesBySession s) \<Longrightarrow> obj_wf (fst (trimMessageSessionCache s recent additional))"
  by (simp add: trim_eq)

lemma trim_get:
  "obj_wf (messagesBySession s) \<Longrightarrow>
   obj_get (fst (trimMessageSessionCache s recent additional)) k =
     (if k \<in> set (trim_evicts s recent additional) then None else obj_get (messagesBySession s) k)"
  unfolding trim_eq fst_conv
  by (subst obj_get_filter [where P = "\<lambda>k _. k \<notin> set (trim_evicts s recent additional)"])
    (auto split: option.splits)

lemma trim_keeps_protected:
  "k \<in> protected_ids s recent additional \<Longrightarrow> k \<notin> set (trim_evicts s recent additional)"
  using trim_evicts_sub [of k s recent additional] by (auto simp: evictable_def)

lemma trim_evicts_distinct:
  "obj_wf (messagesBySession s) \<Longrightarrow> distinct (trim_evicts s recent additional)"
  by (simp add: trim_evicts_def evicted_prefix_def obj_wf_def obj_keys_def)

text \<open>Counting: nothing goes below the limit, and over the limit everything left is needed.\<close>

lemma trim_size:
  assumes "obj_wf (messagesBySession s)"
  shows "length (fst (trimMessageSessionCache s recent additional)) +
      length (trim_evicts s recent additional) = length (messagesBySession s)"
proof -
  let ?ev = "trim_evicts s recent additional" and ?m = "messagesBySession s"
  have "set ?ev \<subseteq> set (map fst ?m)"
    using trim_evicts_sub by (auto simp: obj_keys_def)
  then have "set (filter (\<lambda>k. k \<in> set ?ev) (map fst ?m)) = set ?ev" by auto
  moreover have "distinct (filter (\<lambda>k. k \<in> set ?ev) (map fst ?m))"
    using assms by (simp add: obj_wf_def)
  ultimately have "length (filter (\<lambda>k. k \<in> set ?ev) (map fst ?m)) = length ?ev"
    using trim_evicts_distinct [OF assms] by (metis distinct_card)
  then have "length (filter (\<lambda>p. fst p \<in> set ?ev) ?m) = length ?ev"
    by (simp add: filter_map comp_def)
  then show ?thesis
    using sum_length_filter_compl [of "\<lambda>p. fst p \<in> set ?ev" ?m] by (simp add: trim_eq)
qed

lemma trim_evicts_bound:
  "length (trim_evicts s recent additional) \<le>
    length (messagesBySession s) - MESSAGE_SESSION_CACHE_LIMIT"
  by (simp add: trim_evicts_def evicted_prefix_def)

lemma trim_complete:
  assumes wf: "obj_wf (messagesBySession s)"
    and over: "length (fst (trimMessageSessionCache s recent additional)) > MESSAGE_SESSION_CACHE_LIMIT"
    and k: "k \<in> set (obj_keys (fst (trimMessageSessionCache s recent additional)))"
  shows "\<not> evictable s (protected_ids s recent additional) k"
proof
  let ?P = "evictable s (protected_ids s recent additional)"
  let ?ks = "filter ?P (obj_keys (messagesBySession s))"
  let ?d = "length (messagesBySession s) - MESSAGE_SESSION_CACHE_LIMIT"
  assume ev: "?P k"
  have "length (trim_evicts s recent additional) < ?d"
    using trim_size [OF wf, of recent additional] over by simp
  then have "trim_evicts s recent additional = ?ks"
    by (simp add: trim_evicts_def evicted_prefix_def min_def split: if_splits)
  moreover have "k \<in> set (obj_keys (messagesBySession s))" "k \<notin> set (trim_evicts s recent additional)"
    using k by (auto simp: trim_eq obj_keys_def)
  ultimately show False using ev by auto
qed

end
