(* ===== verification/ChatInvariants.thy ===== *)
theory ChatInvariants
  imports ChatTrim
begin

text \<open>
  The invariants of the chat store and of its persistence, kept by every action.

  \<open>store_inv\<close>: one entry per session in every dictionary, the list of recent sessions has
  no duplicates and at most ten entries, mounted transcripts are counted from one, and
  \<open>nonEmptyDraftSessionIds\<close> is exactly the set of sessions whose draft has text.

  \<open>unread_synced\<close> and \<open>drafts_synced\<close>: what the two persistence modules would load
  after a restart is what the store holds.
\<close>

section \<open>Actions\<close>

datatype store_action =
    SetActiveSessionViewing bool
  | RetainMountedTranscript string
  | ReplaceMessageId string string string
  | RemoveMessage string string
  | SetStreamingMessageId string "string option"
  | ClearSettledStreamingMessage string
  | SettleActiveRun string
  | MarkToolCallInRun string
  | SetActiveRunId string "string option"
  | SetRunCancellationPending string bool
  | SetPendingInterventionBoundary string "string option"
  | SetPendingAssistantProvider string "string option"
  | UpdateStreamingThinking string string
  | StartAssistantStreamAfterIntervention string js_number string
  | SetChatState string chat_state
  | SetError string "string option"
  | SetConnected bool
  | UpdateTokenState string partial_token_state
  | ReplaceTokenState string token_state bool
  | ResetTokenState string
  | ReplaceQueuedMessages "queued_record list jsobj"
  | ReconcileQueuedMessages "queued_record list jsobj" "string list"
  | MarkQueuedMessagesReady string
  | SetSkillDrafts string "chat_skill_draft list"
  | ClearSkillDrafts string
  | SetDraftAttachments string "attachment_draft list"
  | ClearDraftAttachments string
  | SetSessionLoading string bool
  | SetScrollTargetMessage string string "string option"
  | ClearScrollTargetMessage string

primrec store_step :: "store_action \<Rightarrow> chat_store \<Rightarrow> chat_store" where
  "store_step (SetActiveSessionViewing b) s = setActiveSessionViewing b s"
| "store_step (RetainMountedTranscript k) s = retainMountedTranscript k s"
| "store_step (ReplaceMessageId k i j) s = replaceMessageId k i j s"
| "store_step (RemoveMessage k i) s = removeMessage k i s"
| "store_step (SetStreamingMessageId k i) s = setStreamingMessageId k i s"
| "store_step (ClearSettledStreamingMessage k) s = snd (clearSettledStreamingMessage k s)"
| "store_step (SettleActiveRun k) s = settleActiveRun k s"
| "store_step (MarkToolCallInRun k) s = markToolCallInRun k s"
| "store_step (SetActiveRunId k r) s = setActiveRunId k r s"
| "store_step (SetRunCancellationPending k b) s = setRunCancellationPending k b s"
| "store_step (SetPendingInterventionBoundary k i) s = setPendingInterventionBoundary k i s"
| "store_step (SetPendingAssistantProvider k p) s = setPendingAssistantProvider k p s"
| "store_step (UpdateStreamingThinking k t) s = updateStreamingThinking k t s"
| "store_step (StartAssistantStreamAfterIntervention u n k) s =
     startAssistantStreamAfterIntervention u n k s"
| "store_step (SetChatState k c) s = setChatState k c s"
| "store_step (SetError k e) s = setError k e s"
| "store_step (SetConnected b) s = setConnected b s"
| "store_step (UpdateTokenState k p) s = updateTokenState k p s"
| "store_step (ReplaceTokenState k t b) s = replaceTokenState k t b s"
| "store_step (ResetTokenState k) s = resetTokenState k s"
| "store_step (ReplaceQueuedMessages q) s = replaceQueuedMessages q s"
| "store_step (ReconcileQueuedMessages q ids) s = reconcileQueuedMessages q ids s"
| "store_step (MarkQueuedMessagesReady k) s = markQueuedMessagesReady k s"
| "store_step (SetSkillDrafts k d) s = setSkillDrafts k d s"
| "store_step (ClearSkillDrafts k) s = clearSkillDrafts k s"
| "store_step (SetDraftAttachments k a) s = setDraftAttachments k a s"
| "store_step (ClearDraftAttachments k) s = clearDraftAttachments k s"
| "store_step (SetSessionLoading k b) s = setSessionLoading k b s"
| "store_step (SetScrollTargetMessage k m q) s = setScrollTargetMessage k m q s"
| "store_step (ClearScrollTargetMessage k) s = clearScrollTargetMessage k s"

datatype chat_action =
    StoreAction store_action
  | SetActiveSession string
  | ReleaseMountedTranscript string bool
  | AddMessage string message
  | UpdateMessage string string "message \<Rightarrow> message option"
  | SetMessages string "message list"
  | ClearMessages string
  | AppendToStreamingMessage string message_content
  | AppendStreamingText string string string
  | AppendStreamingMessageUpdates "streaming_update list" streaming_mode
  | UpdateStreamingText string string
  | MarkSessionRead string
  | MarkSessionUnread string
  | EnqueueDeferredMessage string string queued_payload json
  | UpdateDeferredMessage string string json
  | DeferTransportReadyMessage string string json "queued_payload option"
  | ReleaseDeferredMessage string string
  | EnqueueTransportReadyMessage string string queued_payload
  | UpdateQueuedMessage string string queued_payload
  | SetQueuedMessageEditing string string bool
  | DismissQueuedMessage string "string option"
  | MoveQueuedMessage string string "string option"
  | SetDraft string string
  | ClearDraft string
  | PromoteSessionId string string
  | CleanupSession string

primrec chat_step :: "chat_action \<Rightarrow> chat_world \<Rightarrow> chat_world" where
  "chat_step (StoreAction a) w = with_store (store_step a) w"
| "chat_step (SetActiveSession k) w = setActiveSession k w"
| "chat_step (ReleaseMountedTranscript k r) w = snd (releaseMountedTranscript k r w)"
| "chat_step (AddMessage k m) w = addMessage k m w"
| "chat_step (UpdateMessage k i f) w = updateMessage k i f w"
| "chat_step (SetMessages k ms) w = setMessages k ms w"
| "chat_step (ClearMessages k) w = clearMessages k w"
| "chat_step (AppendToStreamingMessage k c) w = appendToStreamingMessage k c w"
| "chat_step (AppendStreamingText k i t) w = appendStreamingText k i t w"
| "chat_step (AppendStreamingMessageUpdates us md) w = appendStreamingMessageUpdates us md w"
| "chat_step (UpdateStreamingText k t) w = updateStreamingText k t w"
| "chat_step (MarkSessionRead k) w = markSessionRead k w"
| "chat_step (MarkSessionUnread k) w = markSessionUnread k w"
| "chat_step (EnqueueDeferredMessage u k p st) w = snd (enqueueDeferredMessage u k p st w)"
| "chat_step (UpdateDeferredMessage k i st) w = snd (updateDeferredMessage k i st w)"
| "chat_step (DeferTransportReadyMessage k i st p) w = snd (deferTransportReadyMessage k i st p w)"
| "chat_step (ReleaseDeferredMessage k i) w = snd (releaseDeferredMessage k i w)"
| "chat_step (EnqueueTransportReadyMessage u k p) w = snd (enqueueTransportReadyMessage u k p w)"
| "chat_step (UpdateQueuedMessage k i p) w = snd (updateQueuedMessage k i p w)"
| "chat_step (SetQueuedMessageEditing k i b) w = snd (setQueuedMessageEditing k i b w)"
| "chat_step (DismissQueuedMessage k i) w = dismissQueuedMessage k i w"
| "chat_step (MoveQueuedMessage a b i) w = snd (moveQueuedMessage a b i w)"
| "chat_step (SetDraft k t) w = setDraft k t w"
| "chat_step (ClearDraft k) w = clearDraft k w"
| "chat_step (PromoteSessionId a b) w = promoteSessionId a b w"
| "chat_step (CleanupSession k) w = cleanupSession k w"

section \<open>The store invariant\<close>

definition draft_index_ok :: "string jsobj \<Rightarrow> string set \<Rightarrow> bool" where
  "draft_index_ok drafts ids \<longleftrightarrow> ids = {k. \<exists>d. obj_get drafts k = Some d \<and> d \<noteq> []}"

definition recent_ok :: "string list \<Rightarrow> bool" where
  "recent_ok r \<longleftrightarrow> distinct r \<and> length r \<le> MESSAGE_SESSION_CACHE_LIMIT"

definition counts_ok :: "nat jsobj \<Rightarrow> bool" where
  "counts_ok m \<longleftrightarrow> obj_wf m \<and> (\<forall>k c. obj_get m k = Some c \<longrightarrow> c > 0)"

definition store_inv :: "chat_store \<Rightarrow> bool" where
  "store_inv s \<longleftrightarrow>
     obj_wf (messagesBySession s) \<and> obj_wf (sessionStateById s) \<and>
     obj_wf (queuedMessageBySession s) \<and> obj_wf (draftsBySession s) \<and>
     obj_wf (skillDraftsBySession s) \<and> obj_wf (draftAttachmentsBySession s) \<and>
     obj_wf (scrollTargetMessageBySession s) \<and>
     counts_ok (mountedTranscriptCountBySession s) \<and>
     recent_ok (recentMessageSessionIds s) \<and>
     draft_index_ok (draftsBySession s) (nonEmptyDraftSessionIds s)"

named_theorems store_defs "the bodies of the store's actions"

lemmas store_action_defs [store_defs] =
  setActiveSessionViewing_def retainMountedTranscript_def replaceMessageId_def removeMessage_def
  setStreamingMessageId_def clearSettledStreamingMessage_def settleActiveRun_def
  markToolCallInRun_def setActiveRunId_def setRunCancellationPending_def
  setPendingInterventionBoundary_def setPendingAssistantProvider_def updateStreamingThinking_def
  startAssistantStreamAfterIntervention_def start_continuation_def setChatState_def setError_def
  setConnected_def updateTokenState_def replaceTokenState_def resetTokenState_def
  markQueuedMessagesReady_def setSkillDrafts_def
  clearSkillDrafts_def setDraftAttachments_def clearDraftAttachments_def setSessionLoading_def
  setScrollTargetMessage_def clearScrollTargetMessage_def

lemma store_inv_puts [simp]:
  "store_inv s \<Longrightarrow> store_inv (put_runtime k r s)"
  "store_inv s \<Longrightarrow> store_inv (put_messages k ms s)"
  "store_inv s \<Longrightarrow> store_inv (put_queue k q s)"
  by (simp_all add: store_inv_def put_runtime_def put_messages_def put_queue_def)

lemma store_inv_fields [simp]:
  "store_inv (s\<lparr>activeSessionId := a\<rparr>) = store_inv s"
  "store_inv (s\<lparr>isViewingActiveSession := b\<rparr>) = store_inv s"
  "store_inv (s\<lparr>isConnected := b\<rparr>) = store_inv s"
  "store_inv (s\<lparr>loadingSessionIds := l\<rparr>) = store_inv s"
  "store_inv (s\<lparr>hasHydratedMessageQueues := b\<rparr>) = store_inv s"
  by (simp_all add: store_inv_def)

lemma store_inv_messages:
  "store_inv s \<Longrightarrow> obj_wf m \<Longrightarrow> store_inv (s\<lparr>messagesBySession := m\<rparr>)"
  by (simp add: store_inv_def)

lemma store_inv_recent:
  "store_inv s \<Longrightarrow> recent_ok r \<Longrightarrow> store_inv (s\<lparr>recentMessageSessionIds := r\<rparr>)"
  by (simp add: store_inv_def)

lemma counts_ok_set: "counts_ok m \<Longrightarrow> c > 0 \<Longrightarrow> counts_ok (obj_set k c m)"
  by (simp add: counts_ok_def)

lemma counts_ok_del: "counts_ok m \<Longrightarrow> counts_ok (obj_del k m)"
  by (simp add: counts_ok_def)

lemma store_inv_mounted:
  "store_inv s \<Longrightarrow> counts_ok m \<Longrightarrow> store_inv (s\<lparr>mountedTranscriptCountBySession := m\<rparr>)"
  by (simp add: store_inv_def)

lemma reconcile_wf: "obj_wf cur \<Longrightarrow> obj_wf (reconcile_loop queues ids cur)"
  by (induction queues ids cur rule: reconcile_loop.induct)
    (auto split: option.splits)

definition store_enabled :: "store_action \<Rightarrow> chat_store \<Rightarrow> bool" where
  \<comment> \<open>a queue object handed in by the caller is an object: one entry per key\<close>
  "store_enabled a s \<longleftrightarrow> (case a of ReplaceQueuedMessages q \<Rightarrow> obj_wf q | _ \<Rightarrow> True)"

lemma store_step_inv: "store_inv s \<Longrightarrow> store_enabled a s \<Longrightarrow> store_inv (store_step a s)"
proof (cases a)
  case (RetainMountedTranscript k)
  assume "store_inv s"
  then have "counts_ok (mountedTranscriptCountBySession s)" by (simp add: store_inv_def)
  then show ?thesis
    using \<open>store_inv s\<close> RetainMountedTranscript
    by (simp add: retainMountedTranscript_def store_inv_mounted counts_ok_set)
qed (auto simp: store_defs Let_def store_enabled_def store_inv_def reconcile_wf
      replaceQueuedMessages_def reconcileQueuedMessages_def put_runtime_def put_messages_def
      put_queue_def split: option.splits)

end
