(* ===== verification/ChatSync.thy ===== *)
theory ChatSync
  imports ChatInvariants
begin

text \<open>
  The chat store's world actions: \<open>store_inv\<close> is kept, and what the persistence modules
  would load after a restart stays equal to what the store holds.
\<close>

section \<open>The store invariant under world actions\<close>

lemma recent_ok_update: "recent_ok r \<Longrightarrow> recent_ok (updateRecentMessageSessionIds r k)"
  unfolding recent_ok_def updateRecentMessageSessionIds_def by (simp add: distinct_take)

lemma recent_ok_replace: "recent_ok (replaceRecentMessageSessionId r a b)"
  unfolding recent_ok_def replaceRecentMessageSessionId_def by (simp add: distinct_take)

lemma recent_ok_remove: "recent_ok r \<Longrightarrow> recent_ok (removeRecentMessageSessionId r k)"
  unfolding recent_ok_def removeRecentMessageSessionId_def
  by (auto intro: order_trans [OF length_filter_le])

lemma recent_ok_if_active: "store_inv s \<Longrightarrow> recent_ok (recent_if_active s k)"
  by (simp add: recent_if_active_def recent_ok_update store_inv_def)

lemma store_inv_wf:
  "store_inv s \<Longrightarrow> obj_wf (messagesBySession s)"
  "store_inv s \<Longrightarrow> obj_wf (sessionStateById s)"
  "store_inv s \<Longrightarrow> recent_ok (recentMessageSessionIds s)"
  "store_inv s \<Longrightarrow> counts_ok (mountedTranscriptCountBySession s)"
  by (simp_all add: store_inv_def)

lemma store_inv_mark_unread [simp]: "store_inv s \<Longrightarrow> store_inv (mark_unread_if b k s)"
  by (simp add: mark_unread_if_def)

lemma setActiveSession_inv: "store_inv s \<Longrightarrow> store_inv (fst (setActiveSession_set k s))"
  by (auto simp: setActiveSession_set_def Let_def trim_eq store_inv_def recent_ok_update)

lemma releaseMountedTranscript_inv:
  "store_inv s \<Longrightarrow> store_inv (fst (releaseMountedTranscript_set k s))"
  by (auto simp: releaseMountedTranscript_set_def Let_def trim_eq store_inv_def
      counts_ok_set counts_ok_del)

lemma addMessage_inv: "store_inv s \<Longrightarrow> store_inv (fst (addMessage_set k m s))"
proof -
  assume inv: "store_inv s"
  then have "recent_ok (recent_if_active s k)" by (rule recent_ok_if_active)
  with inv show ?thesis
    by (simp add: addMessage_set_def Let_def trim_eq split_beta store_inv_def
        mark_unread_if_def put_runtime_def)
qed

lemma setMessages_inv: "store_inv s \<Longrightarrow> store_inv (fst (setMessages_set k ms s))"
proof -
  assume inv: "store_inv s"
  then have "recent_ok (recent_if_active s k)" by (rule recent_ok_if_active)
  with inv show ?thesis
    by (simp add: setMessages_set_def Let_def trim_eq split_beta store_inv_def)
qed

lemma updateMessage_inv: "store_inv s \<Longrightarrow> store_inv (updateMessage_set k i f s)"
  by (simp add: updateMessage_set_def Let_def split: option.split)

lemma appendToStreaming_inv: "store_inv s \<Longrightarrow> store_inv (appendToStreamingMessage_set k c s)"
  by (simp add: appendToStreamingMessage_set_def Let_def split: option.split)

lemma appendStreamingText_inv: "store_inv s \<Longrightarrow> store_inv (fst (appendStreamingText_set k i t s))"
  by (auto simp: appendStreamingText_set_def Let_def split: option.split)

lemma streaming_update_step_inv:
  "store_inv (fst acc) \<Longrightarrow> store_inv (fst (streaming_update_step md s0 u acc))"
  by (auto simp: streaming_update_step_def Let_def split_beta split: option.split)

lemma appendStreamingMessageUpdates_inv:
  "store_inv s \<Longrightarrow> store_inv (fst (appendStreamingMessageUpdates_set us md s))"
proof -
  have "store_inv (fst acc) \<Longrightarrow> store_inv (fst (fold (streaming_update_step md s) us acc))" for acc
    by (induction us arbitrary: acc) (simp_all add: streaming_update_step_inv)
  then show "store_inv s \<Longrightarrow> ?thesis" by (simp add: appendStreamingMessageUpdates_set_def)
qed

lemma dismiss_inv: "store_inv s \<Longrightarrow> store_inv (dismissQueuedMessage_set k r s)"
  by (auto simp: dismissQueuedMessage_set_def Let_def) (simp_all add: store_inv_def)

text \<open>
  The index of non-empty drafts. Promotion keeps it unless the draft session holds an empty
  draft while the backend session is listed with a draft of its own.
\<close>

lemma setDraft_inv: "store_inv s \<Longrightarrow> store_inv (setDraft_set k t s)"
  by (auto simp: setDraft_set_def Let_def store_inv_def draft_index_ok_def or_else_def
      split: option.splits if_splits)

lemma clearDraft_inv: "store_inv s \<Longrightarrow> store_inv (clearDraft_set k s)"
  by (auto simp: clearDraft_set_def Let_def store_inv_def draft_index_ok_def)

definition promote_drafts_ok :: "string \<Rightarrow> string \<Rightarrow> chat_store \<Rightarrow> bool" where
  "promote_drafts_ok a b s \<longleftrightarrow>
     obj_get (draftsBySession s) a = Some [] \<longrightarrow> b \<notin> nonEmptyDraftSessionIds s"

lemma promote_draft_index:
  assumes "draft_index_ok (draftsBySession s) (nonEmptyDraftSessionIds s)" "promote_drafts_ok a b s"
  shows "draft_index_ok (draftsBySession (promoteSessionId_set a b s))
    (nonEmptyDraftSessionIds (promoteSessionId_set a b s))"
proof -
  have "k \<in> nonEmptyDraftSessionIds (promoteSessionId_set a b s) \<longleftrightarrow>
      (\<exists>d. obj_get (draftsBySession (promoteSessionId_set a b s)) k = Some d \<and> d \<noteq> [])" for k
    using assms
    by (cases "obj_get (draftsBySession s) a")
      (auto simp: promoteSessionId_set_def Let_def draft_index_ok_def promote_drafts_ok_def)
  then show ?thesis by (auto simp: draft_index_ok_def)
qed

lemma promote_inv:
  assumes "store_inv s" "promote_drafts_ok a b s"
  shows "store_inv (promoteSessionId_set a b s)"
proof -
  have "draft_index_ok (draftsBySession (promoteSessionId_set a b s))
    (nonEmptyDraftSessionIds (promoteSessionId_set a b s))"
    using assms by (simp add: promote_draft_index store_inv_def)
  with assms(1) show ?thesis
    by (auto simp: promoteSessionId_set_def Let_def store_inv_def recent_ok_replace
        split: option.split)
qed

lemma cleanup_inv: "store_inv s \<Longrightarrow> store_inv (cleanupSession_set k s)"
  by (auto simp: cleanupSession_set_def store_inv_def counts_ok_del recent_ok_remove
      draft_index_ok_def)

lemma move_queue_inv:
  "store_inv s \<Longrightarrow> obj_wf q \<Longrightarrow> store_inv (s\<lparr>queuedMessageBySession := q\<rparr>)"
  by (simp add: store_inv_def)

text \<open>What storage writes leave of the world.\<close>

lemma store_frame [simp]:
  "store (clear_buffers ids w) = store w" "env (clear_buffers ids w) = env w"
  "store (persist_queues ids w) = store w" "store (persist_drafts w) = store w"
  "store (persistUnreadStateIfChanged prev w) = store w"
  "store (with_store f w) = f (store w)" "env (with_store f w) = env w"
  by (simp_all add: clear_buffers_def persist_queues_def persist_drafts_def
      persistUnreadStateIfChanged_def with_store_def Let_def)

definition chat_enabled :: "chat_action \<Rightarrow> chat_world \<Rightarrow> bool" where
  "chat_enabled a w \<longleftrightarrow>
    (case a of
       StoreAction b \<Rightarrow> store_enabled b (store w)
     | PromoteSessionId d b \<Rightarrow> promote_drafts_ok d b (store w)
     | _ \<Rightarrow> True)"

lemmas world_action_defs =
  setActiveSession_def releaseMountedTranscript_def addMessage_def updateMessage_def setMessages_def
  clearMessages_def appendToStreamingMessage_def appendStreamingText_def
  appendStreamingMessageUpdates_def updateStreamingText_def markSessionRead_def
  markSessionUnread_def enqueueDeferredMessage_def updateDeferredMessage_def
  deferTransportReadyMessage_def releaseDeferredMessage_def enqueueTransportReadyMessage_def
  updateQueuedMessage_def setQueuedMessageEditing_def dismissQueuedMessage_def
  moveQueuedMessage_def setDraft_def clearDraft_def promoteSessionId_def cleanupSession_def
  write_record_def

lemmas world_inv_lemmas =
  setActiveSession_inv releaseMountedTranscript_inv addMessage_inv updateMessage_inv setMessages_inv
  appendToStreaming_inv appendStreamingText_inv appendStreamingMessageUpdates_inv dismiss_inv
  setDraft_inv clearDraft_inv cleanup_inv

lemma chat_step_inv:
  assumes inv: "store_inv (store w)" and en: "chat_enabled a w"
  shows "store_inv (store (chat_step a w))"
proof (cases a)
  case (StoreAction b)
  then show ?thesis using inv en by (simp add: chat_enabled_def store_step_inv)
next
  case (PromoteSessionId d b)
  then show ?thesis using inv en by (simp add: chat_enabled_def promoteSessionId_def promote_inv)
next
  case (MoveQueuedMessage x y i)
  then show ?thesis using inv
    by (auto simp: moveQueuedMessage_def Let_def intro!: move_queue_inv simp: store_inv_def)
qed (use inv world_inv_lemmas [OF inv] in
    \<open>auto simp: world_action_defs Let_def split_beta split: option.split prod.split\<close>)

section \<open>The unread marks and their persisted copy\<close>

definition unread_of :: "chat_store \<Rightarrow> string set" where
  "unread_of s = {k. hasUnread (runtime_of s k)}"

lemma unread_of_runtimes: "sessionStateById s = sessionStateById t \<Longrightarrow> unread_of s = unread_of t"
  by (simp add: unread_of_def runtime_of_def)

lemma createInitial_unread [simp]: "hasUnread createInitialSessionRuntime = False"
  by (simp add: createInitialSessionRuntime_def)

lemma runtime_of_put [simp]:
  "runtime_of (put_runtime k r s) k' = (if k' = k then r else runtime_of s k')"
  by (simp add: runtime_of_def put_runtime_def)

lemma runtime_of_frame [simp]:
  "runtime_of (put_messages k ms s) = runtime_of s"
  "runtime_of (put_queue k q s) = runtime_of s"
  by (simp_all add: runtime_of_def put_messages_def put_queue_def fun_eq_iff)

lemma unread_of_put [simp]:
  "unread_of (put_runtime k r s) = (if hasUnread r then insert k (unread_of s) else unread_of s - {k})"
  by (auto simp: unread_of_def)

lemma unread_of_frame [simp]:
  "unread_of (put_messages k ms s) = unread_of s"
  "unread_of (put_queue k q s) = unread_of s"
  by (simp_all add: unread_of_def)

lemma unread_of_same:
  "hasUnread r = hasUnread (runtime_of s k) \<Longrightarrow> unread_of (put_runtime k r s) = unread_of s"
  by (auto simp: unread_of_def)

lemma unread_ids_distinct:
  "obj_wf m \<Longrightarrow> distinct (getUnreadSessionIds m)"
  by (auto simp: getUnreadSessionIds_def obj_wf_def intro: distinct_map_filter)

lemma unread_ids_set:
  "obj_wf (sessionStateById s) \<Longrightarrow> set (getUnreadSessionIds (sessionStateById s)) = unread_of s"
proof -
  assume wf: "obj_wf (sessionStateById s)"
  have "k \<in> set (getUnreadSessionIds (sessionStateById s)) \<longleftrightarrow> k \<in> unread_of s" for k
  proof -
    have "k \<in> set (getUnreadSessionIds (sessionStateById s)) \<longleftrightarrow>
        (\<exists>r. (k, r) \<in> set (sessionStateById s) \<and> hasUnread r)"
      by (force simp: getUnreadSessionIds_def)
    then show ?thesis
      by (simp add: obj_get_in [OF wf, symmetric] unread_of_def runtime_of_def or_else_def
          split: option.split)
  qed
  then show ?thesis by blast
qed

lemma areSessionIdListsEqual_iff:
  assumes "distinct a" "distinct b"
  shows "areSessionIdListsEqual a b \<longleftrightarrow> set a = set b"
proof
  assume eq: "areSessionIdListsEqual a b"
  then have "length a = length b" and sub: "set a \<subseteq> set b"
    by (auto simp: areSessionIdListsEqual_def list_all_iff split: if_splits)
  with assms have "card (set a) = card (set b)" by (simp add: distinct_card)
  with sub show "set a = set b" by (simp add: card_subset_eq)
next
  assume "set a = set b"
  moreover from this assms have "length a = length b" by (metis distinct_card)
  ultimately show "areSessionIdListsEqual a b"
    by (simp add: areSessionIdListsEqual_def list_all_iff)
qed

definition unread_synced :: "chat_world \<Rightarrow> bool" where
  \<comment> \<open>a restart would find the sessions that are unread now (no session has the empty id)\<close>
  "unread_synced w \<longleftrightarrow>
     set (loadCachedUnreadSessionIds (env w)) = unread_of (store w) - {[]}"

lemma queue_key_distinct [simp]:
  "QUEUES_STORAGE_KEY \<noteq> UNREAD_SESSIONS_STORAGE_KEY" "QUEUES_STORAGE_KEY \<noteq> DRAFTS_STORAGE_KEY"
  "UNREAD_SESSIONS_STORAGE_KEY \<noteq> QUEUES_STORAGE_KEY" "DRAFTS_STORAGE_KEY \<noteq> QUEUES_STORAGE_KEY"
  by (simp_all add: QUEUES_STORAGE_KEY_def UNREAD_SESSIONS_STORAGE_KEY_def DRAFTS_STORAGE_KEY_def)

lemma ls_get_native [simp]: "ls_get (e\<lparr>nativeWrites := x\<rparr>) k = ls_get e k"
  by (simp add: ls_get_def)

lemma ls_get_refresh:
  "k \<noteq> QUEUES_STORAGE_KEY \<Longrightarrow> ls_get (refreshCachedMessageQueues us e) k = ls_get e k"
  by (simp add: refreshCachedMessageQueues_def Let_def ls_frame_key)

lemma ls_get_persist_queues:
  "k \<noteq> QUEUES_STORAGE_KEY \<Longrightarrow> ls_get (persistMessageQueues q ids e) k = ls_get e k"
  by (simp add: persistMessageQueues_def Let_def ls_get_refresh)

lemma env_writable_native [simp]: "env_writable (e\<lparr>nativeWrites := x\<rparr>) = env_writable e"
  by (simp add: env_writable_def)

lemma env_writable_persist_queues [simp]:
  "env_writable (persistMessageQueues q ids e) = env_writable e"
  by (simp add: persistMessageQueues_def refreshCachedMessageQueues_def Let_def)

lemma load_after_persist_queues [simp]:
  "loadCachedUnreadSessionIds (persistMessageQueues q ids e) = loadCachedUnreadSessionIds e"
  "loadCachedDrafts (persistMessageQueues q ids e) = loadCachedDrafts e"
  by (simp_all add: loadCachedUnreadSessionIds_def loadCachedDrafts_def ls_get_persist_queues)

lemma load_unread_of_world [simp]:
  "loadCachedUnreadSessionIds (env (persist_queues ids w)) = loadCachedUnreadSessionIds (env w)"
  "loadCachedUnreadSessionIds (env (persist_drafts w)) = loadCachedUnreadSessionIds (env w)"
  "env_writable (env (persist_queues ids w)) = env_writable (env w)"
  "env_writable (env (persist_drafts w)) = env_writable (env w)"
  by (simp_all add: persist_queues_def persist_drafts_def)

lemma unread_synced_frame:
  "unread_synced w \<Longrightarrow> unread_of (store w') = unread_of (store w) \<Longrightarrow>
   loadCachedUnreadSessionIds (env w') = loadCachedUnreadSessionIds (env w) \<Longrightarrow> unread_synced w'"
  by (simp add: unread_synced_def)

text \<open>
  The central step: writing when the set of unread sessions changed, and only then, is enough.
\<close>

lemma persistUnread_synced:
  assumes "env_writable (env w')"
    and wf: "obj_wf (sessionStateById (store w))" "obj_wf (sessionStateById (store w'))"
    and sync: "unread_synced w"
    and load: "loadCachedUnreadSessionIds (env w') = loadCachedUnreadSessionIds (env w)"
  shows "unread_synced (persistUnreadStateIfChanged (sessionStateById (store w)) w')"
proof (cases "unread_of (store w) = unread_of (store w')")
  case True
  then have "areSessionIdListsEqual (getUnreadSessionIds (sessionStateById (store w)))
      (getUnreadSessionIds (sessionStateById (store w')))"
    by (simp add: areSessionIdListsEqual_iff unread_ids_distinct unread_ids_set wf)
  then show ?thesis
    using True sync load by (simp add: persistUnreadStateIfChanged_def unread_synced_def)
next
  case False
  then have "\<not> areSessionIdListsEqual (getUnreadSessionIds (sessionStateById (store w)))
      (getUnreadSessionIds (sessionStateById (store w')))"
    by (simp add: areSessionIdListsEqual_iff unread_ids_distinct unread_ids_set wf)
  then show ?thesis
    using assms(1)
    by (auto simp: persistUnreadStateIfChanged_def unread_synced_def load_persist_unread
        unread_ids_set wf)
qed

text \<open>Actions that only call \<open>set\<close> never change an unread mark.\<close>

lemma store_step_unread: "unread_of (store_step a s) = unread_of s"
proof (cases a)
  case (ReplaceQueuedMessages q)
  then show ?thesis by (simp add: replaceQueuedMessages_def unread_of_def runtime_of_def)
next
  case (ReconcileQueuedMessages q ids)
  then show ?thesis by (simp add: reconcileQueuedMessages_def unread_of_def runtime_of_def)
qed (auto simp: store_defs Let_def unread_of_def runtime_of_def put_runtime_def put_messages_def
      put_queue_def split: option.splits if_splits)

lemma unread_of_field_updates [simp]:
  "unread_of (s\<lparr>messagesBySession := m\<rparr>) = unread_of s"
  "unread_of (s\<lparr>recentMessageSessionIds := r\<rparr>) = unread_of s"
  "unread_of (s\<lparr>mountedTranscriptCountBySession := c\<rparr>) = unread_of s"
  "unread_of (s\<lparr>queuedMessageBySession := q\<rparr>) = unread_of s"
  "unread_of (s\<lparr>activeSessionId := a\<rparr>) = unread_of s"
  by (simp_all add: unread_of_def runtime_of_def)

lemma unread_of_dismiss [simp]: "unread_of (dismissQueuedMessage_set k r s) = unread_of s"
  by (auto simp: dismissQueuedMessage_set_def Let_def)

lemma unread_of_drafts [simp]:
  "unread_of (setDraft_set k t s) = unread_of s" "unread_of (clearDraft_set k s) = unread_of s"
  by (auto simp: setDraft_set_def clearDraft_set_def Let_def unread_of_def runtime_of_def)

lemma unread_of_setActive: "unread_of (fst (setActiveSession_set k s)) = unread_of s"
  by (auto simp: setActiveSession_set_def Let_def split_beta unread_of_def runtime_of_def or_else_def)

lemma unread_of_release: "unread_of (fst (releaseMountedTranscript_set k s)) = unread_of s"
  by (simp add: releaseMountedTranscript_set_def Let_def split_beta)

lemma unread_of_setMessages: "unread_of (fst (setMessages_set k ms s)) = unread_of s"
  by (simp add: setMessages_set_def Let_def split_beta)

text \<open>The two appends that persist only when their flag is set: without it, no mark changed.\<close>

lemma appendStreamingText_flag:
  "\<not> snd (appendStreamingText_set k i t s) \<Longrightarrow>
   unread_of (fst (appendStreamingText_set k i t s)) = unread_of s"
  by (auto simp: appendStreamingText_set_def Let_def unread_of_def split: option.splits if_splits)

lemma streaming_update_step_flag:
  "\<not> snd (streaming_update_step md s0 u acc) \<Longrightarrow>
   \<not> snd acc \<and> unread_of (fst (streaming_update_step md s0 u acc)) = unread_of (fst acc)"
  by (auto simp: streaming_update_step_def Let_def unread_of_def split: option.splits prod.splits if_splits)

lemma streaming_updates_flag:
  "\<not> snd (fold (streaming_update_step md s0) us acc) \<Longrightarrow>
   \<not> snd acc \<and> unread_of (fst (fold (streaming_update_step md s0) us acc)) = unread_of (fst acc)"
proof (induction us arbitrary: acc)
  case Nil
  then show ?case by simp
next
  case (Cons u us)
  then show ?case
    using streaming_update_step_flag [of md s0 u acc] by (metis fold_simps(2))
qed

lemma appendUpdates_flag:
  "\<not> snd (appendStreamingMessageUpdates_set us md s) \<Longrightarrow>
   unread_of (fst (appendStreamingMessageUpdates_set us md s)) = unread_of s"
  using streaming_updates_flag [of md s us "(s, False)"]
  by (simp add: appendStreamingMessageUpdates_set_def)

section \<open>Every action keeps both\<close>

lemma persist_after_synced:
  assumes "unread_synced w" "env_writable (env w)" "store_inv (store w)" "store_inv (store w')"
    and "loadCachedUnreadSessionIds (env w') = loadCachedUnreadSessionIds (env w)"
    and "env_writable (env w') = env_writable (env w)"
  shows "unread_synced (persistUnreadStateIfChanged (sessionStateById (store w)) w')"
  using assms by (intro persistUnread_synced) (simp_all add: store_inv_wf)

lemma plain_synced:
  assumes "unread_synced w" "unread_of (store w') = unread_of (store w)"
    and "loadCachedUnreadSessionIds (env w') = loadCachedUnreadSessionIds (env w)"
  shows "unread_synced w'"
  using assms by (rule unread_synced_frame)

lemma store_eq [simp]:
  "store (w\<lparr>store := s\<rparr>) = s" "env (w\<lparr>store := s\<rparr>) = env w"
  by simp_all

lemma appendStreamingText_synced:
  assumes "unread_synced w" "env_writable (env w)" "store_inv (store w)"
  shows "unread_synced (appendStreamingText k i t w)"
proof -
  let ?r = "appendStreamingText_set k i t (store w)"
  let ?w = "w\<lparr>store := fst ?r\<rparr>"
  have inv: "store_inv (store ?w)" using assms(3) by (simp add: appendStreamingText_inv)
  show ?thesis
  proof (cases "snd ?r")
    case True
    have "unread_synced (persistUnreadStateIfChanged (sessionStateById (store w)) ?w)"
      by (rule persist_after_synced [OF assms inv]) simp_all
    then show ?thesis using True assms(1) by (simp add: appendStreamingText_def split_beta Let_def)
  next
    case False
    have "unread_synced ?w"
      by (rule plain_synced [OF assms(1)]) (simp_all add: appendStreamingText_flag [OF False])
    then show ?thesis using False assms(1) by (simp add: appendStreamingText_def split_beta Let_def)
  qed
qed

lemma appendUpdates_synced:
  assumes "unread_synced w" "env_writable (env w)" "store_inv (store w)"
  shows "unread_synced (appendStreamingMessageUpdates us md w)"
proof -
  let ?r = "appendStreamingMessageUpdates_set us md (store w)"
  let ?w = "w\<lparr>store := fst ?r\<rparr>"
  have inv: "store_inv (store ?w)" using assms(3) by (simp add: appendStreamingMessageUpdates_inv)
  show ?thesis
  proof (cases "snd ?r")
    case True
    have "unread_synced (persistUnreadStateIfChanged (sessionStateById (store w)) ?w)"
      by (rule persist_after_synced [OF assms inv]) simp_all
    then show ?thesis using True assms(1) by (simp add: appendStreamingMessageUpdates_def split_beta Let_def)
  next
    case False
    have "unread_synced ?w"
      by (rule plain_synced [OF assms(1)]) (simp_all add: appendUpdates_flag [OF False])
    then show ?thesis using False assms(1) by (simp add: appendStreamingMessageUpdates_def split_beta Let_def)
  qed
qed

lemma env_writable_step:
  "env_writable (env w) \<Longrightarrow> env_writable (env (chat_step a w))"
  by (cases a)
    (auto simp: world_action_defs Let_def split_beta persistUnreadStateIfChanged_def
      split: option.split)

text \<open>The actions that call \<open>persistUnreadStateIfChanged\<close> unconditionally.\<close>

fun always_persists :: "chat_action \<Rightarrow> bool" where
  "always_persists (AddMessage _ _) = True"
| "always_persists (UpdateMessage _ _ _) = True"
| "always_persists (ClearMessages _) = True"
| "always_persists (AppendToStreamingMessage _ _) = True"
| "always_persists (MarkSessionRead _) = True"
| "always_persists (MarkSessionUnread _) = True"
| "always_persists (PromoteSessionId _ _) = True"
| "always_persists (CleanupSession _) = True"
| "always_persists _ = False"

lemma always_persists_form:
  "always_persists a \<Longrightarrow>
   \<exists>w'. chat_step a w = persistUnreadStateIfChanged (sessionStateById (store w)) w' \<and>
        loadCachedUnreadSessionIds (env w') = loadCachedUnreadSessionIds (env w) \<and>
        env_writable (env w') = env_writable (env w)"
  by (cases a)
    (force simp: addMessage_def updateMessage_def clearMessages_def appendToStreamingMessage_def
      markSessionRead_def markSessionUnread_def promoteSessionId_def cleanupSession_def
      Let_def split_beta)+

lemma quiet_action_frame:
  assumes "\<not> always_persists a" "\<And>k t. a \<noteq> UpdateStreamingText k t"
    "\<And>k i t. a \<noteq> AppendStreamingText k i t" "\<And>us md. a \<noteq> AppendStreamingMessageUpdates us md"
  shows "unread_of (store (chat_step a w)) = unread_of (store w) \<and>
    loadCachedUnreadSessionIds (env (chat_step a w)) = loadCachedUnreadSessionIds (env w)"
  using assms
  by (cases a)
    (auto simp: world_action_defs Let_def split_beta store_step_unread unread_of_setActive
      unread_of_release unread_of_setMessages split: option.split)

lemma chat_step_unread_synced:
  assumes "unread_synced w" "env_writable (env w)" "store_inv (store w)" "chat_enabled a w"
  shows "unread_synced (chat_step a w)"
proof (cases "always_persists a")
  case True
  then obtain w' where w': "chat_step a w = persistUnreadStateIfChanged (sessionStateById (store w)) w'"
      "loadCachedUnreadSessionIds (env w') = loadCachedUnreadSessionIds (env w)"
      "env_writable (env w') = env_writable (env w)"
    using always_persists_form by blast
  have "store_inv (store (chat_step a w))" using assms by (simp add: chat_step_inv)
  then have "store_inv (store w')" by (simp add: w'(1))
  then show ?thesis using assms w' by (simp add: persist_after_synced)
next
  case False
  show ?thesis
  proof (cases a)
    case (UpdateStreamingText k t)
    then show ?thesis using assms by (simp add: updateStreamingText_def appendStreamingText_synced)
  next
    case (AppendStreamingText k i t)
    then show ?thesis using assms by (simp add: appendStreamingText_synced)
  next
    case (AppendStreamingMessageUpdates us md)
    then show ?thesis using assms by (simp add: appendUpdates_synced)
  qed (use False quiet_action_frame [of a w] plain_synced [OF assms(1)] in auto)
qed

section \<open>Drafts\<close>

definition drafts_synced :: "chat_world \<Rightarrow> bool" where
  \<comment> \<open>a restart would find the drafts that have text\<close>
  "drafts_synced w \<longleftrightarrow>
     loadCachedDrafts (env w) = filter (\<lambda>p. length (snd p) > 0) (draftsBySession (store w))"

lemma drafts_synced_persist:
  "env_writable (env w) \<Longrightarrow> drafts_synced (persist_drafts w)"
  by (simp add: drafts_synced_def persist_drafts_def load_persist_drafts)

lemma drafts_frame:
  "drafts_synced w \<Longrightarrow> loadCachedDrafts (env w') = loadCachedDrafts (env w) \<Longrightarrow>
   draftsBySession (store w') = draftsBySession (store w) \<Longrightarrow> drafts_synced w'"
  by (simp add: drafts_synced_def)

lemma load_drafts_of_world [simp]:
  "loadCachedDrafts (env (persist_queues ids w)) = loadCachedDrafts (env w)"
  "loadCachedDrafts (env (persistUnreadStateIfChanged prev w)) = loadCachedDrafts (env w)"
  by (simp_all add: persist_queues_def persistUnreadStateIfChanged_def Let_def)

lemma drafts_of_puts [simp]:
  "draftsBySession (put_runtime k r s) = draftsBySession s"
  "draftsBySession (put_messages k ms s) = draftsBySession s"
  "draftsBySession (put_queue k q s) = draftsBySession s"
  "draftsBySession (mark_unread_if b k s) = draftsBySession s"
  by (simp_all add: put_runtime_def put_messages_def put_queue_def mark_unread_if_def)

lemma store_step_drafts: "draftsBySession (store_step a s) = draftsBySession s"
  by (cases a)
    (auto simp: store_defs Let_def replaceQueuedMessages_def reconcileQueuedMessages_def
      split: option.splits)

lemma drafts_of_sets [simp]:
  "draftsBySession (fst (setActiveSession_set k s)) = draftsBySession s"
  "draftsBySession (fst (releaseMountedTranscript_set k s)) = draftsBySession s"
  "draftsBySession (fst (addMessage_set k m s)) = draftsBySession s"
  "draftsBySession (fst (setMessages_set k ms s)) = draftsBySession s"
  "draftsBySession (updateMessage_set k i f s) = draftsBySession s"
  "draftsBySession (appendToStreamingMessage_set k c s) = draftsBySession s"
  "draftsBySession (fst (appendStreamingText_set k i t s)) = draftsBySession s"
  "draftsBySession (dismissQueuedMessage_set k x s) = draftsBySession s"
  by (auto simp: setActiveSession_set_def releaseMountedTranscript_set_def addMessage_set_def
      setMessages_set_def updateMessage_set_def appendToStreamingMessage_set_def
      appendStreamingText_set_def dismissQueuedMessage_set_def Let_def split_beta
      split: option.splits)

lemma drafts_of_updates [simp]:
  "draftsBySession (fst (appendStreamingMessageUpdates_set us md s)) = draftsBySession s"
proof -
  have "draftsBySession (fst (streaming_update_step md s0 u acc)) = draftsBySession (fst acc)" for s0 u acc
    by (auto simp: streaming_update_step_def Let_def split_beta split: option.splits)
  then have "draftsBySession (fst (fold (streaming_update_step md s0) us acc)) =
      draftsBySession (fst acc)" for s0 acc
    by (induction us arbitrary: acc) simp_all
  then show ?thesis by (simp add: appendStreamingMessageUpdates_set_def)
qed

lemma chat_step_drafts_synced:
  assumes "drafts_synced w" "env_writable (env w)"
  shows "drafts_synced (chat_step a w)"
proof (cases a)
  case (SetDraft k t)
  then show ?thesis using assms by (simp add: setDraft_def drafts_synced_persist)
next
  case (ClearDraft k)
  then show ?thesis using assms by (simp add: clearDraft_def drafts_synced_persist)
next
  case (PromoteSessionId d b)
  have "drafts_synced (persist_drafts (persist_queues [d, b] (with_store (promoteSessionId_set d b) w)))"
    using assms by (simp add: drafts_synced_persist)
  then show ?thesis using PromoteSessionId by (simp add: promoteSessionId_def drafts_synced_def)
next
  case (CleanupSession k)
  have "drafts_synced (persist_drafts (persist_queues [k] (with_store (cleanupSession_set k)
      (w\<lparr>replayBuffers := clearReplayBuffer k (replayBuffers w)\<rparr>))))"
    using assms by (intro drafts_synced_persist) simp
  then show ?thesis using CleanupSession by (simp add: cleanupSession_def drafts_synced_def)
qed (use assms(1) in \<open>auto simp: world_action_defs Let_def split_beta store_step_drafts
      intro!: drafts_frame [OF assms(1)] split: option.split\<close>)

section \<open>Runs\<close>

definition chat_inv :: "chat_world \<Rightarrow> bool" where
  "chat_inv w \<longleftrightarrow>
     store_inv (store w) \<and> env_writable (env w) \<and> unread_synced w \<and> drafts_synced w"

lemma chat_step_chat_inv: "chat_inv w \<Longrightarrow> chat_enabled a w \<Longrightarrow> chat_inv (chat_step a w)"
  by (simp add: chat_inv_def chat_step_inv env_writable_step chat_step_unread_synced
      chat_step_drafts_synced)

interpretation chat: step_system chat_step chat_enabled chat_inv
  by unfold_locales (rule chat_step_chat_inv)

end
