(* ===== verification/QueueReload.thy ===== *)
theory QueueReload
  imports QueuePersistence
begin

text \<open>
  Reloading the persisted queues (\<open>stores/queuePersistence.ts\<close>): what a restart restores
  of a record, and that a queue written by \<open>persistMessageQueues\<close> is found again with every
  record restored, in order.
\<close>

section \<open>The specification: what a restart restores of a record\<close>

definition restore_payload :: "queued_payload \<Rightarrow> queued_payload" where
  "restore_payload p =
    (if qp_showInComposer p = Some False then p\<lparr>qp_showInComposer := Some True\<rparr> else p)"

definition restore_state :: "json \<Rightarrow> json" where
  "restore_state s =
    (if json_field s ''status'' = Some (JStr ''creating'')
     then JObj (obj_set ''error'' (JStr interrupted_error)
                 (obj_set ''status'' (JStr ''held'') (obj_fields s)))
     else s)"

definition restore_record :: "queued_record \<Rightarrow> queued_record" where
  "restore_record r = r\<lparr>
     qr_kind := (case qr_kind r of
                   TransportReady b \<Rightarrow> TransportReady b
                 | Deferred s \<Rightarrow> Deferred (restore_state s)),
     qr_payload := restore_payload (qr_payload r),
     qr_restored := True, qr_editing := False\<rparr>"

text \<open>The records the loader accepts: an id, a named persona, a state of a deferred first send.\<close>

definition storable_state :: "json \<Rightarrow> bool" where
  "storable_state s \<longleftrightarrow>
     json_field s ''type'' = Some (JStr ''workspace-first-send'') \<and>
     (\<exists>st\<in>set deferred_statuses. json_field s ''status'' = Some (JStr st))"

definition storable :: "queued_record \<Rightarrow> bool" where
  "storable r \<longleftrightarrow>
     qr_recordId r \<noteq> [] \<and>
     (case qp_persona (qr_payload r) of PersonaIntent i n \<Rightarrow> i \<noteq> [] | _ \<Rightarrow> True) \<and>
     (case qr_kind r of Deferred s \<Rightarrow> storable_state s | TransportReady _ \<Rightarrow> True)"

lemma restore_state_status:
  "storable_state s \<Longrightarrow> json_field (restore_state s) ''status'' \<noteq> Some (JStr ''creating'')"
  by (cases s) (auto simp: restore_state_def storable_state_def)

lemma restore_state_storable: "storable_state s \<Longrightarrow> storable_state (restore_state s)"
  by (cases s) (auto simp: restore_state_def storable_state_def deferred_statuses_def)

lemma restore_record_storable: "storable r \<Longrightarrow> storable (restore_record r)"
  by (auto simp: storable_def restore_record_def restore_payload_def restore_state_storable
      split: queued_kind.splits)

lemma restore_record_idem: "storable r \<Longrightarrow> restore_record (restore_record r) = restore_record r"
  by (auto simp: storable_def restore_record_def restore_payload_def restore_state_status
      restore_state_def [of "restore_state _"] split: queued_kind.splits)

section \<open>The loader meets the specification\<close>

lemma opt_field_simps [simp]: "opt_field k f None = []" "opt_field k f (Some v) = [(k, f v)]"
  by (simp_all add: opt_field_def)

lemma obj_get_Cons [simp]: "obj_get ((k, v) # m) k' = (if k' = k then Some v else obj_get m k')"
  by (simp add: obj_get_def)

lemma obj_get_append:
  "obj_get (xs @ ys) k = (case obj_get xs k of Some v \<Rightarrow> Some v | None \<Rightarrow> obj_get ys k)"
  by (simp add: obj_get_def map_add_def split: option.split)

lemma obj_get_opt_field [simp]:
  "obj_get (opt_field k f x) k' = (if k' = k then map_option f x else None)"
  by (cases x) auto

lemma obj_del_simps [simp]:
  "obj_del k [] = []" "obj_del k ((k', v) # m) = (if k' = k then obj_del k m else (k', v) # obj_del k m)"
  "obj_del k (xs @ ys) = obj_del k xs @ obj_del k ys"
  by (simp_all add: obj_del_def)

lemma obj_del_opt_field [simp]: "obj_del k (opt_field k' f x) = (if k' = k then [] else opt_field k' f x)"
  by (cases x) auto

lemma obj_set_Cons [simp]:
  "obj_set k v [] = [(k, v)]"
  "obj_set k v ((k', v') # m) = (if k' = k then (k, v) # m else (k', v') # obj_set k v m)"
  by (auto simp: obj_set_def)

lemma json_string_simps [simp]:
  "json_string None = None" "json_string (Some (JStr s)) = Some s"
  by (simp_all add: json_string_def)

lemma json_string_name [simp]: "json_string (map_option JStr n) = n"
  by (cases n) auto

lemma restore_persona_json:
  "(case p of PersonaIntent i n \<Rightarrow> i \<noteq> [] | _ \<Rightarrow> True) \<Longrightarrow>
   restore_persona (Some (persona_json p)) a b = Inr (persona_json p)"
  by (cases p) (auto simp: restore_persona_def is_jobject_def)

lemma payload_json_normalized:
  assumes "case qp_persona p of PersonaIntent i n \<Rightarrow> i \<noteq> [] | _ \<Rightarrow> True"
  shows "normalizeQueuedPayload (payload_json p) = Inr (payload_json p)"
proof -
  have "obj_get (obj_fields (payload_json p)) ''persona'' = Some (persona_json (qp_persona p))"
    by (cases "qp_attachments p"; cases "qp_sendOptions p"; cases "qp_showInComposer p")
      (simp_all add: payload_json_def)
  moreover have "payload_json p \<noteq> JNull" by (simp add: payload_json_def)
  ultimately show ?thesis
    using restore_persona_json [OF assms]
    by (cases "qp_attachments p"; cases "qp_sendOptions p"; cases "qp_showInComposer p")
      (simp_all add: normalizeQueuedPayload_def payload_json_def)
qed

lemma payload_json_restored:
  "(if json_field (payload_json p) ''showInComposer'' = Some (JBool False)
    then JObj (obj_set ''showInComposer'' (JBool True) (obj_fields (payload_json p)))
    else payload_json p) = payload_json (restore_payload p)"
  by (cases "qp_attachments p"; cases "qp_sendOptions p"; cases "qp_showInComposer p")
    (simp_all add: payload_json_def restore_payload_def)

lemma payload_json_object: "is_jobject (Some (payload_json p))"
  "field_of (Some (payload_json p)) ''text'' = Some (JStr (qp_text p))"
  by (simp_all add: payload_json_def is_jobject_def field_of_def)

lemma isQueuedRecord_json: "storable r \<Longrightarrow> isQueuedRecord (record_json r)"
  using payload_json_object [of "qr_payload r"]
  by (auto simp: storable_def isQueuedRecord_def record_json_def is_jobject_def field_of_def
      storable_state_def Let_def split: queued_kind.splits json.splits)

lemma normalizeQueuedRecord_json:
  assumes "storable r"
  shows "normalizeQueuedRecord (record_json r) = Inr (record_json (restore_record r))"
proof -
  have norm: "normalizeQueuedPayload (payload_json (qr_payload r)) = Inr (payload_json (qr_payload r))"
    using assms by (intro payload_json_normalized) (simp add: storable_def)
  show ?thesis
  proof (cases "qr_kind r")
    case (TransportReady b)
    then show ?thesis
      by (auto simp: normalizeQueuedRecord_def record_json_def norm payload_json_restored
          restore_record_def Let_def)
  next
    case (Deferred s)
    with assms have "storable_state s" by (simp add: storable_def)
    with Deferred show ?thesis
      by (auto simp: normalizeQueuedRecord_def record_json_def norm payload_json_restored
          restore_record_def restore_state_def storable_state_def field_of_def Let_def)
  qed
qed

lemma normalized_records_json:
  "list_all storable q \<Longrightarrow>
   normalized_records (map record_json q) = map (\<lambda>r. record_json (restore_record r)) q"
  by (induction q)
    (simp_all add: normalized_records_def isQueuedRecord_json normalizeQueuedRecord_json)

section \<open>Writing and reading back\<close>

lemma parse_entries_get:
  "obj_wf m \<Longrightarrow>
   obj_get (parse_queue_entries (map (\<lambda>p. (fst p, JArr (snd p))) m)) k =
     (case obj_get m k of
        None \<Rightarrow> None
      | Some rs \<Rightarrow> if normalized_records rs = [] then None else Some (normalized_records rs))"
proof (induction m)
  case Nil
  then show ?case by simp
next
  case (Cons p m)
  obtain k' rs where p: "p = (k', rs)" by (cases p)
  from Cons.prems p have wf: "obj_wf m" and new: "obj_get m k' = None"
    by (auto simp: obj_wf_def obj_get_def map_of_eq_None_iff)
  show ?case using Cons.IH [OF wf] new by (auto simp: p Let_def)
qed

lemma load_after_refresh:
  assumes "env_writable e" "obj_wf (refresh_entries us (loadCachedMessageQueues e))"
  shows "obj_get (loadCachedMessageQueues (refreshCachedMessageQueues us e)) k =
     (case obj_get (refresh_entries us (loadCachedMessageQueues e)) k of
        None \<Rightarrow> None
      | Some rs \<Rightarrow> if normalized_records rs = [] then None else Some (normalized_records rs))"
proof (cases "refresh_entries us (loadCachedMessageQueues e) = []")
  case True
  then show ?thesis
    using assms by (simp add: refreshCachedMessageQueues_def obj_keys_def
        loadCachedMessageQueues_def [of "ls_remove _ _"] ls_get_remove)
next
  case False
  then show ?thesis
    using assms parse_entries_get [OF assms(2), of k]
    by (simp add: refreshCachedMessageQueues_def obj_keys_def Let_def
        loadCachedMessageQueues_def [of "ls_set _ _ _"] ls_get_set parseMessageQueues_def)
qed

text \<open>The queue the next start finds for a session whose change was persisted.\<close>

definition reloaded_queue ::
  "client_env \<Rightarrow> queued_record list jsobj \<Rightarrow> string \<Rightarrow> json list option" where
  "reloaded_queue e queues k =
    (case obj_get queues k of
       Some q \<Rightarrow> if q \<noteq> [] \<and> isSessionPersistable e k
                 then Some (map (\<lambda>r. record_json (restore_record r)) q) else None
     | None \<Rightarrow> None)"

lemma load_native [simp]: "loadCachedMessageQueues (e\<lparr>nativeWrites := x\<rparr>) = loadCachedMessageQueues e"
  by (simp add: loadCachedMessageQueues_def ls_get_def)

lemma load_after_persist:
  assumes wr: "env_writable e" and wf: "obj_wf (loadCachedMessageQueues e)"
    and st: "\<And>q. obj_get queues k = Some q \<Longrightarrow> list_all storable q"
  shows "obj_get (loadCachedMessageQueues (persistMessageQueues queues [k] e)) k =
    reloaded_queue e queues k"
proof -
  let ?e' = "if hasTauri e
    then e\<lparr>nativeWrites := nativeWrites e @ [updates_json (queue_updates e queues [k] [])]\<rparr> else e"
  have win: "hasWindow e" and wr': "env_writable ?e'"
    using wr by (auto simp: env_writable_def)
  have load': "loadCachedMessageQueues ?e' = loadCachedMessageQueues e" by simp
  have "persistMessageQueues queues [k] e =
      refreshCachedMessageQueues (queue_updates e queues [k] []) ?e'"
    by (simp add: persistMessageQueues_def win Let_def)
  moreover have "obj_wf (refresh_entries (queue_updates e queues [k] []) (loadCachedMessageQueues ?e'))"
    unfolding load' using wf by (auto split: option.splits)
  ultimately show ?thesis
    using st
    by (auto simp: load_after_refresh [OF wr'] load' reloaded_queue_def normalized_records_json
        split: option.splits)
qed

end
