(* ===== verification/ChatProperties.thy ===== *)
theory ChatProperties
  imports ChatSync QueueReload
begin

text \<open>
  What the chat store promises, action by action: messages and their cache, unread marks,
  streaming, errors and runs, the queue and its restart, promotion and cleanup. The properties
  rest on the lemmas of \<open>ChatTrim\<close>, \<open>ChatSync\<close> and \<open>QueueReload\<close>.
\<close>

section \<open>Shared lemmas\<close>

lemma replayBuffers_frame [simp]:
  "replayBuffers (persistUnreadStateIfChanged prev w) = replayBuffers w"
  "replayBuffers (clear_buffers ids w) = fold obj_del ids (replayBuffers w)"
  "replayBuffers (persist_queues ids w) = replayBuffers w"
  "replayBuffers (persist_drafts w) = replayBuffers w"
  "replayBuffers (with_store f w) = replayBuffers w"
proof -
  have "fold clearReplayBuffer ids b = fold obj_del ids b" for b
    by (rule arg_cong [where f = "\<lambda>f. fold f ids b"]) (simp add: clearReplayBuffer_def fun_eq_iff)
  then show "replayBuffers (clear_buffers ids w) = fold obj_del ids (replayBuffers w)"
    by (simp add: clear_buffers_def)
qed (simp_all add: persistUnreadStateIfChanged_def persist_queues_def persist_drafts_def
      with_store_def Let_def)

lemma obj_get_fold_del [simp]:
  "obj_get (fold obj_del ks m) k = (if k \<in> set ks then None else obj_get m k)"
  by (induction ks arbitrary: m) auto

lemma canEvict_messages [simp]:
  "canEvictSessionMessages (s\<lparr>messagesBySession := m\<rparr>) k = canEvictSessionMessages s k"
  by (simp add: canEvictSessionMessages_def)

lemma protected_messages [simp]:
  "protected_ids (s\<lparr>messagesBySession := m\<rparr>) r a = protected_ids s r a"
  by (simp add: protected_ids_def)

lemma messages_of_marks [simp]:
  "messagesBySession (mark_unread_if b k s) = messagesBySession s"
  "messagesBySession (put_runtime k r s) = messagesBySession s"
  by (simp_all add: mark_unread_if_def put_runtime_def)

lemma messages_of_put [simp]:
  "messagesBySession (put_messages k ms s) = obj_set k ms (messagesBySession s)"
  by (simp add: put_messages_def)

lemma queue_of_put [simp]:
  "queue_of (put_queue k q s) j = (if j = k then q else queue_of s j)"
  by (simp add: queue_of_def put_queue_def)

lemma evictable_def2 [simp]:
  "evictable (s\<lparr>messagesBySession := m\<rparr>) prot k = evictable s prot k"
  by (simp add: evictable_def)

definition messages_of :: "chat_store \<Rightarrow> string \<Rightarrow> message list option" where
  "messages_of s k = obj_get (messagesBySession s) k"

lemma addMessage_set_eq:
  "addMessage_set k m s =
    (let s1 = s\<lparr>messagesBySession :=
           obj_set k (or_else (messages_of s k) [] @ [m]) (messagesBySession s)\<rparr>;
         r = recent_if_active s k in
     (mark_unread_if (shouldMarkSessionUnread s k m) k
        (s\<lparr>messagesBySession := fst (trimMessageSessionCache s1 r [k]),
           recentMessageSessionIds := r\<rparr>),
      trim_evicts s1 r [k]))"
  by (simp add: addMessage_set_def messages_of_def Let_def trim_eq)

section \<open>The message cache\<close>

text \<open>
  C7. Evicting cached sessions is safe, exact and complete: the sessions dropped are neither
  protected (recent, mounted or just written) nor loading nor running, every other session keeps
  its messages, the cache never shrinks below its limit of ten, and while it is over the limit
  nothing evictable is left in it.
\<close>

theorem trim_cache_spec:
  assumes "obj_wf (messagesBySession s)" and "trimMessageSessionCache s recent additional = (m, ev)"
  shows "(\<forall>k. obj_get m k = (if k \<in> set ev then None else obj_get (messagesBySession s) k)) \<and>
    (\<forall>k\<in>set ev. k \<in> set (obj_keys (messagesBySession s)) \<and>
       k \<notin> protected_ids s recent additional \<and> canEvictSessionMessages s k) \<and>
    length m + length ev = length (messagesBySession s) \<and>
    (ev \<noteq> [] \<longrightarrow> MESSAGE_SESSION_CACHE_LIMIT \<le> length m) \<and>
    (MESSAGE_SESSION_CACHE_LIMIT < length m \<longrightarrow>
       (\<forall>k\<in>set (obj_keys m). k \<in> protected_ids s recent additional \<or>
          \<not> canEvictSessionMessages s k))"
proof -
  have m: "m = fst (trimMessageSessionCache s recent additional)"
    and ev: "ev = trim_evicts s recent additional"
    using assms(2) by (simp, auto simp: trim_eq)
  have size: "length m + length ev = length (messagesBySession s)"
    unfolding m ev by (rule trim_size [OF assms(1)])
  have "ev \<noteq> [] \<longrightarrow> MESSAGE_SESSION_CACHE_LIMIT \<le> length m"
  proof
    assume "ev \<noteq> []"
    then have "0 < length ev" by simp
    moreover have "length ev \<le> length (messagesBySession s) - MESSAGE_SESSION_CACHE_LIMIT"
      unfolding ev by (rule trim_evicts_bound)
    ultimately show "MESSAGE_SESSION_CACHE_LIMIT \<le> length m" using size by arith
  qed
  moreover have "\<forall>k\<in>set ev. k \<in> set (obj_keys (messagesBySession s)) \<and>
       k \<notin> protected_ids s recent additional \<and> canEvictSessionMessages s k"
    unfolding ev using trim_evicts_sub by (auto simp: evictable_def)
  moreover have "\<forall>k. obj_get m k = (if k \<in> set ev then None else obj_get (messagesBySession s) k)"
    unfolding m ev using trim_get [OF assms(1)] by blast
  moreover have "MESSAGE_SESSION_CACHE_LIMIT < length m \<longrightarrow>
       (\<forall>k\<in>set (obj_keys m). k \<in> protected_ids s recent additional \<or> \<not> canEvictSessionMessages s k)"
    unfolding m using trim_complete [OF assms(1)] by (auto simp: evictable_def)
  ultimately show ?thesis using size by blast
qed

definition demo_world :: chat_world where
  \<comment> \<open>eleven idle cached sessions ''a'' to ''k''; ''a'' was viewed last, ''b'' is mounted\<close>
  "demo_world = \<lparr>
     store = (initialChatStore [] [] [])\<lparr>
       messagesBySession := map (\<lambda>c. ([c], [])) ''abcdefghijk'',
       recentMessageSessionIds := [''a''],
       mountedTranscriptCountBySession := [(''b'', 1)]\<rparr>,
     env = \<lparr>hasWindow = True, hasTauri = True, lsAvailable = True, lsWritable = True,
            lsItems = [], nativeWrites = [], creationStates = []\<rparr>,
     replayBuffers = [(''c'', [])]\<rparr>"

lemma demo_world_fields:
  "activeSessionId (store demo_world) = None" "isViewingActiveSession (store demo_world) = False"
  "draftsBySession (store demo_world) = []" "nonEmptyDraftSessionIds (store demo_world) = {}"
  "sessionStateById (store demo_world) = []" "queuedMessageBySession (store demo_world) = []"
  "loadingSessionIds (store demo_world) = {}" "recentMessageSessionIds (store demo_world) = [''a'']"
  "messagesBySession (store demo_world) = map (\<lambda>c. ([c], [])) ''abcdefghijk''"
  by (simp_all add: demo_world_def initialChatStore_def buildNonEmptyDraftSessionIds_def
      buildInitialSessionStateById_def)

lemma demo_world_inv: "chat_inv demo_world"
  by (auto simp: demo_world_def chat_inv_def store_inv_def initialChatStore_def obj_wf_def
      counts_ok_def recent_ok_def MESSAGE_SESSION_CACHE_LIMIT_def draft_index_ok_def
      buildNonEmptyDraftSessionIds_def env_writable_def unread_synced_def drafts_synced_def
      loadCachedUnreadSessionIds_def loadCachedDrafts_def ls_get_def unread_of_def runtime_of_def
      buildInitialSessionStateById_def obj_get_def split: if_splits)

theorem trim_cache_spec_witness:
  "snd (trimMessageSessionCache (store demo_world) [''a''] []) = [''c''] \<and>
   length (fst (trimMessageSessionCache (store demo_world) [''a''] [])) + 1 = 11"
proof -
  let ?s = "store demo_world"
  have wf: "obj_wf (messagesBySession ?s)"
    using demo_world_inv by (simp add: chat_inv_def store_inv_def)
  have ev: "snd (trimMessageSessionCache ?s [''a''] []) = [''c'']"
    by (simp add: demo_world_def trim_eq trim_evicts_def evicted_prefix_def initialChatStore_def
        obj_keys_def MESSAGE_SESSION_CACHE_LIMIT_def evictable_def protected_ids_def
        canEvictSessionMessages_def buildInitialSessionStateById_def)
  have n: "length (messagesBySession ?s) = 11"
    by (simp add: demo_world_def initialChatStore_def)
  show ?thesis
    using trim_cache_spec [OF wf prod.collapse [symmetric], of "[''a'']" "[]"] ev n by simp
qed

text \<open>
  Adding a message appends it to its own session, which is never evicted by the write; every
  other session keeps its messages and its replay buffer, or was evictable (not mounted, not
  loading, not running) and loses both.
\<close>

theorem addMessage_spec:
  assumes "store_inv (store w)"
  shows "messages_of (store (addMessage k m w)) k = Some (or_else (messages_of (store w) k) [] @ [m]) \<and>
    (\<forall>j. j \<noteq> k \<longrightarrow>
       (messages_of (store (addMessage k m w)) j = messages_of (store w) j \<and>
        obj_get (replayBuffers (addMessage k m w)) j = obj_get (replayBuffers w) j) \<or>
       (messages_of (store (addMessage k m w)) j = None \<and>
        obj_get (replayBuffers (addMessage k m w)) j = None \<and>
        canEvictSessionMessages (store w) j \<and>
        j \<notin> protected_ids (store w) (recent_if_active (store w) k) [k]))"
proof -
  let ?s = "store w"
  let ?s1 = "?s\<lparr>messagesBySession :=
      obj_set k (or_else (messages_of ?s k) [] @ [m]) (messagesBySession ?s)\<rparr>"
  let ?r = "recent_if_active ?s k"
  let ?ev = "trim_evicts ?s1 ?r [k]"
  have wf: "obj_wf (messagesBySession ?s1)" using assms by (simp add: store_inv_def)
  have st: "messages_of (store (addMessage k m w)) j =
      (if j \<in> set ?ev then None else messages_of ?s1 j)" for j
    by (simp add: addMessage_def addMessage_set_eq messages_of_def Let_def
        trim_get [OF wf, unfolded messages_of_def])
  have bufs: "obj_get (replayBuffers (addMessage k m w)) j =
      (if j \<in> set ?ev then None else obj_get (replayBuffers w) j)" for j
    by (simp add: addMessage_def addMessage_set_eq messages_of_def Let_def)
  have "k \<notin> set ?ev"
    by (rule trim_keeps_protected) (simp add: protected_ids_def)
  moreover have "j \<in> set ?ev \<Longrightarrow> canEvictSessionMessages ?s j \<and> j \<notin> protected_ids ?s ?r [k]" for j
    using trim_evicts_sub [of j ?s1 ?r "[k]"] by (simp add: evictable_def)
  ultimately show ?thesis unfolding st bufs by (auto simp: messages_of_def)
qed

definition demo_message :: "string \<Rightarrow> message_role \<Rightarrow> message" where
  "demo_message i r = \<lparr>msg_id = i, msg_role = r, msg_created = 0,
     msg_content = [TextContent ''hi'' None None],
     msg_metadata = Some (empty_metadata\<lparr>userVisible := Some True\<rparr>)\<rparr>"

theorem addMessage_spec_witness:
  "messages_of (store (addMessage ''a'' (demo_message ''m'' User) demo_world)) ''a'' =
    Some [demo_message ''m'' User]"
proof -
  have "store_inv (store demo_world)" using demo_world_inv by (simp add: chat_inv_def)
  from addMessage_spec [OF this, of "''a''" "demo_message ''m'' User"]
  show ?thesis by (simp add: demo_world_def messages_of_def initialChatStore_def obj_get_def)
qed

text \<open>
  Adding a message marks its session unread exactly when it is a visible assistant message and
  the session is not the one being viewed, and changes no other mark.
\<close>

theorem addMessage_unread:
  "unread_of (store (addMessage k m w)) = unread_of (store w) \<union>
    (if msg_role m = Assistant \<and> meta_field userVisible m \<noteq> Some False \<and>
        \<not> (activeSessionId (store w) = Some k \<and> isViewingActiveSession (store w))
     then {k} else {})"
  by (auto simp: addMessage_def addMessage_set_eq Let_def mark_unread_if_def
      shouldMarkSessionUnread_def isSessionActivelyViewed_def)

section \<open>Persistence of marks and drafts\<close>

definition readable :: "client_env \<Rightarrow> bool" where
  \<comment> \<open>there is a window and its local storage does not throw\<close>
  "readable e \<longleftrightarrow> hasWindow e \<and> lsAvailable e"

lemma same_place [simp]:
  "hasWindow (persistDrafts ds e) = hasWindow e" "hasTauri (persistDrafts ds e) = hasTauri e"
  "lsAvailable (persistDrafts ds e) = lsAvailable e" "lsWritable (persistDrafts ds e) = lsWritable e"
  "hasWindow (persistUnreadSessionIds ids e) = hasWindow e" "hasTauri (persistUnreadSessionIds ids e) = hasTauri e"
  "lsAvailable (persistUnreadSessionIds ids e) = lsAvailable e"
  "lsWritable (persistUnreadSessionIds ids e) = lsWritable e"
  "hasWindow (persistMessageQueues q ids e) = hasWindow e" "hasTauri (persistMessageQueues q ids e) = hasTauri e"
  "lsAvailable (persistMessageQueues q ids e) = lsAvailable e"
  "lsWritable (persistMessageQueues q ids e) = lsWritable e"
  by (simp_all add: persistDrafts_def persistUnreadSessionIds_def persistMessageQueues_def
      refreshCachedMessageQueues_def Let_def)

definition place :: "client_env \<Rightarrow> bool \<times> bool \<times> bool \<times> bool" where
  \<comment> \<open>where the renderer runs and what its storage does\<close>
  "place e = (hasWindow e, hasTauri e, lsAvailable e, lsWritable e)"

lemma place_persist [simp]:
  "place (env (persist_queues ids w)) = place (env w)" "place (env (persist_drafts w)) = place (env w)"
  "place (env (persistUnreadStateIfChanged prev w)) = place (env w)"
  "place (env (with_store f w)) = place (env w)"
  by (simp_all add: place_def persist_queues_def persist_drafts_def persistUnreadStateIfChanged_def
      with_store_def Let_def)

lemma place_step: "place (env (chat_step a w)) = place (env w)"
  by (cases a) (auto simp: world_action_defs Let_def split_beta split: option.split)

lemma place_run: "place (env (fold chat_step es w)) = place (env w)"
  by (induction es arbitrary: w) (simp_all add: place_step)

lemma place_facts:
  "place e = place e' \<Longrightarrow> hasWindow e = hasWindow e' \<and> hasTauri e = hasTauri e' \<and> readable e = readable e' \<and>
    env_writable e = env_writable e'"
  by (simp add: place_def readable_def env_writable_def)

lemma unreadable_loads:
  "\<not> readable e \<Longrightarrow> loadCachedUnreadSessionIds e = [] \<and> loadCachedDrafts e = []"
  by (auto simp: readable_def loadCachedUnreadSessionIds_def loadCachedDrafts_def ls_get_def)

text \<open>
  C10. Across any sequence of store actions, while local storage can be read and written, what a restart
  would load is what the store holds: the unread sessions, and the drafts that have text. Where there is
  no window or local storage throws, a restart loads nothing, whatever the actions did. (Not covered: a
  storage that can be read but refuses writes, as when its quota is used up. The run starts in step with
  the storage; the queue objects handed in have one entry per key, and a draft session holding an empty
  draft is not promoted onto a session that is listed with a draft of its own.)
\<close>

theorem restart_restores_marks_and_drafts:
  assumes "store_inv (store w)" "env_writable (env w) \<Longrightarrow> unread_synced w \<and> drafts_synced w"
    and "chat.run_enabled es w" "v = fold chat_step es w"
    and "env_writable (env v) \<or> \<not> readable (env v)"
  shows "set (loadCachedUnreadSessionIds (env v)) =
      (if readable (env v) then unread_of (store v) - {[]} else {}) \<and>
    loadCachedDrafts (env v) =
      (if readable (env v) then filter (\<lambda>p. length (snd p) > 0) (draftsBySession (store v)) else [])"
proof (cases "readable (env v)")
  case True
  have "place (env v) = place (env w)" unfolding assms(4) by (rule place_run)
  then have "env_writable (env w)" using True assms(5) place_facts by blast
  then have "chat_inv w" using assms(1,2) by (simp add: chat_inv_def)
  then have "chat_inv v" using chat.run_inv [OF _ assms(3)] by (simp add: assms(4) chat.run_fold)
  then show ?thesis using True by (simp add: chat_inv_def unread_synced_def drafts_synced_def)
qed (simp add: unreadable_loads)

theorem restart_restores_marks_and_drafts_witness:
  "set (loadCachedUnreadSessionIds (env (fold chat_step
      [AddMessage ''a'' (demo_message ''m'' Assistant), SetDraft ''b'' ''x''] demo_world))) = {''a''}"
proof -
  let ?es = "[AddMessage ''a'' (demo_message ''m'' Assistant), SetDraft ''b'' ''x'']"
  let ?v = "fold chat_step ?es demo_world"
  have en: "chat.run_enabled ?es demo_world" by (simp add: chat_enabled_def)
  have "unread_of (store demo_world) = {}"
    by (simp add: unread_of_def runtime_of_def demo_world_fields)
  then have "unread_of (store ?v) = {''a''}"
    by (simp add: setDraft_def addMessage_def addMessage_set_eq Let_def mark_unread_if_def
        shouldMarkSessionUnread_def isSessionActivelyViewed_def demo_message_def meta_field_def
        empty_metadata_def demo_world_fields)
  moreover have i: "store_inv (store demo_world)" "unread_synced demo_world \<and> drafts_synced demo_world"
    "env_writable (env demo_world)"
    using demo_world_inv by (simp_all add: chat_inv_def)
  moreover have "env_writable (env ?v)" using i(3) place_facts [OF place_run] by blast
  moreover from this have "readable (env ?v)" by (simp add: env_writable_def readable_def)
  ultimately show ?thesis
    using restart_restores_marks_and_drafts [OF i(1,2) en refl] by simp
qed

text \<open>
  C11. Across any sequence of enabled actions the store stays well formed: one entry per session in
  every dictionary, at most ten recent sessions without duplicates, mounted transcripts counted
  from one, and the index of non-empty drafts exact.
\<close>

theorem store_inv_all_runs:
  assumes "chat_inv w" and "chat.run_enabled es w"
  shows "store_inv (store (chat.run es w)) \<and>
    (\<forall>k. k \<in> nonEmptyDraftSessionIds (store (chat.run es w)) \<longleftrightarrow>
      (\<exists>d. obj_get (draftsBySession (store (chat.run es w))) k = Some d \<and> d \<noteq> []))"
  using chat.run_inv [OF assms] by (auto simp: chat_inv_def store_inv_def draft_index_ok_def)

theorem store_inv_all_runs_witness:
  "''b'' \<in> nonEmptyDraftSessionIds (store (chat.run
      [SetDraft ''b'' ''x'', PromoteSessionId ''c'' ''d''] demo_world))"
proof -
  let ?es = "[SetDraft ''b'' ''x'', PromoteSessionId ''c'' ''d'']"
  note d = demo_world_fields
  have en: "chat.run_enabled ?es demo_world"
    by (simp add: chat_enabled_def promote_drafts_ok_def setDraft_def setDraft_set_def d)
  have "obj_get (draftsBySession (store (chat.run ?es demo_world))) ''b'' = Some ''x''"
    by (simp add: setDraft_def setDraft_set_def promoteSessionId_def promoteSessionId_set_def
        Let_def d)
  then show ?thesis using store_inv_all_runs [OF demo_world_inv en] by blast
qed

end
