(* ===== verification/ChatStreamProperties.thy ===== *)
theory ChatStreamProperties
  imports ChatProperties
begin

text \<open>
  What the streaming and run actions of the chat store promise: batches of updates against single
  appends, coalescing of deltas, cumulative thinking snapshots, recovery from errors, settled
  runs, and the continuation message after an intervention.
\<close>

section \<open>Batches against single appends\<close>

definition same_view :: "chat_store \<Rightarrow> chat_store \<Rightarrow> bool" where
  "same_view s t \<longleftrightarrow>
     activeSessionId s = activeSessionId t \<and> isViewingActiveSession s = isViewingActiveSession t"

lemma same_view_refl [simp]: "same_view s s"
  by (simp add: same_view_def)

lemma same_view_puts [simp]:
  "same_view s (put_runtime k r t) = same_view s t" "same_view s (put_messages k ms t) = same_view s t"
  by (simp_all add: same_view_def put_runtime_def put_messages_def)

lemma shouldMark_same_view:
  "same_view s t \<Longrightarrow> shouldMarkSessionUnread s k m = shouldMarkSessionUnread t k m"
  by (simp add: shouldMarkSessionUnread_def isSessionActivelyViewed_def same_view_def)

lemma appendText_meta:
  "appendTextToMessage m t = Some u \<Longrightarrow>
   msg_role u = msg_role m \<and> msg_metadata u = msg_metadata m \<and> msg_id u = msg_id m"
  by (auto simp: appendTextToMessage_def append_content_def split: if_splits message_content.splits)

lemma appendThinking_meta:
  "appendThinkingChunksToMessage m cs = Some u \<Longrightarrow>
   msg_role u = msg_role m \<and> msg_metadata u = msg_metadata m \<and> msg_id u = msg_id m"
  by (auto simp: appendThinkingChunksToMessage_def split: prod.splits if_splits)

lemma appendText_Some: "t \<noteq> [] \<Longrightarrow> \<exists>u. appendTextToMessage m t = Some u"
  by (simp add: appendTextToMessage_def)

lemma shouldMark_meta:
  "msg_role u = msg_role m \<Longrightarrow> msg_metadata u = msg_metadata m \<Longrightarrow>
   shouldMarkSessionUnread s k u = shouldMarkSessionUnread s k m"
  by (simp add: shouldMarkSessionUnread_def meta_field_def)

lemma appendStreamingText_view:
  "same_view s0 s \<Longrightarrow> same_view s0 (fst (appendStreamingText_set k i t s))"
  by (auto simp: appendStreamingText_set_def Let_def split: option.split)

lemma streaming_text_step:
  assumes "t \<noteq> []" "same_view s0 s"
  shows "fst (streaming_update_step ActiveStream s0 (TextUpdate k i t) (s, b)) =
    fst (appendStreamingText_set k i t s)"
proof (cases "obj_get (messagesBySession s) k")
  case None
  then show ?thesis by (simp add: streaming_update_step_def appendStreamingText_set_def)
next
  case (Some ms)
  show ?thesis
  proof (cases "find_last_index (\<lambda>m. msg_id m = i) ms")
    case None
    then show ?thesis using Some by (simp add: streaming_update_step_def appendStreamingText_set_def)
  next
    case (Some n)
    note n = Some
    obtain u where u: "appendTextToMessage (ms ! n) t = Some u"
      using appendText_Some [OF assms(1)] by blast
    have mark: "shouldMarkSessionUnread s0 k u = shouldMarkSessionUnread s k (ms ! n)"
      using appendText_meta [OF u] shouldMark_same_view [OF assms(2)]
      by (simp add: shouldMark_meta [of u "ms ! n"])
    show ?thesis
      using \<open>obj_get (messagesBySession s) k = Some ms\<close> n u mark
      by (auto simp: streaming_update_step_def appendStreamingText_set_def apply_update_def
          is_text_update_def Let_def)
  qed
qed

definition nonempty_text_update :: "streaming_update \<Rightarrow> bool" where
  "nonempty_text_update u \<longleftrightarrow> (case u of TextUpdate _ _ t \<Rightarrow> t \<noteq> [] | ThinkingUpdate _ _ _ \<Rightarrow> False)"

definition append_one :: "streaming_update \<Rightarrow> chat_store \<Rightarrow> chat_store" where
  "append_one u s =
    fst (appendStreamingText_set (update_session u) (update_message u)
      (case u of TextUpdate _ _ t \<Rightarrow> t | ThinkingUpdate _ _ _ \<Rightarrow> []) s)"

lemma streaming_fold:
  assumes "list_all nonempty_text_update us" "same_view s0 s"
  shows "fst (fold (streaming_update_step ActiveStream s0) us (s, b)) = fold append_one us s"
  using assms
proof (induction us arbitrary: s b)
  case Nil
  then show ?case by simp
next
  case (Cons u us)
  then obtain k i t where u: "u = TextUpdate k i t" "t \<noteq> []"
    by (cases u) (auto simp: nonempty_text_update_def)
  let ?r = "streaming_update_step ActiveStream s0 u (s, b)"
  have r: "?r = (append_one u s, snd ?r)"
    using streaming_text_step [OF u(2) Cons.prems(2)] u(1)
    by (metis append_one_def prod.collapse streaming_update.case(1) streaming_update.sel(1)
        streaming_update.sel(3))
  have "same_view s0 (append_one u s)"
    using Cons.prems(2) by (simp add: append_one_def appendStreamingText_view)
  then have "fst (fold (streaming_update_step ActiveStream s0) us (append_one u s, snd ?r)) =
      fold append_one us (append_one u s)"
    using Cons.IH Cons.prems(1) by simp
  then show ?case by (simp add: r [symmetric])
qed

text \<open>
  C2. Applying a batch of non-empty text deltas in one store update, in the mode of an active stream, is
  the same as appending them one by one: the batched path, which decides about unread marks with the
  viewing state before the batch, ends in the same store, with the same messages, streaming ids and
  unread marks. (Thinking deltas, empty deltas and the mode of a settled stream are outside the
  claim.)
\<close>

theorem batch_equals_single_appends:
  assumes "list_all nonempty_text_update us"
  shows "fst (appendStreamingMessageUpdates_set us ActiveStream s) = fold append_one us s"
  using streaming_fold [OF assms same_view_refl] by (simp add: appendStreamingMessageUpdates_set_def)

definition streamed_store :: chat_store where
  "streamed_store = put_messages ''b'' [demo_message ''n'' Assistant]
    (put_messages ''a'' [demo_message ''m'' Assistant] (store demo_world))"

theorem batch_equals_single_appends_witness:
  "messages_of (fst (appendStreamingMessageUpdates_set
       [TextUpdate ''a'' ''m'' ''x'', TextUpdate ''b'' ''n'' ''y'', TextUpdate ''a'' ''m'' ''z'']
       ActiveStream streamed_store)) ''a'' =
     Some [(demo_message ''m'' Assistant)\<lparr>msg_content := [TextContent ''hixz'' None None]\<rparr>]"
proof -
  let ?us = "[TextUpdate ''a'' ''m'' ''x'', TextUpdate ''b'' ''n'' ''y'', TextUpdate ''a'' ''m'' ''z'']"
  have h: "list_all nonempty_text_update ?us" by (simp add: nonempty_text_update_def)
  have "messages_of (fold append_one ?us streamed_store) ''a'' =
     Some [(demo_message ''m'' Assistant)\<lparr>msg_content := [TextContent ''hixz'' None None]\<rparr>]"
    by code_simp
  then show ?thesis unfolding batch_equals_single_appends [OF h] .
qed

section \<open>Coalescing deltas\<close>

lemma replace_last_last:
  "cs \<noteq> [] \<Longrightarrow> last (replace_last_content c cs) = c"
  "replace_last_content d (replace_last_content c cs) = replace_last_content d cs"
  "replace_last_content c (cs @ [d]) = cs @ [c]"
  "cs \<noteq> [] \<Longrightarrow> replace_last_content c cs \<noteq> []"
  by (simp_all add: replace_last_content_def last_list_update)

lemma appendText_compose:
  assumes "t1 \<noteq> []" "t2 \<noteq> []" "appendTextToMessage m t1 = Some m1"
  shows "appendTextToMessage m1 t2 = appendTextToMessage m (t1 @ t2)"
proof (cases "msg_content m = []")
  case True
  then show ?thesis using assms
    by (auto simp: appendTextToMessage_def append_content_def replace_last_content_def)
next
  case False
  then show ?thesis using assms
    by (cases "last (msg_content m)")
      (auto simp: appendTextToMessage_def append_content_def replace_last_last)
qed

lemma obj_set_set [simp]: "obj_set k v (obj_set k w m) = obj_set k v m"
  by (simp add: obj_set_def)

lemma put_put [simp]:
  "put_messages k a (put_messages k b s) = put_messages k a s"
  "put_runtime k r (put_runtime k q s) = put_runtime k r s"
  by (simp_all add: put_messages_def put_runtime_def)

lemma put_swap: "put_messages k a (put_runtime j r s) = put_runtime j r (put_messages k a s)"
  by (simp add: put_messages_def put_runtime_def)

lemma find_last_index_update:
  assumes "find_last_index (\<lambda>m. msg_id m = i) ms = Some n" "msg_id u = i"
  shows "find_last_index (\<lambda>m. msg_id m = i) (ms[n := u]) = Some n"
  using assms by (simp add: find_last_index_Some nth_list_update)

text \<open>
  Deltas can be coalesced: appending two non-empty deltas to the same message, one after the
  other, leaves the store as if their concatenation had been appended once.
\<close>

theorem coalesced_deltas:
  assumes "t1 \<noteq> []" and "t2 \<noteq> []"
  shows "fst (appendStreamingText_set k i t2 (fst (appendStreamingText_set k i t1 s))) =
    fst (appendStreamingText_set k i (t1 @ t2) s)"
proof (cases "obj_get (messagesBySession s) k")
  case None
  then show ?thesis by (simp add: appendStreamingText_set_def)
next
  case (Some ms)
  note ms = Some
  show ?thesis
  proof (cases "find_last_index (\<lambda>m. msg_id m = i) ms")
    case None
    then show ?thesis using ms by (simp add: appendStreamingText_set_def)
  next
    case (Some n)
    then have len: "n < length ms" and id_n: "msg_id (ms ! n) = i"
      by (simp_all add: find_last_index_Some)
    obtain u1 where u1: "appendTextToMessage (ms ! n) t1 = Some u1"
      using appendText_Some [OF assms(1)] by blast
    obtain u2 where u2: "appendTextToMessage (ms ! n) (t1 @ t2) = Some u2"
      using appendText_Some [of "t1 @ t2"] assms(1) by blast
    have u12: "appendTextToMessage u1 t2 = Some u2"
      using appendText_compose [OF assms u1] u2 by simp
    have same: "shouldMarkSessionUnread s' k u1 = shouldMarkSessionUnread s' k (ms ! n)" for s'
      using appendText_meta [OF u1] by (simp add: shouldMark_meta [of u1 "ms ! n"])
    have view: "shouldMarkSessionUnread (put_runtime k r (put_messages k x s)) k m =
        shouldMarkSessionUnread s k m"
      "shouldMarkSessionUnread (put_messages k x s) k m = shouldMarkSessionUnread s k m" for r x m
      by (simp_all add: shouldMarkSessionUnread_def isSessionActivelyViewed_def put_runtime_def
          put_messages_def)
    have idx: "find_last_index (\<lambda>m. msg_id m = i) (ms[n := u1]) = Some n"
      using find_last_index_update [OF Some] appendText_meta [OF u1] id_n by simp
    show ?thesis
      using ms Some len
      by (auto simp: appendStreamingText_set_def Let_def u1 u2 u12 idx same view put_swap)
  qed
qed

theorem coalesced_deltas_witness:
  "fst (appendStreamingText_set ''a'' ''m'' ''lo'' (fst (appendStreamingText_set ''a'' ''m'' ''hel''
     (store demo_world)))) =
   fst (appendStreamingText_set ''a'' ''m'' ''hello'' (store demo_world))"
  using coalesced_deltas [of "''hel''" "''lo''" "''a''" "''m''" "store demo_world"] by simp

section \<open>Thinking snapshots\<close>

text \<open>Each snapshot of a sequence extends the one before.\<close>

fun cumulative :: "string \<Rightarrow> string list \<Rightarrow> bool" where
  "cumulative t [] = True"
| "cumulative t (u # us) = (starts_with t u \<and> cumulative u us)"

lemma thinking_loop_cumulative:
  "cumulative t us \<Longrightarrow> cs \<noteq> [] \<Longrightarrow> last cs = Thinking t an \<Longrightarrow>
   \<exists>an'. fst (thinking_loop us cs ch) = replace_last_content (Thinking (last (t # us)) an') cs"
proof (induction us arbitrary: t cs an ch)
  case Nil
  then have "replace_last_content (Thinking t an) cs = cs"
    by (metis last_conv_nth length_greater_0_conv list_update_id replace_last_content_def)
  then show ?case by (intro exI [of _ an]) simp
next
  case (Cons u us)
  show ?case
  proof (cases "u = t")
    case True
    then show ?thesis using Cons.IH [of t cs an ch] Cons.prems by simp
  next
    case False
    then show ?thesis
      using Cons.IH [of u "replace_last_content (Thinking u None) cs" None True] Cons.prems
      by (auto simp: replace_last_last Let_def)
  qed
qed

text \<open>
  Cumulative thinking snapshots do not pile up: after any non-empty sequence of snapshots in
  which each one extends the one before (repeats included), a message that did not end in a
  thinking block gains exactly one, holding the last snapshot.
\<close>

theorem thinking_snapshots:
  assumes "cumulative t us"
    and "msg_content m = [] \<or> (\<forall>x an. last (msg_content m) \<noteq> Thinking x an)"
  shows "\<exists>an. map_option msg_content (appendThinkingChunksToMessage m (t # us)) =
    Some (msg_content m @ [Thinking (last (t # us)) an])"
proof -
  let ?cs = "msg_content m @ [Thinking t None]"
  have first: "thinking_loop (t # us) (msg_content m) False = thinking_loop us ?cs True"
    using assms(2) by (auto split: message_content.split)
  have changed: "snd (thinking_loop vs xs True)" for vs xs
    by (induction vs arbitrary: xs) (auto simp: Let_def split: message_content.split)
  obtain an where "fst (thinking_loop us ?cs True) =
      replace_last_content (Thinking (last (t # us)) an) ?cs"
    using thinking_loop_cumulative [OF assms(1), of ?cs None True] by auto
  then show ?thesis
    using changed [of us ?cs] first
    by (auto simp: appendThinkingChunksToMessage_def replace_last_last split_beta)
qed

theorem thinking_snapshots_witness:
  "\<exists>an. map_option msg_content (appendThinkingChunksToMessage (demo_message ''m'' Assistant)
      [''a'', ''a'', ''ab'']) =
    Some [TextContent ''hi'' None None, Thinking ''ab'' an]"
proof -
  have c: "cumulative ''a'' [''a'', ''ab'']" by (simp add: starts_with_def)
  show ?thesis
    using thinking_snapshots [OF c, of "demo_message ''m'' Assistant"]
    by (simp add: demo_message_def)
qed

section \<open>Errors and runs\<close>

text \<open>
  An error parks a session and clearing it brings the session back: while the error is set the
  session is in the error state; clearing it returns it to idle, and with no run in flight the
  stream tracking is gone too, so the runtime is settled and its messages may be evicted (unless
  they are loading). Other sessions are not touched.
\<close>

theorem error_parks_and_recovers:
  assumes "e \<noteq> []"
  shows "chatState (runtime_of (setError k (Some e) s) k) = ChatError \<and>
    runtime_error (runtime_of (setError k (Some e) s) k) = Some e \<and>
    chatState (runtime_of (setError k None (setError k (Some e) s)) k) = ChatIdle \<and>
    runtime_error (runtime_of (setError k None (setError k (Some e) s)) k) = None \<and>
    (activeRunId (runtime_of s k) = None \<and> \<not> isRunCancellationPending (runtime_of s k) \<longrightarrow>
       isSessionRuntimeSettled (runtime_of (setError k None (setError k (Some e) s)) k) \<and>
       (k \<notin> loadingSessionIds s \<longrightarrow>
          canEvictSessionMessages (setError k None (setError k (Some e) s)) k)) \<and>
    (\<forall>j. j \<noteq> k \<longrightarrow> runtime_of (setError k None (setError k (Some e) s)) j = runtime_of s j)"
proof -
  have load: "loadingSessionIds (put_runtime k r s) = loadingSessionIds s" for r s
    by (simp add: put_runtime_def)
  have get: "obj_get (sessionStateById (put_runtime k r s)) k = Some r" for r s
    by (simp add: put_runtime_def)
  show ?thesis
    using assms
    by (simp add: setError_def Let_def isSessionRuntimeSettled_def canEvictSessionMessages_def load get)
qed

theorem error_parks_and_recovers_witness:
  "canEvictSessionMessages (setError ''a'' None (setError ''a'' (Some ''boom'') (store demo_world))) ''a''"
proof -
  have r: "runtime_of (store demo_world) ''a'' = createInitialSessionRuntime"
    by (simp add: runtime_of_def demo_world_fields)
  show ?thesis
    using error_parks_and_recovers [of "''boom''" "''a''" "store demo_world"]
    by (simp add: r createInitialSessionRuntime_def demo_world_fields)
qed

text \<open>
  Setting the chat state to idle and then settling the active run always settles the runtime,
  from any state: no run, no pending cancellation, no streaming message, no tool call and no
  intervention boundary remain.
\<close>

theorem idle_then_settle_settles:
  "isSessionRuntimeSettled (runtime_of (settleActiveRun k (setChatState k ChatIdle s)) k) \<and>
   streamingMessageId (runtime_of (settleActiveRun k (setChatState k ChatIdle s)) k) = None \<and>
   hasToolCallInRun (runtime_of (settleActiveRun k (setChatState k ChatIdle s)) k) = False \<and>
   pendingInterventionBoundary (runtime_of (settleActiveRun k (setChatState k ChatIdle s)) k) = None"
proof -
  let ?s1 = "setChatState k ChatIdle s"
  have s1: "chatState (runtime_of ?s1 k) = ChatIdle \<and> streamingMessageId (runtime_of ?s1 k) = None \<and>
      pendingInterventionBoundary (runtime_of ?s1 k) = None"
    by (simp add: setChatState_def Let_def)
  show ?thesis
  proof (cases "obj_get (sessionStateById ?s1) k")
    case None
    then have "runtime_of ?s1 k = createInitialSessionRuntime" by (simp add: runtime_of_def)
    then show ?thesis using None
      by (simp add: settleActiveRun_def createInitialSessionRuntime_def isSessionRuntimeSettled_def)
  next
    case (Some r)
    then have "runtime_of ?s1 k = r" by (simp add: runtime_of_def)
    with s1 Some show ?thesis
      by (auto simp: settleActiveRun_def isSessionRuntimeSettled_def Let_def)
  qed
qed

section \<open>The continuation after an intervention\<close>

lemma nth_takeWhile_drop:
  "j < length (takeWhile P (drop n xs)) \<Longrightarrow> P (xs ! (n + j))"
proof -
  assume j: "j < length (takeWhile P (drop n xs))"
  then have "P (takeWhile P (drop n xs) ! j)" by (metis nth_mem set_takeWhileD)
  moreover have "takeWhile P (drop n xs) ! j = drop n xs ! j" by (rule takeWhile_nth [OF j])
  moreover have "n + j < length xs"
    using j length_takeWhile_le [of P "drop n xs"] by simp
  ultimately show ?thesis by simp
qed

lemma takeWhile_drop_ends:
  "n + length (takeWhile P (drop n xs)) < length xs \<Longrightarrow> \<not> P (xs ! (n + length (takeWhile P (drop n xs))))"
  using nth_length_takeWhile [of P "drop n xs"] by simp

lemma anchor_bounds:
  assumes "i < length ms"
  defines "a \<equiv> findInterventionInsertionAnchorIndex ms i"
  shows "i \<le> a \<and> a < length ms \<and> (\<forall>j. i < j \<and> j \<le> a \<longrightarrow> isDeliveredInterventionMessage (ms ! j)) \<and>
    (a + 1 < length ms \<longrightarrow> \<not> isDeliveredInterventionMessage (ms ! (a + 1)))"
proof -
  let ?P = isDeliveredInterventionMessage
  have "length (takeWhile ?P (drop (i + 1) ms)) \<le> length ms - (i + 1)"
    using length_takeWhile_le [of ?P "drop (i + 1) ms"] by simp
  moreover have "?P (ms ! j)" if "i < j" "j \<le> a" for j
    using nth_takeWhile_drop [of "j - (i + 1)" ?P "i + 1" ms] that
    by (simp add: a_def findInterventionInsertionAnchorIndex_def)
  moreover have "a + 1 < length ms \<longrightarrow> \<not> ?P (ms ! (a + 1))"
    using takeWhile_drop_ends [of "i + 1" ?P ms]
    by (simp add: a_def findInterventionInsertionAnchorIndex_def)
  ultimately show ?thesis using assms by (auto simp: findInterventionInsertionAnchorIndex_def)
qed

lemma find_index_distinct:
  assumes "distinct (map msg_id ms)" "a < length ms"
  shows "find_index (\<lambda>x. msg_id x = msg_id (ms ! a)) ms = Some a"
proof -
  have "msg_id (ms ! j) \<noteq> msg_id (ms ! a)" if "j < a" for j
    using nth_eq_iff_index_eq [OF assms(1), of j a] assms(2) that by simp
  then show ?thesis using assms(2) by (simp add: find_index_Some)
qed

lemma insertMessageAfter_at:
  "distinct (map msg_id ms) \<Longrightarrow> a < length ms \<Longrightarrow>
   insertMessageAfter ms (msg_id (ms ! a)) m = take (a + 1) ms @ [m] @ drop (a + 1) ms"
  by (simp add: insertMessageAfter_def find_index_distinct)

text \<open>The messages after the continuation was inserted, with the streaming one completed.\<close>

definition completed_stream :: "session_runtime \<Rightarrow> message list \<Rightarrow> message list" where
  "completed_stream r ms =
    (case List.find (\<lambda>m. Some (msg_id m) = streamingMessageId r) ms of
       None \<Rightarrow> ms
     | Some sm \<Rightarrow> map (\<lambda>m. if msg_id m = msg_id sm then completeAssistantMessage m else m) ms)"

lemma completed_stream_ids: "map msg_id (completed_stream r ms) = map msg_id ms"
  by (auto simp: completed_stream_def comp_def split: option.split)

lemma completed_stream_length [simp]: "length (completed_stream r ms) = length ms"
  by (simp add: completed_stream_def split: option.split)

definition steers :: "message \<Rightarrow> bool" where
  \<comment> \<open>a message of the user that was delivered to steer a running turn\<close>
  "steers m \<longleftrightarrow> msg_role m = User \<and> Option.bind (msg_metadata m) delivery = Some Steer"

definition streaming_reply :: "message \<Rightarrow> bool" where
  \<comment> \<open>a message of the assistant that is in progress\<close>
  "streaming_reply m \<longleftrightarrow> msg_role m = Assistant \<and> Option.bind (msg_metadata m) completionStatus = Some InProgress"

lemma steers_eq: "isDeliveredInterventionMessage = steers"
  by (simp add: isDeliveredInterventionMessage_def steers_def meta_field_def fun_eq_iff)

lemma streaming_reply_eq:
  "msg_role m = Assistant \<and> meta_field completionStatus m = Some InProgress \<longleftrightarrow> streaming_reply m"
  by (simp add: streaming_reply_def meta_field_def)

text \<open>
  C12. After a steering message was delivered, the assistant's next message goes right after it and
  after every further steering message that follows it directly, and no further: \<open>a\<close> is the last
  message of that run. When the message after it is one of the assistant in progress, the session streams
  into it and the messages stay as they are; otherwise a fresh one with the given id is put there, none
  is lost and the others keep their order. The pending boundary is consumed. (The boundary, or else the
  latest steering message, is a cached message, and the messages' ids are distinct and not empty.)
\<close>

theorem continuation_after_intervention:
  assumes ms: "messages_of s k = Some ms"
    and ids: "distinct (map msg_id ms)" "[] \<notin> set (map msg_id ms)"
    and target: "or_option (pendingInterventionBoundary (runtime_of s k))
      (findLatestInterventionMessageId ms) = Some t"
    and i: "find_index (\<lambda>m. msg_id m = t) ms = Some i"
  shows "\<exists>a ms'. i \<le> a \<and> a < length ms \<and>
    (\<forall>j. i < j \<and> j \<le> a \<longrightarrow> steers (ms ! j)) \<and>
    (a + 1 < length ms \<longrightarrow> \<not> steers (ms ! (a + 1))) \<and>
    messages_of (startAssistantStreamAfterIntervention uuid now k s) k = Some ms' \<and>
    (if a + 1 < length ms \<and> streaming_reply (ms ! (a + 1)) then ms' = ms
     else map msg_id ms' = take (a + 1) (map msg_id ms) @ [uuid] @ drop (a + 1) (map msg_id ms)) \<and>
    a + 1 < length ms' \<and> streaming_reply (ms' ! (a + 1)) \<and>
    streamingMessageId (runtime_of (startAssistantStreamAfterIntervention uuid now k s) k) =
      Some (msg_id (ms' ! (a + 1))) \<and>
    pendingInterventionBoundary (runtime_of (startAssistantStreamAfterIntervention uuid now k s) k) = None"
proof -
  let ?a = "findInterventionInsertionAnchorIndex ms i" and ?r = "runtime_of s k"
  let ?s' = "startAssistantStreamAfterIntervention uuid now k s"
  have il: "i < length ms" and it: "msg_id (ms ! i) = t" using i by (simp_all add: find_index_Some)
  have bounds: "i \<le> ?a" "?a < length ms"
      "\<forall>j. i < j \<and> j \<le> ?a \<longrightarrow> steers (ms ! j)" "?a + 1 < length ms \<longrightarrow> \<not> steers (ms ! (?a + 1))"
    using anchor_bounds [OF il] by (auto simp: steers_eq)
  have t: "t \<noteq> []" using il it ids(2) by (metis length_map nth_map nth_mem)
  have anchor: "msg_id (ms ! ?a) \<noteq> []"
    using bounds(2) ids(2) by (metis length_map nth_map nth_mem)
  note get = ms [unfolded messages_of_def]
  show ?thesis
  proof (cases "?a + 1 < length ms \<and> streaming_reply (ms ! (?a + 1))")
    case True
    then have "?s' = put_runtime k (?r\<lparr>streamingMessageId := Some (msg_id (ms ! (?a + 1))),
        pendingInterventionBoundary := None\<rparr>) s"
      using target i t bounds(2)
      by (simp add: startAssistantStreamAfterIntervention_def get nth_opt_def streaming_reply_eq)
    then show ?thesis
      using True bounds by (intro exI [of _ ?a] exI [of _ ms]) (simp add: messages_of_def get)
  next
    case False
    let ?c = "createAssistantContinuationMessage uuid now
      (List.find (\<lambda>m. Some (msg_id m) = streamingMessageId ?r) ms)"
    let ?ms = "completed_stream ?r ms"
    let ?ms' = "take (?a + 1) ?ms @ [?c] @ drop (?a + 1) ?ms"
    have "?s' = start_continuation uuid now k ms (Some (msg_id (ms ! ?a))) s"
      using False target i t bounds(2)
      by (auto simp: startAssistantStreamAfterIntervention_def get nth_opt_def streaming_reply_eq)
    moreover have "insertMessageAfter ?ms (msg_id (ms ! ?a)) ?c = ?ms'"
    proof -
      have same: "msg_id (ms ! ?a) = msg_id (?ms ! ?a)"
        using bounds(2) completed_stream_ids [of ?r ms] by (metis completed_stream_length nth_map)
      show ?thesis unfolding same
        by (rule insertMessageAfter_at) (simp_all add: completed_stream_ids ids(1) bounds(2))
    qed
    ultimately have s': "?s' = put_runtime k
        (?r\<lparr>streamingMessageId := Some (msg_id ?c), pendingInterventionBoundary := None\<rparr>)
        (put_messages k ?ms' s)"
      using anchor by (simp add: start_continuation_def completed_stream_def Let_def)
    have c: "msg_id ?c = uuid" "streaming_reply ?c"
      by (simp_all add: createAssistantContinuationMessage_def streaming_reply_def Let_def empty_metadata_def)
    have "?ms' ! (?a + 1) = ?c" using bounds(2) by (simp add: nth_append)
    moreover have "map msg_id ?ms' =
        take (?a + 1) (map msg_id ms) @ [uuid] @ drop (?a + 1) (map msg_id ms)"
      using completed_stream_ids [of ?r ms] c(1) by (simp flip: take_map drop_map)
    moreover have "?a + 1 < length ?ms'" using bounds(2) by simp
    ultimately show ?thesis
      using bounds c False
      by (intro exI [of _ ?a] exI [of _ ?ms']) (auto simp: s' messages_of_def)
  qed
qed

definition steered_messages :: "message list" where
  "steered_messages = [demo_message ''u'' User,
     (demo_message ''v'' User)\<lparr>msg_metadata := Some (empty_metadata\<lparr>delivery := Some Steer\<rparr>)\<rparr>,
     (demo_message ''x'' User)\<lparr>msg_metadata := Some (empty_metadata\<lparr>delivery := Some Steer\<rparr>)\<rparr>,
     demo_message ''w'' Assistant]"

definition steered_store :: chat_store where
  \<comment> \<open>two steering messages in a row, of which the first is the boundary\<close>
  "steered_store = put_runtime ''a'' (createInitialSessionRuntime\<lparr>pendingInterventionBoundary := Some ''v''\<rparr>)
    (put_messages ''a'' steered_messages (store demo_world))"

theorem continuation_after_intervention_witness:
  "\<exists>ms'. messages_of (startAssistantStreamAfterIntervention ''new'' 0 ''a'' steered_store) ''a'' = Some ms' \<and>
    map msg_id ms' = [''u'', ''v'', ''x'', ''new'', ''w'']"
proof -
  have ms: "messages_of steered_store ''a'' = Some steered_messages"
    by (simp add: steered_store_def messages_of_def put_runtime_def)
  have ids: "distinct (map msg_id steered_messages)" "[] \<notin> set (map msg_id steered_messages)"
    by (simp_all add: steered_messages_def demo_message_def)
  have target: "or_option (pendingInterventionBoundary (runtime_of steered_store ''a''))
      (findLatestInterventionMessageId steered_messages) = Some ''v''"
    by (simp add: steered_store_def)
  have i: "find_index (\<lambda>m. msg_id m = ''v'') steered_messages = Some 1"
    by (simp add: steered_messages_def demo_message_def)
  obtain a ms' where a: "1 \<le> a" "a < length steered_messages"
      "\<forall>j. 1 < j \<and> j \<le> a \<longrightarrow> steers (steered_messages ! j)"
      "a + 1 < length steered_messages \<longrightarrow> \<not> steers (steered_messages ! (a + 1))"
      "messages_of (startAssistantStreamAfterIntervention ''new'' 0 ''a'' steered_store) ''a'' = Some ms'"
      "if a + 1 < length steered_messages \<and> streaming_reply (steered_messages ! (a + 1)) then ms' = steered_messages
       else map msg_id ms' = take (a + 1) (map msg_id steered_messages) @ [''new''] @ drop (a + 1) (map msg_id steered_messages)"
    using continuation_after_intervention [OF ms ids target i, of "''new''" 0] by blast
  have st: "steers (steered_messages ! 2)" "\<not> steers (steered_messages ! 3)" "length steered_messages = 4"
    "\<not> streaming_reply (steered_messages ! 3)"
    by (simp_all add: steered_messages_def steers_def streaming_reply_def demo_message_def empty_metadata_def)
  have "a \<noteq> 1" using a(4) st by (auto simp: numeral_2_eq_2)
  moreover have "a \<noteq> 3" using a(3) st(2) by auto
  ultimately have "a = 2" using a(1,2) st(3) by linarith
  then show ?thesis using a(5,6) st by (auto simp: steered_messages_def demo_message_def)
qed

end
