(* ===== verification/NativeQueues.thy ===== *)
theory NativeQueues
  imports QueueReload
begin

text \<open>
  The native queue file of the desktop application (\<open>src-tauri/src/commands/message_queues.rs\<close>):
  what a sequence of \<open>persist_message_queue_updates\<close> commands makes of it, and what the loader of
  the renderer reads from it. The file is authoritative on the desktop; the renderer's local storage is
  read when there is no file or it cannot be read.

  \<open>nativeWrites\<close> are the commands sent, in order, and each is carried out: the errors of the
  file system, on which the renderer only logs, are not modelled. The map read from the file keeps the
  order of its entries here, where the code's map sorts them: queues are looked up by session.
\<close>

section \<open>The file\<close>

type_synonym queue_file = "stored_text option"

fun insert_updates :: "(string \<times> json) list \<Rightarrow> json jsobj \<Rightarrow> json jsobj" where
  \<comment> \<open>the loop over the updates\<close>
  "insert_updates [] queues = queues"
| "insert_updates ((session_id, records) # us) queues =
    insert_updates us (if records = JNull then obj_del session_id queues else obj_set session_id records queues)"

definition file_of :: "json jsobj \<Rightarrow> queue_file" where
  \<comment> \<open>\<open>persist_message_queues_at_path\<close>: no file for an empty map\<close>
  "file_of queues = (if queues = [] then None else Some (Stored (JObj queues)))"

definition persist_message_queue_updates :: "json \<Rightarrow> queue_file \<Rightarrow> string + queue_file" where
  "persist_message_queue_updates updates file =
    (case updates of
       JObj us \<Rightarrow>
         (case file of
            None \<Rightarrow> Inr (file_of (insert_updates us []))
          | Some (Stored (JObj queues)) \<Rightarrow> Inr (file_of (insert_updates us queues))
          | Some _ \<Rightarrow> Inl ''Failed to parse persisted message queues'')
     | _ \<Rightarrow> Inl ''Failed to parse message queue updates'')"

definition native_write :: "json \<Rightarrow> queue_file \<Rightarrow> queue_file" where
  \<comment> \<open>a command that fails leaves the file as it is\<close>
  "native_write updates file =
    (case persist_message_queue_updates updates file of Inl e \<Rightarrow> file | Inr file' \<Rightarrow> file')"

definition native_file :: "client_env \<Rightarrow> queue_file" where
  \<comment> \<open>the file after the commands the renderer has sent\<close>
  "native_file e = fold native_write (nativeWrites e) None"

definition load_message_queues :: "queue_file \<Rightarrow> stored_text option option" where
  "load_message_queues file = Some file"

section \<open>What it holds, session by session\<close>

text \<open>Loading back what one session's queue was written as.\<close>

definition loaded_back :: "json list option \<Rightarrow> json list option" where
  "loaded_back x = (case x of None \<Rightarrow> None
     | Some rs \<Rightarrow> if normalized_records rs = [] then None else Some (normalized_records rs))"

definition array_of :: "json option \<Rightarrow> json list option" where
  "array_of v = (case v of Some (JArr rs) \<Rightarrow> Some rs | _ \<Rightarrow> None)"

lemma parse_entries_lookup:
  "obj_wf q \<Longrightarrow> obj_get (parse_queue_entries q) k = loaded_back (array_of (obj_get q k))"
proof (induction q)
  case (Cons p q)
  obtain j v where p: "p = (j, v)" by (cases p)
  from Cons.prems p have wf: "obj_wf q" and new: "obj_get q j = None"
    by (auto simp: obj_wf_def obj_get_def map_of_eq_None_iff)
  show ?case using Cons.IH [OF wf] new
    by (cases v) (auto simp: p loaded_back_def array_of_def Let_def)
qed (simp add: loaded_back_def array_of_def)

lemma insert_updates_get:
  "obj_wf us \<Longrightarrow> obj_get (insert_updates us q) k =
    (case obj_get us k of None \<Rightarrow> obj_get q k | Some v \<Rightarrow> if v = JNull then None else Some v)"
proof (induction us q rule: insert_updates.induct)
  case (2 j v us q)
  then have wf: "obj_wf us" and new: "obj_get us j = None"
    by (auto simp: obj_wf_def obj_get_def map_of_eq_None_iff)
  show ?case using 2 wf new by (auto split: option.splits)
qed simp

lemma insert_updates_wf: "obj_wf q \<Longrightarrow> obj_wf (insert_updates us q)"
  by (induction us q rule: insert_updates.induct) auto

lemma native_write_map:
  "native_write (JObj us) (file_of q) = file_of (insert_updates us q)"
  by (simp add: native_write_def persist_message_queue_updates_def file_of_def)

lemma native_file_write:
  "native_file (e\<lparr>nativeWrites := nativeWrites e @ [u]\<rparr>) = native_write u (native_file e)"
  by (simp add: native_file_def)

lemma native_file_frame:
  "nativeWrites e' = nativeWrites e \<Longrightarrow> native_file e' = native_file e"
  by (simp add: native_file_def)

definition native_synced :: "client_env \<Rightarrow> queued_record list jsobj \<Rightarrow> bool" where
  \<comment> \<open>what is read from the file is every persistable queue, restored\<close>
  "native_synced e queues \<longleftrightarrow>
    (\<exists>q. native_file e = file_of q \<and> obj_wf q \<and>
       (\<forall>k. loaded_back (array_of (obj_get q k)) = reloaded_queue e queues k))"

lemma load_native_file:
  assumes "native_synced e queues" "hasWindow e" "hasTauri e" "native_file e \<noteq> None"
  shows "obj_get (fst (loadPersistedMessageQueues (load_message_queues (native_file e)) e)) k =
    reloaded_queue e queues k"
proof -
  obtain q where q: "native_file e = file_of q" "obj_wf q"
    "\<And>k. loaded_back (array_of (obj_get q k)) = reloaded_queue e queues k"
    using assms(1) by (auto simp: native_synced_def)
  then have "q \<noteq> []" using assms(4) by (auto simp: file_of_def)
  then show ?thesis
    using assms(2,3) q parse_entries_lookup [OF q(2), of k]
    by (simp add: loadPersistedMessageQueues_def load_message_queues_def file_of_def parseMessageQueues_def)
qed

lemma load_native_cache:
  "\<not> hasWindow e \<or> \<not> hasTauri e \<or> file = None \<Longrightarrow>
    fst (loadPersistedMessageQueues (load_message_queues file) e) = loadCachedMessageQueues e"
  by (auto simp: loadPersistedMessageQueues_def load_message_queues_def)

end
