(* ===== verification/QueueSync.thy ===== *)
theory QueueSync
  imports ChatProperties NativeQueues
begin

text \<open>
  The persisted queues follow the store: after any sequence of actions a restart finds every
  session's queue again (\<open>stores/chatStore.ts\<close> with \<open>stores/queuePersistence.ts\<close>).
  Two places follow it: the copy in local storage and, on the desktop, the native file. That every
  action keeps a place in step is proved once, for any place a persist call keeps in step.
\<close>

section \<open>What a persist call writes, session by session\<close>

lemma refresh_entries_get:
  "obj_wf us \<Longrightarrow> obj_get (refresh_entries us cached) k =
    (case obj_get us k of
       None \<Rightarrow> obj_get cached k
     | Some None \<Rightarrow> None
     | Some (Some rs) \<Rightarrow> if rs = [] then None else Some rs)"
proof (induction us cached rule: refresh_entries.induct)
  case (1 cached)
  then show ?case by simp
next
  case (2 j records us cached)
  then have wf: "obj_wf us" and new: "obj_get us j = None"
    by (auto simp: obj_wf_def obj_get_def map_of_eq_None_iff)
  show ?case using 2 wf new by (auto split: option.splits)
qed

lemma refresh_entries_wf: "obj_wf cached \<Longrightarrow> obj_wf (refresh_entries us cached)"
  by (induction us cached rule: refresh_entries.induct) (auto split: option.splits)

lemma queue_updates_wf: "obj_wf acc \<Longrightarrow> obj_wf (queue_updates e queues ids acc)"
  by (induction e queues ids acc rule: queue_updates.induct) simp_all

definition update_for :: "client_env \<Rightarrow> queued_record list jsobj \<Rightarrow> string \<Rightarrow> json list option" where
  "update_for e queues k =
    (case obj_get queues k of
       Some q \<Rightarrow> if length q > 0 \<and> isSessionPersistable e k then Some (map record_json q) else None
     | None \<Rightarrow> None)"

lemma queue_updates_get:
  "obj_get (queue_updates e queues ids acc) k =
    (if k \<in> set ids then Some (update_for e queues k) else obj_get acc k)"
  by (induction e queues ids acc rule: queue_updates.induct) (auto simp: update_for_def)

section \<open>The invariant\<close>

definition queues_storable :: "queued_record list jsobj \<Rightarrow> bool" where
  "queues_storable queues \<longleftrightarrow> (\<forall>k q. obj_get queues k = Some q \<longrightarrow> list_all storable q)"

definition queues_synced :: "client_env \<Rightarrow> queued_record list jsobj \<Rightarrow> bool" where
  \<comment> \<open>what a restart would load is every persistable queue, restored\<close>
  "queues_synced e queues \<longleftrightarrow>
     obj_wf (loadCachedMessageQueues e) \<and>
     (\<forall>k. obj_get (loadCachedMessageQueues e) k = reloaded_queue e queues k)"

lemma storable_restored:
  "list_all storable q \<Longrightarrow>
   normalized_records (map (\<lambda>r. record_json (restore_record r)) q) =
     map (\<lambda>r. record_json (restore_record r)) q"
proof -
  assume q: "list_all storable q"
  then have "list_all storable (map restore_record q)"
    by (induction q) (simp_all add: restore_record_storable)
  from normalized_records_json [OF this] q show ?thesis
    by (simp add: comp_def list_all_iff restore_record_idem)
qed

lemma loaded_back_update:
  "(\<And>q. obj_get queues k = Some q \<Longrightarrow> list_all storable q) \<Longrightarrow>
   loaded_back (update_for e queues k) = reloaded_queue e queues k"
  by (auto simp: loaded_back_def update_for_def reloaded_queue_def normalized_records_json
      split: option.splits)

lemma loaded_back_reloaded:
  "(\<And>q. obj_get queues k = Some q \<Longrightarrow> list_all storable q) \<Longrightarrow>
   loaded_back (reloaded_queue e queues k) = reloaded_queue e queues k"
  by (auto simp: loaded_back_def reloaded_queue_def storable_restored split: option.splits)

lemma parse_entries_Cons:
  "parse_queue_entries (e # es) = parse_queue_entries es \<or>
   (\<exists>rs. parse_queue_entries (e # es) = (fst e, rs) # parse_queue_entries es)"
  by (cases e) (auto split: json.splits simp: Let_def)

lemma parse_entries_wf: "obj_wf m \<Longrightarrow> obj_wf (parse_queue_entries m)"
proof -
  have sub: "fst ` set (parse_queue_entries m) \<subseteq> fst ` set m" for m
  proof (induction m)
    case (Cons e m)
    then show ?case using parse_entries_Cons [of e m] by (elim disjE exE) (simp_all add: subset_insertI2 insert_mono)
  qed simp
  show "obj_wf m \<Longrightarrow> obj_wf (parse_queue_entries m)"
  proof (induction m)
    case (Cons e m)
    then show ?case using parse_entries_Cons [of e m] sub [of m] by (auto simp: obj_wf_def)
  qed simp
qed

lemma load_refresh_wf:
  assumes "env_writable e" "obj_wf (loadCachedMessageQueues e)"
  shows "obj_wf (loadCachedMessageQueues (refreshCachedMessageQueues us e))"
proof (cases "refresh_entries us (loadCachedMessageQueues e) = []")
  case True
  then show ?thesis
    using assms by (simp add: refreshCachedMessageQueues_def obj_keys_def
        loadCachedMessageQueues_def [of "ls_remove _ _"] ls_get_remove)
next
  case False
  have "obj_wf (map (\<lambda>p. (fst p, JArr (snd p))) (refresh_entries us (loadCachedMessageQueues e)))"
    using refresh_entries_wf [OF assms(2), of us] by (simp add: obj_wf_def comp_def)
  then show ?thesis
    using assms False
    by (simp add: refreshCachedMessageQueues_def obj_keys_def Let_def
        loadCachedMessageQueues_def [of "ls_set _ _ _"] ls_get_set parseMessageQueues_def
        parse_entries_wf)
qed

lemma reloaded_native [simp]: "reloaded_queue (e\<lparr>nativeWrites := x\<rparr>) = reloaded_queue e"
  by (simp add: reloaded_queue_def isSessionPersistable_def fun_eq_iff split: option.split)

lemma persist_synced:
  assumes wr: "env_writable e" and ids: "ids \<noteq> []"
    and old: "queues_synced e old" and st: "queues_storable old" "queues_storable new"
    and same: "\<And>k. k \<notin> set ids \<Longrightarrow> obj_get new k = obj_get old k"
  shows "queues_synced (persistMessageQueues new ids e) new"
proof -
  let ?e' = "if hasTauri e
    then e\<lparr>nativeWrites := nativeWrites e @ [updates_json (queue_updates e new ids [])]\<rparr> else e"
  let ?us = "queue_updates e new ids []"
  have win: "hasWindow e" and wr': "env_writable ?e'" using wr by (auto simp: env_writable_def)
  have load': "loadCachedMessageQueues ?e' = loadCachedMessageQueues e" by simp
  have wf: "obj_wf (loadCachedMessageQueues e)"
    and get: "obj_get (loadCachedMessageQueues e) k = reloaded_queue e old k" for k
    using old by (auto simp: queues_synced_def)
  have p: "persistMessageQueues new ids e = refreshCachedMessageQueues ?us ?e'"
    using ids by (simp add: persistMessageQueues_def win Let_def)
  have wf': "obj_wf (refresh_entries ?us (loadCachedMessageQueues ?e'))"
    unfolding load' by (rule refresh_entries_wf [OF wf])
  have stq: "list_all storable q" if "obj_get old k = Some q \<or> obj_get new k = Some q" for k q
    using st that by (auto simp: queues_storable_def)
  have upd: "obj_get (refresh_entries ?us (loadCachedMessageQueues ?e')) k =
      (if k \<in> set ids then update_for e new k else reloaded_queue e old k)" for k
    unfolding load' refresh_entries_get [OF queue_updates_wf [OF obj_wf_empty]]
    by (auto simp: queue_updates_get get update_for_def split: option.splits)
  have "obj_get (loadCachedMessageQueues (persistMessageQueues new ids e)) k = reloaded_queue e new k" for k
  proof -
    have "obj_get (loadCachedMessageQueues (persistMessageQueues new ids e)) k =
        loaded_back (if k \<in> set ids then update_for e new k else reloaded_queue e old k)"
      unfolding p load_after_refresh [OF wr' wf'] upd loaded_back_def by simp
    moreover have "k \<notin> set ids \<Longrightarrow> reloaded_queue e old k = reloaded_queue e new k"
      using same [of k] by (simp add: reloaded_queue_def)
    ultimately show ?thesis
      using stq [of k] by (simp add: loaded_back_update loaded_back_reloaded)
  qed
  moreover have "reloaded_queue (persistMessageQueues new ids e) new = reloaded_queue e new"
    by (auto simp: p refreshCachedMessageQueues_def reloaded_queue_def isSessionPersistable_def
        ls_set_def ls_remove_def fun_eq_iff Let_def split: option.split)
  moreover have "obj_wf (loadCachedMessageQueues (persistMessageQueues new ids e))"
    unfolding p by (rule load_refresh_wf [OF wr']) (simp add: wf)
  ultimately show ?thesis by (simp add: queues_synced_def)
qed

lemma updates_wf: "obj_wf us \<Longrightarrow> obj_wf (map (\<lambda>p. (fst p, case snd p of Some rs \<Rightarrow> JArr rs | None \<Rightarrow> JNull)) us)"
  by (simp add: obj_wf_def comp_def)

lemma updates_get:
  "obj_get (map (\<lambda>p. (fst p, case snd p of Some rs \<Rightarrow> JArr rs | None \<Rightarrow> JNull)) us) k =
    map_option (\<lambda>u. case u of Some rs \<Rightarrow> JArr rs | None \<Rightarrow> JNull) (obj_get us k)"
  by (induction us) auto

lemma persist_native_synced:
  assumes env: "hasWindow e" "hasTauri e" and ids: "ids \<noteq> []"
    and old: "native_synced e old" and st: "queues_storable old" "queues_storable new"
    and same: "\<And>k. k \<notin> set ids \<Longrightarrow> obj_get new k = obj_get old k"
  shows "native_synced (persistMessageQueues new ids e) new"
proof -
  obtain q where q: "native_file e = file_of q" "obj_wf q"
    "\<And>k. loaded_back (array_of (obj_get q k)) = reloaded_queue e old k"
    using old by (auto simp: native_synced_def)
  let ?us = "queue_updates e new ids []"
  let ?e' = "e\<lparr>nativeWrites := nativeWrites e @ [updates_json ?us]\<rparr>"
  let ?ps = "map (\<lambda>p. (fst p, case snd p of Some rs \<Rightarrow> JArr rs | None \<Rightarrow> JNull)) ?us"
  let ?q = "insert_updates ?ps q"
  have wf: "obj_wf ?us" by (rule queue_updates_wf) simp
  have p: "persistMessageQueues new ids e = refreshCachedMessageQueues ?us ?e'"
    using ids env by (simp add: persistMessageQueues_def Let_def)
  have "nativeWrites (persistMessageQueues new ids e) = nativeWrites ?e'"
    by (simp add: p refreshCachedMessageQueues_def Let_def)
  then have "native_file (persistMessageQueues new ids e) = native_write (updates_json ?us) (native_file e)"
    by (simp add: native_file_def)
  then have written: "native_file (persistMessageQueues new ids e) = file_of ?q"
    unfolding q(1) updates_json_def native_write_map .
  have re: "reloaded_queue (persistMessageQueues new ids e) new = reloaded_queue e new"
    by (auto simp: p refreshCachedMessageQueues_def reloaded_queue_def isSessionPersistable_def
        ls_set_def ls_remove_def fun_eq_iff Let_def split: option.split)
  have "loaded_back (array_of (obj_get ?q k)) = reloaded_queue e new k" for k
  proof (cases "k \<in> set ids")
    case True
    then have "array_of (obj_get ?q k) = update_for e new k"
      unfolding insert_updates_get [OF updates_wf [OF wf]] updates_get
      by (simp add: queue_updates_get array_of_def split: option.split)
    then show ?thesis using st(2) by (simp add: loaded_back_update queues_storable_def)
  next
    case False
    then have "obj_get ?q k = obj_get q k"
      unfolding insert_updates_get [OF updates_wf [OF wf]] updates_get by (simp add: queue_updates_get)
    then show ?thesis using q(3) [of k] same [OF False] by (simp add: reloaded_queue_def)
  qed
  then show ?thesis
    unfolding native_synced_def re using written insert_updates_wf [OF q(2)] by blast
qed

section \<open>Every action keeps it\<close>

definition payload_storable :: "queued_payload \<Rightarrow> bool" where
  \<comment> \<open>a named persona has an id\<close>
  "payload_storable p \<longleftrightarrow> (case qp_persona p of PersonaIntent i n \<Rightarrow> i \<noteq> [] | _ \<Rightarrow> True)"

definition queue_enabled :: "chat_action \<Rightarrow> chat_world \<Rightarrow> bool" where
  \<comment> \<open>what is queued can be stored; the queues are not replaced wholesale (hydration)\<close>
  "queue_enabled a w \<longleftrightarrow>
    (case a of
       StoreAction (ReplaceQueuedMessages _) \<Rightarrow> False
     | StoreAction (ReconcileQueuedMessages _ _) \<Rightarrow> False
     | EnqueueDeferredMessage u _ p st \<Rightarrow> u \<noteq> [] \<and> payload_storable p \<and> storable_state st
     | UpdateDeferredMessage _ _ st \<Rightarrow> storable_state st
     | DeferTransportReadyMessage _ _ st p \<Rightarrow>
         storable_state st \<and> (case p of Some p \<Rightarrow> payload_storable p | None \<Rightarrow> True)
     | EnqueueTransportReadyMessage u _ p \<Rightarrow> u \<noteq> [] \<and> payload_storable p
     | UpdateQueuedMessage _ _ p \<Rightarrow> payload_storable p
     | _ \<Rightarrow> True)"

definition follows :: "(client_env \<Rightarrow> queued_record list jsobj \<Rightarrow> bool) \<Rightarrow> chat_world \<Rightarrow> bool" where
  \<comment> \<open>the store's queues can be stored, and the place is in step with them\<close>
  "follows synced w \<longleftrightarrow> queues_storable (queuedMessageBySession (store w)) \<and>
     synced (env w) (queuedMessageBySession (store w))"

definition cache_follows :: "client_env \<Rightarrow> queued_record list jsobj \<Rightarrow> bool" where
  \<comment> \<open>the copy in local storage, while that can be written\<close>
  "cache_follows e queues \<longleftrightarrow> env_writable e \<and> queues_synced e queues"

definition file_follows :: "client_env \<Rightarrow> queued_record list jsobj \<Rightarrow> bool" where
  \<comment> \<open>the native file of the desktop application\<close>
  "file_follows e queues \<longleftrightarrow> hasWindow e \<and> hasTauri e \<and> native_synced e queues"

lemma queues_of_puts [simp]:
  "queuedMessageBySession (put_runtime k r s) = queuedMessageBySession s"
  "queuedMessageBySession (put_messages k ms s) = queuedMessageBySession s"
  "queuedMessageBySession (put_queue k q s) = obj_set k q (queuedMessageBySession s)"
  "queuedMessageBySession (mark_unread_if b k s) = queuedMessageBySession s"
  by (simp_all add: put_runtime_def put_messages_def put_queue_def mark_unread_if_def)

lemma load_queues_other [simp]:
  "loadCachedMessageQueues (persistDrafts ds e) = loadCachedMessageQueues e"
  "loadCachedMessageQueues (persistUnreadSessionIds ids e) = loadCachedMessageQueues e"
  by (simp_all add: loadCachedMessageQueues_def persistDrafts_def persistUnreadSessionIds_def
      Let_def ls_frame_key)

lemma queues_synced_other [simp]:
  "queues_synced (persistDrafts ds e) q = queues_synced e q"
  "queues_synced (persistUnreadSessionIds ids e) q = queues_synced e q"
proof -
  have "reloaded_queue (persistDrafts ds e) = reloaded_queue e"
    "reloaded_queue (persistUnreadSessionIds ids e) = reloaded_queue e"
    by (simp_all add: reloaded_queue_def isSessionPersistable_def fun_eq_iff split: option.split)
  then show "queues_synced (persistDrafts ds e) q = queues_synced e q"
    "queues_synced (persistUnreadSessionIds ids e) q = queues_synced e q"
    by (simp_all add: queues_synced_def)
qed

lemma queues_storable_set:
  "queues_storable q \<Longrightarrow> list_all storable rs \<Longrightarrow> queues_storable (obj_set k rs q)"
  by (simp add: queues_storable_def)

lemma queues_storable_del: "queues_storable q \<Longrightarrow> queues_storable (obj_del k q)"
  by (simp add: queues_storable_def)

lemma storable_payload:
  "storable r \<longleftrightarrow> qr_recordId r \<noteq> [] \<and> payload_storable (qr_payload r) \<and>
     (case qr_kind r of Deferred s \<Rightarrow> storable_state s | TransportReady _ \<Rightarrow> True)"
  by (simp add: storable_def payload_storable_def)

fun queue_action :: "store_action \<Rightarrow> bool" where
  "queue_action (ReplaceQueuedMessages _) = True"
| "queue_action (ReconcileQueuedMessages _ _) = True"
| "queue_action (MarkQueuedMessagesReady _) = True"
| "queue_action _ = False"

lemma store_step_queues:
  "\<not> queue_action a \<Longrightarrow> queuedMessageBySession (store_step a s) = queuedMessageBySession s"
  by (cases a) (simp_all add: store_defs Let_def split: option.split)

lemma queues_of_sets [simp]:
  "queuedMessageBySession (fst (setActiveSession_set k s)) = queuedMessageBySession s"
  "queuedMessageBySession (fst (releaseMountedTranscript_set k s)) = queuedMessageBySession s"
  "queuedMessageBySession (fst (addMessage_set k m s)) = queuedMessageBySession s"
  "queuedMessageBySession (fst (setMessages_set k ms s)) = queuedMessageBySession s"
  "queuedMessageBySession (updateMessage_set k i f s) = queuedMessageBySession s"
  "queuedMessageBySession (appendToStreamingMessage_set k c s) = queuedMessageBySession s"
  "queuedMessageBySession (fst (appendStreamingText_set k i t s)) = queuedMessageBySession s"
  "queuedMessageBySession (setDraft_set k t s) = queuedMessageBySession s"
  "queuedMessageBySession (clearDraft_set k s) = queuedMessageBySession s"
  by (auto simp: setActiveSession_set_def releaseMountedTranscript_set_def addMessage_set_def
      setMessages_set_def updateMessage_set_def appendToStreamingMessage_set_def
      appendStreamingText_set_def setDraft_set_def clearDraft_set_def Let_def split_beta
      split: option.splits)

lemma queues_of_updates [simp]:
  "queuedMessageBySession (fst (appendStreamingMessageUpdates_set us md s)) = queuedMessageBySession s"
proof -
  have "queuedMessageBySession (fst (streaming_update_step md s0 u acc)) =
      queuedMessageBySession (fst acc)" for s0 u acc
    by (auto simp: streaming_update_step_def Let_def split_beta split: option.splits)
  then have "queuedMessageBySession (fst (fold (streaming_update_step md s0) us acc)) =
      queuedMessageBySession (fst acc)" for s0 acc
    by (induction us arbitrary: acc) simp_all
  then show ?thesis by (simp add: appendStreamingMessageUpdates_set_def)
qed

lemma updated_record_storable:
  "storable r \<Longrightarrow> qr_recordId r = i \<Longrightarrow> payload_storable p \<Longrightarrow> updated_record i p r = Some r' \<Longrightarrow>
   storable r'"
  by (auto simp: updated_record_def storable_payload Let_def split: if_splits)

lemma list_all_parts:
  "list_all P xs \<Longrightarrow> list_all P (filter Q xs)" "list_all P xs \<Longrightarrow> list_all P (drop n xs)"
  by (auto simp: list_all_iff dest: in_set_dropD)

lemma promote_queues:
  "queuedMessageBySession (promoteSessionId_set a b s) =
    (case obj_get (queuedMessageBySession s) a of
       Some q \<Rightarrow> if length q > 0
         then obj_set b (or_else (obj_get (obj_del a (queuedMessageBySession s)) b) [] @ q)
                (obj_del a (queuedMessageBySession s))
         else obj_del a (queuedMessageBySession s)
     | None \<Rightarrow> obj_del a (queuedMessageBySession s))"
  by (simp add: promoteSessionId_set_def Let_def)

text \<open>
  A place a persist call keeps in step, which the drafts and the unread marks do not touch, and which
  only shows what a restart restores.
\<close>

locale queue_follower =
  fixes synced :: "client_env \<Rightarrow> queued_record list jsobj \<Rightarrow> bool"
  assumes persists: "ids \<noteq> [] \<Longrightarrow> synced e old \<Longrightarrow> queues_storable old \<Longrightarrow> queues_storable new \<Longrightarrow>
      (\<And>k. k \<notin> set ids \<Longrightarrow> obj_get new k = obj_get old k) \<Longrightarrow> synced (persistMessageQueues new ids e) new"
    and other: "synced (persistDrafts ds e) q = synced e q" "synced (persistUnreadSessionIds us e) q = synced e q"
    and reloads: "reloaded_queue e q = reloaded_queue e q' \<Longrightarrow> synced e q \<Longrightarrow> synced e q'"
begin

lemma follows_other [simp]:
  "follows synced (persist_drafts w) = follows synced w"
  "follows synced (persistUnreadStateIfChanged prev w) = follows synced w"
  by (simp_all add: follows_def persist_drafts_def persistUnreadStateIfChanged_def other Let_def)

lemma queue_inv_frame:
  "follows synced w \<Longrightarrow> queuedMessageBySession (store w') = queuedMessageBySession (store w) \<Longrightarrow>
   env w' = env w \<Longrightarrow> follows synced w'"
  by (simp add: follows_def)

lemma queue_inv_persist:
  assumes "follows synced w" "ids \<noteq> []" "env w' = env w"
    and "queues_storable (queuedMessageBySession (store w'))"
    and "\<And>k. k \<notin> set ids \<Longrightarrow>
      obj_get (queuedMessageBySession (store w')) k = obj_get (queuedMessageBySession (store w)) k"
  shows "follows synced (persist_queues ids w')"
  using assms persists [of ids "env w" "queuedMessageBySession (store w)"
      "queuedMessageBySession (store w')"]
  by (simp add: follows_def persist_queues_def)

lemma queue_of_storable: "follows synced w \<Longrightarrow> list_all storable (queue_of (store w) k)"
  by (auto simp: follows_def queues_storable_def queue_of_def or_else_def split: option.split)

lemma queue_inv_put:
  assumes "follows synced w" "list_all storable q"
  shows "follows synced (persist_queues [k] (with_store (put_queue k q) w))"
  using assms
  by (intro queue_inv_persist)
    (auto simp: follows_def intro: queues_storable_set)

lemma queue_inv_write:
  "follows synced w \<Longrightarrow> storable r \<Longrightarrow> follows synced (write_record k (queue_of (store w) k) i r w)"
  unfolding write_record_def
  using queue_of_storable [of w k] set_update_subset_insert [of "queue_of (store w) k" i r]
  by (intro queue_inv_put) (auto simp: list_all_iff)

lemma record_storable_at:
  assumes "follows synced w" "find_index p (queue_of (store w) k) = Some i"
  shows "storable (queue_of (store w) k ! i) \<and> p (queue_of (store w) k ! i)"
  using assms(2) queue_of_storable [OF assms(1), of k] by (simp add: find_index_Some list_all_length)

lemma mark_ready_inv:
  assumes "follows synced w"
  shows "follows synced (with_store (markQueuedMessagesReady k) w)"
proof (cases "obj_get (queuedMessageBySession (store w)) k")
  case None
  then show ?thesis using assms
    by (intro queue_inv_frame [OF assms]) (simp_all add: markQueuedMessagesReady_def)
next
  case (Some q)
  let ?q = "map (\<lambda>r. r\<lparr>qr_restored := False\<rparr>) q"
  have "restore_record (r\<lparr>qr_restored := False\<rparr>) = restore_record r" for r
    by (simp add: restore_record_def)
  then have same: "reloaded_queue (env w) (obj_set k ?q (queuedMessageBySession (store w))) =
      reloaded_queue (env w) (queuedMessageBySession (store w))"
    by (auto simp: reloaded_queue_def Some fun_eq_iff comp_def split: option.split)
  have "list_all storable ?q"
    using assms Some by (auto simp: follows_def queues_storable_def list_all_iff storable_def)
  with assms same have "follows synced (with_store (put_queue k ?q) w)"
    using reloads [OF same [symmetric]] by (simp add: follows_def queues_storable_set)
  then show ?thesis
    using assms by (simp add: markQueuedMessagesReady_def Some with_store_def)
qed

text \<open>The actions that rewrite one or two queues and persist them.\<close>

lemma defer_inv:
  "follows synced w \<Longrightarrow> storable_state st \<Longrightarrow> (case p of Some p \<Rightarrow> payload_storable p | None \<Rightarrow> True) \<Longrightarrow>
   follows synced (snd (deferTransportReadyMessage k i st p w))"
  using record_storable_at [of w "ready_with_id i" k]
  by (auto simp: deferTransportReadyMessage_def Let_def storable_payload ready_with_id_def
      or_else_def split: option.splits intro!: queue_inv_write)

lemma release_inv: "follows synced w \<Longrightarrow> follows synced (snd (releaseDeferredMessage k i w))"
  using record_storable_at [of w "deferred_with_id i" k]
  by (auto simp: releaseDeferredMessage_def Let_def storable_payload deferred_with_id_def
      split: option.splits intro!: queue_inv_write)

lemma update_deferred_inv:
  "follows synced w \<Longrightarrow> storable_state st \<Longrightarrow> follows synced (snd (updateDeferredMessage k i st w))"
  using record_storable_at [of w "deferred_with_id i" k]
  by (auto simp: updateDeferredMessage_def Let_def storable_payload
      split: option.splits intro!: queue_inv_write)

lemma editing_inv: "follows synced w \<Longrightarrow> follows synced (snd (setQueuedMessageEditing k i b w))"
  using record_storable_at [of w "\<lambda>r. qr_recordId r = i" k]
  by (auto simp: setQueuedMessageEditing_def Let_def storable_payload
      split: option.splits intro!: queue_inv_write)

lemma update_queued_inv:
  assumes "follows synced w" "payload_storable p"
  shows "follows synced (snd (updateQueuedMessage k i p w))"
proof (cases "find_index (\<lambda>r. qr_recordId r = i) (queue_of (store w) k)")
  case None
  then show ?thesis using assms by (simp add: updateQueuedMessage_def Let_def)
next
  case (Some j)
  note at = record_storable_at [OF assms(1) Some]
  show ?thesis
  proof (cases "updated_record i p (queue_of (store w) k ! j)")
    case None
    then show ?thesis using assms Some by (simp add: updateQueuedMessage_def Let_def)
  next
    case (Some r)
    with at assms have "storable r" by (blast intro: updated_record_storable)
    with Some \<open>find_index _ _ = Some j\<close> assms show ?thesis
      by (simp add: updateQueuedMessage_def Let_def queue_inv_write)
  qed
qed

lemma enqueue_inv:
  "follows synced w \<Longrightarrow> i \<noteq> [] \<Longrightarrow> payload_storable p \<Longrightarrow>
   follows synced (snd (enqueueTransportReadyMessage i k p w))"
  using queue_inv_put [of w "queue_of (store w) k @ [ready_record i p]" k] queue_of_storable [of w k]
  by (simp add: enqueueTransportReadyMessage_def with_store_def ready_record_def storable_payload)

lemma enqueue_deferred_inv:
  "follows synced w \<Longrightarrow> i \<noteq> [] \<Longrightarrow> payload_storable p \<Longrightarrow> storable_state st \<Longrightarrow>
   follows synced (snd (enqueueDeferredMessage i k p st w))"
  using queue_inv_put [of w "queue_of (store w) k @ [deferred_record i p st]" k] queue_of_storable [of w k]
  by (simp add: enqueueDeferredMessage_def Let_def deferred_record_def storable_payload)

lemma dismiss_queue_inv: "follows synced w \<Longrightarrow> follows synced (dismissQueuedMessage k i w)"
  unfolding dismissQueuedMessage_def
  using queue_of_storable [of w k]
  by (intro queue_inv_persist)
    (auto simp: dismissQueuedMessage_set_def follows_def Let_def
      intro!: queues_storable_set queues_storable_del list_all_parts)

lemma move_inv: "follows synced w \<Longrightarrow> follows synced (snd (moveQueuedMessage a b i w))"
proof -
  assume inv: "follows synced w"
  have st: "list_all storable (queue_of (store w) j)" for j
    by (rule queue_of_storable [OF inv])
  have sub: "list_all storable (filter P (queue_of (store w) j))" for P j
    using st [of j] by (simp add: list_all_iff)
  have q: "queues_storable (queuedMessageBySession (store w))" using inv by (simp add: follows_def)
  show ?thesis
    unfolding moveQueuedMessage_def Let_def
    by (auto simp: inv st sub q intro!: queue_inv_persist [OF inv] queues_storable_set queues_storable_del)
qed

lemma promote_queue_inv: "follows synced w \<Longrightarrow> follows synced (promoteSessionId a b w)"
proof -
  assume inv: "follows synced w"
  have q: "queues_storable (queuedMessageBySession (store w))" using inv by (simp add: follows_def)
  then have "list_all storable (or_else (obj_get (obj_del a (queuedMessageBySession (store w))) b) [])"
    by (auto simp: or_else_def queues_storable_def split: option.split)
  moreover have "obj_get (queuedMessageBySession (store w)) a = Some x \<Longrightarrow> list_all storable x" for x
    using q by (simp add: queues_storable_def)
  ultimately have "queues_storable (queuedMessageBySession (promoteSessionId_set a b (store w)))"
    using q by (auto simp: promote_queues queues_storable_set queues_storable_del split: option.split)
  then have "follows synced (persist_queues [a, b] (with_store (promoteSessionId_set a b) w))"
    by (intro queue_inv_persist [OF inv]) (auto simp: promote_queues split: option.split)
  then show ?thesis by (simp add: promoteSessionId_def)
qed

lemma cleanup_queue_inv: "follows synced w \<Longrightarrow> follows synced (cleanupSession k w)"
proof -
  assume inv: "follows synced w"
  then have "queues_storable (queuedMessageBySession (cleanupSession_set k (store w)))"
    by (simp add: follows_def cleanupSession_set_def queues_storable_del)
  then have "follows synced (persist_queues [k] (with_store (cleanupSession_set k)
      (w\<lparr>replayBuffers := clearReplayBuffer k (replayBuffers w)\<rparr>)))"
    by (intro queue_inv_persist [OF inv]) (auto simp: cleanupSession_set_def)
  then show ?thesis by (simp add: cleanupSession_def)
qed

lemmas queue_action_invs = enqueue_inv enqueue_deferred_inv dismiss_queue_inv move_inv
  promote_queue_inv cleanup_queue_inv defer_inv release_inv update_deferred_inv editing_inv
  update_queued_inv

lemma chat_step_queue_inv:
  assumes "follows synced w" "queue_enabled a w"
  shows "follows synced (chat_step a w)"
proof (cases a)
  case (StoreAction b)
  then show ?thesis
  proof (cases "queue_action b")
    case True
    then obtain k where "b = MarkQueuedMessagesReady k"
      using StoreAction assms(2) by (cases b) (auto simp: queue_enabled_def)
    moreover have "store_step (MarkQueuedMessagesReady j) = markQueuedMessagesReady j" for j
      by (rule ext) simp
    ultimately show ?thesis using StoreAction assms(1) by (simp add: mark_ready_inv)
  next
    case False
    then show ?thesis using StoreAction assms(1)
      by (intro queue_inv_frame [OF assms(1)]) (simp_all add: store_step_queues)
  qed
qed (use assms in \<open>auto simp: queue_enabled_def queue_action_invs setActiveSession_def
      releaseMountedTranscript_def addMessage_def updateMessage_def setMessages_def
      clearMessages_def appendToStreamingMessage_def appendStreamingText_def updateStreamingText_def
      appendStreamingMessageUpdates_def markSessionRead_def markSessionUnread_def
      setDraft_def clearDraft_def Let_def split_beta
      intro!: queue_inv_frame [OF assms(1)] split: option.split\<close>)

end

lemma reloaded_other [simp]:
  "reloaded_queue (persistDrafts ds e) = reloaded_queue e"
  "reloaded_queue (persistUnreadSessionIds ids e) = reloaded_queue e"
  by (simp_all add: reloaded_queue_def isSessionPersistable_def fun_eq_iff split: option.split)

lemma persist_env:
  "env_writable (persistMessageQueues q ids e) = env_writable e"
  "hasWindow (persistMessageQueues q ids e) = hasWindow e" "hasTauri (persistMessageQueues q ids e) = hasTauri e"
  by (simp_all add: persistMessageQueues_def refreshCachedMessageQueues_def env_writable_def Let_def)

lemma native_file_other [simp]:
  "native_file (persistDrafts ds e) = native_file e" "native_file (persistUnreadSessionIds ids e) = native_file e"
  by (simp_all add: native_file_def)

interpretation cache: queue_follower cache_follows
proof unfold_locales
  show "cache_follows (persistMessageQueues new ids e) new"
    if "ids \<noteq> []" "cache_follows e old" "queues_storable old" "queues_storable new"
      "\<And>k. k \<notin> set ids \<Longrightarrow> obj_get new k = obj_get old k" for ids e old new
    using persist_synced [of e ids old new] that by (simp add: cache_follows_def persist_env)
qed (simp_all add: cache_follows_def queues_synced_def [of _ "_ :: queued_record list jsobj"])

interpretation filed: queue_follower file_follows
proof unfold_locales
  show "file_follows (persistMessageQueues new ids e) new"
    if "ids \<noteq> []" "file_follows e old" "queues_storable old" "queues_storable new"
      "\<And>k. k \<notin> set ids \<Longrightarrow> obj_get new k = obj_get old k" for ids e old new
    using persist_native_synced [of e ids old new] that by (simp add: file_follows_def persist_env)
qed (simp_all add: file_follows_def native_synced_def)

interpretation queues: step_system chat_step queue_enabled "follows cache_follows"
  by unfold_locales (rule cache.chat_step_queue_inv)

interpretation filed_queues: step_system chat_step queue_enabled "follows file_follows"
  by unfold_locales (rule filed.chat_step_queue_inv)

end
