(* ===== verification/ChatQueueProperties.thy ===== *)
theory ChatQueueProperties
  imports QueueSync
begin

text \<open>
  What the message queue and the session lifecycle of the chat store promise: queues are first in
  first out, a moved record is neither lost nor doubled, what was queued is found again after a
  restart, promotion moves everything a draft session holds, cleanup forgets a session.
\<close>

section \<open>Queues in the world\<close>

lemma world_frame [simp]:
  "store (persist_queues ids w) = store w" "store (persist_drafts w) = store w"
  "store (persistUnreadStateIfChanged prev w) = store w" "store (with_store f w) = f (store w)"
  "env (with_store f w) = env w"
  by (simp_all add: persist_queues_def persist_drafts_def persistUnreadStateIfChanged_def
      with_store_def Let_def)

lemma queue_of_write [simp]:
  "queue_of (store (write_record k q i r w)) j = (if j = k then q[i := r] else queue_of (store w) j)"
  by (simp add: write_record_def)

lemma queue_of_dismiss:
  "queue_of (dismissQueuedMessage_set k i s) j =
    (if j = k then (if truthy i then filter (\<lambda>r. qr_recordId r \<noteq> the i) (queue_of s k)
                    else drop 1 (queue_of s k))
     else queue_of s j)"
proof -
  have keep: "filter P q = q" if "length (filter P q) = length q" for P and q :: "queued_record list"
    using that by (metis filter_id_conv length_filter_less less_irrefl)
  show ?thesis
  proof (cases "truthy i")
    case True
    then show ?thesis
      using keep [of "\<lambda>r. qr_recordId r \<noteq> the i" "queue_of s k"]
      by (auto simp: dismissQueuedMessage_set_def queue_of_def put_queue_def Let_def)
  next
    case False
    then show ?thesis
      by (auto simp: dismissQueuedMessage_set_def queue_of_def put_queue_def Let_def Suc_le_eq)
  qed
qed

section \<open>First in, first out\<close>

text \<open>
  What the sender relies on when it drains a session's queue: it appends at the end, looks at the
  front, and removes the front.
\<close>

locale fifo =
  fixes view :: "'q \<Rightarrow> 'r list"
    and enq :: "'r \<Rightarrow> 'q \<Rightarrow> 'q"
    and pop :: "'q \<Rightarrow> 'q"
  assumes view_enq: "view (enq r q) = view q @ [r]"
    and view_pop: "view (pop q) = drop 1 (view q)"
begin

lemma view_enqs: "view (fold enq rs q) = view q @ rs"
  by (induction rs arbitrary: q) (simp_all add: view_enq)

lemma view_pops: "view ((pop ^^ n) q) = drop n (view q)"
  by (induction n) (simp_all add: view_pop drop_drop)

lemma fifo: "view ((pop ^^ n) (fold enq rs q)) = drop n (view q @ rs)"
  by (simp add: view_pops view_enqs)

end

definition enqueue_ready :: "string \<Rightarrow> string \<times> queued_payload \<Rightarrow> chat_world \<Rightarrow> chat_world" where
  \<comment> \<open>one call of \<open>enqueueTransportReadyMessage\<close>, with the id it draws\<close>
  "enqueue_ready k p w = snd (enqueueTransportReadyMessage (fst p) k (snd p) w)"

definition ready_of :: "queued_record \<Rightarrow> string \<times> queued_payload" where
  "ready_of r = (qr_recordId r, qr_payload r)"

definition ready_view :: "string \<Rightarrow> chat_world \<Rightarrow> (string \<times> queued_payload) list" where
  "ready_view k w = map ready_of (queue_of (store w) k)"

interpretation ready: fifo "ready_view k" "enqueue_ready k" "dismissQueuedMessage k None" for k
  by unfold_locales
    (simp_all add: ready_view_def ready_of_def enqueue_ready_def enqueueTransportReadyMessage_def
      ready_record_def dismissQueuedMessage_def queue_of_dismiss drop_map)

text \<open>
  A session's queue is first in, first out: after any number of messages were queued and
  \<open>n\<close> heads dismissed, what is left is the old queue followed by the new messages in the order
  they were queued, less its first \<open>n\<close>, each with its id and payload.
\<close>

theorem queue_fifo:
  "map ready_of (queue_of (store ((dismissQueuedMessage k None ^^ n)
      (fold (enqueue_ready k) ps w))) k) =
   drop n (map ready_of (queue_of (store w) k) @ ps)"
  using ready.fifo [of k n ps w] by (simp add: ready_view_def)

text \<open>
  Moving queued messages from one session to another loses none, doubles none and keeps their
  order: the selected records (those with the given id, or all) leave the source and go to the end
  of the destination; no other queue changes. The action answers whether it moved anything, and
  when it did not the world is unchanged.
\<close>

theorem moveQueuedMessage_spec:
  fixes w k i
  defines "sel \<equiv> \<lambda>r. truthy i \<longrightarrow> qr_recordId r = the i"
  assumes "a \<noteq> b" and "moveQueuedMessage a b i w = (moved, w')"
  shows "moved = list_ex sel (queue_of (store w) a) \<and>
    (\<not> moved \<longrightarrow> w' = w) \<and>
    queue_of (store w') b = queue_of (store w) b @ filter sel (queue_of (store w) a) \<and>
    queue_of (store w') a = filter (\<lambda>r. \<not> sel r) (queue_of (store w) a) \<and>
    (\<forall>j. j \<noteq> a \<and> j \<noteq> b \<longrightarrow> queue_of (store w') j = queue_of (store w) j)"
proof -
  have none: "filter p q = [] \<Longrightarrow> filter (\<lambda>r. \<not> p r) q = q" for p and q :: "queued_record list"
    by (simp add: filter_empty_conv filter_id_conv)
  show ?thesis
  proof (cases "truthy i")
    case True
    then have sel: "sel = (\<lambda>r. qr_recordId r = the i)" by (simp add: sel_def fun_eq_iff)
    show ?thesis unfolding sel
      using assms(2,3) True none [of "\<lambda>r. qr_recordId r = the i" "queue_of (store w) a"]
      by (auto simp: moveQueuedMessage_def Let_def queue_of_def list_ex_iff filter_empty_conv
          split: if_splits)
  next
    case False
    then have sel: "sel = (\<lambda>r. True)" by (simp add: sel_def fun_eq_iff)
    show ?thesis unfolding sel
      using assms(2,3) False
      by (auto simp: moveQueuedMessage_def Let_def queue_of_def list_ex_iff neq_Nil_conv
          split: if_splits)
  qed
qed

definition demo_payload :: "string \<Rightarrow> queued_payload" where
  "demo_payload t = admitComposerQueuedMessage t None None None None None"

definition queue_world :: chat_world where
  \<comment> \<open>the demo world with two messages queued for ''a'' and one for ''b''\<close>
  "queue_world = fold (\<lambda>(k, p) w. enqueue_ready k p w)
    [(''a'', (''r1'', demo_payload ''x'')), (''a'', (''r2'', demo_payload ''y'')),
     (''b'', (''r3'', demo_payload ''z''))] demo_world"

lemma queue_world_queues:
  "queue_of (store queue_world) ''a'' =
     [ready_record ''r1'' (demo_payload ''x''), ready_record ''r2'' (demo_payload ''y'')]"
  "queue_of (store queue_world) ''b'' = [ready_record ''r3'' (demo_payload ''z'')]"
  by (simp_all add: queue_world_def enqueue_ready_def enqueueTransportReadyMessage_def
      queue_of_def [of "store demo_world"] demo_world_fields)

theorem moveQueuedMessage_spec_witness:
  "map qr_recordId (queue_of (store (snd (moveQueuedMessage ''a'' ''b'' (Some ''r2'') queue_world))) ''b'') =
    [''r3'', ''r2'']"
  using moveQueuedMessage_spec [OF _ prod.collapse [symmetric],
      of "''a''" "''b''" "Some ''r2''" queue_world]
  by (simp add: queue_world_queues ready_record_def)

section \<open>Restart\<close>

definition restart_loads :: "client_env \<Rightarrow> json list jsobj" where
  \<comment> \<open>the queues the next start loads: from the native file on the desktop, else from local storage\<close>
  "restart_loads e = fst (loadPersistedMessageQueues (load_message_queues (native_file e)) e)"

text \<open>
  C1. Across any sequence of store actions, what the next start loads of the message queues, from the
  native file on the desktop and otherwise from the copy in local storage, is for every session that is
  not being created its queue with every record restored, in order: the records that are ready stay so,
  a send whose workspace was being created is held with an error, hidden records become visible, and the
  editing marks are gone. A session without a queue, or being created, is not found. This holds when
  local storage can be read and written, and on the desktop also when it cannot, as long as there is a
  native file. (The commands to the native file are carried out in order; the sessions being created
  stay the same; the run starts in step with both places; what is queued has an id, a named persona has
  an id, a deferred send has the state of a first send in a workspace; the queues are not replaced
  wholesale, as hydration does.)
\<close>

theorem restart_restores_queues:
  assumes "queues_storable (queuedMessageBySession (store w))"
    and "env_writable (env w) \<Longrightarrow> queues_synced (env w) (queuedMessageBySession (store w))"
    and "hasWindow (env w) \<and> hasTauri (env w) \<Longrightarrow> native_synced (env w) (queuedMessageBySession (store w))"
    and "queues.run_enabled es w" "v = fold chat_step es w"
    and "env_writable (env v) \<or> (hasWindow (env v) \<and> hasTauri (env v) \<and> native_file (env v) \<noteq> None)"
  shows "obj_get (restart_loads (env v)) k =
    (if queue_of (store v) k \<noteq> [] \<and> isSessionPersistable (env v) k
     then Some (map (\<lambda>r. record_json (restore_record r)) (queue_of (store v) k)) else None)"
proof -
  have same: "place (env v) = place (env w)" unfolding assms(5) by (rule place_run)
  have "obj_get (restart_loads (env v)) k = reloaded_queue (env v) (queuedMessageBySession (store v)) k"
  proof (cases "hasWindow (env v) \<and> hasTauri (env v) \<and> native_file (env v) \<noteq> None")
    case True
    then have "follows file_follows w"
      using place_facts [OF same] assms(1,3) by (simp add: follows_def file_follows_def)
    then have "follows file_follows v"
      using filed_queues.run_inv [OF _ assms(4)] by (simp add: assms(5) filed_queues.run_fold)
    then show ?thesis
      using True unfolding restart_loads_def
      by (intro load_native_file) (simp_all add: follows_def file_follows_def)
  next
    case False
    then have wr: "env_writable (env w)" using place_facts [OF same] assms(6) by blast
    then have "follows cache_follows w" using assms(1,2) by (simp add: follows_def cache_follows_def)
    then have "follows cache_follows v"
      using queues.run_inv [OF _ assms(4)] by (simp add: assms(5) queues.run_fold)
    moreover have "restart_loads (env v) = loadCachedMessageQueues (env v)"
      unfolding restart_loads_def using False by (intro load_native_cache) blast
    ultimately show ?thesis by (simp add: follows_def cache_follows_def queues_synced_def)
  qed
  then show ?thesis by (auto simp: reloaded_queue_def queue_of_def or_else_def split: option.splits)
qed

lemma demo_queue_synced:
  "queues_storable (queuedMessageBySession (store demo_world))"
  "queues_synced (env demo_world) (queuedMessageBySession (store demo_world))"
  "native_synced (env demo_world) (queuedMessageBySession (store demo_world))"
proof -
  have "loadCachedMessageQueues (env demo_world) = []" "native_file (env demo_world) = file_of []"
    by (simp_all add: demo_world_def loadCachedMessageQueues_def ls_get_def native_file_def file_of_def)
  then show "queues_synced (env demo_world) (queuedMessageBySession (store demo_world))"
    "native_synced (env demo_world) (queuedMessageBySession (store demo_world))"
    by (auto simp: queues_synced_def reloaded_queue_def native_synced_def loaded_back_def array_of_def
        demo_world_fields intro!: exI [of _ "[]"])
qed (simp add: queues_storable_def demo_world_fields)

theorem restart_restores_queues_witness:
  "hasTauri (env demo_world) \<and> obj_get (restart_loads (env (fold chat_step
      [EnqueueTransportReadyMessage ''r1'' ''a'' (demo_payload ''x''), ClearDraft ''b''] demo_world))) ''a'' =
   Some [record_json (restore_record (ready_record ''r1'' (demo_payload ''x'')))]"
proof -
  let ?es = "[EnqueueTransportReadyMessage ''r1'' ''a'' (demo_payload ''x''), ClearDraft ''b'']"
  let ?v = "fold chat_step ?es demo_world"
  have en: "queues.run_enabled ?es demo_world"
    by (simp add: queue_enabled_def payload_storable_def demo_payload_def
        admitComposerQueuedMessage_def personaIntentFromComposer_def)
  have q: "queue_of (store ?v) ''a'' = [ready_record ''r1'' (demo_payload ''x'')]"
    by (simp add: enqueueTransportReadyMessage_def clearDraft_def clearDraft_set_def Let_def
        queue_of_def put_queue_def demo_world_fields)
  have p: "isSessionPersistable (env ?v) ''a''"
    by (simp add: enqueueTransportReadyMessage_def clearDraft_def isSessionPersistable_def
        persist_queues_def persist_drafts_def persistMessageQueues_def refreshCachedMessageQueues_def
        Let_def demo_world_def ls_set_def ls_remove_def with_store_def)
  have "env_writable (env demo_world)" using demo_world_inv by (simp add: chat_inv_def)
  then have "env_writable (env ?v)" using place_facts [OF place_run] by blast
  then show ?thesis
    using restart_restores_queues [OF demo_queue_synced en refl, of "''a''"] q p
    by (simp add: demo_world_def)
qed

section \<open>Deferred sends and edits\<close>

lemma find_index_snoc:
  "(\<forall>x\<in>set xs. \<not> p x) \<Longrightarrow> p y \<Longrightarrow> find_index p (xs @ [y]) = Some (length xs)"
  by (induction xs) auto

lemma all_before_take:
  "\<forall>j<n. P (xs ! j) \<Longrightarrow> n \<le> length xs \<Longrightarrow> \<forall>x\<in>set (take n xs). P x"
  by (auto simp: in_set_conv_nth)

lemma find_index_none: "(\<forall>x\<in>set xs. \<not> p x) \<Longrightarrow> find_index p xs = None"
  by (induction xs) auto

text \<open>
  A session has room for one deferred first send. Into a queue without one, the send is put
  last; a second one is refused and changes nothing; releasing it makes it ready to send in place,
  with the same id and payload and marked as released; it cannot be released twice.
\<close>

theorem deferred_send_lifecycle:
  assumes "\<not> list_ex is_deferred (queue_of (store w) k)"
    and "enqueueDeferredMessage i k p st w = (res, w1)"
    and "releaseDeferredMessage k i w1 = (released, w2)"
  shows "res = Some (deferred_record i p st) \<and>
    queue_of (store w1) k = queue_of (store w) k @ [deferred_record i p st] \<and>
    enqueueDeferredMessage j k p' st' w1 = (None, w1) \<and>
    released \<and>
    queue_of (store w2) k =
      queue_of (store w) k @ [(ready_record i p)\<lparr>qr_kind := TransportReady True\<rparr>] \<and>
    releaseDeferredMessage k i w2 = (False, w2)"
proof -
  let ?q = "queue_of (store w) k"
  have q: "\<forall>x\<in>set ?q. \<not> deferred_with_id i x" and nd: "\<forall>x\<in>set ?q. \<not> is_deferred x"
    using assms(1) by (auto simp: list_ex_iff deferred_with_id_def)
  have w1: "res = Some (deferred_record i p st)"
      "w1 = persist_queues [k] (with_store (put_queue k (?q @ [deferred_record i p st])) w)"
    using assms(1,2) by (auto simp: enqueueDeferredMessage_def Let_def)
  have q1: "queue_of (store w1) k = ?q @ [deferred_record i p st]" by (simp add: w1)
  have d: "deferred_with_id i (deferred_record i p st)" "is_deferred (deferred_record i p st)"
    by (simp_all add: deferred_with_id_def is_deferred_def deferred_record_def)
  have w2: "released" "queue_of (store w2) k =
      ?q @ [(ready_record i p)\<lparr>qr_kind := TransportReady True\<rparr>]"
    using assms(3) find_index_snoc [of ?q "deferred_with_id i", OF q d(1)]
    by (auto simp: releaseDeferredMessage_def q1 Let_def deferred_record_def ready_record_def)
  have "\<forall>x\<in>set (queue_of (store w2) k). \<not> deferred_with_id i x"
    using q by (simp add: w2(2) deferred_with_id_def is_deferred_def ready_record_def)
  then have "releaseDeferredMessage k i w2 = (False, w2)"
    by (simp add: releaseDeferredMessage_def Let_def find_index_none)
  moreover have "enqueueDeferredMessage j k p' st' w1 = (None, w1)"
    using d(2) by (simp add: enqueueDeferredMessage_def q1 Let_def)
  ultimately show ?thesis using w1(1) w2 q1 by simp
qed

theorem deferred_send_lifecycle_witness:
  "\<exists>w1 w2. enqueueDeferredMessage ''d'' ''a'' (demo_payload ''x'') (JObj []) queue_world =
       (Some (deferred_record ''d'' (demo_payload ''x'') (JObj [])), w1) \<and>
     releaseDeferredMessage ''a'' ''d'' w1 = (True, w2) \<and>
     map qr_recordId (queue_of (store w2) ''a'') = [''r1'', ''r2'', ''d'']"
proof -
  have "\<not> list_ex is_deferred (queue_of (store queue_world) ''a'')"
    by (simp add: queue_world_queues ready_record_def is_deferred_def)
  note spec = deferred_send_lifecycle [OF this prod.collapse [symmetric] prod.collapse [symmetric],
      of "''d''" "demo_payload ''x''" "JObj []"]
  let ?e = "enqueueDeferredMessage ''d'' ''a'' (demo_payload ''x'') (JObj []) queue_world"
  have "?e = (Some (deferred_record ''d'' (demo_payload ''x'') (JObj [])), snd ?e)"
    using spec by (simp add: prod_eq_iff)
  moreover have "releaseDeferredMessage ''a'' ''d'' (snd ?e) =
      (True, snd (releaseDeferredMessage ''a'' ''d'' (snd ?e)))"
    using spec by (simp add: prod_eq_iff)
  moreover have "map qr_recordId (queue_of (store (snd (releaseDeferredMessage ''a'' ''d'' (snd ?e)))) ''a'') =
      [''r1'', ''r2'', ''d'']"
    using spec by (simp add: queue_world_queues ready_record_def)
  ultimately show ?thesis by (intro exI conjI)
qed

text \<open>
  Editing a queued message replaces the payload of the first record with that id and ends its
  editing, keeps its id, its place and every other record; a deferred send stays deferred unless
  it was held or had failed, in which case the edit makes it ready to send. With no such record
  the edit is refused and nothing changes.
\<close>

theorem updateQueuedMessage_spec:
  assumes "updateQueuedMessage k i p w = (done, w')"
  shows "(\<not> done \<longrightarrow> w' = w \<and> i \<notin> set (map qr_recordId (queue_of (store w) k))) \<and>
    (done \<longrightarrow> (\<exists>n < length (queue_of (store w) k). \<exists>r.
       let r0 = queue_of (store w) k ! n in
       qr_recordId r0 = i \<and> i \<notin> set (map qr_recordId (take n (queue_of (store w) k))) \<and>
       queue_of (store w') k = (queue_of (store w) k)[n := r] \<and>
       qr_recordId r = i \<and> qr_payload r = p \<and> \<not> qr_editing r \<and>
       (is_deferred r \<longleftrightarrow> is_deferred r0 \<and>
          deferred_status r0 \<noteq> Some (JStr ''held'') \<and> deferred_status r0 \<noteq> Some (JStr ''failed''))))"
proof (cases "find_index (\<lambda>r. qr_recordId r = i) (queue_of (store w) k)")
  case None
  then have "done = False \<and> w' = w"
    using assms by (auto simp: updateQueuedMessage_def Let_def)
  moreover from None have "i \<notin> qr_recordId ` set (queue_of (store w) k)"
    by (auto simp: find_index_None)
  ultimately show ?thesis by simp
next
  case (Some n)
  then have n: "n < length (queue_of (store w) k)" "qr_recordId (queue_of (store w) k ! n) = i"
      "\<forall>j<n. qr_recordId (queue_of (store w) k ! j) \<noteq> i"
    by (simp_all add: find_index_Some)
  then have first: "i \<notin> set (map qr_recordId (take n (queue_of (store w) k)))"
    using all_before_take [of n "\<lambda>r. qr_recordId r \<noteq> i" "queue_of (store w) k"] by auto
  obtain r where r: "updated_record i p (queue_of (store w) k ! n) = Some r"
    by (cases "updated_record i p (queue_of (store w) k ! n)")
      (auto simp: updated_record_def isAdmittedQueuedMessagePayload_def Let_def split: if_splits)
  then have "done \<and> w' = write_record k (queue_of (store w) k) n r w"
    using assms Some by (simp add: updateQueuedMessage_def Let_def)
  moreover have "qr_recordId r = i \<and> qr_payload r = p \<and> \<not> qr_editing r \<and>
      (is_deferred r \<longleftrightarrow> is_deferred (queue_of (store w) k ! n) \<and>
          deferred_status (queue_of (store w) k ! n) \<noteq> Some (JStr ''held'') \<and>
          deferred_status (queue_of (store w) k ! n) \<noteq> Some (JStr ''failed''))"
    using r n(2)
    by (auto simp: updated_record_def is_deferred_def deferred_status_def
        isAdmittedQueuedMessagePayload_def Let_def split: if_splits queued_kind.splits)
  ultimately show ?thesis using n(1,2) first by (auto simp: Let_def)
qed

theorem updateQueuedMessage_spec_witness:
  "\<exists>w'. updateQueuedMessage ''a'' ''r2'' (demo_payload ''new'') queue_world = (True, w') \<and>
     length (queue_of (store w') ''a'') = 2"
proof -
  note spec = updateQueuedMessage_spec [OF prod.collapse [symmetric],
      of "''a''" "''r2''" "demo_payload ''new''" queue_world]
  let ?u = "updateQueuedMessage ''a'' ''r2'' (demo_payload ''new'') queue_world"
  have "fst ?u" using spec by (auto simp: queue_world_queues ready_record_def)
  moreover from this spec obtain n r where
    "queue_of (store (snd ?u)) ''a'' = (queue_of (store queue_world) ''a'')[n := r]"
    by (auto simp: Let_def)
  then have "length (queue_of (store (snd ?u)) ''a'') = length (queue_of (store queue_world) ''a'')"
    by (simp only: length_list_update)
  ultimately show ?thesis
    by (intro exI [of _ "snd ?u"]) (simp add: prod_eq_iff queue_world_queues)
qed

section \<open>Promotion and cleanup\<close>

text \<open>
  When a draft session gets its backend id, everything the store keeps under the draft id
  moves to the new id and nothing is left under the old one; what the new id already had is kept
  only where the draft had nothing, except that its queue comes first and the draft's messages
  are queued after it. Other sessions are untouched, and the active session and the recent
  sessions follow.
\<close>

theorem promoteSessionId_spec:
  fixes w a b
  defines "s \<equiv> store w" and "s' \<equiv> store (promoteSessionId a b w)"
  assumes "a \<noteq> b"
  shows "(\<forall>k. obj_get (messagesBySession s') k =
        (if k = a then None else if k = b then or_option (obj_get (messagesBySession s) a)
           (obj_get (messagesBySession s) b) else obj_get (messagesBySession s) k)) \<and>
    (\<forall>k. obj_get (sessionStateById s') k =
        (if k = a then None else if k = b then or_option (obj_get (sessionStateById s) a)
           (obj_get (sessionStateById s) b) else obj_get (sessionStateById s) k)) \<and>
    (\<forall>k. queue_of s' k =
        (if k = a then [] else if k = b then queue_of s b @ queue_of s a else queue_of s k)) \<and>
    (\<forall>k. obj_get (draftsBySession s') k =
        (if k = a then None else if k = b then or_option (obj_get (draftsBySession s) a)
           (obj_get (draftsBySession s) b) else obj_get (draftsBySession s) k)) \<and>
    activeSessionId s' = (if activeSessionId s = Some a then Some b else activeSessionId s) \<and>
    a \<notin> set (recentMessageSessionIds s') \<and>
    a \<notin> loadingSessionIds s' \<and> (b \<in> loadingSessionIds s' \<longleftrightarrow> a \<in> loadingSessionIds s \<or> b \<in> loadingSessionIds s)"
proof -
  have s': "s' = promoteSessionId_set a b s" by (simp add: s_def s'_def promoteSessionId_def)
  have q: "queue_of s' k =
      (if k = a then [] else if k = b then queue_of s b @ queue_of s a else queue_of s k)" for k
    using assms(3)
    by (cases "obj_get (queuedMessageBySession s) a")
      (auto simp: s' queue_of_def promote_queues)
  have r: "a \<notin> set (recentMessageSessionIds s')"
    using assms(3)
      set_take_subset [of MESSAGE_SESSION_CACHE_LIMIT
        "dedup (map (\<lambda>i. if i = a then b else i) (recentMessageSessionIds s))"]
    by (auto simp: s' promoteSessionId_set_def Let_def replaceRecentMessageSessionId_def)
  show ?thesis using assms(3) q r
    by (auto simp: s' promoteSessionId_set_def Let_def or_option_def split: option.splits)
qed

theorem promoteSessionId_spec_witness:
  "map qr_recordId (queue_of (store (promoteSessionId ''a'' ''b'' queue_world)) ''b'') =
     [''r3'', ''r1'', ''r2''] \<and>
   queue_of (store (promoteSessionId ''a'' ''b'' queue_world)) ''a'' = []"
  using promoteSessionId_spec [of "''a''" "''b''" queue_world]
  by (simp add: queue_world_queues ready_record_def)

text \<open>
  Promotion keeps the index of sessions with a non-empty draft exact in every case but one, and
  in that case it breaks it: the draft session holds an empty draft and the new id is listed with a
  draft of its own, whose text the empty draft replaces while the id stays listed.
\<close>

theorem promote_draft_index_iff:
  assumes "draft_index_ok (draftsBySession s) (nonEmptyDraftSessionIds s)" and "a \<noteq> b"
  shows "draft_index_ok (draftsBySession (promoteSessionId_set a b s))
      (nonEmptyDraftSessionIds (promoteSessionId_set a b s)) \<longleftrightarrow>
    \<not> (obj_get (draftsBySession s) a = Some [] \<and> b \<in> nonEmptyDraftSessionIds s)"
proof (cases "promote_drafts_ok a b s")
  case True
  then show ?thesis using promote_draft_index [OF assms(1) True] by (auto simp: promote_drafts_ok_def)
next
  case False
  then have ab: "obj_get (draftsBySession s) a = Some []" "b \<in> nonEmptyDraftSessionIds s"
    by (simp_all add: promote_drafts_ok_def)
  have "b \<in> nonEmptyDraftSessionIds (promoteSessionId_set a b s)"
    "obj_get (draftsBySession (promoteSessionId_set a b s)) b = Some []"
    using ab assms(2) by (simp_all add: promoteSessionId_set_def Let_def)
  then show ?thesis using ab by (auto simp: draft_index_ok_def)
qed

definition stale_store :: chat_store where
  \<comment> \<open>a draft session ''a'' whose draft was typed and erased; ''b'' has a draft\<close>
  "stale_store = setDraft_set ''a'' [] (setDraft_set ''b'' ''text'' (initialChatStore [] [] []))"

lemma stale_store_index:
  "draft_index_ok (draftsBySession stale_store) (nonEmptyDraftSessionIds stale_store)"
  "obj_get (draftsBySession stale_store) ''a'' = Some []" "''b'' \<in> nonEmptyDraftSessionIds stale_store"
  by (auto simp: stale_store_def setDraft_set_def initialChatStore_def draft_index_ok_def
      buildNonEmptyDraftSessionIds_def Let_def)

theorem promote_draft_index_iff_witness:
  "\<not> draft_index_ok (draftsBySession (promoteSessionId_set ''a'' ''b'' stale_store))
      (nonEmptyDraftSessionIds (promoteSessionId_set ''a'' ''b'' stale_store))"
  using promote_draft_index_iff [OF stale_store_index(1), of "''a''" "''b''"] stale_store_index
  by simp

text \<open>
  Cleaning up a session leaves nothing of it in the store but its loading mark: no messages,
  run, queue, drafts or replay buffer, and it is neither recent nor active; every other session
  keeps everything.
\<close>

theorem cleanupSession_spec:
  fixes w k
  defines "s \<equiv> store w" and "s' \<equiv> store (cleanupSession k w)"
  shows "messagesBySession s' = obj_del k (messagesBySession s) \<and>
    runtime_of s' k = createInitialSessionRuntime \<and> queue_of s' k = [] \<and>
    obj_get (draftsBySession s') k = None \<and> k \<notin> nonEmptyDraftSessionIds s' \<and>
    obj_get (replayBuffers (cleanupSession k w)) k = None \<and>
    activeSessionId s' \<noteq> Some k \<and> k \<notin> set (recentMessageSessionIds s') \<and>
    loadingSessionIds s' = loadingSessionIds s \<and>
    (\<forall>j. j = k \<or> (runtime_of s' j = runtime_of s j \<and> queue_of s' j = queue_of s j \<and>
       obj_get (draftsBySession s') j = obj_get (draftsBySession s) j \<and>
       (j \<in> nonEmptyDraftSessionIds s' \<longleftrightarrow> j \<in> nonEmptyDraftSessionIds s) \<and>
       obj_get (replayBuffers (cleanupSession k w)) j = obj_get (replayBuffers w) j))"
proof -
  have s': "s' = cleanupSession_set k s" by (simp add: s_def s'_def cleanupSession_def)
  have b: "obj_get (replayBuffers (cleanupSession k w)) j =
      (if j = k then None else obj_get (replayBuffers w) j)" for j
    by (simp add: cleanupSession_def clearReplayBuffer_def)
  show ?thesis
    by (auto simp: s' b cleanupSession_set_def runtime_of_def queue_of_def
        removeRecentMessageSessionId_def)
qed

end
