(* ===== verification/QueueLoading.thy ===== *)
theory QueueLoading
  imports QueueReload
begin

text \<open>
  Loading queues from a storage that may hold anything (\<open>stores/queuePersistence.ts\<close>): old
  formats, a crash's leftovers, values no version ever wrote. Whatever is there, the records the
  loader lets through are in their restored form, and loading them again changes nothing.
\<close>

section \<open>Objects\<close>

lemma obj_set_new: "obj_get m k = None \<Longrightarrow> obj_set k v m = m @ [(k, v)]"
  by (induction m) (auto split: if_splits)

lemma obj_del_absent: "obj_get m k = None \<Longrightarrow> obj_del k m = m"
  by (induction m) (auto split: if_splits)

lemma obj_del_set_same [simp]: "obj_del k (obj_set k v m) = obj_del k m"
  by (induction m) auto

lemma obj_get_omit [simp]:
  "obj_get (obj_omit ks m) k = (if k \<in> set ks then None else obj_get m k)"
  by (induction ks arbitrary: m) auto

lemma obj_omit_absent: "(\<And>k. k \<in> set ks \<Longrightarrow> obj_get m k = None) \<Longrightarrow> obj_omit ks m = m"
  by (induction ks arbitrary: m) (simp_all add: obj_del_absent)

lemma obj_omit_append: "obj_omit ks (xs @ ys) = obj_omit ks xs @ obj_omit ks ys"
  by (induction ks arbitrary: xs ys) simp_all

section \<open>Restored payloads\<close>

definition payload_legacy_keys :: "string list" where
  "payload_legacy_keys = [''providerId'', ''modelId'', ''executionTarget'', ''persona'',
     ''personaId'', ''personaName'']"

definition persona_named :: "persona_intent \<Rightarrow> bool" where
  "persona_named p \<longleftrightarrow> (case p of PersonaIntent i n \<Rightarrow> i \<noteq> [] | _ \<Rightarrow> True)"

definition restored_payload :: "persona_intent \<Rightarrow> json \<Rightarrow> bool" where
  \<comment> \<open>a visible payload without legacy fields, with the persona intent last\<close>
  "restored_payload p j \<longleftrightarrow>
    (\<exists>rest. j = JObj (rest @ [(''persona'', persona_json p)]) \<and>
       (\<forall>k\<in>set payload_legacy_keys. obj_get rest k = None) \<and>
       obj_get rest ''showInComposer'' \<noteq> Some (JBool False))"

lemma restored_payload_normalized:
  assumes "restored_payload p j" "persona_named p"
  shows "normalizeQueuedPayload j = Inr j"
proof -
  from assms(1) obtain rest where j: "j = JObj (rest @ [(''persona'', persona_json p)])"
    and abs: "\<And>k. k \<in> set payload_legacy_keys \<Longrightarrow> obj_get rest k = None"
    by (auto simp: restored_payload_def)
  have "obj_omit payload_legacy_keys (rest @ [(''persona'', persona_json p)]) = rest"
    using obj_omit_absent [of payload_legacy_keys rest, OF abs]
    by (simp add: obj_omit_append) (simp add: payload_legacy_keys_def)
  moreover have "obj_get rest ''persona'' = None" by (rule abs) (simp add: payload_legacy_keys_def)
  moreover have "restore_persona (Some (persona_json p)) x y = Inr (persona_json p)" for x y
    using assms(2) by (intro restore_persona_json) (simp add: persona_named_def)
  ultimately show ?thesis
    by (simp add: normalizeQueuedPayload_def j payload_legacy_keys_def obj_get_append obj_set_new Let_def)
qed

lemma restore_persona_form:
  assumes "restore_persona raw i n = Inr pj"
  shows "pj \<in> persona_json ` {p. persona_named p \<or> (raw = None \<and> i = Some (JStr []))}"
proof (cases raw)
  case (Some r)
  with assms show ?thesis
    by (auto simp: restore_persona_def persona_named_def Let_def simp del: persona_json.simps
        split: if_splits option.splits intro!: imageI)
next
  case None
  with assms show ?thesis
    by (auto simp: restore_persona_def personaIntentFromComposer_def persona_named_def
        simp del: persona_json.simps split: option.splits json.splits intro!: imageI)
qed

lemma normalizeQueuedPayload_form:
  assumes "normalizeQueuedPayload j = Inr n"
  shows "\<exists>p rest. n = JObj (rest @ [(''persona'', persona_json p)]) \<and>
    (\<forall>k\<in>set payload_legacy_keys. obj_get rest k = None) \<and>
    (\<forall>k. k \<notin> set payload_legacy_keys \<longrightarrow> obj_get rest k = obj_get (obj_fields j) k) \<and>
    (persona_named p \<or> (obj_get (obj_fields j) ''persona'' = None \<and>
       obj_get (obj_fields j) ''personaId'' = Some (JStr [])))"
proof -
  let ?rest = "obj_omit payload_legacy_keys (obj_fields j)"
  from assms obtain pj where pj: "restore_persona (obj_get (obj_fields j) ''persona'')
      (obj_get (obj_fields j) ''personaId'') (obj_get (obj_fields j) ''personaName'') = Inr pj"
    and n: "n = JObj (obj_set ''persona'' pj ?rest)"
    by (auto simp: normalizeQueuedPayload_def payload_legacy_keys_def Let_def
        split: if_splits sum.splits)
  have "obj_get ?rest ''persona'' = None" by (simp add: payload_legacy_keys_def)
  with n have "n = JObj (?rest @ [(''persona'', pj)])" by (simp add: obj_set_new)
  moreover obtain p where "pj = persona_json p" "persona_named p \<or>
      (obj_get (obj_fields j) ''persona'' = None \<and> obj_get (obj_fields j) ''personaId'' = Some (JStr []))"
    using restore_persona_form [OF pj] by auto
  ultimately show ?thesis by (intro exI [of _ p] exI [of _ ?rest]) simp
qed

section \<open>Restored records\<close>

definition restored_form :: "persona_intent \<Rightarrow> json \<Rightarrow> bool" where
  \<comment> \<open>what the loader lets through: visible, restored, not being edited, no interrupted creation\<close>
  "restored_form p n \<longleftrightarrow>
    (\<exists>base rp. n = JObj (base @ [(''restored'', JBool True)]) \<and>
       obj_get base ''restored'' = None \<and> obj_get base ''editing'' = None \<and>
       obj_get base ''payload'' = Some rp \<and> restored_payload p rp \<and>
       (obj_get base ''kind'' = Some (JStr ''deferred'') \<longrightarrow>
          field_of (obj_get base ''state'') ''type'' = Some (JStr ''workspace-first-send'') \<and>
          field_of (obj_get base ''state'') ''status'' \<noteq> Some (JStr ''creating'')))"

definition restored_json :: "json \<Rightarrow> json" where
  "restored_json n =
    (if json_field n ''showInComposer'' = Some (JBool False)
     then JObj (obj_set ''showInComposer'' (JBool True) (obj_fields n)) else n)"

lemma restored_json_id [simp]:
  "restored_payload p rp \<Longrightarrow> restored_json rp = rp"
  by (auto simp: restored_payload_def restored_json_def obj_get_append split: option.splits)

lemma restored_json_form:
  assumes "normalizeQueuedPayload j = Inr n"
  shows "\<exists>p. restored_payload p (restored_json n) \<and>
    json_field (restored_json n) ''text'' = json_field j ''text'' \<and>
    (persona_named p \<or> (json_field j ''persona'' = None \<and> json_field j ''personaId'' = Some (JStr [])))"
proof -
  obtain p rest where n: "n = JObj (rest @ [(''persona'', persona_json p)])"
    and abs: "\<forall>k\<in>set payload_legacy_keys. obj_get rest k = None"
    and keep: "\<forall>k. k \<notin> set payload_legacy_keys \<longrightarrow> obj_get rest k = obj_get (obj_fields j) k"
    and named: "persona_named p \<or> (obj_get (obj_fields j) ''persona'' = None \<and>
       obj_get (obj_fields j) ''personaId'' = Some (JStr []))"
    using normalizeQueuedPayload_form [OF assms] by blast
  have fields: "obj_get (obj_fields j) k = json_field j k" for k
    by (cases j) (simp_all add: obj_fields_def)
  let ?rest = "if obj_get rest ''showInComposer'' = Some (JBool False)
    then obj_set ''showInComposer'' (JBool True) rest else rest"
  have set_append: "obj_get xs k \<noteq> None \<Longrightarrow> obj_set k v (xs @ ys) = obj_set k v xs @ ys"
    for xs ys :: "(string \<times> json) list" and k v
    by (induction xs) (auto split: if_splits)
  have form: "restored_json n = JObj (?rest @ [(''persona'', persona_json p)])"
    using set_append [of rest "''showInComposer''"]
    by (auto simp: restored_json_def n obj_get_append split: option.splits)
  have "\<forall>k\<in>set payload_legacy_keys. obj_get ?rest k = None"
    using abs by (simp add: payload_legacy_keys_def)
  moreover have "obj_get ?rest ''showInComposer'' \<noteq> Some (JBool False)" by simp
  ultimately have "restored_payload p (restored_json n)" unfolding restored_payload_def form by blast
  moreover have "obj_get ?rest ''text'' = obj_get (obj_fields j) ''text''"
    using keep by (simp add: payload_legacy_keys_def)
  then have "json_field (restored_json n) ''text'' = json_field j ''text''"
    by (simp add: form obj_get_append fields split: option.split)
  ultimately show ?thesis using named fields by auto
qed

lemma normalizeQueuedRecord_restored:
  "normalizeQueuedRecord r =
    (let persisted = obj_omit [''editing'', ''restored''] (obj_fields r) in
     case normalizeQueuedPayload (case obj_get persisted ''payload'' of Some p \<Rightarrow> p | None \<Rightarrow> JNull) of
       Inl err \<Rightarrow> Inl err
     | Inr np \<Rightarrow>
         let base = obj_set ''payload'' (restored_json np) persisted;
             state = obj_get persisted ''state'' in
         if obj_get persisted ''kind'' \<noteq> Some (JStr ''deferred'') then
           Inr (JObj (obj_set ''restored'' (JBool True) base))
         else if field_of state ''type'' \<noteq> Some (JStr ''workspace-first-send'') then Inr (JObj persisted)
         else if field_of state ''status'' = Some (JStr ''creating'') then
             Inr (JObj (obj_set ''restored'' (JBool True)
               (obj_set ''state'' (JObj (obj_set ''error'' (JStr interrupted_error)
                  (obj_set ''status'' (JStr ''held'')
                    (obj_fields (case state of Some s \<Rightarrow> s | None \<Rightarrow> JNull))))) base)))
         else Inr (JObj (obj_set ''restored'' (JBool True) base)))"
  unfolding normalizeQueuedRecord_def restored_json_def Let_def by (rule refl)

lemma restored_form_fixed:
  assumes "restored_form p n" "persona_named p"
  shows "normalizeQueuedRecord n = Inr n"
proof -
  obtain base rp where n: "n = JObj (base @ [(''restored'', JBool True)])"
    and no: "obj_get base ''restored'' = None" "obj_get base ''editing'' = None"
    and rp: "obj_get base ''payload'' = Some rp" "restored_payload p rp"
    and st: "obj_get base ''kind'' = Some (JStr ''deferred'') \<longrightarrow>
       field_of (obj_get base ''state'') ''type'' = Some (JStr ''workspace-first-send'') \<and>
       field_of (obj_get base ''state'') ''status'' \<noteq> Some (JStr ''creating'')"
    using assms(1) by (auto simp: restored_form_def)
  have base: "obj_omit [''editing'', ''restored''] (base @ [(''restored'', JBool True)]) = base"
    using no by (simp add: obj_del_absent)
  show ?thesis
    using rp st no restored_payload_normalized [OF rp(2) assms(2)]
    by (auto simp: normalizeQueuedRecord_restored n base Let_def obj_set_same obj_set_new
        simp del: obj_omit.simps)
qed

lemma normalizeQueuedRecord_form:
  assumes acc: "isQueuedRecord r" and norm: "normalizeQueuedRecord r = Inr n"
  shows "\<exists>p. restored_form p n \<and> isQueuedRecord n \<and>
    json_field n ''recordId'' = json_field r ''recordId'' \<and>
    json_field n ''kind'' = json_field r ''kind'' \<and>
    (persona_named p \<or> field_of (json_field r ''payload'') ''personaId'' = Some (JStr []))"
proof -
  from acc obtain fs where r: "r = JObj fs"
    by (cases r) (auto simp: isQueuedRecord_def is_jobject_def)
  let ?per = "obj_omit [''editing'', ''restored''] fs"
  have acc': "is_jobject (obj_get fs ''payload'')"
    "\<exists>t. field_of (obj_get fs ''payload'') ''text'' = Some (JStr t)"
    "obj_get fs ''kind'' = Some (JStr ''deferred'') \<longrightarrow>
       field_of (obj_get fs ''state'') ''type'' = Some (JStr ''workspace-first-send'')"
    using acc by (auto simp: r isQueuedRecord_def Let_def split: if_splits option.splits json.splits)
  then obtain j where j: "obj_get fs ''payload'' = Some j"
    by (auto simp: is_jobject_def split: option.splits)
  from norm obtain np where np: "normalizeQueuedPayload j = Inr np"
    by (cases "normalizeQueuedPayload j")
      (auto simp: normalizeQueuedRecord_restored r j Let_def simp del: obj_omit.simps)
  obtain p where p: "restored_payload p (restored_json np)"
      "json_field (restored_json np) ''text'' = json_field j ''text''"
      "persona_named p \<or> json_field j ''personaId'' = Some (JStr [])"
    using restored_json_form [OF np] by blast
  let ?base = "obj_set ''payload'' (restored_json np) ?per"
  let ?state = "case obj_get fs ''state'' of Some s \<Rightarrow> s | None \<Rightarrow> JNull"
  let ?held = "JObj (obj_set ''error'' (JStr interrupted_error)
      (obj_set ''status'' (JStr ''held'') (obj_fields ?state)))"
  let ?base' = "if obj_get fs ''kind'' = Some (JStr ''deferred'') \<and>
      field_of (obj_get fs ''state'') ''status'' = Some (JStr ''creating'')
    then obj_set ''state'' ?held ?base else ?base"
  have get: "obj_get ?base' ''restored'' = None" "obj_get ?base' ''editing'' = None"
    "obj_get ?base' ''payload'' = Some (restored_json np)"
    "obj_get ?base' ''kind'' = obj_get fs ''kind''"
    "obj_get ?base' ''recordId'' = obj_get fs ''recordId''"
    by (simp_all del: obj_omit.simps)
  have n: "n = JObj (?base' @ [(''restored'', JBool True)])"
    using norm np acc' get(1)
    by (auto simp: normalizeQueuedRecord_restored r j Let_def obj_set_new simp del: obj_omit.simps
        split: if_splits)
  have st: "obj_get ?base' ''kind'' = Some (JStr ''deferred'') \<longrightarrow>
       field_of (obj_get ?base' ''state'') ''type'' = Some (JStr ''workspace-first-send'') \<and>
       field_of (obj_get ?base' ''state'') ''status'' \<noteq> Some (JStr ''creating'')"
    using acc' by (auto simp: field_of_def json_field_def simp del: obj_omit.simps
        split: option.splits json.splits)
  have form: "restored_form p n"
    unfolding restored_form_def n using get st p(1) by blast
  have nget: "json_field n k = (if k = ''restored'' then Some (JBool True) else obj_get ?base' k)" for k
    using get(1) by (simp add: n obj_get_append split: option.split)
  have rp: "is_jobject (Some (restored_json np))" using p(1) by (auto simp: restored_payload_def is_jobject_def)
  have "obj_get ?base' ''kind'' = Some (JStr ''deferred'') \<longrightarrow> is_jobject (obj_get ?base' ''state'') \<and>
       (case status_name (field_of (obj_get ?base' ''state'') ''status'') of
          Some s \<Rightarrow> s \<in> set deferred_statuses | None \<Rightarrow> False)"
    using acc
    by (auto simp: isQueuedRecord_def r Let_def field_of_def is_jobject_def deferred_statuses_def
        simp del: obj_omit.simps split: if_splits)
  moreover have "is_jobject (Some n)" by (simp add: n is_jobject_def)
  moreover have "(obj_get fs ''kind'' = Some (JStr ''transport-ready'') \<or>
      obj_get fs ''kind'' = Some (JStr ''deferred'')) \<and>
      (case obj_get fs ''recordId'' of Some (JStr s) \<Rightarrow> s \<noteq> [] | _ \<Rightarrow> False)"
    using acc by (auto simp: isQueuedRecord_def r Let_def split: if_splits)
  moreover have "field_of (Some (restored_json np)) ''text'' = field_of (Some j) ''text''"
    using p(2) by (simp add: field_of_def)
  ultimately have "isQueuedRecord n"
    unfolding isQueuedRecord_def using st acc'(2) rp
    by (auto simp: nget get j Let_def simp del: obj_omit.simps)
  then show ?thesis using form p(3) by (auto simp: nget get r j field_of_def simp del: obj_omit.simps)
qed

section \<open>The properties\<close>

lemma normalized_records_mem:
  assumes "n \<in> set (normalized_records vs)"
  obtains r where "r \<in> set vs" "isQueuedRecord r" "normalizeQueuedRecord r = Inr n"
  using assms by (auto simp: normalized_records_def split: sum.splits)

lemma parse_entries_records:
  "obj_get (parse_queue_entries es) k = Some ns \<Longrightarrow>
   \<exists>vs. (k, JArr vs) \<in> set es \<and> ns = normalized_records vs \<and> ns \<noteq> []"
proof (induction es)
  case (Cons e es)
  obtain j x where e: "e = (j, x)" by (cases e)
  show ?case
  proof (cases x)
    case (JArr vs)
    then show ?thesis using Cons by (auto simp: e Let_def split: if_splits)
  qed (use Cons in \<open>auto simp: e\<close>)
qed simp

lemma unnamed_persona: "\<not> persona_named p \<Longrightarrow> json_field (persona_json p) ''id'' = Some (JStr [])"
  by (cases p) (simp_all add: persona_named_def)

lemma loaded_record:
  assumes "isQueuedRecord r" "normalizeQueuedRecord r = Inr n"
  shows "json_field n ''restored'' = Some (JBool True) \<and> json_field n ''editing'' = None \<and>
     field_of (json_field n ''payload'') ''showInComposer'' \<noteq> Some (JBool False) \<and>
     \<not> (json_field n ''kind'' = Some (JStr ''deferred'') \<and>
        field_of (json_field n ''state'') ''status'' = Some (JStr ''creating''))"
    and "isQueuedRecord n"
    and "normalizeQueuedRecord n = Inr n \<or>
      field_of (field_of (json_field n ''payload'') ''persona'') ''id'' = Some (JStr [])"
proof -
  obtain p where acc: "isQueuedRecord n" and form: "restored_form p n"
    using normalizeQueuedRecord_form [OF assms] by blast
  then obtain base rp where n: "n = JObj (base @ [(''restored'', JBool True)])"
    "obj_get base ''restored'' = None" "obj_get base ''editing'' = None"
    "obj_get base ''payload'' = Some rp" "restored_payload p rp"
    "obj_get base ''kind'' = Some (JStr ''deferred'') \<longrightarrow>
        field_of (obj_get base ''state'') ''status'' \<noteq> Some (JStr ''creating'')"
    by (auto simp: restored_form_def)
  show "isQueuedRecord n" by (rule acc)
  show "json_field n ''restored'' = Some (JBool True) \<and> json_field n ''editing'' = None \<and>
     field_of (json_field n ''payload'') ''showInComposer'' \<noteq> Some (JBool False) \<and>
     \<not> (json_field n ''kind'' = Some (JStr ''deferred'') \<and>
        field_of (json_field n ''state'') ''status'' = Some (JStr ''creating''))"
    using n by (auto simp: obj_get_append restored_payload_def field_of_def split: option.splits)
  show "normalizeQueuedRecord n = Inr n \<or>
      field_of (field_of (json_field n ''payload'') ''persona'') ''id'' = Some (JStr [])"
  proof (cases "persona_named p")
    case True
    then show ?thesis using restored_form_fixed [OF form] by blast
  next
    case False
    obtain rest where "rp = JObj (rest @ [(''persona'', persona_json p)])" "obj_get rest ''persona'' = None"
      using n(5) by (auto simp: restored_payload_def payload_legacy_keys_def)
    then have "field_of (Some rp) ''persona'' = Some (persona_json p)"
      by (simp add: field_of_def obj_get_append)
    moreover have "json_field n ''payload'' = Some rp" using n(1,4) by (simp add: obj_get_append)
    ultimately show ?thesis using unnamed_persona [OF False] by (simp add: field_of_def)
  qed
qed

text \<open>
  C13. Whatever JSON value the storage holds, the queues the loader returns are not empty, and each
  record in them has the shape \<open>isQueuedRecord\<close> demands, is marked as restored, not being
  edited, not hidden from the composer and not in the middle of a workspace creation; and it is a fixed
  point: stored again as it is, the next start restores it to the same record. The one exception is a
  persona with an empty id, which old formats can give: such a record may be refused at the next start
  (\<open>empty_legacy_persona_is_lost\<close>).
\<close>

theorem loaded_queues_are_restored:
  assumes "obj_get (parseMessageQueues v) k = Some ns"
  shows "ns \<noteq> [] \<and>
    (\<forall>n\<in>set ns. isQueuedRecord n \<and>
       json_field n ''restored'' = Some (JBool True) \<and> json_field n ''editing'' = None \<and>
       field_of (json_field n ''payload'') ''showInComposer'' \<noteq> Some (JBool False) \<and>
       \<not> (json_field n ''kind'' = Some (JStr ''deferred'') \<and>
          field_of (json_field n ''state'') ''status'' = Some (JStr ''creating'')) \<and>
       (normalizeQueuedRecord n = Inr n \<or>
          field_of (field_of (json_field n ''payload'') ''persona'') ''id'' = Some (JStr [])))"
proof -
  obtain es where "v = JObj es" "obj_get (parse_queue_entries es) k = Some ns"
    using assms by (cases v) (simp_all add: parseMessageQueues_def)
  then obtain vs where ns: "ns = normalized_records vs" "ns \<noteq> []"
    using parse_entries_records by blast
  then show ?thesis using loaded_record by (metis normalized_records_mem)
qed

definition stored_send :: json where
  \<comment> \<open>a send whose workspace was being created when the application stopped\<close>
  "stored_send = JObj [(''kind'', JStr ''deferred''), (''recordId'', JStr ''r''),
     (''payload'', JObj [(''text'', JStr ''hi''), (''showInComposer'', JBool False)]),
     (''state'', JObj [(''type'', JStr ''workspace-first-send''), (''status'', JStr ''creating'')]),
     (''editing'', JBool True)]"

lemma stored_send_loaded:
  "isQueuedRecord stored_send"
  "normalizeQueuedRecord stored_send = Inr (JObj [(''kind'', JStr ''deferred''),
     (''recordId'', JStr ''r''),
     (''payload'', JObj [(''text'', JStr ''hi''), (''showInComposer'', JBool True),
        (''persona'', JObj [(''kind'', JStr ''inherit'')])]),
     (''state'', JObj [(''type'', JStr ''workspace-first-send''), (''status'', JStr ''held''),
        (''error'', JStr interrupted_error)]),
     (''restored'', JBool True)])"
  by (simp_all add: stored_send_def isQueuedRecord_def is_jobject_def field_of_def
      deferred_statuses_def normalizeQueuedRecord_def normalizeQueuedPayload_def
      restore_persona_def personaIntentFromComposer_def Let_def)

theorem loaded_queues_are_restored_witness:
  "\<exists>n. obj_get (parseMessageQueues (JObj [(''a'', JArr [stored_send, JNull])])) ''a'' = Some [n] \<and>
     isQueuedRecord n \<and> json_field n ''editing'' = None"
proof -
  have bad: "\<not> isQueuedRecord JNull" by (simp add: isQueuedRecord_def is_jobject_def)
  obtain n where n: "obj_get (parseMessageQueues (JObj [(''a'', JArr [stored_send, JNull])])) ''a'' = Some [n]"
    by (simp add: parseMessageQueues_def normalized_records_def stored_send_loaded bad Let_def)
  from loaded_queues_are_restored [OF n] n show ?thesis by auto
qed

text \<open>
  Restoring is idempotent: a record that was loaded and is stored again unchanged is loaded
  as it is, except for records of an old format that name a persona by the empty id.
\<close>

theorem reload_is_identity:
  assumes "isQueuedRecord r" and "normalizeQueuedRecord r = Inr n"
    and "field_of (json_field r ''payload'') ''personaId'' \<noteq> Some (JStr [])"
  shows "isQueuedRecord n \<and> normalizeQueuedRecord n = Inr n"
  using normalizeQueuedRecord_form [OF assms(1,2)] assms(3) restored_form_fixed by blast

theorem reload_is_identity_witness:
  "\<exists>n. normalizeQueuedRecord stored_send = Inr n \<and> normalizeQueuedRecord n = Inr n"
  using reload_is_identity [OF stored_send_loaded]
  by (simp add: stored_send_loaded(2)) (simp add: stored_send_def field_of_def)

text \<open>
  The exception is real: an old record whose persona id is the empty text is accepted and
  restored at the first start, but what was restored is dropped, with its text, at the next one.
\<close>

theorem empty_legacy_persona_is_lost:
  "\<exists>r n. isQueuedRecord r \<and> normalizeQueuedRecord r = Inr n \<and>
     normalized_records [r] = [n] \<and> isQueuedRecord n \<and> normalized_records [n] = []"
proof -
  let ?r = "JObj [(''kind'', JStr ''transport-ready''), (''recordId'', JStr ''r''),
     (''payload'', JObj [(''text'', JStr ''hi''), (''personaId'', JStr [])])]"
  let ?n = "JObj [(''kind'', JStr ''transport-ready''), (''recordId'', JStr ''r''),
     (''payload'', JObj [(''text'', JStr ''hi''),
        (''persona'', JObj [(''kind'', JStr ''persona''), (''id'', JStr [])])]),
     (''restored'', JBool True)]"
  have "isQueuedRecord ?r" "isQueuedRecord ?n"
    by (simp_all add: isQueuedRecord_def is_jobject_def field_of_def)
  moreover have "normalizeQueuedRecord ?r = Inr ?n"
    by (simp add: normalizeQueuedRecord_def normalizeQueuedPayload_def restore_persona_def
        personaIntentFromComposer_def Let_def)
  moreover have "normalizeQueuedRecord ?n = Inl ''Invalid persisted queue persona intent.''"
    by (simp add: normalizeQueuedRecord_def normalizeQueuedPayload_def restore_persona_def
        is_jobject_def Let_def)
  ultimately show ?thesis
    by (intro exI [of _ ?r] exI [of _ ?n]) (simp add: normalized_records_def)
qed

end
