(* ===== verification/SessionTarget.thy ===== *)
theory SessionTarget
  imports JsStrings
begin

text \<open>
  Which harness, model provider and model a session runs on, and the state machine that changes it
  (\<open>src/src/features/chat/lib/sessionExecutionTarget.ts\<close>, \<open>sessionTargetReducer.ts\<close>,
  \<open>src/src/shared/lib/modelIdentity.ts\<close>). A function that throws returns \<open>Inl\<close> its
  message; the coordinator assigns the reducer's result to its state, so an event that throws
  leaves the state as it was.
\<close>

section \<open>Execution targets\<close>

definition goose :: string where
  "goose = ''goose''"

definition normalizeConcreteModelId :: "string option \<Rightarrow> string option" where
  "normalizeConcreteModelId modelId =
    (let normalized = map_option js_trim modelId in
     if truthy normalized \<and> normalized \<noteq> Some goose then normalized else None)"

datatype execution_target =
    HarnessTarget (harnessId: string)
  | ProviderTarget (harnessId: string) (modelProvider: string)
  | ModelTarget (harnessId: string) (modelProvider: string) (model: string) (modelTitle: string)

record target_input =
  ti_harnessId :: string
  ti_modelProviderId :: "string option"
  ti_modelId :: "string option"
  ti_modelName :: "string option"

fun modelProviderId :: "execution_target \<Rightarrow> string option" where
  "modelProviderId (HarnessTarget h) = None"
| "modelProviderId (ProviderTarget h p) = Some p"
| "modelProviderId (ModelTarget h p m n) = Some p"

fun modelId :: "execution_target \<Rightarrow> string option" where
  "modelId (ModelTarget h p m n) = Some m"
| "modelId _ = None"

fun modelName :: "execution_target \<Rightarrow> string option" where
  "modelName (ModelTarget h p m n) = Some n"
| "modelName _ = None"

definition as_input :: "execution_target \<Rightarrow> target_input" where
  \<comment> \<open>a target where an input is expected\<close>
  "as_input t = \<lparr>ti_harnessId = harnessId t, ti_modelProviderId = modelProviderId t,
     ti_modelId = modelId t, ti_modelName = modelName t\<rparr>"

definition normalizeSessionExecutionTarget :: "target_input \<Rightarrow> string + execution_target" where
  "normalizeSessionExecutionTarget target =
    (let harness = js_trim (ti_harnessId target) in
     if harness = [] then Inl ''Session execution target requires a harness id.''
     else
       let trimmedProvider = map_option js_trim (ti_modelProviderId target);
           provider = (if truthy trimmedProvider then trimmedProvider else None);
           modl = normalizeConcreteModelId (ti_modelId target) in
       if modl \<noteq> None \<and> provider = None
       then Inl ''Session model selection requires a model provider id.''
       else if modl \<noteq> None \<and> harness = goose \<and> provider = Some harness
       then Inl ''Goose model selection requires a concrete model provider.''
       else
         (case provider of
            None \<Rightarrow> Inr (HarnessTarget harness)
          | Some p \<Rightarrow>
              (case modl of
                 None \<Rightarrow> Inr (ProviderTarget harness p)
               | Some m \<Rightarrow>
                   Inr (ModelTarget harness p m
                     (if truthy (ti_modelName target) then the (ti_modelName target) else m)))))"

record agent_model_selection =
  ams_modelProviderId :: string
  ams_modelId :: "string option"
  ams_modelName :: "string option"

definition targetFromAgentModelSelection ::
  "string \<Rightarrow> agent_model_selection option \<Rightarrow> string + execution_target" where
  "targetFromAgentModelSelection harness sel =
    normalizeSessionExecutionTarget
      \<lparr>ti_harnessId = harness, ti_modelProviderId = map_option ams_modelProviderId sel,
       ti_modelId = Option.bind sel ams_modelId, ti_modelName = Option.bind sel ams_modelName\<rparr>"

definition isModelExecutionTarget :: "execution_target \<Rightarrow> bool" where
  "isModelExecutionTarget t \<longleftrightarrow> modelId t \<noteq> None"

definition materializeSessionExecutionModel ::
  "execution_target option \<Rightarrow> string \<Rightarrow> string \<Rightarrow> string + execution_target option" where
  "materializeSessionExecutionModel target snapshotId snapshotName =
    (case target of
       None \<Rightarrow> Inr None
     | Some t \<Rightarrow>
         let provider = or_option (modelProviderId t)
               (if harnessId t = goose then None else Some (harnessId t)) in
         if \<not> truthy provider then Inr None
         else
           (case normalizeSessionExecutionTarget
                   \<lparr>ti_harnessId = harnessId t, ti_modelProviderId = provider,
                    ti_modelId = Some snapshotId, ti_modelName = Some snapshotName\<rparr> of
              Inl err \<Rightarrow> Inl err
            | Inr m \<Rightarrow> Inr (if isModelExecutionTarget m then Some m else None)))"

definition sameSessionExecutionTarget ::
  "execution_target option \<Rightarrow> execution_target option \<Rightarrow> bool" where
  "sameSessionExecutionTarget l r \<longleftrightarrow>
     map_option harnessId l = map_option harnessId r \<and>
     Option.bind l modelProviderId = Option.bind r modelProviderId \<and>
     Option.bind l modelId = Option.bind r modelId"

section \<open>Transitions\<close>

datatype transition_origin =
  Picker | Home | Persona | Draft | QueuedSend | Activation | Berdctl | Hydration | Recovery | Send

datatype transition_phase = Resolving | Preparing | Applying | AwaitingAck

record target_metadata =
  tm_target :: execution_target
  tm_reasoningEffort :: "json option"

datatype target_state =
    Unresolved (hydratedTarget: "execution_target option")
  | Settled (committed: execution_target) (settled_meta: "target_metadata option")
  | Transitioning (op: string) (origin: transition_origin) (previous: "execution_target option")
      (desired: execution_target) (effective: "execution_target option") (phase: transition_phase)
      (observed_meta: "target_metadata option")
  | Failed (op: string) (desired: execution_target) (fallback: "execution_target option")
      (failure: json) (retryable: bool)

datatype target_event =
    Hydrate execution_target "target_metadata option"
  | Select string transition_origin execution_target
  | Resolved string execution_target
  | PhaseChanged string transition_phase
  | MetadataObserved string target_metadata
  | Acknowledged string execution_target "target_metadata option"
  | Superseded string
  | Rejected string json "bool option"
  | SessionRemoved

fun committedTarget :: "target_state \<Rightarrow> execution_target option" where
  "committedTarget (Settled c m) = Some c"
| "committedTarget (Transitioning i orig prev d e ph m) = prev"
| "committedTarget (Failed i d fb err r) = fb"
| "committedTarget (Unresolved h) = h"

definition normalize_target :: "execution_target \<Rightarrow> string + execution_target" where
  "normalize_target t = normalizeSessionExecutionTarget (as_input t)"

definition map_ok :: "('a \<Rightarrow> 'b) \<Rightarrow> string + 'a \<Rightarrow> string + 'b" where
  "map_ok f x = (case x of Inl err \<Rightarrow> Inl err | Inr v \<Rightarrow> Inr (f v))"

fun reduceSessionTarget :: "target_state \<Rightarrow> target_event \<Rightarrow> string + target_state" where
  "reduceSessionTarget s SessionRemoved = Inr (Unresolved None)"
| "reduceSessionTarget s (Hydrate t md) =
    map_ok (\<lambda>target.
      case s of
        Settled c m \<Rightarrow>
          if sameSessionExecutionTarget (Some c) (Some target) \<and> md = None then s
          else Settled target md
      | _ \<Rightarrow> Settled target md) (normalize_target t)"
| "reduceSessionTarget s (Select i orig d) =
    map_ok (\<lambda>target. Transitioning i orig (committedTarget s) target None Resolving None)
      (normalize_target d)"
| "reduceSessionTarget (Transitioning j orig prev d e ph m) (Resolved i t) =
    (if j = i then map_ok (\<lambda>target. Transitioning j orig prev d (Some target) ph m) (normalize_target t)
     else Inr (Transitioning j orig prev d e ph m))"
| "reduceSessionTarget (Transitioning j orig prev d e ph m) (PhaseChanged i p) =
    Inr (Transitioning j orig prev d e (if j = i then p else ph) m)"
| "reduceSessionTarget (Transitioning j orig prev d e ph m) (MetadataObserved i md) =
    Inr (Transitioning j orig prev d e ph (if j = i then Some md else m))"
| "reduceSessionTarget (Transitioning j orig prev d e ph m) (Acknowledged i t md) =
    (if j = i then map_ok (\<lambda>target. Settled target (or_option md m)) (normalize_target t)
     else Inr (Transitioning j orig prev d e ph m))"
| "reduceSessionTarget (Transitioning j orig prev d e ph m) (Superseded i) =
    Inr (if j \<noteq> i then Transitioning j orig prev d e ph m
         else (case prev of Some t \<Rightarrow> Settled t None | None \<Rightarrow> Unresolved None))"
| "reduceSessionTarget (Transitioning j orig prev d e ph m) (Rejected i err r) =
    Inr (if j = i then Failed i d prev err (or_else r True) else Transitioning j orig prev d e ph m)"
| "reduceSessionTarget s _ = Inr s"

definition dispatch_event :: "target_event \<Rightarrow> target_state \<Rightarrow> target_state" where
  \<comment> \<open>\<open>actor.state = reduceSessionTarget(actor.state, event)\<close>: a throw leaves the state\<close>
  "dispatch_event e s = (case reduceSessionTarget s e of Inr s' \<Rightarrow> s' | Inl err \<Rightarrow> s)"

section \<open>Canonical targets\<close>

fun canonical :: "execution_target \<Rightarrow> bool" where
  "canonical (HarnessTarget h) \<longleftrightarrow> h \<noteq> [] \<and> trimmed h"
| "canonical (ProviderTarget h p) \<longleftrightarrow> h \<noteq> [] \<and> trimmed h \<and> p \<noteq> [] \<and> trimmed p"
| "canonical (ModelTarget h p m n) \<longleftrightarrow> h \<noteq> [] \<and> trimmed h \<and> p \<noteq> [] \<and> trimmed p \<and>
     m \<noteq> [] \<and> trimmed m \<and> m \<noteq> goose \<and> n \<noteq> [] \<and> \<not> (h = goose \<and> p = goose)"

lemma normalize_canonical: "normalizeSessionExecutionTarget i = Inr t \<Longrightarrow> canonical t"
  by (auto simp: normalizeSessionExecutionTarget_def normalizeConcreteModelId_def Let_def truthy_def
      split: if_splits option.splits)

lemma canonical_normalize: "canonical t \<Longrightarrow> normalize_target t = Inr t"
  by (cases t) (auto simp: normalize_target_def as_input_def normalizeSessionExecutionTarget_def
      normalizeConcreteModelId_def Let_def trim_trimmed)

lemma normalize_target_canonical: "normalize_target t = Inr t' \<Longrightarrow> canonical t'"
  by (simp add: normalize_target_def normalize_canonical)

fun state_ok :: "target_state \<Rightarrow> bool" where
  "state_ok (Unresolved h) \<longleftrightarrow> pred_option canonical h"
| "state_ok (Settled c m) \<longleftrightarrow> canonical c"
| "state_ok (Transitioning i orig prev d e ph m) \<longleftrightarrow>
     pred_option canonical prev \<and> canonical d \<and> pred_option canonical e"
| "state_ok (Failed i d fb err r) \<longleftrightarrow> canonical d \<and> pred_option canonical fb"

lemma committed_ok: "state_ok s \<Longrightarrow> pred_option canonical (committedTarget s)"
  by (cases s) simp_all

lemma reduce_ok: "state_ok s \<Longrightarrow> reduceSessionTarget s e = Inr s' \<Longrightarrow> state_ok s'"
  using committed_ok [of s]
  by (induction s e rule: reduceSessionTarget.induct)
    (auto simp: map_ok_def normalize_target_canonical split: sum.splits target_state.splits
      if_splits option.splits)

interpretation targets: step_system dispatch_event "\<lambda>_ _. True" state_ok
  by unfold_locales (auto simp: dispatch_event_def reduce_ok split: sum.split)

section \<open>Properties\<close>

definition blank :: "string option \<Rightarrow> bool" where
  "blank x \<longleftrightarrow> \<not> truthy (map_option js_trim x)"

text \<open>
  Normalising a target either gives a canonical one (trimmed, non-empty parts, a concrete model
  that is never \<open>goose\<close>, a model only with a provider) with the harness and provider asked
  for, which normalises to itself, or it is refused for one of three reasons: no harness, a model
  without a provider, or a Goose model under the provider Goose.
\<close>

theorem normalizeSessionExecutionTarget_spec:
  "case normalizeSessionExecutionTarget i of
     Inr t \<Rightarrow> canonical t \<and> normalize_target t = Inr t \<and>
       harnessId t = js_trim (ti_harnessId i) \<and>
       modelProviderId t =
         (if blank (ti_modelProviderId i) then None else map_option js_trim (ti_modelProviderId i)) \<and>
       modelId t = normalizeConcreteModelId (ti_modelId i)
   | Inl err \<Rightarrow> js_trim (ti_harnessId i) = [] \<or>
       (normalizeConcreteModelId (ti_modelId i) \<noteq> None \<and>
        (blank (ti_modelProviderId i) \<or>
         (js_trim (ti_harnessId i) = goose \<and> map_option js_trim (ti_modelProviderId i) = Some goose)))"
proof (cases "normalizeSessionExecutionTarget i")
  case (Inl err)
  then show ?thesis
    by (auto simp: normalizeSessionExecutionTarget_def blank_def Let_def truthy_def
        split: if_splits option.splits)
next
  case (Inr t)
  then have "canonical t" "normalize_target t = Inr t"
    by (simp_all add: normalize_canonical canonical_normalize)
  moreover have "harnessId t = js_trim (ti_harnessId i) \<and>
       modelProviderId t =
         (if blank (ti_modelProviderId i) then None else map_option js_trim (ti_modelProviderId i)) \<and>
       modelId t = normalizeConcreteModelId (ti_modelId i)"
    using Inr by (auto simp: normalizeSessionExecutionTarget_def blank_def Let_def truthy_def
        split: if_splits option.splits)
  ultimately show ?thesis using Inr by simp
qed

fun ends_operation :: "string \<Rightarrow> target_event \<Rightarrow> bool" where
  \<comment> \<open>the events that take a session out of the transition \<open>i\<close>\<close>
  "ends_operation i (Acknowledged j t m) \<longleftrightarrow> j = i"
| "ends_operation i (Superseded j) \<longleftrightarrow> j = i"
| "ends_operation i (Rejected j err r) \<longleftrightarrow> j = i"
| "ends_operation i (PhaseChanged j p) = False"
| "ends_operation i (MetadataObserved j m) = False"
| "ends_operation i (Resolved j t) = False"
| "ends_operation i _ = True"

lemma dispatch_during:
  "\<not> ends_operation i e \<Longrightarrow>
   \<exists>eff' ph' m'. dispatch_event e (Transitioning i orig prev d eff ph m) =
     Transitioning i orig prev d eff' ph' m'"
  by (cases e) (auto simp: dispatch_event_def map_ok_def split: sum.split)

lemma dispatches_during:
  "\<forall>e\<in>set es. \<not> ends_operation i e \<Longrightarrow>
   \<exists>eff' ph' m'. fold dispatch_event es (Transitioning i orig prev d eff ph m) =
     Transitioning i orig prev d eff' ph' m'"
proof (induction es arbitrary: eff ph m)
  case (Cons e es)
  then show ?case using dispatch_during [of i e orig prev d eff ph m] by fastforce
qed simp

text \<open>
  C8. A transition that nothing replaces ends only by its own operation. After a selection of a target
  that can be normalized, let any phase changes, resolutions and metadata observations follow, of this
  or other operations, and any acknowledgements, supersessions and rejections of other operations, but
  no other selection, no hydration and no removal of the session, each of which replaces the transition.
  Then superseding it restores the target the session was on, rejecting it keeps that target as the
  fallback beside the desired one, and acknowledging it settles the session on the acknowledged target.
\<close>

theorem transition_outcome:
  assumes "normalize_target d = Inr d'" and "normalize_target t = Inr t'"
    and "\<forall>e\<in>set es. \<not> ends_operation i e"
    and "fold dispatch_event es (dispatch_event (Select i orig d) s) = s1"
  shows "dispatch_event (Superseded i) s1 =
      (case committedTarget s of Some c \<Rightarrow> Settled c None | None \<Rightarrow> Unresolved None) \<and>
    dispatch_event (Rejected i err r) s1 = Failed i d' (committedTarget s) err (or_else r True) \<and>
    (\<exists>m. dispatch_event (Acknowledged i t md) s1 = Settled t' m \<and> (md = None \<or> m = md))"
proof -
  have "dispatch_event (Select i orig d) s = Transitioning i orig (committedTarget s) d' None Resolving None"
    using assms(1) by (simp add: dispatch_event_def map_ok_def)
  then obtain eff ph m where "s1 = Transitioning i orig (committedTarget s) d' eff ph m"
    using dispatches_during [OF assms(3), of orig "committedTarget s" d' None Resolving None] assms(4)
    by auto
  then show ?thesis using assms(2)
    by (auto simp: dispatch_event_def map_ok_def or_option_def split: option.split)
qed

theorem transition_outcome_witness:
  "dispatch_event (Superseded ''2'') (fold dispatch_event
     [Acknowledged ''1'' (HarnessTarget ''x'') None, PhaseChanged ''2'' Applying]
     (dispatch_event (Select ''2'' Picker (HarnessTarget ''y'')) (Settled (HarnessTarget ''h'') None))) =
   Settled (HarnessTarget ''h'') None"
proof -
  have n: "normalize_target (HarnessTarget ''y'') = Inr (HarnessTarget ''y'')"
    by (rule canonical_normalize) (simp add: trimmed_def is_js_space_def)
  show ?thesis
    using transition_outcome [OF n n, of "[Acknowledged ''1'' (HarnessTarget ''x'') None,
        PhaseChanged ''2'' Applying]" "''2''" Picker "Settled (HarnessTarget ''h'') None"]
    by simp
qed

fun commits :: "target_event \<Rightarrow> bool" where
  "commits (Hydrate t m) = True"
| "commits (Acknowledged i t m) = True"
| "commits SessionRemoved = True"
| "commits _ = False"

lemma dispatch_keeps_committed:
  "\<not> commits e \<Longrightarrow> committedTarget (dispatch_event e s) = committedTarget s"
  by (cases e; cases s) (auto simp: dispatch_event_def map_ok_def split: sum.split option.split)

text \<open>
  The target a session is committed to changes only when one is hydrated or acknowledged (or
  the session is removed): selecting, resolving, reporting, superseding and rejecting, in any
  number and order, with current or stale operation ids, leave it as it was.
\<close>

theorem committed_target_stable:
  assumes "\<forall>e\<in>set es. \<not> commits e"
  shows "committedTarget (fold dispatch_event es s) = committedTarget s"
  using assms by (induction es arbitrary: s) (simp_all add: dispatch_keeps_committed)

theorem committed_target_stable_witness:
  "committedTarget (fold dispatch_event
     [Select ''1'' Home (HarnessTarget ''x''), Rejected ''1'' JNull None, Select ''2'' Send (HarnessTarget ''y'')]
     (Settled (HarnessTarget ''h'') None)) = Some (HarnessTarget ''h'')"
  using committed_target_stable [of "[Select ''1'' Home (HarnessTarget ''x''), Rejected ''1'' JNull None,
      Select ''2'' Send (HarnessTarget ''y'')]" "Settled (HarnessTarget ''h'') None"]
  by simp

text \<open>
  Every target a session is on, was on or wants to be on stays canonical, whatever events
  arrive, including those with targets that are refused.
\<close>

theorem targets_stay_canonical:
  assumes "state_ok s"
  shows "state_ok (fold dispatch_event es s)"
  using targets.total_run_inv assms by blast

theorem targets_stay_canonical_witness:
  "state_ok (fold dispatch_event [Hydrate (ProviderTarget '' h '' ''p'') None,
     Select ''1'' Home (HarnessTarget '' '')] (Unresolved None))"
  by (rule targets_stay_canonical) simp

end
