(* ===== verification/VirtualRange.thy ===== *)
theory VirtualRange
  imports Prelude
begin

text \<open>
  Which rows of a long transcript are rendered
  (\<open>src/src/features/chat/transcript/virtual/transcriptVirtualRange.ts\<close>): from the rows'
  heights and the scroll position, the rows in the viewport, the rows around it that are rendered
  ahead, and the paddings that stand for the rest.

  Pixels are exact rational numbers. A row is of any type \<open>'r\<close>: the code reads its id with
  \<open>rowId\<close> and its height with the caller's \<open>getRowHeight\<close>, both parameters here.
\<close>

section \<open>Data\<close>

definition TRANSCRIPT_DEFAULT_OVERSCAN_BEFORE_PX :: js_number where
  "TRANSCRIPT_DEFAULT_OVERSCAN_BEFORE_PX = 1200"
definition TRANSCRIPT_DEFAULT_OVERSCAN_AFTER_PX :: js_number where
  "TRANSCRIPT_DEFAULT_OVERSCAN_AFTER_PX = 600"
definition TRANSCRIPT_DEFAULT_OVERSCAN_BEFORE_ROWS :: js_number where
  "TRANSCRIPT_DEFAULT_OVERSCAN_BEFORE_ROWS = 4"
definition TRANSCRIPT_DEFAULT_OVERSCAN_AFTER_ROWS :: js_number where
  "TRANSCRIPT_DEFAULT_OVERSCAN_AFTER_ROWS = 4"

record row_metric =
  rm_start :: js_number
  rm_size :: js_number
  rm_end :: js_number

record visible_range =
  vr_start :: int
  vr_end :: int

record render_range =
  rr_start :: int
  rr_end :: int
  rr_visibleStart :: int
  rr_visibleEnd :: int

record overscan =
  os_beforePx :: js_number
  os_afterPx :: js_number
  os_beforeRows :: js_number
  os_afterRows :: js_number

definition default_overscan :: overscan where
  "default_overscan =
    \<lparr>os_beforePx = TRANSCRIPT_DEFAULT_OVERSCAN_BEFORE_PX,
     os_afterPx = TRANSCRIPT_DEFAULT_OVERSCAN_AFTER_PX,
     os_beforeRows = TRANSCRIPT_DEFAULT_OVERSCAN_BEFORE_ROWS,
     os_afterRows = TRANSCRIPT_DEFAULT_OVERSCAN_AFTER_ROWS\<rparr>"

record tanstack_range =
  ts_start :: int
  ts_end :: int
  ts_overscan :: int
  ts_count :: int

record 'r virtual_item =
  vi_index :: nat
  vi_key :: string
  vi_row :: 'r
  vi_start :: js_number
  vi_size :: js_number
  vi_end :: js_number
  vi_visible :: bool
  vi_protected :: bool

record 'r range_snapshot =
  rs_totalHeight :: js_number
  rs_scrollHeight :: js_number
  rs_visibleRange :: visible_range
  rs_renderRange :: render_range
  rs_virtualItems :: "'r virtual_item list"
  rs_visibleRowIds :: "string list"
  rs_renderedRowIds :: "string list"
  rs_protectedRowIds :: "string list"
  rs_paddingStart :: js_number
  rs_paddingEnd :: js_number

section \<open>Metrics and ranges\<close>

fun metrics_from :: "js_number \<Rightarrow> js_number list \<Rightarrow> row_metric list" where
  "metrics_from offset [] = []"
| "metrics_from offset (h # hs) =
    (let size = max 0 h in
     \<lparr>rm_start = offset, rm_size = size, rm_end = offset + size\<rparr> # metrics_from (offset + size) hs)"

definition buildRowMetrics :: "'r list \<Rightarrow> ('r \<Rightarrow> js_number) \<Rightarrow> row_metric list" where
  "buildRowMetrics rows getRowHeight = metrics_from 0 (map getRowHeight rows)"

fun scan_visible_end :: "js_number \<Rightarrow> row_metric list \<Rightarrow> nat \<Rightarrow> nat \<Rightarrow> nat" where
  \<comment> \<open>the second loop: from \<open>index\<close> on, as long as a row starts above the viewport's end\<close>
  "scan_visible_end viewportEnd [] index endIndex = endIndex"
| "scan_visible_end viewportEnd (m # ms) index endIndex =
    (if rm_start m < viewportEnd then scan_visible_end viewportEnd ms (index + 1) index else endIndex)"

definition computeVisibleRangeFromMetrics ::
  "nat \<Rightarrow> row_metric list \<Rightarrow> js_number \<Rightarrow> js_number \<Rightarrow> visible_range" where
  "computeVisibleRangeFromMetrics rowCount rowMetrics scrollTop viewportHeight =
    (if rowCount = 0 then \<lparr>vr_start = 0, vr_end = - 1\<rparr>
     else
       let viewportEnd = scrollTop + viewportHeight;
           startIndex = or_else (find_index (\<lambda>m. scrollTop < rm_end m) rowMetrics) (rowCount - 1);
           endIndex = scan_visible_end viewportEnd (drop startIndex rowMetrics) startIndex 0 in
       \<lparr>vr_start = int startIndex, vr_end = int (max startIndex endIndex)\<rparr>)"

fun expand_before :: "row_metric list \<Rightarrow> js_number \<Rightarrow> js_number \<Rightarrow> nat \<Rightarrow> nat \<Rightarrow> nat" where
  \<comment> \<open>\<open>while (startIndex > 0) ...\<close>\<close>
  "expand_before ms beforeTarget beforeRows visibleStart 0 = 0"
| "expand_before ms beforeTarget beforeRows visibleStart (Suc n) =
    (if rm_end (ms ! n) \<le> beforeTarget \<and> beforeRows \<le> of_nat visibleStart - of_nat (Suc n)
     then Suc n else expand_before ms beforeTarget beforeRows visibleStart n)"

function expand_after :: "row_metric list \<Rightarrow> js_number \<Rightarrow> js_number \<Rightarrow> nat \<Rightarrow> nat \<Rightarrow> nat" where
  \<comment> \<open>\<open>while (endIndex < rowMetrics.length - 1) ...\<close>\<close>
  "expand_after ms afterTarget afterRows visibleEnd n =
    (if n + 1 < length ms then
       (if afterTarget \<le> rm_start (ms ! (n + 1)) \<and> afterRows \<le> of_nat n - of_nat visibleEnd
        then n else expand_after ms afterTarget afterRows visibleEnd (n + 1))
     else n)"
  by pat_completeness auto
termination by (relation "measure (\<lambda>(ms, a, r, v, n). length ms - n)") auto

declare expand_after.simps [simp del]

definition computeRenderRange ::
  "row_metric list \<Rightarrow> visible_range \<Rightarrow> js_number \<Rightarrow> js_number \<Rightarrow> overscan \<Rightarrow> render_range" where
  "computeRenderRange rowMetrics visible scrollTop viewportHeight os =
    (if rowMetrics = [] \<or> vr_end visible < vr_start visible
     then \<lparr>rr_start = 0, rr_end = - 1, rr_visibleStart = vr_start visible, rr_visibleEnd = vr_end visible\<rparr>
     else
       let beforeTarget = max 0 (scrollTop - os_beforePx os);
           afterTarget = scrollTop + viewportHeight + os_afterPx os;
           s = nat (vr_start visible); e = nat (vr_end visible) in
       \<lparr>rr_start = int (expand_before rowMetrics beforeTarget (os_beforeRows os) s s),
        rr_end = int (expand_after rowMetrics afterTarget (os_afterRows os) e e),
        rr_visibleStart = vr_start visible, rr_visibleEnd = vr_end visible\<rparr>)"

definition computeRenderRangeFromVisibleMetrics ::
  "row_metric list \<Rightarrow> visible_range \<Rightarrow> overscan \<Rightarrow> render_range" where
  "computeRenderRangeFromVisibleMetrics rowMetrics visible os =
    (let s = nat (vr_start visible); e = nat (vr_end visible);
         beforeTarget = max 0 (rm_start (rowMetrics ! s) - os_beforePx os);
         afterTarget = rm_end (rowMetrics ! e) + os_afterPx os in
     \<lparr>rr_start = int (expand_before rowMetrics beforeTarget (os_beforeRows os) s s),
      rr_end = int (expand_after rowMetrics afterTarget (os_afterRows os) e e),
      rr_visibleStart = vr_start visible, rr_visibleEnd = vr_end visible\<rparr>)"

definition createContiguousRangeIndexes :: "int \<Rightarrow> int \<Rightarrow> int list" where
  "createContiguousRangeIndexes startIndex endIndex = [startIndex..endIndex]"

definition clampIndex :: "int \<Rightarrow> int \<Rightarrow> int" where
  "clampIndex index maxIndex = min (max 0 index) maxIndex"

definition getProtectedIndexes :: "('r \<Rightarrow> string) \<Rightarrow> 'r list \<Rightarrow> string list \<Rightarrow> int list" where
  "getProtectedIndexes rowId rows protectedRowIds =
    map int (filter (\<lambda>i. rowId (rows ! i) \<in> set protectedRowIds) [0..<length rows])"

definition isIndexInsideRange :: "int \<Rightarrow> visible_range \<Rightarrow> bool" where
  "isIndexInsideRange index r \<longleftrightarrow> vr_start r \<le> index \<and> index \<le> vr_end r"

definition index_set :: "'a::linorder list \<Rightarrow> 'a list" where
  \<comment> \<open>\<open>Array.from(set).sort((left, right) => left - right)\<close> of a set built by adding\<close>
  "index_set xs = sort (dedup xs)"

definition normalizeVisibleRange :: "tanstack_range \<Rightarrow> nat \<Rightarrow> visible_range" where
  "normalizeVisibleRange rng rowCount =
    (if rowCount = 0 \<or> ts_count rng = 0 then \<lparr>vr_start = 0, vr_end = - 1\<rparr>
     else
       let maxIndex = min (int rowCount) (ts_count rng) - 1;
           s = clampIndex (ts_start rng) maxIndex; e = clampIndex (ts_end rng) maxIndex in
       \<lparr>vr_start = min s e, vr_end = max s e\<rparr>)"

section \<open>The three entry points\<close>

definition computeTranscriptVirtualRange ::
  "('r \<Rightarrow> string) \<Rightarrow> ('r \<Rightarrow> js_number) \<Rightarrow> 'r list \<Rightarrow> js_number \<Rightarrow> js_number \<Rightarrow> js_number \<Rightarrow>
   overscan \<Rightarrow> string list \<Rightarrow> 'r range_snapshot" where
  "computeTranscriptVirtualRange rowId getRowHeight rows scrollTop viewportHeight footerHeight os
      protectedRowIds =
    (let rowMetrics = buildRowMetrics rows getRowHeight;
         totalHeight = (if rowMetrics = [] then 0 else rm_end (last rowMetrics));
         visible = computeVisibleRangeFromMetrics (length rows) rowMetrics scrollTop viewportHeight;
         render = computeRenderRange rowMetrics visible scrollTop viewportHeight os;
         protectedIndexes = getProtectedIndexes rowId rows protectedRowIds;
         rendered = index_set (createContiguousRangeIndexes (rr_start render) (rr_end render)
                      @ protectedIndexes);
         virtualItems = map (\<lambda>index.
           let row = rows ! nat index; metric = rowMetrics ! nat index in
           \<lparr>vi_index = nat index, vi_key = rowId row, vi_row = row, vi_start = rm_start metric,
            vi_size = rm_size metric, vi_end = rm_end metric,
            vi_visible = isIndexInsideRange index visible,
            vi_protected = index \<in> set protectedIndexes\<rparr>) rendered;
         metric_at = (\<lambda>i. if 0 \<le> i \<and> i < int (length rowMetrics) then Some (rowMetrics ! nat i) else None);
         paddingStart = or_else (map_option rm_start (metric_at (rr_start render))) 0;
         paddingEnd = totalHeight - or_else (map_option rm_end (metric_at (rr_end render))) totalHeight in
     \<lparr>rs_totalHeight = totalHeight, rs_scrollHeight = totalHeight + footerHeight,
      rs_visibleRange = visible, rs_renderRange = render, rs_virtualItems = virtualItems,
      rs_visibleRowIds = map rowId (take (nat (vr_end visible + 1 - vr_start visible))
                           (drop (nat (vr_start visible)) rows)),
      rs_renderedRowIds = map vi_key virtualItems,
      rs_protectedRowIds = map vi_key (filter vi_protected virtualItems),
      rs_paddingStart = paddingStart, rs_paddingEnd = max 0 paddingEnd\<rparr>)"

record pixel_selection =
  ps_visibleRange :: visible_range
  ps_renderRange :: render_range
  ps_indexes :: "int list"
  ps_protectedIndexes :: "int list"

definition is_integer :: "js_number \<Rightarrow> bool" where
  "is_integer x \<longleftrightarrow> of_int \<lfloor>x\<rfloor> = x"

definition computeTranscriptPixelRangeIndexes ::
  "('r \<Rightarrow> js_number) \<Rightarrow> 'r list \<Rightarrow> tanstack_range \<Rightarrow> overscan \<Rightarrow> js_number list \<Rightarrow> pixel_selection" where
  "computeTranscriptPixelRangeIndexes getRowHeight rows rng os protectedIndexes =
    (let rowMetrics = buildRowMetrics rows getRowHeight;
         visible = normalizeVisibleRange rng (length rows) in
     if rows = [] \<or> vr_start visible < 0 \<or> vr_end visible < vr_start visible then
       \<lparr>ps_visibleRange = visible,
        ps_renderRange = \<lparr>rr_start = 0, rr_end = - 1, rr_visibleStart = vr_start visible,
                          rr_visibleEnd = vr_end visible\<rparr>,
        ps_indexes = [], ps_protectedIndexes = []\<rparr>
     else
       let render = computeRenderRangeFromVisibleMetrics rowMetrics visible
             (os\<lparr>os_beforeRows := max (os_beforeRows os) (of_int (ts_overscan rng)),
                 os_afterRows := max (os_afterRows os) (of_int (ts_overscan rng))\<rparr>);
           valid = map floor (filter (\<lambda>i. is_integer i \<and> 0 \<le> i \<and> i < of_int (ts_count rng))
                     protectedIndexes) in
       \<lparr>ps_visibleRange = visible, ps_renderRange = render,
        ps_indexes = index_set (createContiguousRangeIndexes (rr_start render) (rr_end render) @ valid),
        ps_protectedIndexes = index_set valid\<rparr>)"

definition computeTanStackRangeIndexes :: "tanstack_range \<Rightarrow> js_number list \<Rightarrow> js_number list" where
  "computeTanStackRangeIndexes rng protectedIndexes =
    index_set
      (map of_int (createContiguousRangeIndexes (max 0 (ts_start rng - ts_overscan rng))
         (min (ts_count rng - 1) (ts_end rng + ts_overscan rng)))
       @ filter (\<lambda>i. 0 \<le> i \<and> i < of_int (ts_count rng)) protectedIndexes)"

definition createTranscriptRangeExtractor ::
  "(unit \<Rightarrow> js_number list) \<Rightarrow> tanstack_range \<Rightarrow> js_number list" where
  "createTranscriptRangeExtractor protectedIndexes rng =
    computeTanStackRangeIndexes rng (protectedIndexes ())"

section \<open>Row geometry\<close>

definition row_top :: "('r \<Rightarrow> js_number) \<Rightarrow> 'r list \<Rightarrow> nat \<Rightarrow> js_number" where
  \<comment> \<open>the specification: a row starts where the heights of the rows before it add up to\<close>
  "row_top h rows i = (\<Sum>r\<leftarrow>take i rows. max 0 (h r))"

lemma row_top_Suc: "i < length rows \<Longrightarrow> row_top h rows (Suc i) = row_top h rows i + max 0 (h (rows ! i))"
  by (simp add: row_top_def take_Suc_conv_app_nth)

lemma row_top_mono: "i \<le> j \<Longrightarrow> row_top h rows i \<le> row_top h rows j"
proof (induction j)
  case (Suc j)
  show ?case
  proof (cases "i = Suc j")
    case False
    then have "row_top h rows i \<le> row_top h rows j" using Suc by simp
    moreover have "row_top h rows j \<le> row_top h rows (Suc j)"
      by (cases "j < length rows") (simp_all add: row_top_Suc, simp add: row_top_def)
    ultimately show ?thesis by simp
  qed simp
qed simp

lemma metrics_length [simp]: "length (metrics_from off hs) = length hs"
  by (induction hs arbitrary: off) (simp_all add: Let_def)

lemma metrics_nth:
  "i < length hs \<Longrightarrow> metrics_from off hs ! i =
    \<lparr>rm_start = off + (\<Sum>h\<leftarrow>take i hs. max 0 h), rm_size = max 0 (hs ! i),
     rm_end = off + (\<Sum>h\<leftarrow>take (Suc i) hs. max 0 h)\<rparr>"
proof (induction hs arbitrary: off i)
  case (Cons h hs)
  show ?case
  proof (cases i)
    case (Suc j)
    then show ?thesis using Cons by (simp add: Let_def add.assoc)
  qed (simp add: Let_def)
qed simp

lemma buildRowMetrics_length [simp]: "length (buildRowMetrics rows h) = length rows"
  by (simp add: buildRowMetrics_def)

lemma buildRowMetrics_nth:
  "i < length rows \<Longrightarrow> buildRowMetrics rows h ! i =
    \<lparr>rm_start = row_top h rows i, rm_size = max 0 (h (rows ! i)), rm_end = row_top h rows (Suc i)\<rparr>"
  by (simp add: buildRowMetrics_def metrics_nth row_top_def take_map comp_def)

lemma metrics_nil [simp]: "buildRowMetrics rows h = [] \<longleftrightarrow> rows = []"
  by (metis buildRowMetrics_length length_0_conv)

lemma metrics_last: "rows \<noteq> [] \<Longrightarrow> rm_end (last (buildRowMetrics rows h)) = row_top h rows (length rows)"
  by (simp add: last_conv_nth buildRowMetrics_nth)

section \<open>The loops\<close>

lemma expand_before_spec:
  "expand_before ms t r v n \<le> n \<and>
   (expand_before ms t r v n = 0 \<or>
     (rm_end (ms ! (expand_before ms t r v n - 1)) \<le> t \<and>
      r \<le> of_nat v - of_nat (expand_before ms t r v n)))"
  by (induction n) auto

lemma expand_after_spec:
  assumes "n < length ms"
  shows "n \<le> expand_after ms t r v n \<and> expand_after ms t r v n < length ms \<and>
   (expand_after ms t r v n + 1 = length ms \<or>
     (t \<le> rm_start (ms ! (expand_after ms t r v n + 1)) \<and>
      r \<le> of_nat (expand_after ms t r v n) - of_nat v))"
  using assms
proof (induction ms t r v n rule: expand_after.induct)
  case (1 ms t r v n)
  show ?case
  proof (cases "n + 1 < length ms \<and> \<not> (t \<le> rm_start (ms ! (n + 1)) \<and> r \<le> of_nat n - of_nat v)")
    case True
    then have "expand_after ms t r v n = expand_after ms t r v (n + 1)"
      by (subst expand_after.simps) auto
    then show ?thesis using 1 True by auto
  next
    case False
    then have "expand_after ms t r v n = n" by (subst expand_after.simps) auto
    then show ?thesis using 1(2) False by auto
  qed
qed

lemma scan_bound: "scan_visible_end v ms i e = e \<or>
    (i \<le> scan_visible_end v ms i e \<and> scan_visible_end v ms i e < i + length ms)"
proof (induction ms arbitrary: i e)
  case (Cons m ms)
  then show ?case using Cons [of "i + 1" i] by auto
qed simp

lemma scan_reaches:
  "n < length ms \<Longrightarrow> \<forall>j\<le>n. rm_start (ms ! j) < v \<Longrightarrow> i + n \<le> scan_visible_end v ms i e"
proof (induction ms arbitrary: i e n)
  case (Cons m ms)
  have m: "rm_start m < v" using Cons.prems(2) by (auto dest: spec [of _ 0])
  show ?case
  proof (cases n)
    case 0
    then show ?thesis using m scan_bound [of v ms "i + 1" i] by auto
  next
    case (Suc k)
    have "\<forall>j\<le>k. rm_start (ms ! j) < v"
      using Cons.prems(2) Suc by (auto dest: spec [of _ "Suc _"])
    then have "(i + 1) + k \<le> scan_visible_end v ms (i + 1) i"
      using Cons.prems(1) Suc by (intro Cons.IH) simp_all
    then show ?thesis using m Suc by simp
  qed
qed simp

lemma find_index_first:
  "i < length xs \<Longrightarrow> p (xs ! i) \<Longrightarrow> \<exists>s\<le>i. find_index p xs = Some s"
proof (induction xs arbitrary: i)
  case (Cons x xs)
  then show ?case by (cases i) fastforce+
qed simp

lemma visible_bounds:
  assumes "n > 0" "length ms = n"
  shows "0 \<le> vr_start (computeVisibleRangeFromMetrics n ms st vh) \<and>
    vr_start (computeVisibleRangeFromMetrics n ms st vh) \<le> vr_end (computeVisibleRangeFromMetrics n ms st vh) \<and>
    vr_end (computeVisibleRangeFromMetrics n ms st vh) < int n"
proof -
  let ?s = "or_else (find_index (\<lambda>m. st < rm_end m) ms) (n - 1)"
  have s: "?s < n" 
    using assms find_index_bound [of "\<lambda>m. st < rm_end m" ms]
    by (cases "find_index (\<lambda>m. st < rm_end m) ms") simp_all
  have "scan_visible_end (st + vh) (drop ?s ms) ?s 0 < n"
    using scan_bound [of "st + vh" "drop ?s ms" ?s 0] s assms by auto
  then show ?thesis using s assms by (simp add: computeVisibleRangeFromMetrics_def Let_def)
qed

lemma visible_complete:
  assumes "i < length rows" "row_top h rows i < st + vh" "st < row_top h rows (Suc i)"
  shows "isIndexInsideRange (int i) (computeVisibleRangeFromMetrics (length rows) (buildRowMetrics rows h) st vh)"
proof -
  let ?ms = "buildRowMetrics rows h"
  have "rm_end (?ms ! i) > st" using assms by (simp add: buildRowMetrics_nth)
  then obtain s where s: "find_index (\<lambda>m. st < rm_end m) ?ms = Some s" "s \<le> i"
    using assms(1) find_index_first [of i ?ms "\<lambda>m. st < rm_end m"] by auto
  have "\<forall>j\<le>i - s. rm_start (drop s ?ms ! j) < st + vh"
  proof (intro allI impI)
    fix j assume j: "j \<le> i - s"
    then have "row_top h rows (s + j) \<le> row_top h rows i" using s by (intro row_top_mono) simp
    moreover have "s + j < length rows" using j s assms(1) by simp
    ultimately show "rm_start (drop s ?ms ! j) < st + vh" using assms(2) by (simp add: buildRowMetrics_nth)
  qed
  then have "s + (i - s) \<le> scan_visible_end (st + vh) (drop s ?ms) s 0"
    using s assms(1) by (intro scan_reaches) simp_all
  moreover have "rows \<noteq> []" using assms(1) by auto
  ultimately show ?thesis using s
    by (auto simp: isIndexInsideRange_def computeVisibleRangeFromMetrics_def Let_def)
qed

section \<open>Properties\<close>

lemma render_bounds:
  fixes h
  assumes "rows \<noteq> []" "0 \<le> vr_start v" "vr_start v \<le> vr_end v" "vr_end v < int (length rows)"
  defines "ms \<equiv> buildRowMetrics rows h"
  shows "expand_before ms bt br (nat (vr_start v)) (nat (vr_start v)) \<le> nat (vr_start v) \<and>
    nat (vr_end v) \<le> expand_after ms af ar (nat (vr_end v)) (nat (vr_end v)) \<and>
    expand_after ms af ar (nat (vr_end v)) (nat (vr_end v)) < length rows \<and>
    (\<forall>i < length rows. bt < row_top h rows (Suc i) \<longrightarrow>
       expand_before ms bt br (nat (vr_start v)) (nat (vr_start v)) \<le> i) \<and>
    (\<forall>i < length rows. row_top h rows i < af \<longrightarrow>
       i \<le> expand_after ms af ar (nat (vr_end v)) (nat (vr_end v)))"
proof -
  let ?s = "expand_before ms bt br (nat (vr_start v)) (nat (vr_start v))"
  let ?e = "expand_after ms af ar (nat (vr_end v)) (nat (vr_end v))"
  have len: "length ms = length rows" by (simp add: ms_def)
  have s: "?s \<le> nat (vr_start v)" "?s = 0 \<or> rm_end (ms ! (?s - 1)) \<le> bt"
    using expand_before_spec [of ms bt br "nat (vr_start v)" "nat (vr_start v)"] by blast+
  have e: "nat (vr_end v) \<le> ?e" "?e < length rows" "?e + 1 = length rows \<or> af \<le> rm_start (ms ! (?e + 1))"
    using expand_after_spec [of "nat (vr_end v)" ms af ar "nat (vr_end v)"] assms(2-4) len by auto
  have "?s \<le> i" if "i < length rows" "bt < row_top h rows (Suc i)" for i
  proof (rule ccontr)
    assume "\<not> ?s \<le> i"
    then have "Suc i \<le> ?s" "?s \<noteq> 0" by simp_all
    moreover from this have "rm_end (ms ! (?s - 1)) = row_top h rows ?s"
      using s(1) assms(2-4) by (simp add: ms_def buildRowMetrics_nth)
    ultimately show False using s(2) row_top_mono [of "Suc i" ?s h rows] that(2) by simp
  qed
  moreover have "i \<le> ?e" if "i < length rows" "row_top h rows i < af" for i
  proof (rule ccontr)
    assume i: "\<not> i \<le> ?e"
    then have "?e + 1 < length rows" using that(1) by simp
    then have "af \<le> row_top h rows (?e + 1)" using e(3) by (simp add: ms_def buildRowMetrics_nth)
    moreover have "row_top h rows (?e + 1) \<le> row_top h rows i" using i by (intro row_top_mono) simp
    ultimately show False using that(2) by simp
  qed
  ultimately show ?thesis using s e by blast
qed

lemma snapshot_ranges:
  fixes rows :: "'r list" and rid h st vh fh os prot
  defines "snap \<equiv> computeTranscriptVirtualRange rid h rows st vh fh os prot"
  assumes "rows \<noteq> []"
  shows "0 \<le> rr_start (rs_renderRange snap) \<and>
    rr_start (rs_renderRange snap) \<le> vr_start (rs_visibleRange snap) \<and>
    vr_start (rs_visibleRange snap) \<le> vr_end (rs_visibleRange snap) \<and>
    vr_end (rs_visibleRange snap) \<le> rr_end (rs_renderRange snap) \<and>
    rr_end (rs_renderRange snap) < int (length rows) \<and>
    (\<forall>i < length rows. row_top h rows i < st + vh + os_afterPx os \<and>
         max 0 (st - os_beforePx os) < row_top h rows (Suc i) \<longrightarrow>
       rr_start (rs_renderRange snap) \<le> int i \<and> int i \<le> rr_end (rs_renderRange snap))"
proof -
  let ?ms = "buildRowMetrics rows h"
  let ?v = "computeVisibleRangeFromMetrics (length rows) ?ms st vh"
  have vis: "rs_visibleRange snap = ?v"
    and ren: "rs_renderRange snap = computeRenderRange ?ms ?v st vh os"
    by (simp_all add: snap_def computeTranscriptVirtualRange_def Let_def)
  have v: "0 \<le> vr_start ?v" "vr_start ?v \<le> vr_end ?v" "vr_end ?v < int (length rows)"
    using visible_bounds [of "length rows" ?ms st vh] assms(2) by simp_all
  note b = render_bounds [OF assms(2) v, of h "max 0 (st - os_beforePx os)" "os_beforeRows os"
      "st + vh + os_afterPx os" "os_afterRows os"]
  have r: "rs_renderRange snap =
      \<lparr>rr_start = int (expand_before ?ms (max 0 (st - os_beforePx os)) (os_beforeRows os)
          (nat (vr_start ?v)) (nat (vr_start ?v))),
       rr_end = int (expand_after ?ms (st + vh + os_afterPx os) (os_afterRows os)
          (nat (vr_end ?v)) (nat (vr_end ?v))),
       rr_visibleStart = vr_start ?v, rr_visibleEnd = vr_end ?v\<rparr>"
    using assms(2) v by (simp add: ren computeRenderRange_def Let_def)
  show ?thesis unfolding r vis using b v by (auto simp: le_nat_iff nat_le_iff)
qed

text \<open>
  The rows a scroll position needs are rendered: the visible range lies within the rendered
  one and within the list, it holds every row that overlaps the viewport, and the rendered range
  holds every row that overlaps the viewport widened by the pixels of overscan on both sides.
\<close>

theorem virtual_range_covers:
  fixes rows :: "'r list" and rid h st vh fh os prot
  defines "snap \<equiv> computeTranscriptVirtualRange rid h rows st vh fh os prot"
  assumes "i < length rows"
  shows "0 \<le> rr_start (rs_renderRange snap) \<and>
    rr_start (rs_renderRange snap) \<le> vr_start (rs_visibleRange snap) \<and>
    vr_start (rs_visibleRange snap) \<le> vr_end (rs_visibleRange snap) \<and>
    vr_end (rs_visibleRange snap) \<le> rr_end (rs_renderRange snap) \<and>
    rr_end (rs_renderRange snap) < int (length rows) \<and>
    (row_top h rows i < st + vh \<and> st < row_top h rows (Suc i) \<longrightarrow>
       isIndexInsideRange (int i) (rs_visibleRange snap)) \<and>
    (row_top h rows i < st + vh + os_afterPx os \<and> max 0 (st - os_beforePx os) < row_top h rows (Suc i) \<longrightarrow>
       rr_start (rs_renderRange snap) \<le> int i \<and> int i \<le> rr_end (rs_renderRange snap))"
proof -
  have "rs_visibleRange snap =
      computeVisibleRangeFromMetrics (length rows) (buildRowMetrics rows h) st vh"
    by (simp add: snap_def computeTranscriptVirtualRange_def Let_def)
  moreover have "rows \<noteq> []" using assms(2) by auto
  ultimately show ?thesis
    using snapshot_ranges [of rows rid h st vh fh os prot] visible_complete [OF assms(2), of h st vh] assms(2)
    by (simp add: snap_def)
qed

definition demo_rows :: "string list" where
  "demo_rows = [''a'', ''b'', ''c'', ''d'', ''e'']"

definition demo_overscan :: overscan where
  "demo_overscan = \<lparr>os_beforePx = 0, os_afterPx = 0, os_beforeRows = 1, os_afterRows = 0\<rparr>"

definition demo_snapshot :: "string range_snapshot" where
  \<comment> \<open>five rows of 100 px, the viewport over the second and third, the last row protected\<close>
  "demo_snapshot = computeTranscriptVirtualRange id (\<lambda>_. 100) demo_rows 150 100 0 demo_overscan [''e'']"

theorem virtual_range_covers_witness:
  "isIndexInsideRange 2 (rs_visibleRange demo_snapshot) \<and> rr_end (rs_renderRange demo_snapshot) < 5"
proof -
  have "2 < length demo_rows" by (simp add: demo_rows_def)
  from virtual_range_covers [where rid = id and h = "\<lambda>_. 100" and st = 150 and vh = 100 and fh = 0
      and os = demo_overscan and prot = "[''e'']", OF this]
  show ?thesis by (simp add: demo_snapshot_def row_top_def demo_rows_def)
qed

lemma index_set_sorted: "sorted_wrt (<) (index_set xs)" "set (index_set xs) = set xs"
  by (simp_all add: index_set_def strict_sorted_iff)

text \<open>
  C9. What is rendered is exactly the rendered range and the protected rows, once each and in
  order, each at the place where the heights of the rows before it add up to; with the paddings
  and the rows of the range in between, the transcript always has its full height.
\<close>

theorem virtual_items_exact:
  fixes rows :: "'r list" and rid h st vh fh os prot
  defines "snap \<equiv> computeTranscriptVirtualRange rid h rows st vh fh os prot"
  assumes "rows \<noteq> []"
  shows "sorted_wrt (<) (map vi_index (rs_virtualItems snap)) \<and>
    set (map vi_index (rs_virtualItems snap)) =
      {i. i < length rows \<and>
         (rr_start (rs_renderRange snap) \<le> int i \<and> int i \<le> rr_end (rs_renderRange snap) \<or>
          rid (rows ! i) \<in> set prot)} \<and>
    (\<forall>it\<in>set (rs_virtualItems snap). vi_row it = rows ! vi_index it \<and>
       vi_start it = row_top h rows (vi_index it) \<and> vi_end it = row_top h rows (Suc (vi_index it)) \<and>
       (vi_visible it \<longleftrightarrow> isIndexInsideRange (int (vi_index it)) (rs_visibleRange snap)) \<and>
       (vi_protected it \<longleftrightarrow> rid (vi_row it) \<in> set prot)) \<and>
    rs_paddingStart snap = row_top h rows (nat (rr_start (rs_renderRange snap))) \<and>
    rs_paddingEnd snap = rs_totalHeight snap - row_top h rows (nat (rr_end (rs_renderRange snap) + 1)) \<and>
    rs_totalHeight snap = row_top h rows (length rows)"
proof -
  let ?r = "rs_renderRange snap" and ?ms = "buildRowMetrics rows h"
  let ?prot = "getProtectedIndexes rid rows prot"
  let ?ix = "index_set ([rr_start ?r..rr_end ?r] @ ?prot)"
  have b: "0 \<le> rr_start ?r" "rr_start ?r \<le> rr_end ?r" "rr_end ?r < int (length rows)"
    using snapshot_ranges [OF assms(2), of rid h st vh fh os prot] by (auto simp: snap_def)
  have prot: "set ?prot = {i. 0 \<le> i \<and> i < int (length rows) \<and> rid (rows ! nat i) \<in> set prot}"
    unfolding getProtectedIndexes_def
    by (auto simp: image_iff) (metis nat_less_iff nat_int int_nat_eq)
  have ix: "set ?ix = {i. 0 \<le> i \<and> i < int (length rows) \<and>
      (rr_start ?r \<le> i \<and> i \<le> rr_end ?r \<or> rid (rows ! nat i) \<in> set prot)}"
  proof -
    have "set ?ix = {rr_start ?r..rr_end ?r} \<union> set ?prot" by (simp add: index_set_sorted(2))
    then show ?thesis unfolding prot using b(1,3) by (simp add: set_eq_iff) (meson le_less_trans order_trans)
  qed
  define item where "item = (\<lambda>index. let row = rows ! nat index; metric = ?ms ! nat index in
      \<lparr>vi_index = nat index, vi_key = rid row, vi_row = row, vi_start = rm_start metric,
       vi_size = rm_size metric, vi_end = rm_end metric,
       vi_visible = isIndexInsideRange index (rs_visibleRange snap),
       vi_protected = index \<in> set ?prot\<rparr>)"
  have ren: "rs_renderRange snap = computeRenderRange ?ms
      (computeVisibleRangeFromMetrics (length rows) ?ms st vh) st vh os"
    and vis: "rs_visibleRange snap = computeVisibleRangeFromMetrics (length rows) ?ms st vh"
    by (simp_all add: snap_def computeTranscriptVirtualRange_def Let_def)
  have items: "rs_virtualItems snap = map item ?ix"
    unfolding item_def vis ren
    by (simp add: snap_def computeTranscriptVirtualRange_def createContiguousRangeIndexes_def Let_def)
  have "sorted_wrt (<) (map nat ?ix)"
    using index_set_sorted(1) [of "[rr_start ?r..rr_end ?r] @ ?prot"]
    unfolding sorted_wrt_map
    by (rule sorted_wrt_mono_rel [rotated]) (use ix in auto)
  moreover have "map vi_index (rs_virtualItems snap) = map nat ?ix"
    by (simp add: items item_def Let_def comp_def)
  moreover have "nat ` set ?ix = {i. i < length rows \<and>
      (rr_start ?r \<le> int i \<and> int i \<le> rr_end ?r \<or> rid (rows ! i) \<in> set prot)}"
    unfolding ix
  proof (intro set_eqI iffI, goal_cases)
    case (1 i)
    then show ?case by auto
  next
    case (2 i)
    then show ?case by (intro image_eqI [of _ _ "int i"]) auto
  qed
  moreover have "vi_row it = rows ! vi_index it \<and>
       vi_start it = row_top h rows (vi_index it) \<and> vi_end it = row_top h rows (Suc (vi_index it)) \<and>
       (vi_visible it \<longleftrightarrow> isIndexInsideRange (int (vi_index it)) (rs_visibleRange snap)) \<and>
       (vi_protected it \<longleftrightarrow> rid (vi_row it) \<in> set prot)" if "it \<in> set (rs_virtualItems snap)" for it
  proof -
    from that obtain i where i: "i \<in> set ?ix" "it = item i" by (auto simp: items)
    from i(1) have "0 \<le> i \<and> i < int (length rows)" unfolding ix by blast
    then obtain j where j: "i = int j" "j < length rows" by (metis nat_0_le nat_less_iff)
    have "i \<in> set ?prot \<longleftrightarrow> rid (rows ! j) \<in> set prot" unfolding prot using j by simp
    then show ?thesis using j(2) by (simp add: i(2) j(1) item_def Let_def buildRowMetrics_nth)
  qed
  moreover have tot: "rs_totalHeight snap = row_top h rows (length rows)"
    using assms(2) by (simp add: snap_def computeTranscriptVirtualRange_def Let_def metrics_last)
  moreover have "rs_paddingStart snap = row_top h rows (nat (rr_start ?r))"
  proof -
    have "nat (rr_start ?r) < length rows" using b by simp
    then show ?thesis using b unfolding ren
      by (simp add: snap_def computeTranscriptVirtualRange_def Let_def buildRowMetrics_nth)
  qed
  moreover have "rs_paddingEnd snap = rs_totalHeight snap - row_top h rows (nat (rr_end ?r + 1))"
  proof -
    obtain e where e: "rr_end ?r = int e" "e < length rows"
      using b by (metis nat_0_le nat_less_iff order_trans)
    have "row_top h rows (Suc e) \<le> row_top h rows (length rows)"
      using e(2) by (intro row_top_mono) simp
    moreover have "nat (int e + 1) = Suc e" by simp
    ultimately show ?thesis using assms(2) e(2) unfolding tot e(1)
      using e(1) [unfolded ren]
      by (simp add: snap_def computeTranscriptVirtualRange_def Let_def buildRowMetrics_nth metrics_last)
  qed
  ultimately show ?thesis by auto
qed

theorem virtual_items_exact_witness:
  "sorted_wrt (<) (map vi_index (rs_virtualItems demo_snapshot)) \<and>
   4 \<in> set (map vi_index (rs_virtualItems demo_snapshot)) \<and> rs_totalHeight demo_snapshot = 500"
proof -
  have "demo_rows \<noteq> []" by (simp add: demo_rows_def)
  note spec = virtual_items_exact [where rid = id and h = "\<lambda>_. 100" and st = 150 and vh = 100
      and fh = 0 and os = demo_overscan and prot = "[''e'']", OF this, folded demo_snapshot_def]
  from spec have "4 \<in> set (map vi_index (rs_virtualItems demo_snapshot))"
    by (simp only: mem_Collect_eq) (simp add: demo_rows_def)
  with spec show ?thesis by (simp add: row_top_def demo_rows_def)
qed

lemma clamp_bounds: "0 \<le> m \<Longrightarrow> 0 \<le> clampIndex i m \<and> clampIndex i m \<le> m"
  by (simp add: clampIndex_def)

lemma normalize_bounds:
  assumes "0 < n" "0 < ts_count rng"
  shows "0 \<le> vr_start (normalizeVisibleRange rng n) \<and>
    vr_start (normalizeVisibleRange rng n) \<le> vr_end (normalizeVisibleRange rng n) \<and>
    vr_end (normalizeVisibleRange rng n) < min (int n) (ts_count rng)"
proof -
  let ?m = "min (int n) (ts_count rng) - 1"
  have m: "0 \<le> ?m" using assms by simp
  show ?thesis
    using clamp_bounds [OF m, of "ts_start rng"] clamp_bounds [OF m, of "ts_end rng"] assms
    by (simp add: normalizeVisibleRange_def Let_def)
qed

text \<open>
  What the pixel range renders is in order, once each and within the list (or the count the
  virtualizer was given, for a protected row); it holds every row from the clamped visible range
  widened by the overscan on both sides, and every protected index that is a row.
\<close>

theorem pixel_range_spec:
  fixes rows :: "'r list" and h rng os prot
  defines "sel \<equiv> computeTranscriptPixelRangeIndexes h rows rng os prot"
  assumes "rows \<noteq> []" and "0 < ts_count rng"
  shows "sorted_wrt (<) (ps_indexes sel) \<and>
    (\<forall>i\<in>set (ps_indexes sel). 0 \<le> i \<and> i < max (int (length rows)) (ts_count rng)) \<and>
    0 \<le> vr_start (ps_visibleRange sel) \<and>
    vr_start (ps_visibleRange sel) \<le> vr_end (ps_visibleRange sel) \<and>
    vr_end (ps_visibleRange sel) < min (int (length rows)) (ts_count rng) \<and>
    (\<forall>i. 0 \<le> i \<and> i < int (length rows) \<and> vr_start (ps_visibleRange sel) - max 0 (ts_overscan rng) \<le> i \<and>
       i \<le> vr_end (ps_visibleRange sel) + max 0 (ts_overscan rng) \<longrightarrow> i \<in> set (ps_indexes sel)) \<and>
    (\<forall>i. of_int i \<in> set prot \<and> 0 \<le> i \<and> i < ts_count rng \<longrightarrow>
       i \<in> set (ps_indexes sel) \<and> i \<in> set (ps_protectedIndexes sel))"
proof -
  let ?v = "normalizeVisibleRange rng (length rows)" and ?ms = "buildRowMetrics rows h"
  let ?os = "os\<lparr>os_beforeRows := max (os_beforeRows os) (of_int (ts_overscan rng)),
                os_afterRows := max (os_afterRows os) (of_int (ts_overscan rng))\<rparr>"
  let ?s = "nat (vr_start ?v)" and ?e = "nat (vr_end ?v)"
  let ?bt = "max 0 (rm_start (?ms ! ?s) - os_beforePx os)" and ?at = "rm_end (?ms ! ?e) + os_afterPx os"
  let ?valid = "map floor (filter (\<lambda>i. is_integer i \<and> 0 \<le> i \<and> i < of_int (ts_count rng)) prot)"
  let ?rs = "expand_before ?ms ?bt (os_beforeRows ?os) ?s ?s"
  let ?re = "expand_after ?ms ?at (os_afterRows ?os) ?e ?e"
  have v: "0 \<le> vr_start ?v" "vr_start ?v \<le> vr_end ?v"
      "vr_end ?v < min (int (length rows)) (ts_count rng)"
    using normalize_bounds [of "length rows" rng] assms(2,3) by simp_all
  have sel: "ps_visibleRange sel = ?v"
    "ps_indexes sel = index_set ([int ?rs..int ?re] @ ?valid)"
    "ps_protectedIndexes sel = index_set ?valid"
    using v assms(2) by (simp_all add: sel_def computeTranscriptPixelRangeIndexes_def
        computeRenderRangeFromVisibleMetrics_def createContiguousRangeIndexes_def Let_def)
  have b: "?rs \<le> ?s" "?rs = 0 \<or> of_int (ts_overscan rng) \<le> (of_nat ?s - of_nat ?rs :: js_number)"
    using expand_before_spec [of ?ms ?bt "os_beforeRows ?os" ?s ?s] by auto
  have e: "?e \<le> ?re" "?re < length rows"
      "?re + 1 = length rows \<or> of_int (ts_overscan rng) \<le> (of_nat ?re - of_nat ?e :: js_number)"
    using expand_after_spec [of ?e ?ms ?at "os_afterRows ?os" ?e] v by auto
  have b': "?rs = 0 \<or> ts_overscan rng \<le> int ?s - int ?rs"
    using b(2) by (metis of_int_diff of_int_le_iff of_int_of_nat_eq)
  have e': "?re + 1 = length rows \<or> ts_overscan rng \<le> int ?re - int ?e"
    using e(3) by (metis of_int_diff of_int_le_iff of_int_of_nat_eq)
  have valid: "i \<in> set ?valid \<longleftrightarrow> of_int i \<in> set prot \<and> 0 \<le> i \<and> i < ts_count rng" for i
    by (auto simp: is_integer_def image_iff intro!: bexI [of _ "of_int i"])
  have mem: "i \<in> set (ps_indexes sel) \<longleftrightarrow> (int ?rs \<le> i \<and> i \<le> int ?re) \<or> i \<in> set ?valid" for i
    unfolding sel(2) by (simp only: index_set_sorted(2) set_append Un_iff) simp
  have "0 \<le> i \<and> i < max (int (length rows)) (ts_count rng)" if "i \<in> set (ps_indexes sel)" for i
  proof -
    have "int ?re < int (length rows)" using e(2) by simp
    then show ?thesis using that unfolding mem valid by linarith
  qed
  moreover have "i \<in> set (ps_indexes sel)" if "0 \<le> i" "i < int (length rows)"
      "vr_start ?v - max 0 (ts_overscan rng) \<le> i" "i \<le> vr_end ?v + max 0 (ts_overscan rng)" for i
    using that b(1) b' e(1) e' v unfolding mem by linarith
  moreover have "i \<in> set (ps_indexes sel) \<and> i \<in> set (ps_protectedIndexes sel)"
    if "of_int i \<in> set prot" "0 \<le> i" "i < ts_count rng" for i
    using that unfolding mem sel(3) index_set_sorted(2) valid by blast
  moreover have "sorted_wrt (<) (ps_indexes sel)" unfolding sel(2) by (rule index_set_sorted(1))
  ultimately show ?thesis using v unfolding sel(1) by blast
qed

theorem pixel_range_spec_witness:
  "4 \<in> set (ps_indexes (computeTranscriptPixelRangeIndexes (\<lambda>_. 100) demo_rows
      \<lparr>ts_start = 1, ts_end = 2, ts_overscan = 0, ts_count = 5\<rparr> demo_overscan [4, 1 / 2, 9]))"
proof -
  have ne: "demo_rows \<noteq> []" and c: "0 < ts_count \<lparr>ts_start = 1, ts_end = 2, ts_overscan = 0, ts_count = 5\<rparr>"
    by (simp_all add: demo_rows_def)
  show ?thesis
    using pixel_range_spec [OF ne c, where h = "\<lambda>_. 100" and os = demo_overscan
        and prot = "[4, 1 / 2, 9]"]
    by (auto dest!: spec [of _ 4])
qed

end
