(* ===== verification/ViewportTransition.thy ===== *)
theory ViewportTransition
  imports Prelude
begin

text \<open>
  The viewport of a transcript without a browser
  (\<open>src/src/features/chat/transcript/virtual/transcriptGeometryTransition.ts\<close> with the types of
  \<open>transcriptVirtualTypes.ts\<close>): the scroll position that was last observed and the proposal that
  waits for the browser. A number that may not be finite is an option, \<open>None\<close> for \<open>NaN\<close> and the
  infinities, which the code treats alike.
\<close>

datatype correction_reason = BottomAnchorReason | RowAnchorReason | StaleAnchorClamp | MissingAnchorClamp
  | ScrollToRowReason

record scroll_correction =
  sc_reason :: correction_reason
  sc_previousScrollTop :: js_number
  sc_nextScrollTop :: js_number
  sc_delta :: js_number

record geometry_viewport =
  gv_observedScrollTop :: js_number
  gv_pendingScroll :: "scroll_correction option"

type_synonym maybe_finite = "js_number option"

datatype geometry_event =
    GeometryObserve (ev_scrollTop: maybe_finite) (ev_maxScrollTop: maybe_finite)
  | GeometryPropose (ev_reason: correction_reason) (ev_scrollTop: maybe_finite)
      (ev_maxScrollTop: maybe_finite) (ev_epsilon: maybe_finite)

definition finiteNonNegative :: "maybe_finite \<Rightarrow> js_number" where
  "finiteNonNegative v = (case v of Some n \<Rightarrow> max 0 n | None \<Rightarrow> 0)"

definition clampFinite :: "maybe_finite \<Rightarrow> js_number \<Rightarrow> js_number" where
  "clampFinite v m = min m (max 0 (case v of Some n \<Rightarrow> n | None \<Rightarrow> 0))"

definition transitionTranscriptGeometryViewport ::
    "geometry_viewport \<Rightarrow> geometry_event \<Rightarrow> geometry_viewport \<times> scroll_correction option" where
  "transitionTranscriptGeometryViewport st event =
    (let maxScrollTop = finiteNonNegative (ev_maxScrollTop event) in
     case event of
       GeometryObserve scrollTop _ \<Rightarrow>
         (\<lparr>gv_observedScrollTop = clampFinite scrollTop maxScrollTop, gv_pendingScroll = None\<rparr>, None)
     | GeometryPropose reason scrollTop m eps \<Rightarrow>
         if scrollTop = None \<or> m = None then (st, None)
         else
           let epsilon = finiteNonNegative eps;
               nextScrollTop = clampFinite scrollTop maxScrollTop in
           if \<bar>nextScrollTop - gv_observedScrollTop st\<bar> \<le> epsilon
           then (st\<lparr>gv_pendingScroll := None\<rparr>, None)
           else
             let proposal = \<lparr>sc_reason = reason, sc_previousScrollTop = gv_observedScrollTop st,
               sc_nextScrollTop = nextScrollTop, sc_delta = nextScrollTop - gv_observedScrollTop st\<rparr> in
             case gv_pendingScroll st of
               Some p \<Rightarrow>
                 if \<bar>sc_nextScrollTop p - sc_nextScrollTop proposal\<bar> \<le> epsilon then (st, None)
                 else (st\<lparr>gv_pendingScroll := Some proposal\<rparr>, Some proposal)
             | None \<Rightarrow> (st\<lparr>gv_pendingScroll := Some proposal\<rparr>, Some proposal))"

section \<open>The position a viewport is heading for\<close>

definition heading :: "geometry_viewport \<Rightarrow> js_number" where
  \<comment> \<open>where the browser will be once it has done what was asked\<close>
  "heading st = (case gv_pendingScroll st of None \<Rightarrow> gv_observedScrollTop st | Some p \<Rightarrow> sc_nextScrollTop p)"

definition viewport_ok :: "geometry_viewport \<Rightarrow> bool" where
  "viewport_ok st \<longleftrightarrow> 0 \<le> gv_observedScrollTop st \<and>
    (case gv_pendingScroll st of None \<Rightarrow> True
     | Some p \<Rightarrow> sc_previousScrollTop p = gv_observedScrollTop st \<and> 0 \<le> sc_nextScrollTop p \<and>
         sc_delta p = sc_nextScrollTop p - sc_previousScrollTop p)"

lemma finiteNonNegative_Some [simp]: "finiteNonNegative (Some n) = max 0 n"
  by (simp add: finiteNonNegative_def)

lemma clampFinite_bounds:
  "0 \<le> m \<Longrightarrow> 0 \<le> clampFinite v m \<and> clampFinite v m \<le> m"
  by (simp add: clampFinite_def)

lemma finiteNonNegative_ge [simp]: "0 \<le> finiteNonNegative v"
  by (simp add: finiteNonNegative_def split: option.splits)

lemma transition_ok:
  "viewport_ok st \<Longrightarrow> viewport_ok (fst (transitionTranscriptGeometryViewport st event))"
  by (auto simp: transitionTranscriptGeometryViewport_def viewport_ok_def Let_def clampFinite_bounds
      split: geometry_event.splits option.splits)

lemma observe_position:
  "gv_observedScrollTop (fst (transitionTranscriptGeometryViewport st (GeometryObserve v m)))
    = clampFinite v (finiteNonNegative m)"
  "gv_pendingScroll (fst (transitionTranscriptGeometryViewport st (GeometryObserve v m))) = None"
  "snd (transitionTranscriptGeometryViewport st (GeometryObserve v m)) = None"
  by (simp_all add: transitionTranscriptGeometryViewport_def)

lemma propose_keeps_position:
  "gv_observedScrollTop (fst (transitionTranscriptGeometryViewport st (GeometryPropose r v m e)))
    = gv_observedScrollTop st"
  by (simp add: transitionTranscriptGeometryViewport_def Let_def split: option.splits)

lemma propose_heading:
  "\<bar>heading (fst (transitionTranscriptGeometryViewport st (GeometryPropose r (Some v) (Some m) (Some e))))
      - clampFinite (Some v) (max 0 m)\<bar> \<le> max 0 e"
  by (auto simp: transitionTranscriptGeometryViewport_def Let_def heading_def split: option.splits)

lemma propose_effect:
  "snd (transitionTranscriptGeometryViewport st (GeometryPropose r v m e)) = Some c \<Longrightarrow>
    gv_pendingScroll (fst (transitionTranscriptGeometryViewport st (GeometryPropose r v m e))) = Some c \<and>
    sc_reason c = r \<and> sc_previousScrollTop c = gv_observedScrollTop st \<and>
    sc_nextScrollTop c = clampFinite v (finiteNonNegative m) \<and> sc_delta c = sc_nextScrollTop c - sc_previousScrollTop c"
  by (auto simp: transitionTranscriptGeometryViewport_def Let_def split: option.splits if_splits)

lemma propose_settled:
  \<comment> \<open>proposing the same position again asks for nothing\<close>
  "snd (transitionTranscriptGeometryViewport
      (fst (transitionTranscriptGeometryViewport st (GeometryPropose r v m e))) (GeometryPropose r' v m e)) = None"
  by (auto simp: transitionTranscriptGeometryViewport_def Let_def split: option.splits)

end
