(* ===== verification/VirtualController.thy ===== *)
theory VirtualController
  imports VirtualRange ViewportTransition
begin

text \<open>
  The geometry of a transcript that is only rendered near the viewport
  (\<open>TranscriptVirtualController\<close> of
  \<open>src/src/features/chat/transcript/virtual/transcriptVirtualController.ts\<close>): measured row heights, the
  anchor that keeps what the user looks at in place, corrections of the scroll position, and the cached
  range. The object's fields are the record \<open>virtual_controller\<close>; a method that changes them takes
  and returns it, a result comes first in a pair. A \<open>Map\<close> is a partial function.
\<close>

section \<open>Data\<close>

definition TRANSCRIPT_PINNED_BOTTOM_THRESHOLD_PX :: js_number where
  "TRANSCRIPT_PINNED_BOTTOM_THRESHOLD_PX = 8"
definition TRANSCRIPT_AUTO_SCROLL_THRESHOLD_PX :: js_number where
  "TRANSCRIPT_AUTO_SCROLL_THRESHOLD_PX = 180"
definition TRANSCRIPT_MEASUREMENT_EPSILON_PX :: js_number where
  "TRANSCRIPT_MEASUREMENT_EPSILON_PX = 2"
definition TRANSCRIPT_VIEWPORT_GEOMETRY_EPSILON_PX :: js_number where
  "TRANSCRIPT_VIEWPORT_GEOMETRY_EPSILON_PX = 1"

type_synonym session_epoch = nat
  \<comment> \<open>an epoch counts how often a session was loaded\<close>

datatype anchor_priority = Stable | Streaming | NoAnchor

record row_descriptor =
  rd_rowId :: string
  rd_heightRevision :: string
  rd_layoutRevision :: string
  rd_anchorPriority :: anchor_priority
  rd_estimatedHeight :: js_number
  rd_spacingBefore :: js_number

record measurement_token =
  mt_sessionId :: string
  mt_sessionEpoch :: session_epoch
  mt_widthScope :: string
  mt_rowId :: string
  mt_heightRevision :: string
  mt_layoutRevision :: string

record measurement_entry =
  me_widthScope :: string
  me_heightRevision :: string
  me_layoutRevision :: string
  me_height :: js_number

record row_position =
  rp_top :: js_number
  rp_height :: js_number
  rp_bottom :: js_number

datatype scroll_anchor =
    AnchorBottom
  | AnchorPosition (sa_scrollTop: js_number)
  | AnchorRow (sa_rowId: string) (sa_offset: js_number) (sa_revision: string)

datatype pending_anchor =
    PendingBottom
  | PendingPosition js_number
  | PendingRow string js_number

datatype scroll_align = AlignStart | AlignCenter | AlignEnd | AlignAuto
datatype scroll_source = FromBrowser | FromProgram | FromCorrection
datatype scroll_direction = ScrollDown | ScrollUp | ScrollNone
datatype capture_fallback = FallbackBottom | FallbackPosition

record virtual_diagnostics =
  vd_rowSetUpdates :: nat
  vd_viewportUpdates :: nat
  vd_rangeCalculations :: nat
  vd_measuredHeightUpdates :: nat
  vd_corrections :: nat
  vd_bottomCorrections :: nat
  vd_rowCorrections :: nat
  vd_scrollToRowCorrections :: nat
  vd_staleMeasurementsDropped :: nat
  vd_staleMeasurementSessionDrops :: nat
  vd_staleMeasurementEpochDrops :: nat
  vd_staleMeasurementWidthDrops :: nat
  vd_staleMeasurementRevisionDrops :: nat
  vd_staleMeasurementMissingRowDrops :: nat
  vd_staleAnchorsDropped :: nat
  vd_missingAnchorsDropped :: nat
  vd_recapturedAnchors :: nat
  vd_bottomFollowExits :: nat
  vd_protectedRowsRendered :: nat
  vd_lastCorrection :: "scroll_correction option"

definition EMPTY_DIAGNOSTICS :: virtual_diagnostics where
  "EMPTY_DIAGNOSTICS =
    \<lparr>vd_rowSetUpdates = 0, vd_viewportUpdates = 0, vd_rangeCalculations = 0, vd_measuredHeightUpdates = 0,
     vd_corrections = 0, vd_bottomCorrections = 0, vd_rowCorrections = 0, vd_scrollToRowCorrections = 0,
     vd_staleMeasurementsDropped = 0, vd_staleMeasurementSessionDrops = 0, vd_staleMeasurementEpochDrops = 0,
     vd_staleMeasurementWidthDrops = 0, vd_staleMeasurementRevisionDrops = 0,
     vd_staleMeasurementMissingRowDrops = 0, vd_staleAnchorsDropped = 0, vd_missingAnchorsDropped = 0,
     vd_recapturedAnchors = 0, vd_bottomFollowExits = 0, vd_protectedRowsRendered = 0, vd_lastCorrection = None\<rparr>"

record session_geometry =
  sg_sessionId :: string
  sg_sessionEpoch :: session_epoch
  sg_widthScope :: string
  sg_viewportHeight :: js_number
  sg_footerHeight :: "js_number option"
  sg_scrollTop :: "js_number option"
  sg_browserScrollHeight :: "js_number option"

record viewport_geometry =
  vg_scrollTop :: js_number
  vg_viewportHeight :: js_number
  vg_widthScope :: string
  vg_footerHeight :: "js_number option"
  vg_browserScrollHeight :: "js_number option"

record sync_options =
  so_source :: "scroll_source option"
  so_userScrollIntent :: bool
  so_preserveScrollPosition :: bool

record controller_options =
  co_pinnedBottomThresholdPx :: "js_number option"
  co_autoScrollThresholdPx :: "js_number option"
  co_measurementEpsilonPx :: "js_number option"
  co_overscanBeforePx :: "js_number option"
  co_overscanAfterPx :: "js_number option"
  co_overscanBeforeRows :: "js_number option"
  co_overscanAfterRows :: "js_number option"
  co_protectedRowIds :: "string list option"

record virtual_controller =
  vc_rows :: "row_descriptor list"
  vc_rowIndexById :: "string \<rightharpoonup> nat"
  vc_measurements :: "string \<rightharpoonup> measurement_entry"
  vc_streamingHeightFloors :: "string \<rightharpoonup> js_number"
  vc_sessionId :: string
  vc_sessionEpoch :: session_epoch
  vc_widthScope :: string
  vc_viewport :: geometry_viewport
  vc_viewportHeight :: js_number
  vc_footerHeight :: js_number
  vc_browserScrollHeight :: "js_number option"
  vc_anchor :: scroll_anchor
  vc_lastRange :: "row_descriptor range_snapshot option"
  vc_diagnostics :: virtual_diagnostics
  vc_pinnedBottomThresholdPx :: js_number
  vc_autoScrollThresholdPx :: js_number
  vc_measurementEpsilonPx :: js_number
  vc_overscan :: overscan
  vc_protectedRowIds :: "string list"

definition count :: "(virtual_diagnostics \<Rightarrow> virtual_diagnostics) \<Rightarrow> virtual_controller \<Rightarrow> virtual_controller" where
  "count f c = c\<lparr>vc_diagnostics := f (vc_diagnostics c)\<rparr>"

section \<open>Row heights and positions\<close>

definition getTranscriptRowEstimatedHeight :: "row_descriptor \<Rightarrow> js_number" where
  "getTranscriptRowEstimatedHeight row = max 0 (rd_estimatedHeight row) + max 0 (rd_spacingBefore row)"

definition measurementKey :: "string \<Rightarrow> string" where
  "measurementKey rowId = rowId"

definition getRow :: "virtual_controller \<Rightarrow> string \<Rightarrow> row_descriptor option" where
  "getRow c rowId = (case vc_rowIndexById c rowId of
      None \<Rightarrow> None
    | Some index \<Rightarrow> if index < length (vc_rows c) then Some (vc_rows c ! index) else None)"

definition getRowHeight :: "virtual_controller \<Rightarrow> row_descriptor \<Rightarrow> js_number" where
  "getRowHeight c row =
    (let measured = vc_measurements c (measurementKey (rd_rowId row));
         estimatedHeight = getTranscriptRowEstimatedHeight row;
         measuredHeight = (case measured of
             None \<Rightarrow> None
           | Some m \<Rightarrow>
               if me_heightRevision m = rd_heightRevision row \<and> me_layoutRevision m = rd_layoutRevision row
               then Some (me_height m) else None);
         measuredFloorHeight = (case measured of
             None \<Rightarrow> 0
           | Some m \<Rightarrow> if me_layoutRevision m = rd_layoutRevision row then me_height m else 0) in
     if rd_anchorPriority row = Streaming
     then max (max (or_else measuredHeight estimatedHeight) measuredFloorHeight)
       (or_else (vc_streamingHeightFloors c (measurementKey (rd_rowId row))) 0)
     else or_else measuredHeight estimatedHeight)"

definition getRowsHeight :: "virtual_controller \<Rightarrow> js_number" where
  "getRowsHeight c = foldl (\<lambda>total row. total + getRowHeight c row) 0 (vc_rows c)"

fun positions_from :: "virtual_controller \<Rightarrow> js_number \<Rightarrow> row_descriptor list \<Rightarrow> (row_descriptor \<times> row_position) list" where
  \<comment> \<open>the walk over the rows that adds up their heights\<close>
  "positions_from c start [] = []"
| "positions_from c start (row # rows) =
    (let height = getRowHeight c row; bottom = start + height in
     (row, \<lparr>rp_top = start, rp_height = height, rp_bottom = bottom\<rparr>) # positions_from c bottom rows)"

definition row_positions :: "virtual_controller \<Rightarrow> (row_descriptor \<times> row_position) list" where
  "row_positions c = positions_from c 0 (vc_rows c)"

definition getRowPosition :: "virtual_controller \<Rightarrow> string \<Rightarrow> row_position option" where
  "getRowPosition c rowId = map_option snd (List.find (\<lambda>p. rd_rowId (fst p) = rowId) (row_positions c))"

definition getRowTop :: "virtual_controller \<Rightarrow> string \<Rightarrow> js_number" where
  "getRowTop c rowId = (case getRowPosition c rowId of Some p \<Rightarrow> rp_top p | None \<Rightarrow> getRowsHeight c)"

definition getVirtualScrollHeight :: "virtual_controller \<Rightarrow> js_number" where
  "getVirtualScrollHeight c = getRowsHeight c + vc_footerHeight c"

definition getBottomScrollTop :: "virtual_controller \<Rightarrow> js_number" where
  "getBottomScrollTop c =
    (let virtualBottom = getVirtualScrollHeight c - vc_viewportHeight c;
         browserBottom = (case vc_browserScrollHeight c of None \<Rightarrow> 0 | Some h \<Rightarrow> h - vc_viewportHeight c) in
     max (max 0 virtualBottom) browserBottom)"

definition observedScrollTop :: "virtual_controller \<Rightarrow> js_number" where
  "observedScrollTop c = gv_observedScrollTop (vc_viewport c)"

definition getDistanceFromBottom :: "virtual_controller \<Rightarrow> js_number \<Rightarrow> js_number" where
  "getDistanceFromBottom c scrollTop = max 0 (getBottomScrollTop c - scrollTop)"

definition clampScrollTop :: "virtual_controller \<Rightarrow> js_number \<Rightarrow> js_number" where
  "clampScrollTop c scrollTop = min (max 0 scrollTop) (getBottomScrollTop c)"

definition getScrollDirection :: "js_number \<Rightarrow> js_number \<Rightarrow> scroll_direction" where
  "getScrollDirection previousScrollTop nextScrollTop =
    (if nextScrollTop > previousScrollTop then ScrollDown
     else if nextScrollTop < previousScrollTop then ScrollUp else ScrollNone)"

section \<open>Anchors\<close>

definition setScrollAnchor :: "pending_anchor \<Rightarrow> virtual_controller \<Rightarrow> virtual_controller" where
  "setScrollAnchor anchor c = c\<lparr>vc_anchor :=
    (case anchor of
       PendingBottom \<Rightarrow> AnchorBottom
     | PendingPosition scrollTop \<Rightarrow> AnchorPosition (clampScrollTop c scrollTop)
     | PendingRow rowId offset \<Rightarrow>
         (case getRow c rowId of
            None \<Rightarrow> AnchorRow rowId offset []
          | Some row \<Rightarrow> AnchorRow rowId offset (rd_heightRevision row)))\<rparr>"

definition findAnchorableRow ::
    "virtual_controller \<Rightarrow> anchor_priority \<Rightarrow> js_number \<Rightarrow> (row_descriptor \<times> row_position) option" where
  "findAnchorableRow c priority viewportEnd =
    List.find (\<lambda>(row, position). rd_anchorPriority row = priority \<and>
      rp_bottom position > observedScrollTop c \<and> rp_top position < viewportEnd) (row_positions c)"

fun nearest_loop :: "js_number \<Rightarrow> js_number \<Rightarrow> anchor_priority \<Rightarrow> (row_descriptor \<times> row_position) list \<Rightarrow>
    (row_descriptor \<times> row_position) option \<Rightarrow> (row_descriptor \<times> row_position) option \<Rightarrow>
    (row_descriptor \<times> row_position) option" where
  "nearest_loop observed viewportEnd priority [] nearestBefore nearestAfter = or_option nearestBefore nearestAfter"
| "nearest_loop observed viewportEnd priority ((row, position) # rest) nearestBefore nearestAfter =
    (if rd_anchorPriority row \<noteq> priority
     then nearest_loop observed viewportEnd priority rest nearestBefore nearestAfter
     else if rp_bottom position \<le> observed
     then nearest_loop observed viewportEnd priority rest (Some (row, position)) nearestAfter
     else if rp_top position \<ge> viewportEnd
     then nearest_loop observed viewportEnd priority rest nearestBefore (or_option nearestAfter (Some (row, position)))
     else nearest_loop observed viewportEnd priority rest nearestBefore nearestAfter)"

definition findNearestAnchorableRow ::
    "virtual_controller \<Rightarrow> anchor_priority \<Rightarrow> js_number \<Rightarrow> (row_descriptor \<times> row_position) option" where
  "findNearestAnchorableRow c priority viewportEnd =
    nearest_loop (observedScrollTop c) viewportEnd priority (row_positions c) None None"

definition captureViewportAnchor :: "capture_fallback \<Rightarrow> virtual_controller \<Rightarrow> virtual_controller" where
  "captureViewportAnchor fallback c =
    (let viewportEnd = observedScrollTop c + vc_viewportHeight c;
         stable = findAnchorableRow c Stable viewportEnd;
         streaming = findAnchorableRow c Streaming viewportEnd;
         nearestStable = findNearestAnchorableRow c Stable viewportEnd;
         nearestStreaming = findNearestAnchorableRow c Streaming viewportEnd;
         selected = or_option stable (or_option streaming (or_option nearestStable nearestStreaming)) in
     case selected of
       None \<Rightarrow> setScrollAnchor
         (if fallback = FallbackPosition then PendingPosition (observedScrollTop c) else PendingBottom) c
     | Some (row, position) \<Rightarrow>
         count (\<lambda>d. d\<lparr>vd_recapturedAnchors := vd_recapturedAnchors d + 1\<rparr>)
           (setScrollAnchor (PendingRow (rd_rowId row) (observedScrollTop c - rp_top position)) c))"

datatype anchor_resolution = AnchorResolved | AnchorStale | AnchorMissing

definition resolveAnchor :: "virtual_controller \<Rightarrow> anchor_resolution" where
  "resolveAnchor c =
    (case vc_anchor c of
       AnchorBottom \<Rightarrow> AnchorResolved
     | AnchorPosition _ \<Rightarrow> AnchorResolved
     | AnchorRow rowId offset revision \<Rightarrow>
         (case getRow c rowId of
            None \<Rightarrow> AnchorMissing
          | Some row \<Rightarrow> if rd_heightRevision row \<noteq> revision then AnchorStale else AnchorResolved))"

section \<open>Corrections\<close>

definition recordCorrection :: "scroll_correction \<Rightarrow> virtual_controller \<Rightarrow> virtual_controller" where
  "recordCorrection correction c = count (\<lambda>d.
    let d = d\<lparr>vd_corrections := vd_corrections d + 1, vd_lastCorrection := Some correction\<rparr> in
    (case sc_reason correction of
       BottomAnchorReason \<Rightarrow> d\<lparr>vd_bottomCorrections := vd_bottomCorrections d + 1\<rparr>
     | RowAnchorReason \<Rightarrow> d\<lparr>vd_rowCorrections := vd_rowCorrections d + 1\<rparr>
     | ScrollToRowReason \<Rightarrow> d\<lparr>vd_scrollToRowCorrections := vd_scrollToRowCorrections d + 1\<rparr>
     | StaleAnchorClamp \<Rightarrow> d
     | MissingAnchorClamp \<Rightarrow> d)) c"

definition applyScrollCorrection ::
    "correction_reason \<Rightarrow> js_number \<Rightarrow> virtual_controller \<Rightarrow> scroll_correction option \<times> virtual_controller" where
  "applyScrollCorrection reason nextScrollTop c =
    (let (st, effect) = transitionTranscriptGeometryViewport (vc_viewport c)
           (GeometryPropose reason (Some nextScrollTop) (Some (getBottomScrollTop c)) (Some (vc_measurementEpsilonPx c)));
         c = c\<lparr>vc_viewport := st\<rparr> in
     (effect, case effect of None \<Rightarrow> c | Some correction \<Rightarrow> recordCorrection correction c))"

definition reconcileAnchor ::
    "correction_reason \<Rightarrow> bool \<Rightarrow> virtual_controller \<Rightarrow> scroll_correction option \<times> virtual_controller" where
  "reconcileAnchor reason updateAnchorOnStale c =
    (case vc_anchor c of
       AnchorBottom \<Rightarrow> applyScrollCorrection BottomAnchorReason (getBottomScrollTop c) c
     | AnchorPosition scrollTop \<Rightarrow> applyScrollCorrection RowAnchorReason scrollTop c
     | AnchorRow rowId offset revision \<Rightarrow>
         (case resolveAnchor c of
            AnchorResolved \<Rightarrow>
              applyScrollCorrection reason (clampScrollTop c (getRowTop c rowId + offset)) c
          | resolution \<Rightarrow>
              (let c = count (\<lambda>d.
                     if resolution = AnchorStale
                     then d\<lparr>vd_staleAnchorsDropped := vd_staleAnchorsDropped d + 1\<rparr>
                     else d\<lparr>vd_missingAnchorsDropped := vd_missingAnchorsDropped d + 1\<rparr>) c;
                   (correction, c) = applyScrollCorrection
                     (if resolution = AnchorStale then StaleAnchorClamp else MissingAnchorClamp)
                     (clampScrollTop c (observedScrollTop c)) c in
               (correction, if updateAnchorOnStale then captureViewportAnchor FallbackBottom c else c))))"

definition anchor_reason :: "virtual_controller \<Rightarrow> correction_reason" where
  "anchor_reason c = (if vc_anchor c = AnchorBottom then BottomAnchorReason else RowAnchorReason)"

section \<open>Construction and rows\<close>

definition createTranscriptVirtualController ::
    "session_geometry \<Rightarrow> controller_options \<Rightarrow> virtual_controller" where
  "createTranscriptVirtualController input options =
    \<lparr>vc_rows = [], vc_rowIndexById = Map.empty, vc_measurements = Map.empty,
     vc_streamingHeightFloors = Map.empty,
     vc_sessionId = sg_sessionId input, vc_sessionEpoch = sg_sessionEpoch input,
     vc_widthScope = sg_widthScope input,
     vc_viewport = \<lparr>gv_observedScrollTop = max 0 (or_else (sg_scrollTop input) 0), gv_pendingScroll = None\<rparr>,
     vc_viewportHeight = max 0 (sg_viewportHeight input),
     vc_footerHeight = max 0 (or_else (sg_footerHeight input) 0),
     vc_browserScrollHeight = map_option (max 0) (sg_browserScrollHeight input),
     vc_anchor = AnchorBottom, vc_lastRange = None, vc_diagnostics = EMPTY_DIAGNOSTICS,
     vc_pinnedBottomThresholdPx =
       or_else (co_pinnedBottomThresholdPx options) TRANSCRIPT_PINNED_BOTTOM_THRESHOLD_PX,
     vc_autoScrollThresholdPx =
       or_else (co_autoScrollThresholdPx options) TRANSCRIPT_AUTO_SCROLL_THRESHOLD_PX,
     vc_measurementEpsilonPx =
       or_else (co_measurementEpsilonPx options) TRANSCRIPT_MEASUREMENT_EPSILON_PX,
     vc_overscan =
       \<lparr>os_beforePx = or_else (co_overscanBeforePx options) TRANSCRIPT_DEFAULT_OVERSCAN_BEFORE_PX,
        os_afterPx = or_else (co_overscanAfterPx options) TRANSCRIPT_DEFAULT_OVERSCAN_AFTER_PX,
        os_beforeRows = or_else (co_overscanBeforeRows options) TRANSCRIPT_DEFAULT_OVERSCAN_BEFORE_ROWS,
        os_afterRows = or_else (co_overscanAfterRows options) TRANSCRIPT_DEFAULT_OVERSCAN_AFTER_ROWS\<rparr>,
     vc_protectedRowIds = or_else (co_protectedRowIds options) []\<rparr>"

definition reset :: "session_geometry \<Rightarrow> virtual_controller \<Rightarrow> virtual_controller" where
  "reset input c = setScrollAnchor PendingBottom (c
    \<lparr>vc_sessionId := sg_sessionId input, vc_sessionEpoch := sg_sessionEpoch input,
     vc_widthScope := sg_widthScope input,
     vc_viewport := \<lparr>gv_observedScrollTop = max 0 (or_else (sg_scrollTop input) 0), gv_pendingScroll = None\<rparr>,
     vc_viewportHeight := max 0 (sg_viewportHeight input),
     vc_footerHeight := max 0 (or_else (sg_footerHeight input) 0),
     vc_browserScrollHeight := map_option (max 0) (sg_browserScrollHeight input),
     vc_rows := [], vc_rowIndexById := Map.empty, vc_measurements := Map.empty,
     vc_streamingHeightFloors := Map.empty, vc_lastRange := None\<rparr>)"

definition row_index :: "row_descriptor list \<Rightarrow> string \<rightharpoonup> nat" where
  \<comment> \<open>\<open>new Map(entries)\<close>: a later entry replaces an earlier one with its key\<close>
  "row_index rows = map_of (rev (zip (map rd_rowId rows) [0..<length rows]))"

definition releaseInactiveStreamingFloors :: "virtual_controller \<Rightarrow> virtual_controller" where
  "releaseInactiveStreamingFloors c =
    (let activeStreamingKeys = set (map (\<lambda>row. measurementKey (rd_rowId row))
           (filter (\<lambda>row. rd_anchorPriority row = Streaming) (vc_rows c))) in
     c\<lparr>vc_streamingHeightFloors := vc_streamingHeightFloors c |` activeStreamingKeys\<rparr>)"

definition setRows :: "row_descriptor list \<Rightarrow> virtual_controller \<Rightarrow> scroll_correction option \<times> virtual_controller" where
  "setRows rows c =
    (let c = c\<lparr>vc_rows := rows, vc_rowIndexById := row_index rows\<rparr>;
         c = releaseInactiveStreamingFloors c;
         c = count (\<lambda>d. d\<lparr>vd_rowSetUpdates := vd_rowSetUpdates d + 1\<rparr>) (c\<lparr>vc_lastRange := None\<rparr>) in
     reconcileAnchor (anchor_reason c) True c)"

section \<open>The viewport\<close>

definition syncViewport ::
    "viewport_geometry \<Rightarrow> sync_options \<Rightarrow> virtual_controller \<Rightarrow> scroll_correction option \<times> virtual_controller" where
  "syncViewport geometry options c =
    (let previousScrollTop = observedScrollTop c;
         nextViewportHeight = max 0 (vg_viewportHeight geometry);
         nextFooterHeight = max 0 (or_else (vg_footerHeight geometry) 0);
         geometryChanged =
           (\<bar>nextViewportHeight - vc_viewportHeight c\<bar> > TRANSCRIPT_VIEWPORT_GEOMETRY_EPSILON_PX \<or>
            \<bar>nextFooterHeight - vc_footerHeight c\<bar> > TRANSCRIPT_VIEWPORT_GEOMETRY_EPSILON_PX \<or>
            vg_widthScope geometry \<noteq> vc_widthScope c);
         c = c\<lparr>vc_viewportHeight := nextViewportHeight, vc_footerHeight := nextFooterHeight,
           vc_widthScope := vg_widthScope geometry,
           vc_browserScrollHeight := map_option (max 0) (vg_browserScrollHeight geometry)\<rparr>;
         c = c\<lparr>vc_viewport := fst (transitionTranscriptGeometryViewport (vc_viewport c)
           (GeometryObserve (Some (vg_scrollTop geometry)) (Some (getBottomScrollTop c))))\<rparr>;
         c = count (\<lambda>d. d\<lparr>vd_viewportUpdates := vd_viewportUpdates d + 1\<rparr>) (c\<lparr>vc_lastRange := None\<rparr>);
         direction = getScrollDirection previousScrollTop (observedScrollTop c);
         source = or_else (so_source options) FromBrowser;
         distanceFromBottom = getDistanceFromBottom c (observedScrollTop c);
         treatAsUserScroll = (source = FromBrowser \<and> (so_userScrollIntent options \<or> \<not> geometryChanged)) in
     if treatAsUserScroll \<and> so_preserveScrollPosition options
     then (None, captureViewportAnchor FallbackPosition c)
     else if treatAsUserScroll \<and> vc_anchor c = AnchorBottom \<and> direction = ScrollUp \<and>
       distanceFromBottom > vc_pinnedBottomThresholdPx c
     then (None, captureViewportAnchor FallbackBottom
       (count (\<lambda>d. d\<lparr>vd_bottomFollowExits := vd_bottomFollowExits d + 1\<rparr>) c))
     else if treatAsUserScroll \<and> (so_userScrollIntent options \<or> direction \<noteq> ScrollNone)
     then (None,
       if distanceFromBottom \<le> vc_pinnedBottomThresholdPx c then setScrollAnchor PendingBottom c
       else captureViewportAnchor FallbackBottom c)
     else reconcileAnchor (anchor_reason c) True c)"

section \<open>Measurements\<close>

definition getMeasurementToken :: "virtual_controller \<Rightarrow> string \<Rightarrow> measurement_token option" where
  "getMeasurementToken c rowId = (case getRow c rowId of
      None \<Rightarrow> None
    | Some row \<Rightarrow> Some \<lparr>mt_sessionId = vc_sessionId c, mt_sessionEpoch = vc_sessionEpoch c,
        mt_widthScope = vc_widthScope c, mt_rowId = rowId, mt_heightRevision = rd_heightRevision row,
        mt_layoutRevision = rd_layoutRevision row\<rparr>)"

definition validateMeasurementToken :: "measurement_token \<Rightarrow> virtual_controller \<Rightarrow> bool \<times> virtual_controller" where
  "validateMeasurementToken token c =
    (let row = getRow c (mt_rowId token);
         sessionStale = (mt_sessionId token \<noteq> vc_sessionId c);
         epochStale = (mt_sessionEpoch token \<noteq> vc_sessionEpoch c);
         widthStale = (mt_widthScope token \<noteq> vc_widthScope c);
         missing = (row = None);
         revisionStale = (case row of None \<Rightarrow> False
           | Some r \<Rightarrow> rd_heightRevision r \<noteq> mt_heightRevision token \<or> rd_layoutRevision r \<noteq> mt_layoutRevision token);
         valid = (\<not> (sessionStale \<or> epochStale \<or> widthStale \<or> missing \<or> revisionStale)) in
     (valid, count (\<lambda>d. d
       \<lparr>vd_staleMeasurementSessionDrops := vd_staleMeasurementSessionDrops d + (if sessionStale then 1 else 0),
        vd_staleMeasurementEpochDrops := vd_staleMeasurementEpochDrops d + (if epochStale then 1 else 0),
        vd_staleMeasurementWidthDrops := vd_staleMeasurementWidthDrops d + (if widthStale then 1 else 0),
        vd_staleMeasurementMissingRowDrops := vd_staleMeasurementMissingRowDrops d + (if missing then 1 else 0),
        vd_staleMeasurementRevisionDrops := vd_staleMeasurementRevisionDrops d + (if revisionStale then 1 else 0),
        vd_staleMeasurementsDropped := vd_staleMeasurementsDropped d + (if valid then 0 else 1)\<rparr>) c))"

definition updateStreamingHeightFloor :: "row_descriptor \<Rightarrow> js_number \<Rightarrow> virtual_controller \<Rightarrow> virtual_controller" where
  "updateStreamingHeightFloor row measuredHeight c =
    (let key = measurementKey (rd_rowId row) in
     c\<lparr>vc_streamingHeightFloors := (vc_streamingHeightFloors c)
       (key \<mapsto> max (max (or_else (vc_streamingHeightFloors c key) 0) (getRowHeight c row)) measuredHeight)\<rparr>)"

definition record_measurement :: "measurement_token \<Rightarrow> js_number \<Rightarrow> virtual_controller \<Rightarrow> virtual_controller" where
  \<comment> \<open>what \<open>applyMeasuredHeight\<close> and \<open>applyMeasuredHeights\<close> both do with a valid token\<close>
  "record_measurement token measured c =
    (let height = max 0 measured;
         c = (case getRow c (mt_rowId token) of
             None \<Rightarrow> c
           | Some row \<Rightarrow> if rd_anchorPriority row = Streaming then updateStreamingHeightFloor row height c else c);
         c = c\<lparr>vc_measurements := (vc_measurements c)(measurementKey (mt_rowId token) \<mapsto>
           \<lparr>me_widthScope = mt_widthScope token, me_heightRevision = mt_heightRevision token,
            me_layoutRevision = mt_layoutRevision token, me_height = height\<rparr>)\<rparr> in
     count (\<lambda>d. d\<lparr>vd_measuredHeightUpdates := vd_measuredHeightUpdates d + 1\<rparr>) c)"

definition applyMeasuredHeight ::
    "measurement_token \<Rightarrow> js_number \<Rightarrow> virtual_controller \<Rightarrow> (bool \<times> scroll_correction option) \<times> virtual_controller" where
  "applyMeasuredHeight token height c =
    (let (valid, c) = validateMeasurementToken token c in
     if \<not> valid then ((False, None), c)
     else
       let c = (record_measurement token height c)\<lparr>vc_lastRange := None\<rparr>;
           (correction, c) = reconcileAnchor (anchor_reason c) True c in
       ((True, correction), c))"

fun measure_all ::
    "(measurement_token \<times> js_number) list \<Rightarrow> measurement_token list \<Rightarrow> nat \<Rightarrow> virtual_controller \<Rightarrow>
     measurement_token list \<times> nat \<times> virtual_controller" where
  \<comment> \<open>the loop of \<open>applyMeasuredHeights\<close>\<close>
  "measure_all [] acceptedTokens rejected c = (acceptedTokens, rejected, c)"
| "measure_all ((token, height) # inputs) acceptedTokens rejected c =
    (let (valid, c) = validateMeasurementToken token c in
     if \<not> valid then measure_all inputs acceptedTokens (rejected + 1) c
     else measure_all inputs (acceptedTokens @ [token]) rejected (record_measurement token height c))"

definition applyMeasuredHeights ::
    "(measurement_token \<times> js_number) list \<Rightarrow> virtual_controller \<Rightarrow>
     (measurement_token list \<times> nat \<times> scroll_correction option) \<times> virtual_controller" where
  "applyMeasuredHeights inputs c =
    (let (acceptedTokens, rejected, c) = measure_all inputs [] 0 c in
     if acceptedTokens = [] then ((acceptedTokens, rejected, None), c)
     else
       let c = c\<lparr>vc_lastRange := None\<rparr>;
           (correction, c) = reconcileAnchor (anchor_reason c) True c in
       ((acceptedTokens, rejected, correction), c))"

section \<open>Scrolling to a row, the range and the state\<close>

definition getScrollTopForRow :: "virtual_controller \<Rightarrow> string \<Rightarrow> scroll_align \<Rightarrow> js_number option" where
  "getScrollTopForRow c rowId align =
    (case getRow c rowId of
       None \<Rightarrow> None
     | Some row \<Rightarrow>
         (case getRowPosition c (rd_rowId row) of
            None \<Rightarrow> None
          | Some position \<Rightarrow>
              let current = observedScrollTop c;
                  viewportEnd = current + vc_viewportHeight c;
                  nextScrollTop = (case align of
                      AlignStart \<Rightarrow> rp_top position
                    | AlignCenter \<Rightarrow> rp_top position - (vc_viewportHeight c - rp_height position) / 2
                    | AlignEnd \<Rightarrow> rp_bottom position - vc_viewportHeight c
                    | AlignAuto \<Rightarrow>
                        if rp_top position \<ge> current \<and> rp_bottom position \<le> viewportEnd then current
                        else if rp_top position < current then rp_top position
                        else rp_bottom position - vc_viewportHeight c) in
              Some (clampScrollTop c nextScrollTop)))"

definition scrollToRow ::
    "string \<Rightarrow> scroll_align \<Rightarrow> virtual_controller \<Rightarrow> (bool \<times> scroll_correction option) \<times> virtual_controller" where
  "scrollToRow rowId align c =
    (case getRow c rowId of
       None \<Rightarrow> ((False, None), c)
     | Some row \<Rightarrow>
         (case getScrollTopForRow c rowId align of
            None \<Rightarrow> ((False, None), c)
          | Some target \<Rightarrow>
              let (correction, c) = applyScrollCorrection ScrollToRowReason target c in
              ((True, correction), c)))"

definition current_range :: "virtual_controller \<Rightarrow> row_descriptor range_snapshot" where
  \<comment> \<open>the call of \<open>computeTranscriptVirtualRange\<close> in \<open>getRange\<close>\<close>
  "current_range c = computeTranscriptVirtualRange rd_rowId (getRowHeight c) (vc_rows c) (observedScrollTop c)
    (vc_viewportHeight c) (vc_footerHeight c) (vc_overscan c) (vc_protectedRowIds c)"

definition getRange :: "virtual_controller \<Rightarrow> row_descriptor range_snapshot \<times> virtual_controller" where
  "getRange c =
    (case vc_lastRange c of
       Some rng \<Rightarrow> (rng, c)
     | None \<Rightarrow>
         let c = count (\<lambda>d. d\<lparr>vd_rangeCalculations := vd_rangeCalculations d + 1\<rparr>) c;
             rng = current_range c;
             c = c\<lparr>vc_lastRange := Some rng\<rparr> in
         (rng, count (\<lambda>d. d\<lparr>vd_protectedRowsRendered := length (rs_protectedRowIds rng)\<rparr>) c))"

definition getPendingScrollCorrection :: "virtual_controller \<Rightarrow> scroll_correction option" where
  "getPendingScrollCorrection c = gv_pendingScroll (vc_viewport c)"

record controller_state =
  cs_sessionId :: string
  cs_sessionEpoch :: session_epoch
  cs_widthScope :: string
  cs_scrollTop :: js_number
  cs_viewportHeight :: js_number
  cs_footerHeight :: js_number
  cs_virtualScrollHeight :: js_number
  cs_bottomScrollTop :: js_number
  cs_distanceFromBottom :: js_number
  cs_pinnedToBottom :: bool
  cs_nearBottom :: bool
  cs_anchor :: scroll_anchor
  cs_rowCount :: nat

definition getState :: "virtual_controller \<Rightarrow> controller_state" where
  "getState c =
    (let bottomScrollTop = getBottomScrollTop c;
         distanceFromBottom = max 0 (bottomScrollTop - observedScrollTop c) in
     \<lparr>cs_sessionId = vc_sessionId c, cs_sessionEpoch = vc_sessionEpoch c, cs_widthScope = vc_widthScope c,
      cs_scrollTop = observedScrollTop c, cs_viewportHeight = vc_viewportHeight c,
      cs_footerHeight = vc_footerHeight c, cs_virtualScrollHeight = getVirtualScrollHeight c,
      cs_bottomScrollTop = bottomScrollTop, cs_distanceFromBottom = distanceFromBottom,
      cs_pinnedToBottom = (distanceFromBottom \<le> vc_pinnedBottomThresholdPx c),
      cs_nearBottom = (distanceFromBottom < vc_autoScrollThresholdPx c),
      cs_anchor = vc_anchor c, cs_rowCount = length (vc_rows c)\<rparr>)"

definition getDiagnostics :: "virtual_controller \<Rightarrow> virtual_diagnostics" where
  "getDiagnostics c = vc_diagnostics c"

end
