(* ===== verification/MeasurementScheduler.thy ===== *)
theory MeasurementScheduler
  imports VirtualController JsStrings
begin

text \<open>
  Measured row heights on their way to the transcript controller
  (\<open>src/src/features/chat/transcript/virtual/measurement/transcriptMeasurementScheduler.ts\<close> with the
  decision of \<open>measurement/transcriptLayoutPending.ts\<close>): a cache with eviction of the least recently
  used entry, and a scheduler that validates measurements, keeps the ones that wait for a stable layout
  and queues the others for the controller. A \<open>Map\<close> is an association list in insertion order. The
  clock is the argument \<open>now\<close>; a call of \<open>onControllerBatchQueued\<close> is counted.
\<close>

section \<open>Data\<close>

datatype measurement_policy = MeasureReal | MeasureShell | EstimateOnly

record scheduled_row = row_descriptor +
  sr_measurementPolicy :: measurement_policy
  sr_canOffscreenRenderReal :: bool
  sr_canOffscreenRenderShell :: bool

datatype measurement_source = Visible | OffscreenReal | OffscreenShell | Reserved | Estimate

record cache_entry =
  ce_token :: measurement_token
  ce_height :: js_number
  ce_source :: measurement_source
  ce_finalized :: bool
  ce_updatedAt :: js_number

record cache_stats =
  cst_size :: nat
  cst_hits :: nat
  cst_misses :: nat
  cst_writes :: nat
  cst_evictions :: nat

record measurement_cache =
  mc_maxEntries :: js_number
  mc_entries :: "cache_entry jsobj"
  mc_hits :: nat
  mc_misses :: nat
  mc_writes :: nat
  mc_evictions :: nat

record plan_base =
  mp_rowId :: string
  mp_token :: measurement_token
  mp_estimatedHeight :: js_number
  mp_cachedHeight :: "js_number option"
  mp_cachedSource :: "measurement_source option"

datatype plan_kind = PlanMounted | PlanOffscreenReal | PlanOffscreenShell | PlanEstimateOnly

datatype measurement_plan = Plan plan_kind plan_base | PlanMissingRow string

datatype drop_reason = StaleToken | PolicyBlocked | LayoutPending | MissingRow

datatype block_source = FromMeasured | FromReserved

datatype record_result =
    RecordAccepted cache_entry bool
  | RecordPending measurement_token js_number block_source
  | RecordDropped drop_reason measurement_token

record measured_root =
  \<comment> \<open>what the decision reads from the element: a pending marker on it or below, and its reserved size\<close>
  mr_layoutPending :: bool
  mr_reservedBlockSize :: "js_number option"

record mounted_input =
  mi_token :: measurement_token
  mi_measuredBlockSize :: maybe_finite
  mi_root :: "measured_root option"
  mi_reservedBlockSize :: "js_number option"

datatype offscreen_source = SourceReal | SourceShell

record offscreen_input =
  oi_token :: measurement_token
  oi_height :: maybe_finite
  oi_source :: offscreen_source

record controller_update =
  cu_token :: measurement_token
  cu_height :: js_number
  cu_source :: measurement_source
  cu_finalized :: bool

record pending_finalization =
  pf_token :: measurement_token
  pf_measuredBlockSize :: js_number
  pf_reservedBlockSize :: "js_number option"
  pf_updatedAt :: js_number

record scheduler_counters =
  co_mountedMeasurementsAccepted :: nat
  co_offscreenRealMeasurementsAccepted :: nat
  co_offscreenShellMeasurementsAccepted :: nat
  co_estimateOnlyPlans :: nat
  co_pendingMeasurementsCreated :: nat
  co_pendingMeasurementsFinalized :: nat
  co_controllerUpdatesQueued :: nat
  co_controllerUpdateBatches :: nat
  co_controllerUpdatesFlushed :: nat
  co_controllerUpdatesAccepted :: nat
  co_controllerUpdatesRejected :: nat
  co_staleMeasurementsDropped :: nat
  co_staleMeasurementSessionDrops :: nat
  co_staleMeasurementEpochDrops :: nat
  co_staleMeasurementWidthDrops :: nat
  co_staleMeasurementRevisionDrops :: nat
  co_staleMeasurementMissingRowDrops :: nat
  co_policyMeasurementsDropped :: nat

definition EMPTY_COUNTERS :: scheduler_counters where
  "EMPTY_COUNTERS =
    \<lparr>co_mountedMeasurementsAccepted = 0, co_offscreenRealMeasurementsAccepted = 0,
     co_offscreenShellMeasurementsAccepted = 0, co_estimateOnlyPlans = 0, co_pendingMeasurementsCreated = 0,
     co_pendingMeasurementsFinalized = 0, co_controllerUpdatesQueued = 0, co_controllerUpdateBatches = 0,
     co_controllerUpdatesFlushed = 0, co_controllerUpdatesAccepted = 0, co_controllerUpdatesRejected = 0,
     co_staleMeasurementsDropped = 0, co_staleMeasurementSessionDrops = 0, co_staleMeasurementEpochDrops = 0,
     co_staleMeasurementWidthDrops = 0, co_staleMeasurementRevisionDrops = 0,
     co_staleMeasurementMissingRowDrops = 0, co_policyMeasurementsDropped = 0\<rparr>"

record scheduler_context =
  sx_sessionId :: string
  sx_sessionEpoch :: session_epoch
  sx_widthScope :: string
  sx_rows :: "scheduled_row list option"

record measurement_scheduler =
  ms_sessionId :: string
  ms_sessionEpoch :: session_epoch
  ms_widthScope :: string
  ms_rows :: "scheduled_row list"
  ms_rowById :: "string \<rightharpoonup> scheduled_row"
  ms_cache :: measurement_cache
  ms_pendingFinalizations :: "pending_finalization jsobj"
  ms_controllerQueue :: "controller_update jsobj"
  ms_counters :: scheduler_counters
  ms_batchesAnnounced :: nat

section \<open>Keys and numbers\<close>

definition createMeasurementCacheKey :: "measurement_token \<Rightarrow> string" where
  "createMeasurementCacheKey token = js_join [CHR 0x00]
    [mt_sessionId token, nat_string 10 (mt_sessionEpoch token), mt_widthScope token, mt_rowId token,
     mt_heightRevision token, mt_layoutRevision token]"

definition normalizeHeight :: "maybe_finite \<Rightarrow> js_number" where
  "normalizeHeight height = (case height of Some h \<Rightarrow> max 0 h | None \<Rightarrow> 0)"

fun getMeasurementSourcePriority :: "measurement_source \<Rightarrow> nat" where
  "getMeasurementSourcePriority Visible = 3"
| "getMeasurementSourcePriority OffscreenReal = 2"
| "getMeasurementSourcePriority OffscreenShell = 1"
| "getMeasurementSourcePriority Reserved = 0"
| "getMeasurementSourcePriority Estimate = 0"

definition canAcceptOffscreenSource :: "scheduled_row \<Rightarrow> offscreen_source \<Rightarrow> bool" where
  "canAcceptOffscreenSource row source = (case source of
      SourceReal \<Rightarrow> sr_measurementPolicy row = MeasureReal \<and> sr_canOffscreenRenderReal row
    | SourceShell \<Rightarrow> sr_measurementPolicy row = MeasureShell \<and> sr_canOffscreenRenderShell row)"

definition matchesSession :: "measurement_token \<Rightarrow> string \<Rightarrow> session_epoch option \<Rightarrow> bool" where
  "matchesSession token sessionId sessionEpoch \<longleftrightarrow> mt_sessionId token = sessionId \<and>
    (case sessionEpoch of None \<Rightarrow> True | Some e \<Rightarrow> mt_sessionEpoch token = e)"

section \<open>The cache\<close>

definition DEFAULT_MAX_CACHE_ENTRIES :: js_number where
  "DEFAULT_MAX_CACHE_ENTRIES = 2000"

definition newMeasurementCache :: "js_number option \<Rightarrow> measurement_cache" where
  "newMeasurementCache maxEntries =
    \<lparr>mc_maxEntries = max 1 (or_else maxEntries DEFAULT_MAX_CACHE_ENTRIES), mc_entries = [],
     mc_hits = 0, mc_misses = 0, mc_writes = 0, mc_evictions = 0\<rparr>"

definition cacheGet :: "measurement_token \<Rightarrow> measurement_cache \<Rightarrow> cache_entry option \<times> measurement_cache" where
  "cacheGet token c =
    (let key = createMeasurementCacheKey token in
     case obj_get (mc_entries c) key of
       None \<Rightarrow> (None, c\<lparr>mc_misses := mc_misses c + 1\<rparr>)
     | Some entry \<Rightarrow>
         (Some entry, c\<lparr>mc_hits := mc_hits c + 1, mc_entries := obj_set key entry (obj_del key (mc_entries c))\<rparr>))"

definition cachePeek :: "measurement_token \<Rightarrow> measurement_cache \<Rightarrow> cache_entry option" where
  "cachePeek token c = obj_get (mc_entries c) (createMeasurementCacheKey token)"

fun evict_loop :: "js_number \<Rightarrow> cache_entry jsobj \<Rightarrow> nat \<Rightarrow> cache_entry jsobj \<times> nat" where
  \<comment> \<open>deletes from the front while there are too many entries\<close>
  "evict_loop maxEntries [] evictions = ([], evictions)"
| "evict_loop maxEntries (e # entries) evictions =
    (if of_nat (length (e # entries)) > maxEntries then evict_loop maxEntries entries (evictions + 1)
     else (e # entries, evictions))"

definition cacheSet :: "cache_entry \<Rightarrow> measurement_cache \<Rightarrow> measurement_cache" where
  "cacheSet entry c =
    (let key = createMeasurementCacheKey (ce_token entry);
         (entries, evictions) = evict_loop (mc_maxEntries c)
           (obj_set key entry (obj_del key (mc_entries c))) (mc_evictions c) in
     c\<lparr>mc_entries := entries, mc_writes := mc_writes c + 1, mc_evictions := evictions\<rparr>)"

definition cacheDeleteSession ::
    "string \<Rightarrow> session_epoch option \<Rightarrow> measurement_cache \<Rightarrow> nat \<times> measurement_cache" where
  "cacheDeleteSession sessionId sessionEpoch c =
    (let gone = (\<lambda>(key, entry). mt_sessionId (ce_token entry) = sessionId \<and>
           (case sessionEpoch of None \<Rightarrow> True | Some e \<Rightarrow> mt_sessionEpoch (ce_token entry) = e)) in
     (length (filter gone (mc_entries c)), c\<lparr>mc_entries := filter (\<lambda>p. \<not> gone p) (mc_entries c)\<rparr>))"

definition cacheClear :: "measurement_cache \<Rightarrow> measurement_cache" where
  "cacheClear c = c\<lparr>mc_entries := []\<rparr>"

definition getStats :: "measurement_cache \<Rightarrow> cache_stats" where
  "getStats c = \<lparr>cst_size = length (mc_entries c), cst_hits = mc_hits c, cst_misses = mc_misses c,
    cst_writes = mc_writes c, cst_evictions = mc_evictions c\<rparr>"

section \<open>Tokens\<close>

definition tick :: "(scheduler_counters \<Rightarrow> scheduler_counters) \<Rightarrow> measurement_scheduler \<Rightarrow> measurement_scheduler" where
  "tick f s = s\<lparr>ms_counters := f (ms_counters s)\<rparr>"

definition schedulerToken :: "measurement_scheduler \<Rightarrow> string \<Rightarrow> measurement_token option" where
  "schedulerToken s rowId = (case ms_rowById s rowId of
      None \<Rightarrow> None
    | Some row \<Rightarrow> Some \<lparr>mt_sessionId = ms_sessionId s, mt_sessionEpoch = ms_sessionEpoch s,
        mt_widthScope = ms_widthScope s, mt_rowId = rowId, mt_heightRevision = rd_heightRevision row,
        mt_layoutRevision = rd_layoutRevision row\<rparr>)"

definition isTokenCurrent :: "measurement_scheduler \<Rightarrow> measurement_token \<Rightarrow> bool" where
  "isTokenCurrent s token \<longleftrightarrow>
    mt_sessionId token = ms_sessionId s \<and> mt_sessionEpoch token = ms_sessionEpoch s \<and>
    mt_widthScope token = ms_widthScope s \<and>
    (case ms_rowById s (mt_rowId token) of
       None \<Rightarrow> False
     | Some row \<Rightarrow> rd_heightRevision row = mt_heightRevision token \<and> rd_layoutRevision row = mt_layoutRevision token)"

definition validateToken ::
    "measurement_token \<Rightarrow> measurement_scheduler \<Rightarrow> (bool \<times> scheduled_row option) \<times> measurement_scheduler" where
  "validateToken token s =
    (let row = ms_rowById s (mt_rowId token);
         sessionStale = (mt_sessionId token \<noteq> ms_sessionId s);
         epochStale = (mt_sessionEpoch token \<noteq> ms_sessionEpoch s);
         widthStale = (mt_widthScope token \<noteq> ms_widthScope s);
         missing = (row = None);
         revisionStale = (case row of None \<Rightarrow> False
           | Some r \<Rightarrow> rd_heightRevision r \<noteq> mt_heightRevision token \<or> rd_layoutRevision r \<noteq> mt_layoutRevision token);
         valid = (\<not> (sessionStale \<or> epochStale \<or> widthStale \<or> missing \<or> revisionStale)) in
     ((valid, row), tick (\<lambda>d. d
       \<lparr>co_staleMeasurementSessionDrops := co_staleMeasurementSessionDrops d + (if sessionStale then 1 else 0),
        co_staleMeasurementEpochDrops := co_staleMeasurementEpochDrops d + (if epochStale then 1 else 0),
        co_staleMeasurementWidthDrops := co_staleMeasurementWidthDrops d + (if widthStale then 1 else 0),
        co_staleMeasurementMissingRowDrops := co_staleMeasurementMissingRowDrops d + (if missing then 1 else 0),
        co_staleMeasurementRevisionDrops := co_staleMeasurementRevisionDrops d + (if revisionStale then 1 else 0),
        co_staleMeasurementsDropped := co_staleMeasurementsDropped d + (if valid then 0 else 1)\<rparr>) s))"

section \<open>Context\<close>

definition rebuildRowIndex :: "measurement_scheduler \<Rightarrow> measurement_scheduler" where
  "rebuildRowIndex s = s\<lparr>ms_rowById := map_of (rev (map (\<lambda>row. (rd_rowId row, row)) (ms_rows s)))\<rparr>"

definition pruneStalePendingWork :: "measurement_scheduler \<Rightarrow> measurement_scheduler" where
  "pruneStalePendingWork s = s
    \<lparr>ms_pendingFinalizations := filter (\<lambda>(key, pending). isTokenCurrent s (pf_token pending)) (ms_pendingFinalizations s),
     ms_controllerQueue := filter (\<lambda>(key, update). isTokenCurrent s (cu_token update)) (ms_controllerQueue s)\<rparr>"

definition createTranscriptMeasurementScheduler ::
    "scheduler_context \<Rightarrow> js_number option \<Rightarrow> measurement_scheduler" where
  "createTranscriptMeasurementScheduler context maxCacheEntries = rebuildRowIndex
    \<lparr>ms_sessionId = sx_sessionId context, ms_sessionEpoch = sx_sessionEpoch context,
     ms_widthScope = sx_widthScope context, ms_rows = or_else (sx_rows context) [], ms_rowById = Map.empty,
     ms_cache = newMeasurementCache maxCacheEntries, ms_pendingFinalizations = [], ms_controllerQueue = [],
     ms_counters = EMPTY_COUNTERS, ms_batchesAnnounced = 0\<rparr>"

definition setContext :: "scheduler_context \<Rightarrow> measurement_scheduler \<Rightarrow> measurement_scheduler" where
  "setContext context s =
    (let s = s\<lparr>ms_sessionId := sx_sessionId context, ms_sessionEpoch := sx_sessionEpoch context,
           ms_widthScope := sx_widthScope context\<rparr>;
         s = (case sx_rows context of None \<Rightarrow> s | Some rows \<Rightarrow> rebuildRowIndex (s\<lparr>ms_rows := rows\<rparr>)) in
     pruneStalePendingWork s)"

definition schedulerSetRows :: "scheduled_row list \<Rightarrow> measurement_scheduler \<Rightarrow> measurement_scheduler" where
  "schedulerSetRows rows s = pruneStalePendingWork (rebuildRowIndex (s\<lparr>ms_rows := rows\<rparr>))"

section \<open>Plans and the cache of a row\<close>

definition createMeasurementPlan ::
    "string \<Rightarrow> plan_kind \<Rightarrow> measurement_scheduler \<Rightarrow> measurement_plan \<times> measurement_scheduler" where
  "createMeasurementPlan rowId kind s =
    (case (ms_rowById s rowId, schedulerToken s rowId) of
       (Some row, Some token) \<Rightarrow>
         (let (cached, cache) = cacheGet token (ms_cache s) in
          (Plan kind
             \<lparr>mp_rowId = rowId, mp_token = token,
              mp_estimatedHeight = normalizeHeight (Some (getTranscriptRowEstimatedHeight (row_descriptor.truncate row))),
              mp_cachedHeight = map_option ce_height cached, mp_cachedSource = map_option ce_source cached\<rparr>,
           s\<lparr>ms_cache := cache\<rparr>))
     | _ \<Rightarrow> (PlanMissingRow rowId, s))"

definition planMountedMeasurement :: "string \<Rightarrow> measurement_scheduler \<Rightarrow> measurement_plan \<times> measurement_scheduler" where
  "planMountedMeasurement rowId s = createMeasurementPlan rowId PlanMounted s"

definition planOffscreenMeasurement :: "string \<Rightarrow> measurement_scheduler \<Rightarrow> measurement_plan \<times> measurement_scheduler" where
  "planOffscreenMeasurement rowId s =
    (case ms_rowById s rowId of
       None \<Rightarrow> (PlanMissingRow rowId, s)
     | Some row \<Rightarrow>
         (case sr_measurementPolicy row of
            MeasureReal \<Rightarrow> createMeasurementPlan rowId PlanOffscreenReal s
          | MeasureShell \<Rightarrow> createMeasurementPlan rowId PlanOffscreenShell s
          | EstimateOnly \<Rightarrow> createMeasurementPlan rowId PlanEstimateOnly
              (tick (\<lambda>d. d\<lparr>co_estimateOnlyPlans := co_estimateOnlyPlans d + 1\<rparr>) s)))"

definition getCachedMeasurement :: "string \<Rightarrow> measurement_scheduler \<Rightarrow> cache_entry option \<times> measurement_scheduler" where
  "getCachedMeasurement rowId s =
    (case schedulerToken s rowId of
       None \<Rightarrow> (None, s)
     | Some token \<Rightarrow> (let (cached, cache) = cacheGet token (ms_cache s) in (cached, s\<lparr>ms_cache := cache\<rparr>)))"

definition peekCachedMeasurement :: "measurement_scheduler \<Rightarrow> string \<Rightarrow> cache_entry option" where
  "peekCachedMeasurement s rowId =
    (case schedulerToken s rowId of None \<Rightarrow> None | Some token \<Rightarrow> cachePeek token (ms_cache s))"

section \<open>Recording\<close>

definition queueControllerUpdate :: "cache_entry \<Rightarrow> measurement_scheduler \<Rightarrow> measurement_scheduler" where
  "queueControllerUpdate entry s =
    (let wasEmpty = (ms_controllerQueue s = []);
         s = s\<lparr>ms_controllerQueue := obj_set (createMeasurementCacheKey (ce_token entry))
           \<lparr>cu_token = ce_token entry, cu_height = ce_height entry, cu_source = ce_source entry,
            cu_finalized = ce_finalized entry\<rparr> (ms_controllerQueue s)\<rparr>;
         s = tick (\<lambda>d. d\<lparr>co_controllerUpdatesQueued := co_controllerUpdatesQueued d + 1\<rparr>) s in
     if wasEmpty then s\<lparr>ms_batchesAnnounced := ms_batchesAnnounced s + 1\<rparr> else s)"

definition queueCachedControllerUpdate :: "string \<Rightarrow> measurement_scheduler \<Rightarrow> bool \<times> measurement_scheduler" where
  "queueCachedControllerUpdate rowId s =
    (case peekCachedMeasurement s rowId of
       None \<Rightarrow> (False, s)
     | Some cached \<Rightarrow>
         if \<not> ce_finalized cached then (False, s)
         else
           let ((valid, _), s) = validateToken (ce_token cached) s in
           if \<not> valid then (False, s) else (True, queueControllerUpdate cached s))"

definition outranked :: "cache_entry option \<Rightarrow> measurement_source \<Rightarrow> bool" where
  "outranked existing source = (case existing of
      None \<Rightarrow> False
    | Some e \<Rightarrow> getMeasurementSourcePriority (ce_source e) > getMeasurementSourcePriority source)"

definition count_accepted :: "measurement_source \<Rightarrow> scheduler_counters \<Rightarrow> scheduler_counters" where
  "count_accepted source d = (case source of
      Visible \<Rightarrow> d\<lparr>co_mountedMeasurementsAccepted := co_mountedMeasurementsAccepted d + 1\<rparr>
    | OffscreenReal \<Rightarrow> d\<lparr>co_offscreenRealMeasurementsAccepted := co_offscreenRealMeasurementsAccepted d + 1\<rparr>
    | OffscreenShell \<Rightarrow> d\<lparr>co_offscreenShellMeasurementsAccepted := co_offscreenShellMeasurementsAccepted d + 1\<rparr>
    | Reserved \<Rightarrow> d
    | Estimate \<Rightarrow> d)"

definition acceptMeasurement ::
    "measurement_token \<Rightarrow> maybe_finite \<Rightarrow> measurement_source \<Rightarrow> bool \<Rightarrow> js_number \<Rightarrow> measurement_scheduler \<Rightarrow>
     record_result \<times> measurement_scheduler" where
  "acceptMeasurement token height source finalized now s =
    (let existing = cachePeek token (ms_cache s) in
     if outranked existing source then (RecordAccepted (the existing) False, s)
     else
       let entry = \<lparr>ce_token = token, ce_height = normalizeHeight height, ce_source = source,
             ce_finalized = finalized, ce_updatedAt = now\<rparr>;
           s = s\<lparr>ms_cache := cacheSet entry (ms_cache s),
             ms_pendingFinalizations := obj_del (createMeasurementCacheKey token) (ms_pendingFinalizations s)\<rparr>;
           s = queueControllerUpdate entry s;
           s = tick (count_accepted source) s in
       (RecordAccepted entry True, s))"

definition acceptShellEstimate ::
    "offscreen_input \<Rightarrow> js_number \<Rightarrow> measurement_scheduler \<Rightarrow> record_result \<times> measurement_scheduler" where
  "acceptShellEstimate input now s =
    (let existing = cachePeek (oi_token input) (ms_cache s) in
     if outranked existing Estimate then (RecordAccepted (the existing) False, s)
     else
       let entry = \<lparr>ce_token = oi_token input, ce_height = normalizeHeight (oi_height input), ce_source = Estimate,
             ce_finalized = False, ce_updatedAt = now\<rparr> in
       (RecordAccepted entry False, s\<lparr>ms_cache := cacheSet entry (ms_cache s)\<rparr>))"

record finalization_decision =
  fd_canFinalize :: bool
  fd_blockSize :: js_number
  fd_source :: block_source

definition getMeasurementFinalizationDecision ::
    "measured_root \<Rightarrow> js_number \<Rightarrow> js_number option \<Rightarrow> finalization_decision" where
  "getMeasurementFinalizationDecision root' measuredBlockSize reserved =
    (let pending = mr_layoutPending root';
         reservedBlockSize = or_option reserved (mr_reservedBlockSize root') in
     case reservedBlockSize of
       Some r \<Rightarrow>
         if pending then \<lparr>fd_canFinalize = False, fd_blockSize = r, fd_source = FromReserved\<rparr>
         else \<lparr>fd_canFinalize = True, fd_blockSize = measuredBlockSize, fd_source = FromMeasured\<rparr>
     | None \<Rightarrow> \<lparr>fd_canFinalize = \<not> pending, fd_blockSize = measuredBlockSize, fd_source = FromMeasured\<rparr>)"

definition recordMountedMeasurement ::
    "mounted_input \<Rightarrow> js_number \<Rightarrow> measurement_scheduler \<Rightarrow> record_result \<times> measurement_scheduler" where
  "recordMountedMeasurement input now s =
    (let ((valid, _), s) = validateToken (mi_token input) s in
     if \<not> valid then (RecordDropped StaleToken (mi_token input), s)
     else
       let measured = normalizeHeight (mi_measuredBlockSize input);
           finalization = (case mi_root input of
               Some root' \<Rightarrow> getMeasurementFinalizationDecision root' measured (mi_reservedBlockSize input)
             | None \<Rightarrow> \<lparr>fd_canFinalize = True, fd_blockSize = measured, fd_source = FromMeasured\<rparr>) in
       if \<not> fd_canFinalize finalization
       then
         let key = createMeasurementCacheKey (mi_token input);
             hadPending = (obj_get (ms_pendingFinalizations s) key \<noteq> None);
             s = s\<lparr>ms_pendingFinalizations := obj_set key
               \<lparr>pf_token = mi_token input, pf_measuredBlockSize = measured,
                pf_reservedBlockSize =
                  (if fd_source finalization = FromReserved then Some (fd_blockSize finalization) else None),
                pf_updatedAt = now\<rparr> (ms_pendingFinalizations s)\<rparr>;
             s = (if hadPending then s
               else tick (\<lambda>d. d\<lparr>co_pendingMeasurementsCreated := co_pendingMeasurementsCreated d + 1\<rparr>) s) in
         (RecordPending (mi_token input) (fd_blockSize finalization) (fd_source finalization), s)
       else acceptMeasurement (mi_token input) (Some (fd_blockSize finalization)) Visible True now s)"

definition finalizePendingMeasurement ::
    "mounted_input \<Rightarrow> js_number \<Rightarrow> measurement_scheduler \<Rightarrow> record_result \<times> measurement_scheduler" where
  "finalizePendingMeasurement input now s =
    (let hadPending = (obj_get (ms_pendingFinalizations s) (createMeasurementCacheKey (mi_token input)) \<noteq> None);
         (result, s) = recordMountedMeasurement input now s in
     (result,
      case result of
        RecordAccepted _ _ \<Rightarrow>
          if hadPending
          then tick (\<lambda>d. d\<lparr>co_pendingMeasurementsFinalized := co_pendingMeasurementsFinalized d + 1\<rparr>) s else s
      | _ \<Rightarrow> s))"

definition recordOffscreenMeasurement ::
    "offscreen_input \<Rightarrow> js_number \<Rightarrow> measurement_scheduler \<Rightarrow> record_result \<times> measurement_scheduler" where
  "recordOffscreenMeasurement input now s =
    (let ((valid, row), s) = validateToken (oi_token input) s in
     if \<not> valid then (RecordDropped StaleToken (oi_token input), s)
     else if (case row of None \<Rightarrow> True | Some r \<Rightarrow> \<not> canAcceptOffscreenSource r (oi_source input))
     then (RecordDropped PolicyBlocked (oi_token input),
       tick (\<lambda>d. d\<lparr>co_policyMeasurementsDropped := co_policyMeasurementsDropped d + 1\<rparr>) s)
     else if oi_source input = SourceShell then acceptShellEstimate input now s
     else acceptMeasurement (oi_token input) (oi_height input) OffscreenReal True now s)"

section \<open>To the controller\<close>

fun drain_valid ::
    "controller_update list \<Rightarrow> measurement_scheduler \<Rightarrow> controller_update list \<times> measurement_scheduler" where
  "drain_valid [] s = ([], s)"
| "drain_valid (update # queued) s =
    (let ((ok, _), s) = validateToken (cu_token update) s;
         (valid, s) = drain_valid queued s in
     (if ok then update # valid else valid, s))"

definition drainControllerUpdateBatch ::
    "js_number option \<Rightarrow> measurement_scheduler \<Rightarrow> controller_update list \<times> measurement_scheduler" where
  "drainControllerUpdateBatch maxUpdates s =
    (if ms_controllerQueue s = [] then ([], s)
     else
       let limit = (case maxUpdates of
               None \<Rightarrow> length (ms_controllerQueue s)
             | Some m \<Rightarrow> nat (max 1 \<lfloor>m\<rfloor>));
           queued = map snd (take limit (ms_controllerQueue s));
           s = s\<lparr>ms_controllerQueue := drop limit (ms_controllerQueue s)\<rparr>;
           (valid, s) = drain_valid queued s in
       (valid, if valid = [] then s
         else tick (\<lambda>d. d\<lparr>co_controllerUpdateBatches := co_controllerUpdateBatches d + 1\<rparr>) s))"

record 'c measurement_target =
  \<comment> \<open>the controller's methods; the second is optional\<close>
  tg_applyMeasuredHeight :: "measurement_token \<Rightarrow> js_number \<Rightarrow> 'c \<Rightarrow> (bool \<times> scroll_correction option) \<times> 'c"
  tg_applyMeasuredHeights :: "((measurement_token \<times> js_number) list \<Rightarrow> 'c \<Rightarrow>
    (measurement_token list \<times> nat \<times> scroll_correction option) \<times> 'c) option"

record flush_result =
  fr_updates :: "controller_update list"
  fr_accepted :: nat
  fr_rejected :: nat
  fr_corrections :: "scroll_correction list"

fun flush_each ::
    "'c measurement_target \<Rightarrow> controller_update list \<Rightarrow> flush_result \<Rightarrow> scheduler_counters \<Rightarrow> 'c \<Rightarrow>
     flush_result \<times> scheduler_counters \<times> 'c" where
  "flush_each target [] result d c = (result, d, c)"
| "flush_each target (update # updates) result d c =
    (let ((accepted, correction), c) = tg_applyMeasuredHeight target (cu_token update) (cu_height update) c;
         d = d\<lparr>co_controllerUpdatesFlushed := co_controllerUpdatesFlushed d + 1\<rparr> in
     if accepted
     then flush_each target updates
       (result\<lparr>fr_accepted := fr_accepted result + 1,
         fr_corrections := fr_corrections result @ (case correction of None \<Rightarrow> [] | Some x \<Rightarrow> [x])\<rparr>)
       (d\<lparr>co_controllerUpdatesAccepted := co_controllerUpdatesAccepted d + 1\<rparr>) c
     else flush_each target updates (result\<lparr>fr_rejected := fr_rejected result + 1\<rparr>)
       (d\<lparr>co_controllerUpdatesRejected := co_controllerUpdatesRejected d + 1\<rparr>) c)"

definition flushControllerUpdateBatch ::
    "'c measurement_target \<Rightarrow> js_number option \<Rightarrow> measurement_scheduler \<Rightarrow> 'c \<Rightarrow>
     flush_result \<times> measurement_scheduler \<times> 'c" where
  "flushControllerUpdateBatch target maxUpdates s c =
    (let (updates, s) = drainControllerUpdateBatch maxUpdates s;
         result = \<lparr>fr_updates = updates, fr_accepted = 0, fr_rejected = 0, fr_corrections = []\<rparr> in
     case (if updates = [] then None else tg_applyMeasuredHeights target) of
       Some applyAll \<Rightarrow>
         let ((acceptedTokens, rejected, correction), c) =
               applyAll (map (\<lambda>u. (cu_token u, cu_height u)) updates) c;
             accepted = length acceptedTokens in
         (result\<lparr>fr_accepted := accepted, fr_rejected := rejected,
            fr_corrections := (case correction of None \<Rightarrow> [] | Some x \<Rightarrow> [x])\<rparr>,
          tick (\<lambda>d. d\<lparr>co_controllerUpdatesFlushed := co_controllerUpdatesFlushed d + length updates,
            co_controllerUpdatesAccepted := co_controllerUpdatesAccepted d + accepted,
            co_controllerUpdatesRejected := co_controllerUpdatesRejected d + rejected\<rparr>) s, c)
     | None \<Rightarrow>
         let (result, d, c) = flush_each target updates result (ms_counters s) c in
         (result, s\<lparr>ms_counters := d\<rparr>, c))"

section \<open>Cancellation\<close>

definition cancelPendingWork ::
    "string \<Rightarrow> session_epoch option \<Rightarrow> measurement_scheduler \<Rightarrow> nat \<times> measurement_scheduler" where
  "cancelPendingWork sessionId sessionEpoch s =
    (let stale = (\<lambda>token. matchesSession token sessionId sessionEpoch) in
     (length (filter (\<lambda>(key, pending). stale (pf_token pending)) (ms_pendingFinalizations s)) +
      length (filter (\<lambda>(key, update). stale (cu_token update)) (ms_controllerQueue s)),
      s\<lparr>ms_pendingFinalizations := filter (\<lambda>(key, pending). \<not> stale (pf_token pending)) (ms_pendingFinalizations s),
        ms_controllerQueue := filter (\<lambda>(key, update). \<not> stale (cu_token update)) (ms_controllerQueue s)\<rparr>))"

definition schedulerCleanupSession ::
    "string \<Rightarrow> session_epoch option \<Rightarrow> measurement_scheduler \<Rightarrow> nat \<times> measurement_scheduler" where
  "schedulerCleanupSession sessionId sessionEpoch s =
    (let (canceled, s) = cancelPendingWork sessionId sessionEpoch s;
         (deleted, cache) = cacheDeleteSession sessionId sessionEpoch (ms_cache s) in
     (canceled + deleted, s\<lparr>ms_cache := cache\<rparr>))"

record scheduler_diagnostics =
  dg_counters :: scheduler_counters
  dg_pendingMeasurements :: nat
  dg_cache :: cache_stats

definition schedulerDiagnostics :: "measurement_scheduler \<Rightarrow> scheduler_diagnostics" where
  "schedulerDiagnostics s = \<lparr>dg_counters = ms_counters s,
    dg_pendingMeasurements = length (ms_pendingFinalizations s), dg_cache = getStats (ms_cache s)\<rparr>"

end
