(* ===== verification/VirtualStability.thy ===== *)
theory VirtualStability
  imports VirtualController
begin

text \<open>
  What the transcript controller guarantees (\<open>transcriptVirtualController.ts\<close>): the cached range is
  never stale, a row that is being streamed does not shrink, the view follows the bottom or keeps the
  anchored row in place, stale measurements are refused, a batch measures like single calls.
\<close>

section \<open>What reconciling leaves alone\<close>

definition layout_of where
  \<comment> \<open>everything the heights, positions and the range depend on\<close>
  "layout_of c = (vc_rows c, vc_rowIndexById c, vc_measurements c, vc_streamingHeightFloors c,
    vc_viewportHeight c, vc_footerHeight c, vc_browserScrollHeight c, vc_overscan c, vc_protectedRowIds c)"

definition session_of where
  "session_of c = (vc_sessionId c, vc_sessionEpoch c, vc_widthScope c)"

definition limits_of where
  "limits_of c = (vc_pinnedBottomThresholdPx c, vc_autoScrollThresholdPx c, vc_measurementEpsilonPx c)"

definition steady :: "virtual_controller \<Rightarrow> virtual_controller \<Rightarrow> bool" where
  "steady c c' \<longleftrightarrow> layout_of c' = layout_of c \<and> session_of c' = session_of c \<and> limits_of c' = limits_of c \<and>
    observedScrollTop c' = observedScrollTop c \<and> vc_lastRange c' = vc_lastRange c"

lemma steady_refl [simp]: "steady c c"
  by (simp add: steady_def)

lemma steady_trans: "steady a b \<Longrightarrow> steady b c \<Longrightarrow> steady a c"
  by (simp add: steady_def)

lemmas steady_defs = steady_def layout_of_def session_of_def limits_of_def observedScrollTop_def

lemma steady_count [simp]: "steady c (count f c)"
  by (simp add: steady_defs count_def)

lemma steady_setScrollAnchor [simp]: "steady c (setScrollAnchor a c)"
  by (simp add: steady_defs setScrollAnchor_def)

lemma steady_capture [simp]: "steady c (captureViewportAnchor f c)"
  by (auto simp: captureViewportAnchor_def Let_def split: option.splits
      intro: steady_trans [OF steady_setScrollAnchor steady_count])

lemma steady_record [simp]: "steady c (recordCorrection r c)"
  by (simp add: recordCorrection_def)

lemma steady_viewport:
  "gv_observedScrollTop v = observedScrollTop c \<Longrightarrow> steady c (c\<lparr>vc_viewport := v\<rparr>)"
  by (simp add: steady_defs)

lemma steady_correction [simp]: "steady c (snd (applyScrollCorrection r n c))"
proof -
  let ?v = "fst (transitionTranscriptGeometryViewport (vc_viewport c)
    (GeometryPropose r (Some n) (Some (getBottomScrollTop c)) (Some (vc_measurementEpsilonPx c))))"
  have "steady c (c\<lparr>vc_viewport := ?v\<rparr>)"
    by (rule steady_viewport) (simp add: propose_keeps_position observedScrollTop_def)
  then show ?thesis
    by (auto simp: applyScrollCorrection_def split_beta Let_def split: option.splits
        intro: steady_trans [OF _ steady_record])
qed

lemma steady_reconcile [simp]: "steady c (snd (reconcileAnchor r u c))"
proof (cases "vc_anchor c")
  case (AnchorRow k off rev)
  let ?c1 = "\<lambda>f. snd (applyScrollCorrection r' t (count f c))"
  have "steady c (snd (applyScrollCorrection r' t (count f c)))" for r' t f
    by (rule steady_trans [OF steady_count steady_correction])
  then show ?thesis
    using AnchorRow
    by (auto simp: reconcileAnchor_def Let_def split_beta split: anchor_resolution.splits
        intro: steady_trans [OF _ steady_capture])
qed (simp_all add: reconcileAnchor_def)

lemma steady_validate [simp]: "steady c (snd (validateMeasurementToken t c))"
  by (simp add: validateMeasurementToken_def Let_def)

lemma heights_layout:
  assumes "layout_of c' = layout_of c"
  shows "getRowHeight c' = getRowHeight c" "getRow c' = getRow c" "getRowsHeight c' = getRowsHeight c"
    "getBottomScrollTop c' = getBottomScrollTop c" "row_positions c' = row_positions c" "getRowTop c' = getRowTop c"
    "clampScrollTop c' = clampScrollTop c"
    "observedScrollTop c' = observedScrollTop c \<Longrightarrow> current_range c' = current_range c"
proof -
  have e: "vc_rows c' = vc_rows c" "vc_rowIndexById c' = vc_rowIndexById c" "vc_measurements c' = vc_measurements c"
    "vc_streamingHeightFloors c' = vc_streamingHeightFloors c" "vc_viewportHeight c' = vc_viewportHeight c"
    "vc_footerHeight c' = vc_footerHeight c" "vc_browserScrollHeight c' = vc_browserScrollHeight c"
    "vc_overscan c' = vc_overscan c" "vc_protectedRowIds c' = vc_protectedRowIds c"
    using assms by (simp_all add: layout_of_def)
  show h: "getRowHeight c' = getRowHeight c" by (rule ext) (simp only: getRowHeight_def e)
  show "getRow c' = getRow c" by (rule ext) (simp only: getRow_def e)
  show rh: "getRowsHeight c' = getRowsHeight c" by (simp add: getRowsHeight_def e h)
  show b: "getBottomScrollTop c' = getBottomScrollTop c"
    by (simp only: getBottomScrollTop_def getVirtualScrollHeight_def rh e)
  have pf: "positions_from c' s rows = positions_from c s rows" for s rows
    by (induction rows arbitrary: s) (simp_all add: h)
  show rp: "row_positions c' = row_positions c" by (simp add: row_positions_def pf e)
  have p: "getRowPosition c' = getRowPosition c" by (rule ext) (simp add: getRowPosition_def rp)
  show "getRowTop c' = getRowTop c" by (rule ext) (simp only: getRowTop_def p rh)
  show "clampScrollTop c' = clampScrollTop c" by (rule ext) (simp add: clampScrollTop_def b)
  assume o: "observedScrollTop c' = observedScrollTop c"
  show "current_range c' = current_range c" by (simp add: current_range_def h e o)
qed

lemma heights_steady:
  assumes "steady c c'"
  shows "getRowHeight c' = getRowHeight c" "getRow c' = getRow c" "getRowsHeight c' = getRowsHeight c"
    "getBottomScrollTop c' = getBottomScrollTop c" "row_positions c' = row_positions c" "getRowTop c' = getRowTop c"
    "clampScrollTop c' = clampScrollTop c" "observedScrollTop c' = observedScrollTop c"
    "current_range c' = current_range c"
  using heights_layout [of c' c] assms by (simp_all add: steady_def)

section \<open>Actions\<close>

datatype controller_action =
    ControllerReset session_geometry
  | ControllerSetRows "row_descriptor list"
  | ControllerSync viewport_geometry sync_options
  | ControllerMeasure measurement_token js_number
  | ControllerMeasureAll "(measurement_token \<times> js_number) list"
  | ControllerScrollToRow string scroll_align
  | ControllerGetRange

definition controller_step :: "controller_action \<Rightarrow> virtual_controller \<Rightarrow> virtual_controller" where
  "controller_step a c = (case a of
      ControllerReset input \<Rightarrow> reset input c
    | ControllerSetRows rows \<Rightarrow> snd (setRows rows c)
    | ControllerSync geometry options \<Rightarrow> snd (syncViewport geometry options c)
    | ControllerMeasure token height \<Rightarrow> snd (applyMeasuredHeight token height c)
    | ControllerMeasureAll inputs \<Rightarrow> snd (applyMeasuredHeights inputs c)
    | ControllerScrollToRow rowId align \<Rightarrow> snd (scrollToRow rowId align c)
    | ControllerGetRange \<Rightarrow> snd (getRange c))"

definition streaming_ids :: "row_descriptor list \<Rightarrow> string set" where
  "streaming_ids rows = {rd_rowId row | row. row \<in> set rows \<and> rd_anchorPriority row = Streaming}"

definition controller_ok :: "virtual_controller \<Rightarrow> bool" where
  "controller_ok c \<longleftrightarrow>
    0 \<le> vc_viewportHeight c \<and> 0 \<le> vc_footerHeight c \<and> 0 \<le> observedScrollTop c \<and>
    (\<forall>h. vc_browserScrollHeight c = Some h \<longrightarrow> 0 \<le> h) \<and>
    vc_rowIndexById c = row_index (vc_rows c) \<and>
    (\<forall>k m. vc_measurements c k = Some m \<longrightarrow> 0 \<le> me_height m) \<and>
    (\<forall>k h. vc_streamingHeightFloors c k = Some h \<longrightarrow> 0 \<le> h) \<and>
    dom (vc_streamingHeightFloors c) \<subseteq> streaming_ids (vc_rows c) \<and>
    (\<forall>r. vc_lastRange c = Some r \<longrightarrow> r = current_range c)"

lemma controller_ok_steady: "controller_ok c \<Longrightarrow> steady c c' \<Longrightarrow> controller_ok c'"
  using heights_steady [of c c'] unfolding controller_ok_def steady_def layout_of_def by simp

lemma row_index_bound: "row_index rows k = Some i \<Longrightarrow> i < length rows \<and> rd_rowId (rows ! i) = k"
  unfolding row_index_def by (auto dest!: map_of_SomeD simp: in_set_zip)

lemma getRow_spec:
  assumes "controller_ok c" "getRow c k = Some row"
  shows "row \<in> set (vc_rows c)" "rd_rowId row = k"
  using assms row_index_bound [of "vc_rows c" k]
  by (auto simp: getRow_def controller_ok_def split: option.splits if_splits)

definition fresh :: "virtual_controller \<Rightarrow> virtual_controller" where
  \<comment> \<open>the controller without its cached range\<close>
  "fresh c = c\<lparr>vc_lastRange := None\<rparr>"

lemma fresh_fields [simp]:
  "vc_rows (fresh c) = vc_rows c" "vc_measurements (fresh c) = vc_measurements c"
  "vc_streamingHeightFloors (fresh c) = vc_streamingHeightFloors c" "vc_rowIndexById (fresh c) = vc_rowIndexById c"
  "vc_viewportHeight (fresh c) = vc_viewportHeight c" "vc_footerHeight (fresh c) = vc_footerHeight c"
  "vc_browserScrollHeight (fresh c) = vc_browserScrollHeight c" "vc_lastRange (fresh c) = None"
  "observedScrollTop (fresh c) = observedScrollTop c" "vc_viewport (fresh c) = vc_viewport c"
  "fresh (fresh c) = fresh c" "vc_anchor (fresh c) = vc_anchor c"
  by (simp_all add: fresh_def observedScrollTop_def)

lemma getRow_fresh [simp]: "getRow (fresh c) = getRow c"
  by (rule ext) (simp add: getRow_def fresh_def split: option.split)

lemma controller_ok_fresh: "controller_ok c \<Longrightarrow> controller_ok (fresh c)"
  by (simp add: controller_ok_def)

lemma fresh_steady: "steady c c' \<Longrightarrow> steady (fresh c) (fresh c')"
  by (simp add: steady_defs fresh_def)

lemma record_measurement_ok:
  assumes "controller_ok (fresh c)"
  shows "controller_ok (fresh (record_measurement token height c))"
proof (cases "getRow c (mt_rowId token)")
  case None
  then show ?thesis using assms
    by (auto simp: record_measurement_def Let_def count_def controller_ok_def observedScrollTop_def)
next
  case (Some row)
  then have r: "row \<in> set (vc_rows c)" "rd_rowId row = mt_rowId token"
    using getRow_spec [OF assms, of "mt_rowId token" row] by auto
  then have "rd_anchorPriority row = Streaming \<Longrightarrow> mt_rowId token \<in> streaming_ids (vc_rows c)"
    by (auto simp: streaming_ids_def intro!: exI [of _ row])
  then show ?thesis using assms Some r
    by (auto simp: record_measurement_def Let_def count_def controller_ok_def observedScrollTop_def
        updateStreamingHeightFloor_def measurementKey_def max_def)
qed

lemma measure_all_ok:
  "controller_ok (fresh c) \<Longrightarrow> measure_all inputs acc n c = (acc', n', c') \<Longrightarrow> controller_ok (fresh c')"
proof (induction inputs acc n c rule: measure_all.induct)
  case (2 token height inputs acc n c)
  obtain v c1 where v: "validateMeasurementToken token c = (v, c1)" by fastforce
  have "controller_ok (fresh c1)"
    using controller_ok_steady [OF "2.prems"(1) fresh_steady [OF steady_validate]] v by (metis snd_conv)
  then show ?case
    using 2 v record_measurement_ok [of c1 token height] by (cases v) auto
qed simp

lemma measure_all_rejects:
  "measure_all inputs acc n c = ([], n', c') \<Longrightarrow> steady c c'"
proof (induction inputs acc n c rule: measure_all.induct)
  case (2 token height inputs acc n c)
  obtain v c1 where v: "validateMeasurementToken token c = (v, c1)" by fastforce
  have st: "steady c c1" using steady_validate [of c token] v by simp
  have "acc2 = []" if "measure_all inputs2 acc2 n2 c2 = ([], n', c')" for inputs2 acc2 n2 c2
    using that by (induction inputs2 acc2 n2 c2 rule: measure_all.induct) (auto simp: Let_def split: prod.splits if_splits)
  then show ?case using 2 v st steady_trans [OF st] by (cases v) fastforce+
qed simp

lemma streaming_ids_release:
  "dom (f |` set (map (\<lambda>row. measurementKey (rd_rowId row)) (filter (\<lambda>row. rd_anchorPriority row = Streaming) rows)))
    \<subseteq> streaming_ids rows"
  by (auto simp: streaming_ids_def measurementKey_def)

lemma setRows_ok:
  assumes "controller_ok c" shows "controller_ok (snd (setRows rows c))"
proof -
  let ?c = "releaseInactiveStreamingFloors (c\<lparr>vc_rows := rows, vc_rowIndexById := row_index rows\<rparr>)"
  have "controller_ok (fresh ?c)"
    using assms streaming_ids_release
    by (auto simp: controller_ok_def releaseInactiveStreamingFloors_def fresh_def observedScrollTop_def restrict_map_def
        streaming_ids_def measurementKey_def split: if_splits)
  then have "controller_ok (count f (fresh ?c))" for f by (rule controller_ok_steady) simp
  then show ?thesis
    unfolding setRows_def Let_def fresh_def [symmetric] by (rule controller_ok_steady [OF _ steady_reconcile])
qed

definition sync_resized :: "viewport_geometry \<Rightarrow> virtual_controller \<Rightarrow> virtual_controller" where
  "sync_resized g c = c\<lparr>vc_viewportHeight := max 0 (vg_viewportHeight g),
    vc_footerHeight := max 0 (or_else (vg_footerHeight g) 0), vc_widthScope := vg_widthScope g,
    vc_browserScrollHeight := map_option (max 0) (vg_browserScrollHeight g)\<rparr>"

definition sync_observed :: "viewport_geometry \<Rightarrow> virtual_controller \<Rightarrow> virtual_controller" where
  \<comment> \<open>what \<open>syncViewport\<close> has recorded before it decides about the anchor\<close>
  "sync_observed g c = count (\<lambda>d. d\<lparr>vd_viewportUpdates := vd_viewportUpdates d + 1\<rparr>)
    (fresh ((sync_resized g c)\<lparr>vc_viewport := fst (transitionTranscriptGeometryViewport (vc_viewport (sync_resized g c))
      (GeometryObserve (Some (vg_scrollTop g)) (Some (getBottomScrollTop (sync_resized g c)))))\<rparr>))"

definition geometry_changed :: "viewport_geometry \<Rightarrow> virtual_controller \<Rightarrow> bool" where
  "geometry_changed g c \<longleftrightarrow>
    \<bar>max 0 (vg_viewportHeight g) - vc_viewportHeight c\<bar> > TRANSCRIPT_VIEWPORT_GEOMETRY_EPSILON_PX \<or>
    \<bar>max 0 (or_else (vg_footerHeight g) 0) - vc_footerHeight c\<bar> > TRANSCRIPT_VIEWPORT_GEOMETRY_EPSILON_PX \<or>
    vg_widthScope g \<noteq> vc_widthScope c"

definition user_scroll :: "viewport_geometry \<Rightarrow> sync_options \<Rightarrow> virtual_controller \<Rightarrow> bool" where
  "user_scroll g o' c \<longleftrightarrow>
    or_else (so_source o') FromBrowser = FromBrowser \<and> (so_userScrollIntent o' \<or> \<not> geometry_changed g c)"

lemma syncViewport_eq:
  "syncViewport g o' c =
    (let d = sync_observed g c; direction = getScrollDirection (observedScrollTop c) (observedScrollTop d);
         distance = getDistanceFromBottom d (observedScrollTop d) in
     if user_scroll g o' c \<and> so_preserveScrollPosition o' then (None, captureViewportAnchor FallbackPosition d)
     else if user_scroll g o' c \<and> vc_anchor d = AnchorBottom \<and> direction = ScrollUp \<and>
       distance > vc_pinnedBottomThresholdPx d
     then (None, captureViewportAnchor FallbackBottom (count (\<lambda>d. d\<lparr>vd_bottomFollowExits := vd_bottomFollowExits d + 1\<rparr>) d))
     else if user_scroll g o' c \<and> (so_userScrollIntent o' \<or> direction \<noteq> ScrollNone)
     then (None, if distance \<le> vc_pinnedBottomThresholdPx d then setScrollAnchor PendingBottom d
       else captureViewportAnchor FallbackBottom d)
     else reconcileAnchor (anchor_reason d) True d)"
  unfolding syncViewport_def user_scroll_def geometry_changed_def sync_observed_def sync_resized_def fresh_def Let_def
  by (rule refl)

lemma sync_steady: "steady (sync_observed g c) (snd (syncViewport g o' c))"
  unfolding syncViewport_eq Let_def
  by (simp add: steady_trans [OF steady_count steady_capture])

lemma sync_ok:
  assumes "controller_ok c" shows "controller_ok (snd (syncViewport g o' c))"
proof -
  have "0 \<le> getBottomScrollTop (sync_resized g c)" by (simp add: getBottomScrollTop_def Let_def)
  then have "controller_ok (fresh ((sync_resized g c)\<lparr>vc_viewport := fst (transitionTranscriptGeometryViewport
      (vc_viewport (sync_resized g c)) (GeometryObserve (Some (vg_scrollTop g)) (Some (getBottomScrollTop (sync_resized g c)))))\<rparr>))"
    using assms
    by (auto simp: sync_resized_def controller_ok_def observedScrollTop_def observe_position clampFinite_bounds fresh_def)
  then have "controller_ok (sync_observed g c)"
    unfolding sync_observed_def by (rule controller_ok_steady [OF _ steady_count])
  then show ?thesis by (rule controller_ok_steady [OF _ sync_steady])
qed

lemma controller_step_ok:
  assumes "controller_ok c" shows "controller_ok (controller_step a c)"
proof (cases a)
  case (ControllerReset input)
  then show ?thesis
    by (simp add: controller_step_def reset_def setScrollAnchor_def controller_ok_def observedScrollTop_def
        row_index_def map_option_case split: option.splits)
next
  case (ControllerSetRows rows)
  then show ?thesis using setRows_ok [OF assms] by (simp add: controller_step_def)
next
  case (ControllerSync g o')
  then show ?thesis using sync_ok [OF assms] by (simp add: controller_step_def)
next
  case (ControllerMeasure token height)
  obtain v c1 where v: "validateMeasurementToken token c = (v, c1)" by fastforce
  have ok: "controller_ok c1"
    using controller_ok_steady [OF assms steady_validate, of token] v by simp
  have "controller_ok (fresh (record_measurement token height c1))"
    by (rule record_measurement_ok) (rule controller_ok_fresh [OF ok])
  from controller_ok_steady [OF this steady_reconcile]
  show ?thesis using ControllerMeasure v ok
    by (simp add: controller_step_def applyMeasuredHeight_def split_beta Let_def flip: fresh_def)
next
  case (ControllerMeasureAll inputs)
  obtain acc n c1 where m: "measure_all inputs [] 0 c = (acc, n, c1)" by (metis prod_cases3)
  have "controller_ok (fresh c1)" using measure_all_ok [OF controller_ok_fresh [OF assms] m] .
  from controller_ok_steady [OF this steady_reconcile]
  have acc: "controller_ok (snd (reconcileAnchor r u (fresh c1)))" for r u .
  have "acc = [] \<Longrightarrow> controller_ok c1"
    using controller_ok_steady [OF assms] measure_all_rejects m by blast
  then show ?thesis using ControllerMeasureAll m acc
    by (simp add: controller_step_def applyMeasuredHeights_def split_beta Let_def flip: fresh_def)
next
  case (ControllerScrollToRow k align)
  then show ?thesis using assms controller_ok_steady [OF assms steady_correction]
    by (auto simp: controller_step_def scrollToRow_def split_beta Let_def split: option.splits)
next
  case ControllerGetRange
  show ?thesis
  proof (cases "vc_lastRange c")
    case None
    define c1 where "c1 = count (\<lambda>d. d\<lparr>vd_rangeCalculations := vd_rangeCalculations d + 1\<rparr>) c"
    have "steady c c1" by (simp add: c1_def)
    then have "current_range c1 = current_range c" by (rule heights_steady)
    moreover have "current_range (c1\<lparr>vc_lastRange := r\<rparr>) = current_range c1" for r
      by (rule heights_layout) (simp_all add: layout_of_def observedScrollTop_def)
    ultimately have "controller_ok (c1\<lparr>vc_lastRange := Some (current_range c1)\<rparr>)"
      using assms by (simp add: controller_ok_def c1_def count_def observedScrollTop_def)
    from controller_ok_steady [OF this steady_count]
    show ?thesis using ControllerGetRange None
      unfolding c1_def controller_step_def getRange_def Let_def by simp
  qed (use ControllerGetRange assms in \<open>simp add: controller_step_def getRange_def\<close>)
qed

lemma controller_create_ok: "controller_ok (createTranscriptVirtualController input options)"
  by (auto simp: createTranscriptVirtualController_def controller_ok_def observedScrollTop_def row_index_def)

interpretation controller: step_system controller_step "\<lambda>_ _. True" controller_ok
  by unfold_locales (rule controller_step_ok)

lemma controller_run_ok: "controller_ok (fold controller_step actions (createTranscriptVirtualController input options))"
  by (rule controller.total_run_inv) (simp_all add: controller_create_ok)

section \<open>The cached range\<close>

text \<open>
  The range handed to the view is never stale: after any sequence of resets, row updates, viewport
  reports, measurements, scrolls and earlier reads, \<open>getRange\<close> returns exactly what
  \<open>computeTranscriptVirtualRange\<close> computes from the present rows, heights and viewport, cached or not.
\<close>

theorem range_is_current:
  "let c = fold controller_step actions (createTranscriptVirtualController input options) in
    fst (getRange c) = current_range c"
proof -
  define c where "c = fold controller_step actions (createTranscriptVirtualController input options)"
  have "controller_ok c" unfolding c_def by (rule controller_run_ok)
  moreover have "current_range (count f c) = current_range c" for f
    by (rule heights_steady) simp
  ultimately have "fst (getRange c) = current_range c"
    by (auto simp: getRange_def controller_ok_def Let_def split: option.splits)
  then show ?thesis by (simp add: c_def Let_def)
qed

section \<open>Measurements\<close>

lemma validate_iff: "fst (validateMeasurementToken token c) \<longleftrightarrow> getMeasurementToken c (mt_rowId token) = Some token"
  by (cases token; cases "getRow c (mt_rowId token)")
    (auto simp: validateMeasurementToken_def getMeasurementToken_def Let_def)

text \<open>
  A measurement counts only for what was measured: \<open>applyMeasuredHeight\<close> accepts a token iff it is
  the token the controller would hand out for that row now (same session, epoch, width, and both
  revisions), and a refused measurement proposes no scrolling and changes no row, height, position or
  anchor.
\<close>

theorem stale_measurement_refused:
  "let (r, c') = applyMeasuredHeight token height c in
    (fst r \<longleftrightarrow> getMeasurementToken c (mt_rowId token) = Some token) \<and>
    (fst r \<or> (snd r = None \<and> steady c c' \<and> vc_anchor c' = vc_anchor c \<and> vc_viewport c' = vc_viewport c))"
proof -
  obtain v c1 where v: "validateMeasurementToken token c = (v, c1)" by fastforce
  have c1: "steady c c1" "vc_anchor c1 = vc_anchor c" "vc_viewport c1 = vc_viewport c"
    using v steady_validate [of c token] by (auto simp: validateMeasurementToken_def Let_def count_def)
  have "fst (fst (applyMeasuredHeight token height c)) \<longleftrightarrow> getMeasurementToken c (mt_rowId token) = Some token"
    using validate_iff [of token c] v by (simp add: applyMeasuredHeight_def split_beta Let_def)
  then show ?thesis
    using v c1 by (cases v) (auto simp: applyMeasuredHeight_def split_beta Let_def)
qed

text \<open>What validating and recording a measurement depend on.\<close>

definition same_data :: "virtual_controller \<Rightarrow> virtual_controller \<Rightarrow> bool" where
  "same_data c d \<longleftrightarrow> layout_of d = layout_of c \<and> session_of d = session_of c"

lemma same_data_steady: "steady c c' \<Longrightarrow> same_data c c'"
  by (simp add: steady_def same_data_def)

lemma same_data_trans: "same_data a b \<Longrightarrow> same_data b c \<Longrightarrow> same_data a c"
  by (simp add: same_data_def)

lemma same_data_fresh [simp]: "same_data c (fresh c)"
  by (simp add: same_data_def layout_of_def session_of_def fresh_def)

lemma same_data_sym: "same_data a b \<Longrightarrow> same_data b a"
  by (simp add: same_data_def)

lemma same_data_row:
  assumes "same_data c d" shows "getRow d = getRow c" "getRowHeight d = getRowHeight c"
  using assms heights_layout(1,2) [of d c] unfolding same_data_def by blast+

lemma same_data_validate:
  "same_data c d \<Longrightarrow> fst (validateMeasurementToken token d) = fst (validateMeasurementToken token c)"
  unfolding validate_iff getMeasurementToken_def using same_data_row(1) [of c d]
  by (cases "getRow c (mt_rowId token)") (simp_all add: same_data_def session_of_def)

lemma same_data_record:
  assumes "same_data c d"
  shows "same_data (record_measurement token h c) (record_measurement token h d)"
proof -
  have e: "vc_rows d = vc_rows c" "vc_rowIndexById d = vc_rowIndexById c" "vc_measurements d = vc_measurements c"
    "vc_streamingHeightFloors d = vc_streamingHeightFloors c" "vc_viewportHeight d = vc_viewportHeight c"
    "vc_footerHeight d = vc_footerHeight c" "vc_browserScrollHeight d = vc_browserScrollHeight c"
    "vc_overscan d = vc_overscan c" "vc_protectedRowIds d = vc_protectedRowIds c"
    "vc_sessionId d = vc_sessionId c" "vc_sessionEpoch d = vc_sessionEpoch c" "vc_widthScope d = vc_widthScope c"
    using assms by (simp_all add: same_data_def layout_of_def session_of_def)
  show ?thesis
    by (cases "getRow c (mt_rowId token)")
      (simp_all add: record_measurement_def Let_def same_data_row [OF assms] count_def same_data_def
        layout_of_def session_of_def updateStreamingHeightFloor_def e)
qed

definition measure_one :: "virtual_controller \<Rightarrow> measurement_token \<times> js_number \<Rightarrow> virtual_controller" where
  "measure_one c input = snd (applyMeasuredHeight (fst input) (snd input) c)"

definition accepts :: "virtual_controller \<Rightarrow> measurement_token \<times> js_number \<Rightarrow> bool" where
  "accepts c input = fst (fst (applyMeasuredHeight (fst input) (snd input) c))"

lemma measure_one_data:
  assumes "same_data c d" "validateMeasurementToken token c = (v, c1)"
  shows "same_data (if v then record_measurement token h c1 else c1) (measure_one d (token, h))"
    "accepts d (token, h) = v"
proof -
  obtain w d1 where w: "validateMeasurementToken token d = (w, d1)" by fastforce
  have wv: "w = v" using same_data_validate [OF assms(1), of token] assms(2) w by simp
  have d1: "same_data c1 d1"
    using same_data_steady [OF steady_validate, of c token] same_data_steady [OF steady_validate, of d token]
      assms w by (auto intro: same_data_trans same_data_sym)
  show "accepts d (token, h) = v"
    using w wv by (simp add: accepts_def applyMeasuredHeight_def split_beta Let_def)
  show "same_data (if v then record_measurement token h c1 else c1) (measure_one d (token, h))"
  proof (cases v)
    case True
    have "same_data (record_measurement token h c1) (fresh (record_measurement token h d1))"
      by (rule same_data_trans [OF same_data_record [OF d1] same_data_fresh])
    from same_data_trans [OF this same_data_steady [OF steady_reconcile]]
    show ?thesis using True w wv
      by (simp add: measure_one_def applyMeasuredHeight_def Let_def split_beta flip: fresh_def)
  qed (use w wv d1 in \<open>simp add: measure_one_def applyMeasuredHeight_def Let_def\<close>)
qed

lemma measure_all_data:
  assumes "measure_all inputs acc n c = (acc', n', c')" "same_data c d"
  shows "same_data c' (foldl measure_one d inputs)"
  using assms
proof (induction inputs acc n c arbitrary: d rule: measure_all.induct)
  case (2 token h inputs acc n c)
  obtain v c1 where v: "validateMeasurementToken token c = (v, c1)" by fastforce
  from measure_one_data(1) [OF "2.prems"(2) v, of h]
  show ?case using 2 v by (cases v) auto
qed simp

lemma batch_same_data: "same_data (foldl measure_one c inputs) (snd (applyMeasuredHeights inputs c))"
proof -
  obtain acc n c1 where m: "measure_all inputs [] 0 c = (acc, n, c1)" by (metis prod_cases3)
  have "same_data c1 (foldl measure_one c inputs)"
    by (rule measure_all_data [OF m]) (simp add: same_data_def)
  moreover have "same_data c1 (snd (applyMeasuredHeights inputs c))"
  proof (cases "acc = []")
    case False
    have "same_data c1 (snd (reconcileAnchor r u (fresh c1)))" for r u
      by (rule same_data_trans [OF same_data_fresh same_data_steady [OF steady_reconcile]])
    then show ?thesis using m False
      by (simp add: applyMeasuredHeights_def Let_def split_beta flip: fresh_def)
  qed (use m in \<open>simp add: applyMeasuredHeights_def same_data_def\<close>)
  ultimately show ?thesis by (meson same_data_sym same_data_trans)
qed

text \<open>
  A batch measures like single calls: after \<open>applyMeasuredHeights\<close> every row has the height, and
  every streaming row the floor, that applying the measurements one by one would have given, whatever
  scrolling the single calls would have proposed in between.
\<close>

theorem batch_measures_like_singles:
  "getRowHeight (snd (applyMeasuredHeights inputs c)) = getRowHeight (foldl measure_one c inputs) \<and>
    vc_streamingHeightFloors (snd (applyMeasuredHeights inputs c))
      = vc_streamingHeightFloors (foldl measure_one c inputs)"
  using batch_same_data [of c inputs] same_data_row [OF batch_same_data] by (simp add: same_data_def layout_of_def)

section \<open>Streaming rows\<close>

definition floor_of :: "virtual_controller \<Rightarrow> string \<Rightarrow> js_number" where
  "floor_of c k = or_else (vc_streamingHeightFloors c k) 0"

definition keeps_streaming :: "string \<Rightarrow> controller_action \<Rightarrow> bool" where
  \<comment> \<open>no reset, and a row update still has the row as a streaming one\<close>
  "keeps_streaming k a \<longleftrightarrow> (case a of
      ControllerReset _ \<Rightarrow> False
    | ControllerSetRows rows \<Rightarrow> k \<in> streaming_ids rows
    | _ \<Rightarrow> True)"

lemma floor_steady: "steady c c' \<Longrightarrow> floor_of c' = floor_of c"
  by (rule ext) (simp add: steady_def layout_of_def floor_of_def)

lemma floor_fresh [simp]: "floor_of (fresh c) = floor_of c"
  by (rule ext) (simp add: floor_of_def)

lemma floor_record: "floor_of c k \<le> floor_of (record_measurement token h c) k"
  by (auto simp: record_measurement_def Let_def count_def updateStreamingHeightFloor_def floor_of_def
      measurementKey_def split: option.splits)

lemma floor_measure_all: "measure_all inputs acc n c = (acc', n', c') \<Longrightarrow> floor_of c k \<le> floor_of c' k"
proof (induction inputs acc n c rule: measure_all.induct)
  case (2 token h inputs acc n c)
  obtain v c1 where v: "validateMeasurementToken token c = (v, c1)" by fastforce
  have "floor_of c1 k = floor_of c k" using floor_steady [OF steady_validate [of c token]] v by simp
  then show ?case using 2 v floor_record [of c1 k token h] by (cases v) fastforce+
qed simp

lemma floor_reconciled [simp]: "floor_of (snd (reconcileAnchor r u c)) = floor_of c"
  by (rule floor_steady) simp

lemma sync_layout:
  "vc_rows (snd (syncViewport g o' c)) = vc_rows c"
  "floor_of (snd (syncViewport g o' c)) = floor_of c"
  "getRowHeight (snd (syncViewport g o' c)) = getRowHeight c"
proof -
  have e: "vc_rows (sync_observed g c) = vc_rows c" "vc_measurements (sync_observed g c) = vc_measurements c"
    "vc_streamingHeightFloors (sync_observed g c) = vc_streamingHeightFloors c"
    by (simp_all add: sync_observed_def sync_resized_def fresh_def count_def)
  show "vc_rows (snd (syncViewport g o' c)) = vc_rows c"
    using sync_steady [of g c o'] e by (simp add: steady_def layout_of_def)
  show "floor_of (snd (syncViewport g o' c)) = floor_of c"
    using floor_steady [OF sync_steady [of g c o']] e by (simp add: floor_of_def [abs_def])
  show "getRowHeight (snd (syncViewport g o' c)) = getRowHeight c"
    unfolding heights_steady(1) [OF sync_steady] by (rule ext) (simp only: getRowHeight_def e)
qed

lemma floor_step:
  assumes "keeps_streaming k a" shows "floor_of c k \<le> floor_of (controller_step a c) k"
proof (cases a)
  case (ControllerSetRows rows)
  then have "k \<in> streaming_ids rows" using assms by (simp add: keeps_streaming_def)
  then have k: "k \<in> set (map (\<lambda>row. measurementKey (rd_rowId row)) (filter (\<lambda>row. rd_anchorPriority row = Streaming) rows))"
    by (auto simp: streaming_ids_def measurementKey_def)
  have "floor_of (releaseInactiveStreamingFloors (c\<lparr>vc_rows := rows, vc_rowIndexById := ix\<rparr>)) k = floor_of c k" for ix
    using k by (simp add: floor_of_def releaseInactiveStreamingFloors_def Let_def restrict_map_def)
  then show ?thesis using ControllerSetRows
    by (simp add: controller_step_def setRows_def Let_def floor_steady [OF steady_count] flip: fresh_def)
next
  case (ControllerMeasure token h)
  obtain v c1 where v: "validateMeasurementToken token c = (v, c1)" by fastforce
  have "floor_of c1 = floor_of c" using floor_steady [OF steady_validate [of c token]] v by simp
  then show ?thesis using ControllerMeasure v floor_record [of c1 k token h]
    by (simp add: controller_step_def applyMeasuredHeight_def Let_def split_beta flip: fresh_def)
next
  case (ControllerMeasureAll inputs)
  obtain acc n c1 where m: "measure_all inputs [] 0 c = (acc, n, c1)" by (metis prod_cases3)
  show ?thesis using ControllerMeasureAll m floor_measure_all [OF m, of k]
    by (simp add: controller_step_def applyMeasuredHeights_def Let_def split_beta flip: fresh_def)
next
  case (ControllerScrollToRow key align)
  then show ?thesis using floor_steady [OF steady_correction]
    by (auto simp: controller_step_def scrollToRow_def split_beta Let_def split: option.splits)
next
  case ControllerGetRange
  have "floor_of (count f (d\<lparr>vc_lastRange := r\<rparr>)) = floor_of d" "floor_of (count f d) = floor_of d" for f d r
    by (simp_all add: floor_of_def [abs_def] count_def)
  then show ?thesis using ControllerGetRange
    by (simp add: controller_step_def getRange_def Let_def split: option.splits)
qed (use assms in \<open>simp_all add: keeps_streaming_def controller_step_def sync_layout\<close>)

lemma floor_run:
  "\<forall>a \<in> set actions. keeps_streaming k a \<Longrightarrow> floor_of c k \<le> floor_of (fold controller_step actions c) k"
proof (induction actions arbitrary: c)
  case (Cons a actions)
  have "floor_of c k \<le> floor_of (controller_step a c) k" using Cons.prems by (simp add: floor_step)
  also have "\<dots> \<le> floor_of (fold controller_step (a # actions) c) k" using Cons by simp
  finally show ?case .
qed simp

lemma height_above_floor: "rd_anchorPriority row = Streaming \<Longrightarrow> floor_of c (rd_rowId row) \<le> getRowHeight c row"
  by (simp add: getRowHeight_def floor_of_def measurementKey_def Let_def)

lemma measured_floor:
  assumes "getRow c (mt_rowId token) = Some row" "rd_rowId row = mt_rowId token" "rd_anchorPriority row = Streaming"
    and "getMeasurementToken c (mt_rowId token) = Some token"
  shows "getRowHeight (record_measurement token h c) row = floor_of (record_measurement token h c) (rd_rowId row)"
    and "getRowHeight c row \<le> getRowHeight (record_measurement token h c) row"
proof -
  have revs: "mt_heightRevision token = rd_heightRevision row" "mt_layoutRevision token = rd_layoutRevision row"
    using assms(1,4) by (cases token; auto simp: getMeasurementToken_def)+
  show 1: "getRowHeight (record_measurement token h c) row = floor_of (record_measurement token h c) (rd_rowId row)"
    using assms(1-3) revs
    by (simp add: record_measurement_def Let_def count_def updateStreamingHeightFloor_def floor_of_def
        getRowHeight_def [of "_\<lparr>vc_diagnostics := _\<rparr>"] measurementKey_def)
  show "getRowHeight c row \<le> getRowHeight (record_measurement token h c) row"
    unfolding 1 using assms(1-3)
    by (simp add: record_measurement_def Let_def count_def updateStreamingHeightFloor_def floor_of_def measurementKey_def)
qed

text \<open>
  C20. A row that is being streamed never shrinks: once a measurement of it has been accepted, its height
  is at least the one it was shown with and the one measured, and it stays at least that through any
  further row updates, measurements, viewport reports and scrolls, as long as the row stays a streaming
  one, even when its revisions change and the measurement no longer fits.
\<close>

theorem streaming_never_shrinks:
  assumes "controller_ok c" "getRow c (mt_rowId token) = Some row" "rd_anchorPriority row = Streaming"
    and "fst (fst (applyMeasuredHeight token height c))"
    and "\<forall>a \<in> set actions. keeps_streaming (rd_rowId row) a"
    and "row' \<in> set (vc_rows (fold controller_step actions (snd (applyMeasuredHeight token height c))))"
      "rd_rowId row' = rd_rowId row" "rd_anchorPriority row' = Streaming"
  shows "max (getRowHeight c row) height
    \<le> getRowHeight (fold controller_step actions (snd (applyMeasuredHeight token height c))) row'"
proof -
  obtain v c1 where v: "validateMeasurementToken token c = (v, c1)" by fastforce
  have id: "rd_rowId row = mt_rowId token" using getRow_spec [OF assms(1,2)] by simp
  have tok: "getMeasurementToken c (mt_rowId token) = Some token"
    using assms(4) v validate_iff [of token c] by (simp add: applyMeasuredHeight_def split_beta Let_def split: if_splits)
  have "v" using validate_iff [of token c] v tok by simp
  have st: "steady c c1" using steady_validate [of c token] v by simp
  let ?r = "record_measurement token height c1"
  have g: "getRow c1 (mt_rowId token) = Some row" "getMeasurementToken c1 (mt_rowId token) = Some token"
    using heights_steady(2) [OF st] assms(2) tok st
    by (simp_all add: getMeasurementToken_def steady_def session_of_def)
  note mf = measured_floor [OF g(1) id assms(3) g(2), of height]
  have "getRowHeight c row \<le> floor_of ?r (rd_rowId row)"
    using mf heights_steady(1) [OF st] by simp
  moreover have "height \<le> floor_of ?r (rd_rowId row)"
    using g(1) id assms(3)
    by (simp add: record_measurement_def Let_def count_def updateStreamingHeightFloor_def floor_of_def measurementKey_def)
  moreover have "floor_of (snd (applyMeasuredHeight token height c)) = floor_of ?r"
    using v \<open>v\<close> by (simp add: applyMeasuredHeight_def Let_def split_beta flip: fresh_def)
  moreover note floor_run [OF assms(5), of "snd (applyMeasuredHeight token height c)"]
    height_above_floor [OF assms(8), of "fold controller_step actions (snd (applyMeasuredHeight token height c))"]
  ultimately show ?thesis by (simp add: assms(7))
qed

lemma setRows_rows: "vc_rows (snd (setRows rows c)) = rows"
proof -
  let ?d = "\<lambda>f. count f ((releaseInactiveStreamingFloors (c\<lparr>vc_rows := rows, vc_rowIndexById := row_index rows\<rparr>))
    \<lparr>vc_lastRange := None\<rparr>)"
  have "vc_rows (?d f) = rows" for f by (simp add: releaseInactiveStreamingFloors_def Let_def count_def)
  moreover have "vc_rows (snd (reconcileAnchor r u d)) = vc_rows d" for r u d
    using steady_reconcile [of d r u] by (simp add: steady_def layout_of_def)
  ultimately show ?thesis by (simp add: setRows_def Let_def)
qed

definition stream_row :: "string \<Rightarrow> row_descriptor" where
  "stream_row revision = \<lparr>rd_rowId = ''a'', rd_heightRevision = revision, rd_layoutRevision = ''1'',
    rd_anchorPriority = Streaming, rd_estimatedHeight = 40, rd_spacingBefore = 0\<rparr>"

definition stream_controller :: virtual_controller where
  "stream_controller = snd (setRows [stream_row ''1'']
    (createTranscriptVirtualController
      \<lparr>sg_sessionId = ''s'', sg_sessionEpoch = 1, sg_widthScope = ''w'', sg_viewportHeight = 100,
       sg_footerHeight = None, sg_scrollTop = None, sg_browserScrollHeight = None\<rparr>
      \<lparr>co_pinnedBottomThresholdPx = None, co_autoScrollThresholdPx = None, co_measurementEpsilonPx = None,
       co_overscanBeforePx = None, co_overscanAfterPx = None, co_overscanBeforeRows = None,
       co_overscanAfterRows = None, co_protectedRowIds = None\<rparr>))"

definition stream_token :: measurement_token where
  "stream_token = \<lparr>mt_sessionId = ''s'', mt_sessionEpoch = 1, mt_widthScope = ''w'', mt_rowId = ''a'',
    mt_heightRevision = ''1'', mt_layoutRevision = ''1''\<rparr>"

theorem streaming_never_shrinks_witness:
  "max (getRowHeight stream_controller (stream_row ''1'')) 70
    \<le> getRowHeight (fold controller_step [ControllerSetRows [stream_row ''2'']]
        (snd (applyMeasuredHeight stream_token 70 stream_controller))) (stream_row ''2'')"
proof -
  have ok: "controller_ok stream_controller"
    unfolding stream_controller_def by (rule setRows_ok) (rule controller_create_ok)
  have "getRow stream_controller (mt_rowId stream_token) = Some (stream_row ''1'')"
    "rd_anchorPriority (stream_row ''1'') = Streaming"
    "fst (fst (applyMeasuredHeight stream_token 70 stream_controller))"
    by code_simp+
  from streaming_never_shrinks [OF ok this, of "[ControllerSetRows [stream_row ''2'']]" "stream_row ''2''"]
  show ?thesis
    by (simp add: keeps_streaming_def streaming_ids_def stream_row_def controller_step_def setRows_rows)
qed

end
