(* ===== verification/MeasurementFlow.thy ===== *)
theory MeasurementFlow
  imports MeasurementScheduler VirtualStability
begin

text \<open>
  What the measurement scheduler guarantees (\<open>transcriptMeasurementScheduler.ts\<close>): keys name tokens,
  the cache keeps what was used last, a better measurement is not replaced by a worse one, whatever waits
  for the controller is current and delivered, and a controller with the same rows takes all of it.
\<close>

section \<open>Keys\<close>

definition plain_token :: "measurement_token \<Rightarrow> bool" where
  \<comment> \<open>no part of the token holds the separator\<close>
  "plain_token t \<longleftrightarrow> CHR 0x00 \<notin> set (mt_sessionId t) \<union> set (mt_widthScope t) \<union> set (mt_rowId t) \<union>
    set (mt_heightRevision t) \<union> set (mt_layoutRevision t)"

lemma digit_char_plain: "d < 36 \<Longrightarrow> digit_char d \<noteq> CHR 0x00"
proof
  assume d: "d < 36" and e: "digit_char d = CHR 0x00"
  have "of_char (digit_char d) = (0 :: nat)" by (simp add: e)
  then show False using d by (simp add: digit_char_def split: if_splits)
qed

lemma nat_string_plain: "CHR 0x00 \<notin> set (nat_string 10 n)"
proof (induction "10 :: nat" n rule: nat_string.induct)
  case (1 n)
  have "digit_char (n mod 10) \<noteq> CHR 0x00" by (rule digit_char_plain) (rule less_trans [of _ 10]; simp)
  then show ?case using 1 digit_char_plain [of n]
    by (subst nat_string.simps) auto
qed

lemma key_injective:
  assumes "plain_token t" "plain_token u" "createMeasurementCacheKey t = createMeasurementCacheKey u"
  shows "t = u"
proof -
  let ?parts = "\<lambda>t. [mt_sessionId t, nat_string 10 (mt_sessionEpoch t), mt_widthScope t, mt_rowId t,
    mt_heightRevision t, mt_layoutRevision t]"
  have "js_split (CHR 0x00) (createMeasurementCacheKey v) = ?parts v" if "plain_token v" for v
    unfolding createMeasurementCacheKey_def using that nat_string_plain
    by (intro js_split_join) (auto simp: plain_token_def)
  then have "?parts t = ?parts u" using assms by metis
  then show ?thesis by (cases t; cases u) (simp add: nat_string_inj)
qed

section \<open>The cache\<close>

abbreviation token_key where "token_key \<equiv> createMeasurementCacheKey"

definition cache_ok :: "measurement_cache \<Rightarrow> bool" where
  "cache_ok c \<longleftrightarrow> 1 \<le> mc_maxEntries c \<and> of_nat (length (mc_entries c)) \<le> mc_maxEntries c \<and>
    obj_wf (mc_entries c) \<and>
    (\<forall>(k, e) \<in> set (mc_entries c). k = token_key (ce_token e))"

lemma set_after_del: "obj_set k v (obj_del k m) = obj_del k m @ [(k, v)]"
proof -
  have "k \<notin> fst ` set m \<Longrightarrow> AList.update k v m = m @ [(k, v)]" for m :: "'a jsobj"
    by (induction m) auto
  moreover have "k \<notin> fst ` set (obj_del k m)" by (auto simp: obj_del_def)
  ultimately show ?thesis by (simp add: obj_set_def)
qed

lemma evict_loop_drop:
  "1 \<le> m \<Longrightarrow> evict_loop m es n = (drop (length es - nat \<lfloor>m\<rfloor>) es, n + (length es - nat \<lfloor>m\<rfloor>))"
proof (induction m es n rule: evict_loop.induct)
  case (2 m e es n)
  have le: "rat_of_nat k \<le> m \<longleftrightarrow> k \<le> nat \<lfloor>m\<rfloor>" for k
    using "2.prems" by (simp add: le_nat_iff le_floor_iff)
  show ?case
  proof (cases "rat_of_nat (length (e # es)) > m")
    case True
    then have "nat \<lfloor>m\<rfloor> < length (e # es)" using le [of "length (e # es)"] by simp
    then have "length (e # es) - nat \<lfloor>m\<rfloor> = Suc (length es - nat \<lfloor>m\<rfloor>)" by simp
    then show ?thesis using 2 True by simp
  next
    case False
    then have "length (e # es) \<le> nat \<lfloor>m\<rfloor>" using le [of "length (e # es)"] by simp
    then show ?thesis using False by simp
  qed
qed simp

lemma cacheSet_entries:
  assumes "1 \<le> mc_maxEntries c"
  shows "mc_entries (cacheSet e c) =
    (let es = obj_del (token_key (ce_token e)) (mc_entries c) @ [(token_key (ce_token e), e)] in
     drop (length es - nat \<lfloor>mc_maxEntries c\<rfloor>) es)"
    "mc_maxEntries (cacheSet e c) = mc_maxEntries c"
  using assms by (simp_all add: cacheSet_def Let_def evict_loop_drop set_after_del split_beta)

lemma floor_pos: "1 \<le> (m :: rat) \<Longrightarrow> 0 < nat \<lfloor>m\<rfloor>"
  by (simp add: le_floor_iff)

lemma in_obj_del: "p \<in> set (obj_del k m) \<longleftrightarrow> p \<in> set m \<and> fst p \<noteq> k"
  by (auto simp: obj_del_def)

lemma obj_wf_snoc: "obj_wf (obj_del k m @ [(k, v)]) \<longleftrightarrow> obj_wf (obj_del k m)"
  by (auto simp: obj_wf_def obj_del_def)

lemma obj_wf_drop: "obj_wf m \<Longrightarrow> obj_wf (drop n m)"
  by (simp add: obj_wf_def flip: drop_map)

lemma cacheSet_ok:
  assumes "cache_ok c" shows "cache_ok (cacheSet e c)"
proof -
  let ?k = "token_key (ce_token e)"
  let ?es = "obj_del ?k (mc_entries c) @ [(?k, e)]"
  have m: "1 \<le> mc_maxEntries c" using assms by (simp add: cache_ok_def)
  have "length (mc_entries (cacheSet e c)) \<le> nat \<lfloor>mc_maxEntries c\<rfloor>"
    by (simp add: cacheSet_entries [OF m] Let_def)
  then have "rat_of_nat (length (mc_entries (cacheSet e c))) \<le> mc_maxEntries c"
    using m by (simp add: le_nat_iff le_floor_iff)
  moreover have "obj_wf ?es" using assms(1) by (simp add: obj_wf_snoc cache_ok_def)
  then have "obj_wf (mc_entries (cacheSet e c))"
    unfolding cacheSet_entries(1) [OF m] Let_def by (rule obj_wf_drop)
  moreover have "\<forall>(k, e) \<in> set ?es. k = token_key (ce_token e)"
    using assms by (auto simp: cache_ok_def in_obj_del)
  then have "\<forall>(k, e) \<in> set (mc_entries (cacheSet e c)). k = token_key (ce_token e)"
    by (auto simp: cacheSet_entries [OF m] Let_def dest: in_set_dropD)
  ultimately show ?thesis using m by (simp only: cache_ok_def cacheSet_entries(2) [OF m] simp_thms)
qed

lemma cacheGet_ok: "cache_ok c \<Longrightarrow> cache_ok (snd (cacheGet t c))"
proof (cases "obj_get (mc_entries c) (token_key t)")
  case (Some e)
  assume ok: "cache_ok c"
  then have in_: "(token_key t, e) \<in> set (mc_entries c)" using Some by (simp add: cache_ok_def obj_get_in)
  then have "length (obj_del (token_key t) (mc_entries c)) < length (mc_entries c)"
    unfolding obj_del_def by (intro length_filter_less [of "(token_key t, e)"]) auto
  then have "rat_of_nat (Suc (length (obj_del (token_key t) (mc_entries c)))) \<le> mc_maxEntries c"
    using ok by (simp only: cache_ok_def) (meson Suc_leI of_nat_le_iff order_trans)
  then show ?thesis using Some ok in_
    by (auto simp: cacheGet_def Let_def cache_ok_def set_after_del obj_wf_snoc in_obj_del)
qed (simp add: cacheGet_def Let_def cache_ok_def)

lemma cacheDelete_ok: "cache_ok c \<Longrightarrow> cache_ok (snd (cacheDeleteSession i e c))"
proof -
  assume ok: "cache_ok c"
  have "rat_of_nat (length (filter P (mc_entries c))) \<le> mc_maxEntries c" for P
    using ok length_filter_le [of P "mc_entries c"] unfolding cache_ok_def by (meson of_nat_le_iff order_trans)
  then show ?thesis using ok by (auto simp: cacheDeleteSession_def Let_def cache_ok_def)
qed

lemma cache_new_ok: "cache_ok (newMeasurementCache m)"
  by (simp add: cache_ok_def newMeasurementCache_def)

datatype cache_use = UseGet measurement_token | UseSet cache_entry

definition cache_step :: "cache_use \<Rightarrow> measurement_cache \<Rightarrow> measurement_cache" where
  "cache_step u c = (case u of UseGet t \<Rightarrow> snd (cacheGet t c) | UseSet e \<Rightarrow> cacheSet e c)"

definition used_key :: "cache_use \<Rightarrow> string" where
  "used_key u = (case u of UseGet t \<Rightarrow> token_key t | UseSet e \<Rightarrow> token_key (ce_token e))"

definition recent_in :: "string \<Rightarrow> cache_entry \<Rightarrow> string set \<Rightarrow> measurement_cache \<Rightarrow> bool" where
  \<comment> \<open>the entry is there, and only entries of these keys are younger\<close>
  "recent_in k e ks c \<longleftrightarrow> cache_ok c \<and>
    (\<exists>xs ys. mc_entries c = xs @ (k, e) # ys \<and> set (map fst ys) \<subseteq> ks)"

lemma obj_del_append [simp]: "obj_del k (xs @ ys) = obj_del k xs @ obj_del k ys"
  by (simp add: obj_del_def)

lemma obj_del_Cons [simp]: "obj_del k (p # ys) = (if fst p = k then obj_del k ys else p # obj_del k ys)"
  by (simp add: obj_del_def)

lemma cache_step_ok: "cache_ok c \<Longrightarrow> cache_ok (cache_step u c)"
  by (cases u) (simp_all add: cache_step_def cacheGet_ok cacheSet_ok)

lemma recent_step:
  assumes "recent_in k e ks c" "used_key u \<noteq> k" "finite ks" "card (insert (used_key u) ks) < nat \<lfloor>mc_maxEntries c\<rfloor>"
  shows "recent_in k e (insert (used_key u) ks) (cache_step u c)"
proof -
  obtain xs ys where c: "mc_entries c = xs @ (k, e) # ys" and ys: "set (map fst ys) \<subseteq> ks" and ok: "cache_ok c"
    using assms(1) by (auto simp: recent_in_def)
  have ok': "cache_ok (cache_step u c)" by (rule cache_step_ok [OF ok])
  show ?thesis
  proof (cases u)
    case (UseGet t)
    then show ?thesis
    proof (cases "obj_get (mc_entries c) (token_key t)")
      case None
      then show ?thesis using UseGet ok' c ys by (auto simp: recent_in_def cache_step_def cacheGet_def Let_def)
    next
      case (Some x)
      note set_after_del [of "token_key t" x "mc_entries c"]
      then have "mc_entries (cache_step u c) =
          obj_del (token_key t) xs @ (k, e) # (obj_del (token_key t) ys @ [(token_key t, x)])"
        using UseGet Some c assms(2) by (simp add: cache_step_def cacheGet_def Let_def used_key_def)
      moreover have "set (map fst (obj_del (token_key t) ys @ [(token_key t, x)])) \<subseteq> insert (used_key u) ks"
        using ys UseGet by (fastforce simp: used_key_def in_obj_del)
      ultimately show ?thesis using ok' unfolding recent_in_def by blast
    qed
  next
    case (UseSet x)
    let ?q = "token_key (ce_token x)"
    let ?ys = "obj_del ?q ys @ [(?q, x)]"
    let ?es = "obj_del ?q xs @ (k, e) # ?ys"
    have m: "1 \<le> mc_maxEntries c" using ok by (simp add: cache_ok_def)
    have keys: "set (map fst ?ys) \<subseteq> insert (used_key u) ks"
      using ys UseSet by (fastforce simp: used_key_def in_obj_del)
    have "distinct (map fst ?ys)"
      using ok c unfolding cache_ok_def obj_wf_def by (auto simp: in_obj_del obj_del_def distinct_map_filter)
    then have "length ?ys \<le> card (insert (used_key u) ks)"
      using card_mono [OF _ keys] assms(3) by (metis distinct_card finite_insert length_map)
    then have "length ?es - nat \<lfloor>mc_maxEntries c\<rfloor> \<le> length (obj_del ?q xs)"
      using assms(4) by simp
    then have "mc_entries (cache_step u c) =
        drop (length ?es - nat \<lfloor>mc_maxEntries c\<rfloor>) (obj_del ?q xs) @ (k, e) # ?ys"
      using UseSet c assms(2) by (simp add: cache_step_def cacheSet_entries [OF m] Let_def used_key_def)
    then show ?thesis using ok' keys unfolding recent_in_def by blast
  qed
qed

lemma recent_run:
  assumes "recent_in k e ks c" "\<forall>u \<in> set uses. used_key u \<noteq> k" "finite ks" "card (ks \<union> used_key ` set uses) < nat \<lfloor>mc_maxEntries c\<rfloor>"
  shows "recent_in k e (ks \<union> used_key ` set uses) (fold cache_step uses c)"
  using assms
proof (induction uses arbitrary: ks c)
  case (Cons u uses)
  have m: "mc_maxEntries (cache_step u c) = mc_maxEntries c"
    using Cons.prems(1) cacheSet_entries(2) [of c]
    by (auto simp: recent_in_def cache_ok_def cache_step_def cacheGet_def Let_def split: cache_use.splits option.splits)
  have "card (insert (used_key u) ks) \<le> card (ks \<union> used_key ` set (u # uses))"
    using Cons.prems(3) by (intro card_mono) auto
  then have "recent_in k e (insert (used_key u) ks) (cache_step u c)"
    using Cons.prems by (intro recent_step) auto
  from Cons.IH [OF this] show ?case using Cons.prems m by simp
qed simp

lemma recent_get: "recent_in k e ks c \<Longrightarrow> obj_get (mc_entries c) k = Some e"
  unfolding recent_in_def cache_ok_def by (auto simp: obj_get_in)

lemma recent_start:
  assumes "cache_ok c" "cachePeek t (cache_step u c) = Some e" "used_key u = token_key t"
  shows "recent_in (token_key t) e {} (cache_step u c)"
proof -
  have ok: "cache_ok (cache_step u c)" by (rule cache_step_ok [OF assms(1)])
  have m: "1 \<le> mc_maxEntries c" using assms(1) by (simp add: cache_ok_def)
  have "\<exists>xs x. mc_entries (cache_step u c) = xs @ [(token_key t, x)]"
  proof (cases u)
    case (UseGet t')
    then show ?thesis using assms(2,3)
      by (cases "obj_get (mc_entries c) (token_key t)")
        (auto simp: cache_step_def cacheGet_def Let_def used_key_def cachePeek_def set_after_del)
  next
    case (UseSet x)
    let ?xs = "obj_del (token_key t) (mc_entries c)"
    obtain n where "nat \<lfloor>mc_maxEntries c\<rfloor> = Suc n" using floor_pos [OF m] gr0_conv_Suc by blast
    then have "length (?xs @ [(token_key t, x)]) - nat \<lfloor>mc_maxEntries c\<rfloor> \<le> length ?xs" by simp
    then have "mc_entries (cache_step u c)
        = drop (length (?xs @ [(token_key t, x)]) - nat \<lfloor>mc_maxEntries c\<rfloor>) ?xs @ [(token_key t, x)]"
      using UseSet assms(3) by (simp add: cache_step_def cacheSet_entries [OF m] Let_def used_key_def)
    then show ?thesis by blast
  qed
  then obtain xs x where c: "mc_entries (cache_step u c) = xs @ [(token_key t, x)]" by blast
  have "obj_wf (mc_entries (cache_step u c))" using ok by (simp add: cache_ok_def)
  then have "obj_get (mc_entries (cache_step u c)) (token_key t) = Some x" using c by (simp add: obj_get_in)
  then have "x = e" using assms(2) by (simp add: cachePeek_def)
  then show ?thesis using c ok by (auto simp: recent_in_def)
qed

text \<open>
  C24. The cache keeps what was used last: an entry that is there after its token has been written or read
  is found unchanged for as long as fewer other keys than the cache has room for have been read or written
  since, however often, and whatever the cache held before.
\<close>

theorem cache_keeps_recent:
  assumes "cache_ok c" "used_key u = token_key t" "cachePeek t (cache_step u c) = Some e"
    and "\<forall>v \<in> set uses. used_key v \<noteq> token_key t"
    and "card (used_key ` set uses) < nat \<lfloor>mc_maxEntries c\<rfloor>"
  shows "cachePeek t (fold cache_step uses (cache_step u c)) = Some e"
proof -
  have "mc_maxEntries (cache_step u c) = mc_maxEntries c"
    using cacheSet_entries(2) [of c] assms(1)
    by (auto simp: cache_ok_def cache_step_def cacheGet_def Let_def split: cache_use.splits option.splits)
  then have "recent_in (token_key t) e ({} \<union> used_key ` set uses) (fold cache_step uses (cache_step u c))"
    using assms(4,5) by (intro recent_run [OF recent_start [OF assms(1,3,2)]]) auto
  then show ?thesis unfolding cachePeek_def by (rule recent_get)
qed

definition example_entry :: "string \<Rightarrow> cache_entry" where
  "example_entry k = \<lparr>ce_token = \<lparr>mt_sessionId = ''s'', mt_sessionEpoch = 1, mt_widthScope = ''w'', mt_rowId = k,
      mt_heightRevision = ''1'', mt_layoutRevision = ''1''\<rparr>, ce_height = 20, ce_source = Visible,
    ce_finalized = True, ce_updatedAt = 0\<rparr>"

theorem cache_keeps_recent_witness:
  "cachePeek (ce_token (example_entry ''a''))
    (fold cache_step [UseSet (example_entry ''b''), UseGet (ce_token (example_entry ''b'')), UseSet (example_entry ''c'')]
      (cache_step (UseSet (example_entry ''a'')) (newMeasurementCache (Some 3)))) = Some (example_entry ''a'')"
  by (rule cache_keeps_recent [OF cache_new_ok]) code_simp+

section \<open>The scheduler\<close>

datatype scheduler_action =
    ScheduleContext scheduler_context
  | ScheduleRows "scheduled_row list"
  | SchedulePlanMounted string
  | SchedulePlanOffscreen string
  | ScheduleGetCached string
  | ScheduleQueueCached string
  | ScheduleMounted mounted_input js_number
  | ScheduleFinalize mounted_input js_number
  | ScheduleOffscreen offscreen_input js_number
  | ScheduleDrain "js_number option"
  | ScheduleCancel string "session_epoch option"
  | ScheduleCleanup string "session_epoch option"

definition scheduler_step :: "scheduler_action \<Rightarrow> measurement_scheduler \<Rightarrow> measurement_scheduler" where
  "scheduler_step a s = (case a of
      ScheduleContext context \<Rightarrow> setContext context s
    | ScheduleRows rows \<Rightarrow> schedulerSetRows rows s
    | SchedulePlanMounted rowId \<Rightarrow> snd (planMountedMeasurement rowId s)
    | SchedulePlanOffscreen rowId \<Rightarrow> snd (planOffscreenMeasurement rowId s)
    | ScheduleGetCached rowId \<Rightarrow> snd (getCachedMeasurement rowId s)
    | ScheduleQueueCached rowId \<Rightarrow> snd (queueCachedControllerUpdate rowId s)
    | ScheduleMounted input now \<Rightarrow> snd (recordMountedMeasurement input now s)
    | ScheduleFinalize input now \<Rightarrow> snd (finalizePendingMeasurement input now s)
    | ScheduleOffscreen input now \<Rightarrow> snd (recordOffscreenMeasurement input now s)
    | ScheduleDrain maxUpdates \<Rightarrow> snd (drainControllerUpdateBatch maxUpdates s)
    | ScheduleCancel sessionId epoch \<Rightarrow> snd (cancelPendingWork sessionId epoch s)
    | ScheduleCleanup sessionId epoch \<Rightarrow> snd (schedulerCleanupSession sessionId epoch s))"

definition pending_ok :: "measurement_scheduler \<Rightarrow> bool" where
  "pending_ok s \<longleftrightarrow> obj_wf (ms_pendingFinalizations s) \<and>
    (\<forall>(k, p) \<in> set (ms_pendingFinalizations s). k = token_key (pf_token p) \<and> isTokenCurrent s (pf_token p))"

definition queue_ok :: "measurement_scheduler \<Rightarrow> bool" where
  \<comment> \<open>what waits for the controller is current, final and not negative\<close>
  "queue_ok s \<longleftrightarrow> obj_wf (ms_controllerQueue s) \<and>
    (\<forall>(k, u) \<in> set (ms_controllerQueue s). k = token_key (cu_token u) \<and> isTokenCurrent s (cu_token u) \<and>
      cu_finalized u \<and> 0 \<le> cu_height u)"

definition entries_ok :: "measurement_cache \<Rightarrow> bool" where
  "entries_ok c \<longleftrightarrow> cache_ok c \<and> (\<forall>(k, e) \<in> set (mc_entries c). 0 \<le> ce_height e)"

definition scheduler_ok :: "measurement_scheduler \<Rightarrow> bool" where
  "scheduler_ok s \<longleftrightarrow> entries_ok (ms_cache s) \<and> pending_ok s \<and> queue_ok s \<and> rebuildRowIndex s = s"

definition setting_of where
  \<comment> \<open>what tells whether a token is current\<close>
  "setting_of s = (ms_sessionId s, ms_sessionEpoch s, ms_widthScope s, ms_rows s, ms_rowById s)"

lemma current_setting:
  assumes "setting_of s' = setting_of s" shows "isTokenCurrent s' = isTokenCurrent s"
proof -
  have e: "ms_sessionId s' = ms_sessionId s" "ms_sessionEpoch s' = ms_sessionEpoch s"
    "ms_widthScope s' = ms_widthScope s" "ms_rowById s' = ms_rowById s"
    using assms by (simp_all add: setting_of_def)
  show ?thesis by (rule ext) (simp only: isTokenCurrent_def e)
qed

lemma setting_frames [simp]:
  "setting_of (tick f s) = setting_of s" "setting_of (s\<lparr>ms_cache := c\<rparr>) = setting_of s"
  "setting_of (s\<lparr>ms_controllerQueue := q\<rparr>) = setting_of s"
  "setting_of (s\<lparr>ms_pendingFinalizations := p\<rparr>) = setting_of s"
  "setting_of (s\<lparr>ms_batchesAnnounced := n\<rparr>) = setting_of s"
  by (simp_all add: setting_of_def tick_def)

lemma tick_frames [simp]:
  "ms_cache (tick f s) = ms_cache s" "ms_controllerQueue (tick f s) = ms_controllerQueue s"
  "ms_pendingFinalizations (tick f s) = ms_pendingFinalizations s" "ms_rowById (tick f s) = ms_rowById s"
  by (simp_all add: tick_def)

lemma index_eq:
  "rebuildRowIndex s = s \<longleftrightarrow> ms_rowById s = map_of (rev (map (\<lambda>row. (rd_rowId row, row)) (ms_rows s)))"
  by (cases s) (auto simp: rebuildRowIndex_def)

lemma setting_index: "setting_of s' = setting_of s \<Longrightarrow> rebuildRowIndex s' = s' \<longleftrightarrow> rebuildRowIndex s = s"
  by (simp add: setting_of_def index_eq)

lemma validate_current:
  "fst (fst (validateToken t s)) \<longleftrightarrow> isTokenCurrent s t"
  "snd (fst (validateToken t s)) = ms_rowById s (mt_rowId t)"
  by (auto simp: validateToken_def isTokenCurrent_def Let_def split: option.splits)

lemma validate_split:
  "validateToken t s = ((isTokenCurrent s t, ms_rowById s (mt_rowId t)), snd (validateToken t s))"
  by (simp add: prod_eq_iff validate_current)

lemma validate_frames [simp]:
  "ms_cache (snd (validateToken t s)) = ms_cache s" "ms_controllerQueue (snd (validateToken t s)) = ms_controllerQueue s"
  "ms_pendingFinalizations (snd (validateToken t s)) = ms_pendingFinalizations s"
  "setting_of (snd (validateToken t s)) = setting_of s"
  by (simp_all add: validateToken_def Let_def)

lemma scheduler_ok_same:
  "setting_of s' = setting_of s \<Longrightarrow> ms_cache s' = ms_cache s \<Longrightarrow> ms_controllerQueue s' = ms_controllerQueue s \<Longrightarrow>
    ms_pendingFinalizations s' = ms_pendingFinalizations s \<Longrightarrow> scheduler_ok s \<Longrightarrow> scheduler_ok s'"
  using current_setting [of s' s] setting_index [of s' s]
  by (simp add: scheduler_ok_def pending_ok_def queue_ok_def)

lemma scheduler_ok_cache: "scheduler_ok s \<Longrightarrow> entries_ok c \<Longrightarrow> scheduler_ok (s\<lparr>ms_cache := c\<rparr>)"
  using current_setting [of "s\<lparr>ms_cache := c\<rparr>" s] setting_index [of "s\<lparr>ms_cache := c\<rparr>" s]
  by (simp add: scheduler_ok_def pending_ok_def queue_ok_def)

lemma cacheGet_mem: "set (mc_entries (snd (cacheGet t c))) \<subseteq> set (mc_entries c) \<union> Pair (token_key t) ` set_option (fst (cacheGet t c))"
  by (auto simp: cacheGet_def Let_def set_after_del in_obj_del split: option.splits)

lemma entries_get: "entries_ok c \<Longrightarrow> entries_ok (snd (cacheGet t c))"
  unfolding entries_ok_def
  by (auto simp: cacheGet_ok) (auto simp: cacheGet_def Let_def set_after_del in_obj_del obj_get_in cache_ok_def split: option.splits if_splits)

lemma cacheSet_mem:
  assumes "1 \<le> mc_maxEntries c" "p \<in> set (mc_entries (cacheSet e c))"
  shows "p = (token_key (ce_token e), e) \<or> p \<in> set (mc_entries c)"
  using assms(2) unfolding cacheSet_entries(1) [OF assms(1)] Let_def
  by (drule_tac in_set_dropD) (auto simp: in_obj_del)

lemma entries_set:
  assumes "entries_ok c" "0 \<le> ce_height e" shows "entries_ok (cacheSet e c)"
proof -
  have "1 \<le> mc_maxEntries c" using assms by (simp add: entries_ok_def cache_ok_def)
  from cacheSet_mem [OF this] have "\<forall>(k, x) \<in> set (mc_entries (cacheSet e c)). 0 \<le> ce_height x"
    using assms by (fastforce simp: entries_ok_def)
  then show ?thesis using assms by (simp add: entries_ok_def cacheSet_ok)
qed

lemma entries_delete: "entries_ok c \<Longrightarrow> entries_ok (snd (cacheDeleteSession i e c))"
  unfolding entries_ok_def by (auto simp: cacheDelete_ok) (auto simp: cacheDeleteSession_def Let_def)

lemma normalizeHeight_nonneg [simp]: "0 \<le> normalizeHeight h"
  by (simp add: normalizeHeight_def split: option.split)

lemma obj_set_mem: "p \<in> set (obj_set k v m) \<Longrightarrow> p = (k, v) \<or> p \<in> set m"
  unfolding obj_set_def by (induction m) (auto split: if_splits)

lemma queue_update_ok:
  assumes "scheduler_ok s" "isTokenCurrent s (ce_token e)" "0 \<le> ce_height e" "ce_finalized e"
  shows "scheduler_ok (queueControllerUpdate e s)"
proof -
  let ?q = "obj_set (token_key (ce_token e)) \<lparr>cu_token = ce_token e, cu_height = ce_height e, cu_source = ce_source e,
    cu_finalized = ce_finalized e\<rparr> (ms_controllerQueue s)"
  let ?s = "s\<lparr>ms_controllerQueue := ?q\<rparr>"
  have "queue_ok ?s" using assms current_setting [of ?s s]
    by (auto simp: scheduler_ok_def queue_ok_def dest!: obj_set_mem)
  then have "scheduler_ok ?s" using assms(1) current_setting [of ?s s] setting_index [of ?s s]
    by (simp add: scheduler_ok_def pending_ok_def)
  then show ?thesis
    by (rule scheduler_ok_same [rotated 4]) (simp_all add: queueControllerUpdate_def Let_def)
qed

lemma pending_del_ok:
  assumes "scheduler_ok s"
  shows "scheduler_ok (s\<lparr>ms_pendingFinalizations := obj_del k (ms_pendingFinalizations s)\<rparr>)"
proof -
  let ?s = "s\<lparr>ms_pendingFinalizations := obj_del k (ms_pendingFinalizations s)\<rparr>"
  show ?thesis using assms current_setting [of ?s s] setting_index [of ?s s]
    by (auto simp: scheduler_ok_def pending_ok_def queue_ok_def in_obj_del)
qed

lemma pending_set_ok:
  assumes "scheduler_ok s" "isTokenCurrent s (pf_token p)"
  shows "scheduler_ok (s\<lparr>ms_pendingFinalizations := obj_set (token_key (pf_token p)) p (ms_pendingFinalizations s)\<rparr>)"
proof -
  let ?s = "s\<lparr>ms_pendingFinalizations := obj_set (token_key (pf_token p)) p (ms_pendingFinalizations s)\<rparr>"
  show ?thesis using assms current_setting [of ?s s] setting_index [of ?s s]
    by (auto simp: scheduler_ok_def pending_ok_def queue_ok_def dest!: obj_set_mem)
qed

lemma validate_ok: "scheduler_ok s \<Longrightarrow> scheduler_ok (snd (validateToken t s))"
  by (rule scheduler_ok_same [rotated 4]) simp_all

lemma tick_ok: "scheduler_ok s \<Longrightarrow> scheduler_ok (tick f s)"
  by (rule scheduler_ok_same [rotated 4]) simp_all

lemma accept_ok:
  assumes "scheduler_ok s" "isTokenCurrent s t" "fin"
  shows "scheduler_ok (snd (acceptMeasurement t h src fin now s))"
proof (cases "outranked (cachePeek t (ms_cache s)) src")
  case False
  let ?e = "\<lparr>ce_token = t, ce_height = normalizeHeight h, ce_source = src, ce_finalized = fin, ce_updatedAt = now\<rparr>"
  have "scheduler_ok (s\<lparr>ms_cache := cacheSet ?e (ms_cache s)\<rparr>)"
    using assms(1) by (intro scheduler_ok_cache entries_set) (simp_all add: scheduler_ok_def)
  from pending_del_ok [OF this, of "token_key t"]
  have "scheduler_ok (s\<lparr>ms_cache := cacheSet ?e (ms_cache s),
      ms_pendingFinalizations := obj_del (token_key t) (ms_pendingFinalizations s)\<rparr>)" (is "scheduler_ok ?s") by simp
  moreover have "isTokenCurrent ?s = isTokenCurrent s"
    by (rule current_setting) (simp add: setting_of_def)
  ultimately have "scheduler_ok (queueControllerUpdate ?e ?s)"
    using assms by (intro queue_update_ok) simp_all
  then show ?thesis using False by (simp add: acceptMeasurement_def Let_def tick_ok)
qed (use assms in \<open>simp add: acceptMeasurement_def\<close>)

lemma shell_ok: "scheduler_ok s \<Longrightarrow> scheduler_ok (snd (acceptShellEstimate input now s))"
  unfolding acceptShellEstimate_def Let_def
  by (auto intro!: scheduler_ok_cache entries_set simp: scheduler_ok_def [of s])

lemma mounted_ok:
  assumes "scheduler_ok s" shows "scheduler_ok (snd (recordMountedMeasurement input now s))"
proof -
  define s1 where "s1 = snd (validateToken (mi_token input) s)"
  have ok: "scheduler_ok s1" unfolding s1_def by (rule validate_ok [OF assms])
  have cur: "isTokenCurrent s1 = isTokenCurrent s" unfolding s1_def by (rule current_setting) simp
  have v: "validateToken (mi_token input) s = ((isTokenCurrent s (mi_token input), ms_rowById s (mt_rowId (mi_token input))), s1)"
    unfolding s1_def by (rule validate_split)
  show ?thesis
  proof (cases "isTokenCurrent s (mi_token input)")
    case True
    have "scheduler_ok (s1\<lparr>ms_pendingFinalizations := obj_set (token_key (mi_token input))
        (pf\<lparr>pf_token := mi_token input\<rparr>) (ms_pendingFinalizations s1)\<rparr>)" for pf :: pending_finalization
      using pending_set_ok [OF ok, of "pf\<lparr>pf_token := mi_token input\<rparr>"] True cur by simp
    from this [of "pending_finalization.make a b c d" for a b c d]
    show ?thesis using True cur accept_ok [OF ok, of "mi_token input" True]
      by (auto simp: recordMountedMeasurement_def v Let_def pending_finalization.make_def tick_ok)
  qed (simp add: recordMountedMeasurement_def v ok)
qed

lemma offscreen_ok:
  assumes "scheduler_ok s" shows "scheduler_ok (snd (recordOffscreenMeasurement input now s))"
proof -
  define s1 where "s1 = snd (validateToken (oi_token input) s)"
  have ok: "scheduler_ok s1" unfolding s1_def by (rule validate_ok [OF assms])
  have cur: "isTokenCurrent s1 = isTokenCurrent s" unfolding s1_def by (rule current_setting) simp
  have v: "validateToken (oi_token input) s = ((isTokenCurrent s (oi_token input), ms_rowById s (mt_rowId (oi_token input))), s1)"
    unfolding s1_def by (rule validate_split)
  show ?thesis
    using ok cur accept_ok [OF ok, of "oi_token input" True] shell_ok [OF ok]
    by (cases "isTokenCurrent s (oi_token input)") (auto simp: recordOffscreenMeasurement_def v tick_ok)
qed

lemma prune_ok:
  assumes "entries_ok (ms_cache s)" "obj_wf (ms_pendingFinalizations s)" "obj_wf (ms_controllerQueue s)"
    "\<forall>(k, p) \<in> set (ms_pendingFinalizations s). k = token_key (pf_token p)"
    "\<forall>(k, u) \<in> set (ms_controllerQueue s). k = token_key (cu_token u) \<and> cu_finalized u \<and> 0 \<le> cu_height u"
    "rebuildRowIndex s = s"
  shows "scheduler_ok (pruneStalePendingWork s)"
proof -
  have set: "setting_of (pruneStalePendingWork s) = setting_of s"
    by (simp add: pruneStalePendingWork_def setting_of_def)
  note cur = current_setting [OF set] and ix = setting_index [OF set]
  show ?thesis using assms unfolding scheduler_ok_def pending_ok_def queue_ok_def cur ix
    by (auto simp: pruneStalePendingWork_def)
qed

lemma rebuild_frames:
  "ms_cache (rebuildRowIndex s) = ms_cache s" "ms_rows (rebuildRowIndex s) = ms_rows s"
  "ms_pendingFinalizations (rebuildRowIndex s) = ms_pendingFinalizations s"
  "ms_controllerQueue (rebuildRowIndex s) = ms_controllerQueue s"
  "ms_rowById (rebuildRowIndex s) = map_of (rev (map (\<lambda>row. (rd_rowId row, row)) (ms_rows s)))"
  by (simp_all add: rebuildRowIndex_def)

lemma rebuild_rebuild [simp]: "rebuildRowIndex (rebuildRowIndex s) = rebuildRowIndex s"
  by (simp add: rebuildRowIndex_def)

lemma drain_valid_same:
  "setting_of (snd (drain_valid us s)) = setting_of s \<and> ms_cache (snd (drain_valid us s)) = ms_cache s \<and>
    ms_controllerQueue (snd (drain_valid us s)) = ms_controllerQueue s \<and>
    ms_pendingFinalizations (snd (drain_valid us s)) = ms_pendingFinalizations s"
proof (induction us arbitrary: s)
  case (Cons u us)
  then show ?case using validate_frames [of "cu_token u" s] by (simp add: Let_def split_beta)
qed simp

lemma drain_ok:
  assumes "scheduler_ok s" shows "scheduler_ok (snd (drainControllerUpdateBatch m s))"
proof -
  let ?s = "\<lambda>n. s\<lparr>ms_controllerQueue := drop n (ms_controllerQueue s)\<rparr>"
  have "queue_ok (?s n)" for n
    using assms current_setting [of "?s n" s]
    by (auto simp: scheduler_ok_def queue_ok_def obj_wf_drop dest!: in_set_dropD)
  then have "scheduler_ok (?s n)" for n
    using assms current_setting [of "?s n" s] setting_index [of "?s n" s] by (simp add: scheduler_ok_def pending_ok_def)
  then have "scheduler_ok (snd (drain_valid us (?s n)))" for us n
    using scheduler_ok_same [of "snd (drain_valid us (?s n))" "?s n"] drain_valid_same [of us "?s n"] by simp
  then show ?thesis using assms
    by (auto simp: drainControllerUpdateBatch_def Let_def split_beta tick_ok)
qed

lemma cancel_ok:
  assumes "scheduler_ok s" shows "scheduler_ok (snd (cancelPendingWork i e s))"
proof -
  have set: "setting_of (snd (cancelPendingWork i e s)) = setting_of s"
    by (simp add: cancelPendingWork_def Let_def setting_of_def)
  note cur = current_setting [OF set] and ix = setting_index [OF set]
  show ?thesis using assms unfolding scheduler_ok_def pending_ok_def queue_ok_def cur ix
    by (auto simp: cancelPendingWork_def Let_def)
qed

lemma plan_ok: "scheduler_ok s \<Longrightarrow> scheduler_ok (snd (createMeasurementPlan k kind s))"
  by (auto simp: createMeasurementPlan_def Let_def split_beta scheduler_ok_def [of s]
      intro!: scheduler_ok_cache entries_get split: option.split)

lemma scheduler_step_ok:
  assumes "scheduler_ok s" shows "scheduler_ok (scheduler_step a s)"
proof (cases a)
  case (ScheduleContext x)
  show ?thesis unfolding ScheduleContext scheduler_step_def setContext_def Let_def scheduler_action.case
    using assms by (intro prune_ok)
      (auto simp: scheduler_ok_def pending_ok_def queue_ok_def index_eq rebuild_frames split: option.split)
next
  case (ScheduleRows rows)
  show ?thesis unfolding ScheduleRows scheduler_step_def schedulerSetRows_def scheduler_action.case
    using assms by (intro prune_ok)
      (auto simp: scheduler_ok_def pending_ok_def queue_ok_def rebuildRowIndex_def)
next
  case (SchedulePlanOffscreen k)
  then show ?thesis using assms plan_ok plan_ok [OF tick_ok]
    by (auto simp: scheduler_step_def planOffscreenMeasurement_def split: option.split measurement_policy.split)
next
  case (ScheduleGetCached k)
  then show ?thesis using assms
    by (auto simp: scheduler_step_def getCachedMeasurement_def Let_def split_beta scheduler_ok_def [of s]
        intro!: scheduler_ok_cache entries_get split: option.split)
next
  case (ScheduleQueueCached k)
  show ?thesis
  proof (cases "peekCachedMeasurement s k")
    case (Some e)
    define s1 where "s1 = snd (validateToken (ce_token e) s)"
    have ok: "scheduler_ok s1" unfolding s1_def by (rule validate_ok [OF assms])
    have cur: "isTokenCurrent s1 = isTokenCurrent s" unfolding s1_def by (rule current_setting) simp
    have v: "validateToken (ce_token e) s = ((isTokenCurrent s (ce_token e), ms_rowById s (mt_rowId (ce_token e))), s1)"
      unfolding s1_def by (rule validate_split)
    have "0 \<le> ce_height e" using Some assms
      by (auto simp: peekCachedMeasurement_def cachePeek_def scheduler_ok_def entries_ok_def cache_ok_def obj_get_in
          split: option.splits)
    then show ?thesis using Some ScheduleQueueCached assms ok cur queue_update_ok [OF ok]
      by (auto simp: scheduler_step_def queueCachedControllerUpdate_def v)
  qed (use ScheduleQueueCached assms in \<open>simp add: scheduler_step_def queueCachedControllerUpdate_def\<close>)
next
  case (ScheduleFinalize input now)
  then show ?thesis using mounted_ok [OF assms]
    by (auto simp: scheduler_step_def finalizePendingMeasurement_def Let_def split_beta tick_ok split: record_result.split)
next
  case (ScheduleCleanup i e)
  then show ?thesis using cancel_ok [OF assms]
    by (auto simp: scheduler_step_def schedulerCleanupSession_def Let_def split_beta scheduler_ok_def [of "snd _"]
        intro!: scheduler_ok_cache entries_delete)
qed (use assms in \<open>simp_all add: scheduler_step_def planMountedMeasurement_def plan_ok mounted_ok offscreen_ok drain_ok cancel_ok\<close>)

lemma scheduler_create_ok: "scheduler_ok (createTranscriptMeasurementScheduler context m)"
  by (simp add: createTranscriptMeasurementScheduler_def scheduler_ok_def entries_ok_def cache_new_ok
      pending_ok_def queue_ok_def rebuildRowIndex_def obj_wf_def) (simp add: newMeasurementCache_def)

interpretation scheduler: step_system scheduler_step "\<lambda>_ _. True" scheduler_ok
  by unfold_locales (rule scheduler_step_ok)

lemma scheduler_run_ok:
  "scheduler_ok (fold scheduler_step actions (createTranscriptMeasurementScheduler context m))"
  by (rule scheduler.total_run_inv) (simp_all add: scheduler_create_ok)

end
