(* ===== verification/MeasurementDelivery.thy ===== *)
theory MeasurementDelivery
  imports MeasurementFlow
begin

text \<open>
  From the scheduler into the controller: nothing that was queued is lost, better measurements stay, and
  a controller that shows the same rows ends with the measured heights. What the scheduler needs of a
  controller is the interface \<open>measured_controller\<close>, which the transcript controller implements.
\<close>

section \<open>Draining\<close>

lemma drain_valid_all:
  "(\<And>u. u \<in> set us \<Longrightarrow> isTokenCurrent s (cu_token u)) \<Longrightarrow> fst (drain_valid us s) = us"
proof (induction us arbitrary: s)
  case (Cons u us)
  have "isTokenCurrent (snd (validateToken (cu_token u) s)) = isTokenCurrent s"
    by (rule current_setting) simp
  then show ?case using Cons validate_current(1) [of "cu_token u" s] by (simp add: Let_def split_beta)
qed simp

definition batch_limit :: "js_number option \<Rightarrow> nat \<Rightarrow> nat" where
  "batch_limit m n = (case m of None \<Rightarrow> n | Some x \<Rightarrow> min n (nat (max 1 \<lfloor>x\<rfloor>)))"

lemma drain_spec:
  assumes "scheduler_ok s"
  shows "fst (drainControllerUpdateBatch m s) = map snd (take (batch_limit m (length (ms_controllerQueue s))) (ms_controllerQueue s))"
    "ms_controllerQueue (snd (drainControllerUpdateBatch m s))
      = drop (batch_limit m (length (ms_controllerQueue s))) (ms_controllerQueue s)"
proof -
  let ?q = "ms_controllerQueue s"
  have all: "fst (drain_valid (map snd (take n ?q)) (s\<lparr>ms_controllerQueue := drop n ?q\<rparr>)) = map snd (take n ?q)" for n
  proof (rule drain_valid_all)
    fix u assume "u \<in> set (map snd (take n ?q))"
    moreover have "isTokenCurrent (s\<lparr>ms_controllerQueue := drop n ?q\<rparr>) = isTokenCurrent s"
      by (rule current_setting) simp
    ultimately show "isTokenCurrent (s\<lparr>ms_controllerQueue := drop n ?q\<rparr>) (cu_token u)"
      using assms by (auto simp: scheduler_ok_def queue_ok_def dest!: in_set_takeD)
  qed
  have keep: "ms_controllerQueue (snd (drain_valid us (s\<lparr>ms_controllerQueue := drop n ?q\<rparr>))) = drop n ?q" for us n
    using drain_valid_same [of us "s\<lparr>ms_controllerQueue := drop n ?q\<rparr>"] by simp
  show "fst (drainControllerUpdateBatch m s) = map snd (take (batch_limit m (length ?q)) ?q)"
    using all by (auto simp: drainControllerUpdateBatch_def Let_def split_beta batch_limit_def min_def split: option.split)
  show "ms_controllerQueue (snd (drainControllerUpdateBatch m s)) = drop (batch_limit m (length ?q)) ?q"
    using keep by (auto simp: drainControllerUpdateBatch_def Let_def split_beta batch_limit_def min_def split: option.split)
qed

text \<open>
  C23. Nothing that waits for the controller is lost: after any sequence of operations, draining hands out
  the queued updates in order, all of them, or with a limit the given number rounded down but at least
  one, and what it hands out together with what it leaves is the queue as it was; none is dropped for
  having become stale in the meantime.
\<close>

theorem queue_is_delivered:
  "let s = fold scheduler_step actions (createTranscriptMeasurementScheduler ctx maxEntries);
       queue = ms_controllerQueue s;
       (updates, s') = drainControllerUpdateBatch m s in
    updates @ map snd (ms_controllerQueue s') = map snd queue \<and>
    length updates = (case m of None \<Rightarrow> length queue | Some x \<Rightarrow> min (length queue) (nat (max 1 \<lfloor>x\<rfloor>)))"
proof -
  define s where "s = fold scheduler_step actions (createTranscriptMeasurementScheduler ctx maxEntries)"
  have ok: "scheduler_ok s" unfolding s_def by (rule scheduler_run_ok)
  show ?thesis unfolding s_def [symmetric] using drain_spec [OF ok, of m]
    by (auto simp: Let_def split_beta batch_limit_def simp flip: map_append split: option.split)
qed

section \<open>Sources\<close>

lemma peek_get [simp]: "cache_ok c \<Longrightarrow> cachePeek t (snd (cacheGet u c)) = cachePeek t c"
proof (cases "obj_get (mc_entries c) (token_key u)")
  case (Some e)
  then have "obj_get (obj_set (token_key u) e (obj_del (token_key u) (mc_entries c))) k = obj_get (mc_entries c) k" for k
    by simp
  then show ?thesis using Some by (simp add: cachePeek_def cacheGet_def Let_def)
qed (simp add: cachePeek_def cacheGet_def Let_def)

lemma obj_get_sub:
  assumes "obj_wf m" "obj_wf m'" "set m' \<subseteq> set m" shows "obj_get m' k = None \<or> obj_get m' k = obj_get m k"
proof (cases "obj_get m' k")
  case (Some v)
  then show ?thesis using assms obj_get_in [of m k v] obj_get_in [of m' k v] by auto
qed simp

lemma obj_get_drop: "obj_wf m \<Longrightarrow> obj_get (drop n m) k = None \<or> obj_get (drop n m) k = obj_get m k"
  by (rule obj_get_sub) (auto simp: obj_wf_drop dest: in_set_dropD)

lemma peek_set:
  assumes "cache_ok c"
  shows "cachePeek t (cacheSet e c) = None \<or>
    cachePeek t (cacheSet e c) = (if token_key t = token_key (ce_token e) then Some e else cachePeek t c)"
proof -
  have m: "1 \<le> mc_maxEntries c" using assms by (simp add: cache_ok_def)
  let ?k = "token_key (ce_token e)"
  let ?es = "obj_del ?k (mc_entries c) @ [(?k, e)]"
  have "obj_wf ?es" using assms by (simp add: obj_wf_snoc cache_ok_def)
  note d = obj_get_drop [OF this, of "length ?es - nat \<lfloor>mc_maxEntries c\<rfloor>" "token_key t"]
  have "obj_get ?es (token_key t) = (if token_key t = ?k then Some e else obj_get (mc_entries c) (token_key t))"
    using obj_get_set [of ?k e "obj_del ?k (mc_entries c)" "token_key t"] unfolding set_after_del by simp
  then show ?thesis using d unfolding cachePeek_def cacheSet_entries(1) [OF m] Let_def by simp
qed

fun beats :: "measurement_source \<Rightarrow> measurement_source \<Rightarrow> bool" where
  \<comment> \<open>a row that was visible beats one laid out off the screen, that one a shell, and each of them a guess\<close>
  "beats Visible OffscreenReal \<longleftrightarrow> True"
| "beats Visible OffscreenShell \<longleftrightarrow> True"
| "beats Visible Reserved \<longleftrightarrow> True"
| "beats Visible Estimate \<longleftrightarrow> True"
| "beats OffscreenReal OffscreenShell \<longleftrightarrow> True"
| "beats OffscreenReal Reserved \<longleftrightarrow> True"
| "beats OffscreenReal Estimate \<longleftrightarrow> True"
| "beats OffscreenShell Reserved \<longleftrightarrow> True"
| "beats OffscreenShell Estimate \<longleftrightarrow> True"
| "beats _ _ \<longleftrightarrow> False"

lemma beats_rank: "beats x y \<longleftrightarrow> getMeasurementSourcePriority y < getMeasurementSourcePriority x"
  by (cases x; cases y) simp_all

definition no_worse :: "cache_entry option \<Rightarrow> cache_entry option \<Rightarrow> bool" where
  \<comment> \<open>the entry is gone, or its new source is not beaten by the old one\<close>
  "no_worse e e' \<longleftrightarrow> (case (e, e') of (Some x, Some y) \<Rightarrow> \<not> beats (ce_source x) (ce_source y) | _ \<Rightarrow> True)"

lemma no_worse_refl [simp]: "no_worse e e" "no_worse e None"
  by (simp_all add: no_worse_def beats_rank split: option.split)

lemma no_worse_set:
  assumes "cache_ok c" "\<not> outranked (cachePeek (ce_token e) c) (ce_source e)"
  shows "no_worse (cachePeek t c) (cachePeek t (cacheSet e c))"
proof (cases "token_key t = token_key (ce_token e)")
  case True
  then have "cachePeek t c = cachePeek (ce_token e) c" by (simp add: cachePeek_def)
  then show ?thesis using peek_set [OF assms(1), of t e] True assms(2)
    by (auto simp: no_worse_def outranked_def beats_rank split: option.splits)
next
  case False
  then show ?thesis using peek_set [OF assms(1), of t e] by (auto simp: no_worse_refl(1) simp del: no_worse_def)
qed

lemma queue_cache [simp]: "ms_cache (queueControllerUpdate e s) = ms_cache s"
  by (simp add: queueControllerUpdate_def Let_def)

lemma no_worse_accept:
  assumes "cache_ok (ms_cache s)"
  shows "no_worse (cachePeek t (ms_cache s)) (cachePeek t (ms_cache (snd (acceptMeasurement u h src fin now s))))"
proof (cases "outranked (cachePeek u (ms_cache s)) src")
  case False
  let ?e = "\<lparr>ce_token = u, ce_height = normalizeHeight h, ce_source = src, ce_finalized = fin, ce_updatedAt = now\<rparr>"
  show ?thesis using no_worse_set [OF assms, of ?e t] False by (simp add: acceptMeasurement_def Let_def)
qed (simp add: acceptMeasurement_def)

lemma no_worse_shell:
  assumes "cache_ok (ms_cache s)"
  shows "no_worse (cachePeek t (ms_cache s)) (cachePeek t (ms_cache (snd (acceptShellEstimate input now s))))"
proof (cases "outranked (cachePeek (oi_token input) (ms_cache s)) Estimate")
  case False
  let ?e = "\<lparr>ce_token = oi_token input, ce_height = normalizeHeight (oi_height input), ce_source = Estimate,
    ce_finalized = False, ce_updatedAt = now\<rparr>"
  show ?thesis using no_worse_set [OF assms, of ?e t] False by (simp add: acceptShellEstimate_def Let_def)
qed (simp add: acceptShellEstimate_def)

lemma no_worse_mounted:
  assumes "cache_ok (ms_cache s)"
  shows "no_worse (cachePeek t (ms_cache s)) (cachePeek t (ms_cache (snd (recordMountedMeasurement input now s))))"
proof -
  define s1 where "s1 = snd (validateToken (mi_token input) s)"
  have c: "ms_cache s1 = ms_cache s" by (simp add: s1_def)
  have v: "validateToken (mi_token input) s = ((isTokenCurrent s (mi_token input), ms_rowById s (mt_rowId (mi_token input))), s1)"
    unfolding s1_def by (rule validate_split)
  show ?thesis
    using no_worse_accept [of s1 t] assms c by (simp add: recordMountedMeasurement_def v Let_def)
qed

lemma no_worse_offscreen:
  assumes "cache_ok (ms_cache s)"
  shows "no_worse (cachePeek t (ms_cache s)) (cachePeek t (ms_cache (snd (recordOffscreenMeasurement input now s))))"
proof -
  define s1 where "s1 = snd (validateToken (oi_token input) s)"
  have c: "ms_cache s1 = ms_cache s" by (simp add: s1_def)
  have v: "validateToken (oi_token input) s = ((isTokenCurrent s (oi_token input), ms_rowById s (mt_rowId (oi_token input))), s1)"
    unfolding s1_def by (rule validate_split)
  show ?thesis
    using no_worse_accept [of s1 t] no_worse_shell [of s1 t] assms c
    by (simp add: recordOffscreenMeasurement_def v Let_def)
qed

text \<open>
  C25. A better measurement is never replaced by a worse one: whatever the next operation on the scheduler,
  the cached height of a row's token is afterwards gone (evicted or cleaned up) or comes from a source that
  the former one does not beat, where a visible row beats one laid out off the screen, that one a shell,
  and each of them a reserved or estimated height.
\<close>

theorem better_measurement_kept:
  "let s = fold scheduler_step actions (createTranscriptMeasurementScheduler ctx maxEntries) in
    no_worse (cachePeek t (ms_cache s)) (cachePeek t (ms_cache (scheduler_step a s)))"
proof -
  define s where "s = fold scheduler_step actions (createTranscriptMeasurementScheduler ctx maxEntries)"
  have ok: "cache_ok (ms_cache s)"
    using scheduler_run_ok [of actions ctx maxEntries] by (simp add: s_def scheduler_ok_def entries_ok_def)
  have same: "no_worse (cachePeek t (ms_cache s)) (cachePeek t (ms_cache s'))" if "ms_cache s' = ms_cache s" for s'
    using that by simp
  have plan: "no_worse (cachePeek t (ms_cache s)) (cachePeek t (ms_cache (snd (createMeasurementPlan k kind s'))))"
    if "ms_cache s' = ms_cache s" for k kind s'
    using ok that by (auto simp: createMeasurementPlan_def Let_def split_beta split: option.split)
  have "no_worse (cachePeek t (ms_cache s)) (cachePeek t (ms_cache (scheduler_step a s)))"
  proof (cases a)
    case (ScheduleContext x)
    then show ?thesis
      by (intro same) (simp add: scheduler_step_def setContext_def Let_def pruneStalePendingWork_def rebuildRowIndex_def
          split: option.split)
  next
    case (SchedulePlanOffscreen k)
    then show ?thesis using plan [of s] plan [of "tick _ s"]
      by (simp add: scheduler_step_def planOffscreenMeasurement_def split: option.split measurement_policy.split)
  next
    case (ScheduleGetCached k)
    then show ?thesis using ok
      by (simp add: scheduler_step_def getCachedMeasurement_def Let_def split_beta split: option.split)
  next
    case (ScheduleQueueCached k)
    have "ms_cache s' = ms_cache s" if "validateToken u s = (x, s')" for u x s'
      using validate_frames(1) [of u s] that by simp
    then show ?thesis using ScheduleQueueCached
      by (intro same) (auto simp: scheduler_step_def queueCachedControllerUpdate_def Let_def split: option.split prod.split)
  next
    case (ScheduleFinalize input now)
    then show ?thesis using no_worse_mounted [OF ok, of t input now]
      by (simp add: scheduler_step_def finalizePendingMeasurement_def Let_def split_beta split: record_result.split)
  next
    case (ScheduleDrain m)
    then show ?thesis using drain_valid_same
      by (intro same) (simp add: scheduler_step_def drainControllerUpdateBatch_def Let_def split_beta)
  next
    case (ScheduleCancel i e)
    then show ?thesis by (intro same) (simp add: scheduler_step_def cancelPendingWork_def Let_def)
  next
    case (ScheduleCleanup i e)
    have "no_worse (obj_get (mc_entries (ms_cache s)) k) (obj_get (filter P (mc_entries (ms_cache s))) k)" for P k
      using obj_get_sub [of "mc_entries (ms_cache s)" "filter P (mc_entries (ms_cache s))" k] ok
      by (auto simp: cache_ok_def)
    then show ?thesis using ScheduleCleanup
      by (simp add: scheduler_step_def schedulerCleanupSession_def cancelPendingWork_def cacheDeleteSession_def Let_def
          cachePeek_def)
  qed (simp_all add: scheduler_step_def planMountedMeasurement_def plan no_worse_mounted no_worse_offscreen ok
      schedulerSetRows_def pruneStalePendingWork_def rebuildRowIndex_def)
  then show ?thesis by (simp add: s_def Let_def)
qed

section \<open>What the scheduler needs of a controller\<close>

locale measured_controller =
  fixes target :: "'c measurement_target"
    and wants :: "'c \<Rightarrow> measurement_token \<Rightarrow> bool"
    and shown :: "'c \<Rightarrow> measurement_token \<Rightarrow> js_number option"
  assumes accepts: "fst (fst (tg_applyMeasuredHeight target t h c)) \<longleftrightarrow> wants c t"
    and keeps_wants: "wants (snd (tg_applyMeasuredHeight target t h c)) = wants c"
    and displays: "wants c t \<Longrightarrow> wants c t' \<Longrightarrow> shown (snd (tg_applyMeasuredHeight target t h c)) t'
      = (if t' = t then Some (max 0 h) else shown c t')"
    and batch: "tg_applyMeasuredHeights target = Some applyAll \<Longrightarrow>
      fst (fst (applyAll inputs c)) = filter (wants c) (map fst inputs) \<and>
      fst (snd (fst (applyAll inputs c))) = length (filter (\<lambda>t. \<not> wants c t) (map fst inputs)) \<and>
      wants (snd (applyAll inputs c)) = wants c \<and>
      shown (snd (applyAll inputs c)) = shown (foldl (\<lambda>c (t, h). snd (tg_applyMeasuredHeight target t h c)) c inputs)"
begin

definition one :: "'c \<Rightarrow> measurement_token \<times> js_number \<Rightarrow> 'c" where
  "one = (\<lambda>c (t, h). snd (tg_applyMeasuredHeight target t h c))"

lemma one_wants: "wants (foldl one c inputs) = wants c"
  by (induction inputs arbitrary: c) (auto simp: one_def keeps_wants)

lemma shown_frame:
  "wants c t \<Longrightarrow> \<forall>(u, h) \<in> set inputs. wants c u \<and> u \<noteq> t \<Longrightarrow> shown (foldl one c inputs) t = shown c t"
  by (induction inputs arbitrary: c) (auto simp: one_def keeps_wants displays)

lemma shown_after:
  "distinct (map fst inputs) \<Longrightarrow> \<forall>(u, h) \<in> set inputs. wants c u \<Longrightarrow> (t, h) \<in> set inputs \<Longrightarrow>
    shown (foldl one c inputs) t = Some (max 0 h)"
proof (induction inputs arbitrary: c)
  case (Cons x inputs)
  obtain u g where x: "x = (u, g)" by fastforce
  have w: "wants (one c x) = wants c" by (simp add: one_def x keeps_wants)
  show ?case
  proof (cases "(t, h) = x")
    case True
    have "shown (foldl one (one c x) inputs) t = shown (one c x) t"
      using Cons.prems True w x by (intro shown_frame) (auto simp: image_iff)
    then show ?thesis using Cons.prems True x by (simp add: one_def displays)
  next
    case False
    then show ?thesis using Cons w by auto
  qed
qed simp

lemma flush_each_spec:
  "\<forall>u \<in> set us. wants c (cu_token u) \<Longrightarrow> flush_each target us result d c = (result', d', c') \<Longrightarrow>
    fr_accepted result' = fr_accepted result + length us \<and> fr_rejected result' = fr_rejected result \<and>
    fr_updates result' = fr_updates result \<and>
    c' = foldl one c (map (\<lambda>u. (cu_token u, cu_height u)) us)"
proof (induction us arbitrary: result d c)
  case (Cons update us)
  obtain ok cor c1 where a: "tg_applyMeasuredHeight target (cu_token update) (cu_height update) c = ((ok, cor), c1)"
    by (metis surj_pair)
  have ok: "ok" using accepts [of "cu_token update" "cu_height update" c] a Cons.prems(1) by simp
  have w: "wants c1 = wants c" using keeps_wants [of "cu_token update" "cu_height update" c] a by simp
  have c1: "c1 = one c (cu_token update, cu_height update)" using a by (simp add: one_def)
  from Cons.prems(2) obtain r d1 where "flush_each target us r d1 c1 = (result', d', c')"
    "fr_accepted r = fr_accepted result + 1" "fr_rejected r = fr_rejected result" "fr_updates r = fr_updates result"
    by (auto simp: a ok Let_def)
  with Cons.IH [of c1 r d1] Cons.prems(1) w show ?case by (auto simp flip: c1)
qed simp

lemma flush_all:
  assumes "\<forall>u \<in> set (fst (drainControllerUpdateBatch m s)). wants c (cu_token u)"
    "flushControllerUpdateBatch target m s c = (result, s', c')"
  shows "fr_updates result = fst (drainControllerUpdateBatch m s)" "fr_accepted result = length (fr_updates result)"
    "fr_rejected result = 0"
    "shown c' = shown (foldl one c (map (\<lambda>u. (cu_token u, cu_height u)) (fr_updates result)))"
    "wants c' = wants c" "ms_controllerQueue s' = ms_controllerQueue (snd (drainControllerUpdateBatch m s))"
proof -
  obtain us s1 where d: "drainControllerUpdateBatch m s = (us, s1)" by fastforce
  let ?inputs = "map (\<lambda>u. (cu_token u, cu_height u)) us"
  let ?r = "\<lparr>fr_updates = us, fr_accepted = 0, fr_rejected = 0, fr_corrections = []\<rparr>"
  have w: "filter (wants c) (map fst ?inputs) = map fst ?inputs" "filter (\<lambda>t. \<not> wants c t) (map fst ?inputs) = []"
    using assms(1) d by (auto simp: filter_id_conv filter_empty_conv)
  have "fr_updates result = us \<and> fr_accepted result = length us \<and> fr_rejected result = 0 \<and>
    shown c' = shown (foldl one c ?inputs) \<and> wants c' = wants c \<and> ms_controllerQueue s' = ms_controllerQueue s1"
  proof (cases "us = [] \<or> tg_applyMeasuredHeights target = None")
    case True
    then have none: "(if us = [] then None else tg_applyMeasuredHeights target) = None" by auto
    obtain r2 d2 c2 where f: "flush_each target us ?r (ms_counters s1) c = (r2, d2, c2)" by (metis prod_cases3)
    have "flushControllerUpdateBatch target m s c = (r2, s1\<lparr>ms_counters := d2\<rparr>, c2)"
      by (simp add: flushControllerUpdateBatch_def d none f)
    then have "result = r2" "c' = c2" and s': "ms_controllerQueue s' = ms_controllerQueue s1" using assms(2) by auto
    have ws: "\<forall>u \<in> set us. wants c (cu_token u)" using assms(1) d by simp
    from flush_each_spec [OF ws f] show ?thesis
      unfolding \<open>result = r2\<close> \<open>c' = c2\<close> s' by (simp only: flush_result.simps add_0 one_wants simp_thms)
  next
    case False
    then obtain applyAll where all: "tg_applyMeasuredHeights target = Some applyAll" "us \<noteq> []" by auto
    obtain acc rej cor c2 where f: "applyAll ?inputs c = ((acc, rej, cor), c2)"
      by (cases "applyAll ?inputs c"; cases "fst (applyAll ?inputs c)"; cases "snd (fst (applyAll ?inputs c))") simp
    from batch [OF all(1), of ?inputs c]
    have "acc = filter (wants c) (map fst ?inputs) \<and> rej = length (filter (\<lambda>t. \<not> wants c t) (map fst ?inputs)) \<and>
        wants c2 = wants c \<and> shown c2 = shown (foldl one c ?inputs)"
      unfolding f one_def fst_conv snd_conv .
    then have b: "acc = map fst ?inputs" "rej = 0" "shown c2 = shown (foldl one c ?inputs)" "wants c2 = wants c"
      unfolding w by simp_all
    have "fr_updates result = us" "fr_accepted result = length acc" "fr_rejected result = rej" "c' = c2"
      "ms_controllerQueue s' = ms_controllerQueue s1"
      using assms(2) by (auto simp: flushControllerUpdateBatch_def Let_def d all f)
    then show ?thesis using b by simp
  qed
  then show "fr_updates result = fst (drainControllerUpdateBatch m s)" "fr_accepted result = length (fr_updates result)"
    "fr_rejected result = 0"
    "shown c' = shown (foldl one c (map (\<lambda>u. (cu_token u, cu_height u)) (fr_updates result)))"
    "wants c' = wants c" "ms_controllerQueue s' = ms_controllerQueue (snd (drainControllerUpdateBatch m s))"
    by (simp_all add: d)
qed

end

section \<open>The transcript controller provides it\<close>

definition controller_target :: "virtual_controller measurement_target" where
  "controller_target = \<lparr>tg_applyMeasuredHeight = applyMeasuredHeight, tg_applyMeasuredHeights = Some applyMeasuredHeights\<rparr>"

definition controller_wants :: "virtual_controller \<Rightarrow> measurement_token \<Rightarrow> bool" where
  "controller_wants c t \<longleftrightarrow> getMeasurementToken c (mt_rowId t) = Some t"

definition controller_shows :: "virtual_controller \<Rightarrow> measurement_token \<Rightarrow> js_number option" where
  \<comment> \<open>the measured height of the row at the token's revisions\<close>
  "controller_shows c t = (case vc_measurements c (mt_rowId t) of
      None \<Rightarrow> None
    | Some m \<Rightarrow> if me_heightRevision m = mt_heightRevision t \<and> me_layoutRevision m = mt_layoutRevision t
        then Some (me_height m) else None)"

lemma same_tokens:
  assumes "getRow d = getRow c" "session_of d = session_of c" shows "controller_wants d = controller_wants c"
proof -
  have e: "vc_sessionId d = vc_sessionId c" "vc_sessionEpoch d = vc_sessionEpoch c" "vc_widthScope d = vc_widthScope c"
    using assms(2) by (simp_all add: session_of_def)
  show ?thesis by (rule ext) (simp only: controller_wants_def getMeasurementToken_def e assms(1))
qed

lemma wants_same_data: "same_data c d \<Longrightarrow> controller_wants d = controller_wants c"
  by (rule same_tokens) (simp_all only: same_data_row(1), simp add: same_data_def)

lemma shows_same_data: "same_data c d \<Longrightarrow> controller_shows d = controller_shows c"
  by (rule ext) (simp add: controller_shows_def same_data_def layout_of_def)

lemma record_wants: "controller_wants (record_measurement t h c) = controller_wants c"
proof (rule same_tokens)
  show "getRow (record_measurement t h c) = getRow c"
    by (rule ext) (simp add: getRow_def record_measurement_def Let_def count_def updateStreamingHeightFloor_def
        split: option.split)
  show "session_of (record_measurement t h c) = session_of c"
    by (simp add: session_of_def record_measurement_def Let_def count_def updateStreamingHeightFloor_def split: option.split)
qed

lemma record_shows:
  assumes "controller_wants c t" "controller_wants c u"
  shows "controller_shows (record_measurement t h c) u = (if u = t then Some (max 0 h) else controller_shows c u)"
proof -
  have m: "vc_measurements (record_measurement t h c) = (vc_measurements c)(mt_rowId t \<mapsto>
      \<lparr>me_widthScope = mt_widthScope t, me_heightRevision = mt_heightRevision t,
       me_layoutRevision = mt_layoutRevision t, me_height = max 0 h\<rparr>)"
    by (simp add: record_measurement_def Let_def count_def updateStreamingHeightFloor_def measurementKey_def split: option.split)
  have "u = t" if "mt_rowId u = mt_rowId t" using assms that by (simp add: controller_wants_def)
  then show ?thesis by (auto simp: controller_shows_def m)
qed

lemma apply_wants: "controller_wants (snd (applyMeasuredHeight t h c)) = controller_wants c"
proof -
  obtain v c1 where v: "validateMeasurementToken t c = (v, c1)" by fastforce
  have d: "same_data c1 (if v then record_measurement t h c1 else c1)
      \<or> controller_wants (if v then record_measurement t h c1 else c1) = controller_wants c1"
    by (simp add: record_wants)
  have "same_data (if v then record_measurement t h c1 else c1) (measure_one c (t, h))"
    by (rule measure_one_data(1) [OF _ v]) (simp add: same_data_def)
  from wants_same_data [OF this] have "controller_wants (snd (applyMeasuredHeight t h c)) = controller_wants c1"
    by (simp add: measure_one_def record_wants split: if_splits)
  also have "\<dots> = controller_wants c"
    by (rule wants_same_data) (use v same_data_steady [OF steady_validate, of c t] in simp)
  finally show ?thesis .
qed

lemma apply_shows:
  assumes "controller_wants c t" "controller_wants c u"
  shows "controller_shows (snd (applyMeasuredHeight t h c)) u = (if u = t then Some (max 0 h) else controller_shows c u)"
proof -
  obtain v c1 where v: "validateMeasurementToken t c = (v, c1)" by fastforce
  have "v" using validate_iff [of t c] v assms(1) by (simp add: controller_wants_def)
  have c1: "same_data c c1" using v same_data_steady [OF steady_validate, of c t] by simp
  have "same_data (if v then record_measurement t h c1 else c1) (measure_one c (t, h))"
    by (rule measure_one_data(1) [OF _ v]) (simp add: same_data_def)
  from shows_same_data [OF this]
  have "controller_shows (snd (applyMeasuredHeight t h c)) = controller_shows (record_measurement t h c1)"
    using \<open>v\<close> by (simp add: measure_one_def)
  then show ?thesis
    using record_shows [of c1 t u h] assms wants_same_data [OF c1] shows_same_data [OF c1] by simp
qed

lemma measure_all_counts:
  "measure_all inputs acc n c = (acc', n', c') \<Longrightarrow>
    acc' = acc @ filter (controller_wants c) (map fst inputs) \<and>
    n' = n + length (filter (\<lambda>t. \<not> controller_wants c t) (map fst inputs))"
proof (induction inputs acc n c rule: measure_all.induct)
  case (2 token h inputs acc n c)
  obtain v c1 where v: "validateMeasurementToken token c = (v, c1)" by fastforce
  have w: "controller_wants c1 = controller_wants c"
    by (rule wants_same_data) (use v same_data_steady [OF steady_validate, of c token] in simp)
  have "v \<longleftrightarrow> controller_wants c token" using validate_iff [of token c] v by (simp add: controller_wants_def)
  then show ?case using 2 v w by (cases v) (auto simp: record_wants)
qed simp

interpretation transcript: measured_controller controller_target controller_wants controller_shows
proof unfold_locales
  show "fst (fst (tg_applyMeasuredHeight controller_target t h c)) = controller_wants c t" for t h c
    using validate_iff [of t c]
    by (simp add: controller_target_def controller_wants_def applyMeasuredHeight_def split_beta Let_def)
  show "controller_wants (snd (tg_applyMeasuredHeight controller_target t h c)) = controller_wants c" for t h c
    by (simp add: controller_target_def apply_wants)
  show "controller_shows (snd (tg_applyMeasuredHeight controller_target t h c)) t' =
      (if t' = t then Some (max 0 h) else controller_shows c t')"
    if "controller_wants c t" "controller_wants c t'" for c t t' h
    using apply_shows [OF that] by (simp add: controller_target_def)
  show "fst (fst (applyAll inputs c)) = filter (controller_wants c) (map fst inputs) \<and>
      fst (snd (fst (applyAll inputs c))) = length (filter (\<lambda>t. \<not> controller_wants c t) (map fst inputs)) \<and>
      controller_wants (snd (applyAll inputs c)) = controller_wants c \<and>
      controller_shows (snd (applyAll inputs c)) = controller_shows
        (foldl (\<lambda>c (t, h). snd (tg_applyMeasuredHeight controller_target t h c)) c inputs)"
    if "tg_applyMeasuredHeights controller_target = Some applyAll" for applyAll inputs c
  proof -
    have all: "applyAll = applyMeasuredHeights" using that by (simp add: controller_target_def)
    obtain acc n c1 where m: "measure_all inputs [] 0 c = (acc, n, c1)" by (metis prod_cases3)
    have "(\<lambda>c (t, h). snd (tg_applyMeasuredHeight controller_target t h c)) = measure_one"
      by (auto simp: fun_eq_iff controller_target_def measure_one_def)
    moreover have "controller_wants (foldl measure_one c inputs) = controller_wants c"
      by (induction inputs arbitrary: c) (simp_all add: measure_one_def apply_wants)
    ultimately show ?thesis
      using measure_all_counts [OF m] wants_same_data [OF batch_same_data [of c inputs]] shows_same_data [OF batch_same_data [of c inputs]] m
      by (simp add: all) (simp add: applyMeasuredHeights_def Let_def split_beta)
  qed
qed

section \<open>The same rows on both sides\<close>

definition same_view :: "measurement_scheduler \<Rightarrow> virtual_controller \<Rightarrow> bool" where
  \<comment> \<open>scheduler and controller were given the same session, width and rows\<close>
  "same_view s c \<longleftrightarrow> vc_sessionId c = ms_sessionId s \<and> vc_sessionEpoch c = ms_sessionEpoch s \<and>
    vc_widthScope c = ms_widthScope s \<and> vc_rows c = map row_descriptor.truncate (ms_rows s)"

lemma truncate_fields [simp]:
  "rd_rowId (row_descriptor.truncate row) = rd_rowId row"
  "rd_heightRevision (row_descriptor.truncate row) = rd_heightRevision row"
  "rd_layoutRevision (row_descriptor.truncate row) = rd_layoutRevision row"
  by (simp_all add: row_descriptor.truncate_def)

lemma getRow_index:
  assumes "vc_rowIndexById c = row_index (vc_rows c)"
  shows "getRow c k = map_of (rev (map (\<lambda>row. (rd_rowId row, row)) (vc_rows c))) k"
proof -
  let ?rows = "vc_rows c"
  have "map (\<lambda>row. (rd_rowId row, row)) ?rows = map (\<lambda>(k, i). (k, ?rows ! i)) (zip (map rd_rowId ?rows) [0..<length ?rows])"
    by (rule nth_equalityI) simp_all
  then have "map_of (rev (map (\<lambda>row. (rd_rowId row, row)) ?rows)) k
      = map_option ((!) ?rows) (row_index ?rows k)"
    by (simp add: row_index_def rev_map map_of_map)
  also have "\<dots> = getRow c k"
    using row_index_bound [of ?rows k] assms by (auto simp: getRow_def split: option.split)
  finally show ?thesis ..
qed

lemma same_rows:
  assumes "same_view s c" "scheduler_ok s" "controller_ok c"
  shows "getRow c k = map_option row_descriptor.truncate (ms_rowById s k)"
proof -
  have "getRow c k = map_of (rev (map (\<lambda>row. (rd_rowId row, row)) (map row_descriptor.truncate (ms_rows s)))) k"
    using getRow_index [of c k] assms by (simp add: controller_ok_def same_view_def)
  also have "rev (map (\<lambda>row. (rd_rowId row, row)) (map row_descriptor.truncate (ms_rows s)))
      = map (\<lambda>(k, row). (k, row_descriptor.truncate row)) (rev (map (\<lambda>row. (rd_rowId row, row)) (ms_rows s)))"
    by (simp add: rev_map o_def)
  also have "map_of \<dots> k = map_option row_descriptor.truncate (ms_rowById s k)"
    using assms(2) by (simp only: map_of_map scheduler_ok_def index_eq o_apply simp_thms)
  finally show ?thesis .
qed

lemma same_current:
  assumes "same_view s c" "scheduler_ok s" "controller_ok c"
  shows "isTokenCurrent s t \<longleftrightarrow> controller_wants c t"
  using same_rows [OF assms, of "mt_rowId t"] assms(1)
  by (cases "ms_rowById s (mt_rowId t)"; cases t)
    (auto simp: isTokenCurrent_def controller_wants_def getMeasurementToken_def same_view_def)

lemma shown_height:
  assumes "controller_shows c t = Some h" "getRow c (mt_rowId t) = Some row" "controller_wants c t"
    "rd_rowId row = mt_rowId t"
  shows "rd_anchorPriority row \<noteq> Streaming \<Longrightarrow> getRowHeight c row = h" "h \<le> getRowHeight c row"
proof -
  obtain m where m: "vc_measurements c (mt_rowId t) = Some m" "me_heightRevision m = mt_heightRevision t"
    "me_layoutRevision m = mt_layoutRevision t" "me_height m = h"
    using assms(1) by (auto simp: controller_shows_def split: option.splits if_splits)
  have r: "mt_heightRevision t = rd_heightRevision row" "mt_layoutRevision t = rd_layoutRevision row"
    using assms(2,3) by (cases t; auto simp: controller_wants_def getMeasurementToken_def)+
  show "rd_anchorPriority row \<noteq> Streaming \<Longrightarrow> getRowHeight c row = h" "h \<le> getRowHeight c row"
    using m r assms(4) by (simp_all add: getRowHeight_def measurementKey_def Let_def)
qed

lemma queue_tokens_distinct: "queue_ok s \<Longrightarrow> distinct (map cu_token (map snd (ms_controllerQueue s)))"
proof -
  assume q: "queue_ok s"
  have "map fst (ms_controllerQueue s) = map token_key (map cu_token (map snd (ms_controllerQueue s)))"
    using q by (auto simp: queue_ok_def)
  then show ?thesis using q by (metis distinct_map obj_wf_def queue_ok_def)
qed

lemma flush_controller_ok:
  assumes "controller_ok c" "flushControllerUpdateBatch controller_target m s c = (result, s', c')"
  shows "controller_ok c'"
proof -
  obtain us s1 where d: "drainControllerUpdateBatch m s = (us, s1)" by fastforce
  have "c' = c \<or> c' = controller_step (ControllerMeasureAll (map (\<lambda>u. (cu_token u, cu_height u)) us)) c"
    using assms(2) by (auto simp: flushControllerUpdateBatch_def d Let_def controller_target_def controller_step_def
        split_beta split: if_splits)
  then show ?thesis using assms(1) controller_step_ok [OF assms(1)] by auto
qed

lemma batch_distinct:
  "queue_ok s \<Longrightarrow> distinct (map cu_token (map snd (take n (ms_controllerQueue s))))"
  using queue_tokens_distinct [of s] by (simp flip: take_map)

text \<open>
  C22. Measured heights arrive: the scheduler and the controller are in a state their operations reach, and
  were given the same session, epoch, width and rows. When the scheduler flushes its queue to the
  controller, all of it or, with a limit, as many of its first updates as the limit says, rounded down
  but at least one, the controller accepts each of them and refuses none, the others stay queued in order,
  and each row one of them is for has from then on the measured height (a row being streamed at least
  that height).
\<close>

theorem measured_heights_arrive:
  assumes "scheduler_ok s" "controller_ok c" "same_view s c"
    and "n = (case m of None \<Rightarrow> length (ms_controllerQueue s)
      | Some x \<Rightarrow> min (length (ms_controllerQueue s)) (nat (max 1 \<lfloor>x\<rfloor>)))"
  shows "let (result, s', c') = flushControllerUpdateBatch controller_target m s c in
    fr_accepted result = n \<and> fr_rejected result = 0 \<and>
    ms_controllerQueue s' = drop n (ms_controllerQueue s) \<and>
    (\<forall>(k, u) \<in> set (take n (ms_controllerQueue s)). \<exists>row. getRow c' (mt_rowId (cu_token u)) = Some row \<and>
      (if rd_anchorPriority row = Streaming then cu_height u \<le> getRowHeight c' row
       else getRowHeight c' row = cu_height u))"
proof -
  obtain result s' c' where f: "flushControllerUpdateBatch controller_target m s c = (result, s', c')"
    by (metis prod_cases3)
  let ?q = "ms_controllerQueue s"
  have n: "n = batch_limit m (length ?q)" by (simp add: assms(4) batch_limit_def)
  have drained: "fst (drainControllerUpdateBatch m s) = map snd (take n ?q)"
    "ms_controllerQueue (snd (drainControllerUpdateBatch m s)) = drop n ?q"
    unfolding n by (rule drain_spec [OF assms(1)])+
  have q: "queue_ok s" using assms(1) by (simp add: scheduler_ok_def)
  have "\<forall>u \<in> set (map snd ?q). controller_wants c (cu_token u)"
    using q same_current [OF assms(3,1,2)] by (auto simp: queue_ok_def)
  then have w: "\<forall>u \<in> set (fst (drainControllerUpdateBatch m s)). controller_wants c (cu_token u)"
    by (auto simp: drained dest!: in_set_takeD)
  note fl = transcript.flush_all [OF w f]
  have ok': "controller_ok c'" by (rule flush_controller_ok [OF assms(2) f])
  have each: "\<exists>row. getRow c' (mt_rowId (cu_token u)) = Some row \<and>
      (if rd_anchorPriority row = Streaming then cu_height u \<le> getRowHeight c' row else getRowHeight c' row = cu_height u)"
    if ku: "(k, u) \<in> set (take n ?q)" for k u
  proof -
    have "controller_wants c (cu_token u)" using w ku by (force simp: drained)
    then have w': "controller_wants c' (cu_token u)" by (simp add: fl(5))
    then obtain row where row: "getRow c' (mt_rowId (cu_token u)) = Some row"
      by (auto simp: controller_wants_def getMeasurementToken_def split: option.splits)
    have "controller_shows c' (cu_token u) = Some (max 0 (cu_height u))"
      unfolding fl(4) fl(1) drained(1)
      by (rule transcript.shown_after) (use batch_distinct [OF q] w ku in \<open>force simp: drained o_def\<close>)+
    moreover have "0 \<le> cu_height u" using q in_set_takeD [OF ku] by (auto simp: queue_ok_def)
    ultimately have sh: "controller_shows c' (cu_token u) = Some (cu_height u)" by simp
    show ?thesis
      using shown_height [OF sh row w' getRow_spec(2) [OF ok' row]] row by auto
  qed
  have "length (fst (drainControllerUpdateBatch m s)) = n" by (simp add: drained n batch_limit_def split: option.split)
  moreover have "\<forall>(k, u) \<in> set (take n ?q). \<exists>row. getRow c' (mt_rowId (cu_token u)) = Some row \<and>
      (if rd_anchorPriority row = Streaming then cu_height u \<le> getRowHeight c' row else getRowHeight c' row = cu_height u)"
    using each by blast
  ultimately show ?thesis unfolding f Let_def prod.case using fl(1-3,6) drained(2) by (intro conjI) simp_all
qed

definition example_scheduled :: "string \<Rightarrow> scheduled_row" where
  "example_scheduled k = \<lparr>rd_rowId = k, rd_heightRevision = ''1'', rd_layoutRevision = ''1'',
    rd_anchorPriority = Stable, rd_estimatedHeight = 100, rd_spacingBefore = 0,
    sr_measurementPolicy = MeasureReal, sr_canOffscreenRenderReal = True, sr_canOffscreenRenderShell = False\<rparr>"

definition example_mounted :: "string \<Rightarrow> js_number \<Rightarrow> mounted_input" where
  "example_mounted k h = \<lparr>mi_token = ce_token (example_entry k), mi_measuredBlockSize = Some h, mi_root = None,
    mi_reservedBlockSize = None\<rparr>"

definition example_scheduler :: measurement_scheduler where
  "example_scheduler = fold scheduler_step
    [ScheduleMounted (example_mounted ''b'' 70) 1, ScheduleMounted (example_mounted ''a'' 250) 2]
    (createTranscriptMeasurementScheduler \<lparr>sx_sessionId = ''s'', sx_sessionEpoch = 1, sx_widthScope = ''w'',
      sx_rows = Some [example_scheduled ''a'', example_scheduled ''b'']\<rparr> None)"

definition example_transcript :: virtual_controller where
  "example_transcript = fold controller_step
    [ControllerSetRows (map row_descriptor.truncate [example_scheduled ''a'', example_scheduled ''b''])]
    (createTranscriptVirtualController
      \<lparr>sg_sessionId = ''s'', sg_sessionEpoch = 1, sg_widthScope = ''w'', sg_viewportHeight = 100,
       sg_footerHeight = None, sg_scrollTop = None, sg_browserScrollHeight = None\<rparr>
      \<lparr>co_pinnedBottomThresholdPx = None, co_autoScrollThresholdPx = None, co_measurementEpsilonPx = None,
       co_overscanBeforePx = None, co_overscanAfterPx = None, co_overscanBeforeRows = None,
       co_overscanAfterRows = None, co_protectedRowIds = None\<rparr>)"

theorem measured_heights_arrive_witness:
  "let (result, s', c') = flushControllerUpdateBatch controller_target (Some (3 / 2)) example_scheduler example_transcript in
    fr_accepted result = 1 \<and> fr_rejected result = 0 \<and>
    ms_controllerQueue s' = drop 1 (ms_controllerQueue example_scheduler)"
proof -
  have "scheduler_ok example_scheduler" unfolding example_scheduler_def by (rule scheduler_run_ok)
  moreover have "controller_ok example_transcript" unfolding example_transcript_def by (rule controller_run_ok)
  moreover have "same_view example_scheduler example_transcript"
    "length (ms_controllerQueue example_scheduler) = 2" by code_simp+
  moreover have "\<lfloor>3 / 2 :: js_number\<rfloor> = 1" by code_simp
  ultimately show ?thesis
    using measured_heights_arrive [of example_scheduler example_transcript 1 "Some (3 / 2)"]
    by (simp add: split_beta Let_def)
qed

end
