(* ===== verification/ViewportCoordinator.thy ===== *)
theory ViewportCoordinator
  imports VirtualController JsStrings
begin

text \<open>
  The owner of the transcript's scroll position
  (\<open>src/src/features/chat/transcript/virtual/transcriptViewportCoordinator.ts\<close>, the interfaces of
  \<open>transcriptVirtualEngine.ts\<close>, and what \<open>browserViewport.ts\<close> computes from the rows on the
  screen). The geometry engine and the browser are records of functions on a state of any type; the
  coordinator's fields are the record \<open>viewport_coordinator\<close>. A coordinator method that returns only
  \<open>{correction: null}\<close> returns the new coordinator.
\<close>

section \<open>The engine and the browser\<close>

record 'e virtual_engine =
  en_reset :: "session_geometry \<Rightarrow> 'e \<Rightarrow> 'e"
  en_setRows :: "row_descriptor list \<Rightarrow> 'e \<Rightarrow> scroll_correction option \<times> 'e"
  en_syncViewport :: "viewport_geometry \<Rightarrow> sync_options \<Rightarrow> 'e \<Rightarrow> scroll_correction option \<times> 'e"
  en_applyMeasuredHeight :: "measurement_token \<Rightarrow> js_number \<Rightarrow> 'e \<Rightarrow> (bool \<times> scroll_correction option) \<times> 'e"
  en_applyMeasuredHeights :: "((measurement_token \<times> js_number) list \<Rightarrow> 'e \<Rightarrow>
    (measurement_token list \<times> nat \<times> scroll_correction option) \<times> 'e) option"
  en_scrollToRow :: "string \<Rightarrow> scroll_align \<Rightarrow> 'e \<Rightarrow> (bool \<times> scroll_correction option) \<times> 'e"
  en_setScrollWritesSuspended :: "(bool \<Rightarrow> 'e \<Rightarrow> 'e) option"
  en_getRange :: "'e \<Rightarrow> row_descriptor range_snapshot \<times> 'e"
  en_getPendingScrollCorrection :: "'e \<Rightarrow> scroll_correction option"
  en_getState :: "'e \<Rightarrow> controller_state"
  en_getDiagnostics :: "'e \<Rightarrow> virtual_diagnostics"

record browser_snapshot =
  bs_scrollTop :: js_number
  bs_scrollHeight :: js_number
  bs_viewportHeight :: js_number
  bs_viewportWidth :: js_number
  bs_viewportTop :: js_number
  bs_viewportBottom :: js_number

datatype scroll_behavior = BehaviorAuto | BehaviorInstant | BehaviorSmooth

record 'b transcript_browser =
  br_read :: "'b \<Rightarrow> browser_snapshot"
  br_writeScrollTop :: "js_number \<Rightarrow> scroll_behavior \<Rightarrow> 'b \<Rightarrow> 'b"
  br_footerHeight :: "'b \<Rightarrow> js_number"

record write_options =
  wo_behavior :: "scroll_behavior option"
  wo_source :: "scroll_source option"
  wo_userScrollIntent :: bool
  wo_preserveScrollPosition :: bool

definition no_options :: write_options where
  "no_options = \<lparr>wo_behavior = None, wo_source = None, wo_userScrollIntent = False, wo_preserveScrollPosition = False\<rparr>"

record ('e, 'b) viewport_coordinator =
  cd_engine :: 'e
  cd_browser :: 'b
  cd_transactionWriteSuspensionDepth :: nat
  cd_footerHeightOverride :: "js_number option"

section \<open>Geometry\<close>

definition width_scope :: "js_number \<Rightarrow> string" where
  \<comment> \<open>the template with \<open>Math.max(0, Math.round(width))\<close>\<close>
  "width_scope width = ''w:'' @ nat_string 10 (nat (max 0 \<lfloor>width + 1 / 2\<rfloor>))"

definition toGeometry ::
    "'e virtual_engine \<Rightarrow> 'b transcript_browser \<Rightarrow> ('e, 'b) viewport_coordinator \<Rightarrow> browser_snapshot \<Rightarrow> viewport_geometry" where
  "toGeometry E B w viewport =
    \<lparr>vg_scrollTop = bs_scrollTop viewport,
     vg_viewportHeight =
       (if bs_viewportHeight viewport \<noteq> 0 then bs_viewportHeight viewport
        else cs_viewportHeight (en_getState E (cd_engine w))),
     vg_widthScope =
       (if bs_viewportWidth viewport > 0 then width_scope (bs_viewportWidth viewport)
        else cs_widthScope (en_getState E (cd_engine w))),
     vg_footerHeight = Some (or_else (cd_footerHeightOverride w) (br_footerHeight B (cd_browser w))),
     vg_browserScrollHeight = Some (bs_scrollHeight viewport)\<rparr>"

definition readGeometry ::
    "'e virtual_engine \<Rightarrow> 'b transcript_browser \<Rightarrow> ('e, 'b) viewport_coordinator \<Rightarrow> viewport_geometry" where
  "readGeometry E B w = toGeometry E B w (br_read B (cd_browser w))"

section \<open>The transaction\<close>

definition sync_engine ::
    "'e virtual_engine \<Rightarrow> viewport_geometry \<Rightarrow> sync_options \<Rightarrow> ('e, 'b) viewport_coordinator \<Rightarrow>
     scroll_correction option \<times> ('e, 'b) viewport_coordinator" where
  "sync_engine E geometry options w =
    (let (correction, e) = en_syncViewport E geometry options (cd_engine w) in (correction, w\<lparr>cd_engine := e\<rparr>))"

definition next_scroll_top :: "write_options \<Rightarrow> browser_snapshot \<Rightarrow> js_number \<Rightarrow> js_number" where
  "next_scroll_top options before proposedScrollTop =
    (let browserBottomScrollTop = max 0 (bs_scrollHeight before - bs_viewportHeight before) in
     if wo_preserveScrollPosition options then bs_scrollTop before
     else if bs_scrollHeight before > bs_viewportHeight before then min proposedScrollTop browserBottomScrollTop
     else proposedScrollTop)"

definition commit ::
    "'e virtual_engine \<Rightarrow> 'b transcript_browser \<Rightarrow> write_options \<Rightarrow> browser_snapshot \<Rightarrow> scroll_correction option \<Rightarrow>
     ('e, 'b) viewport_coordinator \<Rightarrow> browser_snapshot \<times> ('e, 'b) viewport_coordinator" where
  \<comment> \<open>the second half of \<open>reconcile\<close>: one write, and the accepted position back to the engine\<close>
  "commit E B options before correction w =
    (let acceptedEngineScrollTop = cs_scrollTop (en_getState E (cd_engine w));
         proposedScrollTop = (case correction of Some c \<Rightarrow> sc_nextScrollTop c | None \<Rightarrow> acceptedEngineScrollTop);
         nextScrollTop = next_scroll_top options before proposedScrollTop;
         w = (if cd_transactionWriteSuspensionDepth w = 0 \<and> \<not> wo_preserveScrollPosition options \<and>
                \<bar>nextScrollTop - bs_scrollTop before\<bar> > 1
              then w\<lparr>cd_browser :=
                br_writeScrollTop B nextScrollTop (or_else (wo_behavior options) BehaviorAuto) (cd_browser w)\<rparr>
              else w);
         accepted = br_read B (cd_browser w);
         w = (if cd_transactionWriteSuspensionDepth w = 0
              then snd (sync_engine E (toGeometry E B w accepted)
                \<lparr>so_source = Some FromBrowser, so_userScrollIntent = True,
                 so_preserveScrollPosition = wo_preserveScrollPosition options\<rparr> w)
              else w) in
     (accepted, w))"

definition sync_before ::
    "'e virtual_engine \<Rightarrow> 'b transcript_browser \<Rightarrow> write_options \<Rightarrow> ('e, 'b) viewport_coordinator \<Rightarrow>
     scroll_correction option \<times> ('e, 'b) viewport_coordinator" where
  "sync_before E B options w = sync_engine E (readGeometry E B w)
    \<lparr>so_source = Some (or_else (wo_source options) FromProgram),
     so_userScrollIntent = wo_userScrollIntent options,
     so_preserveScrollPosition = wo_preserveScrollPosition options\<rparr> w"

definition reconcile ::
    "'e virtual_engine \<Rightarrow> 'b transcript_browser \<Rightarrow>
     (('e, 'b) viewport_coordinator \<Rightarrow> (scroll_correction option \<times> 'r) \<times> ('e, 'b) viewport_coordinator) \<Rightarrow>
     write_options \<Rightarrow> bool \<Rightarrow> ('e, 'b) viewport_coordinator \<Rightarrow>
     (browser_snapshot \<times> 'r) \<times> ('e, 'b) viewport_coordinator" where
  "reconcile E B mutate options syncBeforeMutation w =
    (let before = br_read B (cd_browser w);
         (syncCorrection, w) = (if syncBeforeMutation then sync_before E B options w else (None, w));
         ((mutationCorrection, result), w) = mutate w;
         correction = or_option mutationCorrection
           (if en_getPendingScrollCorrection E (cd_engine w) \<noteq> None then syncCorrection else None);
         (accepted, w) = commit E B options before correction w in
     ((accepted, result), w))"

section \<open>Methods\<close>

definition on_engine ::
    "('e \<Rightarrow> 'r \<times> 'e) \<Rightarrow> ('r \<Rightarrow> scroll_correction option) \<Rightarrow> ('e, 'b) viewport_coordinator \<Rightarrow>
     (scroll_correction option \<times> 'r) \<times> ('e, 'b) viewport_coordinator" where
  \<comment> \<open>the mutations that call one engine method and take the correction of its result\<close>
  "on_engine call corr w = (let (result, e) = call (cd_engine w) in ((corr result, result), w\<lparr>cd_engine := e\<rparr>))"

definition coordinatorReset ::
    "'e virtual_engine \<Rightarrow> 'b transcript_browser \<Rightarrow> session_geometry \<Rightarrow> ('e, 'b) viewport_coordinator \<Rightarrow>
     ('e, 'b) viewport_coordinator" where
  "coordinatorReset E B input w =
    snd (reconcile E B (\<lambda>w. ((None, ()), w)) no_options True (w\<lparr>cd_engine := en_reset E input (cd_engine w)\<rparr>))"

definition coordinatorSetRows ::
    "'e virtual_engine \<Rightarrow> 'b transcript_browser \<Rightarrow> row_descriptor list \<Rightarrow> ('e, 'b) viewport_coordinator \<Rightarrow>
     ('e, 'b) viewport_coordinator" where
  "coordinatorSetRows E B rows w = snd (reconcile E B (on_engine (en_setRows E rows) (\<lambda>r. r)) no_options True w)"

definition coordinatorSyncViewport ::
    "'e virtual_engine \<Rightarrow> 'b transcript_browser \<Rightarrow> viewport_geometry \<Rightarrow> write_options \<Rightarrow>
     ('e, 'b) viewport_coordinator \<Rightarrow> ('e, 'b) viewport_coordinator" where
  "coordinatorSyncViewport E B geometry options w =
    snd (reconcile E B
      (\<lambda>w. on_engine (en_syncViewport E (readGeometry E B w)
         \<lparr>so_source = wo_source options, so_userScrollIntent = wo_userScrollIntent options,
          so_preserveScrollPosition = wo_preserveScrollPosition options\<rparr>) (\<lambda>r. r) w)
      options False (w\<lparr>cd_footerHeightOverride := vg_footerHeight geometry\<rparr>))"

definition coordinatorApplyMeasuredHeight ::
    "'e virtual_engine \<Rightarrow> 'b transcript_browser \<Rightarrow> measurement_token \<Rightarrow> js_number \<Rightarrow> ('e, 'b) viewport_coordinator \<Rightarrow>
     (bool \<times> scroll_correction option) \<times> ('e, 'b) viewport_coordinator" where
  "coordinatorApplyMeasuredHeight E B token height w =
    (let ((_, (accepted, correction)), w) =
           reconcile E B (on_engine (en_applyMeasuredHeight E token height) snd) no_options True w in
     ((accepted, if cd_transactionWriteSuspensionDepth w > 0 then correction else None), w))"

fun applyMeasurementsIndividually ::
    "'e virtual_engine \<Rightarrow> (measurement_token \<times> js_number) list \<Rightarrow> measurement_token list \<Rightarrow>
     scroll_correction option \<Rightarrow> 'e \<Rightarrow> (measurement_token list \<times> scroll_correction option) \<times> 'e" where
  "applyMeasurementsIndividually E [] acceptedTokens correction e = ((acceptedTokens, correction), e)"
| "applyMeasurementsIndividually E ((token, height) # inputs) acceptedTokens correction e =
    (let ((accepted, c), e) = en_applyMeasuredHeight E token height e in
     applyMeasurementsIndividually E inputs (if accepted then acceptedTokens @ [token] else acceptedTokens)
       (or_option c correction) e)"

definition measure_engine ::
    "'e virtual_engine \<Rightarrow> (measurement_token \<times> js_number) list \<Rightarrow> 'e \<Rightarrow>
     (measurement_token list \<times> nat \<times> scroll_correction option) \<times> 'e" where
  "measure_engine E inputs e =
    (case en_applyMeasuredHeights E of
       Some applyAll \<Rightarrow> applyAll inputs e
     | None \<Rightarrow>
         let ((acceptedTokens, correction), e) = applyMeasurementsIndividually E inputs [] None e in
         ((acceptedTokens, length inputs - length acceptedTokens, correction), e))"

definition coordinatorApplyMeasuredHeights ::
    "'e virtual_engine \<Rightarrow> 'b transcript_browser \<Rightarrow> (measurement_token \<times> js_number) list \<Rightarrow>
     ('e, 'b) viewport_coordinator \<Rightarrow>
     (measurement_token list \<times> nat \<times> scroll_correction option) \<times> ('e, 'b) viewport_coordinator" where
  "coordinatorApplyMeasuredHeights E B inputs w =
    (let ((_, (acceptedTokens, rejected, correction)), w) =
           reconcile E B (on_engine (measure_engine E inputs) (\<lambda>(_, _, c). c)) no_options True w in
     ((acceptedTokens, rejected, if cd_transactionWriteSuspensionDepth w > 0 then correction else None), w))"

definition coordinatorScrollToRow ::
    "'e virtual_engine \<Rightarrow> 'b transcript_browser \<Rightarrow> string \<Rightarrow> scroll_align \<Rightarrow> ('e, 'b) viewport_coordinator \<Rightarrow>
     (bool \<times> scroll_correction option) \<times> ('e, 'b) viewport_coordinator" where
  "coordinatorScrollToRow E B rowId align w =
    (let ((_, (found, _)), w) = reconcile E B (on_engine (en_scrollToRow E rowId align) snd) no_options True w in
     ((found, None), w))"

definition writeScrollTop ::
    "'e virtual_engine \<Rightarrow> 'b transcript_browser \<Rightarrow> js_number \<Rightarrow> write_options \<Rightarrow> ('e, 'b) viewport_coordinator \<Rightarrow>
     browser_snapshot \<times> ('e, 'b) viewport_coordinator" where
  "writeScrollTop E B scrollTop options w =
    (let ((accepted, _), w) = reconcile E B
           (\<lambda>w. let current = cs_scrollTop (en_getState E (cd_engine w)) in
             ((Some \<lparr>sc_reason = ScrollToRowReason, sc_previousScrollTop = current, sc_nextScrollTop = scrollTop,
                sc_delta = scrollTop - current\<rparr>, ()), w)) options False w in
     (accepted, w))"

definition scrollToEnd ::
    "'e virtual_engine \<Rightarrow> 'b transcript_browser \<Rightarrow> scroll_behavior option \<Rightarrow> ('e, 'b) viewport_coordinator \<Rightarrow>
     ('e, 'b) viewport_coordinator" where
  "scrollToEnd E B behavior w =
    (let browser = br_read B (cd_browser w);
         st = en_getState E (cd_engine w) in
     snd (writeScrollTop E B (max (cs_bottomScrollTop st) (bs_scrollHeight browser - bs_viewportHeight browser))
       (no_options\<lparr>wo_behavior := behavior, wo_source := Some FromProgram\<rparr>) w))"

definition setScrollWritesSuspended ::
    "'e virtual_engine \<Rightarrow> bool \<Rightarrow> ('e, 'b) viewport_coordinator \<Rightarrow> ('e, 'b) viewport_coordinator" where
  "setScrollWritesSuspended E suspended w =
    (let depth = (if suspended then cd_transactionWriteSuspensionDepth w + 1
           else cd_transactionWriteSuspensionDepth w - 1);
         w = w\<lparr>cd_transactionWriteSuspensionDepth := depth\<rparr> in
     case en_setScrollWritesSuspended E of
       None \<Rightarrow> w
     | Some suspend \<Rightarrow> w\<lparr>cd_engine := suspend (depth > 0) (cd_engine w)\<rparr>)"

section \<open>Rows on the screen\<close>

definition MAX_INTENTIONAL_ROW_GAP_PX :: js_number where
  "MAX_INTENTIONAL_ROW_GAP_PX = 24"
definition MAX_INTENTIONAL_EDGE_GAP_PX :: js_number where
  "MAX_INTENTIONAL_EDGE_GAP_PX = 96"

type_synonym px_interval = "js_number \<times> js_number"

definition row_intervals :: "browser_snapshot \<Rightarrow> px_interval list \<Rightarrow> px_interval list" where
  \<comment> \<open>the parts of the rows, given by top and bottom, that are inside the viewport\<close>
  "row_intervals viewport rects =
    filter (\<lambda>(start, stop). stop > start)
      (map (\<lambda>(rect_top, rect_bottom). (max (bs_viewportTop viewport) rect_top, min (bs_viewportBottom viewport) rect_bottom)) rects)"

definition merge_interval :: "px_interval list \<Rightarrow> px_interval \<Rightarrow> px_interval list" where
  "merge_interval merged = (\<lambda>(start, stop).
    if merged = [] \<or> start > snd (last merged) then merged @ [(start, stop)]
    else butlast merged @ [(fst (last merged), max (snd (last merged)) stop)])"

definition merged_intervals :: "px_interval list \<Rightarrow> px_interval list" where
  "merged_intervals intervals = foldl merge_interval [] (sort_key fst intervals)"

fun row_gaps :: "px_interval list \<Rightarrow> js_number" where
  "row_gaps (previous # current # rest) =
    max 0 (fst current - snd previous - MAX_INTENTIONAL_ROW_GAP_PX) + row_gaps (current # rest)"
| "row_gaps _ = 0"

definition blankViewportPixels :: "browser_snapshot \<Rightarrow> px_interval list \<Rightarrow> js_number" where
  "blankViewportPixels viewport rects =
    (let merged = merged_intervals (row_intervals viewport rects) in
     if merged = [] then bs_viewportHeight viewport
     else max 0 (fst (hd merged) - bs_viewportTop viewport - MAX_INTENTIONAL_EDGE_GAP_PX) + row_gaps merged +
       max 0 (bs_viewportBottom viewport - snd (last merged) - MAX_INTENTIONAL_EDGE_GAP_PX))"

record row_coverage =
  rc_blankViewportPixels :: js_number
  rc_intersectingRealRowCount :: nat
  rc_realRowCount :: nat
  rc_viewport :: browser_snapshot

definition readRealRowCoverage :: "browser_snapshot \<Rightarrow> px_interval list \<Rightarrow> row_coverage" where
  "readRealRowCoverage viewport rects =
    \<lparr>rc_blankViewportPixels = blankViewportPixels viewport rects,
     rc_intersectingRealRowCount = length (row_intervals viewport rects),
     rc_realRowCount = length rects, rc_viewport = viewport\<rparr>"

end
