(* ===== verification/VirtualAnchors.thy ===== *)
theory VirtualAnchors
  imports VirtualStability
begin

text \<open>
  The anchor of the transcript controller (\<open>transcriptVirtualController.ts\<close>): the view follows the
  bottom, or keeps the row the user was looking at in place, while rows arrive, change and are measured;
  a scroll of the user decides which of the two.
\<close>

section \<open>A view that is held\<close>

definition anchor_target :: "virtual_controller \<Rightarrow> js_number" where
  \<comment> \<open>the scroll position the anchor asks for\<close>
  "anchor_target c = (case vc_anchor c of
      AnchorBottom \<Rightarrow> getBottomScrollTop c
    | AnchorPosition scrollTop \<Rightarrow> clampScrollTop c scrollTop
    | AnchorRow rowId offset _ \<Rightarrow> clampScrollTop c (getRowTop c rowId + offset))"

definition view_held :: "scroll_anchor \<Rightarrow> virtual_controller \<Rightarrow> bool" where
  \<comment> \<open>the browser is at the anchor, or has been asked to go there\<close>
  "view_held anchor c \<longleftrightarrow> vc_anchor c = anchor \<and> resolveAnchor c = AnchorResolved \<and>
    \<bar>heading (vc_viewport c) - anchor_target c\<bar> \<le> max 0 (vc_measurementEpsilonPx c)"

lemma bottom_nonneg [simp]: "0 \<le> getBottomScrollTop c"
  by (simp add: getBottomScrollTop_def Let_def)

lemma clamp_clamp [simp]:
  "clampFinite (Some (clampScrollTop c v)) (getBottomScrollTop c) = clampScrollTop c v"
  "clampFinite (Some v) (getBottomScrollTop c) = clampScrollTop c v"
  "clampFinite (Some (getBottomScrollTop c)) (getBottomScrollTop c) = getBottomScrollTop c"
  using bottom_nonneg [of c] by (auto simp: clampFinite_def clampScrollTop_def)

lemma count_anchor [simp]:
  "vc_anchor (count f c) = vc_anchor c" "vc_viewport (count f c) = vc_viewport c"
  "vc_rows (count f c) = vc_rows c" "vc_rowIndexById (count f c) = vc_rowIndexById c"
  "vc_viewportHeight (count f c) = vc_viewportHeight c"
  by (simp_all add: count_def)

lemma correction_anchor [simp]: "vc_anchor (snd (applyScrollCorrection r n c)) = vc_anchor c"
  by (simp add: applyScrollCorrection_def split_beta Let_def recordCorrection_def split: option.splits)

lemma correction_heading:
  "\<bar>heading (vc_viewport (snd (applyScrollCorrection r n c))) - clampScrollTop c n\<bar>
    \<le> max 0 (vc_measurementEpsilonPx c)"
proof -
  have "vc_viewport (snd (applyScrollCorrection r n c)) = fst (transitionTranscriptGeometryViewport (vc_viewport c)
      (GeometryPropose r (Some n) (Some (getBottomScrollTop c)) (Some (vc_measurementEpsilonPx c))))"
    by (simp add: applyScrollCorrection_def split_beta Let_def recordCorrection_def split: option.splits)
  then show ?thesis
    using propose_heading [of "vc_viewport c" r n "getBottomScrollTop c" "vc_measurementEpsilonPx c"] by simp
qed

lemma layout_target:
  assumes "layout_of c' = layout_of c" "vc_anchor c' = vc_anchor c"
  shows "anchor_target c' = anchor_target c"
  unfolding anchor_target_def heights_layout(4,6,7) [OF assms(1)] assms(2) by (rule refl)

lemma steady_target:
  assumes "steady c c'" "vc_anchor c' = vc_anchor c"
  shows "anchor_target c' = anchor_target c" "resolveAnchor c' = resolveAnchor c"
    "vc_measurementEpsilonPx c' = vc_measurementEpsilonPx c"
  using heights_steady [OF assms(1)] assms
  by (simp_all add: anchor_target_def resolveAnchor_def steady_def limits_of_def cong: scroll_anchor.case_cong)

lemma view_held_steady:
  "view_held a c \<Longrightarrow> steady c c' \<Longrightarrow> vc_anchor c' = vc_anchor c \<Longrightarrow> vc_viewport c' = vc_viewport c \<Longrightarrow> view_held a c'"
  using steady_target [of c c'] by (simp add: view_held_def)

lemma clamp_bottom [simp]: "clampScrollTop c (getBottomScrollTop c) = getBottomScrollTop c"
  by (simp add: clampScrollTop_def)

lemma clamp_idem [simp]: "clampScrollTop c (clampScrollTop c v) = clampScrollTop c v"
  using bottom_nonneg [of c] by (auto simp: clampScrollTop_def)

lemma reconcile_holds:
  assumes "resolveAnchor c = AnchorResolved"
  shows "view_held (vc_anchor c) (snd (reconcileAnchor r u c))"
proof -
  have *: "view_held (vc_anchor c) (snd (applyScrollCorrection r' n c))" if "clampScrollTop c n = anchor_target c" for r' n
    using correction_heading [of r' n c] steady_target [OF steady_correction correction_anchor, of r' n c] that assms
    by (simp add: view_held_def)
  show ?thesis
  proof (cases "vc_anchor c")
    case AnchorBottom
    show ?thesis using * [of "getBottomScrollTop c"] AnchorBottom by (simp add: reconcileAnchor_def anchor_target_def)
  next
    case (AnchorPosition v)
    show ?thesis using * [of v] AnchorPosition by (simp add: reconcileAnchor_def anchor_target_def)
  next
    case (AnchorRow k off rev)
    show ?thesis using * [of "clampScrollTop c (getRowTop c k + off)"] AnchorRow assms
      by (simp add: reconcileAnchor_def anchor_target_def)
  qed
qed

section \<open>What keeps a view\<close>

definition anchor_survives :: "scroll_anchor \<Rightarrow> row_descriptor list \<Rightarrow> bool" where
  \<comment> \<open>the anchored row, if there is one, is among the rows with its height revision\<close>
  "anchor_survives anchor rows = (case anchor of
      AnchorRow k offset revision \<Rightarrow>
        (case row_index rows k of Some i \<Rightarrow> rd_heightRevision (rows ! i) = revision | None \<Rightarrow> False)
    | _ \<Rightarrow> True)"

definition user_moved :: "viewport_geometry \<Rightarrow> sync_options \<Rightarrow> virtual_controller \<Rightarrow> bool" where
  \<comment> \<open>the report is a scroll of the user\<close>
  "user_moved g o' c \<longleftrightarrow> user_scroll g o' c \<and> (so_preserveScrollPosition o' \<or> so_userScrollIntent o' \<or>
    observedScrollTop (sync_observed g c) \<noteq> observedScrollTop c)"

fun keeps_view :: "controller_action \<Rightarrow> virtual_controller \<Rightarrow> bool" where
  \<comment> \<open>everything but a reset, a scroll of the user, a jump to a row and rows without the anchored one\<close>
  "keeps_view (ControllerReset _) c = False"
| "keeps_view (ControllerScrollToRow _ _) c = False"
| "keeps_view (ControllerSetRows rows) c = anchor_survives (vc_anchor c) rows"
| "keeps_view (ControllerSync g o') c = (\<not> user_moved g o' c)"
| "keeps_view (ControllerMeasure _ _) c = True"
| "keeps_view (ControllerMeasureAll _) c = True"
| "keeps_view ControllerGetRange c = True"

lemma resolve_iff:
  assumes "vc_rowIndexById c = row_index (vc_rows c)"
  shows "resolveAnchor c = AnchorResolved \<longleftrightarrow> anchor_survives (vc_anchor c) (vc_rows c)"
  using row_index_bound [of "vc_rows c"] assms
  by (auto simp: resolveAnchor_def anchor_survives_def getRow_def split: scroll_anchor.splits option.splits)

lemma direction_None [simp]: "getScrollDirection a b = ScrollNone \<longleftrightarrow> a = b"
  by (auto simp: getScrollDirection_def)

lemma sync_not_moved:
  "\<not> user_moved g o' c \<Longrightarrow>
    syncViewport g o' c = reconcileAnchor (anchor_reason (sync_observed g c)) True (sync_observed g c)"
  by (cases "user_scroll g o' c") (simp_all add: syncViewport_eq user_moved_def Let_def getScrollDirection_def)

lemma sync_observed_fields [simp]:
  "vc_anchor (sync_observed g c) = vc_anchor c" "vc_rows (sync_observed g c) = vc_rows c"
  "vc_rowIndexById (sync_observed g c) = vc_rowIndexById c"
  "gv_pendingScroll (vc_viewport (sync_observed g c)) = None"
  by (simp_all add: sync_observed_def sync_resized_def observe_position)

lemma record_anchor [simp]:
  "vc_anchor (record_measurement t h c) = vc_anchor c" "vc_rows (record_measurement t h c) = vc_rows c"
  "vc_rowIndexById (record_measurement t h c) = vc_rowIndexById c"
  by (simp_all add: record_measurement_def Let_def updateStreamingHeightFloor_def split: option.split)

lemma validate_anchor [simp]:
  "vc_anchor (snd (validateMeasurementToken t c)) = vc_anchor c"
  "vc_rows (snd (validateMeasurementToken t c)) = vc_rows c"
  "vc_rowIndexById (snd (validateMeasurementToken t c)) = vc_rowIndexById c"
  "vc_viewport (snd (validateMeasurementToken t c)) = vc_viewport c"
  by (simp_all add: validateMeasurementToken_def Let_def)

lemma measure_all_anchor:
  "measure_all inputs acc n c = (acc', n', c') \<Longrightarrow>
    vc_anchor c' = vc_anchor c \<and> vc_rows c' = vc_rows c \<and> vc_rowIndexById c' = vc_rowIndexById c"
proof (induction inputs acc n c rule: measure_all.induct)
  case (2 token h inputs acc n c)
  obtain v c1 where v: "validateMeasurementToken token c = (v, c1)" by fastforce
  show ?case using 2 v validate_anchor [of token c] by (cases v) fastforce+
qed simp

lemma measure_all_refused:
  "measure_all inputs acc n c = ([], n', c') \<Longrightarrow> vc_viewport c' = vc_viewport c"
proof (induction inputs acc n c rule: measure_all.induct)
  case (2 token height inputs acc n c)
  obtain v c1 where v: "validateMeasurementToken token c = (v, c1)" by fastforce
  have "acc2 = []" if "measure_all inputs2 acc2 n2 c2 = ([], n', c')" for inputs2 acc2 n2 c2
    using that by (induction inputs2 acc2 n2 c2 rule: measure_all.induct) (auto simp: Let_def split: prod.splits if_splits)
  then show ?case using 2 v validate_anchor(4) [of token c] by (cases v) fastforce+
qed simp

lemma same_rows_resolve:
  "vc_anchor c' = vc_anchor c \<Longrightarrow> vc_rows c' = vc_rows c \<Longrightarrow> vc_rowIndexById c' = vc_rowIndexById c \<Longrightarrow>
    resolveAnchor c' = resolveAnchor c"
proof -
  assume e: "vc_anchor c' = vc_anchor c" "vc_rows c' = vc_rows c" "vc_rowIndexById c' = vc_rowIndexById c"
  then have "getRow c' = getRow c" by (intro ext) (simp only: getRow_def e)
  then show ?thesis by (simp only: resolveAnchor_def e)
qed

lemma setRows_holds:
  assumes "anchor_survives (vc_anchor c) rows"
  shows "view_held (vc_anchor c) (snd (setRows rows c))"
proof -
  define d where "d = count (\<lambda>d. d\<lparr>vd_rowSetUpdates := vd_rowSetUpdates d + 1\<rparr>)
    ((releaseInactiveStreamingFloors (c\<lparr>vc_rows := rows, vc_rowIndexById := row_index rows\<rparr>))\<lparr>vc_lastRange := None\<rparr>)"
  have f: "vc_anchor d = vc_anchor c" "vc_rows d = rows" "vc_rowIndexById d = row_index rows"
    by (simp_all add: d_def releaseInactiveStreamingFloors_def Let_def)
  then have "resolveAnchor d = AnchorResolved" using assms by (simp add: resolve_iff)
  from reconcile_holds [OF this] show ?thesis
    unfolding setRows_def Let_def d_def [symmetric] f .
qed

lemma view_held_range: "view_held a c \<Longrightarrow> view_held a (c\<lparr>vc_lastRange := r\<rparr>)"
proof -
  let ?d = "c\<lparr>vc_lastRange := r\<rparr>"
  have "anchor_target ?d = anchor_target c" by (rule layout_target) (simp_all add: layout_of_def)
  moreover have "resolveAnchor ?d = resolveAnchor c" by (rule same_rows_resolve) simp_all
  ultimately show "view_held a c \<Longrightarrow> view_held a ?d" by (simp add: view_held_def)
qed

lemma view_held_step:
  assumes "view_held a c" "keeps_view act c"
  shows "view_held a (controller_step act c)"
proof (cases act)
  case (ControllerSetRows rows)
  then show ?thesis using assms setRows_holds [of c rows] by (simp add: controller_step_def view_held_def)
next
  case (ControllerSync g o')
  then have "controller_step act c = snd (reconcileAnchor (anchor_reason (sync_observed g c)) True (sync_observed g c))"
    using assms by (simp add: controller_step_def sync_not_moved)
  moreover have "resolveAnchor (sync_observed g c) = AnchorResolved"
    using assms(1) same_rows_resolve [of "sync_observed g c" c] by (simp add: view_held_def)
  ultimately show ?thesis using reconcile_holds [of "sync_observed g c"] assms(1) by (simp add: view_held_def)
next
  case (ControllerMeasure token h)
  obtain v c1 where v: "validateMeasurementToken token c = (v, c1)" by fastforce
  have c1: "vc_anchor c1 = vc_anchor c" "vc_rows c1 = vc_rows c" "vc_rowIndexById c1 = vc_rowIndexById c"
    "vc_viewport c1 = vc_viewport c" "steady c c1"
    using validate_anchor [of token c] steady_validate [of c token] v by simp_all
  let ?d = "fresh (record_measurement token h c1)"
  show ?thesis
  proof (cases v)
    case True
    have "resolveAnchor ?d = AnchorResolved"
      using assms(1) same_rows_resolve [of ?d c] by (simp add: view_held_def c1)
    then have "view_held (vc_anchor ?d) (snd (reconcileAnchor (anchor_reason ?d) True ?d))" by (rule reconcile_holds)
    then show ?thesis using ControllerMeasure v True assms(1)
      by (simp add: controller_step_def applyMeasuredHeight_def Let_def split_beta c1 view_held_def flip: fresh_def)
  next
    case False
    then show ?thesis using ControllerMeasure v view_held_steady [OF assms(1) c1(5,1,4)]
      by (simp add: controller_step_def applyMeasuredHeight_def)
  qed
next
  case (ControllerMeasureAll inputs)
  obtain acc n c1 where m: "measure_all inputs [] 0 c = (acc, n, c1)" by (metis prod_cases3)
  note an = measure_all_anchor [OF m]
  show ?thesis
  proof (cases "acc = []")
    case True
    have "view_held a c1"
      using view_held_steady [OF assms(1) measure_all_rejects] measure_all_refused m an True by metis
    then show ?thesis using ControllerMeasureAll m True by (simp add: controller_step_def applyMeasuredHeights_def)
  next
    case False
    have "resolveAnchor (fresh c1) = AnchorResolved"
      using assms(1) same_rows_resolve [of "fresh c1" c] an by (simp add: view_held_def)
    then have "view_held (vc_anchor c1) (snd (reconcileAnchor r u (fresh c1)))" for r u
      using reconcile_holds [of "fresh c1"] by simp
    then show ?thesis using ControllerMeasureAll m False assms(1) an
      by (simp add: controller_step_def applyMeasuredHeights_def Let_def split_beta view_held_def flip: fresh_def)
  qed
next
  case ControllerGetRange
  have k: "view_held a (count f c')" if "view_held a c'" for f c'
    by (rule view_held_steady [OF that]) simp_all
  have "view_held a (count f ((count g c)\<lparr>vc_lastRange := r\<rparr>))" for f g r
    by (rule k, rule view_held_range) (rule k [OF assms(1)])
  then show ?thesis using ControllerGetRange assms(1)
    by (simp add: controller_step_def getRange_def Let_def split: option.splits)
qed (use assms in simp_all)

interpretation held: step_system controller_step keeps_view "view_held a" for a
  by unfold_locales (rule view_held_step)

section \<open>An example transcript\<close>

definition example_row :: "string \<Rightarrow> row_descriptor" where
  "example_row k = \<lparr>rd_rowId = k, rd_heightRevision = ''1'', rd_layoutRevision = ''1'',
    rd_anchorPriority = Stable, rd_estimatedHeight = 100, rd_spacingBefore = 0\<rparr>"

definition example_controller :: virtual_controller where
  "example_controller = snd (setRows (map example_row [''a'', ''b'', ''c'', ''d''])
    (createTranscriptVirtualController
      \<lparr>sg_sessionId = ''s'', sg_sessionEpoch = 1, sg_widthScope = ''w'', sg_viewportHeight = 100,
       sg_footerHeight = None, sg_scrollTop = Some 300, sg_browserScrollHeight = None\<rparr>
      \<lparr>co_pinnedBottomThresholdPx = None, co_autoScrollThresholdPx = None, co_measurementEpsilonPx = None,
       co_overscanBeforePx = None, co_overscanAfterPx = None, co_overscanBeforeRows = None,
       co_overscanAfterRows = None, co_protectedRowIds = None\<rparr>))"

definition example_report :: viewport_geometry where
  "example_report = \<lparr>vg_scrollTop = 120, vg_viewportHeight = 100, vg_widthScope = ''w'',
    vg_footerHeight = None, vg_browserScrollHeight = None\<rparr>"

definition example_scroll :: sync_options where
  "example_scroll = \<lparr>so_source = None, so_userScrollIntent = True, so_preserveScrollPosition = False\<rparr>"

definition example_token :: "string \<Rightarrow> measurement_token" where
  "example_token k = \<lparr>mt_sessionId = ''s'', mt_sessionEpoch = 1, mt_widthScope = ''w'', mt_rowId = k,
    mt_heightRevision = ''1'', mt_layoutRevision = ''1''\<rparr>"

lemma example_ok: "controller_ok example_controller"
  unfolding example_controller_def by (rule setRows_ok) (rule controller_create_ok)

section \<open>Following the bottom\<close>

lemma view_held_bottom:
  "view_held AnchorBottom c \<Longrightarrow> vc_anchor c = AnchorBottom \<and>
    \<bar>heading (vc_viewport c) - getBottomScrollTop c\<bar> \<le> max 0 (vc_measurementEpsilonPx c)"
  by (auto simp: view_held_def anchor_target_def)

text \<open>
  A view at the bottom stays at the bottom: when the anchor is the bottom, then after the rows are
  replaced by any others, and after whatever measurements, further row updates, reads and viewport
  reports that are not a scroll of the user follow, the anchor is still the bottom and the browser is
  there or has been asked to go there, up to the measurement epsilon.
\<close>

theorem bottom_is_followed:
  assumes "vc_anchor c = AnchorBottom" "held.run_enabled actions (snd (setRows rows c))"
  shows "let c' = fold controller_step actions (snd (setRows rows c)) in
    vc_anchor c' = AnchorBottom \<and>
    \<bar>heading (vc_viewport c') - getBottomScrollTop c'\<bar> \<le> max 0 (vc_measurementEpsilonPx c')"
proof -
  have "view_held AnchorBottom (snd (setRows rows c))"
    using setRows_holds [of c rows] assms(1) by (simp add: anchor_survives_def)
  from view_held_bottom [OF held.run_inv [OF this assms(2)]] show ?thesis
    by (simp add: held.run_fold Let_def)
qed

theorem bottom_is_followed_witness:
  "let c' = fold controller_step [ControllerMeasure (example_token ''b'') 250]
      (snd (setRows (map example_row [''a'', ''b'', ''c'', ''d'', ''e'']) example_controller)) in
    vc_anchor c' = AnchorBottom \<and>
    \<bar>heading (vc_viewport c') - getBottomScrollTop c'\<bar> \<le> max 0 (vc_measurementEpsilonPx c')"
proof -
  have "vc_anchor example_controller = AnchorBottom" by code_simp
  from bottom_is_followed [OF this, of "[ControllerMeasure (example_token ''b'') 250]"] show ?thesis by simp
qed

section \<open>The row the user looks at\<close>

lemma sync_observed_clamped:
  "observedScrollTop (sync_observed g c) = clampScrollTop (sync_observed g c) (vg_scrollTop g)"
proof -
  let ?r = "sync_resized g c"
  have "layout_of (sync_observed g c) = layout_of ?r"
    by (simp add: layout_of_def sync_observed_def count_def fresh_def)
  from heights_layout(7) [OF this] have "clampScrollTop (sync_observed g c) = clampScrollTop ?r" .
  moreover have "observedScrollTop (sync_observed g c) = clampScrollTop ?r (vg_scrollTop g)"
    using bottom_nonneg [of ?r]
    by (simp add: sync_observed_def observedScrollTop_def observe_position clamp_clamp(2))
  ultimately show ?thesis by simp
qed

lemma positions_from_set: "(row, p) \<in> set (positions_from c s rows) \<Longrightarrow> row \<in> set rows"
  by (induction rows arbitrary: s) (auto simp: Let_def)

lemma positions_from_find:
  assumes "distinct (map rd_rowId rows)" "(row, p) \<in> set (positions_from c s rows)"
  shows "List.find (\<lambda>q. rd_rowId (fst q) = rd_rowId row) (positions_from c s rows) = Some (row, p)"
  using assms
proof (induction rows arbitrary: s)
  case (Cons r rows)
  then show ?case by (auto simp: Let_def dest: positions_from_set)
qed simp

lemma getRowTop_of:
  assumes "distinct (map rd_rowId (vc_rows c))" "(row, p) \<in> set (row_positions c)"
  shows "getRowTop c (rd_rowId row) = rp_top p"
  using positions_from_find [OF assms(1), of row p c 0] assms(2)
  by (simp add: getRowTop_def getRowPosition_def row_positions_def)

lemma row_index_distinct:
  assumes "distinct (map rd_rowId rows)" "row \<in> set rows"
  shows "\<exists>i. row_index rows (rd_rowId row) = Some i \<and> i < length rows \<and> rows ! i = row"
proof -
  obtain i where i: "i < length rows" "rows ! i = row" using assms(2) by (auto simp: in_set_conv_nth)
  have "(rd_rowId row, i) \<in> set (zip (map rd_rowId rows) [0..<length rows])"
    using i by (auto simp: in_set_zip intro!: exI [of _ i])
  then have "row_index rows (rd_rowId row) = Some i"
    unfolding row_index_def using assms(1) by (intro map_of_is_SomeI) (simp_all add: map_fst_zip flip: rev_map)
  then show ?thesis using i by blast
qed

definition row_in_view :: "virtual_controller \<Rightarrow> row_descriptor \<times> row_position \<Rightarrow> bool" where
  \<comment> \<open>some of the row is on the screen\<close>
  "row_in_view c = (\<lambda>(row, position). rp_bottom position > observedScrollTop c \<and>
    rp_top position < observedScrollTop c + vc_viewportHeight c)"

definition stable_in_view :: "virtual_controller \<Rightarrow> bool" where
  "stable_in_view c \<longleftrightarrow> (\<exists>(row, position) \<in> set (row_positions c).
    rd_anchorPriority row = Stable \<and> row_in_view c (row, position))"

lemma find_Some_mem: "List.find P xs = Some x \<Longrightarrow> x \<in> set xs \<and> P x"
  by (auto simp: find_Some_iff)

lemma capture_stable:
  assumes "stable_in_view c"
  shows "\<exists>row p. (row, p) \<in> set (row_positions c) \<and> rd_anchorPriority row = Stable \<and> row_in_view c (row, p) \<and>
    captureViewportAnchor fb c = count (\<lambda>d. d\<lparr>vd_recapturedAnchors := vd_recapturedAnchors d + 1\<rparr>)
      (setScrollAnchor (PendingRow (rd_rowId row) (observedScrollTop c - rp_top p)) c)"
proof -
  let ?f = "findAnchorableRow c Stable (observedScrollTop c + vc_viewportHeight c)"
  have "?f \<noteq> None" using assms
    by (auto simp: findAnchorableRow_def find_None_iff stable_in_view_def row_in_view_def)
  then obtain row p where f: "?f = Some (row, p)" by auto
  then have "(row, p) \<in> set (row_positions c) \<and> rd_anchorPriority row = Stable \<and> row_in_view c (row, p)"
    unfolding findAnchorableRow_def by (auto dest!: find_Some_mem simp: row_in_view_def)
  then show ?thesis using f by (auto simp: captureViewportAnchor_def Let_def)
qed

lemma count_frame:
  "getRowTop (count f c) = getRowTop c" "observedScrollTop (count f c) = observedScrollTop c"
  "clampScrollTop (count f c) = clampScrollTop c"
  using heights_steady [OF steady_count] by simp_all

lemma capture_holds:
  assumes "stable_in_view c" "distinct (map rd_rowId (vc_rows c))" "vc_rowIndexById c = row_index (vc_rows c)"
    and "gv_pendingScroll (vc_viewport c) = None" "clampScrollTop c (observedScrollTop c) = observedScrollTop c"
  shows "\<exists>row \<in> set (vc_rows c). \<exists>p. (row, p) \<in> set (row_positions c) \<and> row_in_view c (row, p) \<and>
    view_held (AnchorRow (rd_rowId row) (observedScrollTop c - getRowTop c (rd_rowId row)) (rd_heightRevision row))
      (captureViewportAnchor fb c)"
proof -
  obtain row p where r: "(row, p) \<in> set (row_positions c)" "row_in_view c (row, p)"
    and cap: "captureViewportAnchor fb c = count (\<lambda>d. d\<lparr>vd_recapturedAnchors := vd_recapturedAnchors d + 1\<rparr>)
      (setScrollAnchor (PendingRow (rd_rowId row) (observedScrollTop c - rp_top p)) c)"
    using capture_stable [OF assms(1)] by blast
  have mem: "row \<in> set (vc_rows c)" using r(1) positions_from_set by (auto simp: row_positions_def)
  have top_p: "getRowTop c (rd_rowId row) = rp_top p" by (rule getRowTop_of [OF assms(2) r(1)])
  have get: "getRow c (rd_rowId row) = Some row"
    using row_index_distinct [OF assms(2) mem] assms(3) by (auto simp: getRow_def)
  let ?c = "captureViewportAnchor fb c"
  let ?a = "AnchorRow (rd_rowId row) (observedScrollTop c - getRowTop c (rd_rowId row)) (rd_heightRevision row)"
  have a: "vc_anchor ?c = ?a" using get top_p by (simp add: cap setScrollAnchor_def)
  have v: "vc_viewport ?c = vc_viewport c" by (simp add: cap setScrollAnchor_def)
  note st = heights_steady [OF steady_capture [of c fb]]
  have "anchor_target ?c = observedScrollTop c"
    using a assms(5) by (simp add: anchor_target_def st)
  moreover have "resolveAnchor ?c = AnchorResolved" using a get by (simp add: resolveAnchor_def st)
  moreover have "heading (vc_viewport ?c) = observedScrollTop c"
    using v assms(4) by (simp add: heading_def observedScrollTop_def)
  ultimately have "view_held ?a ?c" using a by (simp add: view_held_def)
  with mem r show ?thesis by blast
qed

lemma view_held_row:
  "view_held (AnchorRow k off rv) c \<Longrightarrow>
    \<bar>heading (vc_viewport c) - clampScrollTop c (getRowTop c k + off)\<bar> \<le> max 0 (vc_measurementEpsilonPx c)"
  by (auto simp: view_held_def anchor_target_def)

lemma sync_captures:
  assumes "user_moved g o' c"
    and "so_preserveScrollPosition o' \<or>
      getDistanceFromBottom (sync_observed g c) (observedScrollTop (sync_observed g c)) > vc_pinnedBottomThresholdPx c"
  shows "\<exists>f fb. syncViewport g o' c = (None, captureViewportAnchor fb (count f (sync_observed g c)))"
proof -
  have id: "sync_observed g c = count (\<lambda>d. d) (sync_observed g c)" by (simp add: count_def)
  have l: "vc_pinnedBottomThresholdPx (sync_observed g c) = vc_pinnedBottomThresholdPx c"
    by (simp add: sync_observed_def sync_resized_def count_def fresh_def)
  show ?thesis
  proof (cases "so_preserveScrollPosition o'")
    case True
    then have "syncViewport g o' c = (None, captureViewportAnchor FallbackPosition (sync_observed g c))"
      using assms(1) by (simp add: syncViewport_eq user_moved_def Let_def)
    then show ?thesis using id by metis
  next
    case False
    then have "syncViewport g o' c = (None, captureViewportAnchor FallbackBottom (sync_observed g c)) \<or>
      syncViewport g o' c = (None, captureViewportAnchor FallbackBottom
        (count (\<lambda>d. d\<lparr>vd_bottomFollowExits := vd_bottomFollowExits d + 1\<rparr>) (sync_observed g c)))"
      using assms l by (auto simp: syncViewport_eq user_moved_def Let_def)
    then show ?thesis using id by metis
  qed
qed

text \<open>
  C21. What the user looks at stays where it is, when no two rows have the same id: after a scroll of the
  user to a place away from the bottom (or one that asks to keep its position) where a stable row is on the
  screen, some row that is on the screen keeps its place, that is, through all later row updates that
  still have it with the same height revision, measurements, reads and viewport reports that are not a
  scroll of the user, the browser is, up to the measurement epsilon, at (or has been asked to go to) the
  position that shows the row's top at the same distance from the viewport's top, as far as the
  transcript is long enough.
\<close>

theorem row_stays_in_place:
  assumes "user_moved g o' c" "controller_ok c" "distinct (map rd_rowId (vc_rows c))"
    and "so_preserveScrollPosition o' \<or>
      getDistanceFromBottom (sync_observed g c) (observedScrollTop (sync_observed g c)) > vc_pinnedBottomThresholdPx c"
    and "stable_in_view (sync_observed g c)"
  shows "let d = snd (syncViewport g o' c) in \<exists>row \<in> set (vc_rows d). \<exists>p.
    (row, p) \<in> set (row_positions d) \<and> row_in_view d (row, p) \<and>
    (\<forall>actions. held.run_enabled actions d \<longrightarrow>
      (let c' = fold controller_step actions d in
        \<bar>heading (vc_viewport c') -
          clampScrollTop c' (getRowTop c' (rd_rowId row) + (observedScrollTop d - getRowTop d (rd_rowId row)))\<bar>
          \<le> max 0 (vc_measurementEpsilonPx c')))"
proof -
  let ?s = "sync_observed g c"
  let ?d = "snd (syncViewport g o' c)"
  obtain f fb where d: "?d = captureViewportAnchor fb (count f ?s)"
    using sync_captures [OF assms(1,4)] by (metis snd_conv)
  note fr = heights_steady [OF steady_count [of ?s f]]
  have "stable_in_view (count f ?s)" using assms(5) by (simp add: stable_in_view_def row_in_view_def fr)
  from capture_holds [OF this, of fb] obtain row p where r: "row \<in> set (vc_rows (count f ?s))"
    "(row, p) \<in> set (row_positions (count f ?s))" "row_in_view (count f ?s) (row, p)"
    and h: "view_held (AnchorRow (rd_rowId row)
      (observedScrollTop (count f ?s) - getRowTop (count f ?s) (rd_rowId row)) (rd_heightRevision row)) ?d"
    using assms(2,3) sync_observed_clamped [of g c] unfolding d by (force simp: fr controller_ok_def)
  note st = steady_capture [of "count f ?s" fb]
  have e: "vc_rows ?d = vc_rows (count f ?s)" "vc_viewportHeight ?d = vc_viewportHeight (count f ?s)"
    using st unfolding d by (simp_all add: steady_def layout_of_def)
  have "view_held (AnchorRow (rd_rowId row) (observedScrollTop ?d - getRowTop ?d (rd_rowId row)) (rd_heightRevision row)) ?d"
    using h heights_steady [OF st] unfolding d by simp
  note run = view_held_row [OF held.run_inv [OF this]]
  have "(row, p) \<in> set (row_positions ?d)" "row_in_view ?d (row, p)"
    using r e heights_steady [OF st] unfolding d by (simp_all add: row_in_view_def)
  then show ?thesis
    using r(1) e run by (auto simp: Let_def held.run_fold intro!: bexI [of _ row] exI [of _ p])
qed

lemma example_scrolls: "user_moved example_report example_scroll example_controller"
  by code_simp

theorem row_stays_in_place_witness:
  "let d = snd (syncViewport example_report example_scroll example_controller);
       c' = fold controller_step [ControllerMeasure (example_token ''a'') 250] d in
    \<exists>row \<in> set (vc_rows d).
      \<bar>heading (vc_viewport c') -
        clampScrollTop c' (getRowTop c' (rd_rowId row) + (observedScrollTop d - getRowTop d (rd_rowId row)))\<bar>
        \<le> max 0 (vc_measurementEpsilonPx c')"
proof -
  have "distinct (map rd_rowId (vc_rows example_controller))"
    "so_preserveScrollPosition example_scroll \<or>
      getDistanceFromBottom (sync_observed example_report example_controller)
        (observedScrollTop (sync_observed example_report example_controller))
        > vc_pinnedBottomThresholdPx example_controller"
    "stable_in_view (sync_observed example_report example_controller)"
    by code_simp+
  from row_stays_in_place [OF example_scrolls example_ok this] show ?thesis
    by (force simp: Let_def dest!: spec [of _ "[ControllerMeasure (example_token ''a'') 250]"])
qed

section \<open>A scroll of the user decides\<close>

lemma or_option_None [simp]: "or_option a b = None \<longleftrightarrow> a = None \<and> b = None"
  by (cases a) (simp_all add: or_option_def)

lemma nearest_loop_None:
  "nearest_loop observed end' priority ps before after = None \<longleftrightarrow> before = None \<and> after = None \<and>
    (\<forall>(row, p) \<in> set ps. rd_anchorPriority row = priority \<longrightarrow> rp_bottom p > observed \<and> rp_top p < end')"
  by (induction observed end' priority ps before after rule: nearest_loop.induct) auto

lemma no_anchorable_row:
  "findAnchorableRow c priority e = None \<and>
    nearest_loop (observedScrollTop c) e priority (row_positions c) None None = None \<longleftrightarrow>
    (\<forall>(row, p) \<in> set (row_positions c). rd_anchorPriority row \<noteq> priority)"
  unfolding nearest_loop_None findAnchorableRow_def by (auto simp: find_None_iff)

lemma positions_rows: "map fst (positions_from c s rows) = rows"
  by (induction rows arbitrary: s) (simp_all add: Let_def)

lemma all_positions:
  "(\<forall>(row, p) \<in> set (row_positions c). P row) \<longleftrightarrow> (\<forall>row \<in> set (vc_rows c). P row)"
proof -
  have "set (vc_rows c) = fst ` set (row_positions c)"
    unfolding row_positions_def by (metis positions_rows set_map)
  then show ?thesis by auto
qed

lemma setScrollAnchor_row: "vc_anchor (setScrollAnchor (PendingRow k off) c) \<noteq> AnchorBottom"
  by (simp add: setScrollAnchor_def split: option.split)

lemma capture_bottom:
  "vc_anchor (captureViewportAnchor FallbackBottom c) = AnchorBottom \<longleftrightarrow>
    (\<forall>row \<in> set (vc_rows c). rd_anchorPriority row = NoAnchor)"
proof -
  let ?e = "observedScrollTop c + vc_viewportHeight c"
  let ?s = "or_option (findAnchorableRow c Stable ?e) (or_option (findAnchorableRow c Streaming ?e)
    (or_option (findNearestAnchorableRow c Stable ?e) (findNearestAnchorableRow c Streaming ?e)))"
  have "vc_anchor (captureViewportAnchor FallbackBottom c) = AnchorBottom \<longleftrightarrow> ?s = None"
    by (cases ?s) (auto simp: captureViewportAnchor_def Let_def setScrollAnchor_row, simp add: setScrollAnchor_def)
  also have "\<dots> \<longleftrightarrow> (\<forall>(row, p) \<in> set (row_positions c). rd_anchorPriority row \<noteq> Stable) \<and>
      (\<forall>(row, p) \<in> set (row_positions c). rd_anchorPriority row \<noteq> Streaming)"
    unfolding or_option_None findNearestAnchorableRow_def no_anchorable_row [of c _ ?e, symmetric] by blast
  also have "\<dots> \<longleftrightarrow> (\<forall>row \<in> set (vc_rows c). rd_anchorPriority row = NoAnchor)"
    unfolding all_positions by (metis anchor_priority.exhaust anchor_priority.distinct)
  finally show ?thesis .
qed

lemma capture_viewport [simp]: "vc_viewport (captureViewportAnchor fb c) = vc_viewport c"
  by (auto simp: captureViewportAnchor_def Let_def setScrollAnchor_def split: option.split)

lemma user_scroll_outcome:
  assumes "user_moved g o' c"
  shows "let (correction, d) = syncViewport g o' c in
    correction = None \<and> getPendingScrollCorrection d = None \<and>
    observedScrollTop d = clampScrollTop d (vg_scrollTop g) \<and>
    (so_preserveScrollPosition o' \<or>
      (vc_anchor d = AnchorBottom \<longleftrightarrow>
        getDistanceFromBottom d (observedScrollTop d) \<le> vc_pinnedBottomThresholdPx d \<or>
        set (map rd_anchorPriority (vc_rows d)) \<subseteq> {NoAnchor}))"
proof -
  define s where "s = sync_observed g c"
  define d where "d = snd (syncViewport g o' c)"
  have lim: "vc_pinnedBottomThresholdPx s = vc_pinnedBottomThresholdPx c"
    by (simp add: s_def sync_observed_def sync_resized_def count_def fresh_def)
  have st: "steady s d" unfolding s_def d_def by (rule sync_steady)
  have no: "fst (syncViewport g o' c) = None"
    using assms by (auto simp: syncViewport_eq user_moved_def Let_def getScrollDirection_def)
  have v: "vc_viewport d = vc_viewport s"
    using assms unfolding d_def s_def
    by (auto simp: syncViewport_eq user_moved_def Let_def setScrollAnchor_def)
  have o: "observedScrollTop d = clampScrollTop d (vg_scrollTop g)"
    using sync_observed_clamped [of g c] heights_steady(7,8) [OF st] by (simp add: s_def)
  have rows: "vc_rows d = vc_rows s" "vc_pinnedBottomThresholdPx d = vc_pinnedBottomThresholdPx s"
    using st by (simp_all add: steady_def layout_of_def limits_of_def)
  have dist: "getDistanceFromBottom d (observedScrollTop d) = getDistanceFromBottom s (observedScrollTop s)"
    using heights_steady(4,8) [OF st] by (simp add: getDistanceFromBottom_def)
  have "vc_anchor d = AnchorBottom \<longleftrightarrow>
      getDistanceFromBottom s (observedScrollTop s) \<le> vc_pinnedBottomThresholdPx s \<or>
      (\<forall>row \<in> set (vc_rows s). rd_anchorPriority row = NoAnchor)" if np: "\<not> so_preserveScrollPosition o'"
  proof (cases "getDistanceFromBottom s (observedScrollTop s) \<le> vc_pinnedBottomThresholdPx s")
    case True
    then have "d = setScrollAnchor PendingBottom s"
      using assms np unfolding d_def s_def syncViewport_eq Let_def user_moved_def by (auto simp: not_less)
    then show ?thesis using True by (simp add: setScrollAnchor_def)
  next
    case False
    then have "d = captureViewportAnchor FallbackBottom s \<or>
      d = captureViewportAnchor FallbackBottom (count (\<lambda>d. d\<lparr>vd_bottomFollowExits := vd_bottomFollowExits d + 1\<rparr>) s)"
      using assms np unfolding d_def s_def syncViewport_eq Let_def user_moved_def by auto
    then show ?thesis using False by (auto simp: capture_bottom)
  qed
  then show ?thesis
    using no v o rows dist
    by (simp add: split_beta Let_def getPendingScrollCorrection_def image_subset_iff flip: d_def) (auto simp: s_def)
qed

text \<open>
  The user's scroll is never fought: when a viewport report is a scroll of the user, the controller
  takes the reported position (kept within the transcript), drops what it had asked for and asks for
  nothing; unless the caller preserves the position, the view follows the bottom from then on exactly
  when the position is within the pinned threshold of it (or there is no row to hold on to).
\<close>

theorem user_scroll_decides:
  assumes "user_moved g o' c"
  shows "let (correction, d) = syncViewport g o' c in
    correction = None \<and> getPendingScrollCorrection d = None \<and>
    observedScrollTop d = clampScrollTop d (vg_scrollTop g) \<and>
    (so_preserveScrollPosition o' \<or>
      (vc_anchor d = AnchorBottom \<longleftrightarrow>
        getDistanceFromBottom d (observedScrollTop d) \<le> vc_pinnedBottomThresholdPx d \<or>
        set (map rd_anchorPriority (vc_rows d)) \<subseteq> {NoAnchor}))"
  by (rule user_scroll_outcome) (rule assms)

theorem user_scroll_decides_witness:
  "let (correction, d) = syncViewport example_report example_scroll example_controller in
    correction = None \<and> observedScrollTop d = clampScrollTop d 120 \<and> vc_anchor d \<noteq> AnchorBottom"
proof -
  have "\<not> so_preserveScrollPosition example_scroll" "vg_scrollTop example_report = 120"
    "let d = snd (syncViewport example_report example_scroll example_controller) in
      \<not> (getDistanceFromBottom d (observedScrollTop d) \<le> vc_pinnedBottomThresholdPx d) \<and>
      \<not> set (map rd_anchorPriority (vc_rows d)) \<subseteq> {NoAnchor}"
    by code_simp+
  then show ?thesis
    using user_scroll_decides [OF example_scrolls] by (simp only: Let_def split_beta) blast
qed

end
