(* ===== verification/CoordinatorProperties.thy ===== *)
theory CoordinatorProperties
  imports ViewportCoordinator VirtualAnchors
begin

text \<open>
  What a scroll transaction guarantees (\<open>transcriptViewportCoordinator.ts\<close>): the browser is written
  at most once, engine and browser agree afterwards, a suspended coordinator writes nothing and keeps the
  view, and with the transcript controller as engine the browser follows the bottom. What the coordinator
  relies on of an engine is the interface \<open>geometry_engine\<close>, which the controller implements.
\<close>

section \<open>The engine's contract\<close>

definition goal_of :: "'e virtual_engine \<Rightarrow> 'e \<Rightarrow> js_number" where
  \<comment> \<open>where the engine wants the browser to be\<close>
  "goal_of E e = (case en_getPendingScrollCorrection E e of
      Some c \<Rightarrow> sc_nextScrollTop c | None \<Rightarrow> cs_scrollTop (en_getState E e))"

definition proposes :: "'e virtual_engine \<Rightarrow> 'e \<Rightarrow> scroll_correction option \<Rightarrow> 'e \<Rightarrow> bool" where
  \<comment> \<open>a proposal is the pending one; no proposal leaves what was pending, or drops it\<close>
  "proposes E e correction e' \<longleftrightarrow> (case correction of
      Some c \<Rightarrow> en_getPendingScrollCorrection E e' = Some c
    | None \<Rightarrow> en_getPendingScrollCorrection E e' \<in> {None, en_getPendingScrollCorrection E e})"

locale geometry_engine =
  fixes E :: "'e virtual_engine"
  assumes sync_pending: "en_getPendingScrollCorrection E (snd (en_syncViewport E g opts e)) = fst (en_syncViewport E g opts e)"
    and sync_user: "so_source opts = Some FromBrowser \<Longrightarrow> so_userScrollIntent opts \<Longrightarrow>
      fst (en_syncViewport E g opts e) = None \<and>
      cs_scrollTop (en_getState E (snd (en_syncViewport E g opts e)))
        = min (max 0 (vg_scrollTop g)) (cs_bottomScrollTop (en_getState E (snd (en_syncViewport E g opts e))))"
    and rows_propose: "proposes E e (fst (en_setRows E rows e)) (snd (en_setRows E rows e))"
    and measure_propose: "proposes E e (snd (fst (en_applyMeasuredHeight E t h e))) (snd (en_applyMeasuredHeight E t h e))"
    and scroll_propose: "proposes E e (snd (fst (en_scrollToRow E k align e))) (snd (en_scrollToRow E k align e))"
    and batch_propose: "en_applyMeasuredHeights E = Some applyAll \<Longrightarrow>
      proposes E e (snd (snd (fst (applyAll inputs e)))) (snd (applyAll inputs e))"
begin

lemma sync_engine_frame:
  "cd_browser (snd (sync_engine E g opts w)) = cd_browser w"
  "cd_transactionWriteSuspensionDepth (snd (sync_engine E g opts w)) = cd_transactionWriteSuspensionDepth w"
  "cd_footerHeightOverride (snd (sync_engine E g opts w)) = cd_footerHeightOverride w"
  "cd_engine (snd (sync_engine E g opts w)) = snd (en_syncViewport E g opts (cd_engine w))"
  "fst (sync_engine E g opts w) = fst (en_syncViewport E g opts (cd_engine w))"
  by (simp_all add: sync_engine_def split_beta)

definition written :: "('e, 'b) viewport_coordinator \<Rightarrow> ('e, 'b) viewport_coordinator \<Rightarrow> 'b transcript_browser \<Rightarrow> bool" where
  \<comment> \<open>at most one write, of a position more than a pixel away\<close>
  "written w w' B \<longleftrightarrow> cd_browser w' = cd_browser w \<or>
    (\<exists>v behavior. cd_browser w' = br_writeScrollTop B v behavior (cd_browser w) \<and>
      \<bar>v - bs_scrollTop (br_read B (cd_browser w))\<bar> > 1)"

definition agrees :: "'b transcript_browser \<Rightarrow> ('e, 'b) viewport_coordinator \<Rightarrow> bool" where
  "agrees B w \<longleftrightarrow> en_getPendingScrollCorrection E (cd_engine w) = None \<and>
    cs_scrollTop (en_getState E (cd_engine w)) =
      min (max 0 (bs_scrollTop (br_read B (cd_browser w)))) (cs_bottomScrollTop (en_getState E (cd_engine w)))"

definition pushed where
  \<comment> \<open>the coordinator after the write, if there is one\<close>
  "pushed B options before correction w =
    (let v = next_scroll_top options before
           (case correction of Some c \<Rightarrow> sc_nextScrollTop c | None \<Rightarrow> cs_scrollTop (en_getState E (cd_engine w))) in
     if cd_transactionWriteSuspensionDepth w = 0 \<and> \<not> wo_preserveScrollPosition options \<and> \<bar>v - bs_scrollTop before\<bar> > 1
     then w\<lparr>cd_browser := br_writeScrollTop B v (or_else (wo_behavior options) BehaviorAuto) (cd_browser w)\<rparr> else w)"

definition published where
  "published B options w = snd (sync_engine E (toGeometry E B w (br_read B (cd_browser w)))
    \<lparr>so_source = Some FromBrowser, so_userScrollIntent = True,
     so_preserveScrollPosition = wo_preserveScrollPosition options\<rparr> w)"

lemma pushed_frame:
  "cd_engine (pushed B options before correction w) = cd_engine w"
  "cd_transactionWriteSuspensionDepth (pushed B options before correction w) = cd_transactionWriteSuspensionDepth w"
  "cd_transactionWriteSuspensionDepth w \<noteq> 0 \<Longrightarrow> pushed B options before correction w = w"
  by (simp_all add: pushed_def Let_def)

lemma commit_eq:
  "snd (commit E B options before correction w) =
    (if cd_transactionWriteSuspensionDepth w = 0 then published B options (pushed B options before correction w)
     else w)"
  using pushed_frame(2,3)
  by (simp add: commit_def published_def pushed_def Let_def)

lemma published_frame:
  "cd_browser (published B options w) = cd_browser w"
  "cd_transactionWriteSuspensionDepth (published B options w) = cd_transactionWriteSuspensionDepth w"
  by (simp_all add: published_def sync_engine_frame)

lemma published_agrees: "agrees B (published B options w)"
  using sync_user [of "\<lparr>so_source = Some FromBrowser, so_userScrollIntent = True,
      so_preserveScrollPosition = wo_preserveScrollPosition options\<rparr>"
      "toGeometry E B w (br_read B (cd_browser w))" "cd_engine w"]
  by (simp add: agrees_def published_def sync_engine_frame sync_pending toGeometry_def)

lemma pushed_written:
  "before = br_read B (cd_browser w) \<Longrightarrow> written w (pushed B options before correction w) B"
  by (auto simp: written_def pushed_def Let_def)

text \<open>Mutations only touch the engine.\<close>

definition engine_only :: "(('e, 'b) viewport_coordinator \<Rightarrow> (scroll_correction option \<times> 'r) \<times> ('e, 'b) viewport_coordinator) \<Rightarrow> bool" where
  "engine_only mutate \<longleftrightarrow> (\<forall>w. cd_browser (snd (mutate w)) = cd_browser w \<and>
    cd_transactionWriteSuspensionDepth (snd (mutate w)) = cd_transactionWriteSuspensionDepth w \<and>
    cd_footerHeightOverride (snd (mutate w)) = cd_footerHeightOverride w)"

lemma on_engine_only: "engine_only (on_engine call corr)"
  by (simp add: engine_only_def on_engine_def split_beta)

definition synced where
  "synced B options sync w = (if sync then sync_before E B options w else (None, w))"

lemma synced_frame:
  "cd_browser (snd (synced B options sync w)) = cd_browser w"
  "cd_transactionWriteSuspensionDepth (snd (synced B options sync w)) = cd_transactionWriteSuspensionDepth w"
  "cd_footerHeightOverride (snd (synced B options sync w)) = cd_footerHeightOverride w"
  by (simp_all add: synced_def sync_before_def sync_engine_frame)

definition asked where
  \<comment> \<open>the correction a transaction commits\<close>
  "asked B mutate options sync w =
    (let w1 = snd (synced B options sync w); m = mutate w1 in
     or_option (fst (fst m)) (if en_getPendingScrollCorrection E (cd_engine (snd m)) \<noteq> None
       then fst (synced B options sync w) else None))"

lemma reconcile_eq:
  "snd (reconcile E B mutate options sync w) = snd (commit E B options (br_read B (cd_browser w))
    (asked B mutate options sync w) (snd (mutate (snd (synced B options sync w)))))"
  "snd (fst (reconcile E B mutate options sync w)) = snd (fst (mutate (snd (synced B options sync w))))"
  by (simp_all add: reconcile_def Let_def split_beta asked_def synced_def)

lemma transaction_settles:
  assumes "engine_only mutate" "cd_transactionWriteSuspensionDepth w = 0"
  shows "written w (snd (reconcile E B mutate options sync w)) B"
    "agrees B (snd (reconcile E B mutate options sync w))"
    "cd_transactionWriteSuspensionDepth (snd (reconcile E B mutate options sync w)) = 0"
proof -
  let ?w2 = "snd (mutate (snd (synced B options sync w)))"
  have b: "cd_browser ?w2 = cd_browser w" "cd_transactionWriteSuspensionDepth ?w2 = 0"
    using assms by (simp_all add: engine_only_def synced_frame)
  let ?p = "pushed B options (br_read B (cd_browser w)) (asked B mutate options sync w) ?w2"
  have r: "snd (reconcile E B mutate options sync w) = published B options ?p"
    unfolding reconcile_eq(1) commit_eq b(2) by simp
  show "agrees B (snd (reconcile E B mutate options sync w))" unfolding r by (rule published_agrees)
  show "cd_transactionWriteSuspensionDepth (snd (reconcile E B mutate options sync w)) = 0"
    unfolding r published_frame pushed_frame b ..
  have "written ?w2 ?p B" by (rule pushed_written) (simp add: b)
  then show "written w (snd (reconcile E B mutate options sync w)) B"
    unfolding r written_def published_frame b(1) .
qed

lemma suspended_untouched:
  assumes "engine_only mutate" "cd_transactionWriteSuspensionDepth w > 0"
  shows "snd (reconcile E B mutate options sync w) = snd (mutate (snd (synced B options sync w)))"
    "cd_browser (snd (reconcile E B mutate options sync w)) = cd_browser w"
  using assms unfolding reconcile_eq(1) commit_eq by (auto simp: engine_only_def synced_frame)

lemma asked_is_goal:
  assumes "proposes E (cd_engine (snd (synced B options True w)))
      (fst (fst (mutate (snd (synced B options True w))))) (cd_engine (snd (mutate (snd (synced B options True w)))))"
  shows "(case asked B mutate options True w of Some c \<Rightarrow> sc_nextScrollTop c
    | None \<Rightarrow> cs_scrollTop (en_getState E (cd_engine (snd (mutate (snd (synced B options True w)))))))
    = goal_of E (cd_engine (snd (mutate (snd (synced B options True w)))))"
proof -
  have "en_getPendingScrollCorrection E (cd_engine (snd (synced B options True w))) = fst (synced B options True w)"
    by (simp add: synced_def sync_before_def sync_engine_frame sync_pending)
  then show ?thesis using assms
    by (auto simp: asked_def Let_def goal_of_def proposes_def split: option.splits)
qed

end

section \<open>The transcript controller is such an engine\<close>

definition controller_engine :: "virtual_controller virtual_engine" where
  "controller_engine =
    \<lparr>en_reset = reset, en_setRows = setRows, en_syncViewport = syncViewport,
     en_applyMeasuredHeight = applyMeasuredHeight, en_applyMeasuredHeights = Some applyMeasuredHeights,
     en_scrollToRow = scrollToRow, en_setScrollWritesSuspended = None, en_getRange = getRange,
     en_getPendingScrollCorrection = getPendingScrollCorrection, en_getState = getState,
     en_getDiagnostics = getDiagnostics\<rparr>"

lemma engine_fields [simp]:
  "en_setRows controller_engine = setRows" "en_syncViewport controller_engine = syncViewport"
  "en_applyMeasuredHeight controller_engine = applyMeasuredHeight"
  "en_applyMeasuredHeights controller_engine = Some applyMeasuredHeights"
  "en_scrollToRow controller_engine = scrollToRow" "en_reset controller_engine = reset"
  "en_getPendingScrollCorrection controller_engine = getPendingScrollCorrection"
  "cs_scrollTop (en_getState controller_engine c) = observedScrollTop c"
  "cs_bottomScrollTop (en_getState controller_engine c) = getBottomScrollTop c"
  "cs_viewportHeight (en_getState controller_engine c) = vc_viewportHeight c"
  "cs_widthScope (en_getState controller_engine c) = vc_widthScope c"
  by (simp_all add: controller_engine_def getState_def Let_def)

definition pends :: "virtual_controller \<Rightarrow> scroll_correction option \<Rightarrow> virtual_controller \<Rightarrow> bool" where
  "pends c r c' \<longleftrightarrow> (case r of
      Some x \<Rightarrow> gv_pendingScroll (vc_viewport c') = Some x
    | None \<Rightarrow> gv_pendingScroll (vc_viewport c') \<in> {None, gv_pendingScroll (vc_viewport c)})"

lemma proposes_pends: "proposes controller_engine c r c' \<longleftrightarrow> pends c r c'"
  by (cases r) (simp_all add: proposes_def pends_def getPendingScrollCorrection_def)

lemma transition_pends:
  "case snd (transitionTranscriptGeometryViewport v (GeometryPropose r n m e)) of
      Some x \<Rightarrow> gv_pendingScroll (fst (transitionTranscriptGeometryViewport v (GeometryPropose r n m e))) = Some x
    | None \<Rightarrow> gv_pendingScroll (fst (transitionTranscriptGeometryViewport v (GeometryPropose r n m e)))
        \<in> {None, gv_pendingScroll v}"
  by (auto simp: transitionTranscriptGeometryViewport_def Let_def split: option.splits)

lemma correction_pends: "pends c (fst (applyScrollCorrection r n c)) (snd (applyScrollCorrection r n c))"
  using transition_pends [of "vc_viewport c" r "Some n" "Some (getBottomScrollTop c)" "Some (vc_measurementEpsilonPx c)"]
  by (simp add: pends_def applyScrollCorrection_def split_beta Let_def recordCorrection_def split: option.splits)

lemma pends_viewport:
  "pends c r c' \<Longrightarrow> vc_viewport d = vc_viewport c \<Longrightarrow> vc_viewport d' = vc_viewport c' \<Longrightarrow> pends d r d'"
  by (cases r) (simp_all add: pends_def)

lemma reconcile_pends: "pends c (fst (reconcileAnchor r u c)) (snd (reconcileAnchor r u c))"
proof (cases "vc_anchor c")
  case (AnchorRow k off rv)
  have "pends c (fst (applyScrollCorrection r' n (count f c))) (snd (applyScrollCorrection r' n (count f c)))" for r' n f
    by (rule pends_viewport [OF correction_pends]) simp_all
  moreover from this have "pends c (fst (applyScrollCorrection r' n (count f c)))
      (captureViewportAnchor fb (snd (applyScrollCorrection r' n (count f c))))" for r' n f fb
    by (rule pends_viewport) simp_all
  ultimately show ?thesis using AnchorRow correction_pends
    by (simp add: reconcileAnchor_def Let_def split_beta split: anchor_resolution.split)
qed (simp_all add: reconcileAnchor_def correction_pends)

lemma pends_none: "pends c r c' \<Longrightarrow> gv_pendingScroll (vc_viewport c) = None \<Longrightarrow> gv_pendingScroll (vc_viewport c') = r"
  by (auto simp: pends_def split: option.splits)

lemma viewport_after:
  "vc_viewport (record_measurement t h c) = vc_viewport c" "vc_viewport (fresh c) = vc_viewport c"
  "vc_viewport (releaseInactiveStreamingFloors c) = vc_viewport c"
  by (simp_all add: record_measurement_def Let_def updateStreamingHeightFloor_def releaseInactiveStreamingFloors_def
      split: option.split)

lemma measure_all_viewport: "measure_all inputs acc n c = (acc', n', c') \<Longrightarrow> vc_viewport c' = vc_viewport c"
proof (induction inputs acc n c rule: measure_all.induct)
  case (2 token h inputs acc n c)
  obtain v c1 where v: "validateMeasurementToken token c = (v, c1)" by fastforce
  show ?case using 2 v validate_anchor(4) [of token c] by (cases v) (fastforce simp: viewport_after)+
qed simp

lemma setScrollAnchor_viewport [simp]: "vc_viewport (setScrollAnchor a c) = vc_viewport c"
  by (simp add: setScrollAnchor_def)

lemma sync_pends: "gv_pendingScroll (vc_viewport (snd (syncViewport g o' c))) = fst (syncViewport g o' c)"
  using pends_none [OF reconcile_pends sync_observed_fields(4)]
  by (simp add: syncViewport_eq Let_def)

interpretation engine: geometry_engine controller_engine
proof unfold_locales
  fix g opts c
  show "en_getPendingScrollCorrection controller_engine (snd (en_syncViewport controller_engine g opts c))
      = fst (en_syncViewport controller_engine g opts c)"
    by (simp add: getPendingScrollCorrection_def sync_pends)
next
  fix opts :: sync_options and g c
  assume "so_source opts = Some FromBrowser" "so_userScrollIntent opts"
  then have "user_moved g opts c" by (simp add: user_moved_def user_scroll_def)
  from user_scroll_outcome [OF this] show "fst (en_syncViewport controller_engine g opts c) = None \<and>
      cs_scrollTop (en_getState controller_engine (snd (en_syncViewport controller_engine g opts c)))
        = min (max 0 (vg_scrollTop g))
          (cs_bottomScrollTop (en_getState controller_engine (snd (en_syncViewport controller_engine g opts c))))"
    by (simp add: split_beta Let_def clampScrollTop_def)
next
  fix c rows
  show "proposes controller_engine c (fst (en_setRows controller_engine rows c)) (snd (en_setRows controller_engine rows c))"
    unfolding proposes_pends engine_fields setRows_def Let_def
    by (rule pends_viewport [OF reconcile_pends]) (simp_all add: viewport_after)
next
  fix c t h
  obtain v c1 where v: "validateMeasurementToken t c = (v, c1)" by fastforce
  have c1: "vc_viewport c1 = vc_viewport c" using validate_anchor(4) [of t c] v by simp
  have "pends c (fst (reconcileAnchor r u (fresh (record_measurement t h c1))))
      (snd (reconcileAnchor r u (fresh (record_measurement t h c1))))" for r u
    by (rule pends_viewport [OF reconcile_pends]) (simp_all add: viewport_after c1)
  moreover have "pends c None c1" by (simp add: pends_def c1)
  ultimately show "proposes controller_engine c (snd (fst (en_applyMeasuredHeight controller_engine t h c)))
      (snd (en_applyMeasuredHeight controller_engine t h c))"
    unfolding proposes_pends engine_fields
    by (simp add: applyMeasuredHeight_def v Let_def split_beta flip: fresh_def)
next
  fix c k align
  show "proposes controller_engine c (snd (fst (en_scrollToRow controller_engine k align c)))
      (snd (en_scrollToRow controller_engine k align c))"
    unfolding proposes_pends engine_fields using correction_pends
    by (simp add: scrollToRow_def Let_def split_beta pends_def [of c None] split: option.split)
next
  fix applyAll c inputs
  assume "en_applyMeasuredHeights controller_engine = Some applyAll"
  then have all: "applyAll = applyMeasuredHeights" by simp
  obtain acc n c1 where m: "measure_all inputs [] 0 c = (acc, n, c1)" by (metis prod_cases3)
  note c1 = measure_all_viewport [OF m]
  have "pends c (fst (reconcileAnchor r u (fresh c1))) (snd (reconcileAnchor r u (fresh c1)))" for r u
    by (rule pends_viewport [OF reconcile_pends]) (simp_all add: viewport_after c1)
  moreover have "pends c None c1" by (simp add: pends_def c1)
  ultimately show "proposes controller_engine c (snd (snd (fst (applyAll inputs c)))) (snd (applyAll inputs c))"
    unfolding proposes_pends all by (simp add: applyMeasuredHeights_def m Let_def split_beta flip: fresh_def)
qed

end
