(* ===== verification/CoordinatorRuns.thy ===== *)
theory CoordinatorRuns
  imports CoordinatorProperties
begin

text \<open>
  The scroll transactions of \<open>transcriptViewportCoordinator.ts\<close> over the transcript controller: one write
  at most and agreement with the browser, nothing written while suspended, the bottom followed in the
  browser itself.
\<close>

section \<open>Actions\<close>

datatype coordinator_action =
    CoordinatorReset session_geometry
  | CoordinatorSetRows "row_descriptor list"
  | CoordinatorSync viewport_geometry write_options
  | CoordinatorMeasure measurement_token js_number
  | CoordinatorMeasureAll "(measurement_token \<times> js_number) list"
  | CoordinatorScrollToRow string scroll_align
  | CoordinatorWrite js_number write_options
  | CoordinatorScrollToEnd "scroll_behavior option"

type_synonym 'b coordinator = "(virtual_controller, 'b) viewport_coordinator"

definition coordinator_step :: "'b transcript_browser \<Rightarrow> coordinator_action \<Rightarrow> 'b coordinator \<Rightarrow> 'b coordinator" where
  "coordinator_step B a w = (case a of
      CoordinatorReset input \<Rightarrow> coordinatorReset controller_engine B input w
    | CoordinatorSetRows rows \<Rightarrow> coordinatorSetRows controller_engine B rows w
    | CoordinatorSync g options \<Rightarrow> coordinatorSyncViewport controller_engine B g options w
    | CoordinatorMeasure t h \<Rightarrow> snd (coordinatorApplyMeasuredHeight controller_engine B t h w)
    | CoordinatorMeasureAll inputs \<Rightarrow> snd (coordinatorApplyMeasuredHeights controller_engine B inputs w)
    | CoordinatorScrollToRow k align \<Rightarrow> snd (coordinatorScrollToRow controller_engine B k align w)
    | CoordinatorWrite v options \<Rightarrow> snd (writeScrollTop controller_engine B v options w)
    | CoordinatorScrollToEnd behavior \<Rightarrow> scrollToEnd controller_engine B behavior w)"

lemma measure_engine_controller [simp]: "measure_engine controller_engine inputs = applyMeasuredHeights inputs"
  by (rule ext) (simp add: measure_engine_def)

definition settled :: "'b transcript_browser \<Rightarrow> 'b coordinator \<Rightarrow> 'b coordinator \<Rightarrow> bool" where
  "settled B w w' \<longleftrightarrow> (if cd_transactionWriteSuspensionDepth w = 0
    then engine.agrees B w' \<and> engine.written w w' B else cd_browser w' = cd_browser w)"

lemma reconcile_settled:
  assumes "engine.engine_only mutate" "cd_browser v = cd_browser w"
    "cd_transactionWriteSuspensionDepth v = cd_transactionWriteSuspensionDepth w"
  shows "settled B w (snd (reconcile controller_engine B mutate options sync v))"
proof (cases "cd_transactionWriteSuspensionDepth v = 0")
  case True
  then show ?thesis using engine.transaction_settles [OF assms(1) True, of B options sync] assms(2,3)
    by (simp add: settled_def engine.written_def)
next
  case False
  then show ?thesis using engine.suspended_untouched(2) [OF assms(1), of v B options sync] assms(2,3)
    by (simp add: settled_def)
qed

lemma step_settled: "settled B w (coordinator_step B a w)"
proof (cases a)
  case (CoordinatorReset input)
  then show ?thesis unfolding coordinator_step_def coordinatorReset_def coordinator_action.case CoordinatorReset
    by (intro reconcile_settled) (simp_all add: engine.engine_only_def)
next
  case (CoordinatorSync g options)
  show ?thesis unfolding coordinator_step_def coordinatorSyncViewport_def coordinator_action.case CoordinatorSync
    by (intro reconcile_settled) (simp_all add: engine.engine_only_def on_engine_def split_beta)
next
  case (CoordinatorWrite v options)
  show ?thesis unfolding coordinator_step_def writeScrollTop_def coordinator_action.case CoordinatorWrite Let_def split_beta snd_conv
    by (intro reconcile_settled) (simp_all add: engine.engine_only_def)
next
  case (CoordinatorScrollToEnd behavior)
  show ?thesis
    unfolding coordinator_step_def scrollToEnd_def writeScrollTop_def coordinator_action.case CoordinatorScrollToEnd
      Let_def split_beta snd_conv
    by (intro reconcile_settled) (simp_all add: engine.engine_only_def)
qed (simp_all add: coordinator_step_def coordinatorSetRows_def coordinatorApplyMeasuredHeight_def
    coordinatorApplyMeasuredHeights_def coordinatorScrollToRow_def Let_def split_beta
    reconcile_settled engine.on_engine_only)

text \<open>
  C27. A scroll transaction settles: when writes are not suspended, every operation of the coordinator
  writes the browser at most once, and only to a position more than a pixel from where it was; afterwards
  the engine holds no open proposal and its position is the browser's, kept within the transcript. While
  writes are suspended no operation writes the browser.
\<close>

theorem transactions_settle:
  "let w' = coordinator_step B a w; s = bs_scrollTop (br_read B (cd_browser w')) in
    if cd_transactionWriteSuspensionDepth w = 0
    then getPendingScrollCorrection (cd_engine w') = None \<and>
      observedScrollTop (cd_engine w') = clampScrollTop (cd_engine w') s \<and>
      (cd_browser w' = cd_browser w \<or>
       (\<exists>v behavior. cd_browser w' = br_writeScrollTop B v behavior (cd_browser w) \<and>
         \<bar>v - bs_scrollTop (br_read B (cd_browser w))\<bar> > 1))
    else cd_browser w' = cd_browser w"
  using step_settled [of B w a]
  by (auto simp: settled_def engine.agrees_def engine.written_def Let_def clampScrollTop_def split: if_splits)

section \<open>Suspended\<close>

definition program_sync :: sync_options where
  "program_sync = \<lparr>so_source = Some FromProgram, so_userScrollIntent = False, so_preserveScrollPosition = False\<rparr>"

lemma program_not_moved: "\<not> user_moved g program_sync c"
  by (simp add: user_moved_def user_scroll_def program_sync_def)

lemma sync_before_engine:
  "cd_engine (snd (engine.synced B no_options True w)) =
    controller_step (ControllerSync (readGeometry controller_engine B w) program_sync) (cd_engine w)"
  by (simp add: engine.synced_def sync_before_def engine.sync_engine_frame no_options_def program_sync_def controller_step_def)

fun content_of :: "coordinator_action \<Rightarrow> controller_action option" where
  \<comment> \<open>the operations that only bring new rows and heights\<close>
  "content_of (CoordinatorSetRows rows) = Some (ControllerSetRows rows)"
| "content_of (CoordinatorMeasure t h) = Some (ControllerMeasure t h)"
| "content_of (CoordinatorMeasureAll inputs) = Some (ControllerMeasureAll inputs)"
| "content_of _ = None"

definition mutated :: "'b transcript_browser \<Rightarrow> controller_action \<Rightarrow> 'b coordinator \<Rightarrow> virtual_controller" where
  \<comment> \<open>the engine after the report and the change\<close>
  "mutated B act w = controller_step act
    (controller_step (ControllerSync (readGeometry controller_engine B w) program_sync) (cd_engine w))"

lemma content_step:
  assumes "content_of a = Some act"
  obtains correction where
    "coordinator_step B a w = snd (commit controller_engine B no_options (br_read B (cd_browser w)) correction
      (w\<lparr>cd_engine := mutated B act w\<rparr>))"
    "(case correction of Some c \<Rightarrow> sc_nextScrollTop c | None \<Rightarrow> observedScrollTop (mutated B act w))
      = heading (vc_viewport (mutated B act w))"
proof -
  note obt = that
  have main: thesis
    if r: "coordinator_step B a w = snd (reconcile controller_engine B (on_engine call corr) no_options True w)"
      and call: "\<And>c. snd (call c) = controller_step act c" "\<And>c. pends c (corr (fst (call c))) (snd (call c))"
    for call :: "virtual_controller \<Rightarrow> 'r \<times> virtual_controller" and corr
  proof -
    let ?s = "engine.synced B no_options True w"
    have w2: "snd (on_engine call corr (snd ?s)) = w\<lparr>cd_engine := mutated B act w\<rparr>"
      using engine.synced_frame [of B no_options True w]
      by (simp add: on_engine_def split_beta call(1) mutated_def flip: sync_before_engine)
    have "proposes controller_engine (cd_engine (snd ?s)) (fst (fst (on_engine call corr (snd ?s))))
        (cd_engine (snd (on_engine call corr (snd ?s))))"
      unfolding proposes_pends by (simp add: on_engine_def split_beta call(2))
    from engine.asked_is_goal [where B = B and options = no_options and w = w and mutate = "on_engine call corr", OF this] obt [of "engine.asked B (on_engine call corr) no_options True w"] show thesis
      unfolding r engine.reconcile_eq(1) w2
      by (simp add: goal_of_def heading_def getPendingScrollCorrection_def observedScrollTop_def cong: option.case_cong)
  qed
  show thesis
  proof (cases a)
    case (CoordinatorSetRows rows)
    show thesis
      by (rule main [of "setRows rows" "\<lambda>r. r"])
        (use CoordinatorSetRows assms engine.rows_propose in \<open>auto simp: coordinator_step_def coordinatorSetRows_def
          controller_step_def proposes_pends\<close>)
  next
    case (CoordinatorMeasure t h)
    show thesis
      by (rule main [of "applyMeasuredHeight t h" snd])
        (use CoordinatorMeasure assms engine.measure_propose in \<open>auto simp: coordinator_step_def
          coordinatorApplyMeasuredHeight_def Let_def split_beta controller_step_def proposes_pends\<close>)
  next
    case (CoordinatorMeasureAll inputs)
    show thesis
      by (rule main [of "applyMeasuredHeights inputs" "\<lambda>(_, _, c). c"])
        (use CoordinatorMeasureAll assms engine.batch_propose [of applyMeasuredHeights] in \<open>auto simp: coordinator_step_def
          coordinatorApplyMeasuredHeights_def Let_def split_beta controller_step_def proposes_pends\<close>)
  qed (use assms in simp_all)
qed

lemma commit_suspended:
  "cd_transactionWriteSuspensionDepth w > 0 \<Longrightarrow> snd (commit controller_engine B options before correction w) = w"
  by (simp add: engine.commit_eq)

definition content_keeps :: "coordinator_action \<Rightarrow> 'b coordinator \<Rightarrow> bool" where
  \<comment> \<open>while suspended, rows or heights arrive, and the anchored row is still among the rows\<close>
  "content_keeps a w \<longleftrightarrow> cd_transactionWriteSuspensionDepth w > 0 \<and>
    (case content_of a of None \<Rightarrow> False | Some act \<Rightarrow> keeps_view act (cd_engine w))"

lemma keeps_view_anchor: "content_of a = Some act \<Longrightarrow> vc_anchor c' = vc_anchor c \<Longrightarrow> keeps_view act c' = keeps_view act c"
  by (cases a) auto

lemma mutated_held:
  assumes "view_held an (cd_engine w)" "content_of a = Some act" "keeps_view act (cd_engine w)"
  shows "view_held an (mutated B act w)"
proof -
  let ?c = "controller_step (ControllerSync (readGeometry controller_engine B w) program_sync) (cd_engine w)"
  have "view_held an ?c" by (rule view_held_step [OF assms(1)]) (simp add: program_not_moved)
  moreover from this have "keeps_view act ?c"
    using keeps_view_anchor [OF assms(2), of ?c "cd_engine w"] assms(1,3) by (simp add: view_held_def)
  ultimately show ?thesis unfolding mutated_def by (rule view_held_step)
qed

lemma suspended_step:
  assumes "view_held an (cd_engine w)" "content_keeps a w"
  shows "view_held an (cd_engine (coordinator_step B a w))"
proof -
  obtain act where act: "content_of a = Some act" "keeps_view act (cd_engine w)" "cd_transactionWriteSuspensionDepth w > 0"
    using assms(2) by (auto simp: content_keeps_def split: option.splits)
  obtain cor where "coordinator_step B a w = snd (commit controller_engine B no_options (br_read B (cd_browser w)) cor
      (w\<lparr>cd_engine := mutated B act w\<rparr>))"
    using content_step [OF act(1)] by metis
  then show ?thesis using mutated_held [OF assms(1) act(1,2)] act(3) by (simp add: commit_suspended)
qed

interpretation suspended: step_system "coordinator_step B" content_keeps "\<lambda>w. view_held an (cd_engine w)" for B an
  by unfold_locales (rule suspended_step)

text \<open>
  C28. A suspended transcript keeps its view. Let the engine's anchor be held, that is, the browser is at
  its position or has been asked to go there, up to the measurement epsilon. While writes are suspended,
  let rows and measured heights arrive, where each update of the rows still has the anchored row, if it
  is a row, with the same height revision (of a row that is gone or changed the engine takes a new anchor).
  Then, however the browser's content stands, the anchor stays what it was, and so does what the
  coordinator asks of the browser: the anchor's position, up to the epsilon.
\<close>

theorem suspended_keeps_view:
  assumes "view_held anchor (cd_engine w)" "suspended.run_enabled B actions w"
  shows "let c = cd_engine (fold (coordinator_step B) actions w) in
    vc_anchor c = anchor \<and> \<bar>heading (vc_viewport c) - anchor_target c\<bar> \<le> max 0 (vc_measurementEpsilonPx c)"
  using suspended.run_inv [OF assms] by (simp add: suspended.run_fold Let_def view_held_def)

section \<open>The browser at the bottom\<close>

definition honest_browser :: "'b transcript_browser \<Rightarrow> bool" where
  \<comment> \<open>a scroll container: its position is within its content, an immediate write moves it there\<close>
  "honest_browser B \<longleftrightarrow> (\<forall>b v.
    0 \<le> bs_scrollTop (br_read B b) \<and> 0 < bs_viewportHeight (br_read B b) \<and>
    bs_scrollTop (br_read B b) \<le> bs_scrollHeight (br_read B b) - bs_viewportHeight (br_read B b) \<and>
    br_read B (br_writeScrollTop B v BehaviorAuto b) = (br_read B b)\<lparr>bs_scrollTop :=
      min (max 0 v) (bs_scrollHeight (br_read B b) - bs_viewportHeight (br_read B b))\<rparr> \<and>
    br_footerHeight B (br_writeScrollTop B v BehaviorAuto b) = br_footerHeight B b)"

lemma honestD:
  assumes "honest_browser B"
  shows "0 \<le> bs_scrollTop (br_read B b)" "0 < bs_viewportHeight (br_read B b)"
    "bs_scrollTop (br_read B b) \<le> bs_scrollHeight (br_read B b) - bs_viewportHeight (br_read B b)"
    "br_read B (br_writeScrollTop B v BehaviorAuto b) = (br_read B b)\<lparr>bs_scrollTop :=
      min (max 0 v) (bs_scrollHeight (br_read B b) - bs_viewportHeight (br_read B b))\<rparr>"
    "br_footerHeight B (br_writeScrollTop B v BehaviorAuto b) = br_footerHeight B b"
  using assms unfolding honest_browser_def by blast+

definition frame_of where
  "frame_of c = (vc_viewportHeight c, vc_footerHeight c, vc_browserScrollHeight c, limits_of c)"

lemma frame_steady: "steady c c' \<Longrightarrow> frame_of c' = frame_of c"
  by (simp add: steady_def frame_of_def layout_of_def)

lemma frame_simple [simp]:
  "frame_of (fresh c) = frame_of c" "frame_of (record_measurement t h c) = frame_of c"
  "frame_of (count f c) = frame_of c"
  "frame_of (releaseInactiveStreamingFloors (c\<lparr>vc_rows := rows, vc_rowIndexById := ix\<rparr>)) = frame_of c"
  by (simp_all add: frame_of_def limits_of_def fresh_def record_measurement_def Let_def count_def
      updateStreamingHeightFloor_def releaseInactiveStreamingFloors_def split: option.split)

lemma frame_reconcile [simp]: "frame_of (snd (reconcileAnchor r u c)) = frame_of c"
  by (rule frame_steady) simp

lemma frame_measure_all: "measure_all inputs acc n c = (acc', n', c') \<Longrightarrow> frame_of c' = frame_of c"
proof (induction inputs acc n c rule: measure_all.induct)
  case (2 token h inputs acc n c)
  obtain v c1 where v: "validateMeasurementToken token c = (v, c1)" by fastforce
  have "frame_of c1 = frame_of c" using frame_steady [OF steady_validate [of c token]] v by simp
  then show ?case using 2 v by (cases v) fastforce+
qed simp

lemma frame_content: "content_of a = Some act \<Longrightarrow> frame_of (controller_step act c) = frame_of c"
proof (cases a)
  case (CoordinatorSetRows rows)
  assume "content_of a = Some act"
  then show ?thesis using CoordinatorSetRows
    by (auto simp: controller_step_def setRows_def Let_def simp flip: fresh_def)
next
  case (CoordinatorMeasure t h)
  obtain v c1 where v: "validateMeasurementToken t c = (v, c1)" by fastforce
  have c1: "frame_of c1 = frame_of c" using frame_steady [OF steady_validate [of c t]] v by simp
  assume "content_of a = Some act"
  then show ?thesis using CoordinatorMeasure v c1
    by (auto simp: controller_step_def applyMeasuredHeight_def Let_def split_beta simp flip: fresh_def)
next
  case (CoordinatorMeasureAll inputs)
  obtain acc n c1 where m: "measure_all inputs [] 0 c = (acc, n, c1)" by (metis prod_cases3)
  assume "content_of a = Some act"
  then show ?thesis using CoordinatorMeasureAll m frame_measure_all [OF m]
    by (auto simp: controller_step_def applyMeasuredHeights_def Let_def split_beta simp flip: fresh_def)
qed simp_all

lemma sync_layout_of: "layout_of (snd (syncViewport g o' c)) = layout_of (sync_resized g c)"
  using sync_steady [of g c o']
  by (simp add: steady_def layout_of_def sync_observed_def count_def fresh_def)

lemma sync_limits: "limits_of (snd (syncViewport g o' c)) = limits_of c"
  using sync_steady [of g c o']
  by (simp add: steady_def limits_of_def sync_observed_def sync_resized_def count_def fresh_def)

lemma sync_frame:
  "frame_of (snd (syncViewport g o' c)) =
    (max 0 (vg_viewportHeight g), max 0 (or_else (vg_footerHeight g) 0), map_option (max 0) (vg_browserScrollHeight g), limits_of c)"
  using sync_layout_of [of g o' c] sync_limits [of g o' c]
  by (simp add: frame_of_def layout_of_def sync_resized_def)

lemma mutated_bottom:
  assumes "vc_anchor (cd_engine w) = AnchorBottom" "content_of a = Some act"
  shows "view_held AnchorBottom (mutated B act w)"
proof -
  let ?g = "readGeometry controller_engine B w"
  let ?c = "controller_step (ControllerSync ?g program_sync) (cd_engine w)"
  have "view_held AnchorBottom ?c"
    using reconcile_holds [of "sync_observed ?g (cd_engine w)"] assms(1)
    by (simp add: controller_step_def sync_not_moved [OF program_not_moved] resolveAnchor_def)
  moreover have "keeps_view act ?c" using assms(2) calculation
    by (cases a) (auto simp: view_held_def anchor_survives_def)
  ultimately show ?thesis unfolding mutated_def by (rule view_held_step)
qed

lemma mutated_frame:
  assumes "content_of a = Some act" "honest_browser B"
  shows "frame_of (mutated B act w) = (bs_viewportHeight (br_read B (cd_browser w)),
    max 0 (or_else (cd_footerHeightOverride w) (br_footerHeight B (cd_browser w))),
    Some (bs_scrollHeight (br_read B (cd_browser w))), limits_of (cd_engine w))"
proof -
  let ?s = "br_read B (cd_browser w)"
  have h: "0 < bs_viewportHeight ?s" "0 \<le> bs_scrollHeight ?s"
    using honestD(1-3) [OF assms(2), of "cd_browser w"] by simp_all
  show ?thesis
    unfolding mutated_def frame_content [OF assms(1)]
    using h by (simp add: controller_step_def sync_frame readGeometry_def toGeometry_def)
qed

lemma layout_heights:
  assumes "layout_of c' = layout_of c"
  shows "getVirtualScrollHeight c' = getVirtualScrollHeight c"
  using heights_layout(3) [OF assms] assms by (simp add: getVirtualScrollHeight_def layout_of_def)

lemma bottom_of_browser:
  assumes "frame_of c = (V, F, Some H, l)" "getVirtualScrollHeight c \<le> H" "V \<le> H"
  shows "getBottomScrollTop c = H - V"
  using assms by (simp add: frame_of_def getBottomScrollTop_def Let_def)

text \<open>
  C26. The browser follows the bottom: when the anchor is the bottom and writes are not suspended, new rows
  or measured heights leave the browser at the bottom of its content, up to the epsilon of the measurements
  and the pixel below which nothing is written, and the anchor is still the bottom, provided that the
  browser's content is at least as tall as the rows.
\<close>

theorem browser_follows_bottom:
  assumes "honest_browser B" "vc_anchor (cd_engine w) = AnchorBottom"
    and "cd_transactionWriteSuspensionDepth w = 0" "content_of a \<noteq> None"
    and "max 0 (vc_measurementEpsilonPx (cd_engine w)) + 1 \<le> vc_pinnedBottomThresholdPx (cd_engine w)"
    and "getVirtualScrollHeight (cd_engine (coordinator_step B a w)) \<le> bs_scrollHeight (br_read B (cd_browser w))"
  shows "let w' = coordinator_step B a w; s = br_read B (cd_browser w') in
    vc_anchor (cd_engine w') = AnchorBottom \<and>
    \<bar>bs_scrollTop s - (bs_scrollHeight s - bs_viewportHeight s)\<bar> \<le> max 0 (vc_measurementEpsilonPx (cd_engine w)) + 1"
proof -
  let ?s0 = "br_read B (cd_browser w)"
  let ?H = "bs_scrollHeight ?s0" and ?V = "bs_viewportHeight ?s0"
  define eps where "eps = max 0 (vc_measurementEpsilonPx (cd_engine w))"
  obtain act where act: "content_of a = Some act" using assms(4) by blast
  define e where "e = mutated B act w"
  obtain cor where step: "coordinator_step B a w = snd (commit controller_engine B no_options ?s0 cor (w\<lparr>cd_engine := e\<rparr>))"
    and goal: "(case cor of Some c \<Rightarrow> sc_nextScrollTop c | None \<Rightarrow> observedScrollTop e) = heading (vc_viewport e)"
    using content_step [OF act] unfolding e_def by metis
  define p where "p = engine.pushed B no_options ?s0 cor (w\<lparr>cd_engine := e\<rparr>)"
  define w' where "w' = coordinator_step B a w"
  have w': "w' = engine.published B no_options p"
    unfolding w'_def step engine.commit_eq p_def using assms(3) by simp
  note h = honestD [OF assms(1)]
  define v where "v = next_scroll_top no_options ?s0 (heading (vc_viewport e))"
  have "(case cor of Some c \<Rightarrow> sc_nextScrollTop c
      | None \<Rightarrow> cs_scrollTop (en_getState controller_engine (cd_engine (w\<lparr>cd_engine := e\<rparr>)))) = heading (vc_viewport e)"
    using goal by (cases cor) simp_all
  then have pv: "p = (if \<bar>v - bs_scrollTop ?s0\<bar> > 1
      then w\<lparr>cd_engine := e, cd_browser := br_writeScrollTop B v BehaviorAuto (cd_browser w)\<rparr> else w\<lparr>cd_engine := e\<rparr>)"
    unfolding p_def engine.pushed_def Let_def using assms(3) by (simp add: v_def) (simp add: no_options_def)
  \<comment> \<open>what the browser shows after the write\<close>
  define s where "s = br_read B (cd_browser p)"
  have p: "cd_engine p = e" "cd_footerHeightOverride p = cd_footerHeightOverride w"
    "br_footerHeight B (cd_browser p) = br_footerHeight B (cd_browser w)"
    "bs_scrollHeight s = ?H" "bs_viewportHeight s = ?V"
    using h(4,5) by (simp_all add: pv s_def)
  note sHV = p(4,5)
  have held: "vc_anchor e = AnchorBottom" "\<bar>heading (vc_viewport e) - getBottomScrollTop e\<bar> \<le> max 0 (vc_measurementEpsilonPx e)"
    using view_held_bottom [OF mutated_bottom [OF assms(2) act]] by (simp_all add: e_def)
  have fr: "frame_of e = (?V, max 0 (or_else (cd_footerHeightOverride w) (br_footerHeight B (cd_browser w))), Some ?H,
      limits_of (cd_engine w))"
    unfolding e_def by (rule mutated_frame [OF act assms(1)])
  then have eps_e: "max 0 (vc_measurementEpsilonPx e) = eps"
    by (simp add: frame_of_def limits_of_def eps_def)
  \<comment> \<open>the engine after the position was published\<close>
  let ?g = "toGeometry controller_engine B p s"
  let ?o = "\<lparr>so_source = Some FromBrowser, so_userScrollIntent = True, so_preserveScrollPosition = False\<rparr>"
  have c3: "cd_engine w' = snd (syncViewport ?g ?o e)"
    unfolding w' by (simp add: engine.published_def engine.sync_engine_frame p(1) s_def no_options_def)
  have "layout_of (sync_resized ?g e) = layout_of e"
    using fr h(2) [of "cd_browser w"] h(3) [of "cd_browser w"] h(1) [of "cd_browser w"]
    by (simp add: sync_resized_def layout_of_def frame_of_def toGeometry_def p sHV)
  then have lay: "layout_of (cd_engine w') = layout_of e" unfolding c3 sync_layout_of .
  have virt: "getVirtualScrollHeight e \<le> ?H"
    using assms(6) layout_heights [OF lay] by (simp add: w'_def)
  have VH: "?V \<le> ?H" using h(1,3) [of "cd_browser w"] by linarith
  have bottom: "getBottomScrollTop e = ?H - ?V" by (rule bottom_of_browser [OF fr virt VH])
  have bottom3: "getBottomScrollTop (cd_engine w') = ?H - ?V" using heights_layout(4) [OF lay] bottom by simp
  \<comment> \<open>the browser is at the bottom\<close>
  have top: "bs_scrollTop s = (if \<bar>v - bs_scrollTop ?s0\<bar> > 1 then min (max 0 v) (?H - ?V) else bs_scrollTop ?s0)"
    using h(4) by (simp add: s_def pv)
  have "\<bar>v - (?H - ?V)\<bar> \<le> eps"
    using held(2) bottom eps_e VH by (auto simp: v_def next_scroll_top_def Let_def no_options_def)
  then have at: "\<bar>bs_scrollTop s - (?H - ?V)\<bar> \<le> eps + 1" "0 \<le> bs_scrollTop s" "bs_scrollTop s \<le> ?H - ?V"
    using top VH h(1,3) [of "cd_browser w"] by (auto simp: eps_def split: if_splits)
  \<comment> \<open>so the report keeps the anchor\<close>
  have um: "user_moved ?g ?o e" by (simp add: user_moved_def user_scroll_def)
  have obs: "observedScrollTop (cd_engine w') = bs_scrollTop s"
    using user_scroll_outcome [OF um] at bottom3
    by (simp add: split_beta Let_def c3 clampScrollTop_def toGeometry_def)
  have "vc_pinnedBottomThresholdPx (cd_engine w') = vc_pinnedBottomThresholdPx (cd_engine w)"
    using sync_limits [of ?g ?o e] fr unfolding c3 by (simp add: frame_of_def limits_of_def)
  then have "getDistanceFromBottom (cd_engine w') (observedScrollTop (cd_engine w')) \<le> vc_pinnedBottomThresholdPx (cd_engine w')"
    using at assms(5) unfolding getDistanceFromBottom_def bottom3 obs by (simp add: eps_def)
  then have "vc_anchor (cd_engine w') = AnchorBottom"
    using user_scroll_outcome [OF um] by (simp add: split_beta Let_def c3)
  moreover have "br_read B (cd_browser w') = s" by (simp add: w' engine.published_frame s_def)
  ultimately show ?thesis using at sHV by (simp add: Let_def eps_def flip: w'_def)
qed

section \<open>Instances\<close>

definition example_browser :: "rat transcript_browser" where
  \<comment> \<open>500 pixels of content behind 100 pixels, the state is the position last written\<close>
  "example_browser =
    \<lparr>br_read = (\<lambda>b. \<lparr>bs_scrollTop = min (max 0 b) 400, bs_scrollHeight = 500, bs_viewportHeight = 100,
       bs_viewportWidth = 720, bs_viewportTop = 0, bs_viewportBottom = 100\<rparr>),
     br_writeScrollTop = (\<lambda>v behavior b. v), br_footerHeight = (\<lambda>b. 0)\<rparr>"

definition example_coordinator :: "nat \<Rightarrow> rat coordinator" where
  "example_coordinator depth = \<lparr>cd_engine = example_controller, cd_browser = 300,
    cd_transactionWriteSuspensionDepth = depth, cd_footerHeightOverride = None\<rparr>"

definition example_append :: coordinator_action where
  "example_append = CoordinatorSetRows (map example_row [''a'', ''b'', ''c'', ''d'', ''e''])"

theorem browser_follows_bottom_witness:
  "let w' = coordinator_step example_browser example_append (example_coordinator 0); s = br_read example_browser (cd_browser w') in
    vc_anchor (cd_engine w') = AnchorBottom \<and>
    \<bar>bs_scrollTop s - (bs_scrollHeight s - bs_viewportHeight s)\<bar> \<le> 3"
proof -
  have "honest_browser example_browser" by (simp add: honest_browser_def example_browser_def)
  moreover have "vc_anchor (cd_engine (example_coordinator 0)) = AnchorBottom"
    "cd_transactionWriteSuspensionDepth (example_coordinator 0) = 0" "content_of example_append \<noteq> None"
    "max 0 (vc_measurementEpsilonPx (cd_engine (example_coordinator 0))) + 1
      \<le> vc_pinnedBottomThresholdPx (cd_engine (example_coordinator 0))"
    "getVirtualScrollHeight (cd_engine (coordinator_step example_browser example_append (example_coordinator 0)))
      \<le> bs_scrollHeight (br_read example_browser (cd_browser (example_coordinator 0)))"
    "max 0 (vc_measurementEpsilonPx (cd_engine (example_coordinator 0))) + 1 = 3"
    by code_simp+
  ultimately show ?thesis
    using browser_follows_bottom [of example_browser "example_coordinator 0" example_append] by (simp add: Let_def)
qed

theorem suspended_keeps_view_witness:
  "let c = cd_engine (fold (coordinator_step example_browser) [example_append, CoordinatorMeasure (example_token ''a'') 250]
      (example_coordinator 1)) in
    vc_anchor c = AnchorBottom \<and> \<bar>heading (vc_viewport c) - anchor_target c\<bar> \<le> max 0 (vc_measurementEpsilonPx c)"
proof -
  let ?w = "example_coordinator 1"
  have "view_held AnchorBottom (cd_engine ?w)" by code_simp
  moreover have "content_keeps example_append ?w"
  proof -
    have "vc_anchor (cd_engine ?w) = AnchorBottom" "cd_transactionWriteSuspensionDepth ?w > 0" by code_simp+
    then show ?thesis by (simp add: content_keeps_def example_append_def anchor_survives_def)
  qed
  moreover have "content_keeps (CoordinatorMeasure (example_token ''a'') 250) (coordinator_step example_browser example_append ?w)"
  proof -
    have "cd_transactionWriteSuspensionDepth (coordinator_step example_browser example_append ?w) > 0" by code_simp
    then show ?thesis by (simp add: content_keeps_def)
  qed
  ultimately have "view_held AnchorBottom (cd_engine ?w)"
    "suspended.run_enabled example_browser [example_append, CoordinatorMeasure (example_token ''a'') 250] ?w"
    by simp_all
  then show ?thesis by (rule suspended_keeps_view)
qed

end
