(* ===== verification/RowCoverage.thy ===== *)
theory RowCoverage
  imports ViewportCoordinator
begin

text \<open>
  The blank part of the viewport as \<open>readRealRowCoverage\<close> of \<open>browserViewport.ts\<close> counts it, from
  which the view decides that its rows have to be recovered.
\<close>

section \<open>Merging\<close>

fun px_chain :: "px_interval list \<Rightarrow> bool" where
  \<comment> \<open>not empty intervals with space between them, in order\<close>
  "px_chain (x # y # rest) \<longleftrightarrow> fst x < snd x \<and> snd x < fst y \<and> px_chain (y # rest)"
| "px_chain [x] \<longleftrightarrow> fst x < snd x"
| "px_chain [] \<longleftrightarrow> True"

definition px_within :: "px_interval \<Rightarrow> px_interval \<Rightarrow> bool" where
  "px_within i j \<longleftrightarrow> fst j \<le> fst i \<and> snd i \<le> snd j"

lemma px_chain_snoc:
  "px_chain (xs @ [y]) \<longleftrightarrow> fst y < snd y \<and> (xs = [] \<or> px_chain xs \<and> snd (last xs) < fst y)"
proof (induction xs)
  case (Cons x xs)
  then show ?case by (cases xs) auto
qed simp

definition px_covers :: "px_interval list \<Rightarrow> js_number \<Rightarrow> bool" where
  \<comment> \<open>the height is in one of the intervals\<close>
  "px_covers xs y \<longleftrightarrow> (\<exists>i \<in> set xs. fst i \<le> y \<and> y \<le> snd i)"

lemma px_covers_append [simp]: "px_covers (xs @ ys) y \<longleftrightarrow> px_covers xs y \<or> px_covers ys y"
  by (auto simp: px_covers_def)

definition merged_ok :: "js_number \<Rightarrow> js_number \<Rightarrow> px_interval list \<Rightarrow> px_interval list \<Rightarrow> bool" where
  "merged_ok lo hi seen merged \<longleftrightarrow> px_chain merged \<and> (seen = [] \<longleftrightarrow> merged = []) \<and>
    (\<forall>i \<in> set seen. \<exists>j \<in> set merged. px_within i j) \<and> (\<forall>j \<in> set merged. lo \<le> fst j \<and> snd j \<le> hi) \<and>
    (merged \<noteq> [] \<longrightarrow> fst (last merged) \<in> fst ` set seen) \<and> (\<forall>y. px_covers merged y \<longrightarrow> px_covers seen y)"

lemma merge_interval_ok:
  assumes "merged_ok lo hi seen merged" "fst i < snd i" "lo \<le> fst i" "snd i \<le> hi" "\<forall>k \<in> set seen. fst k \<le> fst i"
  shows "merged_ok lo hi (seen @ [i]) (merge_interval merged i)"
proof (cases "merged = [] \<or> fst i > snd (last merged)")
  case True
  then have m: "merge_interval merged i = merged @ [i]" by (auto simp: merge_interval_def split_beta)
  show ?thesis using assms True unfolding m merged_ok_def
    by (auto simp: px_chain_snoc px_within_def px_covers_def intro: bexI)
next
  case False
  let ?l = "last merged"
  let ?n = "(fst ?l, max (snd ?l) (snd i))"
  have m: "merge_interval merged i = butlast merged @ [?n]" using False by (auto simp: merge_interval_def split_beta)
  have split: "merged = butlast merged @ [?l]" using False by simp
  have ch: "fst ?l < snd ?l" "butlast merged = [] \<or> px_chain (butlast merged) \<and> snd (last (butlast merged)) < fst ?l"
    using assms(1) px_chain_snoc [of "butlast merged" ?l] split by (auto simp: merged_ok_def)
  have "px_chain (butlast merged @ [?n])" using ch by (auto simp: px_chain_snoc)
  moreover have "\<exists>j \<in> set (butlast merged @ [?n]). px_within k j" if k: "k \<in> set seen" for k
  proof -
    have "\<forall>k \<in> set seen. \<exists>j \<in> set merged. px_within k j" using assms(1) unfolding merged_ok_def by (elim conjE)
    then obtain j where j: "j \<in> set merged" "px_within k j" using k by blast
    have "set merged = insert ?l (set (butlast merged))" by (subst split) simp
    then have "j \<in> set (butlast merged) \<or> j = ?l" using j(1) by auto
    then show ?thesis using j(2) by (auto simp: px_within_def)
  qed
  moreover have "fst ?l \<in> fst ` set seen" using assms(1) False by (simp add: merged_ok_def)
  moreover have "px_within i ?n" using assms(5) \<open>fst ?l \<in> fst ` set seen\<close> by (auto simp: px_within_def)
  moreover have "\<forall>j \<in> set (butlast merged @ [?n]). lo \<le> fst j \<and> snd j \<le> hi"
    using assms(1,4) False by (auto simp: merged_ok_def dest: in_set_butlastD)
  moreover have "px_covers (seen @ [i]) y" if y: "px_covers (butlast merged @ [?n]) y" for y
  proof -
    have old: "px_covers merged y \<Longrightarrow> px_covers seen y" using assms(1) by (simp add: merged_ok_def)
    have "px_covers merged y \<longleftrightarrow> px_covers (butlast merged) y \<or> fst ?l \<le> y \<and> y \<le> snd ?l"
      by (subst split) (auto simp: px_covers_def)
    moreover have "px_covers (butlast merged) y \<or> fst ?l \<le> y \<and> y \<le> max (snd ?l) (snd i)"
      using y by (auto simp: px_covers_def)
    moreover have "fst i \<le> snd ?l" using False by simp
    ultimately show ?thesis using old by (auto simp: px_covers_def)
  qed
  ultimately show ?thesis unfolding m merged_ok_def by (auto simp: image_iff)
qed

lemma merge_all_ok:
  assumes "merged_ok lo hi seen merged" "sorted (map fst (seen @ intervals))"
    "\<forall>i \<in> set intervals. fst i < snd i \<and> lo \<le> fst i \<and> snd i \<le> hi"
  shows "merged_ok lo hi (seen @ intervals) (foldl merge_interval merged intervals)"
  using assms
proof (induction intervals arbitrary: seen merged)
  case (Cons i intervals)
  have "merged_ok lo hi (seen @ [i]) (merge_interval merged i)"
    using Cons.prems by (intro merge_interval_ok) (auto simp: sorted_append)
  from Cons.IH [OF this] Cons.prems show ?case by simp
qed simp

lemma merged_intervals_ok:
  assumes "\<forall>i \<in> set intervals. fst i < snd i \<and> lo \<le> fst i \<and> snd i \<le> hi"
  shows "merged_ok lo hi (sort_key fst intervals) (merged_intervals intervals)"
  using merge_all_ok [of lo hi "[]" "[]" "sort_key fst intervals"] assms
  by (simp add: merged_intervals_def merged_ok_def px_covers_def)

lemma merged_covers:
  assumes "\<forall>i \<in> set intervals. fst i < snd i \<and> lo \<le> fst i \<and> snd i \<le> hi"
  shows "px_covers (merged_intervals intervals) y \<longleftrightarrow> px_covers intervals y"
proof
  note ok = merged_intervals_ok [OF assms, unfolded merged_ok_def]
  show "px_covers intervals y" if "px_covers (merged_intervals intervals) y"
    using ok that by (simp add: px_covers_def)
  assume "px_covers intervals y"
  then obtain i where i: "i \<in> set intervals" "fst i \<le> y" "y \<le> snd i" by (auto simp: px_covers_def)
  then obtain j where "j \<in> set (merged_intervals intervals)" "px_within i j" using ok by auto
  then show "px_covers (merged_intervals intervals) y" using i unfolding px_covers_def px_within_def by (meson order_trans)
qed

section \<open>Counting\<close>

definition px_length :: "px_interval list \<Rightarrow> js_number" where
  "px_length xs = sum_list (map (\<lambda>i. snd i - fst i) xs)"

lemma row_gaps_nonneg: "0 \<le> row_gaps xs"
  by (induction xs rule: row_gaps.induct) auto

lemma row_gaps_bound:
  "px_chain xs \<Longrightarrow> xs \<noteq> [] \<Longrightarrow> row_gaps xs + px_length xs \<le> snd (last xs) - fst (hd xs)"
proof (induction xs rule: px_chain.induct)
  case (1 x y rest)
  have "max 0 (fst y - snd x - MAX_INTENTIONAL_ROW_GAP_PX) \<le> fst y - snd x"
    using "1.prems" by (simp add: MAX_INTENTIONAL_ROW_GAP_PX_def)
  moreover have "row_gaps (y # rest) + px_length (y # rest) \<le> snd (last (y # rest)) - fst y" using 1 by simp
  moreover have "px_length (x # y # rest) = snd x - fst x + px_length (y # rest)" by (simp add: px_length_def)
  moreover have "row_gaps (x # y # rest) = max 0 (fst y - snd x - MAX_INTENTIONAL_ROW_GAP_PX) + row_gaps (y # rest)"
    by simp
  ultimately have "row_gaps (x # y # rest) + px_length (x # y # rest) \<le> snd (last (y # rest)) - fst x" by linarith
  then show ?case by simp
qed (simp_all add: px_length_def)

lemma px_length_nonneg: "px_chain xs \<Longrightarrow> 0 \<le> px_length xs"
  by (induction xs rule: px_chain.induct) (auto simp: px_length_def)

lemma px_length_member: "px_chain xs \<Longrightarrow> i \<in> set xs \<Longrightarrow> snd i - fst i \<le> px_length xs"
proof (induction xs rule: px_chain.induct)
  case (1 x y rest)
  have "0 \<le> px_length (y # rest)" using 1(2) by (simp add: px_length_nonneg)
  moreover have "px_length (x # y # rest) = snd x - fst x + px_length (y # rest)" by (simp add: px_length_def)
  moreover have "snd i - fst i \<le> px_length (y # rest)" if "i \<in> set (y # rest)" using 1 that by simp
  moreover have "fst x < snd x" using 1(2) by simp
  ultimately show ?case using 1(3) by fastforce
qed (simp_all add: px_length_def)

lemma row_intervals_inside:
  "i \<in> set (row_intervals v rects) \<Longrightarrow> fst i < snd i \<and> bs_viewportTop v \<le> fst i \<and> snd i \<le> bs_viewportBottom v"
  by (auto simp: row_intervals_def)

definition in_sight :: "browser_snapshot \<Rightarrow> px_interval list \<Rightarrow> js_number \<Rightarrow> bool" where
  \<comment> \<open>at this height of the viewport there is a row, one that is visible and not only touches the edge\<close>
  "in_sight v rects y \<longleftrightarrow>
    (\<exists>(row_top, row_bottom) \<in> set rects. max (bs_viewportTop v) row_top < min (bs_viewportBottom v) row_bottom \<and>
       max (bs_viewportTop v) row_top \<le> y \<and> y \<le> min (bs_viewportBottom v) row_bottom)"

lemma covers_in_sight: "px_covers (row_intervals v rects) y \<longleftrightarrow> in_sight v rects y"
  by (auto simp: px_covers_def row_intervals_def in_sight_def split_beta)

definition beyond :: "js_number \<Rightarrow> js_number \<Rightarrow> js_number" where
  \<comment> \<open>what a gap has more than is allowed\<close>
  "beyond allowed gap = max 0 (gap - allowed)"

definition gaps_between :: "px_interval list \<Rightarrow> js_number list" where
  "gaps_between xs = map (\<lambda>(i, j). fst j - snd i) (zip xs (tl xs))"

lemma row_gaps_between: "row_gaps xs = sum_list (map (beyond 24) (gaps_between xs))"
  by (induction xs rule: row_gaps.induct)
    (simp_all add: gaps_between_def beyond_def MAX_INTENTIONAL_ROW_GAP_PX_def)

lemma blank_stretches:
  assumes "m = merged_intervals (row_intervals v rects)"
  shows "px_chain m" "px_covers m y \<longleftrightarrow> in_sight v rects y"
    "\<forall>j \<in> set m. bs_viewportTop v \<le> fst j \<and> snd j \<le> bs_viewportBottom v"
    "blankViewportPixels v rects = (if m = [] then bs_viewportHeight v
      else beyond 96 (fst (hd m) - bs_viewportTop v) + sum_list (map (beyond 24) (gaps_between m)) +
        beyond 96 (bs_viewportBottom v - snd (last m)))"
proof -
  have i: "\<forall>i \<in> set (row_intervals v rects). fst i < snd i \<and> bs_viewportTop v \<le> fst i \<and> snd i \<le> bs_viewportBottom v"
    by (auto dest: row_intervals_inside)
  from merged_intervals_ok [OF this] show "px_chain m"
    "\<forall>j \<in> set m. bs_viewportTop v \<le> fst j \<and> snd j \<le> bs_viewportBottom v"
    by (simp_all add: assms merged_ok_def)
  show "px_covers m y \<longleftrightarrow> in_sight v rects y"
    unfolding assms merged_covers [OF i] covers_in_sight ..
  show "blankViewportPixels v rects = (if m = [] then bs_viewportHeight v
      else beyond 96 (fst (hd m) - bs_viewportTop v) + sum_list (map (beyond 24) (gaps_between m)) +
        beyond 96 (bs_viewportBottom v - snd (last m)))"
    by (simp add: blankViewportPixels_def Let_def row_gaps_between beyond_def MAX_INTENTIONAL_EDGE_GAP_PX_def flip: assms)
qed

lemma blank_at_most:
  assumes "bs_viewportBottom v = bs_viewportTop v + bs_viewportHeight v" "m = merged_intervals (row_intervals v rects)"
  shows "blankViewportPixels v rects \<le> bs_viewportHeight v - px_length m"
proof (cases "m = []")
  case False
  note s = blank_stretches [OF assms(2)]
  have "beyond 96 (fst (hd m) - bs_viewportTop v) \<le> fst (hd m) - bs_viewportTop v"
    "beyond 96 (bs_viewportBottom v - snd (last m)) \<le> bs_viewportBottom v - snd (last m)"
    using s(3) False by (simp_all add: beyond_def)
  moreover have "row_gaps m + px_length m \<le> snd (last m) - fst (hd m)" by (rule row_gaps_bound [OF s(1) False])
  ultimately show ?thesis
    using False assms(1) unfolding s(4) row_gaps_between by simp
qed (simp add: blank_stretches(4) [OF assms(2)] px_length_def)

text \<open>
  C29. The blank pixels counted for a viewport, from which the view decides to recover its rows, are
  exactly these, whatever overlaps the rows have and in whatever order they come. There is one list of
  separate stretches, from the top down, that together are the heights of the viewport at which there is a
  row in sight. Without a stretch the whole viewport is blank; otherwise the count is what the gap above
  the first stretch and the gap below the last have more than 96 pixels and the gaps between have more
  than 24. So it is never negative and never more than the height less the stretches: rows that
  together fill the viewport leave nothing blank.
\<close>

theorem blank_bounds:
  assumes "bs_viewportBottom v = bs_viewportTop v + bs_viewportHeight v" "0 \<le> bs_viewportHeight v"
  shows "\<exists>stretches. px_chain stretches \<and> (\<forall>y. px_covers stretches y \<longleftrightarrow> in_sight v rects y) \<and>
    rc_blankViewportPixels (readRealRowCoverage v rects) =
      (if stretches = [] then bs_viewportHeight v
       else beyond 96 (fst (hd stretches) - bs_viewportTop v) + sum_list (map (beyond 24) (gaps_between stretches)) +
         beyond 96 (bs_viewportBottom v - snd (last stretches))) \<and>
    0 \<le> rc_blankViewportPixels (readRealRowCoverage v rects) \<and>
    rc_blankViewportPixels (readRealRowCoverage v rects) \<le>
      bs_viewportHeight v - sum_list (map (\<lambda>i. snd i - fst i) stretches)"
proof (intro exI conjI allI)
  let ?m = "merged_intervals (row_intervals v rects)"
  note s = blank_stretches [of ?m v rects, OF refl]
  have e: "rc_blankViewportPixels (readRealRowCoverage v rects) = blankViewportPixels v rects"
    by (simp add: readRealRowCoverage_def)
  show "px_chain ?m" and "px_covers ?m y \<longleftrightarrow> in_sight v rects y" for y by (rule s)+
  show "rc_blankViewportPixels (readRealRowCoverage v rects) = (if ?m = [] then bs_viewportHeight v
      else beyond 96 (fst (hd ?m) - bs_viewportTop v) + sum_list (map (beyond 24) (gaps_between ?m)) +
        beyond 96 (bs_viewportBottom v - snd (last ?m)))" unfolding e by (rule s)
  show "0 \<le> rc_blankViewportPixels (readRealRowCoverage v rects)"
    unfolding e s(4) using assms(2) by (auto simp: beyond_def intro!: add_nonneg_nonneg sum_list_nonneg)
  show "rc_blankViewportPixels (readRealRowCoverage v rects) \<le>
      bs_viewportHeight v - sum_list (map (\<lambda>i. snd i - fst i) ?m)"
    using blank_at_most [OF assms(1) refl, of rects] by (simp add: e px_length_def)
qed

definition example_snapshot :: browser_snapshot where
  "example_snapshot = \<lparr>bs_scrollTop = 40, bs_scrollHeight = 500, bs_viewportHeight = 100, bs_viewportWidth = 720,
    bs_viewportTop = 0, bs_viewportBottom = 100\<rparr>"

theorem blank_bounds_witness:
  "(\<exists>stretches. px_chain stretches \<and>
      (\<forall>y. px_covers stretches y \<longleftrightarrow> in_sight example_snapshot [(50, 130), (-20, 50)] y) \<and>
      rc_blankViewportPixels (readRealRowCoverage example_snapshot [(50, 130), (-20, 50)]) \<le>
        100 - sum_list (map (\<lambda>i. snd i - fst i) stretches)) \<and>
    rc_blankViewportPixels (readRealRowCoverage example_snapshot [(50, 130), (-20, 50)]) = 0"
proof -
  have e: "bs_viewportBottom example_snapshot = bs_viewportTop example_snapshot + bs_viewportHeight example_snapshot"
    "0 \<le> bs_viewportHeight example_snapshot" "bs_viewportHeight example_snapshot = 100"
    by (simp_all add: example_snapshot_def)
  moreover have "rc_blankViewportPixels (readRealRowCoverage example_snapshot [(50, 130), (-20, 50)]) = 0"
    by code_simp
  ultimately show ?thesis using blank_bounds [OF e(1,2), of "[(50, 130), (-20, 50)]"] by auto
qed

end
