(* ===== verification/RowState.thy ===== *)
theory RowState
  imports VirtualController JsStrings "HOL-Library.List_Lexorder" "HOL-Library.Char_ord"
begin

text \<open>
  The state of transcript rows that survives their unmounting, and the decision which rows stay mounted
  outside the viewport
  (\<open>src/src/features/chat/transcript/row-state/transcriptRowStateRegistry.ts\<close>). A \<open>Map\<close> is an
  association list in insertion order, a \<open>Set\<close> a list without repetition. The clock is the argument
  \<open>now\<close> (what \<open>getNowMs\<close> returns), an optional argument left out is \<open>None\<close>. A listener is
  a number, and calling it is recorded. \<open>localeCompare\<close>, the collation of the user's language, is an
  argument.
\<close>

section \<open>Row state\<close>

datatype keep_alive_priority =
  KeepNone | KeepFocused | KeepSelection | KeepOpenUi | KeepActiveMcp | KeepActiveStream | KeepRecent

record kept_row = row_descriptor +
  kr_keepAlivePriority :: keep_alive_priority

datatype protection_reason =
  ReasonFocused | ReasonSelection | ReasonOpenOverlay | ReasonActiveMcp | ReasonActiveStream | ReasonRecent

datatype overlay_kind = OverlayMenu | OverlayDialog | OverlayPopover | OverlayLightbox | OverlayContextMenu | OverlayOther

datatype mcp_activity = HostRequest | NestedToolRequest | RecentMessage | RecentResize

record keep_alive_policy =
  kp_activeStreamRowsPerSessionCap :: nat
  kp_mcpRowsPerSessionCap :: nat
  kp_recentRowsPerSessionCap :: nat
  kp_recentTtlMs :: js_number
  kp_protectedRowsWarnThreshold :: nat
  kp_protectedRowsFailThreshold :: nat

definition DEFAULT_TRANSCRIPT_KEEP_ALIVE_POLICY :: keep_alive_policy where
  "DEFAULT_TRANSCRIPT_KEEP_ALIVE_POLICY =
    \<lparr>kp_activeStreamRowsPerSessionCap = 40, kp_mcpRowsPerSessionCap = 8, kp_recentRowsPerSessionCap = 20,
     kp_recentTtlMs = 60000, kp_protectedRowsWarnThreshold = 40, kp_protectedRowsFailThreshold = 80\<rparr>"

fun priority_weight :: "keep_alive_priority \<Rightarrow> nat" where
  "priority_weight KeepNone = 0"
| "priority_weight KeepRecent = 10"
| "priority_weight KeepActiveMcp = 30"
| "priority_weight KeepActiveStream = 40"
| "priority_weight KeepOpenUi = 70"
| "priority_weight KeepSelection = 80"
| "priority_weight KeepFocused = 90"

record tool_chain_row_state =
  tr_chainExpanded :: "bool option"
  tr_showInternalSteps :: "bool option"
  tr_userInteracted :: "bool option"
  tr_expandedToolKeys :: "string list option"

record reasoning_row_state =
  rr_open :: "bool option"
  rr_userControlled :: "bool option"
  rr_autoCloseCompletedAtMs :: "js_number option"
  rr_durationMs :: "js_number option"

datatype mcp_lifecycle = McpVisible | McpFocused | McpActiveHostRequest | McpRecentlyResized
  | McpRecentlyMessaged | McpSuspended | McpDestroyed

record mcp_row_state =
  mr_lifecycle :: "mcp_lifecycle option"
  mr_inlineHeightPx :: "js_number option"
  mr_activeHostRequestIds :: "string list option"
  mr_activeNestedToolRequestIds :: "string list option"
  mr_lastMessageAtMs :: "js_number option"
  mr_lastResizeAtMs :: "js_number option"

record overlay_row_state =
  ov_openOverlayIds :: "string list option"
  ov_openMenuIds :: "string list option"
  ov_openDialogIds :: "string list option"
  ov_openPopoverIds :: "string list option"
  ov_openLightboxIds :: "string list option"

record durable_row_state =
  du_toolChain :: "tool_chain_row_state option"
  du_toolChains :: "tool_chain_row_state jsobj option"
  du_reasoning :: "reasoning_row_state option"
  du_reasoningBlocks :: "reasoning_row_state jsobj option"
  du_mcpApp :: "mcp_row_state option"
  du_pathNoticeText :: "string option"
  du_artifactOpenError :: "string option"
  du_moreOutputsOpen :: "bool option"
  du_userMessageExpanded :: "bool option"
  du_userMessageExpandedBlocks :: "bool jsobj option"
  du_copyConfirmedUntilMs :: "js_number option"
  du_embeddedScrollTopByKey :: "js_number jsobj option"
  du_activeFocusTargetId :: "string option"
  du_selectionProtected :: "bool option"
  du_overlays :: "overlay_row_state option"
  du_custom :: "json jsobj option"

definition empty_row_state :: durable_row_state where
  "empty_row_state =
    \<lparr>du_toolChain = None, du_toolChains = None, du_reasoning = None, du_reasoningBlocks = None, du_mcpApp = None,
     du_pathNoticeText = None, du_artifactOpenError = None, du_moreOutputsOpen = None,
     du_userMessageExpanded = None, du_userMessageExpandedBlocks = None, du_copyConfirmedUntilMs = None,
     du_embeddedScrollTopByKey = None, du_activeFocusTargetId = None, du_selectionProtected = None,
     du_overlays = None, du_custom = None\<rparr>"

section \<open>Registry\<close>

record protection_signal =
  pg_reason :: protection_reason
  pg_sourceId :: string
  pg_activatedAtMs :: js_number
  pg_updatedAtMs :: js_number
  pg_expiresAtMs :: "js_number option"

record row_record =
  rw_rowId :: string
  rw_state :: durable_row_state
  rw_createdAtMs :: js_number
  rw_updatedAtMs :: js_number
  rw_lastAccessedAtMs :: js_number
  rw_protectionSignals :: "protection_signal jsobj"

record session_record =
  sn_sessionId :: string
  sn_sessionEpoch :: session_epoch
  sn_rows :: "row_record jsobj"

record keep_candidate =
  kc_rowId :: string
  kc_priorities :: "keep_alive_priority list"
  kc_reasons :: "protection_reason list"
  kc_activatedAtMs :: js_number
  kc_updatedAtMs :: js_number
  kc_expiresAtMs :: "js_number option"

record candidate_selection =
  se_forced :: "keep_candidate list"
  se_mcp :: "keep_candidate list"
  se_recent :: "keep_candidate list"
  se_evictedActiveStream :: "keep_candidate list"
  se_evictedMcp :: "keep_candidate list"
  se_evictedRecent :: "keep_candidate list"

record protected_row_diagnostic =
  pd_rowId :: string
  pd_priorities :: "keep_alive_priority list"
  pd_reasons :: "protection_reason list"
  pd_isVisible :: bool
  pd_protected :: bool
  pd_evicted :: bool
  pd_expiresAtMs :: "js_number option"

record keep_alive_diagnostics =
  kd_sessionId :: string
  kd_sessionEpoch :: session_epoch
  kd_rowStateCount :: nat
  kd_protectedRowCount :: nat
  kd_protectedOffscreenRowCount :: nat
  kd_forcedProtectedRowCount :: nat
  kd_mcpProtectedRowCount :: nat
  kd_recentProtectedRowCount :: nat
  kd_mcpCandidateCount :: nat
  kd_recentCandidateCount :: nat
  kd_evictedMcpRowCount :: nat
  kd_evictedRecentRowCount :: nat
  kd_expiredSignalCount :: nat
  kd_warnThresholdExceeded :: bool
  kd_failThresholdExceeded :: bool
  kd_failThresholdJustifiedByActiveInteraction :: bool
  kd_policy :: keep_alive_policy
  kd_rows :: "protected_row_diagnostic list"

record keep_alive_decision =
  ka_protectedRowIds :: "string list"
  ka_protectedOffscreenRowIds :: "string list"
  ka_evictedRowIds :: "string list"
  ka_diagnostics :: keep_alive_diagnostics

record row_registry =
  rg_sessions :: "session_record jsobj"
  rg_lastDiagnosticsBySession :: "keep_alive_diagnostics jsobj"
  rg_policy :: keep_alive_policy
  rg_stateChangeListeners :: "nat list"
  rg_notified :: "nat list"

definition createTranscriptRowStateRegistry :: "(keep_alive_policy \<Rightarrow> keep_alive_policy) \<Rightarrow> row_registry" where
  \<comment> \<open>\<open>{...DEFAULT, ...policy}\<close>: the argument overwrites some fields\<close>
  "createTranscriptRowStateRegistry policy =
    \<lparr>rg_sessions = [], rg_lastDiagnosticsBySession = [], rg_policy = policy DEFAULT_TRANSCRIPT_KEEP_ALIVE_POLICY,
     rg_stateChangeListeners = [], rg_notified = []\<rparr>"

definition DEFAULT_SOURCE_ID :: string where
  "DEFAULT_SOURCE_ID = ''default''"

section \<open>Sessions and records\<close>

definition put_session_record :: "string \<Rightarrow> session_record \<Rightarrow> row_registry \<Rightarrow> row_registry" where
  "put_session_record sid s g = g\<lparr>rg_sessions := obj_set sid s (rg_sessions g)\<rparr>"

definition getOrCreateSession ::
    "string \<Rightarrow> session_epoch option \<Rightarrow> row_registry \<Rightarrow> session_record \<times> row_registry" where
  "getOrCreateSession sessionId sessionEpoch g =
    (case obj_get (rg_sessions g) sessionId of
       Some existing \<Rightarrow> (existing, g)
     | None \<Rightarrow>
         let s = \<lparr>sn_sessionId = sessionId, sn_sessionEpoch = or_else sessionEpoch 0, sn_rows = []\<rparr> in
         (s, put_session_record sessionId s g))"

definition getReadableSession :: "string \<Rightarrow> session_epoch option \<Rightarrow> row_registry \<Rightarrow> session_record option" where
  "getReadableSession sessionId sessionEpoch g =
    (case obj_get (rg_sessions g) sessionId of
       None \<Rightarrow> None
     | Some s \<Rightarrow> (case sessionEpoch of
           None \<Rightarrow> Some s
         | Some e \<Rightarrow> if e < sn_sessionEpoch s then None else Some s))"

definition getWritableSession ::
    "string \<Rightarrow> session_epoch option \<Rightarrow> row_registry \<Rightarrow> session_record option \<times> row_registry" where
  "getWritableSession sessionId sessionEpoch g =
    (let (s, g) = getOrCreateSession sessionId sessionEpoch g in
     case sessionEpoch of
       None \<Rightarrow> (Some s, g)
     | Some e \<Rightarrow>
         if e < sn_sessionEpoch s then (None, g)
         else if e > sn_sessionEpoch s
         then let s = s\<lparr>sn_sessionEpoch := e\<rparr> in (Some s, put_session_record sessionId s g)
         else (Some s, g))"

record row_lookup =
  lk_sessionId :: string
  lk_rowId :: string
  lk_sessionEpoch :: "session_epoch option"

definition put_record :: "string \<Rightarrow> row_record \<Rightarrow> row_registry \<Rightarrow> row_registry" where
  \<comment> \<open>the record of a session was changed in place\<close>
  "put_record sid r g = (case obj_get (rg_sessions g) sid of
      None \<Rightarrow> g
    | Some s \<Rightarrow> put_session_record sid (s\<lparr>sn_rows := obj_set (rw_rowId r) r (sn_rows s)\<rparr>) g)"

definition getOrCreateRowRecord :: "row_lookup \<Rightarrow> js_number \<Rightarrow> row_registry \<Rightarrow> row_record option \<times> row_registry" where
  "getOrCreateRowRecord input now g =
    (case getWritableSession (lk_sessionId input) (lk_sessionEpoch input) g of
       (None, g) \<Rightarrow> (None, g)
     | (Some s, g) \<Rightarrow>
         (case obj_get (sn_rows s) (lk_rowId input) of
            Some existing \<Rightarrow> (Some existing, g)
          | None \<Rightarrow>
              let r = \<lparr>rw_rowId = lk_rowId input, rw_state = empty_row_state, rw_createdAtMs = now,
                rw_updatedAtMs = now, rw_lastAccessedAtMs = now, rw_protectionSignals = []\<rparr> in
              (Some r, put_record (lk_sessionId input) r g)))"

definition with_record ::
    "row_lookup \<Rightarrow> js_number \<Rightarrow> (row_record \<Rightarrow> row_record) \<Rightarrow> row_registry \<Rightarrow> row_record option \<times> row_registry" where
  \<comment> \<open>an operation on a record that is found or made; without one it ends\<close>
  "with_record input now change g =
    (case getOrCreateRowRecord input now g of
       (None, g) \<Rightarrow> (None, g)
     | (Some r, g) \<Rightarrow> (Some (change r), put_record (lk_sessionId input) (change r) g))"

section \<open>Signals\<close>

fun reason_name :: "protection_reason \<Rightarrow> string" where
  "reason_name ReasonFocused = ''focused''"
| "reason_name ReasonSelection = ''selection''"
| "reason_name ReasonOpenOverlay = ''open-overlay''"
| "reason_name ReasonActiveMcp = ''active-mcp''"
| "reason_name ReasonActiveStream = ''active-stream''"
| "reason_name ReasonRecent = ''recent''"

definition getSignalKey :: "protection_reason \<Rightarrow> string \<Rightarrow> string" where
  "getSignalKey reason sourceId = reason_name reason @ '':'' @ sourceId"

definition signal :: "protection_reason \<Rightarrow> string \<Rightarrow> js_number \<Rightarrow> js_number option \<Rightarrow> protection_signal" where
  "signal reason sourceId now expires = \<lparr>pg_reason = reason, pg_sourceId = sourceId, pg_activatedAtMs = now,
    pg_updatedAtMs = now, pg_expiresAtMs = expires\<rparr>"

definition setProtectionSignal :: "protection_signal \<Rightarrow> row_record \<Rightarrow> row_record" where
  "setProtectionSignal sig r =
    (let key = getSignalKey (pg_reason sig) (pg_sourceId sig);
         existing = obj_get (rw_protectionSignals r) key in
     r\<lparr>rw_protectionSignals := obj_set key
       (sig\<lparr>pg_activatedAtMs := or_else (map_option pg_activatedAtMs existing) (pg_activatedAtMs sig)\<rparr>)
       (rw_protectionSignals r)\<rparr>)"

definition clearProtectionSignal :: "protection_reason \<Rightarrow> string \<Rightarrow> row_record \<Rightarrow> row_record" where
  "clearProtectionSignal reason sourceId r =
    r\<lparr>rw_protectionSignals := obj_del (getSignalKey reason sourceId) (rw_protectionSignals r)\<rparr>"

definition expired :: "js_number \<Rightarrow> protection_signal \<Rightarrow> bool" where
  "expired now sig = (case pg_expiresAtMs sig of None \<Rightarrow> False | Some t \<Rightarrow> t \<le> now)"

definition prune_record :: "js_number \<Rightarrow> row_record \<Rightarrow> row_record" where
  "prune_record now r = r\<lparr>rw_protectionSignals := filter (\<lambda>(k, sig). \<not> expired now sig) (rw_protectionSignals r)\<rparr>"

definition pruneExpiredSignals :: "js_number \<Rightarrow> session_record \<Rightarrow> nat \<times> session_record" where
  "pruneExpiredSignals now s =
    (sum_list (map (\<lambda>(k, r). length (filter (\<lambda>(k, sig). expired now sig) (rw_protectionSignals r))) (sn_rows s)),
     s\<lparr>sn_rows := map (\<lambda>(k, r). (k, prune_record now r)) (sn_rows s)\<rparr>)"

definition countProtectionSignals :: "session_record \<Rightarrow> nat" where
  "countProtectionSignals s = sum_list (map (\<lambda>(k, r). length (rw_protectionSignals r)) (sn_rows s))"

section \<open>State of a row\<close>

definition setSessionEpoch :: "string \<Rightarrow> session_epoch \<Rightarrow> row_registry \<Rightarrow> row_registry" where
  "setSessionEpoch sessionId sessionEpoch g =
    (let (s, g) = getOrCreateSession sessionId (Some sessionEpoch) g in
     put_session_record sessionId (s\<lparr>sn_sessionEpoch := sessionEpoch\<rparr>) g)"

definition getOrCreateRowState ::
    "row_lookup \<Rightarrow> js_number \<Rightarrow> row_registry \<Rightarrow> durable_row_state option \<times> row_registry" where
  "getOrCreateRowState input now g =
    (let (r, g) = with_record input now (\<lambda>r. r\<lparr>rw_lastAccessedAtMs := now\<rparr>) g in (map_option rw_state r, g))"

definition getRowState ::
    "row_lookup \<Rightarrow> js_number \<Rightarrow> row_registry \<Rightarrow> durable_row_state option \<times> row_registry" where
  "getRowState input now g =
    (case getReadableSession (lk_sessionId input) (lk_sessionEpoch input) g of
       None \<Rightarrow> (None, g)
     | Some s \<Rightarrow>
         (case obj_get (sn_rows s) (lk_rowId input) of
            None \<Rightarrow> (None, g)
          | Some r \<Rightarrow> (Some (rw_state r), put_record (lk_sessionId input) (r\<lparr>rw_lastAccessedAtMs := now\<rparr>) g)))"

definition notifyStateChange :: "row_registry \<Rightarrow> row_registry" where
  "notifyStateChange g = g\<lparr>rg_notified := rg_notified g @ rg_stateChangeListeners g\<rparr>"

definition updateRowState ::
    "row_lookup \<Rightarrow> (durable_row_state \<Rightarrow> durable_row_state) \<Rightarrow> bool option \<Rightarrow> js_number \<Rightarrow> row_registry \<Rightarrow>
     durable_row_state option \<times> row_registry" where
  "updateRowState input updater markRecent now g =
    (let (r, g) = with_record input now (\<lambda>r.
           let r = r\<lparr>rw_state := updater (rw_state r), rw_updatedAtMs := now, rw_lastAccessedAtMs := now\<rparr> in
           if or_else markRecent True
           then setProtectionSignal
             (signal ReasonRecent ''row-state-update'' now (Some (now + kp_recentTtlMs (rg_policy g)))) r
           else r) g in
     case r of None \<Rightarrow> (None, g) | Some r \<Rightarrow> (Some (rw_state r), notifyStateChange g))"

definition subscribeToStateChanges :: "nat \<Rightarrow> row_registry \<Rightarrow> row_registry" where
  "subscribeToStateChanges callback g = g\<lparr>rg_stateChangeListeners :=
    (if callback \<in> set (rg_stateChangeListeners g) then rg_stateChangeListeners g
     else rg_stateChangeListeners g @ [callback])\<rparr>"

definition unsubscribeFromStateChanges :: "nat \<Rightarrow> row_registry \<Rightarrow> row_registry" where
  "unsubscribeFromStateChanges callback g =
    g\<lparr>rg_stateChangeListeners := filter (\<lambda>c. c \<noteq> callback) (rg_stateChangeListeners g)\<rparr>"

record row_state_patch =
  \<comment> \<open>the keys that a \<open>Partial<TranscriptDurableRowState>\<close> has\<close>
  pa_toolChain :: "tool_chain_row_state option option"
  pa_toolChains :: "tool_chain_row_state jsobj option option"
  pa_reasoning :: "reasoning_row_state option option"
  pa_reasoningBlocks :: "reasoning_row_state jsobj option option"
  pa_mcpApp :: "mcp_row_state option option"
  pa_pathNoticeText :: "string option option"
  pa_artifactOpenError :: "string option option"
  pa_moreOutputsOpen :: "bool option option"
  pa_userMessageExpanded :: "bool option option"
  pa_userMessageExpandedBlocks :: "bool jsobj option option"
  pa_copyConfirmedUntilMs :: "js_number option option"
  pa_embeddedScrollTopByKey :: "js_number jsobj option option"
  pa_activeFocusTargetId :: "string option option"
  pa_selectionProtected :: "bool option option"
  pa_overlays :: "overlay_row_state option option"
  pa_custom :: "json jsobj option option"

definition patched :: "row_state_patch \<Rightarrow> durable_row_state \<Rightarrow> durable_row_state" where
  "patched p d =
    \<lparr>du_toolChain = or_else (pa_toolChain p) (du_toolChain d),
     du_toolChains = or_else (pa_toolChains p) (du_toolChains d),
     du_reasoning = or_else (pa_reasoning p) (du_reasoning d),
     du_reasoningBlocks = or_else (pa_reasoningBlocks p) (du_reasoningBlocks d),
     du_mcpApp = or_else (pa_mcpApp p) (du_mcpApp d),
     du_pathNoticeText = or_else (pa_pathNoticeText p) (du_pathNoticeText d),
     du_artifactOpenError = or_else (pa_artifactOpenError p) (du_artifactOpenError d),
     du_moreOutputsOpen = or_else (pa_moreOutputsOpen p) (du_moreOutputsOpen d),
     du_userMessageExpanded = or_else (pa_userMessageExpanded p) (du_userMessageExpanded d),
     du_userMessageExpandedBlocks = or_else (pa_userMessageExpandedBlocks p) (du_userMessageExpandedBlocks d),
     du_copyConfirmedUntilMs = or_else (pa_copyConfirmedUntilMs p) (du_copyConfirmedUntilMs d),
     du_embeddedScrollTopByKey = or_else (pa_embeddedScrollTopByKey p) (du_embeddedScrollTopByKey d),
     du_activeFocusTargetId = or_else (pa_activeFocusTargetId p) (du_activeFocusTargetId d),
     du_selectionProtected = or_else (pa_selectionProtected p) (du_selectionProtected d),
     du_overlays = or_else (pa_overlays p) (du_overlays d),
     du_custom = or_else (pa_custom p) (du_custom d)\<rparr>"

definition patchRowState ::
    "row_lookup \<Rightarrow> row_state_patch \<Rightarrow> bool option \<Rightarrow> js_number \<Rightarrow> row_registry \<Rightarrow>
     durable_row_state option \<times> row_registry" where
  "patchRowState input patch markRecent now g = updateRowState input (patched patch) markRecent now g"

section \<open>Protection\<close>

definition setFocusedRow ::
    "row_lookup \<Rightarrow> bool \<Rightarrow> string option \<Rightarrow> string option \<Rightarrow> js_number \<Rightarrow> row_registry \<Rightarrow> bool \<times> row_registry" where
  "setFocusedRow input focused source focusTargetId now g =
    (let sourceId = or_else source DEFAULT_SOURCE_ID;
         (r, g) = with_record input now (\<lambda>r.
           let r = (if focused
                then let r = setProtectionSignal (signal ReasonFocused sourceId now None) r in
                  r\<lparr>rw_state := (rw_state r)\<lparr>du_activeFocusTargetId := focusTargetId\<rparr>\<rparr>
                else let r = clearProtectionSignal ReasonFocused sourceId r in
                  if focusTargetId = None \<or> du_activeFocusTargetId (rw_state r) = focusTargetId
                  then r\<lparr>rw_state := (rw_state r)\<lparr>du_activeFocusTargetId := None\<rparr>\<rparr> else r) in
           r\<lparr>rw_updatedAtMs := now\<rparr>) g in
     (r \<noteq> None, g))"

definition context_menu_key :: string where
  "context_menu_key = ''selectedTextContextMenuOpen''"

definition omitCustomKey :: "json jsobj option \<Rightarrow> string \<Rightarrow> json jsobj option" where
  "omitCustomKey custom key = (case custom of
      None \<Rightarrow> None
    | Some m \<Rightarrow>
        if obj_get m key = None then Some m
        else let next' = obj_del key m in if next' = [] then None else Some next')"

definition select_record :: "bool \<Rightarrow> string \<Rightarrow> bool \<Rightarrow> js_number \<Rightarrow> row_record \<Rightarrow> row_record" where
  "select_record active sourceId contextMenuOpen now r =
    (let r = (if active
         then let r = setProtectionSignal (signal ReasonSelection sourceId now None) r; d = rw_state r in
           r\<lparr>rw_state := d\<lparr>du_selectionProtected := Some True, du_custom :=
             (if contextMenuOpen then Some (obj_set context_menu_key (JBool True) (or_else (du_custom d) []))
              else du_custom d)\<rparr>\<rparr>
         else let r = clearProtectionSignal ReasonSelection sourceId r; d = rw_state r in
           r\<lparr>rw_state := d\<lparr>du_selectionProtected := Some False, du_custom :=
             (if contextMenuOpen then du_custom d else omitCustomKey (du_custom d) context_menu_key)\<rparr>\<rparr>) in
     r\<lparr>rw_updatedAtMs := now\<rparr>)"

fun select_rows ::
    "string \<Rightarrow> session_epoch option \<Rightarrow> (row_record \<Rightarrow> row_record) \<Rightarrow> js_number \<Rightarrow> string list \<Rightarrow> row_registry \<Rightarrow> row_registry" where
  "select_rows sessionId sessionEpoch change now [] g = g"
| "select_rows sessionId sessionEpoch change now (rowId # rowIds) g =
    select_rows sessionId sessionEpoch change now rowIds
      (snd (with_record \<lparr>lk_sessionId = sessionId, lk_rowId = rowId, lk_sessionEpoch = sessionEpoch\<rparr> now change g))"

definition setSelectionProtection ::
    "string \<Rightarrow> string list \<Rightarrow> bool \<Rightarrow> session_epoch option \<Rightarrow> string option \<Rightarrow> bool \<Rightarrow> js_number \<Rightarrow> row_registry \<Rightarrow>
     bool \<times> row_registry" where
  "setSelectionProtection sessionId rowIds active sessionEpoch source contextMenuOpen now g =
    (case getWritableSession sessionId sessionEpoch g of
       (None, g) \<Rightarrow> (False, g)
     | (Some _, g) \<Rightarrow>
         (True, select_rows sessionId sessionEpoch
           (select_record active (or_else source DEFAULT_SOURCE_ID) contextMenuOpen now) now rowIds g))"

definition deselect_record :: "string \<Rightarrow> row_record \<Rightarrow> row_record" where
  "deselect_record sourceId r =
    (let r = clearProtectionSignal ReasonSelection sourceId r; d = rw_state r in
     r\<lparr>rw_state := d\<lparr>du_selectionProtected := Some False, du_custom := omitCustomKey (du_custom d) context_menu_key\<rparr>\<rparr>)"

definition clearSelectionProtection :: "string \<Rightarrow> string option \<Rightarrow> row_registry \<Rightarrow> row_registry" where
  "clearSelectionProtection sessionId source g =
    (case obj_get (rg_sessions g) sessionId of
       None \<Rightarrow> g
     | Some s \<Rightarrow> put_session_record sessionId
         (s\<lparr>sn_rows := map (\<lambda>(k, r). (k, deselect_record (or_else source DEFAULT_SOURCE_ID) r)) (sn_rows s)\<rparr>) g)"

definition updateStringList :: "string list option \<Rightarrow> string \<Rightarrow> bool \<Rightarrow> string list option" where
  "updateStringList values value' include =
    (let s = dedup (or_else values []);
         s = (if include then if value' \<in> set s then s else s @ [value'] else filter (\<lambda>v. v \<noteq> value') s) in
     if s = [] then None else Some (sort s))"

definition hasOverlayState :: "overlay_row_state \<Rightarrow> bool" where
  "hasOverlayState st \<longleftrightarrow> or_else (ov_openOverlayIds st) [] \<noteq> [] \<or> or_else (ov_openMenuIds st) [] \<noteq> [] \<or>
    or_else (ov_openDialogIds st) [] \<noteq> [] \<or> or_else (ov_openPopoverIds st) [] \<noteq> [] \<or>
    or_else (ov_openLightboxIds st) [] \<noteq> []"

definition updateOverlayState ::
    "overlay_row_state option \<Rightarrow> overlay_kind \<Rightarrow> string \<Rightarrow> bool \<Rightarrow> overlay_row_state option" where
  "updateOverlayState current kind overlayId isOpen =
    (let st = or_else current \<lparr>ov_openOverlayIds = None, ov_openMenuIds = None, ov_openDialogIds = None,
           ov_openPopoverIds = None, ov_openLightboxIds = None\<rparr>;
         st = st\<lparr>ov_openOverlayIds := updateStringList (ov_openOverlayIds st) overlayId isOpen\<rparr>;
         st = (case kind of
             OverlayMenu \<Rightarrow> st\<lparr>ov_openMenuIds := updateStringList (ov_openMenuIds st) overlayId isOpen\<rparr>
           | OverlayContextMenu \<Rightarrow> st\<lparr>ov_openMenuIds := updateStringList (ov_openMenuIds st) overlayId isOpen\<rparr>
           | OverlayDialog \<Rightarrow> st\<lparr>ov_openDialogIds := updateStringList (ov_openDialogIds st) overlayId isOpen\<rparr>
           | OverlayPopover \<Rightarrow> st\<lparr>ov_openPopoverIds := updateStringList (ov_openPopoverIds st) overlayId isOpen\<rparr>
           | OverlayLightbox \<Rightarrow> st\<lparr>ov_openLightboxIds := updateStringList (ov_openLightboxIds st) overlayId isOpen\<rparr>
           | OverlayOther \<Rightarrow> st) in
     if hasOverlayState st then Some st else None)"

fun overlay_name :: "overlay_kind \<Rightarrow> string" where
  "overlay_name OverlayMenu = ''menu''"
| "overlay_name OverlayDialog = ''dialog''"
| "overlay_name OverlayPopover = ''popover''"
| "overlay_name OverlayLightbox = ''lightbox''"
| "overlay_name OverlayContextMenu = ''context-menu''"
| "overlay_name OverlayOther = ''other''"

definition overlay_source :: "overlay_kind \<Rightarrow> string option \<Rightarrow> string" where
  "overlay_source kind overlay = overlay_name kind @ '':'' @ or_else overlay DEFAULT_SOURCE_ID"

definition setOpenOverlay ::
    "row_lookup \<Rightarrow> bool \<Rightarrow> string option \<Rightarrow> overlay_kind \<Rightarrow> js_number \<Rightarrow> row_registry \<Rightarrow> bool \<times> row_registry" where
  "setOpenOverlay input isOpen overlay kind now g =
    (let overlayId = or_else overlay DEFAULT_SOURCE_ID;
         sourceId = overlay_source kind overlay;
         (r, g) = with_record input now (\<lambda>r.
           let r = (if isOpen then setProtectionSignal (signal ReasonOpenOverlay sourceId now None) r
                else clearProtectionSignal ReasonOpenOverlay sourceId r);
               d = rw_state r in
           r\<lparr>rw_state := d\<lparr>du_overlays := updateOverlayState (du_overlays d) kind overlayId isOpen\<rparr>,
             rw_updatedAtMs := now\<rparr>) g in
     (r \<noteq> None, g))"

fun mcp_name :: "mcp_activity \<Rightarrow> string" where
  "mcp_name HostRequest = ''host-request''"
| "mcp_name NestedToolRequest = ''nested-tool-request''"
| "mcp_name RecentMessage = ''recent-message''"
| "mcp_name RecentResize = ''recent-resize''"

definition isExpiringMcpActivity :: "mcp_activity \<Rightarrow> bool" where
  "isExpiringMcpActivity kind \<longleftrightarrow> kind = RecentMessage \<or> kind = RecentResize"

definition updateMcpState ::
    "mcp_row_state option \<Rightarrow> mcp_activity \<Rightarrow> bool \<Rightarrow> js_number \<Rightarrow> string \<Rightarrow> mcp_row_state" where
  "updateMcpState current kind active now sourceId =
    (let st = or_else current \<lparr>mr_lifecycle = None, mr_inlineHeightPx = None, mr_activeHostRequestIds = None,
           mr_activeNestedToolRequestIds = None, mr_lastMessageAtMs = None, mr_lastResizeAtMs = None\<rparr>;
         life = (\<lambda>l. if active then Some l else mr_lifecycle st) in
     case kind of
       HostRequest \<Rightarrow> st\<lparr>mr_lifecycle := life McpActiveHostRequest,
         mr_activeHostRequestIds := updateStringList (mr_activeHostRequestIds st) sourceId active\<rparr>
     | NestedToolRequest \<Rightarrow> st\<lparr>mr_lifecycle := life McpActiveHostRequest,
         mr_activeNestedToolRequestIds := updateStringList (mr_activeNestedToolRequestIds st) sourceId active\<rparr>
     | RecentMessage \<Rightarrow> st\<lparr>mr_lifecycle := life McpRecentlyMessaged,
         mr_lastMessageAtMs := (if active then Some now else mr_lastMessageAtMs st)\<rparr>
     | RecentResize \<Rightarrow> st\<lparr>mr_lifecycle := life McpRecentlyResized,
         mr_lastResizeAtMs := (if active then Some now else mr_lastResizeAtMs st)\<rparr>)"

definition setMcpActivity ::
    "row_lookup \<Rightarrow> bool \<Rightarrow> mcp_activity \<Rightarrow> string option \<Rightarrow> js_number option \<Rightarrow> js_number \<Rightarrow> row_registry \<Rightarrow>
     bool \<times> row_registry" where
  "setMcpActivity input active kind source ttlMs now g =
    (let sourceId = or_else source (mcp_name kind);
         expiresAtMs = (if isExpiringMcpActivity kind
           then Some (now + or_else ttlMs (kp_recentTtlMs (rg_policy g))) else None);
         (r, g) = with_record input now (\<lambda>r.
           let r = (if active then setProtectionSignal (signal ReasonActiveMcp sourceId now expiresAtMs) r
                else clearProtectionSignal ReasonActiveMcp sourceId r);
               d = rw_state r in
           r\<lparr>rw_state := d\<lparr>du_mcpApp := Some (updateMcpState (du_mcpApp d) kind active now sourceId)\<rparr>,
             rw_updatedAtMs := now\<rparr>) g in
     (r \<noteq> None, g))"

definition setActiveStreamingRow ::
    "row_lookup \<Rightarrow> bool \<Rightarrow> string option \<Rightarrow> js_number \<Rightarrow> row_registry \<Rightarrow> bool \<times> row_registry" where
  "setActiveStreamingRow input active source now g =
    (let sourceId = or_else source DEFAULT_SOURCE_ID;
         (r, g) = with_record input now (\<lambda>r.
           (if active then setProtectionSignal (signal ReasonActiveStream sourceId now None) r
            else clearProtectionSignal ReasonActiveStream sourceId r)\<lparr>rw_updatedAtMs := now\<rparr>) g in
     (r \<noteq> None, g))"

definition markRowInteracted ::
    "row_lookup \<Rightarrow> string option \<Rightarrow> js_number option \<Rightarrow> js_number \<Rightarrow> row_registry \<Rightarrow> bool \<times> row_registry" where
  "markRowInteracted input source ttlMs now g =
    (let (r, g) = with_record input now (\<lambda>r.
           (setProtectionSignal (signal ReasonRecent (or_else source DEFAULT_SOURCE_ID) now
              (Some (now + or_else ttlMs (kp_recentTtlMs (rg_policy g))))) r)\<lparr>rw_updatedAtMs := now\<rparr>) g in
     (r \<noteq> None, g))"

section \<open>Candidates\<close>

fun priorityForReason :: "protection_reason \<Rightarrow> keep_alive_priority" where
  "priorityForReason ReasonFocused = KeepFocused"
| "priorityForReason ReasonSelection = KeepSelection"
| "priorityForReason ReasonOpenOverlay = KeepOpenUi"
| "priorityForReason ReasonActiveMcp = KeepActiveMcp"
| "priorityForReason ReasonActiveStream = KeepActiveStream"
| "priorityForReason ReasonRecent = KeepRecent"

fun reasonForPriority :: "keep_alive_priority \<Rightarrow> protection_reason" where
  "reasonForPriority KeepFocused = ReasonFocused"
| "reasonForPriority KeepSelection = ReasonSelection"
| "reasonForPriority KeepOpenUi = ReasonOpenOverlay"
| "reasonForPriority KeepActiveMcp = ReasonActiveMcp"
| "reasonForPriority KeepActiveStream = ReasonActiveStream"
| "reasonForPriority KeepRecent = ReasonRecent"
| "reasonForPriority KeepNone = ReasonRecent"

definition minDefined :: "js_number option \<Rightarrow> js_number option \<Rightarrow> js_number option" where
  "minDefined left right = (case (left, right) of
      (None, _) \<Rightarrow> right
    | (_, None) \<Rightarrow> left
    | (Some l, Some r) \<Rightarrow> Some (min l r))"

definition set_add :: "'a \<Rightarrow> 'a list \<Rightarrow> 'a list" where
  \<comment> \<open>\<open>Set.add\<close>\<close>
  "set_add x xs = (if x \<in> set xs then xs else xs @ [x])"

record candidate_input =
  ci_rowId :: string
  ci_priority :: keep_alive_priority
  ci_reason :: protection_reason
  ci_activatedAtMs :: js_number
  ci_updatedAtMs :: js_number
  ci_expiresAtMs :: "js_number option"

definition upsertCandidate :: "candidate_input \<Rightarrow> keep_candidate jsobj \<Rightarrow> keep_candidate jsobj" where
  "upsertCandidate input candidates =
    (case obj_get candidates (ci_rowId input) of
       None \<Rightarrow> obj_set (ci_rowId input)
         \<lparr>kc_rowId = ci_rowId input, kc_priorities = [ci_priority input], kc_reasons = [ci_reason input],
          kc_activatedAtMs = ci_activatedAtMs input, kc_updatedAtMs = ci_updatedAtMs input,
          kc_expiresAtMs = ci_expiresAtMs input\<rparr> candidates
     | Some existing \<Rightarrow> obj_set (ci_rowId input)
         (existing\<lparr>kc_priorities := set_add (ci_priority input) (kc_priorities existing),
           kc_reasons := set_add (ci_reason input) (kc_reasons existing),
           kc_activatedAtMs := min (kc_activatedAtMs existing) (ci_activatedAtMs input),
           kc_updatedAtMs := max (kc_updatedAtMs existing) (ci_updatedAtMs input),
           kc_expiresAtMs := minDefined (kc_expiresAtMs existing) (ci_expiresAtMs input)\<rparr>) candidates)"

definition signal_inputs :: "session_record \<Rightarrow> candidate_input list" where
  "signal_inputs s = concat (map (\<lambda>(k, r). map (\<lambda>(k, sig).
      \<lparr>ci_rowId = rw_rowId r, ci_priority = priorityForReason (pg_reason sig), ci_reason = pg_reason sig,
       ci_activatedAtMs = pg_activatedAtMs sig, ci_updatedAtMs = pg_updatedAtMs sig,
       ci_expiresAtMs = pg_expiresAtMs sig\<rparr>) (rw_protectionSignals r)) (sn_rows s))"

definition row_inputs :: "kept_row list \<Rightarrow> js_number \<Rightarrow> candidate_input list" where
  "row_inputs rows now = concat (map (\<lambda>(rowIndex, row).
      if kr_keepAlivePriority row = KeepNone then []
      else [\<lparr>ci_rowId = rd_rowId row, ci_priority = kr_keepAlivePriority row,
        ci_reason = reasonForPriority (kr_keepAlivePriority row),
        ci_activatedAtMs = now + of_nat rowIndex, ci_updatedAtMs = now + of_nat rowIndex, ci_expiresAtMs = None\<rparr>])
      (enumerate 0 rows))"

definition collectCandidates ::
    "session_record option \<Rightarrow> kept_row list \<Rightarrow> js_number \<Rightarrow> keep_candidate list" where
  "collectCandidates s rows now =
    map snd (fold upsertCandidate
      ((case s of None \<Rightarrow> [] | Some s \<Rightarrow> signal_inputs s) @ row_inputs rows now) [])"

section \<open>Selection\<close>

fun insert_by :: "('a \<Rightarrow> 'a \<Rightarrow> js_number) \<Rightarrow> 'a \<Rightarrow> 'a list \<Rightarrow> 'a list" where
  "insert_by cmp x [] = [x]"
| "insert_by cmp x (y # ys) = (if cmp x y \<le> 0 then x # y # ys else y # insert_by cmp x ys)"

definition sort_by :: "('a \<Rightarrow> 'a \<Rightarrow> js_number) \<Rightarrow> 'a list \<Rightarrow> 'a list" where
  \<comment> \<open>the stable \<open>Array.prototype.sort\<close> with a comparison\<close>
  "sort_by cmp xs = foldr (insert_by cmp) xs []"

definition highestPriorityWeight :: "keep_candidate \<Rightarrow> nat" where
  "highestPriorityWeight candidate = fold (\<lambda>p weight. max weight (priority_weight p)) (kc_priorities candidate) 0"

definition compareCandidatePriority ::
    "(string \<Rightarrow> string \<Rightarrow> js_number) \<Rightarrow> keep_candidate \<Rightarrow> keep_candidate \<Rightarrow> js_number" where
  "compareCandidatePriority localeCompare left right =
    (let priorityDelta = of_nat (highestPriorityWeight right) - of_nat (highestPriorityWeight left) in
     if priorityDelta \<noteq> 0 then priorityDelta
     else
       let updatedDelta = kc_updatedAtMs right - kc_updatedAtMs left in
       if updatedDelta \<noteq> 0 then updatedDelta else localeCompare (kc_rowId left) (kc_rowId right))"

definition has_priority :: "keep_alive_priority \<Rightarrow> keep_candidate \<Rightarrow> bool" where
  "has_priority p candidate \<longleftrightarrow> p \<in> set (kc_priorities candidate)"

definition hasInteractionPriority :: "keep_candidate \<Rightarrow> bool" where
  "hasInteractionPriority candidate \<longleftrightarrow> has_priority KeepFocused candidate \<or> has_priority KeepSelection candidate \<or>
    has_priority KeepOpenUi candidate"

definition selectCandidates ::
    "(string \<Rightarrow> string \<Rightarrow> js_number) \<Rightarrow> keep_candidate list \<Rightarrow> keep_alive_policy \<Rightarrow> candidate_selection" where
  "selectCandidates localeCompare candidates policy =
    (let sorted' = (\<lambda>p. sort_by (compareCandidatePriority localeCompare) (filter p candidates));
         interactionCandidates = sorted' hasInteractionPriority;
         interactionRowIds = map kc_rowId interactionCandidates;
         activeStreamCandidates = sorted' (\<lambda>c. kc_rowId c \<notin> set interactionRowIds \<and> has_priority KeepActiveStream c);
         protectedActiveStream = take (kp_activeStreamRowsPerSessionCap policy) activeStreamCandidates;
         activeStreamOverflow = drop (kp_activeStreamRowsPerSessionCap policy) activeStreamCandidates;
         forced = interactionCandidates @ protectedActiveStream;
         forcedRowIds = map kc_rowId (interactionCandidates @ protectedActiveStream);
         mcpCandidates = sorted' (\<lambda>c. kc_rowId c \<notin> set forcedRowIds \<and> has_priority KeepActiveMcp c);
         mcp = take (kp_mcpRowsPerSessionCap policy) mcpCandidates;
         evictedMcp = drop (kp_mcpRowsPerSessionCap policy) mcpCandidates;
         selectedMcpRowIds = map kc_rowId mcp;
         evictedActiveStream = filter (\<lambda>c. kc_rowId c \<notin> set selectedMcpRowIds) activeStreamOverflow;
         activeStreamRowIds = map kc_rowId activeStreamCandidates;
         recentCandidates = sorted' (\<lambda>c. kc_rowId c \<notin> set forcedRowIds \<and> kc_rowId c \<notin> set activeStreamRowIds \<and>
           kc_rowId c \<notin> set selectedMcpRowIds \<and> \<not> has_priority KeepActiveMcp c \<and> has_priority KeepRecent c) in
     \<lparr>se_forced = forced, se_mcp = mcp, se_recent = take (kp_recentRowsPerSessionCap policy) recentCandidates,
      se_evictedActiveStream = evictedActiveStream, se_evictedMcp = evictedMcp,
      se_evictedRecent = drop (kp_recentRowsPerSessionCap policy) recentCandidates\<rparr>)"

definition uniqueSortedRowIds :: "keep_candidate list \<Rightarrow> string list" where
  "uniqueSortedRowIds candidates = sort (dedup (map kc_rowId candidates))"

fun priority_name :: "keep_alive_priority \<Rightarrow> string" where
  "priority_name KeepNone = ''none''"
| "priority_name KeepFocused = ''focused''"
| "priority_name KeepSelection = ''selection''"
| "priority_name KeepOpenUi = ''open-ui''"
| "priority_name KeepActiveMcp = ''active-mcp''"
| "priority_name KeepActiveStream = ''active-stream''"
| "priority_name KeepRecent = ''recent''"

definition comparePriority ::
    "(string \<Rightarrow> string \<Rightarrow> js_number) \<Rightarrow> keep_alive_priority \<Rightarrow> keep_alive_priority \<Rightarrow> js_number" where
  "comparePriority localeCompare left right =
    (let delta = of_nat (priority_weight right) - of_nat (priority_weight left) in
     if delta \<noteq> 0 then delta else localeCompare (priority_name left) (priority_name right))"

definition evicted_candidates :: "candidate_selection \<Rightarrow> keep_candidate list" where
  "evicted_candidates selection = se_evictedActiveStream selection @ se_evictedMcp selection @ se_evictedRecent selection"

definition buildDiagnostics ::
    "(string \<Rightarrow> string \<Rightarrow> js_number) \<Rightarrow> string \<Rightarrow> session_epoch \<Rightarrow> nat \<Rightarrow> string list \<Rightarrow> keep_candidate list \<Rightarrow>
     candidate_selection \<Rightarrow> string list \<Rightarrow> string list \<Rightarrow> nat \<Rightarrow> keep_alive_policy \<Rightarrow> keep_alive_diagnostics" where
  "buildDiagnostics localeCompare sessionId sessionEpoch rowStateCount visibleRowIds candidates selection
      protectedRowIds protectedOffscreenRowIds expiredSignalCount policy =
    (let evictedRowIds = uniqueSortedRowIds (evicted_candidates selection);
         protectedRows = map (\<lambda>candidate.
           \<lparr>pd_rowId = kc_rowId candidate,
            pd_priorities = sort_by (comparePriority localeCompare) (kc_priorities candidate),
            pd_reasons = sort_key reason_name (kc_reasons candidate),
            pd_isVisible = kc_rowId candidate \<in> set visibleRowIds,
            pd_protected = kc_rowId candidate \<in> set protectedRowIds,
            pd_evicted = kc_rowId candidate \<in> set evictedRowIds,
            pd_expiresAtMs = kc_expiresAtMs candidate\<rparr>) candidates;
         hasActiveInteractionExemption = list_ex (\<lambda>candidate. kc_rowId candidate \<in> set protectedRowIds \<and>
           (has_priority KeepFocused candidate \<or> has_priority KeepSelection candidate \<or>
            has_priority KeepOpenUi candidate)) candidates;
         exceedsFailThreshold = (length protectedRowIds > kp_protectedRowsFailThreshold policy) in
     \<lparr>kd_sessionId = sessionId, kd_sessionEpoch = sessionEpoch, kd_rowStateCount = rowStateCount,
      kd_protectedRowCount = length protectedRowIds,
      kd_protectedOffscreenRowCount = length protectedOffscreenRowIds,
      kd_forcedProtectedRowCount = length (se_forced selection),
      kd_mcpProtectedRowCount = length (se_mcp selection),
      kd_recentProtectedRowCount = length (se_recent selection),
      kd_mcpCandidateCount = length (se_mcp selection) + length (se_evictedMcp selection),
      kd_recentCandidateCount = length (se_recent selection) + length (se_evictedRecent selection),
      kd_evictedMcpRowCount = length (se_evictedMcp selection),
      kd_evictedRecentRowCount = length (se_evictedRecent selection),
      kd_expiredSignalCount = expiredSignalCount,
      kd_warnThresholdExceeded = (length protectedRowIds > kp_protectedRowsWarnThreshold policy),
      kd_failThresholdExceeded = (exceedsFailThreshold \<and> \<not> hasActiveInteractionExemption),
      kd_failThresholdJustifiedByActiveInteraction = (exceedsFailThreshold \<and> hasActiveInteractionExemption),
      kd_policy = policy, kd_rows = protectedRows\<rparr>)"

definition prune_writable ::
    "string \<Rightarrow> session_epoch option \<Rightarrow> js_number \<Rightarrow> row_registry \<Rightarrow> nat \<times> session_record option \<times> row_registry" where
  "prune_writable sessionId sessionEpoch now g =
    (case getWritableSession sessionId sessionEpoch g of
       (None, g) \<Rightarrow> (0, None, g)
     | (Some s, g) \<Rightarrow> (let (n, s) = pruneExpiredSignals now s in (n, Some s, put_session_record sessionId s g)))"

definition evaluateKeepAlive ::
    "(string \<Rightarrow> string \<Rightarrow> js_number) \<Rightarrow> string \<Rightarrow> session_epoch option \<Rightarrow> kept_row list \<Rightarrow> string list \<Rightarrow> js_number \<Rightarrow>
     row_registry \<Rightarrow> keep_alive_decision \<times> row_registry" where
  "evaluateKeepAlive localeCompare sessionId sessionEpoch rows visibleRowIds now g =
    (let (expiredSignalCount, s, g) = prune_writable sessionId sessionEpoch now g;
         candidates = collectCandidates s rows now;
         selection = selectCandidates localeCompare candidates (rg_policy g);
         protectedRowIds = uniqueSortedRowIds (se_forced selection @ se_mcp selection @ se_recent selection);
         evictedRowIds = uniqueSortedRowIds (evicted_candidates selection);
         protectedOffscreenRowIds = filter (\<lambda>rowId. rowId \<notin> set visibleRowIds) protectedRowIds;
         diagnostics = buildDiagnostics localeCompare sessionId
           (or_else (map_option sn_sessionEpoch s) (or_else sessionEpoch 0))
           (case s of None \<Rightarrow> 0 | Some s \<Rightarrow> length (sn_rows s)) visibleRowIds candidates selection
           protectedRowIds protectedOffscreenRowIds expiredSignalCount (rg_policy g) in
     (\<lparr>ka_protectedRowIds = protectedRowIds, ka_protectedOffscreenRowIds = protectedOffscreenRowIds,
       ka_evictedRowIds = evictedRowIds, ka_diagnostics = diagnostics\<rparr>,
      g\<lparr>rg_lastDiagnosticsBySession := obj_set sessionId diagnostics (rg_lastDiagnosticsBySession g)\<rparr>))"

section \<open>Sessions come and go\<close>

definition cleanupExpired :: "js_number \<Rightarrow> row_registry \<Rightarrow> nat \<times> row_registry" where
  "cleanupExpired now g =
    (sum_list (map (\<lambda>(k, s). fst (pruneExpiredSignals now s)) (rg_sessions g)),
     g\<lparr>rg_sessions := map (\<lambda>(k, s). (k, snd (pruneExpiredSignals now s))) (rg_sessions g)\<rparr>)"

record cleanup_result =
  cr_sessionId :: string
  cr_removedRowStateCount :: nat
  cr_removedProtectionSignalCount :: nat

definition registryCleanupSession :: "string \<Rightarrow> row_registry \<Rightarrow> cleanup_result \<times> row_registry" where
  "registryCleanupSession sessionId g =
    (case obj_get (rg_sessions g) sessionId of
       None \<Rightarrow> (\<lparr>cr_sessionId = sessionId, cr_removedRowStateCount = 0, cr_removedProtectionSignalCount = 0\<rparr>, g)
     | Some s \<Rightarrow>
         (\<lparr>cr_sessionId = sessionId, cr_removedRowStateCount = length (sn_rows s),
           cr_removedProtectionSignalCount = countProtectionSignals s\<rparr>,
          g\<lparr>rg_sessions := obj_del sessionId (rg_sessions g),
            rg_lastDiagnosticsBySession := obj_del sessionId (rg_lastDiagnosticsBySession g)\<rparr>))"

record promotion_result =
  pr_oldSessionId :: string
  pr_newSessionId :: string
  pr_promotedRowStateCount :: nat
  pr_promotedProtectionSignalCount :: nat
  pr_mergedIntoExistingSession :: bool

definition promoteStoredDiagnostics :: "string \<Rightarrow> string \<Rightarrow> row_registry \<Rightarrow> row_registry" where
  "promoteStoredDiagnostics oldSessionId newSessionId g =
    (case obj_get (rg_lastDiagnosticsBySession g) oldSessionId of
       None \<Rightarrow> g
     | Some d \<Rightarrow> g\<lparr>rg_lastDiagnosticsBySession := obj_set newSessionId (d\<lparr>kd_sessionId := newSessionId\<rparr>)
         (obj_del oldSessionId (rg_lastDiagnosticsBySession g))\<rparr>)"

definition merge_rows :: "row_record jsobj \<Rightarrow> row_record jsobj \<Rightarrow> row_record jsobj" where
  "merge_rows source target =
    foldl (\<lambda>rows (rowId, record). if obj_get rows rowId = None then obj_set rowId record rows else rows) target source"

definition promoteSession ::
    "string \<Rightarrow> string \<Rightarrow> session_epoch option \<Rightarrow> row_registry \<Rightarrow> promotion_result \<times> row_registry" where
  "promoteSession oldSessionId newSessionId newSessionEpoch g =
    (case obj_get (rg_sessions g) oldSessionId of
       None \<Rightarrow>
         (\<lparr>pr_oldSessionId = oldSessionId, pr_newSessionId = newSessionId, pr_promotedRowStateCount = 0,
           pr_promotedProtectionSignalCount = 0,
           pr_mergedIntoExistingSession = (obj_get (rg_sessions g) newSessionId \<noteq> None)\<rparr>, g)
     | Some source \<Rightarrow>
         let target = obj_get (rg_sessions g) newSessionId in
         (\<lparr>pr_oldSessionId = oldSessionId, pr_newSessionId = newSessionId,
           pr_promotedRowStateCount = length (sn_rows source),
           pr_promotedProtectionSignalCount = countProtectionSignals source,
           pr_mergedIntoExistingSession = (target \<noteq> None)\<rparr>,
          case target of
            None \<Rightarrow> promoteStoredDiagnostics oldSessionId newSessionId
              (g\<lparr>rg_sessions := obj_set newSessionId
                \<lparr>sn_sessionId = newSessionId, sn_sessionEpoch = or_else newSessionEpoch (sn_sessionEpoch source),
                 sn_rows = sn_rows source\<rparr> (obj_del oldSessionId (rg_sessions g))\<rparr>)
          | Some t \<Rightarrow>
              g\<lparr>rg_sessions := obj_del oldSessionId (obj_set newSessionId
                  (t\<lparr>sn_rows := merge_rows (sn_rows source) (sn_rows t),
                     sn_sessionEpoch := or_else newSessionEpoch (sn_sessionEpoch t)\<rparr>) (rg_sessions g)),
                rg_lastDiagnosticsBySession := obj_del oldSessionId (rg_lastDiagnosticsBySession g)\<rparr>))"

definition registryDiagnostics :: "row_registry \<Rightarrow> string \<Rightarrow> keep_alive_diagnostics option" where
  "registryDiagnostics g sessionId = obj_get (rg_lastDiagnosticsBySession g) sessionId"

section \<open>Rows that stay mounted\<close>

text \<open>
  The decision reaches the screen through \<open>virtual/react/useTranscriptVirtualTimeline.ts\<close>, which
  keeps the protected rows of the transcript, and \<open>extractRange\<close> of
  \<open>virtual/transcriptTanStackVirtualAdapter.ts\<close>, which adds their indexes to the rendered range.
\<close>

definition normalizeProtectedRowIds :: "kept_row list \<Rightarrow> string list \<Rightarrow> string list" where
  "normalizeProtectedRowIds rows protectedRowIds =
    (if protectedRowIds = [] \<or> rows = [] then []
     else map rd_rowId (filter (\<lambda>row. rd_rowId row \<in> set protectedRowIds) rows))"

definition rowIndexById :: "kept_row list \<Rightarrow> string \<rightharpoonup> nat" where
  "rowIndexById rows = map_of (rev (map (\<lambda>(index, row). (rd_rowId row, index)) (enumerate 0 rows)))"

definition extractRange ::
    "(kept_row \<Rightarrow> js_number) \<Rightarrow> kept_row list \<Rightarrow> overscan \<Rightarrow> string list \<Rightarrow> tanstack_range \<Rightarrow> pixel_selection" where
  \<comment> \<open>the selection that is stored; the indexes it returns are \<open>ps_indexes\<close>\<close>
  "extractRange height rows os protectedRowIds rng =
    (let protectedIndexes = concat (map (\<lambda>rowId.
           case rowIndexById rows rowId of None \<Rightarrow> [] | Some index \<Rightarrow> [of_nat index]) protectedRowIds) in
     computeTranscriptPixelRangeIndexes height rows rng os protectedIndexes)"

end
