(* ===== verification/RowStateRuns.thy ===== *)
theory RowStateRuns
  imports RowState "HOL-Library.Multiset"
begin

text \<open>
  The registry of row state over all its operations: its invariant (interpretation \<open>registry\<close>), the
  signals that an interaction sets and only its end removes (interpretation \<open>interaction\<close>), and which
  operations a superseded session refuses.
\<close>

section \<open>Operations\<close>

datatype registry_action =
    RegistrySetEpoch string session_epoch
  | RegistryGetOrCreate row_lookup js_number
  | RegistryGet row_lookup js_number
  | RegistryUpdate row_lookup "durable_row_state \<Rightarrow> durable_row_state" "bool option" js_number
  | RegistryPatch row_lookup row_state_patch "bool option" js_number
  | RegistryFocus row_lookup bool "string option" "string option" js_number
  | RegistrySelect string "string list" bool "session_epoch option" "string option" bool js_number
  | RegistryClearSelection string "string option"
  | RegistryOverlay row_lookup bool "string option" overlay_kind js_number
  | RegistryMcp row_lookup bool mcp_activity "string option" "js_number option" js_number
  | RegistryStream row_lookup bool "string option" js_number
  | RegistryInteracted row_lookup "string option" "js_number option" js_number
  | RegistryEvaluate string "session_epoch option" "kept_row list" "string list" js_number
  | RegistryCleanupExpired js_number
  | RegistryCleanupSession string
  | RegistryPromote string string "session_epoch option"
  | RegistrySubscribe nat
  | RegistryUnsubscribe nat

definition registry_step ::
    "(string \<Rightarrow> string \<Rightarrow> js_number) \<Rightarrow> registry_action \<Rightarrow> row_registry \<Rightarrow> row_registry" where
  "registry_step lc a g = (case a of
      RegistrySetEpoch sid e \<Rightarrow> setSessionEpoch sid e g
    | RegistryGetOrCreate input now \<Rightarrow> snd (getOrCreateRowState input now g)
    | RegistryGet input now \<Rightarrow> snd (getRowState input now g)
    | RegistryUpdate input f recent now \<Rightarrow> snd (updateRowState input f recent now g)
    | RegistryPatch input p recent now \<Rightarrow> snd (patchRowState input p recent now g)
    | RegistryFocus input focused source target now \<Rightarrow> snd (setFocusedRow input focused source target now g)
    | RegistrySelect sid rowIds active e source menu now \<Rightarrow>
        snd (setSelectionProtection sid rowIds active e source menu now g)
    | RegistryClearSelection sid source \<Rightarrow> clearSelectionProtection sid source g
    | RegistryOverlay input isOpen overlay kind now \<Rightarrow> snd (setOpenOverlay input isOpen overlay kind now g)
    | RegistryMcp input active kind source ttl now \<Rightarrow> snd (setMcpActivity input active kind source ttl now g)
    | RegistryStream input active source now \<Rightarrow> snd (setActiveStreamingRow input active source now g)
    | RegistryInteracted input source ttl now \<Rightarrow> snd (markRowInteracted input source ttl now g)
    | RegistryEvaluate sid e rows visible now \<Rightarrow> snd (evaluateKeepAlive lc sid e rows visible now g)
    | RegistryCleanupExpired now \<Rightarrow> snd (cleanupExpired now g)
    | RegistryCleanupSession sid \<Rightarrow> snd (registryCleanupSession sid g)
    | RegistryPromote old new e \<Rightarrow> snd (promoteSession old new e g)
    | RegistrySubscribe c \<Rightarrow> subscribeToStateChanges c g
    | RegistryUnsubscribe c \<Rightarrow> unsubscribeFromStateChanges c g)"

section \<open>Keys\<close>

lemma getSignalKey_inj [simp]:
  "getSignalKey reason sourceId = getSignalKey reason' sourceId' \<longleftrightarrow> reason = reason' \<and> sourceId = sourceId'"
  by (cases reason; cases reason') (simp_all add: getSignalKey_def)

lemma obj_get_map: "obj_get (map (\<lambda>(k, v). (k, f v)) m) k = map_option f (obj_get m k)"
  by (induction m) (auto simp: obj_get_def)

lemma obj_wf_map: "obj_wf (map (\<lambda>(k, v). (k, f v)) m) = obj_wf m"
  by (simp add: obj_wf_def o_def split_beta)

section \<open>The invariant\<close>

definition lasting :: "protection_reason \<Rightarrow> bool" where
  "lasting reason \<longleftrightarrow> reason \<in> {ReasonFocused, ReasonSelection, ReasonOpenOverlay, ReasonActiveStream}"

definition signal_ok :: "string \<Rightarrow> protection_signal \<Rightarrow> bool" where
  "signal_ok k sig \<longleftrightarrow> k = getSignalKey (pg_reason sig) (pg_sourceId sig) \<and>
    (lasting (pg_reason sig) \<longrightarrow> pg_expiresAtMs sig = None)"

definition record_ok :: "row_record \<Rightarrow> bool" where
  "record_ok r \<longleftrightarrow> obj_wf (rw_protectionSignals r) \<and>
    (\<forall>k sig. obj_get (rw_protectionSignals r) k = Some sig \<longrightarrow> signal_ok k sig)"

definition session_ok :: "session_record \<Rightarrow> bool" where
  "session_ok s \<longleftrightarrow> obj_wf (sn_rows s) \<and> (\<forall>rid r. obj_get (sn_rows s) rid = Some r \<longrightarrow> rw_rowId r = rid \<and> record_ok r)"

definition registry_ok :: "row_registry \<Rightarrow> bool" where
  "registry_ok g \<longleftrightarrow> obj_wf (rg_sessions g) \<and>
    (\<forall>sid s. obj_get (rg_sessions g) sid = Some s \<longrightarrow> sn_sessionId s = sid \<and> session_ok s)"

definition row_at :: "row_registry \<Rightarrow> string \<Rightarrow> string \<Rightarrow> row_record option" where
  "row_at g sid rid = (case obj_get (rg_sessions g) sid of None \<Rightarrow> None | Some s \<Rightarrow> obj_get (sn_rows s) rid)"

definition good_change :: "(row_record \<Rightarrow> row_record) \<Rightarrow> bool" where
  "good_change change \<longleftrightarrow> (\<forall>r. rw_rowId (change r) = rw_rowId r \<and> (record_ok r \<longrightarrow> record_ok (change r)))"

lemma session_ok_put: "session_ok s \<Longrightarrow> record_ok r \<Longrightarrow> session_ok (s\<lparr>sn_rows := obj_set (rw_rowId r) r (sn_rows s)\<rparr>)"
  by (simp add: session_ok_def)

lemma session_ok_fields [simp]:
  "session_ok (s\<lparr>sn_sessionEpoch := e\<rparr>) = session_ok s"
  "session_ok \<lparr>sn_sessionId = i, sn_sessionEpoch = e, sn_rows = []\<rparr>"
  by (simp_all add: session_ok_def)

lemma session_ok_map:
  assumes "session_ok s" "\<And>r. record_ok r \<Longrightarrow> record_ok (f r)" "\<And>r. rw_rowId (f r) = rw_rowId r"
  shows "session_ok (s\<lparr>sn_rows := map (\<lambda>(k, r). (k, f r)) (sn_rows s)\<rparr>)"
  using assms by (auto simp: session_ok_def obj_get_map obj_wf_map)

lemma registry_ok_put:
  "registry_ok g \<Longrightarrow> session_ok s \<Longrightarrow> sn_sessionId s = sid \<Longrightarrow> registry_ok (put_session_record sid s g)"
  by (simp add: registry_ok_def put_session_record_def)

lemma registry_ok_session: "registry_ok g \<Longrightarrow> obj_get (rg_sessions g) sid = Some s \<Longrightarrow> sn_sessionId s = sid \<and> session_ok s"
  by (simp add: registry_ok_def)

lemma registry_ok_row: "registry_ok g \<Longrightarrow> row_at g sid rid = Some r \<Longrightarrow> rw_rowId r = rid \<and> record_ok r"
  by (auto simp: registry_ok_def row_at_def session_ok_def split: option.splits)

lemma registry_ok_cong: "rg_sessions g' = rg_sessions g \<Longrightarrow> registry_ok g' = registry_ok g"
  by (simp add: registry_ok_def)

lemma registry_ok_fields [simp]:
  "registry_ok (g\<lparr>rg_notified := x\<rparr>) = registry_ok g"
  "registry_ok (g\<lparr>rg_stateChangeListeners := y\<rparr>) = registry_ok g"
  "registry_ok (g\<lparr>rg_lastDiagnosticsBySession := z\<rparr>) = registry_ok g"
  by (simp_all add: registry_ok_def)

lemma row_at_cong: "rg_sessions g' = rg_sessions g \<Longrightarrow> row_at g' = row_at g"
  by (simp add: row_at_def fun_eq_iff)

lemma put_record_ok: "registry_ok g \<Longrightarrow> record_ok r \<Longrightarrow> registry_ok (put_record sid r g)"
  by (auto simp: put_record_def registry_ok_session session_ok_put split: option.split intro!: registry_ok_put)

lemma row_at_put_record:
  "row_at (put_record sid r g) sid' rid' =
    (if sid' = sid \<and> rid' = rw_rowId r \<and> obj_get (rg_sessions g) sid \<noteq> None then Some r else row_at g sid' rid')"
  by (auto simp: put_record_def put_session_record_def row_at_def split: option.split)

section \<open>Sessions\<close>

lemma writable_cases:
  assumes "registry_ok g" "getWritableSession sid e g = (s, g')"
  obtains (refused) old n where "s = None" "g' = g" "obj_get (rg_sessions g) sid = Some old" "e = Some n"
      "n < sn_sessionEpoch old"
    | (found) x where "s = Some x" "g' = g" "obj_get (rg_sessions g) sid = Some x" "\<forall>n. e = Some n \<longrightarrow> sn_sessionEpoch x \<le> n"
    | (put) x where "s = Some x" "g' = put_session_record sid x g" "sn_sessionId x = sid" "session_ok x"
      "sn_rows x = (case obj_get (rg_sessions g) sid of None \<Rightarrow> [] | Some old \<Rightarrow> sn_rows old)"
      "\<forall>old n. obj_get (rg_sessions g) sid = Some old \<and> e = Some n \<longrightarrow> sn_sessionEpoch old \<le> n"
proof (cases "obj_get (rg_sessions g) sid")
  case None
  show ?thesis
    by (rule put [of "\<lparr>sn_sessionId = sid, sn_sessionEpoch = or_else e 0, sn_rows = []\<rparr>"])
      (use None assms(2) in \<open>auto simp: getWritableSession_def getOrCreateSession_def Let_def split: option.splits\<close>)
next
  case (Some old)
  note ok = registry_ok_session [OF assms(1) Some]
  show ?thesis
  proof (cases e)
    case None
    then show ?thesis using found [of old] Some assms(2) by (simp add: getWritableSession_def getOrCreateSession_def)
  next
    case (Some n)
    consider "n < sn_sessionEpoch old" | "n = sn_sessionEpoch old" | "n > sn_sessionEpoch old" by linarith
    then show ?thesis
    proof cases
      case 1
      then show ?thesis using refused [of old n] Some \<open>obj_get _ _ = Some old\<close> assms(2)
        by (simp add: getWritableSession_def getOrCreateSession_def)
    next
      case 2
      then show ?thesis using found [of old] Some \<open>obj_get _ _ = Some old\<close> assms(2)
        by (simp add: getWritableSession_def getOrCreateSession_def)
    next
      case 3
      then show ?thesis using put [of "old\<lparr>sn_sessionEpoch := n\<rparr>"] Some \<open>obj_get _ _ = Some old\<close> assms(2) ok
        by (simp add: getWritableSession_def getOrCreateSession_def Let_def)
    qed
  qed
qed

lemma row_at_put_session:
  "row_at (put_session_record sid x g) sid' rid = (if sid' = sid then obj_get (sn_rows x) rid else row_at g sid' rid)"
  by (simp add: put_session_record_def row_at_def)

lemma writable_spec:
  assumes "registry_ok g" "getWritableSession sid e g = (s, g')"
  shows "registry_ok g'" "row_at g' = row_at g" "s \<noteq> None \<Longrightarrow> obj_get (rg_sessions g') sid = s"
    "s = None \<Longrightarrow> g' = g" "rg_policy g' = rg_policy g"
proof -
  have rows: "row_at (put_session_record sid x g) = row_at g"
    if "sn_rows x = (case obj_get (rg_sessions g) sid of None \<Rightarrow> [] | Some old \<Rightarrow> sn_rows old)" for x
    unfolding fun_eq_iff row_at_put_session that by (auto simp: row_at_def split: option.split)
  show "registry_ok g'" "row_at g' = row_at g" "s \<noteq> None \<Longrightarrow> obj_get (rg_sessions g') sid = s"
    "s = None \<Longrightarrow> g' = g" "rg_policy g' = rg_policy g"
    using assms by (cases rule: writable_cases [OF assms]; simp add: registry_ok_put rows; simp add: put_session_record_def)+
qed

lemma record_spec:
  assumes "registry_ok g" "getOrCreateRowRecord input now g = (r, g')"
  shows "registry_ok g'"
    "r = None \<Longrightarrow> g' = g"
    "r \<noteq> None \<Longrightarrow> row_at g' (lk_sessionId input) (lk_rowId input) = r"
    "r \<noteq> None \<Longrightarrow> obj_get (rg_sessions g') (lk_sessionId input) \<noteq> None"
    "\<And>sid rid. row_at g sid rid \<noteq> None \<Longrightarrow> row_at g' sid rid = row_at g sid rid"
proof -
  obtain s g1 where w: "getWritableSession (lk_sessionId input) (lk_sessionEpoch input) g = (s, g1)" by fastforce
  note ws = writable_spec [OF assms(1) w]
  let ?new = "\<lparr>rw_rowId = lk_rowId input, rw_state = empty_row_state, rw_createdAtMs = now,
     rw_updatedAtMs = now, rw_lastAccessedAtMs = now, rw_protectionSignals = []\<rparr>"
  have new: "record_ok ?new" by (simp add: record_ok_def)
  consider (none) "r = None" "g' = g"
    | (old) x y where "s = Some x" "obj_get (sn_rows x) (lk_rowId input) = Some y" "r = Some y" "g' = g1"
    | (new) x where "s = Some x" "obj_get (sn_rows x) (lk_rowId input) = None" "r = Some ?new"
      "g' = put_record (lk_sessionId input) ?new g1"
  proof (cases s)
    case None
    then show thesis using none assms(2) ws(4) by (simp add: getOrCreateRowRecord_def w)
  next
    case (Some x)
    show thesis
    proof (cases "obj_get (sn_rows x) (lk_rowId input)")
      case None
      show thesis by (rule new [OF Some None]) (use assms(2) Some None in \<open>simp_all add: getOrCreateRowRecord_def w Let_def\<close>)
    next
      case (Some y)
      show thesis by (rule old [OF \<open>s = Some x\<close> Some])
          (use assms(2) \<open>s = Some x\<close> Some in \<open>simp_all add: getOrCreateRowRecord_def w\<close>)
    qed
  qed
  note c = this
  have at: "row_at g (lk_sessionId input) (lk_rowId input) = obj_get (sn_rows x) (lk_rowId input)" if "s = Some x" for x
    using ws(3) that unfolding ws(2) [symmetric] by (simp add: row_at_def)
  have in1: "obj_get (rg_sessions g1) (lk_sessionId input) \<noteq> None" if "s = Some x" for x using ws(3) that by simp
  show "registry_ok g'" by (cases rule: c) (simp_all add: assms(1) ws(1) put_record_ok new)
  show "g' = g" if "r = None" using that by (cases rule: c) simp_all
  show "row_at g' (lk_sessionId input) (lk_rowId input) = r" if "r \<noteq> None"
    using that by (cases rule: c) (simp_all add: at ws(2) row_at_put_record in1)
  show "obj_get (rg_sessions g') (lk_sessionId input) \<noteq> None" if "r \<noteq> None"
    using that in1 by (cases rule: c) (auto simp: put_record_def put_session_record_def split: option.split)
  show "row_at g' sid rid = row_at g sid rid" if "row_at g sid rid \<noteq> None" for sid rid
    using that at by (cases rule: c) (auto simp: ws(2) row_at_put_record)
qed

lemma with_record_spec:
  assumes "registry_ok g" "good_change change"
  shows "registry_ok (snd (with_record input now change g))"
    "fst (with_record input now change g) = None \<Longrightarrow> snd (with_record input now change g) = g"
    "row_at g sid rid = Some r \<Longrightarrow>
      row_at (snd (with_record input now change g)) sid rid = Some r \<or>
      sid = lk_sessionId input \<and> rid = lk_rowId input \<and>
      row_at (snd (with_record input now change g)) sid rid = Some (change r)"
proof -
  obtain r' g' where rec: "getOrCreateRowRecord input now g = (r', g')" by fastforce
  note rs = record_spec [OF assms(1) rec]
  have ok: "record_ok x" "rw_rowId x = lk_rowId input" if "r' = Some x" for x
    using registry_ok_row [OF rs(1)] rs(3) that by auto
  show "registry_ok (snd (with_record input now change g))"
    using assms(2) rs(1) ok
    by (auto simp: with_record_def rec good_change_def intro!: put_record_ok split: option.split)
  show "snd (with_record input now change g) = g" if "fst (with_record input now change g) = None"
    using that rs(2) by (auto simp: with_record_def rec split: option.splits)
  show "row_at (snd (with_record input now change g)) sid rid = Some r \<or>
      sid = lk_sessionId input \<and> rid = lk_rowId input \<and>
      row_at (snd (with_record input now change g)) sid rid = Some (change r)" if at: "row_at g sid rid = Some r"
  proof (cases r')
    case None
    then show ?thesis using at rs(2) by (simp add: with_record_def rec)
  next
    case (Some x)
    have "row_at g' sid rid = Some r" using rs(5) at by simp
    then show ?thesis
      using Some rs(3,4) ok [OF Some] assms(2)
      by (auto simp: with_record_def rec row_at_put_record good_change_def)
  qed
qed

section \<open>Changes of a record\<close>

lemma record_ok_fields [simp]:
  "record_ok (r\<lparr>rw_state := x\<rparr>) = record_ok r" "record_ok (r\<lparr>rw_updatedAtMs := t\<rparr>) = record_ok r"
  "record_ok (r\<lparr>rw_lastAccessedAtMs := t\<rparr>) = record_ok r"
  by (simp_all add: record_ok_def)

lemma set_signal_get [simp]:
  "obj_get (rw_protectionSignals (setProtectionSignal sig r)) k = None \<longleftrightarrow>
    k \<noteq> getSignalKey (pg_reason sig) (pg_sourceId sig) \<and> obj_get (rw_protectionSignals r) k = None"
  "(\<exists>y. obj_get (rw_protectionSignals (setProtectionSignal sig r)) k = Some y) \<longleftrightarrow>
    k = getSignalKey (pg_reason sig) (pg_sourceId sig) \<or> (\<exists>y. obj_get (rw_protectionSignals r) k = Some y)"
  "rw_rowId (setProtectionSignal sig r) = rw_rowId r"
  by (auto simp: setProtectionSignal_def Let_def)

lemma clear_signal_get [simp]:
  "obj_get (rw_protectionSignals (clearProtectionSignal reason src r)) k =
    (if k = getSignalKey reason src then None else obj_get (rw_protectionSignals r) k)"
  "rw_rowId (clearProtectionSignal reason src r) = rw_rowId r"
  "rw_state (clearProtectionSignal reason src r) = rw_state r"
  by (auto simp: clearProtectionSignal_def)

lemma record_ok_set [simp]:
  "record_ok r \<Longrightarrow> lasting (pg_reason sig) \<longrightarrow> pg_expiresAtMs sig = None \<Longrightarrow> record_ok (setProtectionSignal sig r)"
  by (simp add: record_ok_def setProtectionSignal_def Let_def signal_ok_def)

lemma record_ok_clear [simp]: "record_ok r \<Longrightarrow> record_ok (clearProtectionSignal reason src r)"
  by (simp add: record_ok_def clearProtectionSignal_def)

lemma signal_fields [simp]:
  "pg_reason (signal reason src now e) = reason" "pg_sourceId (signal reason src now e) = src"
  "pg_expiresAtMs (signal reason src now e) = e"
  by (simp_all add: signal_def)

lemma lasting_simps [simp]:
  "lasting ReasonFocused" "lasting ReasonSelection" "lasting ReasonOpenOverlay" "lasting ReasonActiveStream"
  "\<not> lasting ReasonActiveMcp" "\<not> lasting ReasonRecent"
  by (simp_all add: lasting_def)

lemma prune_get:
  "obj_wf (rw_protectionSignals r) \<Longrightarrow> obj_get (rw_protectionSignals (prune_record now r)) k =
    (case obj_get (rw_protectionSignals r) k of None \<Rightarrow> None | Some sig \<Rightarrow> if expired now sig then None else Some sig)"
  using obj_get_filter [of "rw_protectionSignals r" "\<lambda>_ sig. \<not> expired now sig" k]
  by (simp add: prune_record_def case_prod_beta' split: option.split)

lemma prune_record_ok [simp]: "record_ok r \<Longrightarrow> record_ok (prune_record now r)" "rw_rowId (prune_record now r) = rw_rowId r"
proof -
  assume "record_ok r"
  then have "obj_wf (rw_protectionSignals (prune_record now r))" by (simp add: record_ok_def prune_record_def)
  with \<open>record_ok r\<close> show "record_ok (prune_record now r)"
    by (auto simp: record_ok_def prune_get split: option.splits if_splits)
qed (simp add: prune_record_def)

definition held :: "row_registry \<Rightarrow> string \<Rightarrow> string \<Rightarrow> protection_reason \<Rightarrow> string \<Rightarrow> bool" where
  \<comment> \<open>the row has a signal of the reason from the source\<close>
  "held g sid rid reason src \<longleftrightarrow>
    (\<exists>r. row_at g sid rid = Some r \<and> obj_get (rw_protectionSignals r) (getSignalKey reason src) \<noteq> None)"

definition keeps :: "string \<Rightarrow> (row_record \<Rightarrow> row_record) \<Rightarrow> bool" where
  "keeps k change \<longleftrightarrow>
    (\<forall>r. obj_get (rw_protectionSignals r) k \<noteq> None \<longrightarrow> obj_get (rw_protectionSignals (change r)) k \<noteq> None)"

lemma held_with_record:
  assumes "registry_ok g" "good_change change" "held g sid rid reason src"
    "lk_sessionId input = sid \<Longrightarrow> lk_rowId input = rid \<Longrightarrow> keeps (getSignalKey reason src) change"
  shows "held (snd (with_record input now change g)) sid rid reason src"
proof -
  obtain r where r: "row_at g sid rid = Some r" "obj_get (rw_protectionSignals r) (getSignalKey reason src) \<noteq> None"
    using assms(3) by (auto simp: held_def)
  from with_record_spec(3) [OF assms(1,2) r(1), of input now] r(2) assms(4) show ?thesis
    by (auto simp: held_def keeps_def)
qed

lemma held_cong: "rg_sessions g' = rg_sessions g \<Longrightarrow> held g' = held g"
  by (simp add: held_def fun_eq_iff row_at_cong [of g' g])

lemma held_prune:
  assumes "record_ok r" "lasting reason" "obj_get (rw_protectionSignals r) (getSignalKey reason src) \<noteq> None"
  shows "obj_get (rw_protectionSignals (prune_record now r)) (getSignalKey reason src) \<noteq> None"
proof -
  obtain sig where sig: "obj_get (rw_protectionSignals r) (getSignalKey reason src) = Some sig" using assms(3) by auto
  then have ok: "signal_ok (getSignalKey reason src) sig" using assms(1) by (simp add: record_ok_def)
  then have "reason = pg_reason sig" by (simp add: signal_ok_def)
  then have "\<not> expired now sig" using ok assms(2) by (simp add: signal_ok_def expired_def)
  then show ?thesis using assms(1) sig by (simp add: record_ok_def prune_get)
qed

lemma merge_rows_get:
  "obj_get (merge_rows source target) k = (case obj_get target k of None \<Rightarrow> obj_get source k | Some r \<Rightarrow> Some r)"
proof (induction source arbitrary: target)
  case (Cons p source)
  obtain rid r where p: "p = (rid, r)" by fastforce
  have "merge_rows (p # source) target =
      merge_rows source (if obj_get target rid = None then obj_set rid r target else target)"
    by (simp add: merge_rows_def p)
  then show ?case by (auto simp: Cons.IH p obj_get_def [of "(rid, r) # source"] obj_get_def [of source] split: option.splits)
qed (simp add: merge_rows_def split: option.split)

lemma merge_rows_wf: "obj_wf target \<Longrightarrow> obj_wf (merge_rows source target)"
  by (induction source arbitrary: target) (auto simp: merge_rows_def)

section \<open>Evaluation\<close>

lemma prune_session_ok: "session_ok s \<Longrightarrow> session_ok (snd (pruneExpiredSignals now s))"
  "sn_sessionId (snd (pruneExpiredSignals now s)) = sn_sessionId s"
  "obj_get (sn_rows (snd (pruneExpiredSignals now s))) rid = map_option (prune_record now) (obj_get (sn_rows s) rid)"
  by (simp_all add: pruneExpiredSignals_def session_ok_map obj_get_map)

lemma prune_writable_spec:
  assumes "registry_ok g" "prune_writable sid e now g = (n, s, g')"
  shows "registry_ok g'" "rg_policy g' = rg_policy g" "s \<noteq> None \<Longrightarrow> obj_get (rg_sessions g') sid = s"
    "row_at g' sid' rid =
      (if sid' = sid \<and> s \<noteq> None then map_option (prune_record now) (row_at g sid' rid) else row_at g sid' rid)"
    "s = None \<longleftrightarrow> fst (getWritableSession sid e g) = None"
proof -
  obtain x g1 where w: "getWritableSession sid e g = (x, g1)" by fastforce
  note ws = writable_spec [OF assms(1) w]
  have "registry_ok g' \<and> rg_policy g' = rg_policy g \<and> (s \<noteq> None \<longrightarrow> obj_get (rg_sessions g') sid = s) \<and>
    (row_at g' sid' rid =
      (if sid' = sid \<and> s \<noteq> None then map_option (prune_record now) (row_at g sid' rid) else row_at g sid' rid)) \<and>
    (s = None \<longleftrightarrow> x = None)"
  proof (cases x)
    case None
    then show ?thesis using assms ws by (simp add: prune_writable_def w)
  next
    case (Some old)
    have old: "sn_sessionId old = sid" "session_ok old" using ws(1,3) Some registry_ok_session by auto
    let ?p = "snd (pruneExpiredSignals now old)"
    have g': "s = Some ?p" "g' = put_session_record sid ?p g1"
      using assms(2) Some by (auto simp: prune_writable_def w split_beta Let_def)
    have "row_at g sid rid = obj_get (sn_rows old) rid" using ws(3) Some unfolding ws(2) [symmetric] by (simp add: row_at_def)
    then show ?thesis using g' old ws(1,5) Some
      by (simp add: registry_ok_put prune_session_ok row_at_put_session ws(2)) (simp add: put_session_record_def)
  qed
  then show "registry_ok g'" "rg_policy g' = rg_policy g" "s \<noteq> None \<Longrightarrow> obj_get (rg_sessions g') sid = s"
    "row_at g' sid' rid =
      (if sid' = sid \<and> s \<noteq> None then map_option (prune_record now) (row_at g sid' rid) else row_at g sid' rid)"
    "s = None \<longleftrightarrow> fst (getWritableSession sid e g) = None"
    unfolding w fst_conv by (elim conjE, assumption | blast)+
qed

lemma evaluate_sessions:
  "rg_sessions (snd (evaluateKeepAlive lc sid e rows visible now g)) = rg_sessions (snd (snd (prune_writable sid e now g)))"
  by (simp add: evaluateKeepAlive_def Let_def split_beta)

section \<open>Every operation keeps the invariant\<close>

lemma select_rows_ok:
  "registry_ok g \<Longrightarrow> good_change change \<Longrightarrow> registry_ok (select_rows sid e change now rowIds g)"
  by (induction rowIds arbitrary: g) (simp_all add: with_record_spec(1))

lemma good_select [simp]: "good_change (select_record active src menu now)"
  by (simp add: good_change_def select_record_def Let_def)

lemma deselect_ok [simp]: "record_ok r \<Longrightarrow> record_ok (deselect_record src r)" "rw_rowId (deselect_record src r) = rw_rowId r"
  by (simp_all add: deselect_record_def Let_def)

lemma map_sessions_ok:
  assumes "registry_ok g" "\<And>s. session_ok s \<Longrightarrow> session_ok (f s) \<and> sn_sessionId (f s) = sn_sessionId s"
  shows "registry_ok (g\<lparr>rg_sessions := map (\<lambda>(k, s). (k, f s)) (rg_sessions g)\<rparr>)"
  using assms by (auto simp: registry_ok_def obj_get_map obj_wf_map)

lemma promote_ok:
  assumes "registry_ok g"
  shows "registry_ok (snd (promoteSession old new e g))"
proof (cases "obj_get (rg_sessions g) old")
  case (Some source)
  note src = registry_ok_session [OF assms Some]
  show ?thesis
  proof (cases "obj_get (rg_sessions g) new")
    case None
    then show ?thesis using Some assms src
      by (auto simp: promoteSession_def promoteStoredDiagnostics_def registry_ok_def session_ok_def split: option.splits)
  next
    case (Some target)
    have "session_ok (target\<lparr>sn_rows := merge_rows (sn_rows source) (sn_rows target), sn_sessionEpoch := e'\<rparr>)" for e'
      using registry_ok_session [OF assms Some] src
      by (auto simp: session_ok_def merge_rows_wf merge_rows_get split: option.splits)
    then show ?thesis using \<open>obj_get (rg_sessions g) old = Some source\<close> Some assms
      by (auto simp: promoteSession_def registry_ok_def Let_def)
  qed
qed (simp add: promoteSession_def assms)

lemma registry_step_ok:
  assumes "registry_ok g"
  shows "registry_ok (registry_step lc a g)"
proof (cases a)
  case (RegistrySetEpoch sid e)
  obtain s g1 where "getOrCreateSession sid (Some e) g = (s, g1)" by fastforce
  moreover from this have "registry_ok g1 \<and> session_ok s \<and> sn_sessionId s = sid"
    using assms registry_ok_session [OF assms, of sid]
    by (auto simp: getOrCreateSession_def Let_def intro!: registry_ok_put split: option.splits)
  ultimately show ?thesis by (simp add: RegistrySetEpoch registry_step_def setSessionEpoch_def registry_ok_put)
next
  case (RegistryGet input now)
  have "record_ok r" if "getReadableSession sid e g = Some s" "obj_get (sn_rows s) rid = Some r" for sid e s rid r
    using that registry_ok_session [OF assms] by (auto simp: getReadableSession_def session_ok_def split: option.splits if_splits)
  then show ?thesis using assms
    by (auto simp: RegistryGet registry_step_def getRowState_def put_record_ok split: option.split)
next
  case (RegistrySelect sid rowIds active e source menu now)
  show ?thesis
    using writable_spec(1) [OF assms, of sid e]
    by (auto simp: RegistrySelect registry_step_def setSelectionProtection_def select_rows_ok split: prod.split option.split)
next
  case (RegistryClearSelection sid source)
  then show ?thesis using assms registry_ok_session [OF assms, of sid]
    by (auto simp: registry_step_def clearSelectionProtection_def session_ok_map intro!: registry_ok_put split: option.split)
next
  case (RegistryEvaluate sid e rows visible now)
  have "registry_ok (snd (snd (prune_writable sid e now g)))"
    using prune_writable_spec(1) [OF assms, of sid e now] by (metis prod.collapse)
  then show ?thesis
    by (simp add: RegistryEvaluate registry_step_def registry_ok_cong [OF evaluate_sessions])
next
  case (RegistryCleanupExpired now)
  show ?thesis unfolding RegistryCleanupExpired registry_step_def
    by (simp add: cleanupExpired_def map_sessions_ok [OF assms] prune_session_ok(1,2))
next
  case (RegistryCleanupSession sid)
  then show ?thesis using assms
    by (auto simp: registry_step_def registryCleanupSession_def registry_ok_def split: option.split)
next
  case (RegistryUpdate input f recent now)
  then show ?thesis
    using with_record_spec(1) [OF assms]
    by (simp add: registry_step_def updateRowState_def Let_def split_beta notifyStateChange_def good_change_def
        split: option.split)
next
  case (RegistryPatch input f recent now)
  then show ?thesis
    using with_record_spec(1) [OF assms]
    by (simp add: registry_step_def patchRowState_def updateRowState_def Let_def split_beta notifyStateChange_def
        good_change_def split: option.split)
qed (simp_all add: registry_step_def Let_def split_beta good_change_def promote_ok assms
    getOrCreateRowState_def setFocusedRow_def setOpenOverlay_def setMcpActivity_def setActiveStreamingRow_def
    markRowInteracted_def subscribeToStateChanges_def unsubscribeFromStateChanges_def
    with_record_spec(1))

interpretation registry: step_system "registry_step lc" "\<lambda>_ _. True" registry_ok for lc
  by unfold_locales (rule registry_step_ok)

lemma registry_created: "registry_ok (createTranscriptRowStateRegistry policy)"
  by (simp add: registry_ok_def createTranscriptRowStateRegistry_def)

lemma registry_run_ok: "registry_ok (fold (registry_step lc) actions (createTranscriptRowStateRegistry policy))"
  by (rule registry.total_run_inv [OF TrueI registry_created])

section \<open>A signal lasts until its source ends it\<close>

fun releases :: "registry_action \<Rightarrow> string \<Rightarrow> string \<Rightarrow> protection_reason \<Rightarrow> string \<Rightarrow> bool" where
  \<comment> \<open>the operation ends the signal: its source takes it back, or the session goes\<close>
  "releases (RegistryFocus input focused source target now) sid rid reason src \<longleftrightarrow> \<not> focused \<and>
    reason = ReasonFocused \<and> lk_sessionId input = sid \<and> lk_rowId input = rid \<and> or_else source DEFAULT_SOURCE_ID = src"
| "releases (RegistrySelect s rowIds active e source menu now) sid rid reason src \<longleftrightarrow> \<not> active \<and>
    reason = ReasonSelection \<and> s = sid \<and> rid \<in> set rowIds \<and> or_else source DEFAULT_SOURCE_ID = src"
| "releases (RegistryClearSelection s source) sid rid reason src \<longleftrightarrow>
    reason = ReasonSelection \<and> s = sid \<and> or_else source DEFAULT_SOURCE_ID = src"
| "releases (RegistryOverlay input isOpen overlay kind now) sid rid reason src \<longleftrightarrow> \<not> isOpen \<and>
    reason = ReasonOpenOverlay \<and> lk_sessionId input = sid \<and> lk_rowId input = rid \<and> overlay_source kind overlay = src"
| "releases (RegistryMcp input active kind source ttl now) sid rid reason src \<longleftrightarrow> \<not> active \<and>
    reason = ReasonActiveMcp \<and> lk_sessionId input = sid \<and> lk_rowId input = rid \<and> or_else source (mcp_name kind) = src"
| "releases (RegistryStream input active source now) sid rid reason src \<longleftrightarrow> \<not> active \<and>
    reason = ReasonActiveStream \<and> lk_sessionId input = sid \<and> lk_rowId input = rid \<and> or_else source DEFAULT_SOURCE_ID = src"
| "releases (RegistryCleanupSession s) sid rid reason src \<longleftrightarrow> s = sid"
| "releases (RegistryPromote old new e) sid rid reason src \<longleftrightarrow> old = sid"
| "releases _ sid rid reason src \<longleftrightarrow> False"

lemma held_fields [simp]:
  "held (g\<lparr>rg_notified := x\<rparr>) = held g" "held (g\<lparr>rg_stateChangeListeners := y\<rparr>) = held g"
  "held (g\<lparr>rg_lastDiagnosticsBySession := z\<rparr>) = held g"
  by (simp_all add: held_def row_at_def fun_eq_iff)

lemma held_map:
  assumes "held g sid rid reason src" "row_at g' sid rid = map_option f (row_at g sid rid)"
    "\<And>r. row_at g sid rid = Some r \<Longrightarrow> obj_get (rw_protectionSignals r) (getSignalKey reason src) \<noteq> None \<Longrightarrow>
      obj_get (rw_protectionSignals (f r)) (getSignalKey reason src) \<noteq> None"
  shows "held g' sid rid reason src"
  using assms by (auto simp: held_def)

lemma held_same: "held g sid rid reason src \<Longrightarrow> row_at g' sid rid = row_at g sid rid \<Longrightarrow> held g' sid rid reason src"
  by (simp add: held_def)

lemma held_select:
  assumes "registry_ok g" "held g sid rid reason src"
    "active \<or> \<not> (reason = ReasonSelection \<and> s = sid \<and> rid \<in> set rowIds \<and> source = src)"
  shows "held (select_rows s e (select_record active source menu now) now rowIds g) sid rid reason src"
  using assms
proof (induction rowIds arbitrary: g)
  case (Cons rowId rowIds)
  let ?in = "\<lparr>lk_sessionId = s, lk_rowId = rowId, lk_sessionEpoch = e\<rparr>"
  let ?g = "snd (with_record ?in now (select_record active source menu now) g)"
  have "held ?g sid rid reason src"
    using Cons.prems(3)
    by (intro held_with_record Cons.prems(1,2)) (auto simp: keeps_def select_record_def Let_def)
  then show ?case using Cons.IH [of ?g] Cons.prems with_record_spec(1) [OF Cons.prems(1)] by auto
qed simp

lemma writable_held: "registry_ok g \<Longrightarrow> getWritableSession sid e g = (s, g') \<Longrightarrow> held g' = held g"
  using writable_spec(2) by (simp add: held_def fun_eq_iff)

lemma promote_rows:
  assumes "registry_ok g" "sid \<noteq> old"
  shows "row_at (snd (promoteSession old new e g)) sid rid =
    (if sid = new then case row_at g new rid of None \<Rightarrow> row_at g old rid | Some r \<Rightarrow> Some r else row_at g sid rid)"
  using assms
  by (auto simp: promoteSession_def row_at_def Let_def promoteStoredDiagnostics_def merge_rows_get split: option.split)

lemma interaction_step:
  assumes "registry_ok g \<and> held g sid rid reason src" "lasting reason \<and> \<not> releases a sid rid reason src"
  shows "registry_ok (registry_step lc a g) \<and> held (registry_step lc a g) sid rid reason src"
proof
  have ok: "registry_ok g" and h: "held g sid rid reason src" and l: "lasting reason"
    and nr: "\<not> releases a sid rid reason src" using assms by simp_all
  note rec = held_with_record [OF ok _ h]
  show "registry_ok (registry_step lc a g)" by (rule registry_step_ok [OF ok])
  show "held (registry_step lc a g) sid rid reason src"
  proof (cases a)
    case (RegistrySetEpoch s e)
    show ?thesis unfolding RegistrySetEpoch registry_step_def
      by (rule held_same [OF h])
        (auto simp: setSessionEpoch_def getOrCreateSession_def Let_def put_session_record_def row_at_def split: option.split)
  next
    case (RegistryGet input now)
    show ?thesis unfolding RegistryGet registry_step_def
      using h ok by (auto simp: getRowState_def getReadableSession_def held_def row_at_put_record row_at_def [of g]
          registry_ok_def session_ok_def split: option.splits if_splits)
  next
    case (RegistrySelect s rowIds active e source menu now)
    obtain x g1 where w: "getWritableSession s e g = (x, g1)" by fastforce
    then have "registry_ok g1" "held g1 sid rid reason src" using writable_spec(1) [OF ok w] writable_held [OF ok w] h by simp_all
    then show ?thesis using nr
      by (auto simp: RegistrySelect registry_step_def setSelectionProtection_def w held_select split: option.split)
  next
    case (RegistryClearSelection s source)
    have "row_at (clearSelectionProtection s source g) sid rid =
        (if s = sid then map_option (deselect_record (or_else source DEFAULT_SOURCE_ID)) (row_at g sid rid) else row_at g sid rid)"
      by (cases "obj_get (rg_sessions g) s")
        (auto simp: clearSelectionProtection_def row_at_put_session obj_get_map, simp_all add: row_at_def)
    then show ?thesis using h nr
      by (auto simp: RegistryClearSelection registry_step_def held_def deselect_record_def Let_def)
  next
    case (RegistryEvaluate s e rows visible now)
    obtain n x g1 where p: "prune_writable s e now g = (n, x, g1)" by (metis prod_cases3)
    have "row_at (registry_step lc a g) sid rid = row_at g1 sid rid"
      by (simp add: RegistryEvaluate registry_step_def row_at_cong [OF evaluate_sessions] p)
    then have "row_at (registry_step lc a g) sid rid =
        map_option (if sid = s \<and> x \<noteq> None then prune_record now else (\<lambda>r. r)) (row_at g sid rid)"
      using prune_writable_spec(4) [OF ok p, of sid rid] by (auto simp: option.map_ident)
    then show ?thesis
      by (rule held_map [OF h]) (use registry_ok_row [OF ok] held_prune l in \<open>auto split: if_splits\<close>)
  next
    case (RegistryCleanupExpired now)
    have "row_at (registry_step lc a g) sid rid = map_option (prune_record now) (row_at g sid rid)"
      by (simp add: RegistryCleanupExpired registry_step_def cleanupExpired_def row_at_def obj_get_map prune_session_ok(3)
          split: option.split)
    then show ?thesis
      by (rule held_map [OF h]) (use registry_ok_row [OF ok] held_prune l in auto)
  next
    case (RegistryCleanupSession s)
    then show ?thesis using nr
      by (intro held_same [OF h]) (auto simp: registry_step_def registryCleanupSession_def row_at_def split: option.split)
  next
    case (RegistryPromote old new e)
    then have "sid \<noteq> old" using nr by auto
    from promote_rows [OF ok this, of new e] h show ?thesis
      by (auto simp: RegistryPromote registry_step_def held_def)
  next
    case (RegistryUpdate input f recent now)
    show ?thesis unfolding RegistryUpdate registry_step_def
      by (simp add: updateRowState_def Let_def split_beta notifyStateChange_def split: option.split)
        (auto intro!: rec simp: good_change_def keeps_def)
  next
    case (RegistryPatch input p recent now)
    show ?thesis unfolding RegistryPatch registry_step_def
      by (simp add: patchRowState_def updateRowState_def Let_def split_beta notifyStateChange_def split: option.split)
        (auto intro!: rec simp: good_change_def keeps_def)
  qed (use nr l h in \<open>auto intro!: rec simp: registry_step_def Let_def split_beta good_change_def keeps_def
    getOrCreateRowState_def setFocusedRow_def setOpenOverlay_def setMcpActivity_def setActiveStreamingRow_def
    markRowInteracted_def subscribeToStateChanges_def unsubscribeFromStateChanges_def\<close>)
qed

interpretation interaction: step_system "registry_step lc" "\<lambda>a _. lasting reason \<and> \<not> releases a sid rid reason src"
    "\<lambda>g. registry_ok g \<and> held g sid rid reason src" for lc sid rid reason src
  by unfold_locales (rule interaction_step)

lemma held_run:
  assumes "registry_ok g" "held g sid rid reason src" "lasting reason" "\<forall>a \<in> set actions. \<not> releases a sid rid reason src"
  shows "registry_ok (fold (registry_step lc) actions g) \<and> held (fold (registry_step lc) actions g) sid rid reason src"
  using assms
proof (induction actions arbitrary: g)
  case (Cons a actions)
  then show ?case using interaction.step_inv [of g sid rid reason src a lc] by simp
qed simp

section \<open>Superseded sessions\<close>

fun epoch_of :: "registry_action \<Rightarrow> (string \<times> session_epoch) option" where
  "epoch_of (RegistryGetOrCreate input now) = map_option (Pair (lk_sessionId input)) (lk_sessionEpoch input)"
| "epoch_of (RegistryGet input now) = map_option (Pair (lk_sessionId input)) (lk_sessionEpoch input)"
| "epoch_of (RegistryUpdate input f recent now) = map_option (Pair (lk_sessionId input)) (lk_sessionEpoch input)"
| "epoch_of (RegistryPatch input p recent now) = map_option (Pair (lk_sessionId input)) (lk_sessionEpoch input)"
| "epoch_of (RegistryFocus input focused source target now) = map_option (Pair (lk_sessionId input)) (lk_sessionEpoch input)"
| "epoch_of (RegistrySelect sid rowIds active e source menu now) = map_option (Pair sid) e"
| "epoch_of (RegistryOverlay input isOpen overlay kind now) = map_option (Pair (lk_sessionId input)) (lk_sessionEpoch input)"
| "epoch_of (RegistryMcp input active kind source ttl now) = map_option (Pair (lk_sessionId input)) (lk_sessionEpoch input)"
| "epoch_of (RegistryStream input active source now) = map_option (Pair (lk_sessionId input)) (lk_sessionEpoch input)"
| "epoch_of (RegistryInteracted input source ttl now) = map_option (Pair (lk_sessionId input)) (lk_sessionEpoch input)"
| "epoch_of (RegistryEvaluate sid e rows visible now) = map_option (Pair sid) e"
| "epoch_of _ = None"

lemma stale_writable:
  "obj_get (rg_sessions g) sid = Some s \<Longrightarrow> e < sn_sessionEpoch s \<Longrightarrow> getWritableSession sid (Some e) g = (None, g)"
  by (simp add: getWritableSession_def getOrCreateSession_def)

lemma stale_record:
  "obj_get (rg_sessions g) (lk_sessionId input) = Some s \<Longrightarrow> lk_sessionEpoch input = Some e \<Longrightarrow> e < sn_sessionEpoch s \<Longrightarrow>
    with_record input now change g = (None, g)"
  by (simp add: with_record_def getOrCreateRowRecord_def stale_writable)

text \<open>
  A superseded session is read and written no more: an operation that carries an older epoch than the
  session has leaves every row state and every signal as it is and tells no listener.
\<close>

lemma stale_epoch_refused:
  assumes "epoch_of a = Some (sid, e)" "obj_get (rg_sessions g) sid = Some s" "e < sn_sessionEpoch s"
  shows "rg_sessions (registry_step lc a g) = rg_sessions g \<and> rg_notified (registry_step lc a g) = rg_notified g"
  using assms
  by (cases a) (auto simp: registry_step_def Let_def stale_record stale_writable getOrCreateRowState_def getRowState_def
      getReadableSession_def updateRowState_def patchRowState_def setFocusedRow_def setSelectionProtection_def
      setOpenOverlay_def setMcpActivity_def setActiveStreamingRow_def markRowInteracted_def evaluateKeepAlive_def
      prune_writable_def)

section \<open>Promotion\<close>

text \<open>
  A draft session that gets its backend id keeps its rows: afterwards the new session has the rows it had
  and those of the old one that it did not have, no other session changes, and the old one is gone.
\<close>

lemma promotion_moves_rows:
  assumes "registry_ok g" "obj_get (rg_sessions g) old \<noteq> None" "old \<noteq> new"
  shows "let g' = snd (promoteSession old new e g) in
    obj_get (rg_sessions g') old = None \<and>
    row_at g' new rid = (case row_at g new rid of None \<Rightarrow> row_at g old rid | Some r \<Rightarrow> Some r) \<and>
    (\<forall>sid. sid \<noteq> old \<and> sid \<noteq> new \<longrightarrow> row_at g' sid rid = row_at g sid rid)"
proof -
  have "obj_get (rg_sessions (snd (promoteSession old new e g))) old = None"
    using assms(2,3) by (auto simp: promoteSession_def promoteStoredDiagnostics_def Let_def split: option.split)
  then show ?thesis using promote_rows [OF assms(1)] assms(3) by (simp add: Let_def)
qed

text \<open>
  Promoting a session to the id it has already loses it: its own record is merged into itself and then
  deleted with all its rows, and the result reports them as promoted.
\<close>

lemma promotion_to_itself_loses_session:
  assumes "obj_get (rg_sessions g) sid = Some s"
  shows "obj_get (rg_sessions (snd (promoteSession sid sid e g))) sid = None \<and>
    pr_promotedRowStateCount (fst (promoteSession sid sid e g)) = length (sn_rows s)"
  using assms by (simp add: promoteSession_def Let_def)

text \<open>
  Two sources may protect the same selected row; when one of them ends, the state of the row says that it
  is not protected while the signal of the other still protects it.
\<close>

lemma selection_flag_forgets_other_source:
  assumes "obj_get (rw_protectionSignals r) (getSignalKey ReasonSelection other) = Some sig" "other \<noteq> src"
  shows "du_selectionProtected (rw_state (select_record False src menu now r)) = Some False \<and>
    obj_get (rw_protectionSignals (select_record False src menu now r)) (getSignalKey ReasonSelection other) = Some sig"
  using assms by (simp add: select_record_def Let_def)

end
