(* ===== verification/KeepAlive.thy ===== *)
theory KeepAlive
  imports RowStateRuns
begin

text \<open>
  Which rows stay mounted: the decision of \<open>evaluateKeepAlive\<close> divides the rows that something asks to
  keep, and a row that the user interacts with stays in the rendered range until the interaction ends.
\<close>

section \<open>Sorting\<close>

lemma insert_by_mset [simp]: "mset (insert_by cmp x xs) = add_mset x (mset xs)"
  by (induction xs) auto

lemma sort_by_mset [simp]: "mset (sort_by cmp xs) = mset xs"
  by (induction xs) (simp_all add: sort_by_def)

lemma sort_by_set [simp]: "set (sort_by cmp xs) = set xs"
  using sort_by_mset by (metis set_mset_mset)

lemma sort_by_distinct [simp]: "distinct (sort_by cmp xs) = distinct xs"
  using sort_by_mset by (metis mset_eq_imp_distinct_iff)

lemma unique_sorted: "sorted_wrt (<) (uniqueSortedRowIds cs)" "set (uniqueSortedRowIds cs) = kc_rowId ` set cs"
  by (simp_all add: uniqueSortedRowIds_def strict_sorted_iff)

section \<open>Candidates\<close>

definition cands_ok :: "candidate_input list \<Rightarrow> keep_candidate jsobj \<Rightarrow> bool" where
  "cands_ok inputs m \<longleftrightarrow> obj_wf m \<and> (\<forall>k. case obj_get m k of
      None \<Rightarrow> (\<forall>i \<in> set inputs. ci_rowId i \<noteq> k)
    | Some c \<Rightarrow> kc_rowId c = k \<and> (\<exists>i \<in> set inputs. ci_rowId i = k) \<and>
        set (kc_priorities c) = ci_priority ` {i \<in> set inputs. ci_rowId i = k})"

lemma set_add_set [simp]: "set (set_add x xs) = insert x (set xs)"
  by (auto simp: set_add_def)

lemma upsert_ok: "cands_ok inputs m \<Longrightarrow> cands_ok (inputs @ [i]) (upsertCandidate i m)"
proof -
  assume ok: "cands_ok inputs m"
  have "case obj_get (upsertCandidate i m) k of
      None \<Rightarrow> (\<forall>i \<in> set (inputs @ [i]). ci_rowId i \<noteq> k)
    | Some c \<Rightarrow> kc_rowId c = k \<and> (\<exists>i \<in> set (inputs @ [i]). ci_rowId i = k) \<and>
        set (kc_priorities c) = ci_priority ` {j \<in> set (inputs @ [i]). ci_rowId j = k}" for k
  proof -
    have old: "case obj_get m k of
        None \<Rightarrow> (\<forall>i \<in> set inputs. ci_rowId i \<noteq> k)
      | Some c \<Rightarrow> kc_rowId c = k \<and> (\<exists>i \<in> set inputs. ci_rowId i = k) \<and>
          set (kc_priorities c) = ci_priority ` {i \<in> set inputs. ci_rowId i = k}"
      using ok unfolding cands_ok_def by blast
    show ?thesis
    proof (cases "ci_rowId i = k")
      case True
      then show ?thesis using old by (cases "obj_get m k") (auto simp: upsertCandidate_def)
    next
      case False
      then have "obj_get (upsertCandidate i m) k = obj_get m k" by (simp add: upsertCandidate_def split: option.split)
      moreover have "{j \<in> set (inputs @ [i]). ci_rowId j = k} = {i \<in> set inputs. ci_rowId i = k}" using False by auto
      ultimately show ?thesis using old False by (auto split: option.splits)
    qed
  qed
  moreover have "obj_wf (upsertCandidate i m)" using ok by (auto simp: cands_ok_def upsertCandidate_def split: option.split)
  ultimately show ?thesis unfolding cands_ok_def by blast
qed

lemma upsert_all_ok: "cands_ok seen m \<Longrightarrow> cands_ok (seen @ inputs) (fold upsertCandidate inputs m)"
proof (induction inputs arbitrary: seen m)
  case (Cons i inputs)
  from Cons.IH [OF upsert_ok [OF Cons.prems, of i]] show ?case by simp
qed simp

definition candidate_inputs :: "session_record option \<Rightarrow> kept_row list \<Rightarrow> js_number \<Rightarrow> candidate_input list" where
  "candidate_inputs s rows now = (case s of None \<Rightarrow> [] | Some s \<Rightarrow> signal_inputs s) @ row_inputs rows now"

lemma collect_spec:
  fixes s rows now
  defines "cs \<equiv> collectCandidates s rows now" and "inputs \<equiv> candidate_inputs s rows now"
  shows "distinct (map kc_rowId cs)" "kc_rowId ` set cs = ci_rowId ` set inputs"
    "c \<in> set cs \<Longrightarrow> p \<in> set (kc_priorities c) \<longleftrightarrow> (\<exists>i \<in> set inputs. ci_rowId i = kc_rowId c \<and> ci_priority i = p)"
proof -
  define m where "m = fold upsertCandidate inputs []"
  have cs: "cs = map snd m" by (simp add: cs_def m_def inputs_def candidate_inputs_def collectCandidates_def)
  have "cands_ok ([] @ inputs) m" unfolding m_def by (rule upsert_all_ok) (simp add: cands_ok_def)
  then have ok: "cands_ok inputs m" by simp
  then have wf: "obj_wf m" by (simp add: cands_ok_def)
  have el: "kc_rowId c = k \<and> (\<exists>i \<in> set inputs. ci_rowId i = k) \<and>
      set (kc_priorities c) = ci_priority ` {i \<in> set inputs. ci_rowId i = k}" if "(k, c) \<in> set m" for k c
  proof -
    have "obj_get m k = Some c" using that wf by (simp add: obj_get_in)
    with ok [unfolded cands_ok_def, THEN conjunct2, THEN spec [of _ k]] show ?thesis by simp
  qed
  have "map kc_rowId cs = map fst m" using el by (simp add: cs)
  then show "distinct (map kc_rowId cs)" using wf by (simp add: obj_wf_def)
  show "kc_rowId ` set cs = ci_rowId ` set inputs"
  proof (intro equalityI subsetI)
    fix k assume "k \<in> ci_rowId ` set inputs"
    then have "obj_get m k \<noteq> None" using ok unfolding cands_ok_def by (auto split: option.splits)
    then obtain c where c: "(k, c) \<in> set m" using wf by (auto simp: obj_get_in)
    then have "kc_rowId c = k" "c \<in> set cs" using el [OF c] by (auto simp: cs intro: rev_image_eqI)
    then show "k \<in> kc_rowId ` set cs" by blast
  next
    fix k assume "k \<in> kc_rowId ` set cs"
    then obtain k' c where "(k', c) \<in> set m" "k = kc_rowId c" by (auto simp: cs)
    then show "k \<in> ci_rowId ` set inputs" using el [of k' c] by (auto intro: rev_image_eqI)
  qed
  show "p \<in> set (kc_priorities c) \<longleftrightarrow> (\<exists>i \<in> set inputs. ci_rowId i = kc_rowId c \<and> ci_priority i = p)" if c: "c \<in> set cs"
  proof -
    obtain k where "(k, c) \<in> set m" using c by (auto simp: cs)
    from el [OF this] show ?thesis by auto
  qed
qed

section \<open>Who asks\<close>

definition live_signal :: "row_registry \<Rightarrow> string \<Rightarrow> string \<Rightarrow> js_number \<Rightarrow> keep_alive_priority \<Rightarrow> bool" where
  "live_signal g sid rid now p \<longleftrightarrow> (\<exists>reason src r sig. row_at g sid rid = Some r \<and>
    obj_get (rw_protectionSignals r) (getSignalKey reason src) = Some sig \<and> \<not> expired now sig \<and> priorityForReason reason = p)"

definition current_epoch :: "row_registry \<Rightarrow> string \<Rightarrow> session_epoch option \<Rightarrow> bool" where
  "current_epoch g sid e \<longleftrightarrow> (case (obj_get (rg_sessions g) sid, e) of
      (Some s, Some n) \<Rightarrow> sn_sessionEpoch s \<le> n
    | _ \<Rightarrow> True)"

definition asks ::
    "row_registry \<Rightarrow> string \<Rightarrow> session_epoch option \<Rightarrow> kept_row list \<Rightarrow> js_number \<Rightarrow> string \<Rightarrow> keep_alive_priority \<Rightarrow> bool" where
  \<comment> \<open>a row of the transcript or a live signal asks to keep the row, with a priority\<close>
  "asks g sid e rows now rid p \<longleftrightarrow>
    (\<exists>row \<in> set rows. rd_rowId row = rid \<and> kr_keepAlivePriority row = p \<and> p \<noteq> KeepNone) \<or>
    current_epoch g sid e \<and> live_signal g sid rid now p"

lemma writable_current:
  "registry_ok g \<Longrightarrow> fst (getWritableSession sid e g) = None \<longleftrightarrow> \<not> current_epoch g sid e"
  by (auto simp: getWritableSession_def getOrCreateSession_def current_epoch_def Let_def split: option.splits)

lemma signal_inputs_spec:
  assumes "session_ok s"
  shows "(\<exists>i \<in> set (signal_inputs s). ci_rowId i = rid \<and> ci_priority i = p) \<longleftrightarrow>
    (\<exists>r k sig. obj_get (sn_rows s) rid = Some r \<and> obj_get (rw_protectionSignals r) k = Some sig \<and>
      priorityForReason (pg_reason sig) = p)"
proof -
  have el: "(k, r) \<in> set (sn_rows s) \<longleftrightarrow> obj_get (sn_rows s) k = Some r" for k r
    using assms by (simp add: session_ok_def obj_get_in)
  have sg: "(k', sig) \<in> set (rw_protectionSignals r) \<longleftrightarrow> obj_get (rw_protectionSignals r) k' = Some sig"
    if "obj_get (sn_rows s) k = Some r" for k r k' sig
    using assms that by (auto simp: session_ok_def record_ok_def obj_get_in)
  have id: "rw_rowId r = k" if "obj_get (sn_rows s) k = Some r" for k r using assms that by (auto simp: session_ok_def)
  show ?thesis
  proof
    assume "\<exists>i \<in> set (signal_inputs s). ci_rowId i = rid \<and> ci_priority i = p"
    then obtain k r k' sig where "(k, r) \<in> set (sn_rows s)" "(k', sig) \<in> set (rw_protectionSignals r)" "rw_rowId r = rid"
      "priorityForReason (pg_reason sig) = p"
      by (auto simp: signal_inputs_def)
    then show "\<exists>r k sig. obj_get (sn_rows s) rid = Some r \<and> obj_get (rw_protectionSignals r) k = Some sig \<and>
      priorityForReason (pg_reason sig) = p" using el sg id by metis
  next
    assume "\<exists>r k sig. obj_get (sn_rows s) rid = Some r \<and> obj_get (rw_protectionSignals r) k = Some sig \<and>
      priorityForReason (pg_reason sig) = p"
    then obtain r k sig where at: "obj_get (sn_rows s) rid = Some r" "obj_get (rw_protectionSignals r) k = Some sig"
      and p: "priorityForReason (pg_reason sig) = p" by blast
    have "(rid, r) \<in> set (sn_rows s)" "(k, sig) \<in> set (rw_protectionSignals r)" "rw_rowId r = rid"
      using el sg [OF at(1)] id [OF at(1)] at by simp_all
    with p show "\<exists>i \<in> set (signal_inputs s). ci_rowId i = rid \<and> ci_priority i = p"
      by (simp add: signal_inputs_def split_beta) (rule bexI [of _ "(rid, r)"], simp, rule bexI [of _ "(k, sig)"], simp_all)
  qed
qed

lemma row_inputs_spec:
  "(\<exists>i \<in> set (row_inputs rows now). ci_rowId i = rid \<and> ci_priority i = p) \<longleftrightarrow>
    (\<exists>row \<in> set rows. rd_rowId row = rid \<and> kr_keepAlivePriority row = p \<and> p \<noteq> KeepNone)"
proof -
  have "set rows = snd ` set (enumerate 0 rows)" by (metis list.set_map map_snd_enumerate)
  then show ?thesis by (force simp: row_inputs_def split: if_splits)
qed

lemma asks_inputs:
  assumes "registry_ok g" "prune_writable sid e now g = (n, s, g')"
  shows "(\<exists>i \<in> set (candidate_inputs s rows now). ci_rowId i = rid \<and> ci_priority i = p) \<longleftrightarrow> asks g sid e rows now rid p"
proof -
  note ps = prune_writable_spec [OF assms]
  have none: "s = None \<longleftrightarrow> \<not> current_epoch g sid e" using ps(5) writable_current [OF assms(1)] by simp
  have sig: "(\<exists>i \<in> set (signal_inputs x). ci_rowId i = rid \<and> ci_priority i = p) \<longleftrightarrow> live_signal g sid rid now p"
    if x: "s = Some x" for x
  proof -
    have at: "obj_get (rg_sessions g') sid = Some x" using ps(3) x by simp
    then have ok: "session_ok x" using registry_ok_session [OF ps(1)] by blast
    have row: "obj_get (sn_rows x) rid = map_option (prune_record now) (row_at g sid rid)"
      using ps(4) [of sid rid] x at by (simp add: row_at_def [of g'])
    show ?thesis
    proof (cases "row_at g sid rid")
      case None
      then show ?thesis using row by (simp add: signal_inputs_spec [OF ok] live_signal_def)
    next
      case (Some r)
      have rok: "record_ok r" using registry_ok_row [OF assms(1) Some] by simp
      have "(\<exists>k sg. obj_get (rw_protectionSignals (prune_record now r)) k = Some sg \<and> priorityForReason (pg_reason sg) = p) \<longleftrightarrow>
          (\<exists>reason src sg. obj_get (rw_protectionSignals r) (getSignalKey reason src) = Some sg \<and> \<not> expired now sg \<and>
            priorityForReason reason = p)"
      proof
        assume "\<exists>k sg. obj_get (rw_protectionSignals (prune_record now r)) k = Some sg \<and> priorityForReason (pg_reason sg) = p"
        then obtain k sg where "obj_get (rw_protectionSignals r) k = Some sg" "\<not> expired now sg" "priorityForReason (pg_reason sg) = p"
          using rok by (auto simp: record_ok_def prune_get split: option.splits if_splits)
        moreover from this(1) have "k = getSignalKey (pg_reason sg) (pg_sourceId sg)" using rok by (auto simp: record_ok_def signal_ok_def)
        ultimately show "\<exists>reason src sg. obj_get (rw_protectionSignals r) (getSignalKey reason src) = Some sg \<and>
            \<not> expired now sg \<and> priorityForReason reason = p" by blast
      next
        assume "\<exists>reason src sg. obj_get (rw_protectionSignals r) (getSignalKey reason src) = Some sg \<and> \<not> expired now sg \<and>
            priorityForReason reason = p"
        then obtain reason src sg where sg: "obj_get (rw_protectionSignals r) (getSignalKey reason src) = Some sg"
          "\<not> expired now sg" "priorityForReason reason = p" by blast
        have "signal_ok (getSignalKey reason src) sg" using sg(1) rok by (simp add: record_ok_def)
        then have "pg_reason sg = reason" by (simp add: signal_ok_def)
        then show "\<exists>k sg. obj_get (rw_protectionSignals (prune_record now r)) k = Some sg \<and> priorityForReason (pg_reason sg) = p"
          using sg rok by (intro exI [of _ "getSignalKey reason src"] exI [of _ sg]) (simp add: record_ok_def prune_get)
      qed
      then show ?thesis using row Some by (simp add: signal_inputs_spec [OF ok] live_signal_def)
    qed
  qed
  have "(\<exists>i \<in> set (candidate_inputs s rows now). ci_rowId i = rid \<and> ci_priority i = p) \<longleftrightarrow>
      (case s of None \<Rightarrow> False | Some x \<Rightarrow> \<exists>i \<in> set (signal_inputs x). ci_rowId i = rid \<and> ci_priority i = p) \<or>
      (\<exists>i \<in> set (row_inputs rows now). ci_rowId i = rid \<and> ci_priority i = p)"
    by (auto simp: candidate_inputs_def split: option.splits)
  then show ?thesis unfolding row_inputs_spec asks_def
    using none sig by (cases s) auto
qed

lemma asks_not_none: "asks g sid e rows now rid p \<Longrightarrow> p \<noteq> KeepNone"
proof -
  have "priorityForReason reason \<noteq> KeepNone" for reason by (cases reason) simp_all
  then show "asks g sid e rows now rid p \<Longrightarrow> p \<noteq> KeepNone" by (auto simp: asks_def live_signal_def)
qed

section \<open>Selection\<close>

definition kept_by :: "candidate_selection \<Rightarrow> keep_candidate list" where
  "kept_by selection = se_forced selection @ se_mcp selection @ se_recent selection"

lemma partition_sets:
  assumes "I = {c \<in> C. hI c}" "A = {c \<in> C. c \<notin> I \<and> hA c}" "PA \<union> OV = A" "PA \<inter> OV = {}"
    "MC = {c \<in> C. c \<notin> I \<union> PA \<and> hM c}" "M \<union> EM = MC" "M \<inter> EM = {}"
    "RC = {c \<in> C. c \<notin> I \<union> PA \<and> c \<notin> A \<and> c \<notin> M \<and> \<not> hM c \<and> hR c}" "R \<union> ER = RC" "R \<inter> ER = {}"
    "\<forall>c \<in> C. hI c \<or> hA c \<or> hM c \<or> hR c"
  shows "(I \<union> PA \<union> M \<union> R) \<union> ((OV - M) \<union> EM \<union> ER) = C" "(I \<union> PA \<union> M \<union> R) \<inter> ((OV - M) \<union> EM \<union> ER) = {}"
  using assms by blast+

lemma take_drop_sets:
  "set (take n xs) \<union> set (drop n xs) = set xs" "distinct xs \<Longrightarrow> set (take n xs) \<inter> set (drop n xs) = {}"
  by (metis append_take_drop_id set_append) (simp add: set_take_disj_set_drop_if_distinct)

lemma select_spec:
  fixes cs lc policy
  assumes "distinct (map kc_rowId cs)"
    "\<forall>c \<in> set cs. hasInteractionPriority c \<or> has_priority KeepActiveStream c \<or> has_priority KeepActiveMcp c \<or> has_priority KeepRecent c"
  defines "sel \<equiv> selectCandidates lc cs policy"
  shows "set (kept_by sel) \<union> set (evicted_candidates sel) = set cs" "set (kept_by sel) \<inter> set (evicted_candidates sel) = {}"
    "{c \<in> set cs. hasInteractionPriority c} \<subseteq> set (kept_by sel)"
    "card (set (kept_by sel) - {c \<in> set cs. hasInteractionPriority c}) \<le>
      kp_activeStreamRowsPerSessionCap policy + kp_mcpRowsPerSessionCap policy + kp_recentRowsPerSessionCap policy"
proof -
  have inj: "inj_on kc_rowId (set cs)" and dist: "distinct cs" using assms(1) by (simp_all add: distinct_map)
  have mem: "kc_rowId c \<in> kc_rowId ` S \<longleftrightarrow> c \<in> S" if "c \<in> set cs" "S \<subseteq> set cs" for c S
    using inj_on_image_mem_iff [OF inj that] by simp
  define srt where "srt = (\<lambda>p. sort_by (compareCandidatePriority lc) (filter p cs))"
  define I where "I = srt hasInteractionPriority"
  define A where "A = srt (\<lambda>c. kc_rowId c \<notin> set (map kc_rowId I) \<and> has_priority KeepActiveStream c)"
  define PA where "PA = take (kp_activeStreamRowsPerSessionCap policy) A"
  define OV where "OV = drop (kp_activeStreamRowsPerSessionCap policy) A"
  define MC where "MC = srt (\<lambda>c. kc_rowId c \<notin> set (map kc_rowId (I @ PA)) \<and> has_priority KeepActiveMcp c)"
  define M where "M = take (kp_mcpRowsPerSessionCap policy) MC"
  define EM where "EM = drop (kp_mcpRowsPerSessionCap policy) MC"
  define RC where "RC = srt (\<lambda>c. kc_rowId c \<notin> set (map kc_rowId (I @ PA)) \<and> kc_rowId c \<notin> set (map kc_rowId A) \<and>
    kc_rowId c \<notin> set (map kc_rowId M) \<and> \<not> has_priority KeepActiveMcp c \<and> has_priority KeepRecent c)"
  define R where "R = take (kp_recentRowsPerSessionCap policy) RC"
  define ER where "ER = drop (kp_recentRowsPerSessionCap policy) RC"
  define EA where "EA = filter (\<lambda>c. kc_rowId c \<notin> set (map kc_rowId M)) OV"
  have sel: "sel = \<lparr>se_forced = I @ PA, se_mcp = M, se_recent = R, se_evictedActiveStream = EA, se_evictedMcp = EM, se_evictedRecent = ER\<rparr>"
    by (simp only: sel_def selectCandidates_def Let_def I_def A_def PA_def OV_def MC_def M_def EM_def RC_def R_def ER_def EA_def srt_def)
  have dS: "distinct (srt p)" "set (srt p) = {c \<in> set cs. p c}" for p using dist by (simp_all add: srt_def)
  have I: "set I = {c \<in> set cs. hasInteractionPriority c}" unfolding I_def dS ..
  have A: "set A = {c \<in> set cs. c \<notin> set I \<and> has_priority KeepActiveStream c}"
    unfolding A_def dS set_map using mem [of _ "set I"] I by auto
  have PA: "set PA \<union> set OV = set A" "set PA \<inter> set OV = {}"
    unfolding PA_def OV_def by (simp_all add: take_drop_sets A_def dS(1))
  have sub: "set I \<subseteq> set cs" "set A \<subseteq> set cs" "set PA \<subseteq> set cs" "set OV \<subseteq> set cs" using I A PA by auto
  have MC: "set MC = {c \<in> set cs. c \<notin> set I \<union> set PA \<and> has_priority KeepActiveMcp c}"
    unfolding MC_def dS set_map set_append using mem [of _ "set I \<union> set PA"] sub by auto
  have M: "set M \<union> set EM = set MC" "set M \<inter> set EM = {}"
    unfolding M_def EM_def by (simp_all add: take_drop_sets MC_def dS(1))
  have subM: "set M \<subseteq> set cs" using M MC by auto
  have RC: "set RC = {c \<in> set cs. c \<notin> set I \<union> set PA \<and> c \<notin> set A \<and> c \<notin> set M \<and> \<not> has_priority KeepActiveMcp c \<and>
      has_priority KeepRecent c}"
    unfolding RC_def dS set_map set_append
    by (simp add: mem sub subM cong: conj_cong)
  have R: "set R \<union> set ER = set RC" "set R \<inter> set ER = {}"
    unfolding R_def ER_def by (simp_all add: take_drop_sets RC_def dS(1))
  have EA: "set EA = set OV - set M" unfolding EA_def set_map using mem [OF _ subM] sub(4) by auto
  have kept: "set (kept_by sel) = set I \<union> set PA \<union> set M \<union> set R" by (auto simp: sel kept_by_def)
  have ev: "set (evicted_candidates sel) = (set OV - set M) \<union> set EM \<union> set ER" by (auto simp: sel evicted_candidates_def EA)
  note parts = partition_sets [OF I A PA MC M RC R assms(2)]
  show "set (kept_by sel) \<union> set (evicted_candidates sel) = set cs" unfolding kept ev by (rule parts(1))
  show "set (kept_by sel) \<inter> set (evicted_candidates sel) = {}" unfolding kept ev by (rule parts(2))
  show "{c \<in> set cs. hasInteractionPriority c} \<subseteq> set (kept_by sel)" unfolding kept I by auto
  have "card (set (kept_by sel) - {c \<in> set cs. hasInteractionPriority c}) \<le> card (set (PA @ M @ R))"
    unfolding kept I [symmetric] by (intro card_mono) auto
  also have "\<dots> \<le> length (PA @ M @ R)" by (rule card_length)
  also have "\<dots> \<le> kp_activeStreamRowsPerSessionCap policy + kp_mcpRowsPerSessionCap policy + kp_recentRowsPerSessionCap policy"
    by (simp add: PA_def M_def R_def)
  finally show "card (set (kept_by sel) - {c \<in> set cs. hasInteractionPriority c}) \<le>
      kp_activeStreamRowsPerSessionCap policy + kp_mcpRowsPerSessionCap policy + kp_recentRowsPerSessionCap policy" .
qed

section \<open>The decision\<close>

definition interacting :: "keep_alive_priority \<Rightarrow> bool" where
  "interacting p \<longleftrightarrow> p \<in> {KeepFocused, KeepSelection, KeepOpenUi}"

lemma evaluate_spec:
  fixes lc sid e rows visible now g
  assumes "registry_ok g"
  defines "d \<equiv> fst (evaluateKeepAlive lc sid e rows visible now g)"
    and "asked \<equiv> {rid. \<exists>p. asks g sid e rows now rid p}"
    and "acting \<equiv> {rid. \<exists>p. interacting p \<and> asks g sid e rows now rid p}"
  shows "sorted_wrt (<) (ka_protectedRowIds d) \<and> sorted_wrt (<) (ka_evictedRowIds d)"
    "set (ka_protectedRowIds d) \<union> set (ka_evictedRowIds d) = asked"
    "set (ka_protectedRowIds d) \<inter> set (ka_evictedRowIds d) = {}"
    "acting \<subseteq> set (ka_protectedRowIds d)"
    "card (set (ka_protectedRowIds d) - acting) \<le> kp_activeStreamRowsPerSessionCap (rg_policy g) +
      kp_mcpRowsPerSessionCap (rg_policy g) + kp_recentRowsPerSessionCap (rg_policy g)"
proof -
  obtain n s g' where p: "prune_writable sid e now g = (n, s, g')" by (metis prod_cases3)
  define cs where "cs = collectCandidates s rows now"
  define sel where "sel = selectCandidates lc cs (rg_policy g)"
  have d: "ka_protectedRowIds d = uniqueSortedRowIds (kept_by sel)" "ka_evictedRowIds d = uniqueSortedRowIds (evicted_candidates sel)"
    using prune_writable_spec(2) [OF assms(1) p]
    by (simp_all add: d_def evaluateKeepAlive_def p Let_def cs_def sel_def kept_by_def)
  note coll = collect_spec [where s = s and rows = rows and now = now, folded cs_def]
  note ask = asks_inputs [OF assms(1) p]
  have has: "has_priority q c \<longleftrightarrow> asks g sid e rows now (kc_rowId c) q" if "c \<in> set cs" for c q
    using coll(3) [OF that] ask by (simp add: has_priority_def)
  have ids: "kc_rowId ` set cs = asked" unfolding coll(2) asked_def ask [symmetric] by blast
  have acts: "kc_rowId ` {c \<in> set cs. hasInteractionPriority c} = acting"
  proof -
    have "\<forall>c \<in> set cs. hasInteractionPriority c \<longleftrightarrow> kc_rowId c \<in> acting"
      unfolding hasInteractionPriority_def acting_def interacting_def by (auto simp: has)
    moreover have "acting \<subseteq> kc_rowId ` set cs" unfolding ids acting_def asked_def by blast
    ultimately show ?thesis by blast
  qed
  have "hasInteractionPriority c \<or> has_priority KeepActiveStream c \<or> has_priority KeepActiveMcp c \<or> has_priority KeepRecent c"
    if c: "c \<in> set cs" for c
  proof -
    have "kc_rowId c \<in> asked" using c ids by blast
    then obtain q where q: "asks g sid e rows now (kc_rowId c) q" by (auto simp: asked_def)
    with asks_not_none [OF q] show ?thesis
      unfolding hasInteractionPriority_def has [OF c] by (cases q) simp_all
  qed
  then have some: "\<forall>c \<in> set cs. hasInteractionPriority c \<or> has_priority KeepActiveStream c \<or> has_priority KeepActiveMcp c \<or>
      has_priority KeepRecent c" by blast
  note ss = select_spec [OF coll(1) some, of lc "rg_policy g", folded sel_def]
  have inj: "inj_on kc_rowId (set cs)" using coll(1) by (simp add: distinct_map)
  have sub: "set (kept_by sel) \<subseteq> set cs" "set (evicted_candidates sel) \<subseteq> set cs" using ss(1) by auto
  show "sorted_wrt (<) (ka_protectedRowIds d) \<and> sorted_wrt (<) (ka_evictedRowIds d)" by (simp add: d unique_sorted)
  show "set (ka_protectedRowIds d) \<union> set (ka_evictedRowIds d) = asked"
    unfolding d unique_sorted ids [symmetric] ss(1) [symmetric] image_Un ..
  show "set (ka_protectedRowIds d) \<inter> set (ka_evictedRowIds d) = {}"
    unfolding d unique_sorted inj_on_image_Int [OF inj sub, symmetric] ss(2) by simp
  show "acting \<subseteq> set (ka_protectedRowIds d)" unfolding d unique_sorted acts [symmetric] by (rule image_mono [OF ss(3)])
  have "set (ka_protectedRowIds d) - acting = kc_rowId ` (set (kept_by sel) - {c \<in> set cs. hasInteractionPriority c})"
    unfolding d unique_sorted acts [symmetric]
    by (rule inj_on_image_set_diff [OF inj, symmetric]) (use sub(1) in auto)
  then have "card (set (ka_protectedRowIds d) - acting) \<le> card (set (kept_by sel) - {c \<in> set cs. hasInteractionPriority c})"
    by (simp add: card_image_le)
  with ss(4) show "card (set (ka_protectedRowIds d) - acting) \<le> kp_activeStreamRowsPerSessionCap (rg_policy g) +
      kp_mcpRowsPerSessionCap (rg_policy g) + kp_recentRowsPerSessionCap (rg_policy g)" by linarith
qed

text \<open>
  C31. The rows to keep are decided completely and within bounds: after any sequence of operations, every row
  that the transcript or a live signal asks to keep is either protected or evicted and none is both, each
  list is sorted without repetition, a row that is focused, selected or has an open overlay is always
  protected, and beyond those no more rows are protected than the three limits allow together.
\<close>

theorem keep_alive_decision:
  "let g = fold (registry_step lc) actions (createTranscriptRowStateRegistry policy);
       d = fst (evaluateKeepAlive lc sid e rows visible now g);
       acting = {rid. \<exists>p. interacting p \<and> asks g sid e rows now rid p} in
    sorted_wrt (<) (ka_protectedRowIds d) \<and> sorted_wrt (<) (ka_evictedRowIds d) \<and>
    set (ka_protectedRowIds d) \<union> set (ka_evictedRowIds d) = {rid. \<exists>p. asks g sid e rows now rid p} \<and>
    set (ka_protectedRowIds d) \<inter> set (ka_evictedRowIds d) = {} \<and>
    acting \<subseteq> set (ka_protectedRowIds d) \<and>
    card (set (ka_protectedRowIds d) - acting) \<le> kp_activeStreamRowsPerSessionCap (rg_policy g) +
      kp_mcpRowsPerSessionCap (rg_policy g) + kp_recentRowsPerSessionCap (rg_policy g)"
  using evaluate_spec [OF registry_run_ok] by (simp add: Let_def)

section \<open>To the screen\<close>

lemma held_live:
  assumes "registry_ok g" "held g sid rid reason src" "lasting reason"
  shows "live_signal g sid rid now (priorityForReason reason)"
proof -
  obtain r sig where r: "row_at g sid rid = Some r" "obj_get (rw_protectionSignals r) (getSignalKey reason src) = Some sig"
    using assms(2) by (auto simp: held_def)
  have "signal_ok (getSignalKey reason src) sig" using registry_ok_row [OF assms(1) r(1)] r(2) by (simp add: record_ok_def)
  then have "\<not> expired now sig" using assms(3) by (simp add: signal_ok_def expired_def)
  with r show ?thesis by (auto simp: live_signal_def)
qed

lemma rowIndexById_spec:
  assumes "rid \<in> rd_rowId ` set rows"
  obtains i where "rowIndexById rows rid = Some i" "i < length rows" "rd_rowId (rows ! i) = rid"
proof -
  let ?ps = "map (\<lambda>(index, row). (rd_rowId row, index)) (enumerate 0 rows)"
  obtain k where "k < length rows" "rd_rowId (rows ! k) = rid" using assms by (auto simp: in_set_conv_nth)
  then have "(rid, k) \<in> set ?ps" by (force simp: in_set_enumerate_eq)
  then have "rid \<in> fst ` set (rev ?ps)" unfolding set_rev by (rule rev_image_eqI) simp
  then have "rowIndexById rows rid \<noteq> None" unfolding rowIndexById_def map_of_eq_None_iff by simp
  then obtain i where i: "rowIndexById rows rid = Some i" by blast
  then have "(rid, i) \<in> set ?ps" unfolding rowIndexById_def by (metis map_of_SomeD set_rev)
  then show thesis by (intro that [OF i]) (auto simp: in_set_enumerate_eq)
qed

text \<open>
  C30. A row that the user interacts with stays mounted: once a focus, a selection or an open overlay has
  protected a row, then whatever happens to the registry except that the same source ends the interaction or
  the session is removed, a decision that is made for the session's current epoch (not for an older one,
  which protects nothing) keeps the row, and the rows that are rendered contain it, wherever the viewport
  is, when the row is still one of the transcript's rows.
\<close>

theorem held_row_stays_mounted:
  assumes "registry_ok g" "held g sid rid reason src" "interacting (priorityForReason reason)"
    and "\<forall>a \<in> set actions. \<not> releases a sid rid reason src"
    and "current_epoch (fold (registry_step lc) actions g) sid e"
    and "rid \<in> rd_rowId ` set rows" "ts_count rng = int (length rows)"
  shows "let d = fst (evaluateKeepAlive lc sid e rows visible now (fold (registry_step lc) actions g));
      ids = normalizeProtectedRowIds rows (given @ ka_protectedRowIds d) in
    \<exists>i < length rows. rd_rowId (rows ! i) = rid \<and> int i \<in> set (ps_indexes (extractRange height rows os ids rng))"
proof -
  let ?g = "fold (registry_step lc) actions g"
  have last: "lasting reason" using assms(3) by (cases reason) (simp_all add: interacting_def)
  have run: "registry_ok ?g" "held ?g sid rid reason src" using held_run [OF assms(1,2) last assms(4)] by simp_all
  have "asks ?g sid e rows now rid (priorityForReason reason)"
    using held_live [OF run last] assms(5) by (simp add: asks_def)
  then have "rid \<in> set (ka_protectedRowIds (fst (evaluateKeepAlive lc sid e rows visible now ?g)))"
    using evaluate_spec(4) [OF run(1), of sid e rows now lc visible] assms(3) by blast
  moreover define ids where "ids = normalizeProtectedRowIds rows
      (given @ ka_protectedRowIds (fst (evaluateKeepAlive lc sid e rows visible now ?g)))"
  ultimately have mem: "rid \<in> set ids" using assms(6) by (auto simp: normalizeProtectedRowIds_def)
  obtain i where i: "rowIndexById rows rid = Some i" "i < length rows" "rd_rowId (rows ! i) = rid"
    using rowIndexById_spec [OF assms(6)] .
  define prot :: "js_number list" where "prot = concat (map (\<lambda>rowId.
    case rowIndexById rows rowId of None \<Rightarrow> [] | Some index \<Rightarrow> [of_nat index]) ids)"
  have "of_int (int i) \<in> set prot" using mem i(1) by (force simp: prot_def)
  moreover have some: "rows \<noteq> []" "0 < ts_count rng" "int i < ts_count rng" using i(2) assms(7) by auto
  moreover have "\<forall>i. of_int i \<in> set prot \<and> 0 \<le> i \<and> i < ts_count rng \<longrightarrow>
      i \<in> set (ps_indexes (computeTranscriptPixelRangeIndexes height rows rng os prot)) \<and>
      i \<in> set (ps_protectedIndexes (computeTranscriptPixelRangeIndexes height rows rng os prot))"
    using pixel_range_spec [OF some(1,2), where h = height and os = os and prot = prot] by (elim conjE)
  ultimately have "int i \<in> set (ps_indexes (computeTranscriptPixelRangeIndexes height rows rng os prot))"
    by simp
  then show ?thesis using i(2,3) by (auto simp: Let_def extractRange_def prot_def simp flip: ids_def)
qed

section \<open>An instance\<close>

definition example_kept :: "string \<Rightarrow> kept_row" where
  "example_kept rid = \<lparr>rd_rowId = rid, rd_heightRevision = ''h1'', rd_layoutRevision = ''l1'', rd_anchorPriority = Stable,
    rd_estimatedHeight = 100, rd_spacingBefore = 0, kr_keepAlivePriority = KeepNone\<rparr>"

definition example_kept_rows :: "kept_row list" where
  "example_kept_rows = map example_kept [''a'', ''b'', ''c'', ''d'', ''e'', ''f'']"

definition example_range :: tanstack_range where
  \<comment> \<open>the viewport is at the end of the rows\<close>
  "example_range = \<lparr>ts_start = 4, ts_end = 5, ts_overscan = 0, ts_count = 6\<rparr>"

definition example_registry :: row_registry where
  \<comment> \<open>the editor in the first row took the focus, and an overlay is open in the third\<close>
  "example_registry = fold (registry_step (\<lambda>_ _. 0))
    [RegistrySetEpoch ''s'' 1,
     RegistryFocus \<lparr>lk_sessionId = ''s'', lk_rowId = ''a'', lk_sessionEpoch = Some 1\<rparr> True (Some ''editor'') None 5,
     RegistryOverlay \<lparr>lk_sessionId = ''s'', lk_rowId = ''c'', lk_sessionEpoch = Some 1\<rparr> True None OverlayMenu 6]
    (createTranscriptRowStateRegistry (\<lambda>p. p))"

definition example_later :: "registry_action list" where
  "example_later =
    [RegistryFocus \<lparr>lk_sessionId = ''s'', lk_rowId = ''a'', lk_sessionEpoch = Some 1\<rparr> False (Some ''menu'') None 7,
     RegistryOverlay \<lparr>lk_sessionId = ''s'', lk_rowId = ''c'', lk_sessionEpoch = Some 1\<rparr> False None OverlayMenu 8,
     RegistryCleanupExpired 1000000]"

lemma held_case: "held g sid rid reason src \<longleftrightarrow> (case row_at g sid rid of None \<Rightarrow> False
    | Some r \<Rightarrow> obj_get (rw_protectionSignals r) (getSignalKey reason src) \<noteq> None)"
  by (auto simp: held_def split: option.split)

theorem held_row_stays_mounted_witness:
  "let d = fst (evaluateKeepAlive (\<lambda>_ _. 0) ''s'' (Some 1) example_kept_rows [] 1000001
        (fold (registry_step (\<lambda>_ _. 0)) example_later example_registry));
      ids = normalizeProtectedRowIds example_kept_rows ([] @ ka_protectedRowIds d) in
    \<exists>i < length example_kept_rows. rd_rowId (example_kept_rows ! i) = ''a'' \<and>
      int i \<in> set (ps_indexes (extractRange (\<lambda>_. 100) example_kept_rows default_overscan ids example_range))"
proof -
  have ok: "registry_ok example_registry" unfolding example_registry_def by (rule registry_run_ok)
  have h: "held example_registry ''s'' ''a'' ReasonFocused ''editor''" unfolding held_case by code_simp
  have a: "interacting (priorityForReason ReasonFocused)" by (simp add: interacting_def)
  have r: "\<forall>a \<in> set example_later. \<not> releases a ''s'' ''a'' ReasonFocused ''editor''" by (simp add: example_later_def)
  have e: "current_epoch (fold (registry_step (\<lambda>_ _. 0)) example_later example_registry) ''s'' (Some 1)" by code_simp
  have m: "''a'' \<in> rd_rowId ` set example_kept_rows" "ts_count example_range = int (length example_kept_rows)"
    by (simp_all add: example_kept_rows_def example_kept_def example_range_def)
  show ?thesis by (rule held_row_stays_mounted [OF ok h a r e m])
qed

end
