(* ===== verification/MeasurementPolicy.thy ===== *)
theory MeasurementPolicy
  imports Messages MeasurementScheduler RowState
begin

text \<open>
  How a transcript row may be measured
  (\<open>src/src/features/chat/transcript/measurement/transcriptMeasurementPolicy.ts\<close>): from its content,
  the state of its user interface and what the projection says of it follow its capabilities, the reasons,
  the priority to keep it mounted, and whether it may be rendered a second time outside the viewport. The
  code changes an object of capabilities and a set of reasons in place; here they are a pair. A flag that is
  left out is \<open>False\<close>, since the code only asks whether it is truthy.
\<close>

section \<open>Data\<close>

datatype layout_pending_policy = CanFinalize | RequiresStableDescendants

datatype row_kind = DateSeparator | MessageRow | AssistantMessageChrome | AssistantContentFragment
  | AssistantMessageActions | AgentWork | TopLoadingSentinel

datatype safety_reason =
    ActiveCopyFeedback | ActiveMcpHostWork | ActiveNestedToolRequest | ActiveSelection | ActiveStreamReason
  | ActiveTimer | ActiveTool | ActionRequiredReason | AsyncCodeHighlighting | AuditedRealMeasurement
  | DateSeparatorReason | DynamicAsyncLayout | FocusedRow | HostCalls | HostActionHandlers | ImageReason
  | LayoutAnimation | LayoutPendingReason | McpAppReason | OpenOverlayReason | ReasoningOrThinking
  | SideEffectFreeFragment | StaticSystemNotice | StatefulRow | TextRowRequiresAudit | ToolReason
  | UnknownUnsafeDescendant

record row_capabilities =
  cap_stateful :: bool
  cap_hasMcpApp :: bool
  cap_hasHostCalls :: bool
  cap_hasHostActionHandlers :: bool
  cap_hasActiveTimer :: bool
  cap_hasActiveToolWork :: bool
  cap_hasActiveMcpHostRequest :: bool
  cap_hasActiveNestedToolRequest :: bool
  cap_hasDynamicAsyncLayout :: bool
  cap_hasPendingLayout :: bool
  cap_hasFocusedDescendant :: bool
  cap_hasOpenOverlay :: bool
  cap_hasOpenMenu :: bool
  cap_hasOpenDialog :: bool
  cap_hasOpenPopover :: bool
  cap_hasOpenLightbox :: bool
  cap_hasCopyFeedback :: bool
  cap_hasImageContent :: bool
  cap_hasToolContent :: bool
  cap_hasReasoningContent :: bool
  cap_hasActionRequired :: bool
  cap_hasStreamingContent :: bool
  cap_hasUnknownUnsafeDescendants :: bool
  cap_protectsSelection :: bool
  cap_canOffscreenRenderReal :: bool
  cap_canOffscreenRenderShell :: bool

record capability_overrides =
  \<comment> \<open>without the last two\<close>
  cv_stateful :: bool
  cv_hasMcpApp :: bool
  cv_hasHostCalls :: bool
  cv_hasHostActionHandlers :: bool
  cv_hasActiveTimer :: bool
  cv_hasActiveToolWork :: bool
  cv_hasActiveMcpHostRequest :: bool
  cv_hasActiveNestedToolRequest :: bool
  cv_hasDynamicAsyncLayout :: bool
  cv_hasPendingLayout :: bool
  cv_hasFocusedDescendant :: bool
  cv_hasOpenOverlay :: bool
  cv_hasOpenMenu :: bool
  cv_hasOpenDialog :: bool
  cv_hasOpenPopover :: bool
  cv_hasOpenLightbox :: bool
  cv_hasCopyFeedback :: bool
  cv_hasImageContent :: bool
  cv_hasToolContent :: bool
  cv_hasReasoningContent :: bool
  cv_hasActionRequired :: bool
  cv_hasStreamingContent :: bool
  cv_hasUnknownUnsafeDescendants :: bool
  cv_protectsSelection :: bool

record ui_safety_state =
  us_hasFocusedDescendant :: bool
  us_protectsSelection :: bool
  us_hasOpenOverlay :: bool
  us_hasOpenMenu :: bool
  us_hasOpenDialog :: bool
  us_hasOpenPopover :: bool
  us_hasOpenLightbox :: bool
  us_hasCopyFeedback :: bool
  us_hasActiveMcpHostRequest :: bool
  us_hasActiveNestedToolRequest :: bool
  us_hasActiveTimer :: bool
  us_hasActiveToolWork :: bool
  us_hasPendingLayout :: bool
  us_hasLayoutAnimation :: bool
  us_hasDynamicAsyncLayout :: bool
  us_hasAsyncCodeHighlighting :: bool
  us_hasRecentlyMcpResized :: bool
  us_hasRecentlyMcpMessaged :: bool
  us_hasUnknownUnsafeDescendants :: bool

record policy_options =
  po_allowAuditedWholeTextRealMeasurement :: "bool option"
  po_allowCompletedFragmentRealMeasurement :: "bool option"
  po_hasSideEffectFreeShell :: "bool option"

record policy_input =
  pi_rowKind :: row_kind
  pi_message :: "message option"
  pi_content :: "message_content list option"
  pi_uiState :: "ui_safety_state option"
  pi_capabilities :: "capability_overrides option"
  pi_options :: "policy_options option"

record policy_decision =
  pol_policy :: measurement_policy
  pol_layoutPendingPolicy :: layout_pending_policy
  pol_keepAlivePriority :: keep_alive_priority
  pol_capabilities :: row_capabilities
  pol_reasons :: "safety_reason list"

definition HARD_ESTIMATE_REASONS :: "safety_reason list" where
  "HARD_ESTIMATE_REASONS = [FocusedRow, ActiveSelection, OpenOverlayReason, ActiveMcpHostWork, ActiveNestedToolRequest,
    ActiveTool, ActiveTimer, ActiveCopyFeedback, UnknownUnsafeDescendant]"

definition createEmptyCapabilities :: row_capabilities where
  "createEmptyCapabilities =
    \<lparr>cap_stateful = False, cap_hasMcpApp = False, cap_hasHostCalls = False,
    cap_hasHostActionHandlers = False, cap_hasActiveTimer = False, cap_hasActiveToolWork = False,
    cap_hasActiveMcpHostRequest = False, cap_hasActiveNestedToolRequest = False,
    cap_hasDynamicAsyncLayout = False, cap_hasPendingLayout = False, cap_hasFocusedDescendant = False,
    cap_hasOpenOverlay = False, cap_hasOpenMenu = False, cap_hasOpenDialog = False,
    cap_hasOpenPopover = False, cap_hasOpenLightbox = False, cap_hasCopyFeedback = False,
    cap_hasImageContent = False, cap_hasToolContent = False, cap_hasReasoningContent = False,
    cap_hasActionRequired = False, cap_hasStreamingContent = False, cap_hasUnknownUnsafeDescendants = False,
    cap_protectsSelection = False, cap_canOffscreenRenderReal = False,
    cap_canOffscreenRenderShell = False\<rparr>"

section \<open>Marking\<close>

type_synonym safety = "row_capabilities \<times> safety_reason list"

definition mark_if ::
    "bool \<Rightarrow> (row_capabilities \<Rightarrow> row_capabilities) \<Rightarrow> safety_reason list \<Rightarrow> safety \<Rightarrow> safety" where
  \<comment> \<open>when it is so, sets flags and adds reasons\<close>
  "mark_if b flags reasons st = (if b then (flags (fst st), fold set_add reasons (snd st)) else st)"

definition isActiveToolStatus :: "tool_call_status \<Rightarrow> bool" where
  "isActiveToolStatus status \<longleftrightarrow> status \<notin> {ToolCompleted, ToolFailed, ToolStopped}"

fun is_text :: "message_content \<Rightarrow> bool" where
  "is_text (TextContent _ _ _) = True"
| "is_text _ = False"

fun is_notification :: "message_content \<Rightarrow> bool" where
  "is_notification (SystemNotification _ _ _ _) = True"
| "is_notification _ = False"

definition hasOnlyTextContent :: "message_content list \<Rightarrow> bool" where
  "hasOnlyTextContent content \<longleftrightarrow> content \<noteq> [] \<and> list_all is_text content"

definition hasOnlySystemNotificationContent :: "message_content list \<Rightarrow> bool" where
  "hasOnlySystemNotificationContent content \<longleftrightarrow> content \<noteq> [] \<and> list_all is_notification content"

definition reasoning_safety :: "safety \<Rightarrow> safety" where
  "reasoning_safety = mark_if True
    (\<lambda>c. c\<lparr>cap_stateful := True, cap_hasReasoningContent := True, cap_hasDynamicAsyncLayout := True\<rparr>)
    [StatefulRow, ReasoningOrThinking, DynamicAsyncLayout]"

definition content_safety :: "message_content \<Rightarrow> safety \<Rightarrow> safety" where
  "content_safety block st = (case block of
      TextContent _ _ _ \<Rightarrow> st
    | SystemNotification _ _ _ _ \<Rightarrow> st
    | ImageContent _ \<Rightarrow> mark_if True
        (\<lambda>c. c\<lparr>cap_stateful := True, cap_hasImageContent := True, cap_hasDynamicAsyncLayout := True\<rparr>)
        [StatefulRow, ImageReason, DynamicAsyncLayout] st
    | ToolRequest t \<Rightarrow>
        let st = mark_if True
              (\<lambda>c. c\<lparr>cap_stateful := True, cap_hasToolContent := True, cap_hasDynamicAsyncLayout := True\<rparr>)
              [StatefulRow, ToolReason, DynamicAsyncLayout] st;
            st = mark_if (isActiveToolStatus (treq_status t)) (\<lambda>c. c\<lparr>cap_hasActiveToolWork := True\<rparr>) [ActiveTool] st in
        mark_if (isActiveToolStatus (treq_status t) \<and> treq_startedAt t \<noteq> None)
          (\<lambda>c. c\<lparr>cap_hasActiveTimer := True\<rparr>) [ActiveTimer] st
    | ToolResponse _ \<Rightarrow> mark_if True (\<lambda>c. c\<lparr>cap_stateful := True, cap_hasToolContent := True\<rparr>)
        [StatefulRow, ToolReason] st
    | McpApp _ _ \<Rightarrow> mark_if True
        (\<lambda>c. c\<lparr>cap_stateful := True, cap_hasMcpApp := True, cap_hasHostCalls := True, cap_hasDynamicAsyncLayout := True\<rparr>)
        [StatefulRow, McpAppReason, HostCalls, DynamicAsyncLayout] st
    | Thinking _ _ \<Rightarrow> reasoning_safety st
    | RedactedThinking _ \<Rightarrow> reasoning_safety st
    | Reasoning _ _ \<Rightarrow> reasoning_safety st
    | ActionRequired _ \<Rightarrow> mark_if True
        (\<lambda>c. c\<lparr>cap_stateful := True, cap_hasActionRequired := True, cap_hasDynamicAsyncLayout := True\<rparr>)
        [StatefulRow, ActionRequiredReason, DynamicAsyncLayout] st)"

definition has_attachments :: "message \<Rightarrow> bool" where
  "has_attachments m \<longleftrightarrow> or_else (meta_field meta_attachments m) [] \<noteq> []"

definition applyContentSafety :: "message option \<Rightarrow> message_content list \<Rightarrow> safety \<Rightarrow> safety" where
  "applyContentSafety message content st =
    (let st = mark_if (Option.bind message (meta_field completionStatus) = Some InProgress)
           (\<lambda>c. c\<lparr>cap_hasStreamingContent := True, cap_hasDynamicAsyncLayout := True\<rparr>)
           [ActiveStreamReason, DynamicAsyncLayout] st;
         st = mark_if (case message of None \<Rightarrow> False | Some m \<Rightarrow> has_attachments m)
           (\<lambda>c. c\<lparr>cap_stateful := True, cap_hasHostActionHandlers := True\<rparr>) [StatefulRow, HostActionHandlers] st in
     fold content_safety content st)"

definition applyUiSafetyState :: "ui_safety_state option \<Rightarrow> safety \<Rightarrow> safety" where
  "applyUiSafetyState uiState st = (case uiState of
      None \<Rightarrow> st
    | Some u \<Rightarrow>
      let st = mark_if (us_hasFocusedDescendant u) (\<lambda>c. c\<lparr>cap_hasFocusedDescendant := True\<rparr>) [FocusedRow] st;
          st = mark_if (us_protectsSelection u) (\<lambda>c. c\<lparr>cap_protectsSelection := True\<rparr>) [ActiveSelection] st;
          st = mark_if (us_hasOpenOverlay u \<or> us_hasOpenMenu u \<or> us_hasOpenDialog u \<or>
              us_hasOpenPopover u \<or> us_hasOpenLightbox u) (\<lambda>c. c\<lparr>cap_hasOpenOverlay := True\<rparr>) [OpenOverlayReason] st;
          st = mark_if (us_hasOpenMenu u) (\<lambda>c. c\<lparr>cap_hasOpenMenu := True\<rparr>) [] st;
          st = mark_if (us_hasOpenDialog u) (\<lambda>c. c\<lparr>cap_hasOpenDialog := True\<rparr>) [] st;
          st = mark_if (us_hasOpenPopover u) (\<lambda>c. c\<lparr>cap_hasOpenPopover := True\<rparr>) [] st;
          st = mark_if (us_hasOpenLightbox u) (\<lambda>c. c\<lparr>cap_hasOpenLightbox := True\<rparr>) [] st;
          st = mark_if (us_hasCopyFeedback u) (\<lambda>c. c\<lparr>cap_hasCopyFeedback := True\<rparr>) [ActiveCopyFeedback] st;
          st = mark_if (us_hasActiveMcpHostRequest u) (\<lambda>c. c\<lparr>cap_hasActiveMcpHostRequest := True\<rparr>) [ActiveMcpHostWork] st;
          st = mark_if (us_hasActiveNestedToolRequest u) (\<lambda>c. c\<lparr>cap_hasActiveNestedToolRequest := True\<rparr>) [ActiveNestedToolRequest] st;
          st = mark_if (us_hasActiveToolWork u) (\<lambda>c. c\<lparr>cap_hasActiveToolWork := True\<rparr>) [ActiveTool] st;
          st = mark_if (us_hasActiveTimer u) (\<lambda>c. c\<lparr>cap_hasActiveTimer := True\<rparr>) [ActiveTimer] st;
          st = mark_if (us_hasPendingLayout u) (\<lambda>c. c\<lparr>cap_hasPendingLayout := True\<rparr>) [LayoutPendingReason] st;
          st = mark_if (us_hasLayoutAnimation u) (\<lambda>c. c\<lparr>cap_hasDynamicAsyncLayout := True\<rparr>) [LayoutAnimation] st;
          st = mark_if (us_hasDynamicAsyncLayout u) (\<lambda>c. c\<lparr>cap_hasDynamicAsyncLayout := True\<rparr>) [DynamicAsyncLayout] st;
          st = mark_if (us_hasAsyncCodeHighlighting u) (\<lambda>c. c\<lparr>cap_hasDynamicAsyncLayout := True\<rparr>) [AsyncCodeHighlighting] st;
          st = mark_if (us_hasUnknownUnsafeDescendants u) (\<lambda>c. c\<lparr>cap_hasUnknownUnsafeDescendants := True\<rparr>) [UnknownUnsafeDescendant] st in
      st)"

definition override_flags :: "capability_overrides \<Rightarrow> row_capabilities \<Rightarrow> row_capabilities" where
  "override_flags v c = c
    \<lparr>cap_stateful := cap_stateful c \<or> cv_stateful v,
     cap_hasMcpApp := cap_hasMcpApp c \<or> cv_hasMcpApp v,
     cap_hasHostCalls := cap_hasHostCalls c \<or> cv_hasHostCalls v,
     cap_hasHostActionHandlers := cap_hasHostActionHandlers c \<or> cv_hasHostActionHandlers v,
     cap_hasActiveTimer := cap_hasActiveTimer c \<or> cv_hasActiveTimer v,
     cap_hasActiveToolWork := cap_hasActiveToolWork c \<or> cv_hasActiveToolWork v,
     cap_hasActiveMcpHostRequest := cap_hasActiveMcpHostRequest c \<or> cv_hasActiveMcpHostRequest v,
     cap_hasActiveNestedToolRequest := cap_hasActiveNestedToolRequest c \<or> cv_hasActiveNestedToolRequest v,
     cap_hasDynamicAsyncLayout := cap_hasDynamicAsyncLayout c \<or> cv_hasDynamicAsyncLayout v,
     cap_hasPendingLayout := cap_hasPendingLayout c \<or> cv_hasPendingLayout v,
     cap_hasFocusedDescendant := cap_hasFocusedDescendant c \<or> cv_hasFocusedDescendant v,
     cap_hasOpenOverlay := cap_hasOpenOverlay c \<or> cv_hasOpenOverlay v,
     cap_hasOpenMenu := cap_hasOpenMenu c \<or> cv_hasOpenMenu v,
     cap_hasOpenDialog := cap_hasOpenDialog c \<or> cv_hasOpenDialog v,
     cap_hasOpenPopover := cap_hasOpenPopover c \<or> cv_hasOpenPopover v,
     cap_hasOpenLightbox := cap_hasOpenLightbox c \<or> cv_hasOpenLightbox v,
     cap_hasCopyFeedback := cap_hasCopyFeedback c \<or> cv_hasCopyFeedback v,
     cap_hasImageContent := cap_hasImageContent c \<or> cv_hasImageContent v,
     cap_hasToolContent := cap_hasToolContent c \<or> cv_hasToolContent v,
     cap_hasReasoningContent := cap_hasReasoningContent c \<or> cv_hasReasoningContent v,
     cap_hasActionRequired := cap_hasActionRequired c \<or> cv_hasActionRequired v,
     cap_hasStreamingContent := cap_hasStreamingContent c \<or> cv_hasStreamingContent v,
     cap_hasUnknownUnsafeDescendants := cap_hasUnknownUnsafeDescendants c \<or> cv_hasUnknownUnsafeDescendants v,
     cap_protectsSelection := cap_protectsSelection c \<or> cv_protectsSelection v\<rparr>"

definition override_reasons :: "capability_overrides \<Rightarrow> (bool \<times> safety_reason) list" where
  "override_reasons v =
    [(cv_stateful v, StatefulRow),
     (cv_hasMcpApp v, McpAppReason),
     (cv_hasHostCalls v, HostCalls),
     (cv_hasHostActionHandlers v, HostActionHandlers),
     (cv_hasActiveTimer v, ActiveTimer),
     (cv_hasActiveToolWork v, ActiveTool),
     (cv_hasActiveMcpHostRequest v, ActiveMcpHostWork),
     (cv_hasActiveNestedToolRequest v, ActiveNestedToolRequest),
     (cv_hasDynamicAsyncLayout v, DynamicAsyncLayout),
     (cv_hasPendingLayout v, LayoutPendingReason),
     (cv_hasFocusedDescendant v, FocusedRow),
     (cv_hasOpenOverlay v \<or> cv_hasOpenMenu v \<or> cv_hasOpenDialog v \<or> cv_hasOpenPopover v \<or> cv_hasOpenLightbox v, OpenOverlayReason),
     (cv_hasCopyFeedback v, ActiveCopyFeedback),
     (cv_hasImageContent v, ImageReason),
     (cv_hasToolContent v, ToolReason),
     (cv_hasReasoningContent v, ReasoningOrThinking),
     (cv_hasActionRequired v, ActionRequiredReason),
     (cv_hasStreamingContent v, ActiveStreamReason),
     (cv_hasUnknownUnsafeDescendants v, UnknownUnsafeDescendant),
     (cv_protectsSelection v, ActiveSelection)]"

definition applyCapabilityOverrides :: "capability_overrides option \<Rightarrow> safety \<Rightarrow> safety" where
  "applyCapabilityOverrides overrides st = (case overrides of
      None \<Rightarrow> st
    | Some v \<Rightarrow> (override_flags v (fst st), fold set_add (map snd (filter fst (override_reasons v))) (snd st)))"

section \<open>Decisions\<close>

definition getKeepAlivePriority :: "row_capabilities \<Rightarrow> ui_safety_state option \<Rightarrow> keep_alive_priority" where
  "getKeepAlivePriority c uiState =
    (if cap_hasFocusedDescendant c then KeepFocused
     else if cap_protectsSelection c then KeepSelection
     else if cap_hasOpenOverlay c \<or> cap_hasOpenMenu c \<or> cap_hasOpenDialog c \<or> cap_hasOpenPopover c \<or>
       cap_hasOpenLightbox c \<or> cap_hasCopyFeedback c then KeepOpenUi
     else if cap_hasActiveMcpHostRequest c \<or> cap_hasActiveNestedToolRequest c then KeepActiveMcp
     else if cap_hasActiveToolWork c \<or> cap_hasStreamingContent c then KeepActiveStream
     else if (case uiState of None \<Rightarrow> False | Some u \<Rightarrow> us_hasRecentlyMcpResized u \<or> us_hasRecentlyMcpMessaged u)
     then KeepRecent
     else KeepNone)"

definition requiresShellMeasurement :: "row_kind \<Rightarrow> message_content list \<Rightarrow> row_capabilities \<Rightarrow> bool" where
  "requiresShellMeasurement rowKind content c \<longleftrightarrow>
    cap_stateful c \<or> cap_hasMcpApp c \<or> cap_hasHostCalls c \<or> cap_hasHostActionHandlers c \<or> cap_hasToolContent c \<or>
    cap_hasImageContent c \<or> cap_hasReasoningContent c \<or> cap_hasActionRequired c \<or> cap_hasDynamicAsyncLayout c \<or>
    cap_hasPendingLayout c \<or> rowKind = MessageRow \<and> hasOnlyTextContent content"

definition canMeasureReal ::
    "row_kind \<Rightarrow> message option \<Rightarrow> message_content list \<Rightarrow> row_capabilities \<Rightarrow> policy_options option \<Rightarrow>
     safety_reason list \<Rightarrow> bool \<times> safety_reason list" where
  "canMeasureReal rowKind message content c options reasons =
    (if rowKind = DateSeparator \<or> rowKind = TopLoadingSentinel then (True, set_add DateSeparatorReason reasons)
     else if map_option msg_role message = Some System \<and> hasOnlySystemNotificationContent content \<and>
       \<not> cap_hasDynamicAsyncLayout c
     then (True, set_add StaticSystemNotice reasons)
     else if rowKind = AssistantContentFragment \<and>
       Option.bind options po_allowCompletedFragmentRealMeasurement \<noteq> Some False \<and>
       \<not> requiresShellMeasurement rowKind content c
     then (True, set_add SideEffectFreeFragment reasons)
     else if Option.bind options po_allowAuditedWholeTextRealMeasurement = Some True \<and> hasOnlyTextContent content \<and>
       \<not> requiresShellMeasurement rowKind content c
     then (True, set_add AuditedRealMeasurement reasons)
     else (False,
       if rowKind = MessageRow \<and> hasOnlyTextContent content then set_add TextRowRequiresAudit reasons else reasons))"

definition row_safety ::
    "message option \<Rightarrow> message_content list \<Rightarrow> ui_safety_state option \<Rightarrow> capability_overrides option \<Rightarrow> safety" where
  \<comment> \<open>the three passes over empty capabilities\<close>
  "row_safety message content uiState overrides = applyCapabilityOverrides overrides
    (applyUiSafetyState uiState (applyContentSafety message content (createEmptyCapabilities, [])))"

definition layout_pending :: "row_capabilities \<Rightarrow> layout_pending_policy" where
  "layout_pending c = (if cap_hasPendingLayout c \<or> cap_hasDynamicAsyncLayout c then RequiresStableDescendants else CanFinalize)"

record content_safety_summary =
  cs_capabilities :: row_capabilities
  cs_layoutPendingPolicy :: layout_pending_policy
  cs_keepAlivePriority :: keep_alive_priority
  cs_reasons :: "safety_reason list"

definition classifyMessageContentSafety ::
    "message + message_content list \<Rightarrow> ui_safety_state option \<Rightarrow> capability_overrides option \<Rightarrow>
     content_safety_summary" where
  "classifyMessageContentSafety messageOrContent uiState overrides =
    (let message = (case messageOrContent of Inl m \<Rightarrow> Some m | Inr _ \<Rightarrow> None);
         content = (case messageOrContent of Inl m \<Rightarrow> msg_content m | Inr c \<Rightarrow> c);
         (capabilities, reasons) = row_safety message content uiState overrides in
     \<lparr>cs_capabilities = capabilities, cs_layoutPendingPolicy = layout_pending capabilities,
      cs_keepAlivePriority = getKeepAlivePriority capabilities uiState, cs_reasons = reasons\<rparr>)"

definition classifyTranscriptMeasurementPolicy :: "policy_input \<Rightarrow> policy_decision" where
  "classifyTranscriptMeasurementPolicy input =
    (let message = pi_message input;
         content = or_else (pi_content input) (or_else (map_option msg_content message) []);
         (capabilities, reasons) = row_safety message content (pi_uiState input) (pi_capabilities input);
         hasHardEstimateReason = list_ex (\<lambda>r. r \<in> set reasons) HARD_ESTIMATE_REASONS;
         hasSideEffectFreeShell = or_else (Option.bind (pi_options input) po_hasSideEffectFreeShell) True;
         (real, reasons') = canMeasureReal (pi_rowKind input) message content capabilities (pi_options input) reasons;
         reasons = (if hasHardEstimateReason then reasons else reasons');
         policy = (if hasHardEstimateReason then EstimateOnly
           else if real then MeasureReal
           else if hasSideEffectFreeShell \<and> requiresShellMeasurement (pi_rowKind input) content capabilities
           then MeasureShell else EstimateOnly) in
     \<lparr>pol_policy = policy, pol_layoutPendingPolicy = layout_pending capabilities,
      pol_keepAlivePriority = getKeepAlivePriority capabilities (pi_uiState input),
      pol_capabilities = capabilities
        \<lparr>cap_canOffscreenRenderReal := (policy = MeasureReal), cap_canOffscreenRenderShell := (policy = MeasureShell)\<rparr>,
      pol_reasons = reasons\<rparr>)"

end
