(* ===== verification/MeasurementSafety.thy ===== *)
theory MeasurementSafety
  imports MeasurementPolicy
begin

text \<open>
  Why no row is rendered twice while it is in use: each flag of the input that says so comes with a reason
  that forbids measuring the row outside the viewport, and the measurement scheduler obeys the policy.
\<close>

section \<open>Flags and their reasons\<close>

lemma set_fold_add [simp]: "set (fold set_add xs ys) = set xs \<union> set ys"
  by (induction xs arbitrary: ys) (auto simp: set_add_def)

lemma mark_if_reasons [simp]: "r \<in> set (snd (mark_if b flags reasons st)) \<longleftrightarrow> b \<and> r \<in> set reasons \<or> r \<in> set (snd st)"
  by (simp add: mark_if_def)

lemma mark_if_flags [simp]: "fst (mark_if b flags reasons st) = (if b then flags (fst st) else fst st)"
  by (simp add: mark_if_def)

definition row_content :: "policy_input \<Rightarrow> message_content list" where
  \<comment> \<open>the blocks the row shows: given ones, or else those of its message\<close>
  "row_content input = (case pi_content input of Some content \<Rightarrow> content
    | None \<Rightarrow> (case pi_message input of Some m \<Rightarrow> msg_content m | None \<Rightarrow> []))"

definition busy_ui :: "ui_safety_state \<Rightarrow> bool" where
  \<comment> \<open>what the user interface reports: the user is in the row, or an app, a tool or a timer works in it\<close>
  "busy_ui u \<longleftrightarrow> us_hasFocusedDescendant u \<or> us_protectsSelection u \<or> us_hasOpenOverlay u \<or> us_hasOpenMenu u \<or>
     us_hasOpenDialog u \<or> us_hasOpenPopover u \<or> us_hasOpenLightbox u \<or> us_hasCopyFeedback u \<or>
     us_hasActiveMcpHostRequest u \<or> us_hasActiveNestedToolRequest u \<or> us_hasActiveToolWork u \<or>
     us_hasActiveTimer u \<or> us_hasUnknownUnsafeDescendants u"

definition busy_flags :: "capability_overrides \<Rightarrow> bool" where
  \<comment> \<open>the same, as the projection of the rows reports it\<close>
  "busy_flags v \<longleftrightarrow> cv_hasFocusedDescendant v \<or> cv_protectsSelection v \<or> cv_hasOpenOverlay v \<or> cv_hasOpenMenu v \<or>
     cv_hasOpenDialog v \<or> cv_hasOpenPopover v \<or> cv_hasOpenLightbox v \<or> cv_hasCopyFeedback v \<or>
     cv_hasActiveMcpHostRequest v \<or> cv_hasActiveNestedToolRequest v \<or> cv_hasActiveToolWork v \<or>
     cv_hasActiveTimer v \<or> cv_hasUnknownUnsafeDescendants v"

fun running_tool :: "message_content \<Rightarrow> bool" where
  "running_tool (ToolRequest t) \<longleftrightarrow>
    treq_status t \<noteq> ToolCompleted \<and> treq_status t \<noteq> ToolFailed \<and> treq_status t \<noteq> ToolStopped"
| "running_tool _ \<longleftrightarrow> False"

definition in_use :: "policy_input \<Rightarrow> bool" where
  "in_use input \<longleftrightarrow> (\<exists>u. pi_uiState input = Some u \<and> busy_ui u) \<or> (\<exists>v. pi_capabilities input = Some v \<and> busy_flags v) \<or>
     (\<exists>b \<in> set (row_content input). running_tool b)"

fun plain_block :: "message_content \<Rightarrow> bool" where
  \<comment> \<open>text and notices of the system\<close>
  "plain_block (TextContent _ _ _) \<longleftrightarrow> True"
| "plain_block (SystemNotification _ _ _ _) \<longleftrightarrow> True"
| "plain_block _ \<longleftrightarrow> False"

definition hard :: "safety \<Rightarrow> bool" where
  "hard st \<longleftrightarrow> list_ex (\<lambda>r. r \<in> set (snd st)) HARD_ESTIMATE_REASONS"

lemma hardI: "r \<in> set (snd st) \<Longrightarrow> r \<in> set HARD_ESTIMATE_REASONS \<Longrightarrow> hard st"
  by (auto simp: hard_def list_ex_iff)

lemma hard_mono: "hard st \<Longrightarrow> set (snd st) \<subseteq> set (snd st') \<Longrightarrow> hard st'"
  by (auto simp: hard_def list_ex_iff)

lemma grows_content: "set (snd st) \<subseteq> set (snd (content_safety block st))"
  by (cases block) (auto simp: content_safety_def reasoning_safety_def Let_def)

lemma grows_contents: "set (snd st) \<subseteq> set (snd (fold content_safety content st))"
proof (induction content arbitrary: st)
  case (Cons b content)
  show ?case using grows_content [of st b] Cons [of "content_safety b st"] by simp
qed simp

lemma grows_ui: "set (snd st) \<subseteq> set (snd (applyUiSafetyState uiState st))"
  by (auto simp: applyUiSafetyState_def Let_def split: option.split)

lemma grows_overrides: "set (snd st) \<subseteq> set (snd (applyCapabilityOverrides overrides st))"
  by (auto simp: applyCapabilityOverrides_def split: option.split)

lemma hard_tool: "running_tool b \<Longrightarrow> hard (content_safety b st)"
  by (rule hardI [of ActiveTool], cases b)
    (simp_all add: content_safety_def isActiveToolStatus_def HARD_ESTIMATE_REASONS_def Let_def)

lemma hard_contents: "b \<in> set content \<Longrightarrow> running_tool b \<Longrightarrow> hard (fold content_safety content st)"
proof (induction content arbitrary: st)
  case (Cons x content)
  show ?case
  proof (cases "b = x")
    case True
    then show ?thesis using hard_mono [OF hard_tool grows_contents] Cons.prems(2) by simp
  qed (use Cons in simp)
qed simp

lemma hard_ui: "busy_ui u \<Longrightarrow> hard (applyUiSafetyState (Some u) st)"
  unfolding busy_ui_def hard_def HARD_ESTIMATE_REASONS_def applyUiSafetyState_def Let_def option.case
  by (elim disjE; simp)

lemma hard_flags: "busy_flags v \<Longrightarrow> hard (applyCapabilityOverrides (Some v) st)"
  unfolding busy_flags_def hard_def HARD_ESTIMATE_REASONS_def applyCapabilityOverrides_def option.case
  by (elim disjE; simp add: override_reasons_def image_iff)

lemma content_of_row: "or_else (pi_content input) (or_else (map_option msg_content (pi_message input)) []) = row_content input"
  by (simp add: row_content_def or_else_def split: option.split)

lemma in_use_hard:
  assumes "in_use input"
  shows "hard (row_safety (pi_message input) (row_content input) (pi_uiState input) (pi_capabilities input))"
proof -
  have "hard (applyContentSafety m (row_content input) st)" if run: "\<exists>b \<in> set (row_content input). running_tool b" for m st
  proof -
    obtain b where "b \<in> set (row_content input)" "running_tool b" using run by blast
    then show ?thesis unfolding applyContentSafety_def Let_def by (rule hard_contents)
  qed
  then show ?thesis
    using assms hard_ui hard_flags hard_mono [OF _ grows_ui] hard_mono [OF _ grows_overrides]
    unfolding in_use_def row_safety_def by metis
qed

section \<open>The policy\<close>

lemma policy_in_use: "in_use input \<Longrightarrow> pol_policy (classifyTranscriptMeasurementPolicy input) = EstimateOnly"
  using in_use_hard [of input]
  by (simp add: classifyTranscriptMeasurementPolicy_def Let_def split_beta content_of_row hard_def)

lemma stateful_content: "\<not> plain_block b \<or> cap_stateful (fst st) \<Longrightarrow> cap_stateful (fst (content_safety b st))"
  by (cases b) (auto simp: content_safety_def reasoning_safety_def Let_def)

lemma stateful_contents:
  "\<not> list_all plain_block content \<or> cap_stateful (fst st) \<Longrightarrow> cap_stateful (fst (fold content_safety content st))"
proof (induction content arbitrary: st)
  case (Cons b content)
  show ?case using stateful_content [of b st] Cons.IH [of "content_safety b st"] Cons.prems by auto
qed simp

lemma stateful_mark:
  "cap_stateful (fst st) \<Longrightarrow> (\<And>c. cap_stateful c \<Longrightarrow> cap_stateful (flags c)) \<Longrightarrow>
    cap_stateful (fst (mark_if b flags reasons st))"
  by (simp add: mark_if_def)

lemma stateful_row:
  "\<not> list_all plain_block content \<Longrightarrow> cap_stateful (fst (row_safety message content uiState overrides))"
proof -
  assume "\<not> list_all plain_block content"
  then have "cap_stateful (fst (applyContentSafety message content st))" for st
    using stateful_contents by (simp add: applyContentSafety_def Let_def)
  moreover have "cap_stateful (fst st) \<Longrightarrow> cap_stateful (fst (applyUiSafetyState uiState st))" for st
    by (cases uiState) (simp_all add: applyUiSafetyState_def Let_def stateful_mark)
  moreover have "cap_stateful (fst st) \<Longrightarrow> cap_stateful (fst (applyCapabilityOverrides overrides st))" for st
    by (simp add: applyCapabilityOverrides_def override_flags_def split: option.split)
  ultimately show ?thesis by (simp add: row_safety_def)
qed

lemma notices_plain: "hasOnlySystemNotificationContent content \<Longrightarrow> list_all plain_block content"
proof -
  have "is_notification b \<Longrightarrow> plain_block b" for b by (cases b) simp_all
  then show "hasOnlySystemNotificationContent content \<Longrightarrow> list_all plain_block content"
    by (auto simp: hasOnlySystemNotificationContent_def list_all_iff)
qed

lemma policy_real:
  assumes "pol_policy (classifyTranscriptMeasurementPolicy input) = MeasureReal"
  shows "pi_rowKind input \<in> {DateSeparator, TopLoadingSentinel} \<or> list_all plain_block (row_content input)"
proof (rule ccontr)
  assume "\<not> ?thesis"
  then have k: "pi_rowKind input \<noteq> DateSeparator" "pi_rowKind input \<noteq> TopLoadingSentinel"
    and np: "\<not> list_all plain_block (row_content input)" by auto
  note st = stateful_row [OF np, of "pi_message input" "pi_uiState input" "pi_capabilities input"]
  show False
    using assms k st notices_plain np
    by (auto simp: classifyTranscriptMeasurementPolicy_def Let_def split_beta content_of_row canMeasureReal_def
        requiresShellMeasurement_def split: if_splits)
qed

section \<open>The scheduler obeys\<close>

definition classified :: "policy_input \<Rightarrow> scheduled_row \<Rightarrow> bool" where
  \<comment> \<open>the row carries what the classification says\<close>
  "classified input row \<longleftrightarrow> (let d = classifyTranscriptMeasurementPolicy input in
    sr_measurementPolicy row = pol_policy d \<and>
    sr_canOffscreenRenderReal row = cap_canOffscreenRenderReal (pol_capabilities d) \<and>
    sr_canOffscreenRenderShell row = cap_canOffscreenRenderShell (pol_capabilities d))"

lemma offscreen_dropped:
  assumes "ms_rowById s (mt_rowId (oi_token input)) = Some row" "\<not> canAcceptOffscreenSource row (oi_source input)"
  shows "\<exists>reason. fst (recordOffscreenMeasurement input now s) = RecordDropped reason (oi_token input)"
  using assms by (auto simp: recordOffscreenMeasurement_def validateToken_def Let_def)

lemma offscreen_plan:
  assumes "ms_rowById s rid = Some row" "sr_measurementPolicy row = EstimateOnly"
  shows "\<exists>base. fst (planOffscreenMeasurement rid s) = Plan PlanEstimateOnly base"
  using assms by (auto simp: planOffscreenMeasurement_def createMeasurementPlan_def schedulerToken_def tick_def Let_def split_beta)

text \<open>
  C32. A row in use is never rendered a second time. When the row's user interface or the projection says
  that the user is in it (focus, selection, an open overlay, menu, dialog, popover or lightbox, copy
  feedback), that an app or a nested tool makes a request, that a tool or a timer runs, or that it holds
  something unknown, or when a tool call in its content is still running, then the measurement scheduler
  plans no more than an estimate for it outside the viewport and drops every offscreen measurement. And it
  accepts a measurement of a real second rendering only for a separator, the loading row, or a row of
  nothing but text and notices of the system. (The scheduler was given the row as the policy classifies it.)
\<close>

theorem used_rows_not_measured_offscreen:
  assumes "ms_rowById s rid = Some row" "classified input row"
  shows "(in_use input \<longrightarrow>
      (\<exists>base. fst (planOffscreenMeasurement rid s) = Plan PlanEstimateOnly base) \<and>
      (\<forall>m now. mt_rowId (oi_token m) = rid \<longrightarrow>
        (\<exists>reason. fst (recordOffscreenMeasurement m now s) = RecordDropped reason (oi_token m)))) \<and>
    (\<forall>m now entry queued. mt_rowId (oi_token m) = rid \<and> oi_source m = SourceReal \<and>
      fst (recordOffscreenMeasurement m now s) = RecordAccepted entry queued \<longrightarrow>
        pi_rowKind input \<in> {DateSeparator, TopLoadingSentinel} \<or> list_all plain_block (row_content input))"
proof -
  let ?d = "classifyTranscriptMeasurementPolicy input"
  have row: "sr_measurementPolicy row = pol_policy ?d" using assms(2) by (simp add: classified_def Let_def)
  have "(\<exists>base. fst (planOffscreenMeasurement rid s) = Plan PlanEstimateOnly base) \<and>
      (\<forall>m now. mt_rowId (oi_token m) = rid \<longrightarrow>
        (\<exists>reason. fst (recordOffscreenMeasurement m now s) = RecordDropped reason (oi_token m)))"
    if "in_use input"
  proof -
    have "sr_measurementPolicy row = EstimateOnly" using policy_in_use [OF that] row by simp
    moreover from this have "\<not> canAcceptOffscreenSource row src" for src
      by (cases src) (simp_all add: canAcceptOffscreenSource_def)
    ultimately show ?thesis using offscreen_plan [OF assms(1)] offscreen_dropped assms(1) by blast
  qed
  moreover have "pi_rowKind input \<in> {DateSeparator, TopLoadingSentinel} \<or> list_all plain_block (row_content input)"
    if m: "mt_rowId (oi_token m) = rid" "oi_source m = SourceReal"
      "fst (recordOffscreenMeasurement m now s) = RecordAccepted entry queued" for m now entry queued
  proof (rule policy_real, rule ccontr)
    assume "pol_policy ?d \<noteq> MeasureReal"
    then have "\<not> canAcceptOffscreenSource row (oi_source m)" using row m(2) by (simp add: canAcceptOffscreenSource_def)
    from offscreen_dropped [OF _ this, of s now] assms(1) m(1,3) show False by auto
  qed
  ultimately show ?thesis by blast
qed

section \<open>An instance\<close>

definition example_focus :: policy_input where
  \<comment> \<open>an answer with the focus inside\<close>
  "example_focus = \<lparr>pi_rowKind = AssistantContentFragment, pi_message = None,
    pi_content = Some [TextContent ''hello'' None None],
    pi_uiState = Some \<lparr>us_hasFocusedDescendant = True, us_protectsSelection = False, us_hasOpenOverlay = False,
      us_hasOpenMenu = False, us_hasOpenDialog = False, us_hasOpenPopover = False, us_hasOpenLightbox = False,
      us_hasCopyFeedback = False, us_hasActiveMcpHostRequest = False, us_hasActiveNestedToolRequest = False,
      us_hasActiveTimer = False, us_hasActiveToolWork = False, us_hasPendingLayout = False,
      us_hasLayoutAnimation = False, us_hasDynamicAsyncLayout = False, us_hasAsyncCodeHighlighting = False,
      us_hasRecentlyMcpResized = False, us_hasRecentlyMcpMessaged = False, us_hasUnknownUnsafeDescendants = False\<rparr>,
    pi_capabilities = None, pi_options = None\<rparr>"

definition example_focused_row :: scheduled_row where
  "example_focused_row = \<lparr>rd_rowId = ''a'', rd_heightRevision = ''h1'', rd_layoutRevision = ''l1'', rd_anchorPriority = Stable,
    rd_estimatedHeight = 100, rd_spacingBefore = 0, sr_measurementPolicy = EstimateOnly,
    sr_canOffscreenRenderReal = False, sr_canOffscreenRenderShell = False\<rparr>"

definition example_focused_scheduler :: measurement_scheduler where
  "example_focused_scheduler = createTranscriptMeasurementScheduler
    \<lparr>sx_sessionId = ''s'', sx_sessionEpoch = 1, sx_widthScope = ''w:720'', sx_rows = Some [example_focused_row]\<rparr> None"

theorem used_rows_not_measured_offscreen_witness:
  "\<exists>base. fst (planOffscreenMeasurement ''a'' example_focused_scheduler) = Plan PlanEstimateOnly base"
proof -
  have "ms_rowById example_focused_scheduler ''a'' = Some example_focused_row"
    by (simp add: example_focused_scheduler_def createTranscriptMeasurementScheduler_def rebuildRowIndex_def example_focused_row_def)
  moreover have "classified example_focus example_focused_row"
    unfolding classified_def Let_def by (intro conjI; code_simp)
  moreover have "in_use example_focus" by (simp add: in_use_def example_focus_def busy_ui_def)
  ultimately show ?thesis
    using used_rows_not_measured_offscreen [of example_focused_scheduler "''a''" example_focused_row example_focus]
    by blast
qed

end
