(* ===== verification/MessageRevisions.thy ===== *)
theory MessageRevisions
  imports Messages "HOL-Library.Word"
begin

text \<open>
  Revisions of messages (\<open>src/src/features/chat/transcript/projection/messageRevisions.ts\<close>): texts that
  change when a message has to be rendered or measured again. Long values enter by an FNV hash of 32 bits.
  The decimal text of a number, which the language defines, is an argument \<open>num\<close>.
\<close>

unbundle bit_operations_syntax

section \<open>JSON text\<close>

definition json_char :: "char \<Rightarrow> string" where
  \<comment> \<open>a character inside the quotes of \<open>JSON.stringify\<close>\<close>
  "json_char c = (let n = of_char c :: nat in
     if n = 34 \<or> n = 92 then [CHR 0x5C, c]
     else if n = 8 then [CHR 0x5C, CHR ''b'']
     else if n = 9 then [CHR 0x5C, CHR ''t'']
     else if n = 10 then [CHR 0x5C, CHR ''n'']
     else if n = 12 then [CHR 0x5C, CHR ''f'']
     else if n = 13 then [CHR 0x5C, CHR ''r'']
     else if n < 32 then CHR 0x5C # ''u00'' @ [digit_char (n div 16), digit_char (n mod 16)]
     else [c])"

definition quoted :: "string \<Rightarrow> string" where
  "quoted s = CHR 0x22 # concat (map json_char s) @ [CHR 0x22]"

definition code_units :: "string \<Rightarrow> nat list" where
  "code_units = map of_char"

fun units_le :: "nat list \<Rightarrow> nat list \<Rightarrow> bool" where
  \<comment> \<open>the order of \<open>sort()\<close> on strings\<close>
  "units_le [] _ = True"
| "units_le (_ # _) [] = False"
| "units_le (x # xs) (y # ys) \<longleftrightarrow> x < y \<or> x = y \<and> units_le xs ys"

fun insert_key :: "string \<times> 'v \<Rightarrow> (string \<times> 'v) list \<Rightarrow> (string \<times> 'v) list" where
  "insert_key p [] = [p]"
| "insert_key p (q # qs) =
    (if units_le (code_units (fst p)) (code_units (fst q)) then p # q # qs else q # insert_key p qs)"

definition sort_keys :: "(string \<times> 'v) list \<Rightarrow> (string \<times> 'v) list" where
  "sort_keys ps = foldr insert_key ps []"

definition object_text :: "(string \<times> string) list \<Rightarrow> string" where
  "object_text fs = CHR ''{'' # js_join '','' (map (\<lambda>(k, t). quoted k @ CHR '':'' # t) (sort_keys fs)) @ ''}''"

fun stableStringify :: "(js_number \<Rightarrow> string) \<Rightarrow> json \<Rightarrow> string" where
  "stableStringify num JNull = ''null''"
| "stableStringify num (JBool b) = (if b then ''true'' else ''false'')"
| "stableStringify num (JNum n) = num n"
| "stableStringify num JNonFinite = ''null''"
| "stableStringify num (JStr s) = quoted s"
| "stableStringify num (JArr vs) = CHR ''['' # js_join '','' (map (stableStringify num) vs) @ '']''"
| "stableStringify num (JObj fs) = object_text (map (\<lambda>(k, v). (k, stableStringify num v)) fs)"

definition hashString :: "string \<Rightarrow> string" where
  \<comment> \<open>\<open>Math.imul\<close> multiplies modulo \<open>2 ^ 32\<close>; the result is read without its sign\<close>
  "hashString s = nat_string 36 (unat
    (fold (\<lambda>c h. (h XOR (of_nat (of_char c) :: 32 word)) * 16777619) s (2166136261 :: 32 word)))"

definition EMPTY_ARRAY_REVISION :: string where
  "EMPTY_ARRAY_REVISION = hashString ''[]''"

definition stableValueRevision :: "(js_number \<Rightarrow> string) \<Rightarrow> json \<Rightarrow> string" where
  "stableValueRevision num v = (if v = JArr [] then EMPTY_ARRAY_REVISION else hashString (stableStringify num v))"

definition textRevision :: "string \<Rightarrow> string" where
  "textRevision value = nat_string 10 (length value) @ '':'' @ hashString value"

definition annotationsRevision :: "(js_number \<Rightarrow> string) \<Rightarrow> json option \<Rightarrow> string" where
  "annotationsRevision num annotations = (case annotations of
      None \<Rightarrow> [] | Some v \<Rightarrow> if v = JNull then [] else stableValueRevision num v)"

section \<open>Names of the data\<close>

definition colons :: "string list \<Rightarrow> string" where
  \<comment> \<open>\<open>[...].join(":")\<close>\<close>
  "colons = js_join '':''"

definition opt_text :: "string option \<Rightarrow> string" where
  \<comment> \<open>\<open>x ?? ""\<close>\<close>
  "opt_text x = or_else x []"

primrec role_text :: "message_role \<Rightarrow> string" where
  "role_text User = ''user''"
| "role_text Assistant = ''assistant''"
| "role_text System = ''system''"

primrec completion_text :: "completion_status \<Rightarrow> string" where
  "completion_text InProgress = ''inProgress''"
| "completion_text Completed = ''completed''"
| "completion_text CompletionError = ''error''"
| "completion_text Stopped = ''stopped''"

primrec delivery_text :: "message_delivery \<Rightarrow> string" where
  "delivery_text Steering = ''steering''"
| "delivery_text Steer = ''steer''"

primrec origin_text :: "message_origin \<Rightarrow> string" where
  "origin_text BerdctlCrossSession = ''berdctl_cross_session''"
| "origin_text VoiceConversation = ''voice_conversation''"

primrec speech_status_text :: "voice_speech_status \<Rightarrow> string" where
  "speech_status_text Speaking = ''speaking''"
| "speech_status_text Spoken = ''spoken''"
| "speech_status_text Interrupted = ''interrupted''"
| "speech_status_text NotSpoken = ''notSpoken''"
| "speech_status_text SpeechFailed = ''failed''"

primrec confidence_text :: "speech_confidence \<Rightarrow> string" where
  "confidence_text ConfidenceLow = ''low''"
| "confidence_text ConfidenceMedium = ''medium''"

primrec cause_text :: "interruption_cause \<Rightarrow> string" where
  "cause_text UserSpeaking = ''userSpeaking''"
| "cause_text VoiceStopped = ''voiceStopped''"

primrec tool_status_text :: "tool_call_status \<Rightarrow> string" where
  "tool_status_text ToolPending = ''pending''"
| "tool_status_text ToolInProgress = ''in_progress''"
| "tool_status_text ToolCompleted = ''completed''"
| "tool_status_text ToolFailed = ''failed''"
| "tool_status_text ToolStopped = ''stopped''"

primrec action_type_text :: "action_type \<Rightarrow> string" where
  "action_type_text ToolConfirmation = ''toolConfirmation''"
| "action_type_text Elicitation = ''elicitation''"

primrec notification_text :: "notification_type \<Rightarrow> string" where
  "notification_text NotifCompaction = ''compaction''"
| "notification_text NotifInfo = ''info''"
| "notification_text NotifWarning = ''warning''"
| "notification_text NotifError = ''error''"

definition bool_text :: "bool \<Rightarrow> string" where
  "bool_text b = (if b then ''true'' else ''false'')"

section \<open>Records as objects\<close>

definition optional_field :: "string \<Rightarrow> ('a \<Rightarrow> json) \<Rightarrow> 'a option \<Rightarrow> (string \<times> json) list" where
  "optional_field k f x = (case x of None \<Rightarrow> [] | Some v \<Rightarrow> [(k, f v)])"

definition attachment_object :: "message_attachment \<Rightarrow> json" where
  "attachment_object a = JObj (
    (''type'', JStr (case matt_type a of FileAttachment \<Rightarrow> ''file'' | UrlAttachment \<Rightarrow> ''url'' | DirectoryAttachment \<Rightarrow> ''directory'')) #
    (''name'', JStr (matt_name a)) #
    optional_field ''path'' JStr (matt_path a) @ optional_field ''url'' JStr (matt_url a) @
    optional_field ''mimeType'' JStr (matt_mimeType a))"

definition chip_object :: "message_chip \<Rightarrow> json" where
  "chip_object c = JObj (optional_field ''id'' JStr (chip_id c) @ (''label'', JStr (chip_label c)) #
    optional_field ''agentRole'' (\<lambda>r. JStr (case r of ActiveAgent \<Rightarrow> ''active'' | MentionedAgent \<Rightarrow> ''mentioned'')) (chip_agentRole c) @
    [(''type'', JStr (case chip_kind c of AgentChip \<Rightarrow> ''agent'' | SkillChip \<Rightarrow> ''skill'' |
        ExtensionChip \<Rightarrow> ''extension'' | RecipeChip \<Rightarrow> ''recipe''))])"

definition chain_summary_object :: "tool_chain_summary \<Rightarrow> json" where
  "chain_summary_object s = JObj [(''summary'', JStr (tcs_summary s)), (''count'', JNum (tcs_count s))]"

definition mcp_payload_object :: "mcp_app_payload \<Rightarrow> json" where
  "mcp_payload_object p = JObj [
    (''sessionId'', JStr (mcp_sessionId p)), (''toolCallId'', JStr (mcp_toolCallId p)),
    (''toolCallTitle'', JStr (mcp_toolCallTitle p)), (''source'', JStr ''toolCallUpdateMeta''),
    (''tool'', JObj ([(''name'', JStr (mcp_tool_name p)), (''extensionName'', JStr (mcp_tool_extensionName p)),
      (''resourceUri'', JStr (mcp_tool_resourceUri p))] @ optional_field ''meta'' id (mcp_tool_meta p))),
    (''resource'', JObj ((''result'', or_else (mcp_resource_result p) JNull) #
      optional_field ''readError'' JStr (mcp_resource_readError p)))]"

definition image_field :: "string \<Rightarrow> json \<Rightarrow> string" where
  \<comment> \<open>\<open>content.field ?? ""\<close> of an image\<close>
  "image_field k img = (case img of JObj fs \<Rightarrow> (case map_of fs k of Some (JStr s) \<Rightarrow> s | _ \<Rightarrow> []) | _ \<Rightarrow> [])"

definition image_annotations :: "json \<Rightarrow> json option" where
  "image_annotations img = (case img of JObj fs \<Rightarrow> map_of fs ''annotations'' | _ \<Rightarrow> None)"

section \<open>Content\<close>

record revision_parts =
  renderRevision :: string
  heightRevision :: string

definition textRenderRevision :: "(js_number \<Rightarrow> string) \<Rightarrow> string \<Rightarrow> json option \<Rightarrow> string" where
  "textRenderRevision num t annotations = colons [''text'', textRevision t, annotationsRevision num annotations]"

definition textHeightRevision :: "string \<Rightarrow> string" where
  "textHeightRevision t = colons [''text-height'', textRevision t]"

definition imageHeightRevision :: "json \<Rightarrow> string" where
  "imageHeightRevision img =
    colons [''image-height'', image_field ''mimeType'' img, textRevision (image_field ''data'' img), image_field ''uri'' img]"

definition imageRenderRevision :: "(js_number \<Rightarrow> string) \<Rightarrow> json \<Rightarrow> string" where
  "imageRenderRevision num img =
    colons [''image'', image_field ''mimeType'' img, textRevision (image_field ''data'' img), image_field ''uri'' img,
      annotationsRevision num (image_annotations img)]"

definition tool_request_parts :: "(js_number \<Rightarrow> string) \<Rightarrow> tool_request_content \<Rightarrow> string list" where
  "tool_request_parts num t =
    [treq_id t, treq_name t, opt_text (treq_toolName t), opt_text (treq_extensionName t),
     tool_status_text (treq_status t), opt_text (treq_toolKind t), opt_text (treq_subagentAgentName t),
     opt_text (treq_subagentTaskLabel t), bool_text (or_else (treq_subagentTaskIsConfigured t) False),
     stableValueRevision num (treq_arguments t), stableValueRevision num (JArr (or_else (treq_locations t) []))]"

definition chainSummary_revision :: "(js_number \<Rightarrow> string) \<Rightarrow> tool_request_content \<Rightarrow> string" where
  "chainSummary_revision num t =
    stableValueRevision num (or_else (map_option chain_summary_object (treq_chainSummary t)) JNull)"

definition toolRequestRenderRevision :: "(js_number \<Rightarrow> string) \<Rightarrow> tool_request_content \<Rightarrow> string" where
  "toolRequestRenderRevision num t = colons (''toolRequest'' # tool_request_parts num t @
    [opt_text (map_option num (treq_startedAt t)), chainSummary_revision num t, annotationsRevision num (treq_annotations t)])"

definition toolRequestHeightRevision :: "(js_number \<Rightarrow> string) \<Rightarrow> tool_request_content \<Rightarrow> string" where
  "toolRequestHeightRevision num t =
    colons (''toolRequest-height'' # tool_request_parts num t @ [chainSummary_revision num t])"

definition tool_response_parts :: "(js_number \<Rightarrow> string) \<Rightarrow> tool_response_content \<Rightarrow> string list" where
  "tool_response_parts num t =
    [tres_id t, tres_name t, textRevision (tres_result t),
     stableValueRevision num (or_else (tres_structuredContent t) JNull), bool_text (tres_isError t)]"

definition toolResponseRenderRevision :: "(js_number \<Rightarrow> string) \<Rightarrow> tool_response_content \<Rightarrow> string" where
  "toolResponseRenderRevision num t =
    colons (''toolResponse'' # tool_response_parts num t @ [annotationsRevision num (tres_annotations t)])"

definition toolResponseHeightRevision :: "(js_number \<Rightarrow> string) \<Rightarrow> tool_response_content \<Rightarrow> string" where
  "toolResponseHeightRevision num t = colons (''toolResponse-height'' # tool_response_parts num t)"

definition mcpAppRenderRevision :: "(js_number \<Rightarrow> string) \<Rightarrow> string \<Rightarrow> mcp_app_payload \<Rightarrow> string" where
  "mcpAppRenderRevision num i p = colons [''mcpApp'', i, stableValueRevision num (mcp_payload_object p)]"

definition mcpAppHeightRevision :: "(js_number \<Rightarrow> string) \<Rightarrow> string \<Rightarrow> mcp_app_payload \<Rightarrow> string" where
  "mcpAppHeightRevision num i p = colons [''mcpApp-height'', i, stableValueRevision num (mcp_payload_object p)]"

definition thinkingRenderRevision :: "(js_number \<Rightarrow> string) \<Rightarrow> string \<Rightarrow> json option \<Rightarrow> string" where
  "thinkingRenderRevision num t annotations = colons [''thinking'', textRevision t, annotationsRevision num annotations]"

definition thinkingHeightRevision :: "string \<Rightarrow> string" where
  "thinkingHeightRevision t = colons [''thinking-height'', textRevision t]"

definition redactedThinkingRenderRevision :: "(js_number \<Rightarrow> string) \<Rightarrow> json option \<Rightarrow> string" where
  "redactedThinkingRenderRevision num annotations = colons [''redactedThinking'', annotationsRevision num annotations]"

definition reasoningRenderRevision :: "(js_number \<Rightarrow> string) \<Rightarrow> string \<Rightarrow> json option \<Rightarrow> string" where
  "reasoningRenderRevision num t annotations = colons [''reasoning'', textRevision t, annotationsRevision num annotations]"

definition reasoningHeightRevision :: "string \<Rightarrow> string" where
  "reasoningHeightRevision t = colons [''reasoning-height'', textRevision t]"

definition action_required_parts :: "(js_number \<Rightarrow> string) \<Rightarrow> action_required_content \<Rightarrow> string list" where
  "action_required_parts num a =
    [areq_id a, action_type_text (areq_actionType a), opt_text (areq_message a), opt_text (areq_toolName a),
     stableValueRevision num (or_else (areq_arguments a) JNull), stableValueRevision num (or_else (areq_schema a) JNull)]"

definition actionRequiredRenderRevision :: "(js_number \<Rightarrow> string) \<Rightarrow> action_required_content \<Rightarrow> string" where
  "actionRequiredRenderRevision num a =
    colons (''actionRequired'' # action_required_parts num a @ [annotationsRevision num (areq_annotations a)])"

definition actionRequiredHeightRevision :: "(js_number \<Rightarrow> string) \<Rightarrow> action_required_content \<Rightarrow> string" where
  "actionRequiredHeightRevision num a = colons (''actionRequired-height'' # action_required_parts num a)"

definition systemNotificationRenderRevision ::
    "(js_number \<Rightarrow> string) \<Rightarrow> notification_type \<Rightarrow> string \<Rightarrow> json option \<Rightarrow> string" where
  "systemNotificationRenderRevision num k t annotations =
    colons [''systemNotification'', notification_text k, textRevision t, annotationsRevision num annotations]"

definition systemNotificationHeightRevision :: "notification_type \<Rightarrow> string \<Rightarrow> string" where
  "systemNotificationHeightRevision k t =
    colons [''systemNotification-height'', notification_text k, textRevision t]"

definition buildContentRenderRevision :: "(js_number \<Rightarrow> string) \<Rightarrow> message_content \<Rightarrow> string" where
  "buildContentRenderRevision num c = (case c of
      TextContent t _ ann \<Rightarrow> textRenderRevision num t ann
    | ImageContent img \<Rightarrow> imageRenderRevision num img
    | ToolRequest t \<Rightarrow> toolRequestRenderRevision num t
    | ToolResponse t \<Rightarrow> toolResponseRenderRevision num t
    | McpApp i p \<Rightarrow> mcpAppRenderRevision num i p
    | Thinking t ann \<Rightarrow> thinkingRenderRevision num t ann
    | RedactedThinking ann \<Rightarrow> redactedThinkingRenderRevision num ann
    | Reasoning t ann \<Rightarrow> reasoningRenderRevision num t ann
    | ActionRequired a \<Rightarrow> actionRequiredRenderRevision num a
    | SystemNotification k t _ ann \<Rightarrow> systemNotificationRenderRevision num k t ann)"

definition buildContentHeightRevision :: "(js_number \<Rightarrow> string) \<Rightarrow> message_content \<Rightarrow> string" where
  "buildContentHeightRevision num c = (case c of
      TextContent t _ _ \<Rightarrow> textHeightRevision t
    | ImageContent img \<Rightarrow> imageHeightRevision img
    | ToolRequest t \<Rightarrow> toolRequestHeightRevision num t
    | ToolResponse t \<Rightarrow> toolResponseHeightRevision num t
    | McpApp i p \<Rightarrow> mcpAppHeightRevision num i p
    | Thinking t _ \<Rightarrow> thinkingHeightRevision t
    | RedactedThinking _ \<Rightarrow> ''redactedThinking''
    | Reasoning t _ \<Rightarrow> reasoningHeightRevision t
    | ActionRequired a \<Rightarrow> actionRequiredHeightRevision num a
    | SystemNotification k t _ _ \<Rightarrow> systemNotificationHeightRevision k t)"

definition speechRevision :: "(js_number \<Rightarrow> string) \<Rightarrow> voice_speech_state option \<Rightarrow> string" where
  "speechRevision num speech = (case speech of
      None \<Rightarrow> []
    | Some s \<Rightarrow> colons [speech_status_text (vs_status s), opt_text (map_option num (vs_spokenThrough s)),
        opt_text (map_option confidence_text (vs_confidence s)), opt_text (map_option cause_text (vs_interruptionCause s))])"

definition buildSingleContentRevisionParts :: "(js_number \<Rightarrow> string) \<Rightarrow> message_content \<Rightarrow> revision_parts" where
  "buildSingleContentRevisionParts num c = (case c of
      TextContent t speech ann \<Rightarrow>
        \<lparr>renderRevision = colons [''text'', textRevision t, annotationsRevision num ann, speechRevision num speech],
         heightRevision = colons [''text-height'', textRevision t, speechRevision num speech]\<rparr>
    | _ \<Rightarrow> \<lparr>renderRevision = buildContentRenderRevision num c, heightRevision = buildContentHeightRevision num c\<rparr>)"

definition buildContentRevisionParts :: "(js_number \<Rightarrow> string) \<Rightarrow> message_content list \<Rightarrow> revision_parts" where
  "buildContentRevisionParts num content =
    (let parts = map (buildSingleContentRevisionParts num) content in
     \<lparr>renderRevision = js_join ''|'' (map renderRevision parts), heightRevision = js_join ''|'' (map heightRevision parts)\<rparr>)"

section \<open>Metadata\<close>

definition hasDefaultRevisionMetadata :: "message_metadata \<Rightarrow> bool" where
  "hasDefaultRevisionMetadata md \<longleftrightarrow>
    completionStatus md = None \<and> delivery md = None \<and> origin md = None \<and>
    or_else (meta_attachments md) [] = [] \<and> or_else (meta_chips md) [] = [] \<and>
    \<not> truthy (meta_personaId md) \<and> \<not> truthy (meta_personaName md) \<and> \<not> truthy (meta_providerId md) \<and>
    \<not> truthy (targetPersonaId md) \<and> \<not> truthy (targetPersonaName md)"

definition DEFAULT_RENDER_METADATA_REVISION :: string where
  "DEFAULT_RENDER_METADATA_REVISION =
    colons [''metadata'', [], EMPTY_ARRAY_REVISION, EMPTY_ARRAY_REVISION, [], [], [], [], []]"

definition DEFAULT_HEIGHT_METADATA_REVISION :: string where
  "DEFAULT_HEIGHT_METADATA_REVISION =
    colons [''metadata-height'', [], EMPTY_ARRAY_REVISION, EMPTY_ARRAY_REVISION, [], []]"

definition attachments_revision :: "(js_number \<Rightarrow> string) \<Rightarrow> message_metadata \<Rightarrow> string" where
  "attachments_revision num md = stableValueRevision num (JArr (map attachment_object (or_else (meta_attachments md) [])))"

definition chips_revision :: "(js_number \<Rightarrow> string) \<Rightarrow> message_metadata \<Rightarrow> string" where
  "chips_revision num md = stableValueRevision num (JArr (map chip_object (or_else (meta_chips md) [])))"

definition renderMetadataRevision :: "(js_number \<Rightarrow> string) \<Rightarrow> message_metadata option \<Rightarrow> string" where
  "renderMetadataRevision num metadata = (case metadata of
      None \<Rightarrow> ''metadata:none''
    | Some md \<Rightarrow>
      if hasDefaultRevisionMetadata md then DEFAULT_RENDER_METADATA_REVISION
      else colons [''metadata'', opt_text (map_option completion_text (completionStatus md)),
        opt_text (map_option delivery_text (delivery md)), opt_text (map_option origin_text (origin md)),
        attachments_revision num md, chips_revision num md, opt_text (meta_personaId md), opt_text (meta_personaName md),
        opt_text (meta_providerId md), opt_text (targetPersonaId md), opt_text (targetPersonaName md)])"

definition heightMetadataRevision :: "(js_number \<Rightarrow> string) \<Rightarrow> message_metadata option \<Rightarrow> string" where
  "heightMetadataRevision num metadata = (case metadata of
      None \<Rightarrow> ''metadata-height:none''
    | Some md \<Rightarrow>
      if hasDefaultRevisionMetadata md then DEFAULT_HEIGHT_METADATA_REVISION
      else colons [''metadata-height'', opt_text (map_option completion_text (completionStatus md)),
        opt_text (map_option delivery_text (delivery md)), opt_text (map_option origin_text (origin md)),
        attachments_revision num md, chips_revision num md, opt_text (meta_personaName md), opt_text (targetPersonaName md)])"

section \<open>Messages\<close>

definition buildSingleTextMessageRevisions ::
    "(js_number \<Rightarrow> string) \<Rightarrow> message \<Rightarrow> string \<Rightarrow> voice_speech_state option \<Rightarrow> json option \<Rightarrow> revision_parts" where
  "buildSingleTextMessageRevisions num m t speech ann =
    (let revision = textRevision t in
     \<lparr>renderRevision = ''message:'' @ msg_id m @ '':'' @ role_text (msg_role m) @ '':'' @ num (msg_created m) @ '':'' @
        renderMetadataRevision num (msg_metadata m) @ '':text:'' @ revision @ '':'' @ annotationsRevision num ann @ '':'' @
        speechRevision num speech,
      heightRevision = ''message-height:'' @ msg_id m @ '':'' @ role_text (msg_role m) @ '':'' @
        heightMetadataRevision num (msg_metadata m) @ '':text-height:'' @ revision @ '':'' @ speechRevision num speech\<rparr>)"

definition content_message_revisions :: "(js_number \<Rightarrow> string) \<Rightarrow> message \<Rightarrow> message_content list \<Rightarrow> revision_parts" where
  "content_message_revisions num m content =
    (let parts = buildContentRevisionParts num content in
     \<lparr>renderRevision = colons [''message'', msg_id m, role_text (msg_role m), num (msg_created m),
        renderMetadataRevision num (msg_metadata m), renderRevision parts],
      heightRevision = colons [''message-height'', msg_id m, role_text (msg_role m),
        heightMetadataRevision num (msg_metadata m), heightRevision parts]\<rparr>)"

definition buildMessageRevisions :: "(js_number \<Rightarrow> string) \<Rightarrow> message \<Rightarrow> message_content list \<Rightarrow> revision_parts" where
  "buildMessageRevisions num m visibleContent = (case visibleContent of
      [TextContent t speech ann] \<Rightarrow> buildSingleTextMessageRevisions num m t speech ann
    | _ \<Rightarrow> content_message_revisions num m visibleContent)"

definition content_type :: "message_content \<Rightarrow> string" where
  "content_type c = (case c of
      TextContent _ _ _ \<Rightarrow> ''text'' | ImageContent _ \<Rightarrow> ''image'' | ToolRequest _ \<Rightarrow> ''toolRequest''
    | ToolResponse _ \<Rightarrow> ''toolResponse'' | McpApp _ _ \<Rightarrow> ''mcpApp'' | Thinking _ _ \<Rightarrow> ''thinking''
    | RedactedThinking _ \<Rightarrow> ''redactedThinking'' | Reasoning _ _ \<Rightarrow> ''reasoning''
    | ActionRequired _ \<Rightarrow> ''actionRequired'' | SystemNotification _ _ _ _ \<Rightarrow> ''systemNotification'')"

definition content_id :: "message_content \<Rightarrow> string option" where
  "content_id c = (case c of
      ToolRequest t \<Rightarrow> Some (treq_id t) | ToolResponse t \<Rightarrow> Some (tres_id t) | McpApp i _ \<Rightarrow> Some i
    | ActionRequired a \<Rightarrow> Some (areq_id a) | _ \<Rightarrow> None)"

definition buildBlockId :: "message_content \<Rightarrow> nat \<Rightarrow> string" where
  "buildBlockId c index = content_type c @ '':'' @ or_else (content_id c) (nat_string 10 index)"

section \<open>Facts\<close>

lemma single_text_revisions:
  \<comment> \<open>the path for a single text writes what the general one would\<close>
  "buildSingleTextMessageRevisions num m t speech ann = content_message_revisions num m [TextContent t speech ann]"
  by (simp add: buildSingleTextMessageRevisions_def content_message_revisions_def buildContentRevisionParts_def
      buildSingleContentRevisionParts_def colons_def Let_def)

lemma buildMessageRevisions_general: "buildMessageRevisions num m content = content_message_revisions num m content"
  by (auto simp: buildMessageRevisions_def single_text_revisions split: list.split message_content.split)

end
