(* ===== verification/JsRegex.thy ===== *)
theory JsRegex
  imports JsStrings
begin

text \<open>
  The part of the language's regular expressions that the components use: classes of characters with greedy
  repetition, alternatives, optional parts, numbered groups and the end of the input. A matcher of the
  language backtracks; here an expression gives the list of all its matches at the start of a string, in the
  order in which the matcher tries them, so that the first one is the match.
\<close>

datatype regex =
    Rep "char \<Rightarrow> bool" nat "nat option"   \<comment> \<open>\<open>[...]{m,n}\<close>\<close>
  | Then regex regex
  | Either regex regex
  | Optional regex
  | Group nat regex
  | AtEnd

abbreviation One :: "(char \<Rightarrow> bool) \<Rightarrow> regex" where
  "One p \<equiv> Rep p 1 (Some 1)"

abbreviation Lit :: "char \<Rightarrow> regex" where
  "Lit c \<equiv> One ((=) c)"

primrec literal :: "string \<Rightarrow> regex" where
  "literal [] = Rep (\<lambda>_. True) 0 (Some 0)"
| "literal (c # cs) = Then (Lit c) (literal cs)"

text \<open>A match: its text, what follows, and the groups from the innermost last one on.\<close>

type_synonym regex_match = "string \<times> string \<times> (nat \<times> string) list"

definition rep_matches :: "(char \<Rightarrow> bool) \<Rightarrow> nat \<Rightarrow> nat option \<Rightarrow> string \<Rightarrow> regex_match list" where
  "rep_matches p m n s =
    (let most = length (takeWhile p s); most = (case n of None \<Rightarrow> most | Some n \<Rightarrow> min n most) in
     map (\<lambda>i. (take i s, drop i s, [])) (rev [m ..< Suc most]))"

primrec matches :: "regex \<Rightarrow> string \<Rightarrow> regex_match list" where
  "matches (Rep p m n) s = rep_matches p m n s"
| "matches (Then r q) s =
    concat (map (\<lambda>(t, s', gs). map (\<lambda>(t', s'', gs'). (t @ t', s'', gs' @ gs)) (matches q s')) (matches r s))"
| "matches (Either r q) s = matches r s @ matches q s"
| "matches (Optional r) s = matches r s @ [([], s, [])]"
| "matches (Group k r) s = map (\<lambda>(t, s', gs). (t, s', (k, t) # gs)) (matches r s)"
| "matches AtEnd s = (if s = [] then [([], [], [])] else [])"

definition match_start :: "regex \<Rightarrow> string \<Rightarrow> regex_match option" where
  \<comment> \<open>a pattern that begins with \<open>^\<close>\<close>
  "match_start r s = (case matches r s of [] \<Rightarrow> None | m # _ \<Rightarrow> Some m)"

definition test_start :: "regex \<Rightarrow> string \<Rightarrow> bool" where
  "test_start r s \<longleftrightarrow> matches r s \<noteq> []"

definition group :: "nat \<Rightarrow> regex_match \<Rightarrow> string option" where
  "group k m = map_of (snd (snd m)) k"

fun search_from :: "regex \<Rightarrow> string \<Rightarrow> string \<Rightarrow> (string \<times> regex_match) option" where
  \<comment> \<open>the leftmost match, with the text before it\<close>
  "search_from r before s = (case match_start r s of
      Some m \<Rightarrow> Some (before, m)
    | None \<Rightarrow> (case s of [] \<Rightarrow> None | c # s \<Rightarrow> search_from r (before @ [c]) s))"

declare search_from.simps [simp del]

section \<open>Facts\<close>

lemma matches_parts: "(t, s', gs) \<in> set (matches r s) \<Longrightarrow> t @ s' = s"
proof (induction r arbitrary: t s' gs s)
  case (Then r q)
  then show ?case by fastforce
qed (auto simp: rep_matches_def Let_def split: if_splits)

lemma match_start_parts: "match_start r s = Some (t, s', gs) \<Longrightarrow> t @ s' = s"
  by (auto simp: match_start_def split: list.splits intro: matches_parts [of _ _ _ r])

lemma test_start_iff: "test_start r s \<longleftrightarrow> (\<exists>m. match_start r s = Some m)"
  by (auto simp: test_start_def match_start_def split: list.splits)

lemma rep_matches_mem:
  "(t, s', gs) \<in> set (rep_matches p m n s) \<longleftrightarrow>
    t @ s' = s \<and> gs = [] \<and> list_all p t \<and> m \<le> length t \<and> (\<forall>k. n = Some k \<longrightarrow> length t \<le> k)"
proof
  assume "(t, s', gs) \<in> set (rep_matches p m n s)"
  then obtain i where i: "t = take i s" "s' = drop i s" "gs = []" "m \<le> i" "i \<le> length (takeWhile p s)"
      "\<forall>k. n = Some k \<longrightarrow> i \<le> k"
    by (auto simp: rep_matches_def Let_def less_Suc_eq_le split: option.splits)
  then have "take i s = take i (takeWhile p s)"
    by (metis length_takeWhile_le take_append takeWhile_dropWhile_id diff_is_0_eq take0 append_Nil2)
  then have "list_all p t" using i(1)
    by (auto simp: list_all_iff dest: set_takeWhileD in_set_takeD)
  moreover have "length t = i" using i(1,5) length_takeWhile_le [of p s] by simp
  ultimately show "t @ s' = s \<and> gs = [] \<and> list_all p t \<and> m \<le> length t \<and> (\<forall>k. n = Some k \<longrightarrow> length t \<le> k)"
    using i by simp
next
  assume a: "t @ s' = s \<and> gs = [] \<and> list_all p t \<and> m \<le> length t \<and> (\<forall>k. n = Some k \<longrightarrow> length t \<le> k)"
  then have "length t \<le> length (takeWhile p s)"
    by (auto simp: list_all_iff takeWhile_append)
  with a show "(t, s', gs) \<in> set (rep_matches p m n s)"
    by (force simp: rep_matches_def Let_def less_Suc_eq_le image_iff split: option.splits intro!: bexI [of _ "length t"])
qed

end
