(* ===== verification/ReasoningText.thy ===== *)
theory ReasoningText
  imports JsRegex Messages
begin

text \<open>
  The text of thoughts (the reasoning part of
  \<open>src/src/features/chat/transcript/projection/buildTranscriptItems.ts\<close>): its titled sections, a body that a
  provider sent twice, and the signature by which a thought that was already shown is recognised.
\<close>

section \<open>Strings\<close>

definition trim_start :: "string \<Rightarrow> string" where
  "trim_start s = dropWhile is_js_space s"

definition trim_end :: "string \<Rightarrow> string" where
  "trim_end s = rev (dropWhile is_js_space (rev s))"

fun collapse_spaces :: "string \<Rightarrow> string" where
  \<comment> \<open>\<open>replace(/\s+/g, " ")\<close>\<close>
  "collapse_spaces [] = []"
| "collapse_spaces [c] = (if is_js_space c then '' '' else [c])"
| "collapse_spaces (c # d # cs) =
    (if is_js_space c then (if is_js_space d then collapse_spaces (d # cs) else CHR '' '' # collapse_spaces (d # cs))
     else c # collapse_spaces (d # cs))"

definition has_prefix :: "string \<Rightarrow> string \<Rightarrow> bool" where
  "has_prefix p s \<longleftrightarrow> take (length p) s = p"

definition has_suffix :: "string \<Rightarrow> string \<Rightarrow> bool" where
  "has_suffix p s \<longleftrightarrow> has_prefix (rev p) (rev s)"

definition normalizeReasoningText :: "string \<Rightarrow> string" where
  "normalizeReasoningText s = collapse_spaces (js_trim s)"

definition REASONING_DUPLICATE_MIN_LENGTH :: nat where
  "REASONING_DUPLICATE_MIN_LENGTH = 80"

section \<open>Headers\<close>

definition not_newline :: "char \<Rightarrow> bool" where
  "not_newline c \<longleftrightarrow> c \<noteq> CHR 0x0A"

definition bold_title :: "regex \<Rightarrow> regex" where
  "bold_title title = Then (literal ''**'') (Then title (literal ''**''))"

abbreviation title_chars :: regex where
  "title_chars \<equiv> Rep (\<lambda>c. not_newline c \<and> c \<noteq> CHR ''*'') 1 (Some 120)"

abbreviation heading_chars :: regex where
  "heading_chars \<equiv> Rep not_newline 1 (Some 120)"

definition header_pattern :: regex where
  "header_pattern = Then
    (Either (bold_title (Group 1 title_chars))
      (Then (Rep ((=) CHR ''#'') 1 (Some 6)) (Then (Rep is_js_space 1 None) (Group 2 heading_chars))))
    (Then (Rep is_js_space 0 None) (Rep ((=) CHR 0x0A) 1 None))"

record reasoning_header =
  rh_title :: string
  rh_headerText :: string
  rh_body :: string

definition getLeadingReasoningHeader :: "string \<Rightarrow> reasoning_header option" where
  "getLeadingReasoningHeader s =
    (let leading = takeWhile is_js_space s in
     case match_start header_pattern (trim_start s) of
       None \<Rightarrow> None
     | Some m \<Rightarrow>
       let title = js_trim (or_else (group 1 m) (or_else (group 2 m) [])) in
       if title = [] then None
       else Some \<lparr>rh_title = title, rh_headerText = leading @ fst m, rh_body = fst (snd m)\<rparr>)"

definition canonicalizeReasoningBody :: "string \<Rightarrow> string" where
  "canonicalizeReasoningBody s = (case getLeadingReasoningHeader s of
      Some header \<Rightarrow> normalizeReasoningText (rh_body header)
    | None \<Rightarrow> normalizeReasoningText s)"

definition canonicalizeReasoningCandidate :: "string \<Rightarrow> string option \<Rightarrow> string" where
  "canonicalizeReasoningCandidate s title =
    (let signature = canonicalizeReasoningBody s in
     if \<not> truthy title then signature
     else
       let t = normalizeReasoningText (the title) in
       if t = [] then signature
       else
         let signature = (if has_prefix t signature then js_trim (drop (length t) signature) else signature) in
         if has_suffix t signature then js_trim (take (length signature - length t) signature) else signature)"

definition areDuplicateReasoningBodies :: "string \<Rightarrow> string \<Rightarrow> string option \<Rightarrow> bool" where
  "areDuplicateReasoningBodies left right title \<longleftrightarrow>
    (let l = canonicalizeReasoningCandidate left title in
     REASONING_DUPLICATE_MIN_LENGTH \<le> length l \<and> l = canonicalizeReasoningCandidate right title)"

section \<open>Bodies that came twice\<close>

definition title_mark :: "string \<Rightarrow> regex" where
  \<comment> \<open>the title, perhaps between asterisks; \<open>escapeRegExp\<close> makes it stand for itself\<close>
  "title_mark title = Then (Optional (literal ''**'')) (Then (literal title) (Optional (literal ''**'')))"

abbreviation any_spaces :: regex where
  "any_spaces \<equiv> Rep is_js_space 0 None"

definition stripReasoningBoundaryTitleArtifacts :: "string \<Rightarrow> string option \<Rightarrow> string" where
  "stripReasoningBoundaryTitleArtifacts body title =
    (if \<not> truthy title then body
     else
       let body = (case match_start (Then any_spaces (Then (title_mark (the title)) any_spaces)) body of
             None \<Rightarrow> body | Some (_, rest, _) \<Rightarrow> rest) in
       case search_from (Then any_spaces (Then (title_mark (the title)) (Then any_spaces AtEnd))) [] body of
         None \<Rightarrow> body | Some (before, _, rest, _) \<Rightarrow> before @ rest)"

function match_all :: "regex \<Rightarrow> nat \<Rightarrow> string \<Rightarrow> (nat \<times> nat) list" where
  \<comment> \<open>where the matches of \<open>matchAll\<close> begin and end\<close>
  "match_all r pos s = (case match_start r s of
      Some (t, rest, _) \<Rightarrow>
        if t = [] then (pos, pos) # (case s of [] \<Rightarrow> [] | _ # s' \<Rightarrow> match_all r (pos + 1) s')
        else (pos, pos + length t) # match_all r (pos + length t) rest
    | None \<Rightarrow> (case s of [] \<Rightarrow> [] | _ # s' \<Rightarrow> match_all r (pos + 1) s'))"
  by pat_completeness auto

termination
  by (relation "measure (\<lambda>(r, pos, s). length s)") (auto dest: match_start_parts)

declare match_all.simps [simp del]

definition blank_line_pattern :: regex where
  "blank_line_pattern = Then (Lit CHR 0x0A) (Then any_spaces (Lit CHR 0x0A))"

definition split_candidates :: "string \<Rightarrow> string option \<Rightarrow> nat list" where
  "split_candidates body title = sort (remdups (
    map snd (match_all blank_line_pattern 0 body) @
    (if truthy title then concat (map (\<lambda>(i, j). [i, j]) (match_all (title_mark (the title)) 0 body)) else [])))"

definition collapseDuplicatedReasoningBody :: "string \<Rightarrow> string option \<Rightarrow> string" where
  "collapseDuplicatedReasoningBody body title =
    (let strippedBody = stripReasoningBoundaryTitleArtifacts body title;
         trimmedBody = js_trim strippedBody in
     if length trimmedBody < REASONING_DUPLICATE_MIN_LENGTH * 2 then strippedBody
     else (case List.find (\<lambda>i. let left = js_trim (take i trimmedBody); right = js_trim (drop i trimmedBody) in
             left \<noteq> [] \<and> right \<noteq> [] \<and> areDuplicateReasoningBodies left right title) (split_candidates trimmedBody title) of
         Some i \<Rightarrow> js_trim (take i trimmedBody)
       | None \<Rightarrow> strippedBody))"

definition sanitizeReasoningTextForDisplay :: "string \<Rightarrow> string" where
  "sanitizeReasoningTextForDisplay s = (case getLeadingReasoningHeader s of
      None \<Rightarrow> collapseDuplicatedReasoningBody s None
    | Some header \<Rightarrow> rh_headerText header @
        trim_start (collapseDuplicatedReasoningBody (rh_body header) (Some (rh_title header))))"

section \<open>Signatures\<close>

definition getCanonicalReasoningSignature :: "string \<Rightarrow> string option" where
  "getCanonicalReasoningSignature s =
    (let sanitizedText = sanitizeReasoningTextForDisplay s;
         canonicalText = canonicalizeReasoningCandidate sanitizedText
           (map_option rh_title (getLeadingReasoningHeader sanitizedText)) in
     if canonicalText = [] then None else Some canonicalText)"

definition getReasoningSignature :: "message_content \<Rightarrow> string option" where
  "getReasoningSignature block = (case block of
      RedactedThinking _ \<Rightarrow> Some ''[redacted]''
    | Thinking t _ \<Rightarrow> getCanonicalReasoningSignature t
    | Reasoning t _ \<Rightarrow> getCanonicalReasoningSignature t
    | _ \<Rightarrow> None)"

fun getLeadingReasoningSignatures :: "message_content list \<Rightarrow> string list" where
  "getLeadingReasoningSignatures [] = []"
| "getLeadingReasoningSignatures (block # content) = (case getReasoningSignature block of
      None \<Rightarrow> [] | Some signature \<Rightarrow> signature # getLeadingReasoningSignatures content)"

fun is_tool_response :: "message_content \<Rightarrow> bool" where
  "is_tool_response (ToolResponse _) = True"
| "is_tool_response _ = False"

definition isToolResponseOnlyContent :: "message_content list \<Rightarrow> bool" where
  "isToolResponseOnlyContent content \<longleftrightarrow> content \<noteq> [] \<and> list_all is_tool_response content"

definition filterDuplicateDisplayedReasoning :: "message_content list \<Rightarrow> string set \<Rightarrow> message_content list" where
  \<comment> \<open>when no signature is displayed the loop would stop at once, so its guard needs no branch of its own\<close>
  "filterDuplicateDisplayedReasoning content displayed =
    dropWhile (\<lambda>block. case getReasoningSignature block of None \<Rightarrow> False | Some signature \<Rightarrow> signature \<in> displayed) content"

section \<open>Sections\<close>

definition isReasoningSectionHeaderLine :: "string \<Rightarrow> bool" where
  "isReasoningSectionHeaderLine line = test_start (Then
    (Either (bold_title title_chars) (Then (Rep ((=) CHR ''#'') 1 (Some 6)) (Then (Rep is_js_space 1 None) heading_chars)))
    (Then any_spaces AtEnd)) (js_trim line)"

definition join_lines :: "string list \<Rightarrow> string" where
  "join_lines = js_join [CHR 0x0A]"

definition section_of :: "string list \<Rightarrow> string list" where
  \<comment> \<open>the lines as a section, unless they are blank\<close>
  "section_of lines = (let s = trim_end (join_lines lines) in if js_trim s = [] then [] else [s])"

fun reasoning_sections :: "string list \<Rightarrow> string list \<Rightarrow> string list" where
  \<comment> \<open>the current section's lines, and the lines still to come\<close>
  "reasoning_sections current [] = section_of current"
| "reasoning_sections current (line # lines) =
    (if isReasoningSectionHeaderLine line \<and> list_ex (\<lambda>l. js_trim l \<noteq> []) current
     then section_of current @ reasoning_sections [line] lines
     else reasoning_sections (current @ [line]) lines)"

definition splitReasoningText :: "string \<Rightarrow> string list" where
  \<comment> \<open>one text when there are not several sections\<close>
  "splitReasoningText s = (let sections = reasoning_sections [] (js_split (CHR 0x0A) s) in
     if length sections \<le> 1 then [s] else sections)"

definition splitReasoningContentSections :: "message_content \<Rightarrow> message_content list" where
  \<comment> \<open>a block that is not a thought stays as it is\<close>
  "splitReasoningContentSections block = (case block of
      Thinking t ann \<Rightarrow> map (\<lambda>t. Thinking t ann) (splitReasoningText t)
    | Reasoning t ann \<Rightarrow> map (\<lambda>t. Reasoning t ann) (splitReasoningText t)
    | _ \<Rightarrow> [block])"

definition expandReasoningContentSections :: "message_content list \<Rightarrow> message_content list" where
  "expandReasoningContentSections content = concat (map splitReasoningContentSections content)"

definition sanitized_block :: "message_content \<Rightarrow> message_content" where
  "sanitized_block block = (case block of
      Thinking t ann \<Rightarrow> Thinking (sanitizeReasoningTextForDisplay t) ann
    | Reasoning t ann \<Rightarrow> Reasoning (sanitizeReasoningTextForDisplay t) ann
    | _ \<Rightarrow> block)"

definition text_signature :: "message_content \<Rightarrow> string option" where
  "text_signature block = (case block of
      Thinking t _ \<Rightarrow> getCanonicalReasoningSignature t
    | Reasoning t _ \<Rightarrow> getCanonicalReasoningSignature t
    | _ \<Rightarrow> None)"

definition speech_status :: "message_content \<Rightarrow> voice_speech_status option" where
  "speech_status block = (case block of TextContent _ speech _ \<Rightarrow> map_option vs_status speech | _ \<Rightarrow> None)"

definition push_compacted :: "message_content list \<Rightarrow> message_content \<Rightarrow> message_content list" where
  \<comment> \<open>a text joins the text before it\<close>
  "push_compacted compacted block = (case block of
      TextContent t _ _ \<Rightarrow>
        (if compacted \<noteq> [] \<and> isTextContent (last compacted) \<and> speech_status (last compacted) = speech_status block
         then butlast compacted @ [case last compacted of TextContent t' speech ann \<Rightarrow> TextContent (t' @ t) speech ann | b \<Rightarrow> b]
         else compacted @ [block])
    | _ \<Rightarrow> compacted @ [block])"

fun compact_blocks :: "message_content list \<Rightarrow> string set \<Rightarrow> message_content list \<Rightarrow> message_content list" where
  \<comment> \<open>the compacted content, the signatures displayed and the blocks still to come\<close>
  "compact_blocks compacted displayed [] = compacted"
| "compact_blocks compacted displayed (b # bs) =
    (let block = sanitized_block b in
     case text_signature block of
       None \<Rightarrow> compact_blocks (push_compacted compacted block) displayed bs
     | Some signature \<Rightarrow>
         if signature \<in> displayed then compact_blocks compacted displayed bs
         else compact_blocks (push_compacted compacted block) (insert signature displayed) bs)"

definition compactWorkContent :: "message_content list \<Rightarrow> message_content list" where
  "compactWorkContent content = compact_blocks [] {} (concat (map splitReasoningContentSections content))"

end
