(* ===== verification/MarkdownFragments.thy ===== *)
theory MarkdownFragments
  imports JsRegex
begin

text \<open>
  How a long answer is cut into fragments, each a row of the transcript (\<open>parseMarkdownBlocks\<close>,
  \<open>splitTextBlockIntoChunks\<close> and \<open>splitAssistantTextIntoChunks\<close> of
  \<open>src/src/features/chat/transcript/projection/buildTranscriptItems.ts\<close>). The parser walks the lines with
  an index; here it walks the list of the lines that are left. The loop that cuts a text may a priori not
  end, so it is a partial function.
\<close>

section \<open>Lines\<close>

abbreviation NL :: char where
  "NL \<equiv> CHR 0x0A"

definition blank_line :: "string \<Rightarrow> bool" where
  \<comment> \<open>\<open>!line.trim()\<close>\<close>
  "blank_line line \<longleftrightarrow> js_trim line = []"

definition ASSISTANT_FRAGMENT_MIN_LINE_COUNT :: nat where
  "ASSISTANT_FRAGMENT_MIN_LINE_COUNT = 60"

definition ASSISTANT_FRAGMENT_CODE_MIN_LINE_COUNT :: nat where
  "ASSISTANT_FRAGMENT_CODE_MIN_LINE_COUNT = 20"

definition ASSISTANT_FRAGMENT_TARGET_LINE_COUNT :: nat where
  "ASSISTANT_FRAGMENT_TARGET_LINE_COUNT = 40"

definition ASSISTANT_FRAGMENT_BLANK_LINE_SEARCH_RADIUS :: nat where
  "ASSISTANT_FRAGMENT_BLANK_LINE_SEARCH_RADIUS = 8"

definition isCodeFenceEnd :: "string \<Rightarrow> char \<Rightarrow> nat \<Rightarrow> bool" where
  "isCodeFenceEnd line fenceChar minFenceLength \<longleftrightarrow>
    (let indented = (\<lambda>c. c = CHR '' '' \<or> c = CHR 0x09);
         line = dropWhile indented line;
         fenceLength = length (takeWhile ((=) fenceChar) line) in
     minFenceLength \<le> fenceLength \<and> list_all indented (drop fenceLength line))"

abbreviation up_to_3_spaces :: regex where
  "up_to_3_spaces \<equiv> Rep is_js_space 0 (Some 3)"

abbreviation spaces :: regex where
  "spaces \<equiv> Rep is_js_space 0 None"

abbreviation some_spaces :: regex where
  "some_spaces \<equiv> Rep is_js_space 1 None"

definition is_digit :: "char \<Rightarrow> bool" where
  "is_digit c \<longleftrightarrow> c \<in> set ''0123456789''"

definition isMarkdownHeading :: "string \<Rightarrow> bool" where
  "isMarkdownHeading = test_start (Then up_to_3_spaces (Then (Rep ((=) CHR ''#'') 1 (Some 6))
    (Then some_spaces (One (\<lambda>c. \<not> is_js_space c)))))"

definition isMarkdownListLine :: "string \<Rightarrow> bool" where
  "isMarkdownListLine = test_start (Then up_to_3_spaces (Either
    (Then (One (\<lambda>c. c \<in> set ''-*+'')) some_spaces)
    (Then (Rep is_digit 1 None) (Then (One (\<lambda>c. c \<in> set ''.)'')) some_spaces))))"

definition isMarkdownBlockquote :: "string \<Rightarrow> bool" where
  "isMarkdownBlockquote = test_start (Then up_to_3_spaces (Then (Lit CHR ''>'') (Rep is_js_space 0 (Some 1))))"

definition isMarkdownThematicBreak :: "string \<Rightarrow> bool" where
  "isMarkdownThematicBreak = test_start (Then up_to_3_spaces (Then
    (Either (Rep ((=) CHR ''-'') 3 None) (Either (Rep ((=) CHR ''*'') 3 None) (Rep ((=) CHR ''_'') 3 None)))
    (Then spaces AtEnd)))"

definition isMarkdownSetextUnderline :: "string \<Rightarrow> bool" where
  "isMarkdownSetextUnderline = test_start (Then up_to_3_spaces (Then
    (Either (Rep ((=) CHR ''='') 1 None) (Rep ((=) CHR ''-'') 1 None)) (Then spaces AtEnd)))"

definition isMarkdownHtmlBlock :: "string \<Rightarrow> bool" where
  "isMarkdownHtmlBlock = test_start (Then up_to_3_spaces (Then (Lit CHR ''<'') (Then (Rep ((=) CHR ''/'') 0 (Some 1))
    (Then (One is_letter) (Then (Rep (\<lambda>c. c \<noteq> CHR ''>'') 0 None) (Then (Lit CHR ''>'') (Then spaces AtEnd)))))))"

fun unescaped_pipe :: "nat \<Rightarrow> string \<Rightarrow> bool" where
  "unescaped_pipe slashCount [] = False"
| "unescaped_pipe slashCount (c # cs) =
    (if c = CHR 0x5C then unescaped_pipe (slashCount + 1) cs
     else c = CHR ''|'' \<and> slashCount mod 2 = 0 \<or> unescaped_pipe 0 cs)"

definition hasUnescapedPipe :: "string \<Rightarrow> bool" where
  "hasUnescapedPipe line \<longleftrightarrow> unescaped_pipe 0 line"

definition isPotentialMarkdownTableRow :: "string \<Rightarrow> bool" where
  "isPotentialMarkdownTableRow line \<longleftrightarrow> \<not> blank_line line \<and> hasUnescapedPipe line"

definition isMarkdownTableDelimiterLine :: "string \<Rightarrow> bool" where
  "isMarkdownTableDelimiterLine line =
    (let trimmed = js_trim line;
         inner = (if trimmed \<noteq> [] \<and> hd trimmed = CHR ''|'' then tl trimmed else trimmed);
         inner = (if inner \<noteq> [] \<and> last inner = CHR ''|'' then butlast inner else inner);
         cells = map js_trim (js_split CHR ''|'' inner) in
     hasUnescapedPipe trimmed \<and> cells \<noteq> [] \<and>
     list_all (test_start (Then (Rep ((=) CHR '':'') 0 (Some 1)) (Then (Rep ((=) CHR ''-'') 3 None)
       (Then (Rep ((=) CHR '':'') 0 (Some 1)) AtEnd)))) cells)"

definition first_line :: "string list \<Rightarrow> string" where
  \<comment> \<open>\<open>lines[index] ?? ""\<close>\<close>
  "first_line lines = (case lines of [] \<Rightarrow> [] | l # _ \<Rightarrow> l)"

definition isMarkdownTableStart :: "string \<Rightarrow> string list \<Rightarrow> bool" where
  \<comment> \<open>a line and those after it\<close>
  "isMarkdownTableStart line rest \<longleftrightarrow> isPotentialMarkdownTableRow line \<and>
    isPotentialMarkdownTableRow (first_line rest) \<and> isMarkdownTableDelimiterLine (first_line rest)"

definition FENCE_START_PATTERN :: regex where
  "FENCE_START_PATTERN = Then (Rep (\<lambda>c. c = CHR '' '' \<or> c = CHR 0x09) 0 None)
    (Group 1 (Either (Rep ((=) CHR 0x60) 3 None) (Rep ((=) CHR ''~'') 3 None)))"

definition isMarkdownSpecialBlockStart :: "string \<Rightarrow> string list \<Rightarrow> bool" where
  "isMarkdownSpecialBlockStart line rest \<longleftrightarrow> test_start FENCE_START_PATTERN line \<or> isMarkdownHeading line \<or>
    isMarkdownListLine line \<or> isMarkdownBlockquote line \<or> isMarkdownThematicBreak line \<or>
    isMarkdownHtmlBlock line \<or> isMarkdownTableStart line rest"

section \<open>Blocks\<close>

record code_block =
  fenceOpener :: string
  codeLines :: "string list"
  closingFence :: string
  language :: "string option"

datatype parsed_block = TextBlock string bool | CodeBlock code_block

definition text_block :: "string list \<Rightarrow> bool \<Rightarrow> parsed_block" where
  "text_block lines isHeading = TextBlock (js_join [NL] lines) isHeading"

fun take_code :: "(string \<Rightarrow> bool) \<Rightarrow> string list \<Rightarrow> string list \<times> string option \<times> string list" where
  \<comment> \<open>the lines up to the closing fence, that fence, and the lines after it\<close>
  "take_code is_end [] = ([], None, [])"
| "take_code is_end (l # ls) =
    (if is_end l then ([], Some l, ls) else (case take_code is_end ls of (code, rest) \<Rightarrow> (l # code, rest)))"

definition parse_code :: "string \<Rightarrow> string list \<Rightarrow> regex_match \<Rightarrow> parsed_block \<times> string list" where
  "parse_code line rest fenceMatch =
    (let fenceMarker = the (group 1 fenceMatch);
         infoString = js_trim (drop (length (fst fenceMatch)) line);
         word = takeWhile (\<lambda>c. \<not> is_js_space c) infoString in
     case take_code (\<lambda>l. isCodeFenceEnd l (hd fenceMarker) (length fenceMarker)) rest of
       (code, closing, rest) \<Rightarrow>
         (CodeBlock \<lparr>fenceOpener = line, codeLines = code, closingFence = or_else closing fenceMarker,
            language = (if word = [] then None else Some word)\<rparr>, rest))"

fun paragraph_lines :: "string list \<Rightarrow> string list \<times> string list" where
  "paragraph_lines [] = ([], [])"
| "paragraph_lines (l # ls) =
    (if \<not> blank_line l \<and> \<not> isMarkdownSetextUnderline l \<and> \<not> isMarkdownSpecialBlockStart l ls
     then (case paragraph_lines ls of (para, rest) \<Rightarrow> (l # para, rest))
     else ([], l # ls))"

definition parse_paragraph :: "string \<Rightarrow> string list \<Rightarrow> parsed_block \<times> string list" where
  "parse_paragraph line rest = (case paragraph_lines rest of (para, rest) \<Rightarrow>
    (case rest of
       l # ls \<Rightarrow> if isMarkdownSetextUnderline l then (text_block (line # para @ [l]) True, ls)
                else (text_block (line # para) False, rest)
     | [] \<Rightarrow> (text_block (line # para) False, [])))"

definition continues_list :: "string \<Rightarrow> bool" where
  "continues_list l \<longleftrightarrow> isMarkdownListLine l \<or>
    test_start (Then (Rep is_js_space 2 None) (One (\<lambda>c. \<not> is_js_space c))) l \<or> blank_line l"

definition parse_block :: "string \<Rightarrow> string list \<Rightarrow> parsed_block \<times> string list" where
  \<comment> \<open>the block that begins with a line that is not blank, and the lines after it\<close>
  "parse_block line rest = (case match_start FENCE_START_PATTERN line of
      Some fenceMatch \<Rightarrow> parse_code line rest fenceMatch
    | None \<Rightarrow>
      if isMarkdownTableStart line rest then
        (text_block (line # hd rest # takeWhile isPotentialMarkdownTableRow (tl rest)) False,
         dropWhile isPotentialMarkdownTableRow (tl rest))
      else if isMarkdownHeading line then (TextBlock line True, rest)
      else if isMarkdownThematicBreak line then (TextBlock line False, rest)
      else if isMarkdownListLine line then
        (text_block (rev (dropWhile blank_line (rev (line # takeWhile continues_list rest)))) False,
         dropWhile continues_list rest)
      else if isMarkdownBlockquote line then
        (text_block (line # takeWhile isMarkdownBlockquote rest) False, dropWhile isMarkdownBlockquote rest)
      else if isMarkdownHtmlBlock line then
        (text_block (line # takeWhile (\<lambda>l. \<not> blank_line l) rest) False, dropWhile (\<lambda>l. \<not> blank_line l) rest)
      else parse_paragraph line rest)"

lemma take_code_lines:
  "take_code is_end ls = (code, closing, rest) \<Longrightarrow>
    ls = code @ (case closing of None \<Rightarrow> [] | Some l \<Rightarrow> [l]) @ rest \<and> (closing = None \<longrightarrow> rest = [])"
  by (induction ls arbitrary: code) (auto split: if_splits prod.splits)

lemma paragraph_lines_append: "paragraph_lines ls = (para, rest) \<Longrightarrow> ls = para @ rest"
  by (induction ls arbitrary: para) (auto split: if_splits prod.splits)

lemma parse_block_shorter: "length (snd (parse_block line rest)) \<le> length rest"
proof -
  have "length (snd (parse_code line rest m)) \<le> length rest" for m
    by (auto simp: parse_code_def Let_def dest!: take_code_lines split: prod.splits option.splits)
  moreover have "length (snd (parse_paragraph line rest)) \<le> length rest"
    by (auto simp: parse_paragraph_def dest!: paragraph_lines_append split: prod.splits list.splits)
  moreover have "length (dropWhile p (tl rest)) \<le> length rest" for p
    by (rule order_trans [OF length_dropWhile_le]) simp
  ultimately show ?thesis
    by (auto simp: parse_block_def length_dropWhile_le split: option.splits)
qed

function parseMarkdownBlocks :: "string list \<Rightarrow> parsed_block list" where
  "parseMarkdownBlocks [] = []"
| "parseMarkdownBlocks (line # rest) =
    (if blank_line line then parseMarkdownBlocks rest
     else fst (parse_block line rest) # parseMarkdownBlocks (snd (parse_block line rest)))"
  by pat_completeness auto

termination
  by (relation "measure length") (use parse_block_shorter in \<open>auto simp: less_Suc_eq_le\<close>)

section \<open>Chunks\<close>

record fragment_chunk =
  chunk_text :: string
  isCodeContinuationChunk :: bool
  startsWithHeading :: bool

definition expandCodeBlockChunks :: "code_block \<Rightarrow> fragment_chunk" where
  "expandCodeBlockChunks b = \<lparr>chunk_text = js_join [NL] (fenceOpener b # codeLines b @ [closingFence b]),
    isCodeContinuationChunk = False, startsWithHeading = False\<rparr>"

definition blank_at :: "string list \<Rightarrow> nat \<Rightarrow> bool" where
  "blank_at lines i \<longleftrightarrow> i < length lines \<longrightarrow> blank_line (lines ! i)"

definition findBlankLineSplitIndex :: "string list \<Rightarrow> nat \<Rightarrow> nat \<Rightarrow> nat" where
  "findBlankLineSplitIndex lines startIndex targetIndex =
    (case List.find (blank_at lines)
        [targetIndex ..< min (length lines) (targetIndex + ASSISTANT_FRAGMENT_BLANK_LINE_SEARCH_RADIUS + 1)] of
       Some i \<Rightarrow> i + 1
     | None \<Rightarrow> (case List.find (blank_at lines)
          (rev [max (startIndex + 1) (targetIndex - ASSISTANT_FRAGMENT_BLANK_LINE_SEARCH_RADIUS) ..< targetIndex]) of
         Some i \<Rightarrow> i + 1
       | None \<Rightarrow> targetIndex))"

definition lines_chunk :: "string list \<Rightarrow> bool \<Rightarrow> fragment_chunk" where
  "lines_chunk lines heading =
    \<lparr>chunk_text = js_join [NL] lines, isCodeContinuationChunk = False, startsWithHeading = heading\<rparr>"

partial_function (option) split_loop :: "string list \<Rightarrow> bool \<Rightarrow> nat \<Rightarrow> fragment_chunk list option" where
  "split_loop lines isHeading startIndex =
    (if length lines \<le> startIndex then Some []
     else if length lines - startIndex \<le> ASSISTANT_FRAGMENT_TARGET_LINE_COUNT then
       Some [lines_chunk (drop startIndex lines) (isHeading \<and> startIndex = 0)]
     else
       (let splitIndex = findBlankLineSplitIndex lines startIndex (startIndex + ASSISTANT_FRAGMENT_TARGET_LINE_COUNT) in
        Option.bind (split_loop lines isHeading splitIndex) (\<lambda>chunks.
          Some (lines_chunk (drop startIndex (take splitIndex lines)) (isHeading \<and> startIndex = 0) # chunks))))"

definition is_table :: "string list \<Rightarrow> bool" where
  "is_table lines \<longleftrightarrow> 2 \<le> length lines \<and> isPotentialMarkdownTableRow (first_line lines) \<and>
    isMarkdownTableDelimiterLine (first_line (tl lines))"

definition splitTextBlockIntoChunks :: "string \<Rightarrow> bool \<Rightarrow> fragment_chunk list option" where
  \<comment> \<open>\<open>None\<close> when the loop does not end\<close>
  "splitTextBlockIntoChunks txt isHeading =
    (let lines = js_split NL txt in
     if length lines \<le> ASSISTANT_FRAGMENT_TARGET_LINE_COUNT \<or> is_table lines then
       Some [\<lparr>chunk_text = txt, isCodeContinuationChunk = False, startsWithHeading = isHeading\<rparr>]
     else split_loop lines isHeading 0)"

fun is_code :: "parsed_block \<Rightarrow> bool" where
  "is_code (CodeBlock _) = True"
| "is_code (TextBlock _ _) = False"

fun block_chunks :: "parsed_block \<Rightarrow> fragment_chunk list option" where
  "block_chunks (CodeBlock b) = Some [expandCodeBlockChunks b]"
| "block_chunks (TextBlock txt isHeading) = splitTextBlockIntoChunks txt isHeading"

fun all_chunks :: "parsed_block list \<Rightarrow> fragment_chunk list option" where
  "all_chunks [] = Some []"
| "all_chunks (b # bs) =
    (case block_chunks b of None \<Rightarrow> None | Some cs \<Rightarrow> map_option ((@) cs) (all_chunks bs))"

definition splitAssistantTextIntoChunks :: "string \<Rightarrow> fragment_chunk list option option" where
  \<comment> \<open>\<open>None\<close> when a loop does not end, \<open>Some None\<close> for the code's \<open>null\<close>\<close>
  "splitAssistantTextIntoChunks txt =
    (let lines = js_split NL txt;
         blocks = parseMarkdownBlocks lines;
         hasCodeBlocks = list_ex is_code blocks in
     if \<not> hasCodeBlocks \<and> length lines < ASSISTANT_FRAGMENT_MIN_LINE_COUNT then Some None
     else if hasCodeBlocks \<and> length lines < ASSISTANT_FRAGMENT_CODE_MIN_LINE_COUNT then Some None
     else map_option (\<lambda>chunks. if 1 < length chunks then Some chunks else None) (all_chunks blocks))"

end
