(* ===== verification/TranscriptItems.thy ===== *)
theory TranscriptItems
  imports MessageRevisions ReasoningText MarkdownFragments MeasurementPolicy
begin

text \<open>
  The projection of messages to the items of the transcript
  (\<open>src/src/features/chat/transcript/projection/buildTranscriptItems.ts\<close> and
  \<open>transcriptItemTypes.ts\<close>): date separators, whole messages, fragments of long answers, panels of agent
  work with the answer and the other blocks beside them. \<open>itemId\<close> is always the text of \<open>rowId\<close> and is
  left out. The calendar of the user (which day a time belongs to, the day before a day) and the text of a
  number are arguments. The code keeps built items in caches keyed by the message object; an item found there
  is what would be built again, so the caches are left out.
\<close>

section \<open>Data\<close>

datatype date_label_key = Today | Yesterday | DateLabel

record date_payload =
  dp_dateBucket :: string
  dp_timestamp :: js_number
  dp_labelKey :: date_label_key
  dp_label :: string
  dp_firstMessageId :: string

record date_item =
  di_rowId :: string
  di_payload :: date_payload
  di_revisions :: revision_parts
  di_estimatedHeight :: js_number

record message_item =
  mi_rowId :: string
  mi_messageId :: string
  mi_responseStartMessageId :: "string option"
  mi_message :: message
  mi_visibleContent :: "message_content list"
  mi_blockIds :: "string list"
  mi_searchableText :: string
  mi_isStreaming :: bool
  mi_revisions :: revision_parts
  mi_estimatedHeight :: js_number
  mi_decision :: policy_decision
  mi_anchorPriority :: anchor_priority

datatype fragment_role = Single | Start | Middle | End

record fragment_payload =
  fp_fragmentId :: string
  fp_fragmentIndex :: nat
  fp_fragmentCount :: nat
  fp_role :: fragment_role
  fp_content :: "message_content list"
  fp_isStreamingTail :: bool
  fp_messageScrollTarget :: bool
  fp_isCodeContinuationChunk :: bool
  fp_startsWithHeading :: bool

record fragment_item =
  fi_rowId :: string
  fi_messageId :: string
  fi_message :: message
  fi_visibleContent :: "message_content list"
  fi_blockIds :: "string list"
  fi_searchableText :: string
  fi_fragment :: fragment_payload
  fi_revisions :: revision_parts
  fi_estimatedHeight :: js_number
  fi_decision :: policy_decision
  fi_anchorPriority :: anchor_priority

record work_item =
  wi_rowId :: string
  wi_messageId :: string
  wi_message :: message
  wi_workId :: string
  wi_content :: "message_content list"
  wi_isActiveWork :: bool
  wi_hasFinalAnswer :: bool
  wi_thoughtCount :: nat
  wi_toolCount :: nat
  wi_textCount :: nat
  wi_revisions :: revision_parts
  wi_estimatedHeight :: js_number
  wi_decision :: policy_decision
  wi_anchorPriority :: anchor_priority

datatype transcript_item =
  DateItem date_item | MessageItem message_item | FragmentItem fragment_item | WorkItem work_item

fun item_rowId :: "transcript_item \<Rightarrow> string" where
  "item_rowId (DateItem i) = di_rowId i"
| "item_rowId (MessageItem i) = mi_rowId i"
| "item_rowId (FragmentItem i) = fi_rowId i"
| "item_rowId (WorkItem i) = wi_rowId i"

section \<open>What a message shows\<close>

definition content_annotations :: "message_content \<Rightarrow> json option" where
  "content_annotations c = (case c of
      TextContent _ _ ann \<Rightarrow> ann | ImageContent img \<Rightarrow> image_annotations img | ToolRequest t \<Rightarrow> treq_annotations t
    | ToolResponse t \<Rightarrow> tres_annotations t | McpApp _ _ \<Rightarrow> None | Thinking _ ann \<Rightarrow> ann | RedactedThinking ann \<Rightarrow> ann
    | Reasoning _ ann \<Rightarrow> ann | ActionRequired a \<Rightarrow> areq_annotations a | SystemNotification _ _ _ ann \<Rightarrow> ann)"

definition shown_to_user :: "message_content \<Rightarrow> bool" where
  "shown_to_user c = (case content_annotations c of
      Some (JObj fs) \<Rightarrow> (case map_of fs ''audience'' of
          Some (JArr vs) \<Rightarrow> vs = [] \<or> JStr ''user'' \<in> set vs | _ \<Rightarrow> True)
    | _ \<Rightarrow> True)"

definition getUserVisibleMessageContent :: "message_content list \<Rightarrow> message_content list" where
  "getUserVisibleMessageContent content = filter shown_to_user content"

definition isVisibleTranscriptMessage :: "message \<Rightarrow> bool" where
  "isVisibleTranscriptMessage m \<longleftrightarrow> meta_field userVisible m \<noteq> Some False \<and>
    \<not> (msg_role m = Assistant \<and> msg_content m = [] \<and> meta_field completionStatus m = Some InProgress)"

definition VOICE_CONVERSATION_EMPTY_RESPONSES :: "string list" where
  "VOICE_CONVERSATION_EMPTY_RESPONSES =
    [''The model returned an empty response. Please resend your message to continue.'',
     ''Le mod'' @ [CHR 0xE8] @ ''le a renvoy'' @ [CHR 0xE9] @ '' une r'' @ [CHR 0xE9] @
     ''ponse vide. Veuillez renvoyer votre message pour continuer.'']"

definition isVoiceConversationEmptyResponse :: "string \<Rightarrow> bool" where
  "isVoiceConversationEmptyResponse s \<longleftrightarrow> js_trim s \<in> set VOICE_CONVERSATION_EMPTY_RESPONSES"

definition stripVoiceConversationEmptyResponseSuffix :: "string \<Rightarrow> string" where
  "stripVoiceConversationEmptyResponseSuffix s =
    (case List.find (\<lambda>fallback. has_suffix fallback (trim_end s)) VOICE_CONVERSATION_EMPTY_RESPONSES of
       Some fallback \<Rightarrow> trim_end (take (length (trim_end s) - length fallback) (trim_end s))
     | None \<Rightarrow> s)"

definition isVoiceConversationUserTurn :: "message \<Rightarrow> bool" where
  "isVoiceConversationUserTurn m \<longleftrightarrow> meta_field origin m = Some VoiceConversation"

fun has_speech :: "message_content \<Rightarrow> bool" where
  "has_speech (TextContent _ speech _) \<longleftrightarrow> speech \<noteq> None"
| "has_speech _ = False"

definition needsVoiceTranscriptSanitization :: "message \<Rightarrow> bool" where
  "needsVoiceTranscriptSanitization m \<longleftrightarrow> isVoiceConversationUserTurn m \<or> list_ex has_speech (msg_content m)"

fun empty_notification :: "message_content \<Rightarrow> bool" where
  "empty_notification (SystemNotification _ t _ _) = isVoiceConversationEmptyResponse t"
| "empty_notification _ = False"

definition sanitized_speech_block :: "message_content \<Rightarrow> message_content list" where
  "sanitized_speech_block block = (case block of
      SystemNotification _ t _ _ \<Rightarrow> if isVoiceConversationEmptyResponse t then [] else [block]
    | TextContent t speech ann \<Rightarrow>
        if speech = None \<and> isVoiceConversationEmptyResponse t then []
        else
          let t' = stripVoiceConversationEmptyResponseSuffix t in
          if t' = t then [block] else if t' = [] then [] else [TextContent t' speech ann]
    | _ \<Rightarrow> [block])"

definition sanitizeVoiceSpeechFallback :: "message \<Rightarrow> message" where
  \<comment> \<open>when nothing changes the content is the same, and the message too\<close>
  "sanitizeVoiceSpeechFallback m = (if \<not> list_ex has_speech (msg_content m) then m
    else m\<lparr>msg_content := concat (map sanitized_speech_block (msg_content m))\<rparr>)"

definition isEmptyResponseFallback :: "message \<Rightarrow> bool" where
  "isEmptyResponseFallback m \<longleftrightarrow>
    msg_role m = Assistant \<and> isVoiceConversationEmptyResponse (getTextContent m) \<or>
    list_ex empty_notification (msg_content m)"

definition visible_voice_message :: "message list \<Rightarrow> message \<Rightarrow> message list" where
  \<comment> \<open>the messages before it, latest first\<close>
  "visible_voice_message prior m =
    (if \<not> isVisibleTranscriptMessage m then []
     else if \<not> isEmptyResponseFallback m then [sanitizeVoiceSpeechFallback m]
     else (case List.find (\<lambda>p. msg_role p = User) prior of
         Some p \<Rightarrow> if isVoiceConversationUserTurn p then [] else [m]
       | None \<Rightarrow> [m]))"

fun visible_voice_messages :: "message list \<Rightarrow> message list \<Rightarrow> message list" where
  "visible_voice_messages prior [] = []"
| "visible_voice_messages prior (m # ms) = visible_voice_message prior m @ visible_voice_messages (m # prior) ms"

definition getVisibleTranscriptMessages :: "message list \<Rightarrow> message list" where
  "getVisibleTranscriptMessages messages =
    (if \<not> list_ex needsVoiceTranscriptSanitization messages then filter isVisibleTranscriptMessage messages
     else visible_voice_messages [] messages)"

section \<open>Searchable text and heights\<close>

definition getSearchableText :: "message_content list \<Rightarrow> string" where
  "getSearchableText content = (case content of
      [TextContent t _ _] \<Rightarrow> t
    | _ \<Rightarrow> js_join [NL] (map content_text (filter isTextContent content)))"

definition getBlockIds :: "message_content list \<Rightarrow> string list" where
  "getBlockIds content = (case content of
      [TextContent _ _ _] \<Rightarrow> [''text:0'']
    | _ \<Rightarrow> map (\<lambda>(c, i). buildBlockId c i) (zip content [0 ..< length content]))"

fun line_breaks :: "string \<Rightarrow> nat" where
  \<comment> \<open>a carriage return and the line feed after it are one break\<close>
  "line_breaks [] = 0"
| "line_breaks [c] = (if c = NL \<or> c = CHR 0x0D then 1 else 0)"
| "line_breaks (c # d # s) =
    (if c = NL then 1 + line_breaks (d # s)
     else if c = CHR 0x0D then (if d = NL then 1 + line_breaks s else 1 + line_breaks (d # s))
     else line_breaks (d # s))"

definition estimateTextHeight :: "string \<Rightarrow> js_number" where
  "estimateTextHeight s = of_nat (max (1 + line_breaks s) ((length s + 95) div 96) * 22)"

definition ASSISTANT_FRAGMENT_CHROME_ESTIMATE :: js_number where
  "ASSISTANT_FRAGMENT_CHROME_ESTIMATE = 32"

definition SESSION_NOTIFICATION_ESTIMATED_HEIGHT :: js_number where
  "SESSION_NOTIFICATION_ESTIMATED_HEIGHT = 48"

definition estimateFragmentHeight :: "string \<Rightarrow> js_number" where
  "estimateFragmentHeight s = max 36 (estimateTextHeight s)"

definition block_height :: "message_content \<Rightarrow> js_number" where
  "block_height c = (case c of
      TextContent t _ _ \<Rightarrow> estimateTextHeight t
    | Thinking t _ \<Rightarrow> estimateTextHeight t
    | Reasoning t _ \<Rightarrow> estimateTextHeight t
    | ImageContent _ \<Rightarrow> 220
    | ToolRequest _ \<Rightarrow> 92
    | ToolResponse t \<Rightarrow> 72 + estimateTextHeight (tres_result t)
    | McpApp _ _ \<Rightarrow> 260
    | ActionRequired _ \<Rightarrow> 104
    | RedactedThinking _ \<Rightarrow> 48
    | SystemNotification _ t _ _ \<Rightarrow> 40 + estimateTextHeight t)"

definition estimateMessageHeight :: "message \<Rightarrow> message_content list \<Rightarrow> js_number" where
  "estimateMessageHeight m content =
    (if meta_field origin m = Some BerdctlCrossSession \<and> meta_field berdEventType m = Some ''notification''
     then SESSION_NOTIFICATION_ESTIMATED_HEIGHT
     else
       let baseHeight = (if msg_role m = User then 76 else 96);
           contentHeight = sum_list (map block_height content);
           attachmentHeight = (if or_else (meta_field meta_attachments m) [] \<noteq> [] then 32 else 0);
           chipHeight = (if or_else (meta_field meta_chips m) [] \<noteq> [] then 28 else 0) in
       max baseHeight (baseHeight + contentHeight + attachmentHeight + chipHeight))"

end
