(* ===== verification/TranscriptProjection.thy ===== *)
theory TranscriptProjection
  imports TranscriptItems
begin

text \<open>
  The items of a message and of a transcript: fragments of a long answer, agent work with the answer and the
  other blocks in their places, whole messages, and the loop over all messages
  (\<open>buildTranscriptItems.ts\<close>).
\<close>

section \<open>Whole messages\<close>

definition STATIC_TEXT_MEASUREMENT_DECISION :: policy_decision where
  "STATIC_TEXT_MEASUREMENT_DECISION =
    \<lparr>pol_policy = MeasureShell, pol_layoutPendingPolicy = CanFinalize, pol_keepAlivePriority = KeepNone,
     pol_capabilities = createEmptyCapabilities\<lparr>cap_canOffscreenRenderShell := True\<rparr>,
     pol_reasons = [TextRowRequiresAudit]\<rparr>"

definition no_overrides :: capability_overrides where
  "no_overrides = \<lparr>cv_stateful = False, cv_hasMcpApp = False, cv_hasHostCalls = False, cv_hasHostActionHandlers = False,
    cv_hasActiveTimer = False, cv_hasActiveToolWork = False, cv_hasActiveMcpHostRequest = False,
    cv_hasActiveNestedToolRequest = False, cv_hasDynamicAsyncLayout = False, cv_hasPendingLayout = False,
    cv_hasFocusedDescendant = False, cv_hasOpenOverlay = False, cv_hasOpenMenu = False, cv_hasOpenDialog = False,
    cv_hasOpenPopover = False, cv_hasOpenLightbox = False, cv_hasCopyFeedback = False, cv_hasImageContent = False,
    cv_hasToolContent = False, cv_hasReasoningContent = False, cv_hasActionRequired = False,
    cv_hasStreamingContent = False, cv_hasUnknownUnsafeDescendants = False, cv_protectsSelection = False\<rparr>"

definition streaming_overrides :: capability_overrides where
  "streaming_overrides = no_overrides\<lparr>cv_hasDynamicAsyncLayout := True, cv_hasStreamingContent := True\<rparr>"

definition message_policy_input :: "message \<Rightarrow> message_content list \<Rightarrow> bool \<Rightarrow> policy_input" where
  "message_policy_input m content isStreaming =
    \<lparr>pi_rowKind = MessageRow, pi_message = Some m, pi_content = Some content, pi_uiState = None,
     pi_capabilities = (if isStreaming then Some streaming_overrides else None), pi_options = None\<rparr>"

definition getMessageMeasurementDecision :: "message \<Rightarrow> message_content list \<Rightarrow> bool \<Rightarrow> policy_decision" where
  "getMessageMeasurementDecision m content isStreaming =
    (if \<not> isStreaming \<and> length content = 1 \<and> isTextContent (hd content) \<and>
        meta_field completionStatus m = None \<and> \<not> has_attachments m
     then STATIC_TEXT_MEASUREMENT_DECISION
     else classifyTranscriptMeasurementPolicy (message_policy_input m content isStreaming))"

definition streaming_anchor :: "bool \<Rightarrow> anchor_priority" where
  "streaming_anchor isStreaming = (if isStreaming then Streaming else Stable)"

definition createMessageItem ::
    "(js_number \<Rightarrow> string) \<Rightarrow> message \<Rightarrow> message_content list \<Rightarrow> bool \<Rightarrow> string option \<Rightarrow> message_item" where
  \<comment> \<open>with the block ids, texts, revisions, heights and decisions that every caller computes from the same content\<close>
  "createMessageItem num m content isStreaming responseStart =
    \<lparr>mi_rowId = ''message:'' @ msg_id m, mi_messageId = msg_id m, mi_responseStartMessageId = responseStart,
     mi_message = m, mi_visibleContent = content, mi_blockIds = getBlockIds content,
     mi_searchableText = getSearchableText content, mi_isStreaming = isStreaming,
     mi_revisions = buildMessageRevisions num m content, mi_estimatedHeight = estimateMessageHeight m content,
     mi_decision = getMessageMeasurementDecision m content isStreaming,
     mi_anchorPriority = streaming_anchor isStreaming\<rparr>"

section \<open>Fragments\<close>

fun only_text :: "message_content list \<Rightarrow> bool" where
  \<comment> \<open>one text, without speech\<close>
  "only_text [TextContent _ speech _] \<longleftrightarrow> speech = None"
| "only_text _ = False"

definition canProjectAssistantTextFragments :: "message \<Rightarrow> message_content list \<Rightarrow> bool" where
  "canProjectAssistantTextFragments m content \<longleftrightarrow> msg_role m = Assistant \<and> only_text content \<and>
    \<not> has_attachments m \<and> or_else (meta_field meta_chips m) [] = []"

definition shouldUseStreamingFragmentIds :: "message \<Rightarrow> bool \<Rightarrow> bool" where
  "shouldUseStreamingFragmentIds m isStreaming \<longleftrightarrow> isStreaming \<or>
    meta_field completionStatus m = Some InProgress \<or> meta_field completionStatus m = Some Stopped"

definition withoutCompletionStatus :: "message_metadata option \<Rightarrow> message_metadata option" where
  "withoutCompletionStatus metadata = map_option (\<lambda>md. md\<lparr>completionStatus := None\<rparr>) metadata"

definition createFragmentRevisionMessage :: "message \<Rightarrow> message_content list \<Rightarrow> string \<Rightarrow> bool \<Rightarrow> message" where
  "createFragmentRevisionMessage m content fragmentId isStreamingTail =
    m\<lparr>msg_id := msg_id m @ '':'' @ fragmentId, msg_content := content,
      msg_metadata := (if isStreamingTail then msg_metadata m else withoutCompletionStatus (msg_metadata m))\<rparr>"

definition getAssistantFragmentRole :: "nat \<Rightarrow> nat \<Rightarrow> fragment_role" where
  "getAssistantFragmentRole index fragmentCount =
    (if fragmentCount = 1 then Single else if index = 0 then Start else if index + 1 = fragmentCount then End else Middle)"

definition getAssistantFragmentChromeEstimate :: "nat \<Rightarrow> nat \<Rightarrow> js_number" where
  "getAssistantFragmentChromeEstimate index fragmentCount =
    (if fragmentCount = 1 then ASSISTANT_FRAGMENT_CHROME_ESTIMATE * 2
     else if index = 0 \<or> index + 1 = fragmentCount then ASSISTANT_FRAGMENT_CHROME_ESTIMATE else 0)"

definition fragment_id :: "bool \<Rightarrow> nat \<Rightarrow> nat \<Rightarrow> string" where
  "fragment_id useStreamingFragmentIds index fragmentCount =
    (if useStreamingFragmentIds then
       (if index + 1 = fragmentCount then ''stream-tail'' else ''stream-block-'' @ nat_string 10 index)
     else ''block-'' @ nat_string 10 index)"

fun with_text :: "message_content \<Rightarrow> string \<Rightarrow> message_content" where
  "with_text (TextContent _ speech ann) t = TextContent t speech ann"
| "with_text c _ = c"

definition fragment_of ::
    "(js_number \<Rightarrow> string) \<Rightarrow> message \<Rightarrow> message_content list \<Rightarrow> bool \<Rightarrow> nat \<Rightarrow> nat \<Rightarrow> fragment_chunk \<Rightarrow> fragment_item" where
  "fragment_of num m content isStreaming fragmentCount index chunk =
    (let isStreamingTail = (isStreaming \<and> index + 1 = fragmentCount);
         fragmentId = fragment_id (shouldUseStreamingFragmentIds m isStreaming) index fragmentCount;
         fragmentContent = [with_text (hd content) (chunk_text chunk)];
         fragmentMessage = createFragmentRevisionMessage m fragmentContent fragmentId isStreamingTail;
         revisions = buildMessageRevisions num fragmentMessage fragmentContent;
         decision = classifyTranscriptMeasurementPolicy
           \<lparr>pi_rowKind = AssistantContentFragment, pi_message = Some fragmentMessage, pi_content = Some fragmentContent,
            pi_uiState = None, pi_capabilities = (if isStreamingTail then Some streaming_overrides else None),
            pi_options = Some \<lparr>po_allowAuditedWholeTextRealMeasurement = None,
              po_allowCompletedFragmentRealMeasurement = Some (\<not> isStreamingTail), po_hasSideEffectFreeShell = None\<rparr>\<rparr> in
     \<lparr>fi_rowId = ''message:'' @ msg_id m @ '':'' @ fragmentId, fi_messageId = msg_id m, fi_message = m,
      fi_visibleContent = fragmentContent, fi_blockIds = [''text:'' @ fragmentId],
      fi_searchableText = getSearchableText content,
      fi_fragment = \<lparr>fp_fragmentId = fragmentId, fp_fragmentIndex = index, fp_fragmentCount = fragmentCount,
        fp_role = getAssistantFragmentRole index fragmentCount, fp_content = fragmentContent, fp_isStreamingTail = isStreamingTail,
        fp_messageScrollTarget = (if isStreaming then isStreamingTail else index = 0),
        fp_isCodeContinuationChunk = isCodeContinuationChunk chunk, fp_startsWithHeading = startsWithHeading chunk\<rparr>,
      fi_revisions = \<lparr>renderRevision = colons [''assistant-fragment'', msg_id m, fragmentId, renderRevision revisions],
        heightRevision = colons [''assistant-fragment-height'', msg_id m, fragmentId, heightRevision revisions]\<rparr>,
      fi_estimatedHeight = estimateFragmentHeight (chunk_text chunk) + getAssistantFragmentChromeEstimate index fragmentCount,
      fi_decision = decision, fi_anchorPriority = streaming_anchor isStreamingTail\<rparr>)"

definition buildAssistantTextFragmentItems ::
    "(js_number \<Rightarrow> string) \<Rightarrow> message \<Rightarrow> message_content list \<Rightarrow> bool \<Rightarrow> fragment_item list option option" where
  \<comment> \<open>\<open>None\<close> when cutting does not end, \<open>Some None\<close> for the code's \<open>null\<close>\<close>
  "buildAssistantTextFragmentItems num m content isStreaming =
    (if isStreaming \<or> \<not> canProjectAssistantTextFragments m content then Some None
     else map_option (map_option (\<lambda>chunks.
         map (\<lambda>(i, c). fragment_of num m content isStreaming (length chunks) i c) (zip [0 ..< length chunks] chunks)))
       (splitAssistantTextIntoChunks (content_text (hd content))))"

section \<open>Agent work\<close>

fun isToolContent :: "message_content \<Rightarrow> bool" where
  "isToolContent (ToolRequest _) = True"
| "isToolContent (ToolResponse _) = True"
| "isToolContent _ = False"

fun isReasoningContent :: "message_content \<Rightarrow> bool" where
  "isReasoningContent (Thinking _ _) = True"
| "isReasoningContent (RedactedThinking _) = True"
| "isReasoningContent (Reasoning _ _) = True"
| "isReasoningContent _ = False"

definition isWorkContent :: "message_content \<Rightarrow> bool" where
  "isWorkContent block \<longleftrightarrow> isToolContent block \<or> isReasoningContent block"

fun is_tool_request :: "message_content \<Rightarrow> bool" where
  "is_tool_request (ToolRequest _) = True"
| "is_tool_request _ = False"

fun is_running_request :: "message_content \<Rightarrow> bool" where
  "is_running_request (ToolRequest t) \<longleftrightarrow> treq_status t = ToolPending \<or> treq_status t = ToolInProgress"
| "is_running_request _ = False"

definition estimateAgentWorkHeight :: "message_content list \<Rightarrow> js_number" where
  "estimateAgentWorkHeight content = min 420 (max 96 (72 + of_nat (length (filter isWorkContent content)) * 28))"

definition buildAgentWorkItem ::
    "(js_number \<Rightarrow> string) \<Rightarrow> message \<Rightarrow> message_content list \<Rightarrow> bool \<Rightarrow> bool \<Rightarrow> string \<Rightarrow> work_item" where
  "buildAgentWorkItem num m content isStreaming hasFinalAnswer idSuffix =
    (let workMessage = m\<lparr>msg_id := msg_id m @ '':work:'' @ idSuffix, msg_content := content\<rparr>;
         revisions = buildMessageRevisions num workMessage content;
         thoughtCount = length (filter isReasoningContent content);
         toolCount = length (filter is_tool_request content);
         isActiveWork = (isStreaming \<or> list_ex is_running_request content);
         decision = classifyTranscriptMeasurementPolicy
           \<lparr>pi_rowKind = AgentWork, pi_message = Some workMessage, pi_content = Some content, pi_uiState = None,
            pi_capabilities = Some (no_overrides\<lparr>cv_stateful := True, cv_hasToolContent := toolCount > 0,
              cv_hasReasoningContent := thoughtCount > 0, cv_hasDynamicAsyncLayout := True,
              cv_hasActiveToolWork := isActiveWork, cv_hasActiveTimer := isActiveWork,
              cv_hasStreamingContent := isStreaming\<rparr>), pi_options = None\<rparr>;
         rowId = ''message:'' @ msg_id m @ '':'' @ idSuffix in
     \<lparr>wi_rowId = rowId, wi_messageId = msg_id m, wi_message = workMessage, wi_workId = rowId, wi_content = content,
      wi_isActiveWork = isActiveWork, wi_hasFinalAnswer = hasFinalAnswer, wi_thoughtCount = thoughtCount,
      wi_toolCount = toolCount, wi_textCount = length (filter isTextContent content),
      wi_revisions = \<lparr>renderRevision = colons [''agent-work'', msg_id m, idSuffix,
          if hasFinalAnswer then ''answered'' else ''unanswered'', renderRevision revisions],
        heightRevision = colons [''agent-work-height'', msg_id m, idSuffix, heightRevision revisions]\<rparr>,
      wi_estimatedHeight = estimateAgentWorkHeight content, wi_decision = decision,
      wi_anchorPriority = streaming_anchor isStreaming\<rparr>)"

definition buildMessageItemForContent ::
    "(js_number \<Rightarrow> string) \<Rightarrow> message \<Rightarrow> message_content list \<Rightarrow> bool \<Rightarrow> string \<Rightarrow> string option \<Rightarrow> bool \<Rightarrow> message_item" where
  "buildMessageItemForContent num m content isStreaming idSuffix responseStart preserveMessageContext =
    createMessageItem num
      (m\<lparr>msg_id := msg_id m @ '':'' @ idSuffix, msg_content := (if preserveMessageContext then msg_content m else content)\<rparr>)
      content isStreaming responseStart"

definition uri_char :: "char \<Rightarrow> string" where
  "uri_char c = (let n = of_char c :: nat; hex = (\<lambda>k. CHR ''%'' # map (\<lambda>d. if d < 10 then char_of (48 + d) else char_of (55 + d)) [k div 16, k mod 16]) in
    if is_letter c \<or> is_digit c \<or> c \<in> set [CHR ''-'', CHR ''_'', CHR ''.'', CHR ''!'', CHR ''~'', CHR ''*'', CHR 0x27, CHR ''('', CHR '')''] then [c]
    else if n < 128 then hex n
    else hex (192 + n div 64) @ hex (128 + n mod 64))"

definition encodeURIComponent :: "string \<Rightarrow> string" where
  "encodeURIComponent s = concat (map uri_char s)"

definition companion_object :: "message_content \<Rightarrow> json" where
  \<comment> \<open>the blocks without an id that are neither work nor text: images and notifications\<close>
  "companion_object block = (case block of
      ImageContent img \<Rightarrow> img
    | SystemNotification k t action ann \<Rightarrow> JObj (
        [(''type'', JStr ''systemNotification''), (''notificationType'', JStr (notification_text k)), (''text'', JStr t)] @
        optional_field ''action'' (\<lambda>a. case a of
            EditProject i \<Rightarrow> JObj [(''type'', JStr ''editProject''), (''projectId'', JStr i)]
          | OpenContextPanel \<Rightarrow> JObj [(''type'', JStr ''openContextPanel'')]) action @
        optional_field ''annotations'' id ann)
    | _ \<Rightarrow> JNull)"

definition getCompanionIdentity :: "(js_number \<Rightarrow> string) \<Rightarrow> message_content \<Rightarrow> string" where
  "getCompanionIdentity num block = content_type block @ ''-'' @ (case content_id block of
      Some i \<Rightarrow> encodeURIComponent i | None \<Rightarrow> stableValueRevision num (companion_object block))"

definition push_text :: "message_content list \<Rightarrow> message_content \<Rightarrow> message_content list" where
  "push_text compacted block = (case block of
      TextContent s speech ann \<Rightarrow>
        let t = js_trim s in
        if t = [] then compacted
        else if compacted \<noteq> [] \<and> speech_status (last compacted) = speech_status block then
          butlast compacted @ [with_text (last compacted) (content_text (last compacted) @ [NL, NL] @ t)]
        else compacted @ [TextContent t speech ann]
    | _ \<Rightarrow> compacted)"

definition compactTextContent :: "message_content list \<Rightarrow> message_content list" where
  \<comment> \<open>of blocks that are texts\<close>
  "compactTextContent content = foldl push_text [] content"

type_synonym entry = "message_content \<times> nat"

definition indexed :: "message_content list \<Rightarrow> entry list" where
  "indexed content = zip content [0 ..< length content]"

definition work_and_text_entries :: "message_content list \<Rightarrow> entry list" where
  "work_and_text_entries content = filter (\<lambda>(b, _). isWorkContent b \<or> isTextContent b) (indexed content)"

fun answer_run :: "nat \<Rightarrow> entry list \<Rightarrow> entry list" where
  \<comment> \<open>the entries, last one first; only texts that stand next to each other belong to the answer\<close>
  "answer_run next [] = []"
| "answer_run next (e # es) =
    (if isTextContent (fst e) \<and> snd e + 1 = next then answer_run (snd e) es @ [e] else [])"

definition answer_entries :: "bool \<Rightarrow> entry list \<Rightarrow> entry list" where
  "answer_entries isStreaming entries =
    (if isStreaming then []
     else (case dropWhile (isReasoningContent \<circ> fst) (rev entries) of
         [] \<Rightarrow> [] | e # es \<Rightarrow> answer_run (snd e + 1) (e # es)))"

definition push_group :: "entry list list \<Rightarrow> entry \<Rightarrow> entry list list" where
  "push_group groups e =
    (if groups \<noteq> [] \<and> snd e = snd (last (last groups)) + 1 then butlast groups @ [last groups @ [e]] else groups @ [[e]])"

definition work_groups :: "entry list \<Rightarrow> entry list list" where
  "work_groups entries = foldl push_group [] entries"

definition work_positioned ::
    "(js_number \<Rightarrow> string) \<Rightarrow> message \<Rightarrow> bool \<Rightarrow> nat option \<Rightarrow> bool \<Rightarrow> entry list list \<Rightarrow> (js_number \<times> transcript_item) list" where
  "work_positioned num m isStreaming finalAnswerIndex answered groups =
    map (\<lambda>(entries, groupIndex).
        let sourceIndex = snd (hd entries) in
        (case finalAnswerIndex of
           Some i \<Rightarrow> if i < sourceIndex then of_nat i - 1 / 2 else of_nat sourceIndex
         | None \<Rightarrow> of_nat sourceIndex,
         WorkItem (buildAgentWorkItem num m (compactWorkContent (map fst entries)) isStreaming
           (groupIndex + 1 = length groups \<and> answered)
           (if length groups = 1 then ''agent-work'' else ''agent-work-'' @ nat_string 10 groupIndex))))
      (zip groups [0 ..< length groups])"

fun companions :: "(js_number \<Rightarrow> string) \<Rightarrow> (string \<Rightarrow> nat) \<Rightarrow> entry list \<Rightarrow> (entry \<times> string) list" where
  \<comment> \<open>the other blocks, each with its suffix; \<open>counts\<close> says how often an identity came before\<close>
  "companions num counts [] = []"
| "companions num counts (e # es) =
    (if isWorkContent (fst e) \<or> isTextContent (fst e) then companions num counts es
     else
       let identity = getCompanionIdentity num (fst e); occurrence = counts identity in
       (e, ''companion-'' @ identity @ (if occurrence = 0 then [] else CHR ''-'' # nat_string 10 occurrence)) #
         companions num (counts(identity := occurrence + 1)) es)"

fun is_mcp_app :: "message_content \<Rightarrow> bool" where
  "is_mcp_app (McpApp _ _) = True"
| "is_mcp_app _ = False"

definition companion_positioned ::
    "(js_number \<Rightarrow> string) \<Rightarrow> message \<Rightarrow> bool \<Rightarrow> entry list \<Rightarrow> (js_number \<times> transcript_item) list" where
  "companion_positioned num m isStreaming entries =
    map (\<lambda>((block, index), idSuffix). (of_nat index, MessageItem (buildMessageItemForContent num m [block] isStreaming
        idSuffix (Some (msg_id m)) (is_mcp_app block))))
      (companions num (\<lambda>_. 0) entries)"

definition buildAgentWorkItems ::
    "(js_number \<Rightarrow> string) \<Rightarrow> message \<Rightarrow> message_content list \<Rightarrow> bool \<Rightarrow> transcript_item list option" where
  "buildAgentWorkItems num m content isStreaming =
    (let entries = work_and_text_entries content in
     if msg_role m \<noteq> Assistant \<or> content = [] \<or> \<not> list_ex (isWorkContent \<circ> fst) entries then None
     else
       let answer = answer_entries isStreaming entries;
           finalTextContent = compactTextContent (map fst answer);
           workEntries = filter (\<lambda>e. snd e \<notin> set (map snd answer)) entries;
           finalAnswerIndex = (if answer = [] then None else Some (snd (hd answer)));
           positioned = work_positioned num m isStreaming finalAnswerIndex (finalTextContent \<noteq> []) (work_groups workEntries) @
             (if finalTextContent = [] then []
              else [(of_nat (snd (hd answer)), MessageItem (buildMessageItemForContent num m finalTextContent isStreaming
                ''answer'' (Some (msg_id m)) False))]) @
             companion_positioned num m isStreaming (indexed content) in
       Some (map snd (sort_key fst positioned)))"

section \<open>The transcript\<close>

record date_range =
  dr_dateBucket :: string
  dr_startMs :: js_number
  dr_endMs :: js_number

record calendar =
  \<comment> \<open>the day of a time, and the day before a day\<close>
  day_of :: "js_number \<Rightarrow> date_range"
  previousBucket :: "string \<Rightarrow> string option"

definition getDateBucketRange :: "calendar \<Rightarrow> js_number \<Rightarrow> date_range option \<Rightarrow> date_range" where
  "getDateBucketRange cal timestamp previousRange = (case previousRange of
      Some r \<Rightarrow> if dr_startMs r \<le> timestamp \<and> timestamp < dr_endMs r then r else day_of cal timestamp
    | None \<Rightarrow> day_of cal timestamp)"

definition getDateLabelKey :: "calendar \<Rightarrow> string \<Rightarrow> string \<Rightarrow> date_label_key" where
  "getDateLabelKey cal dateBucket nowBucket =
    (if dateBucket = nowBucket then Today
     else if previousBucket cal nowBucket = Some dateBucket then Yesterday else DateLabel)"

definition label_key_text :: "date_label_key \<Rightarrow> string" where
  "label_key_text k = (case k of Today \<Rightarrow> ''today'' | Yesterday \<Rightarrow> ''yesterday'' | DateLabel \<Rightarrow> ''date'')"

definition getDateLabel :: "calendar \<Rightarrow> string \<Rightarrow> string \<Rightarrow> string" where
  "getDateLabel cal dateBucket nowBucket = (case getDateLabelKey cal dateBucket nowBucket of
      Today \<Rightarrow> ''today'' | Yesterday \<Rightarrow> ''yesterday'' | DateLabel \<Rightarrow> dateBucket)"

record projection_input =
  px_messages :: "message list"
  px_streamingMessageId :: "string option"
  px_nowBucket :: string
  px_localeKey :: string
  px_calendarRevisionToken :: string

definition date_separator :: "calendar \<Rightarrow> projection_input \<Rightarrow> string \<Rightarrow> message \<Rightarrow> date_item" where
  "date_separator cal px dateBucket m =
    (let labelKey = getDateLabelKey cal dateBucket (px_nowBucket px) in
     \<lparr>di_rowId = ''date:'' @ dateBucket @ '':before:'' @ msg_id m,
      di_payload = \<lparr>dp_dateBucket = dateBucket, dp_timestamp = msg_created m, dp_labelKey = labelKey,
        dp_label = getDateLabel cal dateBucket (px_nowBucket px), dp_firstMessageId = msg_id m\<rparr>,
      di_revisions = \<lparr>renderRevision = colons [''date'', dateBucket, label_key_text labelKey, px_localeKey px,
          px_nowBucket px, px_calendarRevisionToken px],
        heightRevision = ''date-height:'' @ dateBucket @ '':'' @ label_key_text labelKey @ '':'' @ px_localeKey px\<rparr>,
      di_estimatedHeight = 36\<rparr>)"

definition message_items ::
    "(js_number \<Rightarrow> string) \<Rightarrow> message \<Rightarrow> message_content list \<Rightarrow> bool \<Rightarrow> transcript_item list option" where
  \<comment> \<open>the items of one message; \<open>None\<close> when cutting does not end\<close>
  "message_items num m content isStreaming =
    (case buildAgentWorkItems num m content isStreaming of
       Some items \<Rightarrow> Some items
     | None \<Rightarrow> map_option (\<lambda>fragments. case fragments of
           Some fs \<Rightarrow> map FragmentItem fs
         | None \<Rightarrow> [MessageItem (createMessageItem num m content isStreaming None)])
         (buildAssistantTextFragmentItems num m content isStreaming))"

record projection_state =
  ps_previousDateBucket :: "string option"
  ps_cachedRange :: "date_range option"
  ps_displayed :: "string set"

definition project_message ::
    "(js_number \<Rightarrow> string) \<Rightarrow> calendar \<Rightarrow> projection_input \<Rightarrow> message \<Rightarrow> projection_state \<Rightarrow>
     (transcript_item list \<times> projection_state) option" where
  \<comment> \<open>one pass of the loop\<close>
  "project_message num cal px m ps =
    (let visibleContent = expandReasoningContentSections (getUserVisibleMessageContent (msg_content m)) in
     if msg_role m = User \<and> visibleContent = [] then Some ([], ps)
     else
       let range = getDateBucketRange cal (msg_created m) (ps_cachedRange ps);
           dateBucket = dr_dateBucket range;
           dates = (if ps_previousDateBucket ps = Some dateBucket then []
             else [DateItem (date_separator cal px dateBucket m)]);
           isStreaming = (px_streamingMessageId px = Some (msg_id m));
           content = (if msg_role m = Assistant then filterDuplicateDisplayedReasoning visibleContent (ps_displayed ps)
             else visibleContent);
           displayed = (if msg_role m = Assistant then ps_displayed ps \<union> set (getLeadingReasoningSignatures content)
             else if isToolResponseOnlyContent content then ps_displayed ps else {});
           ps = \<lparr>ps_previousDateBucket = Some dateBucket, ps_cachedRange = Some range, ps_displayed = displayed\<rparr> in
       if msg_role m = Assistant \<and> content = [] then Some (dates, ps)
       else map_option (\<lambda>items. (dates @ items, ps)) (message_items num m content isStreaming))"

fun project_messages ::
    "(js_number \<Rightarrow> string) \<Rightarrow> calendar \<Rightarrow> projection_input \<Rightarrow> projection_state \<Rightarrow> message list \<Rightarrow>
     transcript_item list option" where
  "project_messages num cal px ps [] = Some []"
| "project_messages num cal px ps (m # ms) = (case project_message num cal px m ps of
      None \<Rightarrow> None
    | Some (items, ps) \<Rightarrow> map_option ((@) items) (project_messages num cal px ps ms))"

definition buildTranscriptItems ::
    "(js_number \<Rightarrow> string) \<Rightarrow> calendar \<Rightarrow> projection_input \<Rightarrow> transcript_item list option" where
  "buildTranscriptItems num cal px =
    project_messages num cal px \<lparr>ps_previousDateBucket = None, ps_cachedRange = None, ps_displayed = {}\<rparr>
      (getVisibleTranscriptMessages (px_messages px))"

end
