(* ===== verification/FragmentProperties.thy ===== *)
theory FragmentProperties
  imports MarkdownFragments
begin

text \<open>
  Cutting a long answer ends, its pieces have bounded length, and no line of the answer is lost.
\<close>

section \<open>Lines of chunks and blocks\<close>

definition chunk_lines :: "fragment_chunk \<Rightarrow> string list" where
  "chunk_lines c = js_split NL (chunk_text c)"

fun block_lines :: "parsed_block \<Rightarrow> string list" where
  "block_lines (TextBlock txt _) = js_split NL txt"
| "block_lines (CodeBlock b) = fenceOpener b # codeLines b @ [closingFence b]"

abbreviation plain :: "string list \<Rightarrow> bool" where
  \<comment> \<open>lines of a text\<close>
  "plain lines \<equiv> list_all (\<lambda>l. NL \<notin> set l) lines"

abbreviation nonblank :: "string list \<Rightarrow> string list" where
  "nonblank ls \<equiv> filter (\<lambda>l. \<not> blank_line l) ls"

lemma split_joined: "ls \<noteq> [] \<Longrightarrow> plain ls \<Longrightarrow> js_split NL (js_join [NL] ls) = ls"
  by (rule js_split_join) (simp_all add: list_all_iff)

lemma split_plain: "plain (js_split NL txt)"
  by (auto simp: list_all_iff dest: js_split_no_sep)

lemma text_block_lines: "ls \<noteq> [] \<Longrightarrow> plain ls \<Longrightarrow> block_lines (text_block ls h) = ls"
  by (simp add: text_block_def split_joined)

lemma TextBlock_lines: "NL \<notin> set l \<Longrightarrow> block_lines (TextBlock l h) = [l]"
  by (simp add: js_split_single)

lemma plain_sub: "plain ls \<Longrightarrow> set xs \<subseteq> set ls \<Longrightarrow> plain xs"
  by (auto simp: list_all_iff)

section \<open>The loop that cuts a text\<close>

lemma found_mem: "List.find P xs = Some x \<Longrightarrow> x \<in> set xs \<and> P x"
  by (auto simp: find_Some_iff)

lemma split_index_bounds:
  assumes "startIndex + 40 < length lines"
  shows "startIndex < findBlankLineSplitIndex lines startIndex (startIndex + 40)"
    "findBlankLineSplitIndex lines startIndex (startIndex + 40) \<le> min (length lines) (startIndex + 49)"
  using assms unfolding findBlankLineSplitIndex_def ASSISTANT_FRAGMENT_BLANK_LINE_SEARCH_RADIUS_def
  by (auto split: option.splits dest!: found_mem)

lemma split_loop_cut:
  "s \<le> length lines \<Longrightarrow> plain lines \<Longrightarrow>
    \<exists>cs. split_loop lines h s = Some cs \<and> concat (map chunk_lines cs) = drop s lines \<and>
      (\<forall>c\<in>set cs. 1 \<le> length (chunk_lines c) \<and> length (chunk_lines c) \<le> 49)"
proof (induction "length lines - s" arbitrary: s rule: less_induct)
  case less
  note p = less.prems(2)
  show ?case
  proof (cases "length lines \<le> s + 40")
    case True
    show ?thesis
    proof (cases "length lines \<le> s")
      case False
      then have "js_split NL (js_join [NL] (drop s lines)) = drop s lines"
        using p by (intro split_joined) (auto intro: plain_sub dest: in_set_dropD)
      then show ?thesis using True False
        by (simp add: split_loop.simps [of lines h s] Suc_le_eq le_diff_conv add.commute ASSISTANT_FRAGMENT_TARGET_LINE_COUNT_def lines_chunk_def chunk_lines_def)
    qed (simp add: split_loop.simps)
  next
    case False
    define e where "e = findBlankLineSplitIndex lines s (s + 40)"
    have e: "s < e" "e \<le> length lines" "e \<le> s + 49"
      using split_index_bounds [of s lines] False by (auto simp: e_def)
    obtain cs where cs: "split_loop lines h e = Some cs" "concat (map chunk_lines cs) = drop e lines"
        "\<forall>c\<in>set cs. 1 \<le> length (chunk_lines c) \<and> length (chunk_lines c) \<le> 49"
      using less.hyps [OF _ e(2) p] diff_less_mono2 [of s e "length lines"] e by fastforce
    let ?piece = "drop s (take e lines)"
    have piece: "js_split NL (js_join [NL] ?piece) = ?piece"
      using p e by (intro split_joined) (auto intro: plain_sub dest: in_set_dropD in_set_takeD)
    have "?piece @ drop e lines = drop s lines"
      using e by (metis append_take_drop_id drop_append drop_take min.absorb2 length_take diff_is_0_eq drop0 less_imp_le)
    moreover have "\<not> length lines - s \<le> 40" "1 \<le> e - s" "e - s \<le> 49" using False e by linarith+
    ultimately show ?thesis
      using False cs e piece
      by (simp add: split_loop.simps [of lines h s] ASSISTANT_FRAGMENT_TARGET_LINE_COUNT_def e_def [symmetric]
          lines_chunk_def chunk_lines_def)
  qed
qed

lemma text_chunks:
  "\<exists>cs. splitTextBlockIntoChunks txt h = Some cs \<and> concat (map chunk_lines cs) = js_split NL txt \<and>
    (\<forall>c\<in>set cs. 1 \<le> length (chunk_lines c) \<and> (length (chunk_lines c) \<le> 49 \<or> is_table (chunk_lines c)))"
proof (cases "length (js_split NL txt) \<le> 40 \<or> is_table (js_split NL txt)")
  case True
  then show ?thesis
    by (auto simp: splitTextBlockIntoChunks_def Let_def ASSISTANT_FRAGMENT_TARGET_LINE_COUNT_def chunk_lines_def Suc_le_eq)
next
  case False
  then show ?thesis using split_loop_cut [of 0 "js_split NL txt" h] split_plain
    by (fastforce simp: splitTextBlockIntoChunks_def Let_def ASSISTANT_FRAGMENT_TARGET_LINE_COUNT_def)
qed

section \<open>Blocks\<close>

definition fence_line :: "string \<Rightarrow> bool" where
  \<comment> \<open>three or more of a fence's characters\<close>
  "fence_line l \<longleftrightarrow> (\<exists>k. 3 \<le> k \<and> (l = replicate k CHR 0x60 \<or> l = replicate k CHR ''~''))"

definition opens_fence :: "string \<Rightarrow> string \<Rightarrow> bool" where
  \<comment> \<open>a line that opens a block of code: spaces and tabs, then the fence, as long as it goes, then the rest\<close>
  "opens_fence fence line \<longleftrightarrow> fence_line fence \<and> (\<exists>ws rest. line = ws @ fence @ rest \<and>
    set ws \<subseteq> {CHR '' '', CHR 0x09} \<and> (rest = [] \<or> hd rest \<noteq> hd fence))"

definition closes_fence :: "string \<Rightarrow> string \<Rightarrow> bool" where
  \<comment> \<open>a line that closes it: at least as many of the fence's characters, and spaces and tabs around\<close>
  "closes_fence fence line \<longleftrightarrow> (\<exists>ws n ws'. line = ws @ replicate n (hd fence) @ ws' \<and> length fence \<le> n \<and>
    set ws \<subseteq> {CHR '' '', CHR 0x09} \<and> set ws' \<subseteq> {CHR '' '', CHR 0x09})"

definition left_open :: "string list \<Rightarrow> string \<Rightarrow> bool" where
  \<comment> \<open>the last block of an answer is a block of code that reaches to its end, and no line closes it\<close>
  "left_open lines fence \<longleftrightarrow> (\<exists>before bs b. parseMarkdownBlocks lines = bs @ [CodeBlock b] \<and>
    lines = before @ fenceOpener b # codeLines b \<and> nonblank (concat (map block_lines bs)) = nonblank before \<and>
    opens_fence fence (fenceOpener b) \<and> \<not> list_ex (closes_fence fence) (codeLines b))"

lemma list_all_eq_replicate: "list_all ((=) c) t \<Longrightarrow> t = replicate (length t) c"
  by (induction t) auto

abbreviation indent :: "char \<Rightarrow> bool" where
  "indent c \<equiv> c = CHR '' '' \<or> c = CHR 0x09"

lemma rep_first:
  "rep_matches p m None s = x # xs \<Longrightarrow> x = (takeWhile p s, dropWhile p s, []) \<and> m \<le> length (takeWhile p s)"
  by (cases "m \<le> length (takeWhile p s)")
     (auto simp: rep_matches_def Let_def takeWhile_eq_take [symmetric] dropWhile_eq_drop [symmetric])

abbreviation fence_run :: regex where
  "fence_run \<equiv> Group 1 (Either (Rep ((=) CHR 0x60) 3 None) (Rep ((=) CHR ''~'') 3 None))"

lemma no_fence_in_indent: "i < length (takeWhile indent line) \<Longrightarrow> matches fence_run (drop i line) = []"
proof -
  assume i: "i < length (takeWhile indent line)"
  then have l: "i < length line" using length_takeWhile_le [of indent line] by simp
  have "indent (line ! i)" using nth_mem [OF i] takeWhile_nth [OF i] by (auto dest: set_takeWhileD)
  then have "takeWhile ((=) c) (drop i line) = []" if "c = CHR 0x60 \<or> c = CHR ''~''" for c
    using that by (auto simp: Cons_nth_drop_Suc [OF l, symmetric])
  then show ?thesis by (simp add: rep_matches_def)
qed

lemma fence_matches:
  "matches FENCE_START_PATTERN line = map (\<lambda>(t, s, gs). (takeWhile indent line @ t, s, gs))
    (matches fence_run (dropWhile indent line))"
proof -
  let ?n = "length (takeWhile indent line)"
  let ?f = "\<lambda>i. map (\<lambda>(t, s, gs). (take i line @ t, s, gs)) (matches fence_run (drop i line))"
  have "matches FENCE_START_PATTERN line = concat (map ?f (rev [0..<Suc ?n]))"
    by (simp only: FENCE_START_PATTERN_def matches.simps(1,2) rep_matches_def Let_def option.case map_map comp_def prod.case append_Nil2)
  also have "\<dots> = ?f ?n @ concat (map ?f (rev [0..<?n]))" by simp
  also have "concat (map ?f (rev [0..<?n])) = []"
    by (simp only: concat_eq_Nil_conv set_map set_rev set_upt) (use no_fence_in_indent in force)
  finally show ?thesis by (simp only: append_Nil2 takeWhile_eq_take [symmetric] dropWhile_eq_drop [symmetric])
qed

lemma run_ends: "dropWhile p xs = [] \<or> \<not> p (hd (dropWhile p xs))"
  by (induction xs) auto

lemma fence_marker:
  assumes "match_start FENCE_START_PATTERN line = Some m"
  obtains marker where "group 1 m = Some marker" "fence_line marker" "opens_fence marker line"
proof -
  let ?rest = "dropWhile indent line"
  define ms where "ms = matches fence_run ?rest"
  have "match_start FENCE_START_PATTERN line =
      (case map (\<lambda>(t, s, gs). (takeWhile indent line @ t, s, gs)) ms of [] \<Rightarrow> None | m # _ \<Rightarrow> Some m)"
    by (simp only: match_start_def fence_matches ms_def)
  then obtain y ys where y: "ms = y # ys" "m = (takeWhile indent line @ fst y, snd y)"
    using assms by (cases ms) auto
  have "\<exists>c x xs. rep_matches ((=) c) 3 None ?rest = x # xs \<and> (c = CHR 0x60 \<or> c = CHR ''~'') \<and> y = (fst x, fst (snd x), (1, fst x) # snd (snd x))"
  proof (cases "rep_matches ((=) CHR 0x60) 3 None ?rest")
    case Nil
    then show ?thesis using y(1) unfolding ms_def by (cases "rep_matches ((=) CHR ''~'') 3 None ?rest") (auto intro!: exI [of _ "CHR ''~''"])
  next
    case (Cons x xs)
    then show ?thesis using y(1) unfolding ms_def by (auto simp: case_prod_beta intro!: exI [of _ "CHR 0x60"])
  qed
  then obtain x xs c where x: "rep_matches ((=) c) 3 None ?rest = x # xs" "c = CHR 0x60 \<or> c = CHR ''~''"
      and yx: "y = (fst x, fst (snd x), (1, fst x) # snd (snd x))" by blast
  from rep_first [OF x(1)]
  have e: "x = (takeWhile ((=) c) ?rest, dropWhile ((=) c) ?rest, [])" "3 \<le> length (takeWhile ((=) c) ?rest)" by auto
  define k where "k = length (takeWhile ((=) c) ?rest)"
  have run: "takeWhile ((=) c) ?rest = replicate k c"
    unfolding k_def by (rule list_all_eq_replicate) (auto simp: list_all_iff dest: set_takeWhileD)
  have k: "3 \<le> k" using e(2) by (simp add: k_def)
  have "line = takeWhile indent line @ replicate k c @ dropWhile ((=) c) ?rest"
    by (metis run takeWhile_dropWhile_id)
  moreover have "set (takeWhile indent line) \<subseteq> {CHR '' '', CHR 0x09}" by (auto dest: set_takeWhileD)
  moreover have "dropWhile ((=) c) ?rest = [] \<or> hd (dropWhile ((=) c) ?rest) \<noteq> hd (replicate k c)"
    using run_ends [of "(=) c" ?rest] k by (auto simp: hd_replicate)
  moreover have f: "fence_line (replicate k c)" using k x(2) by (auto simp: fence_line_def)
  ultimately have "opens_fence (replicate k c) line" unfolding opens_fence_def by blast
  moreover have "group 1 m = Some (replicate k c)" using y(2) yx e(1) run by (simp add: group_def)
  ultimately show thesis using f that by blast
qed

lemma fence_line_plain: "fence_line l \<Longrightarrow> NL \<notin> set l \<and> \<not> blank_line l"
proof -
  assume "fence_line l"
  then obtain k c where l: "l = replicate k c" "3 \<le> k" "c = CHR 0x60 \<or> c = CHR ''~''"
    by (auto simp: fence_line_def)
  from l(3) have c: "\<not> is_js_space c" "c \<noteq> NL" by (auto simp: is_js_space_def)
  obtain k' where "k = Suc k'" using l(2) by (cases k) auto
  then have "trimmed l" "l \<noteq> []" using l c by (auto simp: trimmed_def last_replicate)
  then show ?thesis using l c by (simp add: blank_line_def trim_trimmed)
qed

definition keeps_lines :: "string list \<Rightarrow> string list \<Rightarrow> string list \<Rightarrow> bool" where
  \<comment> \<open>a block has all lines up to the rest, but for blank ones\<close>
  "keeps_lines ls before rest \<longleftrightarrow> nonblank ls @ nonblank rest = nonblank before"

definition open_block :: "string \<Rightarrow> string list \<Rightarrow> string \<Rightarrow> bool" where
  \<comment> \<open>a block of code that takes all lines, none of which closes it\<close>
  "open_block line rest fence \<longleftrightarrow> (\<exists>b. parse_block line rest = (CodeBlock b, []) \<and> fenceOpener b = line \<and>
    codeLines b = rest \<and> closingFence b = fence \<and> opens_fence fence line \<and> \<not> list_ex (closes_fence fence) rest)"

lemma keeps_eq: "ls @ rest = before \<Longrightarrow> keeps_lines ls before rest"
  by (auto simp: keeps_lines_def filter_append [symmetric])

lemma fence_closed:
  assumes "fence_line fence" "closes_fence fence line"
  shows "isCodeFenceEnd line (hd fence) (length fence)"
proof -
  obtain ws n ws' where l: "line = ws @ replicate n (hd fence) @ ws'" "length fence \<le> n"
      "set ws \<subseteq> {CHR '' '', CHR 0x09}" "set ws' \<subseteq> {CHR '' '', CHR 0x09}"
    using assms(2) by (auto simp: closes_fence_def)
  have c: "\<not> indent (hd fence)" and "0 < n" using assms(1) l(2) by (auto simp: fence_line_def)
  have "dropWhile indent (ws @ xs) = dropWhile indent xs" for xs
    by (rule dropWhile_append2) (use l(3) in auto)
  then have "dropWhile indent line = replicate n (hd fence) @ ws'"
    using l(1) c \<open>0 < n\<close> by (cases n) auto
  moreover have "takeWhile ((=) (hd fence)) (replicate n (hd fence) @ ws') = replicate n (hd fence)"
    using l(4) c by (cases ws') (auto simp: takeWhile_append)
  ultimately show ?thesis using l(2,4) by (auto simp: isCodeFenceEnd_def Let_def list_all_iff)
qed

lemma take_code_closing:
  "take_code is_end ls = (code, closing, rest) \<Longrightarrow> case closing of None \<Rightarrow> \<not> list_ex is_end ls | Some l \<Rightarrow> is_end l"
  by (induction ls arbitrary: code) (auto split: if_splits prod.splits option.splits)

lemma keeps_code:
  assumes "match_start FENCE_START_PATTERN line = Some m"
  shows "keeps_lines (block_lines (fst (parse_block line rest))) (line # rest) (snd (parse_block line rest)) \<or>
    (\<exists>fence. open_block line rest fence)"
proof -
  obtain marker where marker: "group 1 m = Some marker" "fence_line marker" "opens_fence marker line"
    using fence_marker [OF assms] .
  obtain code closing rest' where t:
      "take_code (\<lambda>l. isCodeFenceEnd l (hd marker) (length marker)) rest = (code, closing, rest')"
    by (metis prod_cases3)
  note ls = take_code_lines [OF t] take_code_closing [OF t]
  show ?thesis
  proof (cases closing)
    case None
    moreover from this have "\<not> list_ex (closes_fence marker) rest"
      using ls(2) fence_closed [OF marker(2)] by (auto simp: list_ex_iff)
    ultimately have "open_block line rest marker" using ls(1) marker t assms
      by (auto simp: open_block_def parse_block_def parse_code_def Let_def)
    then show ?thesis by blast
  next
    case (Some l)
    then show ?thesis using ls(1) marker t assms
      by (simp add: parse_block_def parse_code_def Let_def keeps_eq)
  qed
qed

lemma blank_all_space: "blank_line l \<Longrightarrow> c \<in> set l \<Longrightarrow> is_js_space c"
proof -
  assume "blank_line l" "c \<in> set l"
  from this(1) have "\<forall>x\<in>set (dropWhile is_js_space l). is_js_space x" by (simp add: blank_line_def js_trim_def)
  then have "dropWhile is_js_space l = []" using run_ends [of is_js_space l] hd_in_set by blast
  with \<open>c \<in> set l\<close> show ?thesis by simp
qed

lemma closing_not_blank: "CodeBlock b \<in> set (parseMarkdownBlocks lines) \<Longrightarrow> \<not> blank_line (closingFence b)"
proof (induction lines rule: parseMarkdownBlocks.induct)
  case (2 line rest)
  have "\<not> blank_line (closingFence b)" if c: "fst (parse_block line rest) = CodeBlock b"
  proof (cases "match_start FENCE_START_PATTERN line")
    case None
    with c show ?thesis
      by (auto simp: parse_block_def text_block_def parse_paragraph_def split: if_splits prod.splits list.splits)
  next
    case (Some m)
    obtain marker where marker: "group 1 m = Some marker" "fence_line marker"
      using fence_marker [OF Some] .
    obtain code closing rest' where t:
        "take_code (\<lambda>l. isCodeFenceEnd l (hd marker) (length marker)) rest = (code, closing, rest')"
      by (metis prod_cases3)
    have c: "closingFence b = or_else closing marker"
      using c Some marker(1) t by (auto simp: parse_block_def parse_code_def Let_def)
    show ?thesis
    proof (cases closing)
      case None
      then show ?thesis using c fence_line_plain [OF marker(2)] by simp
    next
      case (Some l)
      from take_code_closing [OF t] Some have e: "isCodeFenceEnd l (hd marker) (length marker)" by simp
      have "0 < length (takeWhile ((=) (hd marker)) (dropWhile indent l))"
        using e marker(2) by (auto simp: isCodeFenceEnd_def Let_def fence_line_def)
      then obtain ls where "dropWhile indent l = hd marker # ls"
        by (cases "dropWhile indent l") (auto split: if_splits)
      then have "hd marker \<in> set l" using set_dropWhileD [of "hd marker" indent l] by simp
      moreover have "\<not> is_js_space (hd marker)" using marker(2) by (auto simp: fence_line_def hd_replicate is_js_space_def)
      ultimately show ?thesis using c Some blank_all_space by auto
    qed
  qed
  with 2 show ?case by (auto split: if_splits)
qed simp

lemma keeps_paragraph:
  assumes "plain (line # rest)"
  shows "keeps_lines (block_lines (fst (parse_paragraph line rest))) (line # rest) (snd (parse_paragraph line rest))"
proof -
  obtain para rest' where p: "paragraph_lines rest = (para, rest')" by (cases "paragraph_lines rest")
  note ls = paragraph_lines_append [OF p]
  have "plain (line # para)" "rest' = l # ls' \<Longrightarrow> plain (line # para @ [l])" for l ls'
    using assms ls by (auto simp: list_all_iff)
  then show ?thesis using ls p
    by (auto simp: parse_paragraph_def text_block_lines intro!: keeps_eq split: list.splits)
qed

lemma filter_dropWhile_rev: "filter (\<lambda>x. \<not> p x) (rev (dropWhile p (rev xs))) = filter (\<lambda>x. \<not> p x) xs"
proof -
  have "xs = rev (takeWhile p (rev xs) @ dropWhile p (rev xs))" by simp
  then have "xs = rev (dropWhile p (rev xs)) @ rev (takeWhile p (rev xs))" by (simp only: rev_append)
  moreover have "filter (\<lambda>x. \<not> p x) (rev (takeWhile p (rev xs))) = []"
    by (auto simp: filter_empty_conv dest: set_takeWhileD)
  ultimately show ?thesis by (metis append_Nil2 filter_append)
qed

lemma keeps_span:
  assumes "plain (line # rest)"
  shows "keeps_lines (block_lines (text_block (line # takeWhile p rest) h)) (line # rest) (dropWhile p rest)"
proof -
  have "plain (line # takeWhile p rest)" using assms by (auto simp: list_all_iff dest: set_takeWhileD)
  then show ?thesis by (simp add: text_block_lines keeps_eq)
qed

lemma keeps_list:
  assumes "plain (line # rest)" "\<not> blank_line line"
  shows "keeps_lines (block_lines (text_block (rev (dropWhile blank_line (rev (line # takeWhile p rest)))) h))
    (line # rest) (dropWhile p rest)"
proof -
  let ?ls = "line # takeWhile p rest" and ?trimmed = "rev (dropWhile blank_line (rev (line # takeWhile p rest)))"
  have "filter (\<lambda>l. \<not> blank_line l) ?trimmed = filter (\<lambda>l. \<not> blank_line l) ?ls" by (rule filter_dropWhile_rev)
  moreover from this have "?trimmed \<noteq> []" using assms(2) by force
  moreover have "set ?trimmed \<subseteq> set ?ls" by (metis set_dropWhileD set_rev subsetI)
  then have "plain ?trimmed"
    by (rule plain_sub [rotated]) (use assms(1) in \<open>auto simp: list_all_iff dest: set_takeWhileD\<close>)
  moreover have "filter (\<lambda>l. \<not> blank_line l) ?ls @ filter (\<lambda>l. \<not> blank_line l) (dropWhile p rest) =
      filter (\<lambda>l. \<not> blank_line l) (line # rest)"
    by (metis append_Cons filter_append takeWhile_dropWhile_id)
  ultimately show ?thesis by (auto simp: text_block_lines keeps_lines_def simp del: rev.simps)
qed

lemma parse_block_keeps:
  assumes "plain (line # rest)" "\<not> blank_line line"
  shows "keeps_lines (block_lines (fst (parse_block line rest))) (line # rest) (snd (parse_block line rest)) \<or>
    (\<exists>fence. open_block line rest fence)"
proof (cases "match_start FENCE_START_PATTERN line")
  case (Some m)
  then show ?thesis by (rule keeps_code)
next
  case None
  have one: "keeps_lines (block_lines (TextBlock line h)) (line # rest) rest" for h
    using assms by (intro keeps_eq) (simp add: js_split_single)
  have table: "keeps_lines (block_lines (text_block (line # hd rest # takeWhile p (tl rest)) False)) (line # rest) (dropWhile p (tl rest))"
    if t: "isMarkdownTableStart line rest" for p
  proof -
    obtain l ls where rest: "rest = l # ls"
      using t by (cases rest) (auto simp: isMarkdownTableStart_def first_line_def isPotentialMarkdownTableRow_def
          hasUnescapedPipe_def)
    have "plain (line # l # takeWhile p ls)" using assms rest by (auto simp: list_all_iff dest: set_takeWhileD)
    then show ?thesis using rest by (simp add: text_block_lines keeps_eq)
  qed
  show ?thesis
    using None one table keeps_paragraph [OF assms(1)] keeps_span [OF assms(1)] keeps_list [OF assms]
    by (simp add: parse_block_def del: rev.simps)
qed

lemma parse_block_rest: "\<exists>taken. rest = taken @ snd (parse_block line rest)"
proof -
  have "\<exists>taken. rest = taken @ snd (parse_code line rest m)" for m
    by (auto simp: parse_code_def Let_def dest!: take_code_lines split: prod.splits option.splits)
  moreover have "\<exists>taken. rest = taken @ snd (parse_paragraph line rest)"
    by (auto simp: parse_paragraph_def dest!: paragraph_lines_append split: prod.splits list.splits if_splits)
  moreover have "\<exists>taken. rest = taken @ dropWhile p rest" for p by (metis takeWhile_dropWhile_id)
  moreover have "\<exists>taken. rest = taken @ dropWhile p (tl rest)" for p
    by (cases rest) (auto simp: Cons_eq_append_conv intro: takeWhile_dropWhile_id [symmetric])
  ultimately show ?thesis
    by (auto simp: parse_block_def split: option.splits if_splits)
qed

lemma parse_block_rest_plain: "plain (line # rest) \<Longrightarrow> plain (snd (parse_block line rest))"
  using parse_block_rest [of rest line] by (metis list.pred_inject(2) list_all_append)

lemma parse_keeps:
  "plain lines \<Longrightarrow> nonblank (concat (map block_lines (parseMarkdownBlocks lines))) = nonblank lines \<or>
    (\<exists>fence. left_open lines fence \<and>
      nonblank (concat (map block_lines (parseMarkdownBlocks lines))) = nonblank lines @ [fence])"
proof (induction lines rule: parseMarkdownBlocks.induct)
  case (2 line rest)
  show ?case
  proof (cases "blank_line line")
    case True
    then have "left_open (line # rest) fence" if "left_open rest fence" for fence
    proof -
      from that obtain before bs c where "parseMarkdownBlocks rest = bs @ [CodeBlock c]"
          "rest = before @ fenceOpener c # codeLines c" "nonblank (concat (map block_lines bs)) = nonblank before"
          "opens_fence fence (fenceOpener c)" "\<not> list_ex (closes_fence fence) (codeLines c)"
        by (auto simp: left_open_def)
      with True show ?thesis unfolding left_open_def
        by (intro exI [of _ "line # before"] exI [of _ bs] exI [of _ c]) simp
    qed
    with 2 True show ?thesis by auto
  next
    case False
    let ?b = "fst (parse_block line rest)" and ?rest = "snd (parse_block line rest)"
    obtain taken where taken: "rest = taken @ ?rest" using parse_block_rest by blast
    have "keeps_lines (block_lines ?b) (line # rest) ?rest \<or> (\<exists>fence. open_block line rest fence)"
      using parse_block_keeps 2(3) False by blast
    then show ?thesis
    proof (elim disjE exE)
      assume k: "keeps_lines (block_lines ?b) (line # rest) ?rest"
      then have b: "nonblank (block_lines ?b) = nonblank (line # taken)"
        using taken unfolding keeps_lines_def by (metis append_Cons append_same_eq filter_append)
      have "left_open (line # rest) fence" if "left_open ?rest fence" for fence
      proof -
        from that obtain before bs c where c: "parseMarkdownBlocks ?rest = bs @ [CodeBlock c]"
            "?rest = before @ fenceOpener c # codeLines c" "nonblank (concat (map block_lines bs)) = nonblank before"
            "opens_fence fence (fenceOpener c)" "\<not> list_ex (closes_fence fence) (codeLines c)"
          by (auto simp: left_open_def)
        have "line # rest = (line # taken @ before) @ fenceOpener c # codeLines c" using taken c(2) by simp
        moreover have "parseMarkdownBlocks (line # rest) = (?b # bs) @ [CodeBlock c]" using False c(1) by simp
        moreover have "nonblank (concat (map block_lines (?b # bs))) = nonblank (line # taken @ before)"
          using b c(3) by (metis append_Cons concat.simps(2) filter_append list.map(2))
        ultimately show ?thesis using c(4,5) unfolding left_open_def by blast
      qed
      moreover note 2(2) [OF False parse_block_rest_plain [OF 2(3)]]
      ultimately show ?thesis using False k
        by (auto simp: keeps_lines_def simp del: filter.simps)
    next
      fix fence assume o: "open_block line rest fence"
      then have "\<not> blank_line fence" using fence_line_plain by (auto simp: open_block_def opens_fence_def)
      moreover have "left_open (line # rest) fence" using o False
        by (auto simp: open_block_def left_open_def intro!: exI [of _ "[]"])
      ultimately show ?thesis using o False by (auto simp: open_block_def)
    qed
  qed
qed simp

lemma left_open_lines: "left_open lines fence \<Longrightarrow> nonblank (concat (map block_lines (parseMarkdownBlocks lines))) \<noteq> nonblank lines"
proof -
  assume "left_open lines fence"
  then obtain before bs c where c: "parseMarkdownBlocks lines = bs @ [CodeBlock c]"
      "lines = before @ fenceOpener c # codeLines c" "nonblank (concat (map block_lines bs)) = nonblank before"
    by (auto simp: left_open_def)
  from c(1) have "\<not> blank_line (closingFence c)" by (intro closing_not_blank [of _ lines]) simp
  moreover have "nonblank lines = nonblank before @ nonblank (fenceOpener c # codeLines c)"
    by (subst c(2)) (simp only: filter_append)
  ultimately show ?thesis using c(1,3) by (simp del: filter.simps) (simp add: filter.simps)
qed

section \<open>The fragments of an answer\<close>

definition bounded_chunk :: "parsed_block list \<Rightarrow> fragment_chunk \<Rightarrow> bool" where
  \<comment> \<open>at most 49 lines, or a table, or a whole block of code\<close>
  "bounded_chunk bs c \<longleftrightarrow> chunk_lines c \<noteq> [] \<and> (length (chunk_lines c) \<le> 49 \<or> is_table (chunk_lines c) \<or>
    (\<exists>code. CodeBlock code \<in> set bs \<and> c = expandCodeBlockChunks code))"

definition chunks_of :: "parsed_block list \<Rightarrow> fragment_chunk list \<Rightarrow> bool" where
  "chunks_of bs cs \<longleftrightarrow> concat (map chunk_lines cs) = concat (map block_lines bs) \<and> list_all (bounded_chunk bs) cs"

lemma block_chunks_spec: "plain (block_lines b) \<Longrightarrow> \<exists>cs. block_chunks b = Some cs \<and> chunks_of [b] cs"
proof (cases b)
  case (TextBlock t h)
  then show ?thesis using text_chunks [of t h] by (force simp: chunks_of_def bounded_chunk_def list_all_iff)
next
  case (CodeBlock code)
  moreover assume "plain (block_lines b)"
  ultimately have "chunk_lines (expandCodeBlockChunks code) = block_lines b"
    by (simp add: expandCodeBlockChunks_def chunk_lines_def split_joined)
  with CodeBlock show ?thesis by (simp add: chunks_of_def bounded_chunk_def)
qed

lemma bounded_chunk_mono: "bounded_chunk bs c \<Longrightarrow> set bs \<subseteq> set bs' \<Longrightarrow> bounded_chunk bs' c"
  by (auto simp: bounded_chunk_def)

lemma all_chunks_spec:
  "list_all (plain \<circ> block_lines) bs \<Longrightarrow> \<exists>cs. all_chunks bs = Some cs \<and> chunks_of bs cs"
proof (induction bs)
  case (Cons b bs)
  then obtain cs bcs where "all_chunks bs = Some cs" "chunks_of bs cs" "block_chunks b = Some bcs" "chunks_of [b] bcs"
    using block_chunks_spec [of b] by auto
  then show ?case by (auto simp: chunks_of_def list_all_iff elim!: bounded_chunk_mono)
qed (simp add: chunks_of_def)

lemma parse_code_plain:
  assumes "match_start FENCE_START_PATTERN line = Some m" "plain (line # rest)"
  shows "plain (block_lines (fst (parse_code line rest m)))"
proof -
  obtain marker where marker: "group 1 m = Some marker" "fence_line marker"
    using fence_marker [OF assms(1)] .
  obtain code closing rest' where t:
      "take_code (\<lambda>l. isCodeFenceEnd l (hd marker) (length marker)) rest = (code, closing, rest')"
    by (metis prod_cases3)
  show ?thesis using take_code_lines [OF t] t marker assms(2) fence_line_plain [OF marker(2)]
    by (auto simp: parse_code_def Let_def split: option.splits)
qed

lemma parse_plain: "plain lines \<Longrightarrow> list_all (plain \<circ> block_lines) (parseMarkdownBlocks lines)"
proof (induction lines rule: parseMarkdownBlocks.induct)
  case (2 line rest)
  have "plain (snd (parse_block line rest))" using 2(3) by (rule parse_block_rest_plain)
  moreover have "plain (block_lines (fst (parse_block line rest)))"
  proof (cases "match_start FENCE_START_PATTERN line")
    case (Some m)
    then show ?thesis using parse_code_plain 2(3) by (simp add: parse_block_def)
  next
    case None
    then have "\<exists>t h. fst (parse_block line rest) = TextBlock t h"
      by (auto simp: parse_block_def text_block_def parse_paragraph_def split: prod.splits list.splits)
    then show ?thesis using split_plain by auto
  qed
  ultimately show ?case using 2 by simp
qed simp

lemma splitting_returns: "\<exists>r. splitAssistantTextIntoChunks answer = Some r"
  using all_chunks_spec [OF parse_plain [OF split_plain, of answer]] by (auto simp: splitAssistantTextIntoChunks_def Let_def)

section \<open>Theorems\<close>

text \<open>
  C33. Cutting an answer into fragments loses none of its lines and makes up none but one: when an answer is
  cut, the lines of its fragments, one after the other, are the lines of the answer, up to blank lines. The one
  line more is the fence that closes a block of code, at the end, and it is there exactly when the last block
  of the answer is a block of code that no line up to the answer's end closes; it is the fence that
  opened the block, with all its characters. A block of code that the answer closes gets no second fence.
\<close>

theorem fragments_keep_lines:
  assumes "splitAssistantTextIntoChunks answer = Some (Some chunks)"
  shows "\<exists>extra. nonblank (concat (map (js_split NL \<circ> chunk_text) chunks)) = nonblank (js_split NL answer) @ extra \<and>
    ((\<exists>fence. left_open (js_split NL answer) fence \<and> extra = [fence]) \<or>
     (\<nexists>fence. left_open (js_split NL answer) fence) \<and> extra = [])"
proof -
  let ?bs = "parseMarkdownBlocks (js_split NL answer)"
  have "all_chunks ?bs = Some chunks"
    using assms by (auto simp: splitAssistantTextIntoChunks_def Let_def split: if_splits)
  then have "concat (map chunk_lines chunks) = concat (map block_lines ?bs)"
    using all_chunks_spec [OF parse_plain [OF split_plain, of answer]] by (auto simp: chunks_of_def)
  moreover have "js_split NL \<circ> chunk_text = chunk_lines" by (auto simp: chunk_lines_def)
  ultimately show ?thesis using parse_keeps [OF split_plain, of answer] left_open_lines by (metis append_Nil2)
qed

text \<open>
  C34. Cutting an answer ends: every pass of the loop over a text goes on, so that the code returns, either
  without fragments or with at least two, and every fragment has at most 49 lines unless it is a table or a
  whole block of code.
\<close>

theorem splitting_ends:
  "\<exists>r. splitAssistantTextIntoChunks answer = Some r \<and> (case r of None \<Rightarrow> True
    | Some chunks \<Rightarrow> 2 \<le> length chunks \<and>
        list_all (bounded_chunk (parseMarkdownBlocks (js_split NL answer))) chunks)"
proof -
  obtain cs where "all_chunks (parseMarkdownBlocks (js_split NL answer)) = Some cs"
      "chunks_of (parseMarkdownBlocks (js_split NL answer)) cs"
    using all_chunks_spec [OF parse_plain [OF split_plain]] by blast
  then show ?thesis by (simp add: splitAssistantTextIntoChunks_def Let_def chunks_of_def)
qed

definition example_answer :: string where
  \<comment> \<open>a line, and a block of code of eighteen lines that is not closed\<close>
  "example_answer = js_join [NL] (''Look:'' # [CHR 0x60, CHR 0x60, CHR 0x60, CHR ''c''] # replicate 18 ''x'')"

theorem fragments_keep_lines_witness:
  "\<exists>chunks. splitAssistantTextIntoChunks example_answer = Some (Some chunks) \<and>
    nonblank (concat (map (js_split NL \<circ> chunk_text) chunks)) =
      js_split NL example_answer @ [[CHR 0x60, CHR 0x60, CHR 0x60]]"
proof -
  have "case splitAssistantTextIntoChunks example_answer of Some (Some cs) \<Rightarrow>
      length (nonblank (concat (map (js_split NL \<circ> chunk_text) cs))) = 21 | _ \<Rightarrow> False" by code_simp
  then obtain chunks where c: "splitAssistantTextIntoChunks example_answer = Some (Some chunks)"
      "length (nonblank (concat (map (js_split NL \<circ> chunk_text) chunks))) = 21"
    by (auto split: option.splits)
  have lines: "js_split NL example_answer = ''Look:'' # [CHR 0x60, CHR 0x60, CHR 0x60, CHR ''c''] # replicate 18 ''x''"
    "nonblank (js_split NL example_answer) = js_split NL example_answer" by code_simp+
  from fragments_keep_lines [OF c(1)] c(2) lines obtain fence where f: "left_open (js_split NL example_answer) fence"
      "nonblank (concat (map (js_split NL \<circ> chunk_text) chunks)) = js_split NL example_answer @ [fence]"
    by fastforce
  have "case last (parseMarkdownBlocks (js_split NL example_answer)) of
      CodeBlock b \<Rightarrow> fenceOpener b = [CHR 0x60, CHR 0x60, CHR 0x60, CHR ''c''] | _ \<Rightarrow> False" by code_simp
  with f(1) have o: "opens_fence fence [CHR 0x60, CHR 0x60, CHR 0x60, CHR ''c'']" by (auto simp: left_open_def)
  have "fence = [CHR 0x60, CHR 0x60, CHR 0x60]"
    using o by (auto simp: opens_fence_def fence_line_def Cons_eq_append_conv Cons_replicate_eq numeral_3_eq_3 dest: antisym)
  with c(1) f(2) show ?thesis by blast
qed

end
