(* ===== verification/ProjectionProperties.thy ===== *)
theory ProjectionProperties
  imports TranscriptProjection FragmentProperties
begin

text \<open>
  What the items of a message keep of it: the measurement decision of plain texts, the order and completeness
  of agent work, and thoughts that are shown once.
\<close>

section \<open>The decision of a plain text\<close>

lemma static_text_is_classified:
  "getMessageMeasurementDecision m content isStreaming =
    classifyTranscriptMeasurementPolicy (message_policy_input m content isStreaming)"
proof (cases "\<not> isStreaming \<and> length content = 1 \<and> isTextContent (hd content) \<and>
    meta_field completionStatus m = None \<and> \<not> has_attachments m")
  case True
  then obtain t speech ann where c: "content = [TextContent t speech ann]"
    by (cases content; cases "hd content") auto
  have "Option.bind (Some m) (meta_field completionStatus) \<noteq> Some InProgress" "\<not> has_attachments m" "\<not> isStreaming"
    using True by simp_all
  then have "row_safety (Some m) content None None = (createEmptyCapabilities, [])"
    by (simp add: row_safety_def applyContentSafety_def applyUiSafetyState_def applyCapabilityOverrides_def mark_if_def
        content_safety_def c)
  moreover have "canMeasureReal MessageRow (Some m) content createEmptyCapabilities None [] = (False, [TextRowRequiresAudit])"
    by (simp add: canMeasureReal_def c hasOnlyTextContent_def hasOnlySystemNotificationContent_def set_add_def)
  moreover have "requiresShellMeasurement MessageRow content createEmptyCapabilities"
    by (simp add: requiresShellMeasurement_def c hasOnlyTextContent_def)
  ultimately show ?thesis using True
    by (simp add: getMessageMeasurementDecision_def classifyTranscriptMeasurementPolicy_def message_policy_input_def
        Let_def HARD_ESTIMATE_REASONS_def STATIC_TEXT_MEASUREMENT_DECISION_def layout_pending_def getKeepAlivePriority_def
        createEmptyCapabilities_def)
next
  case False
  then show ?thesis unfolding getMessageMeasurementDecision_def by (rule if_not_P)
qed

section \<open>Marks of content\<close>

definition content_marks :: "message_content \<Rightarrow> (message_content + char) list" where
  \<comment> \<open>a tool block, or the characters of a text that are not white space\<close>
  "content_marks b = (case b of
      TextContent t _ _ \<Rightarrow> map Inr (filter (\<lambda>c. \<not> is_js_space c) t)
    | ToolRequest _ \<Rightarrow> [Inl b]
    | ToolResponse _ \<Rightarrow> [Inl b]
    | _ \<Rightarrow> [])"

definition marks :: "message_content list \<Rightarrow> (message_content + char) list" where
  "marks content = concat (map content_marks content)"

lemma marks_simps [simp]: "marks [] = []" "marks (b # bs) = content_marks b @ marks bs" "marks (xs @ ys) = marks xs @ marks ys"
  by (simp_all add: marks_def)

definition is_companion :: "message_content \<Rightarrow> bool" where
  "is_companion b \<longleftrightarrow> \<not> isWorkContent b \<and> \<not> isTextContent b"

lemma reasoning_marks [simp]: "isReasoningContent b \<Longrightarrow> content_marks b = []"
  by (cases b) (auto simp: content_marks_def)

lemma companion_marks [simp]: "is_companion b \<Longrightarrow> content_marks b = []"
  by (cases b) (auto simp: content_marks_def is_companion_def isWorkContent_def)

lemma marks_zero: "list_all (\<lambda>b. content_marks b = []) bs \<Longrightarrow> marks bs = []"
  by (induction bs) auto

lemma filter_space_trim: "filter (\<lambda>c. \<not> is_js_space c) (js_trim s) = filter (\<lambda>c. \<not> is_js_space c) s"
proof -
  have drop: "filter (\<lambda>c. \<not> is_js_space c) (dropWhile is_js_space t) = filter (\<lambda>c. \<not> is_js_space c) t" for t
    by (induction t) auto
  show ?thesis by (simp add: js_trim_def drop flip: rev_filter)
qed

section \<open>Compacting\<close>

lemma butlast_last_marks: "bs \<noteq> [] \<Longrightarrow> marks (butlast bs) @ content_marks (last bs) = marks bs"
  by (metis append_butlast_last_id append_Nil2 marks_simps)

lemma push_compacted_marks: "marks (push_compacted bs b) = marks bs @ content_marks b"
proof (cases b)
  case (TextContent t speech ann)
  show ?thesis
  proof (cases "bs \<noteq> [] \<and> isTextContent (last bs) \<and> speech_status (last bs) = speech_status b")
    case True
    then obtain t' speech' ann' where l: "last bs = TextContent t' speech' ann'" by (cases "last bs") auto
    have "marks bs = marks (butlast bs) @ content_marks (last bs)" using True butlast_last_marks by metis
    then show ?thesis using True l TextContent by (simp add: push_compacted_def content_marks_def)
  qed (use TextContent in \<open>auto simp: push_compacted_def\<close>)
qed (simp_all add: push_compacted_def)

lemma sanitized_marks: "content_marks (sanitized_block b) = content_marks b"
  by (cases b) (simp_all add: sanitized_block_def content_marks_def)

lemma signed_marks: "text_signature b = Some s \<Longrightarrow> content_marks b = []"
  by (cases b) (simp_all add: text_signature_def content_marks_def)

lemma compact_blocks_marks: "marks (compact_blocks compacted displayed bs) = marks compacted @ marks bs"
proof (induction bs arbitrary: compacted displayed)
  case (Cons b bs)
  then show ?case using signed_marks [of "sanitized_block b"]
    by (auto simp: Let_def push_compacted_marks sanitized_marks split: option.split)
qed simp

lemma sections_marks: "marks (splitReasoningContentSections b) = content_marks b"
proof -
  have "marks (map (\<lambda>t. Thinking t ann) ts) = []" "marks (map (\<lambda>t. Reasoning t ann) ts) = []" for ann ts
    by (induction ts) (simp_all add: content_marks_def)
  then show ?thesis by (cases b) (simp_all add: splitReasoningContentSections_def content_marks_def)
qed

lemma compactWorkContent_marks: "marks (compactWorkContent content) = marks content"
proof -
  have "marks (concat (map splitReasoningContentSections bs)) = marks bs" for bs
    by (induction bs) (simp_all add: sections_marks)
  then show ?thesis by (simp add: compactWorkContent_def compact_blocks_marks)
qed

lemma push_text_marks:
  assumes "isTextContent b" "list_all isTextContent bs"
  shows "marks (push_text bs b) = marks bs @ content_marks b" "list_all isTextContent (push_text bs b)"
proof -
  obtain s speech ann where b: "b = TextContent s speech ann" using assms(1) by (cases b) auto
  have trim: "content_marks b = map Inr (filter (\<lambda>c. \<not> is_js_space c) (js_trim s))"
    by (simp add: b content_marks_def filter_space_trim)
  have "marks (push_text bs b) = marks bs @ content_marks b \<and> list_all isTextContent (push_text bs b)"
  proof (cases "js_trim s = []")
    case True
    then show ?thesis using trim assms(2) by (simp add: push_text_def b Let_def)
  next
    case False
    show ?thesis
    proof (cases "bs \<noteq> [] \<and> speech_status (last bs) = speech_status b")
      case True
      then have "isTextContent (last bs)" using assms(2) by (simp add: list_all_iff)
      then obtain t' speech' ann' where l: "last bs = TextContent t' speech' ann'" by (cases "last bs") auto
      have "marks bs = marks (butlast bs) @ content_marks (last bs)" using True butlast_last_marks by metis
      moreover have "is_js_space NL" by (simp add: is_js_space_def)
      ultimately show ?thesis using True False l trim assms(2)
        by (simp add: push_text_def b Let_def content_marks_def list_all_iff) (meson in_set_butlastD)
    next
      case no: False
      then have "push_text bs b = bs @ [TextContent (js_trim s) speech ann]" using False by (auto simp: push_text_def b Let_def)
      then show ?thesis using trim assms(2) by (simp add: content_marks_def)
    qed
  qed
  then show "marks (push_text bs b) = marks bs @ content_marks b" "list_all isTextContent (push_text bs b)" by auto
qed

lemma compactTextContent_marks: "list_all isTextContent bs \<Longrightarrow> marks (compactTextContent bs) = marks bs"
proof -
  have "list_all isTextContent bs \<Longrightarrow> list_all isTextContent acc \<Longrightarrow> marks (foldl push_text acc bs) = marks acc @ marks bs" for acc
    by (induction bs arbitrary: acc) (simp_all add: push_text_marks)
  then show "list_all isTextContent bs \<Longrightarrow> ?thesis" by (simp add: compactTextContent_def)
qed

section \<open>Thoughts\<close>

definition same_thought :: "message_content \<Rightarrow> message_content \<Rightarrow> bool" where
  \<comment> \<open>a thought as it is displayed, or a thought with the same canonical text, which is not empty\<close>
  "same_thought b shown \<longleftrightarrow> shown = sanitized_block b \<or>
    text_signature shown \<noteq> None \<and> text_signature shown = text_signature (sanitized_block b)"

lemma sanitized_thought: "isReasoningContent b \<Longrightarrow> isReasoningContent (sanitized_block b)"
  by (cases b) (simp_all add: sanitized_block_def)

lemma push_compacted_thought: "isReasoningContent b \<Longrightarrow> b \<in> set (push_compacted bs c) \<longleftrightarrow> b \<in> set bs \<or> b = c"
proof -
  assume b: "isReasoningContent b"
  have "b \<in> set (butlast bs @ [c']) \<longleftrightarrow> b \<in> set bs" if "bs \<noteq> []" "isTextContent (last bs)" "\<not> isReasoningContent c'" for c'
  proof -
    have "set bs = set (butlast bs @ [last bs])" using that(1) by simp
    moreover have "b \<noteq> last bs" "b \<noteq> c'" using b that by (cases "last bs"; auto)+
    ultimately show ?thesis by simp
  qed
  then show ?thesis using b
    by (cases c) (auto simp: push_compacted_def split: message_content.split)
qed

lemma compact_blocks_thoughts:
  assumes "\<forall>s\<in>displayed. \<exists>c\<in>set compacted. isReasoningContent c \<and> text_signature c = Some s"
  shows "(\<forall>b\<in>set compacted. isReasoningContent b \<longrightarrow> b \<in> set (compact_blocks compacted displayed bs)) \<and>
    (\<forall>b\<in>set bs. isReasoningContent b \<longrightarrow> (\<exists>c\<in>set (compact_blocks compacted displayed bs). same_thought b c))"
  using assms
proof (induction bs arbitrary: compacted displayed)
  case (Cons b bs)
  let ?b = "sanitized_block b" and ?pushed = "push_compacted compacted (sanitized_block b)"
  have signed: "isReasoningContent c" if "text_signature c = Some s" for c s
    using that by (cases c) (simp_all add: text_signature_def)
  show ?case
  proof (cases "\<exists>s\<in>displayed. text_signature ?b = Some s")
    case True
    then obtain s c where s: "s \<in> displayed" "text_signature ?b = Some s" "c \<in> set compacted" "isReasoningContent c"
        "text_signature c = Some s"
      using Cons.prems by blast
    then have "same_thought b c" by (simp add: same_thought_def)
    with s show ?thesis using Cons.IH [OF Cons.prems] by (auto simp: Let_def)
  next
    case False
    define displayed' where "displayed' = (case text_signature ?b of None \<Rightarrow> displayed | Some s \<Rightarrow> insert s displayed)"
    have step: "compact_blocks compacted displayed (b # bs) = compact_blocks ?pushed displayed' bs"
      using False by (auto simp: Let_def displayed'_def split: option.splits)
    have "\<forall>s\<in>displayed'. \<exists>c\<in>set ?pushed. isReasoningContent c \<and> text_signature c = Some s"
      using Cons.prems signed by (auto simp: displayed'_def push_compacted_thought split: option.splits) (metis push_compacted_thought)+
    note IH = Cons.IH [OF this]
    have "\<exists>c\<in>set (compact_blocks ?pushed displayed' bs). same_thought b c" if "isReasoningContent b"
      using IH sanitized_thought [OF that] by (intro bexI [of _ ?b]) (simp_all add: same_thought_def push_compacted_thought)
    then show ?thesis using IH unfolding step by (simp add: push_compacted_thought)
  qed
qed simp

lemma compactWorkContent_thoughts:
  "b \<in> set (expandReasoningContentSections content) \<Longrightarrow> isReasoningContent b \<Longrightarrow>
    \<exists>c\<in>set (compactWorkContent content). same_thought b c"
  using compact_blocks_thoughts [of "{}" "[]" "expandReasoningContentSections content"]
  unfolding compactWorkContent_def expandReasoningContentSections_def by blast

section \<open>The places of agent work\<close>

definition item_blocks :: "transcript_item \<Rightarrow> message_content list" where
  "item_blocks i = (case i of DateItem _ \<Rightarrow> [] | MessageItem i \<Rightarrow> mi_visibleContent i
    | FragmentItem i \<Rightarrow> fi_visibleContent i | WorkItem i \<Rightarrow> wi_content i)"

abbreviation ascending :: "entry list \<Rightarrow> bool" where
  "ascending entries \<equiv> sorted_wrt (<) (map snd entries)"

lemma indexed_ascending: "ascending (indexed content)"
  by (simp add: indexed_def sorted_wrt_upt)

lemma indexed_blocks: "map fst (indexed content) = content"
  by (simp add: indexed_def)

lemma entries_ascending: "ascending (work_and_text_entries content)"
proof -
  have "ascending es \<Longrightarrow> ascending (filter P es)" for es P
    by (induction es) auto
  then show ?thesis by (simp add: work_and_text_entries_def indexed_ascending)
qed

lemma entries_marks: "marks (map fst (work_and_text_entries content)) = marks content"
proof -
  have "marks (map fst (filter (\<lambda>(b, _). isWorkContent b \<or> isTextContent b) es)) = marks (map fst es)" for es :: "entry list"
    by (induction es) (auto intro: companion_marks [unfolded is_companion_def])
  then show ?thesis by (simp add: work_and_text_entries_def indexed_blocks)
qed

lemma answer_run_suffix:
  "\<exists>pre. rev es = pre @ answer_run next es \<and> list_all (isTextContent \<circ> fst) (answer_run next es)"
proof (induction es arbitrary: "next")
  case (Cons e es)
  obtain pre where "rev es = pre @ answer_run (snd e) es" "list_all (isTextContent \<circ> fst) (answer_run (snd e) es)"
    using Cons.IH by blast
  then show ?case by (simp add: comp_def)
qed simp

lemma answer_entries_parts:
  "\<exists>pre trailing. entries = pre @ answer_entries isStreaming entries @ trailing \<and>
    list_all (isTextContent \<circ> fst) (answer_entries isStreaming entries) \<and> list_all (isReasoningContent \<circ> fst) trailing"
proof (cases "isStreaming \<or> dropWhile (isReasoningContent \<circ> fst) (rev entries) = []")
  case True
  then have "answer_entries isStreaming entries = []" by (auto simp: answer_entries_def simp del: dropWhile_eq_Nil_conv)
  then show ?thesis by (intro exI [of _ entries] exI [of _ "[]"]) simp
next
  case False
  let ?p = "isReasoningContent \<circ> fst"
  obtain e es where d: "dropWhile ?p (rev entries) = e # es" using False by (cases "dropWhile ?p (rev entries)") auto
  obtain pre where pre: "rev (e # es) = pre @ answer_run (snd e + 1) (e # es)"
      "list_all (isTextContent \<circ> fst) (answer_run (snd e + 1) (e # es))"
    using answer_run_suffix by blast
  have "rev entries = takeWhile ?p (rev entries) @ e # es" by (metis d takeWhile_dropWhile_id)
  then have "entries = rev (e # es) @ rev (takeWhile ?p (rev entries))" by (metis rev_append rev_rev_ident)
  moreover have "list_all ?p (rev (takeWhile ?p (rev entries)))" by (auto simp: list_all_iff dest: set_takeWhileD)
  moreover have "answer_entries isStreaming entries = answer_run (snd e + 1) (e # es)"
    using False d by (simp add: answer_entries_def)
  ultimately show ?thesis using pre by (metis append_assoc)
qed

lemma push_group_concat: "concat (push_group groups e) = concat groups @ [e]"
proof (cases "groups = []")
  case False
  then have "concat groups = concat (butlast groups) @ last groups" by (metis append_butlast_last_id concat.simps concat_append append_Nil2)
  then show ?thesis by (simp add: push_group_def)
qed (simp add: push_group_def)

lemma work_groups_parts: "concat (work_groups es) = es \<and> [] \<notin> set (work_groups es)"
proof -
  have "concat (foldl push_group groups es) = concat groups @ es \<and> ([] \<notin> set groups \<longrightarrow> [] \<notin> set (foldl push_group groups es))" for groups
  proof (induction es arbitrary: groups)
    case (Cons e es)
    have "[] \<notin> set groups \<Longrightarrow> [] \<notin> set (push_group groups e)"
      by (auto simp: push_group_def dest: in_set_butlastD)
    then show ?case using Cons by (simp add: push_group_concat)
  qed simp
  then show ?thesis by (simp add: work_groups_def)
qed

text \<open>Sorting by the position leaves what is in order already.\<close>

lemma sorted_parts:
  fixes f :: "'b \<Rightarrow> 'c list"
  assumes "sorted (map fst (filter (\<lambda>x. f (snd x) \<noteq> []) xs))"
  shows "concat (map (f \<circ> snd) (sort_key fst xs)) = concat (map (f \<circ> snd) xs)"
proof -
  have nz: "concat (map (f \<circ> snd) ys) = concat (map (f \<circ> snd) (filter (\<lambda>x. f (snd x) \<noteq> []) ys))" for ys :: "('a \<times> 'b) list"
    by (induction ys) auto
  have "filter (\<lambda>x. f (snd x) \<noteq> []) (sort_key fst xs) = filter (\<lambda>x. f (snd x) \<noteq> []) xs"
    using assms by (simp add: filter_sort sort_key_id_if_sorted)
  then show ?thesis using nz by metis
qed

section \<open>Nothing is lost\<close>

lemma ascending_sub: "ascending (xs @ ys) \<Longrightarrow> ascending xs \<and> ascending ys \<and> (\<forall>x\<in>set xs. \<forall>y\<in>set ys. snd x < snd y)"
  by (simp add: sorted_wrt_append)

lemma group_heads:
  "[] \<notin> set gs \<Longrightarrow> ascending (concat gs) \<Longrightarrow> sorted (map (snd \<circ> hd) gs)"
proof (induction gs)
  case (Cons g gs)
  note parts = ascending_sub [of g "concat gs"]
  have "snd (hd g) \<le> snd (hd g')" if g': "g' \<in> set gs" for g'
  proof -
    have "g \<noteq> []" "g' \<noteq> []" using Cons.prems(1) g' by auto
    then have "hd g \<in> set g" "hd g' \<in> set g'" by simp_all
    then have "hd g \<in> set g" "hd g' \<in> set (concat gs)" using g' by auto
    then show ?thesis using parts Cons.prems(2) by (fastforce intro: less_imp_le)
  qed
  moreover have "sorted (map (snd \<circ> hd) gs)" using Cons parts by (simp add: comp_def)
  ultimately show ?case by (simp add: comp_def)
qed simp

definition work_key :: "nat option \<Rightarrow> entry list \<Rightarrow> js_number" where
  "work_key finalAnswerIndex g = (case finalAnswerIndex of
      Some i \<Rightarrow> if i < snd (hd g) then of_nat i - 1 / 2 else of_nat (snd (hd g)) | None \<Rightarrow> of_nat (snd (hd g)))"

lemma work_positioned_parts:
  "\<exists>suffix answer. work_positioned num m isStreaming fai answered gs =
    map (\<lambda>(g, j). (work_key fai g, WorkItem (buildAgentWorkItem num m (compactWorkContent (map fst g)) isStreaming (answer j) (suffix j))))
      (zip gs [0 ..< length gs])"
  unfolding work_positioned_def work_key_def Let_def
  by (intro exI [of _ "\<lambda>j. if length gs = 1 then ''agent-work'' else ''agent-work-'' @ nat_string 10 j"]
      exI [of _ "\<lambda>j. j + 1 = length gs \<and> answered"]) (rule refl)

lemma item_blocks_work [simp]: "item_blocks (WorkItem (buildAgentWorkItem num m content isStreaming answered suffix)) = content"
  by (simp add: item_blocks_def buildAgentWorkItem_def Let_def)

lemma item_blocks_message [simp]:
  "item_blocks (MessageItem (buildMessageItemForContent num m content isStreaming suffix start preserve)) = content"
  by (simp add: item_blocks_def buildMessageItemForContent_def createMessageItem_def)

lemma work_positioned_concat:
  "concat (map (f \<circ> item_blocks \<circ> snd) (work_positioned num m isStreaming fai answered gs)) =
    concat (map (\<lambda>g. f (compactWorkContent (map fst g))) gs)"
proof -
  have "map (\<lambda>x. f (compactWorkContent (map fst (fst x)))) (zip gs [0 ..< length gs]) =
      map (\<lambda>g. f (compactWorkContent (map fst g))) gs"
    by (rule nth_equalityI) auto
  then show ?thesis
    using work_positioned_parts [of num m isStreaming fai answered gs] by (auto simp: comp_def split_beta)
qed

lemma work_positioned_sorted:
  assumes "[] \<notin> set gs" "ascending (concat gs)"
    and marked: "\<forall>g\<in>set gs. marks (map fst g) \<noteq> [] \<longrightarrow> (\<forall>i. fai = Some i \<longrightarrow> snd (hd g) < i)"
  shows "sorted (map fst (filter (\<lambda>x. marks (item_blocks (snd x)) \<noteq> []) (work_positioned num m isStreaming fai answered gs)))"
    and "\<And>x i. x \<in> set (work_positioned num m isStreaming fai answered gs) \<Longrightarrow> marks (item_blocks (snd x)) \<noteq> [] \<Longrightarrow>
      fai = Some i \<Longrightarrow> fst x \<le> of_nat i"
proof -
  let ?W = "work_positioned num m isStreaming fai answered gs" and ?z = "zip gs [0 ..< length gs]"
  obtain suffix answer where W: "?W = map (\<lambda>(g, j). (work_key fai g,
      WorkItem (buildAgentWorkItem num m (compactWorkContent (map fst g)) isStreaming (answer j) (suffix j)))) ?z"
    using work_positioned_parts by blast
  have key: "work_key fai g = of_nat (snd (hd g))" if "g \<in> set gs" "marks (map fst g) \<noteq> []" for g
    using marked that by (auto simp: work_key_def split: option.split)
  have "map fst (filter (\<lambda>x. marks (item_blocks (snd x)) \<noteq> []) ?W) =
      map (\<lambda>(g, j). of_nat (snd (hd g))) (filter (\<lambda>(g, j). marks (map fst g) \<noteq> []) ?z)"
    unfolding W filter_map map_map
    by (rule map_cong) (auto simp: comp_def split_beta compactWorkContent_marks key dest: set_zip_leftD intro!: filter_cong)
  moreover have "map (\<lambda>(g, j). snd (hd g)) ?z = map (snd \<circ> hd) gs"
    by (rule nth_equalityI) auto
  then have "sorted (map (\<lambda>(g, j). snd (hd g)) (filter (\<lambda>(g, j). marks (map fst g) \<noteq> []) ?z))"
    using group_heads [OF assms(1,2)] sorted_filter [of "\<lambda>(g, j). snd (hd g)"] by metis
  then have "sorted (map (\<lambda>(g, j). of_nat (snd (hd g)) :: js_number) (filter (\<lambda>(g, j). marks (map fst g) \<noteq> []) ?z))"
    by (auto simp: sorted_map sorted_wrt_map split_beta elim!: sorted_wrt_mono_rel [rotated])
  ultimately show "sorted (map fst (filter (\<lambda>x. marks (item_blocks (snd x)) \<noteq> []) ?W))" by simp
  show "fst x \<le> of_nat i" if x: "x \<in> set ?W" "marks (item_blocks (snd x)) \<noteq> []" "fai = Some i" for x i
  proof -
    obtain g where "g \<in> set gs" "fst x = work_key fai g" "marks (map fst g) \<noteq> []"
      using x(1,2) unfolding W by (auto simp: compactWorkContent_marks dest: set_zip_leftD)
    then show ?thesis using key marked x(3) by (simp add: less_imp_le)
  qed
qed

lemma companions_blocks: "map fst (companions num counts es) = filter (is_companion \<circ> fst) es"
  by (induction es arbitrary: counts) (auto simp: Let_def is_companion_def)

lemma companion_positioned_blocks:
  "map (\<lambda>x. (fst x, item_blocks (snd x))) (companion_positioned num m isStreaming es) =
    map (\<lambda>e. (of_nat (snd e), [fst e])) (filter (is_companion \<circ> fst) es)"
  unfolding companions_blocks [of num "\<lambda>_. 0", symmetric] companion_positioned_def map_map
  by (rule map_cong) auto

definition agent_work_positions ::
    "(js_number \<Rightarrow> string) \<Rightarrow> message \<Rightarrow> message_content list \<Rightarrow> bool \<Rightarrow> (js_number \<times> transcript_item) list" where
  \<comment> \<open>the items with their positions, before they are sorted\<close>
  "agent_work_positions num m content isStreaming =
    (let entries = work_and_text_entries content;
         answer = answer_entries isStreaming entries;
         finalTextContent = compactTextContent (map fst answer);
         workEntries = filter (\<lambda>e. snd e \<notin> set (map snd answer)) entries;
         finalAnswerIndex = (if answer = [] then None else Some (snd (hd answer))) in
     work_positioned num m isStreaming finalAnswerIndex (finalTextContent \<noteq> []) (work_groups workEntries) @
       (if finalTextContent = [] then []
        else [(of_nat (snd (hd answer)), MessageItem (buildMessageItemForContent num m finalTextContent isStreaming
          ''answer'' (Some (msg_id m)) False))]) @
       companion_positioned num m isStreaming (indexed content))"

lemma agent_work_items:
  "buildAgentWorkItems num m content isStreaming = Some items \<Longrightarrow>
    items = map snd (sort_key fst (agent_work_positions num m content isStreaming))"
  by (auto simp: buildAgentWorkItems_def agent_work_positions_def Let_def split: if_splits)

lemma ascending_unique: "ascending (xs @ ys @ zs) \<Longrightarrow> filter (\<lambda>e. snd e \<notin> set (map snd ys)) (xs @ ys @ zs) = xs @ zs"
proof -
  assume "ascending (xs @ ys @ zs)"
  then have "\<forall>x\<in>set xs. snd x \<notin> set (map snd ys)" "\<forall>x\<in>set zs. snd x \<notin> set (map snd ys)"
    by (force simp: sorted_wrt_append)+
  then show ?thesis by (auto simp: filter_id_conv filter_empty_conv)
qed

lemma heads_before_answer:
  assumes asc: "ascending (pre @ answer @ trailing)" and gs: "concat gs = pre @ trailing"
    and trailing: "list_all (isReasoningContent \<circ> fst) trailing"
    and g: "g \<in> set gs" "marks (map fst g) \<noteq> []" "answer \<noteq> []"
  shows "snd (hd g) < snd (hd answer)"
proof -
  have "\<not> (\<forall>e\<in>set g. e \<in> set trailing)"
  proof
    assume "\<forall>e\<in>set g. e \<in> set trailing"
    then have "marks (map fst g) = []" using trailing by (intro marks_zero) (auto simp: list_all_iff)
    with g(2) show False by simp
  qed
  moreover have "set g \<subseteq> set (concat gs)" using g(1) by auto
  then have "set g \<subseteq> set pre \<union> set trailing" by (simp add: gs)
  ultimately obtain e where e: "e \<in> set g" "e \<in> set pre" by blast
  obtain before after where "gs = before @ g # after" using g(1) by (meson split_list)
  then have "ascending (concat before @ g @ concat after)" using gs asc by (auto simp: sorted_wrt_append)
  then have "ascending g" by (auto simp: sorted_wrt_append)
  then have "snd (hd g) \<le> snd e" using e(1) by (cases g) (auto simp: less_imp_le)
  moreover have "snd e < snd (hd answer)" using asc e(2) g(3) by (auto simp: sorted_wrt_append)
  ultimately show ?thesis by simp
qed

lemma agent_work_keeps_marks:
  assumes "buildAgentWorkItems num m content isStreaming = Some items"
  shows "marks (concat (map item_blocks items)) = marks content"
proof -
  define es where "es = work_and_text_entries content"
  define answer where "answer = answer_entries isStreaming es"
  obtain pre trailing where parts: "es = pre @ answer @ trailing" "list_all (isTextContent \<circ> fst) answer"
      "list_all (isReasoningContent \<circ> fst) trailing"
    using answer_entries_parts unfolding answer_def by blast
  have asc: "ascending (pre @ answer @ trailing)" using entries_ascending parts(1) es_def by metis
  define final where "final = compactTextContent (map fst answer)"
  have final: "marks final = marks (map fst answer)"
    unfolding final_def using parts(2) by (intro compactTextContent_marks) (simp add: list.pred_map)
  define gs where "gs = work_groups (filter (\<lambda>e. snd e \<notin> set (map snd answer)) es)"
  have "filter (\<lambda>e. snd e \<notin> set (map snd answer)) es = pre @ trailing"
    using ascending_unique [OF asc] parts(1) by simp
  then have gs: "concat gs = pre @ trailing" "[] \<notin> set gs" using work_groups_parts unfolding gs_def by simp_all
  have trailing: "marks (map fst trailing) = []"
    using parts(3) by (intro marks_zero) (auto simp: list_all_iff)
  define fai where "fai = (if answer = [] then None else Some (snd (hd answer)))"
  define W where "W = work_positioned num m isStreaming fai (final \<noteq> []) gs"
  define A where "A = (if final = [] then [] else [(of_nat (snd (hd answer)) :: js_number,
    MessageItem (buildMessageItemForContent num m final isStreaming ''answer'' (Some (msg_id m)) False))])"
  define C where "C = companion_positioned num m isStreaming (indexed content)"
  have positions: "agent_work_positions num m content isStreaming = W @ A @ C"
    by (simp add: agent_work_positions_def Let_def W_def A_def C_def gs_def final_def answer_def es_def fai_def)
  let ?f = "marks \<circ> item_blocks"
  have heads: "\<forall>g\<in>set gs. marks (map fst g) \<noteq> [] \<longrightarrow> (\<forall>i. fai = Some i \<longrightarrow> snd (hd g) < i)"
    using heads_before_answer [OF asc gs(1) parts(3)] by (auto simp: fai_def)
  have "ascending (concat gs)" using gs(1) asc by (auto simp: sorted_wrt_append)
  note W_sorted = work_positioned_sorted [OF gs(2) this heads, where num = num and m = m and isStreaming = isStreaming
      and answered = "final \<noteq> []", folded W_def]
  have C_blocks: "marks (item_blocks (snd x)) = []" if "x \<in> set C" for x
  proof -
    have "(fst x, item_blocks (snd x)) \<in> set (map (\<lambda>x. (fst x, item_blocks (snd x))) C)" using that by simp
    then show ?thesis unfolding C_def companion_positioned_blocks by auto
  qed
  have "filter (\<lambda>x. ?f (snd x) \<noteq> []) (W @ A @ C) = filter (\<lambda>x. ?f (snd x) \<noteq> []) W @ filter (\<lambda>x. ?f (snd x) \<noteq> []) A"
    using C_blocks by (auto simp: filter_empty_conv)
  moreover have "fst x \<le> fst y" if "x \<in> set W" "?f (snd x) \<noteq> []" "y \<in> set A" "?f (snd y) \<noteq> []" for x y
  proof -
    have "final \<noteq> []" and y: "fst y = of_nat (snd (hd answer))" using that(3) by (auto simp: A_def split: if_splits)
    then have "answer \<noteq> []" by (auto simp: final_def compactTextContent_def)
    then have "fai = Some (snd (hd answer))" by (simp add: fai_def)
    from W_sorted(2) [OF that(1) _ this] that(2) y show ?thesis by simp
  qed
  moreover have "sorted (map fst (filter P A))" for P by (simp add: A_def)
  moreover have "sorted (map fst (filter (\<lambda>x. ?f (snd x) \<noteq> []) W))" using W_sorted(1) by (simp add: comp_def)
  ultimately have "sorted (map fst (filter (\<lambda>x. ?f (snd x) \<noteq> []) (W @ A @ C)))"
    by (simp only: map_append sorted_append) fastforce
  then have "concat (map (?f \<circ> snd) (sort_key fst (W @ A @ C))) = concat (map (?f \<circ> snd) (W @ A @ C))"
    by (rule sorted_parts)
  also have "\<dots> = marks (map fst (pre @ trailing)) @ marks (map fst answer)"
  proof -
    have "concat (map (?f \<circ> snd) W) = concat (map (marks \<circ> map fst) gs)"
      using work_positioned_concat [of marks num m isStreaming fai "final \<noteq> []" gs]
      by (simp add: W_def compactWorkContent_marks comp_def)
    also have "\<dots> = marks (map fst (concat gs))" by (induction gs) simp_all
    finally have "concat (map (?f \<circ> snd) W) = marks (map fst (pre @ trailing))" by (simp add: gs(1))
    moreover have "concat (map (?f \<circ> snd) A) = marks final" by (simp add: A_def)
    moreover have "concat (map (?f \<circ> snd) C) = []" using C_blocks by simp
    ultimately show ?thesis using final by simp
  qed
  also have "\<dots> = marks (map fst es)" using parts(1) trailing by simp
  also have "\<dots> = marks content" by (simp add: es_def entries_marks)
  finally have "concat (map (?f \<circ> snd) (sort_key fst (W @ A @ C))) = marks content" .
  moreover have eq: "marks (concat (map item_blocks xs)) = concat (map ?f xs)" for xs by (induction xs) simp_all
  ultimately have "marks (concat (map item_blocks (map snd (sort_key fst (W @ A @ C))))) = marks content"
    unfolding eq by (simp only: map_map)
  then show ?thesis using agent_work_items [OF assms] positions by simp
qed

lemma agent_work_keeps_thoughts:
  assumes "buildAgentWorkItems num m content isStreaming = Some items"
    and b: "b \<in> set (expandReasoningContentSections content)" "isReasoningContent b"
  shows "\<exists>c\<in>set (concat (map item_blocks items)). same_thought b c"
proof -
  let ?es = "work_and_text_entries content"
  let ?work = "filter (\<lambda>e. snd e \<notin> set (map snd (answer_entries isStreaming ?es))) ?es"
  obtain d where d: "d \<in> set content" "b \<in> set (splitReasoningContentSections d)"
    using b(1) by (auto simp: expandReasoningContentSections_def)
  have thought: "isReasoningContent d"
    using b(2) d(2) by (cases d) (auto simp: splitReasoningContentSections_def)
  have "d \<in> fst ` set (indexed content)" using d(1) indexed_blocks [of content] by (metis set_map)
  then obtain i where "(d, i) \<in> set (indexed content)" by auto
  then have i: "(d, i) \<in> set ?es" using thought by (simp add: work_and_text_entries_def isWorkContent_def)
  obtain pre trailing where parts: "?es = pre @ answer_entries isStreaming ?es @ trailing"
      "list_all (isTextContent \<circ> fst) (answer_entries isStreaming ?es)"
    using answer_entries_parts by blast
  have "?work = pre @ trailing"
    using ascending_unique [of pre "answer_entries isStreaming ?es" trailing] parts(1) entries_ascending by metis
  moreover have "(d, i) \<notin> set (answer_entries isStreaming ?es)"
    using parts(2) thought by (cases d) (auto simp: list_all_iff)
  moreover have "(d, i) \<in> set (pre @ answer_entries isStreaming ?es @ trailing)" using i parts(1) by metis
  ultimately have "(d, i) \<in> set (concat (work_groups ?work))" using work_groups_parts [of ?work] by auto
  then obtain g where g: "g \<in> set (work_groups ?work)" "(d, i) \<in> set g" by auto
  then have "b \<in> set (expandReasoningContentSections (map fst g))"
    using d(2) by (force simp: expandReasoningContentSections_def)
  then obtain c where c: "c \<in> set (compactWorkContent (map fst g))" "same_thought b c"
    using compactWorkContent_thoughts b(2) by blast
  have "\<exists>x\<in>set (work_positioned num m isStreaming fai answered (work_groups ?work)). item_blocks (snd x) = compactWorkContent (map fst g)"
    for fai answered
  proof -
    obtain suffix answer where W: "work_positioned num m isStreaming fai answered (work_groups ?work) =
        map (\<lambda>(g, j). (work_key fai g, WorkItem (buildAgentWorkItem num m (compactWorkContent (map fst g)) isStreaming (answer j) (suffix j))))
          (zip (work_groups ?work) [0 ..< length (work_groups ?work)])"
      using work_positioned_parts by blast
    obtain j where "(g, j) \<in> set (zip (work_groups ?work) [0 ..< length (work_groups ?work)])"
      using g(1) by (metis in_set_impl_in_set_zip1 length_upt minus_nat.diff_0)
    then show ?thesis unfolding W by force
  qed
  then have "\<exists>x\<in>set (agent_work_positions num m content isStreaming). item_blocks (snd x) = compactWorkContent (map fst g)"
    unfolding agent_work_positions_def Let_def by (metis UnCI set_append)
  then obtain x where x: "x \<in> set (agent_work_positions num m content isStreaming)"
      "item_blocks (snd x) = compactWorkContent (map fst g)" by blast
  then have "snd x \<in> set items" using agent_work_items [OF assms(1)] by simp
  then have "c \<in> set (concat (map item_blocks items))" using c(1) x(2) by (auto intro!: bexI [of _ "snd x"])
  with c(2) show ?thesis by blast
qed

section \<open>The blocks beside the work\<close>

definition beside :: "message_content list \<Rightarrow> message_content list" where
  "beside content = filter is_companion content"

lemma no_companions:
  "list_all (\<lambda>b. \<not> is_companion b) bs \<Longrightarrow> list_all (\<lambda>b. \<not> is_companion b) (compactWorkContent bs)"
proof -
  have block: "\<not> is_companion b \<Longrightarrow> \<not> is_companion (sanitized_block b)" for b
    by (cases b) (simp_all add: sanitized_block_def is_companion_def isWorkContent_def)
  have push: "list_all (\<lambda>b. \<not> is_companion b) cs \<Longrightarrow> \<not> is_companion b \<Longrightarrow>
      list_all (\<lambda>b. \<not> is_companion b) (push_compacted cs b)" for cs b
    by (cases b) (auto simp: push_compacted_def list_all_iff is_companion_def split: message_content.split dest: in_set_butlastD)
  have "list_all (\<lambda>b. \<not> is_companion b) cs \<Longrightarrow> list_all (\<lambda>b. \<not> is_companion b) bs \<Longrightarrow>
      list_all (\<lambda>b. \<not> is_companion b) (compact_blocks cs displayed bs)" for cs displayed bs
    by (induction bs arbitrary: cs displayed) (auto simp: Let_def block push split: option.split)
  moreover have "\<not> is_companion b \<Longrightarrow> list_all (\<lambda>b. \<not> is_companion b) (splitReasoningContentSections b)" for b
    by (cases b) (auto simp: splitReasoningContentSections_def list_all_iff is_companion_def isWorkContent_def)
  then have "list_all (\<lambda>b. \<not> is_companion b) bs \<Longrightarrow>
      list_all (\<lambda>b. \<not> is_companion b) (concat (map splitReasoningContentSections bs))" for bs
    by (induction bs) auto
  ultimately show "list_all (\<lambda>b. \<not> is_companion b) bs \<Longrightarrow> ?thesis" by (simp add: compactWorkContent_def)
qed

lemma work_not_beside:
  assumes "list_all (\<lambda>e. \<not> is_companion (fst e)) (concat gs)"
    "x \<in> set (work_positioned num m isStreaming fai answered gs)"
  shows "beside (item_blocks (snd x)) = []"
proof -
  obtain suffix answer where "work_positioned num m isStreaming fai answered gs = map (\<lambda>(g, j). (work_key fai g,
      WorkItem (buildAgentWorkItem num m (compactWorkContent (map fst g)) isStreaming (answer j) (suffix j))))
    (zip gs [0 ..< length gs])"
    using work_positioned_parts by blast
  with assms(2) obtain g j where "(g, j) \<in> set (zip gs [0 ..< length gs])" "item_blocks (snd x) = compactWorkContent (map fst g)"
    by auto
  then have "g \<in> set gs" "item_blocks (snd x) = compactWorkContent (map fst g)" by (auto dest: set_zip_leftD)
  moreover from this have "list_all (\<lambda>b. \<not> is_companion b) (map fst g)" using assms(1) by (auto simp: list_all_iff)
  ultimately show ?thesis using no_companions [of "map fst g"] by (simp add: beside_def filter_empty_conv list_all_iff)
qed

lemma final_texts: "list_all isTextContent bs \<Longrightarrow> list_all isTextContent (compactTextContent bs)"
proof -
  have "list_all isTextContent bs \<Longrightarrow> list_all isTextContent acc \<Longrightarrow> list_all isTextContent (foldl push_text acc bs)" for acc
    by (induction bs arbitrary: acc) (simp_all add: push_text_marks)
  then show "list_all isTextContent bs \<Longrightarrow> ?thesis" by (simp add: compactTextContent_def)
qed

lemma agent_work_keeps_companions:
  assumes "buildAgentWorkItems num m content isStreaming = Some items"
  shows "beside (concat (map item_blocks items)) = beside content"
proof -
  let ?es = "work_and_text_entries content" and ?f = "beside \<circ> item_blocks"
  let ?answer = "answer_entries isStreaming ?es"
  let ?work = "filter (\<lambda>e. snd e \<notin> set (map snd ?answer)) ?es"
  obtain WA where pos: "agent_work_positions num m content isStreaming =
      WA @ companion_positioned num m isStreaming (indexed content)"
    and WA: "\<And>x. x \<in> set WA \<Longrightarrow> beside (item_blocks (snd x)) = []"
  proof -
    have plain: "list_all (\<lambda>e. \<not> is_companion (fst e)) ?es"
      by (auto simp: work_and_text_entries_def list_all_iff is_companion_def)
    then have work: "list_all (\<lambda>e. \<not> is_companion (fst e)) (concat (work_groups ?work))"
      using work_groups_parts [of ?work] by (auto simp: list_all_iff)
    have "list_all (isTextContent \<circ> fst) ?answer" using answer_entries_parts by blast
    then have "list_all isTextContent (compactTextContent (map fst ?answer))"
      by (intro final_texts) (simp add: list.pred_map)
    then have "beside (compactTextContent (map fst ?answer)) = []"
      by (auto simp: beside_def filter_empty_conv list_all_iff is_companion_def)
    with work_not_beside [OF work] show thesis
      by (intro that [OF _]) (auto simp: agent_work_positions_def Let_def split: if_splits)
  qed
  let ?C = "companion_positioned num m isStreaming (indexed content)"
  have C: "map (\<lambda>x. (fst x, item_blocks (snd x))) ?C =
      map (\<lambda>e. (of_nat (snd e), [fst e])) (filter (is_companion \<circ> fst) (indexed content))"
    by (rule companion_positioned_blocks)
  have "map fst ?C = map (\<lambda>e. of_nat (snd e)) (filter (is_companion \<circ> fst) (indexed content))"
    using arg_cong [OF C, of "map fst"] by (simp add: comp_def)
  moreover have "sorted (map (\<lambda>e. of_nat (snd e) :: js_number) (filter P (indexed content)))" for P
  proof -
    have "sorted (map snd (filter P (indexed content)))"
      using indexed_ascending [of content] by (intro sorted_filter) (simp add: sorted_wrt_mono_rel strict_sorted_imp_sorted)
    then show ?thesis by (auto simp: sorted_map elim!: sorted_wrt_mono_rel [rotated])
  qed
  ultimately have "sorted (map fst ?C)" by simp
  then have "sorted (map fst (filter P ?C))" for P by (rule sorted_filter)
  then have "concat (map (?f \<circ> snd) (sort_key fst (WA @ ?C))) = concat (map (?f \<circ> snd) (WA @ ?C))"
    using WA by (intro sorted_parts) (simp add: filter_empty_conv)
  also have "\<dots> = concat (map (beside \<circ> snd) (map (\<lambda>x. (fst x, item_blocks (snd x))) ?C))"
    using WA by (simp add: comp_def)
  also have "\<dots> = concat (map (\<lambda>e. beside [fst e]) (filter (is_companion \<circ> fst) (indexed content)))"
    unfolding C by (simp add: comp_def)
  also have "concat (map (\<lambda>e. beside [fst e]) (filter (is_companion \<circ> fst) es)) = filter is_companion (map fst es)"
    for es :: "entry list"
    by (induction es) (auto simp: beside_def)
  finally have "concat (map (?f \<circ> snd) (sort_key fst (WA @ ?C))) = beside content"
    by (simp add: indexed_blocks beside_def)
  moreover have eq: "beside (concat (map item_blocks xs)) = concat (map ?f xs)" for xs
    by (induction xs) (simp_all add: beside_def)
  ultimately have "beside (concat (map item_blocks (map snd (sort_key fst (WA @ ?C))))) = beside content"
    unfolding eq by (simp only: map_map)
  then show ?thesis using agent_work_items [OF assms] pos by simp
qed

end
