(* ===== verification/TranscriptShows.thy ===== *)
theory TranscriptShows
  imports ProjectionProperties "HOL-Library.Multiset"
begin

text \<open>
  What the transcript shows: agent work loses nothing of a message, the projection returns and shows every tool
  block in order, days are separated, and the rows of a message have different ids.
\<close>

section \<open>Agent work\<close>

text \<open>
  C38. A plain text takes a short cut to its measurement decision, a constant; the decision is the one that
  the classification would compute, for every message, content and streaming state.
\<close>

theorem static_decision_is_classified:
  "getMessageMeasurementDecision m content isStreaming =
    classifyTranscriptMeasurementPolicy (message_policy_input m content isStreaming)"
  by (rule static_text_is_classified)

text \<open>
  C35. Agent work loses nothing of a message: when a message is cut into panels of work, an answer and the
  blocks beside them, then the tool calls, tool responses and characters of its texts (white space apart) stand
  in the items in the order of the message, and so do the blocks beside the work, also when work that
  comes after the answer is moved before it. Thoughts may be left out as repeated, but none is lost: every
  thought, cut into its sections, is shown by the items, or a thought is shown that has the same canonical text,
  and this text is not empty.
\<close>

theorem agent_work_loses_nothing:
  assumes "buildAgentWorkItems num m content isStreaming = Some items"
  shows "marks (concat (map item_blocks items)) = marks content \<and>
    filter is_companion (concat (map item_blocks items)) = filter is_companion content \<and>
    (\<forall>b\<in>set (expandReasoningContentSections content). isReasoningContent b \<longrightarrow>
      (\<exists>shown\<in>set (concat (map item_blocks items)). same_thought b shown))"
  using agent_work_keeps_marks [OF assms] agent_work_keeps_companions [OF assms] agent_work_keeps_thoughts [OF assms]
  by (simp add: beside_def)

definition example_work :: message where
  \<comment> \<open>a thought, a tool call, an answer, an image beside it, and a thought that came late\<close>
  "example_work = \<lparr>msg_id = ''m'', msg_role = Assistant, msg_created = 1,
    msg_content = [Thinking ''look'' None, ToolRequest \<lparr>treq_id = ''t'', treq_name = ''read'', treq_toolName = None,
        treq_extensionName = None, treq_arguments = JObj [], treq_status = ToolCompleted, treq_toolKind = None,
        treq_locations = None, treq_startedAt = None, treq_annotations = None, treq_chainSummary = None,
        treq_subagentAgentName = None, treq_subagentTaskLabel = None, treq_subagentTaskIsConfigured = None\<rparr>,
      TextContent ''Done.'' None None, ImageContent JNull, Reasoning ''late'' None],
    msg_metadata = None\<rparr>"

theorem agent_work_loses_nothing_witness:
  "\<exists>items. buildAgentWorkItems (\<lambda>_. ''1'') example_work (msg_content example_work) False = Some items \<and>
    marks (concat (map item_blocks items)) = marks (msg_content example_work) \<and>
    filter is_companion (concat (map item_blocks items)) = [ImageContent JNull] \<and>
    (\<exists>shown\<in>set (concat (map item_blocks items)). same_thought (Reasoning ''late'' None) shown)"
proof -
  have "list_ex (isWorkContent \<circ> fst) (work_and_text_entries (msg_content example_work))"
    "msg_role example_work = Assistant" "msg_content example_work \<noteq> []"
    by (simp_all add: example_work_def work_and_text_entries_def indexed_def isWorkContent_def upt_rec)
  then obtain items where items: "buildAgentWorkItems (\<lambda>_. ''1'') example_work (msg_content example_work) False = Some items"
    by (simp add: buildAgentWorkItems_def Let_def)
  have "filter is_companion (msg_content example_work) = [ImageContent JNull]"
    by (simp add: example_work_def is_companion_def isWorkContent_def)
  moreover have "Reasoning ''late'' None \<in> set (expandReasoningContentSections (msg_content example_work))" by code_simp
  ultimately show ?thesis using agent_work_loses_nothing [OF items] items by (metis isReasoningContent.simps(3))
qed

section \<open>Every tool block\<close>

abbreviation tools :: "message_content list \<Rightarrow> message_content list" where
  "tools content \<equiv> filter isToolContent content"

lemma tools_marks: "tools content = concat (map (case_sum (\<lambda>b. [b]) (\<lambda>_. [])) (marks content))"
proof (induction content)
  case (Cons b bs)
  have "concat (map (case_sum (\<lambda>b. [b]) (\<lambda>_. [])) (map Inr cs)) = []" for cs :: "char list"
    by (induction cs) simp_all
  then have "concat (map (case_sum (\<lambda>b. [b]) (\<lambda>_. [])) (content_marks b)) = (if isToolContent b then [b] else [])"
    by (cases b) (simp_all add: content_marks_def)
  then show ?case using Cons by simp
qed simp

lemma tools_expanded: "tools (expandReasoningContentSections content) = tools content"
proof -
  have "marks (expandReasoningContentSections content) = marks content"
    by (induction content) (simp_all add: expandReasoningContentSections_def sections_marks)
  then show ?thesis by (simp add: tools_marks)
qed

lemma tools_not_repeated: "tools (filterDuplicateDisplayedReasoning content displayed) = tools content"
proof -
  have "getReasoningSignature b = Some s \<Longrightarrow> \<not> isToolContent b" for b s
    by (cases b) (simp_all add: getReasoningSignature_def)
  then show ?thesis unfolding filterDuplicateDisplayedReasoning_def
    by (induction content) (auto split: option.splits)
qed

lemma message_items_tools:
  "\<exists>items. message_items num m content isStreaming = Some items \<and> tools (concat (map item_blocks items)) = tools content"
proof (cases "buildAgentWorkItems num m content isStreaming")
  case (Some items)
  then show ?thesis using agent_work_keeps_marks [OF Some] by (simp add: message_items_def tools_marks)
next
  case None
  have whole: "tools (concat (map item_blocks [MessageItem (createMessageItem num m content isStreaming None)])) = tools content"
    by (simp add: item_blocks_def createMessageItem_def)
  show ?thesis
  proof (cases "isStreaming \<or> \<not> canProjectAssistantTextFragments m content")
    case True
    then show ?thesis using None whole by (simp add: message_items_def buildAssistantTextFragmentItems_def)
  next
    case False
    obtain t speech ann where c: "content = [TextContent t speech ann]"
      using False by (auto simp: canProjectAssistantTextFragments_def elim: only_text.elims)
    obtain r where r: "splitAssistantTextIntoChunks t = Some r" using splitting_returns by blast
    have frag: "tools (concat (map (item_blocks \<circ> FragmentItem) (map (\<lambda>(i, c). fragment_of num m content isStreaming k i c) xs))) = []"
      for k xs
      by (induction xs) (auto simp: item_blocks_def fragment_of_def Let_def c)
    show ?thesis
    proof (cases r)
      case None
      then show ?thesis using False r c whole \<open>buildAgentWorkItems num m content isStreaming = None\<close>
        by (simp add: message_items_def buildAssistantTextFragmentItems_def)
    next
      case (Some chunks)
      then show ?thesis using False r c \<open>buildAgentWorkItems num m content isStreaming = None\<close>
          frag [of "length chunks" "zip [0 ..< length chunks] chunks"]
        by (simp add: message_items_def buildAssistantTextFragmentItems_def comp_def)
    qed
  qed
qed

lemma project_message_tools:
  "\<exists>items ps'. project_message num cal px m ps = Some (items, ps') \<and>
    tools (concat (map item_blocks items)) = tools (getUserVisibleMessageContent (msg_content m))"
proof -
  define visible where "visible = expandReasoningContentSections (getUserVisibleMessageContent (msg_content m))"
  define content where "content = (if msg_role m = Assistant then filterDuplicateDisplayedReasoning visible (ps_displayed ps) else visible)"
  have tools: "tools content = tools (getUserVisibleMessageContent (msg_content m))"
    by (simp add: content_def visible_def tools_not_repeated tools_expanded)
  have dates: "tools (concat (map item_blocks (if b then [] else [DateItem d]))) = []" for b d
    by (simp add: item_blocks_def)
  show ?thesis
  proof (cases "msg_role m = User \<and> visible = []")
    case True
    then show ?thesis using tools by (simp add: project_message_def visible_def [symmetric] content_def)
  next
    case False
    obtain items where items: "message_items num m content (px_streamingMessageId px = Some (msg_id m)) = Some items"
        "tools (concat (map item_blocks items)) = tools content"
      using message_items_tools by blast
    then show ?thesis using False tools dates
      by (auto simp: project_message_def visible_def [symmetric] content_def [symmetric] Let_def)
  qed
qed

lemma project_messages_tools:
  "\<exists>items. project_messages num cal px ps ms = Some items \<and>
      tools (concat (map item_blocks items)) = tools (concat (map (getUserVisibleMessageContent \<circ> msg_content) ms))"
proof (induction ms arbitrary: ps)
case (Cons m ms)
  obtain items ps' where "project_message num cal px m ps = Some (items, ps')"
      "tools (concat (map item_blocks items)) = tools (getUserVisibleMessageContent (msg_content m))"
    using project_message_tools by blast
  moreover obtain rest where "project_messages num cal px ps' ms = Some rest"
      "tools (concat (map item_blocks rest)) = tools (concat (map (getUserVisibleMessageContent \<circ> msg_content) ms))"
    using Cons by blast
  ultimately show ?case by (simp add: comp_def)
qed simp

text \<open>
  C36. The projection of a transcript returns, whatever the messages are, and its items show every tool call
  and tool response that the visible messages have for the user, once each and in order: no short cut, no cutting
  into fragments or panels and no suppression of repeated thoughts drops one.
\<close>

theorem transcript_shows_all_tools:
  "\<exists>items. buildTranscriptItems num cal px = Some items \<and>
    filter isToolContent (concat (map item_blocks items)) =
      filter isToolContent (concat (map (getUserVisibleMessageContent \<circ> msg_content)
        (getVisibleTranscriptMessages (px_messages px))))"
using project_messages_tools by (simp add: buildTranscriptItems_def)

section \<open>Days\<close>

definition buckets :: "transcript_item list \<Rightarrow> string list" where
  \<comment> \<open>the days of the separators\<close>
  "buckets items = concat (map (\<lambda>i. case i of DateItem d \<Rightarrow> [dp_dateBucket (di_payload d)] | _ \<Rightarrow> []) items)"

lemma message_items_buckets: "message_items num m content isStreaming = Some items \<Longrightarrow> buckets items = []"
proof -
  have work: "i \<in> set items \<Longrightarrow> (case i of DateItem d \<Rightarrow> [dp_dateBucket (di_payload d)] | _ \<Rightarrow> []) = []"
    if "buildAgentWorkItems num m content isStreaming = Some items" for i items
    using agent_work_items [OF that]
    by (auto simp: agent_work_positions_def work_positioned_def companion_positioned_def Let_def split: if_splits)
  assume "message_items num m content isStreaming = Some items"
  then show ?thesis using work
    by (auto simp: message_items_def buckets_def split: option.splits)
qed

lemma project_message_buckets:
  assumes "project_message num cal px m ps = Some (items, ps')"
  shows "items = [] \<and> ps' = ps \<or>
    (\<exists>b. ps_previousDateBucket ps' = Some b \<and>
      (if ps_previousDateBucket ps = Some b then buckets items = []
       else buckets items = [b] \<and> (\<exists>d rest. items = DateItem d # rest)))"
proof (cases "msg_role m = User \<and> expandReasoningContentSections (getUserVisibleMessageContent (msg_content m)) = []")
  case True
  then show ?thesis using assms by (simp add: project_message_def)
next
  case False
  define b where "b = dr_dateBucket (getDateBucketRange cal (msg_created m) (ps_cachedRange ps))"
  define d where "d = date_separator cal px b m"
  have d: "dp_dateBucket (di_payload d) = b" by (simp add: d_def date_separator_def Let_def)
  have none: "buckets [] = []" by (simp add: buckets_def)
  have "\<exists>xs. items = (if ps_previousDateBucket ps = Some b then [] else [DateItem d]) @ xs \<and> buckets xs = [] \<and>
      ps_previousDateBucket ps' = Some b"
    using assms False none unfolding project_message_def Let_def b_def [symmetric] d_def [symmetric] if_not_P [OF False]
    by (cases "msg_role m = Assistant") (auto intro: message_items_buckets split: if_split_asm)
  then show ?thesis using d by (auto simp: buckets_def)
qed

definition some_list :: "'a option \<Rightarrow> 'a list" where
  "some_list x = (case x of None \<Rightarrow> [] | Some v \<Rightarrow> [v])"

lemma some_list_simps [simp]: "some_list None = []" "some_list (Some v) = [v]"
  by (simp_all add: some_list_def)

lemma buckets_append [simp]: "buckets (xs @ ys) = buckets xs @ buckets ys"
  by (simp add: buckets_def)

lemma project_messages_buckets:
  "project_messages num cal px ps ms = Some items \<Longrightarrow> distinct_adj (some_list (ps_previousDateBucket ps) @ buckets items) \<and>
    (ps_previousDateBucket ps = None \<longrightarrow> items = [] \<or> (\<exists>d rest. items = DateItem d # rest))"
proof (induction ms arbitrary: ps items)
  case Nil
  then show ?case by (cases "ps_previousDateBucket ps") (simp_all add: buckets_def)
next
  case (Cons m ms)
  obtain xs ps' rest where p: "project_message num cal px m ps = Some (xs, ps')" "project_messages num cal px ps' ms = Some rest"
      "items = xs @ rest"
    using Cons.prems by (auto split: option.splits)
  note IH = Cons.IH [OF p(2)]
  from project_message_buckets [OF p(1)] show ?case
  proof (elim disjE exE conjE)
    assume "xs = []" "ps' = ps"
    then show ?thesis using IH p(3) by simp
  next
    fix b
    assume b: "ps_previousDateBucket ps' = Some b" "if ps_previousDateBucket ps = Some b then buckets xs = []
       else buckets xs = [b] \<and> (\<exists>d rest. xs = DateItem d # rest)"
    then show ?thesis using IH p(3) by (cases "ps_previousDateBucket ps") (auto split: if_splits)
  qed
qed

text \<open>
  Days are separated: a transcript that shows anything begins with a date separator, and two separators
  that follow each other are of different days, so that no day is announced again while it lasts.
\<close>

theorem days_are_separated:
  assumes "buildTranscriptItems num cal px = Some items"
  shows "distinct_adj (buckets items) \<and> (items = [] \<or> (\<exists>d rest. items = DateItem d # rest))"
  using project_messages_buckets assms by (fastforce simp: buildTranscriptItems_def)

definition example_calendar :: calendar where
  \<comment> \<open>days of 100\<close>
  "example_calendar = \<lparr>day_of = (\<lambda>t. if t < 100 then \<lparr>dr_dateBucket = ''d1'', dr_startMs = 0, dr_endMs = 100\<rparr>
      else \<lparr>dr_dateBucket = ''d2'', dr_startMs = 100, dr_endMs = 200\<rparr>),
    previousBucket = (\<lambda>_. None)\<rparr>"

definition example_days :: projection_input where
  "example_days = \<lparr>px_messages = [createUserMessage ''u1'' 10 ''Hello'' None None,
      createUserMessage ''u2'' 20 ''Again'' None None, createUserMessage ''u3'' 110 ''Later'' None None],
    px_streamingMessageId = None, px_nowBucket = ''d2'', px_localeKey = ''en'', px_calendarRevisionToken = ''c''\<rparr>"

theorem days_are_separated_witness:
  "\<exists>items. buildTranscriptItems (\<lambda>_. ''1'') example_calendar example_days = Some items \<and> distinct_adj (buckets items)"
proof -
  obtain items where "buildTranscriptItems (\<lambda>_. ''1'') example_calendar example_days = Some items"
    using project_messages_tools unfolding buildTranscriptItems_def by blast
  with days_are_separated show ?thesis by blast
qed

section \<open>Row ids\<close>

lemma nat_string_10 [simp]: "nat_string 10 m = nat_string 10 n \<longleftrightarrow> m = n"
  by (rule nat_string_inj) simp_all

lemma fragment_rows:
  assumes "buildAssistantTextFragmentItems num m content isStreaming = Some (Some items)"
  shows "distinct (map fi_rowId items)"
proof -
  obtain chunks where items: "items = map (\<lambda>(i, c). fragment_of num m content isStreaming (length chunks) i c)
      (zip [0 ..< length chunks] chunks)"
    using assms by (auto simp: buildAssistantTextFragmentItems_def split: if_splits)
  have "map fi_rowId items = map (\<lambda>i. ''message:'' @ msg_id m @ '':'' @
      fragment_id (shouldUseStreamingFragmentIds m isStreaming) i (length chunks)) [0 ..< length chunks]"
    unfolding items by (rule nth_equalityI) (auto simp: fragment_of_def Let_def)
  moreover have "inj_on (\<lambda>i. fragment_id b i n) {0 ..< n}" for b n
    by (auto simp: inj_on_def fragment_id_def split: if_splits)
  ultimately show ?thesis by (simp add: distinct_map inj_on_def)
qed

definition companion_ids :: "(js_number \<Rightarrow> string) \<Rightarrow> message_content list \<Rightarrow> string list" where
  "companion_ids num content = map (getCompanionIdentity num) (filter is_companion content)"

lemma companions_suffixes:
  "distinct (map (getCompanionIdentity num) (filter is_companion (map fst es))) \<Longrightarrow>
    (\<And>b. b \<in> set (filter is_companion (map fst es)) \<Longrightarrow> counts (getCompanionIdentity num b) = 0) \<Longrightarrow>
    map snd (companions num counts es) = map (\<lambda>b. ''companion-'' @ getCompanionIdentity num b) (filter is_companion (map fst es))"
proof (induction es arbitrary: counts)
  case (Cons e es)
  show ?case
  proof (cases "is_companion (fst e)")
    case True
    let ?i = "getCompanionIdentity num (fst e)"
    have "map snd (companions num (counts(?i := 1)) es) =
        map (\<lambda>b. ''companion-'' @ getCompanionIdentity num b) (filter is_companion (map fst es))"
    proof (rule Cons.IH)
      show "distinct (map (getCompanionIdentity num) (filter is_companion (map fst es)))" using Cons.prems(1) True by simp
      fix b
      assume b: "b \<in> set (filter is_companion (map fst es))"
      moreover have "?i \<notin> getCompanionIdentity num ` set (filter is_companion (map fst es))" using Cons.prems(1) True by simp
      ultimately have "getCompanionIdentity num b \<noteq> ?i" by (metis image_eqI)
      moreover have "counts (getCompanionIdentity num b) = 0" using b by (intro Cons.prems(2)) auto
      ultimately show "(counts(?i := 1)) (getCompanionIdentity num b) = 0" by simp
    qed
    moreover have "\<not> isWorkContent (fst e)" "\<not> isTextContent (fst e)" using True by (simp_all add: is_companion_def)
    ultimately show ?thesis using True Cons.prems(2) [of "fst e"] by (simp add: Let_def)
  next
    case False
    then have "companions num counts (e # es) = companions num counts es" by (auto simp: is_companion_def)
    then show ?thesis using Cons False by simp
  qed
qed simp

lemma agent_work_rows:
  assumes "buildAgentWorkItems num m content isStreaming = Some items" "distinct (companion_ids num content)"
  shows "distinct (map item_rowId items)"
proof -
  let ?row = "\<lambda>suffix. ''message:'' @ msg_id m @ '':'' @ suffix"
  have work: "map (item_rowId \<circ> snd) (work_positioned num m isStreaming fai answered gs) =
      map (\<lambda>j. ?row (if length gs = 1 then ''agent-work'' else ''agent-work-'' @ nat_string 10 j)) [0 ..< length gs]" for fai answered gs
    by (rule nth_equalityI) (auto simp: work_positioned_def Let_def buildAgentWorkItem_def)
  have msg: "mi_rowId (buildMessageItemForContent num m c isStreaming suffix start preserve) = ?row suffix"
    for c suffix start preserve
    by (simp add: buildMessageItemForContent_def createMessageItem_def)
  have "map (item_rowId \<circ> snd) (companion_positioned num m isStreaming (indexed content)) =
      map ?row (map snd (companions num (\<lambda>_. 0) (indexed content)))"
    unfolding companion_positioned_def map_map by (rule map_cong) (auto simp: msg)
  also have "map snd (companions num (\<lambda>_. 0) (indexed content)) = map ((@) ''companion-'') (companion_ids num content)"
    using assms(2) companions_suffixes [of num "indexed content" "\<lambda>_. 0"] by (simp add: indexed_blocks companion_ids_def)
  finally have C: "map (item_rowId \<circ> snd) (companion_positioned num m isStreaming (indexed content)) =
      map (\<lambda>i. ?row (''companion-'' @ i)) (companion_ids num content)" by (simp add: comp_def)
  have "distinct (map (item_rowId \<circ> snd) (agent_work_positions num m content isStreaming))"
    using assms(2) unfolding agent_work_positions_def Let_def map_append work C
    by (auto simp: distinct_map inj_on_def msg split: if_splits)
  then have "distinct (map item_rowId (map snd (agent_work_positions num m content isStreaming)))" by simp
  moreover have "mset (map item_rowId items) = mset (map item_rowId (map snd (agent_work_positions num m content isStreaming)))"
    using agent_work_items [OF assms(1)] by (simp add: mset_map)
  ultimately show ?thesis by (metis mset_eq_imp_distinct_iff)
qed

text \<open>
  C37. The rows of a message have different ids: when no two of the blocks beside its text and work have the
  same identity, then all items into which the message is cut, panels, answer, blocks or fragments, have
  different row ids.
\<close>

theorem rows_of_message_differ:
  assumes "message_items num m content isStreaming = Some items" "distinct (companion_ids num content)"
  shows "distinct (map item_rowId items)"
proof (cases "buildAgentWorkItems num m content isStreaming")
  case (Some items')
  then show ?thesis using agent_work_rows assms by (simp add: message_items_def)
next
  case None
  then show ?thesis using assms(1) fragment_rows
    by (auto simp: message_items_def comp_def split: option.splits)
qed

theorem rows_of_message_differ_witness:
  "\<exists>items. message_items (\<lambda>_. ''1'') example_work (msg_content example_work) False = Some items \<and>
    distinct (map item_rowId items)"
proof -
  obtain items where "message_items (\<lambda>_. ''1'') example_work (msg_content example_work) False = Some items"
    using message_items_tools by blast
  moreover have "distinct (companion_ids (\<lambda>_. ''1'') (msg_content example_work))"
    by (simp add: companion_ids_def example_work_def is_companion_def isWorkContent_def)
  ultimately show ?thesis using rows_of_message_differ by blast
qed

text \<open>
  The identity must not repeat: the number that tells a repeated block apart can itself be the end of another
  block's id, so that three blocks get two different suffixes.
\<close>

lemma repeated_companions_collide:
  "map snd (companions (\<lambda>_. []) (\<lambda>_. 0) [(McpApp ''a'' p, 0), (McpApp ''a'' p, 1), (McpApp ''a-1'' p, 2)]) =
    [''companion-mcpApp-a'', ''companion-mcpApp-a-1'', ''companion-mcpApp-a-1'']"
proof -
  have "nat_string 10 1 = ''1''" by code_simp
  then show ?thesis
    by (simp add: getCompanionIdentity_def content_type_def content_id_def encodeURIComponent_def uri_char_def
        is_letter_def is_digit_def isWorkContent_def Let_def)
qed

end
