(* ===== verification/RevisionProperties.thy ===== *)
theory RevisionProperties
  imports MessageRevisions "HOL-Library.Multiset"
begin

text \<open>
  The text of a value does not depend on the order in which its objects list their keys, so that two
  messages with the same values have the same revisions.
\<close>

lemma units_le_refl [simp]: "units_le xs xs"
  by (induction xs) auto

lemma units_le_antisym: "units_le xs ys \<Longrightarrow> units_le ys xs \<Longrightarrow> xs = ys"
  by (induction xs ys rule: units_le.induct) (auto elim: units_le.elims)

lemma units_le_total: "units_le xs ys \<or> units_le ys xs"
  by (induction xs ys rule: units_le.induct) auto

lemma units_le_trans: "units_le xs ys \<Longrightarrow> units_le ys zs \<Longrightarrow> units_le xs zs"
proof (induction xs ys arbitrary: zs rule: units_le.induct)
  case (3 x xs y ys)
  then show ?case by (cases zs) auto
qed auto

definition key_le :: "string \<times> 'v \<Rightarrow> string \<times> 'v \<Rightarrow> bool" where
  "key_le p q \<longleftrightarrow> units_le (code_units (fst p)) (code_units (fst q))"

lemma code_units_inj: "code_units s = code_units t \<longleftrightarrow> s = t"
  by (simp add: code_units_def inj_map_eq_map inj_def)

lemma key_le_antisym: "key_le p q \<Longrightarrow> key_le q p \<Longrightarrow> fst p = fst q"
  by (auto simp: key_le_def code_units_inj dest: units_le_antisym)

lemma insert_key_mset [simp]: "mset (insert_key p qs) = add_mset p (mset qs)"
  by (induction qs) auto

lemma sort_keys_mset [simp]: "mset (sort_keys ps) = mset ps"
  by (induction ps) (auto simp: sort_keys_def)

lemma insert_key_sorted: "sorted_wrt key_le qs \<Longrightarrow> sorted_wrt key_le (insert_key p qs)"
proof (induction qs)
  case (Cons q qs)
  have set: "set (insert_key p qs) = insert p (set qs)" by (metis insert_key_mset set_mset_add_mset_insert set_mset_mset)
  have "key_le p q \<Longrightarrow> r \<in> set qs \<Longrightarrow> key_le p r" for r
    using Cons.prems by (auto simp: key_le_def intro: units_le_trans)
  moreover have "\<not> key_le p q \<Longrightarrow> key_le q p" using units_le_total by (auto simp: key_le_def)
  ultimately show ?case using Cons set by (auto simp: key_le_def [symmetric])
qed simp

lemma sort_keys_sorted: "sorted_wrt key_le (sort_keys ps)"
  by (induction ps) (simp_all add: sort_keys_def insert_key_sorted)

lemma sorted_keys_unique:
  "sorted_wrt key_le xs \<Longrightarrow> sorted_wrt key_le ys \<Longrightarrow> mset xs = mset ys \<Longrightarrow> distinct (map fst xs) \<Longrightarrow> xs = ys"
proof (induction xs arbitrary: ys)
  case (Cons x xs)
  then obtain y ys' where ys: "ys = y # ys'" by (cases ys) auto
  have sets: "insert x (set xs) = insert y (set ys')" using Cons.prems(3) ys by (metis list.set(2) set_mset_mset)
  have "x = y"
  proof (rule ccontr)
    assume "x \<noteq> y"
    then have "x \<in> set ys'" "y \<in> set xs" using sets by auto
    then have "key_le x y" "key_le y x" using Cons.prems ys by auto
    then have "fst x = fst y" by (rule key_le_antisym)
    with \<open>y \<in> set xs\<close> Cons.prems(4) show False by (auto simp: image_iff)
  qed
  then show ?case using Cons ys by simp
qed simp

lemma sort_keys_cong:
  assumes "mset ps = mset qs" "distinct (map fst ps)"
  shows "sort_keys ps = sort_keys qs"
proof (rule sorted_keys_unique [OF sort_keys_sorted sort_keys_sorted])
  have "mset (map fst (sort_keys ps)) = mset (map fst ps)" by (simp only: mset_map sort_keys_mset)
  then show "distinct (map fst (sort_keys ps))" using assms(2) by (metis mset_eq_imp_distinct_iff)
qed (simp add: assms)

text \<open>The same value, up to the order of the keys of its objects.\<close>

inductive same_json :: "json \<Rightarrow> json \<Rightarrow> bool" where
  same: "same_json v v"
| arrays: "list_all2 same_json vs ws \<Longrightarrow> same_json (JArr vs) (JArr ws)"
| objects: "list_all2 (\<lambda>p q. fst p = fst q \<and> same_json (snd p) (snd q)) fs gs \<Longrightarrow> distinct (map fst fs) \<Longrightarrow>
    mset gs = mset hs \<Longrightarrow> same_json (JObj fs) (JObj hs)"

lemma same_json_text: "same_json v w \<Longrightarrow> stableStringify num v = stableStringify num w"
proof (induction rule: same_json.induct)
  case (arrays vs ws)
  then have "map (stableStringify num) vs = map (stableStringify num) ws"
    by (auto simp: list_all2_conv_all_nth intro!: nth_equalityI)
  then show ?case by simp
next
  case (objects fs gs hs)
  let ?text = "\<lambda>(k, v). (k, stableStringify num v)"
  have eq: "map ?text fs = map ?text gs" and keys: "map fst fs = map fst gs"
    using objects(1) by (auto simp: list_all2_conv_all_nth split_beta intro!: nth_equalityI)
  have "mset (map ?text gs) = mset (map ?text hs)" using objects(3) by simp
  moreover have "map fst (map ?text gs) = map fst gs" by auto
  then have "distinct (map fst (map ?text gs))" using objects(2) keys by (simp only:)
  ultimately have "sort_keys (map ?text gs) = sort_keys (map ?text hs)" by (rule sort_keys_cong)
  then show ?case using eq by (simp add: object_text_def)
qed simp

lemma same_json_revision: "same_json v w \<Longrightarrow> stableValueRevision num v = stableValueRevision num w"
proof -
  assume s: "same_json v w"
  have "v = JArr [] \<longleftrightarrow> w = JArr []" using s by (auto elim: same_json.cases)
  with same_json_text [OF s] show ?thesis by (simp add: stableValueRevision_def)
qed

text \<open>
  C39. A tool call whose arguments come again with their keys in another order, at any depth, does not change
  the revisions of the message: both its render revision and its height revision stay what they are, wherever
  the call stands in it. (Whether a row is rendered again also depends on the identity of its message and
  blocks, which is not modelled.)
\<close>

theorem revisions_ignore_key_order:
  assumes "same_json (treq_arguments t) args"
  shows "buildMessageRevisions num m (before @ ToolRequest (t\<lparr>treq_arguments := args\<rparr>) # after) =
    buildMessageRevisions num m (before @ ToolRequest t # after)"
proof -
  have "buildSingleContentRevisionParts num (ToolRequest (t\<lparr>treq_arguments := args\<rparr>)) =
      buildSingleContentRevisionParts num (ToolRequest t)"
    using same_json_revision [OF assms, of num]
    by (simp add: buildSingleContentRevisionParts_def buildContentRenderRevision_def buildContentHeightRevision_def
        toolRequestRenderRevision_def toolRequestHeightRevision_def tool_request_parts_def chainSummary_revision_def)
  then show ?thesis
    by (simp add: buildMessageRevisions_general content_message_revisions_def buildContentRevisionParts_def)
qed

definition example_call :: tool_request_content where
  "example_call = \<lparr>treq_id = ''t'', treq_name = ''read'', treq_toolName = None, treq_extensionName = None,
    treq_arguments = JObj [(''path'', JStr ''a''), (''limits'', JObj [(''to'', JNull), (''from'', JNull)])],
    treq_status = ToolCompleted, treq_toolKind = None, treq_locations = None, treq_startedAt = None, treq_annotations = None,
    treq_chainSummary = None, treq_subagentAgentName = None, treq_subagentTaskLabel = None,
    treq_subagentTaskIsConfigured = None\<rparr>"

definition example_arguments :: json where
  "example_arguments = JObj [(''limits'', JObj [(''from'', JNull), (''to'', JNull)]), (''path'', JStr ''a'')]"

definition example_caller :: message where
  "example_caller = \<lparr>msg_id = ''m'', msg_role = Assistant, msg_created = 1,
    msg_content = [ToolRequest example_call], msg_metadata = None\<rparr>"

theorem revisions_ignore_key_order_witness:
  "buildMessageRevisions (\<lambda>_. ''1'') example_caller
      ([] @ ToolRequest (example_call\<lparr>treq_arguments := example_arguments\<rparr>) # []) =
    buildMessageRevisions (\<lambda>_. ''1'') example_caller ([] @ ToolRequest example_call # [])"
proof (rule revisions_ignore_key_order)
  have "same_json (JObj [(''to'', JNull), (''from'', JNull)]) (JObj [(''from'', JNull), (''to'', JNull)])"
    by (rule same_json.objects [of _ "[(''to'', JNull), (''from'', JNull)]"]) (auto intro: same_json.same)
  then show "same_json (treq_arguments example_call) example_arguments"
    unfolding example_call_def example_arguments_def tool_request_content.simps
    by (intro same_json.objects [of _ "[(''path'', JStr ''a''), (''limits'', JObj [(''from'', JNull), (''to'', JNull)])]"])
      (auto intro: same_json.same)
qed

end
