(* ===== verification/PathIdentity.thy ===== *)
theory PathIdentity
  imports JsStrings
begin

text \<open>
  Filesystem paths as the client compares them (\<open>src/src/shared/lib/pathIdentity.ts\<close>):
  the display form, the identity key, containment, relative paths, and paths of \<open>file:\<close>
  URLs. The regular expressions are written out as the tests and splits they stand for. The
  platform is an argument; so are the URL parser and \<open>decodeURIComponent\<close>, which belong to
  the browser.
\<close>

section \<open>Characters and patterns\<close>

datatype platform = Mac | Windows | Linux

abbreviation slash :: char where
  "slash \<equiv> CHR ''/''"

definition backslash :: char where
  "backslash = CHR 0x5C"

definition colon :: char where
  "colon = CHR '':''"

definition is_separator :: "char \<Rightarrow> bool" where
  \<comment> \<open>\<open>[\\/]\<close>\<close>
  "is_separator c \<longleftrightarrow> c = slash \<or> c = backslash"

definition dots :: "string list" where
  "dots = [''.'', ''..'']"

definition hasControlCharacter :: "string \<Rightarrow> bool" where
  "hasControlCharacter value \<longleftrightarrow>
     list_ex (\<lambda>c. of_char c \<le> (31 :: nat) \<or> of_char c = (127 :: nat)) value"

definition normalizePathSeparators :: "string \<Rightarrow> string" where
  "normalizePathSeparators path = map (\<lambda>c. if c = backslash then slash else c) path"

fun hasWindowsDriveRoot :: "string \<Rightarrow> bool" where
  \<comment> \<open>\<open>/^[a-zA-Z]:[\\/]/\<close>\<close>
  "hasWindowsDriveRoot (a # b # c # s) \<longleftrightarrow> is_letter a \<and> b = colon \<and> is_separator c"
| "hasWindowsDriveRoot _ = False"

definition unc_name :: "string \<Rightarrow> string" where
  \<comment> \<open>the longest match of \<open>[^\\/]+\<close>\<close>
  "unc_name s = takeWhile (\<lambda>c. \<not> is_separator c) s"

fun hasWindowsUncRoot :: "string \<Rightarrow> bool" where
  \<comment> \<open>two equal separators, a host and a share, neither of them a dot name\<close>
  "hasWindowsUncRoot (a # b # s) \<longleftrightarrow>
     is_separator a \<and> a = b \<and> unc_name s \<noteq> [] \<and> unc_name s \<notin> set dots \<and>
     (case drop (length (unc_name s)) s of
        [] \<Rightarrow> False
      | c # r \<Rightarrow> unc_name r \<noteq> [] \<and> unc_name r \<notin> set dots)"
| "hasWindowsUncRoot _ = False"

fun windows_drive_root :: "string \<Rightarrow> bool" where
  \<comment> \<open>\<open>/^[a-zA-Z]:\/$/\<close>\<close>
  "windows_drive_root [a, b, c] \<longleftrightarrow> is_letter a \<and> b = colon \<and> c = slash"
| "windows_drive_root _ = False"

fun drive_prefix :: "string \<Rightarrow> bool" where
  \<comment> \<open>\<open>/^[a-zA-Z]:$/\<close>\<close>
  "drive_prefix [a, b] \<longleftrightarrow> is_letter a \<and> b = colon"
| "drive_prefix _ = False"

definition strip_slashes :: "string \<Rightarrow> string" where
  \<comment> \<open>\<open>replace(/\/+$/, "")\<close>\<close>
  "strip_slashes s = rev (dropWhile (\<lambda>c. c = slash) (rev s))"

definition removeTrailingSeparators :: "string \<Rightarrow> string" where
  "removeTrailingSeparators path =
    (if path = [slash] \<or> windows_drive_root path then path else strip_slashes path)"

section \<open>Roots and the lexical form\<close>

definition unc_split :: "string \<Rightarrow> (string \<times> string \<times> string) option" where
  \<comment> \<open>\<open>/^\/\/([^/]+)\/([^/]+)(?:\/(.*))?$/\<close>: host, share, rest\<close>
  "unc_split path =
    (case path of
       a # b # s \<Rightarrow>
         (case js_split slash s of
            host # share # rest \<Rightarrow>
              if a = slash \<and> b = slash \<and> host \<noteq> [] \<and> share \<noteq> [] \<and> one_line (js_join [slash] rest)
              then Some (host, share, js_join [slash] rest) else None
          | _ \<Rightarrow> None)
     | _ \<Rightarrow> None)"

definition other_root :: "string \<Rightarrow> string \<times> string" where
  \<comment> \<open>a path that is not on a drive\<close>
  "other_root path =
    (case unc_split path of
       Some (host, share, rest) \<Rightarrow>
         if host \<noteq> ''.'' \<and> share \<noteq> ''..''
         then ([slash, slash] @ host @ [slash] @ share, rest)
         else ([slash], drop 1 path)
     | None \<Rightarrow>
         (case path of c # r \<Rightarrow> if c = slash then ([slash], r) else ([], path) | [] \<Rightarrow> ([], [])))"

fun filesystemRoot :: "string \<Rightarrow> string \<times> string" where
  \<comment> \<open>prefix and remainder\<close>
  "filesystemRoot (a # b # r) =
    (if is_letter a \<and> b = colon \<and> r \<noteq> [] \<and> hd r = slash \<and> one_line (tl r)
     then ([a, b, slash], tl r)
     else if is_letter a \<and> b = colon \<and> (r = [] \<or> hd r \<noteq> slash) \<and> one_line r
     then ([a, b], r)
     else other_root (a # b # r))"
| "filesystemRoot path = other_root path"

definition ends_with_slash :: "string \<Rightarrow> bool" where
  "ends_with_slash s \<longleftrightarrow> s \<noteq> [] \<and> last s = slash"

definition clamps_parent :: "string \<Rightarrow> bool" where
  \<comment> \<open>\<open>clampsParentTraversal\<close>\<close>
  "clamps_parent prefix \<longleftrightarrow>
     prefix = [slash] \<or> ends_with_slash prefix \<or> take 2 prefix = [slash, slash]"

fun resolve_segments :: "bool \<Rightarrow> string list \<Rightarrow> string list \<Rightarrow> string list" where
  \<comment> \<open>the loop over \<open>remainder.split("/")\<close>; the second list is \<open>segments\<close>\<close>
  "resolve_segments clamps [] segments = segments"
| "resolve_segments clamps (segment # rest) segments =
    (if segment = [] \<or> segment = ''.'' then resolve_segments clamps rest segments
     else if segment = ''..'' then
       (if segments \<noteq> [] \<and> last segments \<noteq> ''..''
        then resolve_segments clamps rest (butlast segments)
        else if \<not> clamps then resolve_segments clamps rest (segments @ [segment])
        else resolve_segments clamps rest segments)
     else resolve_segments clamps rest (segments @ [segment]))"

definition path_parts :: "string \<Rightarrow> string \<times> string list" where
  \<comment> \<open>the prefix and the resolved segments\<close>
  "path_parts path =
    (let (prefix, remainder) = filesystemRoot (removeTrailingSeparators (normalizePathSeparators path))
     in (prefix, resolve_segments (clamps_parent prefix) (js_split slash remainder) []))"

definition render_path :: "string \<Rightarrow> string list \<Rightarrow> string" where
  "render_path prefix segments =
    (if prefix = [] then js_join [slash] segments
     else if prefix = [slash] then (if segments \<noteq> [] then slash # js_join [slash] segments else [slash])
     else if ends_with_slash prefix \<or> drive_prefix prefix
     then (if segments \<noteq> [] then prefix @ js_join [slash] segments else prefix)
     else (if segments \<noteq> [] then prefix @ [slash] @ js_join [slash] segments else prefix))"

definition normalizeLexicalPath :: "string \<Rightarrow> string" where
  "normalizeLexicalPath path = (let (prefix, segments) = path_parts path in render_path prefix segments)"

definition toComparablePath :: "string \<Rightarrow> string" where
  "toComparablePath path = normalizeLexicalPath path"

section \<open>Identity and containment\<close>

definition isWindowsPath :: "string \<Rightarrow> bool" where
  "isWindowsPath path \<longleftrightarrow>
    (let t = js_trim path in hasWindowsDriveRoot t \<or> hasWindowsUncRoot t)"

definition toIdentityKey :: "string \<Rightarrow> platform \<Rightarrow> string" where
  "toIdentityKey path platform =
    (let comparable = toComparablePath path in
     if isWindowsPath path \<or> platform = Mac then js_lower comparable else comparable)"

definition isSamePath :: "string option \<Rightarrow> string option \<Rightarrow> platform \<Rightarrow> bool" where
  "isSamePath a b platform \<longleftrightarrow>
     truthy a \<and> truthy b \<and> toIdentityKey (the a) platform = toIdentityKey (the b) platform"

record identity_path =
  ip_root :: string
  ip_segments :: "string list"
  ip_windows :: bool
  ip_caseInsensitive :: bool

definition splitIdentityPath :: "string \<Rightarrow> platform \<Rightarrow> identity_path" where
  "splitIdentityPath path platform =
    (let (prefix, remainder) = filesystemRoot (toComparablePath path);
         windows = isWindowsPath path in
     \<lparr>ip_root = prefix,
      ip_segments = (if remainder \<noteq> [] then js_split slash remainder else []),
      ip_windows = windows, ip_caseInsensitive = windows \<or> platform = Mac\<rparr>)"

definition identitySegment :: "string \<Rightarrow> bool \<Rightarrow> string" where
  "identitySegment value caseInsensitive = (if caseInsensitive then js_lower value else value)"

definition same_segments :: "identity_path \<Rightarrow> identity_path \<Rightarrow> bool" where
  \<comment> \<open>the segments of the first are, each under its own folding, those the second starts with\<close>
  "same_segments base target \<longleftrightarrow>
     (\<forall>i < length (ip_segments base).
        identitySegment (ip_segments base ! i) (ip_caseInsensitive base) =
        identitySegment (ip_segments target ! i) (ip_caseInsensitive target))"

definition contained :: "identity_path \<Rightarrow> identity_path \<Rightarrow> bool" where
  "contained base target \<longleftrightarrow>
     ip_windows base = ip_windows target \<and>
     identitySegment (ip_root base) (ip_caseInsensitive base) =
       identitySegment (ip_root target) (ip_caseInsensitive target) \<and>
     \<not> length (ip_segments target) < length (ip_segments base) \<and> same_segments base target"

definition isPathWithin :: "string option \<Rightarrow> string option \<Rightarrow> platform \<Rightarrow> bool" where
  "isPathWithin base target platform \<longleftrightarrow>
     truthy base \<and> truthy target \<and>
     contained (splitIdentityPath (the base) platform) (splitIdentityPath (the target) platform)"

definition getRelativePath :: "string \<Rightarrow> string option \<Rightarrow> platform \<Rightarrow> string option" where
  "getRelativePath path rootPath platform =
    (if \<not> truthy rootPath then None
     else
       let target = splitIdentityPath path platform; base = splitIdentityPath (the rootPath) platform in
       if \<not> contained base target then None
       else Some (js_join [slash] (drop (length (ip_segments base)) (ip_segments target))))"

definition getPathBasename :: "string \<Rightarrow> string" where
  "getPathBasename path =
    (let comparable = toComparablePath path in
     if comparable = [slash] \<or> windows_drive_root comparable then comparable
     else
       case find_last_index (\<lambda>c. c = slash) comparable of
         None \<Rightarrow> comparable
       | Some i \<Rightarrow> drop (i + 1) comparable)"

section \<open>File URLs\<close>

record url =
  url_protocol :: string
  url_username :: string
  url_password :: string
  url_port :: string
  url_search :: string
  url_hash :: string
  url_pathname :: string
  url_hostname :: string

definition isFileUrl :: "string option \<Rightarrow> bool" where
  "isFileUrl input =
    (case input of None \<Rightarrow> False
     | Some s \<Rightarrow> js_lower (take 5 (js_trim s)) = ''file:'')"

definition absolute_file_url :: "string \<Rightarrow> bool" where
  \<comment> \<open>\<open>/^file:(?:\/|[a-zA-Z]:[\\/])/i\<close>\<close>
  "absolute_file_url s \<longleftrightarrow>
     js_lower (take 5 s) = ''file:'' \<and>
     ((drop 5 s \<noteq> [] \<and> s ! 5 = slash) \<or> hasWindowsDriveRoot (drop 5 s))"

fun encoded_separator :: "string \<Rightarrow> bool" where
  \<comment> \<open>\<open>/%(?:2f|5c)/i\<close>\<close>
  "encoded_separator (a # s) \<longleftrightarrow>
     (a = CHR ''%'' \<and> js_lower (take 2 s) \<in> {''2f'', ''5c''}) \<or> encoded_separator s"
| "encoded_separator [] = False"

definition drive_pathname :: "string \<Rightarrow> string option" where
  \<comment> \<open>\<open>/^\/([A-Za-z]:)(\/.*)?$/\<close>: the path without its first slash\<close>
  "drive_pathname p =
    (case p of
       a # b # c # r \<Rightarrow>
         if a = slash \<and> is_letter b \<and> c = colon \<and> (r = [] \<or> (hd r = slash \<and> one_line (tl r)))
         then Some (b # c # r) else None
     | _ \<Rightarrow> None)"

definition fileUrlToPath ::
  "(string \<Rightarrow> url option) \<Rightarrow> (string \<Rightarrow> string option) \<Rightarrow> string option \<Rightarrow> string option" where
  "fileUrlToPath parse_url decodeURIComponent input =
    (case input of
       None \<Rightarrow> None
     | Some s \<Rightarrow>
         let t = js_trim s in
         if \<not> isFileUrl (Some t) \<or> \<not> absolute_file_url t \<or> hasControlCharacter t then None
         else
           (case parse_url t of
              None \<Rightarrow> None
            | Some u \<Rightarrow>
                if url_protocol u \<noteq> ''file:'' \<or> url_username u \<noteq> [] \<or> url_password u \<noteq> [] \<or>
                   url_port u \<noteq> [] \<or> url_search u \<noteq> [] \<or> url_hash u \<noteq> [] \<or>
                   encoded_separator (url_pathname u) then None
                else
                  (case decodeURIComponent (url_pathname u) of
                     None \<Rightarrow> None
                   | Some pathname \<Rightarrow>
                       if hasControlCharacter pathname then None
                       else
                         let host = url_hostname u in
                         if host \<noteq> [] \<and> host \<noteq> ''localhost''
                         then Some ([slash, slash] @ host @ pathname)
                         else
                           (case drive_pathname pathname of
                              Some p \<Rightarrow> Some p
                            | None \<Rightarrow> Some pathname))))"

section \<open>Resolved segments\<close>

fun ups_first :: "string list \<Rightarrow> bool" where
  \<comment> \<open>parent segments only at the front\<close>
  "ups_first [] = True"
| "ups_first (s # ss) \<longleftrightarrow> (if s = ''..'' then ups_first ss else ''..'' \<notin> set ss)"

definition resolved :: "bool \<Rightarrow> string list \<Rightarrow> bool" where
  "resolved clamps ss \<longleftrightarrow>
     (\<forall>s\<in>set ss. s \<noteq> [] \<and> s \<noteq> ''.'') \<and> (clamps \<longrightarrow> ''..'' \<notin> set ss) \<and> ups_first ss"

lemma ups_first_no: "''..'' \<notin> set ss \<Longrightarrow> ups_first ss"
  by (cases ss) auto

lemma ups_first_butlast: "ups_first ss \<Longrightarrow> ups_first (butlast ss)"
  by (induction ss rule: ups_first.induct) (auto dest: in_set_butlastD)

lemma ups_first_snoc: "ups_first ss \<Longrightarrow> s \<noteq> ''..'' \<Longrightarrow> ups_first (ss @ [s])"
  by (induction ss rule: ups_first.induct) auto

lemma ups_first_snoc_up: "ups_first ss \<Longrightarrow> ss = [] \<or> last ss = ''..'' \<Longrightarrow> ups_first (ss @ [''..''])"
proof (induction ss rule: ups_first.induct)
  case (2 s ss)
  show ?case
  proof (cases "s = ''..''")
    case True
    then show ?thesis using 2 by (cases "ss = []") simp_all
  next
    case False
    then have no: "''..'' \<notin> set ss" and l: "last (s # ss) = ''..''" using 2(2,3) by simp_all
    then have "ss = []" using last_in_set [of ss] by (metis last_ConsR)
    then show ?thesis using l False by simp
  qed
qed simp

lemma ups_first_prefix: "ups_first (ss @ ''..'' # ts) \<Longrightarrow> ss = [] \<or> last ss = ''..''"
  by (induction ss rule: ups_first.induct) (auto split: if_splits)

lemma resolved_snoc:
  "resolved clamps ss \<Longrightarrow> s \<noteq> [] \<Longrightarrow> s \<noteq> ''.'' \<Longrightarrow> s \<noteq> ''..'' \<Longrightarrow> resolved clamps (ss @ [s])"
  by (simp add: resolved_def ups_first_snoc ball_Un)

lemma resolved_snoc_up:
  "resolved False ss \<Longrightarrow> ss = [] \<or> last ss = ''..'' \<Longrightarrow> resolved False (ss @ [''..''])"
  using ups_first_snoc_up [of ss] by (simp add: resolved_def ball_Un)

lemma resolved_butlast: "resolved clamps ss \<Longrightarrow> resolved clamps (butlast ss)"
  unfolding resolved_def using ups_first_butlast [of ss] in_set_butlastD [of _ ss] by blast

lemma resolve_resolved:
  "resolved clamps segments \<Longrightarrow> resolved clamps (resolve_segments clamps ss segments)"
proof (induction clamps ss segments rule: resolve_segments.induct)
  case (2 clamps segment rest segments)
  consider "segment = [] \<or> segment = ''.''"
    | "segment = ''..''" "segments \<noteq> [] \<and> last segments \<noteq> ''..''"
    | "segment = ''..''" "segments = [] \<or> last segments = ''..''"
    | "segment \<noteq> []" "segment \<noteq> ''.''" "segment \<noteq> ''..''" by blast
  then show ?case
  proof cases
    case 1
    then show ?thesis using "2.IH"(1) "2.prems" by auto
  next
    case 2
    then show ?thesis using "2.IH"(2) resolved_butlast [OF "2.prems"] by auto
  next
    case 3
    then have up: "\<not> clamps \<Longrightarrow> resolved clamps (segments @ [''..''])"
      using "2.prems" resolved_snoc_up [of segments] by simp
    show ?thesis
    proof (cases clamps)
      case True
      then show ?thesis using 3 "2.IH"(4) "2.prems" by auto
    next
      case False
      then show ?thesis using 3 "2.IH"(3) up by auto
    qed
  next
    case 4
    then show ?thesis using "2.IH"(5) resolved_snoc [OF "2.prems" 4] by auto
  qed
qed simp

lemma set_butlast_subset: "set (butlast xs) \<subseteq> set xs"
  by (auto dest: in_set_butlastD)

lemma resolve_step:
  "\<exists>segments'. resolve_segments clamps (s # ss) segments = resolve_segments clamps ss segments' \<and>
     set segments' \<subseteq> insert s (set segments)"
proof (cases "resolve_segments clamps (s # ss) segments = resolve_segments clamps ss (butlast segments)")
  case True
  then show ?thesis using set_butlast_subset [of segments] by (intro exI [of _ "butlast segments"]) auto
next
  case False
  show ?thesis
  proof (cases "resolve_segments clamps (s # ss) segments = resolve_segments clamps ss segments")
    case True
    then show ?thesis by (intro exI [of _ segments]) auto
  next
    case F: False
    with False have "resolve_segments clamps (s # ss) segments = resolve_segments clamps ss (segments @ [s])"
      by (simp split: if_splits)
    then show ?thesis by (intro exI [of _ "segments @ [s]"]) simp
  qed
qed

lemma resolve_set: "set (resolve_segments clamps ss segments) \<subseteq> set ss \<union> set segments"
proof (induction ss arbitrary: segments)
  case (Cons s ss)
  obtain segments' where "resolve_segments clamps (s # ss) segments = resolve_segments clamps ss segments'"
    "set segments' \<subseteq> insert s (set segments)"
    using resolve_step [of clamps s ss segments] by blast
  then show ?case using Cons.IH [of segments'] by auto
qed simp

lemma resolve_id:
  "resolved clamps (segments @ ss) \<Longrightarrow> resolve_segments clamps ss segments = segments @ ss"
proof (induction ss arbitrary: segments)
  case (Cons s ss)
  have ok: "s \<noteq> []" "s \<noteq> ''.''" "clamps \<longrightarrow> s \<noteq> ''..''"
    using Cons.prems by (auto simp: resolved_def)
  have "resolve_segments clamps ss (segments @ [s]) = segments @ s # ss"
    using Cons.IH [of "segments @ [s]"] Cons.prems by simp
  moreover have "s = ''..'' \<Longrightarrow> segments = [] \<or> last segments = ''..''"
    using Cons.prems ups_first_prefix [of segments ss] by (auto simp: resolved_def)
  ultimately show ?case using ok by auto
qed simp

section \<open>Parsing a rendered path again\<close>

definition plain :: "string list \<Rightarrow> bool" where
  \<comment> \<open>segments that can be joined and split again\<close>
  "plain ss \<longleftrightarrow> (\<forall>s\<in>set ss. s \<noteq> [] \<and> slash \<notin> set s \<and> backslash \<notin> set s)"

lemma join_chars: "set (js_join sep ss) \<subseteq> set sep \<union> (\<Union>s\<in>set ss. set s)"
  by (induction sep ss rule: js_join.induct) auto

lemma join_hd: "ss \<noteq> [] \<Longrightarrow> plain ss \<Longrightarrow>
    js_join [slash] ss \<noteq> [] \<and> hd (js_join [slash] ss) \<noteq> slash \<and> last (js_join [slash] ss) \<noteq> slash"
  by (induction "[slash]" ss rule: js_join.induct)
    (auto simp: plain_def hd_append last_append hd_in_set last_in_set dest: hd_in_set last_in_set)

lemma plain_split: "plain ss \<Longrightarrow> ss \<noteq> [] \<Longrightarrow> js_split slash (js_join [slash] ss) = ss"
  by (rule js_split_join) (auto simp: plain_def)

lemma strip_id: "s \<noteq> [] \<Longrightarrow> last s \<noteq> slash \<Longrightarrow> strip_slashes s = s"
  by (cases s rule: rev_cases) (simp_all add: strip_slashes_def)

text \<open>The forms of a root.\<close>

definition unc_root :: "string \<Rightarrow> bool" where
  "unc_root prefix \<longleftrightarrow> (\<exists>h s. prefix = [slash, slash] @ h @ [slash] @ s \<and> h \<noteq> [] \<and> s \<noteq> [] \<and>
     slash \<notin> set h \<and> slash \<notin> set s \<and> h \<noteq> ''.'' \<and> s \<noteq> ''..'')"

definition drive_root :: "string \<Rightarrow> bool" where
  "drive_root prefix \<longleftrightarrow> (\<exists>a. is_letter a \<and> prefix = [a, colon, slash])"

definition drive_only :: "string \<Rightarrow> bool" where
  "drive_only prefix \<longleftrightarrow> (\<exists>a. is_letter a \<and> prefix = [a, colon])"

lemma unc_split_some:
  assumes "unc_split path = Some (h, s, r)"
  shows "h \<noteq> [] \<and> s \<noteq> [] \<and> slash \<notin> set h \<and> slash \<notin> set s \<and> one_line r \<and> set r \<subseteq> set path \<and>
    set h \<subseteq> set path \<and> set s \<subseteq> set path"
proof -
  obtain a b q rest where q: "path = a # b # q" "js_split slash q = h # s # rest"
      "h \<noteq> []" "s \<noteq> []" "r = js_join [slash] rest" "one_line r" "a = slash"
    using assms by (auto simp: unc_split_def split: list.splits if_splits)
  have parts: "slash \<notin> set p \<and> set p \<subseteq> set q" if "p \<in> set (h # s # rest)" for p
    using that js_split_no_sep [of p slash q] js_split_chars [of p slash q] q(2) by simp
  have "(\<Union>p\<in>set rest. set p) \<subseteq> set q" using parts by (meson UN_least list.set_intros(2))
  then have "set r \<subseteq> insert slash (set q)"
    using join_chars [of "[slash]" rest] unfolding q(5) by fastforce
  then have "set r \<subseteq> set path" unfolding q(1,7) by auto
  moreover have "set h \<subseteq> set path" "set s \<subseteq> set path"
    using parts [of h] parts [of s] unfolding q(1) by auto
  ultimately show ?thesis using q(3,4,6) parts [of h] parts [of s] by simp
qed

lemma letter_facts:
  "\<not> is_letter slash" "\<not> is_letter colon" "colon \<noteq> slash" "colon \<noteq> backslash" "slash \<noteq> backslash"
  by (simp_all add: is_letter_def colon_def backslash_def)

lemma other_root_forms:
  assumes "other_root path = (prefix, remainder)"
  shows "((unc_root prefix \<and> one_line remainder) \<or> prefix = [slash] \<or> prefix = []) \<and>
    set remainder \<subseteq> set path \<and> set prefix \<subseteq> insert slash (set path)"
proof (cases "unc_split path")
  case None
  then show ?thesis using assms by (auto simp: other_root_def split: list.splits if_splits)
next
  case (Some u)
  obtain h s r where u: "u = (h, s, r)" by (cases u)
  show ?thesis
  proof (cases "h \<noteq> ''.'' \<and> s \<noteq> ''..''")
    case True
    then have "prefix = [slash, slash] @ h @ [slash] @ s" "remainder = r"
      using assms Some by (simp_all add: other_root_def u)
    then show ?thesis using True unc_split_some [OF Some [unfolded u]]
      by (auto simp: unc_root_def)
  next
    case False
    then have "prefix = [slash] \<and> remainder = drop 1 path"
      using assms Some by (auto simp: other_root_def u)
    then show ?thesis by (auto dest: in_set_dropD)
  qed
qed

lemma filesystemRoot_forms:
  assumes "filesystemRoot path = (prefix, remainder)"
  shows "(((drive_root prefix \<or> drive_only prefix \<or> unc_root prefix) \<and> one_line remainder) \<or>
    prefix = [slash] \<or> prefix = []) \<and>
    set remainder \<subseteq> set path \<and> set prefix \<subseteq> insert slash (set path)"
proof (cases path rule: filesystemRoot.cases)
  case (1 a b r)
  show ?thesis
  proof (cases "filesystemRoot path = other_root path")
    case True
    then show ?thesis using other_root_forms [of path prefix remainder] assms by auto
  next
    case False
    with 1 assms show ?thesis
      by (auto simp: drive_root_def drive_only_def split: if_splits dest: list.set_sel(2))
  qed
qed (use assms other_root_forms [of path prefix remainder] in auto)

lemma normalize_no_backslash: "backslash \<notin> set (normalizePathSeparators s)"
  using letter_facts(5) by (auto simp: normalizePathSeparators_def split: if_splits)

lemma remove_trailing_chars: "set (removeTrailingSeparators s) \<subseteq> set s"
  by (auto simp: removeTrailingSeparators_def strip_slashes_def dest: set_dropWhileD split: if_splits)

lemma one_line_sub: "one_line s \<Longrightarrow> set t \<subseteq> insert slash (set s) \<Longrightarrow> one_line t"
  by (auto simp: one_line_def)

lemma path_parts_facts:
  assumes "path_parts p = (prefix, segs)"
  shows "plain segs \<and> resolved (clamps_parent prefix) segs \<and> backslash \<notin> set prefix \<and>
    ((drive_root prefix \<or> drive_only prefix \<or> unc_root prefix) \<and> one_line (js_join [slash] segs) \<or>
     prefix = [slash] \<or> prefix = [])"
proof -
  let ?q = "removeTrailingSeparators (normalizePathSeparators p)"
  obtain remainder where root: "filesystemRoot ?q = (prefix, remainder)"
    and segs: "segs = resolve_segments (clamps_parent prefix) (js_split slash remainder) []"
    using assms by (auto simp: path_parts_def Let_def split: prod.splits)
  have q: "backslash \<notin> set ?q"
    using normalize_no_backslash [of p] remove_trailing_chars [of "normalizePathSeparators p"] by blast
  note forms = filesystemRoot_forms [OF root]
  have sub: "s \<in> set (js_split slash remainder)" if "s \<in> set segs" for s
    using resolve_set [of "clamps_parent prefix" "js_split slash remainder" "[]"] that
    unfolding segs by auto
  have res: "resolved (clamps_parent prefix) segs"
    unfolding segs by (rule resolve_resolved) (simp add: resolved_def)
  have chars: "set s \<subseteq> set remainder \<and> slash \<notin> set s" if "s \<in> set segs" for s
    using js_split_chars [OF sub [OF that]] js_split_no_sep [OF sub [OF that]] by blast
  have bs: "backslash \<notin> set remainder" "backslash \<notin> set prefix"
    using forms q letter_facts(5) by auto
  have "plain segs"
    unfolding plain_def using chars bs(1) res by (auto simp: resolved_def)
  moreover have "set (js_join [slash] segs) \<subseteq> insert slash (set remainder)"
    using join_chars [of "[slash]" segs] chars by fastforce
  ultimately show ?thesis using forms res bs(2) one_line_sub by blast
qed

lemma render_root_unc:
  assumes "unc_root prefix" "plain segs" "one_line (js_join [slash] segs)"
  shows "render_path prefix segs = prefix @ (if segs = [] then [] else slash # js_join [slash] segs) \<and>
    filesystemRoot (render_path prefix segs) = (prefix, js_join [slash] segs) \<and>
    last (render_path prefix segs) \<noteq> slash"
proof -
  obtain h s where p: "prefix = [slash, slash] @ h @ [slash] @ s" and ne: "h \<noteq> []" "s \<noteq> []"
    and no: "slash \<notin> set h" "slash \<notin> set s" and nd: "h \<noteq> ''.''" "s \<noteq> ''..''"
    using assms(1) by (auto simp: unc_root_def)
  have "last s \<noteq> slash" using ne no by (metis last_in_set)
  then have rp: "render_path prefix segs = prefix @ (if segs = [] then [] else slash # js_join [slash] segs)"
    using ne by (simp add: render_path_def p ends_with_slash_def drive_prefix.simps)
      (auto simp: neq_Nil_conv letter_facts)
  let ?rest = "if segs = [] then [] else slash # js_join [slash] segs"
  have "js_split slash (h @ slash # s @ ?rest) = h # s # segs"
    using no js_split_append [OF no(1), of "s @ ?rest"] js_split_append [OF no(2), of "js_join [slash] segs"]
      plain_split [OF assms(2)]
    by (simp add: js_split_single)
  moreover have rp': "render_path prefix segs = slash # slash # h @ slash # s @ ?rest"
    unfolding rp by (simp add: p)
  ultimately have "unc_split (render_path prefix segs) = Some (h, s, js_join [slash] segs)"
    using ne assms(3) by (simp add: unc_split_def)
  then have "filesystemRoot (render_path prefix segs) = (prefix, js_join [slash] segs)"
    using nd by (simp add: rp' letter_facts other_root_def) (simp add: p)
  moreover have "last (render_path prefix segs) \<noteq> slash"
    unfolding rp using join_hd [OF _ assms(2)] ne \<open>last s \<noteq> slash\<close> by (simp add: p)
  ultimately show ?thesis using rp by blast
qed

lemma render_root_plain:
  assumes "drive_root prefix \<or> drive_only prefix \<or> prefix = [slash]" "plain segs"
    and "prefix = [slash] \<or> one_line (js_join [slash] segs)"
  shows "render_path prefix segs = prefix @ js_join [slash] segs \<and>
    filesystemRoot (render_path prefix segs) = (prefix, js_join [slash] segs) \<and>
    (segs = [] \<and> prefix \<noteq> [slash] \<and> \<not> windows_drive_root prefix \<longrightarrow> last prefix \<noteq> slash) \<and>
    (segs \<noteq> [] \<longrightarrow> last (render_path prefix segs) \<noteq> slash)"
proof -
  let ?j = "js_join [slash] segs"
  have j: "segs = [] \<and> ?j = [] \<or> segs \<noteq> [] \<and> ?j \<noteq> [] \<and> hd ?j \<noteq> slash \<and> last ?j \<noteq> slash"
    using join_hd [OF _ assms(2)] by (cases "segs = []") simp_all
  have rp: "render_path prefix segs = prefix @ ?j"
    using assms(1) by (auto simp: render_path_def drive_root_def drive_only_def ends_with_slash_def)
  have "filesystemRoot (prefix @ ?j) = (prefix, ?j)"
  proof (cases "prefix = [slash]")
    case True
    have "unc_split (slash # ?j) = None"
      using j by (auto simp: unc_split_def split: list.split)
    then show ?thesis
      using True by (cases ?j) (simp_all add: other_root_def letter_facts)
  next
    case False
    then show ?thesis using assms(1,3) j
      by (auto simp: drive_root_def drive_only_def)
  qed
  then show ?thesis unfolding rp using assms(1) j
    by (auto simp: drive_root_def drive_only_def letter_facts)
qed

lemma reparse:
  assumes "path_parts p = (prefix, segs)" "prefix \<noteq> []"
  shows "path_parts (render_path prefix segs) = (prefix, segs) \<and>
    filesystemRoot (render_path prefix segs) = (prefix, js_join [slash] segs)"
proof -
  let ?r = "render_path prefix segs"
  note f = path_parts_facts [OF assms(1)]
  have plain: "plain segs" and res: "resolved (clamps_parent prefix) segs" using f by simp_all
  have root: "filesystemRoot ?r = (prefix, js_join [slash] segs)"
    and tail: "removeTrailingSeparators ?r = ?r" and form: "\<exists>t. ?r = prefix @ t \<and> set t \<subseteq> insert slash (\<Union>s\<in>set segs. set s)"
  proof -
    have chars: "set (js_join [slash] segs) \<subseteq> insert slash (\<Union>s\<in>set segs. set s)"
      using join_chars [of "[slash]" segs] by simp
    consider (unc) "unc_root prefix" "one_line (js_join [slash] segs)"
      | (other) "drive_root prefix \<or> drive_only prefix \<or> prefix = [slash]"
          "prefix = [slash] \<or> one_line (js_join [slash] segs)"
      using f assms(2) by blast
    then have "filesystemRoot ?r = (prefix, js_join [slash] segs) \<and> removeTrailingSeparators ?r = ?r \<and>
        (\<exists>t. ?r = prefix @ t \<and> set t \<subseteq> insert slash (\<Union>s\<in>set segs. set s))"
    proof cases
      case unc
      note u = render_root_unc [OF unc(1) plain unc(2)]
      have "?r \<noteq> []" using u assms(2) by simp
      then have "strip_slashes ?r = ?r" using u by (intro strip_id) blast+
      then have "removeTrailingSeparators ?r = ?r" unfolding removeTrailingSeparators_def by simp
      then show ?thesis using u chars
        by (auto intro!: exI [of _ "if segs = [] then [] else slash # js_join [slash] segs"])
    next
      case other
      note o = render_root_plain [OF other(1) plain other(2)]
      have "?r \<noteq> []" using o assms(2) by simp
      then have "removeTrailingSeparators ?r = ?r"
        using o strip_id [of ?r] by (cases "segs = []") (auto simp: removeTrailingSeparators_def)
      then show ?thesis using o chars by blast
    qed
    then show "filesystemRoot ?r = (prefix, js_join [slash] segs)" "removeTrailingSeparators ?r = ?r"
      "\<exists>t. ?r = prefix @ t \<and> set t \<subseteq> insert slash (\<Union>s\<in>set segs. set s)" by blast+
  qed
  have "backslash \<notin> (\<Union>s\<in>set segs. set s)" using plain by (auto simp: plain_def)
  then have "backslash \<notin> set ?r" using form f letter_facts(5) by auto
  then have "normalizePathSeparators ?r = ?r"
    by (auto simp: normalizePathSeparators_def intro!: map_idI)
  moreover have "resolve_segments (clamps_parent prefix) (js_split slash (js_join [slash] segs)) [] = segs"
  proof (cases "segs = []")
    case False
    then show ?thesis using plain_split [OF plain] resolve_id [of _ "[]" segs] res by simp
  qed simp
  ultimately show ?thesis using root tail by (simp add: path_parts_def)
qed

section \<open>Properties\<close>

definition rooted :: "string \<Rightarrow> bool" where
  \<comment> \<open>the path starts at a root, a drive or a share\<close>
  "rooted p \<longleftrightarrow> fst (path_parts p) \<noteq> []"

lemma comparable_parts: "path_parts p = (prefix, segs) \<Longrightarrow> toComparablePath p = render_path prefix segs"
  by (simp add: toComparablePath_def normalizeLexicalPath_def)

lemma comparable_reparse:
  assumes "rooted p"
  shows "path_parts (toComparablePath p) = path_parts p \<and>
    filesystemRoot (toComparablePath p) = (fst (path_parts p), js_join [slash] (snd (path_parts p)))"
proof -
  obtain prefix segs where p: "path_parts p = (prefix, segs)" by (cases "path_parts p")
  then show ?thesis using reparse [OF p] assms comparable_parts [OF p] by (simp add: rooted_def)
qed

text \<open>
  The comparable form of a path is its root and a list of segments without separators, in which
  nothing is left to resolve: no empty and no dot segments, parent segments only at the front, and
  none at all below a root. For a path that has a root it is a canonical form: applying the
  function again changes nothing.
\<close>

theorem comparable_canonical:
  "toComparablePath p = render_path (fst (path_parts p)) (snd (path_parts p)) \<and>
   (\<forall>s\<in>set (snd (path_parts p)). slash \<notin> set s \<and> backslash \<notin> set s) \<and>
   resolved (clamps_parent (fst (path_parts p))) (snd (path_parts p)) \<and>
   (rooted p \<longrightarrow> toComparablePath (toComparablePath p) = toComparablePath p)"
proof -
  obtain prefix segs where p: "path_parts p = (prefix, segs)" by (cases "path_parts p")
  have "rooted p \<Longrightarrow> toComparablePath (toComparablePath p) = toComparablePath p"
    using comparable_reparse [of p] by (simp add: toComparablePath_def normalizeLexicalPath_def)
  then show ?thesis
    using path_parts_facts [OF p] comparable_parts [OF p] by (auto simp: p plain_def)
qed

theorem comparable_canonical_witness:
  "toComparablePath (toComparablePath ''/a/./b/..//c/'') = toComparablePath ''/a/./b/..//c/'' \<and>
   toComparablePath ''/a/./b/..//c/'' = ''/a/c''"
proof -
  have v: "toComparablePath ''/a/./b/..//c/'' = ''/a/c''" and r: "rooted ''/a/./b/..//c/''"
    by code_simp+
  show ?thesis using comparable_canonical [of "''/a/./b/..//c/''"] r v by blast
qed

section \<open>Identity\<close>

lemma lower_char_plain [simp]:
  "lower_char c = slash \<longleftrightarrow> c = slash" "lower_char c = colon \<longleftrightarrow> c = colon"
  "is_letter (lower_char c) = is_letter c"
proof -
  have n: "of_char (lower_char c) = (let n = of_char c :: nat in
      if (65 \<le> n \<and> n \<le> 90) \<or> (192 \<le> n \<and> n \<le> 222 \<and> n \<noteq> 215) then n + 32 else n)"
    by (auto simp: lower_char_def Let_def)
  have eq: "d = e \<longleftrightarrow> of_char d = (of_char e :: nat)" for d e :: char by simp
  show "lower_char c = slash \<longleftrightarrow> c = slash" "lower_char c = colon \<longleftrightarrow> c = colon"
    unfolding eq [of _ slash] eq [of _ colon] n by (auto simp: Let_def colon_def)
  show "is_letter (lower_char c) = is_letter c"
    unfolding is_letter_def n by (auto simp: Let_def)
qed

lemma lower_slash [simp]: "lower_char slash = slash"
  using lower_char_plain(1) [of slash] by simp

lemma lower_ends [simp]: "ends_with_slash (js_lower p) = ends_with_slash p"
  by (cases p rule: rev_cases) (simp_all add: ends_with_slash_def)

lemma lower_drive [simp]: "drive_prefix (js_lower p) = drive_prefix p"
  by (cases p rule: drive_prefix.cases) simp_all

lemma lower_single [simp]: "js_lower p = [slash] \<longleftrightarrow> p = [slash]"
  by (auto simp: js_lower_def map_eq_Cons_conv)

lemma lower_render: "js_lower (render_path p ss) = render_path (js_lower p) (map js_lower ss)"
  by (simp add: render_path_def js_lower_join)

definition folding :: "bool \<Rightarrow> string \<Rightarrow> string" where
  "folding ci s = identitySegment s ci"

lemma folding_render: "folding ci (render_path p ss) = render_path (folding ci p) (map (folding ci) ss)"
  by (cases ci) (simp_all add: folding_def identitySegment_def lower_render [unfolded comp_def]
      map_idI cong: map_cong)

definition case_folds :: "string \<Rightarrow> platform \<Rightarrow> bool" where
  "case_folds p platform \<longleftrightarrow> isWindowsPath p \<or> platform = Mac"

lemma key_folding: "toIdentityKey p platform = folding (case_folds p platform) (toComparablePath p)"
  by (simp add: toIdentityKey_def folding_def identitySegment_def case_folds_def Let_def)

text \<open>The containment test says: same kind of path, same root, and whole leading segments.\<close>

lemma contained_iff:
  fixes x y pf
  defines "b \<equiv> splitIdentityPath x pf" and "t \<equiv> splitIdentityPath y pf" and "f \<equiv> folding (case_folds x pf)"
  shows "contained b t \<longleftrightarrow> isWindowsPath x = isWindowsPath y \<and> f (ip_root b) = f (ip_root t) \<and>
    (\<exists>rest. map f (ip_segments t) = map f (ip_segments b) @ rest)"
proof (cases "isWindowsPath x = isWindowsPath y")
  case True
  have w: "ip_windows b = isWindowsPath x" "ip_windows t = isWindowsPath y"
    "ip_caseInsensitive b = case_folds x pf" "ip_caseInsensitive t = case_folds x pf"
    using True by (simp_all add: b_def t_def splitIdentityPath_def case_folds_def split_beta Let_def)
  let ?bs = "map f (ip_segments b)" and ?ts = "map f (ip_segments t)"
  have eq: "(\<exists>rest. ?ts = ?bs @ rest) \<longleftrightarrow> length ?bs \<le> length ?ts \<and> (\<forall>i < length ?bs. ?bs ! i = ?ts ! i)"
  proof
    assume r: "length ?bs \<le> length ?ts \<and> (\<forall>i < length ?bs. ?bs ! i = ?ts ! i)"
    then have "take (length ?bs) ?ts = ?bs" by (intro nth_equalityI) auto
    then show "\<exists>rest. ?ts = ?bs @ rest" by (metis append_take_drop_id)
  next
    assume "\<exists>rest. ?ts = ?bs @ rest"
    then obtain rest where r: "?ts = ?bs @ rest" by blast
    have "length ?bs \<le> length ?ts" unfolding r by simp
    then show "length ?bs \<le> length ?ts \<and> (\<forall>i < length ?bs. ?bs ! i = ?ts ! i)"
      unfolding r by (simp only: nth_append) simp
  qed
  have "contained b t \<longleftrightarrow> f (ip_root b) = f (ip_root t) \<and>
      length ?bs \<le> length ?ts \<and> (\<forall>i < length ?bs. ?bs ! i = ?ts ! i)"
    using w True by (auto simp: contained_def same_segments_def f_def folding_def)
  then show ?thesis unfolding eq using True by simp
next
  case False
  then show ?thesis by (simp add: contained_def b_def t_def splitIdentityPath_def split_beta Let_def)
qed

lemma rooted_split:
  assumes "rooted p"
  shows "ip_root (splitIdentityPath p pf) = fst (path_parts p) \<and>
    ip_segments (splitIdentityPath p pf) = snd (path_parts p)"
proof -
  obtain prefix segs where p: "path_parts p = (prefix, segs)" by (cases "path_parts p")
  have plain: "plain segs" using path_parts_facts [OF p] by simp
  show ?thesis
    using comparable_reparse [OF assms] plain_split [OF plain] join_hd [OF _ plain]
    by (cases "segs = []") (simp_all add: splitIdentityPath_def p Let_def)
qed

text \<open>
  Containment goes by whole path segments: for paths with a root, a path is within a base
  exactly when both are of the same kind, have the same root and the segments of the path begin
  with those of the base, under the case folding of the platform. So a sibling whose name merely
  starts like the base is never inside it.
\<close>

theorem containment_is_segment_prefix:
  assumes "rooted b" and "rooted t" and "b \<noteq> []" and "t \<noteq> []"
  shows "isPathWithin (Some b) (Some t) pf \<longleftrightarrow>
    isWindowsPath b = isWindowsPath t \<and>
    folding (case_folds b pf) (fst (path_parts b)) = folding (case_folds b pf) (fst (path_parts t)) \<and>
    (\<exists>rest. map (folding (case_folds b pf)) (snd (path_parts t)) =
            map (folding (case_folds b pf)) (snd (path_parts b)) @ rest)"
  using assms contained_iff [of b pf t] rooted_split [of b pf] rooted_split [of t pf]
  by (simp add: isPathWithin_def)

theorem containment_is_segment_prefix_witness:
  "\<not> isPathWithin (Some ''/work'') (Some ''/work-secrets/x'') Linux"
proof -
  have r: "rooted ''/work''" "rooted ''/work-secrets/x''" by code_simp+
  have p: "path_parts ''/work'' = ([slash], [''work''])"
    "path_parts ''/work-secrets/x'' = ([slash], [''work-secrets'', ''x''])"
    "case_folds ''/work'' Linux = False"
    by code_simp+
  show ?thesis
    using containment_is_segment_prefix [OF r, of Linux] by (simp add: p folding_def identitySegment_def)
qed

text \<open>
  Being within is a partial order on locations: every path is within itself, what is within a
  path that is within a base is within that base, and two rooted paths within each other name the
  same location.
\<close>

theorem containment_partial_order:
  assumes "isPathWithin (Some a) (Some b) pf"
  shows "isPathWithin (Some a) (Some a) pf \<and>
    (\<forall>c. isPathWithin (Some b) (Some c) pf \<longrightarrow> isPathWithin (Some a) (Some c) pf) \<and>
    (rooted a \<and> rooted b \<and> isPathWithin (Some b) (Some a) pf \<longrightarrow> isSamePath (Some a) (Some b) pf)"
proof -
  let ?f = "folding (case_folds a pf)"
  have ab: "a \<noteq> []" "b \<noteq> []" "isWindowsPath a = isWindowsPath b"
    "?f (ip_root (splitIdentityPath a pf)) = ?f (ip_root (splitIdentityPath b pf))"
    "\<exists>r. map ?f (ip_segments (splitIdentityPath b pf)) = map ?f (ip_segments (splitIdentityPath a pf)) @ r"
    using assms contained_iff [of a pf b] by (auto simp: isPathWithin_def)
  have cf: "case_folds b pf = case_folds a pf" using ab(3) by (simp add: case_folds_def)
  have "isPathWithin (Some a) (Some c) pf" if "isPathWithin (Some b) (Some c) pf" for c
  proof -
    have "c \<noteq> []" "isWindowsPath b = isWindowsPath c"
      "?f (ip_root (splitIdentityPath b pf)) = ?f (ip_root (splitIdentityPath c pf))"
      "\<exists>r. map ?f (ip_segments (splitIdentityPath c pf)) = map ?f (ip_segments (splitIdentityPath b pf)) @ r"
      using that contained_iff [of b pf c] cf by (auto simp: isPathWithin_def)
    then show ?thesis using ab contained_iff [of a pf c] by (auto simp: isPathWithin_def)
  qed
  moreover have "isPathWithin (Some a) (Some a) pf"
    using ab(1) contained_iff [of a pf a] by (simp add: isPathWithin_def)
  moreover have "isSamePath (Some a) (Some b) pf"
    if r: "rooted a" "rooted b" and ba: "isPathWithin (Some b) (Some a) pf"
  proof -
    obtain r1 r2 where
      "map ?f (ip_segments (splitIdentityPath b pf)) = map ?f (ip_segments (splitIdentityPath a pf)) @ r1"
      "map ?f (ip_segments (splitIdentityPath a pf)) = map ?f (ip_segments (splitIdentityPath b pf)) @ r2"
      using ab(5) ba contained_iff [of b pf a] cf by (auto simp: isPathWithin_def)
    then have "map ?f (snd (path_parts a)) = map ?f (snd (path_parts b))"
      using rooted_split [OF r(1), of pf] rooted_split [OF r(2), of pf] by simp
    moreover have "?f (fst (path_parts a)) = ?f (fst (path_parts b))"
      using ab(4) rooted_split [OF r(1), of pf] rooted_split [OF r(2), of pf] by simp
    ultimately have "?f (toComparablePath a) = ?f (toComparablePath b)"
      using comparable_parts [of a] comparable_parts [of b] folding_render
      by (metis prod.collapse)
    then show ?thesis using ab(1,2) cf by (simp add: isSamePath_def key_folding)
  qed
  ultimately show ?thesis by blast
qed

theorem containment_partial_order_witness:
  "isPathWithin (Some ''/a'') (Some ''/a/b/./c'') Linux"
proof -
  have ab: "isPathWithin (Some ''/a'') (Some ''/a/b'') Linux" and bc: "isPathWithin (Some ''/a/b'') (Some ''/a/b/./c'') Linux"
    by code_simp+
  show ?thesis using containment_partial_order [OF ab] bc by blast
qed

lemma join_longer:
  "rest \<noteq> [] \<Longrightarrow> \<forall>s\<in>set rest. s \<noteq> [] \<Longrightarrow>
   length (js_join sep xs) < length (js_join sep (xs @ rest))"
proof (induction sep xs rule: js_join.induct)
  case (1 sep)
  then show ?case by (cases rest; cases "tl rest") auto
next
  case (2 sep s)
  then show ?case by (cases rest; cases "tl rest") auto
qed simp

lemma render_longer:
  assumes "rest \<noteq> []" "\<forall>s\<in>set rest. s \<noteq> []"
  shows "length (render_path p xs) < length (render_path p (xs @ rest))"
  using join_longer [OF assms, of "[slash]" xs] assms(1)
  by (cases "xs = []") (auto simp: render_path_def)

text \<open>
  A relative path exists exactly for contained paths; it is empty exactly when both name the
  same location, and otherwise putting its segments after as many segments of the path as the base
  has gives the path back, with its own spelling.
\<close>

theorem relative_path_spec:
  assumes "rooted p" and "rooted b" and "p \<noteq> []" and "b \<noteq> []"
  shows "(case getRelativePath p (Some b) pf of
       None \<Rightarrow> \<not> isPathWithin (Some b) (Some p) pf
     | Some r \<Rightarrow> isPathWithin (Some b) (Some p) pf \<and>
         (r = [] \<longleftrightarrow> isSamePath (Some b) (Some p) pf) \<and>
         toComparablePath p = render_path (fst (path_parts p))
           (take (length (snd (path_parts b))) (snd (path_parts p)) @
            (if r = [] then [] else js_split slash r)))"
proof (cases "isPathWithin (Some b) (Some p) pf")
  case False
  then show ?thesis using assms by (simp add: getRelativePath_def isPathWithin_def Let_def)
next
  case True
  let ?f = "folding (case_folds b pf)" and ?n = "length (snd (path_parts b))"
  note sb = rooted_split [OF assms(2), of pf] and sp = rooted_split [OF assms(1), of pf]
  define pb where "pb = snd (path_parts b)"
  define pp where "pp = snd (path_parts p)"
  have pbs: "snd (path_parts b) = pb" and pps: "snd (path_parts p) = pp"
    by (simp_all add: pb_def pp_def)
  have pb: "path_parts b = (fst (path_parts b), pb)" and pp: "path_parts p = (fst (path_parts p), pp)"
    by (simp_all add: pb_def pp_def)
  have c: "contained (splitIdentityPath b pf) (splitIdentityPath p pf)"
    using True by (simp add: isPathWithin_def)
  then obtain rest where cc: "isWindowsPath b = isWindowsPath p"
      "?f (fst (path_parts b)) = ?f (fst (path_parts p))" "map ?f pp = map ?f pb @ rest"
    using contained_iff [of b pf p] sb sp pbs pps by auto
  have n: "?n = length pb" by (simp add: pbs)
  have plain: "plain pp" using path_parts_facts [OF pp] by simp
  then have dplain: "plain (drop ?n pp)" by (auto simp: plain_def dest: in_set_dropD)
  have r: "getRelativePath p (Some b) pf = Some (js_join [slash] (drop ?n pp))"
    using c assms(4) sb sp by (simp add: getRelativePath_def Let_def pps)
  have len: "length pb \<le> length pp" using arg_cong [OF cc(3), of length] by simp
  have empty: "js_join [slash] (drop ?n pp) = [] \<longleftrightarrow> drop ?n pp = []"
    using join_hd [OF _ dplain] by (cases "drop ?n pp = []") simp_all
  have cf: "case_folds p pf = case_folds b pf" using cc(1) by (simp add: case_folds_def)
  have comp: "toComparablePath p = render_path (fst (path_parts p)) pp"
    "toComparablePath b = render_path (fst (path_parts b)) pb"
    using comparable_parts [OF pp] comparable_parts [OF pb] by simp_all
  have "drop ?n pp = [] \<longleftrightarrow> isSamePath (Some b) (Some p) pf"
  proof
    assume "drop ?n pp = []"
    then have "length pp \<le> length pb" using n by simp
    then have "rest = []" using len arg_cong [OF cc(3), of length] by simp
    then have "?f (toComparablePath p) = ?f (toComparablePath b)"
      using cc(2,3) unfolding comp folding_render by simp
    then show "isSamePath (Some b) (Some p) pf" using assms(3,4) cf by (simp add: isSamePath_def key_folding)
  next
    assume "isSamePath (Some b) (Some p) pf"
    then have "?f (toComparablePath p) = ?f (toComparablePath b)" using cf by (simp add: isSamePath_def key_folding)
    then have eq: "render_path (?f (fst (path_parts p))) (map ?f pb @ rest) =
        render_path (?f (fst (path_parts p))) (map ?f pb)"
      using cc(2,3) unfolding comp folding_render by simp
    have "\<forall>s\<in>set rest. s \<noteq> []"
    proof
      fix s assume "s \<in> set rest"
      then have "s \<in> set (map ?f pp)" unfolding cc(3) by simp
      then show "s \<noteq> []" using plain by (auto simp: plain_def folding_def identitySegment_def split: if_splits)
    qed
    then have "rest = []" using render_longer [of rest "?f (fst (path_parts p))" "map ?f pb"] eq by force
    then have "length pp = length pb" using arg_cong [OF cc(3), of length] by simp
    then show "drop ?n pp = []" using n by simp
  qed
  then show ?thesis
    using True r empty plain_split [OF dplain] comp(1) by (simp add: pps)
qed


theorem relative_path_spec_witness:
  "getRelativePath ''/a/b/c'' (Some ''/a/'') Linux = Some ''b/c'' \<and>
   toComparablePath ''/a/b/c'' = render_path ''/'' ([''a''] @ [''b'', ''c''])"
proof -
  have r: "rooted ''/a/b/c''" "rooted ''/a/''" and g: "getRelativePath ''/a/b/c'' (Some ''/a/'') Linux = Some ''b/c''"
    and p: "path_parts ''/a/b/c'' = ([slash], [''a'', ''b'', ''c''])" "path_parts ''/a/'' = ([slash], [''a''])"
    and sp: "js_split slash ''b/c'' = [''b'', ''c'']"
    by code_simp+
  show ?thesis using relative_path_spec [OF r, of Linux] g sp by (simp add: p)
qed

text \<open>
  Two cases where the code departs from what its documentation says. A base without a root that
  resolves to nothing, like \<open>.\<close>, contains its own parent; and a root written with a doubled
  separator loses it, so that it is no longer the same location as the root.
\<close>

lemma relative_base_contains_parent:
  "isPathWithin (Some ''.'') (Some ''..'') Linux"
  "getRelativePath ''../secrets'' (Some ''.'') Linux = Some ''../secrets''"
  by code_simp+

lemma doubled_root_is_lost:
  "toComparablePath ''//'' = []" "toComparablePath ''/'' = ''/''"
  "\<not> isSamePath (Some ''/'') (Some ''//'') Linux"
  "toComparablePath ''C://'' = ''C:''" "toComparablePath ''C:/'' = ''C:/''"
  by code_simp+

text \<open>
  A path taken from a file URL is safe to use: the input was an absolute file URL without
  user, port, query, fragment or encoded separators, and the path has no control characters. (The
  URL parser never returns a host with control characters.)
\<close>

theorem file_url_path_safe:
  assumes host: "\<And>s u. parse_url s = Some u \<Longrightarrow> \<not> hasControlCharacter (url_hostname u)"
    and "fileUrlToPath parse_url decode (Some s) = Some p"
  shows "isFileUrl (Some (js_trim s)) \<and> absolute_file_url (js_trim s) \<and> \<not> hasControlCharacter p \<and>
    (\<exists>u. parse_url (js_trim s) = Some u \<and> url_protocol u = ''file:'' \<and> url_username u = [] \<and>
       url_password u = [] \<and> url_port u = [] \<and> url_search u = [] \<and> url_hash u = [] \<and>
       \<not> encoded_separator (url_pathname u))"
proof -
  have slash: "hasControlCharacter (slash # x) = hasControlCharacter x" for x
    by (simp add: hasControlCharacter_def)
  have drive: "\<not> hasControlCharacter x" if "drive_pathname y = Some x" "\<not> hasControlCharacter y" for x y
    using that by (auto simp: drive_pathname_def hasControlCharacter_def split: list.splits if_splits)
  have app: "hasControlCharacter (x @ y) = (hasControlCharacter x \<or> hasControlCharacter y)" for x y
    by (simp add: hasControlCharacter_def)
  show ?thesis
    using assms(2) host
    by (auto simp: fileUrlToPath_def Let_def app slash drive split: if_splits option.splits)
qed

definition demo_parse_url :: "string \<Rightarrow> url option" where
  \<comment> \<open>a parser for local paths only\<close>
  "demo_parse_url s = Some \<lparr>url_protocol = ''file:'', url_username = [], url_password = [],
     url_port = [], url_search = [], url_hash = [], url_pathname = drop 7 s, url_hostname = []\<rparr>"

theorem file_url_path_safe_witness:
  "fileUrlToPath demo_parse_url Some (Some ''file:///C:/x'') = Some ''C:/x'' \<and>
   \<not> hasControlCharacter ''C:/x''"
proof -
  have host: "\<not> hasControlCharacter (url_hostname u)" if "demo_parse_url s = Some u" for s u
    using that by (auto simp: demo_parse_url_def hasControlCharacter_def)
  have r: "fileUrlToPath demo_parse_url Some (Some ''file:///C:/x'') = Some ''C:/x''" by code_simp
  have "\<not> hasControlCharacter ''C:/x''" using file_url_path_safe [OF host r] by simp
  with r show ?thesis by (rule conjI)
qed

end
