(* ===== verification/TerminalState.thy ===== *)
theory TerminalState
  imports ClientStorage PathIdentity "HOL-Library.Word"
begin

text \<open>
  The terminal panel's state (\<open>src/src/features/terminal/model/terminalState.ts\<close>): its tabs,
  its place (docked or floating), and what is made of a stored state of unknown shape. Pixels are
  exact rationals; the window's size is an argument (\<open>None\<close> without a window), as are the
  platform, random ids, the clock and the module's id counter.
\<close>

section \<open>Data and constants\<close>

record terminal_tab =
  tab_id :: string
  tab_cwd :: string

datatype dock_region = ChatColumn | RightRail

record docked_placement =
  dp_region :: dock_region
  dp_height :: js_number

record floating_rect =
  fr_x :: js_number
  fr_y :: js_number
  fr_width :: js_number
  fr_height :: js_number

text \<open>The slot of a docked placement is determined by its region.\<close>

datatype terminal_placement =
    Docked docked_placement
  | Floating floating_rect "docked_placement option"

record terminal_state =
  ts_tabs :: "terminal_tab list"
  ts_activeTabId :: "string option"
  ts_expanded :: bool
  ts_placement :: terminal_placement

datatype resize_edge =
  EdgeTop | EdgeRight | EdgeBottom | EdgeLeft | EdgeTopLeft | EdgeTopRight | EdgeBottomRight | EdgeBottomLeft

record viewport =
  innerWidth :: js_number
  innerHeight :: js_number

definition TERMINAL_FLOATING_MARGIN_PX :: js_number where "TERMINAL_FLOATING_MARGIN_PX = 16"
definition TERMINAL_FLOATING_DEFAULT_WIDTH_PX :: js_number where "TERMINAL_FLOATING_DEFAULT_WIDTH_PX = 720"
definition TERMINAL_FLOATING_DEFAULT_HEIGHT_PX :: js_number where "TERMINAL_FLOATING_DEFAULT_HEIGHT_PX = 360"
definition TERMINAL_FLOATING_MIN_WIDTH_PX :: js_number where "TERMINAL_FLOATING_MIN_WIDTH_PX = 280"
definition TERMINAL_FLOATING_MIN_HEIGHT_PX :: js_number where "TERMINAL_FLOATING_MIN_HEIGHT_PX = 220"
definition TERMINAL_DOCK_DROP_ZONE_HEIGHT_PX :: js_number where "TERMINAL_DOCK_DROP_ZONE_HEIGHT_PX = 140"
definition TERMINAL_DOCK_DEFAULT_HEIGHT_PX :: js_number where "TERMINAL_DOCK_DEFAULT_HEIGHT_PX = 300"
definition TERMINAL_DOCK_MIN_HEIGHT_PX :: js_number where "TERMINAL_DOCK_MIN_HEIGHT_PX = 120"
definition TERMINAL_DOCK_MAX_HEIGHT_PX :: js_number where "TERMINAL_DOCK_MAX_HEIGHT_PX = 560"
definition TERMINAL_FLOATING_DRAG_GRABBABLE_PX :: js_number where
  "TERMINAL_FLOATING_DRAG_GRABBABLE_PX = TERMINAL_FLOATING_MARGIN_PX * 4"

named_theorems terminal_px "the pixel constants"

lemmas terminal_px_defs [terminal_px] =
  TERMINAL_FLOATING_MARGIN_PX_def TERMINAL_FLOATING_DEFAULT_WIDTH_PX_def
  TERMINAL_FLOATING_DEFAULT_HEIGHT_PX_def TERMINAL_FLOATING_MIN_WIDTH_PX_def
  TERMINAL_FLOATING_MIN_HEIGHT_PX_def TERMINAL_DOCK_DROP_ZONE_HEIGHT_PX_def
  TERMINAL_DOCK_DEFAULT_HEIGHT_PX_def TERMINAL_DOCK_MIN_HEIGHT_PX_def
  TERMINAL_DOCK_MAX_HEIGHT_PX_def TERMINAL_FLOATING_DRAG_GRABBABLE_PX_def

definition getDefaultTerminalDockedPlacement :: "dock_region \<Rightarrow> docked_placement" where
  "getDefaultTerminalDockedPlacement region =
    \<lparr>dp_region = region, dp_height = TERMINAL_DOCK_DEFAULT_HEIGHT_PX\<rparr>"

definition DEFAULT_TERMINAL_PLACEMENT :: docked_placement where
  "DEFAULT_TERMINAL_PLACEMENT = getDefaultTerminalDockedPlacement ChatColumn"

definition DEFAULT_TERMINAL_STATE :: terminal_state where
  "DEFAULT_TERMINAL_STATE = \<lparr>ts_tabs = [], ts_activeTabId = None, ts_expanded = False,
     ts_placement = Docked DEFAULT_TERMINAL_PLACEMENT\<rparr>"

definition clampValue :: "js_number \<Rightarrow> js_number \<Rightarrow> js_number \<Rightarrow> js_number" where
  "clampValue v lo hi = (if hi < lo then lo else min (max v lo) hi)"

definition parseFiniteNumber :: "json option \<Rightarrow> js_number option" where
  "parseFiniteNumber v = (case v of Some (JNum n) \<Rightarrow> Some n | _ \<Rightarrow> None)"

section \<open>Tab ids\<close>

fun hash_loop :: "string \<Rightarrow> 32 word \<Rightarrow> 32 word" where
  \<comment> \<open>\<open>hash = (hash * 31 + path.charCodeAt(index)) >>> 0\<close>\<close>
  "hash_loop [] hash = hash"
| "hash_loop (c # cs) hash = hash_loop cs (hash * 31 + of_nat (of_char c))"

definition hashTerminalTabPath :: "string \<Rightarrow> string" where
  "hashTerminalTabPath path = nat_string 36 (unat (hash_loop path 0))"

definition createLegacyTerminalTabId :: "string \<Rightarrow> nat \<Rightarrow> string" where
  "createLegacyTerminalTabId cwd index =
    ''legacy-'' @ nat_string 10 index @ ''-'' @ hashTerminalTabPath cwd"

definition createTerminalTabId :: "string option \<Rightarrow> nat \<Rightarrow> nat \<Rightarrow> string \<times> nat" where
  \<comment> \<open>the random id if the browser has one, the clock, the counter; the id and the new counter\<close>
  "createTerminalTabId uuid now sequence =
    (case uuid of
       Some u \<Rightarrow> (''tab-'' @ u, sequence)
     | None \<Rightarrow> (''tab-'' @ nat_string 36 now @ ''-'' @ nat_string 36 (sequence + 1), sequence + 1))"

definition createTerminalTab :: "string option \<Rightarrow> nat \<Rightarrow> nat \<Rightarrow> string \<Rightarrow> terminal_tab \<times> nat" where
  "createTerminalTab uuid now sequence cwd =
    (let (i, n) = createTerminalTabId uuid now sequence in (\<lparr>tab_id = i, tab_cwd = cwd\<rparr>, n))"

definition candidate_id :: "string \<Rightarrow> nat \<Rightarrow> string" where
  \<comment> \<open>the id at \<open>duplicateIndex\<close>, which starts at one\<close>
  "candidate_id base k = (if k = 1 then base else base @ ''-'' @ nat_string 10 k)"

section \<open>Free ids\<close>

lemma candidate_inj: "0 < j \<Longrightarrow> 0 < k \<Longrightarrow> candidate_id base j = candidate_id base k \<longleftrightarrow> j = k"
  by (auto simp: candidate_id_def nat_string_inj)

lemma candidates_finite: "finite {j. k \<le> j \<and> 0 < j \<and> candidate_id base j \<in> set seen}"
proof (rule finite_imageD)
  show "finite (candidate_id base ` {j. k \<le> j \<and> 0 < j \<and> candidate_id base j \<in> set seen})"
    by (rule finite_subset [of _ "set seen"]) auto
qed (auto simp: inj_on_def candidate_inj)

function free_index :: "string list \<Rightarrow> string \<Rightarrow> nat \<Rightarrow> nat" where
  \<comment> \<open>\<open>while (seenIds.has(id)) ...\<close> from \<open>duplicateIndex = k\<close>\<close>
  "free_index seen base k =
    (if 0 < k \<and> candidate_id base k \<in> set seen then free_index seen base (k + 1) else k)"
  by pat_completeness auto
termination
proof (relation "measure (\<lambda>(seen, base, k). card {j. k \<le> j \<and> 0 < j \<and> candidate_id base j \<in> set seen})")
  fix seen base and k :: nat
  assume k: "0 < k \<and> candidate_id base k \<in> set seen"
  let ?A = "\<lambda>k. {j. k \<le> j \<and> 0 < j \<and> candidate_id base j \<in> set seen}"
  have "?A (k + 1) \<subset> ?A k"
  proof (rule psubsetI)
    show "?A (k + 1) \<subseteq> ?A k" by (rule Collect_mono) simp
    have "k \<in> ?A k" using k by blast
    moreover have "k \<notin> ?A (k + 1)" by simp
    ultimately show "?A (k + 1) \<noteq> ?A k" by metis
  qed
  then have "card (?A (k + 1)) < card (?A k)" by (rule psubset_card_mono [OF candidates_finite])
  then show "((seen, base, k + 1), seen, base, k) \<in>
      measure (\<lambda>(seen, base, k). card {j. k \<le> j \<and> 0 < j \<and> candidate_id base j \<in> set seen})"
    by simp
qed simp

declare free_index.simps [simp del]

lemma free_index_fresh: "0 < k \<Longrightarrow> candidate_id base (free_index seen base k) \<notin> set seen"
proof (induction seen base k rule: free_index.induct)
  case (1 seen base k)
  show ?case
  proof (cases "candidate_id base k \<in> set seen")
    case True
    then have "free_index seen base k = free_index seen base (k + 1)"
      using 1(2) by (simp add: free_index.simps [of seen base k])
    then show ?thesis using 1 True by simp
  next
    case False
    then show ?thesis by (simp add: free_index.simps [of seen base k])
  qed
qed

section \<open>Tabs\<close>

definition appendActiveTerminalTab :: "terminal_state \<Rightarrow> terminal_tab \<Rightarrow> terminal_state" where
  "appendActiveTerminalTab s tab =
    s\<lparr>ts_tabs := ts_tabs s @ [tab], ts_activeTabId := Some (tab_id tab), ts_expanded := True\<rparr>"

definition removeTerminalTab :: "terminal_state \<Rightarrow> string \<Rightarrow> terminal_state" where
  "removeTerminalTab s tabId =
    (case find_index (\<lambda>t. tab_id t = tabId) (ts_tabs s) of
       None \<Rightarrow> s
     | Some closedIndex \<Rightarrow>
         let tabs = filter (\<lambda>t. tab_id t \<noteq> tabId) (ts_tabs s) in
         if length tabs = 0 then DEFAULT_TERMINAL_STATE
         else
           let activeTabStillOpen = list_ex (\<lambda>t. Some (tab_id t) = ts_activeTabId s) tabs;
               nearestTab = tabs ! min closedIndex (length tabs - 1) in
           s\<lparr>ts_tabs := tabs,
             ts_activeTabId := (if activeTabStillOpen then ts_activeTabId s
                                else Some (tab_id nearestTab))\<rparr>)"

definition tab_item :: "json \<Rightarrow> (string option \<times> string) option" where
  \<comment> \<open>the id, if there is one, and the directory of a stored tab that is kept\<close>
  "tab_item item =
    (case json_field item ''cwd'' of
       Some (JStr cwd) \<Rightarrow>
         if cwd = [] then None
         else Some (case json_field item ''id'' of
                      Some (JStr i) \<Rightarrow> if i \<noteq> [] then Some i else None | _ \<Rightarrow> None, cwd)
     | _ \<Rightarrow> None)"

fun normalize_loop :: "json list \<Rightarrow> nat \<Rightarrow> string list \<Rightarrow> terminal_tab list \<Rightarrow> terminal_tab list" where
  \<comment> \<open>\<open>tabs.reduce(...)\<close> with the set \<open>seenIds\<close>\<close>
  "normalize_loop [] index seen acc = acc"
| "normalize_loop (item # items) index seen acc =
    (case tab_item item of
       None \<Rightarrow> normalize_loop items (index + 1) seen acc
     | Some (i, cwd) \<Rightarrow>
         let baseId = or_else i (createLegacyTerminalTabId cwd index);
             newId = candidate_id baseId (free_index seen baseId 1) in
         normalize_loop items (index + 1) (seen @ [newId]) (acc @ [\<lparr>tab_id = newId, tab_cwd = cwd\<rparr>]))"

definition normalizeTerminalTabs :: "json list \<Rightarrow> terminal_tab list" where
  "normalizeTerminalTabs tabs = normalize_loop tabs 0 [] []"

definition findDefaultTerminalTab :: "platform \<Rightarrow> terminal_tab list \<Rightarrow> string option \<Rightarrow> terminal_tab option" where
  "findDefaultTerminalTab platform tabs cwd =
    (if \<not> truthy cwd then None else List.find (\<lambda>t. isSamePath (Some (tab_cwd t)) cwd platform) tabs)"

definition shortenTerminalPath :: "string \<Rightarrow> string" where
  "shortenTerminalPath path =
    (let normalized = toComparablePath path;
         segments = filter (\<lambda>s. s \<noteq> []) (js_split slash normalized) in
     if length segments \<le> 2 then (if normalized \<noteq> [] then normalized else path)
     else ''~/'' @ js_join [slash] (drop (length segments - 2) segments))"

definition terminalTabLabel :: "platform \<Rightarrow> terminal_tab \<Rightarrow> terminal_tab list \<Rightarrow> string" where
  "terminalTabLabel platform tab tabs =
    (let baseLabel = shortenTerminalPath (tab_cwd tab);
         matching = filter (\<lambda>c. isSamePath (Some (tab_cwd c)) (Some (tab_cwd tab)) platform) tabs in
     if length matching \<le> 1 then baseLabel
     else
       let duplicateIndex = (case find_index (\<lambda>c. tab_id c = tab_id tab) matching of
                               Some i \<Rightarrow> i + 1 | None \<Rightarrow> 0) in
       baseLabel @ '' ('' @ nat_string 10 duplicateIndex @ '')'')"

definition terminalTabButtonId :: "string \<Rightarrow> string" where
  "terminalTabButtonId tabId = ''terminal-tab-'' @ tabId"

definition terminalTabPanelId :: "string \<Rightarrow> string" where
  "terminalTabPanelId tabId = ''terminal-tabpanel-'' @ tabId"

section \<open>Places\<close>

definition json_object :: "json option \<Rightarrow> json option" where
  \<comment> \<open>a value with \<open>v && typeof v === "object"\<close>\<close>
  "json_object v = (case v of Some (JObj fs) \<Rightarrow> Some (JObj fs) | Some (JArr xs) \<Rightarrow> Some (JArr xs) | _ \<Rightarrow> None)"

definition opt_json_field :: "json option \<Rightarrow> string \<Rightarrow> json option" where
  \<comment> \<open>\<open>v?.k\<close>\<close>
  "opt_json_field v k = Option.bind v (\<lambda>j. json_field j k)"

definition normalizeFloatingTerminalRect :: "json option \<Rightarrow> floating_rect option" where
  "normalizeFloatingTerminalRect v =
    (case json_object v of
       None \<Rightarrow> None
     | Some p \<Rightarrow>
         let num = (\<lambda>k. parseFiniteNumber (json_field p k));
             x = or_option (num ''x'') (num ''left''); y = or_option (num ''y'') (num ''top'');
             width = num ''width''; height = num ''height'' in
         if x = None \<or> y = None \<or> width = None \<or> height = None then None
         else Some \<lparr>fr_x = the x, fr_y = the y, fr_width = the width, fr_height = the height\<rparr>)"

record floating_limits =
  minX :: js_number
  minY :: js_number
  maxRight :: js_number
  maxBottom :: js_number
  maxWidth :: js_number
  maxHeight :: js_number

definition viewport_width :: "viewport option \<Rightarrow> js_number" where
  "viewport_width vp = (case vp of None \<Rightarrow> 1280 | Some v \<Rightarrow> max (innerWidth v) 1)"

definition viewport_height :: "viewport option \<Rightarrow> js_number" where
  "viewport_height vp = (case vp of None \<Rightarrow> 800 | Some v \<Rightarrow> max (innerHeight v) 1)"

definition getFloatingTerminalLimits :: "viewport option \<Rightarrow> floating_limits" where
  "getFloatingTerminalLimits vp =
    (let right = viewport_width vp - TERMINAL_FLOATING_MARGIN_PX;
         bottom = viewport_height vp - TERMINAL_FLOATING_MARGIN_PX in
     \<lparr>minX = TERMINAL_FLOATING_MARGIN_PX, minY = TERMINAL_FLOATING_MARGIN_PX,
      maxRight = right, maxBottom = bottom,
      maxWidth = max TERMINAL_FLOATING_MIN_WIDTH_PX (right - TERMINAL_FLOATING_MARGIN_PX),
      maxHeight = max TERMINAL_FLOATING_MIN_HEIGHT_PX (bottom - TERMINAL_FLOATING_MARGIN_PX)\<rparr>)"

definition resolveTerminalDockHeight :: "viewport option \<Rightarrow> json option \<Rightarrow> js_number" where
  "resolveTerminalDockHeight vp height =
    (let parsed = or_else (parseFiniteNumber height) TERMINAL_DOCK_DEFAULT_HEIGHT_PX;
         viewportMax =
           (case vp of
              None \<Rightarrow> TERMINAL_DOCK_MAX_HEIGHT_PX
            | Some v \<Rightarrow> max TERMINAL_DOCK_MIN_HEIGHT_PX
                          (min TERMINAL_DOCK_MAX_HEIGHT_PX (innerHeight v * (65 / 100)))) in
     clampValue parsed TERMINAL_DOCK_MIN_HEIGHT_PX viewportMax)"

definition resolveTerminalDockedPlacement :: "viewport option \<Rightarrow> json option \<Rightarrow> docked_placement" where
  "resolveTerminalDockedPlacement vp v =
    (let size = opt_json_field v ''size'';
         region = (if opt_json_field v ''region'' = Some (JStr ''rightRail'') then RightRail else ChatColumn)
     in (getDefaultTerminalDockedPlacement region)\<lparr>dp_height :=
          resolveTerminalDockHeight vp (opt_json_field size ''height'')\<rparr>)"

datatype bounds_mode = Settle | Drag

definition resolveFloatingTerminalRect ::
  "viewport option \<Rightarrow> floating_rect option \<Rightarrow> bounds_mode \<Rightarrow> floating_rect" where
  "resolveFloatingTerminalRect vp rect mode =
    (let l = getFloatingTerminalLimits vp;
         width = clampValue
           (or_else (map_option fr_width rect) (min TERMINAL_FLOATING_DEFAULT_WIDTH_PX (maxWidth l)))
           TERMINAL_FLOATING_MIN_WIDTH_PX (maxWidth l);
         height = clampValue
           (or_else (map_option fr_height rect) (min TERMINAL_FLOATING_DEFAULT_HEIGHT_PX (maxHeight l)))
           TERMINAL_FLOATING_MIN_HEIGHT_PX (maxHeight l);
         defaultX = maxRight l - width;
         defaultY = maxBottom l - height - TERMINAL_FLOATING_MARGIN_PX * 2;
         grab = TERMINAL_FLOATING_DRAG_GRABBABLE_PX;
         (minXBound, maxXBound, minYBound, maxYBound) =
           (case mode of
              Drag \<Rightarrow> (TERMINAL_FLOATING_MARGIN_PX + grab - width, maxRight l - grab,
                       minY l, maxBottom l - grab)
            | Settle \<Rightarrow> (minX l, maxRight l - width, minY l, maxBottom l - height)) in
     \<lparr>fr_x = clampValue (or_else (map_option fr_x rect) defaultX) minXBound maxXBound,
      fr_y = clampValue (or_else (map_option fr_y rect) defaultY) minYBound maxYBound,
      fr_width = width, fr_height = height\<rparr>)"

definition edge_left :: "resize_edge \<Rightarrow> bool" where
  \<comment> \<open>\<open>edge.includes("left")\<close>, and so on\<close>
  "edge_left e \<longleftrightarrow> e \<in> {EdgeLeft, EdgeTopLeft, EdgeBottomLeft}"
definition edge_right :: "resize_edge \<Rightarrow> bool" where
  "edge_right e \<longleftrightarrow> e \<in> {EdgeRight, EdgeTopRight, EdgeBottomRight}"
definition edge_top :: "resize_edge \<Rightarrow> bool" where
  "edge_top e \<longleftrightarrow> e \<in> {EdgeTop, EdgeTopLeft, EdgeTopRight}"
definition edge_bottom :: "resize_edge \<Rightarrow> bool" where
  "edge_bottom e \<longleftrightarrow> e \<in> {EdgeBottom, EdgeBottomLeft, EdgeBottomRight}"

definition resolveFloatingTerminalResizeRect ::
  "viewport option \<Rightarrow> floating_rect \<Rightarrow> resize_edge \<Rightarrow> js_number \<Rightarrow> js_number \<Rightarrow> floating_rect" where
  "resolveFloatingTerminalResizeRect vp start edge deltaX deltaY =
    (let l = getFloatingTerminalLimits vp;
         dx = clampValue deltaX (max (minX l - fr_x start) (fr_width start - maxWidth l))
                (fr_width start - TERMINAL_FLOATING_MIN_WIDTH_PX);
         r1 = (if edge_left edge
               then start\<lparr>fr_x := fr_x start + dx, fr_width := fr_width start - dx\<rparr> else start);
         r2 = (if edge_right edge
               then r1\<lparr>fr_width := clampValue (fr_width start + deltaX) TERMINAL_FLOATING_MIN_WIDTH_PX
                        (max TERMINAL_FLOATING_MIN_WIDTH_PX (maxRight l - fr_x start))\<rparr> else r1);
         dy = clampValue deltaY (max (minY l - fr_y start) (fr_height start - maxHeight l))
                (fr_height start - TERMINAL_FLOATING_MIN_HEIGHT_PX);
         r3 = (if edge_top edge
               then r2\<lparr>fr_y := fr_y start + dy, fr_height := fr_height start - dy\<rparr> else r2) in
     if edge_bottom edge
     then r3\<lparr>fr_height := clampValue (fr_height start + deltaY) TERMINAL_FLOATING_MIN_HEIGHT_PX
               (max TERMINAL_FLOATING_MIN_HEIGHT_PX (maxBottom l - fr_y start))\<rparr> else r3)"

definition getDefaultFloatingTerminalRect :: "viewport option \<Rightarrow> floating_rect" where
  "getDefaultFloatingTerminalRect vp = resolveFloatingTerminalRect vp None Settle"

definition isTerminalDockDropZone :: "viewport option \<Rightarrow> js_number \<Rightarrow> bool" where
  "isTerminalDockDropZone vp clientY \<longleftrightarrow>
     viewport_height vp - TERMINAL_DOCK_DROP_ZONE_HEIGHT_PX \<le> clientY"

definition nullish_or :: "json option \<Rightarrow> json option \<Rightarrow> json option" where
  \<comment> \<open>\<open>a ?? b\<close>\<close>
  "nullish_or a b = (case a of None \<Rightarrow> b | Some JNull \<Rightarrow> b | Some v \<Rightarrow> Some v)"

definition validateTerminalPlacement :: "viewport option \<Rightarrow> json option \<Rightarrow> terminal_placement" where
  "validateTerminalPlacement vp v =
    (case json_object v of
       None \<Rightarrow> Docked DEFAULT_TERMINAL_PLACEMENT
     | Some p \<Rightarrow>
         let kind = json_field p ''kind'' in
         if kind = Some (JStr ''floating'') then
           Floating
             (resolveFloatingTerminalRect vp
               (normalizeFloatingTerminalRect
                 (nullish_or (json_field p ''rect'') (json_field p ''floatingBounds''))) Settle)
             (Some (resolveTerminalDockedPlacement vp (json_field p ''lastDockedPlacement'')))
         else if kind = Some (JStr ''docked'') then Docked (resolveTerminalDockedPlacement vp (Some p))
         else Docked DEFAULT_TERMINAL_PLACEMENT)"

section \<open>Stored states\<close>

definition json_string_list :: "json option \<Rightarrow> string list" where
  \<comment> \<open>the non-empty strings of an array; nothing for another value\<close>
  "json_string_list v =
    (case v of
       Some (JArr xs) \<Rightarrow>
         concat (map (\<lambda>x. case x of JStr s \<Rightarrow> if s \<noteq> [] then [s] else [] | _ \<Rightarrow> []) xs)
     | _ \<Rightarrow> [])"

fun unique_paths :: "platform \<Rightarrow> string list \<Rightarrow> string list \<Rightarrow> string list" where
  \<comment> \<open>the first path of each identity key\<close>
  "unique_paths platform keys [] = []"
| "unique_paths platform keys (p # ps) =
    (let key = toIdentityKey p platform in
     if key \<in> set keys then unique_paths platform keys ps
     else p # unique_paths platform (key # keys) ps)"

definition head_option :: "'a list \<Rightarrow> 'a option" where
  \<comment> \<open>\<open>xs[0]\<close>\<close>
  "head_option xs = (case xs of [] \<Rightarrow> None | x # _ \<Rightarrow> Some x)"

definition legacy_tabs :: "string list \<Rightarrow> terminal_tab list" where
  "legacy_tabs paths =
    map (\<lambda>(i, cwd). \<lparr>tab_id = createLegacyTerminalTabId cwd i, tab_cwd = cwd\<rparr>)
      (zip [0..<length paths] paths)"

definition validateTerminalState ::
  "platform \<Rightarrow> viewport option \<Rightarrow> json option \<Rightarrow> terminal_state \<Rightarrow> terminal_state" where
  "validateTerminalState platform vp v defaults =
    (case json_object v of
       None \<Rightarrow> defaults
     | Some p \<Rightarrow>
         (case json_field p ''tabs'' of
            Some (JArr items) \<Rightarrow>
              let tabs = normalizeTerminalTabs items;
                  activeTabId =
                    (case json_field p ''activeTabId'' of
                       Some (JStr a) \<Rightarrow>
                         if list_ex (\<lambda>t. tab_id t = a) tabs then Some a
                         else map_option tab_id (head_option tabs)
                     | _ \<Rightarrow> map_option tab_id (head_option tabs));
                  raw = json_field p ''placement'';
                  input = (if raw = Some (JStr ''floating'')
                           then Some (JObj ([(''kind'', JStr ''floating'')] @
                             (case json_field p ''floatingBounds'' of
                                Some b \<Rightarrow> [(''floatingBounds'', b)] | None \<Rightarrow> [])))
                           else raw);
                  placement = (if length tabs > 0 then validateTerminalPlacement vp input
                               else Docked DEFAULT_TERMINAL_PLACEMENT) in
              \<lparr>ts_tabs = tabs, ts_activeTabId = activeTabId,
               ts_expanded = (length tabs > 0 \<and> json_field p ''expanded'' = Some (JBool True)),
               ts_placement = placement\<rparr>
          | _ \<Rightarrow>
              let tabs = legacy_tabs (unique_paths platform [] (json_string_list (json_field p ''paths'')));
                  expandedPath = (case json_field p ''expandedPath'' of Some (JStr s) \<Rightarrow> Some s | _ \<Rightarrow> None);
                  activeTab = (if truthy expandedPath
                               then List.find (\<lambda>t. isSamePath (Some (tab_cwd t)) expandedPath platform) tabs
                               else None) in
              \<lparr>ts_tabs = tabs,
               ts_activeTabId = or_option (map_option tab_id activeTab)
                 (or_option (map_option tab_id (head_option tabs)) (ts_activeTabId defaults)),
               ts_expanded = (activeTab \<noteq> None),
               ts_placement = Docked DEFAULT_TERMINAL_PLACEMENT\<rparr>))"

section \<open>Laws of the clamp and of the tabs\<close>

lemma clamp_lower [simp]: "lo \<le> clampValue v lo hi"
  by (simp add: clampValue_def)

lemma clamp_upper: "lo \<le> hi \<Longrightarrow> clampValue v lo hi \<le> hi"
  by (simp add: clampValue_def)

lemma clamp_id [simp]: "lo \<le> v \<Longrightarrow> v \<le> hi \<Longrightarrow> clampValue v lo hi = v"
  by (simp add: clampValue_def)

lemma clamp_narrow: "hi \<le> lo \<Longrightarrow> clampValue v lo hi = lo"
  by (simp add: clampValue_def)

lemma clamp_again [simp]: "clampValue (clampValue v lo hi) lo hi = clampValue v lo hi"
  by (simp add: clampValue_def)

definition tab_json :: "terminal_tab \<Rightarrow> json" where
  \<comment> \<open>a tab as \<open>JSON.stringify\<close> writes it\<close>
  "tab_json t = JObj [(''id'', JStr (tab_id t)), (''cwd'', JStr (tab_cwd t))]"

abbreviation tab_ids :: "terminal_tab list \<Rightarrow> string list" where
  "tab_ids ts \<equiv> map tab_id ts"

definition tabs_wf :: "terminal_tab list \<Rightarrow> bool" where
  "tabs_wf ts \<longleftrightarrow> distinct (tab_ids ts) \<and> [] \<notin> set (tab_ids ts) \<and> [] \<notin> set (map tab_cwd ts)"

lemma tabs_wf_snoc:
  "tabs_wf (ts @ [t]) \<longleftrightarrow>
    tabs_wf ts \<and> tab_id t \<notin> set (tab_ids ts) \<and> tab_id t \<noteq> [] \<and> tab_cwd t \<noteq> []"
  by (auto simp: tabs_wf_def)

lemma tabs_wf_filter: "tabs_wf ts \<Longrightarrow> tabs_wf (filter p ts)"
  by (auto simp: tabs_wf_def distinct_map_filter)

lemma tab_json_simps [simp]:
  "json_field (tab_json t) ''id'' = Some (JStr (tab_id t))"
  "json_field (tab_json t) ''cwd'' = Some (JStr (tab_cwd t))"
  by (simp_all add: tab_json_def obj_get_def)

lemma tab_item_json:
  "tab_id t \<noteq> [] \<Longrightarrow> tab_cwd t \<noteq> [] \<Longrightarrow> tab_item (tab_json t) = Some (Some (tab_id t), tab_cwd t)"
  by (simp add: tab_item_def)

lemma tab_item_nonempty: "tab_item v = Some (i, c) \<Longrightarrow> c \<noteq> [] \<and> i \<noteq> Some []"
  by (auto simp: tab_item_def split: option.splits json.splits if_splits)

lemma candidate_nonempty [simp]: "base \<noteq> [] \<Longrightarrow> candidate_id base k \<noteq> []"
  by (simp add: candidate_id_def)

lemma legacy_id_nonempty [simp]: "createLegacyTerminalTabId c i \<noteq> []"
  by (simp add: createLegacyTerminalTabId_def)

lemma normalize_loop_wf:
  "tabs_wf acc \<Longrightarrow> seen = tab_ids acc \<Longrightarrow> tabs_wf (normalize_loop items index seen acc)"
proof (induction items index seen acc rule: normalize_loop.induct)
  case (2 item items index seen acc)
  show ?case
  proof (cases "tab_item item")
    case None
    then show ?thesis using 2 by simp
  next
    case (Some p)
    obtain i cwd where p: "p = (i, cwd)" by (cases p)
    let ?base = "or_else i (createLegacyTerminalTabId cwd index)"
    let ?t = "\<lparr>tab_id = candidate_id ?base (free_index seen ?base 1), tab_cwd = cwd\<rparr>"
    have "cwd \<noteq> []" and i: "i \<noteq> Some []" using tab_item_nonempty Some p by metis+
    moreover have "?base \<noteq> []" using i by (cases i) auto
    ultimately have "tabs_wf (acc @ [?t])"
      using 2(3,4) free_index_fresh [of 1 ?base seen] by (simp add: tabs_wf_snoc)
    then show ?thesis using 2(2) [OF Some p [symmetric] refl refl] 2(4) Some p by (simp add: Let_def)
  qed
qed simp

lemma normalize_loop_cwds:
  "map tab_cwd (normalize_loop items index seen acc) =
    map tab_cwd acc @ map snd (List.map_filter tab_item items)"
  by (induction items index seen acc rule: normalize_loop.induct)
    (auto simp: map_filter_simps Let_def split: option.split)

lemma normalize_loop_json:
  "tabs_wf (acc @ ts) \<Longrightarrow> normalize_loop (map tab_json ts) index (tab_ids acc) acc = acc @ ts"
proof (induction ts arbitrary: index acc)
  case (Cons t ts)
  have t: "tab_id t \<noteq> []" "tab_cwd t \<noteq> []" "tab_id t \<notin> set (tab_ids acc)"
    using Cons.prems by (auto simp: tabs_wf_def)
  have "free_index (tab_ids acc) (tab_id t) 1 = 1"
    using t(3) by (simp add: free_index.simps candidate_id_def)
  moreover have "tab_ids (acc @ [t]) = tab_ids acc @ [tab_id t]" by simp
  moreover have "normalize_loop (map tab_json ts) (index + 1) (tab_ids (acc @ [t])) (acc @ [t]) = (acc @ [t]) @ ts"
    using Cons.prems by (intro Cons.IH) simp
  ultimately show ?case using t by (cases t) (simp add: tab_item_json candidate_id_def Let_def)
qed simp

lemma normalize_wf [simp]: "tabs_wf (normalizeTerminalTabs items)"
  unfolding normalizeTerminalTabs_def by (rule normalize_loop_wf) (simp_all add: tabs_wf_def)

lemma normalize_json: "tabs_wf ts \<Longrightarrow> normalizeTerminalTabs (map tab_json ts) = ts"
  using normalize_loop_json [of "[]" ts 0] by (simp add: normalizeTerminalTabs_def)

text \<open>
  The tabs made of any stored list have distinct, non-empty ids; they are the stored tabs that
  have a directory, in their order; and storing them and reading them again changes nothing.
\<close>

theorem normalized_tabs_spec:
  "distinct (map tab_id (normalizeTerminalTabs items)) \<and>
   [] \<notin> set (map tab_id (normalizeTerminalTabs items)) \<and>
   map tab_cwd (normalizeTerminalTabs items) = map snd (List.map_filter tab_item items) \<and>
   normalizeTerminalTabs (map tab_json (normalizeTerminalTabs items)) = normalizeTerminalTabs items"
proof -
  have "tabs_wf (normalizeTerminalTabs items)" by simp
  then show ?thesis
    by (simp add: normalize_json tabs_wf_def) (simp add: normalizeTerminalTabs_def normalize_loop_cwds)
qed

end
