(* ===== verification/TerminalGeometry.thy ===== *)
theory TerminalGeometry
  imports TerminalState
begin

text \<open>
  Where a floating terminal may be (\<open>src/src/features/terminal/model/terminalState.ts\<close>): the
  rectangle at rest, while it is dragged, and while it is resized. Both axes obey the same laws,
  proved once for a position and a size on an axis.
\<close>

section \<open>Laws of the floating rectangle\<close>

lemmas limits_simps [terminal_px] = getFloatingTerminalLimits_def Let_def

lemma viewport_positive: "1 \<le> viewport_width vp" "1 \<le> viewport_height vp"
  by (simp_all add: viewport_width_def viewport_height_def split: option.split)

definition panel_width :: "viewport option \<Rightarrow> floating_rect option \<Rightarrow> js_number" where
  "panel_width vp rect = fr_width (resolveFloatingTerminalRect vp rect Settle)"
definition panel_height :: "viewport option \<Rightarrow> floating_rect option \<Rightarrow> js_number" where
  "panel_height vp rect = fr_height (resolveFloatingTerminalRect vp rect Settle)"

lemma resolve_size:
  "fr_width (resolveFloatingTerminalRect vp rect mode) = panel_width vp rect"
  "fr_height (resolveFloatingTerminalRect vp rect mode) = panel_height vp rect"
  by (simp_all add: panel_width_def panel_height_def resolveFloatingTerminalRect_def Let_def
      split: bounds_mode.split prod.split)

lemma panel_bounds:
  "280 \<le> panel_width vp rect" "panel_width vp rect \<le> max 280 (viewport_width vp - 32)"
  "220 \<le> panel_height vp rect" "panel_height vp rect \<le> max 220 (viewport_height vp - 32)"
  by (simp_all add: panel_width_def panel_height_def resolveFloatingTerminalRect_def terminal_px
      clampValue_def)

definition settled :: "viewport option \<Rightarrow> floating_rect \<Rightarrow> bool" where
  \<comment> \<open>a rectangle that resting leaves where it is\<close>
  "settled vp r \<longleftrightarrow> resolveFloatingTerminalRect vp (Some r) Settle = r"

definition axis_settled :: "js_number \<Rightarrow> js_number \<Rightarrow> js_number \<Rightarrow> js_number \<Rightarrow> bool" where
  \<comment> \<open>position \<open>p\<close> and size \<open>d\<close> on an axis of length \<open>n\<close>, with the least size \<open>m\<close>\<close>
  "axis_settled n m p d \<longleftrightarrow>
     m \<le> d \<and> d \<le> max m (n - 32) \<and> (if m \<le> n - 32 then 16 \<le> p \<and> p + d \<le> n - 16 else p = 16)"

lemma axis_clamp:
  assumes "m \<le> d" "d \<le> max m (n - 32)"
  shows "axis_settled n m (clampValue p 16 (n - 16 - d)) d"
proof (cases "m \<le> n - 32")
  case True
  then have "clampValue p 16 (n - 16 - d) \<le> n - 16 - d" using assms by (intro clamp_upper) simp
  then show ?thesis using assms True by (simp add: axis_settled_def)
next
  case False
  then have "n - 16 - d \<le> 16" using assms by simp
  then show ?thesis using assms False by (simp add: axis_settled_def clamp_narrow)
qed

lemma axis_fixed:
  assumes "axis_settled n m p d"
  shows "clampValue d m (max m (n - 32)) = d" and "clampValue p 16 (n - 16 - d) = p"
proof -
  show "clampValue d m (max m (n - 32)) = d" using assms by (simp add: axis_settled_def)
  show "clampValue p 16 (n - 16 - d) = p"
  proof (cases "m \<le> n - 32")
    case True
    then show ?thesis using assms by (intro clamp_id) (auto simp: axis_settled_def)
  next
    case False
    then have "n - 16 - d \<le> 16" "p = 16" using assms by (auto simp: axis_settled_def)
    then show ?thesis by (simp add: clamp_narrow)
  qed
qed

lemma resolve_settle_shape:
  "resolveFloatingTerminalRect vp (Some r) Settle =
    (let w = clampValue (fr_width r) 280 (max 280 (viewport_width vp - 32));
         h = clampValue (fr_height r) 220 (max 220 (viewport_height vp - 32)) in
     \<lparr>fr_x = clampValue (fr_x r) 16 (viewport_width vp - 16 - w),
      fr_y = clampValue (fr_y r) 16 (viewport_height vp - 16 - h), fr_width = w, fr_height = h\<rparr>)"
  by (simp add: resolveFloatingTerminalRect_def terminal_px)

lemma settled_axes:
  "settled vp r \<longleftrightarrow>
    axis_settled (viewport_width vp) 280 (fr_x r) (fr_width r) \<and>
    axis_settled (viewport_height vp) 220 (fr_y r) (fr_height r)"
proof
  assume s: "settled vp r"
  let ?w = "clampValue (fr_width r) 280 (max 280 (viewport_width vp - 32))"
  let ?h = "clampValue (fr_height r) 220 (max 220 (viewport_height vp - 32))"
  have eq: "fr_width r = ?w" "fr_height r = ?h"
    "fr_x r = clampValue (fr_x r) 16 (viewport_width vp - 16 - ?w)"
    "fr_y r = clampValue (fr_y r) 16 (viewport_height vp - 16 - ?h)"
    using s [unfolded settled_def resolve_settle_shape Let_def]
    by (metis floating_rect.select_convs(1,2,3,4))+
  have "axis_settled (viewport_width vp) 280 (clampValue (fr_x r) 16 (viewport_width vp - 16 - ?w)) ?w"
    "axis_settled (viewport_height vp) 220 (clampValue (fr_y r) 16 (viewport_height vp - 16 - ?h)) ?h"
    by (rule axis_clamp; simp add: clamp_upper)+
  then show "axis_settled (viewport_width vp) 280 (fr_x r) (fr_width r) \<and>
      axis_settled (viewport_height vp) 220 (fr_y r) (fr_height r)"
    using eq by metis
next
  assume a: "axis_settled (viewport_width vp) 280 (fr_x r) (fr_width r) \<and>
    axis_settled (viewport_height vp) 220 (fr_y r) (fr_height r)"
  note axis_fixed [OF a [THEN conjunct1]] axis_fixed [OF a [THEN conjunct2]]
  then show "settled vp r"
    unfolding settled_def resolve_settle_shape Let_def by (cases r) simp
qed

lemma resolve_settles [simp]: "settled vp (resolveFloatingTerminalRect vp rect Settle)"
proof -
  let ?r = "resolveFloatingTerminalRect vp rect Settle"
  have "fr_x ?r = clampValue (or_else (map_option fr_x rect) (viewport_width vp - 16 - panel_width vp rect))
      16 (viewport_width vp - 16 - panel_width vp rect)"
    "fr_y ?r = clampValue (or_else (map_option fr_y rect) (viewport_height vp - 16 - panel_height vp rect - 32))
      16 (viewport_height vp - 16 - panel_height vp rect)"
    by (simp_all add: panel_width_def panel_height_def resolveFloatingTerminalRect_def terminal_px)
  then show ?thesis
    by (simp add: settled_axes resolve_size axis_clamp panel_bounds)
qed

lemma floating_rect_facts:
  fixes vp rect
  defines "r \<equiv> resolveFloatingTerminalRect vp rect Settle"
    and "d \<equiv> resolveFloatingTerminalRect vp rect Drag"
    and "w \<equiv> viewport_width vp" and "h \<equiv> viewport_height vp"
  shows "fr_width r \<in> {280 .. max 280 (w - 32)} \<and> fr_height r \<in> {220 .. max 220 (h - 32)} \<and>
    (if 312 \<le> w then 16 \<le> fr_x r \<and> fr_x r + fr_width r \<le> w - 16 else fr_x r = 16) \<and>
    (if 252 \<le> h then 16 \<le> fr_y r \<and> fr_y r + fr_height r \<le> h - 16 else fr_y r = 16) \<and>
    resolveFloatingTerminalRect vp (Some r) Settle = r \<and>
    fr_width d = fr_width r \<and> fr_height d = fr_height r \<and>
    80 \<le> fr_x d + fr_width d \<and> fr_x d \<le> w - 80 \<and>
    (if 96 \<le> h then 16 \<le> fr_y d \<and> fr_y d \<le> h - 80 else fr_y d = 16)"
proof -
  have s: "settled vp r" by (simp add: r_def)
  have "axis_settled w 280 (fr_x r) (fr_width r)" "axis_settled h 220 (fr_y r) (fr_height r)"
    using s by (simp_all add: settled_axes w_def h_def)
  then have rest: "fr_width r \<in> {280 .. max 280 (w - 32)}" "fr_height r \<in> {220 .. max 220 (h - 32)}"
    "if 312 \<le> w then 16 \<le> fr_x r \<and> fr_x r + fr_width r \<le> w - 16 else fr_x r = 16"
    "if 252 \<le> h then 16 \<le> fr_y r \<and> fr_y r + fr_height r \<le> h - 16 else fr_y r = 16"
    by (simp_all add: axis_settled_def split: if_splits)
  have dx: "fr_x d = clampValue (or_else (map_option fr_x rect) (w - 16 - fr_width d)) (80 - fr_width d) (w - 80)"
    and dy: "fr_y d = clampValue (or_else (map_option fr_y rect) (h - 16 - fr_height d - 32)) 16 (h - 80)"
    by (simp_all add: d_def w_def h_def resolveFloatingTerminalRect_def terminal_px)
  have size: "fr_width d = fr_width r" "fr_height d = fr_height r"
    by (simp_all add: d_def r_def resolve_size)
  have "80 - fr_width d \<le> w - 80"
    using rest(1) size viewport_positive(1) [of vp] by (simp add: w_def)
  then have "80 - fr_width d \<le> fr_x d" "fr_x d \<le> w - 80"
    unfolding dx by (simp, intro clamp_upper)
  moreover have "if 96 \<le> h then 16 \<le> fr_y d \<and> fr_y d \<le> h - 80 else fr_y d = 16"
    unfolding dy by (simp add: clamp_upper clamp_narrow)
  ultimately show ?thesis using rest size s by (simp add: settled_def)
qed

text \<open>
  At rest a floating terminal has at least its least size and at most the window less its
  margins, and lies inside the margins where the window has room for the least size, else at the
  margin; settling again changes nothing. While dragged it has the same size, and a strip of at
  least 64 pixels stays within the margins to the left and right and, in a window of 96 pixels or
  more, below, and never leaves at the top.
\<close>

theorem floating_rect_spec:
  "let r = resolveFloatingTerminalRect vp rect Settle; d = resolveFloatingTerminalRect vp rect Drag;
       w = viewport_width vp; h = viewport_height vp in
   fr_width r \<in> {280 .. max 280 (w - 32)} \<and> fr_height r \<in> {220 .. max 220 (h - 32)} \<and>
   (if 312 \<le> w then 16 \<le> fr_x r \<and> fr_x r + fr_width r \<le> w - 16 else fr_x r = 16) \<and>
   (if 252 \<le> h then 16 \<le> fr_y r \<and> fr_y r + fr_height r \<le> h - 16 else fr_y r = 16) \<and>
   resolveFloatingTerminalRect vp (Some r) Settle = r \<and>
   fr_width d = fr_width r \<and> fr_height d = fr_height r \<and>
   80 \<le> fr_x d + fr_width d \<and> fr_x d \<le> w - 80 \<and>
   (if 96 \<le> h then 16 \<le> fr_y d \<and> fr_y d \<le> h - 80 else fr_y d = 16)"
  unfolding Let_def by (rule floating_rect_facts)

section \<open>Resizing at an edge\<close>

definition axis_free :: "bool \<Rightarrow> bool \<Rightarrow> js_number \<Rightarrow> js_number \<times> js_number \<Rightarrow> js_number \<times> js_number" where
  \<comment> \<open>position and size after the edge at the start or the end of an axis has followed the pointer\<close>
  "axis_free low high delta pd = (case pd of (p, d) \<Rightarrow>
     if low then (p + delta, d - delta) else if high then (p, d + delta) else (p, d))"

definition axis_resize :: "js_number \<Rightarrow> js_number \<Rightarrow> bool \<Rightarrow> bool \<Rightarrow> js_number \<Rightarrow>
    js_number \<times> js_number \<Rightarrow> js_number \<times> js_number" where
  "axis_resize n m low high delta pd = (case pd of (p, d) \<Rightarrow>
     if low then
       let e = clampValue delta (max (16 - p) (d - max m (n - 32))) (d - m) in (p + e, d - e)
     else if high then (p, clampValue (d + delta) m (max m (n - 16 - p))) else (p, d))"

lemma axis_resize_settled:
  assumes "axis_settled n m p d"
  shows "case axis_resize n m low high delta (p, d) of (q, e) \<Rightarrow>
    axis_settled n m q e \<and> (\<not> low \<longrightarrow> q = p) \<and> (\<not> high \<or> low \<longrightarrow> q + e = p + d)"
proof -
  let ?lo = "max (16 - p) (d - max m (n - 32))"
  define e where "e = clampValue delta ?lo (d - m)"
  have lohi: "?lo \<le> d - m" using assms by (auto simp: axis_settled_def split: if_splits)
  have e: "?lo \<le> e" "e \<le> d - m" using lohi by (simp_all add: e_def clamp_upper)
  define g where "g = clampValue (d + delta) m (max m (n - 16 - p))"
  have g: "m \<le> g" "g \<le> max m (n - 16 - p)" by (simp_all add: g_def clamp_upper)
  have "axis_settled n m (p + e) (d - e)"
    using assms e by (auto simp: axis_settled_def split: if_splits)
  moreover have "axis_settled n m p g"
    using assms g by (auto simp: axis_settled_def split: if_splits)
  ultimately show ?thesis
    using assms by (simp add: axis_resize_def Let_def flip: e_def g_def)
qed

lemma axis_resize_free:
  assumes "axis_settled n m p d" "case axis_free low high delta (p, d) of (q, e) \<Rightarrow> axis_settled n m q e"
  shows "axis_resize n m low high delta (p, d) = axis_free low high delta (p, d)"
  using assms by (auto simp: axis_resize_def axis_free_def axis_settled_def Let_def split: if_splits)

definition free_resize :: "floating_rect \<Rightarrow> resize_edge \<Rightarrow> js_number \<Rightarrow> js_number \<Rightarrow> floating_rect" where
  \<comment> \<open>the dragged edges move with the pointer and nothing else does\<close>
  "free_resize r edge dx dy =
    (let (x, w) = axis_free (edge_left edge) (edge_right edge) dx (fr_x r, fr_width r);
         (y, h) = axis_free (edge_top edge) (edge_bottom edge) dy (fr_y r, fr_height r) in
     \<lparr>fr_x = x, fr_y = y, fr_width = w, fr_height = h\<rparr>)"

lemma edges_exclusive: "\<not> (edge_left e \<and> edge_right e)" "\<not> (edge_top e \<and> edge_bottom e)"
  by (cases e; simp add: edge_left_def edge_right_def edge_top_def edge_bottom_def)+

lemma resize_axes:
  "resolveFloatingTerminalResizeRect vp r edge dx dy =
    (let (x, w) = axis_resize (viewport_width vp) 280 (edge_left edge) (edge_right edge) dx (fr_x r, fr_width r);
         (y, h) = axis_resize (viewport_height vp) 220 (edge_top edge) (edge_bottom edge) dy (fr_y r, fr_height r) in
     \<lparr>fr_x = x, fr_y = y, fr_width = w, fr_height = h\<rparr>)"
proof -
  have lims: "minX (getFloatingTerminalLimits vp) = 16" "minY (getFloatingTerminalLimits vp) = 16"
    "maxRight (getFloatingTerminalLimits vp) = viewport_width vp - 16"
    "maxBottom (getFloatingTerminalLimits vp) = viewport_height vp - 16"
    "maxWidth (getFloatingTerminalLimits vp) = max 280 (viewport_width vp - 32)"
    "maxHeight (getFloatingTerminalLimits vp) = max 220 (viewport_height vp - 32)"
    by (simp_all add: terminal_px)
  show ?thesis
    using edges_exclusive [of edge]
    by (cases r) (auto simp: resolveFloatingTerminalResizeRect_def axis_resize_def Let_def lims
        TERMINAL_FLOATING_MIN_WIDTH_PX_def TERMINAL_FLOATING_MIN_HEIGHT_PX_def)
qed

text \<open>
  Resizing a settled floating terminal at any edge or corner, by any movement of the pointer,
  leaves it settled; the edges that are not dragged stay where they are; and when following the
  pointer exactly gives a settled rectangle, that is the result.
\<close>

theorem resize_rect_spec:
  assumes "settled vp r"
  shows "settled vp (resolveFloatingTerminalResizeRect vp r edge dx dy) \<and>
    (case resolveFloatingTerminalResizeRect vp r edge dx dy of q \<Rightarrow>
      (edge_left edge \<or> fr_x q = fr_x r) \<and>
      (edge_right edge \<or> fr_x q + fr_width q = fr_x r + fr_width r) \<and>
      (edge_top edge \<or> fr_y q = fr_y r) \<and>
      (edge_bottom edge \<or> fr_y q + fr_height q = fr_y r + fr_height r)) \<and>
    (settled vp (free_resize r edge dx dy) \<longrightarrow>
      resolveFloatingTerminalResizeRect vp r edge dx dy = free_resize r edge dx dy)"
proof -
  have x: "axis_settled (viewport_width vp) 280 (fr_x r) (fr_width r)"
    and y: "axis_settled (viewport_height vp) 220 (fr_y r) (fr_height r)"
    using assms by (simp_all add: settled_axes)
  show ?thesis
    using axis_resize_settled [OF x, of "edge_left edge" "edge_right edge" dx]
      axis_resize_settled [OF y, of "edge_top edge" "edge_bottom edge" dy]
      axis_resize_free [OF x, of "edge_left edge" "edge_right edge" dx]
      axis_resize_free [OF y, of "edge_top edge" "edge_bottom edge" dy] edges_exclusive [of edge]
    by (auto simp: resize_axes free_resize_def settled_axes split: prod.splits)
qed

definition demo_viewport :: "viewport option" where
  "demo_viewport = Some \<lparr>innerWidth = 1000, innerHeight = 800\<rparr>"

definition demo_rect :: floating_rect where
  "demo_rect = \<lparr>fr_x = 100, fr_y = 100, fr_width = 400, fr_height = 300\<rparr>"

lemma demo_rect_settled: "settled demo_viewport demo_rect"
  by (simp add: settled_axes axis_settled_def demo_viewport_def demo_rect_def viewport_width_def
      viewport_height_def)

lemma resize_rect_spec_witness:
  "resolveFloatingTerminalResizeRect demo_viewport demo_rect EdgeTopLeft (-30) 20 =
    \<lparr>fr_x = 70, fr_y = 120, fr_width = 430, fr_height = 280\<rparr>"
proof -
  have f: "free_resize demo_rect EdgeTopLeft (-30) 20 =
      \<lparr>fr_x = 70, fr_y = 120, fr_width = 430, fr_height = 280\<rparr>"
    by (simp add: free_resize_def axis_free_def demo_rect_def edge_left_def edge_top_def)
  have "settled demo_viewport (free_resize demo_rect EdgeTopLeft (-30) 20)"
    by (simp add: f settled_axes axis_settled_def demo_viewport_def viewport_width_def viewport_height_def)
  then show ?thesis
    using resize_rect_spec [OF demo_rect_settled, of EdgeTopLeft "-30" 20] f by simp
qed

end
