(* ===== verification/TerminalController.thy ===== *)
theory TerminalController
  imports TerminalGeometry
begin

text \<open>
  The terminal panel of a chat (\<open>src/src/features/terminal/hooks/useTerminalController.ts\<close>) and
  where its state is kept (\<open>src/src/shared/hooks/usePersistedState.ts\<close>). The callbacks of the
  hook are functions on the controller: \<open>commitState\<close> applies an updater to the latest state.
  What goes to the outside (a notice, the focus handed back, commands to the terminal sessions) is
  appended to \<open>tc_effects\<close>.
\<close>

section \<open>The controller\<close>

datatype terminal_effect =
    NoWorkspaceNotice
  | FocusReturn
  | StopTerminalSession string bool
  | RestartTerminalSession string
  | SendTerminalCommand string string

text \<open>
  \<open>SendTerminalCommand\<close> stands for running the command in a live session or queueing it for one
  that is not there yet.
\<close>

record terminal_controller =
  tc_state :: terminal_state
  tc_sequence :: nat
  tc_closingTabId :: "string option"
  tc_focusRequest :: nat
  tc_effects :: "terminal_effect list"

record tab_seed =
  seed_uuid :: "string option"
  seed_now :: nat

text \<open>\<open>tab_seed\<close>: the random id, if the browser has one, and the clock, when a tab is made.\<close>

definition commitState :: "(terminal_state \<Rightarrow> terminal_state) \<Rightarrow> terminal_controller \<Rightarrow> terminal_controller" where
  "commitState f c = c\<lparr>tc_state := f (tc_state c)\<rparr>"

definition emit :: "terminal_effect \<Rightarrow> terminal_controller \<Rightarrow> terminal_controller" where
  "emit e c = c\<lparr>tc_effects := tc_effects c @ [e]\<rparr>"

definition requestFocus :: "terminal_controller \<Rightarrow> terminal_controller" where
  "requestFocus c = c\<lparr>tc_focusRequest := tc_focusRequest c + 1\<rparr>"

definition appendNewTab :: "tab_seed \<Rightarrow> string \<Rightarrow> terminal_controller \<Rightarrow> terminal_controller" where
  \<comment> \<open>\<open>appendActiveTerminalTab(current, createTerminalTab(cwd))\<close>\<close>
  "appendNewTab seed cwd c =
    (let (tab, n) = createTerminalTab (seed_uuid seed) (seed_now seed) (tc_sequence c) cwd in
     c\<lparr>tc_state := appendActiveTerminalTab (tc_state c) tab, tc_sequence := n\<rparr>)"

definition activateTab :: "string \<Rightarrow> bool \<Rightarrow> terminal_state \<Rightarrow> terminal_state" where
  "activateTab i ex s = s\<lparr>ts_activeTabId := Some i, ts_expanded := ex\<rparr>"

definition activeTab :: "terminal_controller \<Rightarrow> terminal_tab option" where
  "activeTab c = or_option
    (List.find (\<lambda>t. Some (tab_id t) = ts_activeTabId (tc_state c)) (ts_tabs (tc_state c)))
    (head_option (ts_tabs (tc_state c)))"

section \<open>Tabs\<close>

definition toggle :: "platform \<Rightarrow> tab_seed \<Rightarrow> string option \<Rightarrow> terminal_controller \<Rightarrow> terminal_controller" where
  "toggle platform seed cwd c =
    (if \<not> truthy cwd then emit NoWorkspaceNotice c
     else case findDefaultTerminalTab platform (ts_tabs (tc_state c)) cwd of
       None \<Rightarrow> appendNewTab seed (the cwd) (requestFocus c)
     | Some defaultTab \<Rightarrow>
         let nextExpanded = (if ts_activeTabId (tc_state c) = Some (tab_id defaultTab)
                             then \<not> ts_expanded (tc_state c) else True) in
         commitState (activateTab (tab_id defaultTab) nextExpanded)
           (if nextExpanded then requestFocus c else emit FocusReturn c))"

definition addTab :: "tab_seed \<Rightarrow> string option \<Rightarrow> terminal_controller \<Rightarrow> terminal_controller" where
  "addTab seed cwd c =
    (if \<not> truthy cwd then emit NoWorkspaceNotice c
     else appendNewTab seed (the cwd) (requestFocus c))"

definition openAtPath :: "platform \<Rightarrow> tab_seed \<Rightarrow> string \<Rightarrow> terminal_controller \<Rightarrow> terminal_controller" where
  "openAtPath platform seed path c =
    (let normalizedPath = js_trim path in
     if normalizedPath = [] then emit NoWorkspaceNotice c
     else let c = requestFocus c in
       case findDefaultTerminalTab platform (ts_tabs (tc_state c)) (Some normalizedPath) of
         Some defaultTab \<Rightarrow> commitState (activateTab (tab_id defaultTab) True) c
       | None \<Rightarrow> appendNewTab seed normalizedPath c)"

definition selectTab :: "string \<Rightarrow> terminal_controller \<Rightarrow> terminal_controller" where
  "selectTab tabId c =
    (if \<not> list_ex (\<lambda>t. tab_id t = tabId) (ts_tabs (tc_state c)) then c
     else commitState (activateTab tabId True) (requestFocus c))"

definition collapse :: "terminal_controller \<Rightarrow> terminal_controller" where
  "collapse c =
    (if \<not> ts_expanded (tc_state c) then c
     else commitState (\<lambda>s. s\<lparr>ts_expanded := False\<rparr>) (emit FocusReturn c))"

definition expand :: "terminal_controller \<Rightarrow> terminal_controller" where
  "expand c =
    (if length (ts_tabs (tc_state c)) = 0 then c
     else commitState (\<lambda>s. s\<lparr>ts_expanded := True\<rparr>) (requestFocus c))"

definition removeTab :: "string \<Rightarrow> bool \<Rightarrow> terminal_controller \<Rightarrow> terminal_controller" where
  "removeTab tabId userInitiated c0 =
    (let c = c0\<lparr>tc_closingTabId := None\<rparr>;
         nextState = removeTerminalTab (tc_state c) tabId;
         d = c\<lparr>tc_state := nextState\<rparr> in
     if \<not> userInitiated then d
     else if length (ts_tabs nextState) = 0 then emit FocusReturn d
     else if ts_activeTabId nextState \<noteq> ts_activeTabId (tc_state c) then requestFocus d
     else d)"

definition session_key :: "string \<Rightarrow> string \<Rightarrow> string" where
  "session_key sessionId tabId = sessionId @ '':'' @ tabId"

definition closeTab :: "string \<Rightarrow> string \<Rightarrow> terminal_controller \<Rightarrow> terminal_controller" where
  "closeTab sessionId tabId c =
    removeTab tabId True (emit (StopTerminalSession (session_key sessionId tabId) True) c)"

definition restart :: "string \<Rightarrow> terminal_controller \<Rightarrow> terminal_controller" where
  "restart sessionId c =
    (case activeTab c of
       None \<Rightarrow> c
     | Some tab \<Rightarrow>
         let d = emit (RestartTerminalSession (session_key sessionId (tab_id tab))) c in
         if \<not> ts_expanded (tc_state c) then expand d else d)"

definition runCommand ::
  "platform \<Rightarrow> tab_seed \<Rightarrow> string \<Rightarrow> string option \<Rightarrow> string \<Rightarrow> bool \<Rightarrow>
    terminal_controller \<Rightarrow> terminal_controller" where
  "runCommand platform seed sessionId cwd command newTerminal c =
    (if \<not> truthy cwd then emit NoWorkspaceNotice c
     else
       let d = (if newTerminal then appendNewTab seed (the cwd) c
                else case findDefaultTerminalTab platform (ts_tabs (tc_state c)) cwd of
                  Some defaultTab \<Rightarrow> commitState (activateTab (tab_id defaultTab) True) c
                | None \<Rightarrow> appendNewTab seed (the cwd) c);
           tabs = ts_tabs (tc_state d);
           targetTab = (if newTerminal then (if tabs = [] then None else Some (last tabs))
                        else findDefaultTerminalTab platform tabs cwd) in
       case targetTab of
         None \<Rightarrow> d
       | Some t \<Rightarrow> emit (SendTerminalCommand (session_key sessionId (tab_id t)) command) d)"

definition sessionExited :: "string \<Rightarrow> string \<Rightarrow> bool \<Rightarrow> terminal_controller \<Rightarrow> terminal_controller" where
  \<comment> \<open>the status subscription of a tab; the flag: exited, reported by the backend\<close>
  "sessionExited sessionId tabId backendExit c =
    (if \<not> backendExit then c
     else removeTab tabId False (emit (StopTerminalSession (session_key sessionId tabId) False) c))"

section \<open>Places\<close>

definition region_name :: "dock_region \<Rightarrow> string" where
  "region_name r = (case r of ChatColumn \<Rightarrow> ''chatColumn'' | RightRail \<Rightarrow> ''rightRail'')"

definition slot_name :: "dock_region \<Rightarrow> string" where
  "slot_name r = (case r of ChatColumn \<Rightarrow> ''bottom'' | RightRail \<Rightarrow> ''belowContext'')"

definition docked_json :: "docked_placement \<Rightarrow> json" where
  "docked_json d = JObj [(''kind'', JStr ''docked''), (''region'', JStr (region_name (dp_region d))),
     (''slot'', JStr (slot_name (dp_region d))), (''size'', JObj [(''height'', JNum (dp_height d))])]"

definition lastDocked :: "terminal_placement \<Rightarrow> docked_placement option" where
  "lastDocked p = (case p of Docked d \<Rightarrow> Some d | Floating r d \<Rightarrow> d)"

definition setPlacement :: "terminal_placement \<Rightarrow> terminal_controller \<Rightarrow> terminal_controller" where
  "setPlacement p = commitState (\<lambda>s. s\<lparr>ts_placement := p\<rparr>)"

definition popped :: "terminal_placement \<Rightarrow> terminal_state \<Rightarrow> terminal_state" where
  "popped p s =
    s\<lparr>ts_expanded := (if length (ts_tabs s) > 0 then True else ts_expanded s), ts_placement := p\<rparr>"

definition popOut :: "viewport option \<Rightarrow> terminal_controller \<Rightarrow> terminal_controller" where
  "popOut vp c = requestFocus (commitState (\<lambda>s.
     popped (Floating
       (case ts_placement s of
          Floating r d \<Rightarrow> resolveFloatingTerminalRect vp (Some r) Settle
        | Docked d \<Rightarrow> getDefaultFloatingTerminalRect vp)
       (lastDocked (ts_placement s))) s) c)"

definition popOutToRect ::
  "viewport option \<Rightarrow> floating_rect \<Rightarrow> bounds_mode \<Rightarrow> terminal_controller \<Rightarrow> terminal_controller" where
  "popOutToRect vp rect mode c = requestFocus (commitState (\<lambda>s.
     popped (Floating (resolveFloatingTerminalRect vp (Some rect) mode)
       (lastDocked (ts_placement s))) s) c)"

definition dockToRegion :: "viewport option \<Rightarrow> dock_region \<Rightarrow> terminal_controller \<Rightarrow> terminal_controller" where
  "dockToRegion vp region c = requestFocus (commitState (\<lambda>s.
     let previous = lastDocked (ts_placement s);
         sameRegion = (if map_option dp_region previous = Some region then the previous
                       else getDefaultTerminalDockedPlacement region) in
     s\<lparr>ts_placement := Docked (resolveTerminalDockedPlacement vp (Some (docked_json sameRegion)))\<rparr>) c)"

definition updateFloatingRect ::
  "viewport option \<Rightarrow> floating_rect \<Rightarrow> bounds_mode \<Rightarrow> terminal_controller \<Rightarrow> terminal_controller" where
  "updateFloatingRect vp rect mode = commitState (\<lambda>s.
     case ts_placement s of
       Floating r d \<Rightarrow> s\<lparr>ts_placement := Floating (resolveFloatingTerminalRect vp (Some rect) mode) d\<rparr>
     | Docked d \<Rightarrow> s)"

definition updateDockHeight :: "viewport option \<Rightarrow> js_number \<Rightarrow> terminal_controller \<Rightarrow> terminal_controller" where
  "updateDockHeight vp h = commitState (\<lambda>s.
     let docked = (case ts_placement s of
           Docked d \<Rightarrow> d | Floating r d \<Rightarrow> or_else d (resolveTerminalDockedPlacement vp None));
         next = resolveTerminalDockedPlacement vp
           (Some (docked_json (docked\<lparr>dp_height := resolveTerminalDockHeight vp (Some (JNum h))\<rparr>))) in
     case ts_placement s of
       Floating r d \<Rightarrow> s\<lparr>ts_placement := Floating r (Some next)\<rparr>
     | Docked d \<Rightarrow> s\<lparr>ts_placement := Docked next\<rparr>)"

definition handleResize :: "viewport option \<Rightarrow> terminal_controller \<Rightarrow> terminal_controller" where
  "handleResize vp = commitState (\<lambda>s.
     case ts_placement s of
       Floating r d \<Rightarrow> s\<lparr>ts_placement := Floating (resolveFloatingTerminalRect vp (Some r) Settle) d\<rparr>
     | Docked d \<Rightarrow> s)"

section \<open>Keeping the state\<close>

definition placement_json :: "terminal_placement \<Rightarrow> json" where
  "placement_json p =
    (case p of
       Docked d \<Rightarrow> docked_json d
     | Floating r d \<Rightarrow>
         JObj ([(''kind'', JStr ''floating''),
                (''rect'', JObj [(''x'', JNum (fr_x r)), (''y'', JNum (fr_y r)),
                   (''width'', JNum (fr_width r)), (''height'', JNum (fr_height r))])] @
               (case d of None \<Rightarrow> [] | Some d \<Rightarrow> [(''lastDockedPlacement'', docked_json d)])))"

definition state_json :: "terminal_state \<Rightarrow> json" where
  "state_json s = JObj [(''tabs'', JArr (map tab_json (ts_tabs s))),
     (''activeTabId'', case ts_activeTabId s of None \<Rightarrow> JNull | Some a \<Rightarrow> JStr a),
     (''expanded'', JBool (ts_expanded s)), (''placement'', placement_json (ts_placement s))]"

definition TERMINAL_STORAGE_KEY_PREFIX :: string where
  "TERMINAL_STORAGE_KEY_PREFIX = ''goose:chat-terminal-workspaces''"

definition terminal_key :: "string \<Rightarrow> string" where
  "terminal_key sessionId = TERMINAL_STORAGE_KEY_PREFIX @ '':'' @ sessionId"

definition persistTerminalState :: "string \<Rightarrow> terminal_state \<Rightarrow> client_env \<Rightarrow> client_env" where
  "persistTerminalState sessionId s = ls_set (terminal_key sessionId) (state_json s)"

definition loadTerminalState :: "platform \<Rightarrow> viewport option \<Rightarrow> string \<Rightarrow> client_env \<Rightarrow> terminal_state" where
  "loadTerminalState platform vp sessionId e =
    (case ls_get e (terminal_key sessionId) of
       None \<Rightarrow> DEFAULT_TERMINAL_STATE
     | Some v \<Rightarrow> validateTerminalState platform vp (Some v) DEFAULT_TERMINAL_STATE)"

section \<open>Actions\<close>

datatype terminal_event =
    Toggle tab_seed "string option"
  | AddTab tab_seed "string option"
  | OpenAtPath tab_seed string
  | SelectTab string
  | Collapse
  | Expand
  | RemoveTab string bool
  | CloseTab string
  | Restart
  | RunCommand tab_seed "string option" string bool
  | SessionExited string bool
  | SetPlacement terminal_placement
  | PopOut "viewport option"
  | PopOutToRect "viewport option" floating_rect bounds_mode
  | DockToRegion "viewport option" dock_region
  | UpdateFloatingRect "viewport option" floating_rect bounds_mode
  | UpdateDockHeight "viewport option" js_number
  | WindowResize "viewport option"
  | Remount "viewport option" client_env

fun terminal_step :: "platform \<Rightarrow> string \<Rightarrow> terminal_event \<Rightarrow> terminal_controller \<Rightarrow> terminal_controller" where
  "terminal_step pf k (Toggle seed cwd) = toggle pf seed cwd"
| "terminal_step pf k (AddTab seed cwd) = addTab seed cwd"
| "terminal_step pf k (OpenAtPath seed path) = openAtPath pf seed path"
| "terminal_step pf k (SelectTab i) = selectTab i"
| "terminal_step pf k Collapse = collapse"
| "terminal_step pf k Expand = expand"
| "terminal_step pf k (RemoveTab i u) = removeTab i u"
| "terminal_step pf k (CloseTab i) = closeTab k i"
| "terminal_step pf k Restart = restart k"
| "terminal_step pf k (RunCommand seed cwd cmd new) = runCommand pf seed k cwd cmd new"
| "terminal_step pf k (SessionExited i b) = sessionExited k i b"
| "terminal_step pf k (SetPlacement p) = setPlacement p"
| "terminal_step pf k (PopOut vp) = popOut vp"
| "terminal_step pf k (PopOutToRect vp r m) = popOutToRect vp r m"
| "terminal_step pf k (DockToRegion vp r) = dockToRegion vp r"
| "terminal_step pf k (UpdateFloatingRect vp r m) = updateFloatingRect vp r m"
| "terminal_step pf k (UpdateDockHeight vp h) = updateDockHeight vp h"
| "terminal_step pf k (WindowResize vp) = handleResize vp"
| "terminal_step pf k (Remount vp e) = commitState (\<lambda>s. loadTerminalState pf vp k e)"

section \<open>The invariant\<close>

definition docked_ok :: "docked_placement \<Rightarrow> bool" where
  "docked_ok d \<longleftrightarrow> 120 \<le> dp_height d \<and> dp_height d \<le> 560"

definition placement_ok :: "terminal_placement \<Rightarrow> bool" where
  "placement_ok p \<longleftrightarrow>
    (case p of Docked d \<Rightarrow> docked_ok d
     | Floating r d \<Rightarrow> 280 \<le> fr_width r \<and> 220 \<le> fr_height r \<and> (case d of None \<Rightarrow> True | Some d \<Rightarrow> docked_ok d))"

definition active_in :: "string option \<Rightarrow> terminal_tab list \<Rightarrow> bool" where
  "active_in a tabs \<longleftrightarrow> (case a of None \<Rightarrow> tabs = [] | Some i \<Rightarrow> i \<in> set (tab_ids tabs))"

lemma active_in_simps [simp]:
  "active_in None tabs \<longleftrightarrow> tabs = []" "active_in (Some i) tabs \<longleftrightarrow> i \<in> set (tab_ids tabs)"
  by (simp_all add: active_in_def)

definition terminal_ok :: "terminal_state \<Rightarrow> bool" where
  "terminal_ok s \<longleftrightarrow> tabs_wf (ts_tabs s) \<and> active_in (ts_activeTabId s) (ts_tabs s) \<and> (ts_tabs s = [] \<longrightarrow> \<not> ts_expanded s) \<and>
     placement_ok (ts_placement s)"

definition seed_fresh :: "tab_seed \<Rightarrow> terminal_controller \<Rightarrow> bool" where
  "seed_fresh seed c \<longleftrightarrow>
     fst (createTerminalTabId (seed_uuid seed) (seed_now seed) (tc_sequence c)) \<notin>
       set (tab_ids (ts_tabs (tc_state c)))"

fun terminal_enabled :: "terminal_event \<Rightarrow> terminal_controller \<Rightarrow> bool" where
  \<comment> \<open>a new tab gets an id that no tab has; a placement set from outside has admissible sizes\<close>
  "terminal_enabled (Toggle seed cwd) c = seed_fresh seed c"
| "terminal_enabled (AddTab seed cwd) c = seed_fresh seed c"
| "terminal_enabled (OpenAtPath seed path) c = seed_fresh seed c"
| "terminal_enabled (RunCommand seed cwd cmd new) c = seed_fresh seed c"
| "terminal_enabled (SetPlacement p) c = placement_ok p"
| "terminal_enabled _ c = True"

lemma tc_state_frames [simp]:
  "tc_state (emit e c) = tc_state c" "tc_state (requestFocus c) = tc_state c"
  "tc_state (commitState f c) = f (tc_state c)"
  "tc_sequence (emit e c) = tc_sequence c" "tc_sequence (requestFocus c) = tc_sequence c"
  "seed_fresh seed (emit e c) = seed_fresh seed c" "seed_fresh seed (requestFocus c) = seed_fresh seed c"
  by (simp_all add: emit_def requestFocus_def commitState_def seed_fresh_def)

lemma dock_height_bounds:
  "120 \<le> resolveTerminalDockHeight vp h" "resolveTerminalDockHeight vp h \<le> 560"
  by (auto simp: resolveTerminalDockHeight_def clampValue_def terminal_px split: option.split)

lemma resolve_docked_ok [simp]: "docked_ok (resolveTerminalDockedPlacement vp v)"
  by (simp add: docked_ok_def resolveTerminalDockedPlacement_def dock_height_bounds Let_def)

lemma default_docked_ok [simp]: "docked_ok DEFAULT_TERMINAL_PLACEMENT"
  "docked_ok (getDefaultTerminalDockedPlacement r)"
  by (simp_all add: docked_ok_def DEFAULT_TERMINAL_PLACEMENT_def getDefaultTerminalDockedPlacement_def terminal_px)

lemma resolve_size_ok [simp]:
  "280 \<le> fr_width (resolveFloatingTerminalRect vp r m)" "220 \<le> fr_height (resolveFloatingTerminalRect vp r m)"
  by (simp_all add: resolve_size panel_bounds)

lemma validate_placement_ok [simp]: "placement_ok (validateTerminalPlacement vp v)"
  by (auto simp: validateTerminalPlacement_def placement_ok_def Let_def split: option.split)

lemma default_state_ok [simp]: "terminal_ok DEFAULT_TERMINAL_STATE"
  by (simp add: terminal_ok_def DEFAULT_TERMINAL_STATE_def tabs_wf_def placement_ok_def)

lemma lastDocked_ok: "placement_ok p \<Longrightarrow> lastDocked p = Some d \<Longrightarrow> docked_ok d"
  by (auto simp: lastDocked_def placement_ok_def split: terminal_placement.splits option.splits)

lemma active_head [simp]: "active_in (map_option tab_id (head_option tabs)) tabs"
  by (simp add: head_option_def split: list.split)

section \<open>Tabs keep the invariant\<close>

lemma append_tab_ok:
  "terminal_ok s \<Longrightarrow> tab_id t \<notin> set (tab_ids (ts_tabs s)) \<Longrightarrow> tab_id t \<noteq> [] \<Longrightarrow> tab_cwd t \<noteq> [] \<Longrightarrow>
    terminal_ok (appendActiveTerminalTab s t)"
  by (simp add: terminal_ok_def appendActiveTerminalTab_def tabs_wf_snoc)

lemma with_tabs_ok:
  "terminal_ok s \<Longrightarrow> tabs_wf tabs \<Longrightarrow> tabs \<noteq> [] \<Longrightarrow> active_in a tabs \<Longrightarrow>
    terminal_ok (s\<lparr>ts_tabs := tabs, ts_activeTabId := a\<rparr>)"
  by (simp add: terminal_ok_def)

definition after_close :: "terminal_state \<Rightarrow> string \<Rightarrow> nat \<Rightarrow> terminal_tab list \<Rightarrow> string option" where
  \<comment> \<open>the active tab when tab \<open>i\<close>, which was the \<open>n\<close>th, is gone\<close>
  "after_close s i n tabs =
    (if list_ex (\<lambda>t. Some (tab_id t) = ts_activeTabId s) tabs then ts_activeTabId s
     else Some (tab_id (tabs ! min n (length tabs - 1))))"

lemma remove_tab_eq:
  "removeTerminalTab s i =
    (case find_index (\<lambda>t. tab_id t = i) (ts_tabs s) of
       None \<Rightarrow> s
     | Some n \<Rightarrow> let tabs = filter (\<lambda>t. tab_id t \<noteq> i) (ts_tabs s) in
         if tabs = [] then DEFAULT_TERMINAL_STATE
         else s\<lparr>ts_tabs := tabs, ts_activeTabId := after_close s i n tabs\<rparr>)"
  by (simp only: removeTerminalTab_def after_close_def Let_def length_0_conv)

lemma after_close_in: "tabs \<noteq> [] \<Longrightarrow> active_in (after_close s i n tabs) tabs"
proof -
  assume "tabs \<noteq> []"
  then have "min n (length tabs - 1) < length tabs" by (cases tabs) auto
  then have "tabs ! min n (length tabs - 1) \<in> set tabs" by (rule nth_mem)
  moreover have "active_in (ts_activeTabId s) tabs"
    if "t \<in> set tabs" "Some (tab_id t) = ts_activeTabId s" for t
    using that by (auto simp flip: that(2))
  ultimately show ?thesis by (auto simp: after_close_def list_ex_iff)
qed

lemma remove_tab_ok: "terminal_ok s \<Longrightarrow> terminal_ok (removeTerminalTab s i)"
  by (auto simp: remove_tab_eq Let_def after_close_in intro!: with_tabs_ok tabs_wf_filter split: option.split)
    (simp add: terminal_ok_def)

lemma new_tab_ok:
  assumes "terminal_ok (tc_state c)" "seed_fresh seed c" "cwd \<noteq> []"
  shows "terminal_ok (tc_state (appendNewTab seed cwd c))"
proof -
  obtain i n where t: "createTerminalTabId (seed_uuid seed) (seed_now seed) (tc_sequence c) = (i, n)"
    by (meson surj_pair)
  have "i \<noteq> []" using t by (auto simp: createTerminalTabId_def split: option.splits)
  then show ?thesis using assms t
    by (simp add: appendNewTab_def createTerminalTab_def Let_def seed_fresh_def append_tab_ok)
qed

lemma activate_ok:
  "terminal_ok s \<Longrightarrow> i \<in> set (tab_ids (ts_tabs s)) \<Longrightarrow> terminal_ok (activateTab i e s)"
  by (auto simp: terminal_ok_def activateTab_def)

lemma default_tab_in:
  "findDefaultTerminalTab pf tabs cwd = Some t \<Longrightarrow> t \<in> set tabs"
  by (auto simp: findDefaultTerminalTab_def find_Some_iff split: if_splits)

lemma default_tab_ok:
  "terminal_ok s \<Longrightarrow> findDefaultTerminalTab pf (ts_tabs s) cwd = Some t \<Longrightarrow>
    terminal_ok (activateTab (tab_id t) e s)"
  by (rule activate_ok) (auto dest: default_tab_in)

lemma expanded_ok:
  "terminal_ok s \<Longrightarrow> ts_tabs s \<noteq> [] \<or> \<not> e \<Longrightarrow> terminal_ok (s\<lparr>ts_expanded := e\<rparr>)"
  by (auto simp: terminal_ok_def)

lemma placement_set_ok:
  "terminal_ok s \<Longrightarrow> placement_ok p \<Longrightarrow> terminal_ok (s\<lparr>ts_placement := p\<rparr>)"
  by (simp add: terminal_ok_def)

lemma popped_ok: "terminal_ok s \<Longrightarrow> placement_ok p \<Longrightarrow> terminal_ok (popped p s)"
  by (auto simp: terminal_ok_def popped_def)

section \<open>Stored states\<close>

lemma legacy_id_index: "createLegacyTerminalTabId c i = createLegacyTerminalTabId d j \<Longrightarrow> i = j"
proof -
  assume "createLegacyTerminalTabId c i = createLegacyTerminalTabId d j"
  then have "nat_string 10 i @ CHR ''-'' # hashTerminalTabPath c = nat_string 10 j @ CHR ''-'' # hashTerminalTabPath d"
    by (simp add: createLegacyTerminalTabId_def)
  then have "takeWhile (\<lambda>x. x \<noteq> CHR ''-'') (nat_string 10 i @ CHR ''-'' # hashTerminalTabPath c) =
      takeWhile (\<lambda>x. x \<noteq> CHR ''-'') (nat_string 10 j @ CHR ''-'' # hashTerminalTabPath d)" by simp
  moreover have "takeWhile (\<lambda>x. x \<noteq> CHR ''-'') (nat_string 10 n @ CHR ''-'' # xs) = nat_string 10 n" for n xs
    using nat_string_no_dash [of 10 n] by (subst takeWhile_append2) auto
  ultimately show "i = j" by (simp add: nat_string_inj)
qed

lemma set_unique_paths: "set (unique_paths pf keys ps) \<subseteq> set ps"
  by (induction pf keys ps rule: unique_paths.induct) (auto simp: Let_def)

lemma string_list_nonempty: "[] \<notin> set (json_string_list v)"
  by (auto simp: json_string_list_def split: option.splits json.splits if_splits)

lemma legacy_tabs_wf: "[] \<notin> set ps \<Longrightarrow> tabs_wf (legacy_tabs ps)"
proof -
  assume ps: "[] \<notin> set ps"
  have ids: "tab_ids (legacy_tabs ps) = map (\<lambda>i. createLegacyTerminalTabId (ps ! i) i) [0..<length ps]"
    and cwds: "map tab_cwd (legacy_tabs ps) = ps"
    by (auto simp: legacy_tabs_def intro!: nth_equalityI)
  have "distinct (tab_ids (legacy_tabs ps))"
    unfolding ids by (auto simp: distinct_map inj_on_def dest: legacy_id_index)
  moreover have "[] \<notin> set (tab_ids (legacy_tabs ps))" unfolding ids by (auto simp: eq_commute [of "[]"])
  ultimately show "tabs_wf (legacy_tabs ps)" using ps by (simp add: tabs_wf_def cwds del: set_map)
qed

lemma head_option_eq: "head_option xs = (if xs = [] then None else Some (hd xs))"
  by (simp add: head_option_def split: list.split)

lemma find_active:
  "List.find p tabs = Some t \<Longrightarrow> active_in (Some (tab_id t)) tabs \<and> tabs \<noteq> []"
  by (auto simp: find_Some_iff)

lemma validate_state_ok [simp]: "terminal_ok (validateTerminalState pf vp v DEFAULT_TERMINAL_STATE)"
proof (cases "json_object v")
  case None
  then show ?thesis by (simp add: validateTerminalState_def)
next
  case (Some p)
  show ?thesis
  proof (cases "\<exists>items. json_field p ''tabs'' = Some (JArr items)")
    case True
    then obtain items where items: "json_field p ''tabs'' = Some (JArr items)" by blast
    let ?tabs = "normalizeTerminalTabs items"
    have "active_in (if list_ex (\<lambda>t. tab_id t = a) ?tabs then Some a
        else map_option tab_id (head_option ?tabs)) ?tabs" for a
      by (auto simp: list_ex_iff)
    moreover have "placement_ok (Docked DEFAULT_TERMINAL_PLACEMENT)" by (simp add: placement_ok_def)
    ultimately show ?thesis using Some items
      by (auto simp: validateTerminalState_def Let_def terminal_ok_def split: option.split json.split)
  next
    case False
    let ?ps = "unique_paths pf [] (json_string_list (json_field p ''paths''))"
    have "[] \<notin> set ?ps" using set_unique_paths string_list_nonempty by blast
    then have wf: "tabs_wf (legacy_tabs ?ps)" by (rule legacy_tabs_wf)
    define active where "active =
      (let e = (case json_field p ''expandedPath'' of Some (JStr s) \<Rightarrow> Some s | _ \<Rightarrow> None) in
       if truthy e then List.find (\<lambda>t. isSamePath (Some (tab_cwd t)) e pf) (legacy_tabs ?ps) else None)"
    have eq: "validateTerminalState pf vp v DEFAULT_TERMINAL_STATE =
      \<lparr>ts_tabs = legacy_tabs ?ps,
       ts_activeTabId = or_option (map_option tab_id active)
         (or_option (map_option tab_id (head_option (legacy_tabs ?ps))) None),
       ts_expanded = (active \<noteq> None), ts_placement = Docked DEFAULT_TERMINAL_PLACEMENT\<rparr>"
      using Some False
      by (simp add: validateTerminalState_def Let_def active_def DEFAULT_TERMINAL_STATE_def
          split: option.split json.split)
    have act: "active = Some t \<Longrightarrow> active_in (Some (tab_id t)) (legacy_tabs ?ps) \<and> legacy_tabs ?ps \<noteq> []" for t
      unfolding active_def Let_def by (rule find_active) (auto split: if_splits)
    show ?thesis
      unfolding eq terminal_ok_def using wf act
      by (cases active) (auto simp: placement_ok_def head_option_eq)
  qed
qed

lemma load_ok [simp]: "terminal_ok (loadTerminalState pf vp k e)"
  by (simp add: loadTerminalState_def split: option.split)

section \<open>Every action keeps the invariant\<close>

lemma remove_event_ok: "terminal_ok (tc_state c) \<Longrightarrow> terminal_ok (tc_state (removeTab i u c))"
  by (simp add: removeTab_def Let_def remove_tab_ok)

lemma expand_ok: "terminal_ok (tc_state c) \<Longrightarrow> terminal_ok (tc_state (expand c))"
  by (simp add: expand_def expanded_ok)

lemma docking_ok:
  assumes "terminal_ok (tc_state c)"
  shows "terminal_ok (tc_state (popOut vp c))" "terminal_ok (tc_state (popOutToRect vp r m c))"
    "terminal_ok (tc_state (dockToRegion vp region c))" "terminal_ok (tc_state (updateFloatingRect vp r m c))"
    "terminal_ok (tc_state (updateDockHeight vp h c))" "terminal_ok (tc_state (handleResize vp c))"
proof -
  have p: "placement_ok (ts_placement (tc_state c))" using assms by (simp add: terminal_ok_def)
  have l: "case lastDocked (ts_placement (tc_state c)) of None \<Rightarrow> True | Some d \<Rightarrow> docked_ok d"
    using lastDocked_ok [OF p] by (simp split: option.split)
  have f: "placement_ok (Floating (resolveFloatingTerminalRect vp q m) d) \<longleftrightarrow>
      (case d of None \<Rightarrow> True | Some d \<Rightarrow> docked_ok d)" for q m d
    by (simp add: placement_ok_def)
  show "terminal_ok (tc_state (popOut vp c))"
    using l by (auto simp: popOut_def getDefaultFloatingTerminalRect_def f
        intro!: popped_ok [OF assms] split: terminal_placement.split)
  show "terminal_ok (tc_state (popOutToRect vp r m c))"
    using l by (auto simp: popOutToRect_def f intro!: popped_ok [OF assms])
  show "terminal_ok (tc_state (dockToRegion vp region c))"
    by (simp add: dockToRegion_def Let_def placement_set_ok assms placement_ok_def)
  show "terminal_ok (tc_state (updateFloatingRect vp r m c))" "terminal_ok (tc_state (handleResize vp c))"
    "terminal_ok (tc_state (updateDockHeight vp h c))"
    using p assms by (auto simp: updateFloatingRect_def handleResize_def updateDockHeight_def Let_def
        placement_ok_def intro!: placement_set_ok split: terminal_placement.split)
qed

lemma truthy_the [simp]: "truthy x \<Longrightarrow> the x \<noteq> []"
  by (cases x) auto

lemma restart_ok: "terminal_ok (tc_state c) \<Longrightarrow> terminal_ok (tc_state (restart k c))"
  by (simp add: restart_def Let_def expand_ok split: option.split)

lemma terminal_step_ok:
  "terminal_ok (tc_state c) \<Longrightarrow> terminal_enabled e c \<Longrightarrow> terminal_ok (tc_state (terminal_step pf k e c))"
proof (cases e)
  case (SelectTab i)
  assume "terminal_ok (tc_state c)"
  then show ?thesis using SelectTab by (auto simp: selectTab_def list_ex_iff intro!: activate_ok)
qed (auto simp: toggle_def addTab_def openAtPath_def collapse_def closeTab_def sessionExited_def
    runCommand_def setPlacement_def Let_def new_tab_ok default_tab_ok remove_event_ok expand_ok
    docking_ok restart_ok expanded_ok placement_set_ok split: option.split)

interpretation terminal: step_system "terminal_step pf k" terminal_enabled "\<lambda>c. terminal_ok (tc_state c)"
  for pf k
  by unfold_locales (rule terminal_step_ok)

section \<open>Properties\<close>

text \<open>
  C40. Across any sequence of actions in a terminal panel (tabs opened, selected, closed or ended by
  their process, the panel moved, resized, popped out and docked in windows of any size, the state
  read again from storage that may hold anything), the tab ids stay distinct and non-empty, every
  tab has a directory, the active tab is one of the tabs (there is none only without tabs), an empty
  panel is not expanded, and the sizes stay within their bounds. (The ids of new tabs are fresh; a
  placement set from outside has admissible sizes.)
\<close>

theorem terminal_invariant:
  assumes "terminal_ok (tc_state c)" and "terminal.run_enabled pf k es c"
  shows "terminal_ok (tc_state (terminal.run pf k es c))"
  by (rule terminal.run_inv [OF assms])

definition demo_controller :: terminal_controller where
  "demo_controller = \<lparr>tc_state = DEFAULT_TERMINAL_STATE, tc_sequence = 0, tc_closingTabId = None,
     tc_focusRequest = 0, tc_effects = []\<rparr>"

lemma terminal_invariant_witness:
  "terminal_ok (tc_state (terminal.run Mac ''s''
     [AddTab \<lparr>seed_uuid = None, seed_now = 5\<rparr> (Some ''/w''),
      AddTab \<lparr>seed_uuid = None, seed_now = 5\<rparr> (Some ''/v''), CloseTab ''tab-5-2'', PopOut None]
     demo_controller))"
  by (rule terminal_invariant)
    (simp_all add: demo_controller_def seed_fresh_def DEFAULT_TERMINAL_STATE_def addTab_def appendNewTab_def
      createTerminalTab_def createTerminalTabId_def appendActiveTerminalTab_def requestFocus_def
      nat_string.simps digit_char_def terminal_ok_def tabs_wf_def placement_ok_def del: tc_state_frames)

lemma filter_distinct_remove:
  assumes "distinct (map f xs)" "n < length xs"
  shows "filter (\<lambda>x. f x \<noteq> f (xs ! n)) xs = take n xs @ drop (Suc n) xs"
proof -
  have xs: "xs = take n xs @ xs ! n # drop (Suc n) xs" using assms(2) by (rule id_take_nth_drop)
  have d: "distinct (map f (take n xs @ xs ! n # drop (Suc n) xs))" using assms(1) xs by simp
  have "f (xs ! n) \<notin> f ` set (take n xs)" "f (xs ! n) \<notin> f ` set (drop (Suc n) xs)" using d by auto
  then have "filter (\<lambda>x. f x \<noteq> f (xs ! n)) (take n xs) = take n xs"
    "filter (\<lambda>x. f x \<noteq> f (xs ! n)) (drop (Suc n) xs) = drop (Suc n) xs"
    by (simp_all add: filter_id_conv image_iff) metis+
  then have "filter (\<lambda>x. f x \<noteq> f (xs ! n)) (take n xs @ xs ! n # drop (Suc n) xs) = take n xs @ drop (Suc n) xs"
    by simp
  then show ?thesis using xs by simp
qed

lemma find_distinct_index:
  assumes "distinct (map f xs)" "n < length xs"
  shows "find_index (\<lambda>x. f x = f (xs ! n)) xs = Some n"
proof -
  have "f (xs ! j) \<noteq> f (xs ! n)" if "j < n" for j
    using assms that nth_eq_iff_index_eq [OF assms(1), of j n] by simp
  then show ?thesis using assms(2) by (simp add: find_index_Some)
qed

text \<open>
  Closing a tab removes it and no other, keeps the order, the place and whether the panel is
  expanded; the active tab stays active, or when it was the one closed, the tab that takes its
  position is, or the new last tab when it was the last. Closing the only tab resets the panel.
\<close>

theorem close_tab_spec:
  assumes "terminal_ok s" and "n < length (ts_tabs s)" and "i = tab_id (ts_tabs s ! n)"
  shows "removeTerminalTab s i =
    (if length (ts_tabs s) = 1 then DEFAULT_TERMINAL_STATE
     else s\<lparr>ts_tabs := take n (ts_tabs s) @ drop (Suc n) (ts_tabs s),
            ts_activeTabId :=
              (if ts_activeTabId s \<noteq> Some i then ts_activeTabId s
               else Some (tab_id (ts_tabs s ! (if Suc n < length (ts_tabs s) then Suc n else n - 1))))\<rparr>)"
proof -
  let ?ts = "ts_tabs s" and ?tabs = "take n (ts_tabs s) @ drop (Suc n) (ts_tabs s)"
  have d: "distinct (tab_ids ?ts)" and a: "active_in (ts_activeTabId s) ?ts"
    using assms(1) by (simp_all add: terminal_ok_def tabs_wf_def)
  have f: "filter (\<lambda>t. tab_id t \<noteq> i) ?ts = ?tabs" "find_index (\<lambda>t. tab_id t = i) ?ts = Some n"
    using filter_distinct_remove [OF d assms(2)] find_distinct_index [OF d assms(2)] assms(3) by simp_all
  have len: "length ?tabs = length ?ts - 1" using assms(2) by simp
  have ids: "set (tab_ids ?tabs) = set (tab_ids ?ts) - {i}"
    by (simp add: f(1) [symmetric] del: set_map) (auto simp: f(1) [symmetric])
  have act: "list_ex (\<lambda>t. Some (tab_id t) = ts_activeTabId s) ?tabs \<longleftrightarrow> ts_activeTabId s \<noteq> Some i"
  proof (cases "ts_activeTabId s")
    case None
    then show ?thesis using a assms(2) by simp
  next
    case (Some b)
    have "list_ex (\<lambda>t. Some (tab_id t) = ts_activeTabId s) ?tabs \<longleftrightarrow> b \<in> set (tab_ids ?tabs)"
      unfolding Some list_ex_iff by auto
    moreover have "b \<in> set (tab_ids ?tabs) \<longleftrightarrow> b \<noteq> i"
      unfolding ids using a Some by (simp only: active_in_simps Diff_iff singleton_iff) blast
    ultimately show ?thesis by (simp only: Some option.inject)
  qed
  have near: "?tabs ! min n (length ?tabs - 1) = ?ts ! (if Suc n < length ?ts then Suc n else n - 1)"
    if "length ?ts \<noteq> 1"
  proof (cases "Suc n < length ?ts")
    case True
    then show ?thesis by (simp add: nth_append min_def)
  next
    case False
    then have "n = length ?ts - 1" using assms(2) by simp
    then show ?thesis using that assms(2) by (simp add: nth_append min_def)
  qed
  have none: "?tabs = [] \<longleftrightarrow> length ?ts = 1"
    using len assms(2) by (metis One_nat_def Suc_diff_1 diff_self_eq_0 length_0_conv less_nat_zero_code not_gr0)
  show ?thesis
  proof (cases "length ?ts = 1")
    case True
    then have "?tabs = []" using none by blast
    then show ?thesis by (simp only: remove_tab_eq f Let_def option.case True simp_thms if_True)
  next
    case False
    then have "?tabs \<noteq> []" using none by blast
    then show ?thesis
      by (simp only: remove_tab_eq f Let_def option.case False if_False after_close_def act near [OF False])
  qed
qed

definition demo_state :: terminal_state where
  "demo_state = \<lparr>ts_tabs = [\<lparr>tab_id = ''a'', tab_cwd = ''/a''\<rparr>, \<lparr>tab_id = ''b'', tab_cwd = ''/b''\<rparr>,
      \<lparr>tab_id = ''c'', tab_cwd = ''/c''\<rparr>],
     ts_activeTabId = Some ''b'', ts_expanded = True, ts_placement = Docked DEFAULT_TERMINAL_PLACEMENT\<rparr>"

lemma demo_state_ok: "terminal_ok demo_state"
  by (simp add: terminal_ok_def demo_state_def tabs_wf_def placement_ok_def)

lemma close_tab_spec_witness: "ts_activeTabId (removeTerminalTab demo_state ''b'') = Some ''c''"
proof -
  have "1 < length (ts_tabs demo_state)" "''b'' = tab_id (ts_tabs demo_state ! 1)"
    by (simp_all add: demo_state_def)
  from close_tab_spec [OF demo_state_ok this]
  show ?thesis by (simp add: demo_state_def)
qed

section \<open>Reading the state again\<close>

definition dock_max :: "viewport option \<Rightarrow> js_number" where
  "dock_max vp = (case vp of None \<Rightarrow> 560 | Some v \<Rightarrow> max 120 (min 560 (innerHeight v * (65 / 100))))"

definition docked_again :: "viewport option \<Rightarrow> docked_placement \<Rightarrow> docked_placement" where
  "docked_again vp d = d\<lparr>dp_height := clampValue (dp_height d) 120 (dock_max vp)\<rparr>"

definition placed_again :: "viewport option \<Rightarrow> terminal_placement \<Rightarrow> terminal_placement" where
  \<comment> \<open>a place fitted to the window: docked heights cut, a floating rectangle settled\<close>
  "placed_again vp p =
    (case p of
       Docked d \<Rightarrow> Docked (docked_again vp d)
     | Floating r d \<Rightarrow> Floating (resolveFloatingTerminalRect vp (Some r) Settle)
         (Some (docked_again vp (or_else d (getDefaultTerminalDockedPlacement ChatColumn)))))"

definition placed_well :: "viewport option \<Rightarrow> terminal_placement \<Rightarrow> bool" where
  "placed_well vp p =
    (case p of
       Docked d \<Rightarrow> dp_height d \<le> dock_max vp
     | Floating r d \<Rightarrow> settled vp r \<and> (case d of None \<Rightarrow> False | Some d \<Rightarrow> dp_height d \<le> dock_max vp))"

lemma region_names [simp]: "(region_name r = ''rightRail'') = (r = RightRail)"
  by (cases r) (simp_all add: region_name_def)

lemma docked_json_fields [simp]:
  "json_field (docked_json d) ''kind'' = Some (JStr ''docked'')"
  "json_field (docked_json d) ''region'' = Some (JStr (region_name (dp_region d)))"
  "json_field (docked_json d) ''size'' = Some (JObj [(''height'', JNum (dp_height d))])"
  "json_object (Some (docked_json d)) = Some (docked_json d)"
  by (simp_all add: docked_json_def obj_get_def json_object_def)

lemma resolve_docked_json:
  "resolveTerminalDockedPlacement vp (Some (docked_json d)) = docked_again vp d"
proof -
  have "clampValue (dp_height d) 120 (dock_max vp) = resolveTerminalDockHeight vp (Some (JNum (dp_height d)))"
    by (simp add: resolveTerminalDockHeight_def dock_max_def parseFiniteNumber_def terminal_px split: option.split)
  then show ?thesis
    by (cases d; cases "dp_region d")
      (simp_all add: resolveTerminalDockedPlacement_def opt_json_field_def docked_again_def obj_get_def
        getDefaultTerminalDockedPlacement_def Let_def)
qed

lemma resolve_docked_none:
  "resolveTerminalDockedPlacement vp None = docked_again vp (getDefaultTerminalDockedPlacement ChatColumn)"
proof -
  have "clampValue 300 120 (dock_max vp) = resolveTerminalDockHeight vp None"
    by (simp add: resolveTerminalDockHeight_def dock_max_def parseFiniteNumber_def terminal_px split: option.split)
  then show ?thesis
    by (simp add: resolveTerminalDockedPlacement_def opt_json_field_def docked_again_def
        getDefaultTerminalDockedPlacement_def Let_def terminal_px)
qed

lemma normalize_rect_json:
  "normalizeFloatingTerminalRect (Some (JObj [(''x'', JNum (fr_x r)), (''y'', JNum (fr_y r)),
     (''width'', JNum (fr_width r)), (''height'', JNum (fr_height r))])) = Some r"
  by (cases r) (simp add: normalizeFloatingTerminalRect_def json_object_def parseFiniteNumber_def obj_get_def Let_def)

lemma placement_json_again:
  "validateTerminalPlacement vp (Some (placement_json p)) = placed_again vp p"
proof (cases p)
  case (Docked d)
  then show ?thesis
    by (simp add: validateTerminalPlacement_def placement_json_def placed_again_def resolve_docked_json Let_def)
next
  case (Floating r d)
  let ?rect = "JObj [(''x'', JNum (fr_x r)), (''y'', JNum (fr_y r)), (''width'', JNum (fr_width r)),
      (''height'', JNum (fr_height r))]"
  have f: "json_object (Some (placement_json p)) = Some (placement_json p)"
    "json_field (placement_json p) ''kind'' = Some (JStr ''floating'')"
    "json_field (placement_json p) ''rect'' = Some ?rect"
    "json_field (placement_json p) ''lastDockedPlacement'' = map_option docked_json d"
    unfolding Floating by (simp_all add: placement_json_def json_object_def obj_get_def split: option.split)
  have "nullish_or (Some ?rect) b = Some ?rect" for b by (simp add: nullish_or_def)
  then have "validateTerminalPlacement vp (Some (placement_json p)) =
      Floating (resolveFloatingTerminalRect vp (Some r) Settle)
        (Some (resolveTerminalDockedPlacement vp (map_option docked_json d)))"
    by (simp add: validateTerminalPlacement_def f normalize_rect_json Let_def)
  then show ?thesis
    unfolding Floating by (cases d) (simp_all add: placed_again_def resolve_docked_json resolve_docked_none)
qed

lemma placed_well_again:
  "placement_ok p \<Longrightarrow> placed_well vp p \<Longrightarrow> placed_again vp p = p"
  by (auto simp: placement_ok_def placed_well_def placed_again_def docked_again_def docked_ok_def settled_def
      split: terminal_placement.splits option.splits)

lemma validate_state_json:
  assumes "terminal_ok s"
  shows "validateTerminalState pf vp (Some (state_json s)) defaults =
    s\<lparr>ts_placement := (if ts_tabs s = [] then Docked DEFAULT_TERMINAL_PLACEMENT
                       else placed_again vp (ts_placement s))\<rparr>"
proof -
  have wf: "normalizeTerminalTabs (map tab_json (ts_tabs s)) = ts_tabs s"
    using assms by (simp add: terminal_ok_def normalize_json)
  have f: "json_object (Some (state_json s)) = Some (state_json s)"
    "json_field (state_json s) ''tabs'' = Some (JArr (map tab_json (ts_tabs s)))"
    "json_field (state_json s) ''activeTabId'' =
      Some (case ts_activeTabId s of None \<Rightarrow> JNull | Some a \<Rightarrow> JStr a)"
    "json_field (state_json s) ''expanded'' = Some (JBool (ts_expanded s))"
    "json_field (state_json s) ''placement'' = Some (placement_json (ts_placement s))"
    by (simp_all add: state_json_def json_object_def obj_get_def)
  have p: "placement_json q \<noteq> JStr x" for q x
    by (simp add: placement_json_def docked_json_def split: terminal_placement.split)
  have e: "(ts_tabs s \<noteq> [] \<and> ts_expanded s) = ts_expanded s"
    using assms by (auto simp: terminal_ok_def)
  have a: "(case (case ts_activeTabId s of None \<Rightarrow> JNull | Some a \<Rightarrow> JStr a) of
       JStr a \<Rightarrow> if list_ex (\<lambda>t. tab_id t = a) (ts_tabs s) then Some a
                 else map_option tab_id (head_option (ts_tabs s))
     | _ \<Rightarrow> map_option tab_id (head_option (ts_tabs s))) = ts_activeTabId s"
    using assms by (cases "ts_activeTabId s") (auto simp: terminal_ok_def head_option_def list_ex_iff)
  have "validateTerminalState pf vp (Some (state_json s)) defaults =
      \<lparr>ts_tabs = ts_tabs s, ts_activeTabId = ts_activeTabId s, ts_expanded = ts_expanded s,
       ts_placement = (if ts_tabs s = [] then Docked DEFAULT_TERMINAL_PLACEMENT
                       else placed_again vp (ts_placement s))\<rparr>"
    by (simp add: validateTerminalState_def f wf p a e placement_json_again Let_def)
  then show ?thesis by (cases s) simp
qed

text \<open>
  What a panel keeps in storage is read again as it was: the same tabs, active tab and expanded
  mark, with the place fitted to the window (an empty panel is put back in the dock). A place that
  fits the window already, and that remembers where it was docked, is unchanged. Other sessions'
  panels are not touched.
\<close>

theorem terminal_reload:
  assumes "terminal_ok s" and "env_writable e"
  shows "loadTerminalState pf vp k (persistTerminalState k s e) =
      s\<lparr>ts_placement := (if ts_tabs s = [] then Docked DEFAULT_TERMINAL_PLACEMENT
                         else placed_again vp (ts_placement s))\<rparr> \<and>
    (placed_well vp (ts_placement s) \<longrightarrow> placed_again vp (ts_placement s) = ts_placement s) \<and>
    (j \<noteq> k \<longrightarrow> loadTerminalState pf vp j (persistTerminalState k s e) = loadTerminalState pf vp j e)"
proof -
  have "placement_ok (ts_placement s)" using assms(1) by (simp add: terminal_ok_def)
  then show ?thesis
    using assms(2)
    by (simp add: loadTerminalState_def persistTerminalState_def ls_get_set validate_state_json [OF assms(1)]
        terminal_key_def placed_well_again)
qed

definition demo_env :: client_env where
  "demo_env = \<lparr>hasWindow = True, hasTauri = False, lsAvailable = True, lsWritable = True, lsItems = [],
     nativeWrites = [], creationStates = []\<rparr>"

lemma terminal_reload_witness:
  "loadTerminalState Mac demo_viewport ''k'' (persistTerminalState ''k'' demo_state demo_env) = demo_state"
proof -
  have "env_writable demo_env" by (simp add: env_writable_def demo_env_def)
  from terminal_reload [OF demo_state_ok this, of Mac demo_viewport "''k''" "''k''"]
  show ?thesis
    by (simp add: demo_state_def placed_well_def dock_max_def demo_viewport_def DEFAULT_TERMINAL_PLACEMENT_def
        getDefaultTerminalDockedPlacement_def terminal_px_defs)
qed

end
