(* ===== verification/ProviderCatalog.thy ===== *)
theory ProviderCatalog
  imports JsStrings
begin

text \<open>
  Names of providers and what they stand for: the key two spellings share
  (\<open>src/src/features/providers/lib/providerKey.ts\<close>), the catalog of agents and model providers
  with its lookups (\<open>providerCatalog.ts\<close>, \<open>curatedProviders.ts\<close>,
  \<open>stores/providerCatalogStore.ts\<close>), and the provider of a model
  (\<open>lib/modelProviderResolution.ts\<close>). The catalog of the store is an argument.
\<close>

section \<open>Keys\<close>

definition letter_or_number :: "char \<Rightarrow> bool" where
  \<comment> \<open>\<open>[\p{L}\p{N}]\<close> below U+0100\<close>
  "letter_or_number c \<longleftrightarrow>
    (let n = of_char c :: nat in
     (48 \<le> n \<and> n \<le> 57) \<or> (65 \<le> n \<and> n \<le> 90) \<or> (97 \<le> n \<and> n \<le> 122) \<or>
     n \<in> {170, 178, 179, 181, 185, 186, 188, 189, 190} \<or> (192 \<le> n \<and> n \<le> 255 \<and> n \<noteq> 215 \<and> n \<noteq> 247))"

abbreviation underscore :: char where
  "underscore \<equiv> CHR ''_''"

fun replace_runs :: "string \<Rightarrow> string" where
  \<comment> \<open>\<open>replace(/[^\p{L}\p{N}]+/gu, "_")\<close>\<close>
  "replace_runs [] = []"
| "replace_runs (c # s) =
    (if letter_or_number c then c # replace_runs s
     else if s \<noteq> [] \<and> \<not> letter_or_number (hd s) then replace_runs s
     else underscore # replace_runs s)"

definition normalizeProviderKey :: "string \<Rightarrow> string" where
  "normalizeProviderKey v =
    js_join [underscore] (filter (\<lambda>s. s \<noteq> []) (js_split underscore (replace_runs (js_lower v))))"

section \<open>The catalog\<close>

datatype provider_category = AgentProvider | ModelProvider

record catalog_entry =
  ce_id :: string
  ce_displayName :: string
  ce_category :: provider_category
  ce_aliases :: "string list"

definition agent_entry :: "string \<Rightarrow> string \<Rightarrow> string list \<Rightarrow> catalog_entry" where
  "agent_entry i name aliases =
    \<lparr>ce_id = i, ce_displayName = name, ce_category = AgentProvider, ce_aliases = aliases\<rparr>"

definition CURATED_PROVIDER_CATALOG :: "catalog_entry list" where
  "CURATED_PROVIDER_CATALOG =
   [agent_entry ''goose'' ''Goose'' [''goose''],
    agent_entry ''claude-acp'' ''Claude Code'' [''claude-acp'', ''claude_code'', ''claude-code'', ''claude''],
    agent_entry ''codex-acp'' ''Codex'' [''codex-acp'', ''codex_cli'', ''codex-cli'', ''codex''],
    agent_entry ''copilot-acp'' ''Copilot'' [''copilot-acp'', ''copilot''],
    agent_entry ''amp-acp'' ''Amp'' [''amp-acp'', ''amp''],
    agent_entry ''cursor-agent'' ''Cursor Agent'' [''cursor-agent'', ''cursor''],
    agent_entry ''pi-acp'' ''Pi'' [''pi-acp'', ''pi''],
    \<lparr>ce_id = ''databricks_v2'', ce_displayName = ''Databricks AI Gateway'', ce_category = ModelProvider,
     ce_aliases = [''databricks_v2'', ''databricks'', ''databricks-ai-gateway'']\<rparr>]"

definition getCuratedAgentProviders :: "(string \<times> string) list" where
  "getCuratedAgentProviders =
    map (\<lambda>e. (ce_id e, ce_displayName e)) (filter (\<lambda>e. ce_category e = AgentProvider) CURATED_PROVIDER_CATALOG)"

definition mergeEntries :: "catalog_entry list \<Rightarrow> catalog_entry list \<Rightarrow> catalog_entry list" where
  "mergeEntries new entries = filter (\<lambda>e. ce_id e \<notin> set (map ce_id new)) entries @ new"

definition removeEntries :: "string list \<Rightarrow> catalog_entry list \<Rightarrow> catalog_entry list" where
  "removeEntries providerIds entries = filter (\<lambda>e. ce_id e \<notin> set providerIds) entries"

definition getCatalogEntryFromEntries :: "catalog_entry list \<Rightarrow> string \<Rightarrow> catalog_entry option" where
  "getCatalogEntryFromEntries entries providerId = List.find (\<lambda>e. ce_id e = providerId) entries"

definition getAgentProvidersFromEntries :: "catalog_entry list \<Rightarrow> catalog_entry list" where
  "getAgentProvidersFromEntries entries = filter (\<lambda>e. ce_category e = AgentProvider) entries"

definition getModelProvidersFromEntries :: "catalog_entry list \<Rightarrow> catalog_entry list" where
  "getModelProvidersFromEntries entries = filter (\<lambda>e. ce_category e = ModelProvider) entries"

definition matches_category :: "provider_category option \<Rightarrow> catalog_entry \<Rightarrow> bool" where
  "matches_category category e \<longleftrightarrow> category = None \<or> category = Some (ce_category e)"

definition resolveCatalogIdStrict ::
  "catalog_entry list \<Rightarrow> string \<Rightarrow> provider_category option \<Rightarrow> string option" where
  "resolveCatalogIdStrict entries providerId category =
    (case List.find (\<lambda>e. matches_category category e \<and> ce_id e = providerId) entries of
       Some e \<Rightarrow> Some (ce_id e)
     | None \<Rightarrow>
         let normalized = normalizeProviderKey providerId in
         map_option ce_id (List.find (\<lambda>e. matches_category category e \<and>
           list_ex (\<lambda>alias. normalizeProviderKey alias = normalized) (ce_id e # ce_aliases e)) entries))"

definition resolveAgentProviderCatalogIdStrictFromEntries :: "catalog_entry list \<Rightarrow> string \<Rightarrow> string option" where
  "resolveAgentProviderCatalogIdStrictFromEntries entries providerId =
    resolveCatalogIdStrict entries providerId (Some AgentProvider)"

definition resolveModelProviderCatalogIdStrictFromEntries :: "catalog_entry list \<Rightarrow> string \<Rightarrow> string option" where
  "resolveModelProviderCatalogIdStrictFromEntries entries providerId =
    resolveCatalogIdStrict entries providerId (Some ModelProvider)"

definition canonicalProviderCatalogIdFromEntries :: "catalog_entry list \<Rightarrow> string \<Rightarrow> string" where
  "canonicalProviderCatalogIdFromEntries entries providerId =
    or_else (resolveCatalogIdStrict entries providerId None) providerId"

definition ends_with :: "string \<Rightarrow> string \<Rightarrow> bool" where
  "ends_with suffix s \<longleftrightarrow> length suffix \<le> length s \<and> drop (length s - length suffix) s = suffix"

definition normalizedAliasMatchesCandidate :: "string \<Rightarrow> string \<Rightarrow> bool" where
  "normalizedAliasMatchesCandidate alias candidate =
    (let normalizedAlias = normalizeProviderKey alias in
     if normalizedAlias = [] then False
     else normalizedAlias = candidate \<or>
       (ends_with ''_acp'' candidate \<and> normalizedAlias = take (length candidate - 4) candidate))"

fun first_some :: "('a \<Rightarrow> 'b option) \<Rightarrow> 'a list \<Rightarrow> 'b option" where
  \<comment> \<open>a loop that returns the first result\<close>
  "first_some f [] = None"
| "first_some f (x # xs) = (case f x of Some y \<Rightarrow> Some y | None \<Rightarrow> first_some f xs)"

definition agent_by_alias :: "catalog_entry list \<Rightarrow> string \<Rightarrow> string option" where
  "agent_by_alias entries candidate =
    map_option ce_id (List.find (\<lambda>e. ce_category e = AgentProvider \<and>
      list_ex (\<lambda>alias. normalizedAliasMatchesCandidate alias candidate) (ce_id e # ce_aliases e)) entries)"

definition resolveAgentProviderCatalogIdFromEntries ::
  "catalog_entry list \<Rightarrow> string \<Rightarrow> string option \<Rightarrow> string option" where
  "resolveAgentProviderCatalogIdFromEntries entries providerId label =
    (let directMatch = resolveAgentProviderCatalogIdStrictFromEntries entries providerId in
     if truthy directMatch then directMatch
     else
       let normalizedCandidates =
             filter (\<lambda>s. s \<noteq> []) (map normalizeProviderKey [providerId, or_else label []]) in
       first_some (agent_by_alias entries) normalizedCandidates)"

section \<open>The provider of a model\<close>

record qualified_model =
  qm_id :: string
  qm_providerId :: "string option"

definition resolveConcreteModelProviderId ::
  "string option \<Rightarrow> string \<Rightarrow> catalog_entry list \<Rightarrow> string option" where
  "resolveConcreteModelProviderId providerId harnessId catalogEntries =
    (if \<not> truthy providerId then None
     else
       let canonicalId = canonicalProviderCatalogIdFromEntries catalogEntries (the providerId) in
       if canonicalId = ''goose'' then None
       else if harnessId = ''goose'' \<and>
         truthy (resolveAgentProviderCatalogIdStrictFromEntries catalogEntries canonicalId) then None
       else Some canonicalId)"

definition matching_provider_ids ::
  "string \<Rightarrow> catalog_entry list \<Rightarrow> qualified_model list \<Rightarrow> string list" where
  \<comment> \<open>the set \<open>matchingProviderIds\<close>, in insertion order\<close>
  "matching_provider_ids harnessId catalogEntries matchingModels =
    dedup (map the (filter truthy
      (map (\<lambda>m. resolveConcreteModelProviderId (qm_providerId m) harnessId catalogEntries) matchingModels)))"

definition resolveModelProviderId ::
  "string \<Rightarrow> string \<Rightarrow> string option \<Rightarrow> qualified_model list \<Rightarrow> catalog_entry list \<Rightarrow> string option" where
  "resolveModelProviderId harnessId modelId hintedModelProviderId models catalogEntries =
    (let matchingModels = filter (\<lambda>m. qm_id m = modelId) models;
         matchingProviderIds = matching_provider_ids harnessId catalogEntries matchingModels;
         hasUnqualifiedModel = list_ex (\<lambda>m. \<not> truthy (qm_providerId m)) matchingModels;
         hintedProviderId = resolveConcreteModelProviderId hintedModelProviderId harnessId catalogEntries;
         fromModels =
           (if harnessId \<noteq> ''goose'' then resolveConcreteModelProviderId (Some harnessId) harnessId catalogEntries
            else if length matchingProviderIds \<noteq> 1 then None else Some (hd matchingProviderIds)) in
     if truthy hintedProviderId then
       let h = the hintedProviderId in
       if length matchingProviderIds > 0 \<and> \<not> hasUnqualifiedModel \<and> h \<notin> set matchingProviderIds then None
       else if (harnessId \<noteq> ''goose'' \<and> h = harnessId) \<or>
         truthy (resolveModelProviderCatalogIdStrictFromEntries catalogEntries h) \<or>
         h \<in> set matchingProviderIds then Some h
       else fromModels
     else fromModels)"

section \<open>Laws of the lookups\<close>

lemma find_first: "List.find p xs = Some x \<Longrightarrow> x \<in> set xs \<and> p x"
  by (auto simp: find_Some_iff)

lemma strict_in:
  "resolveCatalogIdStrict entries i c = Some j \<Longrightarrow> \<exists>e\<in>set entries. ce_id e = j \<and> matches_category c e"
  by (auto simp: resolveCatalogIdStrict_def Let_def split: option.splits dest!: find_first)

lemma strict_id:
  assumes "e \<in> set entries" "matches_category c e"
  shows "resolveCatalogIdStrict entries (ce_id e) c = Some (ce_id e)"
proof -
  have "List.find (\<lambda>x. matches_category c x \<and> ce_id x = ce_id e) entries \<noteq> None"
    using assms by (auto simp: find_None_iff)
  then obtain x where x: "List.find (\<lambda>x. matches_category c x \<and> ce_id x = ce_id e) entries = Some x"
    by blast
  then have "ce_id x = ce_id e" by (auto dest: find_first)
  then show ?thesis using x by (simp add: resolveCatalogIdStrict_def)
qed

lemma strict_key:
  "resolveCatalogIdStrict entries i c = Some j \<Longrightarrow> j = i \<or>
    (\<exists>e\<in>set entries. ce_id e = j \<and> (\<exists>a\<in>set (ce_id e # ce_aliases e). normalizeProviderKey a = normalizeProviderKey i))"
  by (auto simp: resolveCatalogIdStrict_def Let_def list_ex_iff split: option.splits dest!: find_first)

lemma canonical_cases:
  "(\<exists>e\<in>set entries. canonicalProviderCatalogIdFromEntries entries i = ce_id e) \<or>
    (canonicalProviderCatalogIdFromEntries entries i = i \<and> resolveCatalogIdStrict entries i None = None)"
  using strict_in [of entries i None]
  by (cases "resolveCatalogIdStrict entries i None")
    (auto simp: canonicalProviderCatalogIdFromEntries_def)

lemma canonical_idem [simp]:
  "canonicalProviderCatalogIdFromEntries entries (canonicalProviderCatalogIdFromEntries entries i) =
   canonicalProviderCatalogIdFromEntries entries i"
proof -
  have "canonicalProviderCatalogIdFromEntries entries (ce_id e) = ce_id e" if "e \<in> set entries" for e
    using that by (simp add: canonicalProviderCatalogIdFromEntries_def strict_id matches_category_def)
  then show ?thesis using canonical_cases [of entries i] by auto
qed

lemma strict_none:
  "resolveCatalogIdStrict entries i c = None \<longleftrightarrow>
    (\<forall>e\<in>set entries. matches_category c e \<longrightarrow> ce_id e \<noteq> i \<and>
      (\<forall>a\<in>set (ce_id e # ce_aliases e). normalizeProviderKey a \<noteq> normalizeProviderKey i))"
  by (auto simp: resolveCatalogIdStrict_def Let_def list_ex_iff find_None_iff split: option.split dest!: find_first)

lemma concrete_some:
  "resolveConcreteModelProviderId p h entries = Some i \<Longrightarrow>
    truthy p \<and> i = canonicalProviderCatalogIdFromEntries entries (the p) \<and> i \<noteq> ''goose'' \<and>
    (h = ''goose'' \<longrightarrow> \<not> truthy (resolveAgentProviderCatalogIdStrictFromEntries entries i))"
  by (auto simp: resolveConcreteModelProviderId_def Let_def split: if_splits)

lemma matching_in:
  "i \<in> set (matching_provider_ids h entries ms) \<longleftrightarrow>
    i \<noteq> [] \<and> (\<exists>m\<in>set ms. resolveConcreteModelProviderId (qm_providerId m) h entries = Some i)"
proof -
  have "truthy x \<longleftrightarrow> (\<exists>y. x = Some y \<and> y \<noteq> [])" for x by (cases x) auto
  then show ?thesis by (auto simp: matching_provider_ids_def image_iff)
qed

section \<open>Properties\<close>

text \<open>
  The canonical id of a provider name is the name itself when it is an id of the catalog, else the
  id of an entry one of whose names has the same key, else the name; taking it twice changes nothing,
  and a lookup in a category fails only when no entry of that category has the name or its key.
\<close>

theorem canonical_provider_spec:
  "(let c = canonicalProviderCatalogIdFromEntries entries i in
    (if i \<in> set (map ce_id entries) then c = i
     else if resolveCatalogIdStrict entries i None = None then c = i
     else (\<exists>e. e \<in> set entries \<and> ce_id e = c \<and>
             (\<exists>a. a \<in> set (ce_id e # ce_aliases e) \<and> normalizeProviderKey a = normalizeProviderKey i))) \<and>
    canonicalProviderCatalogIdFromEntries entries c = c) \<and>
   (resolveCatalogIdStrict entries i category = None) =
     (filter (\<lambda>e. matches_category category e \<and> (ce_id e = i \<or>
        list_ex (\<lambda>a. normalizeProviderKey a = normalizeProviderKey i) (ce_id e # ce_aliases e))) entries = [])"
proof -
  have "canonicalProviderCatalogIdFromEntries entries i = i" if "i \<in> set (map ce_id entries)"
    using that by (auto simp: canonicalProviderCatalogIdFromEntries_def strict_id matches_category_def)
  moreover have "\<exists>e. e \<in> set entries \<and> ce_id e = canonicalProviderCatalogIdFromEntries entries i \<and>
      (\<exists>a. a \<in> set (ce_id e # ce_aliases e) \<and> normalizeProviderKey a = normalizeProviderKey i)"
    if new: "i \<notin> set (map ce_id entries)" and found: "resolveCatalogIdStrict entries i None \<noteq> None"
  proof -
    obtain j where j: "resolveCatalogIdStrict entries i None = Some j" using found by blast
    then have "j \<noteq> i" using new strict_in [OF j] by auto
    then show ?thesis using strict_key [OF j] j by (auto simp: canonicalProviderCatalogIdFromEntries_def)
  qed
  moreover have "canonicalProviderCatalogIdFromEntries entries i = i"
    if "resolveCatalogIdStrict entries i None = None"
    using that by (simp add: canonicalProviderCatalogIdFromEntries_def)
  ultimately show ?thesis
    by (simp add: Let_def) (auto simp: strict_none filter_empty_conv list_ex_iff)
qed

text \<open>
  The provider found for a model of Goose is never Goose nor an agent: it is the provider of a
  cached model of that id, or the hinted one when the catalog has it among the model providers. When
  every cached model of that id names its provider, the provider is one of those; without a hint it is
  the only one.
\<close>

theorem model_provider_spec:
  assumes "resolveModelProviderId ''goose'' modelId hint models entries = Some p"
  shows "p \<noteq> ''goose'' \<and> \<not> truthy (resolveAgentProviderCatalogIdStrictFromEntries entries p) \<and>
    (case matching_provider_ids ''goose'' entries (filter (\<lambda>m. qm_id m = modelId) models) of found \<Rightarrow>
      (p \<in> set found \<or>
        (truthy hint \<and> p = canonicalProviderCatalogIdFromEntries entries (the hint) \<and>
         truthy (resolveModelProviderCatalogIdStrictFromEntries entries p))) \<and>
      (found \<noteq> [] \<longrightarrow> (\<forall>m\<in>set models. qm_id m = modelId \<longrightarrow> truthy (qm_providerId m)) \<longrightarrow> p \<in> set found) \<and>
      (hint = None \<longrightarrow> found = [p]))"
proof -
  define found where "found = matching_provider_ids ''goose'' entries (filter (\<lambda>m. qm_id m = modelId) models)"
  define hinted where "hinted = resolveConcreteModelProviderId hint ''goose'' entries"
  have res: "(if truthy hinted then
       if length found > 0 \<and> \<not> list_ex (\<lambda>m. \<not> truthy (qm_providerId m)) (filter (\<lambda>m. qm_id m = modelId) models) \<and>
          the hinted \<notin> set found then None
       else if truthy (resolveModelProviderCatalogIdStrictFromEntries entries (the hinted)) \<or> the hinted \<in> set found
         then Some (the hinted)
       else if length found \<noteq> 1 then None else Some (hd found)
     else if length found \<noteq> 1 then None else Some (hd found)) = Some p"
    using assms [unfolded resolveModelProviderId_def Let_def, folded found_def hinted_def]
    by (simp only: simp_thms if_False)
  have single: "length found = 1 \<Longrightarrow> hd found = q \<Longrightarrow> found = [q]" for q
    by (cases found) auto
  have in_found: "q \<in> set found \<Longrightarrow> q \<noteq> ''goose'' \<and>
      \<not> truthy (resolveAgentProviderCatalogIdStrictFromEntries entries q)" for q
    unfolding found_def matching_in using concrete_some by blast
  have in_hint: "truthy hinted \<Longrightarrow> the hinted \<noteq> ''goose'' \<and>
      \<not> truthy (resolveAgentProviderCatalogIdStrictFromEntries entries (the hinted)) \<and>
      truthy hint \<and> the hinted = canonicalProviderCatalogIdFromEntries entries (the hint)"
    unfolding hinted_def by (cases "resolveConcreteModelProviderId hint ''goose'' entries")
      (auto dest: concrete_some)
  have no_hint: "hint = None \<Longrightarrow> \<not> truthy hinted"
    by (simp add: hinted_def resolveConcreteModelProviderId_def)
  show ?thesis
    unfolding found_def [symmetric]
    using res in_found in_hint no_hint single
    by (auto simp: list_ex_iff split: if_splits)
qed

definition demo_models :: "qualified_model list" where
  "demo_models = [\<lparr>qm_id = ''m'', qm_providerId = Some ''databricks''\<rparr>,
     \<lparr>qm_id = ''n'', qm_providerId = None\<rparr>]"

lemma demo_resolution:
  "resolveModelProviderId ''goose'' ''m'' None demo_models CURATED_PROVIDER_CATALOG = Some ''databricks_v2''"
  by code_simp

lemma model_provider_spec_witness:
  "matching_provider_ids ''goose'' CURATED_PROVIDER_CATALOG (filter (\<lambda>m. qm_id m = ''m'') demo_models) =
    [''databricks_v2'']"
  using model_provider_spec [OF demo_resolution] by simp

end
