(* ===== verification/ServeTarget.thy ===== *)
theory ServeTarget
  imports ProviderCatalog SessionTarget
begin

text \<open>
  How a session's execution target is written for the backend, which knows only a provider and a
  model, and read back (\<open>src/src/features/chat/lib/gooseServeExecutionTarget.ts\<close>). The lookup of
  a model's provider among the cached models
  (\<open>resolveCachedGooseModelProviderId\<close>) takes the cache, the default provider's readiness and
  the catalog as arguments.
\<close>

record serve_selection =
  ss_providerId :: "string option"
  ss_modelId :: "string option"
  ss_modelName :: "string option"

definition known_harness_ids :: "string list" where
  "known_harness_ids =
    map ce_id (filter (\<lambda>e. ce_category e = AgentProvider) CURATED_PROVIDER_CATALOG)"

definition canonicalProviderId :: "string \<Rightarrow> string" where
  "canonicalProviderId providerId =
    canonicalProviderCatalogIdFromEntries CURATED_PROVIDER_CATALOG providerId"

definition executionTargetFromGooseServeSelection :: "serve_selection \<Rightarrow> string + execution_target" where
  "executionTargetFromGooseServeSelection selection =
    (let providerId = (if truthy (ss_providerId selection) then ss_providerId selection else None);
         knownHarnessId = (case providerId of
             Some p \<Rightarrow> if p = goose \<or> p \<in> set known_harness_ids then Some p else None
           | None \<Rightarrow> None);
         harness = or_else knownHarnessId goose in
     case providerId of
       None \<Rightarrow>
         normalizeSessionExecutionTarget \<lparr>ti_harnessId = harness, ti_modelProviderId = None,
           ti_modelId = ss_modelId selection, ti_modelName = ss_modelName selection\<rparr>
     | Some p \<Rightarrow>
         if p = goose then
           normalizeSessionExecutionTarget \<lparr>ti_harnessId = harness, ti_modelProviderId = None,
             ti_modelId = None, ti_modelName = None\<rparr>
         else
           targetFromAgentModelSelection harness
             (if knownHarnessId \<noteq> None \<and> normalizeConcreteModelId (ss_modelId selection) = None then None
              else Some \<lparr>ams_modelProviderId = p, ams_modelId = ss_modelId selection,
                         ams_modelName = ss_modelName selection\<rparr>))"

definition gooseServeSelectionFromExecutionTarget :: "execution_target option \<Rightarrow> serve_selection" where
  "gooseServeSelectionFromExecutionTarget target =
    (case target of
       None \<Rightarrow> \<lparr>ss_providerId = None, ss_modelId = None, ss_modelName = None\<rparr>
     | Some t \<Rightarrow>
         \<lparr>ss_providerId = Some (if harnessId t = goose then or_else (modelProviderId t) (harnessId t)
                                else harnessId t),
          ss_modelId = modelId t, ss_modelName = modelName t\<rparr>)"

definition executionTargetFromGooseServeBoundary ::
  "serve_selection \<Rightarrow> execution_target option \<Rightarrow> string + execution_target" where
  "executionTargetFromGooseServeBoundary selection fallbackTarget =
    (let fallbackSelection = gooseServeSelectionFromExecutionTarget fallbackTarget;
         providerId = or_option (ss_providerId selection) (ss_providerId fallbackSelection);
         canonicalId = (if truthy providerId then Some (canonicalProviderId (the providerId)) else None) in
     executionTargetFromGooseServeSelection
       \<lparr>ss_providerId = canonicalId,
        ss_modelId = (if truthy canonicalId then ss_modelId selection else None),
        ss_modelName = (if truthy canonicalId then ss_modelName selection else None)\<rparr>)"

record provider_readiness =
  pr_ready :: bool
  pr_providerId :: "string option"
  pr_modelId :: "string option"

definition resolveCachedGooseModelProviderId ::
  "(string \<times> qualified_model list) list \<Rightarrow> provider_readiness option \<Rightarrow> catalog_entry list \<Rightarrow>
    string \<Rightarrow> string option" where
  "resolveCachedGooseModelProviderId modelCache readiness catalog modlId =
    (let hinted = (case readiness of
           Some r \<Rightarrow> if pr_ready r \<and> pr_modelId r = Some modlId then pr_providerId r else None
         | None \<Rightarrow> None);
         models = concat (map (\<lambda>(providerId, ms).
           map (\<lambda>m. m\<lparr>qm_providerId := Some (or_else (qm_providerId m) providerId)\<rparr>) ms) modelCache) in
     resolveModelProviderId goose modlId hinted models catalog)"

definition executionTargetFromGooseServeSession ::
  "(string \<Rightarrow> string option) \<Rightarrow> serve_selection \<Rightarrow> string + execution_target option" where
  \<comment> \<open>the first argument looks a model's provider up\<close>
  "executionTargetFromGooseServeSession cached selection =
    (let modl = normalizeConcreteModelId (ss_modelId selection);
         providerId = (if truthy (ss_providerId selection)
                       then Some (canonicalProviderId (the (ss_providerId selection))) else None) in
     if modl \<noteq> None \<and> (\<not> truthy providerId \<or> providerId = Some goose) then
       (let modelProvider = cached (the modl) in
        if \<not> truthy modelProvider then Inr None
        else map_ok Some (executionTargetFromGooseServeSelection
          \<lparr>ss_providerId = modelProvider, ss_modelId = modl, ss_modelName = ss_modelName selection\<rparr>))
     else if \<not> truthy providerId then Inr None
     else map_ok Some (executionTargetFromGooseServeSelection
       \<lparr>ss_providerId = providerId, ss_modelId = modl, ss_modelName = ss_modelName selection\<rparr>))"

section \<open>Writing and reading back\<close>

lemma known_harness_canonical: "h \<in> set known_harness_ids \<Longrightarrow> canonicalProviderId h = h"
  by (auto simp: known_harness_ids_def canonicalProviderId_def canonicalProviderCatalogIdFromEntries_def
      strict_id matches_category_def)

lemma goose_known: "goose \<in> set known_harness_ids"
  by code_simp

fun serve_expressible :: "execution_target \<Rightarrow> bool" where
  \<comment> \<open>what the backend can be told without loss: a known harness alone, a known harness with its
    own model, or Goose with a provider that is no agent and is written in its canonical form\<close>
  "serve_expressible (HarnessTarget h) \<longleftrightarrow> h \<in> set known_harness_ids"
| "serve_expressible (ProviderTarget h p) \<longleftrightarrow>
     h = goose \<and> p \<notin> set known_harness_ids \<and> canonicalProviderId p = p"
| "serve_expressible (ModelTarget h p m n) \<longleftrightarrow>
     (if h = goose then p \<notin> set known_harness_ids \<and> canonicalProviderId p = p
      else h \<in> set known_harness_ids \<and> p = h)"

lemma concrete_model: "m \<noteq> [] \<Longrightarrow> trimmed m \<Longrightarrow> m \<noteq> goose \<Longrightarrow> normalizeConcreteModelId (Some m) = Some m"
  by (simp add: normalizeConcreteModelId_def trim_trimmed)

lemma known_harness_trimmed: "h \<in> set known_harness_ids \<Longrightarrow> h \<noteq> [] \<and> trimmed h"
proof -
  have "list_all (\<lambda>h. h \<noteq> [] \<and> trimmed h) known_harness_ids" by code_simp
  then show "h \<in> set known_harness_ids \<Longrightarrow> h \<noteq> [] \<and> trimmed h" by (simp add: list_all_iff)
qed

lemma serve_read:
  assumes "canonical t" "serve_expressible t"
  shows "executionTargetFromGooseServeSelection (gooseServeSelectionFromExecutionTarget (Some t)) = Inr t"
  using assms goose_known known_harness_trimmed
  by (cases t)
    (auto simp: executionTargetFromGooseServeSelection_def gooseServeSelectionFromExecutionTarget_def Let_def
      targetFromAgentModelSelection_def normalizeSessionExecutionTarget_def concrete_model trim_trimmed
      normalizeConcreteModelId_def split: if_splits)

lemma serve_selection_canonical:
  assumes "canonical t" "serve_expressible t"
  shows "\<exists>p. ss_providerId (gooseServeSelectionFromExecutionTarget (Some t)) = Some p \<and> p \<noteq> [] \<and>
    canonicalProviderId p = p \<and> (modelId t \<noteq> None \<longrightarrow> p \<noteq> goose)"
  using assms goose_known known_harness_canonical known_harness_trimmed
  by (cases t) (auto simp: gooseServeSelectionFromExecutionTarget_def split: if_splits)

lemma serve_selection_model:
  assumes "canonical t"
  shows "normalizeConcreteModelId (ss_modelId (gooseServeSelectionFromExecutionTarget (Some t))) = modelId t"
    "ss_modelId (gooseServeSelectionFromExecutionTarget (Some t)) = modelId t"
  using assms by (cases t; auto simp: gooseServeSelectionFromExecutionTarget_def concrete_model
      normalizeConcreteModelId_def trim_trimmed)+

text \<open>
  What the backend is told of a target reads back as the same target, both from a session's
  record and from a stored record, for every target the backend can express: a known harness alone or
  with a model of its own, or Goose with a model provider in its canonical spelling. The lookup of
  cached models is not needed for that.
\<close>

theorem serve_round_trip:
  assumes "canonical t" and "serve_expressible t"
  shows "executionTargetFromGooseServeSession cached (gooseServeSelectionFromExecutionTarget (Some t)) =
      Inr (Some t) \<and>
    executionTargetFromGooseServeBoundary (gooseServeSelectionFromExecutionTarget (Some t)) fb = Inr t"
proof -
  let ?s = "gooseServeSelectionFromExecutionTarget (Some t)"
  obtain p where p: "ss_providerId ?s = Some p" "p \<noteq> []" "canonicalProviderId p = p"
    "modelId t \<noteq> None \<longrightarrow> p \<noteq> goose"
    using serve_selection_canonical [OF assms] by blast
  have sel: "?s = \<lparr>ss_providerId = Some p, ss_modelId = modelId t, ss_modelName = ss_modelName ?s\<rparr>"
    using p(1) serve_selection_model(2) [OF assms(1)] by (cases ?s) simp
  have read: "executionTargetFromGooseServeSelection
      \<lparr>ss_providerId = Some p, ss_modelId = modelId t, ss_modelName = ss_modelName ?s\<rparr> = Inr t"
    using serve_read [OF assms] by (simp only: sel [symmetric])
  show ?thesis
    unfolding executionTargetFromGooseServeSession_def executionTargetFromGooseServeBoundary_def
    using p serve_selection_model [OF assms(1)] read
    by (cases "modelId t") (simp_all add: Let_def map_ok_def)
qed

lemma serve_round_trip_witness:
  "executionTargetFromGooseServeSession (\<lambda>m. None)
     \<lparr>ss_providerId = Some ''databricks_v2'', ss_modelId = Some ''m'', ss_modelName = Some ''M''\<rparr> =
   Inr (Some (ModelTarget ''goose'' ''databricks_v2'' ''m'' ''M''))"
proof -
  let ?t = "ModelTarget ''goose'' ''databricks_v2'' ''m'' ''M''"
  have "canonical ?t" "serve_expressible ?t" by code_simp+
  from serve_round_trip [OF this, of "\<lambda>m. None" None]
  show ?thesis by (simp add: gooseServeSelectionFromExecutionTarget_def goose_def)
qed

end
