(* ===== verification/TargetCoordinator.thy ===== *)
theory TargetCoordinator
  imports ServeTarget ClientStorage
begin

text \<open>
  The coordinator of session targets (\<open>src/src/features/chat/lib/sessionTargetCoordinator.ts\<close>) over
  the execution fields of the session store (\<open>stores/chatSessionStore.ts\<close>).

  The code is single-threaded and asynchronous: what runs between two \<open>await\<close>s is one step here.
  Actors and pending operations are objects that several places refer to, so they live in lists and
  are named by their positions; a promise is the operation's outcome, absent until it is settled. An
  actor's \<open>pc\<close> says where its \<open>drain\<close> loop is waiting: for the repaired selection, for the
  backend, or to go on after an operation. What the backend and the repair answer comes with the step.
\<close>

section \<open>Data\<close>

datatype target_source = Ui | Acp

record target_session =
  sn_target :: "execution_target option"
  sn_source :: "target_source option"
  sn_reasoning :: "json option"

record target_request =
  rq_sessionId :: string
  rq_target :: execution_target
  rq_workingDir :: string
  rq_prepareWorkingDir :: "string option"
  rq_origin :: "transition_origin option"
  rq_operationId :: "string option"
  rq_requestId :: "string option"
  rq_dispatchToken :: "nat option"
  rq_requireReasoningEffort :: bool
  rq_requireExactTarget :: bool

record config_snapshots =
  cs_model :: "(string \<times> string) option"
  cs_reasoningEffort :: "json option"

datatype target_outcome =
    CommittedOutcome execution_target "execution_target option" "config_snapshots option"
  | SupersededOutcome
  | SessionMissingOutcome
  | FailedOutcome json "execution_target option"

record target_selection =
  sel_ref :: nat
  sel_operationId :: string
  sel_target :: execution_target
  sel_previousTarget :: "execution_target option"
  sel_preferenceAgentId :: "string option"

text \<open>\<open>dl_sessionId\<close> below is the session id a lease was acquired under; \<open>sel_ref\<close> is the identity of the selection object, which the code compares.\<close>

record pending_operation =
  po_sequence :: nat
  po_request :: target_request
  po_operationId :: string
  po_selectionAtRequest :: "target_selection option"
  po_targetAtRequest :: "execution_target option"
  po_outcome :: "target_outcome option"

record target_mutation =
  dm_target :: "execution_target option"
  dm_source :: target_source
  dm_reasoning :: "json option"

record dispatch_lease =
  dl_token :: nat
  dl_sessionId :: string
  dl_target :: execution_target
  dl_source :: "target_source option"
  dl_reasoning :: "json option"

datatype drain_pc =
    PcIdle
  | PcResolve nat
  | PcPrepare nat execution_target
  | PcDone nat

record session_actor =
  ac_state :: target_state
  ac_sequence :: nat
  ac_cancelled :: bool
  ac_tracksLiveSession :: bool
  ac_latest :: "nat option"
  ac_current :: "nat option"
  ac_selection :: "target_selection option"
  ac_deferredSelection :: "target_selection option"
  ac_deferredMutation :: "target_mutation option"
  ac_dispatch :: "dispatch_lease option"
  ac_listeners :: "nat list"
  ac_pc :: drain_pc

record prepare_call =
  pp_sessionId :: string
  pp_providerId :: string
  pp_workingDir :: string
  pp_modelId :: "string option"
  pp_forceConfigRefresh :: bool
  pp_requestId :: "string option"

record dispatch_wait =
  dw_operation :: "nat option"
  dw_actor :: nat
  dw_token :: nat
  dw_sessionId :: string
  dw_previousTarget :: execution_target
  dw_previousReasoning :: "json option"

record target_world =
  tw_sessions :: "target_session jsobj"
  tw_actors :: "nat jsobj"
  tw_heap :: "session_actor list"
  tw_ops :: "pending_operation list"
  tw_nextOperationId :: nat
  tw_nextToken :: nat
  tw_nextRef :: nat
  tw_restoring :: bool
  tw_openGates :: "nat list"
  tw_waiting :: "(nat \<times> target_request) list"
  tw_dispatchWaits :: "dispatch_wait list"
  tw_microtasks :: "nat list"
  tw_prepared :: "prepare_call list"
  tw_notified :: "nat list"

text \<open>
  \<open>tw_waiting\<close>: requests that wait for a lease to be released, with its token;
  \<open>tw_openGates\<close>: the tokens of released leases; \<open>tw_dispatchWaits\<close>: changes of a leased
  target whose operation is under way; \<open>tw_prepared\<close>: the calls made to the backend;
  \<open>tw_notified\<close>: the release listeners called.
\<close>

definition initial_world :: "target_session jsobj \<Rightarrow> target_world" where
  \<comment> \<open>the module when it is loaded, over the given sessions\<close>
  "initial_world ss = \<lparr>tw_sessions = ss, tw_actors = [], tw_heap = [], tw_ops = [], tw_nextOperationId = 0,
     tw_nextToken = 0, tw_nextRef = 0, tw_restoring = False, tw_openGates = [], tw_waiting = [],
     tw_dispatchWaits = [], tw_microtasks = [], tw_prepared = [], tw_notified = []\<rparr>"

section \<open>Access\<close>

definition the_actor :: "target_world \<Rightarrow> nat \<Rightarrow> session_actor" where
  "the_actor w a = tw_heap w ! a"

definition upd_actor :: "nat \<Rightarrow> (session_actor \<Rightarrow> session_actor) \<Rightarrow> target_world \<Rightarrow> target_world" where
  "upd_actor a f w = w\<lparr>tw_heap := (tw_heap w)[a := f (tw_heap w ! a)]\<rparr>"

definition the_op :: "target_world \<Rightarrow> nat \<Rightarrow> pending_operation" where
  "the_op w i = tw_ops w ! i"

definition session_target :: "target_world \<Rightarrow> string \<Rightarrow> execution_target option" where
  \<comment> \<open>\<open>getSession(id)?.executionTarget\<close>\<close>
  "session_target w k = Option.bind (obj_get (tw_sessions w) k) sn_target"

definition session_reasoning :: "target_world \<Rightarrow> string \<Rightarrow> json option" where
  "session_reasoning w k = Option.bind (obj_get (tw_sessions w) k) sn_reasoning"

definition metadataFor :: "execution_target \<Rightarrow> json option \<Rightarrow> target_metadata" where
  "metadataFor target reasoningEffort = \<lparr>tm_target = target, tm_reasoningEffort = reasoningEffort\<rparr>"

definition initialState :: "target_world \<Rightarrow> string \<Rightarrow> target_state" where
  "initialState w sessionId =
    (case session_target w sessionId of
       None \<Rightarrow> Unresolved None
     | Some t \<Rightarrow>
         Settled t (map_option (\<lambda>r. metadataFor t (Some r)) (session_reasoning w sessionId)))"

definition new_actor :: "target_world \<Rightarrow> string \<Rightarrow> session_actor" where
  "new_actor w k = \<lparr>ac_state = initialState w k, ac_sequence = 0, ac_cancelled = False,
     ac_tracksLiveSession = (obj_get (tw_sessions w) k \<noteq> None), ac_latest = None, ac_current = None,
     ac_selection = None, ac_deferredSelection = None, ac_deferredMutation = None, ac_dispatch = None,
     ac_listeners = [], ac_pc = PcIdle\<rparr>"

definition actorFor :: "string \<Rightarrow> target_world \<Rightarrow> nat \<times> target_world" where
  "actorFor k w =
    (case obj_get (tw_actors w) k of
       Some a \<Rightarrow>
         (a, upd_actor a (\<lambda>x. x\<lparr>ac_tracksLiveSession :=
              (ac_tracksLiveSession x \<or> obj_get (tw_sessions w) k \<noteq> None)\<rparr>) w)
     | None \<Rightarrow>
         (length (tw_heap w),
          w\<lparr>tw_heap := tw_heap w @ [new_actor w k], tw_actors := obj_set k (length (tw_heap w)) (tw_actors w)\<rparr>))"

definition transition :: "nat \<Rightarrow> target_event \<Rightarrow> target_world \<Rightarrow> string + target_world" where
  "transition a e w =
    map_ok (\<lambda>s. upd_actor a (\<lambda>x. x\<lparr>ac_state := s\<rparr>) w) (reduceSessionTarget (ac_state (the_actor w a)) e)"

definition transition_safe :: "nat \<Rightarrow> target_event \<Rightarrow> target_world \<Rightarrow> target_world" where
  \<comment> \<open>for the events the reducer never throws on\<close>
  "transition_safe a e w = upd_actor a (\<lambda>x. x\<lparr>ac_state := dispatch_event e (ac_state x)\<rparr>) w"

definition settleOperation :: "nat \<Rightarrow> target_outcome \<Rightarrow> target_world \<Rightarrow> target_world" where
  "settleOperation i out w =
    (if po_outcome (the_op w i) \<noteq> None then w
     else w\<lparr>tw_ops := (tw_ops w)[i := (the_op w i)\<lparr>po_outcome := Some out\<rparr>]\<rparr>)"

fun settle_all :: "nat list \<Rightarrow> target_outcome \<Rightarrow> target_world \<Rightarrow> target_world" where
  "settle_all [] out w = w"
| "settle_all (i # is) out w = settle_all is out (settleOperation i out w)"

definition pending_of :: "session_actor \<Rightarrow> nat list" where
  \<comment> \<open>\<open>new Set([actor.current, actor.latest].filter(...))\<close>\<close>
  "pending_of x = dedup ((case ac_current x of Some i \<Rightarrow> [i] | None \<Rightarrow> []) @
     (case ac_latest x of Some i \<Rightarrow> [i] | None \<Rightarrow> []))"

section \<open>Releases, cancellation and the subscription\<close>

definition notifyDispatchReleaseListeners :: "nat \<Rightarrow> target_world \<Rightarrow> target_world" where
  "notifyDispatchReleaseListeners a w =
    (let x = the_actor w a in
     if ac_dispatch x \<noteq> None \<or> ac_pc x \<noteq> PcIdle \<or> ac_latest x \<noteq> None then w
     else (upd_actor a (\<lambda>x. x\<lparr>ac_listeners := []\<rparr>) w)\<lparr>tw_notified := tw_notified w @ ac_listeners x\<rparr>)"

definition open_gate :: "nat \<Rightarrow> target_world \<Rightarrow> target_world" where
  "open_gate token w = w\<lparr>tw_openGates := token # tw_openGates w\<rparr>"

definition drain :: "nat \<Rightarrow> target_world \<Rightarrow> target_world" where
  \<comment> \<open>up to the first \<open>await\<close>\<close>
  "drain a w =
    (let x = the_actor w a in
     if ac_pc x \<noteq> PcIdle then w
     else case ac_latest x of
       Some i \<Rightarrow> upd_actor a (\<lambda>x. x\<lparr>ac_current := Some i, ac_pc := PcResolve i\<rparr>) w
     | None \<Rightarrow> notifyDispatchReleaseListeners a w)"

definition after_release :: "nat \<Rightarrow> nat \<Rightarrow> target_world \<Rightarrow> target_world" where
  \<comment> \<open>the end of \<open>release\<close>: the gate opens, waiting work goes on, listeners hear of it later\<close>
  "after_release a token w =
    (let w = open_gate token w in
     if ac_latest (the_actor w a) \<noteq> None then drain a w
     else w\<lparr>tw_microtasks := tw_microtasks w @ [a]\<rparr>)"

definition clear_lease :: "nat \<Rightarrow> target_world \<Rightarrow> target_world" where
  "clear_lease a = upd_actor a (\<lambda>x. x\<lparr>ac_dispatch := None, ac_deferredSelection := None,
     ac_deferredMutation := None\<rparr>)"

definition cancelSessionTarget :: "string \<Rightarrow> target_world \<Rightarrow> target_world" where
  "cancelSessionTarget k w =
    (case obj_get (tw_actors w) k of
       None \<Rightarrow> w
     | Some a \<Rightarrow>
         let w1 = transition_safe a SessionRemoved (upd_actor a (\<lambda>x. x\<lparr>ac_cancelled := True\<rparr>) w);
             w2 = settle_all (pending_of (the_actor w a)) SessionMissingOutcome w1;
             w3 = upd_actor a (\<lambda>x. x\<lparr>ac_latest := None, ac_selection := None,
                    ac_deferredSelection := None, ac_deferredMutation := None\<rparr>) w2;
             w4 = (case ac_dispatch (the_actor w3 a) of
                     None \<Rightarrow> w3 | Some d \<Rightarrow> after_release a (dl_token d) (clear_lease a w3)) in
         w4\<lparr>tw_actors := obj_del k (tw_actors w4)\<rparr>)"

fun cancel_missing :: "(string \<times> nat) list \<Rightarrow> target_world \<Rightarrow> target_world" where
  \<comment> \<open>the second loop of the subscription, over the actors\<close>
  "cancel_missing [] w = w"
| "cancel_missing ((k, a) # ks) w =
    cancel_missing ks
      (if obj_get (tw_actors w) k \<noteq> None \<and> ac_tracksLiveSession (the_actor w a) \<and>
          obj_get (tw_sessions w) k = None
       then cancelSessionTarget k w else w)"

definition matches_lease :: "execution_target option \<Rightarrow> execution_target \<Rightarrow> bool" where
  \<comment> \<open>the same target, or a model for a lease without one on the same provider\<close>
  "matches_lease observed t \<longleftrightarrow>
     sameSessionExecutionTarget observed (Some t) \<or>
     (modelId t = None \<and> map_option harnessId observed = Some (harnessId t) \<and>
      Option.bind observed modelProviderId = modelProviderId t)"

definition put_session :: "string \<Rightarrow> (target_session \<Rightarrow> target_session) \<Rightarrow> target_world \<Rightarrow> target_world" where
  \<comment> \<open>\<open>sessions.map((s) => s.id === k ? f(s) : s)\<close>\<close>
  "put_session k f w =
    (case obj_get (tw_sessions w) k of
       None \<Rightarrow> w
     | Some s \<Rightarrow> w\<lparr>tw_sessions := obj_set k (f s) (tw_sessions w)\<rparr>)"

definition lease_session :: "dispatch_lease \<Rightarrow> target_session \<Rightarrow> target_session" where
  "lease_session d s =
    s\<lparr>sn_target := Some (dl_target d), sn_source := dl_source d, sn_reasoning := dl_reasoning d\<rparr>"

definition enforce_lease :: "string \<Rightarrow> nat \<Rightarrow> target_world \<Rightarrow> target_world" where
  \<comment> \<open>one turn of the first loop; the nested notification only cancels\<close>
  "enforce_lease k a w =
    (if obj_get (tw_actors w) k = None then w
     else case ac_dispatch (the_actor w a) of
       None \<Rightarrow> w
     | Some d \<Rightarrow>
         let session = obj_get (tw_sessions w) k;
             observed = Option.bind session sn_target in
         if matches_lease observed (dl_target d) then w
         else
           let w1 = upd_actor a (\<lambda>x. x\<lparr>ac_deferredMutation := Some
                 \<lparr>dm_target = observed, dm_source = or_else (Option.bind session sn_source) Acp,
                  dm_reasoning = Option.bind session sn_reasoning\<rparr>\<rparr>) w;
               w2 = put_session k (lease_session d) w1 in
           cancel_missing (tw_actors w2) w2)"

fun enforce_leases :: "(string \<times> nat) list \<Rightarrow> target_world \<Rightarrow> target_world" where
  "enforce_leases [] w = w"
| "enforce_leases ((k, a) # ks) w = enforce_leases ks (enforce_lease k a w)"

definition notify :: "target_world \<Rightarrow> target_world" where
  \<comment> \<open>the subscription to the session store\<close>
  "notify w =
    (let w1 = (if tw_restoring w then w else enforce_leases (tw_actors w) w) in
     cancel_missing (tw_actors w1) w1)"

section \<open>Writes to the session store\<close>

definition withExecutionTarget ::
  "target_session \<Rightarrow> execution_target option \<Rightarrow> target_source \<Rightarrow> target_session" where
  "withExecutionTarget session target source =
    (let identityChanged = (\<not> sameSessionExecutionTarget (sn_target session) target) in
     if \<not> identityChanged \<and> Option.bind (sn_target session) modelName = Option.bind target modelName \<and>
       sn_source session = Some source
     then session
     else session\<lparr>sn_target := target, sn_source := Some source,
            sn_reasoning := (if identityChanged then None else sn_reasoning session)\<rparr>)"

definition normalize_opt :: "execution_target option \<Rightarrow> string + execution_target option" where
  "normalize_opt t = (case t of None \<Rightarrow> Inr None | Some x \<Rightarrow> map_ok Some (normalize_target x))"

definition write_target ::
  "string \<Rightarrow> execution_target option \<Rightarrow> target_source \<Rightarrow> target_world \<Rightarrow> target_world" where
  \<comment> \<open>the update function of the two actions below\<close>
  "write_target k target source w =
    (case obj_get (tw_sessions w) k of
       None \<Rightarrow> w
     | Some existing \<Rightarrow>
         let replacement = withExecutionTarget existing target source in
         if replacement = existing then w else notify (put_session k (\<lambda>_. replacement) w))"

definition replaceSessionExecutionTarget ::
  "string \<Rightarrow> execution_target option \<Rightarrow> target_world \<Rightarrow> string + target_world" where
  "replaceSessionExecutionTarget k target w =
    map_ok (\<lambda>t. write_target k t Ui w) (normalize_opt target)"

definition hydrateSessionExecutionTarget ::
  "string \<Rightarrow> execution_target \<Rightarrow> target_world \<Rightarrow> string + target_world" where
  "hydrateSessionExecutionTarget k target w =
    map_ok (\<lambda>t.
      if Option.bind (obj_get (tw_sessions w) k) sn_source = Some Ui then w
      else write_target k (Some t) Acp w) (normalize_target target)"

definition patch_reasoning :: "string \<Rightarrow> json \<Rightarrow> target_world \<Rightarrow> target_world" where
  \<comment> \<open>\<open>patchSession(k, { reasoningEffort })\<close>\<close>
  "patch_reasoning k r w =
    (case obj_get (tw_sessions w) k of
       None \<Rightarrow> w
     | Some existing \<Rightarrow>
         if sn_reasoning existing = Some r then w
         else notify (put_session k (\<lambda>s. s\<lparr>sn_reasoning := Some r\<rparr>) w))"

section \<open>Executing an operation\<close>

definition op_sequence :: "target_world \<Rightarrow> nat option \<Rightarrow> nat option" where
  "op_sequence w i = map_option (\<lambda>i. po_sequence (the_op w i)) i"

definition currentOperation :: "nat \<Rightarrow> nat \<Rightarrow> target_world \<Rightarrow> bool" where
  "currentOperation a i w \<longleftrightarrow>
     \<not> ac_cancelled (the_actor w a) \<and>
     op_sequence w (ac_current (the_actor w a)) = Some (po_sequence (the_op w i)) \<and>
     op_sequence w (ac_latest (the_actor w a)) = Some (po_sequence (the_op w i))"

definition resolveSuperseded :: "nat \<Rightarrow> nat \<Rightarrow> target_world \<Rightarrow> target_world" where
  "resolveSuperseded a i w =
    settleOperation i SupersededOutcome (transition_safe a (Superseded (po_operationId (the_op w i))) w)"

definition execution_failed :: "nat \<Rightarrow> nat \<Rightarrow> json \<Rightarrow> target_world \<Rightarrow> target_world" where
  \<comment> \<open>the \<open>catch\<close> of \<open>execute\<close>\<close>
  "execution_failed a i err w =
    (if \<not> currentOperation a i w then resolveSuperseded a i w
     else
       let fb = (case ac_state (the_actor w a) of Transitioning j og prev d e ph m \<Rightarrow> prev | _ \<Rightarrow> None) in
       settleOperation i (FailedOutcome err fb)
         (transition_safe a (Rejected (po_operationId (the_op w i)) err None) w))"

definition execution_done :: "nat \<Rightarrow> nat \<Rightarrow> target_world \<Rightarrow> target_world" where
  "execution_done a i = upd_actor a (\<lambda>x. x\<lparr>ac_pc := PcDone i\<rparr>)"

definition boundary_error :: json where
  "boundary_error = JStr ''Session execution target requires a provider boundary.''"

definition resolveEffectiveTarget ::
  "execution_target \<Rightarrow> json + serve_selection option \<Rightarrow> json + execution_target" where
  \<comment> \<open>with the answer of \<open>repairManagedGooseModelSelection\<close>\<close>
  "resolveEffectiveTarget target answer =
    (case answer of
       Inl err \<Rightarrow> Inl err
     | Inr repaired \<Rightarrow>
         let selection = gooseServeSelectionFromExecutionTarget (Some target);
             resolvd = or_else repaired selection in
         if \<not> truthy (ss_providerId resolvd) then Inl boundary_error
         else
           case repaired of
             None \<Rightarrow> Inr target
           | Some r \<Rightarrow>
               if harnessId target = goose \<and>
                 (ss_providerId r \<noteq> ss_providerId selection \<or> ss_modelId r \<noteq> ss_modelId selection)
               then
                 (case normalizeSessionExecutionTarget
                    \<lparr>ti_harnessId = harnessId target, ti_modelProviderId = ss_providerId r,
                     ti_modelId = ss_modelId r,
                     ti_modelName = (if ss_modelId r = modelId target then modelName target else ss_modelId r)\<rparr> of
                    Inl e \<Rightarrow> Inl (JStr e) | Inr t \<Rightarrow> Inr t)
               else Inr target)"

definition selection_moved :: "nat \<Rightarrow> nat \<Rightarrow> target_world \<Rightarrow> bool" where
  \<comment> \<open>the selection is neither the one at the request nor this operation's own\<close>
  "selection_moved a i w \<longleftrightarrow>
     ac_selection (the_actor w a) \<noteq> po_selectionAtRequest (the_op w i) \<and>
     map_option sel_operationId (ac_selection (the_actor w a)) \<noteq> Some (po_operationId (the_op w i))"

definition prepare_call_for :: "nat \<Rightarrow> execution_target \<Rightarrow> target_world \<Rightarrow> prepare_call" where
  "prepare_call_for i eff w =
    (let request = po_request (the_op w i); selection = gooseServeSelectionFromExecutionTarget (Some eff) in
     \<lparr>pp_sessionId = rq_sessionId request, pp_providerId = the (ss_providerId selection),
      pp_workingDir = or_else (rq_prepareWorkingDir request) (rq_workingDir request),
      pp_modelId = (if truthy (ss_modelId selection) then ss_modelId selection else None),
      pp_forceConfigRefresh = (rq_requireReasoningEffort request \<and>
         session_reasoning w (rq_sessionId request) = None),
      pp_requestId = (if truthy (rq_operationId request) \<or> truthy (rq_requestId request)
                      then Some (po_operationId (the_op w i)) else None)\<rparr>)"

definition apply_effective :: "nat \<Rightarrow> nat \<Rightarrow> execution_target \<Rightarrow> target_world \<Rightarrow> target_world" where
  \<comment> \<open>\<open>execute\<close> from the event \<open>RESOLVED\<close> to the call of the backend\<close>
  "apply_effective a i eff w =
    (let request = po_request (the_op w i); opId = po_operationId (the_op w i);
         k = rq_sessionId request in
     case transition a (Resolved opId eff) w of
       Inl e \<Rightarrow> execution_done a i (execution_failed a i (JStr e) w)
     | Inr w1 \<Rightarrow>
         if rq_requireReasoningEffort request \<and> session_reasoning w1 k \<noteq> None then
           if \<not> sameSessionExecutionTarget (session_target w1 k) (Some eff)
           then execution_done a i (resolveSuperseded a i w1)
           else
             (case transition a (Acknowledged opId eff
                     (Some (metadataFor eff (session_reasoning w1 k)))) w1 of
                Inl e \<Rightarrow> execution_done a i (execution_failed a i (JStr e) w1)
              | Inr w2 \<Rightarrow> execution_done a i (settleOperation i (CommittedOutcome eff None None) w2))
         else
           let w2 = transition_safe a (PhaseChanged opId Applying) w1;
               selection = gooseServeSelectionFromExecutionTarget (Some eff) in
           if \<not> truthy (ss_providerId selection)
           then execution_done a i (execution_failed a i boundary_error w2)
           else (upd_actor a (\<lambda>x. x\<lparr>ac_pc := PcPrepare i eff\<rparr>) w2)
                  \<lparr>tw_prepared := tw_prepared w2 @ [prepare_call_for i eff w2]\<rparr>)"

definition on_resolved :: "nat \<Rightarrow> json + serve_selection option \<Rightarrow> target_world \<Rightarrow> target_world" where
  \<comment> \<open>\<open>execute\<close> after the repair has answered\<close>
  "on_resolved a answer w =
    (case ac_pc (the_actor w a) of
       PcResolve i \<Rightarrow>
         let request = po_request (the_op w i) in
         (case resolveEffectiveTarget (rq_target request) answer of
            Inl err \<Rightarrow> execution_done a i (execution_failed a i err w)
          | Inr eff \<Rightarrow>
              let live = session_target w (rq_sessionId request) in
              if \<not> currentOperation a i w \<or> selection_moved a i w \<or>
                (\<not> sameSessionExecutionTarget live (po_targetAtRequest (the_op w i)) \<and>
                 \<not> sameSessionExecutionTarget live (Some (rq_target request)) \<and>
                 \<not> sameSessionExecutionTarget live (Some eff))
              then execution_done a i (resolveSuperseded a i w)
              else if rq_requireExactTarget request \<and>
                \<not> sameSessionExecutionTarget (Some eff) (Some (rq_target request))
              then execution_done a i (execution_failed a i
                (JStr ''The requested model is unavailable from its configured provider.'') w)
              else apply_effective a i eff w)
     | _ \<Rightarrow> w)"

definition acknowledged_target ::
  "execution_target \<Rightarrow> config_snapshots option \<Rightarrow> string + execution_target" where
  "acknowledged_target eff snapshot =
    (case Option.bind snapshot cs_model of
       None \<Rightarrow> Inr eff
     | Some (mid, mname) \<Rightarrow>
         if truthy (modelId eff) then Inr eff
         else map_ok (\<lambda>t. or_else t eff) (materializeSessionExecutionModel (Some eff) mid mname))"

definition target_still_owned :: "nat \<Rightarrow> nat \<Rightarrow> execution_target \<Rightarrow> target_world \<Rightarrow> bool" where
  "target_still_owned a i eff w \<longleftrightarrow>
    (let request = po_request (the_op w i); live = session_target w (rq_sessionId request) in
     \<not> ac_tracksLiveSession (the_actor w a) \<or>
     obj_get (tw_sessions w) (rq_sessionId request) = None \<or>
     sameSessionExecutionTarget live (po_targetAtRequest (the_op w i)) \<or>
     sameSessionExecutionTarget live (Some (rq_target request)) \<or>
     sameSessionExecutionTarget live (Some eff) \<or>
     (case ac_state (the_actor w a) of
        Settled c m \<Rightarrow> sameSessionExecutionTarget live (Some c) | _ \<Rightarrow> False))"

definition publish_acknowledged ::
  "string \<Rightarrow> execution_target \<Rightarrow> config_snapshots option \<Rightarrow> target_world \<Rightarrow> string + target_world" where
  "publish_acknowledged k acknowledged snapshot w =
    (if obj_get (tw_sessions w) k = None then Inr w
     else
       map_ok (\<lambda>w. case Option.bind snapshot cs_reasoningEffort of
                 Some r \<Rightarrow> patch_reasoning k r w | None \<Rightarrow> w)
         (if sameSessionExecutionTarget (session_target w k) (Some acknowledged) then Inr w
          else replaceSessionExecutionTarget k (Some acknowledged) w))"

definition acknowledge :: "nat \<Rightarrow> nat \<Rightarrow> execution_target \<Rightarrow> execution_target \<Rightarrow> config_snapshots option \<Rightarrow>
    target_world \<Rightarrow> target_world" where
  \<comment> \<open>\<open>execute\<close> from the checks of ownership to its end\<close>
  "acknowledge a i eff acknowledged snapshot w =
    (let request = po_request (the_op w i); opId = po_operationId (the_op w i); k = rq_sessionId request;
         selection = ac_selection (the_actor w a) in
     if \<not> target_still_owned a i eff w \<or> selection_moved a i w \<or>
       (rq_requireReasoningEffort request \<and> obj_get (tw_sessions w) k \<noteq> None \<and>
        \<not> sameSessionExecutionTarget (session_target w k) (Some (rq_target request))) \<or>
       (case selection of
          None \<Rightarrow> False
        | Some s \<Rightarrow> sel_operationId s \<noteq> opId \<and>
            \<not> sameSessionExecutionTarget (Some (sel_target s)) (Some acknowledged))
     then resolveSuperseded a i w
     else
       case transition a (Acknowledged opId acknowledged
              (map_option (\<lambda>r. metadataFor acknowledged (Some r)) (Option.bind snapshot cs_reasoningEffort))) w of
         Inl e \<Rightarrow> execution_failed a i (JStr e) w
       | Inr w1 \<Rightarrow>
           (case publish_acknowledged k acknowledged snapshot w1 of
              Inl e \<Rightarrow> execution_failed a i (JStr e) w1
            | Inr w2 \<Rightarrow>
                settleOperation i (CommittedOutcome acknowledged
                  (if sameSessionExecutionTarget (Some acknowledged) (Some (rq_target request))
                   then None else Some acknowledged) snapshot) w2))"

definition on_prepared :: "nat \<Rightarrow> json + config_snapshots option \<Rightarrow> target_world \<Rightarrow> target_world" where
  \<comment> \<open>\<open>execute\<close> after the backend has answered\<close>
  "on_prepared a answer w =
    (case ac_pc (the_actor w a) of
       PcPrepare i eff \<Rightarrow>
         execution_done a i
           (case answer of
              Inl err \<Rightarrow> execution_failed a i err w
            | Inr snapshot \<Rightarrow>
                if \<not> currentOperation a i w then resolveSuperseded a i w
                else
                  let w1 = transition_safe a (PhaseChanged (po_operationId (the_op w i)) AwaitingAck) w;
                      k = rq_sessionId (po_request (the_op w i)) in
                  if ac_tracksLiveSession (the_actor w1 a) \<and> obj_get (tw_sessions w1) k = None
                  then settleOperation i SessionMissingOutcome (transition_safe a SessionRemoved w1)
                  else
                    (case acknowledged_target eff snapshot of
                       Inl e \<Rightarrow> execution_failed a i (JStr e) w1
                     | Inr acknowledged \<Rightarrow> acknowledge a i eff acknowledged snapshot w1))
     | _ \<Rightarrow> w)"

definition on_done :: "nat \<Rightarrow> target_world \<Rightarrow> target_world" where
  \<comment> \<open>the \<open>drain\<close> loop after an operation, to its next \<open>await\<close> or its end\<close>
  "on_done a w =
    (case ac_pc (the_actor w a) of
       PcDone i \<Rightarrow>
         let done = (op_sequence w (ac_latest (the_actor w a)) = Some (po_sequence (the_op w i))) in
         drain a (upd_actor a (\<lambda>x. x\<lparr>ac_latest := (if done then None else ac_latest x),
           ac_current := None, ac_pc := PcIdle\<rparr>) w)
     | _ \<Rightarrow> w)"

section \<open>Requests\<close>

datatype transition_handle =
    Requested nat
  | WaitsForRelease nat
  | ThrewError string

definition supersede_latest :: "nat \<Rightarrow> target_world \<Rightarrow> target_world" where
  \<comment> \<open>the operation that waits behind the one under way gives way to a new one\<close>
  "supersede_latest a w =
    (case ac_latest (the_actor w a) of
       Some q \<Rightarrow> if ac_latest (the_actor w a) \<noteq> ac_current (the_actor w a)
                 then settleOperation q SupersededOutcome w else w
     | None \<Rightarrow> w)"

definition put_request :: "nat \<Rightarrow> pending_operation \<Rightarrow> target_world \<Rightarrow> target_world" where
  \<comment> \<open>the end of the function below: the operation becomes the latest and the loop is called\<close>
  "put_request a p w =
    drain a (upd_actor a (\<lambda>x. x\<lparr>ac_latest := Some (length (tw_ops w))\<rparr>)
      ((supersede_latest a w)\<lparr>tw_ops := tw_ops (supersede_latest a w) @ [p]\<rparr>))"

definition next_operation :: "nat \<Rightarrow> target_request \<Rightarrow> target_world \<Rightarrow> string \<times> target_world" where
  \<comment> \<open>the sequence number and the id of the operation about to be put\<close>
  "next_operation a request w0 =
    (let w1 = upd_actor a (\<lambda>x. x\<lparr>ac_sequence := ac_sequence x + 1\<rparr>) w0 in
     case or_option (rq_operationId request) (rq_requestId request) of
       Some i \<Rightarrow> (i, w1)
     | None \<Rightarrow>
         let w2 = w1\<lparr>tw_nextOperationId := tw_nextOperationId w1 + 1\<rparr> in
         (''target-'' @ nat_string 10 (tw_nextOperationId w2), w2))"

definition requestSessionTargetTransition ::
  "target_request \<Rightarrow> target_world \<Rightarrow> transition_handle \<times> target_world" where
  "requestSessionTargetTransition request w0 =
    (let (a, w1) = actorFor (rq_sessionId request) w0; (opId, w2) = next_operation a request w1 in
     case transition a (Select opId (or_else (rq_origin request) Send) (rq_target request)) w2 of
       Inl e \<Rightarrow> (ThrewError e, w2)
     | Inr w3 \<Rightarrow>
         (Requested (length (tw_ops w3)),
          put_request a
            \<lparr>po_sequence = ac_sequence (the_actor w3 a), po_request = request, po_operationId = opId,
             po_selectionAtRequest = ac_selection (the_actor w1 a),
             po_targetAtRequest = session_target w1 (rq_sessionId request), po_outcome = None\<rparr> w3))"

definition transitionSessionTarget ::
  "target_request \<Rightarrow> target_world \<Rightarrow> transition_handle \<times> target_world" where
  \<comment> \<open>up to the operation's outcome, or to the release of a foreign lease\<close>
  "transitionSessionTarget request w0 =
    (let (a, w) = actorFor (rq_sessionId request) w0 in
     case ac_dispatch (the_actor w a) of
       Some d \<Rightarrow>
         if rq_dispatchToken request \<noteq> Some (dl_token d)
         then (WaitsForRelease (length (tw_waiting w)),
               w\<lparr>tw_waiting := tw_waiting w @ [(dl_token d, request)]\<rparr>)
         else requestSessionTargetTransition request w
     | None \<Rightarrow> requestSessionTargetTransition request w)"

definition resume_waiting :: "nat \<Rightarrow> target_world \<Rightarrow> target_world" where
  \<comment> \<open>a request goes on after the release it waited for\<close>
  "resume_waiting n w =
    (if n < length (tw_waiting w) \<and> fst (tw_waiting w ! n) \<in> set (tw_openGates w)
     then snd (requestSessionTargetTransition (snd (tw_waiting w ! n))
            (w\<lparr>tw_waiting := take n (tw_waiting w) @ drop (Suc n) (tw_waiting w)\<rparr>))
     else w)"

section \<open>Leases\<close>

datatype dispatch_acquisition =
    Acquired nat execution_target
  | Contended nat
  | LeaseUnresolved
  | LeaseSessionMissing

definition observed_mutation :: "target_session \<Rightarrow> target_mutation" where
  "observed_mutation s =
    \<lparr>dm_target = sn_target s, dm_source = or_else (sn_source s) Acp, dm_reasoning = sn_reasoning s\<rparr>"

definition acquireSessionDispatchTarget ::
  "string \<Rightarrow> execution_target option \<Rightarrow> target_world \<Rightarrow> dispatch_acquisition \<times> target_world" where
  \<comment> \<open>tokens name leases and, for \<open>Contended\<close>, the listener of the waiter\<close>
  "acquireSessionDispatchTarget k targetOverride w0 =
    (let (a, w) = actorFor k w0; token = tw_nextToken w in
     if ac_dispatch (the_actor w a) \<noteq> None then
       (Contended token, (upd_actor a (\<lambda>x. x\<lparr>ac_listeners := ac_listeners x @ [token]\<rparr>) w)
          \<lparr>tw_nextToken := token + 1\<rparr>)
     else
       case obj_get (tw_sessions w) k of
         None \<Rightarrow> (LeaseSessionMissing, w)
       | Some session \<Rightarrow>
           (case or_option targetOverride (sn_target session) of
              None \<Rightarrow> (LeaseUnresolved, w)
            | Some target \<Rightarrow>
                let moved = (targetOverride \<noteq> None \<and>
                       \<not> sameSessionExecutionTarget (sn_target session) targetOverride);
                    lease = \<lparr>dl_token = token, dl_sessionId = k, dl_target = target, dl_source = sn_source session,
                       dl_reasoning = sn_reasoning session\<rparr>;
                    w1 = (upd_actor a (\<lambda>x. x\<lparr>ac_dispatch := Some lease,
                       ac_deferredMutation := (if moved then Some (observed_mutation session)
                                               else ac_deferredMutation x)\<rparr>) w)
                       \<lparr>tw_nextToken := token + 1\<rparr>;
                    w2 = (if moved
                          then cancel_missing (tw_actors w1) (put_session k (lease_session lease) w1)
                          else w1) in
                (Acquired token target, w2)))"

definition write_mutation :: "string \<Rightarrow> target_mutation \<Rightarrow> target_world \<Rightarrow> string + target_world" where
  "write_mutation k m w =
    (if dm_source m = Ui then
       map_ok (\<lambda>w. case dm_reasoning m of Some r \<Rightarrow> patch_reasoning k r w | None \<Rightarrow> w)
         (replaceSessionExecutionTarget k (dm_target m) w)
     else
       map_ok (\<lambda>t. notify (put_session k (\<lambda>s.
           s\<lparr>sn_target := t, sn_source := Some Acp, sn_reasoning := dm_reasoning m\<rparr>) w))
         (normalize_opt (dm_target m)))"

definition apply_mutation :: "string \<Rightarrow> nat \<Rightarrow> target_mutation \<Rightarrow> target_world \<Rightarrow> string + target_world" where
  \<comment> \<open>what release does with a deferred change of the target\<close>
  "apply_mutation k a m w =
    (case (case dm_target m of
             Some t \<Rightarrow> transition a (Hydrate t (Some (metadataFor t (dm_reasoning m)))) w
           | None \<Rightarrow> Inr (transition_safe a SessionRemoved w)) of
       Inl e \<Rightarrow> Inl e
     | Inr w1 \<Rightarrow> write_mutation k m w1)"

definition release :: "nat \<Rightarrow> nat \<Rightarrow> target_world \<Rightarrow> target_world" where
  \<comment> \<open>of the lease \<open>token\<close>; an error of the deferred change leaves the rest undone\<close>
  "release a token w =
    (case ac_dispatch (the_actor w a) of
       None \<Rightarrow> w
     | Some d \<Rightarrow>
         if dl_token d \<noteq> token then w
         else
           let x = the_actor w a; w1 = clear_lease a w in
           (case ac_deferredSelection x of
              Some s \<Rightarrow> after_release a token (upd_actor a (\<lambda>x. x\<lparr>ac_selection := Some s\<rparr>) w1)
            | None \<Rightarrow>
                (case ac_deferredMutation x of
                   None \<Rightarrow> after_release a token w1
                 | Some m \<Rightarrow>
                     (case apply_mutation (dl_sessionId d) a m w1 of
                        Inl e \<Rightarrow> w1
                      | Inr w2 \<Rightarrow> after_release a token w2))))"

definition onSessionDispatchReleased :: "string \<Rightarrow> target_world \<Rightarrow> nat option \<times> target_world" where
  \<comment> \<open>the listener's number\<close>
  "onSessionDispatchReleased k w =
    (case obj_get (tw_actors w) k of
       None \<Rightarrow> (None, w)
     | Some a \<Rightarrow>
         if ac_dispatch (the_actor w a) = None then (None, w)
         else (Some (tw_nextToken w),
           (upd_actor a (\<lambda>x. x\<lparr>ac_listeners := ac_listeners x @ [tw_nextToken w]\<rparr>) w)
             \<lparr>tw_nextToken := tw_nextToken w + 1\<rparr>))"

definition unsubscribe_released :: "nat \<Rightarrow> nat \<Rightarrow> target_world \<Rightarrow> target_world" where
  "unsubscribe_released a l = upd_actor a (\<lambda>x. x\<lparr>ac_listeners := filter (\<lambda>m. m \<noteq> l) (ac_listeners x)\<rparr>)"

definition getSessionDispatchTarget :: "string \<Rightarrow> nat option \<Rightarrow> target_world \<Rightarrow> execution_target option" where
  "getSessionDispatchTarget k token w =
    (case Option.bind (obj_get (tw_actors w) k) (\<lambda>a. ac_dispatch (the_actor w a)) of
       None \<Rightarrow> None
     | Some d \<Rightarrow> if token \<noteq> None \<and> token \<noteq> Some (dl_token d) then None else Some (dl_target d))"

definition upd_lease :: "nat \<Rightarrow> nat \<Rightarrow> (dispatch_lease \<Rightarrow> dispatch_lease) \<Rightarrow> target_world \<Rightarrow> target_world" where
  \<comment> \<open>a write to the lease object \<open>token\<close>, seen by the actor while the lease is its own\<close>
  "upd_lease a token f = upd_actor a (\<lambda>x. x\<lparr>ac_dispatch :=
     (case ac_dispatch x of
        Some d \<Rightarrow> if dl_token d = token then Some (f d) else Some d | None \<Rightarrow> None)\<rparr>)"

definition publish :: "nat \<Rightarrow> nat \<Rightarrow> string \<Rightarrow> execution_target \<Rightarrow> target_world \<Rightarrow> (string + unit) \<times> target_world" where
  "publish a token k target w =
    (let w1 = upd_lease a token (\<lambda>d. d\<lparr>dl_target := target\<rparr>) w in
     case replaceSessionExecutionTarget k (Some target) (w1\<lparr>tw_restoring := True\<rparr>) of
       Inl e \<Rightarrow> (Inl e, w1\<lparr>tw_restoring := False\<rparr>)
     | Inr w2 \<Rightarrow> (Inr (), w2\<lparr>tw_restoring := False\<rparr>))"

datatype lease_change =
    LeaseSuperseded
  | LeaseThrew string
  | LeaseWaits nat

definition transitionSessionDispatchTarget ::
  "target_request \<Rightarrow> nat \<Rightarrow> target_world \<Rightarrow> lease_change \<times> target_world" where
  "transitionSessionDispatchTarget request token w =
    (case obj_get (tw_actors w) (rq_sessionId request) of
       None \<Rightarrow> (LeaseSuperseded, w)
     | Some a \<Rightarrow>
         (case ac_dispatch (the_actor w a) of
            None \<Rightarrow> (LeaseSuperseded, w)
          | Some d \<Rightarrow>
              if dl_token d \<noteq> token then (LeaseSuperseded, w)
              else if ac_deferredSelection (the_actor w a) \<noteq> None \<or>
                map_option dm_source (ac_deferredMutation (the_actor w a)) = Some Ui
              then (LeaseSuperseded, w)
              else
                let w1 = upd_actor a (\<lambda>x. x\<lparr>ac_deferredMutation := None\<rparr>)
                           (upd_lease a token (\<lambda>d. d\<lparr>dl_reasoning := None\<rparr>) w) in
                (case publish a token (rq_sessionId request) (rq_target request) w1 of
                   (Inl e, w2) \<Rightarrow> (LeaseThrew e, w2)
                 | (Inr _, w2) \<Rightarrow>
                     (case transitionSessionTarget (request\<lparr>rq_dispatchToken := Some token\<rparr>) w2 of
                        (h, w3) \<Rightarrow>
                          (LeaseWaits (length (tw_dispatchWaits w3)),
                           w3\<lparr>tw_dispatchWaits := tw_dispatchWaits w3 @
                             [\<lparr>dw_operation = (case h of Requested i \<Rightarrow> Some i | _ \<Rightarrow> None), dw_actor = a,
                               dw_token = token, dw_sessionId = rq_sessionId request,
                               dw_previousTarget = dl_target d, dw_previousReasoning = dl_reasoning d\<rparr>]\<rparr>)))))"

definition discard_observation :: "nat \<Rightarrow> target_world \<Rightarrow> target_world" where
  "discard_observation a = upd_actor a (\<lambda>x. x\<lparr>ac_deferredMutation :=
     (if map_option dm_source (ac_deferredMutation x) = Some Acp then None else ac_deferredMutation x)\<rparr>)"

definition finish_dispatch_wait :: "nat \<Rightarrow> target_world \<Rightarrow> target_world" where
  \<comment> \<open>\<open>transitionSessionDispatchTarget\<close> after the outcome of its operation\<close>
  "finish_dispatch_wait n w0 =
    (if length (tw_dispatchWaits w0) \<le> n then w0
     else
       let c = tw_dispatchWaits w0 ! n; a = dw_actor c; token = dw_token c;
           out = Option.bind (dw_operation c) (\<lambda>i. po_outcome (the_op w0 i));
           w = w0\<lparr>tw_dispatchWaits := take n (tw_dispatchWaits w0) @ drop (Suc n) (tw_dispatchWaits w0)\<rparr> in
       if dw_operation c \<noteq> None \<and> out = None then w0
       else
         case out of
           Some (CommittedOutcome t r snap) \<Rightarrow>
             upd_lease a token (\<lambda>d. d\<lparr>dl_target := t, dl_reasoning := session_reasoning w (dw_sessionId c)\<rparr>)
               (discard_observation a w)
         | _ \<Rightarrow>
             (case publish a token (dw_sessionId c) (dw_previousTarget c) w of
                (Inl e, w1) \<Rightarrow> w1
              | (Inr _, w1) \<Rightarrow> upd_lease a token (\<lambda>d. d\<lparr>dl_reasoning := dw_previousReasoning c\<rparr>) w1))"

section \<open>Observations\<close>

definition hydrateSessionTarget ::
  "string \<Rightarrow> execution_target \<Rightarrow> json option \<Rightarrow> target_world \<Rightarrow> (string + bool) \<times> target_world" where
  "hydrateSessionTarget k target reasoningEffort w0 =
    (let (a, w) = actorFor k w0; x = the_actor w a;
         patched = (\<lambda>w. case reasoningEffort of Some r \<Rightarrow> patch_reasoning k r w | None \<Rightarrow> w) in
     if ac_current x \<noteq> None \<or> ac_latest x \<noteq> None \<or> ac_selection x \<noteq> None then (Inr False, w)
     else
       case ac_dispatch x of
         Some d \<Rightarrow>
           (case normalize_target target of
              Inl e \<Rightarrow> (Inl e, w)
            | Inr t \<Rightarrow>
                if matches_lease (Some t) (dl_target d) then
                  (if sameSessionExecutionTarget (Some t) (Some (dl_target d)) then (Inr True, patched w)
                   else
                     (case hydrateSessionExecutionTarget k t w of
                        Inl e \<Rightarrow> (Inl e, w) | Inr w1 \<Rightarrow> (Inr True, patched w1)))
                else
                  (Inr False, upd_actor a (\<lambda>x. x\<lparr>ac_deferredMutation := Some
                     \<lparr>dm_target = Some t, dm_source = Acp, dm_reasoning = reasoningEffort\<rparr>\<rparr>) w))
       | None \<Rightarrow>
           (case transition a (Hydrate target (Some (metadataFor target reasoningEffort))) w of
              Inl e \<Rightarrow> (Inl e, w)
            | Inr w1 \<Rightarrow>
                (case hydrateSessionExecutionTarget k target w1 of
                   Inl e \<Rightarrow> (Inl e, w1) | Inr w2 \<Rightarrow> (Inr True, patched w2))))"

record snapshot_context =
  sc_response :: bool
  sc_requestId :: "string option"
  sc_providerId :: "string option"
  sc_modelId :: "string option"
  sc_reasoningEffortValue :: "string option"

definition snapshotContextMatchesTarget :: "execution_target option \<Rightarrow> snapshot_context \<Rightarrow> bool" where
  "snapshotContextMatchesTarget target ctx \<longleftrightarrow>
    (case target of
       None \<Rightarrow> False
     | Some t \<Rightarrow>
         sc_response ctx \<and> truthy (modelId t) \<and>
         (let expected = gooseServeSelectionFromExecutionTarget target in
          sc_providerId ctx = ss_providerId expected \<and> sc_modelId ctx = ss_modelId expected))"

definition snapshotContextMatchesSelection :: "target_selection \<Rightarrow> snapshot_context \<Rightarrow> bool" where
  "snapshotContextMatchesSelection selection ctx \<longleftrightarrow>
    sc_response ctx \<and> sc_requestId ctx = Some (sel_operationId selection) \<and>
    (let expected = gooseServeSelectionFromExecutionTarget (Some (sel_target selection)) in
     truthy (ss_providerId expected) \<and> sc_providerId ctx = ss_providerId expected) \<and>
    (\<not> truthy (modelId (sel_target selection)) \<or> sc_modelId ctx = modelId (sel_target selection))"

definition publishObservedTarget ::
  "string \<Rightarrow> execution_target \<Rightarrow> target_source \<Rightarrow> json option \<Rightarrow> target_world \<Rightarrow> string + target_world" where
  "publishObservedTarget k target source reasoningEffort w =
    map_ok (\<lambda>t. notify (put_session k (\<lambda>s.
        let identityChanged = (\<not> sameSessionExecutionTarget (sn_target s) (Some t)) in
        s\<lparr>sn_target := Some t, sn_source := Some source,
          sn_reasoning := (if reasoningEffort \<noteq> None then reasoningEffort
                           else if identityChanged then None else sn_reasoning s)\<rparr>) w))
      (normalize_target target)"

definition reasoning_value_current :: "snapshot_context \<Rightarrow> json option \<Rightarrow> bool" where
  "reasoning_value_current ctx reasoning \<longleftrightarrow>
    (case sc_reasoningEffortValue ctx of
       None \<Rightarrow> True
     | Some v \<Rightarrow> Option.bind reasoning (\<lambda>r. json_field r ''currentValue'') = Some (JStr v))"

definition owns_transition :: "session_actor \<Rightarrow> string option \<Rightarrow> bool" where
  "owns_transition x requestId \<longleftrightarrow>
    (case (ac_state x, requestId) of
       (Transitioning j og prev d e ph m, Some i) \<Rightarrow> j = i | _ \<Rightarrow> False)"

type_synonym model_provider_lookup = "string \<Rightarrow> string option"

definition observed_base ::
  "model_provider_lookup \<Rightarrow> snapshot_context \<Rightarrow> string \<times> string \<Rightarrow> execution_target option \<Rightarrow>
    string + execution_target option" where
  \<comment> \<open>the target a snapshot names by its provider, or the given one without a provider\<close>
  "observed_base cached ctx snap otherwise =
    (if truthy (sc_providerId ctx)
     then executionTargetFromGooseServeSession cached
       \<lparr>ss_providerId = sc_providerId ctx, ss_modelId = Some (fst snap), ss_modelName = Some (snd snap)\<rparr>
     else Inr otherwise)"

definition bind_ok :: "string + 'a \<Rightarrow> ('a \<Rightarrow> string + 'b) \<Rightarrow> string + 'b" where
  "bind_ok x f = (case x of Inl e \<Rightarrow> Inl e | Inr v \<Rightarrow> f v)"

definition materialized_observation ::
  "model_provider_lookup \<Rightarrow> snapshot_context \<Rightarrow> string \<times> string \<Rightarrow> execution_target option \<Rightarrow>
    string + execution_target option" where
  "materialized_observation cached ctx snap otherwise =
    bind_ok (observed_base cached ctx snap otherwise)
      (\<lambda>base. materializeSessionExecutionModel base (fst snap) (snd snap))"

definition snapshot_base ::
  "model_provider_lookup \<Rightarrow> session_actor \<Rightarrow> target_session option \<Rightarrow> string \<times> string \<Rightarrow> snapshot_context \<Rightarrow>
    (string + execution_target option) option" where
  \<comment> \<open>the target a snapshot is materialized on; \<open>None\<close> when the snapshot is rejected\<close>
  "snapshot_base cached x session snap ctx =
    (let localTarget = Option.bind session sn_target in
     case ac_selection x of
       Some selection \<Rightarrow>
         if Some (fst snap) \<noteq> sc_modelId ctx \<or> \<not> snapshotContextMatchesSelection selection ctx
         then None else Some (Inr (Some (sel_target selection)))
     | None \<Rightarrow>
         if Option.bind session sn_source = Some Ui then
           (if Option.bind localTarget modelId \<noteq> Some (fst snap) \<or>
              (sc_response ctx \<and> \<not> snapshotContextMatchesTarget localTarget ctx)
            then None else Some (Inr localTarget))
         else Some (observed_base cached ctx snap localTarget))"

definition paired_reasoning_current ::
  "session_actor \<Rightarrow> target_session option \<Rightarrow> json option \<Rightarrow> snapshot_context \<Rightarrow> bool" where
  "paired_reasoning_current x session reasoningEffort ctx \<longleftrightarrow>
    reasoningEffort \<noteq> None \<and> reasoning_value_current ctx (Option.bind session sn_reasoning) \<and>
    (case ac_selection x of
       Some selection \<Rightarrow> snapshotContextMatchesSelection selection ctx
     | None \<Rightarrow> Option.bind session sn_source \<noteq> Some Ui \<or>
         snapshotContextMatchesTarget (Option.bind session sn_target) ctx)"

definition observe_applied ::
  "string \<Rightarrow> nat \<Rightarrow> execution_target \<Rightarrow> json option \<Rightarrow> snapshot_context \<Rightarrow> target_world \<Rightarrow>
    (string + bool) \<times> target_world" where
  \<comment> \<open>the end of \<open>observeSessionTargetModelSnapshot\<close>, for a snapshot that is accepted\<close>
  "observe_applied k a target reasoningEffort ctx w =
    (let x = the_actor w a; session = obj_get (tw_sessions w) k;
         paired = (if paired_reasoning_current x session reasoningEffort ctx then reasoningEffort else None);
         moved = (if owns_transition x (sc_requestId ctx) then
                    transition a (Acknowledged (the (sc_requestId ctx)) target
                      (map_option (\<lambda>r. metadataFor target (Some r)) paired)) w
                  else if ac_selection x = None then
                    transition a (Hydrate target (Some (metadataFor target paired))) w
                  else Inr w) in
     case moved of
       Inl e \<Rightarrow> (Inl e, w)
     | Inr w1 \<Rightarrow>
         (case session of
            None \<Rightarrow> (Inr True, w1)
          | Some s \<Rightarrow>
              (case publishObservedTarget k target
                  (if sn_source s = Some Ui \<or> ac_selection x \<noteq> None then Ui else Acp) paired w1 of
                 Inl e \<Rightarrow> (Inl e, w1) | Inr w2 \<Rightarrow> (Inr True, w2))))"

definition observe_leased ::
  "string \<Rightarrow> nat \<Rightarrow> execution_target \<Rightarrow> json option \<Rightarrow> snapshot_context \<Rightarrow> target_world \<Rightarrow>
    (string + bool) \<times> target_world" where
  \<comment> \<open>a snapshot of the leased target that no transition asked for\<close>
  "observe_leased k a target reasoningEffort ctx w =
    (case obj_get (tw_sessions w) k of
       None \<Rightarrow> (Inr True, w)
     | Some s \<Rightarrow>
         let current = (reasoningEffort \<noteq> None \<and> reasoning_value_current ctx (sn_reasoning s) \<and>
               (sn_source s \<noteq> Some Ui \<or> snapshotContextMatchesTarget (sn_target s) ctx)) in
         (case publishObservedTarget k target (if sn_source s = Some Ui then Ui else Acp)
             (if current then reasoningEffort else None) w of
            Inl e \<Rightarrow> (Inl e, w) | Inr w1 \<Rightarrow> (Inr True, w1)))"

definition observe_snapshot ::
  "model_provider_lookup \<Rightarrow> string \<Rightarrow> nat \<Rightarrow> string \<times> string \<Rightarrow> json option \<Rightarrow> snapshot_context \<Rightarrow>
    target_world \<Rightarrow> (string + bool) \<times> target_world" where
  "observe_snapshot cached k a snap reasoningEffort ctx w =
    (case snapshot_base cached (the_actor w a) (obj_get (tw_sessions w) k) snap ctx of
       None \<Rightarrow> (Inr False, w)
     | Some base \<Rightarrow>
         (case bind_ok base (\<lambda>b. materializeSessionExecutionModel b (fst snap) (snd snap)) of
            Inl e \<Rightarrow> (Inl e, w)
          | Inr None \<Rightarrow> (Inr False, w)
          | Inr (Some target) \<Rightarrow> observe_applied k a target reasoningEffort ctx w))"

definition observeSessionTargetModelSnapshot ::
  "model_provider_lookup \<Rightarrow> string \<Rightarrow> string \<times> string \<Rightarrow> json option \<Rightarrow> snapshot_context \<Rightarrow>
    target_world \<Rightarrow> (string + bool) \<times> target_world" where
  "observeSessionTargetModelSnapshot cached k snap reasoningEffort ctx w0 =
    (let (a, w) = actorFor k w0 in
     case ac_dispatch (the_actor w a) of
       None \<Rightarrow> observe_snapshot cached k a snap reasoningEffort ctx w
     | Some d \<Rightarrow>
         (case materialized_observation cached ctx snap (Some (dl_target d)) of
            Inl e \<Rightarrow> (Inl e, w)
          | Inr None \<Rightarrow> (Inr False, w)
          | Inr (Some target) \<Rightarrow>
              if \<not> matches_lease (Some target) (dl_target d) then
                (Inr False, upd_actor a (\<lambda>x. x\<lparr>ac_deferredMutation := Some
                   \<lparr>dm_target = Some target, dm_source = Acp, dm_reasoning = reasoningEffort\<rparr>\<rparr>) w)
              else if \<not> owns_transition (the_actor w a) (sc_requestId ctx)
              then observe_leased k a target reasoningEffort ctx w
              else observe_snapshot cached k a snap reasoningEffort ctx w))"

definition observeSessionTargetMetadata ::
  "string \<Rightarrow> string option \<Rightarrow> execution_target \<Rightarrow> json \<Rightarrow> target_world \<Rightarrow> bool \<times> target_world" where
  "observeSessionTargetMetadata k operationId target reasoningEffort w0 =
    (let (a, w) = actorFor k w0; x = the_actor w a;
         transitioning = (case ac_state x of Transitioning j og prev d e ph m \<Rightarrow> True | _ \<Rightarrow> False) in
     if truthy operationId \<and> \<not> owns_transition x operationId \<and>
        map_option sel_operationId (ac_selection x) \<noteq> operationId then (False, w)
     else if \<not> truthy operationId \<and> (transitioning \<or> ac_selection x \<noteq> None) then (False, w)
     else
       let expected =
             (case ac_state x of
                Transitioning j og prev d e ph m \<Rightarrow> Some (or_else e d)
              | _ \<Rightarrow> or_option (map_option sel_target (ac_selection x)) (session_target w k)) in
       if \<not> sameSessionExecutionTarget expected (Some target) then (False, w)
       else
         let w1 = (if transitioning \<and> truthy operationId
                   then transition_safe a (MetadataObserved (the operationId)
                          (metadataFor target (Some reasoningEffort))) w
                   else w) in
         (True, patch_reasoning k reasoningEffort w1))"

definition observeSessionTargetReasoningSnapshot ::
  "string \<Rightarrow> json \<Rightarrow> snapshot_context \<Rightarrow> target_world \<Rightarrow> bool \<times> target_world" where
  "observeSessionTargetReasoningSnapshot k reasoningEffort ctx w0 =
    (let (a, w) = actorFor k w0; x = the_actor w a; session = obj_get (tw_sessions w) k in
     if \<not> paired_reasoning_current x session (Some reasoningEffort) ctx then (False, w)
     else
       case or_option (map_option sel_target (ac_selection x)) (Option.bind session sn_target) of
         None \<Rightarrow> (False, w)
       | Some target \<Rightarrow> observeSessionTargetMetadata k (sc_requestId ctx) target reasoningEffort w)"

definition observeSessionTargetConfigSnapshots ::
  "model_provider_lookup \<Rightarrow> string \<Rightarrow> config_snapshots \<Rightarrow> snapshot_context \<Rightarrow> target_world \<Rightarrow>
    (string + unit) \<times> target_world" where
  "observeSessionTargetConfigSnapshots cached k snapshots ctx w =
    (case cs_model snapshots of
       Some snap \<Rightarrow>
         (case observeSessionTargetModelSnapshot cached k snap (cs_reasoningEffort snapshots) ctx w of
            (r, w1) \<Rightarrow> (map_ok (\<lambda>_. ()) r, w1))
     | None \<Rightarrow>
         (case cs_reasoningEffort snapshots of
            Some r \<Rightarrow> (Inr (), snd (observeSessionTargetReasoningSnapshot k r ctx w))
          | None \<Rightarrow> (Inr (), w)))"

section \<open>Selections and ownership\<close>

definition recordSessionTargetSelection ::
  "string \<Rightarrow> string \<Rightarrow> execution_target \<Rightarrow> execution_target option \<Rightarrow> string option \<Rightarrow>
    target_world \<Rightarrow> (string + unit) \<times> target_world" where
  "recordSessionTargetSelection k operationId target previousTarget preferenceAgentId w0 =
    (let (a, w) = actorFor k w0 in
     case normalize_target target of
       Inl e \<Rightarrow> (Inl e, w)
     | Inr t \<Rightarrow>
         let selection = \<lparr>sel_ref = tw_nextRef w, sel_operationId = operationId, sel_target = t,
               sel_previousTarget = previousTarget, sel_preferenceAgentId = preferenceAgentId\<rparr>;
             w1 = w\<lparr>tw_nextRef := tw_nextRef w + 1\<rparr> in
         if ac_dispatch (the_actor w a) \<noteq> None
         then (Inr (), upd_actor a (\<lambda>x. x\<lparr>ac_deferredSelection := Some selection\<rparr>) w1)
         else
           let w2 = upd_actor a (\<lambda>x. x\<lparr>ac_selection := Some selection\<rparr>) w1 in
           (case replaceSessionExecutionTarget k (Some t) w2 of
              Inl e \<Rightarrow> (Inl e, w2) | Inr w3 \<Rightarrow> (Inr (), w3)))"

definition replaceSessionTargetAfterDispatch ::
  "string \<Rightarrow> execution_target option \<Rightarrow> target_world \<Rightarrow> (string + unit) \<times> target_world" where
  "replaceSessionTargetAfterDispatch k target w0 =
    (let (a, w) = actorFor k w0 in
     if ac_dispatch (the_actor w a) \<noteq> None
     then (Inr (), upd_actor a (\<lambda>x. x\<lparr>ac_deferredMutation := Some
            \<lparr>dm_target = target, dm_source = Ui, dm_reasoning = None\<rparr>\<rparr>) w)
     else
       (case replaceSessionExecutionTarget k target w of
          Inl e \<Rightarrow> (Inl e, w) | Inr w1 \<Rightarrow> (Inr (), w1)))"

definition getSessionTargetSelection :: "string \<Rightarrow> target_world \<Rightarrow> target_selection option \<times> target_world" where
  "getSessionTargetSelection k w0 =
    (let (a, w) = actorFor k w0 in
     (or_option (ac_deferredSelection (the_actor w a)) (ac_selection (the_actor w a)), w))"

definition clearSessionTargetSelection :: "string \<Rightarrow> string option \<Rightarrow> target_world \<Rightarrow> bool \<times> target_world" where
  "clearSessionTargetSelection k operationId w =
    (case obj_get (tw_actors w) k of
       None \<Rightarrow> (False, w)
     | Some a \<Rightarrow>
         (case ac_deferredSelection (the_actor w a) of
            Some s \<Rightarrow>
              if truthy operationId \<and> Some (sel_operationId s) \<noteq> operationId then (False, w)
              else (True, upd_actor a (\<lambda>x. x\<lparr>ac_deferredSelection := None\<rparr>) w)
          | None \<Rightarrow>
              (case ac_selection (the_actor w a) of
                 None \<Rightarrow> (False, w)
               | Some s \<Rightarrow>
                   if truthy operationId \<and> Some (sel_operationId s) \<noteq> operationId then (False, w)
                   else (True, upd_actor a (\<lambda>x. x\<lparr>ac_selection := None\<rparr>) w))))"

definition getSessionTargetState :: "string \<Rightarrow> target_world \<Rightarrow> target_state \<times> target_world" where
  "getSessionTargetState k w0 = (let (a, w) = actorFor k w0 in (ac_state (the_actor w a), w))"

definition transferSessionTargetOwnership ::
  "string \<Rightarrow> string \<Rightarrow> target_world \<Rightarrow> target_world" where
  "transferSessionTargetOwnership fromId toId w =
    (case obj_get (tw_actors w) fromId of
       None \<Rightarrow> w
     | Some a \<Rightarrow>
         let w1 = w\<lparr>tw_actors := obj_del fromId (tw_actors w)\<rparr>; source = the_actor w1 a in
         (case obj_get (tw_actors w1) toId of
            Some b \<Rightarrow>
              let w2 = upd_actor b (\<lambda>x. x\<lparr>ac_selection := or_option (ac_selection x) (ac_selection source),
                    ac_deferredSelection := or_option (ac_deferredSelection x) (ac_deferredSelection source),
                    ac_deferredMutation := or_option (ac_deferredMutation x) (ac_deferredMutation source)\<rparr>) w1;
                  w3 = upd_actor a (\<lambda>x. x\<lparr>ac_cancelled := True\<rparr>) w2;
                  w4 = settle_all (pending_of source) SupersededOutcome w3;
                  w5 = upd_actor a (\<lambda>x. x\<lparr>ac_current := None, ac_latest := None\<rparr>) w4 in
              (case ac_dispatch (the_actor w5 a) of
                 None \<Rightarrow> w5 | Some d \<Rightarrow> release a (dl_token d) w5)
          | None \<Rightarrow>
              (upd_actor a (\<lambda>x. x\<lparr>ac_tracksLiveSession := True\<rparr>) w1)
                \<lparr>tw_actors := obj_set toId a (tw_actors w1)\<rparr>))"

section \<open>Steps\<close>

datatype target_action =
    TransitionTarget target_request
  | ResumeWaiting nat
  | RepairAnswered nat "json + serve_selection option"
  | PrepareAnswered nat "json + config_snapshots option"
  | DrainContinues nat
  | AcquireLease string "execution_target option"
  | ReleaseLease nat nat
  | ListenForRelease string
  | StopListening nat nat
  | TransitionLease target_request nat
  | FinishLeaseTransition nat
  | HydrateTarget string execution_target "json option"
  | ObserveSnapshots model_provider_lookup string config_snapshots snapshot_context
  | ObserveMetadata string "string option" execution_target json
  | RecordSelection string string execution_target "execution_target option" "string option"
  | ReplaceAfterDispatch string "execution_target option"
  | ClearSelection string "string option"
  | TransferOwnership string string
  | CancelTarget string
  | ReleaseMicrotask
  | WriteSession string target_session
  | RemoveSession string

fun target_step :: "target_action \<Rightarrow> target_world \<Rightarrow> target_world" where
  \<comment> \<open>the last two: any other code that writes a session's record, or removes it\<close>
  "target_step (TransitionTarget rq) w = snd (transitionSessionTarget rq w)"
| "target_step (ResumeWaiting n) w = resume_waiting n w"
| "target_step (RepairAnswered a ans) w = on_resolved a ans w"
| "target_step (PrepareAnswered a ans) w = on_prepared a ans w"
| "target_step (DrainContinues a) w = on_done a w"
| "target_step (AcquireLease k t) w = snd (acquireSessionDispatchTarget k t w)"
| "target_step (ReleaseLease a token) w = release a token w"
| "target_step (ListenForRelease k) w = snd (onSessionDispatchReleased k w)"
| "target_step (StopListening a l) w = unsubscribe_released a l w"
| "target_step (TransitionLease rq token) w = snd (transitionSessionDispatchTarget rq token w)"
| "target_step (FinishLeaseTransition n) w = finish_dispatch_wait n w"
| "target_step (HydrateTarget k t r) w = snd (hydrateSessionTarget k t r w)"
| "target_step (ObserveSnapshots cached k snaps ctx) w =
    snd (observeSessionTargetConfigSnapshots cached k snaps ctx w)"
| "target_step (ObserveMetadata k i t r) w = snd (observeSessionTargetMetadata k i t r w)"
| "target_step (RecordSelection k i t prev agent) w = snd (recordSessionTargetSelection k i t prev agent w)"
| "target_step (ReplaceAfterDispatch k t) w = snd (replaceSessionTargetAfterDispatch k t w)"
| "target_step (ClearSelection k i) w = snd (clearSessionTargetSelection k i w)"
| "target_step (TransferOwnership f t) w = transferSessionTargetOwnership f t w"
| "target_step (CancelTarget k) w = cancelSessionTarget k w"
| "target_step ReleaseMicrotask w =
    (case tw_microtasks w of
       [] \<Rightarrow> w
     | a # as \<Rightarrow> notifyDispatchReleaseListeners a (w\<lparr>tw_microtasks := as\<rparr>))"
| "target_step (WriteSession k s) w = notify (w\<lparr>tw_sessions := obj_set k s (tw_sessions w)\<rparr>)"
| "target_step (RemoveSession k) w = notify (w\<lparr>tw_sessions := obj_del k (tw_sessions w)\<rparr>)"

end
