(* ===== verification/TargetFrames.thy ===== *)
theory TargetFrames
  imports TargetCoordinator
begin

text \<open>
  What the composite operations of the target coordinator do to a relation between worlds, proved once.
  A relation that is reflexive and transitive and holds across the primitive steps (an update of an
  actor that neither moves its loop nor gives it a lease, an outcome, a write to the session store with
  its notification, a call of the loop, the making of an actor) holds across every operation built from
  them. The preservation of the coordinator's invariants are instances.
\<close>

section \<open>What an actor shows\<close>

record drain_view =
  dv_pc :: drain_pc
  dv_current :: "nat option"
  dv_latest :: "nat option"
  dv_sequence :: nat

definition view :: "session_actor \<Rightarrow> drain_view" where
  "view x = \<lparr>dv_pc = ac_pc x, dv_current = ac_current x, dv_latest = ac_latest x, dv_sequence = ac_sequence x\<rparr>"

lemma view_simps [simp]:
  "dv_pc (view x) = ac_pc x" "dv_current (view x) = ac_current x" "dv_latest (view x) = ac_latest x"
  "dv_sequence (view x) = ac_sequence x"
  by (simp_all add: view_def)

definition mild :: "(session_actor \<Rightarrow> session_actor) \<Rightarrow> bool" where
  \<comment> \<open>leaves the loop where it is and takes no lease\<close>
  "mild f \<longleftrightarrow> (\<forall>x. view (f x) = view x \<and> ac_dispatch (f x) \<in> {ac_dispatch x, None})"

lemma mild_updates [simp]:
  "mild (\<lambda>x. x\<lparr>ac_state := s x\<rparr>)" "mild (\<lambda>x. x\<lparr>ac_tracksLiveSession := b x\<rparr>)"
  "mild (\<lambda>x. x\<lparr>ac_selection := sel\<rparr>)" "mild (\<lambda>x. x\<lparr>ac_deferredSelection := sel\<rparr>)"
  "mild (\<lambda>x. x\<lparr>ac_deferredMutation := m x\<rparr>)" "mild (\<lambda>x. x\<lparr>ac_listeners := l x\<rparr>)"
  "mild (\<lambda>x. x\<lparr>ac_cancelled := b x\<rparr>)"
  by (simp_all add: mild_def view_def)

lemma mild_constants [simp]:
  "mild (ac_state_update (\<lambda>_. s))" "mild (ac_selection_update (\<lambda>_. sel))"
  "mild (ac_deferredSelection_update (\<lambda>_. sel))" "mild (ac_deferredMutation_update (\<lambda>_. m))"
  "mild (ac_listeners_update (\<lambda>_. l))" "mild (ac_cancelled_update (\<lambda>_. b))"
  "mild (ac_tracksLiveSession_update (\<lambda>_. b))"
  by (simp_all add: mild_def view_def)

lemma upd_actor_fields [simp]:
  "tw_ops (upd_actor a f w) = tw_ops w" "tw_actors (upd_actor a f w) = tw_actors w"
  "tw_sessions (upd_actor a f w) = tw_sessions w" "length (tw_heap (upd_actor a f w)) = length (tw_heap w)"
  "tw_restoring (upd_actor a f w) = tw_restoring w"
  by (simp_all add: upd_actor_def)

lemma the_actor_upd: "a < length (tw_heap w) \<Longrightarrow> the_actor (upd_actor a f w) a = f (the_actor w a)"
  by (simp add: the_actor_def upd_actor_def)

lemma the_actor_other: "b \<noteq> a \<Longrightarrow> the_actor (upd_actor a f w) b = the_actor w b"
  by (simp add: the_actor_def upd_actor_def)

lemma out_of_heap: "\<not> a < length (tw_heap w) \<Longrightarrow> upd_actor a f w = w"
  by (simp add: upd_actor_def list_update_beyond)

lemma upd_upd: "upd_actor a g (upd_actor a f w) = upd_actor a (\<lambda>x. g (f x)) w"
  by (cases "a < length (tw_heap w)") (simp_all add: upd_actor_def list_update_beyond)

section \<open>Relations across operations\<close>

locale target_frame =
  fixes R :: "target_world \<Rightarrow> target_world \<Rightarrow> bool"
  assumes same: "R w w"
    and trans: "R w v \<Longrightarrow> R v u \<Longrightarrow> R w u"
    and mild: "mild f \<Longrightarrow> R w (upd_actor a f w)"
    and settle: "R w (settleOperation i out w)"
    and aside: "tw_heap w' = tw_heap w \<Longrightarrow> tw_ops w' = tw_ops w \<Longrightarrow> tw_actors w' = tw_actors w \<Longrightarrow>
      tw_sessions w' = tw_sessions w \<Longrightarrow> tw_restoring w' = tw_restoring w \<Longrightarrow> R w w'"
    and stored: "R w (notify (put_session k g w))"
    and loop: "R w (drain a w)"
    and made: "R w (snd (actorFor k w))"
begin

lemma settle_all: "R w (settle_all is out w)"
  by (induction "is" out w rule: settle_all.induct) (auto intro: same trans settle)

lemma transition_safe: "R w (transition_safe a e w)"
  unfolding transition_safe_def by (rule mild) simp

lemma transition: "transition a e w = Inr w' \<Longrightarrow> R w w'"
  by (auto simp: transition_def map_ok_def split: sum.splits intro!: mild)

lemma write_target: "R w (write_target k t src w)"
  by (auto simp: write_target_def Let_def split: option.split intro: same stored)

lemma replace: "replaceSessionExecutionTarget k t w = Inr w' \<Longrightarrow> R w w'"
  by (auto simp: replaceSessionExecutionTarget_def map_ok_def write_target split: sum.splits)

lemma hydrate_session: "hydrateSessionExecutionTarget k t w = Inr w' \<Longrightarrow> R w w'"
  by (auto simp: hydrateSessionExecutionTarget_def map_ok_def write_target same split: sum.splits if_splits)

lemma patch: "R w (patch_reasoning k r w)"
  by (auto simp: patch_reasoning_def split: option.split intro: same stored)

lemma patched: "R w (case r of Some x \<Rightarrow> patch_reasoning k x w | None \<Rightarrow> w)"
  by (simp add: patch same split: option.split)

lemma publish_observed: "publishObservedTarget k t src r w = Inr w' \<Longrightarrow> R w w'"
  by (auto simp: publishObservedTarget_def map_ok_def split: sum.splits intro: stored)

lemma publish_acknowledged: "publish_acknowledged k t snap w = Inr w' \<Longrightarrow> R w w'"
  by (auto simp: publish_acknowledged_def map_ok_def split: sum.splits if_splits option.splits
      intro: same trans [OF replace] replace patch)

lemma superseded: "R w (resolveSuperseded a i w)"
  unfolding resolveSuperseded_def by (rule trans [OF transition_safe settle])

lemma failed: "R w (execution_failed a i err w)"
  by (simp add: execution_failed_def Let_def superseded trans [OF transition_safe settle])

lemma acknowledge: "R w (acknowledge a i eff t snap w)"
  by (auto simp: acknowledge_def Let_def superseded failed split: sum.split
      intro: trans [OF transition failed] trans [OF trans [OF transition publish_acknowledged] settle])

lemma write_mutation: "write_mutation k m w = Inr w' \<Longrightarrow> R w w'"
  by (auto simp: write_mutation_def map_ok_def split: if_splits sum.splits option.splits
      intro: trans [OF replace] patch replace stored)

lemma apply_mutation: "apply_mutation k a m w = Inr w' \<Longrightarrow> R w w'"
  by (auto simp: apply_mutation_def split: option.splits sum.splits
      intro: trans [OF transition write_mutation] trans [OF transition_safe write_mutation])

lemma clear_lease: "R w (clear_lease a w)"
  unfolding clear_lease_def by (rule mild) (simp add: mild_def view_def)

lemma microtask: "R w (w\<lparr>tw_microtasks := q\<rparr>)" and openings: "R w (open_gate t w)"
  by (rule aside; simp add: open_gate_def)+

lemma after_release: "R w (after_release a token w)"
  by (auto simp: after_release_def Let_def intro: trans [OF openings loop] trans [OF openings microtask])

lemma release: "R w (release a token w)"
  by (auto simp: release_def Let_def split: option.split sum.split
      intro: same trans [OF clear_lease after_release] clear_lease
        trans [OF trans [OF clear_lease mild] after_release] trans [OF trans [OF clear_lease apply_mutation] after_release])

lemma listeners: "R w (notifyDispatchReleaseListeners a w)"
proof -
  have "R w ((upd_actor a (\<lambda>x. x\<lparr>ac_listeners := []\<rparr>) w)\<lparr>tw_notified := n\<rparr>)" for n
    by (rule trans [OF mild aside]) simp_all
  then show ?thesis by (simp add: notifyDispatchReleaseListeners_def Let_def same)
qed

lemma deferred: "R w (upd_actor a (\<lambda>x. x\<lparr>ac_deferredMutation := m\<rparr>) w)"
  by (rule mild) simp

lemma unsubscribe: "R w (unsubscribe_released a l w)"
  unfolding unsubscribe_released_def by (rule mild) simp

lemma listen: "R w (snd (onSessionDispatchReleased k w))"
proof -
  have "R w ((upd_actor a (\<lambda>x. x\<lparr>ac_listeners := ac_listeners x @ [n]\<rparr>) w)\<lparr>tw_nextToken := m\<rparr>)" for a n m
    by (rule trans [OF mild aside]) simp_all
  then show ?thesis by (simp add: onSessionDispatchReleased_def same split: option.split)
qed

lemma after_actor:
  assumes "\<And>a v. actorFor k w = (a, v) \<Longrightarrow> R v u"
  shows "R w u"
  using trans [OF made assms [OF surjective_pairing]] by simp

lemma hydrate: "R w (snd (hydrateSessionTarget k t r w))"
proof (rule after_actor [of k])
  fix a v
  assume e: "actorFor k w = (a, v)"
  have h: "R u (patch_reasoning k x y)" if "hydrateSessionExecutionTarget k s u = Inr y" for u y s x
    using hydrate_session [OF that] patch by (rule trans)
  have t: "R v (patch_reasoning k x y)" "R v y"
    if "transition a ev v = Inr u" "hydrateSessionExecutionTarget k s u = Inr y" for u y s x ev
    using transition [OF that(1)] h [OF that(2)] hydrate_session [OF that(2)] by (blast intro: trans)+
  show "R v (snd (hydrateSessionTarget k t r w))"
    unfolding hydrateSessionTarget_def e Let_def prod.case
    by (cases r) (auto simp: same patch deferred split: sum.split option.split
      intro: h t hydrate_session transition)
qed

lemma observe_applied: "R w (snd (observe_applied k a t r ctx w))"
proof -
  have end_of: "R w (snd (case moved of Inl e \<Rightarrow> (Inl e, w)
     | Inr w1 \<Rightarrow> (case session of None \<Rightarrow> (Inr True, w1)
         | Some s \<Rightarrow> (case publishObservedTarget k t (src s) paired w1 of
               Inl e \<Rightarrow> (Inl e, w1) | Inr w2 \<Rightarrow> (Inr True, w2)))))"
    if "\<And>w1. moved = Inr w1 \<Longrightarrow> R w w1" for moved session src paired
    using that same by (auto split: sum.split option.split intro: trans [OF _ publish_observed])
  show ?thesis
    unfolding observe_applied_def Let_def
    by (rule end_of) (auto split: if_splits intro: same transition)
qed

lemma observe_leased: "R w (snd (observe_leased k a t r ctx w))"
  by (auto simp: observe_leased_def Let_def split: option.split sum.split intro: same publish_observed)

lemma observe_snapshot: "R w (snd (observe_snapshot cached k a snap r ctx w))"
  by (auto simp: observe_snapshot_def split: option.split sum.split intro: same observe_applied)

lemma observe_model: "R w (snd (observeSessionTargetModelSnapshot cached k snap r ctx w))"
  by (rule after_actor [of k]) (auto simp: observeSessionTargetModelSnapshot_def split: option.split sum.split
      intro: same observe_snapshot observe_leased deferred)

lemma observe_metadata: "R w (snd (observeSessionTargetMetadata k i t r w))"
  by (rule after_actor [of k]) (auto simp: observeSessionTargetMetadata_def Let_def split: target_state.split
      intro: same patch trans [OF transition_safe patch])

lemma observe_reasoning: "R w (snd (observeSessionTargetReasoningSnapshot k r ctx w))"
  by (rule after_actor [of k]) (auto simp: observeSessionTargetReasoningSnapshot_def Let_def split: option.split
      intro: same observe_metadata)

lemma observe_config: "R w (snd (observeSessionTargetConfigSnapshots cached k snaps ctx w))"
proof (cases "cs_model snaps")
  case None
  then show ?thesis
    by (simp add: observeSessionTargetConfigSnapshots_def observe_reasoning same split: option.split)
next
  case (Some snap)
  then show ?thesis
    using observe_model [of w cached k snap "cs_reasoningEffort snaps" ctx]
    by (simp add: observeSessionTargetConfigSnapshots_def case_prod_unfold)
qed

lemma record_selection: "R w (snd (recordSessionTargetSelection k i t prev agent w))"
proof -
  have g: "R v (upd_actor a (\<lambda>x. x\<lparr>ac_selection := s\<rparr>) (v\<lparr>tw_nextRef := n\<rparr>))"
    "R v (upd_actor a (\<lambda>x. x\<lparr>ac_deferredSelection := s\<rparr>) (v\<lparr>tw_nextRef := n\<rparr>))" for v a s n
    by (rule trans [OF aside mild]; simp)+
  show ?thesis
    by (rule after_actor [of k]) (auto simp: recordSessionTargetSelection_def Let_def split: sum.split
        intro: same g trans [OF g(1) replace])
qed

lemma replace_after: "R w (snd (replaceSessionTargetAfterDispatch k t w))"
  by (rule after_actor [of k]) (auto simp: replaceSessionTargetAfterDispatch_def split: sum.split
      intro: same deferred replace)

lemma clear_selection: "R w (snd (clearSessionTargetSelection k i w))"
  by (auto simp: clearSessionTargetSelection_def split: option.split intro: same mild)

end

end
