(* ===== verification/TargetQuiet.thy ===== *)
theory TargetQuiet
  imports TargetFrames
begin

text \<open>
  The invariant behind "no request of the target coordinator is lost": an operation that has no outcome
  yet is the one its actor works on or the one it will work on next. It sees of each actor where its
  loop is, its current and latest operation and its sequence number; of each operation its sequence
  number and whether it is settled. A step is quiet when it keeps the invariant and moves no loop:
  writes to the session store, cancellations, releases and observations are.
\<close>

section \<open>What the invariant sees\<close>

definition views :: "target_world \<Rightarrow> drain_view list" where
  "views w = map view (tw_heap w)"

definition op_sig :: "target_world \<Rightarrow> (nat \<times> bool) list" where
  "op_sig w = map (\<lambda>p. (po_sequence p, po_outcome p \<noteq> None)) (tw_ops w)"

fun pc_op :: "drain_pc \<Rightarrow> nat option" where
  "pc_op PcIdle = None"
| "pc_op (PcResolve i) = Some i"
| "pc_op (PcPrepare i t) = Some i"
| "pc_op (PcDone i) = Some i"

fun pc_working :: "drain_pc \<Rightarrow> nat option" where
  \<comment> \<open>the operation whose answer is awaited\<close>
  "pc_working (PcResolve i) = Some i"
| "pc_working (PcPrepare i t) = Some i"
| "pc_working _ = None"

type_synonym sig = "(nat \<times> bool) list"

definition settled_in :: "sig \<Rightarrow> nat \<Rightarrow> bool" where
  "settled_in s i \<longleftrightarrow> i < length s \<and> snd (s ! i)"

definition in_order :: "sig \<Rightarrow> drain_view \<Rightarrow> bool" where
  "in_order s v \<longleftrightarrow>
    (\<forall>i. pc_op (dv_pc v) = Some i \<longrightarrow> i < length s \<and> fst (s ! i) \<le> dv_sequence v) \<and>
    (\<forall>j. dv_latest v = Some j \<longrightarrow> j < length s \<and> fst (s ! j) \<le> dv_sequence v \<and>
       (\<forall>i. pc_op (dv_pc v) = Some i \<longrightarrow> i = j \<or> fst (s ! i) < fst (s ! j)))"

definition view_ok :: "sig \<Rightarrow> drain_view \<Rightarrow> bool" where
  "view_ok s v \<longleftrightarrow> in_order s v \<and>
     (dv_pc v = PcIdle \<longrightarrow> dv_latest v = None) \<and>
     (\<forall>i. dv_current v = Some i \<longrightarrow> pc_op (dv_pc v) = Some i) \<and>
     (\<forall>i. pc_working (dv_pc v) = Some i \<longrightarrow> dv_current v = Some i \<or> settled_in s i) \<and>
     (\<forall>i. dv_pc v = PcDone i \<longrightarrow> settled_in s i)"

definition awaited :: "drain_view \<Rightarrow> nat \<Rightarrow> bool" where
  "awaited v i \<longleftrightarrow> dv_latest v = Some i \<or> pc_working (dv_pc v) = Some i"

definition requests_ok :: "drain_view list \<Rightarrow> sig \<Rightarrow> bool" where
  "requests_ok vs s \<longleftrightarrow> (\<forall>v\<in>set vs. view_ok s v) \<and>
     (\<forall>i<length s. \<not> settled_in s i \<longrightarrow> (\<exists>v\<in>set vs. awaited v i))"

definition actors_ok :: "target_world \<Rightarrow> bool" where
  "actors_ok w \<longleftrightarrow> obj_wf (tw_actors w) \<and> (\<forall>p\<in>set (tw_actors w). snd p < length (tw_heap w))"

definition op_inv :: "target_world \<Rightarrow> bool" where
  "op_inv w \<longleftrightarrow> actors_ok w \<and> requests_ok (views w) (op_sig w)"

section \<open>Settling more keeps the invariant\<close>

definition sig_le :: "sig \<Rightarrow> sig \<Rightarrow> bool" where
  "sig_le s t \<longleftrightarrow> length s = length t \<and> (\<forall>i<length s. fst (t ! i) = fst (s ! i) \<and> (snd (s ! i) \<longrightarrow> snd (t ! i)))"

lemma sig_le_refl [simp]: "sig_le s s"
  by (simp add: sig_le_def)

lemma sig_le_trans: "sig_le s t \<Longrightarrow> sig_le t u \<Longrightarrow> sig_le s u"
  by (simp add: sig_le_def)

lemma sig_le_settled: "sig_le s t \<Longrightarrow> settled_in s i \<Longrightarrow> settled_in t i"
  by (simp add: sig_le_def settled_in_def)

lemma in_order_le: "sig_le s t \<Longrightarrow> in_order t v = in_order s v"
  by (auto simp: in_order_def sig_le_def)

lemma view_ok_le: "sig_le s t \<Longrightarrow> view_ok s v \<Longrightarrow> view_ok t v"
  by (auto simp: view_ok_def in_order_le dest: sig_le_settled)

lemma requests_ok_le: "sig_le s t \<Longrightarrow> requests_ok vs s \<Longrightarrow> requests_ok vs t"
  unfolding requests_ok_def using view_ok_le sig_le_settled by (metis sig_le_def)

section \<open>Steps that move no loop\<close>

definition op_kept :: "pending_operation \<Rightarrow> pending_operation \<Rightarrow> bool" where
  \<comment> \<open>an operation changes by being settled, once\<close>
  "op_kept p q \<longleftrightarrow> (\<exists>out. q = p\<lparr>po_outcome := out\<rparr>) \<and> (po_outcome p \<noteq> None \<longrightarrow> q = p)"

definition ops_le :: "target_world \<Rightarrow> target_world \<Rightarrow> bool" where
  "ops_le w w' \<longleftrightarrow> length (tw_ops w') = length (tw_ops w) \<and>
     (\<forall>i<length (tw_ops w). op_kept (the_op w i) (the_op w' i))"

lemma op_kept_refl [simp]: "op_kept p p"
  by (auto simp: op_kept_def intro: exI [of _ "po_outcome p"])

lemma op_kept_trans: "op_kept p q \<Longrightarrow> op_kept q r \<Longrightarrow> op_kept p r"
  by (auto simp: op_kept_def)

lemma ops_le_refl [simp]: "ops_le w w"
  by (simp add: ops_le_def)

lemma ops_le_trans: "ops_le w v \<Longrightarrow> ops_le v u \<Longrightarrow> ops_le w u"
  unfolding ops_le_def using op_kept_trans by metis

lemma ops_le_same: "tw_ops w' = tw_ops w \<Longrightarrow> ops_le w w'"
  by (simp add: ops_le_def the_op_def)

lemma ops_le_settle: "ops_le w (settleOperation i out w)"
proof -
  have "op_kept (the_op w j) (the_op (settleOperation i out w) j)" if "j < length (tw_ops w)" for j
    proof (cases "j = i \<and> po_outcome (the_op w i) = None")
    case True
    then show ?thesis using that by (auto simp: settleOperation_def the_op_def op_kept_def)
  next
    case False
    then have "the_op (settleOperation i out w) j = the_op w j" by (auto simp: settleOperation_def the_op_def)
    then show ?thesis by simp
  qed
  then show ?thesis by (simp add: ops_le_def) (simp add: settleOperation_def)
qed

lemma op_sig_length [simp]: "length (op_sig w) = length (tw_ops w)"
  by (simp add: op_sig_def)

lemma ops_le_sig: "ops_le w w' \<Longrightarrow> sig_le (op_sig w) (op_sig w')"
proof -
  assume le: "ops_le w w'"
  have "po_sequence (the_op w' i) = po_sequence (the_op w i) \<and>
      (po_outcome (the_op w i) \<noteq> None \<longrightarrow> po_outcome (the_op w' i) \<noteq> None)" if "i < length (tw_ops w)" for i
  proof -
    have "op_kept (the_op w i) (the_op w' i)" using le that by (simp add: ops_le_def)
    then show ?thesis by (auto simp: op_kept_def)
  qed
  then show ?thesis using le by (auto simp: sig_le_def op_sig_def ops_le_def the_op_def)
qed

definition kept :: "target_world \<Rightarrow> target_world \<Rightarrow> bool" where
  \<comment> \<open>no loop has moved, and a latest operation that is gone is settled\<close>
  "kept w w' \<longleftrightarrow> ops_le w w' \<and> length (tw_heap w) \<le> length (tw_heap w') \<and>
     (\<forall>a<length (tw_heap w). ac_pc (the_actor w' a) = ac_pc (the_actor w a) \<and>
        (\<forall>i. ac_latest (the_actor w a) = Some i \<longrightarrow>
           ac_latest (the_actor w' a) = Some i \<or> settled_in (op_sig w') i))"

lemma kept_refl [simp]: "kept w w"
  by (simp add: kept_def)

lemma kept_trans: "kept w v \<Longrightarrow> kept v u \<Longrightarrow> kept w u"
proof -
  assume wv: "kept w v" and vu: "kept v u"
  have "sig_le (op_sig v) (op_sig u)" using vu ops_le_sig by (simp add: kept_def)
  then have s: "settled_in (op_sig v) i \<Longrightarrow> settled_in (op_sig u) i" for i by (rule sig_le_settled)
  have "ops_le w u" using wv vu ops_le_trans by (auto simp: kept_def)
  moreover have "length (tw_heap w) \<le> length (tw_heap u)" using wv vu by (simp add: kept_def)
  moreover have "ac_pc (the_actor u a) = ac_pc (the_actor w a) \<and> (\<forall>i. ac_latest (the_actor w a) = Some i \<longrightarrow>
      ac_latest (the_actor u a) = Some i \<or> settled_in (op_sig u) i)" if a: "a < length (tw_heap w)" for a
  proof -
    have "a < length (tw_heap v)" using wv a by (simp add: kept_def)
    then show ?thesis using wv vu a s unfolding kept_def by metis
  qed
  ultimately show ?thesis by (simp add: kept_def)
qed

definition quiet :: "target_world \<Rightarrow> target_world \<Rightarrow> bool" where
  \<comment> \<open>a step that moves no loop and keeps the invariant\<close>
  "quiet w w' \<longleftrightarrow> (op_inv w \<longrightarrow> op_inv w' \<and> kept w w')"

lemma quiet_refl [simp]: "quiet w w"
  by (simp add: quiet_def)

lemma quiet_trans: "quiet w v \<Longrightarrow> quiet v u \<Longrightarrow> quiet w u"
  unfolding quiet_def using kept_trans by blast

lemma quiet_inv: "quiet w w' \<Longrightarrow> op_inv w \<Longrightarrow> op_inv w'"
  by (simp add: quiet_def)

lemma quiet_sig: "quiet w w' \<Longrightarrow> op_inv w \<Longrightarrow> sig_le (op_sig w) (op_sig w')"
  by (simp add: quiet_def kept_def ops_le_sig)

lemma views_length [simp]: "length (views w) = length (tw_heap w)"
  by (simp add: views_def)

lemma view_nth: "a < length (tw_heap w) \<Longrightarrow> views w ! a = view (the_actor w a)"
  by (simp add: views_def the_actor_def)

lemma op_sig_upd [simp]: "op_sig (upd_actor a f w) = op_sig w"
  by (simp add: op_sig_def)

lemma same_views_quiet:
  assumes "views w' = views w" "ops_le w w'" "set (tw_actors w') \<subseteq> set (tw_actors w)"
    "obj_wf (tw_actors w) \<Longrightarrow> obj_wf (tw_actors w')"
  shows "quiet w w'"
proof -
  have len: "length (tw_heap w') = length (tw_heap w)" using assms(1) by (metis views_length)
  have v: "view (the_actor w' a) = view (the_actor w a)" if "a < length (tw_heap w)" for a
    using that assms(1) len view_nth by metis
  then have "ac_pc (the_actor w' a) = ac_pc (the_actor w a) \<and> ac_latest (the_actor w' a) = ac_latest (the_actor w a)"
    if "a < length (tw_heap w)" for a using that by (metis view_simps(1,3))
  then have "kept w w'" using assms(2) len by (simp add: kept_def)
  moreover have "requests_ok (views w') (op_sig w')" if "op_inv w"
    using that assms(1) requests_ok_le [OF ops_le_sig [OF assms(2)]] by (simp add: op_inv_def)
  moreover have "actors_ok w'" if "op_inv w"
    using that assms(3,4) len by (auto simp: op_inv_def actors_ok_def)
  ultimately show ?thesis by (simp add: quiet_def op_inv_def)
qed

lemma quiet_fields:
  "tw_heap w' = tw_heap w \<Longrightarrow> tw_ops w' = tw_ops w \<Longrightarrow> tw_actors w' = tw_actors w \<Longrightarrow> quiet w w'"
  by (rule same_views_quiet) (simp_all add: views_def ops_le_same)

lemma views_upd [simp]: "(\<And>x. view (f x) = view x) \<Longrightarrow> views (upd_actor a f w) = views w"
  by (cases "a < length (tw_heap w)")
    (auto simp: views_def upd_actor_def map_update nth_list_update intro!: list_eq_iff_nth_eq [THEN iffD2])

lemma quiet_upd: "(\<And>x. view (f x) = view x) \<Longrightarrow> quiet w (upd_actor a f w)"
  by (rule same_views_quiet) (simp_all add: ops_le_same)

lemma quiet_settle: "quiet w (settleOperation i out w)"
  by (rule same_views_quiet) (simp_all add: ops_le_settle, simp_all add: settleOperation_def views_def)

lemma quiet_settle_all: "quiet w (settle_all is out w)"
  by (induction "is" out w rule: settle_all.induct) (auto intro: quiet_trans quiet_settle)

lemma ops_le_settle_all: "ops_le w (settle_all is out w)"
  by (induction "is" out w rule: settle_all.induct) (auto intro: ops_le_trans ops_le_settle)

lemma quiet_forget: "quiet w (w\<lparr>tw_actors := obj_del k (tw_actors w)\<rparr>)"
  by (rule same_views_quiet) (auto simp: views_def ops_le_same obj_del_def)

lemma settled_by: "i < length (tw_ops w) \<Longrightarrow> settled_in (op_sig (settleOperation i out w)) i"
  by (auto simp: settled_in_def op_sig_def settleOperation_def the_op_def)

lemma settle_fields [simp]:
  "tw_heap (settleOperation i out w) = tw_heap w" "tw_actors (settleOperation i out w) = tw_actors w"
  "tw_sessions (settleOperation i out w) = tw_sessions w" "tw_restoring (settleOperation i out w) = tw_restoring w"
  "length (tw_ops (settleOperation i out w)) = length (tw_ops w)"
  by (simp_all add: settleOperation_def)

lemma settle_all_fields [simp]:
  "tw_heap (settle_all is out w) = tw_heap w" "tw_actors (settle_all is out w) = tw_actors w"
  "tw_sessions (settle_all is out w) = tw_sessions w" "tw_restoring (settle_all is out w) = tw_restoring w"
  by (induction "is" out w rule: settle_all.induct) simp_all

lemma the_actor_settle_all [simp]: "the_actor (settle_all is out w) a = the_actor w a"
  by (simp add: the_actor_def)

lemma settled_after_all:
  "i \<in> set is \<Longrightarrow> i < length (tw_ops w) \<Longrightarrow> settled_in (op_sig (settle_all is out w)) i"
proof (induction "is" out w rule: settle_all.induct)
  case (2 j "is" out w)
  show ?case
  proof (cases "i = j")
    case True
    have "settled_in (op_sig (settleOperation j out w)) j" using 2(3) True settled_by by blast
    moreover have "sig_le (op_sig (settleOperation j out w)) (op_sig (settle_all is out (settleOperation j out w)))"
      by (rule ops_le_sig) (rule ops_le_settle_all)
    ultimately show ?thesis using True by (simp add: sig_le_settled)
  next
    case False
    then show ?thesis using 2 by simp
  qed
qed simp

section \<open>One actor changes\<close>

lemma views_upd_at: "a < length (tw_heap w) \<Longrightarrow> views (upd_actor a f w) = (views w)[a := view (f (the_actor w a))]"
  by (simp add: views_def upd_actor_def map_update the_actor_def)

lemma requests_view: "requests_ok vs s \<Longrightarrow> a < length vs \<Longrightarrow> view_ok s (vs ! a)"
  by (simp add: requests_ok_def)

lemma actor_view_ok: "op_inv w \<Longrightarrow> a < length (tw_heap w) \<Longrightarrow> view_ok (op_sig w) (view (the_actor w a))"
  using requests_view by (metis op_inv_def view_nth views_length)

lemma requests_change:
  assumes "requests_ok vs s" "view_ok s v"
    "\<And>j. j < length s \<Longrightarrow> \<not> settled_in s j \<Longrightarrow> awaited (vs ! a) j \<Longrightarrow> awaited v j"
  shows "requests_ok (vs[a := v]) s"
proof (cases "a < length vs")
  case True
  have "\<forall>u\<in>set (vs[a := v]). view_ok s u"
    using assms(1,2) set_update_subset_insert [of vs a v] by (auto simp: requests_ok_def)
  moreover have "\<exists>u\<in>set (vs[a := v]). awaited u j" if j: "j < length s" "\<not> settled_in s j" for j
  proof -
    obtain u where u: "u \<in> set vs" "awaited u j" using assms(1) j by (auto simp: requests_ok_def)
    then obtain n where n: "n < length vs" "vs ! n = u" by (auto simp: in_set_conv_nth)
    show ?thesis
    proof (cases "n = a")
      case True
      then have "awaited v j" using assms(3) [OF j] u n by simp
      then show ?thesis using \<open>a < length vs\<close> by (meson set_update_memI)
    next
      case False
      then have "vs[a := v] ! n = u" using n by simp
      then show ?thesis using u n by (metis length_list_update nth_mem)
    qed
  qed
  ultimately show ?thesis by (simp add: requests_ok_def)
next
  case False
  then have "vs[a := v] = vs" by (simp add: list_update_beyond)
  then show ?thesis using assms(1) by simp
qed

lemma op_inv_change:
  assumes "op_inv w" "view_ok (op_sig w) (view (f (the_actor w a)))"
    "\<And>j. j < length (op_sig w) \<Longrightarrow> \<not> settled_in (op_sig w) j \<Longrightarrow> awaited (view (the_actor w a)) j \<Longrightarrow>
      awaited (view (f (the_actor w a))) j"
  shows "op_inv (upd_actor a f w)"
proof (cases "a < length (tw_heap w)")
  case True
  then show ?thesis
    using assms requests_change [of "views w" "op_sig w" _ a]
    by (simp add: op_inv_def actors_ok_def views_upd_at view_nth)
next
  case False
  then have "length (tw_heap w) \<le> a" by simp
  then have "upd_actor a f w = w" by (simp add: upd_actor_def list_update_beyond)
  then show ?thesis using assms(1) by simp
qed

definition detached :: "session_actor \<Rightarrow> target_world \<Rightarrow> bool" where
  \<comment> \<open>everything the actor has is settled\<close>
  "detached x w \<longleftrightarrow> (\<forall>j. awaited (view x) j \<longrightarrow> settled_in (op_sig w) j)"

lemma view_detach:
  assumes "view_ok s v" "\<And>j. awaited v j \<Longrightarrow> settled_in s j" "dv_pc u = dv_pc v" "dv_latest u = None"
    "dv_sequence u = dv_sequence v" "dv_current u \<in> {None, dv_current v}"
  shows "view_ok s u"
  using assms by (cases u; cases v) (auto simp: view_ok_def in_order_def awaited_def)

lemma detach_inv:
  assumes "op_inv w" "detached (the_actor w a) w" "a < length (tw_heap w)"
    and f: "ac_pc (f (the_actor w a)) = ac_pc (the_actor w a)" "ac_latest (f (the_actor w a)) = None"
      "ac_current (f (the_actor w a)) \<in> {None, ac_current (the_actor w a)}"
      "ac_sequence (f (the_actor w a)) = ac_sequence (the_actor w a)"
  shows "op_inv (upd_actor a f w)"
proof (rule op_inv_change)
  have v: "view_ok (op_sig w) (view (the_actor w a))"
    using assms(1,3) requests_view by (metis op_inv_def view_nth views_length)
  have d: "awaited (view (the_actor w a)) j \<Longrightarrow> settled_in (op_sig w) j" for j
    using assms(2) by (simp add: detached_def)
  show "view_ok (op_sig w) (view (f (the_actor w a)))"
    by (rule view_detach [OF v d]) (use f in simp_all)
  show "awaited (view (f (the_actor w a))) j"
    if "\<not> settled_in (op_sig w) j" "awaited (view (the_actor w a)) j" for j
    using d that by blast
qed fact

lemma detach_kept:
  assumes d: "detached (the_actor w a) w"
    and f: "\<And>x. ac_pc (f x) = ac_pc x" "\<And>x. ac_latest (f x) = None"
      "\<And>x. ac_current (f x) \<in> {None, ac_current x}" "\<And>x. ac_sequence (f x) = ac_sequence x"
  shows "kept w (upd_actor a f w)"
proof -
  have "ac_pc (the_actor (upd_actor a f w) b) = ac_pc (the_actor w b) \<and>
      (\<forall>i. ac_latest (the_actor w b) = Some i \<longrightarrow>
        ac_latest (the_actor (upd_actor a f w) b) = Some i \<or> settled_in (op_sig w) i)"
    if "b < length (tw_heap w)" for b
    using that d f by (cases "b = a") (simp_all add: the_actor_upd the_actor_other detached_def awaited_def)
  then show ?thesis by (simp add: kept_def ops_le_same)
qed

lemma pending_detached:
  assumes "op_inv w" "a < length (tw_heap w)" "pending_of x = pending_of (the_actor w a)"
    "view x = view (the_actor w a)"
  shows "detached x (settle_all (pending_of x) out w)"
proof -
  have v: "view_ok (op_sig w) (view (the_actor w a))"
    using assms(1,2) requests_view by (metis op_inv_def view_nth views_length)
  have le: "sig_le (op_sig w) (op_sig (settle_all (pending_of x) out w))"
    by (rule ops_le_sig) (rule ops_le_settle_all)
  have "settled_in (op_sig (settle_all (pending_of x) out w)) j" if j: "awaited (view (the_actor w a)) j" for j
  proof (cases "settled_in (op_sig w) j")
    case True
    show ?thesis using le True by (rule sig_le_settled)
  next
    case False
    have "ac_latest (the_actor w a) = Some j \<or> ac_current (the_actor w a) = Some j"
      using j v False by (auto simp: awaited_def view_ok_def)
    moreover have "j < length (op_sig w)"
      using j v by (auto simp: awaited_def view_ok_def in_order_def split: option.splits drain_pc.splits
          elim!: pc_working.elims)
    ultimately show ?thesis
      using assms(3) by (intro settled_after_all) (auto simp: pending_of_def op_sig_def)
  qed
  then show ?thesis using assms(4) by (simp add: detached_def)
qed

section \<open>Cancelling\<close>

lemma view_transition_safe [simp]: "views (transition_safe a e w) = views w" "op_sig (transition_safe a e w) = op_sig w"
  by (simp_all add: transition_safe_def view_def)

lemma quiet_mild: "mild f \<Longrightarrow> quiet w (upd_actor a f w)"
  by (rule quiet_upd) (simp add: mild_def)

lemma quiet_transition_safe: "quiet w (transition_safe a e w)"
  unfolding transition_safe_def by (rule quiet_mild) simp

lemma quiet_clear_lease: "quiet w (clear_lease a w)"
  unfolding clear_lease_def by (rule quiet_upd) (simp add: view_def)

lemma quiet_length: "quiet w w' \<Longrightarrow> op_inv w \<Longrightarrow> length (tw_ops w') = length (tw_ops w)"
  by (simp add: quiet_def kept_def ops_le_def)

lemma actor_bound: "op_inv w \<Longrightarrow> obj_get (tw_actors w) k = Some a \<Longrightarrow> a < length (tw_heap w)"
  by (auto simp: op_inv_def actors_ok_def obj_get_in)

lemma quiet_after_release:
  "ac_latest (the_actor w a) = None \<Longrightarrow> quiet w (after_release a token w)"
  by (simp add: after_release_def open_gate_def the_actor_def quiet_fields)

text \<open>
  An actor is given up: all it has is settled, its latest operation is dropped, and perhaps its
  current one.
\<close>

lemma give_up_quiet:
  assumes "quiet w v" "a < length (tw_heap w)" "length (tw_heap v) = length (tw_heap w)"
    "view (the_actor v a) = view (the_actor w a)" "op_sig v = op_sig w"
    and f: "\<And>x. ac_pc (f x) = ac_pc x" "\<And>x. ac_latest (f x) = None"
      "\<And>x. ac_current (f x) \<in> {None, ac_current x}" "\<And>x. ac_sequence (f x) = ac_sequence x"
  shows "quiet w (upd_actor a f (settle_all (pending_of (the_actor w a)) out v))"
proof -
  let ?u = "settle_all (pending_of (the_actor w a)) out v"
  have p: "pending_of (the_actor v a) = pending_of (the_actor w a)"
    using assms(4) by (simp add: pending_of_def view_def)
  have q: "quiet w ?u" using assms(1) quiet_settle_all by (rule quiet_trans)
  have "op_inv (upd_actor a f ?u) \<and> kept w (upd_actor a f ?u)" if i: "op_inv w"
  proof -
    have u: "op_inv ?u" "kept w ?u" using q i by (simp_all add: quiet_def)
    have "op_inv v" using assms(1) i by (rule quiet_inv)
    then have "detached (the_actor v a) (settle_all (pending_of (the_actor v a)) out v)"
      using assms(2,3) by (intro pending_detached) simp_all
    then have d: "detached (the_actor ?u a) ?u" using p by simp
    have "op_inv (upd_actor a f ?u)"
      by (rule detach_inv [OF u(1) d]) (use f assms(2,3) in simp_all)
    moreover have "kept ?u (upd_actor a f ?u)" using d f by (rule detach_kept)
    ultimately show ?thesis using u(2) kept_trans by blast
  qed
  then show ?thesis by (simp add: quiet_def)
qed

lemma quiet_cancel: "quiet w (cancelSessionTarget k w)"
proof (cases "obj_get (tw_actors w) k")
  case None
  then show ?thesis by (simp add: cancelSessionTarget_def)
next
  case (Some a)
  let ?w1 = "transition_safe a SessionRemoved (upd_actor a (\<lambda>x. x\<lparr>ac_cancelled := True\<rparr>) w)"
  let ?w2 = "settle_all (pending_of (the_actor w a)) SessionMissingOutcome ?w1"
  let ?w3 = "upd_actor a (\<lambda>x. x\<lparr>ac_latest := None, ac_selection := None,
     ac_deferredSelection := None, ac_deferredMutation := None\<rparr>) ?w2"
  let ?w4 = "case ac_dispatch (the_actor ?w3 a) of None \<Rightarrow> ?w3
    | Some d \<Rightarrow> after_release a (dl_token d) (clear_lease a ?w3)"
  have eq: "cancelSessionTarget k w = ?w4\<lparr>tw_actors := obj_del k (tw_actors ?w4)\<rparr>"
    using Some by (simp add: cancelSessionTarget_def Let_def)
  have "quiet w ?w4"
  proof (cases "a < length (tw_heap w)")
    case True
    have v: "view (the_actor ?w1 a) = view (the_actor w a)"
      using True by (simp add: transition_safe_def the_actor_upd view_def)
    have s: "op_sig ?w1 = op_sig w" by simp
    have q1: "quiet w ?w1"
      by (rule quiet_trans [OF quiet_upd quiet_transition_safe]) (simp add: view_def)
    have q3: "quiet w ?w3"
      by (rule give_up_quiet [OF q1 True _ v s]) (simp_all add: v transition_safe_def)
    have "ac_latest (the_actor (clear_lease a ?w3) a) = None"
      using True by (simp add: clear_lease_def the_actor_upd transition_safe_def)
    then have "quiet ?w3 (after_release a t (clear_lease a ?w3))" for t
      by (intro quiet_trans [OF quiet_clear_lease quiet_after_release])
    then show ?thesis using q3 quiet_trans by (auto split: option.split)
  next
    case False
    then have "\<not> op_inv w" using Some actor_bound by blast
    then show ?thesis by (simp add: quiet_def)
  qed
  then show ?thesis unfolding eq using quiet_forget by (rule quiet_trans)
qed

lemma quiet_cancel_missing: "quiet w (cancel_missing ks w)"
  by (induction ks w rule: cancel_missing.induct) (auto intro: quiet_trans quiet_cancel)

lemma quiet_put_session: "quiet w (put_session k f w)"
  by (simp add: put_session_def quiet_fields split: option.split)

lemma quiet_enforce: "quiet w (enforce_lease k a w)"
proof -
  have "quiet w (cancel_missing ks (put_session k g (upd_actor a (\<lambda>x. x\<lparr>ac_deferredMutation := m\<rparr>) w)))" for ks g m
    by (rule quiet_trans [OF quiet_trans [OF quiet_upd quiet_put_session] quiet_cancel_missing])
      (simp add: view_def)
  then show ?thesis by (simp add: enforce_lease_def Let_def split: option.split)
qed

lemma quiet_enforce_all: "quiet w (enforce_leases ks w)"
  by (induction ks w rule: enforce_leases.induct) (auto intro: quiet_trans quiet_enforce)

lemma quiet_notify: "quiet w (notify w)"
  by (simp add: notify_def Let_def quiet_cancel_missing) (blast intro: quiet_trans quiet_enforce_all quiet_cancel_missing)

section \<open>The quiet steps are a frame\<close>

lemma idle_has_nothing:
  "op_inv w \<Longrightarrow> a < length (tw_heap w) \<Longrightarrow> ac_pc (the_actor w a) = PcIdle \<Longrightarrow> ac_latest (the_actor w a) = None"
  using actor_view_ok [of w a] by (simp add: view_ok_def)

lemma quiet_notify_listeners: "quiet w (notifyDispatchReleaseListeners a w)"
proof -
  have "quiet w ((upd_actor a (\<lambda>x. x\<lparr>ac_listeners := []\<rparr>) w)\<lparr>tw_notified := n\<rparr>)" for n
    by (rule quiet_trans [OF quiet_mild quiet_fields]) simp_all
  then show ?thesis by (simp add: notifyDispatchReleaseListeners_def Let_def)
qed

lemma quiet_drain: "quiet w (drain a w)"
proof (cases "a < length (tw_heap w) \<and> op_inv w")
  case True
  show ?thesis
  proof (cases "ac_pc (the_actor w a) = PcIdle")
    case idle: True
    then have "drain a w = notifyDispatchReleaseListeners a w"
      using True idle_has_nothing [of w a] by (simp add: drain_def)
    then show ?thesis by (simp add: quiet_notify_listeners)
  qed (simp add: drain_def)
next
  case False
  show ?thesis
  proof (cases "op_inv w")
    case i: True
    then show ?thesis using False quiet_notify_listeners
      by (simp add: drain_def Let_def out_of_heap split: option.split)
  qed (simp add: quiet_def)
qed

lemma requests_idle:
  assumes "requests_ok vs s" "dv_pc v = PcIdle" "dv_latest v = None" "dv_current v = None"
  shows "requests_ok (vs @ [v]) s"
  using assms by (auto simp: requests_ok_def view_ok_def in_order_def)

lemma obj_set_elems: "set (obj_set k v m) \<subseteq> insert (k, v) (set m)"
  by (induction m) (auto simp: obj_set_def)

lemma actorFor_inv:
  assumes w: "op_inv w" and e: "actorFor k w = (a, w')"
  shows "op_inv w'" "a < length (tw_heap w')" "op_sig w' = op_sig w" "tw_sessions w' = tw_sessions w"
proof -
  have "op_inv w' \<and> a < length (tw_heap w') \<and> op_sig w' = op_sig w \<and> tw_sessions w' = tw_sessions w"
  proof (cases "obj_get (tw_actors w) k")
    case None
    have v: "views w' = views w @ [view (new_actor w k)]" "op_sig w' = op_sig w"
      using e None by (auto simp: actorFor_def views_def op_sig_def)
    have "actors_ok w'"
      using w e None obj_set_elems [of k "length (tw_heap w)" "tw_actors w"]
      by (fastforce simp: actorFor_def op_inv_def actors_ok_def)
    moreover have "requests_ok (views w @ [view (new_actor w k)]) (op_sig w)"
      using w by (intro requests_idle) (simp_all add: op_inv_def new_actor_def)
    ultimately show ?thesis
      using e None v by (auto simp: actorFor_def op_inv_def)
  next
    case (Some b)
    have b: "b < length (tw_heap w)" using w Some by (rule actor_bound)
    have q: "quiet w (upd_actor b (\<lambda>x. x\<lparr>ac_tracksLiveSession := g x\<rparr>) w)" for g
      by (rule quiet_mild) simp
    show ?thesis
      using e Some b quiet_inv [OF q w] by (auto simp: actorFor_def)
  qed
  then show "op_inv w'" "a < length (tw_heap w')" "op_sig w' = op_sig w" "tw_sessions w' = tw_sessions w"
    by simp_all
qed



lemma actorFor_kept: "op_inv w \<Longrightarrow> kept w (snd (actorFor k w))"
proof (cases "obj_get (tw_actors w) k")
  case None
  then show ?thesis
    by (simp add: actorFor_def kept_def ops_le_same the_actor_def nth_append)
next
  case (Some b)
  assume "op_inv w"
  moreover have "quiet w (upd_actor b (\<lambda>x. x\<lparr>ac_tracksLiveSession := g x\<rparr>) w)" for g
    by (rule quiet_mild) simp
  ultimately show ?thesis using Some by (simp add: actorFor_def quiet_def)
qed

lemma quiet_actor: "quiet w (snd (actorFor k w))"
  using actorFor_inv(1) [OF _ surjective_pairing] actorFor_kept by (simp add: quiet_def)

interpretation quiet: target_frame quiet
proof unfold_locales
  show "quiet w (notify (put_session k g w))" for w k g
    by (rule quiet_trans [OF quiet_put_session quiet_notify])
qed (rule quiet_refl quiet_mild quiet_settle quiet_fields quiet_drain quiet_actor quiet_trans; assumption?)+

end
