(* ===== verification/TargetRequests.thy ===== *)
theory TargetRequests
  imports TargetQuiet
begin

text \<open>
  No request of the target coordinator is lost. The steps of the loop and the requests keep the
  invariant of \<open>TargetQuiet\<close>; so over every run an operation without an outcome is awaited by
  its actor, whatever is answered it has its outcome after two rounds of that actor, an outcome never
  changes, and an operation that is no longer the latest neither calls the backend nor writes to the
  session store.
\<close>

section \<open>Ends of operations\<close>

definition ends :: "nat \<Rightarrow> target_world \<Rightarrow> target_world \<Rightarrow> bool" where
  \<comment> \<open>a quiet step after which the operation is settled\<close>
  "ends i w w' \<longleftrightarrow> quiet w w' \<and> (op_inv w \<longrightarrow> i < length (op_sig w) \<longrightarrow> settled_in (op_sig w') i)"

lemma ends_settle: "quiet w v \<Longrightarrow> ends i w (settleOperation i out v)"
proof -
  assume q: "quiet w v"
  have "settled_in (op_sig (settleOperation i out v)) i" if "i < length (tw_ops v)"
    using that by (auto simp: settled_in_def op_sig_def settleOperation_def the_op_def)
  then show ?thesis
    using q quiet_length [OF q] quiet_trans [OF q quiet_settle] by (simp add: ends_def)
qed

lemma ends_trans: "quiet w v \<Longrightarrow> ends i v u \<Longrightarrow> ends i w u"
  unfolding ends_def using quiet_trans quiet_inv quiet_length by (metis op_sig_length)

lemma ends_superseded: "ends i w (resolveSuperseded a i w)"
  unfolding resolveSuperseded_def by (rule ends_settle) (rule quiet_transition_safe)

lemma ends_failed: "ends i w (execution_failed a i err w)"
  by (simp add: execution_failed_def ends_superseded Let_def ends_settle quiet_transition_safe)

lemma ends_acknowledge: "ends i w (acknowledge a i eff t snap w)"
proof -
  have f: "transition a e w = Inr w1 \<Longrightarrow> ends i w (execution_failed a i err w1)" for e w1 err
    by (rule ends_trans [OF quiet.transition ends_failed])
  have g: "transition a e w = Inr w1 \<Longrightarrow> publish_acknowledged k t snap w1 = Inr w2 \<Longrightarrow>
      ends i w (settleOperation i out w2)" for e w1 k w2 out
    by (rule ends_settle [OF quiet_trans [OF quiet.transition quiet.publish_acknowledged]])
  show ?thesis
    by (auto simp: acknowledge_def Let_def ends_superseded ends_failed split: sum.split intro: f g)
qed

lemma pc_at: "op_inv w \<Longrightarrow> a < length (tw_heap w) \<Longrightarrow> pc_op (ac_pc (the_actor w a)) = Some i \<Longrightarrow> i < length (tw_ops w)"
  using requests_view [of "views w" "op_sig w" a]
  by (auto simp: op_inv_def view_nth view_ok_def in_order_def)

lemma quiet_pc:
  "quiet w w' \<Longrightarrow> op_inv w \<Longrightarrow> a < length (tw_heap w) \<Longrightarrow>
    ac_pc (the_actor w' a) = ac_pc (the_actor w a) \<and> a < length (tw_heap w')"
  by (auto simp: quiet_def kept_def)

definition turned :: "nat \<Rightarrow> drain_pc \<Rightarrow> target_world \<Rightarrow> target_world \<Rightarrow> bool" where
  \<comment> \<open>the loop of one actor has moved\<close>
  "turned a pc w w' \<longleftrightarrow> op_inv w' \<and> ac_pc (the_actor w' a) = pc \<and> length (tw_heap w) \<le> length (tw_heap w') \<and>
     ops_le w w' \<and> (\<forall>i. ac_latest (the_actor w a) = Some i \<longrightarrow>
       ac_latest (the_actor w' a) = Some i \<or> settled_in (op_sig w') i)"

lemma turn:
  assumes q: "quiet w v" and w: "op_inv w" "a < length (tw_heap w)"
    and i: "op_inv (upd_actor a (\<lambda>x. x\<lparr>ac_pc := pc\<rparr>) v)"
  shows "turned a pc w (upd_actor a (\<lambda>x. x\<lparr>ac_pc := pc\<rparr>) v)"
proof -
  have v: "kept w v" using q w(1) by (simp add: quiet_def)
  then have "ops_le w (upd_actor a (\<lambda>x. x\<lparr>ac_pc := pc\<rparr>) v)"
    by (simp add: kept_def ops_le_def the_op_def)
  then show ?thesis using i v w(2) by (auto simp: turned_def kept_def the_actor_upd)
qed

lemma turned_trans: "turned a pc w v \<Longrightarrow> turned a pc' v u \<Longrightarrow> turned a pc' w u"
proof -
  assume wv: "turned a pc w v" and vu: "turned a pc' v u"
  have "sig_le (op_sig v) (op_sig u)" using vu ops_le_sig by (simp add: turned_def)
  then have "settled_in (op_sig v) i \<Longrightarrow> settled_in (op_sig u) i" for i by (rule sig_le_settled)
  moreover have "ops_le w u" using wv vu ops_le_trans by (auto simp: turned_def)
  ultimately show ?thesis using wv vu unfolding turned_def by (metis le_trans)
qed

lemma done_inv:
  assumes "op_inv w" "a < length (tw_heap w)" "pc_working (ac_pc (the_actor w a)) = Some i" "ends i w v"
  shows "turned a (PcDone i) w (execution_done a i v)"
proof -
  have q: "quiet w v" using assms(4) by (simp add: ends_def)
  have v: "op_inv v" using q assms(1) by (rule quiet_inv)
  have pc: "ac_pc (the_actor v a) = ac_pc (the_actor w a)" "a < length (tw_heap v)"
    using quiet_pc [OF q assms(1,2)] by auto
  have at: "pc_op (ac_pc (the_actor w a)) = Some i"
    using assms(3) by (auto elim!: pc_working.elims)
  then have "i < length (tw_ops w)" using assms(1,2) pc_at by blast
  then have s: "settled_in (op_sig v) i" using assms(1,4) by (simp add: ends_def)
  show ?thesis unfolding execution_done_def
  proof (rule turn [OF q assms(1,2)], rule op_inv_change)
    show "view_ok (op_sig v) (view ((the_actor v a)\<lparr>ac_pc := PcDone i\<rparr>))"
      using actor_view_ok [OF v pc(2)] s at pc(1) by (auto simp: view_ok_def in_order_def)
    show "awaited (view ((the_actor v a)\<lparr>ac_pc := PcDone i\<rparr>)) j"
      if "\<not> settled_in (op_sig v) j" "awaited (view (the_actor v a)) j" for j
      using that s pc(1) assms(3) by (auto simp: awaited_def)
  qed (rule v)
qed

lemma prepare_inv:
  assumes w: "op_inv w" "a < length (tw_heap w)" "pc_working (ac_pc (the_actor w a)) = Some i" and q: "quiet w v"
  shows "turned a (PcPrepare i eff) w ((upd_actor a (\<lambda>x. x\<lparr>ac_pc := PcPrepare i eff\<rparr>) v)\<lparr>tw_prepared := p\<rparr>)"
proof -
  have v: "op_inv v" "ac_pc (the_actor v a) = ac_pc (the_actor w a)" "a < length (tw_heap v)"
    using quiet_inv [OF q w(1)] quiet_pc [OF q w(1,2)] by auto
  have at: "pc_op (ac_pc (the_actor v a)) = Some i" using w(3) v(2) by (auto elim!: pc_working.elims)
  have "op_inv (upd_actor a (\<lambda>x. x\<lparr>ac_pc := PcPrepare i eff\<rparr>) v)"
  proof (rule op_inv_change [OF v(1)])
    show "view_ok (op_sig v) (view ((the_actor v a)\<lparr>ac_pc := PcPrepare i eff\<rparr>))"
      using actor_view_ok [OF v(1,3)] at w(3) v(2) by (auto simp: view_ok_def in_order_def)
    show "awaited (view ((the_actor v a)\<lparr>ac_pc := PcPrepare i eff\<rparr>)) j"
      if "awaited (view (the_actor v a)) j" for j
      using that w(3) v(2) by (auto simp: awaited_def)
  qed
  then have t: "turned a (PcPrepare i eff) w (upd_actor a (\<lambda>x. x\<lparr>ac_pc := PcPrepare i eff\<rparr>) v)"
    by (rule turn [OF q w(1,2)])
  have "quiet u (u\<lparr>tw_prepared := p\<rparr>)" for u by (rule quiet_fields) simp_all
  then have "op_inv u \<Longrightarrow> op_inv (u\<lparr>tw_prepared := p\<rparr>)" for u by (rule quiet_inv)
  then show ?thesis using t by (simp add: turned_def ops_le_def the_op_def the_actor_def op_sig_def)
qed

section \<open>The loop keeps the invariant\<close>

lemma apply_effective_turns:
  assumes "op_inv w" "a < length (tw_heap w)" "pc_working (ac_pc (the_actor w a)) = Some i"
  shows "turned a (PcDone i) w (apply_effective a i eff w) \<or> turned a (PcPrepare i eff) w (apply_effective a i eff w)"
proof -
  have d: "quiet w v \<Longrightarrow> ends i v u \<Longrightarrow> turned a (PcDone i) w (execution_done a i u)" for v u
    by (rule done_inv [OF assms]) (rule ends_trans)
  have t: "transition a e w = Inr w1 \<Longrightarrow> ends i w1 u \<Longrightarrow> turned a (PcDone i) w (execution_done a i u)" for e w1 u
    by (rule d [OF quiet.transition])
  note p = prepare_inv [OF assms]
  show ?thesis
    unfolding apply_effective_def Let_def
    using d [OF quiet_refl ends_failed]
    by (auto split: sum.split intro!: p t [OF _ ends_failed] t [OF _ ends_superseded]
        t [OF _ ends_settle] t [OF _ ends_trans [OF quiet.transition_safe ends_failed]]
        quiet_trans [OF quiet.transition quiet.transition_safe] intro: quiet.transition)
qed

lemma on_resolved_turns:
  assumes "op_inv w" "a < length (tw_heap w)" "ac_pc (the_actor w a) = PcResolve i"
  shows "\<exists>eff. turned a (PcDone i) w (on_resolved a ans w) \<or> turned a (PcPrepare i eff) w (on_resolved a ans w)"
proof -
  have d: "ends i w v \<Longrightarrow> turned a (PcDone i) w (execution_done a i v)" for v
    using assms(1,2) by (rule done_inv) (simp add: assms(3))
  show ?thesis
    using apply_effective_turns [OF assms(1,2)] assms(3)
    by (auto simp: on_resolved_def Let_def split: sum.split intro!: d ends_failed ends_superseded)
qed

lemma on_prepared_turns:
  assumes "op_inv w" "a < length (tw_heap w)" "ac_pc (the_actor w a) = PcPrepare i eff"
  shows "turned a (PcDone i) w (on_prepared a ans w)"
proof -
  have d: "ends i w v \<Longrightarrow> turned a (PcDone i) w (execution_done a i v)" for v
    using assms(1,2) by (rule done_inv) (simp add: assms(3))
  have s: "ends i w (settleOperation i out (transition_safe a e (transition_safe a e' w)))" for out e e'
    by (rule ends_settle [OF quiet_trans [OF quiet.transition_safe quiet.transition_safe]])
  show ?thesis
    using assms(3)
    by (auto simp: on_prepared_def Let_def split: sum.split intro!: d s ends_failed ends_superseded
        ends_trans [OF quiet.transition_safe ends_failed] ends_trans [OF quiet.transition_safe ends_acknowledge])
qed

lemma op_sequence_sig: "i < length (tw_ops w) \<Longrightarrow> op_sequence w (Some i) = Some (fst (op_sig w ! i))"
  by (simp add: op_sequence_def op_sig_def the_op_def)

lemma on_done_inv: "op_inv w \<Longrightarrow> a < length (tw_heap w) \<Longrightarrow> op_inv (on_done a w)"
proof (cases "ac_pc (the_actor w a)")
  case (PcDone i)
  assume w: "op_inv w" and a: "a < length (tw_heap w)"
  let ?x = "the_actor w a"
  have v: "view_ok (op_sig w) (view ?x)" using w a by (rule actor_view_ok)
  have i: "i < length (tw_ops w)" "settled_in (op_sig w) i"
    using v PcDone by (auto simp: view_ok_def in_order_def)
  let ?done = "op_sequence w (ac_latest ?x) = Some (po_sequence (the_op w i))"
  let ?f = "\<lambda>x. x\<lparr>ac_latest := (if ?done then None else ac_latest x), ac_current := None, ac_pc := PcIdle\<rparr>"
  have seq: "po_sequence (the_op w i) = fst (op_sig w ! i)" using i(1) by (simp add: op_sig_def the_op_def)
  have same: "?done \<Longrightarrow> ac_latest ?x = Some j \<Longrightarrow> j = i" for j
    using v PcDone seq op_sequence_sig [of j w] by (auto simp: view_ok_def in_order_def)
  have eq: "on_done a w = drain a (upd_actor a ?f w)" using PcDone by (simp add: on_done_def Let_def)
  have x: "the_actor (upd_actor a ?f w) a = ?f ?x" using a by (rule the_actor_upd)
  show ?thesis
  proof (cases "?done \<or> ac_latest ?x = None")
    case True
    have "op_inv (upd_actor a ?f w)"
      using w v True same i(2) PcDone
      by (intro op_inv_change) (auto simp: view_ok_def in_order_def awaited_def)
    moreover have "drain a (upd_actor a ?f w) = notifyDispatchReleaseListeners a (upd_actor a ?f w)"
      using True by (auto simp: drain_def x)
    ultimately show ?thesis using eq quiet_inv [OF quiet_notify_listeners] by simp
  next
    case False
    then obtain j where j: "ac_latest ?x = Some j" by blast
    let ?g = "\<lambda>x. (?f x)\<lparr>ac_current := Some j, ac_pc := PcResolve j\<rparr>"
    have "drain a (upd_actor a ?f w) = upd_actor a ?g w"
      unfolding drain_def x Let_def using False j by (simp add: upd_upd)
    moreover have "op_inv (upd_actor a ?g w)"
      using w v False j i(2) PcDone
      by (intro op_inv_change) (auto simp: view_ok_def in_order_def awaited_def)
    ultimately show ?thesis using eq by simp
  qed
qed (simp_all add: on_done_def)



section \<open>New actors and new operations\<close>

lemma settled_append: "settled_in s i \<Longrightarrow> settled_in (s @ t) i"
  by (simp add: settled_in_def nth_append)

lemma in_order_append: "in_order s v \<Longrightarrow> in_order (s @ t) v"
  by (auto simp: in_order_def nth_append)

lemma view_ok_append: "view_ok s v \<Longrightarrow> view_ok (s @ t) v"
  by (auto simp: view_ok_def in_order_append settled_append)

lemma pc_working_op: "pc_working pc = Some i \<Longrightarrow> pc_op pc = Some i"
  by (cases pc) simp_all

lemma pc_op_cases: "pc_op pc = Some i \<Longrightarrow> pc_working pc = Some i \<or> pc = PcDone i"
  by (cases pc) simp_all

definition taken :: "nat \<Rightarrow> drain_view \<Rightarrow> drain_view" where
  \<comment> \<open>a new operation is put: the loop starts on it, or it waits behind the one under way\<close>
  "taken n v = v\<lparr>dv_sequence := dv_sequence v + 1, dv_latest := Some n,
     dv_pc := (if dv_pc v = PcIdle then PcResolve n else dv_pc v),
     dv_current := (if dv_pc v = PcIdle then Some n else dv_current v)\<rparr>"

lemma view_ok_taken:
  assumes "view_ok s v"
  shows "view_ok (s @ [(dv_sequence v + 1, False)]) (taken (length s) v)"
proof (cases "dv_pc v = PcIdle")
  case True
  then show ?thesis by (auto simp: taken_def view_ok_def in_order_def nth_append)
next
  case False
  have "in_order (s @ [(dv_sequence v + 1, False)]) (taken (length s) v)"
    using assms False by (fastforce simp: view_ok_def in_order_def taken_def nth_append)
  then show ?thesis
    using assms False by (auto simp: view_ok_def taken_def settled_append)
qed

lemma requests_new:
  assumes r: "requests_ok vs s" and a: "a < length vs" and le: "sig_le s t"
    and old: "\<And>j. dv_latest (vs ! a) = Some j \<Longrightarrow> dv_current (vs ! a) \<noteq> Some j \<Longrightarrow> settled_in t j"
  shows "requests_ok (vs[a := taken (length t) (vs ! a)]) (t @ [(dv_sequence (vs ! a) + 1, False)])"
    (is "requests_ok (vs[a := ?u]) ?t")
proof -
  have rt: "requests_ok vs t" using le r by (rule requests_ok_le)
  have v: "view_ok t (vs ! a)" using rt a by (rule requests_view)
  have "view_ok ?t w" if "w \<in> set (vs[a := ?u])" for w
  proof -
    have "w = ?u \<or> w \<in> set vs" using that set_update_subset_insert [of vs a ?u] by blast
    then show ?thesis using view_ok_taken [OF v] rt view_ok_append by (auto simp: requests_ok_def)
  qed
  moreover have "\<exists>w\<in>set (vs[a := ?u]). awaited w i" if i: "i < length ?t" "\<not> settled_in ?t i" for i
  proof (cases "i = length t")
    case True
    have "awaited ?u i" using True by (simp add: awaited_def taken_def)
    then show ?thesis using a by (meson set_update_memI)
  next
    case False
    have n: "i < length t" "\<not> settled_in t i" using False i settled_append by auto
    have "\<exists>w\<in>set vs. awaited w i" using rt n by (simp add: requests_ok_def)
    then obtain k where k: "k < length vs" "awaited (vs ! k) i" by (metis in_set_conv_nth)
    show ?thesis
    proof (cases "k = a")
      case True
      have "pc_working (dv_pc (vs ! a)) = Some i"
      proof (cases "dv_latest (vs ! a) = Some i")
        case True
        then have "pc_op (dv_pc (vs ! a)) = Some i" using old n v by (auto simp: view_ok_def)
        then have "pc_working (dv_pc (vs ! a)) = Some i \<or> dv_pc (vs ! a) = PcDone i" by (rule pc_op_cases)
        then show ?thesis using v n by (auto simp: view_ok_def)
      next
        case False
        then show ?thesis using k \<open>k = a\<close> by (simp add: awaited_def)
      qed
      then have "awaited ?u i" by (auto simp: awaited_def taken_def)
      then show ?thesis using a by (meson set_update_memI)
    next
      case False
      then have "vs[a := ?u] ! k = vs ! k" by simp
      then show ?thesis using k by (metis length_list_update nth_mem)
    qed
  qed
  ultimately show ?thesis by (simp add: requests_ok_def)
qed

lemma transition_fields:
  assumes "transition a e w = Inr w'" "a < length (tw_heap w)"
  shows "view (the_actor w' a) = view (the_actor w a)" "views w' = views w" "op_sig w' = op_sig w"
    "tw_actors w' = tw_actors w" "length (tw_heap w') = length (tw_heap w)" "tw_ops w' = tw_ops w"
    "ac_current (the_actor w' a) = ac_current (the_actor w a)"
    "ac_latest (the_actor w' a) = ac_latest (the_actor w a)"
    "ac_sequence (the_actor w' a) = ac_sequence (the_actor w a)"
    "ac_pc (the_actor w' a) = ac_pc (the_actor w a)"
  using assms by (auto simp: transition_def map_ok_def the_actor_upd view_def split: sum.splits)

lemma supersede_fields [simp]:
  "tw_heap (supersede_latest a w) = tw_heap w" "tw_actors (supersede_latest a w) = tw_actors w"
  "tw_sessions (supersede_latest a w) = tw_sessions w"
  "length (tw_ops (supersede_latest a w)) = length (tw_ops w)"
  by (auto simp: supersede_latest_def split: option.split)

lemma supersede_sig: "sig_le (op_sig w) (op_sig (supersede_latest a w))"
  by (auto simp: supersede_latest_def ops_le_settle intro: ops_le_sig split: option.split)

lemma supersede_settles:
  "ac_latest (the_actor w a) = Some j \<Longrightarrow> ac_current (the_actor w a) \<noteq> Some j \<Longrightarrow> j < length (tw_ops w) \<Longrightarrow>
    settled_in (op_sig (supersede_latest a w)) j"
  by (simp add: supersede_latest_def settled_by)

lemma drain_taken_views:
  assumes "a < length (tw_heap v)"
  shows "views (drain a (upd_actor a (\<lambda>x. x\<lparr>ac_latest := Some n\<rparr>) v)) =
    (views v)[a := (taken n (view (the_actor v a)))\<lparr>dv_sequence := ac_sequence (the_actor v a)\<rparr>]"
proof -
  let ?f = "\<lambda>x. x\<lparr>ac_latest := Some n\<rparr>"
  have x: "the_actor (upd_actor a ?f v) a = ?f (the_actor v a)" using assms by (rule the_actor_upd)
  show ?thesis
  proof (cases "ac_pc (the_actor v a) = PcIdle")
    case True
    then have "drain a (upd_actor a ?f v) = upd_actor a (\<lambda>x. (?f x)\<lparr>ac_current := Some n, ac_pc := PcResolve n\<rparr>) v"
      unfolding drain_def x Let_def by (simp add: upd_upd)
    then show ?thesis using True assms by (simp add: views_upd_at view_def taken_def)
  next
    case False
    then have "drain a (upd_actor a ?f v) = upd_actor a ?f v" unfolding drain_def x Let_def by simp
    then show ?thesis using False assms by (simp add: views_upd_at view_def taken_def)
  qed
qed

lemma drain_fields [simp]:
  "tw_ops (drain a w) = tw_ops w" "tw_actors (drain a w) = tw_actors w" "tw_sessions (drain a w) = tw_sessions w"
  "length (tw_heap (drain a w)) = length (tw_heap w)"
  by (auto simp: drain_def notifyDispatchReleaseListeners_def Let_def split: option.split)

lemma put_request_inv:
  assumes w: "op_inv w" and a: "a < length (tw_heap w)"
    and v: "views v = (views w)[a := (view (the_actor w a))\<lparr>dv_sequence := ac_sequence (the_actor w a) + 1\<rparr>]"
      "view (the_actor v a) = (view (the_actor w a))\<lparr>dv_sequence := ac_sequence (the_actor w a) + 1\<rparr>"
      "op_sig v = op_sig w" "tw_actors v = tw_actors w"
    and p: "po_sequence p = ac_sequence (the_actor v a)" "po_outcome p = None"
  shows "op_inv (put_request a p v)"
proof -
  let ?s = "supersede_latest a v" and ?x = "the_actor w a"
  have len: "length (tw_heap v) = length (tw_heap w)" using v(1) by (metis length_list_update views_length)
  have x: "ac_latest (the_actor v a) = ac_latest ?x" "ac_current (the_actor v a) = ac_current ?x"
    "ac_pc (the_actor v a) = ac_pc ?x" "ac_sequence (the_actor v a) = ac_sequence ?x + 1"
    using v(2) by (simp_all add: view_def)
  have sig: "op_sig (put_request a p v) = op_sig ?s @ [(ac_sequence ?x + 1, False)]"
    using p x by (simp add: put_request_def op_sig_def)
  have views: "views (put_request a p v) = (views w)[a := taken (length (op_sig ?s)) (views w ! a)]"
  proof -
    let ?u = "?s\<lparr>tw_ops := tw_ops ?s @ [p]\<rparr>"
    have u: "the_actor ?u a = the_actor v a" "views ?u = views v" "a < length (tw_heap ?u)"
      using a len by (simp_all add: the_actor_def views_def)
    show ?thesis
      unfolding put_request_def drain_taken_views [OF u(3)] u
      using a v(1) x by (simp add: view_nth taken_def view_def)
  qed
  have "requests_ok ((views w)[a := taken (length (op_sig ?s)) (views w ! a)])
    (op_sig ?s @ [(dv_sequence (views w ! a) + 1, False)])"
  proof (rule requests_new [where s = "op_sig w"])
    show "requests_ok (views w) (op_sig w)" using w by (simp add: op_inv_def)
    show "sig_le (op_sig w) (op_sig ?s)" using supersede_sig [of v a] v(3) by simp
    show "settled_in (op_sig ?s) j" if "dv_latest (views w ! a) = Some j" "dv_current (views w ! a) \<noteq> Some j" for j
      using that [unfolded view_nth [OF a]] actor_view_ok [OF w a] v(3) op_sig_length [of v]
      by (intro supersede_settles) (auto simp: x view_ok_def in_order_def)
  qed (use a in simp)
  then have "requests_ok (views (put_request a p v)) (op_sig (put_request a p v))"
    using views sig by (simp add: view_nth [OF a])
  then show ?thesis
    using w v(4) len by (simp add: op_inv_def actors_ok_def put_request_def)
qed


lemma next_operation_fields:
  assumes "next_operation a rq w = (i, w')" "a < length (tw_heap w)"
  shows "tw_actors w' = tw_actors w" "op_sig w' = op_sig w" "a < length (tw_heap w')"
    "views w' = (views w)[a := (view (the_actor w a))\<lparr>dv_sequence := ac_sequence (the_actor w a) + 1\<rparr>]"
    "view (the_actor w' a) = (view (the_actor w a))\<lparr>dv_sequence := ac_sequence (the_actor w a) + 1\<rparr>"
  using assms views_upd_at [OF assms(2), of "\<lambda>x. x\<lparr>ac_sequence := ac_sequence x + 1\<rparr>"]
  by (auto simp: next_operation_def Let_def views_def op_sig_def the_actor_def upd_actor_def view_def
      split: option.splits)

lemma next_operation_inv:
  assumes w: "op_inv w" and a: "a < length (tw_heap w)" and e: "next_operation a rq w = (i, w')"
  shows "op_inv w'"
proof -
  let ?w2 = "upd_actor a (\<lambda>x. x\<lparr>ac_sequence := ac_sequence x + 1\<rparr>) w"
  have "op_inv ?w2"
  proof (rule op_inv_change [OF w])
    show "view_ok (op_sig w) (view ((the_actor w a)\<lparr>ac_sequence := ac_sequence (the_actor w a) + 1\<rparr>))"
      using actor_view_ok [OF w a] by (fastforce simp: view_ok_def in_order_def)
  qed (simp add: awaited_def)
  moreover have "quiet ?w2 w'"
    using e by (auto simp: next_operation_def Let_def split: option.splits intro!: quiet_fields)
  ultimately show ?thesis by (rule quiet_inv [rotated])
qed

lemma request_inv:
  assumes w: "op_inv w"
  shows "op_inv (snd (requestSessionTargetTransition rq w))"
proof -
  obtain a w1 where e: "actorFor (rq_sessionId rq) w = (a, w1)" by (metis surj_pair)
  note w1 = actorFor_inv [OF w e]
  obtain i w2 where n: "next_operation a rq w1 = (i, w2)" by (metis surj_pair)
  note w2 = next_operation_fields [OF n w1(2)]
  show ?thesis
  proof (cases "transition a (Select i (or_else (rq_origin rq) Send) (rq_target rq)) w2")
    case (Inl err)
    then show ?thesis
      using e n next_operation_inv [OF w1(1,2) n] by (simp add: requestSessionTargetTransition_def)
  next
    case (Inr w3)
    note f = transition_fields [OF Inr w2(3)]
    have "op_inv (put_request a p w3)" if "po_sequence p = ac_sequence (the_actor w3 a)" "po_outcome p = None" for p
      using w1(1,2) w2 f that by (intro put_request_inv) simp_all
    then show ?thesis using e n Inr by (simp add: requestSessionTargetTransition_def)
  qed
qed

lemma transition_request_inv: "op_inv w \<Longrightarrow> op_inv (snd (transitionSessionTarget rq w))"
proof -
  assume w: "op_inv w"
  obtain a w1 where e: "actorFor (rq_sessionId rq) w = (a, w1)" by (metis surj_pair)
  have w1: "op_inv w1" using actorFor_inv [OF w e] by simp
  then have "op_inv (w1\<lparr>tw_waiting := q\<rparr>)" for q by (rule quiet_inv [rotated]) (rule quiet_fields; simp)
  then show ?thesis
    using e request_inv [OF w1] by (simp add: transitionSessionTarget_def split: option.split)
qed

lemma resume_waiting_inv: "op_inv w \<Longrightarrow> op_inv (resume_waiting n w)"
proof -
  assume w: "op_inv w"
  have "quiet w (w\<lparr>tw_waiting := q\<rparr>)" for q by (rule quiet_fields) simp_all
  then have "op_inv (w\<lparr>tw_waiting := q\<rparr>)" for q using w by (rule quiet_inv)
  then show ?thesis using w request_inv by (simp add: resume_waiting_def)
qed

section \<open>Leases and ownership keep the invariant\<close>

lemma quiet_upd_lease: "quiet w (upd_lease a token f w)"
  unfolding upd_lease_def by (rule quiet_upd) (simp add: view_def)

lemma quiet_publish: "publish a token k t w = (r, w') \<Longrightarrow> quiet w w'"
proof -
  have f: "quiet v (v\<lparr>tw_restoring := b\<rparr>)" for v b by (rule quiet_fields) simp_all
  have g: "quiet w (v\<lparr>tw_restoring := c\<rparr>)"
    if "replaceSessionExecutionTarget k (Some t) ((upd_lease a token h w)\<lparr>tw_restoring := b\<rparr>) = Inr v" for v b c h
    by (rule quiet_trans [OF quiet_trans [OF quiet_trans [OF quiet_upd_lease f] quiet.replace [OF that]] f])
  show "publish a token k t w = (r, w') \<Longrightarrow> quiet w w'"
    by (auto simp: publish_def Let_def split: sum.splits intro: g quiet_trans [OF quiet_upd_lease f])
qed

lemma quiet_finish_wait: "quiet w (finish_dispatch_wait n w)"
proof -
  let ?c = "tw_dispatchWaits w ! n"
  let ?w = "w\<lparr>tw_dispatchWaits := take n (tw_dispatchWaits w) @ drop (Suc n) (tw_dispatchWaits w)\<rparr>"
  have q: "quiet w ?w" by (rule quiet_fields) simp_all
  have d: "quiet v (discard_observation b v)" for v b
    unfolding discard_observation_def by (rule quiet_upd) (simp add: view_def)
  have committed: "quiet w (upd_lease (dw_actor ?c) (dw_token ?c) f (discard_observation (dw_actor ?c) ?w))" for f
    by (rule quiet_trans [OF quiet_trans [OF q d] quiet_upd_lease])
  have undone: "quiet w (case publish (dw_actor ?c) (dw_token ?c) k t ?w of
      (Inl e, w1) \<Rightarrow> w1 | (Inr u, w1) \<Rightarrow> upd_lease (dw_actor ?c) (dw_token ?c) f w1)" for k t f
    by (auto split: prod.split sum.split intro: quiet_trans [OF q quiet_publish]
        quiet_trans [OF quiet_trans [OF q quiet_publish] quiet_upd_lease])
  show ?thesis
    unfolding finish_dispatch_wait_def Let_def
    by (auto split: option.split target_outcome.split intro!: committed undone)
qed

lemma transition_lease_inv: "op_inv w \<Longrightarrow> op_inv (snd (transitionSessionDispatchTarget rq token w))"
proof -
  assume w: "op_inv w"
  have q: "quiet w (upd_actor a (\<lambda>x. x\<lparr>ac_deferredMutation := m\<rparr>) (upd_lease a token f w))" for a f m
    by (rule quiet_trans [OF quiet_upd_lease quiet_upd]) (simp add: view_def)
  have p: "op_inv v" if "publish b u k t (upd_actor a (\<lambda>x. x\<lparr>ac_deferredMutation := m\<rparr>) (upd_lease a token f w)) = (r, v)"
    for b u k t a m f r v
    by (rule quiet_inv [OF quiet_trans [OF q quiet_publish [OF that]] w])
  have f: "op_inv v \<Longrightarrow> op_inv (v\<lparr>tw_dispatchWaits := x\<rparr>)" for v x
    by (rule quiet_inv [rotated], assumption) (rule quiet_fields; simp)
  have s: "op_inv v" if "publish b u k t (upd_actor a (\<lambda>x. x\<lparr>ac_deferredMutation := m\<rparr>) (upd_lease a token f w)) = (r, v')"
    "transitionSessionTarget rq' v' = (h, v)" for b u k t a m f r v v' rq' h
    using transition_request_inv [OF p [OF that(1)], of rq'] that(2) by simp
  show ?thesis
    using w by (auto simp: transitionSessionDispatchTarget_def Let_def split: option.split prod.split sum.split
        intro!: f intro: p s)
qed


lemma quiet_acquire: "quiet w (snd (acquireSessionDispatchTarget k t w))"
proof (rule quiet.after_actor [of k])
  fix a w1
  assume e: "actorFor k w = (a, w1)"
  have f: "quiet w1 ((upd_actor a f w1)\<lparr>tw_nextToken := n\<rparr>)" if "\<And>x. view (f x) = view x" for f n
    by (rule quiet_trans [OF quiet_upd quiet_fields]) (simp_all add: that)
  have g: "quiet w1 (cancel_missing ks (put_session k h ((upd_actor a f w1)\<lparr>tw_nextToken := n\<rparr>)))"
    if "\<And>x. view (f x) = view x" for f n ks h
    by (rule quiet_trans [OF quiet_trans [OF f [OF that] quiet_put_session] quiet_cancel_missing])
  show "quiet w1 (snd (acquireSessionDispatchTarget k t w))"
    using e by (auto simp: acquireSessionDispatchTarget_def Let_def view_def split: option.split intro!: f g)
qed

lemma quiet_remember: "a < length (tw_heap w) \<Longrightarrow> quiet w (w\<lparr>tw_actors := obj_set k a (tw_actors w)\<rparr>)"
proof -
  assume a: "a < length (tw_heap w)"
  have "actors_ok (w\<lparr>tw_actors := obj_set k a (tw_actors w)\<rparr>)" if "op_inv w"
    using that a obj_set_elems [of k a "tw_actors w"] by (fastforce simp: op_inv_def actors_ok_def)
  then show ?thesis
    by (simp add: quiet_def op_inv_def views_def op_sig_def kept_def ops_le_same the_actor_def)
qed

lemma quiet_transfer: "quiet w (transferSessionTargetOwnership f t w)"
proof (cases "obj_get (tw_actors w) f")
  case (Some a)
  let ?w1 = "w\<lparr>tw_actors := obj_del f (tw_actors w)\<rparr>"
  have a: "a < length (tw_heap w) \<or> \<not> op_inv w" using Some actor_bound by blast
  show ?thesis
  proof (cases "op_inv w")
    case True
    then have a: "a < length (tw_heap w)" using a by simp
    show ?thesis
    proof (cases "obj_get (tw_actors ?w1) t")
      case None
      have "quiet ?w1 (upd_actor a (\<lambda>x. x\<lparr>ac_tracksLiveSession := True\<rparr>) ?w1)" (is "quiet _ ?v")
        by (rule quiet_mild) simp
      moreover have "quiet ?v (?v\<lparr>tw_actors := obj_set t a (tw_actors ?v)\<rparr>)" using a by (intro quiet_remember) simp
      ultimately have "quiet w (?v\<lparr>tw_actors := obj_set t a (tw_actors ?v)\<rparr>)"
        using quiet_forget quiet_trans by blast
      then show ?thesis using Some None by (simp add: transferSessionTargetOwnership_def)
    next
      case b: (Some b)
      let ?s = "the_actor ?w1 a"
      let ?w3 = "upd_actor a (\<lambda>x. x\<lparr>ac_cancelled := True\<rparr>)
        (upd_actor b (\<lambda>x. x\<lparr>ac_selection := or_option (ac_selection x) (ac_selection ?s),
           ac_deferredSelection := or_option (ac_deferredSelection x) (ac_deferredSelection ?s),
           ac_deferredMutation := or_option (ac_deferredMutation x) (ac_deferredMutation ?s)\<rparr>) ?w1)"
      let ?w5 = "upd_actor a (\<lambda>x. x\<lparr>ac_current := None, ac_latest := None\<rparr>)
        (settle_all (pending_of ?s) SupersededOutcome ?w3)"
      have q: "quiet ?w1 ?w3"
        by (rule quiet_trans [OF quiet_upd quiet_upd]) (simp_all add: view_def)
      have v: "view (the_actor ?w3 a) = view ?s"
        using a by (cases "a = b") (simp_all add: the_actor_upd the_actor_other view_def)
      have "quiet ?w1 ?w5" by (rule give_up_quiet [OF q _ _ v]) (use a in simp_all)
      then have w5: "quiet w ?w5" by (rule quiet_trans [OF quiet_forget])
      then have "quiet w (release a n ?w5)" for n using quiet.release by (rule quiet_trans)
      then show ?thesis
        using w5 Some b by (auto simp: transferSessionTargetOwnership_def Let_def split: option.split)
    qed
  qed (simp add: quiet_def)
qed (simp add: transferSessionTargetOwnership_def)

section \<open>Every step keeps the invariant\<close>

fun target_enabled :: "target_action \<Rightarrow> target_world \<Rightarrow> bool" where
  \<comment> \<open>an answer is for an actor there is\<close>
  "target_enabled (RepairAnswered a ans) w \<longleftrightarrow> a < length (tw_heap w)"
| "target_enabled (PrepareAnswered a ans) w \<longleftrightarrow> a < length (tw_heap w)"
| "target_enabled (DrainContinues a) w \<longleftrightarrow> a < length (tw_heap w)"
| "target_enabled _ w \<longleftrightarrow> True"

lemma on_resolved_inv: "op_inv w \<Longrightarrow> a < length (tw_heap w) \<Longrightarrow> op_inv (on_resolved a ans w)"
  using on_resolved_turns [of w a _ ans] by (cases "ac_pc (the_actor w a)") (auto simp: turned_def on_resolved_def)

lemma on_prepared_inv: "op_inv w \<Longrightarrow> a < length (tw_heap w) \<Longrightarrow> op_inv (on_prepared a ans w)"
  using on_prepared_turns [of w a _ _ ans] by (cases "ac_pc (the_actor w a)") (auto simp: turned_def on_prepared_def)

lemma quiet_store: "quiet w (notify (w\<lparr>tw_sessions := s\<rparr>))"
  by (rule quiet_trans [OF quiet_fields quiet_notify]) simp_all

lemma quiet_microtask:
  "quiet w (case tw_microtasks w of [] \<Rightarrow> w | a # as \<Rightarrow> notifyDispatchReleaseListeners a (w\<lparr>tw_microtasks := as\<rparr>))"
proof -
  have "quiet w (notifyDispatchReleaseListeners a (w\<lparr>tw_microtasks := as\<rparr>))" for a as
    by (rule quiet_trans [OF quiet.microtask quiet.listeners])
  then show ?thesis by (simp split: list.split)
qed

lemmas quiet_steps = quiet.release quiet.listen quiet.unsubscribe quiet_finish_wait quiet.hydrate
  quiet.observe_config quiet.observe_metadata quiet.record_selection quiet.replace_after
  quiet.clear_selection quiet_cancel quiet_store quiet_microtask quiet_acquire quiet_transfer

lemma target_step_inv: "op_inv w \<Longrightarrow> target_enabled e w \<Longrightarrow> op_inv (target_step e w)"
  by (cases e) (auto simp: transition_request_inv resume_waiting_inv on_resolved_inv on_prepared_inv on_done_inv
      transition_lease_inv intro: quiet_steps [THEN quiet_inv])

interpretation requests: step_system target_step target_enabled op_inv
  by unfold_locales (rule target_step_inv)

section \<open>Operations only grow\<close>

definition ops_grow :: "target_world \<Rightarrow> target_world \<Rightarrow> bool" where
  "ops_grow w w' \<longleftrightarrow> length (tw_ops w) \<le> length (tw_ops w') \<and>
     (\<forall>i<length (tw_ops w). op_kept (the_op w i) (the_op w' i))"

lemma ops_le_grow: "ops_le w w' \<Longrightarrow> ops_grow w w'"
  by (simp add: ops_le_def ops_grow_def)

lemma ops_grow_trans: "ops_grow w v \<Longrightarrow> ops_grow v u \<Longrightarrow> ops_grow w u"
proof -
  assume wv: "ops_grow w v" and vu: "ops_grow v u"
  have "op_kept (the_op w i) (the_op u i)" if "i < length (tw_ops w)" for i
    using wv vu that unfolding ops_grow_def by (meson less_le_trans op_kept_trans)
  then show ?thesis using wv vu by (simp add: ops_grow_def)
qed

lemma quiet_grow: "quiet w w' \<Longrightarrow> op_inv w \<Longrightarrow> ops_grow w w'"
  by (simp add: quiet_def kept_def ops_le_grow)

lemma turned_grow: "turned a pc w w' \<Longrightarrow> ops_grow w w'"
  by (simp add: turned_def ops_le_grow)

lemma put_request_grow: "ops_grow w (put_request a p w)"
proof -
  have "ops_le w (supersede_latest a w)"
    by (simp add: supersede_latest_def ops_le_settle split: option.split)
  then show ?thesis
    by (simp add: ops_grow_def ops_le_def put_request_def the_op_def nth_append)
qed

lemma request_grow: "ops_grow w (snd (requestSessionTargetTransition rq w))"
proof -
  obtain a w1 where e: "actorFor (rq_sessionId rq) w = (a, w1)" by (metis surj_pair)
  obtain i w2 where n: "next_operation a rq w1 = (i, w2)" by (metis surj_pair)
  have "tw_ops w1 = tw_ops w" using e by (auto simp: actorFor_def split: option.splits)
  moreover have "tw_ops w2 = tw_ops w1" using n by (auto simp: next_operation_def Let_def split: option.splits)
  ultimately have w2: "ops_grow w w2" by (simp add: ops_le_grow ops_le_same)
  have w3: "ops_grow w2 w3" if "transition a ev w2 = Inr w3" for ev w3
    using that by (auto simp: transition_def map_ok_def ops_le_grow ops_le_same split: sum.splits)
  show ?thesis
    using e n w2 by (auto simp: requestSessionTargetTransition_def split: sum.split
        intro: ops_grow_trans [OF ops_grow_trans [OF w2 w3] put_request_grow])
qed

lemma transition_target_grow: "ops_grow w (snd (transitionSessionTarget rq w))"
proof -
  obtain a w1 where e: "actorFor (rq_sessionId rq) w = (a, w1)" by (metis surj_pair)
  have "tw_ops w1 = tw_ops w" using e by (auto simp: actorFor_def split: option.splits)
  then have w1: "ops_grow w w1" by (simp add: ops_le_grow ops_le_same)
  have "ops_grow w1 (w1\<lparr>tw_waiting := q\<rparr>)" for q by (simp add: ops_le_grow ops_le_same)
  then show ?thesis
    using e w1 ops_grow_trans [OF w1 request_grow] ops_grow_trans [OF w1]
    by (simp add: transitionSessionTarget_def split: option.split)
qed

lemma resume_grow: "ops_grow w (resume_waiting n w)"
proof -
  have "ops_grow w (w\<lparr>tw_waiting := q\<rparr>)" for q by (simp add: ops_le_grow ops_le_same)
  then have "ops_grow w (snd (requestSessionTargetTransition rq (w\<lparr>tw_waiting := q\<rparr>)))" for rq q
    using request_grow ops_grow_trans by blast
  then show ?thesis by (simp add: resume_waiting_def ops_le_grow)
qed

lemma transition_lease_grow: "op_inv w \<Longrightarrow> ops_grow w (snd (transitionSessionDispatchTarget rq token w))"
proof -
  assume w: "op_inv w"
  have q: "quiet w (upd_actor a (\<lambda>x. x\<lparr>ac_deferredMutation := m\<rparr>) (upd_lease a token f w))" for a f m
    by (rule quiet_trans [OF quiet_upd_lease quiet_mild]) simp
  have p: "ops_grow w v" if "publish b u k t (upd_actor a (\<lambda>x. x\<lparr>ac_deferredMutation := m\<rparr>) (upd_lease a token f w)) = (r, v)"
    for b u k t a m f r v
    by (rule quiet_grow [OF quiet_trans [OF q quiet_publish [OF that]] w])
  have s: "ops_grow w (v\<lparr>tw_dispatchWaits := x\<rparr>)"
    if "publish b u k t (upd_actor a (\<lambda>x. x\<lparr>ac_deferredMutation := m\<rparr>) (upd_lease a token f w)) = (r, v')"
      "transitionSessionTarget rq' v' = (h, v)" for b u k t a m f r v v' rq' h x
  proof -
    have "ops_grow v' v" using transition_target_grow [of v' rq'] that(2) by simp
    then have "ops_grow w v" using p [OF that(1)] ops_grow_trans by blast
    then show ?thesis by (simp add: ops_grow_def the_op_def)
  qed
  show ?thesis
    by (auto simp: transitionSessionDispatchTarget_def Let_def ops_le_grow split: option.split prod.split sum.split
        intro: s p)
qed

lemma on_done_grow: "ops_grow w (on_done a w)"
  by (auto simp: on_done_def Let_def ops_le_grow ops_le_same split: drain_pc.split)

lemma on_resolved_grow: "op_inv w \<Longrightarrow> a < length (tw_heap w) \<Longrightarrow> ops_grow w (on_resolved a ans w)"
  using on_resolved_turns [of w a _ ans] turned_grow
  by (cases "ac_pc (the_actor w a)") (auto simp: on_resolved_def ops_le_grow)

lemma on_prepared_grow: "op_inv w \<Longrightarrow> a < length (tw_heap w) \<Longrightarrow> ops_grow w (on_prepared a ans w)"
  using on_prepared_turns [of w a _ _ ans] turned_grow
  by (cases "ac_pc (the_actor w a)") (auto simp: on_prepared_def ops_le_grow)

lemma target_step_grow: "op_inv w \<Longrightarrow> target_enabled e w \<Longrightarrow> ops_grow w (target_step e w)"
  by (cases e) (auto simp: transition_target_grow resume_grow on_resolved_grow on_prepared_grow on_done_grow
      transition_lease_grow intro: quiet_steps [THEN quiet_grow])

lemma run_grow:
  "op_inv w \<Longrightarrow> requests.run_enabled es w \<Longrightarrow> ops_grow w (requests.run es w)"
proof (induction es arbitrary: w)
  case (Cons e es)
  then have "ops_grow w (target_step e w)" "op_inv (target_step e w)"
    using target_step_grow target_step_inv by auto
  then show ?case using Cons ops_grow_trans by fastforce
qed (simp add: ops_le_grow)

lemma run_enabled_append:
  "requests.run_enabled (es @ fs) w \<longleftrightarrow> requests.run_enabled es w \<and> requests.run_enabled fs (requests.run es w)"
  by (induction es arbitrary: w) auto

lemma initial_inv: "op_inv (initial_world ss)"
  by (simp add: op_inv_def actors_ok_def requests_ok_def initial_world_def views_def op_sig_def)

section \<open>Whatever is answered, an operation ends\<close>

definition two_rounds :: "nat \<Rightarrow> (json + serve_selection option) \<times> (json + config_snapshots option) \<Rightarrow>
    (json + serve_selection option) \<times> (json + config_snapshots option) \<Rightarrow> target_action list" where
  \<comment> \<open>the loop goes on when it can; the repair and the backend answer, twice\<close>
  "two_rounds a first second =
    [RepairAnswered a (fst first), PrepareAnswered a (snd first), DrainContinues a,
     RepairAnswered a (fst second), PrepareAnswered a (snd second)]"

lemma round_done:
  assumes w: "op_inv w" "a < length (tw_heap w)" "pc_working (ac_pc (the_actor w a)) = Some i"
  shows "turned a (PcDone i) w (on_prepared a p (on_resolved a r w))"
proof (cases "ac_pc (the_actor w a)")
  case (PcResolve j)
  then have j: "j = i" using w(3) by simp
  obtain eff where t: "turned a (PcDone i) w (on_resolved a r w) \<or> turned a (PcPrepare i eff) w (on_resolved a r w)"
    using on_resolved_turns [OF w(1,2)] PcResolve j by blast
  then show ?thesis
  proof
    assume d: "turned a (PcDone i) w (on_resolved a r w)"
    then have "on_prepared a p (on_resolved a r w) = on_resolved a r w" by (simp add: turned_def on_prepared_def)
    then show ?thesis using d by simp
  next
    assume d: "turned a (PcPrepare i eff) w (on_resolved a r w)"
    let ?v = "on_resolved a r w"
    have v: "op_inv ?v" "a < length (tw_heap ?v)" "ac_pc (the_actor ?v a) = PcPrepare i eff"
      using d w(2) by (auto simp: turned_def)
    have "turned a (PcDone i) ?v (on_prepared a p ?v)" by (rule on_prepared_turns [OF v])
    then show ?thesis using d turned_trans by blast
  qed
next
  case (PcPrepare j eff)
  then have "on_resolved a r w = w" by (simp add: on_resolved_def)
  moreover have "j = i" using w(3) PcPrepare by simp
  ultimately show ?thesis using on_prepared_turns [OF w(1,2), of i eff p] PcPrepare by simp
qed (use w(3) in auto)

lemma done_next:
  assumes v: "op_inv v" "a < length (tw_heap v)" "ac_pc (the_actor v a) = PcDone j"
    and i: "ac_latest (the_actor v a) = Some i" "\<not> settled_in (op_sig v) i"
  shows "ac_pc (the_actor (on_done a v) a) = PcResolve i"
proof -
  have ok: "view_ok (op_sig v) (view (the_actor v a))" using v(1,2) by (rule actor_view_ok)
  then have j: "settled_in (op_sig v) j" "j < length (tw_ops v)" "i < length (tw_ops v)"
    using v(3) i(1) by (auto simp: view_ok_def in_order_def)
  then have "i \<noteq> j" using i(2) by auto
  then have "fst (op_sig v ! j) < fst (op_sig v ! i)"
    using ok v(3) i(1) by (auto simp: view_ok_def in_order_def)
  then have "op_sequence v (ac_latest (the_actor v a)) \<noteq> Some (po_sequence (the_op v j))"
    using j i(1) op_sequence_sig [of i v] by (auto simp: op_sig_def the_op_def)
  then show ?thesis
    using v(2,3) i(1) unfolding on_done_def Let_def by (simp add: drain_def Let_def the_actor_upd)
qed

lemma done_settled:
  "op_inv v \<Longrightarrow> a < length (tw_heap v) \<Longrightarrow> ac_pc (the_actor v a) = PcDone i \<Longrightarrow> settled_in (op_sig v) i"
  using actor_view_ok [of v a] by (simp add: view_ok_def)

lemma grow_settled: "ops_grow w w' \<Longrightarrow> settled_in (op_sig w) i \<Longrightarrow> settled_in (op_sig w') i"
  by (auto simp: ops_grow_def settled_in_def op_sig_def op_kept_def the_op_def)

lemma target_step_heap:
  "op_inv w \<Longrightarrow> a < length (tw_heap w) \<Longrightarrow> a < length (tw_heap (on_resolved a r w)) \<and>
    a < length (tw_heap (on_prepared a p w)) \<and> a < length (tw_heap (on_done a w))"
proof -
  assume w: "op_inv w" "a < length (tw_heap w)"
  have "a < length (tw_heap (on_resolved a r w))"
    using on_resolved_turns [OF w, of _ r] w(2)
    by (cases "ac_pc (the_actor w a)") (auto simp: on_resolved_def turned_def dest: less_le_trans)
  moreover have "a < length (tw_heap (on_prepared a p w))"
    using on_prepared_turns [OF w, of _ _ p] w(2)
    by (cases "ac_pc (the_actor w a)") (auto simp: on_prepared_def turned_def dest: less_le_trans)
  moreover have "a < length (tw_heap (on_done a w))"
    using w(2) by (simp add: on_done_def Let_def split: drain_pc.split)
  ultimately show ?thesis by simp
qed

lemma two_rounds_settle:
  assumes w: "op_inv w" "a < length (tw_heap w)" and i: "awaited (view (the_actor w a)) i"
  shows "settled_in (op_sig (requests.run (two_rounds a (r1, p1) (r2, p2)) w)) i"
proof -
  define v where "v = on_prepared a p1 (on_resolved a r1 w)"
  have heap: "a < length (tw_heap (on_resolved a r1 w))" "op_inv (on_resolved a r1 w)"
    using target_step_heap [OF w] on_resolved_inv [OF w] by auto
  have v: "op_inv v" "a < length (tw_heap v)"
    using target_step_heap [OF heap(2,1)] on_prepared_inv [OF heap(2,1)] by (auto simp: v_def)
  have u: "op_inv (on_done a v)" "a < length (tw_heap (on_done a v))"
    using target_step_heap [OF v] on_done_inv [OF v] by auto
  define z where "z = on_prepared a p2 (on_resolved a r2 (on_done a v))"
  have z: "requests.run (two_rounds a (r1, p1) (r2, p2)) w = z" by (simp add: two_rounds_def z_def v_def)
  have vz: "ops_grow v z"
  proof -
    have 1: "ops_grow v (on_done a v)" by (rule on_done_grow)
    have 2: "ops_grow (on_done a v) (on_resolved a r2 (on_done a v))" using u by (rule on_resolved_grow)
    have 3: "ops_grow (on_resolved a r2 (on_done a v)) z"
      unfolding z_def using on_resolved_inv [OF u] target_step_heap [OF u] by (intro on_prepared_grow) auto
    show ?thesis using 1 2 3 ops_grow_trans by blast
  qed
  have nxt: "settled_in (op_sig z) i" if "ac_pc (the_actor v a) = PcDone j" "ac_latest (the_actor v a) = Some i" for j
  proof (cases "settled_in (op_sig v) i")
    case True
    then show ?thesis using vz by (rule grow_settled [rotated])
  next
    case False
    then have "pc_working (ac_pc (the_actor (on_done a v) a)) = Some i" using done_next [OF v that] by simp
    then have t: "turned a (PcDone i) (on_done a v) z" unfolding z_def by (rule round_done [OF u])
    moreover have "a < length (tw_heap z)" using t u(2) by (simp add: turned_def)
    ultimately show ?thesis using done_settled [of z a i] by (simp add: turned_def)
  qed
  show ?thesis
  proof (cases "pc_working (ac_pc (the_actor w a))")
    case None
    then have l: "ac_latest (the_actor w a) = Some i" using i by (simp add: awaited_def)
    then have "ac_pc (the_actor w a) \<noteq> PcIdle" using idle_has_nothing [OF w] by auto
    then obtain j where j: "ac_pc (the_actor w a) = PcDone j"
      using None by (cases "ac_pc (the_actor w a)") auto
    then have "v = w" by (simp add: v_def on_resolved_def on_prepared_def)
    then show ?thesis using nxt [of j] j l z by simp
  next
    case (Some j)
    have t: "turned a (PcDone j) w v" unfolding v_def by (rule round_done [OF w Some])
    have j: "settled_in (op_sig v) j" using t v done_settled [of v a j] by (simp add: turned_def)
    show ?thesis
    proof (cases "i = j")
      case True
      then show ?thesis using j vz z by (simp add: grow_settled)
    next
      case False
      then have "ac_latest (the_actor w a) = Some i" using i Some by (simp add: awaited_def)
      then have "ac_latest (the_actor v a) = Some i \<or> settled_in (op_sig v) i" using t by (simp add: turned_def)
      moreover have "settled_in (op_sig v) i \<Longrightarrow> settled_in (op_sig z) i" using vz by (rule grow_settled)
      ultimately show ?thesis using nxt [of j] t z by (auto simp: turned_def)
    qed
  qed
qed

section \<open>A run with two requests\<close>

definition example_target :: "string \<Rightarrow> execution_target" where
  "example_target m = ModelTarget ''goose'' ''anthropic'' m m"

definition example_request :: "string \<Rightarrow> target_request" where
  "example_request m = \<lparr>rq_sessionId = ''s1'', rq_target = example_target m, rq_workingDir = ''/w'',
     rq_prepareWorkingDir = None, rq_origin = None, rq_operationId = None, rq_requestId = None,
     rq_dispatchToken = None, rq_requireReasoningEffort = False, rq_requireExactTarget = False\<rparr>"

definition example_sessions :: "target_session jsobj" where
  "example_sessions = [(''s1'', \<lparr>sn_target = Some (example_target ''m0''), sn_source = Some Ui, sn_reasoning = None\<rparr>)]"

definition example_run :: "target_action list" where
  "example_run = [TransitionTarget (example_request ''m1''), TransitionTarget (example_request ''m2'')]"

definition example_world :: target_world where
  "example_world = fold target_step example_run (initial_world example_sessions)"

lemma example_world: "example_world = requests.run example_run (initial_world example_sessions)"
  by (simp add: example_world_def requests.run_fold)

lemma example_enabled: "requests.run_enabled example_run (initial_world example_sessions)"
  by (simp add: example_run_def)

definition glance :: "target_world \<Rightarrow> target_outcome option list \<times> drain_pc list \<times> nat option list" where
  "glance w = (map po_outcome (tw_ops w), map ac_pc (tw_heap w), map ac_latest (tw_heap w))"

lemma example_state:
  "glance example_world =
    ([None, None], [PcResolve 0], [Some 1])"
  by code_simp

lemma example_facts:
  "length (tw_ops example_world) = 2" "po_outcome (the_op example_world 0) = None"
  "length (tw_heap example_world) = 1" "ac_pc (the_actor example_world 0) = PcResolve 0"
  "ac_latest (the_actor example_world 0) = Some 1"
proof -
  have m: "map po_outcome (tw_ops example_world) = [None, None]"
    "map ac_pc (tw_heap example_world) = [PcResolve 0]"
    "map ac_latest (tw_heap example_world) = [Some 1]"
    using example_state by (simp_all add: glance_def)
  show l: "length (tw_ops example_world) = 2" using arg_cong [OF m(1), of length] by simp
  show h: "length (tw_heap example_world) = 1" using arg_cong [OF m(2), of length] by simp
  show "po_outcome (the_op example_world 0) = None"
    using arg_cong [OF m(1), of "\<lambda>xs. xs ! 0"] l by (simp add: the_op_def)
  show "ac_pc (the_actor example_world 0) = PcResolve 0"
    using arg_cong [OF m(2), of "\<lambda>xs. xs ! 0"] h by (simp add: the_actor_def)
  show "ac_latest (the_actor example_world 0) = Some 1"
    using arg_cong [OF m(3), of "\<lambda>xs. xs ! 0"] h by (simp add: the_actor_def)
qed

section \<open>Properties\<close>

lemma unsettled_awaited:
  assumes "op_inv w" "i < length (tw_ops w)" "po_outcome (the_op w i) = None"
  shows "\<exists>a<length (tw_heap w). awaited (view (the_actor w a)) i"
proof -
  have "\<not> settled_in (op_sig w) i" using assms(2,3) by (simp add: settled_in_def op_sig_def the_op_def)
  then have "\<exists>v\<in>set (views w). awaited v i" using assms(1,2) by (simp add: op_inv_def requests_ok_def)
  then show ?thesis by (auto simp: views_def the_actor_def in_set_conv_nth)
qed

lemma settled_outcome: "settled_in (op_sig w) i \<Longrightarrow> po_outcome (the_op w i) \<noteq> None"
  by (auto simp: settled_in_def op_sig_def the_op_def)

text \<open>
  C4. No request for a session's target is lost. After any sequence of actions (requests, answers,
  releases, cancellations, transfers and writes by other code, in any order) an operation that has no
  outcome yet is held by an actor, and whatever the repair of its selection and the backend answer, with
  a value or an error, two rounds of that actor's loop give it its outcome.
\<close>

theorem request_settles:
  assumes "requests.run_enabled es (initial_world ss)"
    and "w = requests.run es (initial_world ss)"
    and "i < length (tw_ops w)" "po_outcome (the_op w i) = None"
  shows "\<exists>a<length (tw_heap w). \<forall>first second.
    po_outcome (the_op (requests.run (two_rounds a first second) w) i) \<noteq> None"
proof -
  have w: "op_inv w" unfolding assms(2) by (rule requests.run_inv [OF initial_inv assms(1)])
  obtain a where a: "a < length (tw_heap w)" "awaited (view (the_actor w a)) i"
    using unsettled_awaited [OF w assms(3,4)] by blast
  have "po_outcome (the_op (requests.run (two_rounds a first second) w) i) \<noteq> None" for first second
    using two_rounds_settle [OF w a, of "fst first" "snd first" "fst second" "snd second"] settled_outcome by simp
  then show ?thesis using a(1) by blast
qed

lemma request_settles_witness:
  "\<exists>a<length (tw_heap example_world). \<forall>first second.
    po_outcome (the_op (requests.run (two_rounds a first second) example_world) 0) \<noteq> None"
  using request_settles [OF example_enabled example_world, of 0] example_facts(1,2) by simp

text \<open>
  The promise of an operation is settled once. Over any sequence of actions an operation keeps its
  request, its id, its place in the order and what it saw of the session when it was made, and once it
  has an outcome that outcome never changes.
\<close>

theorem outcome_settles_once:
  assumes "requests.run_enabled (es @ fs) (initial_world ss)"
    and "w = requests.run es (initial_world ss)"
    and "i < length (tw_ops w)"
  shows "\<exists>out. the_op (requests.run fs w) i = (the_op w i)\<lparr>po_outcome := out\<rparr> \<and>
    (po_outcome (the_op w i) \<noteq> None \<longrightarrow> out = po_outcome (the_op w i))"
proof -
  have w: "op_inv w" unfolding assms(2) using assms(1) by (intro requests.run_inv [OF initial_inv]) (simp add: run_enabled_append)
  have "ops_grow w (requests.run fs w)" using assms(1,2) w by (intro run_grow) (simp_all add: run_enabled_append)
  then have "op_kept (the_op w i) (the_op (requests.run fs w) i)" using assms(3) by (simp add: ops_grow_def)
  then obtain out where e: "the_op (requests.run fs w) i = (the_op w i)\<lparr>po_outcome := out\<rparr>"
    and k: "po_outcome (the_op w i) \<noteq> None \<Longrightarrow> the_op (requests.run fs w) i = the_op w i"
    by (auto simp: op_kept_def)
  have o: "po_outcome (the_op (requests.run fs w) i) = out" using e by simp
  have "out = po_outcome (the_op w i)" if "po_outcome (the_op w i) \<noteq> None" using k [OF that] o by simp
  then show ?thesis using e by blast
qed

lemma outcome_settles_once_witness:
  "\<exists>out. the_op (requests.run [PrepareAnswered 0 (Inr None)] example_world) 0 =
    (the_op example_world 0)\<lparr>po_outcome := out\<rparr>"
proof -
  have "requests.run_enabled (example_run @ [PrepareAnswered 0 (Inr None)]) (initial_world example_sessions)"
    using example_enabled example_facts(3) by (simp add: run_enabled_append flip: example_world)
  then show ?thesis using outcome_settles_once [OF _ example_world, of "[PrepareAnswered 0 (Inr None)]" 0]
      example_facts(1) by fastforce
qed

lemma behind_not_current:
  assumes "op_inv w" "a < length (tw_heap w)" "pc_working (ac_pc (the_actor w a)) = Some i"
    and "ac_latest (the_actor w a) = Some n" "n \<noteq> i"
  shows "\<not> currentOperation a i w"
proof -
  have v: "view_ok (op_sig w) (view (the_actor w a))" using assms(1,2) by (rule actor_view_ok)
  have "pc_op (ac_pc (the_actor w a)) = Some i" using assms(3) by (rule pc_working_op)
  then have "fst (op_sig w ! i) < fst (op_sig w ! n)" "i < length (tw_ops w)" "n < length (tw_ops w)"
    using v assms(4,5) by (auto simp: view_ok_def in_order_def)
  then show ?thesis using assms(4) by (simp add: currentOperation_def op_sequence_def op_sig_def the_op_def)
qed

text \<open>
  C6. A request that a newer one has overtaken does no harm. While the loop of an actor works on an
  operation and a newer one is the actor's latest, the answer of the repair and the answer of the
  backend, whether a value or an error, change no session and start no call of the backend; the
  operation ends superseded, unless it was settled before, and the newer operation stays the latest.
\<close>

theorem overtaken_writes_nothing:
  assumes "requests.run_enabled es (initial_world ss)" "w = requests.run es (initial_world ss)"
    and "a < length (tw_heap w)" "pc_working (ac_pc (the_actor w a)) = Some i"
    and "ac_latest (the_actor w a) = Some n" "n \<noteq> i"
    and "w' = requests.run [RepairAnswered a r, PrepareAnswered a p] w"
  shows "tw_sessions w' = tw_sessions w \<and> tw_prepared w' = tw_prepared w \<and>
    po_outcome (the_op w' i) = (if po_outcome (the_op w i) = None then Some SupersededOutcome
                                else po_outcome (the_op w i)) \<and>
    ac_latest (the_actor w' a) = Some n \<and> ac_pc (the_actor w' a) = PcDone i"
proof -
  have w: "op_inv w" unfolding assms(2) by (rule requests.run_inv [OF initial_inv assms(1)])
  have nc: "\<not> currentOperation a i w" by (rule behind_not_current [OF w assms(3-6)])
  let ?v = "execution_done a i (resolveSuperseded a i w)"
  have f: "execution_failed a i err w = resolveSuperseded a i w" for err using nc by (simp add: execution_failed_def)
  have step: "w' = ?v"
  proof (cases "ac_pc (the_actor w a)")
    case (PcResolve j)
    then have j: "j = i" using assms(4) by simp
    then have "on_resolved a r w = ?v"
      using PcResolve nc f by (simp add: on_resolved_def Let_def split: sum.split)
    moreover have "ac_pc (the_actor ?v a) = PcDone i"
      using assms(3) by (simp add: execution_done_def the_actor_upd resolveSuperseded_def transition_safe_def)
    ultimately show ?thesis using assms(7) by (simp add: on_prepared_def)
  next
    case (PcPrepare j eff)
    then have "j = i" using assms(4) by simp
    then show ?thesis
      using PcPrepare nc f assms(7) by (simp add: on_resolved_def on_prepared_def split: sum.split)
  qed (use assms(4) in simp_all)
  have i: "i < length (tw_ops w)" using pc_at [OF w assms(3)] pc_working_op [OF assms(4)] by simp
  show ?thesis
    unfolding step using assms(3,5) i
    by (auto simp: execution_done_def resolveSuperseded_def transition_safe_def the_actor_def the_op_def
        settleOperation_def upd_actor_def)
qed

lemma overtaken_writes_nothing_witness:
  "tw_sessions (requests.run [RepairAnswered 0 (Inr None), PrepareAnswered 0 (Inr None)] example_world) =
      tw_sessions example_world \<and>
    po_outcome (the_op (requests.run [RepairAnswered 0 (Inr None), PrepareAnswered 0 (Inr None)] example_world) 0) =
      Some SupersededOutcome"
  using overtaken_writes_nothing [OF example_enabled example_world, where a = 0 and i = 0 and n = 1, OF _ _ _ _ refl]
    example_facts by simp

end
