(* ===== verification/TargetLeases.thy ===== *)
theory TargetLeases
  imports TargetRequests
begin

text \<open>
  A dispatch lease pins the target of its session. While an actor holds a lease, the session it is
  registered under shows the leased target (or a model of the leased provider when the lease names no
  model), whatever other code writes to the session store; what was written meanwhile is applied when
  the lease is released. A second instance of the frame of \<open>TargetFrames\<close> gives the
  preservation by everything that only writes to the store and notifies.
\<close>

section \<open>The invariant\<close>

definition registered :: "target_world \<Rightarrow> bool" where
  \<comment> \<open>the registry names actors there are, each under one session\<close>
  "registered w \<longleftrightarrow> \<not> tw_restoring w \<and> obj_wf (tw_actors w) \<and>
     (\<forall>k a. obj_get (tw_actors w) k = Some a \<longrightarrow> a < length (tw_heap w)) \<and>
     (\<forall>k k' a. obj_get (tw_actors w) k = Some a \<longrightarrow> obj_get (tw_actors w) k' = Some a \<longrightarrow> k = k')"

definition pinned :: "target_world \<Rightarrow> string \<Rightarrow> bool" where
  "pinned w k \<longleftrightarrow> (\<forall>a d s. obj_get (tw_actors w) k = Some a \<longrightarrow> ac_dispatch (the_actor w a) = Some d \<longrightarrow>
     obj_get (tw_sessions w) k = Some s \<longrightarrow> matches_lease (sn_target s) (dl_target d))"

definition lease_inv :: "target_world \<Rightarrow> bool" where
  "lease_inv w \<longleftrightarrow> registered w \<and> (\<forall>k. pinned w k)"

lemma matches_own_lease [simp]: "matches_lease (Some (dl_target d)) (dl_target d)"
  by (simp add: matches_lease_def sameSessionExecutionTarget_def)

section \<open>Steps that only drop leases\<close>

definition shrinks :: "target_world \<Rightarrow> target_world \<Rightarrow> bool" where
  \<comment> \<open>actors are forgotten and leases dropped, nothing else the invariant sees changes\<close>
  "shrinks w w' \<longleftrightarrow> tw_restoring w' = tw_restoring w \<and> tw_sessions w' = tw_sessions w \<and>
     length (tw_heap w') = length (tw_heap w) \<and> (obj_wf (tw_actors w) \<longrightarrow> obj_wf (tw_actors w')) \<and>
     (\<forall>k a. obj_get (tw_actors w') k = Some a \<longrightarrow> obj_get (tw_actors w) k = Some a) \<and>
     (\<forall>a. ac_dispatch (the_actor w' a) \<in> {ac_dispatch (the_actor w a), None})"

lemma shrinks_refl [simp]: "shrinks w w"
  by (simp add: shrinks_def)

lemma shrinks_trans: "shrinks w v \<Longrightarrow> shrinks v u \<Longrightarrow> shrinks w u"
  unfolding shrinks_def by (metis insert_iff singletonD)

lemma shrinks_upd: "(\<And>x. ac_dispatch (f x) \<in> {ac_dispatch x, None}) \<Longrightarrow> shrinks w (upd_actor a f w)"
proof -
  assume f: "\<And>x. ac_dispatch (f x) \<in> {ac_dispatch x, None}"
  have "ac_dispatch (the_actor (upd_actor a f w) b) \<in> {ac_dispatch (the_actor w b), None}" for b
    using f by (cases "a < length (tw_heap w)"; cases "b = a") (simp_all add: the_actor_upd the_actor_other out_of_heap)
  then show ?thesis by (simp add: shrinks_def)
qed

lemma shrinks_mild: "mild f \<Longrightarrow> shrinks w (upd_actor a f w)"
  by (rule shrinks_upd) (simp add: mild_def)

lemma shrinks_aside:
  "tw_heap w' = tw_heap w \<Longrightarrow> tw_actors w' = tw_actors w \<Longrightarrow> tw_sessions w' = tw_sessions w \<Longrightarrow>
    tw_restoring w' = tw_restoring w \<Longrightarrow> shrinks w w'"
  by (simp add: shrinks_def the_actor_def)

lemma shrinks_forget: "shrinks w (w\<lparr>tw_actors := obj_del k (tw_actors w)\<rparr>)"
  by (auto simp: shrinks_def the_actor_def split: if_splits)

lemma shrinks_settle_all: "shrinks w (settle_all is out w)"
  by (rule shrinks_aside) simp_all

lemma shrinks_listeners: "shrinks w (notifyDispatchReleaseListeners a w)"
proof -
  have "shrinks w ((upd_actor a (\<lambda>x. x\<lparr>ac_listeners := []\<rparr>) w)\<lparr>tw_notified := n\<rparr>)" for n
    by (rule shrinks_trans [OF shrinks_mild shrinks_aside]) simp_all
  then show ?thesis by (simp add: notifyDispatchReleaseListeners_def Let_def)
qed

lemma shrinks_drain: "shrinks w (drain a w)"
  by (auto simp: drain_def Let_def shrinks_listeners split: option.split intro: shrinks_upd)

lemma shrinks_after_release: "shrinks w (after_release a token w)"
proof -
  have o: "shrinks w (open_gate token w)" by (rule shrinks_aside) (simp_all add: open_gate_def)
  have "shrinks w ((open_gate token w)\<lparr>tw_microtasks := q\<rparr>)" for q
    by (rule shrinks_trans [OF o shrinks_aside]) simp_all
  then show ?thesis using shrinks_trans [OF o shrinks_drain] by (simp add: after_release_def Let_def)
qed

lemma shrinks_transition_safe: "shrinks w (transition_safe a e w)"
  unfolding transition_safe_def by (rule shrinks_mild) simp

lemma shrinks_clear_lease: "shrinks w (clear_lease a w)"
  unfolding clear_lease_def by (rule shrinks_upd) simp

lemma shrinks_cancel: "shrinks w (cancelSessionTarget k w)"
proof (cases "obj_get (tw_actors w) k")
  case (Some a)
  let ?w1 = "transition_safe a SessionRemoved (upd_actor a (\<lambda>x. x\<lparr>ac_cancelled := True\<rparr>) w)"
  let ?w3 = "upd_actor a (\<lambda>x. x\<lparr>ac_latest := None, ac_selection := None, ac_deferredSelection := None,
     ac_deferredMutation := None\<rparr>) (settle_all (pending_of (the_actor w a)) SessionMissingOutcome ?w1)"
  have "shrinks w ?w1" by (rule shrinks_trans [OF shrinks_mild shrinks_transition_safe]) simp
  then have w3: "shrinks w ?w3"
    by (rule shrinks_trans [OF _ shrinks_trans [OF shrinks_settle_all shrinks_upd]]) simp
  then have "shrinks w (after_release a t (clear_lease a ?w3))" for t
    by (rule shrinks_trans [OF _ shrinks_trans [OF shrinks_clear_lease shrinks_after_release]])
  then show ?thesis
    using w3 shrinks_trans [OF _ shrinks_forget] Some
    by (simp add: cancelSessionTarget_def Let_def split: option.split)
qed (simp add: cancelSessionTarget_def)

lemma shrinks_cancel_missing: "shrinks w (cancel_missing ks w)"
  by (induction ks w rule: cancel_missing.induct) (auto intro: shrinks_trans shrinks_cancel)

lemma shrinks_registered: "shrinks w w' \<Longrightarrow> registered w \<Longrightarrow> registered w'"
  unfolding shrinks_def registered_def by metis

lemma shrinks_pinned: "shrinks w w' \<Longrightarrow> pinned w k \<Longrightarrow> pinned w' k"
  unfolding shrinks_def pinned_def by (metis insertE option.distinct(1) singletonD)

lemma shrinks_inv: "shrinks w w' \<Longrightarrow> lease_inv w \<Longrightarrow> lease_inv w'"
  using shrinks_registered shrinks_pinned by (simp add: lease_inv_def)

section \<open>A notification enforces the leases\<close>

lemma put_session_get:
  "obj_get (tw_sessions (put_session k f w)) k' =
    (if k' = k then map_option f (obj_get (tw_sessions w) k) else obj_get (tw_sessions w) k')"
  by (auto simp: put_session_def split: option.split)

lemma put_session_fields [simp]:
  "tw_heap (put_session k f w) = tw_heap w" "tw_actors (put_session k f w) = tw_actors w"
  "tw_restoring (put_session k f w) = tw_restoring w" "tw_ops (put_session k f w) = tw_ops w"
  "the_actor (put_session k f w) a = the_actor w a"
  by (simp_all add: put_session_def the_actor_def split: option.split)

lemma put_session_registered [simp]: "registered (put_session k f w) \<longleftrightarrow> registered w"
  by (simp add: registered_def)

lemma enforce_registered: "registered w \<Longrightarrow> registered (enforce_lease k a w)"
  by (auto simp: enforce_lease_def Let_def split: option.split
      intro!: shrinks_registered [OF shrinks_cancel_missing] shrinks_registered [OF shrinks_mild])

lemma shrinks_sessions: "shrinks w w' \<Longrightarrow> tw_sessions w' = tw_sessions w"
  by (simp add: shrinks_def)

lemma enforce_sessions:
  "k' \<noteq> k \<Longrightarrow> obj_get (tw_sessions (enforce_lease k a w)) k' = obj_get (tw_sessions w) k'"
  by (auto simp: enforce_lease_def Let_def put_session_get shrinks_sessions [OF shrinks_cancel_missing]
      split: option.split)

lemma enforce_pins_own:
  assumes "obj_get (tw_actors w) k = Some a"
  shows "pinned (enforce_lease k a w) k"
proof (cases "ac_dispatch (the_actor w a)")
  case None
  then show ?thesis using assms by (simp add: enforce_lease_def pinned_def)
next
  case (Some d)
  let ?w1 = "\<lambda>m. upd_actor a (\<lambda>x. x\<lparr>ac_deferredMutation := m\<rparr>) w"
  show ?thesis
  proof (cases "matches_lease (Option.bind (obj_get (tw_sessions w) k) sn_target) (dl_target d)")
    case True
    then show ?thesis using Some assms by (auto simp: enforce_lease_def pinned_def)
  next
    case False
    have "pinned (put_session k (lease_session d) (?w1 m)) k" for m
    proof -
      have "shrinks w (?w1 m)" by (rule shrinks_mild) simp
      then have "ac_dispatch (the_actor (?w1 m) a) \<in> {Some d, None}"
        using Some unfolding shrinks_def by metis
      then show ?thesis
        using assms by (auto simp: pinned_def put_session_get lease_session_def)
    qed
    then show ?thesis
      using False Some assms by (simp add: enforce_lease_def Let_def shrinks_pinned [OF shrinks_cancel_missing])
  qed
qed

lemma enforce_drops:
  "(\<forall>k' b. obj_get (tw_actors (enforce_lease k a w)) k' = Some b \<longrightarrow> obj_get (tw_actors w) k' = Some b) \<and>
    (\<forall>b. ac_dispatch (the_actor (enforce_lease k a w) b) \<in> {ac_dispatch (the_actor w b), None})"
proof -
  have "(\<forall>k' b. obj_get (tw_actors (cancel_missing ks (put_session k g (upd_actor a (\<lambda>x. x\<lparr>ac_deferredMutation := m\<rparr>) w)))) k' = Some b
        \<longrightarrow> obj_get (tw_actors w) k' = Some b) \<and>
      (\<forall>b. ac_dispatch (the_actor (cancel_missing ks (put_session k g (upd_actor a (\<lambda>x. x\<lparr>ac_deferredMutation := m\<rparr>) w))) b)
        \<in> {ac_dispatch (the_actor w b), None})" (is "?P (cancel_missing ks (put_session k g ?v))") for ks g m
  proof -
    have "?P ?v" using shrinks_mild [of "\<lambda>x. x\<lparr>ac_deferredMutation := m\<rparr>" w a] by (simp add: shrinks_def)
    then have "?P (put_session k g ?v)" by simp
    then show ?thesis
      using shrinks_cancel_missing [of "put_session k g ?v" ks] unfolding shrinks_def by (metis insert_iff singletonD)
  qed
  then show ?thesis by (simp add: enforce_lease_def Let_def split: option.split)
qed

lemma enforce_pinned: "k' \<noteq> k \<Longrightarrow> pinned w k' \<Longrightarrow> pinned (enforce_lease k a w) k'"
  using enforce_drops [of k a w] enforce_sessions [of k' k a w]
  unfolding pinned_def by (metis insertE option.distinct(1) singletonD)


lemma enforce_pins:
  assumes "\<forall>b. obj_get (tw_actors w) k = Some b \<longrightarrow> b = a"
  shows "pinned (enforce_lease k a w) k"
proof (cases "obj_get (tw_actors w) k")
  case None
  then show ?thesis by (simp add: enforce_lease_def pinned_def)
next
  case (Some b)
  then show ?thesis using assms enforce_pins_own by simp
qed

lemma enforce_all_pins:
  "\<forall>(j, a)\<in>set ks. \<forall>b. obj_get (tw_actors w) j = Some b \<longrightarrow> b = a \<Longrightarrow> k \<in> fst ` set ks \<or> pinned w k \<Longrightarrow>
    pinned (enforce_leases ks w) k"
proof (induction ks w rule: enforce_leases.induct)
  case (2 j a ks w)
  let ?v = "enforce_lease j a w"
  have "pinned ?v j" using 2(2) by (intro enforce_pins) auto
  then have "k \<in> fst ` set ks \<or> pinned ?v k" using 2(3) enforce_pinned [of k j w a] by (cases "k = j") auto
  moreover have dropped: "obj_get (tw_actors ?v) j' = Some b \<Longrightarrow> obj_get (tw_actors w) j' = Some b" for j' b
    using enforce_drops [of j a w] by blast
  have "\<forall>(j, a)\<in>set ks. \<forall>b. obj_get (tw_actors ?v) j = Some b \<longrightarrow> b = a"
    using 2(2) by (auto dest!: dropped)
  ultimately show ?case using 2(1) by simp
qed simp

lemma enforce_all_registered: "registered w \<Longrightarrow> registered (enforce_leases ks w)"
  by (induction ks w rule: enforce_leases.induct) (auto intro: enforce_registered)

lemma notify_enforces: "registered w \<Longrightarrow> lease_inv (notify w)"
proof -
  assume w: "registered w"
  let ?v = "enforce_leases (tw_actors w) w"
  have eq: "notify w = cancel_missing (tw_actors ?v) ?v" using w by (simp add: notify_def registered_def Let_def)
  have "pinned ?v k" for k
  proof (rule enforce_all_pins)
    show "\<forall>(j, a)\<in>set (tw_actors w). \<forall>b. obj_get (tw_actors w) j = Some b \<longrightarrow> b = a"
      using w by (auto simp: registered_def obj_get_in [symmetric])
    show "k \<in> fst ` set (tw_actors w) \<or> pinned w k"
      using w by (cases "obj_get (tw_actors w) k") (force simp: pinned_def registered_def obj_get_in)+
  qed
  then have "lease_inv ?v" using enforce_all_registered w by (simp add: lease_inv_def)
  then show ?thesis unfolding eq by (rule shrinks_inv [OF shrinks_cancel_missing])
qed

section \<open>A second frame\<close>

definition calm :: "target_world \<Rightarrow> target_world \<Rightarrow> bool" where
  "calm w w' \<longleftrightarrow> (lease_inv w \<longrightarrow> lease_inv w')"

lemma calm_trans: "calm w v \<Longrightarrow> calm v u \<Longrightarrow> calm w u"
  by (simp add: calm_def)

lemma shrinks_calm: "shrinks w w' \<Longrightarrow> calm w w'"
  using shrinks_inv by (simp add: calm_def)

lemma calm_settle: "calm w (settleOperation i out w)"
  by (rule shrinks_calm, rule shrinks_aside) simp_all

lemma calm_actor: "calm w (snd (actorFor k w))"
proof (cases "obj_get (tw_actors w) k")
  case (Some a)
  then show ?thesis by (simp add: actorFor_def shrinks_calm shrinks_mild)
next
  case None
  let ?w = "snd (actorFor k w)" and ?n = "length (tw_heap w)"
  have w: "obj_get (tw_actors ?w) j = (if j = k then Some ?n else obj_get (tw_actors w) j)"
    "tw_sessions ?w = tw_sessions w" "length (tw_heap ?w) = Suc ?n" "tw_restoring ?w = tw_restoring w"
    "tw_actors ?w = obj_set k ?n (tw_actors w)" for j
    using None by (simp_all add: actorFor_def)
  have old: "b < ?n \<Longrightarrow> the_actor ?w b = the_actor w b" for b
    using None by (simp add: actorFor_def the_actor_def nth_append)
  have new: "ac_dispatch (the_actor ?w ?n) = None"
    using None by (simp add: actorFor_def the_actor_def new_actor_def)
  have "lease_inv ?w" if i: "lease_inv w"
  proof -
    have r: "\<And>j a. obj_get (tw_actors w) j = Some a \<Longrightarrow> a < ?n" using i by (simp add: lease_inv_def registered_def)
    have "registered ?w"
      using i w r unfolding registered_def lease_inv_def by (auto dest: r simp: less_Suc_eq)
    moreover have "pinned ?w j" for j
    proof -
      have "pinned w j" using i by (simp add: lease_inv_def)
      then show ?thesis using w(1,2) new old r by (auto simp: pinned_def split: if_splits)
    qed
    ultimately show ?thesis by (simp add: lease_inv_def)
  qed
  then show ?thesis by (simp add: calm_def)
qed

section \<open>The steps of the loop\<close>

text \<open>
  What holds across the primitive steps and across whatever only drops leases holds across the loop of
  an actor: its requests, their answers and its turns.
\<close>

locale loop_frame = target_frame +
  assumes shrunk: "shrinks w w' \<Longrightarrow> R w w'"
begin

lemma loop_request: "R w (snd (requestSessionTargetTransition rq w))"
proof (rule after_actor [of "rq_sessionId rq"])
  fix a w1
  assume e: "actorFor (rq_sessionId rq) w = (a, w1)"
  obtain i w2 where n: "next_operation a rq w1 = (i, w2)" by (metis surj_pair)
  have w2: "R w1 w2"
  proof -
    have u: "shrinks w1 (upd_actor a (\<lambda>x. x\<lparr>ac_sequence := ac_sequence x + 1\<rparr>) w1)" (is "shrinks w1 ?u")
      by (rule shrinks_upd) simp
    moreover have "shrinks ?u w2"
      using n by (auto simp: next_operation_def Let_def split: option.splits intro!: shrinks_aside)
    ultimately show ?thesis using shrinks_trans shrunk by blast
  qed
  have p: "R v (put_request a p v)" for v p
  proof -
    have s: "shrinks v ((supersede_latest a v)\<lparr>tw_ops := q\<rparr>)" for q
      by (rule shrinks_aside) (auto simp: supersede_latest_def split: option.split)
    have "shrinks v (upd_actor a (\<lambda>x. x\<lparr>ac_latest := l\<rparr>) ((supersede_latest a v)\<lparr>tw_ops := q\<rparr>))" for l q
      by (rule shrinks_trans [OF s shrinks_upd]) simp
    then show ?thesis unfolding put_request_def by (intro shrunk shrinks_trans [OF _ shrinks_drain])
  qed
  show "R w1 (snd (requestSessionTargetTransition rq w))"
    using e n w2 by (auto simp: requestSessionTargetTransition_def split: sum.split
        intro: trans [OF trans [OF w2 transition] p])
qed

lemma loop_transit: "R w (snd (transitionSessionTarget rq w))"
proof (rule after_actor [of "rq_sessionId rq"])
  fix a w1
  assume e: "actorFor (rq_sessionId rq) w = (a, w1)"
  have "R w1 (w1\<lparr>tw_waiting := q\<rparr>)" for q by (rule aside) simp_all
  then show "R w1 (snd (transitionSessionTarget rq w))"
    using e loop_request by (simp add: transitionSessionTarget_def split: option.split)
qed

lemma loop_resume: "R w (resume_waiting n w)"
proof -
  have "R w (w\<lparr>tw_waiting := q\<rparr>)" for q by (rule aside) simp_all
  then show ?thesis using trans loop_request same by (simp add: resume_waiting_def) blast
qed

lemma loop_pc: "R w (upd_actor a (\<lambda>x. x\<lparr>ac_pc := pc\<rparr>) w)"
  by (rule shrunk, rule shrinks_upd) simp

lemma loop_done: "R w v \<Longrightarrow> R w (execution_done a i v)"
  unfolding execution_done_def using loop_pc by (rule trans [rotated])

lemma loop_preparing: "R w v \<Longrightarrow> R w ((upd_actor a (\<lambda>x. x\<lparr>ac_pc := pc\<rparr>) v)\<lparr>tw_prepared := p\<rparr>)"
  by (rule trans [OF _ trans [OF loop_pc aside]]) simp_all

lemma loop_effective: "R w (apply_effective a i eff w)"
proof -
  have f: "R w (execution_done a i (execution_failed a i err w))" for err
    by (rule loop_done) (rule failed)
  have t: "R w (execution_done a i u)" if "transition a e w = Inr w1" "R w1 u" for e w1 u
    by (rule loop_done) (rule trans [OF transition [OF that(1)] that(2)])
  have p: "R w (transition_safe a e' w1)" if "transition a e w = Inr w1" for e e' w1
    using transition [OF that] transition_safe by (rule trans)
  show ?thesis
    unfolding apply_effective_def Let_def
    by (auto split: sum.split intro: f p loop_preparing t [OF _ failed] t [OF _ superseded]
        t [OF _ trans [OF transition settle]]
        t [OF _ trans [OF transition_safe failed]])
qed

lemma loop_resolved: "R w (on_resolved a ans w)"
  by (auto simp: on_resolved_def Let_def split: drain_pc.split sum.split
      intro!: loop_done failed superseded loop_effective same)

lemma loop_prepared: "R w (on_prepared a ans w)"
  by (auto simp: on_prepared_def Let_def split: drain_pc.split sum.split
      intro!: loop_done failed superseded same trans [OF transition_safe failed]
        trans [OF transition_safe acknowledge]
        trans [OF trans [OF transition_safe transition_safe] settle])

lemma loop_ended: "R w (on_done a w)"
proof -
  have "R w (drain a (upd_actor a (\<lambda>x. x\<lparr>ac_latest := l x, ac_current := None, ac_pc := PcIdle\<rparr>) w))" for l
    by (rule shrunk, rule shrinks_trans [OF shrinks_upd shrinks_drain]) simp
  then show ?thesis by (simp add: on_done_def same split: drain_pc.split)
qed

lemma microtask_run:
  "R w (case tw_microtasks w of [] \<Rightarrow> w | a # as \<Rightarrow> notifyDispatchReleaseListeners a (w\<lparr>tw_microtasks := as\<rparr>))"
proof -
  have "R w (notifyDispatchReleaseListeners a (w\<lparr>tw_microtasks := as\<rparr>))" for a as
    by (rule trans [OF microtask listeners])
  then show ?thesis by (simp add: same split: list.split)
qed

lemma loop_cancel: "R w (cancelSessionTarget k w)"
  by (rule shrunk) (rule shrinks_cancel)

end

interpretation calm: loop_frame calm
proof unfold_locales
  show "calm w (notify (put_session k g w))" for w k g
    using notify_enforces [of "put_session k g w"] by (simp add: calm_def lease_inv_def)
  show "calm w w'" if "tw_heap w' = tw_heap w" "tw_actors w' = tw_actors w" "tw_sessions w' = tw_sessions w"
    "tw_restoring w' = tw_restoring w" for w w'
    using that by (intro shrinks_calm shrinks_aside)
  show "calm w w" for w by (simp add: calm_def)
  show "calm w (upd_actor a f w)" if "mild f" for f w a using that by (intro shrinks_calm shrinks_mild)
  show "calm w (drain a w)" for w a by (rule shrinks_calm) (rule shrinks_drain)
  show "calm w w'" if "shrinks w w'" for w w' using that by (rule shrinks_calm)
  show "calm w u" if "calm w v" "calm v u" for w v u using that by (rule calm_trans)
qed (rule calm_settle calm_actor)+

definition tidy :: "target_world \<Rightarrow> target_world \<Rightarrow> bool" where
  \<comment> \<open>the registry stays as it has to be\<close>
  "tidy w w' \<longleftrightarrow> (registered w \<longrightarrow> registered w')"

lemma notify_registered: "registered w \<Longrightarrow> registered (notify w)"
  using notify_enforces by (simp add: lease_inv_def)

lemma actor_registered: "registered w \<Longrightarrow> registered (snd (actorFor k w))"
  by (auto simp: actorFor_def registered_def upd_actor_def less_Suc_eq split: option.splits if_splits)

interpretation tidy: loop_frame tidy
proof unfold_locales
  show "tidy w (notify (put_session k g w))" for w k g by (simp add: tidy_def notify_registered)
  show "tidy w (snd (actorFor k w))" for w k by (simp add: tidy_def actor_registered)
  show "tidy w w'" if "shrinks w w'" for w w' using that shrinks_registered by (simp add: tidy_def)
  show "tidy w (settleOperation i out w)" for w i out by (simp add: tidy_def registered_def)
  show "tidy w (drain a w)" for w a using shrinks_drain shrinks_registered by (simp add: tidy_def) blast
  show "tidy w w" for w by (simp add: tidy_def)
  show "tidy w u" if "tidy w v" "tidy v u" for w v u using that by (simp add: tidy_def)
  show "tidy w (upd_actor a f w)" if "mild f" for f w a by (simp add: tidy_def registered_def)
  show "tidy w w'" if "tw_heap w' = tw_heap w" "tw_actors w' = tw_actors w" "tw_restoring w' = tw_restoring w" for w w'
    using that by (simp add: tidy_def registered_def)
qed

lemma calm_store: "calm w (notify (w\<lparr>tw_sessions := s\<rparr>))"
  using notify_enforces [of "w\<lparr>tw_sessions := s\<rparr>"] by (simp add: calm_def lease_inv_def registered_def)

section \<open>Taking and changing a lease\<close>

lemma lease_invI:
  assumes "registered w" "\<And>k a d s. obj_get (tw_actors w) k = Some a \<Longrightarrow> ac_dispatch (the_actor w a) = Some d \<Longrightarrow>
    obj_get (tw_sessions w) k = Some s \<Longrightarrow> matches_lease (sn_target s) (dl_target d)"
  shows "lease_inv w"
  using assms by (auto simp: lease_inv_def pinned_def)

lemma lease_invD:
  assumes "lease_inv w" "obj_get (tw_actors w) k = Some a" "ac_dispatch (the_actor w a) = Some d"
    "obj_get (tw_sessions w) k = Some s"
  shows "matches_lease (sn_target s) (dl_target d)"
  using assms by (auto simp: lease_inv_def pinned_def)

lemma one_key:
  "registered w \<Longrightarrow> obj_get (tw_actors w) k = Some a \<Longrightarrow> obj_get (tw_actors w) k' = Some a \<Longrightarrow> k = k'"
  by (auto simp: registered_def)

lemma put_lease_inv:
  assumes w: "lease_inv w" and k: "obj_get (tw_actors w) k = Some a"
    and v: "registered v" "tw_actors v = tw_actors w" "\<And>b. b \<noteq> a \<Longrightarrow> the_actor v b = the_actor w b"
      "\<And>k'. k' \<noteq> k \<Longrightarrow> obj_get (tw_sessions v) k' = obj_get (tw_sessions w) k'"
    and own: "\<And>d s. ac_dispatch (the_actor v a) = Some d \<Longrightarrow> obj_get (tw_sessions v) k = Some s \<Longrightarrow>
      matches_lease (sn_target s) (dl_target d)"
  shows "lease_inv v"
proof (rule lease_invI [OF v(1)])
  fix k' b d s
  assume b: "obj_get (tw_actors v) k' = Some b" "ac_dispatch (the_actor v b) = Some d"
    "obj_get (tw_sessions v) k' = Some s"
  show "matches_lease (sn_target s) (dl_target d)"
  proof (cases "b = a")
    case True
    then have "k' = k" using one_key [OF v(1)] b(1) k v(2) by simp
    then show ?thesis using own b True by simp
  next
    case False
    then have "k' \<noteq> k" using b(1) k v(2) by auto
    then show ?thesis using b False v(2-4) lease_invD [OF w] by simp
  qed
qed

lemma upd_actor_registered [simp]: "registered (upd_actor a f w) \<longleftrightarrow> registered w"
  by (simp add: registered_def)

lemma registered_aside [simp]:
  "registered (w\<lparr>tw_nextToken := n\<rparr>) \<longleftrightarrow> registered w"
  by (simp add: registered_def)

lemma actorFor_get: "actorFor k w = (a, w') \<Longrightarrow> obj_get (tw_actors w') k = Some a"
  by (auto simp: actorFor_def split: option.splits)

lemma registered_bound: "registered w \<Longrightarrow> obj_get (tw_actors w) k = Some a \<Longrightarrow> a < length (tw_heap w)"
  by (simp add: registered_def)

lemma take_lease:
  assumes v: "lease_inv v" and get: "obj_get (tw_actors v) k = Some a" and s: "obj_get (tw_sessions v) k = Some s"
    and f: "\<And>x. ac_dispatch (f x) = Some d" and v1: "v1 = (upd_actor a f v)\<lparr>tw_nextToken := n\<rparr>"
  shows "lease_inv (put_session k (lease_session d) v1)"
    and "matches_lease (sn_target s) (dl_target d) \<Longrightarrow> lease_inv v1"
proof -
  have r: "registered v" using v by (simp add: lease_inv_def)
  have a: "ac_dispatch (the_actor v1 a) = Some d"
    using registered_bound [OF r get] f by (simp add: v1 the_actor_def upd_actor_def)
  have other: "b \<noteq> a \<Longrightarrow> the_actor v1 b = the_actor v b" for b
    by (simp add: v1 the_actor_def upd_actor_def)
  have r1: "registered v1" "tw_actors v1 = tw_actors v" "tw_sessions v1 = tw_sessions v"
    using r by (simp_all add: v1)
  show "lease_inv v1" if "matches_lease (sn_target s) (dl_target d)"
    by (rule put_lease_inv [OF v get r1(1,2) other]) (use that a r1 s in simp_all)
  show "lease_inv (put_session k (lease_session d) v1)"
    by (rule put_lease_inv [OF v get]) (use a r1 other in \<open>auto simp: put_session_get lease_session_def\<close>)
qed

lemma calm_acquire: "calm w (snd (acquireSessionDispatchTarget k override w))"
proof (rule calm.after_actor [of k])
  fix a v
  assume e: "actorFor k w = (a, v)"
  have l: "calm v ((upd_actor a (\<lambda>x. x\<lparr>ac_listeners := l x\<rparr>) v)\<lparr>tw_nextToken := n\<rparr>)" for l n
    by (rule calm_trans [OF calm.mild calm.aside]) simp_all
  note get = actorFor_get [OF e]
  have "lease_inv (snd (acquireSessionDispatchTarget k override w))" if v: "lease_inv v"
  proof (cases "ac_dispatch (the_actor v a)")
    case (Some d)
    then show ?thesis using e l v by (simp add: acquireSessionDispatchTarget_def calm_def Let_def)
  next
    case free: None
    show ?thesis
    proof (cases "obj_get (tw_sessions v) k")
      case (Some s)
      note take = take_lease [OF v get Some _ refl]
      have m: "matches_lease (sn_target s) t"
        if "or_option override (sn_target s) = Some t" "override = None \<or> sameSessionExecutionTarget (sn_target s) override" for t
        using that by (cases override; cases "sn_target s") (auto simp: matches_lease_def sameSessionExecutionTarget_def)
      show ?thesis
        using e free Some v take m
        by (auto simp: acquireSessionDispatchTarget_def Let_def split: option.split
            intro!: shrinks_inv [OF shrinks_cancel_missing])
    qed (use e v free in \<open>simp add: acquireSessionDispatchTarget_def\<close>)
  qed
  then show "calm v (snd (acquireSessionDispatchTarget k override w))" by (simp add: calm_def)
qed

lemma upd_lease_actor:
  "b \<noteq> a \<Longrightarrow> the_actor (upd_lease a token f w) b = the_actor w b"
  "a < length (tw_heap w) \<Longrightarrow> ac_dispatch (the_actor (upd_lease a token f w) a) =
    (case ac_dispatch (the_actor w a) of
       Some d \<Rightarrow> if dl_token d = token then Some (f d) else Some d | None \<Rightarrow> None)"
  by (simp_all add: upd_lease_def the_actor_other the_actor_upd)

lemma upd_lease_fields [simp]:
  "tw_actors (upd_lease a token f w) = tw_actors w" "tw_sessions (upd_lease a token f w) = tw_sessions w"
  "registered (upd_lease a token f w) \<longleftrightarrow> registered w" "tw_restoring (upd_lease a token f w) = tw_restoring w"
  by (simp_all add: upd_lease_def)

definition holds_lease :: "string \<Rightarrow> nat \<Rightarrow> nat \<Rightarrow> target_world \<Rightarrow> bool" where
  \<comment> \<open>the session's actor holds the lease\<close>
  "holds_lease k a token w \<longleftrightarrow> obj_get (tw_actors w) k = Some a \<and>
     map_option dl_token (ac_dispatch (the_actor w a)) = Some token"

lemma upd_lease_inv:
  assumes w: "lease_inv w" and h: "holds_lease k a token w"
    and s: "\<And>d s. obj_get (tw_sessions w) k = Some s \<Longrightarrow> ac_dispatch (the_actor w a) = Some d \<Longrightarrow>
      matches_lease (sn_target s) (dl_target (f d))"
  shows "lease_inv (upd_lease a token f w)"
proof (rule put_lease_inv [OF w])
  show k: "obj_get (tw_actors w) k = Some a" using h by (simp add: holds_lease_def)
  have r: "registered w" using w by (simp add: lease_inv_def)
  then show "registered (upd_lease a token f w)" by simp
  show "matches_lease (sn_target s') (dl_target d)"
    if "ac_dispatch (the_actor (upd_lease a token f w) a) = Some d"
      "obj_get (tw_sessions (upd_lease a token f w)) k = Some s'" for d s'
    using that s h registered_bound [OF r k] by (auto simp: upd_lease_actor(2) holds_lease_def)
qed (simp_all add: upd_lease_actor(1))

lemma shrinks_unrestored:
  "shrinks (v\<lparr>tw_restoring := b\<rparr>) x \<Longrightarrow> tw_restoring v = c \<Longrightarrow> shrinks v (x\<lparr>tw_restoring := c\<rparr>)"
  by (simp add: shrinks_def the_actor_def)

lemma replaced_matches:
  "canonical t \<Longrightarrow> matches_lease (sn_target (withExecutionTarget s (Some t) src)) t"
  by (auto simp: withExecutionTarget_def Let_def matches_lease_def sameSessionExecutionTarget_def)

lemma publish_inv:
  assumes w: "lease_inv w" and h: "holds_lease k a token w" and t: "canonical t"
    and p: "publish a token k t w = (r, w')"
  shows "lease_inv w'"
proof -
  let ?u = "upd_lease a token (\<lambda>d. d\<lparr>dl_target := t\<rparr>) w"
  have reg: "registered w" and k: "obj_get (tw_actors w) k = Some a"
    using w h by (auto simp: lease_inv_def holds_lease_def)
  have own: "dl_target d = t" if "ac_dispatch (the_actor ?u a) = Some d" for d
    using that h registered_bound [OF reg k] by (auto simp: upd_lease_actor(2) holds_lease_def)
  have inv: "lease_inv v" if "tw_actors v = tw_actors w" "registered v" "\<And>b. the_actor v b = the_actor ?u b"
    "\<And>k'. k' \<noteq> k \<Longrightarrow> obj_get (tw_sessions v) k' = obj_get (tw_sessions w) k'"
    "\<And>s. obj_get (tw_sessions v) k = Some s \<Longrightarrow> matches_lease (sn_target s) t" for v
    by (rule put_lease_inv [OF w k that(2,1)]) (use that own in \<open>auto simp: upd_lease_actor(1)\<close>)
  let ?x = "write_target k (Some t) Ui (?u\<lparr>tw_restoring := True\<rparr>)"
  have w': "w' = ?x\<lparr>tw_restoring := False\<rparr>"
    using p t by (auto simp: publish_def replaceSessionExecutionTarget_def normalize_opt_def canonical_normalize
        map_ok_def Let_def)
  have nr: "tw_restoring w = False" using reg by (simp add: registered_def)
  show ?thesis
  proof (cases "obj_get (tw_sessions w) k")
    case None
    then have "w' = ?u" using w' nr by (simp add: write_target_def)
    then show ?thesis using None reg by (auto intro!: inv)
  next
    case (Some s)
    let ?s = "withExecutionTarget s (Some t) Ui"
    note m = replaced_matches [OF t, of s Ui]
    show ?thesis
    proof (cases "?s = s")
      case True
      then have "w' = ?u" using Some w' nr by (simp add: write_target_def)
      then show ?thesis using Some m True reg by (auto intro!: inv)
    next
      case False
      let ?v = "put_session k (\<lambda>_. ?s) ?u"
      have "put_session k (\<lambda>_. ?s) (?u\<lparr>tw_restoring := True\<rparr>) = ?v\<lparr>tw_restoring := True\<rparr>"
        using Some by (simp add: put_session_def)
      then have "?x = cancel_missing (tw_actors ?v) (?v\<lparr>tw_restoring := True\<rparr>)"
        using Some False by (simp add: write_target_def notify_def Let_def)
      then have "shrinks ?v w'"
        unfolding w' using shrinks_cancel_missing nr by (intro shrinks_unrestored) simp_all
      moreover have "lease_inv ?v"
        by (rule inv) (use reg m Some in \<open>auto simp: put_session_get\<close>)
      ultimately show ?thesis by (rule shrinks_inv)
    qed
  qed
qed

lemma lease_reasoning:
  assumes w: "lease_inv w"
  shows "lease_inv (upd_lease a token (\<lambda>d. d\<lparr>dl_reasoning := x\<rparr>) w)"
proof (cases "a < length (tw_heap w)")
  case True
  show ?thesis
  proof (rule lease_invI)
    fix k b d s
    assume b: "obj_get (tw_actors (upd_lease a token (\<lambda>d. d\<lparr>dl_reasoning := x\<rparr>) w)) k = Some b"
      "ac_dispatch (the_actor (upd_lease a token (\<lambda>d. d\<lparr>dl_reasoning := x\<rparr>) w) b) = Some d"
      "obj_get (tw_sessions (upd_lease a token (\<lambda>d. d\<lparr>dl_reasoning := x\<rparr>) w)) k = Some s"
    then obtain d' where "ac_dispatch (the_actor w b) = Some d'" "dl_target d' = dl_target d"
      using True by (cases "b = a") (auto simp: upd_lease_actor split: option.splits if_splits)
    then show "matches_lease (sn_target s) (dl_target d)" using b lease_invD [OF w] by force
  qed (use w in \<open>simp add: lease_inv_def\<close>)
next
  case False
  then show ?thesis using w by (simp add: upd_lease_def out_of_heap)
qed

lemma transition_lease_keeps:
  assumes w: "lease_inv w" and t: "canonical (rq_target rq)"
  shows "lease_inv (snd (transitionSessionDispatchTarget rq token w))"
proof -
  let ?k = "rq_sessionId rq"
  have p: "lease_inv v"
    if "obj_get (tw_actors w) ?k = Some a" "ac_dispatch (the_actor w a) = Some d" "dl_token d = token"
      "publish a token ?k (rq_target rq) (upd_actor a (\<lambda>x. x\<lparr>ac_deferredMutation := None\<rparr>)
        (upd_lease a token (\<lambda>d. d\<lparr>dl_reasoning := None\<rparr>) w)) = (r, v)" for a d r v
  proof (rule publish_inv [OF _ _ t that(4)])
    let ?u = "upd_lease a token (\<lambda>d. d\<lparr>dl_reasoning := None\<rparr>) w"
    have h: "holds_lease ?k a token w" using that by (simp add: holds_lease_def)
    have "lease_inv ?u"
      by (rule upd_lease_inv [OF w h]) (use that lease_invD [OF w that(1)] in simp)
    then show "lease_inv (upd_actor a (\<lambda>x. x\<lparr>ac_deferredMutation := None\<rparr>) ?u)"
      using calm.deferred by (simp add: calm_def)
    have "a < length (tw_heap w)" using w that(1) by (simp add: lease_inv_def registered_def)
    then show "holds_lease ?k a token (upd_actor a (\<lambda>x. x\<lparr>ac_deferredMutation := None\<rparr>) ?u)"
      using that by (simp add: holds_lease_def the_actor_upd upd_lease_def)
  qed
  have q: "lease_inv (v\<lparr>tw_dispatchWaits := x\<rparr>)" if "lease_inv v" for v x
    by (rule shrinks_inv [OF shrinks_aside that]) simp_all
  have s: "lease_inv u" if "lease_inv v" "transitionSessionTarget rq' v = (h, u)" for v rq' h u
    using calm.loop_transit [of v rq'] that by (simp add: calm_def)
  show ?thesis
    using w by (auto simp: transitionSessionDispatchTarget_def Let_def split: option.split prod.split sum.split
        intro!: q intro: p s)
qed

section \<open>Every step keeps the registry\<close>

lemma acquire_registered: "registered w \<Longrightarrow> registered (snd (acquireSessionDispatchTarget k override w))"
proof -
  assume w: "registered w"
  obtain a v where e: "actorFor k w = (a, v)" by (metis surj_pair)
  have v: "registered v" using actor_registered [OF w, of k] e by simp
  have m: "registered u \<Longrightarrow> registered (cancel_missing ks u)" for ks u
    by (rule shrinks_registered [OF shrinks_cancel_missing])
  show ?thesis
    using e v by (auto simp: acquireSessionDispatchTarget_def Let_def split: option.split intro!: m)
qed

definition tidy_but :: "target_world \<Rightarrow> bool" where
  \<comment> \<open>the registry is as it has to be, while a leased target is being written back\<close>
  "tidy_but w \<longleftrightarrow> registered (w\<lparr>tw_restoring := False\<rparr>)"

lemma shrinks_tidy_but: "shrinks w w' \<Longrightarrow> tidy_but w \<Longrightarrow> tidy_but w'"
proof -
  assume "shrinks w w'" and w: "tidy_but w"
  then have "shrinks (w\<lparr>tw_restoring := False\<rparr>) (w'\<lparr>tw_restoring := False\<rparr>)"
    by (simp add: shrinks_def the_actor_def)
  then show ?thesis using w shrinks_registered by (simp add: tidy_but_def)
qed

lemma publish_registered:
  assumes w: "registered w" and p: "publish a token k t w = (r, w')"
  shows "registered w'"
proof -
  let ?u = "(upd_lease a token (\<lambda>d. d\<lparr>dl_target := t\<rparr>) w)\<lparr>tw_restoring := True\<rparr>"
  have u: "tidy_but ?u" using w by (simp add: tidy_but_def registered_def upd_lease_def)
  have n: "tidy_but (notify (put_session k g ?u))" for g
  proof -
    have "tidy_but (put_session k g ?u)"
      using u by (simp add: tidy_but_def registered_def)
    then show ?thesis
      using shrinks_tidy_but [OF shrinks_cancel_missing] by (simp add: notify_def)
  qed
  have "tidy_but (write_target k x Ui ?u)" for x
    using u n by (simp add: write_target_def Let_def split: option.split)
  then have "tidy_but v" if "replaceSessionExecutionTarget k x ?u = Inr v" for x v
    using that by (auto simp: replaceSessionExecutionTarget_def map_ok_def split: sum.splits)
  then show ?thesis
    using p u by (auto simp: publish_def Let_def tidy_but_def split: sum.splits)
qed

lemma transition_lease_registered: "registered w \<Longrightarrow> registered (snd (transitionSessionDispatchTarget rq token w))"
proof -
  assume w: "registered w"
  have t: "registered v \<Longrightarrow> transitionSessionTarget rq' v = (h, u) \<Longrightarrow> registered u" for rq' v h u
    using tidy.loop_transit [of v rq'] by (simp add: tidy_def)
  have q: "registered (v\<lparr>tw_dispatchWaits := x\<rparr>) \<longleftrightarrow> registered v" for v x by (simp add: registered_def)
  show ?thesis
    using w by (auto simp: transitionSessionDispatchTarget_def Let_def q split: option.split prod.split sum.split
        dest!: publish_registered [rotated] intro: t)
qed

lemma finish_registered: "registered w \<Longrightarrow> registered (finish_dispatch_wait n w)"
proof -
  assume w: "registered w"
  then have w': "registered (w\<lparr>tw_dispatchWaits := x\<rparr>)" for x by (simp add: registered_def)
  show ?thesis
    using w w' by (auto simp: finish_dispatch_wait_def discard_observation_def Let_def
        split: option.split target_outcome.split prod.split sum.split dest!: publish_registered [OF w'])
qed

lemma transfer_registered: "registered w \<Longrightarrow> registered (transferSessionTargetOwnership f t w)"
proof (cases "obj_get (tw_actors w) f")
  case (Some a)
  assume w: "registered w"
  let ?w1 = "w\<lparr>tw_actors := obj_del f (tw_actors w)\<rparr>"
  have w1: "registered ?w1" using shrinks_forget w by (rule shrinks_registered)
  have moved: "registered (?w1\<lparr>tw_actors := obj_set t a (tw_actors ?w1)\<rparr>)"
    using w Some by (auto simp: registered_def split: if_splits)
  have settled: "registered (settle_all is out v) \<longleftrightarrow> registered v" for "is" out v
    using shrinks_settle_all by (simp add: registered_def)
  have r: "registered v \<Longrightarrow> registered (release b token v)" for b token v
    using tidy.release [of v b token] by (simp add: tidy_def)
  have m: "registered (v\<lparr>tw_actors := x\<rparr>) \<Longrightarrow> registered ((upd_actor b g v)\<lparr>tw_actors := x\<rparr>)" for v x b g
    by (simp add: registered_def)
  show ?thesis
    using Some w1 moved by (auto simp: transferSessionTargetOwnership_def Let_def settled split: option.split
        intro!: r m)
qed (simp add: transferSessionTargetOwnership_def)

lemmas tidy_steps = tidy.release tidy.listen tidy.unsubscribe tidy.hydrate
  tidy.observe_config tidy.observe_metadata tidy.record_selection tidy.replace_after
  tidy.clear_selection tidy.loop_cancel tidy.microtask_run tidy.loop_transit tidy.loop_resume
  tidy.loop_resolved tidy.loop_prepared tidy.loop_ended

lemma store_registered: "registered w \<Longrightarrow> registered (notify (w\<lparr>tw_sessions := s\<rparr>))"
  by (rule notify_registered) (simp add: registered_def)

interpretation actors: step_system target_step "\<lambda>e w. True" registered
proof unfold_locales
  show "registered (target_step e w)" if "registered w" for e w
    using that by (cases e) (auto simp: acquire_registered transition_lease_registered finish_registered
        transfer_registered store_registered intro: tidy_steps [unfolded tidy_def, rule_format])
qed

lemma initial_registered: "registered (initial_world ss)"
  by (simp add: registered_def initial_world_def)

lemma reachable_registered: "registered (fold target_step es (initial_world ss))"
  by (rule actors.total_run_inv [OF TrueI initial_registered])

section \<open>The steps that keep the leases\<close>

fun keeps_leases :: "target_action \<Rightarrow> bool" where
  \<comment> \<open>all but the end of a change of a leased target and the hand-over of an actor\<close>
  "keeps_leases (TransitionLease rq token) \<longleftrightarrow> canonical (rq_target rq)"
| "keeps_leases (FinishLeaseTransition n) \<longleftrightarrow> False"
| "keeps_leases (TransferOwnership f t) \<longleftrightarrow> False"
| "keeps_leases _ \<longleftrightarrow> True"

fun store_change :: "target_action \<Rightarrow> bool" where
  \<comment> \<open>other code writes to the session store\<close>
  "store_change (WriteSession k s) \<longleftrightarrow> True"
| "store_change (RemoveSession k) \<longleftrightarrow> True"
| "store_change _ \<longleftrightarrow> False"

lemmas calm_steps = calm.release calm.listen calm.unsubscribe calm.hydrate
  calm.observe_config calm.observe_metadata calm.record_selection calm.replace_after
  calm.clear_selection calm.loop_cancel calm_store calm.microtask_run calm_acquire calm.loop_transit
  calm.loop_resume calm.loop_resolved calm.loop_prepared calm.loop_ended

interpretation leases: step_system target_step "\<lambda>e w. keeps_leases e" lease_inv
proof unfold_locales
  show "lease_inv (target_step e w)" if "lease_inv w" "keeps_leases e" for e w
    using that by (cases e) (auto simp: transition_lease_keeps intro: calm_steps [unfolded calm_def, rule_format])
qed

lemma leases_enabled: "list_all keeps_leases es \<Longrightarrow> leases.run_enabled es w"
  by (induction es arbitrary: w) simp_all

lemma initial_leases: "lease_inv (initial_world ss)"
  by (simp add: lease_inv_def pinned_def initial_registered) (simp add: initial_world_def)

lemma store_change_pins: "registered w \<Longrightarrow> store_change e \<Longrightarrow> lease_inv (target_step e w)"
  by (cases e) (auto intro!: notify_enforces simp: registered_def)

lemma leases_from:
  assumes "es = [] \<or> store_change (last es)" "list_all keeps_leases fs"
  shows "lease_inv (fold target_step (es @ fs) (initial_world ss))"
proof -
  have "lease_inv (fold target_step es (initial_world ss))"
  proof (cases es rule: rev_cases)
    case Nil
    then show ?thesis by (simp add: initial_leases)
  next
    case (snoc us e)
    then show ?thesis using assms(1) store_change_pins [OF reachable_registered] by simp
  qed
  then show ?thesis
    using leases.run_inv [OF _ leases_enabled [OF assms(2)]] by (simp add: leases.run_fold)
qed

section \<open>What a notification leaves alone\<close>



lemma registry_upd: "tw_actors (upd_actor a f w) = tw_actors w"
  by simp











section \<open>A release applies what waited\<close>







section \<open>A run with a lease\<close>

definition lease_run :: "target_action list" where
  "lease_run = [AcquireLease ''s1'' None,
     WriteSession ''s1'' \<lparr>sn_target = Some (example_target ''m9''), sn_source = Some Acp, sn_reasoning = None\<rparr>]"

definition lease_world :: target_world where
  "lease_world = fold target_step lease_run (initial_world example_sessions)"

lemma lease_run_keeps: "list_all keeps_leases lease_run"
  by (simp add: lease_run_def)

definition lease_glance :: "target_world \<Rightarrow>
    (string \<times> nat) list \<times> dispatch_lease option list \<times> (string \<times> target_session) list \<times> bool list" where
  "lease_glance w = (tw_actors w, map ac_dispatch (tw_heap w), tw_sessions w,
     map (\<lambda>x. ac_deferredSelection x = None) (tw_heap w))"

definition example_lease :: dispatch_lease where
  "example_lease = \<lparr>dl_token = 0, dl_sessionId = ''s1'', dl_target = example_target ''m0'', dl_source = Some Ui, dl_reasoning = None\<rparr>"

lemma lease_state:
  "lease_glance lease_world = ([(''s1'', 0)], [Some example_lease], example_sessions, [True])"
  by code_simp

lemma lease_facts:
  "obj_get (tw_actors lease_world) ''s1'' = Some 0" "ac_dispatch (the_actor lease_world 0) = Some example_lease"
  "obj_get (tw_sessions lease_world) ''s1'' =
    Some \<lparr>sn_target = Some (example_target ''m0''), sn_source = Some Ui, sn_reasoning = None\<rparr>"
  "ac_deferredSelection (the_actor lease_world 0) = None"
proof -
  have s: "tw_actors lease_world = [(''s1'', 0)]" "map ac_dispatch (tw_heap lease_world) = [Some example_lease]"
    "tw_sessions lease_world = example_sessions"
    "map (\<lambda>x. ac_deferredSelection x = None) (tw_heap lease_world) = [True]"
    using lease_state by (simp_all add: lease_glance_def)
  have h: "0 < length (tw_heap lease_world)" using arg_cong [OF s(2), of length] by simp
  show "obj_get (tw_actors lease_world) ''s1'' = Some 0" "obj_get (tw_sessions lease_world) ''s1'' =
    Some \<lparr>sn_target = Some (example_target ''m0''), sn_source = Some Ui, sn_reasoning = None\<rparr>"
    by (simp_all add: s obj_get_def example_sessions_def)
  show "ac_dispatch (the_actor lease_world 0) = Some example_lease"
    using arg_cong [OF s(2), of "\<lambda>xs. xs ! 0"] h by (simp add: the_actor_def)
  show "ac_deferredSelection (the_actor lease_world 0) = None"
    using arg_cong [OF s(4), of "\<lambda>xs. xs ! 0"] h by (simp add: the_actor_def)
qed

section \<open>Properties\<close>

text \<open>
  C3. A dispatch lease pins its session's target against other code. Start from any state the
  coordinator can reach, by any actions at all, in which other code has just changed the session store
  (or from the initial state), and go on with any actions, among them writes of arbitrary targets to
  the store, except the end of a change of a leased target, the hand-over of an actor to another
  session and a change of the lease to a target that is not normalized. Then a session whose actor
  holds a lease shows the leased target, or a model of the leased provider when the lease names none.
  After one of the excepted actions the session shows it again from the next change of the store on.
\<close>

theorem lease_pins_target:
  assumes "es = [] \<or> store_change (last es)" "list_all keeps_leases fs"
    and "w = fold target_step (es @ fs) (initial_world ss)"
    and "obj_get (tw_actors w) k = Some a" "ac_dispatch (the_actor w a) = Some d"
    and "obj_get (tw_sessions w) k = Some s"
  shows "sameSessionExecutionTarget (sn_target s) (Some (dl_target d)) \<or>
    (modelId (dl_target d) = None \<and> map_option harnessId (sn_target s) = Some (harnessId (dl_target d)) \<and>
     Option.bind (sn_target s) modelProviderId = modelProviderId (dl_target d))"
proof -
  have "lease_inv w" unfolding assms(3) using assms(1,2) by (rule leases_from)
  then show ?thesis using lease_invD [OF _ assms(4-6)] by (simp add: matches_lease_def)
qed

lemma lease_pins_target_witness:
  "sn_target (the (obj_get (tw_sessions lease_world) ''s1'')) = Some (example_target ''m0'') \<and>
    sameSessionExecutionTarget (sn_target (the (obj_get (tw_sessions lease_world) ''s1''))) (Some (dl_target example_lease))"
  using lease_pins_target [of "[]", OF _ lease_run_keeps _ lease_facts(1,2,3)] lease_facts(3)
  by (simp add: lease_world_def example_lease_def example_target_def)



text \<open>
  A lease remembers the session it was taken under. When its actor is handed to another session while
  the lease is held (\<open>transferSessionTargetOwnership\<close>), what waits for the release is applied to the
  first session; a target written to the second session meanwhile is lost.
\<close>

lemma transferred_lease_loses_change:
  "map_option sn_target (obj_get (tw_sessions (fold target_step
    [AcquireLease ''s1'' None,
     WriteSession ''s2'' \<lparr>sn_target = Some (example_target ''m0''), sn_source = Some Ui, sn_reasoning = None\<rparr>,
     TransferOwnership ''s1'' ''s2'', RemoveSession ''s1'',
     WriteSession ''s2'' \<lparr>sn_target = Some (example_target ''m9''), sn_source = Some Ui, sn_reasoning = None\<rparr>,
     ReleaseLease 0 0] (initial_world example_sessions))) ''s2'') = Some (Some (example_target ''m0''))"
  by code_simp

end
