(* ===== verification/Crc32.thy ===== *)
theory Crc32
  imports Main "HOL-Library.Word"
begin

unbundle bit_operations_syntax

text \<open>
  The checksum of PNG chunks (\<open>crcTable\<close> and \<open>crc32\<close> of
  \<open>src/src/features/agents/agent-snapshot/pngCodec.ts\<close>) on 32-bit words, the shift register it
  stands for, and what it detects. A JavaScript number that has gone through \<open>^\<close>, \<open>&\<close> or
  \<open>>>>\<close> is a 32-bit word here.
\<close>

type_synonym byte = "8 word"
type_synonym u32 = "32 word"

section \<open>The code\<close>

definition polynomial :: u32 where
  "polynomial = 0xedb88320"

definition table_step :: "u32 \<Rightarrow> u32" where
  "table_step c = (if c AND 1 \<noteq> 0 then polynomial XOR drop_bit 1 c else drop_bit 1 c)"

definition crcTable :: "u32 list" where
  "crcTable = map (\<lambda>n. (table_step ^^ 8) (word_of_nat n)) [0..<256]"

definition crc_byte :: "u32 \<Rightarrow> byte \<Rightarrow> u32" where
  "crc_byte crc b = crcTable ! unat ((crc XOR ucast b) AND 0xff) XOR drop_bit 8 crc"

definition crc32 :: "byte list \<Rightarrow> u32" where
  "crc32 bytes = foldl crc_byte 0xffffffff bytes XOR 0xffffffff"

section \<open>The shift register\<close>

definition feed_bit :: "u32 \<Rightarrow> bool \<Rightarrow> u32" where
  \<comment> \<open>one step of the register: the message bit meets the lowest bit, and the polynomial is subtracted
    when the bit that leaves is set\<close>
  "feed_bit r b = (if bit r 0 \<noteq> b then polynomial XOR drop_bit 1 r else drop_bit 1 r)"

definition byte_bits :: "byte \<Rightarrow> bool list" where
  \<comment> \<open>lowest bit first\<close>
  "byte_bits b = map (bit b) [0..<8]"

definition crc_register :: "byte list \<Rightarrow> u32" where
  "crc_register bytes = NOT (foldl feed_bit (NOT 0) (concat (map byte_bits bytes)))"

section \<open>Linearity\<close>

lemma table_step_bit: "table_step c = (if bit c 0 then polynomial XOR drop_bit 1 c else drop_bit 1 c)"
  by (simp add: table_step_def bit_0 and_one_eq odd_iff_mod_2_eq_one)

lemma xor_cancel: "(a :: 'a :: len word) XOR (a XOR b) = b"
  by (simp flip: xor.assoc)

lemma xor_swap: "(a :: 'a :: len word) XOR (b XOR c) = b XOR (a XOR c)"
  by (simp add: xor.left_commute)

lemma table_step_xor: "table_step (a XOR b) = table_step a XOR table_step b"
  by (cases "bit a 0"; cases "bit b 0")
    (simp_all add: table_step_bit bit_xor_iff drop_bit_xor xor.assoc xor_cancel xor_swap)

lemma table_step_zero [simp]: "table_step 0 = 0"
  by (simp add: table_step_bit)

lemma steps_xor: "(table_step ^^ n) (a XOR b) = (table_step ^^ n) a XOR (table_step ^^ n) b"
  by (induction n) (simp_all add: table_step_xor)

lemma steps_even: "take_bit n c = 0 \<Longrightarrow> (table_step ^^ n) c = drop_bit n (c :: u32)"
proof (induction n arbitrary: c)
  case (Suc n)
  have z: "\<not> bit c k" if "k < Suc n" for k
  proof -
    have "bit (take_bit (Suc n) c) k = bit (0 :: u32) k" using Suc.prems by (rule arg_cong)
    then show ?thesis using that by (simp add: bit_take_bit_iff)
  qed
  then have "table_step c = drop_bit 1 c" by (simp add: table_step_bit)
  moreover have "take_bit n (drop_bit 1 c) = 0"
    by (rule bit_word_eqI) (use z in \<open>simp add: bit_take_bit_iff bit_drop_bit_eq\<close>)
  ultimately have "(table_step ^^ n) (table_step c) = drop_bit n (drop_bit 1 c)"
    using Suc.IH by simp
  then show ?case by (simp only: funpow_Suc_right comp_def drop_bit_drop_bit) simp
qed simp

lemma ff_mask: "(0xff :: u32) = mask 8"
  by (simp add: mask_eq_exp_minus_1)

lemma low_high: "(y :: u32) = take_bit 8 y XOR push_bit 8 (drop_bit 8 y)"
  by (rule bit_word_eqI) (auto simp: bit_xor_iff bit_take_bit_iff bit_push_bit_iff bit_drop_bit_eq)

lemma steps_eight: "(table_step ^^ 8) y = (table_step ^^ 8) (take_bit 8 y) XOR drop_bit 8 y"
proof -
  have "take_bit 8 (push_bit 8 (drop_bit 8 y)) = 0"
    by (rule bit_word_eqI) (simp add: bit_take_bit_iff bit_push_bit_iff)
  then have h: "(table_step ^^ 8) (push_bit 8 (drop_bit 8 y)) = drop_bit 8 (push_bit 8 (drop_bit 8 y))"
    by (rule steps_even)
  have "drop_bit 8 (push_bit 8 (drop_bit 8 y)) = drop_bit 8 y"
    by (rule bit_word_eqI) (auto simp: bit_push_bit_iff bit_drop_bit_eq dest: bit_imp_le_length)
  then show ?thesis
    using h by (subst low_high) (simp only: steps_xor)
qed

section \<open>The table is eight steps of the register\<close>

lemma table_entry: "crcTable ! unat (take_bit 8 y :: u32) = (table_step ^^ 8) (take_bit 8 y)"
proof -
  have "unat (take_bit 8 y) < 256"
    by (simp add: unsigned_take_bit_eq) (simp add: take_bit_eq_mod)
  then show ?thesis by (simp add: crcTable_def)
qed

lemma crc_byte_steps: "crc_byte c b = (table_step ^^ 8) (c XOR ucast b)"
proof -
  have "drop_bit 8 (ucast b :: u32) = 0"
    by (rule bit_word_eqI) (auto simp: bit_drop_bit_eq bit_ucast_iff dest: bit_imp_le_length)
  then have "drop_bit 8 (c XOR ucast b) = drop_bit 8 c" by (simp add: drop_bit_xor)
  then show ?thesis
    by (subst steps_eight) (simp add: crc_byte_def ff_mask table_entry del: take_bit_xor flip: take_bit_eq_mask)
qed

lemma feed_bit_step: "feed_bit r b = table_step (r XOR of_bool b)"
  by (cases b; cases "bit r 0") (simp_all add: feed_bit_def table_step_bit bit_xor_iff drop_bit_xor)

lemma horner_snoc:
  "(horner_sum of_bool 2 (bs @ [b]) :: u32)
    = horner_sum of_bool 2 bs XOR push_bit (length bs) (of_bool b)"
  by (rule bit_word_eqI)
    (auto simp: bit_horner_sum_bit_word_iff bit_xor_iff bit_push_bit_iff nth_append bit_of_bool_iff less_Suc_eq)

lemma feed_bits:
  "length bs \<le> 32 \<Longrightarrow>
    foldl feed_bit r bs = (table_step ^^ length bs) (r XOR horner_sum of_bool 2 bs)"
proof (induction bs rule: rev_induct)
  case (snoc b bs)
  let ?n = "length bs"
  have n: "?n < 32" using snoc.prems by simp
  have t: "take_bit ?n (push_bit ?n (of_bool b) :: u32) = 0"
    by (rule bit_word_eqI) (simp add: bit_take_bit_iff bit_push_bit_iff)
  have d: "drop_bit ?n (push_bit ?n (of_bool b) :: u32) = of_bool b"
    using n by (cases b) (auto intro!: bit_word_eqI simp: bit_drop_bit_eq bit_1_iff bit_exp_iff)
  have ih: "foldl feed_bit r bs = (table_step ^^ ?n) (r XOR horner_sum of_bool 2 bs)"
    using snoc by simp
  have "feed_bit (foldl feed_bit r bs) b
      = table_step ((table_step ^^ ?n) (r XOR horner_sum of_bool 2 bs) XOR of_bool b)"
    by (simp only: feed_bit_step ih)
  also have "of_bool b = (table_step ^^ ?n) (push_bit ?n (of_bool b))"
    using steps_even [OF t] d by simp
  finally show ?case by (simp add: horner_snoc steps_xor xor.assoc del: horner_sum_append)
qed simp

lemma length_byte_bits [simp]: "length (byte_bits b) = 8"
  by (simp add: byte_bits_def)

lemma nth_byte_bits: "n < 8 \<Longrightarrow> byte_bits b ! n = bit b n"
  by (simp add: byte_bits_def)

lemma byte_bits_horner: "(horner_sum of_bool 2 (byte_bits b) :: u32) = ucast b"
proof (rule bit_word_eqI)
  fix n assume "n < LENGTH(32)"
  moreover have "\<not> bit b n" if "\<not> n < 8" using that by (auto dest: bit_imp_le_length)
  ultimately show "bit (horner_sum of_bool 2 (byte_bits b) :: u32) n = bit (ucast b :: u32) n"
    by (cases "n < 8") (simp_all add: bit_horner_sum_bit_word_iff bit_ucast_iff nth_byte_bits)
qed

lemma feed_byte: "foldl feed_bit r (byte_bits b) = crc_byte r b"
  by (simp add: feed_bits byte_bits_horner crc_byte_steps)

lemma feed_bytes: "foldl feed_bit r (concat (map byte_bits bs)) = foldl crc_byte r bs"
  by (induction bs arbitrary: r) (simp_all add: feed_byte)

text \<open>
  The table-driven checksum is the bit-serial shift register: for every byte sequence, running
  one table lookup per byte (\<open>crc32\<close>) ends in the value of the register that takes the message one
  bit at a time, subtracts the polynomial when the outgoing bit is set, starts from all ones and is
  complemented at the end.
\<close>

theorem crc32_is_register: "crc32 bytes = crc_register bytes"
proof -
  have "(0xffffffff :: u32) = NOT 0" by simp
  then show ?thesis
    by (simp only: crc32_def crc_register_def feed_bytes) simp
qed

section \<open>What the checksum detects\<close>

lemma table_step_kernel: "table_step c = 0 \<Longrightarrow> c = 0"
proof (rule ccontr)
  assume z: "table_step c = 0" and "c \<noteq> 0"
  have "bit polynomial 31" by (simp add: polynomial_def bit_iff_odd_drop_bit)
  have "\<not> bit c 0"
  proof
    assume "bit c 0"
    then have "bit (table_step c) 31 = bit (polynomial XOR drop_bit 1 c) 31" by (simp add: table_step_bit)
    also have "\<dots>" using \<open>bit polynomial 31\<close> by (auto simp: bit_xor_iff bit_drop_bit_eq dest: bit_imp_le_length)
    finally show False using z by simp
  qed
  then have d: "drop_bit 1 c = 0" using z by (simp add: table_step_bit)
  have "c = 0"
  proof (rule bit_word_eqI)
    fix n show "bit c n = bit 0 n"
      using \<open>\<not> bit c 0\<close> arg_cong [OF d, of "\<lambda>x. bit x (n - 1)"]
      by (cases n) (simp_all add: bit_drop_bit_eq)
  qed
  with \<open>c \<noteq> 0\<close> show False by simp
qed

lemma steps_inj: "(table_step ^^ n) a = (table_step ^^ n) b \<Longrightarrow> a = b"
proof (induction n)
  case (Suc n)
  have "table_step ((table_step ^^ n) a XOR (table_step ^^ n) b) = 0"
    using Suc.prems by (simp add: table_step_xor)
  then have "(table_step ^^ n) a XOR (table_step ^^ n) b = 0" by (rule table_step_kernel)
  then have "(table_step ^^ n) a = (table_step ^^ n) b"
    by (metis xor_cancel xor.right_neutral)
  then show ?case by (rule Suc.IH)
qed simp

lemma crc_bytes_inj: "foldl crc_byte r bs = foldl crc_byte r' bs \<Longrightarrow> r = r'"
proof (induction bs arbitrary: r r')
  case (Cons b bs)
  then have "(table_step ^^ 8) (r XOR ucast b) = (table_step ^^ 8) (r' XOR ucast b)"
    by (simp add: crc_byte_steps)
  then have "r XOR ucast b = r' XOR ucast b" by (rule steps_inj)
  then show ?case by (metis xor_cancel xor.commute)
qed simp

lemma feed_burst_inj:
  assumes "length xs = length ys" "length ys \<le> 32" "foldl feed_bit r xs = foldl feed_bit r ys"
  shows "xs = ys"
proof -
  have "r XOR (horner_sum of_bool 2 xs :: u32) = r XOR horner_sum of_bool 2 ys"
    by (rule steps_inj [of "length ys"]) (use assms in \<open>simp add: feed_bits\<close>)
  then have h: "(horner_sum of_bool 2 xs :: u32) = horner_sum of_bool 2 ys" by (metis xor_cancel)
  show ?thesis
  proof (rule nth_equalityI)
    fix i assume "i < length xs"
    then show "xs ! i = ys ! i"
      using assms arg_cong [OF h, of "\<lambda>x. bit x i"] by (simp add: bit_horner_sum_bit_word_iff)
  qed (rule assms)
qed

lemma byte_bits_inj: "byte_bits a = byte_bits b \<Longrightarrow> a = b"
  by (rule bit_word_eqI) (simp add: byte_bits_def)

lemma concat_byte_bits:
  "length a = length b \<Longrightarrow> concat (map byte_bits a) = concat (map byte_bits b) \<Longrightarrow> a = b"
  by (induction a b rule: list_induct2) (auto dest: byte_bits_inj)

lemma burst_detected:
  assumes "length a = length b" "length b \<le> 4"
    and "crc32 (pre @ a @ post) = crc32 (pre @ b @ post)"
  shows "a = b"
proof -
  have len: "length (concat (map byte_bits xs)) = 8 * length xs" for xs
    by (induction xs) simp_all
  have "foldl crc_byte (foldl crc_byte (0xffffffff :: u32) pre) a = foldl crc_byte (foldl crc_byte 0xffffffff pre) b"
    by (rule crc_bytes_inj [where bs = post])
      (use arg_cong [OF assms(3), of "\<lambda>x :: u32. x XOR 0xffffffff"] in \<open>simp add: crc32_def xor.assoc\<close>)
  then have "concat (map byte_bits a) = concat (map byte_bits b)"
    by (intro feed_burst_inj) (use assms in \<open>simp_all add: len flip: feed_bytes\<close>)
  then show ?thesis by (rule concat_byte_bits [OF assms(1)])
qed

end
