(* ===== verification/WebText.thy ===== *)
theory WebText
  imports Crc32
begin

text \<open>
  What the snapshot codec uses of the platform's text functions, on code units: a JavaScript string
  is the list of its UTF-16 code units, and a text that goes through UTF-8 is the list of its code
  points (JSON text escapes lone surrogates, so the two agree up to surrogate pairs). \<open>ascii_decode\<close> is
  \<open>TextDecoder("ascii")\<close>, which by the Encoding standard is windows-1252; \<open>utf8_encode\<close> is
  \<open>TextEncoder\<close>; \<open>utf8_decode\<close> is \<open>TextDecoder("utf-8", {fatal: true})\<close>, which drops a leading byte
  order mark; \<open>trim_units\<close> is \<open>String.prototype.trim\<close>; \<open>btoa\<close> and \<open>atob\<close> are the forgiving base64
  functions of the HTML standard.
\<close>

type_synonym ustring = "nat list"

definition js :: "string \<Rightarrow> ustring" where
  "js s = map of_char s"

definition byte_of :: "nat \<Rightarrow> byte" where
  "byte_of n = word_of_nat n"

section \<open>Single-byte text\<close>

definition windows_1252_high :: "nat list" where
  \<comment> \<open>the code points of the bytes 128 to 159\<close>
  "windows_1252_high =
    [8364, 129, 8218, 402, 8222, 8230, 8224, 8225, 710, 8240, 352, 8249, 338, 141, 381, 143,
     144, 8216, 8217, 8220, 8221, 8226, 8211, 8212, 732, 8482, 353, 8250, 339, 157, 382, 376]"

definition ascii_char :: "byte \<Rightarrow> nat" where
  "ascii_char b =
    (let n = unat b in if 128 \<le> n \<and> n < 160 then windows_1252_high ! (n - 128) else n)"

definition ascii_decode :: "byte list \<Rightarrow> ustring" where
  "ascii_decode bs = map ascii_char bs"

definition white_space :: "nat \<Rightarrow> bool" where
  "white_space c \<longleftrightarrow>
    9 \<le> c \<and> c \<le> 13 \<or> c = 32 \<or> c = 160 \<or> c = 5760 \<or> 8192 \<le> c \<and> c \<le> 8202 \<or>
    c = 8232 \<or> c = 8233 \<or> c = 8239 \<or> c = 8287 \<or> c = 12288 \<or> c = 65279"

definition trim_units :: "ustring \<Rightarrow> ustring" where
  "trim_units t = rev (dropWhile white_space (rev (dropWhile white_space t)))"

lemma ascii_char_low: "unat b < 128 \<Longrightarrow> ascii_char b = unat b"
  by (simp add: ascii_char_def)

lemma unat_byte_of [simp]: "n < 256 \<Longrightarrow> unat (byte_of n) = n"
  by (simp add: byte_of_def unsigned_of_nat take_bit_eq_mod)

lemma byte_of_unat [simp]: "byte_of (unat b) = b"
  by (simp add: byte_of_def)

lemma unat_byte [simp]: "unat (b :: byte) < 256"
proof -
  have "unat b < 2 ^ LENGTH(8)" by (rule unsigned_less)
  then show ?thesis by simp
qed

lemma ascii_decode_ascii:
  "\<forall>c \<in> set t. c < 128 \<Longrightarrow> ascii_decode (map byte_of t) = t"
  by (induction t) (simp_all add: ascii_decode_def ascii_char_low)

lemma trim_units_id: "\<forall>c \<in> set t. \<not> white_space c \<Longrightarrow> trim_units t = t"
proof -
  have drop: "dropWhile white_space u = u" if "\<forall>c \<in> set u. \<not> white_space c" for u
    using that by (cases u) simp_all
  show "trim_units t = t" if "\<forall>c \<in> set t. \<not> white_space c"
    using that drop [of t] drop [of "rev t"] by (simp add: trim_units_def)
qed

section \<open>UTF-8\<close>

definition scalar :: "nat \<Rightarrow> bool" where
  "scalar c \<longleftrightarrow> c < 0xd800 \<or> 0xe000 \<le> c \<and> c < 0x110000"

definition utf8_char :: "nat \<Rightarrow> byte list" where
  "utf8_char c = map byte_of
    (if c < 0x80 then [c]
     else if c < 0x800 then [0xc0 + c div 0x40, 0x80 + c mod 0x40]
     else if c < 0x10000 then [0xe0 + c div 0x1000, 0x80 + c div 0x40 mod 0x40, 0x80 + c mod 0x40]
     else [0xf0 + c div 0x40000, 0x80 + c div 0x1000 mod 0x40, 0x80 + c div 0x40 mod 0x40, 0x80 + c mod 0x40])"

definition utf8_encode :: "ustring \<Rightarrow> byte list" where
  "utf8_encode t = concat (map utf8_char t)"

definition continuation :: "byte \<Rightarrow> bool" where
  "continuation b \<longleftrightarrow> 0x80 \<le> unat b \<and> unat b < 0xc0"

definition second_byte_ok :: "nat \<Rightarrow> nat \<Rightarrow> bool" where
  \<comment> \<open>no overlong form, no surrogate, nothing above the last code point\<close>
  "second_byte_ok lead n \<longleftrightarrow>
    (lead = 0xe0 \<longrightarrow> 0xa0 \<le> n) \<and> (lead = 0xed \<longrightarrow> n < 0xa0) \<and>
    (lead = 0xf0 \<longrightarrow> 0x90 \<le> n) \<and> (lead = 0xf4 \<longrightarrow> n < 0x90)"

fun take_continuations :: "nat \<Rightarrow> nat \<Rightarrow> byte list \<Rightarrow> (nat \<times> byte list) option" where
  "take_continuations 0 acc bs = Some (acc, bs)"
| "take_continuations (Suc k) acc [] = None"
| "take_continuations (Suc k) acc (b # bs) =
    (if continuation b then take_continuations k (acc * 0x40 + (unat b - 0x80)) bs else None)"

definition utf8_lead :: "nat \<Rightarrow> (nat \<times> nat) option" where
  \<comment> \<open>the number of continuation bytes and the bits of the lead byte\<close>
  "utf8_lead n =
    (if n < 0x80 then Some (0, n)
     else if 0xc2 \<le> n \<and> n < 0xe0 then Some (1, n - 0xc0)
     else if 0xe0 \<le> n \<and> n < 0xf0 then Some (2, n - 0xe0)
     else if 0xf0 \<le> n \<and> n < 0xf5 then Some (3, n - 0xf0)
     else None)"

definition utf8_next :: "byte list \<Rightarrow> (nat \<times> byte list) option" where
  "utf8_next bs = (case bs of
      [] \<Rightarrow> None
    | b # rest \<Rightarrow> (case utf8_lead (unat b) of
        None \<Rightarrow> None
      | Some (k, acc) \<Rightarrow>
          if k \<noteq> 0 \<and> rest \<noteq> [] \<and> \<not> second_byte_ok (unat b) (unat (hd rest)) then None
          else take_continuations k acc rest))"

lemma take_continuations_length: "take_continuations k acc bs = Some (c, rest) \<Longrightarrow> length rest \<le> length bs"
  by (induction k acc bs rule: take_continuations.induct) (auto split: if_splits)

lemma utf8_next_length: "utf8_next bs = Some (c, rest) \<Longrightarrow> length rest < length bs"
  by (auto simp: utf8_next_def less_Suc_eq_le dest: take_continuations_length
      split: list.splits option.splits if_splits)

function utf8_chars :: "byte list \<Rightarrow> ustring option" where
  "utf8_chars bs =
    (if bs = [] then Some []
     else case utf8_next bs of None \<Rightarrow> None | Some (c, rest) \<Rightarrow> map_option ((#) c) (utf8_chars rest))"
  by pat_completeness auto
termination
  by (relation "measure length") (auto dest: utf8_next_length)

declare utf8_chars.simps [simp del]

definition utf8_decode :: "byte list \<Rightarrow> ustring option" where
  "utf8_decode bs = utf8_chars (if take 3 bs = map byte_of [0xef, 0xbb, 0xbf] then drop 3 bs else bs)"

lemma take_continuation:
  "take_continuations (Suc k) acc (byte_of (0x80 + x mod 0x40) # bs)
    = take_continuations k (acc * 0x40 + x mod 0x40) bs"
proof -
  have "x mod 0x40 < 0x40" by simp
  then have "unat (byte_of (0x80 + x mod 0x40)) = 0x80 + x mod 0x40"
    by (intro unat_byte_of) linarith
  then show ?thesis by (simp add: continuation_def)
qed

declare take_continuations.simps(3) [simp del]

lemma utf8_next_lead:
  assumes "utf8_lead n = Some (Suc k, acc)" "n < 256" "second_byte_ok n (0x80 + x mod 0x40)"
  shows "utf8_next (byte_of n # byte_of (0x80 + x mod 0x40) # bs)
    = take_continuations k (acc * 0x40 + x mod 0x40) bs"
proof -
  have "x mod 0x40 < 0x40" by simp
  then have "unat (byte_of (0x80 + x mod 0x40)) = 0x80 + x mod 0x40"
    by (intro unat_byte_of) linarith
  then show ?thesis using assms by (simp add: utf8_next_def take_continuation)
qed

lemma second_byte_three:
  assumes "32 \<le> d" "d < 1024" "\<not> (864 \<le> d \<and> d < 896)"
  shows "second_byte_ok (0xe0 + d div 0x40) (0x80 + d mod 0x40)"
proof -
  obtain h l where hl: "d = 64 * h + l" "l < 64" "d div 64 = h" "d mod 64 = l"
    using mult_div_mod_eq [of 64 d] by (metis mod_less_divisor zero_less_numeral)
  then have "h < 16" "h = 0 \<longrightarrow> 32 \<le> l" "h = 13 \<longrightarrow> l < 32" using assms by auto
  then show ?thesis unfolding second_byte_ok_def hl(3) hl(4) by simp
qed

lemma second_byte_four:
  assumes "16 \<le> d" "d < 272"
  shows "second_byte_ok (0xf0 + d div 0x40) (0x80 + d mod 0x40)"
proof -
  obtain h l where hl: "d = 64 * h + l" "l < 64" "d div 64 = h" "d mod 64 = l"
    using mult_div_mod_eq [of 64 d] by (metis mod_less_divisor zero_less_numeral)
  then have "h < 5" "h = 0 \<longrightarrow> 16 \<le> l" "h = 4 \<longrightarrow> l < 16" using assms by auto
  then show ?thesis unfolding second_byte_ok_def hl(3) hl(4) by simp
qed

lemma utf8_next_char:
  assumes "scalar c" shows "utf8_next (utf8_char c @ bs) = Some (c, bs)"
proof -
  consider (one) "c < 0x80" | (two) "0x80 \<le> c" "c < 0x800"
    | (three) "0x800 \<le> c" "c < 0x10000" "\<not> (0xd800 \<le> c \<and> c < 0xe000)"
    | (four) "0x10000 \<le> c" "c < 0x110000"
    using assms by (cases "c < 0x80"; cases "c < 0x800"; cases "c < 0x10000") (auto simp: scalar_def)
  then show ?thesis
  proof cases
    case one
    then show ?thesis by (simp add: utf8_char_def utf8_next_def utf8_lead_def)
  next
    case two
    have "utf8_lead (0xc0 + c div 0x40) = Some (Suc 0, c div 0x40)"
      using two by (auto simp: utf8_lead_def)
    moreover have "second_byte_ok (0xc0 + c div 0x40) (0x80 + c mod 0x40)"
      using two by (auto simp: second_byte_ok_def)
    ultimately show ?thesis
      using two by (simp add: utf8_char_def utf8_next_lead)
  next
    case three
    define d where "d = c div 0x40"
    have q: "c div 0x1000 = d div 0x40" by (simp add: d_def flip: div_mult2_eq)
    have d: "32 \<le> d" "d < 1024" "\<not> (864 \<le> d \<and> d < 896)" using three unfolding d_def by auto
    have "utf8_lead (0xe0 + c div 0x1000) = Some (Suc 1, c div 0x1000)"
      using three by (auto simp: utf8_lead_def)
    moreover have "second_byte_ok (0xe0 + c div 0x1000) (0x80 + c div 0x40 mod 0x40)"
      using second_byte_three [OF d] by (simp only: q d_def)
    moreover have "c div 0x1000 * 0x40 + c div 0x40 mod 0x40 = c div 0x40"
      by (simp add: q d_def)
    moreover have "c div 0x40 * 0x40 + c mod 0x40 = c" by simp
    ultimately show ?thesis
      using three by (simp add: utf8_char_def utf8_next_lead take_continuation)
  next
    case four
    define d where "d = c div 0x1000"
    have q: "c div 0x40000 = d div 0x40" by (simp add: d_def flip: div_mult2_eq)
    have q2: "c div 0x1000 = c div 0x40 div 0x40" by (simp flip: div_mult2_eq)
    have d: "16 \<le> d" "d < 272" using four unfolding d_def by auto
    have "utf8_lead (0xf0 + c div 0x40000) = Some (Suc 2, c div 0x40000)"
      using four by (auto simp: utf8_lead_def)
    moreover have "second_byte_ok (0xf0 + c div 0x40000) (0x80 + c div 0x1000 mod 0x40)"
      using second_byte_four [OF d] by (simp only: q d_def)
    moreover have "c div 0x40000 * 0x40 + c div 0x1000 mod 0x40 = c div 0x1000"
      by (simp add: q d_def)
    moreover have "c div 0x1000 * 0x40 + c div 0x40 mod 0x40 = c div 0x40"
      by (simp add: q2)
    moreover have "c div 0x40 * 0x40 + c mod 0x40 = c" by simp
    ultimately show ?thesis
      using four by (simp add: utf8_char_def utf8_next_lead take_continuation numeral_2_eq_2)
  qed
qed

lemma utf8_char_Cons: "utf8_char c \<noteq> []"
  by (simp add: utf8_char_def)

lemma utf8_chars_encode:
  "\<forall>c \<in> set t. scalar c \<Longrightarrow> utf8_chars (utf8_encode t) = Some t"
proof (induction t)
  case Nil
  then show ?case by (simp add: utf8_encode_def utf8_chars.simps)
next
  case (Cons c t)
  then show ?case
    by (subst utf8_chars.simps) (simp add: utf8_encode_def utf8_char_Cons utf8_next_char)
qed

lemma utf8_roundtrip:
  assumes "\<forall>c \<in> set t. scalar c" "t = [] \<or> hd t < 0x80"
  shows "utf8_decode (utf8_encode t) = Some t"
proof -
  have "take 3 (utf8_encode t) \<noteq> map byte_of [0xef, 0xbb, 0xbf]"
  proof (cases t)
    case (Cons c u)
    then have "take 3 (utf8_encode t) = byte_of c # take 2 (utf8_encode u)"
      using assms(2) by (simp add: utf8_encode_def utf8_char_def)
    moreover have "unat (byte_of c) \<noteq> unat (byte_of 0xef)"
      using assms(2) Cons by simp
    ultimately show ?thesis by auto
  qed (simp add: utf8_encode_def)
  then show ?thesis using assms(1) by (simp add: utf8_decode_def utf8_chars_encode)
qed

section \<open>Base64\<close>

definition base64_char :: "nat \<Rightarrow> nat" where
  \<comment> \<open>the character of a sextet\<close>
  "base64_char v =
    (if v < 26 then v + 65 else if v < 52 then v + 71 else if v < 62 then v - 4
     else if v = 62 then 43 else 47)"

definition base64_value :: "nat \<Rightarrow> nat option" where
  "base64_value c =
    (if 65 \<le> c \<and> c \<le> 90 then Some (c - 65) else if 97 \<le> c \<and> c \<le> 122 then Some (c - 71)
     else if 48 \<le> c \<and> c \<le> 57 then Some (c + 4) else if c = 43 then Some 62
     else if c = 47 then Some 63 else None)"

fun base64_groups :: "nat list \<Rightarrow> ustring" where
  "base64_groups [] = []"
| "base64_groups [a] = [base64_char (a div 4), base64_char (a mod 4 * 16), 61, 61]"
| "base64_groups [a, b] =
    [base64_char (a div 4), base64_char (a mod 4 * 16 + b div 16), base64_char (b mod 16 * 4), 61]"
| "base64_groups (a # b # c # rest) =
    [base64_char (a div 4), base64_char (a mod 4 * 16 + b div 16),
     base64_char (b mod 16 * 4 + c div 64), base64_char (c mod 64)] @ base64_groups rest"

definition btoa :: "ustring \<Rightarrow> ustring option" where
  \<comment> \<open>None is the InvalidCharacterError of a code unit above 255\<close>
  "btoa t = (if \<forall>c \<in> set t. c < 256 then Some (base64_groups t) else None)"

fun sextet_bytes :: "nat list \<Rightarrow> nat list" where
  "sextet_bytes (a # b # c # d # rest) =
    [a * 4 + b div 16, b mod 16 * 16 + c div 4, c mod 4 * 64 + d] @ sextet_bytes rest"
| "sextet_bytes [a, b, c] = [a * 4 + b div 16, b mod 16 * 16 + c div 4]"
| "sextet_bytes [a, b] = [a * 4 + b div 16]"
| "sextet_bytes [a] = []"
| "sextet_bytes [] = []"

definition ascii_white :: "nat \<Rightarrow> bool" where
  "ascii_white c \<longleftrightarrow> c \<in> {9, 10, 12, 13, 32}"

definition drop_padding :: "ustring \<Rightarrow> ustring" where
  \<comment> \<open>one or two trailing equals signs, only from a text of a whole number of groups\<close>
  "drop_padding t =
    (if t = [] \<or> length t mod 4 \<noteq> 0 \<or> last t \<noteq> 61 then t
     else let u = butlast t in if u \<noteq> [] \<and> last u = 61 then butlast u else u)"

definition atob :: "ustring \<Rightarrow> ustring option" where
  \<comment> \<open>forgiving base64: None is the InvalidCharacterError\<close>
  "atob t =
    (let u = drop_padding (filter (\<lambda>c. \<not> ascii_white c) t) in
     if length u mod 4 = 1 then None
     else map_option sextet_bytes (those (map base64_value u)))"

lemma base64_value_char [simp]: "v < 64 \<Longrightarrow> base64_value (base64_char v) = Some v"
  by (auto simp: base64_value_def base64_char_def)

lemma base64_char_plain:
  "v < 64 \<Longrightarrow> base64_char v \<noteq> 61 \<and> \<not> ascii_white (base64_char v) \<and> \<not> white_space (base64_char v) \<and> base64_char v < 128"
  by (auto simp: base64_char_def ascii_white_def white_space_def)

lemma base64_groups_length: "length (base64_groups t) = 4 * ((length t + 2) div 3)"
proof (induction t rule: base64_groups.induct)
  case (4 a b c rest)
  have "(length (a # b # c # rest) + 2) div 3 = Suc ((length rest + 2) div 3)" by simp
  then show ?case using 4 by simp
qed simp_all

fun sextets :: "nat list \<Rightarrow> nat list" where
  \<comment> \<open>the sextets of a byte sequence, without padding\<close>
  "sextets [] = []"
| "sextets [a] = [a div 4, a mod 4 * 16]"
| "sextets [a, b] = [a div 4, a mod 4 * 16 + b div 16, b mod 16 * 4]"
| "sextets (a # b # c # rest) =
    [a div 4, a mod 4 * 16 + b div 16, b mod 16 * 4 + c div 64, c mod 64] @ sextets rest"

definition pad_length :: "nat \<Rightarrow> nat" where
  "pad_length n = (3 - n mod 3) mod 3"

lemma pad_length_simps [simp]:
  "pad_length 0 = 0" "pad_length (Suc 0) = Suc (Suc 0)" "pad_length (Suc (Suc 0)) = Suc 0"
  "pad_length (Suc (Suc (Suc n))) = pad_length n"
proof -
  have "Suc (Suc (Suc n)) mod 3 = n mod 3" by presburger
  then show "pad_length (Suc (Suc (Suc n))) = pad_length n" by (simp add: pad_length_def)
qed (simp_all add: pad_length_def)

lemma base64_groups_sextets:
  "base64_groups t = map base64_char (sextets t) @ replicate (pad_length (length t)) 61"
  by (induction t rule: base64_groups.induct) simp_all

lemma sextets_bound: "\<forall>c \<in> set t. c < 256 \<Longrightarrow> \<forall>v \<in> set (sextets t). v < 64"
proof (induction t rule: sextets.induct)
  case (4 a b c rest)
  have "a div 4 < 64" "b div 16 < 16" "c div 64 < 4" using 4(2) by auto
  moreover have "a mod 4 < 4" "b mod 16 < 16" "c mod 64 < 64" by simp_all
  ultimately show ?case using 4 by auto
next
  case (3 a b)
  have "a div 4 < 64" "b div 16 < 16" "a mod 4 < 4" "b mod 16 < 16" using 3 by auto
  then show ?case by auto
next
  case (2 a)
  have "a div 4 < 64" "a mod 4 < 4" using 2 by auto
  then show ?case by auto
qed simp

lemma sextet_bytes_sextets: "\<forall>c \<in> set t. c < 256 \<Longrightarrow> sextet_bytes (sextets t) = t"
proof (induction t rule: sextets.induct)
  case (4 a b c rest)
  have "b div 16 < 16" "c div 64 < 4" using 4(2) by auto
  moreover have "(a mod 4 * 16 + y) div 16 = a mod 4" "(a mod 4 * 16 + y) mod 16 = y" if "y < 16" for y
    using that by simp_all
  moreover have "(b mod 16 * 4 + y) div 4 = b mod 16" "(b mod 16 * 4 + y) mod 4 = y" if "y < 4" for y
    using that by simp_all
  ultimately show ?case using 4 by simp
next
  case (3 a b)
  have "b div 16 < 16" using 3 by auto
  moreover have "(a mod 4 * 16 + y) div 16 = a mod 4" "(a mod 4 * 16 + y) mod 16 = y" if "y < 16" for y
    using that by simp_all
  ultimately show ?case by simp
qed simp_all

lemma sextets_length: "length (sextets t) mod 4 = (if length t mod 3 = 0 then 0 else length t mod 3 + 1)"
proof (induction t rule: sextets.induct)
  case (4 a b c rest)
  have "length (a # b # c # rest) = length rest + 3" by simp
  then have "length (a # b # c # rest) mod 3 = length rest mod 3" by (simp only: mod_add_self2)
  moreover have "length (sextets (a # b # c # rest)) = length (sextets rest) + 4" by simp
  then have "length (sextets (a # b # c # rest)) mod 4 = length (sextets rest) mod 4"
    by (simp only: mod_add_self2)
  ultimately show ?case using 4 by (simp only:)
qed simp_all

lemma those_base64: "\<forall>v \<in> set vs. v < 64 \<Longrightarrow> those (map (base64_value \<circ> base64_char) vs) = Some vs"
  by (induction vs) simp_all

lemma drop_padding_append:
  assumes "61 \<notin> set u" "p \<le> 2" "(length u + p) mod 4 = 0"
  shows "drop_padding (u @ replicate p 61) = u"
proof -
  have l: "u = [] \<or> last u \<noteq> 61" using assms(1) last_in_set by metis
  have ne: "u \<noteq> [] \<or> p = 0" using assms(2,3) by auto
  consider "p = 0" | "p = Suc 0" | "p = Suc (Suc 0)" using assms(2) by linarith
  then show ?thesis
  proof cases
    case 1
    then show ?thesis using l by (auto simp: drop_padding_def)
  next
    case 2
    have m: "(Suc (length u)) mod 4 = 0" using assms(3) 2 by simp
    have "u \<noteq> []" "last u \<noteq> 61" using 2 l ne by auto
    then show ?thesis using m by (simp add: 2 drop_padding_def Let_def)
  next
    case 3
    have m: "(Suc (Suc (length u))) mod 4 = 0" using assms(3) 3 by simp
    have "butlast (u @ [61, 61]) = u @ [61]" by (simp add: butlast_append)
    then show ?thesis using m by (simp add: 3 drop_padding_def Let_def)
  qed
qed

lemma atob_btoa:
  assumes "\<forall>c \<in> set t. c < 256"
  shows "atob (base64_groups t) = Some t"
proof -
  let ?u = "map base64_char (sextets t)" and ?p = "pad_length (length t)"
  have b: "\<forall>v \<in> set (sextets t). v < 64" by (rule sextets_bound [OF assms])
  have len: "length (sextets t) + ?p = length (base64_groups t)" by (simp add: base64_groups_sextets)
  have "drop_padding (?u @ replicate ?p 61) = ?u"
  proof (rule drop_padding_append)
    show "61 \<notin> set ?u" using b base64_char_plain by fastforce
    show "?p \<le> 2" by (simp add: pad_length_def)
    show "(length ?u + ?p) mod 4 = 0" by (simp add: len base64_groups_length)
  qed
  moreover have "filter (\<lambda>c. \<not> ascii_white c) (?u @ replicate ?p 61) = ?u @ replicate ?p 61"
    using b base64_char_plain by (intro filter_True) (auto simp: ascii_white_def)
  moreover have "length (sextets t) mod 4 \<noteq> 1" by (simp add: sextets_length)
  ultimately show ?thesis
    by (simp add: atob_def base64_groups_sextets those_base64 [OF b] sextet_bytes_sextets [OF assms] Let_def del: filter_append)
qed

end
