(* ===== verification/SnapshotBase64.thy ===== *)
theory SnapshotBase64
  imports WebText
begin

text \<open>
  The base64 half of \<open>src/src/features/agents/agent-snapshot/pngCodec.ts\<close> and the error class of
  \<open>schema.ts\<close>. A thrown \<open>AgentSnapshotError\<close> is the left side of a sum and carries the message and
  the code of the source.
\<close>

datatype snapshot_code = InvalidPng | TooLarge | MissingSnapshot | DuplicateSnapshot | InvalidBase64
  | InvalidUtf8 | InvalidJson | WrongFormat | UnsupportedVersion | InvalidSnapshot

datatype agentSnapshotError = AgentSnapshotError (message: string) (code: snapshot_code)

type_synonym 'a snapshot_result = "agentSnapshotError + 'a"

definition isBase64Character :: "nat \<Rightarrow> bool" where
  "isBase64Character c \<longleftrightarrow>
    65 \<le> c \<and> c \<le> 90 \<or> 97 \<le> c \<and> c \<le> 122 \<or> 48 \<le> c \<and> c \<le> 57 \<or> c = 43 \<or> c = 47"

definition index_of :: "'a \<Rightarrow> 'a list \<Rightarrow> nat option" where
  "index_of c t = (if c \<in> set t then Some (length (takeWhile (\<lambda>x. x \<noteq> c) t)) else None)"

definition hasValidBase64Shape :: "ustring \<Rightarrow> bool" where
  "hasValidBase64Shape input =
    (if input = [] \<or> length input mod 4 \<noteq> 0 then False
     else
       let contentEnd = (case index_of 61 input of None \<Rightarrow> length input | Some i \<Rightarrow> i) in
       if length input - contentEnd > 2 then False
       else list_all isBase64Character (take contentEnd input)
         \<and> list_all (\<lambda>c. c = 61) (drop contentEnd input))"

definition decodeBase64 :: "ustring \<Rightarrow> byte list snapshot_result" where
  "decodeBase64 s =
    (let input = trim_units s in
     if \<not> hasValidBase64Shape input
     then Inl (AgentSnapshotError ''Snapshot chunk contains invalid base64'' InvalidBase64)
     else case atob input of
       None \<Rightarrow> Inl (AgentSnapshotError ''Snapshot chunk contains invalid base64'' InvalidBase64)
     | Some binary \<Rightarrow> Inr (map byte_of binary))"

function binary_string :: "byte list \<Rightarrow> ustring" where
  "binary_string bytes =
    (if bytes = [] then [] else map unat (take 0x8000 bytes) @ binary_string (drop 0x8000 bytes))"
  by pat_completeness auto
termination
  by (relation "measure length") auto

definition encodeBase64 :: "byte list \<Rightarrow> ustring" where
  \<comment> \<open>every code unit of the binary string is below 256, so \<open>btoa\<close> does not throw\<close>
  "encodeBase64 bytes = (case btoa (binary_string bytes) of Some t \<Rightarrow> t | None \<Rightarrow> [])"

declare binary_string.simps [simp del]

lemma binary_string_map: "binary_string bytes = map unat bytes"
proof (induction bytes rule: binary_string.induct)
  case (1 bytes)
  then show ?case
    by (subst binary_string.simps) (auto simp flip: map_append)
qed

lemma encodeBase64_groups: "encodeBase64 bytes = base64_groups (map unat bytes)"
  by (simp add: encodeBase64_def btoa_def binary_string_map)

section \<open>The shape check\<close>

lemma isBase64Character_iff: "isBase64Character c \<longleftrightarrow> base64_value c \<noteq> None"
  by (auto simp: isBase64Character_def base64_value_def)

lemma contentEnd: "(case index_of c t of None \<Rightarrow> length t | Some i \<Rightarrow> i) = length (takeWhile (\<lambda>x. x \<noteq> c) t)"
proof (cases "c \<in> set t")
  case False
  then have "takeWhile (\<lambda>x. x \<noteq> c) t = t" by (intro takeWhile_eq_all_conv [THEN iffD2]) auto
  then show ?thesis using False by (simp only: index_of_def if_False option.case)
qed (simp add: index_of_def)

lemma valid_shapeE:
  assumes "hasValidBase64Shape t"
  obtains u p where "t = u @ replicate p 61" "p \<le> 2" "list_all isBase64Character u"
    "t \<noteq> []" "length t mod 4 = 0"
proof
  let ?u = "takeWhile (\<lambda>x. x \<noteq> 61) t" and ?r = "dropWhile (\<lambda>x. x \<noteq> 61) t"
  have sp: "take (length ?u) t = ?u" "drop (length ?u) t = ?r"
    by (rule takeWhile_eq_take [symmetric], rule dropWhile_eq_drop [symmetric])
  have "length ?r = length (drop (length ?u) t)" by (simp only: sp)
  then have sl: "length t - length ?u = length ?r" by (simp only: length_drop)
  have "list_all (\<lambda>c. c = 61) ?r"
    using assms by (simp add: hasValidBase64Shape_def contentEnd sp sl Let_def split: if_splits)
  then have "?r = replicate (length ?r) 61"
    unfolding list_all_iff by (rule replicate_length_same [symmetric])
  then have "?u @ ?r = ?u @ replicate (length ?r) 61" by (rule arg_cong)
  then show "t = ?u @ replicate (length ?r) 61" by (simp only: takeWhile_dropWhile_id)
  show "length ?r \<le> 2" "list_all isBase64Character ?u" "t \<noteq> []" "length t mod 4 = 0"
    using assms by (simp_all add: hasValidBase64Shape_def contentEnd sp sl Let_def split: if_splits)
qed

lemma valid_shapeI:
  assumes "t = u @ replicate p 61" "p \<le> 2" "list_all isBase64Character u" "t \<noteq> []" "length t mod 4 = 0"
  shows "hasValidBase64Shape t"
proof -
  have "x \<noteq> 61" if "x \<in> set u" for x
    using assms(3) that by (auto simp: list_all_iff isBase64Character_def)
  then have "takeWhile (\<lambda>x. x \<noteq> 61) t = u"
    unfolding assms(1) by (subst takeWhile_append2) (auto simp: takeWhile_replicate)
  then show ?thesis
    using assms by (simp add: hasValidBase64Shape_def contentEnd Let_def list_all_iff)
qed

lemma those_total: "\<forall>x \<in> set xs. f x \<noteq> None \<Longrightarrow> those (map f xs) \<noteq> None"
  by (induction xs) auto

text \<open>
  The linear shape check makes the native decoder total: a text that passes
  \<open>hasValidBase64Shape\<close> is one \<open>atob\<close> accepts, so the \<open>catch\<close> of \<open>decodeBase64\<close> is never entered
  and the check alone decides between bytes and the \<open>invalid-base64\<close> error.
\<close>

theorem shape_check_decides:
  "hasValidBase64Shape t \<Longrightarrow> \<exists>binary. atob t = Some binary"
proof -
  assume "hasValidBase64Shape t"
  then obtain u p where t: "t = u @ replicate p 61" "p \<le> 2" "list_all isBase64Character u" "length t mod 4 = 0"
    by (rule valid_shapeE)
  have u: "\<forall>c \<in> set u. base64_value c \<noteq> None"
    using t(3) by (simp add: list_all_iff isBase64Character_iff)
  then have "61 \<notin> set u" by (auto simp: base64_value_def)
  then have "drop_padding t = u" using t by (simp add: drop_padding_append)
  moreover have "filter (\<lambda>c. \<not> ascii_white c) t = t"
    using u unfolding t(1) by (intro filter_True) (auto simp: ascii_white_def base64_value_def)
  moreover have "length u mod 4 \<noteq> 1" using t(2,4) unfolding t(1) by auto presburger
  moreover have "those (map base64_value u) \<noteq> None" using u by (rule those_total)
  ultimately show "\<exists>binary. atob t = Some binary" by (auto simp: atob_def)
qed

theorem shape_check_decides_witness: "\<exists>binary. atob (js ''UE5H'') = Some binary"
proof (rule shape_check_decides)
  show "hasValidBase64Shape (js ''UE5H'')" by code_simp
qed

section \<open>Round trip\<close>

lemma base64_char_base64: "v < 64 \<Longrightarrow> isBase64Character (base64_char v)"
  by (simp add: isBase64Character_iff)

lemma encoded_ascii: "\<forall>c \<in> set (encodeBase64 bytes). c < 128 \<and> \<not> white_space c"
proof -
  have "\<forall>v \<in> set (sextets (map unat bytes)). v < 64" by (rule sextets_bound) simp
  then show ?thesis
    using base64_char_plain
    by (auto simp: encodeBase64_groups base64_groups_sextets white_space_def)
qed

lemma encoded_shape:
  assumes "bytes \<noteq> []" shows "hasValidBase64Shape (encodeBase64 bytes)"
proof (rule valid_shapeI)
  let ?t = "map unat bytes"
  show "encodeBase64 bytes = map base64_char (sextets ?t) @ replicate (pad_length (length ?t)) 61"
    by (simp add: encodeBase64_groups base64_groups_sextets)
  show "pad_length (length ?t) \<le> 2" by (simp add: pad_length_def)
  have "\<forall>v \<in> set (sextets ?t). v < 64" by (rule sextets_bound) simp
  then show "list_all isBase64Character (map base64_char (sextets ?t))"
    by (auto simp: list_all_iff base64_char_base64)
  have len: "length (encodeBase64 bytes) = 4 * ((length bytes + 2) div 3)"
    by (simp add: encodeBase64_groups base64_groups_length)
  have "0 < (length bytes + 2) div 3" using assms by (cases bytes) (simp_all add: div_greater_zero_iff)
  then have "0 < length (encodeBase64 bytes)" using len by simp
  then show "encodeBase64 bytes \<noteq> []" by (metis length_greater_0_conv)
  show "length (encodeBase64 bytes) mod 4 = 0" by (simp only: len mod_mult_self1_is_0)
qed

lemma decode_encode_base64: "bytes \<noteq> [] \<Longrightarrow> decodeBase64 (encodeBase64 bytes) = Inr bytes"
  using encoded_ascii [of bytes]
  by (simp add: decodeBase64_def trim_units_id encoded_shape Let_def)
    (simp add: encodeBase64_groups atob_btoa comp_def)

end
