(* ===== verification/PngChunks.thy ===== *)
theory PngChunks
  imports SnapshotBase64
begin

text \<open>
  The container of an agent image: \<open>readU32\<close>, \<open>writeU32\<close>, \<open>makeChunk\<close>, \<open>parseChunks\<close> and
  \<open>getPngDimensions\<close> of \<open>src/src/features/agents/agent-snapshot/pngCodec.ts\<close> with the limits of
  \<open>schema.ts\<close>. A \<open>Uint8Array\<close> is its list of bytes and \<open>subarray\<close> the slice. \<open>parseChunks\<close> is compared
  with a grammar: a signature and a list of (type, data) items laid out one after the other.
\<close>

section \<open>The code\<close>

definition MAX_SNAPSHOT_PNG_BYTES :: nat where "MAX_SNAPSHOT_PNG_BYTES = 10 * 1024 * 1024"
definition MAX_SNAPSHOT_AVATAR_ANIMATION_BYTES :: nat where
  "MAX_SNAPSHOT_AVATAR_ANIMATION_BYTES = 5 * 1024 * 1024"
definition MAX_SNAPSHOT_IMAGE_DIMENSION :: nat where "MAX_SNAPSHOT_IMAGE_DIMENSION = 8192"
definition MAX_SNAPSHOT_IMAGE_PIXELS :: nat where "MAX_SNAPSHOT_IMAGE_PIXELS = 16777216"
definition MAX_SNAPSHOT_PNG_CHUNKS :: nat where "MAX_SNAPSHOT_PNG_CHUNKS = 4096"
definition MAX_SAFE_INTEGER :: nat where "MAX_SAFE_INTEGER = 2 ^ 53 - 1"

definition PNG_SIGNATURE :: "byte list" where
  "PNG_SIGNATURE = map byte_of [137, 80, 78, 71, 13, 10, 26, 10]"

record chunk =
  chunk_start :: nat
  chunk_end :: nat
  chunk_type :: ustring
  chunk_data :: "byte list"

definition subarray :: "'a list \<Rightarrow> nat \<Rightarrow> nat \<Rightarrow> 'a list" where
  "subarray bytes from until = take (until - from) (drop from bytes)"

definition set_at :: "byte list \<Rightarrow> byte list \<Rightarrow> nat \<Rightarrow> byte list" where
  "set_at bytes source offset = take offset bytes @ source @ drop (offset + length source) bytes"

definition readU32 :: "byte list \<Rightarrow> nat \<Rightarrow> nat" where
  "readU32 bytes offset =
    unat (bytes ! offset) * 0x1000000 + unat (bytes ! (offset + 1)) * 0x10000 +
    unat (bytes ! (offset + 2)) * 0x100 + unat (bytes ! (offset + 3))"

definition writeU32 :: "byte list \<Rightarrow> nat \<Rightarrow> nat \<Rightarrow> byte list" where
  "writeU32 bytes offset v = bytes
    [offset := byte_of (v div 0x1000000), offset + 1 := byte_of (v div 0x10000),
     offset + 2 := byte_of (v div 0x100), offset + 3 := byte_of v]"

definition png_error :: "string \<Rightarrow> 'a snapshot_result" where
  "png_error m = Inl (AgentSnapshotError m InvalidPng)"

definition type_letter :: "byte \<Rightarrow> bool" where
  "type_letter b \<longleftrightarrow> 65 \<le> unat b \<and> unat b \<le> 122 \<and> (unat b < 91 \<or> unat b > 96)"

definition dimensions_exceed :: "nat \<Rightarrow> nat \<Rightarrow> bool" where
  "dimensions_exceed width height \<longleftrightarrow>
    width = 0 \<or> height = 0 \<or> width > MAX_SNAPSHOT_IMAGE_DIMENSION \<or>
    height > MAX_SNAPSHOT_IMAGE_DIMENSION \<or> width > MAX_SNAPSHOT_IMAGE_PIXELS div height"

definition parse_chunk :: "byte list \<Rightarrow> nat \<Rightarrow> chunk list \<Rightarrow> bool \<Rightarrow> chunk snapshot_result" where
  \<comment> \<open>the body of the loop, up to \<open>chunks.push\<close>\<close>
  "parse_chunk bytes offset chunks sawIend =
    (if length chunks \<ge> MAX_SNAPSHOT_PNG_CHUNKS then png_error ''PNG contains too many chunks''
     else if length bytes - offset < 12 then png_error ''Truncated PNG chunk''
     else
       let len = readU32 bytes offset; end = offset + 12 + len in
       if end > MAX_SAFE_INTEGER \<or> end > length bytes then png_error ''PNG chunk exceeds file bounds''
       else
         let typeBytes = subarray bytes (offset + 4) (offset + 8) in
         if \<not> list_all type_letter typeBytes then png_error ''PNG contains an invalid chunk type''
         else
           let type = map unat typeBytes; expectedCrc = readU32 bytes (end - 4) in
           if unat (crc32 (subarray bytes (offset + 4) (end - 4))) \<noteq> expectedCrc
           then png_error (''Invalid CRC for PNG '' @ map char_of type @ '' chunk'')
           else if chunks = [] \<and> type \<noteq> js ''IHDR'' then png_error ''PNG must begin with IHDR''
           else if type = js ''IHDR'' \<and> (chunks \<noteq> [] \<or> len \<noteq> 13)
           then png_error ''PNG contains an invalid IHDR''
           else if type = js ''IHDR'' \<and>
             dimensions_exceed (readU32 bytes (offset + 8)) (readU32 bytes (offset + 8 + 4))
           then png_error ''PNG dimensions exceed the safe preview limit''
           else if type = js ''IEND'' \<and> len \<noteq> 0 then png_error ''PNG contains an invalid IEND''
           else if sawIend then png_error ''PNG contains data after IEND''
           else Inr \<lparr> chunk_start = offset, chunk_end = end, chunk_type = type,
             chunk_data = subarray bytes (offset + 8) (end - 4) \<rparr>)"

lemma parse_chunk_advances: "parse_chunk bytes offset chunks saw = Inr c \<Longrightarrow> offset < chunk_end c"
  by (auto simp: parse_chunk_def png_error_def Let_def split: if_splits)

function parse_loop :: "byte list \<Rightarrow> nat \<Rightarrow> chunk list \<Rightarrow> bool \<Rightarrow> chunk list snapshot_result" where
  "parse_loop bytes offset chunks sawIend =
    (if offset < length bytes then
       (case parse_chunk bytes offset chunks sawIend of
          Inl e \<Rightarrow> Inl e
        | Inr c \<Rightarrow> parse_loop bytes (chunk_end c) (chunks @ [c]) (chunk_type c = js ''IEND''))
     else if \<not> sawIend then png_error ''PNG is missing IEND''
     else Inr chunks)"
  by pat_completeness auto
termination
  by (relation "measure (\<lambda>(bytes, offset, _). length bytes - offset)") (auto dest: parse_chunk_advances)

declare parse_loop.simps [simp del]

definition parseChunks :: "byte list \<Rightarrow> chunk list snapshot_result" where
  "parseChunks bytes =
    (if length bytes > MAX_SNAPSHOT_PNG_BYTES
     then Inl (AgentSnapshotError ''Agent image exceeds the 10 MiB limit'' TooLarge)
     else if length bytes < length PNG_SIGNATURE \<or> take (length PNG_SIGNATURE) bytes \<noteq> PNG_SIGNATURE
     then png_error ''Invalid PNG signature''
     else parse_loop bytes (length PNG_SIGNATURE) [] False)"

definition getPngDimensions :: "byte list \<Rightarrow> (nat \<times> nat) snapshot_result" where
  "getPngDimensions bytes =
    (case parseChunks bytes of
       Inl e \<Rightarrow> Inl e
     | Inr chunks \<Rightarrow>
         if chunks = [] \<or> chunk_type (hd chunks) \<noteq> js ''IHDR'' then png_error ''PNG must begin with IHDR''
         else Inr (readU32 (chunk_data (hd chunks)) 0, readU32 (chunk_data (hd chunks)) 4))"

definition makeChunk :: "ustring \<Rightarrow> byte list \<Rightarrow> byte list" where
  "makeChunk type data =
    (let c = replicate (length data + 12) 0;
         c = writeU32 c 0 (length data);
         c = set_at c (utf8_encode type) 4;
         c = set_at c data 8
     in writeU32 c (length c - 4) (unat (crc32 (subarray c 4 (length c - 4)))))"

section \<open>Numbers of four bytes\<close>

definition be32 :: "nat \<Rightarrow> byte list" where
  "be32 v = map byte_of [v div 0x1000000, v div 0x10000, v div 0x100, v]"

lemma length_be32 [simp]: "length (be32 v) = 4"
  by (simp add: be32_def)

lemma take_four: "offset + 4 \<le> length bytes \<Longrightarrow>
  take 4 (drop offset bytes) = [bytes ! offset, bytes ! (offset + 1), bytes ! (offset + 2), bytes ! (offset + 3)]"
  by (rule nth_equalityI) (auto simp: less_Suc_eq numeral_eq_Suc)

lemma readU32_bound: "readU32 bytes offset < 0x100000000"
  using unat_byte [of "bytes ! offset"] unat_byte [of "bytes ! (offset + 1)"]
    unat_byte [of "bytes ! (offset + 2)"] unat_byte [of "bytes ! (offset + 3)"]
  unfolding readU32_def by linarith

lemma byte_of_mod: "byte_of n = byte_of (n mod 256)"
  by (simp add: byte_of_def word_of_nat_eq_iff take_bit_eq_mod)

lemma unat_byte_of_mod: "unat (byte_of n) = n mod 256"
  by (subst byte_of_mod) simp

lemma div_chain: "(v :: nat) div 0x10000 = v div 0x100 div 0x100" "v div 0x1000000 = v div 0x100 div 0x100 div 0x100"
  by (simp_all flip: div_mult2_eq)

lemma byte_of_horner: "byte_of (x * 256 + d) = byte_of d"
  by (subst byte_of_mod) (simp flip: byte_of_mod)

lemma horner_div: "d < 256 \<Longrightarrow> (x * 256 + d) div 256 = (x :: nat)"
  by simp

lemma be32_readU32:
  assumes "offset + 4 \<le> length bytes"
  shows "be32 (readU32 bytes offset) = take 4 (drop offset bytes)"
proof -
  obtain a b c d where abcd: "unat (bytes ! offset) = a" "unat (bytes ! (offset + 1)) = b"
    "unat (bytes ! (offset + 2)) = c" "unat (bytes ! (offset + 3)) = d" "a < 256" "b < 256" "c < 256" "d < 256"
    using unat_byte by blast
  have "byte_of a = bytes ! offset" "byte_of b = bytes ! (offset + 1)"
    "byte_of c = bytes ! (offset + 2)" "byte_of d = bytes ! (offset + 3)"
    using abcd(1-4) by auto
  moreover have horner: "readU32 bytes offset = ((a * 256 + b) * 256 + c) * 256 + d"
    unfolding readU32_def abcd(1-4) by simp
  have "byte_of (readU32 bytes offset div 0x1000000) = byte_of a"
    "byte_of (readU32 bytes offset div 0x10000) = byte_of b"
    "byte_of (readU32 bytes offset div 0x100) = byte_of c" "byte_of (readU32 bytes offset) = byte_of d"
    unfolding horner div_chain horner_div [OF abcd(8)] horner_div [OF abcd(7)] horner_div [OF abcd(6)]
    by (rule refl byte_of_horner)+
  ultimately show ?thesis
    by (simp add: take_four [OF assms] be32_def)
qed

lemma readU32_be32:
  assumes "take 4 (drop offset bytes) = be32 v" "v < 0x100000000" "offset + 4 \<le> length bytes"
  shows "readU32 bytes offset = v"
proof -
  have "bytes ! offset = byte_of (v div 0x1000000)" "bytes ! (offset + 1) = byte_of (v div 0x10000)"
    "bytes ! (offset + 2) = byte_of (v div 0x100)" "bytes ! (offset + 3) = byte_of v"
    using assms(1) by (simp_all add: take_four [OF assms(3)] be32_def)
  then have "readU32 bytes offset
      = v div 0x1000000 mod 256 * 0x1000000 + v div 0x10000 mod 256 * 0x10000
        + v div 0x100 mod 256 * 0x100 + v mod 256"
    by (simp add: readU32_def unat_byte_of_mod)
  also have "\<dots> = v"
  proof -
    define q where "q = v div 0x100"
    define r where "r = q div 0x100"
    define u where "u = r div 0x100"
    have "v = q * 256 + v mod 256" "q = r * 256 + q mod 256" "r = u * 256 + r mod 256"
      by (simp_all add: q_def r_def u_def)
    moreover have "u mod 256 = u" using assms(2) by (simp add: u_def r_def q_def flip: div_mult2_eq)
    ultimately show ?thesis unfolding div_chain by (fold q_def, fold r_def, fold u_def) linarith
  qed
  finally show ?thesis .
qed

section \<open>One chunk\<close>

lemma subarray_full: "offset + n \<le> length bytes \<Longrightarrow> length (subarray bytes offset (offset + n)) = n"
  by (simp add: subarray_def)

definition chunk_name :: "ustring \<Rightarrow> bool" where
  "chunk_name t \<longleftrightarrow> length t = 4 \<and> (\<forall>c \<in> set t. c < 128 \<and> type_letter (byte_of c))"

definition item_bytes :: "ustring \<times> byte list \<Rightarrow> byte list" where
  \<comment> \<open>the layout of a chunk: length, type, data, checksum\<close>
  "item_bytes p = be32 (length (snd p)) @ map byte_of (fst p) @ snd p
    @ be32 (unat (crc32 (map byte_of (fst p) @ snd p)))"

lemma utf8_encode_ascii: "\<forall>c \<in> set t. c < 128 \<Longrightarrow> utf8_encode t = map byte_of t"
  by (induction t) (simp_all add: utf8_encode_def utf8_char_def)

lemma length_writeU32 [simp]: "length (writeU32 bytes offset v) = length bytes"
  by (simp add: writeU32_def)

lemma writeU32_append:
  assumes "length old = 4" shows "writeU32 (pre @ old @ post) (length pre) v = pre @ be32 v @ post"
proof -
  obtain a b c d where "old = [a, b, c, d]"
    using assms by (auto simp: length_Suc_conv eval_nat_numeral)
  then show ?thesis by (simp add: writeU32_def be32_def list_update_append)
qed

lemma set_at_append:
  "length old = length source \<Longrightarrow> set_at (pre @ old @ post) source (length pre) = pre @ source @ post"
  by (simp add: set_at_def)

lemma makeChunk_item:
  assumes "chunk_name t" shows "makeChunk t d = item_bytes (t, d)"
proof -
  have name: "utf8_encode t = map byte_of t" "length t = 4"
    using assms by (simp_all add: chunk_name_def utf8_encode_ascii)
  have "replicate (length d + 12) (0 :: byte)
      = [] @ replicate 4 0 @ (replicate 4 0 @ replicate (length d) 0 @ replicate 4 0)"
    by (simp flip: replicate_add)
  then have a: "writeU32 (replicate (length d + 12) 0) 0 (length d)
      = be32 (length d) @ replicate 4 0 @ (replicate (length d) 0 @ replicate 4 0)"
    using writeU32_append [of "replicate 4 0" "[]"] by simp
  have b: "set_at (be32 (length d) @ replicate 4 0 @ (replicate (length d) 0 @ replicate 4 0)) (map byte_of t) 4
      = be32 (length d) @ map byte_of t @ (replicate (length d) 0 @ replicate 4 0)"
    using set_at_append [of "replicate 4 0" "map byte_of t" "be32 (length d)"] name by simp
  have c: "set_at (be32 (length d) @ map byte_of t @ (replicate (length d) 0 @ replicate 4 0)) d 8
      = (be32 (length d) @ map byte_of t @ d) @ replicate 4 0 @ []"
    using set_at_append [of "replicate (length d) 0" d "be32 (length d) @ map byte_of t"] name by simp
  have l: "length ((be32 (length d) @ map byte_of t @ d) @ replicate 4 0 @ []) - 4
      = length (be32 (length d) @ map byte_of t @ d)" by simp
  have s: "subarray ((be32 (length d) @ map byte_of t @ d) @ replicate 4 0 @ []) 4
      (length (be32 (length d) @ map byte_of t @ d)) = map byte_of t @ d"
    by (simp add: subarray_def)
  show ?thesis
    unfolding makeChunk_def Let_def name(1) a b c l s
    by (subst writeU32_append) (simp_all add: item_bytes_def)
qed

lemma length_item_bytes [simp]: "length (item_bytes p) = length (fst p) + length (snd p) + 8"
  by (simp add: item_bytes_def)

text \<open>What a loop iteration accepts: an item at the offset that keeps the order rules.\<close>

definition step_ok :: "chunk list \<Rightarrow> bool \<Rightarrow> ustring \<Rightarrow> byte list \<Rightarrow> bool" where
  "step_ok chunks sawIend t d \<longleftrightarrow>
    length chunks < MAX_SNAPSHOT_PNG_CHUNKS \<and> \<not> sawIend \<and> chunk_name t \<and> length d < 0x100000000 \<and>
    (chunks = [] \<longleftrightarrow> t = js ''IHDR'') \<and>
    (t = js ''IHDR'' \<longrightarrow> length d = 13 \<and> \<not> dimensions_exceed (readU32 d 0) (readU32 d 4)) \<and>
    (t = js ''IEND'' \<longrightarrow> d = [])"

definition chunk_at :: "nat \<Rightarrow> ustring \<Rightarrow> byte list \<Rightarrow> chunk" where
  "chunk_at offset t d = \<lparr> chunk_start = offset, chunk_end = offset + 12 + length d,
    chunk_type = t, chunk_data = d \<rparr>"

lemma type_letter_low: "type_letter b \<Longrightarrow> unat b < 128"
  by (simp add: type_letter_def)

lemma readU32_cong:
  assumes "take 4 (drop i xs) = take 4 (drop j ys)" "i + 4 \<le> length xs" "j + 4 \<le> length ys"
  shows "readU32 xs i = readU32 ys j"
  using assms(1) by (simp add: take_four [OF assms(2)] take_four [OF assms(3)] readU32_def)

lemma parse_chunk_sound:
  assumes "parse_chunk bytes offset chunks saw = Inr c"
  shows "\<exists>t d. step_ok chunks saw t d \<and> c = chunk_at offset t d
    \<and> take (12 + length d) (drop offset bytes) = item_bytes (t, d) \<and> offset + 12 + length d \<le> length bytes"
proof -
  let ?len = "readU32 bytes offset"
  let ?fin = "offset + 12 + ?len"
  define t where "t = map unat (subarray bytes (offset + 4) (offset + 8))"
  define d where "d = subarray bytes (offset + 8) (?fin - 4)"
  have n: "\<not> length chunks \<ge> MAX_SNAPSHOT_PNG_CHUNKS" "12 \<le> length bytes - offset" "?fin \<le> length bytes"
    and letters: "list_all type_letter (subarray bytes (offset + 4) (offset + 8))"
    and crc: "unat (crc32 (subarray bytes (offset + 4) (?fin - 4))) = readU32 bytes (?fin - 4)"
    and o1: "chunks = [] \<longrightarrow> t = js ''IHDR''" and o2: "t = js ''IHDR'' \<longrightarrow> chunks = [] \<and> ?len = 13"
    and dims: "t = js ''IHDR'' \<longrightarrow> \<not> dimensions_exceed (readU32 bytes (offset + 8)) (readU32 bytes (offset + 8 + 4))"
    and iend: "t = js ''IEND'' \<longrightarrow> ?len = 0" and "\<not> saw"
    and c: "c = \<lparr> chunk_start = offset, chunk_end = ?fin, chunk_type = t, chunk_data = d \<rparr>"
    using assms unfolding parse_chunk_def png_error_def Let_def t_def d_def
    by (simp_all split: if_splits)
  have ld: "length d = ?len" using n by (simp add: d_def subarray_def)
  have tb: "map byte_of t = take 4 (drop (offset + 4) bytes)" by (simp add: t_def subarray_def comp_def)
  have td: "subarray bytes (offset + 4) (?fin - 4) = map byte_of t @ d"
    unfolding tb d_def subarray_def
    using take_add [of 4 "?len" "drop (offset + 4) bytes"] by (simp add: add.commute)
  have name: "chunk_name t"
    using letters n by (auto simp: chunk_name_def t_def subarray_def list_all_iff dest: type_letter_low)
  have crc_bytes: "be32 (unat (crc32 (map byte_of t @ d))) = take 4 (drop (?fin - 4) bytes)"
    unfolding td [symmetric] crc by (rule be32_readU32) (use n in simp)
  have len_bytes: "be32 ?len = take 4 (drop offset bytes)"
    by (rule be32_readU32) (use n in simp)
  have "take (12 + ?len) (drop offset bytes) = take 4 (drop offset bytes) @ take 4 (drop (offset + 4) bytes)
      @ d @ take 4 (drop (?fin - 4) bytes)"
  proof -
    have "12 + ?len = 4 + (4 + (?len + 4))" by simp
    then show ?thesis
      unfolding d_def subarray_def
      by (simp only: take_add drop_drop) (simp add: ac_simps)
  qed
  also have "\<dots> = item_bytes (t, d)"
    by (simp only: item_bytes_def fst_conv snd_conv ld crc_bytes len_bytes) (simp only: tb)
  finally have item: "take (12 + length d) (drop offset bytes) = item_bytes (t, d)" by (simp add: ld)
  have r: "readU32 d i = readU32 bytes (offset + 8 + i)" if "i + 4 \<le> length d" for i
  proof (rule readU32_cong)
    show "take 4 (drop i d) = take 4 (drop (offset + 8 + i) bytes)"
      using that n(3) ld by (simp add: d_def subarray_def drop_take add.commute add.left_commute min_def)
  qed (use that n ld in simp_all)
  have "d = [] \<longleftrightarrow> ?len = 0" using ld by auto
  then have "step_ok chunks saw t d"
    using n name o1 o2 dims iend \<open>\<not> saw\<close> r [of 0] r [of 4] readU32_bound [of bytes offset]
    by (auto simp: step_ok_def ld)
  then show ?thesis using c ld n item by (auto simp: chunk_at_def)
qed

lemma parse_chunk_complete:
  assumes "step_ok chunks saw t d" "take (12 + length d) (drop offset bytes) = item_bytes (t, d)"
    "offset + 12 + length d \<le> length bytes" "length bytes \<le> MAX_SAFE_INTEGER"
  shows "parse_chunk bytes offset chunks saw = Inr (chunk_at offset t d)"
proof -
  have t: "length t = 4" "\<forall>c \<in> set t. c < 128 \<and> type_letter (byte_of c)"
    using assms(1) by (simp_all add: step_ok_def chunk_name_def)
  have piece: "take k (drop (offset + m) bytes) = take k (drop m (item_bytes (t, d)))" if "m + k \<le> 12 + length d" for m k
    using that by (simp add: drop_take min_def add.commute flip: assms(2))
  have len: "readU32 bytes offset = length d"
    by (rule readU32_be32) (use piece [of 0 4] assms in \<open>simp_all add: item_bytes_def step_ok_def\<close>)
  have tb: "subarray bytes (offset + 4) (offset + 8) = map byte_of t"
    using piece [of 4 4] t by (simp add: item_bytes_def subarray_def)
  have tn: "map unat (map byte_of t) = t"
    using t(2) by (auto simp: comp_def intro!: map_idI)
  have td: "subarray bytes (offset + 4) (offset + 12 + length d - 4) = map byte_of t @ d"
    using piece [of 4 "4 + length d"] t by (simp add: item_bytes_def subarray_def)
  have crc: "readU32 bytes (offset + 12 + length d - 4) = unat (crc32 (map byte_of t @ d))"
  proof (rule readU32_be32)
    have "unat (crc32 (map byte_of t @ d)) < 2 ^ LENGTH(32)" by (rule unsigned_less)
    then show "unat (crc32 (map byte_of t @ d)) < 0x100000000" by simp
    show "take 4 (drop (offset + 12 + length d - 4) bytes) = be32 (unat (crc32 (map byte_of t @ d)))"
      using piece [of "8 + length d" 4] t by (simp add: item_bytes_def ac_simps)
  qed (use assms(3) in simp)
  have dd: "subarray bytes (offset + 8) (offset + 12 + length d - 4) = d"
    using piece [of 8 "length d"] t by (simp add: item_bytes_def subarray_def)
  have r: "readU32 bytes (offset + 8 + i) = readU32 d i" if "i + 4 \<le> length d" for i
    by (rule readU32_cong)
      (use that piece [of "8 + i" 4] assms(3) t in \<open>simp_all add: item_bytes_def add.commute add.left_commute\<close>)
  have dims: "t = js ''IHDR'' \<Longrightarrow> \<not> dimensions_exceed (readU32 bytes (offset + 8)) (readU32 bytes (offset + 8 + 4))"
    using assms(1) r [of 0] r [of 4] by (simp add: step_ok_def)
  show ?thesis
    using assms(1,3,4) dims t(2)
    unfolding parse_chunk_def Let_def len tb tn td crc dd
    by (auto simp: step_ok_def chunk_at_def list_all_iff)
qed

section \<open>The grammar\<close>

fun layout :: "nat \<Rightarrow> (ustring \<times> byte list) list \<Rightarrow> chunk list" where
  "layout offset [] = []"
| "layout offset ((t, d) # ps) = chunk_at offset t d # layout (offset + 12 + length d) ps"

definition png_bytes :: "(ustring \<times> byte list) list \<Rightarrow> byte list" where
  "png_bytes ps = PNG_SIGNATURE @ concat (map item_bytes ps)"

fun items_ok :: "nat \<Rightarrow> bool \<Rightarrow> (ustring \<times> byte list) list \<Rightarrow> bool" where
  \<comment> \<open>the order rules after \<open>k\<close> chunks, the last of which was IEND or not\<close>
  "items_ok k ended [] \<longleftrightarrow> ended"
| "items_ok k ended ((t, d) # ps) \<longleftrightarrow>
    k < MAX_SNAPSHOT_PNG_CHUNKS \<and> \<not> ended \<and> chunk_name t \<and> length d < 0x100000000 \<and>
    (k = 0 \<longleftrightarrow> t = js ''IHDR'') \<and>
    (t = js ''IHDR'' \<longrightarrow> length d = 13 \<and> \<not> dimensions_exceed (readU32 d 0) (readU32 d 4)) \<and>
    (t = js ''IEND'' \<longrightarrow> d = []) \<and>
    items_ok (Suc k) (t = js ''IEND'') ps"

lemma items_ok_Cons:
  "items_ok (length cs) saw ((t, d) # ps) \<longleftrightarrow> step_ok cs saw t d \<and> items_ok (Suc (length cs)) (t = js ''IEND'') ps"
  by (auto simp: step_ok_def)

lemma length_item: "chunk_name (fst p) \<Longrightarrow> length (item_bytes p) = 12 + length (snd p)"
  by (simp add: chunk_name_def)

lemma parse_loop_complete:
  assumes "items_ok (length chunks) saw ps" "drop offset bytes = concat (map item_bytes ps)"
    "offset \<le> length bytes" "length bytes \<le> MAX_SAFE_INTEGER"
  shows "parse_loop bytes offset chunks saw = Inr (chunks @ layout offset ps)"
  using assms(1-3)
proof (induction ps arbitrary: chunks saw offset)
  case Nil
  then show ?case by (subst parse_loop.simps) simp
next
  case (Cons p ps)
  obtain t d where p: "p = (t, d)" by fastforce
  have ok: "step_ok chunks saw t d" and rest: "items_ok (length (chunks @ [chunk_at offset t d])) (t = js ''IEND'') ps"
    using Cons.prems(1) unfolding p items_ok_Cons by simp_all
  have li: "length (item_bytes p) = 12 + length d"
    using ok by (simp add: p step_ok_def chunk_name_def)
  have "take (12 + length d) (drop offset bytes) = item_bytes (t, d)"
    using li Cons.prems(2) by (simp add: p)
  moreover have en: "offset + 12 + length d \<le> length bytes"
    using arg_cong [OF Cons.prems(2), of length] li Cons.prems(3) by simp
  ultimately have step: "parse_chunk bytes offset chunks saw = Inr (chunk_at offset t d)"
    using ok assms(4) by (intro parse_chunk_complete)
  have "drop (offset + 12 + length d) bytes = drop (12 + length d) (drop offset bytes)"
    by (simp add: add.commute add.left_commute)
  then have "drop (offset + 12 + length d) bytes = concat (map item_bytes ps)"
    using li Cons.prems(2) by simp
  from Cons.IH [OF rest this en] show ?case
    using en by (subst parse_loop.simps) (simp add: step p chunk_at_def)
qed

lemma parse_loop_sound:
  assumes "parse_loop bytes offset chunks saw = Inr cs" "offset \<le> length bytes"
  shows "\<exists>ps. items_ok (length chunks) saw ps \<and> drop offset bytes = concat (map item_bytes ps)
    \<and> cs = chunks @ layout offset ps"
  using assms
proof (induction bytes offset chunks saw rule: parse_loop.induct)
  case (1 bytes offset chunks saw)
  show ?case
  proof (cases "offset < length bytes")
    case False
    then have "saw" "cs = chunks" "drop offset bytes = []"
      using "1.prems" parse_loop.simps [of bytes offset chunks saw]
      by (simp_all add: png_error_def split: if_splits)
    then show ?thesis by (intro exI [of _ "[]"]) simp
  next
    case True
    then obtain c where c: "parse_chunk bytes offset chunks saw = Inr c"
      and l: "parse_loop bytes (chunk_end c) (chunks @ [c]) (chunk_type c = js ''IEND'') = Inr cs"
      using "1.prems" by (auto simp: parse_loop.simps [of bytes offset] split: sum.splits)
    from parse_chunk_sound [OF c] obtain t d where td: "step_ok chunks saw t d" "c = chunk_at offset t d"
      "take (12 + length d) (drop offset bytes) = item_bytes (t, d)" "offset + 12 + length d \<le> length bytes"
      by blast
    have "chunk_end c \<le> length bytes" using td by (simp add: chunk_at_def)
    from "1.IH" [OF True c l this] obtain ps where ps: "items_ok (Suc (length chunks)) (t = js ''IEND'') ps"
      "drop (offset + 12 + length d) bytes = concat (map item_bytes ps)"
      "cs = chunks @ c # layout (offset + 12 + length d) ps"
      using td(2) by (auto simp: chunk_at_def)
    have "drop offset bytes = item_bytes (t, d) @ drop (offset + 12 + length d) bytes"
      using append_take_drop_id [of "12 + length d" "drop offset bytes"] td(3)
      by (simp add: add.commute add.left_commute)
    then show ?thesis using ps td
      by (intro exI [of _ "(t, d) # ps"]) (simp add: items_ok_Cons del: items_ok.simps)
  qed
qed

lemma length_signature [simp]: "length PNG_SIGNATURE = 8"
  by (simp add: PNG_SIGNATURE_def)

lemma max_bytes_safe: "n \<le> MAX_SNAPSHOT_PNG_BYTES \<Longrightarrow> n \<le> MAX_SAFE_INTEGER"
  by (simp add: MAX_SNAPSHOT_PNG_BYTES_def MAX_SAFE_INTEGER_def)

lemma parseChunks_layout:
  "parseChunks bytes = Inr cs \<longleftrightarrow>
    (\<exists>ps. items_ok 0 False ps \<and> bytes = png_bytes ps \<and> length bytes \<le> MAX_SNAPSHOT_PNG_BYTES
      \<and> cs = layout 8 ps)"
proof
  assume p: "parseChunks bytes = Inr cs"
  then have len: "length bytes \<le> MAX_SNAPSHOT_PNG_BYTES" "8 \<le> length bytes" "take 8 bytes = PNG_SIGNATURE"
    and l: "parse_loop bytes 8 [] False = Inr cs"
    by (auto simp: parseChunks_def png_error_def split: if_splits)
  from parse_loop_sound [OF l len(2)] obtain ps where
    ps: "items_ok 0 False ps" "drop 8 bytes = concat (map item_bytes ps)" "cs = layout 8 ps" by auto
  have "bytes = png_bytes ps"
    using append_take_drop_id [of 8 bytes] ps(2) len(3) by (simp add: png_bytes_def)
  then show "\<exists>ps. items_ok 0 False ps \<and> bytes = png_bytes ps \<and> length bytes \<le> MAX_SNAPSHOT_PNG_BYTES
      \<and> cs = layout 8 ps"
    using ps len(1) by blast
next
  assume "\<exists>ps. items_ok 0 False ps \<and> bytes = png_bytes ps \<and> length bytes \<le> MAX_SNAPSHOT_PNG_BYTES
      \<and> cs = layout 8 ps"
  then obtain ps where ps: "items_ok 0 False ps" "bytes = png_bytes ps" "length bytes \<le> MAX_SNAPSHOT_PNG_BYTES"
    "cs = layout 8 ps" by blast
  have "parse_loop bytes 8 [] False = Inr ([] @ layout 8 ps)"
    by (rule parse_loop_complete) (use ps max_bytes_safe in \<open>simp_all add: png_bytes_def\<close>)
  then show "parseChunks bytes = Inr cs"
    using ps by (simp add: parseChunks_def png_bytes_def)
qed

text \<open>
  C14. \<open>parseChunks\<close> accepts exactly the files of the grammar and returns their layout: a byte
  sequence of at most 10 MiB is accepted iff it is the signature followed by items (length, type,
  data, checksum) one after the other, at most 4096 of them, the first and only the first an IHDR
  of 13 bytes within the dimension limits, the last and only the last an empty IEND; the chunks
  returned are those items with their offsets, and every other sequence is an error.
\<close>

theorem parseChunks_grammar:
  "parseChunks bytes = Inr cs \<longleftrightarrow>
    (\<exists>ps. items_ok 0 False ps \<and> bytes = png_bytes ps \<and> length bytes \<le> MAX_SNAPSHOT_PNG_BYTES
      \<and> cs = layout 8 ps)"
  by (rule parseChunks_layout)

section \<open>Damage inside a chunk\<close>

text \<open>
  The interface of a self-delimiting layout: two encoded values that start the same bytes are the same
  value. Sequences of such values can then be read back from their concatenation.
\<close>

locale self_delimiting =
  fixes enc :: "'a \<Rightarrow> 'b list" and ok :: "'a \<Rightarrow> bool"
  assumes enc_inj: "ok p \<Longrightarrow> ok q \<Longrightarrow> enc p @ xs = enc q @ ys \<Longrightarrow> p = q \<and> xs = ys"
    and enc_nonempty: "ok p \<Longrightarrow> enc p \<noteq> []"
begin

lemma split_prefix:
  "\<lbrakk>\<forall>p \<in> set ps. ok p; \<forall>p \<in> set qs. ok p; concat (map enc qs) = concat (map enc ps) @ xs\<rbrakk>
    \<Longrightarrow> \<exists>rs. qs = ps @ rs \<and> concat (map enc rs) = xs"
proof (induction ps arbitrary: qs)
  case (Cons p ps)
  then obtain q qs' where q: "qs = q # qs'" using enc_nonempty [of p] by (cases qs) auto
  then have "p = q \<and> concat (map enc qs') = concat (map enc ps) @ xs"
    using Cons.prems enc_inj [of q p "concat (map enc qs')"] by auto
  then show ?case using Cons.IH [of qs'] Cons.prems q by auto
qed simp

lemma concat_inj:
  assumes "\<forall>p \<in> set ps. ok p" "\<forall>p \<in> set qs. ok p" "concat (map enc ps) = concat (map enc qs)"
  shows "ps = qs"
proof -
  obtain rs where rs: "qs = ps @ rs" "concat (map enc rs) = []"
    using split_prefix [OF assms(1,2), of "[]"] assms(3) by auto
  then have "rs = []" using enc_nonempty assms(2) by (cases rs) auto
  then show ?thesis using rs by simp
qed

end

lemma be32_inj: "be32 a = be32 b \<Longrightarrow> a < 0x100000000 \<Longrightarrow> b < 0x100000000 \<Longrightarrow> a = b"
  using readU32_be32 [of 0 "be32 a" a] readU32_be32 [of 0 "be32 a" b] by simp

definition item_ok :: "ustring \<times> byte list \<Rightarrow> bool" where
  "item_ok p \<longleftrightarrow> chunk_name (fst p) \<and> length (snd p) < 0x100000000"

lemma items_ok_item: "items_ok k saw ps \<Longrightarrow> p \<in> set ps \<Longrightarrow> item_ok p"
  by (induction k saw ps rule: items_ok.induct) (auto simp: item_ok_def)

lemma map_byte_of_inj:
  "\<lbrakk>\<forall>c \<in> set t. c < 128; \<forall>c \<in> set u. c < 128; map byte_of t = map byte_of u\<rbrakk> \<Longrightarrow> t = u"
proof -
  assume a: "\<forall>c \<in> set t. c < 128" "\<forall>c \<in> set u. c < 128" "map byte_of t = map byte_of u"
  have "map unat (map byte_of x) = x" if "\<forall>c \<in> set x. c < 128" for x
    using that by (auto simp: comp_def intro!: map_idI)
  with a show "t = u" by metis
qed

text \<open>
  Items are self-delimiting: the first four bytes give the length of an item.
\<close>

lemma item_lengths:
  assumes "item_ok p" "item_ok q" "take 4 (item_bytes p @ xs) = take 4 (item_bytes q @ ys)"
  shows "length (item_bytes p) = length (item_bytes q)"
proof -
  have "be32 (length (snd p)) = be32 (length (snd q))" using assms(3) by (simp add: item_bytes_def)
  then have "length (snd p) = length (snd q)" using assms(1,2) by (auto simp: item_ok_def dest: be32_inj)
  then show ?thesis using assms(1,2) by (simp add: item_ok_def chunk_name_def)
qed

lemma item_inj:
  assumes "item_ok p" "item_ok q" "item_bytes p @ xs = item_bytes q @ ys"
  shows "p = q \<and> xs = ys"
proof -
  have len: "length (item_bytes p) = length (item_bytes q)"
    using assms by (intro item_lengths [of p q xs ys]) simp_all
  then have e: "item_bytes p = item_bytes q" "xs = ys" using assms(3) by auto
  have n: "length (fst p) = 4" "length (fst q) = 4" using assms(1,2) by (simp_all add: item_ok_def chunk_name_def)
  then have "map byte_of (fst p) = map byte_of (fst q)"
    using arg_cong [OF e(1), of "\<lambda>x. take 4 (drop 4 x)"] by (simp add: item_bytes_def)
  then have "fst p = fst q"
    using assms(1,2) by (intro map_byte_of_inj) (simp_all add: item_ok_def chunk_name_def)
  moreover have "length (snd p) = length (snd q)" using len n by simp
  then have "snd p = snd q"
    using arg_cong [OF e(1), of "\<lambda>x. take (length (snd p)) (drop 8 x)"] n by (simp add: item_bytes_def)
  ultimately show ?thesis using e(2) by (simp add: prod_eq_iff)
qed

interpretation items: self_delimiting item_bytes item_ok
  by unfold_locales (use item_inj in blast, simp add: item_bytes_def be32_def)

lemma layout_split:
  "\<lbrakk>c \<in> set (layout offset ps); \<forall>p \<in> set ps. item_ok p\<rbrakk> \<Longrightarrow>
    \<exists>ps1 t d ps2. ps = ps1 @ (t, d) # ps2 \<and> c = chunk_at (offset + length (concat (map item_bytes ps1))) t d"
proof (induction offset ps rule: layout.induct)
  case (2 offset t d ps)
  show ?case
  proof (cases "c = chunk_at offset t d")
    case True
    then show ?thesis by (intro exI [of _ "[]"] exI [of _ t] exI [of _ d] exI [of _ ps]) simp
  next
    case False
    then obtain ps1 t' d' ps2 where "ps = ps1 @ (t', d') # ps2"
      "c = chunk_at (offset + 12 + length d + length (concat (map item_bytes ps1))) t' d'"
      using 2 by auto
    moreover have "length t = 4" using 2(3) by (simp add: item_ok_def chunk_name_def)
    ultimately show ?thesis
      by (intro exI [of _ "(t, d) # ps1"]) (auto simp: ac_simps)
  qed
qed simp

lemma set_at_middle:
  assumes "length a \<le> i" "i + length w \<le> length a + length m"
  shows "set_at (a @ m @ b) w i = a @ set_at m w (i - length a) @ b"
proof -
  have "drop (i + length w) (a @ m @ b) = drop (i - length a + length w) m @ b"
    using assms by simp
  then show ?thesis using assms by (simp add: set_at_def)
qed

lemma length_set_at: "i + length w \<le> length m \<Longrightarrow> length (set_at m w i) = length m"
  by (simp add: set_at_def)

lemma damaged_body:
  assumes "crc32 (set_at m w i) = crc32 m" "i + length w \<le> length m" "length w \<le> 4"
  shows "w = subarray m i (i + length w)"
proof (rule burst_detected)
  let ?o = "subarray m i (i + length w)"
  show "length w = length ?o" using assms(2) by (simp add: subarray_full)
  then show "length ?o \<le> 4" using assms(3) by simp
  have "m = take i m @ ?o @ drop (i + length w) m"
    using append_take_drop_id [of i m] append_take_drop_id [of "length w" "drop i m"]
    by (simp add: subarray_def add.commute)
  then show "crc32 (take i m @ w @ drop (i + length w) m) = crc32 (take i m @ ?o @ drop (i + length w) m)"
    using assms(1) by (simp add: set_at_def)
qed

lemma damaged_item:
  assumes "item_ok (t, d)" "item_ok q" "4 \<le> i" "i + length w \<le> 8 + length d" "length w \<le> 4"
    and "item_bytes q @ ys = set_at (item_bytes (t, d)) w i @ xs"
  shows "w = subarray (item_bytes (t, d)) i (i + length w)"
proof -
  let ?m = "map byte_of t @ d" and ?m' = "map byte_of (fst q) @ snd q"
  have lt: "length t = 4" "length (fst q) = 4" using assms(1,2) by (simp_all add: item_ok_def chunk_name_def)
  have dam: "set_at (item_bytes (t, d)) w i
      = be32 (length d) @ set_at ?m w (i - 4) @ be32 (unat (crc32 ?m))"
    using set_at_middle [of "be32 (length d)" i w ?m "be32 (unat (crc32 ?m))"] assms(3,4) lt
    by (simp add: item_bytes_def)
  have lm: "length (set_at ?m w (i - 4)) = 4 + length d"
    using assms(3,4) lt by (simp add: length_set_at)
  have "length (item_bytes q) = length (item_bytes (t, d))"
  proof (rule item_lengths)
    show "take 4 (item_bytes q @ ys) = take 4 (item_bytes (t, d) @ xs)"
      unfolding assms(6) dam by (simp add: item_bytes_def)
  qed (use assms in auto)
  then have lq: "length (snd q) = length d" using lt by simp
  have "length (item_bytes q) = length (set_at (item_bytes (t, d)) w i)"
    unfolding dam using lq lt lm by simp
  with assms(6) have "item_bytes q = set_at (item_bytes (t, d)) w i"
    by (metis append_eq_append_conv)
  then have "?m' @ be32 (unat (crc32 ?m')) = set_at ?m w (i - 4) @ be32 (unat (crc32 ?m))"
    unfolding dam using lq by (simp add: item_bytes_def)
  moreover have "length ?m' = length (set_at ?m w (i - 4))" using lq lt lm by simp
  ultimately have "?m' = set_at ?m w (i - 4)" "be32 (unat (crc32 ?m')) = be32 (unat (crc32 ?m))"
    by (metis append_eq_append_conv)+
  moreover have "unat (crc32 x) < 0x100000000" for x
    using unsigned_less [of "crc32 x"] by simp
  ultimately have "crc32 (set_at ?m w (i - 4)) = crc32 ?m"
    by (metis be32_inj unsigned_word_eqI)
  then have "w = subarray ?m (i - 4) (i - 4 + length w)"
    using assms(3-5) lt by (intro damaged_body) simp_all
  also have "\<dots> = subarray (item_bytes (t, d)) i (i + length w)"
    using assms(3,4) lt by (simp add: item_bytes_def subarray_def)
  finally show ?thesis .
qed

text \<open>
  C15. Damage inside a chunk is rejected: if a file is accepted and up to four consecutive bytes
  between the length field and the checksum of one of its chunks are replaced by other bytes, the
  damaged file is an error, never a different set of chunks.
\<close>

theorem damaged_chunk_rejected:
  assumes "parseChunks bytes = Inr cs" "c \<in> set cs" "chunk_start c + 4 \<le> i"
    "i + length w \<le> chunk_end c - 4" "length w \<le> 4" "w \<noteq> subarray bytes i (i + length w)"
  shows "\<exists>e. parseChunks (set_at bytes w i) = Inl e"
proof (rule ccontr)
  assume "\<nexists>e. parseChunks (set_at bytes w i) = Inl e"
  then obtain cs' where "parseChunks (set_at bytes w i) = Inr cs'"
    by (cases "parseChunks (set_at bytes w i)") auto
  then obtain qs where qs: "items_ok 0 False qs" "set_at bytes w i = png_bytes qs"
    unfolding parseChunks_layout by auto
  obtain ps where ps: "items_ok 0 False ps" "bytes = png_bytes ps" "cs = layout 8 ps"
    using assms(1) unfolding parseChunks_layout by auto
  obtain ps1 t d ps2 where sp: "ps = ps1 @ (t, d) # ps2"
    and c: "c = chunk_at (8 + length (concat (map item_bytes ps1))) t d"
    using layout_split [of c 8 ps] assms(2) ps items_ok_item [OF ps(1)] by auto
  let ?pre = "PNG_SIGNATURE @ concat (map item_bytes ps1)" and ?post = "concat (map item_bytes ps2)"
  have b: "bytes = ?pre @ item_bytes (t, d) @ ?post" by (simp add: ps(2) sp png_bytes_def)
  have td: "item_ok (t, d)" using items_ok_item [OF ps(1)] sp by simp
  then have lt: "length t = 4" by (simp add: item_ok_def chunk_name_def)
  have i: "length ?pre + 4 \<le> i" "i + length w \<le> length ?pre + 8 + length d"
    using assms(3,4) by (simp_all add: c chunk_at_def)
  let ?j = "i - length ?pre"
  have "set_at bytes w i = ?pre @ set_at (item_bytes (t, d)) w ?j @ ?post"
    unfolding b using i lt by (intro set_at_middle) simp_all
  then have "concat (map item_bytes qs)
      = concat (map item_bytes ps1) @ (set_at (item_bytes (t, d)) w ?j @ ?post)"
    using qs(2) by (simp add: png_bytes_def)
  moreover have "set_at (item_bytes (t, d)) w ?j \<noteq> []"
  proof -
    have "?j + length w \<le> length (item_bytes (t, d))" using i lt by simp
    from length_set_at [OF this] show ?thesis using lt by auto
  qed
  ultimately obtain rs where rs: "qs = ps1 @ rs"
    "concat (map item_bytes rs) = set_at (item_bytes (t, d)) w ?j @ ?post"
    using items.split_prefix [of ps1 qs] items_ok_item [OF ps(1)] items_ok_item [OF qs(1)] sp by fastforce
  then obtain q rs' where q: "rs = q # rs'"
    using \<open>set_at (item_bytes (t, d)) w ?j \<noteq> []\<close> by (cases rs) auto
  have "w = subarray (item_bytes (t, d)) ?j (?j + length w)"
  proof (rule damaged_item [OF td])
    show "item_ok q" using items_ok_item [OF qs(1)] rs(1) q by simp
    show "item_bytes q @ concat (map item_bytes rs') = set_at (item_bytes (t, d)) w ?j @ ?post"
      using rs(2) q by simp
  qed (use i assms(5) in simp_all)
  also have "\<dots> = subarray bytes i (i + length w)"
    unfolding b using i lt by (simp add: subarray_def)
  finally show False using assms(6) by simp
qed

definition small_items :: "(ustring \<times> byte list) list" where
  "small_items = [(js ''IHDR'', map byte_of [0, 0, 0, 1, 0, 0, 0, 1, 8, 6, 0, 0, 0]), (js ''IEND'', [])]"

text \<open>The colour depth 8 of a one-pixel image damaged to 9.\<close>

theorem damaged_chunk_rejected_witness:
  "\<exists>e. parseChunks (set_at (png_bytes small_items) [9] 24) = Inl e"
proof -
  have "items_ok 0 False small_items"
    by (simp add: small_items_def chunk_name_def js_def type_letter_def dimensions_exceed_def readU32_def
        MAX_SNAPSHOT_PNG_CHUNKS_def MAX_SNAPSHOT_IMAGE_DIMENSION_def MAX_SNAPSHOT_IMAGE_PIXELS_def)
  then have p: "parseChunks (png_bytes small_items) = Inr (layout 8 small_items)"
    unfolding parseChunks_layout
    by (intro exI [of _ small_items])
      (simp add: small_items_def png_bytes_def js_def MAX_SNAPSHOT_PNG_BYTES_def)
  have "hd (layout 8 small_items) \<in> set (layout 8 small_items)" by (simp add: small_items_def)
  from damaged_chunk_rejected [OF p this, of 24 "[9]"] show ?thesis
    by (simp add: small_items_def chunk_at_def subarray_def png_bytes_def item_bytes_def js_def be32_def
        PNG_SIGNATURE_def byte_of_def)
qed

end
