(* ===== verification/SnapshotSchema.thy ===== *)
theory SnapshotSchema
  imports Prelude JsStrings SnapshotBase64
begin

text \<open>
  The schema of a portable agent (\<open>validateSnapshotV1\<close> and \<open>optionalString\<close> of
  \<open>src/src/features/agents/agent-snapshot/schema.ts\<close>). The untrusted value is a JSON value; the
  function returns the value it was given, with \<open>memory.entries\<close> filled in when it was missing.
\<close>

definition MAX_SNAPSHOT_NAME_LENGTH :: nat where "MAX_SNAPSHOT_NAME_LENGTH = 200"
definition MAX_SNAPSHOT_PROMPT_LENGTH :: nat where "MAX_SNAPSHOT_PROMPT_LENGTH = 200000"
definition MAX_SNAPSHOT_AVATAR_DATA_URL_LENGTH :: nat where
  \<comment> \<open>\<open>Math.ceil((2 * 1024 * 1024) / 3) * 4\<close> and the prefix of the data URL\<close>
  "MAX_SNAPSHOT_AVATAR_DATA_URL_LENGTH =
    (2 * 1024 * 1024 + 2) div 3 * 4 + length ''data:image/png;base64,''"
definition MAX_SNAPSHOT_AVATAR_URL_LENGTH :: nat where "MAX_SNAPSHOT_AVATAR_URL_LENGTH = 2048"
definition MAX_SNAPSHOT_PROVIDER_MODEL_LENGTH :: nat where "MAX_SNAPSHOT_PROVIDER_MODEL_LENGTH = 512"
definition MAX_SNAPSHOT_CARD_COPY_RAW_LENGTH :: nat where "MAX_SNAPSHOT_CARD_COPY_RAW_LENGTH = 4096"

definition schema_error :: "string \<Rightarrow> snapshot_code \<Rightarrow> 'a snapshot_result" where
  "schema_error m c = Inl (AgentSnapshotError m c)"

definition isRecord :: "json \<Rightarrow> bool" where
  "isRecord v = (case v of JObj _ \<Rightarrow> True | _ \<Rightarrow> False)"

definition fields_of :: "json \<Rightarrow> json jsobj" where
  \<comment> \<open>the properties of a value that passed \<open>isRecord\<close>\<close>
  "fields_of v = (case v of JObj fs \<Rightarrow> fs | _ \<Rightarrow> [])"

definition optionalString :: "json jsobj \<Rightarrow> string \<Rightarrow> nat option \<Rightarrow> unit snapshot_result" where
  "optionalString object field maxLength =
    (case obj_get object field of
       None \<Rightarrow> Inr ()
     | Some JNull \<Rightarrow> Inr ()
     | Some (JStr s) \<Rightarrow>
         (case maxLength of
            None \<Rightarrow> Inr ()
          | Some m \<Rightarrow> if length s > m then schema_error (field @ '' is too long'') InvalidSnapshot else Inr ())
     | Some _ \<Rightarrow> schema_error (field @ '' must be a string'') InvalidSnapshot)"

fun optionalStrings :: "json jsobj \<Rightarrow> (string \<times> nat option) list \<Rightarrow> unit snapshot_result" where
  "optionalStrings object [] = Inr ()"
| "optionalStrings object ((field, m) # rest) =
    (case optionalString object field m of Inl e \<Rightarrow> Inl e | Inr _ \<Rightarrow> optionalStrings object rest)"

definition definition_fields :: "(string \<times> nat option) list" where
  "definition_fields =
    [(''name'', Some MAX_SNAPSHOT_NAME_LENGTH), (''systemPrompt'', Some MAX_SNAPSHOT_PROMPT_LENGTH),
     (''model'', Some MAX_SNAPSHOT_PROVIDER_MODEL_LENGTH),
     (''modelProviderId'', Some MAX_SNAPSHOT_PROVIDER_MODEL_LENGTH),
     (''provider'', Some MAX_SNAPSHOT_PROVIDER_MODEL_LENGTH)]"

definition profile_fields :: "(string \<times> nat option) list" where
  "profile_fields =
    [(''displayName'', Some MAX_SNAPSHOT_NAME_LENGTH), (''about'', Some MAX_SNAPSHOT_CARD_COPY_RAW_LENGTH),
     (''avatarDataUrl'', Some MAX_SNAPSHOT_AVATAR_DATA_URL_LENGTH),
     (''avatarUrl'', Some MAX_SNAPSHOT_AVATAR_URL_LENGTH)]"

definition trimmed_string :: "json jsobj \<Rightarrow> string \<Rightarrow> string" where
  "trimmed_string object field = (case obj_get object field of Some (JStr s) \<Rightarrow> js_trim s | _ \<Rightarrow> [])"

fun validate_entries :: "json list \<Rightarrow> unit snapshot_result" where
  "validate_entries [] = Inr ()"
| "validate_entries (entry # rest) =
    (if \<not> isRecord entry
     then schema_error ''Snapshot memory entries must be objects'' InvalidSnapshot
     else case optionalStrings (fields_of entry) [(''slug'', None), (''body'', None)] of
       Inl e \<Rightarrow> Inl e
     | Inr _ \<Rightarrow> validate_entries rest)"

definition validate_memory :: "json \<Rightarrow> json snapshot_result" where
  \<comment> \<open>the block under \<open>value.memory !== undefined\<close>; the result is the object after the default\<close>
  "validate_memory memory =
    (if \<not> isRecord memory then schema_error ''Snapshot memory must be an object'' InvalidSnapshot
     else if obj_get (fields_of memory) ''level''
       \<notin> {Some (JStr ''none''), Some (JStr ''core''), Some (JStr ''everything'')}
     then schema_error ''Snapshot memory level is invalid'' InvalidSnapshot
     else
       let fs = (if obj_get (fields_of memory) ''entries'' = None
           then obj_set ''entries'' (JArr []) (fields_of memory) else fields_of memory) in
       case obj_get fs ''entries'' of
         Some (JArr entries) \<Rightarrow>
           (case validate_entries entries of Inl e \<Rightarrow> Inl e | Inr _ \<Rightarrow> Inr (JObj fs))
       | _ \<Rightarrow> schema_error ''Snapshot memory entries must be an array'' InvalidSnapshot)"

definition validateSnapshotV1 :: "json \<Rightarrow> json snapshot_result" where
  "validateSnapshotV1 v =
    (if \<not> isRecord v then schema_error ''Snapshot must be a JSON object'' InvalidSnapshot
     else let fs = fields_of v in
       if obj_get fs ''format'' \<noteq> Some (JStr ''buzz-agent-snapshot'')
       then schema_error ''Unsupported snapshot format'' WrongFormat
       else if obj_get fs ''version'' \<noteq> Some (JNum 1)
       then schema_error ''Unsupported snapshot version'' UnsupportedVersion
       else case obj_get fs ''definition'' of
         Some (JObj def) \<Rightarrow>
           (let profile = (case obj_get fs ''profile'' of Some p \<Rightarrow> p | None \<Rightarrow> JObj []) in
            if \<not> isRecord profile
            then schema_error ''Snapshot profile must be an object'' InvalidSnapshot
            else case optionalStrings def definition_fields of
              Inl e \<Rightarrow> Inl e
            | Inr _ \<Rightarrow>
              (case optionalStrings (fields_of profile) profile_fields of
                 Inl e \<Rightarrow> Inl e
               | Inr _ \<Rightarrow>
                 if trimmed_string def ''name'' = [] \<and> trimmed_string (fields_of profile) ''displayName'' = []
                 then schema_error ''Snapshot requires a non-empty name or display name'' InvalidSnapshot
                 else case obj_get fs ''memory'' of
                   None \<Rightarrow> Inr v
                 | Some memory \<Rightarrow>
                     (case validate_memory memory of
                        Inl e \<Rightarrow> Inl e
                      | Inr m \<Rightarrow> Inr (JObj (obj_set ''memory'' m fs)))))
       | _ \<Rightarrow> schema_error ''Snapshot definition is missing'' InvalidSnapshot)"

section \<open>The type of a valid snapshot\<close>

definition string_field :: "json jsobj \<Rightarrow> string \<times> nat option \<Rightarrow> bool" where
  "string_field object fm \<longleftrightarrow>
    (case obj_get object (fst fm) of
       None \<Rightarrow> True | Some JNull \<Rightarrow> True
     | Some (JStr s) \<Rightarrow> (case snd fm of None \<Rightarrow> True | Some m \<Rightarrow> length s \<le> m)
     | Some _ \<Rightarrow> False)"

definition typed_entry :: "json \<Rightarrow> bool" where
  "typed_entry v \<longleftrightarrow>
    (\<exists>fs. v = JObj fs \<and> string_field fs (''slug'', None) \<and> string_field fs (''body'', None))"

definition typed_memory :: "json \<Rightarrow> bool" where
  "typed_memory v \<longleftrightarrow>
    (\<exists>fs lv es. v = JObj fs \<and> obj_get fs ''level'' = Some (JStr lv) \<and> lv \<in> {''none'', ''core'', ''everything''} \<and>
      obj_get fs ''entries'' = Some (JArr es) \<and> (\<forall>e \<in> set es. typed_entry e))"

definition typed_snapshot :: "json \<Rightarrow> bool" where
  \<comment> \<open>the interface \<open>SnapshotV1\<close> as far as the code relies on it\<close>
  "typed_snapshot v \<longleftrightarrow>
    (\<exists>fs def profile. v = JObj fs \<and> obj_get fs ''format'' = Some (JStr ''buzz-agent-snapshot'') \<and>
      obj_get fs ''version'' = Some (JNum 1) \<and> obj_get fs ''definition'' = Some (JObj def) \<and>
      (\<forall>f \<in> set definition_fields. string_field def f) \<and>
      (obj_get fs ''profile'' = Some (JObj profile) \<or> obj_get fs ''profile'' = None \<and> profile = []) \<and>
      (\<forall>f \<in> set profile_fields. string_field profile f) \<and>
      (trimmed_string def ''name'' \<noteq> [] \<or> trimmed_string profile ''displayName'' \<noteq> []) \<and>
      (case obj_get fs ''memory'' of None \<Rightarrow> True | Some m \<Rightarrow> typed_memory m))"

lemma optionalString_typed: "optionalString object f m = Inr u \<longleftrightarrow> string_field object (f, m)"
  by (auto simp: optionalString_def string_field_def schema_error_def not_less
      split: option.splits json.splits if_splits)

lemma optionalStrings_typed: "optionalStrings object fms = Inr u \<longleftrightarrow> (\<forall>f \<in> set fms. string_field object f)"
proof (induction fms)
  case (Cons fm fms)
  obtain f m where "fm = (f, m)" by fastforce
  then show ?case
    using Cons optionalString_typed [of object f m "()"] by (cases "optionalString object f m") auto
qed simp

lemma isRecord_JObj: "isRecord v \<longleftrightarrow> (\<exists>fs. v = JObj fs)"
  by (simp add: isRecord_def split: json.splits)

lemma validate_entries_typed: "validate_entries es = Inr u \<longleftrightarrow> (\<forall>e \<in> set es. typed_entry e)"
proof (induction es)
  case (Cons e es)
  show ?case
  proof (cases "isRecord e")
    case True
    then obtain fs where "e = JObj fs" by (auto simp: isRecord_JObj)
    then show ?thesis
      using Cons optionalStrings_typed [of fs "[(''slug'', None), (''body'', None)]" "()"]
      by (auto simp: isRecord_JObj typed_entry_def fields_of_def split: sum.splits)
  next
    case False
    then show ?thesis by (auto simp: isRecord_JObj typed_entry_def schema_error_def)
  qed
qed simp

lemma validate_memory_typed:
  assumes "validate_memory m = Inr m'" shows "typed_memory m'"
proof -
  obtain fs where m: "m = JObj fs" using assms
    by (auto simp: validate_memory_def schema_error_def isRecord_JObj split: if_splits)
  define gs where "gs = (if obj_get fs ''entries'' = None then obj_set ''entries'' (JArr []) fs else fs)"
  have lv: "obj_get fs ''level'' \<in> {Some (JStr ''none''), Some (JStr ''core''), Some (JStr ''everything'')}"
    using assms by (auto simp: m validate_memory_def schema_error_def fields_of_def isRecord_JObj split: if_splits)
  then have gl: "obj_get gs ''level'' \<in> {Some (JStr ''none''), Some (JStr ''core''), Some (JStr ''everything'')}"
    by (simp add: gs_def)
  obtain es where es: "obj_get gs ''entries'' = Some (JArr es)" "validate_entries es = Inr ()" "m' = JObj gs"
    using assms lv unfolding m validate_memory_def
    by (auto simp: gs_def schema_error_def fields_of_def isRecord_JObj Let_def
        split: if_splits option.splits json.splits sum.splits)
  then have "\<forall>e \<in> set es. typed_entry e" by (simp add: validate_entries_typed)
  then show ?thesis using gl es(1,3) by (auto simp: typed_memory_def)
qed

lemma typed_memory_fixed: "typed_memory m \<Longrightarrow> validate_memory m = Inr m"
proof -
  assume "typed_memory m"
  then obtain fs lv es where m: "m = JObj fs" "obj_get fs ''level'' = Some (JStr lv)"
    "lv \<in> {''none'', ''core'', ''everything''}" "obj_get fs ''entries'' = Some (JArr es)"
    and "\<forall>e \<in> set es. typed_entry e"
    by (auto simp: typed_memory_def)
  then have "validate_entries es = Inr ()" by (simp add: validate_entries_typed)
  then show "validate_memory m = Inr m"
    using m by (auto simp: validate_memory_def isRecord_JObj fields_of_def)
qed

text \<open>The value that validation returns for a JSON object.\<close>

definition entries_filled :: "json \<Rightarrow> json \<Rightarrow> bool" where
  \<comment> \<open>the memory with an empty array for missing entries\<close>
  "entries_filled m m' \<longleftrightarrow>
    (\<exists>fs fs'. m = JObj fs \<and> m' = JObj fs' \<and> (\<forall>k. k \<noteq> ''entries'' \<longrightarrow> obj_get fs' k = obj_get fs k) \<and>
       obj_get fs' ''entries'' = (if obj_get fs ''entries'' = None then Some (JArr []) else obj_get fs ''entries''))"

definition with_memory :: "json \<Rightarrow> json \<Rightarrow> bool" where
  \<comment> \<open>the two objects agree but for missing entries of the memory\<close>
  "with_memory v v' \<longleftrightarrow>
    (\<exists>fs fs'. v = JObj fs \<and> v' = JObj fs' \<and> (\<forall>k. k \<noteq> ''memory'' \<longrightarrow> obj_get fs' k = obj_get fs k) \<and>
       rel_option entries_filled (obj_get fs ''memory'') (obj_get fs' ''memory''))"

lemma validate_memory_filled: "validate_memory m = Inr m' \<Longrightarrow> entries_filled m m'"
  by (cases m) (auto simp: validate_memory_def schema_error_def isRecord_JObj fields_of_def entries_filled_def Let_def
      split: if_splits option.splits json.splits sum.splits)

lemma validated_typed:
  assumes "validateSnapshotV1 v = Inr v'"
  shows "typed_snapshot v' \<and> with_memory v v'"
proof -
  obtain fs where v: "v = JObj fs" using assms
    by (auto simp: validateSnapshotV1_def schema_error_def isRecord_JObj split: if_splits)
  have fmt: "obj_get fs ''format'' = Some (JStr ''buzz-agent-snapshot'')" "obj_get fs ''version'' = Some (JNum 1)"
    using assms by (auto simp: v validateSnapshotV1_def schema_error_def fields_of_def isRecord_JObj split: if_splits)
  obtain def where d: "obj_get fs ''definition'' = Some (JObj def)"
    using assms fmt unfolding v validateSnapshotV1_def
    by (auto simp: schema_error_def fields_of_def isRecord_JObj Let_def split: option.splits json.splits)
  define p where "p = (case obj_get fs ''profile'' of Some p \<Rightarrow> p | None \<Rightarrow> JObj [])"
  note unf = v validateSnapshotV1_def schema_error_def fields_of_def isRecord_JObj Let_def fmt d
  have "isRecord p" using assms by (simp add: unf flip: p_def split: if_splits)
  then obtain profile where p: "p = JObj profile" by (auto simp: isRecord_JObj)
  then have pr: "obj_get fs ''profile'' = Some (JObj profile) \<or> obj_get fs ''profile'' = None \<and> profile = []"
    by (auto simp: p_def split: option.splits)
  have def_ok: "optionalStrings def definition_fields = Inr ()"
    using assms by (auto simp: unf p simp flip: p_def split: sum.splits if_splits)
  have profile_ok: "optionalStrings profile profile_fields = Inr ()"
    using assms by (auto simp: unf p def_ok simp flip: p_def split: sum.splits if_splits)
  have name_ok: "trimmed_string def ''name'' \<noteq> [] \<or> trimmed_string profile ''displayName'' \<noteq> []"
    using assms by (auto simp: unf p def_ok profile_ok simp flip: p_def split: if_splits)
  have strings: "\<forall>f \<in> set definition_fields. string_field def f" "\<forall>f \<in> set profile_fields. string_field profile f"
    using def_ok profile_ok by (simp_all only: optionalStrings_typed)
  show ?thesis
  proof (cases "obj_get fs ''memory''")
    case None
    then have "v' = v" using assms name_ok by (auto simp: unf p def_ok profile_ok simp flip: p_def)
    then show ?thesis
      using fmt d pr strings name_ok None v by (auto simp: typed_snapshot_def with_memory_def)
  next
    case (Some m)
    then obtain m' where m': "validate_memory m = Inr m'" "v' = JObj (obj_set ''memory'' m' fs)"
      using assms name_ok by (auto simp: unf p def_ok profile_ok simp flip: p_def split: sum.splits)
    have "typed_snapshot v'"
      unfolding typed_snapshot_def m'(2)
      using fmt d pr strings name_ok validate_memory_typed [OF m'(1)]
      by (intro exI [of _ "obj_set ''memory'' m' fs"] exI [of _ def] exI [of _ profile]) simp
    then show ?thesis
      using m'(2) v Some validate_memory_filled [OF m'(1)] by (auto simp: with_memory_def)
  qed
qed

section \<open>What an accepted snapshot is, written out\<close>

text \<open>
  The specification does not use the tables and constants of the code: each field and each limit is
  written out.
\<close>

definition text_within :: "nat \<Rightarrow> json jsobj \<Rightarrow> string \<Rightarrow> bool" where
  \<comment> \<open>the field is absent, null, or a text of at most so many code units\<close>
  "text_within n object field \<longleftrightarrow>
    obj_get object field \<in> {None, Some JNull} \<or> (\<exists>s. obj_get object field = Some (JStr s) \<and> length s \<le> n)"

definition text_or_none :: "json jsobj \<Rightarrow> string \<Rightarrow> bool" where
  "text_or_none object field \<longleftrightarrow>
    obj_get object field \<in> {None, Some JNull} \<or> (\<exists>s. obj_get object field = Some (JStr s))"

definition says_something :: "json jsobj \<Rightarrow> string \<Rightarrow> bool" where
  "says_something object field \<longleftrightarrow>
    (\<exists>s. obj_get object field = Some (JStr s) \<and> (\<exists>c \<in> set s. \<not> is_js_space c))"

definition accepted_definition :: "json jsobj \<Rightarrow> bool" where
  "accepted_definition d \<longleftrightarrow> text_within 200 d ''name'' \<and> text_within 200000 d ''systemPrompt'' \<and>
     text_within 512 d ''model'' \<and> text_within 512 d ''modelProviderId'' \<and> text_within 512 d ''provider''"

definition accepted_profile :: "json jsobj \<Rightarrow> bool" where
  \<comment> \<open>2796226 is the length of a 2 MiB image as a data URL\<close>
  "accepted_profile p \<longleftrightarrow> text_within 200 p ''displayName'' \<and> text_within 4096 p ''about'' \<and>
     text_within 2796226 p ''avatarDataUrl'' \<and> text_within 2048 p ''avatarUrl''"

definition accepted_memory :: "json \<Rightarrow> bool" where
  "accepted_memory m \<longleftrightarrow>
    (\<exists>fs es. m = JObj fs \<and>
       obj_get fs ''level'' \<in> {Some (JStr ''none''), Some (JStr ''core''), Some (JStr ''everything'')} \<and>
       obj_get fs ''entries'' = Some (JArr es) \<and>
       (\<forall>e \<in> set es. \<exists>gs. e = JObj gs \<and> text_or_none gs ''slug'' \<and> text_or_none gs ''body''))"

definition accepted_snapshot :: "json \<Rightarrow> bool" where
  "accepted_snapshot v \<longleftrightarrow>
    (\<exists>fs d p. v = JObj fs \<and> obj_get fs ''format'' = Some (JStr ''buzz-agent-snapshot'') \<and>
      obj_get fs ''version'' = Some (JNum 1) \<and>
      obj_get fs ''definition'' = Some (JObj d) \<and> accepted_definition d \<and>
      (obj_get fs ''profile'' = Some (JObj p) \<or> obj_get fs ''profile'' = None \<and> p = []) \<and> accepted_profile p \<and>
      (says_something d ''name'' \<or> says_something p ''displayName'') \<and>
      (\<forall>m. obj_get fs ''memory'' = Some m \<longrightarrow> accepted_memory m))"

lemma string_field_within:
  "string_field object (f, Some n) \<longleftrightarrow> text_within n object f"
  "string_field object (f, None) \<longleftrightarrow> text_or_none object f"
  by (auto simp: string_field_def text_within_def text_or_none_def split: option.splits json.splits)

lemma trim_empty_iff: "js_trim s = [] \<longleftrightarrow> (\<forall>c \<in> set s. is_js_space c)"
proof -
  have "(\<forall>c \<in> set (dropWhile is_js_space s). is_js_space c) \<longleftrightarrow> (\<forall>c \<in> set s. is_js_space c)"
    by (induction s) auto
  then show ?thesis by (simp add: js_trim_def)
qed

lemma trimmed_says: "trimmed_string object f \<noteq> [] \<longleftrightarrow> says_something object f"
  by (auto simp: trimmed_string_def says_something_def trim_empty_iff split: option.splits json.splits)

lemma typed_fields_accepted:
  "(\<forall>f \<in> set definition_fields. string_field d f) \<longleftrightarrow> accepted_definition d"
  "(\<forall>f \<in> set profile_fields. string_field d f) \<longleftrightarrow> accepted_profile d"
  by (auto simp: definition_fields_def profile_fields_def accepted_definition_def accepted_profile_def
      string_field_within MAX_SNAPSHOT_NAME_LENGTH_def MAX_SNAPSHOT_PROMPT_LENGTH_def
      MAX_SNAPSHOT_PROVIDER_MODEL_LENGTH_def MAX_SNAPSHOT_CARD_COPY_RAW_LENGTH_def
      MAX_SNAPSHOT_AVATAR_DATA_URL_LENGTH_def MAX_SNAPSHOT_AVATAR_URL_LENGTH_def)

lemma typed_memory_accepted: "typed_memory m \<longleftrightarrow> accepted_memory m"
  by (auto simp: typed_memory_def accepted_memory_def typed_entry_def string_field_within)

lemma typed_snapshot_accepted: "typed_snapshot v \<longleftrightarrow> accepted_snapshot v"
  unfolding typed_snapshot_def accepted_snapshot_def typed_fields_accepted typed_memory_accepted trimmed_says
  by (auto split: option.splits)

lemma typed_snapshot_fixed: "typed_snapshot v \<Longrightarrow> validateSnapshotV1 v = Inr v"
proof -
  assume "typed_snapshot v"
  then obtain fs def profile where v: "v = JObj fs"
    and fmt: "obj_get fs ''format'' = Some (JStr ''buzz-agent-snapshot'')" "obj_get fs ''version'' = Some (JNum 1)"
    and d: "obj_get fs ''definition'' = Some (JObj def)" "\<forall>f \<in> set definition_fields. string_field def f"
    and pr: "obj_get fs ''profile'' = Some (JObj profile) \<or> obj_get fs ''profile'' = None \<and> profile = []"
      "\<forall>f \<in> set profile_fields. string_field profile f"
    and name: "trimmed_string def ''name'' \<noteq> [] \<or> trimmed_string profile ''displayName'' \<noteq> []"
    and mem: "case obj_get fs ''memory'' of None \<Rightarrow> True | Some m \<Rightarrow> typed_memory m"
    unfolding typed_snapshot_def by blast
  have ok: "optionalStrings def definition_fields = Inr ()" "optionalStrings profile profile_fields = Inr ()"
    using d(2) pr(2) by (simp_all only: optionalStrings_typed)
  have p: "(case obj_get fs ''profile'' of Some p \<Rightarrow> p | None \<Rightarrow> JObj []) = JObj profile"
    using pr(1) by auto
  have "(case obj_get fs ''memory'' of None \<Rightarrow> Inr (JObj fs)
      | Some m \<Rightarrow> (case validate_memory m of Inl e \<Rightarrow> Inl e | Inr m' \<Rightarrow> Inr (JObj (obj_set ''memory'' m' fs))))
      = Inr (JObj fs)"
    using mem by (auto simp: typed_memory_fixed obj_set_same split: option.splits)
  then show "validateSnapshotV1 v = Inr v"
    using name by (auto simp: validateSnapshotV1_def v isRecord_JObj fields_of_def fmt d(1) p ok Let_def)
qed

text \<open>
  C19. What the validation of a snapshot accepts is exactly this. Whatever JSON value comes in, an
  accepted one is an object with the format's name, the version 1, a definition object and an object or
  no profile; the definition's name, system prompt, model and both providers and the profile's display
  name, description, avatar data and avatar address are each absent, null or a text within its limit; the
  name or the display name has a visible character; and a memory, when there is one, has a known level
  and an array of objects as entries, whose slug and body are absent, null or a text. It comes back with
  every property it came with, save that missing entries are filled in. Conversely a value of this shape,
  entries included, is accepted as it is. (The other fields the interface \<open>SnapshotV1\<close> declares,
  such as the allow list or the timeouts, are not checked by the code.)
\<close>

theorem validated_snapshot_typed:
  "(validateSnapshotV1 v = Inr v' \<longrightarrow> accepted_snapshot v' \<and> with_memory v v') \<and>
   (accepted_snapshot v \<longrightarrow> validateSnapshotV1 v = Inr v)"
  using validated_typed typed_snapshot_fixed by (simp add: typed_snapshot_accepted)

definition demo_snapshot :: json where
  "demo_snapshot = JObj
    [(''format'', JStr ''buzz-agent-snapshot''), (''version'', JNum 1),
     (''definition'', JObj [(''name'', JStr ''Ada''), (''systemPrompt'', JNull)]),
     (''memory'', JObj [(''level'', JStr ''none'')])]"

lemma demo_snapshot_valid:
  "validateSnapshotV1 demo_snapshot = Inr (JObj
    [(''format'', JStr ''buzz-agent-snapshot''), (''version'', JNum 1),
     (''definition'', JObj [(''name'', JStr ''Ada''), (''systemPrompt'', JNull)]),
     (''memory'', JObj [(''level'', JStr ''none''), (''entries'', JArr [])])])"
  by (simp add: validateSnapshotV1_def demo_snapshot_def isRecord_def fields_of_def obj_get_def Let_def
      definition_fields_def profile_fields_def optionalString_def trimmed_string_def js_trim_def
      is_js_space_def MAX_SNAPSHOT_NAME_LENGTH_def validate_memory_def obj_set_def)

theorem validated_snapshot_typed_witness:
  "\<exists>v'. accepted_snapshot v' \<and> with_memory demo_snapshot v' \<and> validateSnapshotV1 v' = Inr v'"
proof -
  obtain v' where v: "validateSnapshotV1 demo_snapshot = Inr v'" using demo_snapshot_valid by blast
  show ?thesis
    using validated_snapshot_typed [of demo_snapshot v'] validated_snapshot_typed [of v' v'] v by blast
qed

end
