(* ===== verification/PngCodec.thy ===== *)
theory PngCodec
  imports PngChunks SnapshotSchema
begin

text \<open>
  Agent images: \<open>snapshotText\<close>, \<open>makeTextChunk\<close>, \<open>decodeAgentImage\<close>, \<open>decodeAvatarAnimation\<close> and
  \<open>encodeAgentImage\<close> of \<open>src/src/features/agents/agent-snapshot/pngCodec.ts\<close>. \<open>JSON.stringify\<close> and
  \<open>JSON.parse\<close> are parameters (the text of a number is not modelled): \<open>json_text_ok\<close> states for one
  value what the codec relies on, that its text is a non-empty sequence of code points which starts
  with an ASCII character and parses back to the value.
\<close>

section \<open>The code\<close>

definition SNAPSHOT_PNG_KEYWORD :: ustring where
  "SNAPSHOT_PNG_KEYWORD = js ''buzz_agent_snapshot''"

definition AVATAR_ANIMATION_CHUNK :: ustring where
  "AVATAR_ANIMATION_CHUNK = js ''bdAV''"

datatype mime_type = VideoWebm | VideoMp4
datatype alpha_mode = Stacked

record embeddedAvatarAnimation =
  anim_bytes :: "byte list"
  mimeType :: mime_type
  alphaMode :: "alpha_mode option"

definition snapshotText :: "chunk \<Rightarrow> ustring option" where
  "snapshotText c =
    (if chunk_type c \<noteq> js ''tEXt'' then None
     else case index_of 0 (chunk_data c) of
       None \<Rightarrow> None
     | Some separator \<Rightarrow>
         if separator = 0 \<or> separator > 79 then None
         else if ascii_decode (subarray (chunk_data c) 0 separator) \<noteq> SNAPSHOT_PNG_KEYWORD then None
         else Some (ascii_decode (drop (separator + 1) (chunk_data c))))"

definition makeTextChunk :: "ustring \<Rightarrow> byte list" where
  "makeTextChunk t = makeChunk (js ''tEXt'') (utf8_encode (SNAPSHOT_PNG_KEYWORD @ [0] @ t))"

definition drop_legacy_animation :: "json \<Rightarrow> json" where
  "drop_legacy_animation snapshot =
    (case snapshot of
       JObj fs \<Rightarrow>
         (case obj_get fs ''profile'' of
            Some (JObj p) \<Rightarrow>
              JObj (obj_set ''profile''
                (JObj (obj_del ''avatarAnimationAlphaMode'' (obj_del ''avatarAnimationDataUrl'' p))) fs)
          | _ \<Rightarrow> snapshot)
     | _ \<Rightarrow> snapshot)"

definition decodeAgentImage :: "(ustring \<Rightarrow> json option) \<Rightarrow> byte list \<Rightarrow> json snapshot_result" where
  "decodeAgentImage json_parse bytes =
    (case parseChunks bytes of
       Inl e \<Rightarrow> Inl e
     | Inr chunks \<Rightarrow>
         (case List.map_filter snapshotText chunks of
            [] \<Rightarrow> Inl (AgentSnapshotError ''PNG does not contain an agent snapshot'' MissingSnapshot)
          | [t] \<Rightarrow>
              (case decodeBase64 t of
                 Inl e \<Rightarrow> Inl e
               | Inr jsonBytes \<Rightarrow>
                   (case utf8_decode jsonBytes of
                      None \<Rightarrow> Inl (AgentSnapshotError ''Snapshot JSON is not valid UTF-8'' InvalidUtf8)
                    | Some jsonText \<Rightarrow>
                        (case json_parse jsonText of
                           None \<Rightarrow> Inl (AgentSnapshotError ''Snapshot chunk contains invalid JSON'' InvalidJson)
                         | Some v \<Rightarrow>
                             (case validateSnapshotV1 v of
                                Inl e \<Rightarrow> Inl e
                              | Inr snapshot \<Rightarrow> Inr (drop_legacy_animation snapshot)))))
          | _ \<Rightarrow> Inl (AgentSnapshotError ''PNG contains duplicate agent snapshots'' DuplicateSnapshot)))"

definition decodeAvatarAnimation :: "byte list \<Rightarrow> embeddedAvatarAnimation option snapshot_result" where
  "decodeAvatarAnimation imageBytes =
    (case parseChunks imageBytes of
       Inl e \<Rightarrow> Inl e
     | Inr all \<Rightarrow>
         let chunks = filter (\<lambda>c. chunk_type c = AVATAR_ANIMATION_CHUNK) all in
         if chunks = [] then Inr None
         else if length chunks \<noteq> 1 \<or> length (chunk_data (hd chunks)) < 2
         then png_error ''Invalid avatar animation chunk''
         else if length (chunk_data (hd chunks)) - 1 > MAX_SNAPSHOT_AVATAR_ANIMATION_BYTES
         then Inl (AgentSnapshotError ''Avatar animation exceeds the 5 MiB limit'' TooLarge)
         else
           let flags = hd (chunk_data (hd chunks)) in
           if flags AND NOT 3 \<noteq> 0 then png_error ''Unsupported avatar animation flags''
           else Inr (Some \<lparr> anim_bytes = drop 1 (chunk_data (hd chunks)),
             mimeType = (if flags AND 1 \<noteq> 0 then VideoMp4 else VideoWebm),
             alphaMode = (if flags AND 2 \<noteq> 0 then Some Stacked else None) \<rparr>))"

definition animation_data :: "embeddedAvatarAnimation \<Rightarrow> byte list" where
  "animation_data a =
    ((if mimeType a = VideoMp4 then 1 else 0) OR (if alphaMode a = Some Stacked then 2 else 0)) # anim_bytes a"

definition animation_chunk ::
    "embeddedAvatarAnimation option \<Rightarrow> byte list option snapshot_result" where
  "animation_chunk animation =
    (case animation of
       None \<Rightarrow> Inr None
     | Some a \<Rightarrow>
         if length (anim_bytes a) > MAX_SNAPSHOT_AVATAR_ANIMATION_BYTES
         then Inl (AgentSnapshotError ''Avatar animation exceeds the 5 MiB limit'' TooLarge)
         else Inr (Some (makeChunk AVATAR_ANIMATION_CHUNK (animation_data a))))"

definition kept_chunk :: "chunk \<Rightarrow> bool" where
  "kept_chunk c \<longleftrightarrow> snapshotText c = None \<and> chunk_type c \<noteq> AVATAR_ANIMATION_CHUNK"

definition chunk_length :: "chunk \<Rightarrow> nat" where
  "chunk_length c = chunk_end c - chunk_start c"

type_synonym output_state = "byte list \<times> nat \<times> bool"

definition write_at :: "byte list \<Rightarrow> output_state \<Rightarrow> output_state" where
  "write_at src st = (case st of (output, offset, inserted) \<Rightarrow>
    (set_at output src offset, offset + length src, inserted))"

definition write_manifest :: "byte list \<Rightarrow> byte list option \<Rightarrow> output_state \<Rightarrow> output_state" where
  "write_manifest manifest animation st =
    (let st = write_at manifest st;
         st = (case animation of None \<Rightarrow> st | Some a \<Rightarrow> write_at a st)
     in (fst st, fst (snd st), True))"

definition write_kept ::
    "byte list \<Rightarrow> byte list \<Rightarrow> byte list option \<Rightarrow> output_state \<Rightarrow> chunk \<Rightarrow> output_state" where
  \<comment> \<open>the body of the loop over the kept chunks\<close>
  "write_kept imageBytes manifest animation st c =
    (let st = (if \<not> snd (snd st) \<and> (chunk_type c = js ''IDAT'' \<or> chunk_type c = js ''IEND'')
       then write_manifest manifest animation st else st)
     in write_at (subarray imageBytes (chunk_start c) (chunk_end c)) st)"

definition encodeAgentImage ::
    "(json \<Rightarrow> ustring) \<Rightarrow> byte list \<Rightarrow> json \<Rightarrow> embeddedAvatarAnimation option \<Rightarrow> byte list snapshot_result" where
  "encodeAgentImage json_stringify imageBytes snapshot animation =
    (case parseChunks imageBytes of
       Inl e \<Rightarrow> Inl e
     | Inr chunks \<Rightarrow>
         (case validateSnapshotV1 snapshot of
            Inl e \<Rightarrow> Inl e
          | Inr validated \<Rightarrow>
              let manifest = makeTextChunk (encodeBase64 (utf8_encode (json_stringify validated)));
                  kept = filter kept_chunk chunks in
              (case animation_chunk animation of
                 Inl e \<Rightarrow> Inl e
               | Inr animationChunk \<Rightarrow>
                   let outputLength = length PNG_SIGNATURE + length manifest
                     + (case animationChunk of None \<Rightarrow> 0 | Some a \<Rightarrow> length a) + sum_list (map chunk_length kept) in
                   if outputLength > MAX_SNAPSHOT_PNG_BYTES
                   then Inl (AgentSnapshotError ''Encoded agent image exceeds the 10 MiB limit'' TooLarge)
                   else
                     let output = set_at (replicate outputLength 0) PNG_SIGNATURE 0 in
                     Inr (fst (foldl (write_kept imageBytes manifest animationChunk)
                       (output, length PNG_SIGNATURE, False) kept)))))"

definition json_text_ok :: "(json \<Rightarrow> ustring) \<Rightarrow> (ustring \<Rightarrow> json option) \<Rightarrow> json \<Rightarrow> bool" where
  "json_text_ok json_stringify json_parse v \<longleftrightarrow>
    json_parse (json_stringify v) = Some v \<and> json_stringify v \<noteq> [] \<and> hd (json_stringify v) < 0x80 \<and>
    (\<forall>c \<in> set (json_stringify v). scalar c)"

section \<open>Accepted images as lists of items\<close>

lemma chunk_names [simp]:
  "chunk_name (js ''IHDR'')" "chunk_name (js ''IEND'')" "chunk_name (js ''tEXt'')" "chunk_name (js ''bdAV'')"
  by (simp_all add: chunk_name_def js_def type_letter_def)

lemma js_eq [simp]: "js a = js b \<longleftrightarrow> a = b"
  by (simp add: js_def inj_map_eq_map inj_of_char)

definition header_ok :: "byte list \<Rightarrow> bool" where
  "header_ok h \<longleftrightarrow> length h = 13 \<and> \<not> dimensions_exceed (readU32 h 0) (readU32 h 4)"

definition inner_item :: "ustring \<times> byte list \<Rightarrow> bool" where
  "inner_item p \<longleftrightarrow> item_ok p \<and> fst p \<noteq> js ''IHDR'' \<and> fst p \<noteq> js ''IEND''"

definition whole :: "byte list \<Rightarrow> (ustring \<times> byte list) list \<Rightarrow> (ustring \<times> byte list) list" where
  "whole h mid = (js ''IHDR'', h) # mid @ [(js ''IEND'', [])]"

lemma items_ok_tail:
  "0 < k \<Longrightarrow> items_ok k False ps \<longleftrightarrow>
    (\<exists>mid. ps = mid @ [(js ''IEND'', [])] \<and> (\<forall>p \<in> set mid. inner_item p)
      \<and> k + length mid < MAX_SNAPSHOT_PNG_CHUNKS)"
proof (induction ps arbitrary: k)
  case (Cons p ps)
  obtain t d where p: "p = (t, d)" by fastforce
  show ?case
  proof (cases "t = js ''IEND''")
    case True
    have "items_ok (Suc k) True ps \<longleftrightarrow> ps = []" by (cases ps) auto
    then show ?thesis using True Cons.prems
      by (auto simp: p Cons_eq_append_conv inner_item_def)
  next
    case False
    have "items_ok k False (p # ps) \<longleftrightarrow>
        k < MAX_SNAPSHOT_PNG_CHUNKS \<and> inner_item p \<and> items_ok (Suc k) False ps"
      using False Cons.prems by (auto simp: p inner_item_def item_ok_def)
    then show ?thesis
      using False Cons.IH [of "Suc k"] by (fastforce simp: p Cons_eq_append_conv)
  qed
qed simp

lemma items_ok_whole:
  "items_ok 0 False ps \<longleftrightarrow>
    (\<exists>h mid. ps = whole h mid \<and> header_ok h \<and> (\<forall>p \<in> set mid. inner_item p)
      \<and> length ps \<le> MAX_SNAPSHOT_PNG_CHUNKS)"
proof (cases ps)
  case (Cons p qs)
  obtain t d where p: "p = (t, d)" by fastforce
  have "items_ok 0 False ps \<longleftrightarrow> t = js ''IHDR'' \<and> header_ok d \<and> items_ok 1 False qs"
    by (auto simp: Cons p header_ok_def MAX_SNAPSHOT_PNG_CHUNKS_def)
  then show ?thesis
    by (auto simp: items_ok_tail Cons p whole_def)
qed (simp add: whole_def)

section \<open>What the encoder writes\<close>

definition item_of :: "chunk \<Rightarrow> ustring \<times> byte list" where
  "item_of c = (chunk_type c, chunk_data c)"

definition item_text :: "ustring \<times> byte list \<Rightarrow> ustring option" where
  "item_text p = snapshotText (chunk_at 0 (fst p) (snd p))"

definition kept_item :: "ustring \<times> byte list \<Rightarrow> bool" where
  "kept_item p \<longleftrightarrow> item_text p = None \<and> fst p \<noteq> AVATAR_ANIMATION_CHUNK"

definition image_data :: "ustring \<Rightarrow> bool" where
  "image_data t \<longleftrightarrow> t = js ''IDAT'' \<or> t = js ''IEND''"

fun insert_items :: "'a list \<Rightarrow> ('a \<Rightarrow> bool) \<Rightarrow> 'a list \<Rightarrow> 'a list" where
  \<comment> \<open>before the first item that satisfies the predicate\<close>
  "insert_items ms p [] = []"
| "insert_items ms p (x # xs) = (if p x then ms @ x # xs else x # insert_items ms p xs)"

lemma layout_items [simp]: "map item_of (layout offset ps) = ps"
  by (induction offset ps rule: layout.induct) (simp_all add: item_of_def chunk_at_def)

lemma snapshotText_item: "snapshotText c = item_text (item_of c)"
  by (cases "index_of 0 (chunk_data c)")
    (simp_all add: item_text_def item_of_def snapshotText_def chunk_at_def)

lemma kept_chunk_item: "kept_chunk = kept_item \<circ> item_of"
  by (rule ext) (simp add: kept_chunk_def kept_item_def snapshotText_item, simp add: item_of_def)

lemma kept_items: "map item_of (filter kept_chunk (layout offset ps)) = filter kept_item ps"
  by (metis filter_map kept_chunk_item layout_items)

lemma raw_chunk:
  assumes "c \<in> set (layout 8 ps)" "\<forall>p \<in> set ps. item_ok p"
  shows "subarray (png_bytes ps) (chunk_start c) (chunk_end c) = item_bytes (item_of c)"
    and "chunk_length c = length (item_bytes (item_of c))"
proof -
  obtain ps1 t d ps2 where sp: "ps = ps1 @ (t, d) # ps2"
    and c: "c = chunk_at (8 + length (concat (map item_bytes ps1))) t d"
    using layout_split [OF assms] by auto
  have "length t = 4" using assms(2) sp by (auto simp: item_ok_def chunk_name_def)
  then have len: "length (item_bytes (t, d)) = 12 + length d" by simp
  have b: "png_bytes ps = (PNG_SIGNATURE @ concat (map item_bytes ps1)) @ item_bytes (t, d) @ concat (map item_bytes ps2)"
    by (simp add: sp png_bytes_def)
  show "subarray (png_bytes ps) (chunk_start c) (chunk_end c) = item_bytes (item_of c)"
    unfolding b c using len by (simp add: subarray_def chunk_at_def item_of_def del: length_item_bytes)
  show "chunk_length c = length (item_bytes (item_of c))"
    using len by (simp add: c chunk_at_def chunk_length_def item_of_def)
qed

lemma write_at_blank:
  "write_at src (w @ replicate n 0, length w, ins) = ((w @ src) @ replicate (n - length src) 0, length (w @ src), ins)"
  by (simp add: write_at_def set_at_def)

definition written :: "byte list \<Rightarrow> nat \<Rightarrow> bool \<Rightarrow> output_state" where
  \<comment> \<open>what has been written, and the zeros after it up to the room length\<close>
  "written w room ins = (w @ replicate (room - length w) 0, length w, ins)"

lemma write_at_written: "write_at src (written w room ins) = written (w @ src) room ins"
  by (simp add: written_def write_at_blank)

lemma written_flag [simp]: "snd (snd (written w room ins)) = ins"
  by (simp add: written_def)

lemma write_manifest_written:
  "write_manifest m a (written w room ins)
    = written (w @ m @ (case a of None \<Rightarrow> [] | Some x \<Rightarrow> x)) room True"
  by (cases a) (simp_all add: write_manifest_def write_at_written, simp_all add: written_def)

definition new_items :: "ustring \<Rightarrow> embeddedAvatarAnimation option \<Rightarrow> (ustring \<times> byte list) list" where
  "new_items t animation =
    (js ''tEXt'', utf8_encode (SNAPSHOT_PNG_KEYWORD @ [0] @ t))
      # (case animation of None \<Rightarrow> [] | Some a \<Rightarrow> [(AVATAR_ANIMATION_CHUNK, animation_data a)])"

lemma write_all:
  assumes "\<forall>c \<in> set cs. subarray img (chunk_start c) (chunk_end c) = item_bytes (item_of c)"
    and "m @ (case a of None \<Rightarrow> [] | Some x \<Rightarrow> x) = concat (map item_bytes ms)"
  shows "foldl (write_kept img m a) (written w room ins) cs
    = written (w @ concat (map item_bytes
        (if ins then map item_of cs else insert_items ms (\<lambda>p. image_data (fst p)) (map item_of cs))))
      room (ins \<or> (\<exists>c \<in> set cs. image_data (chunk_type c)))"
  using assms(1)
proof (induction cs arbitrary: w ins)
  case (Cons c cs)
  have raw: "subarray img (chunk_start c) (chunk_end c) = item_bytes (item_of c)" using Cons.prems by simp
  have step: "write_kept img m a (written w room ins) c
      = written (w @ (if \<not> ins \<and> image_data (chunk_type c) then concat (map item_bytes ms) else [])
          @ item_bytes (item_of c)) room (ins \<or> image_data (chunk_type c))" for w ins
    using assms(2) by (simp add: write_kept_def raw write_at_written write_manifest_written image_data_def)
  have mark: "image_data (fst (item_of c)) = image_data (chunk_type c)" by (simp add: item_of_def)
  note IH = Cons.IH [OF Cons.prems [unfolded list.set ball_simps(7), THEN conjunct2]]
  show ?case
    by (cases ins; cases "image_data (chunk_type c)") (simp_all add: step IH mark)
qed simp

lemma insert_items_length:
  "\<exists>x \<in> set xs. p x \<Longrightarrow> length (concat (map f (insert_items ms p xs)))
    = length (concat (map f ms)) + length (concat (map f xs))"
  by (induction xs) auto

lemma animation_chunk_items:
  "animation_chunk animation = Inr a \<Longrightarrow>
    makeTextChunk t @ (case a of None \<Rightarrow> [] | Some x \<Rightarrow> x) = concat (map item_bytes (new_items t animation))"
  by (auto simp: animation_chunk_def new_items_def makeTextChunk_def makeChunk_item AVATAR_ANIMATION_CHUNK_def
      split: option.splits if_splits)

definition embed_items :: "ustring \<Rightarrow> embeddedAvatarAnimation option \<Rightarrow>
    (ustring \<times> byte list) list \<Rightarrow> (ustring \<times> byte list) list" where
  "embed_items t animation ps = insert_items (new_items t animation) (\<lambda>p. image_data (fst p)) (filter kept_item ps)"

lemma encode_output:
  fixes t :: ustring and v :: json
  assumes "items_ok 0 False ps" "animation_chunk animation = Inr a"
  defines "kept \<equiv> filter kept_chunk (layout 8 ps)" and "m \<equiv> makeTextChunk t"
  defines "room \<equiv> length PNG_SIGNATURE + length m + (case a of None \<Rightarrow> 0 | Some x \<Rightarrow> length x)
    + sum_list (map chunk_length kept)"
  shows "room = length (png_bytes (embed_items t animation ps))"
    and "fst (foldl (write_kept (png_bytes ps) m a)
      (set_at (replicate (length (png_bytes (embed_items t animation ps))) 0) PNG_SIGNATURE 0,
        length PNG_SIGNATURE, False) kept)
      = png_bytes (embed_items t animation ps)"
proof -
  let ?ms = "new_items t animation"
  have ok: "\<forall>p \<in> set ps. item_ok p" using items_ok_item [OF assms(1)] by blast
  have raw: "\<forall>c \<in> set kept. subarray (png_bytes ps) (chunk_start c) (chunk_end c) = item_bytes (item_of c)"
    using raw_chunk(1) [OF _ ok] by (simp add: kept_def)
  have ms: "m @ (case a of None \<Rightarrow> [] | Some x \<Rightarrow> x) = concat (map item_bytes ?ms)"
    using animation_chunk_items [OF assms(2)] by (simp add: m_def)
  have items: "map item_of kept = filter kept_item ps" by (simp add: kept_def kept_items)
  obtain h mid where "ps = whole h mid" using assms(1) by (auto simp: items_ok_whole)
  then have "\<exists>p \<in> set (filter kept_item ps). image_data (fst p)"
    by (auto simp: whole_def kept_item_def item_text_def snapshotText_def chunk_at_def
        AVATAR_ANIMATION_CHUNK_def image_data_def)
  from insert_items_length [OF this, of item_bytes ?ms]
  have len: "length (png_bytes (embed_items t animation ps))
      = 8 + length (concat (map item_bytes ?ms)) + length (concat (map item_bytes (map item_of kept)))"
    by (simp add: png_bytes_def embed_items_def items)
  have "sum_list (map chunk_length kept) = length (concat (map item_bytes (map item_of kept)))"
  proof -
    have "map chunk_length kept = map (\<lambda>c. length (item_bytes (item_of c))) kept"
      using raw_chunk(2) [OF _ ok] by (intro map_cong refl) (auto simp: kept_def)
    then show ?thesis by (simp only: length_concat map_map comp_def)
  qed
  then show "room = length (png_bytes (embed_items t animation ps))"
    using arg_cong [OF ms, of length] by (simp add: len room_def split: option.splits)
  let ?out = "png_bytes (embed_items t animation ps)"
  have "(set_at (replicate (length ?out) 0) PNG_SIGNATURE 0, length PNG_SIGNATURE, False)
      = written PNG_SIGNATURE (length ?out) False" by (simp add: set_at_def written_def)
  then have "fst (foldl (write_kept (png_bytes ps) m a)
      (set_at (replicate (length ?out) 0) PNG_SIGNATURE 0, length PNG_SIGNATURE, False) kept)
      = fst (written ?out (length ?out) (False \<or> (\<exists>c \<in> set kept. image_data (chunk_type c))))"
    by (simp only: write_all [OF raw ms, of PNG_SIGNATURE "length ?out" False] if_False items
        embed_items_def [symmetric] png_bytes_def [symmetric])
  then show "fst (foldl (write_kept (png_bytes ps) m a)
      (set_at (replicate (length ?out) 0) PNG_SIGNATURE 0, length PNG_SIGNATURE, False) kept) = ?out"
    by (simp add: written_def)
qed

lemma animation_chunk_iff:
  "(\<exists>c. animation_chunk animation = Inr c) \<longleftrightarrow>
    (\<forall>a. animation = Some a \<longrightarrow> length (anim_bytes a) \<le> MAX_SNAPSHOT_AVATAR_ANIMATION_BYTES)"
  by (auto simp: animation_chunk_def split: option.splits)

lemma encodeAgentImage_iff:
  "encodeAgentImage sf img snapshot animation = Inr out \<longleftrightarrow>
    (\<exists>ps v. items_ok 0 False ps \<and> img = png_bytes ps \<and> length img \<le> MAX_SNAPSHOT_PNG_BYTES \<and>
      validateSnapshotV1 snapshot = Inr v \<and>
      (\<forall>a. animation = Some a \<longrightarrow> length (anim_bytes a) \<le> MAX_SNAPSHOT_AVATAR_ANIMATION_BYTES) \<and>
      out = png_bytes (embed_items (encodeBase64 (utf8_encode (sf v))) animation ps) \<and>
      length out \<le> MAX_SNAPSHOT_PNG_BYTES)" (is "_ \<longleftrightarrow> ?R")
proof
  assume e: "encodeAgentImage sf img snapshot animation = Inr out"
  then obtain cs where cs: "parseChunks img = Inr cs"
    by (auto simp: encodeAgentImage_def split: sum.splits)
  from e cs obtain v where v: "validateSnapshotV1 snapshot = Inr v"
    by (auto simp: encodeAgentImage_def split: sum.splits)
  from e cs v obtain a where a: "animation_chunk animation = Inr a"
    by (auto simp: encodeAgentImage_def Let_def split: sum.splits)
  obtain ps where ps: "items_ok 0 False ps" "img = png_bytes ps" "length img \<le> MAX_SNAPSHOT_PNG_BYTES"
    "cs = layout 8 ps" using cs by (auto simp: parseChunks_layout)
  note out = encode_output [OF ps(1) a, of "encodeBase64 (utf8_encode (sf v))"]
  let ?out = "png_bytes (embed_items (encodeBase64 (utf8_encode (sf v))) animation ps)"
  have out_if: "(if length ?out > MAX_SNAPSHOT_PNG_BYTES
      then Inl (AgentSnapshotError ''Encoded agent image exceeds the 10 MiB limit'' TooLarge)
      else Inr ?out) = Inr out"
    using e unfolding encodeAgentImage_def cs v a sum.case Let_def ps(4) out(1)
    unfolding ps(2) out(2) .
  have le: "\<not> length ?out > MAX_SNAPSHOT_PNG_BYTES"
  proof
    assume "length ?out > MAX_SNAPSHOT_PNG_BYTES"
    from out_if [unfolded if_P [OF this]] show False by (simp only: sum.distinct)
  qed
  have out_eq: "out = ?out"
    by (rule sym, rule sum.inject(2) [THEN iffD1, OF out_if [unfolded if_not_P [OF le]]])
  have "length out \<le> MAX_SNAPSHOT_PNG_BYTES"
    unfolding out_eq using le by (rule leI)
  moreover have "\<forall>a. animation = Some a \<longrightarrow> length (anim_bytes a) \<le> MAX_SNAPSHOT_AVATAR_ANIMATION_BYTES"
    using a animation_chunk_iff by blast
  ultimately show ?R using ps(1-3) v out_eq by (intro exI [of _ ps] exI [of _ v] conjI)
next
  assume ?R
  then obtain ps v where ps: "items_ok 0 False ps" "img = png_bytes ps" "length img \<le> MAX_SNAPSHOT_PNG_BYTES"
    and v: "validateSnapshotV1 snapshot = Inr v"
    and an: "\<forall>a. animation = Some a \<longrightarrow> length (anim_bytes a) \<le> MAX_SNAPSHOT_AVATAR_ANIMATION_BYTES"
    and o: "out = png_bytes (embed_items (encodeBase64 (utf8_encode (sf v))) animation ps)"
      "length out \<le> MAX_SNAPSHOT_PNG_BYTES" by blast
  obtain a where a: "animation_chunk animation = Inr a" using an animation_chunk_iff by blast
  have cs: "parseChunks img = Inr (layout 8 ps)" using ps by (auto simp: parseChunks_layout)
  note out = encode_output [OF ps(1) a, of "encodeBase64 (utf8_encode (sf v))"]
  show "encodeAgentImage sf img snapshot animation = Inr out"
    unfolding encodeAgentImage_def cs v a sum.case Let_def out(1)
    unfolding ps(2) out(2) using o by simp
qed

end
