(* ===== verification/PngRoundtrip.thy ===== *)
theory PngRoundtrip
  imports PngCodec
begin

text \<open>
  What embedding a snapshot does to an image and what decoding reads back: the theorems about
  \<open>encodeAgentImage\<close>, \<open>decodeAgentImage\<close> and \<open>decodeAvatarAnimation\<close> together.
\<close>

section \<open>The items of the output\<close>

lemma insert_items_split:
  "\<exists>x \<in> set xs. p x \<Longrightarrow>
    insert_items ms p xs = takeWhile (\<lambda>x. \<not> p x) xs @ ms @ dropWhile (\<lambda>x. \<not> p x) xs"
  by (induction xs) auto

lemma kept_header [simp]: "kept_item (js ''IHDR'', h)"
  by (simp add: kept_item_def item_text_def snapshotText_def chunk_at_def AVATAR_ANIMATION_CHUNK_def)

lemma kept_end [simp]: "kept_item (js ''IEND'', h)"
  by (simp add: kept_item_def item_text_def snapshotText_def chunk_at_def AVATAR_ANIMATION_CHUNK_def)

definition before_image :: "(ustring \<times> byte list) list \<Rightarrow> (ustring \<times> byte list) list" where
  "before_image mid = takeWhile (\<lambda>p. \<not> image_data (fst p)) (filter kept_item mid)"

definition from_image :: "(ustring \<times> byte list) list \<Rightarrow> (ustring \<times> byte list) list" where
  "from_image mid = dropWhile (\<lambda>p. \<not> image_data (fst p)) (filter kept_item mid)"

lemma before_from_image: "before_image mid @ from_image mid = filter kept_item mid"
  by (simp add: before_image_def from_image_def)

lemma while_snoc:
  "\<not> q y \<Longrightarrow> takeWhile q (xs @ [y]) = takeWhile q xs"
  "\<not> q y \<Longrightarrow> dropWhile q (xs @ [y]) = dropWhile q xs @ [y]"
  by (induction xs) auto

lemma item_bytes_nonempty [simp]: "item_bytes p \<noteq> []"
  by (simp add: item_bytes_def be32_def)

lemma embed_whole:
  "embed_items t animation (whole h mid)
    = whole h (before_image mid @ new_items t animation @ from_image mid)"
proof -
  let ?q = "\<lambda>p :: ustring \<times> byte list. \<not> image_data (fst p)"
  have q: "?q (js ''IHDR'', h)" "\<not> ?q (js ''IEND'', [])" by (simp_all add: image_data_def)
  have "takeWhile ?q (filter kept_item mid @ [(js ''IEND'', [])]) = before_image mid"
    "dropWhile ?q (filter kept_item mid @ [(js ''IEND'', [])]) = from_image mid @ [(js ''IEND'', [])]"
    using q(2) by (simp_all add: before_image_def from_image_def while_snoc)
  moreover have "\<exists>x \<in> set (filter kept_item (whole h mid)). image_data (fst x)"
    using q(2) by (auto simp: whole_def)
  ultimately show ?thesis
    using q(1) by (simp add: embed_items_def insert_items_split) (simp add: whole_def)
qed

lemma png_bytes_item: "p \<in> set ps \<Longrightarrow> length (item_bytes p) \<le> length (png_bytes ps)"
  by (induction ps) (auto simp: png_bytes_def)

lemma new_items_inner:
  assumes "p \<in> set (new_items t animation)" "length (item_bytes p) \<le> MAX_SNAPSHOT_PNG_BYTES"
  shows "inner_item p"
  using assms
  by (auto simp: new_items_def inner_item_def item_ok_def AVATAR_ANIMATION_CHUNK_def MAX_SNAPSHOT_PNG_BYTES_def
      split: option.splits)

lemma png_bytes_inj:
  "\<lbrakk>\<forall>p \<in> set ps. item_ok p; \<forall>p \<in> set qs. item_ok p; png_bytes ps = png_bytes qs\<rbrakk> \<Longrightarrow> ps = qs"
  by (rule items.concat_inj) (simp_all add: png_bytes_def)

lemma encoded_items:
  assumes "encodeAgentImage sf img snapshot animation = Inr out"
  obtains h mid v where "img = png_bytes (whole h mid)" "items_ok 0 False (whole h mid)"
    "parseChunks img = Inr (layout 8 (whole h mid))" "validateSnapshotV1 snapshot = Inr v"
    "\<forall>a. animation = Some a \<longrightarrow> length (anim_bytes a) \<le> MAX_SNAPSHOT_AVATAR_ANIMATION_BYTES"
    "out = png_bytes (whole h (before_image mid
      @ new_items (encodeBase64 (utf8_encode (sf v))) animation @ from_image mid))"
    "length out \<le> MAX_SNAPSHOT_PNG_BYTES" "header_ok h"
    "\<forall>p \<in> set (before_image mid @ new_items (encodeBase64 (utf8_encode (sf v))) animation @ from_image mid).
      inner_item p"
proof -
  obtain ps v where ps: "items_ok 0 False ps" "img = png_bytes ps" "length img \<le> MAX_SNAPSHOT_PNG_BYTES"
    and v: "validateSnapshotV1 snapshot = Inr v"
    and an: "\<forall>a. animation = Some a \<longrightarrow> length (anim_bytes a) \<le> MAX_SNAPSHOT_AVATAR_ANIMATION_BYTES"
    and out: "out = png_bytes (embed_items (encodeBase64 (utf8_encode (sf v))) animation ps)"
      "length out \<le> MAX_SNAPSHOT_PNG_BYTES"
    using assms unfolding encodeAgentImage_iff by blast
  obtain h mid where w: "ps = whole h mid" "header_ok h" "\<forall>p \<in> set mid. inner_item p"
    using ps(1) unfolding items_ok_whole by blast
  let ?new = "new_items (encodeBase64 (utf8_encode (sf v))) animation"
  have o: "out = png_bytes (whole h (before_image mid @ ?new @ from_image mid))"
    using out(1) by (simp only: w(1) embed_whole)
  have "inner_item p" if "p \<in> set ?new" for p
  proof (rule new_items_inner [OF that])
    have "p \<in> set (whole h (before_image mid @ ?new @ from_image mid))" using that by (simp add: whole_def)
    from png_bytes_item [OF this] show "length (item_bytes p) \<le> MAX_SNAPSHOT_PNG_BYTES"
      using out(2) o by simp
  qed
  moreover have "inner_item p" if "p \<in> set (filter kept_item mid)" for p using that w(3) by simp
  ultimately have "\<forall>p \<in> set (before_image mid @ ?new @ from_image mid). inner_item p"
    using before_from_image [of mid] by (metis Un_iff set_append)
  moreover have "parseChunks img = Inr (layout 8 (whole h mid))"
    using ps w(1) by (auto simp: parseChunks_layout)
  ultimately show ?thesis
    using that [of h mid v] ps(1,2) v an out(2) w(1,2) o by (simp only:)
qed

lemma parse_whole:
  assumes "header_ok h" "\<forall>p \<in> set mid. inner_item p" "length mid + 2 \<le> MAX_SNAPSHOT_PNG_CHUNKS"
    "length (png_bytes (whole h mid)) \<le> MAX_SNAPSHOT_PNG_BYTES"
  shows "parseChunks (png_bytes (whole h mid)) = Inr (layout 8 (whole h mid))"
proof -
  have "length (whole h mid) = length mid + 2" by (simp add: whole_def)
  then have "items_ok 0 False (whole h mid)" using assms(1-3) by (auto simp: items_ok_whole)
  then show ?thesis using assms(4) by (auto simp: parseChunks_layout)
qed

lemma inner_item_ok: "inner_item p \<Longrightarrow> item_ok p"
  by (simp add: inner_item_def)

lemma whole_item_ok: "header_ok h \<Longrightarrow> \<forall>p \<in> set mid. inner_item p \<Longrightarrow> \<forall>p \<in> set (whole h mid). item_ok p"
  by (auto simp: whole_def dest: inner_item_ok) (simp_all add: header_ok_def item_ok_def)

lemma parse_whole_limit:
  assumes "header_ok h" "\<forall>p \<in> set mid. inner_item p" "parseChunks (png_bytes (whole h mid)) = Inr cs"
  shows "length mid + 2 \<le> MAX_SNAPSHOT_PNG_CHUNKS"
proof -
  obtain qs where qs: "items_ok 0 False qs" "png_bytes (whole h mid) = png_bytes qs"
    using assms(3) by (auto simp: parseChunks_layout)
  have "whole h mid = qs"
    using whole_item_ok [OF assms(1,2)] items_ok_item [OF qs(1)] qs(2)
    by (intro png_bytes_inj) auto
  then show ?thesis using qs(1) by (auto simp: items_ok_whole whole_def)
qed

lemma length_layout [simp]: "length (layout offset ps) = length ps"
  by (induction offset ps rule: layout.induct) simp_all

lemma kept_layout_length: "length (filter kept_chunk (layout offset ps)) = length (filter kept_item ps)"
  by (metis kept_items length_map)

definition new_count :: "embeddedAvatarAnimation option \<Rightarrow> nat" where
  "new_count animation = (case animation of None \<Rightarrow> 1 | Some _ \<Rightarrow> 2)"

lemma length_new_items [simp]: "length (new_items t animation) = new_count animation"
  by (simp add: new_items_def new_count_def split: option.splits)

text \<open>
  C18. An encoded image can be read back exactly when its chunks fit: when \<open>encodeAgentImage\<close> returns
  bytes, they are accepted by \<open>parseChunks\<close> iff the chunks it keeps and the one or two it adds
  are at most 4096. (The encoder checks the byte limit but not the chunk limit, so an accepted
  image close to 4096 chunks encodes to an image that is rejected.)
\<close>

theorem encoded_readable_iff:
  assumes "encodeAgentImage sf img snapshot animation = Inr out" "parseChunks img = Inr cs"
  shows "(\<exists>cs'. parseChunks out = Inr cs') \<longleftrightarrow>
    length (filter kept_chunk cs) + new_count animation \<le> MAX_SNAPSHOT_PNG_CHUNKS"
proof -
  from encoded_items [OF assms(1)] obtain h mid v where img: "parseChunks img = Inr (layout 8 (whole h mid))"
    and out: "out = png_bytes (whole h (before_image mid
      @ new_items (encodeBase64 (utf8_encode (sf v))) animation @ from_image mid))"
    and len: "length out \<le> MAX_SNAPSHOT_PNG_BYTES" and h: "header_ok h"
    and inner: "\<forall>p \<in> set (before_image mid
      @ new_items (encodeBase64 (utf8_encode (sf v))) animation @ from_image mid). inner_item p"
    by metis
  let ?mid' = "before_image mid @ new_items (encodeBase64 (utf8_encode (sf v))) animation @ from_image mid"
  have "length (filter kept_chunk cs) = length (filter kept_item mid) + 2"
    using img assms(2) by (auto simp: kept_layout_length) (simp add: whole_def)
  moreover have "length (filter kept_item mid) = length (before_image mid) + length (from_image mid)"
    by (metis before_from_image length_append)
  ultimately have "length (filter kept_chunk cs) + new_count animation = length ?mid' + 2" by simp
  then show ?thesis
    using parse_whole [OF h inner] parse_whole_limit [OF h inner] len unfolding out by metis
qed

section \<open>Reading back\<close>

lemma keyword_text:
  assumes "\<forall>c \<in> set t. c < 128"
  shows "item_text (js ''tEXt'', utf8_encode (SNAPSHOT_PNG_KEYWORD @ [0] @ t)) = Some t"
proof -
  have k: "\<forall>c \<in> set SNAPSHOT_PNG_KEYWORD. c < 128" "\<forall>c \<in> set SNAPSHOT_PNG_KEYWORD. byte_of c \<noteq> 0"
    "length SNAPSHOT_PNG_KEYWORD = 19"
    by (simp_all add: SNAPSHOT_PNG_KEYWORD_def js_def byte_of_def)
  have u: "utf8_encode (SNAPSHOT_PNG_KEYWORD @ [0] @ t) = map byte_of SNAPSHOT_PNG_KEYWORD @ 0 # map byte_of t"
    using assms k(1) by (subst utf8_encode_ascii) (auto simp: byte_of_def)
  have "takeWhile (\<lambda>x. x \<noteq> 0) (map byte_of SNAPSHOT_PNG_KEYWORD @ 0 # map byte_of t) = map byte_of SNAPSHOT_PNG_KEYWORD"
    using k(2) by (subst takeWhile_append2) auto
  then have "index_of 0 (map byte_of SNAPSHOT_PNG_KEYWORD @ 0 # map byte_of t) = Some 19"
    using k(3) by (simp add: index_of_def)
  then show ?thesis
    using ascii_decode_ascii [OF k(1)] ascii_decode_ascii [OF assms] k(3)
    by (simp add: item_text_def snapshotText_def chunk_at_def u [simplified] subarray_def)
qed

lemma map_filter_none: "\<forall>x \<in> set xs. f x = None \<Longrightarrow> List.map_filter f xs = []"
  by (induction xs) simp_all

lemma texts_of_layout: "List.map_filter snapshotText (layout offset ps) = List.map_filter item_text ps"
proof -
  have "List.map_filter snapshotText cs = List.map_filter item_text (map item_of cs)" for cs
    by (simp add: List.map_filter_def filter_map comp_def snapshotText_item)
  from this [of "layout offset ps"] show ?thesis by simp
qed

lemma kept_text: "p \<in> set (before_image mid) \<or> p \<in> set (from_image mid) \<Longrightarrow> kept_item p"
  using arg_cong [OF before_from_image [of mid], of set] by auto

lemma output_texts:
  assumes "\<forall>c \<in> set t. c < 128"
  shows "List.map_filter item_text (whole h (before_image mid @ new_items t animation @ from_image mid)) = [t]"
proof -
  have none: "List.map_filter item_text (before_image mid) = []" "List.map_filter item_text (from_image mid) = []"
    using kept_text by (auto intro!: map_filter_none simp: kept_item_def)
  have app: "List.map_filter f (xs @ ys) = List.map_filter f xs @ List.map_filter f ys" for f :: "'a \<Rightarrow> 'b option" and xs ys
    by (simp add: List.map_filter_def)
  have "item_text (js ''IHDR'', h) = None" "item_text (js ''IEND'', []) = None"
    "item_text (AVATAR_ANIMATION_CHUNK, d) = None" for d
    using kept_header [of h] kept_end [of "[]"]
    by (simp_all add: kept_item_def item_text_def snapshotText_def chunk_at_def AVATAR_ANIMATION_CHUNK_def)
  then show ?thesis
    using keyword_text [OF assms]
    by (simp add: whole_def app none new_items_def split: option.splits)
qed

text \<open>
  C16. A snapshot embedded in an image is the snapshot read back: if \<open>encodeAgentImage\<close> returns bytes
  that \<open>parseChunks\<close> accepts, \<open>decodeAgentImage\<close> on them returns the validated snapshot (without
  the two legacy animation properties of its profile), whatever snapshots, animations and other
  chunks the image carried before, provided the JSON text of that snapshot parses back to it.
\<close>

theorem snapshot_roundtrip:
  assumes "encodeAgentImage json_stringify img snapshot animation = Inr out"
    and "parseChunks out = Inr cs"
    and "\<And>v. validateSnapshotV1 snapshot = Inr v \<Longrightarrow> json_text_ok json_stringify json_parse v"
  shows "\<exists>v. validateSnapshotV1 snapshot = Inr v \<and>
    decodeAgentImage json_parse out = Inr (drop_legacy_animation v)"
proof -
  from encoded_items [OF assms(1)] obtain h mid v where v: "validateSnapshotV1 snapshot = Inr v"
    and out: "out = png_bytes (whole h (before_image mid
      @ new_items (encodeBase64 (utf8_encode (json_stringify v))) animation @ from_image mid))"
    and len: "length out \<le> MAX_SNAPSHOT_PNG_BYTES" and h: "header_ok h"
    and inner: "\<forall>p \<in> set (before_image mid
      @ new_items (encodeBase64 (utf8_encode (json_stringify v))) animation @ from_image mid). inner_item p"
    by metis
  let ?t = "encodeBase64 (utf8_encode (json_stringify v))"
  let ?ps = "whole h (before_image mid @ new_items ?t animation @ from_image mid)"
  have j: "json_parse (json_stringify v) = Some v" "json_stringify v \<noteq> []" "hd (json_stringify v) < 0x80"
    "\<forall>c \<in> set (json_stringify v). scalar c"
    using assms(3) [OF v] by (simp_all add: json_text_ok_def)
  have "parseChunks out = Inr (layout 8 ?ps)"
    using parse_whole [OF h inner] parse_whole_limit [OF h inner] len assms(2) unfolding out by blast
  moreover have "List.map_filter snapshotText (layout 8 ?ps) = [?t]"
    unfolding texts_of_layout by (rule output_texts) (use encoded_ascii in blast)
  moreover have "utf8_encode (json_stringify v) \<noteq> []"
    using j(2) utf8_char_Cons by (cases "json_stringify v") (auto simp: utf8_encode_def)
  then have "decodeBase64 ?t = Inr (utf8_encode (json_stringify v))" by (rule decode_encode_base64)
  moreover have "utf8_decode (utf8_encode (json_stringify v)) = Some (json_stringify v)"
    using j by (intro utf8_roundtrip) auto
  moreover have "validateSnapshotV1 v = Inr v"
    using validated_typed [OF v] by (intro typed_snapshot_fixed) simp
  ultimately show ?thesis using v j(1) by (simp add: decodeAgentImage_def)
qed

text \<open>
  C17. Embedding changes nothing else in the image: the chunks of the output are the kept chunks of the
  input (all but old snapshots and animations) in their order, with the new manifest and animation
  inserted together at one place, after every kept chunk that comes before the first IDAT or IEND
  and directly before that chunk.
\<close>

theorem image_preserved:
  assumes "encodeAgentImage sf img snapshot animation = Inr out"
    and "parseChunks img = Inr cs" "parseChunks out = Inr cs'"
  shows "\<exists>a b t. map item_of (filter kept_chunk cs) = a @ b \<and> map item_of cs' = a @ new_items t animation @ b \<and>
    (\<forall>p \<in> set a. \<not> image_data (fst p)) \<and> b \<noteq> [] \<and> image_data (fst (hd b))"
proof -
  from encoded_items [OF assms(1)] obtain h mid v where img: "parseChunks img = Inr (layout 8 (whole h mid))"
    and out: "out = png_bytes (whole h (before_image mid
      @ new_items (encodeBase64 (utf8_encode (sf v))) animation @ from_image mid))"
    and len: "length out \<le> MAX_SNAPSHOT_PNG_BYTES" and h: "header_ok h"
    and inner: "\<forall>p \<in> set (before_image mid
      @ new_items (encodeBase64 (utf8_encode (sf v))) animation @ from_image mid). inner_item p"
    by metis
  let ?t = "encodeBase64 (utf8_encode (sf v))"
  let ?a = "(js ''IHDR'', h) # before_image mid" and ?b = "from_image mid @ [(js ''IEND'', [])]"
  have "parseChunks out = Inr (layout 8 (whole h (before_image mid @ new_items ?t animation @ from_image mid)))"
    using parse_whole [OF h inner] parse_whole_limit [OF h inner] len assms(3) unfolding out by blast
  then have "cs' = layout 8 (whole h (before_image mid @ new_items ?t animation @ from_image mid))"
    using assms(3) by (simp only: sum.inject)
  then have cs': "map item_of cs' = ?a @ new_items ?t animation @ ?b"
    by (simp only: layout_items) (simp add: whole_def)
  have cs: "map item_of (filter kept_chunk cs) = ?a @ ?b"
    using img assms(2) kept_items [of 8 "whole h mid"] by (simp add: whole_def flip: before_from_image)
  have "\<forall>p \<in> set ?a. \<not> image_data (fst p)"
    by (auto simp: before_image_def image_data_def dest: set_takeWhileD)
  moreover have "image_data (fst (hd ?b))"
  proof (cases "from_image mid")
    case (Cons p ps)
    then show ?thesis
      using hd_dropWhile [of "\<lambda>p. \<not> image_data (fst p)" "filter kept_item mid"]
      by (simp add: from_image_def)
  qed (simp add: image_data_def)
  ultimately show ?thesis using cs cs' by blast
qed

lemma animation_items:
  "map item_of (filter (\<lambda>c. chunk_type c = AVATAR_ANIMATION_CHUNK) (layout offset ps))
    = filter (\<lambda>p. fst p = AVATAR_ANIMATION_CHUNK) ps"
proof -
  have "map item_of (filter (\<lambda>c. chunk_type c = AVATAR_ANIMATION_CHUNK) cs)
      = filter (\<lambda>p. fst p = AVATAR_ANIMATION_CHUNK) (map item_of cs)" for cs
    by (simp add: filter_map comp_def) (simp add: item_of_def)
  from this [of "layout offset ps"] show ?thesis by simp
qed

lemma flags_decode:
  fixes m s :: bool
  defines "f \<equiv> ((if m then 1 else 0) OR (if s then 2 else 0)) :: byte"
  shows "f AND NOT 3 = 0" "f AND 1 \<noteq> 0 \<longleftrightarrow> m" "f AND 2 \<noteq> 0 \<longleftrightarrow> s"
  unfolding f_def by (cases m; cases s; simp)+

text \<open>
  An animation embedded in an image is the animation read back, with its bytes, type and alpha
  mode, and an image encoded without one has none, even if the source image carried one. The
  exception is an animation of no bytes, which is embedded and then rejected as invalid.
\<close>

theorem animation_roundtrip:
  assumes "encodeAgentImage sf img snapshot animation = Inr out" "parseChunks out = Inr cs"
  shows "decodeAvatarAnimation out =
    (case animation of
       None \<Rightarrow> Inr None
     | Some a \<Rightarrow> if anim_bytes a = [] then png_error ''Invalid avatar animation chunk'' else Inr (Some a))"
proof -
  from encoded_items [OF assms(1)] obtain h mid v
    where an: "\<forall>a. animation = Some a \<longrightarrow> length (anim_bytes a) \<le> MAX_SNAPSHOT_AVATAR_ANIMATION_BYTES"
    and out: "out = png_bytes (whole h (before_image mid
      @ new_items (encodeBase64 (utf8_encode (sf v))) animation @ from_image mid))"
    and len: "length out \<le> MAX_SNAPSHOT_PNG_BYTES" and h: "header_ok h"
    and inner: "\<forall>p \<in> set (before_image mid
      @ new_items (encodeBase64 (utf8_encode (sf v))) animation @ from_image mid). inner_item p"
    by metis
  let ?t = "encodeBase64 (utf8_encode (sf v))"
  let ?ps = "whole h (before_image mid @ new_items ?t animation @ from_image mid)"
  let ?anim = "\<lambda>p. fst p = AVATAR_ANIMATION_CHUNK"
  have none: "filter ?anim (before_image mid) = []" "filter ?anim (from_image mid) = []"
    using kept_text [of _ mid] by (auto simp: kept_item_def filter_empty_conv)
  have items: "filter ?anim ?ps = (case animation of None \<Rightarrow> [] | Some a \<Rightarrow> [(AVATAR_ANIMATION_CHUNK, animation_data a)])"
    by (simp add: whole_def none new_items_def split: option.splits) (simp add: AVATAR_ANIMATION_CHUNK_def)
  define chunks where "chunks = filter (\<lambda>c. chunk_type c = AVATAR_ANIMATION_CHUNK) (layout 8 ?ps)"
  have mc: "map item_of chunks = (case animation of None \<Rightarrow> [] | Some a \<Rightarrow> [(AVATAR_ANIMATION_CHUNK, animation_data a)])"
    unfolding chunks_def animation_items items by (rule refl)
  have parse: "parseChunks out = Inr (layout 8 ?ps)"
    using parse_whole [OF h inner] parse_whole_limit [OF h inner] len assms(2) unfolding out by blast
  note decode = decodeAvatarAnimation_def [of out, unfolded parse sum.case Let_def chunks_def [symmetric]]
  show ?thesis
  proof (cases animation)
    case None
    then show ?thesis using mc by (simp add: decode)
  next
    case (Some a)
    then obtain c where c: "chunks = [c]" "chunk_data c = animation_data a"
      using mc by (auto simp: item_of_def map_eq_Cons_conv)
    note fl = flags_decode [of "mimeType a = VideoMp4" "alphaMode a = Some Stacked"]
    have "mimeType a = (if mimeType a = VideoMp4 then VideoMp4 else VideoWebm)"
      by (cases "mimeType a") auto
    moreover have "alphaMode a = (if alphaMode a = Some Stacked then Some Stacked else None)"
      by (cases "alphaMode a") (auto intro: alpha_mode.exhaust)
    ultimately have "a = \<lparr> anim_bytes = anim_bytes a, mimeType = (if mimeType a = VideoMp4 then VideoMp4 else VideoWebm),
        alphaMode = (if alphaMode a = Some Stacked then Some Stacked else None) \<rparr>" by (cases a) auto
    then show ?thesis
      using an Some by (simp add: decode c animation_data_def fl)
  qed
qed

section \<open>A concrete image\<close>

definition demo_header :: "byte list" where
  \<comment> \<open>one pixel of eight-bit RGBA\<close>
  "demo_header = map byte_of [0, 0, 0, 1, 0, 0, 0, 1, 8, 6, 0, 0, 0]"

definition demo_image :: "nat \<Rightarrow> byte list" where
  \<comment> \<open>with \<open>n\<close> empty ancillary chunks\<close>
  "demo_image n = png_bytes (whole demo_header (replicate n (js ''tIME'', [])))"

definition demo_animation :: embeddedAvatarAnimation where
  "demo_animation = \<lparr> anim_bytes = [1, 2, 3], mimeType = VideoMp4, alphaMode = Some Stacked \<rparr>"

definition demo_text :: "json \<Rightarrow> ustring" where
  "demo_text v = js ''{}''"

lemma length_png_bytes:
  "length (png_bytes ps) = 8 + sum_list (map (\<lambda>p. length (fst p) + length (snd p) + 8) ps)"
  by (simp add: png_bytes_def length_concat comp_def)

lemma demo_header_ok: "header_ok demo_header"
  by (simp add: header_ok_def demo_header_def readU32_def dimensions_exceed_def
      MAX_SNAPSHOT_IMAGE_DIMENSION_def MAX_SNAPSHOT_IMAGE_PIXELS_def)

lemma demo_inner: "\<forall>p \<in> set (replicate n (js ''tIME'', [])). inner_item p"
  by (simp add: inner_item_def item_ok_def chunk_name_def js_def type_letter_def)

lemma demo_length: "length (demo_image n) = 45 + 12 * n"
  by (simp add: demo_image_def length_png_bytes whole_def demo_header_def sum_list_replicate js_def)

lemma demo_parses:
  assumes "n + 2 \<le> MAX_SNAPSHOT_PNG_CHUNKS"
  shows "parseChunks (demo_image n) = Inr (layout 8 (whole demo_header (replicate n (js ''tIME'', []))))"
  unfolding demo_image_def
proof (rule parse_whole [OF demo_header_ok demo_inner])
  show "length (png_bytes (whole demo_header (replicate n (js ''tIME'', [])))) \<le> MAX_SNAPSHOT_PNG_BYTES"
    using assms demo_length [of n]
    by (simp add: demo_image_def MAX_SNAPSHOT_PNG_CHUNKS_def MAX_SNAPSHOT_PNG_BYTES_def)
qed (use assms in simp)

lemma demo_kept: "filter kept_item (replicate n (js ''tIME'', [])) = replicate n (js ''tIME'', [])"
  by (simp add: kept_item_def item_text_def snapshotText_def chunk_at_def AVATAR_ANIMATION_CHUNK_def filter_replicate)

lemma demo_split:
  "before_image (replicate n (js ''tIME'', [])) = replicate n (js ''tIME'', [])"
  "from_image (replicate n (js ''tIME'', [])) = []"
  by (simp_all add: before_image_def from_image_def demo_kept image_data_def takeWhile_replicate dropWhile_replicate)

lemma demo_encodes:
  assumes "n + 2 \<le> MAX_SNAPSHOT_PNG_CHUNKS"
  shows "\<exists>out. encodeAgentImage demo_text (demo_image n) demo_snapshot (Some demo_animation) = Inr out"
proof -
  let ?t = "encodeBase64 (utf8_encode (js ''{}''))"
  have "length ?t = 4"
    by (simp add: encodeBase64_groups base64_groups_length js_def utf8_encode_def utf8_char_def)
  then have l: "length (utf8_encode (SNAPSHOT_PNG_KEYWORD @ [0] @ ?t)) = 24"
    using encoded_ascii [of "utf8_encode (js ''{}'')"]
    by (subst utf8_encode_ascii) (auto simp: SNAPSHOT_PNG_KEYWORD_def js_def)
  have "items_ok 0 False (whole demo_header (replicate n (js ''tIME'', [])))"
    using assms demo_header_ok demo_inner by (auto simp: items_ok_whole) (simp add: whole_def)
  moreover have "length (demo_image n) \<le> MAX_SNAPSHOT_PNG_BYTES"
    using assms by (simp add: demo_length MAX_SNAPSHOT_PNG_CHUNKS_def MAX_SNAPSHOT_PNG_BYTES_def)
  moreover have "length (png_bytes (embed_items ?t (Some demo_animation)
      (whole demo_header (replicate n (js ''tIME'', []))))) \<le> MAX_SNAPSHOT_PNG_BYTES"
    using assms l unfolding embed_whole demo_split
    by (simp add: length_png_bytes whole_def new_items_def demo_header_def sum_list_replicate
        js_def AVATAR_ANIMATION_CHUNK_def animation_data_def demo_animation_def
        MAX_SNAPSHOT_PNG_CHUNKS_def MAX_SNAPSHOT_PNG_BYTES_def)
  moreover have "\<forall>a. Some demo_animation = Some a \<longrightarrow> length (anim_bytes a) \<le> MAX_SNAPSHOT_AVATAR_ANIMATION_BYTES"
    by (simp add: demo_animation_def MAX_SNAPSHOT_AVATAR_ANIMATION_BYTES_def)
  ultimately show ?thesis
    using demo_snapshot_valid unfolding encodeAgentImage_iff demo_image_def demo_text_def by blast
qed

lemma demo_kept_count:
  "length (filter kept_chunk (layout 8 (whole demo_header (replicate n (js ''tIME'', []))))) = n + 2"
  unfolding kept_layout_length by (simp add: whole_def demo_kept)

text \<open>An image of 4096 chunks is accepted and encoded, and the result cannot be read.\<close>

theorem encoded_readable_iff_witness:
  "\<exists>cs out. parseChunks (demo_image 4094) = Inr cs \<and>
    encodeAgentImage demo_text (demo_image 4094) demo_snapshot (Some demo_animation) = Inr out \<and>
    \<not> (\<exists>cs'. parseChunks out = Inr cs')"
proof -
  have n: "4094 + 2 \<le> MAX_SNAPSHOT_PNG_CHUNKS" by (simp add: MAX_SNAPSHOT_PNG_CHUNKS_def)
  obtain out where out: "encodeAgentImage demo_text (demo_image 4094) demo_snapshot (Some demo_animation) = Inr out"
    using demo_encodes [OF n] by blast
  show ?thesis
    using encoded_readable_iff [OF out demo_parses [OF n]] out demo_parses [OF n]
    by (simp add: demo_kept_count new_count_def MAX_SNAPSHOT_PNG_CHUNKS_def)
qed

lemma demo_output:
  "\<exists>out cs. encodeAgentImage demo_text (demo_image 0) demo_snapshot (Some demo_animation) = Inr out
    \<and> parseChunks out = Inr cs"
proof -
  have n: "0 + 2 \<le> MAX_SNAPSHOT_PNG_CHUNKS" by (simp add: MAX_SNAPSHOT_PNG_CHUNKS_def)
  obtain out where out: "encodeAgentImage demo_text (demo_image 0) demo_snapshot (Some demo_animation) = Inr out"
    using demo_encodes [OF n] by blast
  from encoded_items [OF out] obtain h mid v where o: "demo_image 0 = png_bytes (whole h mid)"
    "items_ok 0 False (whole h mid)"
    "out = png_bytes (whole h (before_image mid
      @ new_items (encodeBase64 (utf8_encode (demo_text v))) (Some demo_animation) @ from_image mid))"
    "length out \<le> MAX_SNAPSHOT_PNG_BYTES" "header_ok h"
    "\<forall>p \<in> set (before_image mid
      @ new_items (encodeBase64 (utf8_encode (demo_text v))) (Some demo_animation) @ from_image mid). inner_item p"
    "parseChunks (demo_image 0) = Inr (layout 8 (whole h mid))"
    by metis
  have "whole h mid = whole demo_header (replicate 0 (js ''tIME'', []))"
    using o(1) items_ok_item [OF o(2)] whole_item_ok [OF demo_header_ok demo_inner [of 0]]
    unfolding demo_image_def by (intro png_bytes_inj) auto
  then have "mid = []" by (simp add: whole_def)
  then have "\<exists>cs. parseChunks out = Inr cs"
    using parse_whole [OF o(5,6)] o(3,4)
    by (simp add: before_image_def from_image_def new_count_def MAX_SNAPSHOT_PNG_CHUNKS_def)
  then show ?thesis using out by blast
qed

theorem snapshot_roundtrip_witness:
  "\<exists>out v. encodeAgentImage demo_text (demo_image 0) demo_snapshot (Some demo_animation) = Inr out \<and>
    validateSnapshotV1 demo_snapshot = Inr v \<and>
    decodeAgentImage (\<lambda>_. Some v) out = Inr (drop_legacy_animation v)"
proof -
  obtain out cs where out: "encodeAgentImage demo_text (demo_image 0) demo_snapshot (Some demo_animation) = Inr out"
    "parseChunks out = Inr cs" using demo_output by blast
  define w where "w = projr (validateSnapshotV1 demo_snapshot)"
  have w: "validateSnapshotV1 demo_snapshot = Inr w" by (simp add: w_def demo_snapshot_valid)
  have "json_text_ok demo_text (\<lambda>_. Some w) v" if "validateSnapshotV1 demo_snapshot = Inr v" for v
    using that w by (simp add: json_text_ok_def demo_text_def js_def scalar_def)
  from snapshot_roundtrip [OF out this] w out(1) show ?thesis by auto
qed

theorem image_preserved_witness:
  "\<exists>out cs' a b t. encodeAgentImage demo_text (demo_image 0) demo_snapshot (Some demo_animation) = Inr out \<and>
    parseChunks out = Inr cs' \<and> map item_of cs' = a @ new_items t (Some demo_animation) @ b"
proof -
  obtain out cs where out: "encodeAgentImage demo_text (demo_image 0) demo_snapshot (Some demo_animation) = Inr out"
    "parseChunks out = Inr cs" using demo_output by blast
  have "0 + 2 \<le> MAX_SNAPSHOT_PNG_CHUNKS" by (simp add: MAX_SNAPSHOT_PNG_CHUNKS_def)
  from image_preserved [OF out(1) demo_parses [OF this] out(2)] out show ?thesis by blast
qed

theorem animation_roundtrip_witness:
  "\<exists>out. encodeAgentImage demo_text (demo_image 0) demo_snapshot (Some demo_animation) = Inr out \<and>
    decodeAvatarAnimation out = Inr (Some demo_animation)"
proof -
  obtain out cs where out: "encodeAgentImage demo_text (demo_image 0) demo_snapshot (Some demo_animation) = Inr out"
    "parseChunks out = Inr cs" using demo_output by blast
  from animation_roundtrip [OF out] out(1) show ?thesis by (auto simp: demo_animation_def)
qed

end
