(* ===== verification/Spec2Isabelle.thy ===== *)
theory Spec2Isabelle
  imports ChatProperties ChatStreamProperties ChatQueueProperties QueueLoading SessionTarget
    MeasurementDelivery CoordinatorRuns RowCoverage KeepAlive MeasurementSafety TranscriptShows
    RevisionProperties PathIdentity TerminalController TargetLeases
    PngRoundtrip
begin

text \<open>
  A verification library for Berd, a desktop client for coding agents (TypeScript under
  \<open>src/src\<close>). It models the parts of the client that keep state and decide: the chat store
  with its message queue and what survives a restart, the execution target of a session with the
  coordinator that changes it, the provider catalog, the scroll position and the range of transcript rows
  that are rendered, the comparison of filesystem paths, the terminal panel, and the images that carry an agent.

  \<^bold>\<open>The program.\<close> A window shows sessions, each a transcript of messages exchanged with an
  agent through a backend. The chat store (\<open>features/chat/stores/chatStore.ts\<close>) keeps, per
  session, the messages, the state of the current run, a queue of messages to send, and drafts; it
  writes unread marks, drafts and queues to local storage, and the queues also to the native side.
  A target coordinator (\<open>features/chat/lib/sessionTargetCoordinator.ts\<close>) decides on which
  harness, provider and model a session runs: it takes requests to change the target, has the backend
  prepare it, and settles each request through a reducer (\<open>sessionTargetReducer.ts\<close>); while a
  message is dispatched it leases the target, so that nothing changes it. Messages become the items of the
  transcript in \<open>buildTranscriptItems.ts\<close>. The transcript view
  renders only the rows near the viewport
  (\<open>features/chat/transcript/virtual/transcriptVirtualRange.ts\<close>); a controller beside it
  (\<open>transcriptVirtualController.ts\<close>) keeps the measured heights and an anchor, and proposes a new
  scroll position whenever heights or rows change above what the user looks at. Heights come from a
  scheduler (\<open>transcriptMeasurementScheduler.ts\<close>), which drops the stale ones, keeps a cache and
  hands the others to the controller in batches. Only the viewport coordinator
  (\<open>transcriptViewportCoordinator.ts\<close>) moves the browser: each change of the controller is a
  transaction of reading the browser, changing the controller, writing at most one position and publishing
  the accepted one to the controller. What a row must remember while it is not mounted, and which rows must
  not be unmounted because the user interacts with them, is kept by the row state registry
  (\<open>transcriptRowStateRegistry.ts\<close>). Beside the transcript a session has a terminal panel (\<open>features/terminal\<close>) with one tab per working directory; which
  paths name the same directory, and which lie inside another, is decided in
  \<open>shared/lib/pathIdentity.ts\<close>. An agent is shared as a PNG image with its description in a text
  chunk (\<open>features/agents/agent-snapshot\<close>).

  \<^bold>\<open>The theories.\<close>
  \<^item> \<open>Prelude\<close>: numbers, JSON values, objects as association lists with the interface
    \<open>js_dict\<close>, step systems with an invariant (\<open>step_system\<close>), array searches.
  \<^item> \<open>JsStrings\<close>: string methods of the language.
  \<^item> \<open>Messages\<close>: the types of \<open>shared/types/messages.ts\<close> and \<open>chat.ts\<close>.
  \<^item> \<open>ClientStorage\<close>: local storage, \<open>unreadPersistence.ts\<close>,
    \<open>draftPersistence.ts\<close>.
  \<^item> \<open>QueuePersistence\<close>: queued messages (\<open>admittedSend.ts\<close>) and
    \<open>queuePersistence.ts\<close>; \<open>QueueReload\<close> and \<open>QueueLoading\<close> show what
    loading gives back, for what the program wrote and for any stored value.
  \<^item> \<open>ChatStore\<close>, \<open>ChatStreaming\<close>, \<open>ChatQueue\<close>: the chat store, one definition
    per helper and action, with the module state of \<open>hooks/replayBuffer.ts\<close>.
  \<^item> \<open>ChatTrim\<close>: eviction from the message cache. \<open>ChatInvariants\<close>: all actions as a
    datatype, the store's invariant. \<open>ChatSync\<close>: the persisted unread marks and drafts follow
    the store. \<open>NativeQueues\<close>: the native queue file
    (\<open>src-tauri/src/commands/message_queues.rs\<close>), which on the desktop is read before local storage.
    \<open>QueueSync\<close>: both places follow the store, by one interface, \<open>queue_follower\<close>, with the
    interpretations \<open>cache\<close> and \<open>filed\<close>.
  \<^item> \<open>ChatProperties\<close>, \<open>ChatStreamProperties\<close>, \<open>ChatQueueProperties\<close>: the
    properties of the store.
  \<^item> \<open>SessionTarget\<close>: \<open>sessionExecutionTarget.ts\<close>, \<open>modelIdentity.ts\<close> and
    \<open>sessionTargetReducer.ts\<close> with their properties.
  \<^item> \<open>ProviderCatalog\<close>: the provider catalog, provider keys and the provider of a model
    (\<open>features/providers\<close>); \<open>ServeTarget\<close>: targets as the backend's provider and model
    fields (\<open>gooseServeExecutionTarget.ts\<close>).
  \<^item> \<open>TargetCoordinator\<close>: \<open>sessionTargetCoordinator.ts\<close> over the execution fields
    of \<open>chatSessionStore.ts\<close>. \<open>TargetFrames\<close>: the interface \<open>target_frame\<close>, a
    relation between worlds that holds across the primitive steps, and the composite operations it then
    holds across. \<open>TargetQuiet\<close>: the invariant of the requests, the instance \<open>quiet\<close>.
    \<open>TargetRequests\<close>: the loop and the requests, with their properties.
    \<open>TargetLeases\<close>: \<open>loop_frame\<close>, a \<open>target_frame\<close> that the whole loop keeps, with the
    instances \<open>calm\<close> (leased targets stay pinned) and \<open>tidy\<close> (the registry of actors stays well
    formed); the registry over all actions (interpretation \<open>actors\<close>), the invariant of the leases
    (interpretation \<open>leases\<close>) and the properties of both.
  \<^item> \<open>VirtualRange\<close>: \<open>transcriptVirtualRange.ts\<close> with its properties.
    \<open>ViewportTransition\<close>: \<open>transcriptGeometryTransition.ts\<close>, observed position and pending
    proposal. \<open>VirtualController\<close>: \<open>transcriptVirtualController.ts\<close>, every method over the
    record of its fields. \<open>VirtualStability\<close>: its invariant over all actions (interpretation
    \<open>controller\<close>), the cached range, measurements, streaming rows. \<open>VirtualAnchors\<close>: what the
    anchor keeps (interpretation \<open>held\<close>, whose steps are the ones that do not move the view).
  \<^item> \<open>MeasurementScheduler\<close>: \<open>transcriptMeasurementScheduler.ts\<close> and the decision of
    \<open>transcriptLayoutPending.ts\<close>. \<open>MeasurementFlow\<close>: the cache and the scheduler's invariant
    over all operations (interpretation \<open>scheduler\<close>). \<open>MeasurementDelivery\<close>: the queue, the
    rank of the sources, and the way into the controller: the interface \<open>measured_controller\<close>, which
    the transcript controller provides (interpretation \<open>transcript\<close>).
  \<^item> \<open>ViewportCoordinator\<close>: \<open>transcriptViewportCoordinator.ts\<close> over records of functions
    for the engine (\<open>transcriptVirtualEngine.ts\<close>) and the browser, with the blank pixels that
    \<open>browserViewport.ts\<close> counts. \<open>CoordinatorProperties\<close>: the interface
    \<open>geometry_engine\<close>, the transaction over it, and the controller as an engine (interpretation
    \<open>engine\<close>). \<open>CoordinatorRuns\<close>: coordinator, controller and browser together
    (interpretation \<open>suspended\<close>). \<open>RowCoverage\<close>: what the blank pixels are.
  \<^item> \<open>RowState\<close>: \<open>transcriptRowStateRegistry.ts\<close> and the way of its decision into the
    rendered range. \<open>RowStateRuns\<close>: all its operations, their invariant (interpretation
    \<open>registry\<close>) and the signals that last until their source ends them (interpretation
    \<open>interaction\<close>). \<open>KeepAlive\<close>: the decision which rows stay mounted.
  \<^item> \<open>MeasurementPolicy\<close>: \<open>transcriptMeasurementPolicy.ts\<close>, which rows may be rendered a
    second time to be measured; \<open>MeasurementSafety\<close>: a row in use never is, from what its user
    interface reports down to the scheduler.
  \<^item> \<open>JsRegex\<close>: the regular expressions of the language, as the list of their matches in the order of
    backtracking. \<open>MarkdownFragments\<close>: how \<open>buildTranscriptItems.ts\<close> cuts a long answer;
    \<open>FragmentProperties\<close>: cutting ends, keeps every line, and adds a fence only to a block of code that
    is left open. \<open>ReasoningText\<close>: the text of
    thoughts in the same file. \<open>TranscriptItems\<close> and \<open>TranscriptProjection\<close>: the rest of it,
    from messages to items. \<open>ProjectionProperties\<close> and \<open>TranscriptShows\<close>: what the items keep of a
    message and a transcript. \<open>MessageRevisions\<close>: \<open>messageRevisions.ts\<close>;
    \<open>RevisionProperties\<close>: the order of keys does not matter.
  \<^item> \<open>PathIdentity\<close>: \<open>pathIdentity.ts\<close> with its properties; each regular expression is the
    test or split it stands for.
  \<^item> \<open>TerminalState\<close>: the model of the panel (\<open>terminalState.ts\<close>) and its tabs;
    \<open>TerminalGeometry\<close>: the floating rectangle at rest, dragged and resized;
    \<open>TerminalController\<close>: the callbacks of \<open>useTerminalController.ts\<close>, storage
    (\<open>usePersistedState.ts\<close>) and the panel's invariant over all actions.
  \<^item> \<open>Crc32\<close>: the checksum of PNG chunks and the shift register it computes; \<open>WebText\<close>: the
    text functions of the platform (UTF-8, windows-1252, base64); \<open>SnapshotBase64\<close>, \<open>PngChunks\<close>,
    \<open>SnapshotSchema\<close>, \<open>PngCodec\<close>: \<open>pngCodec.ts\<close> and \<open>schema.ts\<close>, with the grammar
    that \<open>parseChunks\<close> accepts and exactly the values that \<open>validateSnapshotV1\<close> accepts; \<open>PngRoundtrip\<close>: what embedding keeps and decoding reads back.

  \<^bold>\<open>State and operations.\<close> An action of the store that only calls \<open>set\<close> is a
  function on the record \<open>chat_store\<close>; one that also writes storage, clears replay buffers or
  reads the store again is a function on the record \<open>chat_world\<close> (the store, the environment
  \<open>client_env\<close> with local storage and the native writes, the replay buffers). Where an action
  calls \<open>set\<close> with a function, that function is a definition of its own with the suffix
  \<open>_set\<close>. What an action returns comes first in a pair. Random ids and the clock are
  arguments. Errors that are thrown are the left side of a sum.

  The coordinator is asynchronous: what it does between two \<open>await\<close>s is one step on the record
  \<open>target_world\<close>. Its actors and operations are shared objects, so they are named by positions in
  lists; a promise is the outcome of an operation, absent until it settles; the \<open>pc\<close> of an actor
  says where its loop waits. An action is a call of an operation, an answer of the repair of a selection or
  of the backend, the end of a wait, or a write of other code to the session store; any sequence of
  actions is a run.

  \<^bold>\<open>What the lemmas show.\<close> \<open>chat\<close>, \<open>queues\<close> and \<open>filed_queues\<close> are
  interpretations of \<open>step_system\<close> on the model's own actions: every sequence of enabled actions
  keeps the store well formed, and, while storage can be written, the persisted marks, drafts and queues equal
  to what a restart should find; the native queue file is so also when local storage cannot be written.
  \<open>ready\<close> interprets \<open>fifo\<close> on a session's queue. \<open>targets\<close> and \<open>terminal\<close>
  interpret \<open>step_system\<close> on the target reducer and on the terminal panel. \<open>quiet\<close>,
  \<open>calm\<close> and \<open>tidy\<close> interpret \<open>target_frame\<close> on three relations between worlds of the
  coordinator, and \<open>requests\<close>, \<open>actors\<close> and \<open>leases\<close> interpret \<open>step_system\<close> on
  its actions: no request is lost, the registry of actors is well formed whatever happens, and a lease pins its
  target but for the actions that \<open>keeps_leases\<close> excepts, after which the next change of the store pins
  it again. \<open>items\<close> interprets \<open>self_delimiting\<close> on PNG chunks: a
  file is read in one way only. \<open>controller\<close>, \<open>held\<close>, \<open>scheduler\<close>,
  \<open>suspended\<close>, \<open>registry\<close> and \<open>interaction\<close> interpret \<open>step_system\<close> on the transcript:
  what the user looks at or works with stays in place while heights and rows arrive. \<open>transcript\<close> and \<open>engine\<close> interpret the two
  interfaces through which scheduler and coordinator use the controller, so that measured heights arrive and
  every transaction leaves browser and controller at the same position. The properties say, for the operations
  that matter most, what they do on every branch; where a property has hypotheses, a witness beside it applies
  it to concrete data.

  \<^bold>\<open>Parameters.\<close> The URL parser and \<open>decodeURIComponent\<close> are arguments of
  \<open>fileUrlToPath\<close>; the lookup of a model's provider among the cached models is an argument of the
  coordinator's observations, the answers of the backend and of \<open>repairManagedGooseModelSelection\<close>
  come with the steps; the text of a JSON value is an argument of the image codec; the browser under the
  coordinator is a record of functions on any state, and only \<open>browser_follows_bottom\<close> assumes of it
  that it scrolls within its content (\<open>honest_browser\<close>); the platform, the window's size, random ids
  and the clock are arguments where they are used, as are \<open>localeCompare\<close>, the user's
  calendar and the decimal text of a number, of which nothing is assumed.

  \<^bold>\<open>Loops and bounds.\<close> Every loop is a structural recursion or, in \<open>VirtualRange\<close>,
  \<open>TerminalState\<close> and the image codec, a function with a proved measure (for the search of a free tab
  id, the number of candidates still taken; for the blocks of an answer, the lines that are left); the loop that
  cuts a text is a partial function, so that \<open>splitting_ends\<close> says that it returns; nothing needs fuel. The hash of a directory and the checksum of a
  chunk are kept at their 32 bits. The cache limit is ten sessions, as in the code; the limit of the measurement
  cache is an argument. Numbers are exact rationals: rounding and \<open>NaN\<close> are not modelled (a JSON
  number that is not finite is a separate value, a measured height that is not finite the value
  \<open>None\<close>). Objects keep insertion order; keys that look like array indices, which a JavaScript object
  would list first, are treated like any other key. Characters are code units below 256, but for the texts of
  the image codec, which are lists of code units.

  \<^bold>\<open>Not modelled.\<close> React components and hooks, the waiter
  \<open>createDispatchReleaseWaiter\<close> around the coordinator's release listeners, the rest of the session
  store, the rows made of the transcript's items, the caches of the projection, its adapter to the TanStack library, the reading of
  the DOM, the other features and the native side but for the queue file, of which the errors of the file
  system are left out. They are listed with reasons in the manifest beside this
  library.
\<close>

end
